(* ===== verification/Prelude.thy ===== *)
theory Prelude
  imports Main "HOL-Library.AList"
begin

text \<open>
  Shared vocabulary of the development.

  \<^item> Opaque identifiers of the program (names, channels, addresses, item ids) are HOL
    \<^typ>\<open>string\<close>s; texts whose length the code measures are lists of UTF-16 code units
    (\<open>jstr\<close>), with JavaScript's \<open>.length\<close>, \<open>Buffer.byteLength\<close> and \<open>[...s].length\<close>.
  \<^item> A JavaScript object or \<open>Map\<close> used as a dictionary is an association list in insertion order:
    \<open>map_of\<close> reads it, \<open>AList.update\<close> writes it (in place, or appended when the key is new).
  \<^item> A throwing function returns \<open>'e + 'a\<close>. \<open>err_bind\<close> sequences such functions and \<open>ensure\<close> is a
    guard that throws; the collection \<open>ok_iff\<close> holds the rules that say when a composed
    computation succeeds.
  \<^item> An argument the code checks with \<open>typeof\<close> is a value of \<open>'a arg\<close>: \<open>Arg v\<close> has the declared
    type, \<open>BadType\<close> is any run-time value of another type.
\<close>

named_theorems ok_iff "when a composed computation returns a value"

subsection \<open>Errors as values\<close>

definition err_bind :: "'e + 'a \<Rightarrow> ('a \<Rightarrow> 'e + 'b) \<Rightarrow> 'e + 'b" where
  "err_bind m f = (case m of Inl e \<Rightarrow> Inl e | Inr x \<Rightarrow> f x)"

definition ensure :: "bool \<Rightarrow> 'e \<Rightarrow> 'e + unit" where
  "ensure b e = (if b then Inr () else Inl e)"

definition of_option :: "'e \<Rightarrow> 'a option \<Rightarrow> 'e + 'a" where
  "of_option e x = (case x of None \<Rightarrow> Inl e | Some v \<Rightarrow> Inr v)"

lemma err_bind_simps [simp]:
  "err_bind (Inl e) f = Inl e"
  "err_bind (Inr x) f = f x"
  by (simp_all add: err_bind_def)

lemma ensure_simps [simp]:
  "ensure True e = Inr ()"
  "ensure False e = Inl e"
  by (simp_all add: ensure_def)

lemma of_option_simps [simp]:
  "of_option e None = Inl e"
  "of_option e (Some v) = Inr v"
  by (simp_all add: of_option_def)

lemma err_bind_ok [ok_iff]: "err_bind m f = Inr y \<longleftrightarrow> (\<exists>x. m = Inr x \<and> f x = Inr y)"
  by (cases m) simp_all

lemma err_bind_err: "err_bind m f = Inl e \<longleftrightarrow> m = Inl e \<or> (\<exists>x. m = Inr x \<and> f x = Inl e)"
  by (cases m) simp_all

lemma ensure_ok [ok_iff]: "ensure b e = Inr u \<longleftrightarrow> b"
  by (simp add: ensure_def)

lemma ensure_err: "ensure b e = Inl e' \<longleftrightarrow> \<not> b \<and> e' = e"
  by (auto simp: ensure_def)

lemma of_option_ok [ok_iff]: "of_option e x = Inr v \<longleftrightarrow> x = Some v"
  by (cases x) simp_all

lemma of_option_err: "of_option e x = Inl e' \<longleftrightarrow> x = None \<and> e' = e"
  by (cases x) auto

text \<open>A loop that may throw, over a list.\<close>

fun err_fold :: "('a \<Rightarrow> 's \<Rightarrow> 'e + 's) \<Rightarrow> 'a list \<Rightarrow> 's \<Rightarrow> 'e + 's" where
  "err_fold f [] s = Inr s"
| "err_fold f (x # xs) s = err_bind (f x s) (err_fold f xs)"

lemma err_fold_append:
  "err_fold f (xs @ ys) s = err_bind (err_fold f xs s) (err_fold f ys)"
  by (induction xs arbitrary: s) (simp_all add: err_bind_def split: sum.splits)

lemma err_fold_invariant:
  assumes "err_fold f xs s = Inr t" and "P s"
    and "\<And>x s t. x \<in> set xs \<Longrightarrow> f x s = Inr t \<Longrightarrow> P s \<Longrightarrow> P t"
  shows "P t"
  using assms
proof (induction xs arbitrary: s)
  case (Cons x xs)
  from Cons.prems(1) obtain u where u: "f x s = Inr u" "err_fold f xs u = Inr t"
    by (auto simp: ok_iff)
  from Cons.prems(3) [OF _ u(1) Cons.prems(2)] have "P u" by simp
  show ?case by (rule Cons.IH [OF u(2) \<open>P u\<close>]) (rule Cons.prems(3), simp_all)
qed simp

text \<open>A value of the declared type, or a run-time value of another type.\<close>

datatype 'a arg = Arg 'a | BadType

fun arg_ok :: "('a \<Rightarrow> bool) \<Rightarrow> 'a arg \<Rightarrow> bool" where
  "arg_ok P (Arg v) = P v"
| "arg_ok P BadType = False"

lemma arg_ok_iff: "arg_ok P a \<longleftrightarrow> (\<exists>v. a = Arg v \<and> P v)"
  by (cases a) simp_all

subsection \<open>Dictionaries\<close>

abbreviation keys :: "('k \<times> 'v) list \<Rightarrow> 'k list" where
  "keys m \<equiv> map fst m"

abbreviation vals :: "('k \<times> 'v) list \<Rightarrow> 'v list" where
  "vals m \<equiv> map snd m"

text \<open>\<open>Object.hasOwn(m, k)\<close>, \<open>Map.has\<close>\<close>

definition has :: "('k \<times> 'v) list \<Rightarrow> 'k \<Rightarrow> bool" where
  "has m k \<longleftrightarrow> map_of m k \<noteq> None"

lemma map_of_update [simp]: "map_of (AList.update k v m) = (map_of m)(k \<mapsto> v)"
  by (rule update_conv')

lemma distinct_keys_update [simp]: "distinct (keys m) \<Longrightarrow> distinct (keys (AList.update k v m))"
  by (rule distinct_update)

lemma set_keys_update [simp]: "set (keys (AList.update k v m)) = insert k (set (keys m))"
  using dom_update [of k v m] by simp

lemma fst_set_update [simp]: "fst ` set (AList.update k v m) = insert k (fst ` set m)"
  using dom_update [of k v m] by simp

lemma has_iff_keys: "has m k \<longleftrightarrow> k \<in> set (keys m)"
  by (simp add: has_def map_of_eq_None_iff)

lemma has_update [simp]: "has (AList.update k v m) k' \<longleftrightarrow> k' = k \<or> has m k'"
  by (simp add: has_def)

lemma has_Cons [simp]: "has ((k, v) # m) k' \<longleftrightarrow> k' = k \<or> has m k'"
  by (simp add: has_def)

lemma has_Nil [simp]: "\<not> has [] k"
  by (simp add: has_def)

lemma map_of_has: "map_of m k = Some v \<Longrightarrow> has m k"
  by (simp add: has_def)

lemma has_map_of: "has m k \<Longrightarrow> \<exists>v. map_of m k = Some v"
  by (simp add: has_def)

lemma not_has_map_of: "\<not> has m k \<Longrightarrow> map_of m k = None"
  by (simp add: has_def)

lemma update_has: "has m k \<Longrightarrow> keys (AList.update k v m) = keys m"
  using update_keys [of k v m] by (simp add: has_iff_keys)

lemma map_of_SomeI: "distinct (keys m) \<Longrightarrow> (k, v) \<in> set m \<Longrightarrow> map_of m k = Some v"
  by (simp add: map_of_is_SomeI)

text \<open>Two states of one dictionary entry that agree on an observation.\<close>

lemma map_snd_update_same:
  assumes "map_of m k = Some v0" and "f v = f v0"
  shows "map f (vals (AList.update k v m)) = map f (vals m)"
  using assms by (induction m) auto

lemma set_update_subset: "set (AList.update k v m) \<subseteq> insert (k, v) (set m)"
  by (induction m) auto

lemma vals_update_subset: "set (vals (AList.update k v m)) \<subseteq> insert v (set (vals m))"
  using set_update_subset [of k v m] by force

lemma update_new: "\<not> has m k \<Longrightarrow> AList.update k v m = m @ [(k, v)]"
  by (induction m) (auto simp: has_iff_keys)

lemma find_SomeD: "find P xs = Some x \<Longrightarrow> x \<in> set xs \<and> P x"
  by (induction xs) (auto split: if_splits)

subsection \<open>Texts\<close>

text \<open>A text is its UTF-16 code units, so \<open>length\<close> is JavaScript's \<open>.length\<close>.\<close>

type_synonym jstr = "nat list"

definition js :: "string \<Rightarrow> jstr" where
  "js s = map of_char s"

lemma length_js [simp]: "length (js s) = length s"
  by (simp add: js_def)

text \<open>
  \<open>Buffer.byteLength(s)\<close>: the UTF-8 length; a well-formed surrogate pair is one code point of four
  bytes, a lone surrogate is replaced by U+FFFD (three bytes).
\<close>

definition high_surrogate :: "nat \<Rightarrow> bool" where
  "high_surrogate u \<longleftrightarrow> 55296 \<le> u \<and> u < 56320"

definition low_surrogate :: "nat \<Rightarrow> bool" where
  "low_surrogate u \<longleftrightarrow> 56320 \<le> u \<and> u < 57344"

fun byte_length :: "jstr \<Rightarrow> nat" where
  "byte_length [] = 0"
| "byte_length [u] = (if u < 128 then 1 else if u < 2048 then 2 else 3)"
| "byte_length (u # v # us) =
     (if high_surrogate u \<and> low_surrogate v then 4 + byte_length us
      else (if u < 128 then 1 else if u < 2048 then 2 else 3) + byte_length (v # us))"

text \<open>\<open>[...s].length\<close>: the number of code points.\<close>

fun code_points :: "jstr \<Rightarrow> nat" where
  "code_points [] = 0"
| "code_points [u] = 1"
| "code_points (u # v # us) =
     (if high_surrogate u \<and> low_surrogate v then Suc (code_points us)
      else Suc (code_points (v # us)))"

lemma code_points_le_length: "code_points s \<le> length s"
  by (induction s rule: code_points.induct) auto

lemma length_le_byte_length: "length s \<le> byte_length s"
  by (induction s rule: byte_length.induct) auto

lemma byte_length_le: "byte_length s \<le> 3 * length s"
  by (induction s rule: byte_length.induct) auto

text \<open>\<open>String.prototype.trim\<close>\<close>

definition js_space :: "nat \<Rightarrow> bool" where
  "js_space u \<longleftrightarrow> u \<in> {9, 10, 11, 12, 13, 32, 160, 5760, 8232, 8233, 8239, 8287, 12288, 65279}
     \<or> (8192 \<le> u \<and> u \<le> 8202)"

definition trim :: "jstr \<Rightarrow> jstr" where
  "trim t = rev (dropWhile js_space (rev (dropWhile js_space t)))"

subsection \<open>Invariants and histories of transition systems\<close>

text \<open>
  The contract of a component that is driven by operations in any order: an invariant that every
  operation keeps and, where there is one, an order that every operation can only go up. The provider
  shows it for one step; its clients get it for every run.
\<close>

locale invariant_system =
  fixes step :: "'s \<Rightarrow> 's \<Rightarrow> bool"
    and inv :: "'s \<Rightarrow> bool"
  assumes step_inv: "inv s \<Longrightarrow> step s t \<Longrightarrow> inv t"
begin

lemma run_inv: "step\<^sup>*\<^sup>* s t \<Longrightarrow> inv s \<Longrightarrow> inv t"
  by (induction rule: rtranclp_induct) (auto intro: step_inv)

end

locale monotone_system = invariant_system step inv
  for step :: "'s \<Rightarrow> 's \<Rightarrow> bool" and inv :: "'s \<Rightarrow> bool" +
  fixes le :: "'s \<Rightarrow> 's \<Rightarrow> bool"
  assumes le_refl: "inv s \<Longrightarrow> le s s"
    and le_trans: "le s t \<Longrightarrow> le t u \<Longrightarrow> le s u"
    and step_le: "inv s \<Longrightarrow> step s t \<Longrightarrow> le s t"
begin

lemma run_le:
  assumes "step\<^sup>*\<^sup>* s t" and "inv s"
  shows "inv t \<and> le s t"
  using assms
proof (induction rule: rtranclp_induct)
  case base
  then show ?case by (simp add: le_refl)
next
  case (step t u)
  then show ?case using step_inv step_le le_trans by blast
qed

end

end
