(* ===== verification/Canonical.thy ===== *)
theory Canonical
  imports Prelude "HOL-Library.List_Lexorder" "HOL-Library.Multiset"
begin

text \<open>
  Canonical JSON: \<^verbatim>\<open>packages/collab-kernel/src/store/canonical.ts\<close>. Log rows are checksummed over,
  and integrator data (\<open>ext\<close>) is measured on, this form.

  A JavaScript value is a \<open>json\<close>: an object lists its own properties in enumeration order, a number
  is integral (the kernel stores sequence numbers, revisions and times). \<open>JUndefined\<close> is \<open>undefined\<close>;
  \<open>JAlien\<close> is any other value without a JSON form (a non-finite number, a bigint, a function, an
  instance of a class, a reference back to an enclosing object).
\<close>

datatype json =
  JNull
| JBool bool
| JNum int
| JStr jstr
| JArr "json list"
| JObj "(jstr \<times> json) list"
| JUndefined
| JAlien

subsection \<open>Property order\<close>

text \<open>
  JavaScript enumerates the properties whose key is a canonical array index first, in ascending
  order, and the others in the order in which they were created.
\<close>

fun digits_value :: "nat \<Rightarrow> jstr \<Rightarrow> nat option" where
  "digits_value acc [] = Some acc"
| "digits_value acc (u # us) =
     (if 48 \<le> u \<and> u \<le> 57 then digits_value (10 * acc + (u - 48)) us else None)"

definition array_index :: "jstr \<Rightarrow> nat option" where
  "array_index k =
     (case k of [] \<Rightarrow> None
      | u # us \<Rightarrow> (if u = 48 \<and> us \<noteq> [] then None
                  else case digits_value 0 k of None \<Rightarrow> None
                       | Some n \<Rightarrow> (if n < 4294967295 then Some n else None)))"

definition own_order :: "(jstr \<times> 'v) list \<Rightarrow> (jstr \<times> 'v) list" where
  "own_order kvs =
     sort_key (\<lambda>kv. the (array_index (fst kv))) (filter (\<lambda>kv. array_index (fst kv) \<noteq> None) kvs)
       @ filter (\<lambda>kv. array_index (fst kv) = None) kvs"

text \<open>\<open>for (const key of Object.keys(value).sort()) out[key] = \<dots>\<close>: keys in code unit order, then
  enumerated as every object is.\<close>

definition canonical_order :: "(jstr \<times> 'v) list \<Rightarrow> (jstr \<times> 'v) list" where
  "canonical_order kvs = own_order (sort_key fst kvs)"

subsection \<open>\<open>sorted\<close> and \<open>JSON.stringify\<close>\<close>

text \<open>\<open>sorted\<close>: \<open>None\<close> is the \<open>TypeError\<close>. Object entries that are \<open>undefined\<close> are dropped.\<close>

fun sorted_json :: "json \<Rightarrow> json option"
  and sorted_list :: "json list \<Rightarrow> json list option"
  and sorted_fields :: "(jstr \<times> json) list \<Rightarrow> (jstr \<times> json) list option" where
  "sorted_json JNull = Some JNull"
| "sorted_json (JBool b) = Some (JBool b)"
| "sorted_json (JNum n) = Some (JNum n)"
| "sorted_json (JStr s) = Some (JStr s)"
| "sorted_json JUndefined = None"
| "sorted_json JAlien = None"
| "sorted_json (JArr xs) = map_option JArr (sorted_list xs)"
| "sorted_json (JObj kvs) = map_option (\<lambda>fs. JObj (canonical_order fs)) (sorted_fields kvs)"
| "sorted_list [] = Some []"
| "sorted_list (x # xs) =
     (case sorted_json x of None \<Rightarrow> None
      | Some y \<Rightarrow> map_option (\<lambda>ys. y # ys) (sorted_list xs))"
| "sorted_fields [] = Some []"
| "sorted_fields ((k, v) # kvs) =
     (if v = JUndefined then sorted_fields kvs
      else case sorted_json v of None \<Rightarrow> None
           | Some w \<Rightarrow> map_option (\<lambda>fs. (k, w) # fs) (sorted_fields kvs))"

definition hex_digit :: "nat \<Rightarrow> nat" where
  "hex_digit d = (if d < 10 then 48 + d else 87 + d)"

definition hex_escape :: "nat \<Rightarrow> jstr" where
  "hex_escape u = [92, 117, hex_digit (u div 4096 mod 16), hex_digit (u div 256 mod 16),
     hex_digit (u div 16 mod 16), hex_digit (u mod 16)]"

definition escape_unit :: "nat \<Rightarrow> jstr" where
  "escape_unit u =
     (if u = 34 then [92, 34] else if u = 92 then [92, 92]
      else if u = 8 then [92, 98] else if u = 12 then [92, 102] else if u = 10 then [92, 110]
      else if u = 13 then [92, 114] else if u = 9 then [92, 116]
      else if u < 32 then hex_escape u else [u])"

text \<open>Well-formed \<open>JSON.stringify\<close>: a lone surrogate is escaped, a pair is copied.\<close>

fun escape_text :: "jstr \<Rightarrow> jstr" where
  "escape_text [] = []"
| "escape_text [u] =
     (if high_surrogate u \<or> low_surrogate u then hex_escape u else escape_unit u)"
| "escape_text (u # v # us) =
     (if high_surrogate u \<and> low_surrogate v then u # v # escape_text us
      else (if high_surrogate u \<or> low_surrogate u then hex_escape u else escape_unit u)
             @ escape_text (v # us))"

definition quote_text :: "jstr \<Rightarrow> jstr" where
  "quote_text s = [34] @ escape_text s @ [34]"

fun decimal :: "nat \<Rightarrow> jstr" where
  "decimal n = (if n < 10 then [48 + n] else decimal (n div 10) @ [48 + n mod 10])"

declare decimal.simps [simp del]

definition number_text :: "int \<Rightarrow> jstr" where
  "number_text n = (if n < 0 then 45 # decimal (nat (- n)) else decimal (nat n))"

fun separated :: "jstr list \<Rightarrow> jstr" where
  "separated [] = []"
| "separated [x] = x"
| "separated (x # y # xs) = x @ [44] @ separated (y # xs)"

text \<open>\<open>JSON.stringify\<close> of a value that \<open>sorted\<close> returned.\<close>

fun stringify :: "json \<Rightarrow> jstr" where
  "stringify JNull = js ''null''"
| "stringify (JBool b) = (if b then js ''true'' else js ''false'')"
| "stringify (JNum n) = number_text n"
| "stringify (JStr s) = quote_text s"
| "stringify (JArr xs) = [91] @ separated (map stringify xs) @ [93]"
| "stringify (JObj kvs) =
     [123] @ separated (map (\<lambda>(k, v). quote_text k @ [58] @ stringify v) kvs) @ [125]"
| "stringify JUndefined = []"
| "stringify JAlien = []"

definition canonicalJson :: "json \<Rightarrow> jstr option" where
  "canonicalJson v = map_option stringify (sorted_json v)"

subsection \<open>Checksummed rows\<close>

text \<open>
  A row is an object; \<open>sha\<close> is \<open>createHash('sha256')\<close> over the UTF-8 of a text, in hex.
  \<open>{ sha256, ...body }\<close> drops the digest; \<open>{ ...body, sha256: d }\<close> writes it.
\<close>

definition sha_key :: jstr where
  "sha_key = js ''sha256''"

definition without_digest :: "(jstr \<times> json) list \<Rightarrow> (jstr \<times> json) list" where
  "without_digest row = filter (\<lambda>kv. fst kv \<noteq> sha_key) row"

definition checksum :: "(jstr \<Rightarrow> jstr) \<Rightarrow> (jstr \<times> json) list \<Rightarrow> jstr option" where
  "checksum sha row = map_option sha (canonicalJson (JObj (without_digest row)))"

definition encode_row :: "(jstr \<Rightarrow> jstr) \<Rightarrow> (jstr \<times> json) list \<Rightarrow> (jstr \<times> json) list option" where
  "encode_row sha row =
     (case sorted_json (JObj row) of
        Some (JObj body) \<Rightarrow>
          (case checksum sha body of None \<Rightarrow> None
           | Some d \<Rightarrow> Some (AList.update sha_key (JStr d) body))
      | _ \<Rightarrow> None)"

definition encodeRecord :: "(jstr \<Rightarrow> jstr) \<Rightarrow> (jstr \<times> json) list \<Rightarrow> jstr option" where
  "encodeRecord sha row = map_option (\<lambda>r. stringify (JObj r) @ [10]) (encode_row sha row)"

text \<open>\<open>decodeRecord\<close> after \<open>JSON.parse\<close>: \<open>None\<close> is the \<open>corrupt\<close> error.\<close>

definition decode_row :: "(jstr \<Rightarrow> jstr) \<Rightarrow> json \<Rightarrow> (jstr \<times> json) list option" where
  "decode_row sha v =
     (case v of
        JObj row \<Rightarrow>
          (case map_of row sha_key of
             Some (JStr d) \<Rightarrow> (if checksum sha row = Some d then Some (without_digest row) else None)
           | _ \<Rightarrow> None)
      | _ \<Rightarrow> None)"


subsection \<open>The order is canonical\<close>

lemma mset_own_order [simp]: "mset (own_order kvs) = mset kvs"
proof -
  have "filter_mset (\<lambda>kv. array_index (fst kv) \<noteq> None) (mset kvs)
      + filter_mset (\<lambda>kv. array_index (fst kv) = None) (mset kvs) = mset kvs"
    by (rule multiset_eqI) auto
  then show ?thesis by (simp add: own_order_def)
qed

lemma mset_canonical_order [simp]: "mset (canonical_order kvs) = mset kvs"
  by (simp add: canonical_order_def)

lemma set_canonical_order [simp]: "set (canonical_order kvs) = set kvs"
  using mset_canonical_order [of kvs] by (metis set_mset_mset)

lemma distinct_keys_mset:
  assumes "mset kvs = mset kvs'" and "distinct (keys kvs)"
  shows "distinct (keys kvs')"
proof -
  have "mset (keys kvs) = mset (keys kvs')" using assms(1) by simp
  then show ?thesis using assms(2) by (rule mset_eq_imp_distinct_iff [THEN iffD1])
qed

lemma canonical_order_perm:
  assumes "mset kvs = mset kvs'" and "distinct (keys kvs)"
  shows "canonical_order kvs = canonical_order kvs'"
proof -
  have "inj_on fst (set kvs)" using assms(2) by (simp add: distinct_map)
  then have "sort_key fst kvs = sort_key fst kvs'"
    using assms(1) by (intro sort_key_inj_key_eq) simp_all
  then show ?thesis by (simp add: canonical_order_def)
qed

lemma distinct_keys_canonical_order [simp]:
  "distinct (keys (canonical_order kvs)) = distinct (keys kvs)"
  using distinct_keys_mset [of kvs "canonical_order kvs"]
    distinct_keys_mset [of "canonical_order kvs" kvs] by auto

lemma canonical_order_idem:
  "distinct (keys kvs) \<Longrightarrow> canonical_order (canonical_order kvs) = canonical_order kvs"
  using canonical_order_perm [of "canonical_order kvs" kvs] by simp

subsection \<open>\<open>sorted\<close> is idempotent and blind to the order of properties\<close>

text \<open>No two own properties of an object share a key.\<close>

fun wf_json :: "json \<Rightarrow> bool" where
  "wf_json (JArr xs) = list_all wf_json xs"
| "wf_json (JObj kvs) = (distinct (keys kvs) \<and> list_all (\<lambda>(k, v). wf_json v) kvs)"
| "wf_json v = True"

lemma sorted_json_defined: "sorted_json v = Some w \<Longrightarrow> w \<noteq> JUndefined"
  by (cases v) auto

lemma sorted_list_fixed:
  "\<forall>x \<in> set xs. sorted_json x = Some x \<Longrightarrow> sorted_list xs = Some xs"
  by (induction xs) simp_all

lemma sorted_fields_fixed:
  "\<forall>(k, v) \<in> set kvs. sorted_json v = Some v \<Longrightarrow> sorted_fields kvs = Some kvs"
  by (induction kvs) (auto dest: sorted_json_defined)

lemma sorted_fields_keys:
  "sorted_fields kvs = Some fs \<Longrightarrow>
     keys fs = keys (filter (\<lambda>kv. snd kv \<noteq> JUndefined) kvs)"
proof (induction kvs arbitrary: fs)
  case (Cons kv kvs)
  then show ?case
    by (cases kv) (auto split: if_splits option.splits)
qed simp

lemma sorted_fields_distinct:
  "sorted_fields kvs = Some fs \<Longrightarrow> distinct (keys kvs) \<Longrightarrow> distinct (keys fs)"
  by (simp add: sorted_fields_keys distinct_map_filter)

lemma sorted_json_idem_aux:
  "wf_json v \<Longrightarrow> sorted_json v = Some w \<Longrightarrow> sorted_json w = Some w"
  "list_all wf_json xs \<Longrightarrow> sorted_list xs = Some ys \<Longrightarrow> \<forall>y \<in> set ys. sorted_json y = Some y"
  "list_all (\<lambda>(k, v). wf_json v) kvs \<Longrightarrow> sorted_fields kvs = Some fs \<Longrightarrow>
     \<forall>(k, v) \<in> set fs. sorted_json v = Some v"
proof (induction v and xs and kvs arbitrary: w and ys and fs
    rule: sorted_json_sorted_list_sorted_fields.induct)
  case (7 xs)
  from "7.prems"(2) obtain ys where ys: "sorted_list xs = Some ys" "w = JArr ys" by auto
  from "7.prems"(1) have "list_all wf_json xs" by simp
  from "7.IH" [OF this ys(1)] show ?case by (simp add: ys(2) sorted_list_fixed)
next
  case (8 kvs)
  from "8.prems"(2) obtain fs where fs: "sorted_fields kvs = Some fs" "w = JObj (canonical_order fs)"
    by auto
  from "8.prems"(1) have wf: "distinct (keys kvs)" "list_all (\<lambda>(k, v). wf_json v) kvs" by simp_all
  from "8.IH" [OF wf(2) fs(1)] have "\<forall>(k, v) \<in> set (canonical_order fs). sorted_json v = Some v"
    by simp
  with sorted_fields_distinct [OF fs(1) wf(1)] show ?case
    by (simp add: fs(2) sorted_fields_fixed canonical_order_idem)
next
  case (10 x xs)
  from "10.prems"(2) obtain y ys' where y: "sorted_json x = Some y" "sorted_list xs = Some ys'"
      "ys = y # ys'"
    by (auto split: option.splits)
  from "10.prems"(1) have "wf_json x" "list_all wf_json xs" by simp_all
  with "10.IH" y show ?case by simp
next
  case (12 k v kvs)
  show ?case
  proof (cases "v = JUndefined")
    case True
    with 12 show ?thesis by simp
  next
    case False
    with "12.prems"(2) obtain w fs' where w: "sorted_json v = Some w" "sorted_fields kvs = Some fs'"
        "fs = (k, w) # fs'"
      by (auto split: option.splits)
    from "12.prems"(1) have "wf_json v" "list_all (\<lambda>(k, v). wf_json v) kvs" by simp_all
    with "12.IH"(2,3) False w show ?thesis by simp
  qed
qed auto

lemmas sorted_json_idem = sorted_json_idem_aux(1)

lemma sorted_fields_perm:
  assumes "mset kvs = mset kvs'" and "sorted_fields kvs = Some fs"
  shows "\<exists>fs'. sorted_fields kvs' = Some fs' \<and> mset fs' = mset fs"
proof -
  define ok where "ok = (\<lambda>kv :: jstr \<times> json. snd kv = JUndefined \<or> sorted_json (snd kv) \<noteq> None)"
  define out where "out = (\<lambda>kvs. map (\<lambda>(k, v). (k, the (sorted_json v)))
      (filter (\<lambda>(k, v). v \<noteq> JUndefined) (kvs :: (jstr \<times> json) list)))"
  have char: "sorted_fields kvs = (if \<forall>kv \<in> set kvs. ok kv then Some (out kvs) else None)" for kvs
  proof (induction kvs)
    case (Cons kv kvs)
    obtain k v where kv: "kv = (k, v)" by (cases kv)
    show ?case
      by (cases "v = JUndefined"; cases "sorted_json v") (simp_all add: kv Cons ok_def out_def)
  qed (simp add: out_def)
  have "set kvs = set kvs'" using assms(1) by (metis set_mset_mset)
  moreover have "mset (out kvs) = mset (out kvs')" using assms(1) by (simp add: out_def)
  ultimately show ?thesis using assms(2) by (auto simp: char split: if_splits)
qed

lemma sorted_json_key_order:
  assumes "mset kvs = mset kvs'" and "distinct (keys kvs)"
  shows "sorted_json (JObj kvs) = sorted_json (JObj kvs')"
proof (cases "sorted_fields kvs")
  case None
  then show ?thesis using sorted_fields_perm [of kvs' kvs] assms(1)
    by (cases "sorted_fields kvs'") auto
next
  case (Some fs)
  then obtain fs' where "sorted_fields kvs' = Some fs'" "mset fs' = mset fs"
    using sorted_fields_perm assms(1) by blast
  moreover have "distinct (keys fs)" using sorted_fields_distinct [OF Some] assms(2) by simp
  ultimately show ?thesis using Some canonical_order_perm [of fs fs'] by simp
qed

subsection \<open>Rows\<close>

lemma without_digest_update [simp]:
  "without_digest (AList.update sha_key d row) = without_digest row"
  by (induction row) (auto simp: without_digest_def)

lemma without_digest_idem [simp]: "without_digest (without_digest row) = without_digest row"
  by (simp add: without_digest_def)

lemma checksum_update [simp]: "checksum sha (AList.update sha_key d row) = checksum sha row"
  by (simp add: checksum_def)

lemma without_digest_new: "sha_key \<notin> set (keys row) \<Longrightarrow> without_digest row = row"
  by (force simp: without_digest_def filter_id_conv)

lemma encode_row_Some:
  "encode_row sha row = Some r \<longleftrightarrow>
     (\<exists>body d. sorted_json (JObj row) = Some (JObj body) \<and> checksum sha body = Some d
        \<and> r = AList.update sha_key (JStr d) body)"
  by (auto simp: encode_row_def split: option.splits json.splits)

end
