(* ===== verification/CollabModel.thy ===== *)
theory CollabModel
  imports Canonical
begin

text \<open>
  The data model of \<^verbatim>\<open>packages/collab-kernel/src/model/index.ts\<close> and the principals of
  \<^verbatim>\<open>auth/index.ts\<close>: members, items, messages, deliveries, the folded state of one space, the event
  vocabulary of its log (the legacy events, which are only replayed, included), commit records with
  their receipts, and the error codes of the service.

  An optional field of an interface is an option; \<open>previousBindings\<close>, which the code always reads as
  \<open>m.previousBindings ?? []\<close>, is a list. \<open>Ext\<close> is the integrator's JSON value, opaque to the kernel.
\<close>

declare map_of_eq_Some_iff [simp del] Some_eq_map_of_iff [simp del]

subsection \<open>Members\<close>

datatype member_kind = Agent | Human

datatype member_status = Invited | Active | Declined | Gone

record address =
  a_channel :: string
  a_address :: string

record binding =
  b_channel :: string
  b_address :: string
  b_wake :: bool
  b_confirm :: bool

definition address_of :: "binding \<Rightarrow> address" where
  "address_of b = \<lparr>a_channel = b_channel b, a_address = b_address b\<rparr>"

record member =
  m_name :: string
  m_kind :: member_kind
  m_status :: member_status
  m_joinSeq :: nat
  m_binding :: binding
  m_statusText :: jstr
  m_wakeCount :: nat
  m_managedBy :: "string option"
  m_previousBindings :: "address list"

subsection \<open>Items\<close>

datatype item_status = Draft | Agreed | Escalated | Decided

datatype progress = Open | Accepted | Done | Rejected

type_synonym ext = json

datatype item_kind = Charter | OtherItem | Request (assignee: string) (progress_of: progress)

record item =
  i_id :: string
  i_author :: string
  i_title :: jstr
  i_body :: jstr
  i_requiredAcks :: "string list"
  i_revision :: nat
  i_status :: item_status
  i_acks :: "(string \<times> nat) list"
  i_ref :: "nat option"
  i_ext :: "ext option"
  i_deciders :: "string list option"
  i_agentEditCount :: "nat option"
  i_kind :: item_kind

subsection \<open>Messages, deliveries, pointers\<close>

record counts =
  c_message :: nat
  c_item :: nat
  c_decision :: nat
  c_member :: nat

record pointer =
  p_spaceId :: string
  p_toSeq :: nat
  p_counts :: counts
  p_from :: string
  p_invited :: bool
  p_thread :: "nat option"
  p_mode :: "string option"

datatype delivery_kind = Wake | Confirm

datatype outcome = Succeeded | Failed

record delivery =
  d_id :: string
  d_member :: string
  d_kind :: delivery_kind
  d_providerId :: string
  d_requestId :: "string option"
  d_pointer :: "pointer option"
  d_outcome :: "outcome option"
  d_messageRef :: "string option"
  d_thread :: "nat option"
  d_mode :: "string option"

record message =
  msg_id :: string
  msg_actor :: string
  msg_to :: string
  msg_body :: jstr
  msg_needsReply :: bool
  msg_notify :: "bool option"
  msg_ref :: "nat option"
  msg_ext :: "ext option"
  msg_mode :: "string option"

text \<open>\<open>message.notify ?? message.needsReply ?? false\<close>\<close>

definition messageNotifies :: "bool option \<Rightarrow> bool option \<Rightarrow> bool" where
  "messageNotifies notify needsReply =
     (case notify of Some b \<Rightarrow> b | None \<Rightarrow> (case needsReply of Some b \<Rightarrow> b | None \<Rightarrow> False))"

abbreviation notifies :: "message \<Rightarrow> bool" where
  "notifies m \<equiv> messageNotifies (msg_notify m) (Some (msg_needsReply m))"

subsection \<open>Legacy decisions\<close>

datatype request_status = ReqOpen | Superseded | ReqClosed

record decision_request =
  r_id :: string
  r_itemId :: string
  r_revision :: nat
  r_author :: string
  r_options :: "string list"
  r_deciders :: "string list"
  r_status :: request_status
  r_awaitingChannel :: bool

record decision =
  dec_requestId :: string
  dec_itemId :: string
  dec_actor :: string
  dec_choice :: string
  dec_providerId :: string
  dec_actionId :: string
  dec_deliveryId :: string
  dec_messageRef :: string

subsection \<open>The folded state of a space\<close>

datatype space_status = SpaceOpen | SpaceClosed

record convention_info =
  conv_version :: string
  conv_sha256 :: string

record space_state =
  s_spaceId :: string
  s_serviceId :: string
  s_status :: space_status
  s_leader :: string
  s_convention :: convention_info
  s_purpose :: "jstr option"
  s_managers :: "string list"
  s_members :: "(string \<times> member) list"
  s_items :: "(string \<times> item) list"
  s_itemSeq :: "(string \<times> nat) list"
  s_topicOf :: "(nat \<times> nat) list"
  s_topicWakes :: "(nat \<times> nat) list"
  s_requests :: "(string \<times> decision_request) list"
  s_decisions :: "decision list"
  s_messages :: "message list"
  s_deliveries :: "(string \<times> delivery) list"
  s_lastSeq :: nat

subsection \<open>Events, receipts, commit records\<close>

datatype event_data =
  SpaceCreated string string string convention_info "jstr option"
| SpaceClosedEv
| LeaderChanged string
| MemberInvited member
| MemberJoined member
| MemberStatus string member_status
| MemberStatusText string jstr
| MemberRebound string binding
| ManagerAllowed string
| ManagerRevoked string
| ItemCreated item
| ItemRevised item
| ItemAcked item
| RequestProgressed string progress
| MessageSent message
| DispatchIntended delivery
| DispatchCompleted string outcome "string option"
| DecisionRequested decision_request
| DecisionSuperseded string
| DecisionDecided decision
| BreakerReset string

record event =
  ev_actor :: string
  ev_data :: event_data

datatype receipt_scope =
  ScopeMember string
| ScopeManager string
| ScopeCreate string string
| ScopeInternal string

record command_result =
  cr_seq :: nat
  cr_spaceId :: string
  cr_itemId :: "string option"
  cr_requestId :: "string option"

record receipt =
  rc_cmdId :: string
  rc_scope :: receipt_scope
  rc_payloadHash :: string
  rc_result :: command_result

text \<open>A \<open>completion\<close> record is one without a receipt.\<close>

record commit_record =
  cm_seq :: nat
  cm_at :: "int option"
  cm_events :: "event list"
  cm_receipt :: "receipt option"

datatype presence = Reachable | Unreachable | Unknown

definition TOPIC_LIMIT :: nat where
  "TOPIC_LIMIT = 20"

subsection \<open>Principals and authorization\<close>

datatype principal =
  PAgent address
| PProvider string address
| PManager string
| PInternal string

datatype command_name =
  Invite_c | Join_c | DeclineInvite_c | Leave_c | MarkGone_c | TransferLeader_c | CloseSpace_c
| CreateItem_c | ReviseItem_c | AckItem_c | SendMessage_c | SetStatus_c | AdvanceRequest_c
| AllowManager_c | RevokeManager_c

datatype auth_rule = RLeader | RInvited | RActive | RAssignee

text \<open>The table \<open>authorization\<close>, for the commands that run through \<open>command\<close>.\<close>

fun authorization :: "command_name \<Rightarrow> auth_rule" where
  "authorization Invite_c = RLeader"
| "authorization Join_c = RInvited"
| "authorization DeclineInvite_c = RInvited"
| "authorization Leave_c = RActive"
| "authorization MarkGone_c = RLeader"
| "authorization TransferLeader_c = RLeader"
| "authorization CloseSpace_c = RLeader"
| "authorization CreateItem_c = RActive"
| "authorization ReviseItem_c = RActive"
| "authorization AckItem_c = RActive"
| "authorization SendMessage_c = RActive"
| "authorization SetStatus_c = RActive"
| "authorization AdvanceRequest_c = RAssignee"
| "authorization AllowManager_c = RLeader"
| "authorization RevokeManager_c = RLeader"

subsection \<open>Errors\<close>

datatype bad_field = FTitle | FBody | FRequiredAcks | FKind | FAssignee | FItemId | FChanges | FDeciders

datatype collab_error =
  FORBIDDEN | STORE_FAILED | STORE_CONFLICT | CALLER_STALE | NOT_MEMBER | MEMBER_INACTIVE
| SPACE_NOT_FOUND | SPACE_EXISTS | SPACE_CLOSED | BAD_CMD_ID | CMD_CONFLICT | THREAD_LIMIT
| BAD_REF | BAD_EXT | BAD_NAME | NAME_TAKEN | BAD_KIND | BAD_PURPOSE | BAD_MODE | MODE_UNSUPPORTED
| ADDRESS_UNCLAIMED | ADDRESS_TAKEN | ADDRESS_AMBIGUOUS "string list" | BINDING_CHANGED
| ITEM_NOT_FOUND | ITEM_SETTLED | ITEM_ESCALATED | DECIDED_LOCKED | BAD_ITEM bad_field
| STALE_REVISION nat | BAD_RECIPIENT | BAD_MESSAGE | BAD_STATUS | BAD_TRANSITION | BAD_CHANNEL
| BAD_SEQ | CONVENTION_UNKNOWN | CLAIM_THREW | TYPE_ERROR

subsection \<open>Lookups\<close>

abbreviation member_at :: "space_state \<Rightarrow> string \<Rightarrow> member option" where
  "member_at s n \<equiv> map_of (s_members s) n"

abbreviation item_at :: "space_state \<Rightarrow> string \<Rightarrow> item option" where
  "item_at s i \<equiv> map_of (s_items s) i"

definition member_active :: "space_state \<Rightarrow> string \<Rightarrow> bool" where
  "member_active s n = (case member_at s n of Some m \<Rightarrow> m_status m = Active | None \<Rightarrow> False)"

lemma member_active_iff: "member_active s n \<longleftrightarrow> (\<exists>m. member_at s n = Some m \<and> m_status m = Active)"
  by (simp add: member_active_def split: option.split)

text \<open>The addresses a member occupies: its current binding and the ones retired by \<open>rebind\<close>.\<close>

definition occupied :: "member \<Rightarrow> address list" where
  "occupied m = address_of (m_binding m) # m_previousBindings m"

end
