(* ===== verification/CollabReduce.thy ===== *)
theory CollabReduce
  imports CollabModel
begin

text \<open>
  The fold of the log: \<open>reduce\<close> of \<^verbatim>\<open>packages/collab-kernel/src/domain/reduce.ts\<close>. The state of a
  space is nothing but the fold of its commit records, so this function is run both on a live commit
  and on replay. \<open>apply_event\<close> is one turn of the loop over \<open>record.events\<close>; every \<open>throw\<close> and every
  write through a missing entry (a \<open>TypeError\<close>) is a value of \<open>reduce_error\<close>.
\<close>

datatype reduce_error = DanglingRef nat nat | BeforeCreated | MissingEntry

definition topic_root :: "space_state \<Rightarrow> nat \<Rightarrow> nat option \<Rightarrow> reduce_error + nat" where
  "topic_root s seq ref =
     (case ref of None \<Rightarrow> Inr seq
      | Some r \<Rightarrow> (case map_of (s_topicOf s) r of
            None \<Rightarrow> Inl (DanglingRef r seq)
          | Some root \<Rightarrow> (if r < seq then Inr root else Inl (DanglingRef r seq))))"

definition update_member ::
  "string \<Rightarrow> (member \<Rightarrow> member) \<Rightarrow> space_state \<Rightarrow> reduce_error + space_state" where
  "update_member n f s =
     (case member_at s n of None \<Rightarrow> Inl MissingEntry
      | Some m \<Rightarrow> Inr (s\<lparr>s_members := AList.update n (f m) (s_members s)\<rparr>))"

definition put_item :: "item \<Rightarrow> space_state \<Rightarrow> space_state" where
  "put_item i s = s\<lparr>s_items := AList.update (i_id i) i (s_items s)\<rparr>"

definition rebind :: "binding \<Rightarrow> member \<Rightarrow> member" where
  "rebind b m = m\<lparr>m_previousBindings := m_previousBindings m @ [address_of (m_binding m)],
                 m_binding := b\<rparr>"

definition set_progress :: "progress \<Rightarrow> item \<Rightarrow> item" where
  "set_progress p i =
     (case i_kind i of Request a _ \<Rightarrow> i\<lparr>i_kind := Request a p\<rparr> | _ \<Rightarrow> i)"

text \<open>A notifying message counts when its own commit holds a wake intent for its recipient.\<close>

definition is_wake_for :: "string \<Rightarrow> event \<Rightarrow> bool" where
  "is_wake_for n e =
     (case ev_data e of DispatchIntended d \<Rightarrow> d_kind d = Wake \<and> d_member d = n | _ \<Rightarrow> False)"

definition counted :: "commit_record \<Rightarrow> message \<Rightarrow> bool" where
  "counted r m \<longleftrightarrow> notifies m \<and> (\<exists>e \<in> set (cm_events r). is_wake_for (msg_to m) e)"

definition bump_topic :: "nat \<Rightarrow> space_state \<Rightarrow> space_state" where
  "bump_topic root s =
     s\<lparr>s_topicWakes := AList.update root
         (case map_of (s_topicWakes s) root of None \<Rightarrow> 1 | Some c \<Rightarrow> Suc c) (s_topicWakes s)\<rparr>"

definition initial_space ::
  "string \<Rightarrow> string \<Rightarrow> string \<Rightarrow> convention_info \<Rightarrow> jstr option \<Rightarrow> space_state" where
  "initial_space space service leader conv purpose =
     \<lparr>s_spaceId = space, s_serviceId = service, s_status = SpaceOpen, s_leader = leader,
      s_convention = conv, s_purpose = purpose, s_managers = [], s_members = [], s_items = [],
      s_itemSeq = [], s_topicOf = [], s_topicWakes = [], s_requests = [], s_decisions = [],
      s_messages = [], s_deliveries = [], s_lastSeq = 0\<rparr>"

fun apply_data ::
  "commit_record \<Rightarrow> event_data \<Rightarrow> space_state \<Rightarrow> reduce_error + space_state" where
  "apply_data r (SpaceCreated _ _ _ _ _) s = Inr s"
| "apply_data r SpaceClosedEv s = Inr (s\<lparr>s_status := SpaceClosed\<rparr>)"
| "apply_data r (LeaderChanged l) s = Inr (s\<lparr>s_leader := l\<rparr>)"
| "apply_data r (MemberInvited m) s =
     Inr (s\<lparr>s_members := AList.update (m_name m) m (s_members s)\<rparr>)"
| "apply_data r (MemberJoined m) s =
     Inr (s\<lparr>s_members := AList.update (m_name m) m (s_members s)\<rparr>)"
| "apply_data r (MemberStatus n st) s = update_member n (\<lambda>m. m\<lparr>m_status := st\<rparr>) s"
| "apply_data r (MemberStatusText n t) s = update_member n (\<lambda>m. m\<lparr>m_statusText := t\<rparr>) s"
| "apply_data r (MemberRebound n b) s = update_member n (rebind b) s"
| "apply_data r (ManagerAllowed c) s =
     Inr (if c \<in> set (s_managers s) then s else s\<lparr>s_managers := s_managers s @ [c]\<rparr>)"
| "apply_data r (ManagerRevoked c) s =
     Inr (s\<lparr>s_managers := filter (\<lambda>x. x \<noteq> c) (s_managers s)\<rparr>)"
| "apply_data r (ItemCreated i) s =
     err_bind (topic_root s (cm_seq r) (i_ref i)) (\<lambda>root.
       Inr (put_item i (s\<lparr>s_topicOf := AList.update (cm_seq r) root (s_topicOf s),
                         s_itemSeq := AList.update (i_id i) (cm_seq r) (s_itemSeq s)\<rparr>)))"
| "apply_data r (ItemRevised i) s = Inr (put_item i s)"
| "apply_data r (ItemAcked i) s = Inr (put_item i s)"
| "apply_data r (RequestProgressed iid p) s =
     Inr (case item_at s iid of None \<Rightarrow> s
          | Some i \<Rightarrow> s\<lparr>s_items := AList.update iid (set_progress p i) (s_items s)\<rparr>)"
| "apply_data r (MessageSent m) s =
     err_bind (topic_root s (cm_seq r) (msg_ref m)) (\<lambda>root.
       let s' = s\<lparr>s_topicOf := AList.update (cm_seq r) root (s_topicOf s),
                 s_messages := s_messages s @ [m]\<rparr>
       in Inr (if counted r m then bump_topic root s' else s'))"
| "apply_data r (DispatchIntended d) s =
     (let s' = s\<lparr>s_deliveries := AList.update (d_id d) d (s_deliveries s)\<rparr>
      in if d_kind d = Wake
         then update_member (d_member d) (\<lambda>m. m\<lparr>m_wakeCount := Suc (m_wakeCount m)\<rparr>) s'
         else Inr s')"
| "apply_data r (DispatchCompleted iid out ref) s =
     (case map_of (s_deliveries s) iid of None \<Rightarrow> Inl MissingEntry
      | Some d \<Rightarrow> Inr (s\<lparr>s_deliveries := AList.update iid
            (d\<lparr>d_outcome := Some out,
               d_messageRef := (case ref of None \<Rightarrow> d_messageRef d | Some x \<Rightarrow> Some x)\<rparr>)
            (s_deliveries s)\<rparr>))"
| "apply_data r (DecisionRequested q) s =
     Inr (s\<lparr>s_requests := AList.update (r_id q) q (s_requests s)\<rparr>)"
| "apply_data r (DecisionSuperseded iid) s =
     (case map_of (s_requests s) iid of None \<Rightarrow> Inl MissingEntry
      | Some q \<Rightarrow> Inr (s\<lparr>s_requests :=
            AList.update iid (q\<lparr>r_status := Superseded\<rparr>) (s_requests s)\<rparr>))"
| "apply_data r (DecisionDecided d) s =
     (case (map_of (s_requests s) (dec_requestId d), item_at s (dec_itemId d)) of
        (Some q, Some i) \<Rightarrow>
          Inr (s\<lparr>s_decisions := s_decisions s @ [d],
                 s_requests := AList.update (dec_requestId d) (q\<lparr>r_status := ReqClosed\<rparr>)
                   (s_requests s),
                 s_items := AList.update (dec_itemId d) (i\<lparr>i_status := Decided\<rparr>) (s_items s)\<rparr>)
      | _ \<Rightarrow> Inl MissingEntry)"
| "apply_data r (BreakerReset n) s = update_member n (\<lambda>m. m\<lparr>m_wakeCount := 0\<rparr>) s"

text \<open>One turn of the loop; \<open>space/created\<close> starts a fresh state, any other event needs one.\<close>

definition apply_event ::
  "commit_record \<Rightarrow> event \<Rightarrow> space_state option \<Rightarrow> reduce_error + space_state option" where
  "apply_event r e st =
     (case (case ev_data e of
              SpaceCreated sp sv l c p \<Rightarrow> Some (initial_space sp sv l c p) | _ \<Rightarrow> st) of
        None \<Rightarrow> Inl BeforeCreated
      | Some s \<Rightarrow> err_bind (apply_data r (ev_data e) s) (\<lambda>t. Inr (Some t)))"

definition reduce ::
  "space_state option \<Rightarrow> commit_record \<Rightarrow> reduce_error + space_state option" where
  "reduce previous r =
     err_bind (err_fold (apply_event r) (cm_events r) previous)
       (\<lambda>st. Inr (map_option (\<lambda>s. s\<lparr>s_lastSeq := cm_seq r\<rparr>) st))"

text \<open>\<open>for (const record of records) state = reduce(state, record)\<close>, as \<open>open\<close> runs it.\<close>

definition replay :: "commit_record list \<Rightarrow> reduce_error + space_state option" where
  "replay records = err_fold (\<lambda>r st. reduce st r) records None"

subsection \<open>Folding onto an existing space\<close>

definition creates :: "event \<Rightarrow> bool" where
  "creates e = (case ev_data e of SpaceCreated _ _ _ _ _ \<Rightarrow> True | _ \<Rightarrow> False)"

lemma apply_event_Some:
  "\<not> creates e \<Longrightarrow>
     apply_event r e (Some s) = err_bind (apply_data r (ev_data e) s) (\<lambda>t. Inr (Some t))"
  by (simp add: apply_event_def creates_def split: event_data.splits)

definition fold_data ::
  "commit_record \<Rightarrow> event list \<Rightarrow> space_state \<Rightarrow> reduce_error + space_state" where
  "fold_data r = err_fold (\<lambda>e. apply_data r (ev_data e))"

lemma fold_data_simps [simp]:
  "fold_data r [] s = Inr s"
  "fold_data r (e # es) s = err_bind (apply_data r (ev_data e) s) (fold_data r es)"
  by (simp_all add: fold_data_def)

lemma fold_data_append:
  "fold_data r (es @ es') s = err_bind (fold_data r es s) (fold_data r es')"
  by (simp add: fold_data_def err_fold_append)

lemma fold_apply_event:
  "list_all (\<lambda>e. \<not> creates e) es \<Longrightarrow>
     err_fold (apply_event r) es (Some s) = err_bind (fold_data r es s) (\<lambda>t. Inr (Some t))"
  by (induction es arbitrary: s)
    (simp_all add: apply_event_Some err_bind_def split: sum.splits)

lemma reduce_Some:
  "list_all (\<lambda>e. \<not> creates e) (cm_events r) \<Longrightarrow>
     reduce (Some s) r =
       err_bind (fold_data r (cm_events r) s) (\<lambda>t. Inr (Some (t\<lparr>s_lastSeq := cm_seq r\<rparr>)))"
  by (simp add: reduce_def fold_apply_event err_bind_def split: sum.splits)

lemma replay_snoc:
  "replay (rs @ [r]) = err_bind (replay rs) (\<lambda>st. reduce st r)"
  by (simp add: replay_def err_fold_append err_bind_def split: sum.splits)

lemma bump_topic_sel [simp]:
  "s_members (bump_topic root s) = s_members s" "s_lastSeq (bump_topic root s) = s_lastSeq s"
  "s_deliveries (bump_topic root s) = s_deliveries s" "s_status (bump_topic root s) = s_status s"
  "s_leader (bump_topic root s) = s_leader s" "s_managers (bump_topic root s) = s_managers s"
  "s_items (bump_topic root s) = s_items s" "s_itemSeq (bump_topic root s) = s_itemSeq s"
  "s_topicOf (bump_topic root s) = s_topicOf s" "s_messages (bump_topic root s) = s_messages s"
  by (simp_all add: bump_topic_def)

lemma update_member_ok [ok_iff]:
  "update_member n f s = Inr t \<longleftrightarrow>
     (\<exists>m. member_at s n = Some m \<and> t = s\<lparr>s_members := AList.update n (f m) (s_members s)\<rparr>)"
  by (auto simp: update_member_def split: option.splits)

lemma topic_root_ok [ok_iff]:
  "topic_root s seq ref = Inr root \<longleftrightarrow>
     (ref = None \<and> root = seq \<or>
      (\<exists>r. ref = Some r \<and> r < seq \<and> map_of (s_topicOf s) r = Some root))"
  by (auto simp: topic_root_def split: option.splits if_splits)

end
