(* ===== verification/CollabDomain.thy ===== *)
theory CollabDomain
  imports CollabReduce
begin

text \<open>
  The pure decisions of \<^verbatim>\<open>packages/collab-kernel/src/domain\<close>: who an event wakes (\<^verbatim>\<open>wake.ts\<close>),
  which delivery intents a commit carries (\<^verbatim>\<open>decide.ts\<close>) and the checks on items (\<^verbatim>\<open>items.ts\<close>).
\<close>

subsection \<open>\<open>wakeRecipients\<close>\<close>

record recipient =
  rcp_member :: member
  rcp_invited :: bool
  rcp_thread :: "nat option"

type_synonym recipients = "(string \<times> recipient) list"

text \<open>\<open>add\<close>: the actor never wakes itself, and only an invitation reaches an inactive member.\<close>

definition add_recipient ::
  "space_state \<Rightarrow> string \<Rightarrow> string \<Rightarrow> member option \<Rightarrow> nat option \<Rightarrow> recipients \<Rightarrow> recipients" where
  "add_recipient s name actor invitation thread rs =
     (case (case invitation of Some m \<Rightarrow> Some m | None \<Rightarrow> member_at s name) of
        None \<Rightarrow> rs
      | Some m \<Rightarrow>
          if name = actor \<or> (m_status m \<noteq> Active \<and> invitation = None) then rs
          else AList.update name
                 \<lparr>rcp_member = m, rcp_invited = (invitation \<noteq> None), rcp_thread = thread\<rparr> rs)"

fun wake_event :: "space_state \<Rightarrow> event \<Rightarrow> recipients \<Rightarrow> collab_error + recipients" where
  "wake_event s e rs =
     (case ev_data e of
        MessageSent m \<Rightarrow>
          Inr (if notifies m
               then add_recipient s (msg_to m) (ev_actor e) None
                      (case msg_ref m of None \<Rightarrow> Some (Suc (s_lastSeq s))
                       | Some r \<Rightarrow> map_of (s_topicOf s) r) rs
               else rs)
      | MemberInvited m \<Rightarrow> Inr (add_recipient s (m_name m) (ev_actor e) (Some m) None rs)
      | RequestProgressed itemId p \<Rightarrow>
          if p \<noteq> Done \<and> p \<noteq> Rejected then Inr rs
          else (case item_at s itemId of None \<Rightarrow> Inl TYPE_ERROR
                | Some i \<Rightarrow> Inr (add_recipient s (i_author i) (ev_actor e) None
                    (case map_of (s_itemSeq s) itemId of None \<Rightarrow> None
                     | Some q \<Rightarrow> map_of (s_topicOf s) q) rs))
      | _ \<Rightarrow> Inr rs)"

definition wakeRecipients :: "space_state \<Rightarrow> event list \<Rightarrow> collab_error + recipients" where
  "wakeRecipients s es = err_fold (wake_event s) es []"

subsection \<open>\<open>decideDispatch\<close>\<close>

record dispatch_context =
  dc_presence :: "(string \<times> presence) list"
  dc_providers :: "(string \<times> string) list"
  dc_bindings :: "(string \<times> address) list option"

fun count_event :: "event_data \<Rightarrow> counts \<Rightarrow> counts" where
  "count_event (MessageSent _) c = c\<lparr>c_message := Suc (c_message c)\<rparr>"
| "count_event (ItemCreated _) c = c\<lparr>c_item := Suc (c_item c)\<rparr>"
| "count_event (ItemRevised _) c = c\<lparr>c_item := Suc (c_item c)\<rparr>"
| "count_event (ItemAcked _) c = c\<lparr>c_item := Suc (c_item c)\<rparr>"
| "count_event (RequestProgressed _ _) c = c\<lparr>c_item := Suc (c_item c)\<rparr>"
| "count_event (MemberInvited _) c = c\<lparr>c_member := Suc (c_member c)\<rparr>"
| "count_event (MemberJoined _) c = c\<lparr>c_member := Suc (c_member c)\<rparr>"
| "count_event (MemberStatus _ _) c = c\<lparr>c_member := Suc (c_member c)\<rparr>"
| "count_event (MemberStatusText _ _) c = c\<lparr>c_member := Suc (c_member c)\<rparr>"
| "count_event (MemberRebound _ _) c = c\<lparr>c_member := Suc (c_member c)\<rparr>"
| "count_event (LeaderChanged _) c = c\<lparr>c_member := Suc (c_member c)\<rparr>"
| "count_event _ c = c"

definition zero_counts :: counts where
  "zero_counts = \<lparr>c_message = 0, c_item = 0, c_decision = 0, c_member = 0\<rparr>"

text \<open>\<open>business.find(e => e is message/sent, notifies and is to name)?.message.mode\<close>\<close>

fun waking_mode :: "string \<Rightarrow> event list \<Rightarrow> string option" where
  "waking_mode name [] = None"
| "waking_mode name (e # es) =
     (case ev_data e of
        MessageSent m \<Rightarrow>
          if notifies m \<and> msg_to m = name then msg_mode m else waking_mode name es
      | _ \<Rightarrow> waking_mode name es)"

definition nat_text :: "nat \<Rightarrow> string" where
  "nat_text n = map char_of (decimal n)"

definition delivery_id :: "nat \<Rightarrow> nat \<Rightarrow> string" where
  "delivery_id seq index = ''delivery-'' @ nat_text seq @ ''-'' @ nat_text index"

definition sampled_current :: "dispatch_context \<Rightarrow> string \<Rightarrow> member \<Rightarrow> bool" where
  "sampled_current ctx name m =
     (case dc_bindings ctx of None \<Rightarrow> True
      | Some bs \<Rightarrow> map_of bs name = Some (address_of (m_binding m)))"

text \<open>The provider a wake goes to; \<open>None\<close> is the loop's \<open>continue\<close>.\<close>

definition wake_provider :: "dispatch_context \<Rightarrow> string \<Rightarrow> member \<Rightarrow> string option" where
  "wake_provider ctx name m =
     (case map_of (dc_providers ctx) (b_channel (m_binding m)) of
        None \<Rightarrow> None
      | Some pid \<Rightarrow>
          if pid = [] \<or> \<not> b_wake (m_binding m) \<or> map_of (dc_presence ctx) name = Some Unreachable
          then None else Some pid)"

definition wake_intent ::
  "space_state \<Rightarrow> counts \<Rightarrow> string \<Rightarrow> event list \<Rightarrow> nat \<Rightarrow> string \<Rightarrow> string \<Rightarrow> recipient \<Rightarrow> event" where
  "wake_intent s c actor business index name pid rc =
     (let mode = (if rcp_invited rc then None else waking_mode name business);
          ptr = \<lparr>p_spaceId = s_spaceId s, p_toSeq = Suc (s_lastSeq s), p_counts = c,
                 p_from = actor, p_invited = rcp_invited rc, p_thread = rcp_thread rc,
                 p_mode = mode\<rparr>
      in \<lparr>ev_actor = actor, ev_data = DispatchIntended
           \<lparr>d_id = delivery_id (Suc (s_lastSeq s)) index, d_member = name, d_kind = Wake,
            d_providerId = pid, d_requestId = None, d_pointer = Some ptr, d_outcome = None,
            d_messageRef = None, d_thread = rcp_thread rc, d_mode = mode\<rparr>\<rparr>)"

fun dispatch_loop ::
  "space_state \<Rightarrow> dispatch_context \<Rightarrow> counts \<Rightarrow> string \<Rightarrow> event list \<Rightarrow> nat \<Rightarrow> recipients
     \<Rightarrow> collab_error + event list" where
  "dispatch_loop s ctx c actor business index [] = Inr []"
| "dispatch_loop s ctx c actor business index ((name, rc) # rs) =
     (if \<not> sampled_current ctx name (rcp_member rc) then Inl BINDING_CHANGED
      else case wake_provider ctx name (rcp_member rc) of
          None \<Rightarrow> dispatch_loop s ctx c actor business index rs
        | Some pid \<Rightarrow>
            err_bind (dispatch_loop s ctx c actor business (Suc index) rs) (\<lambda>es.
              Inr (wake_intent s c actor business (Suc index) name pid rc # es)))"

definition first_actor :: "event list \<Rightarrow> string" where
  "first_actor business = (case business of [] \<Rightarrow> [] | e # _ \<Rightarrow> ev_actor e)"

definition decideDispatch ::
  "space_state \<Rightarrow> event list \<Rightarrow> dispatch_context \<Rightarrow> collab_error + event list" where
  "decideDispatch s business ctx =
     err_bind (wakeRecipients s business) (\<lambda>rs.
       let c = fold (\<lambda>e. count_event (ev_data e)) business zero_counts
       in err_bind (dispatch_loop s ctx c (first_actor business) business 0 rs) (\<lambda>intents.
            Inr (business @ intents)))"

subsection \<open>Item checks\<close>

datatype item_command = ReviseItem_k | AckItem_k | AdvanceRequest_k

text \<open>The status table \<open>itemTransitions\<close>: the error of a command, \<open>None\<close> when it is allowed.\<close>

fun itemTransitions :: "item_status \<Rightarrow> item_command \<Rightarrow> collab_error option" where
  "itemTransitions Draft _ = None"
| "itemTransitions Agreed AckItem_k = Some ITEM_SETTLED"
| "itemTransitions Agreed _ = None"
| "itemTransitions Escalated _ = Some ITEM_ESCALATED"
| "itemTransitions Decided _ = Some DECIDED_LOCKED"

definition checkedItem :: "space_state \<Rightarrow> string \<Rightarrow> item_command \<Rightarrow> collab_error + item" where
  "checkedItem s iid k =
     (case item_at s iid of
        None \<Rightarrow> Inl ITEM_NOT_FOUND
      | Some i \<Rightarrow> (case itemTransitions (i_status i) k of Some e \<Rightarrow> Inl e | None \<Rightarrow> Inr i))"

text \<open>\<open>checkFields\<close>, returning the checked title, body and required acks.\<close>

definition checkFields ::
  "space_state \<Rightarrow> jstr arg \<Rightarrow> jstr arg \<Rightarrow> string list arg
     \<Rightarrow> collab_error + (jstr \<times> jstr \<times> string list)" where
  "checkFields s title body acks =
     (case title of BadType \<Rightarrow> Inl (BAD_ITEM FTitle)
      | Arg t \<Rightarrow>
          if length t < 1 \<or> length t > 200 then Inl (BAD_ITEM FTitle)
          else (case body of BadType \<Rightarrow> Inl (BAD_ITEM FBody)
                | Arg b \<Rightarrow>
                    if byte_length b > 65536 then Inl (BAD_ITEM FBody)
                    else (case acks of BadType \<Rightarrow> Inl (BAD_ITEM FRequiredAcks)
                          | Arg ns \<Rightarrow>
                              if list_all (member_active s) ns then Inr (t, b, ns)
                              else Inl (BAD_ITEM FRequiredAcks))))"

definition checkRevision :: "item \<Rightarrow> nat \<Rightarrow> collab_error + unit" where
  "checkRevision i expected = ensure (i_revision i = expected) (STALE_REVISION (i_revision i))"

lemma checkedItem_ok [ok_iff]:
  "checkedItem s iid k = Inr i \<longleftrightarrow> item_at s iid = Some i \<and> itemTransitions (i_status i) k = None"
  by (auto simp: checkedItem_def split: option.splits)

lemma checkFields_ok [ok_iff]:
  "checkFields s title body acks = Inr (t, b, ns) \<longleftrightarrow>
     title = Arg t \<and> body = Arg b \<and> acks = Arg ns \<and> 1 \<le> length t \<and> length t \<le> 200 \<and>
     byte_length b \<le> 65536 \<and> list_all (member_active s) ns"
  by (cases title; cases body; cases acks) (auto simp: checkFields_def Suc_le_eq)

lemma checkRevision_ok [ok_iff]: "checkRevision i expected = Inr u \<longleftrightarrow> i_revision i = expected"
  by (simp add: checkRevision_def ensure_ok)

end
