(* ===== verification/CollabDecide.thy ===== *)
theory CollabDecide
  imports CollabDomain
begin

text \<open>
  What each command decides, from the current state of the space: the callbacks of the public methods
  of \<open>CollabService\<close> in \<^verbatim>\<open>packages/collab-kernel/src/service/index.ts\<close>, with the checks they call, in
  the order of the code. \<open>decide\<close> covers the member commands, \<open>decide_manager\<close> the ones an integrator
  runs. A command either fails with the code of its \<open>CollabError\<close> or returns the business events of
  one commit.

  The service's options and the host are parameters: the channel providers of the configuration, and
  what a provider, the clock or the store answers during one call (\<open>env\<close>).
\<close>

subsection \<open>Configuration and environment\<close>

record provider =
  pv_id :: string
  pv_channel :: string
  pv_managed :: bool

datatype claim_answer = ClaimNull | ClaimOk binding | ClaimThrows

datatype store_answer = StoreOk | StoreConflict | StoreFails bool

text \<open>
  \<open>StoreFails durable\<close>: the store threw, and \<open>durable\<close> says whether the row had reached the log.
  \<open>env_presence\<close> is \<open>None\<close> when \<open>presence\<close> throws; \<open>env_supports_mode\<close> is \<open>provider?.supportsMode?.(mode)
  === true\<close>, a throw counting as false.
\<close>

record env =
  env_claim :: "provider \<Rightarrow> string \<Rightarrow> member_kind \<Rightarrow> claim_answer"
  env_presence :: "provider \<Rightarrow> member \<Rightarrow> presence option"
  env_supports_mode :: "provider \<Rightarrow> string \<Rightarrow> bool"
  env_store :: store_answer
  env_now :: int

datatype item_kind_input = KCharter | KOther | KRequest string | KBad

record create_item_input =
  ci_itemId :: "string arg"
  ci_title :: "jstr arg"
  ci_body :: "jstr arg"
  ci_requiredAcks :: "string list arg"
  ci_ref :: "int arg option"
  ci_ext :: "ext option"
  ci_kind :: item_kind_input
  ci_has_deciders :: bool

record item_changes =
  ch_title :: "jstr arg option"
  ch_body :: "jstr arg option"
  ch_requiredAcks :: "string list arg option"
  ch_has_deciders :: bool
  ch_has_other_key :: bool

record message_input =
  mi_to :: string
  mi_body :: "jstr arg"
  mi_needsReply :: "bool arg option"
  mi_notify :: "bool arg option"
  mi_ref :: "int arg option"
  mi_ext :: "ext option"
  mi_mode :: "string arg option"

datatype command =
  Invite "string arg" string member_kind
| Join
| DeclineInvite
| Leave
| MarkGone string
| TransferLeader string
| CloseSpace
| CreateItem create_item_input
| ReviseItem string nat "item_changes option"
| AckItem string nat
| SendMessage message_input
| SetStatus "jstr arg"
| AdvanceRequest string progress
| AllowManager "string arg"
| RevokeManager "string arg"

fun name_of :: "command \<Rightarrow> command_name" where
  "name_of (Invite _ _ _) = Invite_c"
| "name_of Join = Join_c"
| "name_of DeclineInvite = DeclineInvite_c"
| "name_of Leave = Leave_c"
| "name_of (MarkGone _) = MarkGone_c"
| "name_of (TransferLeader _) = TransferLeader_c"
| "name_of CloseSpace = CloseSpace_c"
| "name_of (CreateItem _) = CreateItem_c"
| "name_of (ReviseItem _ _ _) = ReviseItem_c"
| "name_of (AckItem _ _) = AckItem_c"
| "name_of (SendMessage _) = SendMessage_c"
| "name_of (SetStatus _) = SetStatus_c"
| "name_of (AdvanceRequest _ _) = AdvanceRequest_c"
| "name_of (AllowManager _) = AllowManager_c"
| "name_of (RevokeManager _) = RevokeManager_c"

datatype manager_command =
  AdmitMember "string arg" "string arg"
| RebindMember "string arg" "string arg"
| RetireMember "string arg"
| DisposeManagedRequest "string arg" progress

subsection \<open>Shared checks\<close>

definition lower :: "char \<Rightarrow> bool" where
  "lower c \<longleftrightarrow> 97 \<le> (of_char c :: nat) \<and> (of_char c :: nat) \<le> 122"

definition name_char :: "char \<Rightarrow> bool" where
  "name_char c \<longleftrightarrow> lower c \<or> (48 \<le> (of_char c :: nat) \<and> (of_char c :: nat) \<le> 57) \<or> c = CHR ''-''"

text \<open>\<^verbatim>\<open>/^[a-z][a-z0-9-]{0,31}$/\<close>\<close>

definition name_format :: "string \<Rightarrow> bool" where
  "name_format n =
     (case n of [] \<Rightarrow> False | c # cs \<Rightarrow> lower c \<and> list_all name_char cs \<and> length cs \<le> 31)"

text \<open>\<^verbatim>\<open>MODE_FORMAT\<close>: two names joined by a colon.\<close>

definition mode_format :: "string \<Rightarrow> bool" where
  "mode_format m =
     (let a = takeWhile (\<lambda>c. c \<noteq> CHR '':'') m; b = dropWhile (\<lambda>c. c \<noteq> CHR '':'') m
      in name_format a \<and> b \<noteq> [] \<and> name_format (tl b))"

definition addressTaken :: "space_state \<Rightarrow> binding \<Rightarrow> bool" where
  "addressTaken s b \<longleftrightarrow> (\<exists>m \<in> set (vals (s_members s)). address_of b \<in> set (occupied m))"

definition checkName :: "space_state \<Rightarrow> string arg \<Rightarrow> collab_error + string" where
  "checkName s name =
     (case name of BadType \<Rightarrow> Inl BAD_NAME
      | Arg n \<Rightarrow> if \<not> name_format n then Inl BAD_NAME
                 else if has (s_members s) n then Inl NAME_TAKEN else Inr n)"

definition checkClaimed :: "space_state \<Rightarrow> binding option \<Rightarrow> collab_error + binding" where
  "checkClaimed s claimed =
     (case claimed of None \<Rightarrow> Inl ADDRESS_UNCLAIMED
      | Some b \<Rightarrow> if addressTaken s b then Inl ADDRESS_TAKEN else Inr b)"

definition managedTarget :: "space_state \<Rightarrow> string \<Rightarrow> string arg \<Rightarrow> collab_error + member" where
  "managedTarget s channel name =
     (case name of BadType \<Rightarrow> Inl FORBIDDEN
      | Arg n \<Rightarrow> (case member_at s n of None \<Rightarrow> Inl FORBIDDEN
          | Some m \<Rightarrow> if m_managedBy m \<noteq> Some channel then Inl FORBIDDEN
                      else if m_status m \<noteq> Active then Inl MEMBER_INACTIVE else Inr m))"

definition otherActive :: "space_state \<Rightarrow> string \<Rightarrow> string \<Rightarrow> collab_error + unit" where
  "otherActive s actor name = ensure (name \<noteq> actor \<and> member_active s name) FORBIDDEN"

text \<open>\<open>checkRef\<close>, returning the reference as the state stores it.\<close>

definition checkRef :: "space_state \<Rightarrow> int arg option \<Rightarrow> collab_error + nat option" where
  "checkRef s ref =
     (case ref of None \<Rightarrow> Inr None
      | Some BadType \<Rightarrow> Inl BAD_REF
      | Some (Arg r) \<Rightarrow> if r < 1 \<or> \<not> has (s_topicOf s) (nat r) then Inl BAD_REF
                        else Inr (Some (nat r)))"

fun jsonValue :: "json \<Rightarrow> bool" where
  "jsonValue (JArr xs) = list_all jsonValue xs"
| "jsonValue (JObj kvs) = list_all (\<lambda>(k, v). jsonValue v) kvs"
| "jsonValue JUndefined = False"
| "jsonValue JAlien = False"
| "jsonValue _ = True"

definition EXT_LIMIT :: nat where
  "EXT_LIMIT = 4096"

definition plainObject :: "json \<Rightarrow> bool" where
  "plainObject v = (case v of JObj _ \<Rightarrow> True | _ \<Rightarrow> False)"

definition checkExt :: "ext option \<Rightarrow> collab_error + unit" where
  "checkExt e =
     (case e of None \<Rightarrow> Inr ()
      | Some v \<Rightarrow>
          if \<not> plainObject v \<or> \<not> jsonValue v then Inl BAD_EXT
          else (case canonicalJson v of None \<Rightarrow> Inl BAD_EXT
                | Some t \<Rightarrow> ensure (byte_length t \<le> EXT_LIMIT) BAD_EXT))"

definition checkMode ::
  "provider list \<Rightarrow> env \<Rightarrow> member \<Rightarrow> string arg \<Rightarrow> bool \<Rightarrow> collab_error + string" where
  "checkMode ps en rcpt mode notify =
     (case mode of BadType \<Rightarrow> Inl BAD_MODE
      | Arg md \<Rightarrow>
          if \<not> mode_format md \<or> \<not> notify then Inl BAD_MODE
          else (case find (\<lambda>p. pv_channel p = b_channel (m_binding rcpt)) ps of
                  None \<Rightarrow> Inl MODE_UNSUPPORTED
                | Some p \<Rightarrow> if env_supports_mode en p md then Inr md else Inl MODE_UNSUPPORTED))"

text \<open>The moves of a request: its assignee's, and the ones an integrator may make for the user.\<close>

fun request_moves :: "progress \<Rightarrow> progress list" where
  "request_moves Open = [Accepted, Rejected]"
| "request_moves Accepted = [Done, Rejected]"
| "request_moves Done = []"
| "request_moves Rejected = []"

fun dispose_moves :: "progress \<Rightarrow> progress list" where
  "dispose_moves Open = [Accepted, Done, Rejected]"
| "dispose_moves Accepted = [Done, Rejected]"
| "dispose_moves Done = []"
| "dispose_moves Rejected = []"


subsection \<open>The member commands\<close>

text \<open>The member that \<open>invite\<close>'s \<open>prepare\<close> builds from a claimed binding.\<close>

definition invited_member :: "string arg \<Rightarrow> member_kind \<Rightarrow> binding \<Rightarrow> member" where
  "invited_member name kind b =
     \<lparr>m_name = (case name of Arg n \<Rightarrow> n | BadType \<Rightarrow> []), m_kind = kind, m_status = Invited,
      m_joinSeq = 0, m_binding = b, m_statusText = [], m_wakeCount = 0, m_managedBy = None,
      m_previousBindings = []\<rparr>"

definition decide_invite ::
  "space_state \<Rightarrow> collab_error + binding \<Rightarrow> string arg \<Rightarrow> member_kind \<Rightarrow> collab_error + event_data list" where
  "decide_invite s claim name kind =
     (if kind \<noteq> Agent then Inl BAD_KIND
      else err_bind claim (\<lambda>b. err_bind (checkName s name) (\<lambda>_.
        if addressTaken s b then Inl ADDRESS_TAKEN
        else Inr [MemberInvited (invited_member name kind b)])))"

text \<open>The Leader's successor: the earliest active member that no integrator manages.\<close>

definition successor :: "space_state \<Rightarrow> string \<Rightarrow> member option" where
  "successor s actor =
     (case sort_key m_joinSeq (filter (\<lambda>m. m_name m \<noteq> actor \<and> m_status m = Active \<and> m_managedBy m = None)
              (vals (s_members s))) of
        [] \<Rightarrow> None | m # _ \<Rightarrow> Some m)"

definition decide_leave :: "space_state \<Rightarrow> string \<Rightarrow> event_data list" where
  "decide_leave s actor =
     MemberStatus actor Gone #
     (if s_leader s = actor
      then [case successor s actor of Some m \<Rightarrow> LeaderChanged (m_name m) | None \<Rightarrow> SpaceClosedEv]
      else [])"

definition decide_transfer :: "space_state \<Rightarrow> string \<Rightarrow> string \<Rightarrow> collab_error + event_data list" where
  "decide_transfer s actor name =
     err_bind (otherActive s actor name) (\<lambda>_.
       case member_at s name of
         Some m \<Rightarrow> if m_managedBy m \<noteq> None then Inl FORBIDDEN else Inr [LeaderChanged name]
       | None \<Rightarrow> Inl TYPE_ERROR)"

definition new_item ::
  "string \<Rightarrow> string \<Rightarrow> jstr \<Rightarrow> jstr \<Rightarrow> string list \<Rightarrow> nat option \<Rightarrow> ext option \<Rightarrow> item_kind \<Rightarrow> item" where
  "new_item iid author t b ns ref ex k =
     \<lparr>i_id = iid, i_author = author, i_title = t, i_body = b, i_requiredAcks = ns, i_revision = 1,
      i_status = Draft, i_acks = [], i_ref = ref, i_ext = ex, i_deciders = None,
      i_agentEditCount = None, i_kind = k\<rparr>"

definition checkKind :: "space_state \<Rightarrow> item_kind_input \<Rightarrow> collab_error + item_kind" where
  "checkKind s k =
     (case k of KBad \<Rightarrow> Inl (BAD_ITEM FKind)
      | KCharter \<Rightarrow> Inr Charter
      | KOther \<Rightarrow> Inr OtherItem
      | KRequest a \<Rightarrow> if member_active s a then Inr (Request a Open) else Inl (BAD_ITEM FAssignee))"

definition checkItemId :: "space_state \<Rightarrow> string arg \<Rightarrow> collab_error + string" where
  "checkItemId s iid =
     (case iid of BadType \<Rightarrow> Inl (BAD_ITEM FItemId)
      | Arg i \<Rightarrow> if i = [] \<or> has (s_items s) i then Inl (BAD_ITEM FItemId) else Inr i)"

definition decide_create ::
  "space_state \<Rightarrow> string \<Rightarrow> create_item_input \<Rightarrow> collab_error + event_data list" where
  "decide_create s actor inp =
     (if ci_has_deciders inp then Inl (BAD_ITEM FDeciders)
      else err_bind (checkFields s (ci_title inp) (ci_body inp) (ci_requiredAcks inp)) (\<lambda>(t, b, ns).
        err_bind (checkKind s (ci_kind inp)) (\<lambda>k.
        err_bind (checkItemId s (ci_itemId inp)) (\<lambda>iid.
        err_bind (checkExt (ci_ext inp)) (\<lambda>_.
        err_bind (checkRef s (ci_ref inp)) (\<lambda>ref.
          Inr [ItemCreated (new_item iid actor t b ns ref (ci_ext inp) k)]))))))"

definition merge_arg :: "'a arg option \<Rightarrow> 'a \<Rightarrow> 'a arg" where
  "merge_arg change old = (case change of None \<Rightarrow> Arg old | Some a \<Rightarrow> a)"

definition decide_revise ::
  "space_state \<Rightarrow> string \<Rightarrow> nat \<Rightarrow> item_changes option \<Rightarrow> collab_error + event_data list" where
  "decide_revise s iid expected changes =
     err_bind (checkedItem s iid ReviseItem_k) (\<lambda>cur.
     err_bind (checkRevision cur expected) (\<lambda>_.
       case changes of None \<Rightarrow> Inl (BAD_ITEM FChanges)
       | Some c \<Rightarrow>
           if ch_has_deciders c then Inl (BAD_ITEM FDeciders)
           else if ch_has_other_key c then Inl (BAD_ITEM FChanges)
           else err_bind (checkFields s (merge_arg (ch_title c) (i_title cur))
                  (merge_arg (ch_body c) (i_body cur))
                  (merge_arg (ch_requiredAcks c) (i_requiredAcks cur))) (\<lambda>(t, b, ns).
             Inr [ItemRevised (cur\<lparr>i_title := t, i_body := b, i_requiredAcks := ns,
                   i_revision := Suc (i_revision cur), i_status := Draft, i_acks := []\<rparr>)])))"

definition fully_acked :: "item \<Rightarrow> bool" where
  "fully_acked i \<longleftrightarrow> i_requiredAcks i \<noteq> [] \<and>
     list_all (\<lambda>n. map_of (i_acks i) n = Some (i_revision i)) (i_requiredAcks i)"

definition ack :: "string \<Rightarrow> item \<Rightarrow> item" where
  "ack actor i =
     (let j = i\<lparr>i_acks := AList.update actor (i_revision i) (i_acks i)\<rparr>
      in if fully_acked j then j\<lparr>i_status := Agreed\<rparr> else j)"

definition decide_ack ::
  "space_state \<Rightarrow> string \<Rightarrow> string \<Rightarrow> nat \<Rightarrow> collab_error + event_data list" where
  "decide_ack s actor iid rv =
     err_bind (checkedItem s iid AckItem_k) (\<lambda>i.
     err_bind (checkRevision i rv) (\<lambda>_. Inr [ItemAcked (ack actor i)]))"

fun bool_arg :: "bool arg option \<Rightarrow> collab_error + bool option" where
  "bool_arg None = Inr None"
| "bool_arg (Some BadType) = Inl BAD_MESSAGE"
| "bool_arg (Some (Arg b)) = Inr (Some b)"

definition checkBody :: "jstr arg \<Rightarrow> collab_error + jstr" where
  "checkBody body =
     (case body of BadType \<Rightarrow> Inl BAD_MESSAGE
      | Arg b \<Rightarrow> if byte_length b < 1 \<or> byte_length b > 16384 then Inl BAD_MESSAGE else Inr b)"

definition decide_send ::
  "provider list \<Rightarrow> env \<Rightarrow> space_state \<Rightarrow> string \<Rightarrow> message_input \<Rightarrow> collab_error + event_data list" where
  "decide_send ps en s actor inp =
     (if mi_to inp = actor then Inl BAD_RECIPIENT
      else case member_at s (mi_to inp) of None \<Rightarrow> Inl BAD_RECIPIENT
      | Some rcpt \<Rightarrow>
        if m_status rcpt \<noteq> Active then Inl BAD_RECIPIENT
        else err_bind (checkBody (mi_body inp)) (\<lambda>b.
        err_bind (bool_arg (mi_needsReply inp)) (\<lambda>needsReply.
        err_bind (bool_arg (mi_notify inp)) (\<lambda>notify.
        err_bind (checkExt (mi_ext inp)) (\<lambda>_.
        err_bind (checkRef s (mi_ref inp)) (\<lambda>ref.
          let n = messageNotifies notify needsReply in
          err_bind (case mi_mode inp of None \<Rightarrow> Inr None
                    | Some md \<Rightarrow> err_bind (checkMode ps en rcpt md n) (\<lambda>x. Inr (Some x))) (\<lambda>mode.
            Inr [MessageSent \<lparr>msg_id = nat_text (Suc (s_lastSeq s)), msg_actor = actor,
                  msg_to = mi_to inp, msg_body = b,
                  msg_needsReply = (case needsReply of None \<Rightarrow> False | Some x \<Rightarrow> x),
                  msg_notify = Some n, msg_ref = ref, msg_ext = mi_ext inp,
                  msg_mode = mode\<rparr>])))))))"

definition decide_advance ::
  "space_state \<Rightarrow> string \<Rightarrow> string \<Rightarrow> progress \<Rightarrow> collab_error + event_data list" where
  "decide_advance s actor iid p =
     (case item_at s iid of None \<Rightarrow> Inl FORBIDDEN
      | Some i \<Rightarrow> (case i_kind i of
            Request a cur \<Rightarrow>
              if a \<noteq> actor then Inl FORBIDDEN
              else err_bind (checkedItem s iid AdvanceRequest_k) (\<lambda>_.
                if p \<in> set (request_moves cur) then Inr [RequestProgressed (i_id i) p]
                else Inl BAD_TRANSITION)
          | _ \<Rightarrow> Inl FORBIDDEN))"

definition decide_allow ::
  "provider list \<Rightarrow> space_state \<Rightarrow> string arg \<Rightarrow> collab_error + event_data list" where
  "decide_allow ps s channel =
     (case channel of BadType \<Rightarrow> Inl BAD_CHANNEL
      | Arg c \<Rightarrow>
          if name_format c \<and> list_ex (\<lambda>p. pv_managed p \<and> pv_channel p = c) ps
             \<and> c \<notin> set (s_managers s)
          then Inr [ManagerAllowed c] else Inl BAD_CHANNEL)"

definition decide_revoke :: "space_state \<Rightarrow> string arg \<Rightarrow> collab_error + event_data list" where
  "decide_revoke s channel =
     (case channel of BadType \<Rightarrow> Inl BAD_CHANNEL
      | Arg c \<Rightarrow>
          if c \<notin> set (s_managers s) then Inl BAD_CHANNEL
          else Inr (ManagerRevoked c #
            map (\<lambda>m. MemberStatus (m_name m) Gone)
              (filter (\<lambda>m. m_managedBy m = Some c \<and> m_status m = Active) (vals (s_members s)))))"

text \<open>\<open>claim\<close> is what \<open>invite\<close>'s \<open>prepare\<close> got: the claimed binding, or the error it kept for later.\<close>

fun decide ::
  "provider list \<Rightarrow> env \<Rightarrow> collab_error + binding \<Rightarrow> command \<Rightarrow> space_state \<Rightarrow> member
     \<Rightarrow> collab_error + event_data list" where
  "decide ps en claim (Invite name a kind) s me = decide_invite s claim name kind"
| "decide ps en claim Join s me =
     Inr [MemberJoined (me\<lparr>m_status := Active, m_joinSeq := Suc (s_lastSeq s)\<rparr>)]"
| "decide ps en claim DeclineInvite s me = Inr [MemberStatus (m_name me) Declined]"
| "decide ps en claim Leave s me = Inr (decide_leave s (m_name me))"
| "decide ps en claim (MarkGone n) s me =
     err_bind (otherActive s (m_name me) n) (\<lambda>_. Inr [MemberStatus n Gone])"
| "decide ps en claim (TransferLeader n) s me = decide_transfer s (m_name me) n"
| "decide ps en claim CloseSpace s me = Inr [SpaceClosedEv]"
| "decide ps en claim (CreateItem inp) s me = decide_create s (m_name me) inp"
| "decide ps en claim (ReviseItem iid expected ch) s me = decide_revise s iid expected ch"
| "decide ps en claim (AckItem iid rv) s me = decide_ack s (m_name me) iid rv"
| "decide ps en claim (SendMessage inp) s me = decide_send ps en s (m_name me) inp"
| "decide ps en claim (SetStatus t) s me =
     (case t of BadType \<Rightarrow> Inl BAD_STATUS
      | Arg x \<Rightarrow> if length x > 500 then Inl BAD_STATUS else Inr [MemberStatusText (m_name me) x])"
| "decide ps en claim (AdvanceRequest iid p) s me = decide_advance s (m_name me) iid p"
| "decide ps en claim (AllowManager c) s me = decide_allow ps s c"
| "decide ps en claim (RevokeManager c) s me = decide_revoke s c"

subsection \<open>The manager commands\<close>

definition decide_dispose ::
  "(string \<Rightarrow> bool) \<Rightarrow> space_state \<Rightarrow> string \<Rightarrow> string arg \<Rightarrow> progress \<Rightarrow> collab_error + event_data list" where
  "decide_dispose owned s channel itemId p =
     (case (case itemId of Arg x \<Rightarrow> item_at s x | BadType \<Rightarrow> None) of
        None \<Rightarrow> Inl ITEM_NOT_FOUND
      | Some i \<Rightarrow> (case i_kind i of
            Request a cur \<Rightarrow>
              if (case member_at s (i_author i) of
                    None \<Rightarrow> False
                  | Some m \<Rightarrow> m_managedBy m = Some channel \<or>
                      (b_channel (m_binding m) = ''dsh-session'' \<and> owned (b_address (m_binding m))))
              then err_bind (checkedItem s (i_id i) AdvanceRequest_k) (\<lambda>_.
                if p \<in> set (dispose_moves cur) then Inr [RequestProgressed (i_id i) p]
                else Inl BAD_TRANSITION)
              else Inl FORBIDDEN
          | _ \<Rightarrow> Inl FORBIDDEN))"

fun decide_manager ::
  "(string \<Rightarrow> bool) \<Rightarrow> manager_command \<Rightarrow> space_state \<Rightarrow> string \<Rightarrow> binding option
     \<Rightarrow> collab_error + event_data list" where
  "decide_manager owned (AdmitMember name a) s channel claimed =
     err_bind (of_option ADDRESS_UNCLAIMED claimed) (\<lambda>b.
     err_bind (checkName s name) (\<lambda>n.
     err_bind (checkClaimed s (Some b)) (\<lambda>_.
       Inr [MemberJoined \<lparr>m_name = n, m_kind = Agent, m_status = Active,
              m_joinSeq = Suc (s_lastSeq s), m_binding = b, m_statusText = [], m_wakeCount = 0,
              m_managedBy = Some channel, m_previousBindings = []\<rparr>])))"
| "decide_manager owned (RebindMember name a) s channel claimed =
     err_bind (managedTarget s channel name) (\<lambda>m.
     err_bind (checkClaimed s claimed) (\<lambda>b. Inr [MemberRebound (m_name m) b]))"
| "decide_manager owned (RetireMember name) s channel claimed =
     err_bind (managedTarget s channel name) (\<lambda>m. Inr [MemberStatus (m_name m) Gone])"
| "decide_manager owned (DisposeManagedRequest itemId p) s channel claimed =
     decide_dispose owned s channel itemId p"

end
