(* ===== verification/CollabService.thy ===== *)
theory CollabService
  imports CollabDecide
begin

text \<open>
  The service around the decisions: \<open>CollabService\<close> of
  \<^verbatim>\<open>packages/collab-kernel/src/service/index.ts\<close>. Every map of the class is keyed by the space, and no
  operation reads another space's entry, so \<open>service\<close> is the slice of one space, with the durable log
  of its store and the dispatches a finished command has yet to launch. A \<open>Symbol\<close> made by \<open>open\<close> is a number from a counter. The serial queue runs one
  transaction at a time: each \<open>\<dots>_txn\<close> is what one queued callback does, given the generation and the
  samples taken before it was queued, so that anything may have happened in between.
\<close>

record service =
  sv_log :: "commit_record list"
  sv_state :: "space_state option"
  sv_records :: "commit_record list"
  sv_opened :: bool
  sv_failed :: bool
  sv_stopped :: bool
  sv_epoch :: nat
  sv_generation :: "nat option"
  sv_nextGeneration :: nat
  sv_inFlight :: "string list"
  sv_launching :: "(nat \<times> event list) list"

definition initial_service :: service where
  "initial_service =
     \<lparr>sv_log = [], sv_state = None, sv_records = [], sv_opened = False,
      sv_failed = False, sv_stopped = False, sv_epoch = 0, sv_generation = None,
      sv_nextGeneration = 0, sv_inFlight = [], sv_launching = []\<rparr>"

text \<open>
  What identifies a command: the name and the input that \<open>canonical\<close> serializes. \<open>cf_digest\<close> is the
  SHA-256 of that text.
\<close>

record create_input =
  cs_name :: string
  cs_address :: string
  cs_kind :: member_kind
  cs_purpose :: "jstr arg option"

datatype payload = PCommand command | PManagerCommand manager_command | PCreate create_input

record config =
  cf_serviceId :: string
  cf_providers :: "provider list"
  cf_convention :: convention_info
  cf_digest :: "payload \<Rightarrow> string"

text \<open>
  The host's \<open>guard\<close>: absent, not a function, or a function whose call at the check is worth \<open>true\<close>
  (throwing, or any other value, is \<open>GuardFn False\<close>).
\<close>

datatype guard = NoGuard | GuardNotFunction | GuardFn bool

record call =
  cx_branded :: bool
  cx_principal :: principal
  cx_spaceId :: string
  cx_cmdId :: "string arg"
  cx_guard :: guard
  cx_authorOwned :: "string \<Rightarrow> bool"

subsection \<open>Entry checks\<close>

definition managerProvider :: "config \<Rightarrow> string \<Rightarrow> provider option" where
  "managerProvider cf pid = find (\<lambda>p. pv_id p = pid \<and> pv_managed p) (cf_providers cf)"

definition stable :: "config \<Rightarrow> call \<Rightarrow> bool" where
  "stable cf cx \<longleftrightarrow> cx_branded cx \<and>
     (case cx_principal cx of
        PAgent a \<Rightarrow> True
      | PProvider pid a \<Rightarrow>
          list_ex (\<lambda>p. pv_id p = pid \<and> pv_channel p = a_channel a) (cf_providers cf)
      | PManager pid \<Rightarrow> managerProvider cf pid \<noteq> None
      | PInternal purpose \<Rightarrow> purpose = ''host-index'')"

definition managed_channel :: "config \<Rightarrow> principal \<Rightarrow> bool" where
  "managed_channel cf p =
     (case p of
        PManager _ \<Rightarrow> True
      | PAgent a \<Rightarrow> list_ex (\<lambda>x. pv_managed x \<and> pv_channel x = a_channel a) (cf_providers cf)
      | PProvider _ a \<Rightarrow> list_ex (\<lambda>x. pv_managed x \<and> pv_channel x = a_channel a) (cf_providers cf)
      | PInternal _ \<Rightarrow> False)"

definition is_guard_function :: "guard \<Rightarrow> bool" where
  "is_guard_function g = (case g of GuardFn _ \<Rightarrow> True | _ \<Rightarrow> False)"

definition entry :: "config \<Rightarrow> call \<Rightarrow> collab_error + unit" where
  "entry cf cx =
     (if \<not> stable cf cx then Inl FORBIDDEN
      else if managed_channel cf (cx_principal cx) \<and> \<not> is_guard_function (cx_guard cx)
      then Inl FORBIDDEN else Inr ())"

definition check_guard :: "call \<Rightarrow> collab_error + unit" where
  "check_guard cx =
     (case cx_guard cx of NoGuard \<Rightarrow> Inr ()
      | GuardNotFunction \<Rightarrow> Inl CALLER_STALE
      | GuardFn b \<Rightarrow> if b then Inr () else Inl CALLER_STALE)"

definition principal_address :: "principal \<Rightarrow> collab_error + address" where
  "principal_address p =
     (case p of PAgent a \<Rightarrow> Inr a | PProvider _ a \<Rightarrow> Inr a | _ \<Rightarrow> Inl FORBIDDEN)"

definition current_state :: "service \<Rightarrow> collab_error + space_state" where
  "current_state sv =
     (case sv_state sv of None \<Rightarrow> Inl SPACE_NOT_FOUND
      | Some s \<Rightarrow> if sv_failed sv \<or> \<not> sv_opened sv then Inl STORE_FAILED else Inr s)"

definition lookup :: "space_state \<Rightarrow> principal \<Rightarrow> collab_error + member" where
  "lookup s p =
     err_bind (principal_address p) (\<lambda>a.
       of_option NOT_MEMBER
         (find (\<lambda>m. b_channel (m_binding m) = a_channel a \<and> b_address (m_binding m) = a_address a)
            (vals (s_members s))))"

text \<open>The first receipt of this command id in this scope decides: its result, or a conflict.\<close>

definition find_receipt :: "service \<Rightarrow> string \<Rightarrow> receipt_scope \<Rightarrow> receipt option" where
  "find_receipt sv cmdId scope =
     find (\<lambda>rc. rc_cmdId rc = cmdId \<and> rc_scope rc = scope)
       (List.map_filter cm_receipt (sv_records sv))"

definition authorize :: "command_name \<Rightarrow> space_state \<Rightarrow> member \<Rightarrow> collab_error + unit" where
  "authorize name s m =
     (if m_managedBy m \<noteq> None \<and> name \<in> {Join_c, DeclineInvite_c, Leave_c} then Inl FORBIDDEN
      else if m_status m \<noteq> (if authorization name = RInvited then Invited else Active)
      then Inl MEMBER_INACTIVE
      else if authorization name = RLeader \<and> s_leader s \<noteq> m_name m then Inl FORBIDDEN
      else Inr ())"

subsection \<open>\<open>persist\<close>\<close>

definition last_seq :: "commit_record list \<Rightarrow> nat" where
  "last_seq rs = (case rev rs of [] \<Rightarrow> 0 | r # _ \<Rightarrow> cm_seq r)"

text \<open>
  The store appends the stamped row, then the state is folded; any failure in between fences the
  space. The store itself refuses a row that does not continue the log (\<open>FileStore.commit\<close>).
\<close>

definition store_append ::
  "service \<Rightarrow> commit_record \<Rightarrow> bool" where
  "store_append sv r \<longleftrightarrow>
     last_seq (sv_log sv) = last_seq (sv_records sv) \<and> cm_seq r = Suc (last_seq (sv_records sv))"

definition persist ::
  "env \<Rightarrow> service \<Rightarrow> commit_record \<Rightarrow> (collab_error + unit) \<times> service" where
  "persist en sv unstamped =
     (if \<not> sv_opened sv \<or> sv_failed sv then (Inl STORE_FAILED, sv)
      else let r = unstamped\<lparr>cm_at := Some (env_now en)\<rparr>; fence = sv\<lparr>sv_failed := True\<rparr> in
        case env_store en of
          StoreConflict \<Rightarrow> (Inl STORE_CONFLICT, fence)
        | StoreFails durable \<Rightarrow>
            (Inl STORE_FAILED,
             if durable \<and> store_append sv r then fence\<lparr>sv_log := sv_log sv @ [r]\<rparr> else fence)
        | StoreOk \<Rightarrow>
            if \<not> store_append sv r then (Inl STORE_CONFLICT, fence)
            else (case reduce (sv_state sv) r of
                Inl _ \<Rightarrow> (Inl STORE_FAILED, fence\<lparr>sv_log := sv_log sv @ [r]\<rparr>)
              | Inr st \<Rightarrow>
                  (Inr (), sv\<lparr>sv_log := sv_log sv @ [r],
                     sv_state := (case st of None \<Rightarrow> sv_state sv | Some s \<Rightarrow> Some s),
                     sv_records := sv_records sv @ [r]\<rparr>)))"

subsection \<open>\<open>open\<close> and \<open>close\<close>\<close>

definition open_space :: "service \<Rightarrow> (collab_error + unit) \<times> service" where
  "open_space sv =
     (if sv_opened sv then (Inl STORE_FAILED, sv)
      else case replay (sv_log sv) of
          Inl _ \<Rightarrow> (Inl TYPE_ERROR, sv)
        | Inr st \<Rightarrow>
            (Inr (), sv\<lparr>sv_state := st, sv_records := sv_log sv, sv_opened := True,
               sv_failed := False, sv_stopped := False,
               sv_generation := Some (sv_nextGeneration sv),
               sv_nextGeneration := Suc (sv_nextGeneration sv), sv_inFlight := []\<rparr>))"

definition close_space :: "service \<Rightarrow> service" where
  "close_space sv =
     sv\<lparr>sv_stopped := True, sv_epoch := Suc (sv_epoch sv), sv_opened := False,
       sv_generation := None, sv_inFlight := []\<rparr>"

subsection \<open>Claims and samples, taken outside the queue\<close>

fun claim_answers ::
  "env \<Rightarrow> string \<Rightarrow> member_kind \<Rightarrow> provider list \<Rightarrow> collab_error + binding list" where
  "claim_answers en a k [] = Inr []"
| "claim_answers en a k (p # ps) =
     (case env_claim en p a k of
        ClaimThrows \<Rightarrow> Inl CLAIM_THREW
      | ClaimNull \<Rightarrow> claim_answers en a k ps
      | ClaimOk b \<Rightarrow> err_bind (claim_answers en a k ps) (\<lambda>bs. Inr (b # bs)))"

definition claim :: "config \<Rightarrow> env \<Rightarrow> string \<Rightarrow> member_kind \<Rightarrow> collab_error + binding" where
  "claim cf en a k =
     err_bind (claim_answers en a k (filter (\<lambda>p. \<not> pv_managed p) (cf_providers cf))) (\<lambda>bs.
       case bs of [] \<Rightarrow> Inl ADDRESS_UNCLAIMED
       | [b] \<Rightarrow> Inr b
       | _ \<Rightarrow> Inl (ADDRESS_AMBIGUOUS (map b_channel bs)))"

text \<open>The manager's claim: only for a string, only without an earlier receipt, only its own channel.\<close>

definition manager_claim ::
  "env \<Rightarrow> provider \<Rightarrow> string arg option \<Rightarrow> bool \<Rightarrow> binding option" where
  "manager_claim en p claimAddress hasReceipt =
     (case claimAddress of
        Some (Arg a) \<Rightarrow>
          if hasReceipt then None
          else (case env_claim en p a Agent of
                  ClaimOk b \<Rightarrow> if b_channel b = pv_channel p then Some b else None
                | _ \<Rightarrow> None)
      | _ \<Rightarrow> None)"

fun claim_address :: "manager_command \<Rightarrow> string arg option" where
  "claim_address (AdmitMember n a) = Some a"
| "claim_address (RebindMember n a) = Some a"
| "claim_address (RetireMember n) = None"
| "claim_address (DisposeManagedRequest i p) = None"

definition sample_presence :: "config \<Rightarrow> env \<Rightarrow> member \<Rightarrow> presence" where
  "sample_presence cf en m =
     (case find (\<lambda>p. pv_channel p = b_channel (m_binding m)) (cf_providers cf) of
        None \<Rightarrow> Unreachable
      | Some p \<Rightarrow>
          if b_wake (m_binding m)
          then (case env_presence en p m of None \<Rightarrow> Unreachable | Some x \<Rightarrow> x)
          else Unreachable)"

text \<open>One sample per name, the last member of that name, tied to the binding it was taken for.\<close>

definition samplePresence :: "config \<Rightarrow> env \<Rightarrow> member list \<Rightarrow> dispatch_context" where
  "samplePresence cf en ms =
     (let unique = vals (fold (\<lambda>m acc. AList.update (m_name m) m acc) ms [])
      in \<lparr>dc_presence = map (\<lambda>m. (m_name m, sample_presence cf en m)) unique,
          dc_providers = fold (\<lambda>p acc. AList.update (pv_channel p) (pv_id p) acc)
                           (cf_providers cf) [],
          dc_bindings = Some (map (\<lambda>m. (m_name m, address_of (m_binding m))) unique)\<rparr>)"

subsection \<open>The queued transactions\<close>

type_synonym outcome_of = "(collab_error + command_result) \<times> service"

definition checkTopicLimit :: "space_state \<Rightarrow> commit_record \<Rightarrow> collab_error + unit" where
  "checkTopicLimit s r =
     (if \<not> (\<exists>e \<in> set (cm_events r). case ev_data e of MessageSent _ \<Rightarrow> True | _ \<Rightarrow> False)
      then Inr ()
      else case reduce (Some s) r of
          Inr (Some t) \<Rightarrow>
            (case map_of (s_topicOf t) (cm_seq r) of
               None \<Rightarrow> Inr ()
             | Some root \<Rightarrow>
                 let count = (\<lambda>st. case map_of (s_topicWakes st) root of None \<Rightarrow> 0 | Some c \<Rightarrow> c) in
                 if count t > count s \<and> count s \<ge> TOPIC_LIMIT then Inl THREAD_LIMIT else Inr ())
        | _ \<Rightarrow> Inl TYPE_ERROR)"

definition created_item :: "event list \<Rightarrow> string option" where
  "created_item es =
     (case List.map_filter (\<lambda>e. case ev_data e of ItemCreated i \<Rightarrow> Some (i_id i) | _ \<Rightarrow> None) es of
        [] \<Rightarrow> None | i # _ \<Rightarrow> Some i)"

definition command_record ::
  "nat \<Rightarrow> event list \<Rightarrow> string \<Rightarrow> receipt_scope \<Rightarrow> string \<Rightarrow> command_result \<Rightarrow> commit_record" where
  "command_record seq es cmdId scope hash res =
     \<lparr>cm_seq = seq, cm_at = None, cm_events = es,
      cm_receipt = Some \<lparr>rc_cmdId = cmdId, rc_scope = scope, rc_payloadHash = hash,
                         rc_result = res\<rparr>\<rparr>"

text \<open>A replayed command: the guard is checked, the stored result returned, nothing is written.\<close>

definition replayed :: "call \<Rightarrow> service \<Rightarrow> receipt \<Rightarrow> string \<Rightarrow> outcome_of" where
  "replayed cx sv rc hash =
     (if rc_payloadHash rc \<noteq> hash then (Inl CMD_CONFLICT, sv)
      else (err_bind (check_guard cx) (\<lambda>_. Inr (rc_result rc)), sv))"

definition committed :: "env \<Rightarrow> service \<Rightarrow> commit_record \<Rightarrow> command_result \<Rightarrow> outcome_of" where
  "committed en sv r res =
     (case persist en sv r of (Inl e, sv') \<Rightarrow> (Inl e, sv') | (Inr _, sv') \<Rightarrow> (Inr res, sv'))"

text \<open>What a member command is about to commit: the record and its result.\<close>

definition plan_command ::
  "config \<Rightarrow> env \<Rightarrow> call \<Rightarrow> string \<Rightarrow> collab_error + binding \<Rightarrow> dispatch_context \<Rightarrow> command
     \<Rightarrow> space_state \<Rightarrow> member \<Rightarrow> collab_error + (commit_record \<times> command_result)" where
  "plan_command cf en cx cmdId clm ctx cmd s m =
     (if s_status s = SpaceClosed then Inl SPACE_CLOSED
      else err_bind (authorize (name_of cmd) s m) (\<lambda>_.
        err_bind (decide (cf_providers cf) en clm cmd s m) (\<lambda>ds.
        err_bind (decideDispatch s (map (\<lambda>d. \<lparr>ev_actor = m_name m, ev_data = d\<rparr>) ds) ctx) (\<lambda>es.
          let res = \<lparr>cr_seq = Suc (s_lastSeq s), cr_spaceId = s_spaceId s,
                     cr_itemId = created_item es, cr_requestId = None\<rparr>;
              r = command_record (Suc (s_lastSeq s)) es cmdId (ScopeMember (m_name m))
                    (cf_digest cf (PCommand cmd)) res
          in err_bind (checkTopicLimit s r) (\<lambda>_.
             err_bind (check_guard cx) (\<lambda>_. Inr (r, res)))))))"

definition command_txn ::
  "config \<Rightarrow> env \<Rightarrow> call \<Rightarrow> nat option \<Rightarrow> collab_error + binding \<Rightarrow> dispatch_context \<Rightarrow> command
     \<Rightarrow> service \<Rightarrow> outcome_of" where
  "command_txn cf en cx gen clm ctx cmd sv =
     (if gen \<noteq> sv_generation sv then (Inl STORE_FAILED, sv)
      else case current_state sv of Inl e \<Rightarrow> (Inl e, sv)
      | Inr s \<Rightarrow> (case cx_cmdId cx of BadType \<Rightarrow> (Inl BAD_CMD_ID, sv)
      | Arg cmdId \<Rightarrow>
          if cmdId = [] then (Inl BAD_CMD_ID, sv)
          else case lookup s (cx_principal cx) of Inl e \<Rightarrow> (Inl e, sv)
          | Inr m \<Rightarrow> (case find_receipt sv cmdId (ScopeMember (m_name m)) of
                Some rc \<Rightarrow> replayed cx sv rc (cf_digest cf (PCommand cmd))
              | None \<Rightarrow> (case plan_command cf en cx cmdId clm ctx cmd s m of
                    Inl e \<Rightarrow> (Inl e, sv)
                  | Inr (r, res) \<Rightarrow>
                      (case committed en sv r res of
                         (Inl e, sv') \<Rightarrow> (Inl e, sv')
                       | (Inr x, sv') \<Rightarrow>
                           (Inr x, case gen of None \<Rightarrow> sv'
                              | Some g \<Rightarrow> sv'\<lparr>sv_launching := sv_launching sv' @ [(g, cm_events r)]\<rparr>))))))"

definition manager_txn ::
  "config \<Rightarrow> env \<Rightarrow> call \<Rightarrow> nat option \<Rightarrow> provider \<Rightarrow> binding option \<Rightarrow> manager_command
     \<Rightarrow> service \<Rightarrow> outcome_of" where
  "manager_txn cf en cx gen p claimed cmd sv =
     (let channel = pv_channel p; scope = ScopeManager channel;
          hash = cf_digest cf (PManagerCommand cmd) in
      if gen \<noteq> sv_generation sv then (Inl STORE_FAILED, sv)
      else case current_state sv of Inl e \<Rightarrow> (Inl e, sv)
      | Inr s \<Rightarrow> (case cx_cmdId cx of BadType \<Rightarrow> (Inl BAD_CMD_ID, sv)
      | Arg cmdId \<Rightarrow>
          if cmdId = [] then (Inl BAD_CMD_ID, sv)
          else (case find_receipt sv cmdId scope of
                Some rc \<Rightarrow> replayed cx sv rc hash
              | None \<Rightarrow>
                  if channel \<notin> set (s_managers s) then (Inl NOT_MEMBER, sv)
                  else if s_status s = SpaceClosed then (Inl SPACE_CLOSED, sv)
                  else (case decide_manager (cx_authorOwned cx) cmd s channel claimed of
                      Inl e \<Rightarrow> (Inl e, sv)
                    | Inr ds \<Rightarrow>
                        let res = \<lparr>cr_seq = Suc (s_lastSeq s), cr_spaceId = s_spaceId s,
                                   cr_itemId = None, cr_requestId = None\<rparr>
                        in (case check_guard cx of Inl e \<Rightarrow> (Inl e, sv)
                            | Inr _ \<Rightarrow> committed en sv
                                (command_record (Suc (s_lastSeq s))
                                   (map (\<lambda>d. \<lparr>ev_actor = ''manager:'' @ channel, ev_data = d\<rparr>) ds)
                                   cmdId scope hash res) res)))))"


subsection \<open>The calls before the queue\<close>

text \<open>What \<open>command\<close> checks and samples before it queues the transaction.\<close>

definition command_pre ::
  "config \<Rightarrow> env \<Rightarrow> call \<Rightarrow> command \<Rightarrow> service
     \<Rightarrow> collab_error + (nat option \<times> (collab_error + binding) \<times> dispatch_context)" where
  "command_pre cf en cx cmd sv =
     err_bind (entry cf cx) (\<lambda>_.
       if (case cx_principal cx of PInternal _ \<Rightarrow> True | PManager _ \<Rightarrow> True | _ \<Rightarrow> False)
       then Inl FORBIDDEN
       else if sv_failed sv \<or> sv_stopped sv then Inl STORE_FAILED
       else let clm = (case cmd of Invite n a k \<Rightarrow> claim cf en a k | _ \<Rightarrow> Inl ADDRESS_UNCLAIMED);
                extra = (case (cmd, clm) of
                    (Invite n a k, Inr b) \<Rightarrow> [invited_member n k b] | _ \<Rightarrow> []);
                members = (case sv_state sv of None \<Rightarrow> [] | Some s \<Rightarrow> vals (s_members s))
            in Inr (sv_generation sv, clm, samplePresence cf en (members @ extra)))"

definition manager_pre ::
  "config \<Rightarrow> env \<Rightarrow> call \<Rightarrow> manager_command \<Rightarrow> service
     \<Rightarrow> collab_error + (nat option \<times> provider \<times> binding option)" where
  "manager_pre cf en cx cmd sv =
     err_bind (entry cf cx) (\<lambda>_.
       case cx_principal cx of
         PManager pid \<Rightarrow>
           (case managerProvider cf pid of None \<Rightarrow> Inl FORBIDDEN
            | Some p \<Rightarrow>
                if sv_failed sv \<or> sv_stopped sv then Inl STORE_FAILED
                else let hasReceipt = (case cx_cmdId cx of BadType \<Rightarrow> False
                       | Arg c \<Rightarrow> find_receipt sv c (ScopeManager (pv_channel p)) \<noteq> None)
                     in Inr (sv_generation sv, p, manager_claim en p (claim_address cmd) hasReceipt))
       | _ \<Rightarrow> Inl FORBIDDEN)"

subsection \<open>\<open>createSpace\<close>\<close>

text \<open>\<^verbatim>\<open>\p{Cc}\<close>\<close>

definition control :: "nat \<Rightarrow> bool" where
  "control u \<longleftrightarrow> u < 32 \<or> (127 \<le> u \<and> u < 160)"

definition checkPurpose :: "jstr arg option \<Rightarrow> collab_error + jstr option" where
  "checkPurpose purpose =
     (case purpose of None \<Rightarrow> Inr None
      | Some BadType \<Rightarrow> Inl BAD_PURPOSE
      | Some (Arg t) \<Rightarrow>
          if list_ex control (trim t) \<or> code_points (trim t) < 1 \<or> code_points (trim t) > 200
          then Inl BAD_PURPOSE else Inr (Some (trim t)))"

definition check_fence :: "nat \<Rightarrow> service \<Rightarrow> collab_error + unit" where
  "check_fence epoch sv =
     ensure (sv_epoch sv = epoch \<and> \<not> sv_stopped sv \<and> \<not> sv_failed sv) STORE_FAILED"

definition plan_create ::
  "config \<Rightarrow> env \<Rightarrow> bool \<Rightarrow> address \<Rightarrow> create_input \<Rightarrow> service \<Rightarrow> collab_error + (binding \<times> jstr option)" where
  "plan_create cf en listed a inp sv =
     (if sv_state sv \<noteq> None \<or> listed then Inl SPACE_EXISTS
      else err_bind (claim cf en (cs_address inp) (cs_kind inp)) (\<lambda>b.
        if address_of b \<noteq> a then Inl FORBIDDEN
        else if cs_kind inp \<noteq> Agent then Inl BAD_KIND
        else if \<not> name_format (cs_name inp) then Inl BAD_NAME
        else err_bind (checkPurpose (cs_purpose inp)) (\<lambda>pu. Inr (b, pu))))"

definition create_record ::
  "config \<Rightarrow> string \<Rightarrow> string \<Rightarrow> address \<Rightarrow> create_input \<Rightarrow> binding \<Rightarrow> jstr option \<Rightarrow> commit_record" where
  "create_record cf space cmdId a inp b pu =
     (let n = cs_name inp;
          me = \<lparr>m_name = n, m_kind = Agent, m_status = Active, m_joinSeq = 1, m_binding = b,
                m_statusText = [], m_wakeCount = 0, m_managedBy = None, m_previousBindings = []\<rparr>
      in command_record 1
           [\<lparr>ev_actor = n, ev_data = SpaceCreated space (cf_serviceId cf) n (cf_convention cf) pu\<rparr>,
            \<lparr>ev_actor = n, ev_data = MemberJoined me\<rparr>]
           cmdId (ScopeCreate (a_channel a) (a_address a)) (cf_digest cf (PCreate inp))
           \<lparr>cr_seq = 1, cr_spaceId = space, cr_itemId = None, cr_requestId = None\<rparr>)"

text \<open>\<open>listed\<close>: whether \<open>store.list()\<close> names the space; \<open>epoch\<close>: read before queueing.\<close>

definition create_txn ::
  "config \<Rightarrow> env \<Rightarrow> call \<Rightarrow> nat \<Rightarrow> bool \<Rightarrow> create_input \<Rightarrow> service \<Rightarrow> outcome_of" where
  "create_txn cf en cx epoch listed inp sv =
     (case err_bind (entry cf cx) (\<lambda>_. err_bind (principal_address (cx_principal cx)) (\<lambda>a.
             err_bind (check_fence epoch sv) (\<lambda>_. Inr a))) of
        Inl e \<Rightarrow> (Inl e, sv)
      | Inr a \<Rightarrow> (case cx_cmdId cx of BadType \<Rightarrow> (Inl BAD_CMD_ID, sv)
      | Arg cmdId \<Rightarrow>
          if cmdId = [] then (Inl BAD_CMD_ID, sv)
          else (case find_receipt sv cmdId (ScopeCreate (a_channel a) (a_address a)) of
              Some rc \<Rightarrow> replayed cx sv rc (cf_digest cf (PCreate inp))
            | None \<Rightarrow> (case plan_create cf en listed a inp sv of Inl e \<Rightarrow> (Inl e, sv)
              | Inr (b, pu) \<Rightarrow>
                  (case (if sv_opened sv then (Inr (), sv) else open_space sv) of
                     (Inl e, sv') \<Rightarrow> (Inl e, sv')
                   | (Inr _, sv') \<Rightarrow>
                       let r = create_record cf (cx_spaceId cx) cmdId a inp b pu
                       in (case check_guard cx of Inl e \<Rightarrow> (Inl e, sv')
                           | Inr _ \<Rightarrow> committed en sv' r
                               \<lparr>cr_seq = 1, cr_spaceId = cx_spaceId cx, cr_itemId = None,
                                cr_requestId = None\<rparr>))))))"

subsection \<open>Dispatch\<close>

definition intents :: "event list \<Rightarrow> delivery list" where
  "intents es =
     List.map_filter (\<lambda>e. case ev_data e of DispatchIntended d \<Rightarrow> Some d | _ \<Rightarrow> None) es"

definition fenced :: "service \<Rightarrow> nat \<Rightarrow> bool" where
  "fenced sv g \<longleftrightarrow> sv_generation sv \<noteq> Some g \<or> \<not> sv_opened sv \<or> sv_failed sv"

text \<open>\<open>launchDispatch\<close> up to the SPI calls: every intent of the commit becomes in flight.\<close>

definition launch_dispatch :: "nat \<Rightarrow> event list \<Rightarrow> service \<Rightarrow> service" where
  "launch_dispatch g es sv =
     (if fenced sv g then sv
      else sv\<lparr>sv_inFlight := sv_inFlight sv @ map d_id (intents es)\<rparr>)"

text \<open>The queued completion of one delivery, with the outcome of its SPI call.\<close>

definition completion_record :: "nat \<Rightarrow> string \<Rightarrow> outcome \<Rightarrow> commit_record" where
  "completion_record seq did out =
     \<lparr>cm_seq = seq, cm_at = None,
      cm_events = [\<lparr>ev_actor = ''system:dispatch'', ev_data = DispatchCompleted did out None\<rparr>],
      cm_receipt = None\<rparr>"

definition complete_txn :: "env \<Rightarrow> nat \<Rightarrow> string \<Rightarrow> outcome \<Rightarrow> service \<Rightarrow> service" where
  "complete_txn en g did out sv =
     (let settled = (\<lambda>v. if sv_generation v = Some g
                         then v\<lparr>sv_inFlight := removeAll did (sv_inFlight v)\<rparr> else v) in
      if fenced sv g then settled sv
      else case sv_state sv of None \<Rightarrow> settled sv
      | Some s \<Rightarrow>
          if s_status s = SpaceClosed
             \<or> (case map_of (s_deliveries s) did of None \<Rightarrow> False | Some d \<Rightarrow> d_outcome d \<noteq> None)
          then settled sv
          else settled (snd (persist en sv (completion_record (Suc (s_lastSeq s)) did out))))"

subsection \<open>Reads\<close>

definition read_state :: "config \<Rightarrow> call \<Rightarrow> service \<Rightarrow> collab_error + space_state" where
  "read_state cf cx sv =
     err_bind (entry cf cx) (\<lambda>_. err_bind (current_state sv) (\<lambda>s.
       case cx_principal cx of PInternal _ \<Rightarrow> Inr s
       | p \<Rightarrow> err_bind (lookup s p) (\<lambda>m.
           if m_status m \<noteq> Active then Inl MEMBER_INACTIVE else Inr s)))"

definition readSince :: "config \<Rightarrow> call \<Rightarrow> int arg \<Rightarrow> service \<Rightarrow> collab_error + commit_record list" where
  "readSince cf cx seq sv =
     err_bind (read_state cf cx sv) (\<lambda>_.
       case seq of BadType \<Rightarrow> Inl BAD_SEQ
       | Arg q \<Rightarrow> if q < 0 then Inl BAD_SEQ
           else err_bind (check_guard cx) (\<lambda>_.
             Inr (filter (\<lambda>r. int (cm_seq r) > q) (sv_records sv))))"

record overview =
  ov_state :: space_state
  ov_pending :: "delivery list"
  ov_inFlight :: "delivery list"
  ov_presence :: "(string \<times> presence) list"

text \<open>\<open>overview\<close> after its sampling: \<open>gen\<close> and \<open>observed\<close> were taken before the await.\<close>

definition overview_txn ::
  "config \<Rightarrow> call \<Rightarrow> nat option \<Rightarrow> dispatch_context \<Rightarrow> service \<Rightarrow> collab_error + overview" where
  "overview_txn cf cx gen observed sv =
     (if sv_generation sv \<noteq> gen then Inl STORE_FAILED
      else err_bind (read_state cf cx sv) (\<lambda>s. err_bind (check_guard cx) (\<lambda>_.
        let unfinished = filter (\<lambda>d. d_outcome d = None) (vals (s_deliveries s)) in
        Inr \<lparr>ov_state = s,
             ov_pending = filter (\<lambda>d. d_id d \<notin> set (sv_inFlight sv)) unfinished,
             ov_inFlight = filter (\<lambda>d. d_id d \<in> set (sv_inFlight sv)) unfinished,
             ov_presence = map (\<lambda>m. (m_name m,
               case (dc_bindings observed, map_of (dc_presence observed) (m_name m)) of
                 (Some bs, Some p) \<Rightarrow>
                   if map_of bs (m_name m) = Some (address_of (m_binding m)) then p else Unknown
               | _ \<Rightarrow> Unknown)) (vals (s_members s))\<rparr>)))"

definition readConvention ::
  "config \<Rightarrow> (string \<times> jstr) option \<Rightarrow> (string \<times> jstr) list \<Rightarrow> call \<Rightarrow> string \<Rightarrow> service
     \<Rightarrow> collab_error + jstr" where
  "readConvention cf custom published cx version sv =
     err_bind (read_state cf cx sv) (\<lambda>_.
       case (case custom of
               Some (v, t) \<Rightarrow> if v = version then Some t else None
             | None \<Rightarrow> map_of published version) of
         None \<Rightarrow> Inl CONVENTION_UNKNOWN
       | Some t \<Rightarrow> err_bind (check_guard cx) (\<lambda>_. Inr t))"

end
