(* ===== verification/CollabProtocol.thy ===== *)
theory CollabProtocol
  imports CollabService
begin

text \<open>
  The abstract specification of a space. \<open>legal s ds\<close> says which business events one commit may carry
  in state \<open>s\<close>, whatever command produced them; \<open>wf_space\<close> is what the fold of such commits keeps true.
  \<open>decide_legal\<close> and \<open>decide_manager_legal\<close> show that the commands implement the specification, and
  \<open>legal_wf\<close> that the specification keeps the invariant.
\<close>

subsection \<open>The invariant\<close>

definition wf_members :: "space_state \<Rightarrow> bool" where
  "wf_members s \<longleftrightarrow> distinct (keys (s_members s)) \<and>
     (\<forall>n m. member_at s n = Some m \<longrightarrow> m_name m = n)"

text \<open>No address, current or retired, is held twice.\<close>

definition wf_addresses :: "space_state \<Rightarrow> bool" where
  "wf_addresses s \<longleftrightarrow>
     (\<forall>n m. member_at s n = Some m \<longrightarrow> distinct (occupied m)) \<and>
     (\<forall>n m n' m'. member_at s n = Some m \<longrightarrow> member_at s n' = Some m' \<longrightarrow> n \<noteq> n' \<longrightarrow>
        set (occupied m) \<inter> set (occupied m') = {})"

definition leads :: "space_state \<Rightarrow> string \<Rightarrow> bool" where
  "leads s n \<longleftrightarrow> (\<exists>m. member_at s n = Some m \<and> m_status m = Active \<and> m_managedBy m = None)"

definition wf_leader :: "space_state \<Rightarrow> bool" where
  "wf_leader s \<longleftrightarrow> (s_status s = SpaceOpen \<longrightarrow> leads s (s_leader s))"

definition wf_managed :: "space_state \<Rightarrow> bool" where
  "wf_managed s \<longleftrightarrow>
     (\<forall>n m c. member_at s n = Some m \<longrightarrow> m_status m = Active \<longrightarrow> m_managedBy m = Some c \<longrightarrow>
        c \<in> set (s_managers s))"

definition item_ok :: "space_state \<Rightarrow> item \<Rightarrow> bool" where
  "item_ok s i \<longleftrightarrow>
     has (s_members s) (i_author i) \<and> 1 \<le> i_revision i \<and>
     1 \<le> length (i_title i) \<and> length (i_title i) \<le> 200 \<and> byte_length (i_body i) \<le> 65536 \<and>
     (\<forall>n r. map_of (i_acks i) n = Some r \<longrightarrow> r = i_revision i \<and> has (s_members s) n) \<and>
     (\<forall>n \<in> set (i_requiredAcks i). has (s_members s) n) \<and>
     (i_status i = (if fully_acked i then Agreed else Draft)) \<and>
     (\<forall>a p. i_kind i = Request a p \<longrightarrow> has (s_members s) a)"

definition wf_items :: "space_state \<Rightarrow> bool" where
  "wf_items s \<longleftrightarrow> distinct (keys (s_items s)) \<and>
     (\<forall>iid i. item_at s iid = Some i \<longrightarrow> i_id i = iid \<and> iid \<noteq> [] \<and> item_ok s i)"

text \<open>Every message and item creation belongs to a topic, and a topic is named by its first seq.\<close>

definition wf_topics :: "space_state \<Rightarrow> bool" where
  "wf_topics s \<longleftrightarrow> distinct (keys (s_topicOf s)) \<and>
     (\<forall>q root. map_of (s_topicOf s) q = Some root \<longrightarrow>
        1 \<le> root \<and> root \<le> q \<and> q \<le> s_lastSeq s \<and> map_of (s_topicOf s) root = Some root) \<and>
     (\<forall>iid. has (s_items s) iid \<longrightarrow> (\<exists>q. map_of (s_itemSeq s) iid = Some q)) \<and>
     (\<forall>iid q. map_of (s_itemSeq s) iid = Some q \<longrightarrow> has (s_items s) iid \<and> has (s_topicOf s) q)"

definition wf_wakes :: "space_state \<Rightarrow> bool" where
  "wf_wakes s \<longleftrightarrow> (\<forall>root c. map_of (s_topicWakes s) root = Some c \<longrightarrow> c \<le> TOPIC_LIMIT)"

definition wf_deliveries :: "space_state \<Rightarrow> bool" where
  "wf_deliveries s \<longleftrightarrow> distinct (keys (s_deliveries s)) \<and>
     (\<forall>did d. map_of (s_deliveries s) did = Some d \<longrightarrow> d_id d = did \<and>
        has (s_members s) (d_member d) \<and>
        (\<exists>q k. did = delivery_id q k \<and> q \<le> s_lastSeq s))"

definition wf_managers :: "space_state \<Rightarrow> bool" where
  "wf_managers s \<longleftrightarrow> distinct (s_managers s)"

definition wf_space :: "space_state \<Rightarrow> bool" where
  "wf_space s \<longleftrightarrow> wf_members s \<and> wf_addresses s \<and> wf_leader s \<and> wf_managed s \<and> wf_items s \<and>
     wf_topics s \<and> wf_wakes s \<and> wf_deliveries s \<and> wf_managers s"

subsection \<open>The commits of a space\<close>

definition fresh_address :: "space_state \<Rightarrow> binding \<Rightarrow> bool" where
  "fresh_address s b \<longleftrightarrow>
     (\<forall>n m. member_at s n = Some m \<longrightarrow> address_of b \<notin> set (occupied m))"

definition ref_ok :: "space_state \<Rightarrow> nat option \<Rightarrow> bool" where
  "ref_ok s ref \<longleftrightarrow> (\<forall>r. ref = Some r \<longrightarrow> has (s_topicOf s) r)"

inductive legal :: "space_state \<Rightarrow> event_data list \<Rightarrow> bool" for s where
  invite: "\<lbrakk>\<not> has (s_members s) (m_name m); fresh_address s (m_binding m); m_status m = Invited;
     m_managedBy m = None; m_previousBindings m = []\<rbrakk> \<Longrightarrow> legal s [MemberInvited m]"
| join: "\<lbrakk>member_at s (m_name m) = Some m; m_status m = Invited; m_managedBy m = None\<rbrakk> \<Longrightarrow>
     legal s [MemberJoined (m\<lparr>m_status := Active, m_joinSeq := Suc (s_lastSeq s)\<rparr>)]"
| admit: "\<lbrakk>\<not> has (s_members s) (m_name m); fresh_address s (m_binding m); m_status m = Active;
     m_managedBy m = Some c; c \<in> set (s_managers s); m_previousBindings m = []\<rbrakk> \<Longrightarrow>
     legal s [MemberJoined m]"
| quit: "\<lbrakk>member_at s n = Some m; n \<noteq> s_leader s; st \<in> {Gone, Declined}\<rbrakk> \<Longrightarrow>
     legal s [MemberStatus n st]"
| handover: "\<lbrakk>member_at s (s_leader s) = Some m; leads s n; n \<noteq> s_leader s\<rbrakk> \<Longrightarrow>
     legal s [MemberStatus (s_leader s) Gone, LeaderChanged n]"
| last_leaves: "member_at s (s_leader s) = Some m \<Longrightarrow>
     legal s [MemberStatus (s_leader s) Gone, SpaceClosedEv]"
| transfer: "leads s n \<Longrightarrow> legal s [LeaderChanged n]"
| close_space: "legal s [SpaceClosedEv]"
| status_text: "member_at s n = Some m \<Longrightarrow> legal s [MemberStatusText n t]"
| rebound: "\<lbrakk>member_at s n = Some m; fresh_address s b\<rbrakk> \<Longrightarrow> legal s [MemberRebound n b]"
| allow: "c \<notin> set (s_managers s) \<Longrightarrow> legal s [ManagerAllowed c]"
| revoke: "legal s (ManagerRevoked c # map (\<lambda>m. MemberStatus (m_name m) Gone)
     (filter (\<lambda>m. m_managedBy m = Some c \<and> m_status m = Active) (vals (s_members s))))"
| create: "\<lbrakk>\<not> has (s_items s) (i_id i); i_id i \<noteq> []; item_ok s i; ref_ok s (i_ref i)\<rbrakk> \<Longrightarrow>
     legal s [ItemCreated i]"
| revise: "\<lbrakk>item_at s (i_id i) = Some j; item_ok s i; i_revision i = Suc (i_revision j);
     i_author i = i_author j; i_kind i = i_kind j\<rbrakk> \<Longrightarrow> legal s [ItemRevised i]"
| acked: "\<lbrakk>item_at s (i_id i) = Some j; item_ok s i; i = ack n j\<rbrakk> \<Longrightarrow> legal s [ItemAcked i]"
| progress: "\<lbrakk>item_at s iid = Some i; i_kind i = Request a cur; p \<in> set (dispose_moves cur)\<rbrakk> \<Longrightarrow>
     legal s [RequestProgressed iid p]"
| message: "\<lbrakk>member_active s (msg_to m); msg_to m \<noteq> msg_actor m; ref_ok s (msg_ref m)\<rbrakk> \<Longrightarrow>
     legal s [MessageSent m]"

inductive_cases legal_messageE: "legal s [MessageSent m]"
inductive_cases legal_progressE: "legal s [RequestProgressed iid p]"

subsection \<open>The commands implement the specification\<close>

lemma wf_membersD: "wf_members s \<Longrightarrow> member_at s n = Some m \<Longrightarrow> m_name m = n"
  by (simp add: wf_members_def)

lemma wf_itemsD:
  "wf_items s \<Longrightarrow> item_at s iid = Some i \<Longrightarrow> i_id i = iid \<and> iid \<noteq> [] \<and> item_ok s i"
  by (simp add: wf_items_def)

lemma vals_iff: "distinct (keys m) \<Longrightarrow> v \<in> set (vals m) \<longleftrightarrow> (\<exists>k. map_of m k = Some v)"
  by (force dest: map_of_SomeI map_of_SomeD)

lemma addressTaken_iff:
  "wf_members s \<Longrightarrow> \<not> addressTaken s b \<longleftrightarrow> fresh_address s b"
  unfolding addressTaken_def fresh_address_def wf_members_def Bex_def by (metis vals_iff)

lemma checkName_ok [ok_iff]:
  "checkName s name = Inr n \<longleftrightarrow> name = Arg n \<and> name_format n \<and> \<not> has (s_members s) n"
  by (auto simp: checkName_def split: arg.splits if_splits)

lemma checkClaimed_ok [ok_iff]:
  "checkClaimed s c = Inr b \<longleftrightarrow> c = Some b \<and> \<not> addressTaken s b"
  by (auto simp: checkClaimed_def split: option.splits if_splits)

lemma managedTarget_ok [ok_iff]:
  "managedTarget s channel name = Inr m \<longleftrightarrow>
     (\<exists>n. name = Arg n \<and> member_at s n = Some m \<and> m_managedBy m = Some channel \<and>
          m_status m = Active)"
  by (auto simp: managedTarget_def split: arg.splits option.splits if_splits)

lemma otherActive_ok [ok_iff]:
  "otherActive s actor n = Inr u \<longleftrightarrow> n \<noteq> actor \<and> member_active s n"
  by (simp add: otherActive_def ensure_ok)

lemma checkRef_ok [ok_iff]:
  "checkRef s ref = Inr r \<longleftrightarrow>
     (ref = None \<and> r = None) \<or>
     (\<exists>k. ref = Some (Arg k) \<and> 1 \<le> k \<and> has (s_topicOf s) (nat k) \<and> r = Some (nat k))"
  by (auto simp: checkRef_def split: option.splits arg.splits if_splits)

lemma checkKind_ok [ok_iff]:
  "checkKind s k = Inr x \<longleftrightarrow>
     (k = KCharter \<and> x = Charter) \<or> (k = KOther \<and> x = OtherItem) \<or>
     (\<exists>a. k = KRequest a \<and> member_active s a \<and> x = Request a Open)"
  by (auto simp: checkKind_def split: item_kind_input.splits if_splits)

lemma checkItemId_ok [ok_iff]:
  "checkItemId s iid = Inr i \<longleftrightarrow> iid = Arg i \<and> i \<noteq> [] \<and> \<not> has (s_items s) i"
  by (auto simp: checkItemId_def split: arg.splits if_splits)

lemma member_active_has: "member_active s n \<Longrightarrow> has (s_members s) n"
  by (auto simp: member_active_iff dest: map_of_has)


lemma successor_leads:
  assumes "wf_members s" and "successor s actor = Some m"
  shows "leads s (m_name m)" and "m_name m \<noteq> actor"
proof -
  let ?c = "filter (\<lambda>m. m_name m \<noteq> actor \<and> m_status m = Active \<and> m_managedBy m = None)
    (vals (s_members s))"
  from assms(2) obtain ms where "sort_key m_joinSeq ?c = m # ms"
    by (auto simp: successor_def split: list.splits)
  then have "set (sort_key m_joinSeq ?c) = insert m (set ms)" by simp
  then have m: "m \<in> set ?c" by simp
  then obtain n where "(n, m) \<in> set (s_members s)" by auto
  with assms(1) have "member_at s n = Some m" "m_name m = n"
    by (auto simp: wf_members_def map_of_is_SomeI)
  with m show "leads s (m_name m)" "m_name m \<noteq> actor" by (auto simp: leads_def)
qed

lemma decide_leave_legal:
  assumes "wf_members s" and "member_at s a = Some me"
  shows "legal s (decide_leave s a)"
proof (cases "s_leader s = a")
  case True
  then show ?thesis
    using assms successor_leads [OF assms(1)]
    by (auto simp: decide_leave_def intro: legal.handover legal.last_leaves split: option.split)
next
  case False
  then show ?thesis using assms by (auto simp: decide_leave_def intro: legal.quit)
qed

lemma decide_create_legal:
  assumes "decide_create s a inp = Inr ds" and "member_at s a = Some me"
  shows "legal s ds"
proof -
  from assms(1) obtain t b ns k iid ref
    where f: "checkFields s (ci_title inp) (ci_body inp) (ci_requiredAcks inp) = Inr (t, b, ns)"
      and k: "checkKind s (ci_kind inp) = Inr k" and iid: "checkItemId s (ci_itemId inp) = Inr iid"
      and ref: "checkRef s (ci_ref inp) = Inr ref"
      and ds: "ds = [ItemCreated (new_item iid a t b ns ref (ci_ext inp) k)]"
    by (force simp: decide_create_def err_bind_ok split: if_splits)
  have "has (s_members s) a" using assms(2) by (rule map_of_has)
  moreover have "\<forall>n \<in> set ns. has (s_members s) n"
    using f by (simp add: checkFields_ok list_all_iff member_active_has)
  moreover have "\<forall>x p. k = Request x p \<longrightarrow> has (s_members s) x"
    using k by (auto simp: checkKind_ok member_active_has)
  ultimately have "item_ok s (new_item iid a t b ns ref (ci_ext inp) k)"
    using f by (auto simp: checkFields_ok item_ok_def new_item_def fully_acked_def neq_Nil_conv)
  moreover have "ref_ok s ref" using ref by (auto simp: checkRef_ok ref_ok_def)
  ultimately show ?thesis using iid unfolding ds
    by (intro legal.create) (simp_all add: checkItemId_ok new_item_def)
qed

lemma decide_revise_legal:
  assumes "wf_items s" and "decide_revise s iid expected ch = Inr ds"
  shows "legal s ds"
proof -
  from assms(2) obtain cur c where cur: "item_at s iid = Some cur"
    and c: "ch = Some c" "\<not> ch_has_deciders c" "\<not> ch_has_other_key c"
    by (cases ch) (auto simp: decide_revise_def err_bind_ok checkedItem_ok split: if_splits)
  from assms(2) obtain t b ns
    where f: "checkFields s (merge_arg (ch_title c) (i_title cur)) (merge_arg (ch_body c) (i_body cur))
       (merge_arg (ch_requiredAcks c) (i_requiredAcks cur)) = Inr (t, b, ns)"
    and ds: "ds = [ItemRevised (cur\<lparr>i_title := t, i_body := b, i_requiredAcks := ns,
       i_revision := Suc (i_revision cur), i_status := Draft, i_acks := []\<rparr>)]"
    using cur c by (force simp: decide_revise_def err_bind_ok checkedItem_ok)
  from assms(1) cur have i: "i_id cur = iid" "item_ok s cur" by (auto simp: wf_items_def)
  have "\<forall>n \<in> set ns. has (s_members s) n"
    using f by (simp add: checkFields_ok list_all_iff member_active_has)
  with f i have "item_ok s (cur\<lparr>i_title := t, i_body := b, i_requiredAcks := ns,
       i_revision := Suc (i_revision cur), i_status := Draft, i_acks := []\<rparr>)"
    by (auto simp: item_ok_def fully_acked_def checkFields_ok neq_Nil_conv)
  then show ?thesis
    using cur i unfolding ds by (intro legal.revise [where j = cur]) simp_all
qed

lemma fully_acked_ack_cong:
  "fully_acked (i\<lparr>i_status := st\<rparr>) = fully_acked i"
  by (simp add: fully_acked_def)

lemma ack_sel [simp]:
  "i_id (ack n i) = i_id i" "i_author (ack n i) = i_author i" "i_title (ack n i) = i_title i"
  "i_body (ack n i) = i_body i" "i_requiredAcks (ack n i) = i_requiredAcks i"
  "i_revision (ack n i) = i_revision i" "i_kind (ack n i) = i_kind i"
  "i_acks (ack n i) = AList.update n (i_revision i) (i_acks i)" "i_ref (ack n i) = i_ref i"
  by (simp_all add: ack_def Let_def)

lemma fully_acked_ack: 
  "fully_acked (ack n i) = fully_acked (i\<lparr>i_acks := AList.update n (i_revision i) (i_acks i)\<rparr>)"
  by (simp add: ack_def Let_def fully_acked_ack_cong)

lemma ack_status:
  "i_status i = Draft \<Longrightarrow> i_status (ack n i) = (if fully_acked (ack n i) then Agreed else Draft)"
  by (simp add: fully_acked_ack) (simp add: ack_def Let_def)

lemma item_ok_ack:
  assumes "item_ok s i" and "i_status i = Draft" and "has (s_members s) n"
  shows "item_ok s (ack n i)"
  using assms ack_status [OF assms(2), of n] by (auto simp: item_ok_def)

lemma decide_ack_legal:
  assumes "wf_items s" and "decide_ack s a iid rv = Inr ds" and "has (s_members s) a"
  shows "legal s ds"
proof -
  from assms(2) obtain i where i: "item_at s iid = Some i" "itemTransitions (i_status i) AckItem_k = None"
    "ds = [ItemAcked (ack a i)]"
    by (auto simp: decide_ack_def ok_iff)
  from assms(1) i(1) have ok: "i_id i = iid" "item_ok s i" by (auto simp: wf_items_def)
  from i(2) have "i_status i = Draft" by (cases "i_status i") simp_all
  with ok assms(3) have "item_ok s (ack a i)" by (intro item_ok_ack)
  then show ?thesis using i ok unfolding i(3) by (intro legal.acked [where j = i and n = a]) simp_all
qed

lemma request_moves_dispose: "p \<in> set (request_moves c) \<Longrightarrow> p \<in> set (dispose_moves c)"
  by (cases c) auto

lemma decide_advance_ok:
  "decide_advance s a iid p = Inr ds \<longleftrightarrow>
     (\<exists>i cur. item_at s iid = Some i \<and> i_kind i = Request a cur \<and>
        itemTransitions (i_status i) AdvanceRequest_k = None \<and> p \<in> set (request_moves cur) \<and>
        ds = [RequestProgressed (i_id i) p])"
  by (cases "item_at s iid")
    (auto simp: decide_advance_def err_bind_ok checkedItem_ok split: item_kind.split if_splits)

lemma decide_advance_legal:
  assumes "wf_items s" and "decide_advance s a iid p = Inr ds"
  shows "legal s ds"
proof -
  from assms(2) obtain i cur where i: "item_at s iid = Some i" "i_kind i = Request a cur"
      "p \<in> set (request_moves cur)" "ds = [RequestProgressed (i_id i) p]"
    by (auto simp: decide_advance_ok)
  moreover from assms(1) i(1) have "i_id i = iid" by (auto simp: wf_items_def)
  ultimately show ?thesis by (auto intro: legal.progress request_moves_dispose)
qed

lemma decide_dispose_ok:
  "decide_dispose owned s channel itemId p = Inr ds \<longleftrightarrow>
     (\<exists>x i a cur m. itemId = Arg x \<and> item_at s x = Some i \<and> i_kind i = Request a cur \<and>
        member_at s (i_author i) = Some m \<and>
        (m_managedBy m = Some channel \<or>
           (b_channel (m_binding m) = ''dsh-session'' \<and> owned (b_address (m_binding m)))) \<and>
        checkedItem s (i_id i) AdvanceRequest_k \<noteq> Inl ITEM_NOT_FOUND \<and>
        (\<exists>y. checkedItem s (i_id i) AdvanceRequest_k = Inr y) \<and>
        p \<in> set (dispose_moves cur) \<and> ds = [RequestProgressed (i_id i) p])"
proof (cases itemId)
  case (Arg x)
  show ?thesis
  proof (cases "item_at s x")
    case (Some i)
    show ?thesis
      by (cases "member_at s (i_author i)"; cases "checkedItem s (i_id i) AdvanceRequest_k";
          cases "i_kind i") (auto simp: Arg Some decide_dispose_def)
  qed (simp add: Arg decide_dispose_def)
qed (simp add: decide_dispose_def)

lemma decide_dispose_legal:
  assumes "wf_items s" and "decide_dispose owned s channel itemId p = Inr ds"
  shows "legal s ds"
proof -
  from assms(2) obtain x i a cur where i: "item_at s x = Some i" "i_kind i = Request a cur"
      "p \<in> set (dispose_moves cur)" "ds = [RequestProgressed (i_id i) p]"
    unfolding decide_dispose_ok by blast
  moreover from assms(1) i(1) have "i_id i = x" by (auto simp: wf_items_def)
  ultimately show ?thesis by (auto intro: legal.progress)
qed

lemma decide_send_ok:
  assumes "decide_send ps en s a inp = Inr ds"
  obtains ref b nr nt mode where "member_active s (mi_to inp)" and "mi_to inp \<noteq> a"
    and "checkBody (mi_body inp) = Inr b" and "checkRef s (mi_ref inp) = Inr ref"
    and "ds = [MessageSent \<lparr>msg_id = nat_text (Suc (s_lastSeq s)), msg_actor = a,
       msg_to = mi_to inp, msg_body = b, msg_needsReply = (case nr of None \<Rightarrow> False | Some x \<Rightarrow> x),
       msg_notify = Some (messageNotifies nt nr), msg_ref = ref, msg_ext = mi_ext inp,
       msg_mode = mode\<rparr>]"
proof -
  from assms obtain rcpt where r: "mi_to inp \<noteq> a" "member_at s (mi_to inp) = Some rcpt"
      "m_status rcpt = Active"
    by (cases "member_at s (mi_to inp)") (auto simp: decide_send_def split: if_splits)
  have act: "member_active s (mi_to inp)" using r by (simp add: member_active_iff)
  note dec = assms [unfolded decide_send_def]
  from dec r obtain b nr nt ref u where "checkBody (mi_body inp) = Inr b"
      "bool_arg (mi_needsReply inp) = Inr nr" "bool_arg (mi_notify inp) = Inr nt"
      "checkExt (mi_ext inp) = Inr u" "checkRef s (mi_ref inp) = Inr ref"
    by (auto simp only: err_bind_ok if_False simp_thms option.case sum.inject)
  moreover from dec r this obtain mode where
      "ds = [MessageSent \<lparr>msg_id = nat_text (Suc (s_lastSeq s)), msg_actor = a,
       msg_to = mi_to inp, msg_body = b, msg_needsReply = (case nr of None \<Rightarrow> False | Some x \<Rightarrow> x),
       msg_notify = Some (messageNotifies nt nr), msg_ref = ref, msg_ext = mi_ext inp,
       msg_mode = mode\<rparr>]"
    by (auto simp only: err_bind_ok err_bind_simps if_False simp_thms option.case Let_def sum.inject)
  ultimately show thesis using that act r(1) by blast
qed

lemma decide_send_legal:
  assumes "decide_send ps en s a inp = Inr ds"
  shows "legal s ds"
  using assms
proof (rule decide_send_ok)
  fix ref b nr nt mode
  assume "member_active s (mi_to inp)" "mi_to inp \<noteq> a" "checkRef s (mi_ref inp) = Inr ref"
    and ds: "ds = [MessageSent \<lparr>msg_id = nat_text (Suc (s_lastSeq s)), msg_actor = a,
       msg_to = mi_to inp, msg_body = b, msg_needsReply = (case nr of None \<Rightarrow> False | Some x \<Rightarrow> x),
       msg_notify = Some (messageNotifies nt nr), msg_ref = ref, msg_ext = mi_ext inp,
       msg_mode = mode\<rparr>]"
  then show "legal s ds"
    unfolding ds by (intro legal.message) (auto simp: ref_ok_def checkRef_ok)
qed

lemma decide_legal:
  assumes wf: "wf_space s" and op: "s_status s = SpaceOpen"
    and me: "member_at s (m_name me) = Some me"
    and auth: "authorize (name_of cmd) s me = Inr ()"
    and dec: "decide ps en clm cmd s me = Inr ds"
  shows "legal s ds"
proof -
  have wfs: "wf_members s" "wf_items s" "wf_leader s" using wf by (simp_all add: wf_space_def)
  show ?thesis
  proof (cases cmd)
    case (Invite n a k)
    with dec show ?thesis
      by (auto simp: decide_invite_def ok_iff addressTaken_iff [OF wfs(1)] invited_member_def
          split: if_splits intro!: legal.invite)
  next
    case Join
    with dec auth me show ?thesis
      by (auto simp: authorize_def split: if_splits intro: legal.join)
  next
    case DeclineInvite
    have "m_name me \<noteq> s_leader s"
      using auth me wfs(3) op DeclineInvite
      by (auto simp: authorize_def wf_leader_def leads_def split: if_splits)
    with dec me DeclineInvite show ?thesis by (auto intro: legal.quit)
  next
    case Leave
    with dec me show ?thesis by (auto intro: decide_leave_legal wfs)
  next
    case (MarkGone n)
    have "m_name me = s_leader s"
      using auth MarkGone by (auto simp: authorize_def split: if_splits)
    with dec MarkGone show ?thesis
      by (auto simp: ok_iff member_active_iff intro: legal.quit)
  next
    case (TransferLeader n)
    with dec show ?thesis
      by (auto simp: decide_transfer_def ok_iff member_active_iff leads_def
          split: option.splits if_splits intro!: legal.transfer)
  next
    case CloseSpace
    with dec show ?thesis by (auto intro: legal.close_space)
  next
    case (CreateItem inp)
    with dec me show ?thesis by (auto intro: decide_create_legal)
  next
    case (ReviseItem iid e ch)
    with dec show ?thesis by (auto intro: decide_revise_legal wfs)
  next
    case (AckItem iid rv)
    with dec me show ?thesis by (auto intro: decide_ack_legal wfs dest: map_of_has)
  next
    case (SendMessage inp)
    with dec show ?thesis by (auto intro: decide_send_legal)
  next
    case (SetStatus t)
    with dec me show ?thesis by (auto split: arg.splits if_splits intro: legal.status_text)
  next
    case (AdvanceRequest iid p)
    with dec show ?thesis by (auto intro: decide_advance_legal wfs)
  next
    case (AllowManager c)
    with dec show ?thesis
      by (auto simp: decide_allow_def split: arg.splits if_splits intro: legal.allow)
  next
    case (RevokeManager c)
    with dec show ?thesis
      by (auto simp: decide_revoke_def split: arg.splits if_splits intro: legal.revoke)
  qed
qed

lemma decide_manager_legal:
  assumes wf: "wf_space s" and op: "s_status s = SpaceOpen" and ch: "channel \<in> set (s_managers s)"
    and dec: "decide_manager owned cmd s channel claimed = Inr ds"
  shows "legal s ds"
proof -
  have wfs: "wf_members s" "wf_items s" "wf_leader s" using wf by (simp_all add: wf_space_def)
  show ?thesis
  proof (cases cmd)
    case (AdmitMember n a)
    with dec ch show ?thesis
      by (auto simp: ok_iff addressTaken_iff [OF wfs(1)] intro!: legal.admit)
  next
    case (RebindMember n a)
    with dec obtain x m b where "member_at s x = Some m" "\<not> addressTaken s b"
        "ds = [MemberRebound (m_name m) b]"
      by (auto simp: ok_iff)
    then show ?thesis
      using wf_membersD [OF wfs(1)] by (auto simp: addressTaken_iff [OF wfs(1)] intro: legal.rebound)
  next
    case (RetireMember n)
    with dec obtain x m where m: "member_at s x = Some m" "m_managedBy m = Some channel"
        "ds = [MemberStatus (m_name m) Gone]"
      by (auto simp: ok_iff)
    with wfs(3) op have "x \<noteq> s_leader s" by (auto simp: wf_leader_def leads_def)
    with m wf_membersD [OF wfs(1) m(1)] show ?thesis by (auto intro: legal.quit)
  next
    case (DisposeManagedRequest itemId p)
    with dec show ?thesis by (auto intro: decide_dispose_legal wfs)
  qed
qed


subsection \<open>The specification keeps the invariant\<close>

text \<open>
  A planned record: the business events of a legal commit, then fresh wake intents for members that
  exist once the business events are applied.
\<close>

definition intents_ok :: "space_state \<Rightarrow> event_data list \<Rightarrow> event list \<Rightarrow> bool" where
  "intents_ok s ds is \<longleftrightarrow>
     (\<forall>e \<in> set is. \<exists>d. ev_data e = DispatchIntended d \<and> d_kind d = Wake \<and> d_outcome d = None \<and>
        (has (s_members s) (d_member d) \<or>
           (\<exists>m. MemberInvited m \<in> set ds \<and> d_member d = m_name m)) \<and>
        (\<exists>k. d_id d = delivery_id (Suc (s_lastSeq s)) k))"

text \<open>The parts of the invariant that a delivery intent or a counter cannot touch.\<close>

definition core_eq :: "space_state \<Rightarrow> space_state \<Rightarrow> bool" where
  "core_eq s t \<longleftrightarrow>
     s_status t = s_status s \<and> s_leader t = s_leader s \<and> s_managers t = s_managers s \<and>
     s_items t = s_items s \<and> s_itemSeq t = s_itemSeq s \<and> s_topicOf t = s_topicOf s \<and>
     s_topicWakes t = s_topicWakes s \<and> s_lastSeq t = s_lastSeq s \<and>
     keys (s_members t) = keys (s_members s) \<and>
     (\<forall>n. map_option (\<lambda>m. (m_name m, m_status m, m_managedBy m, occupied m)) (member_at t n)
        = map_option (\<lambda>m. (m_name m, m_status m, m_managedBy m, occupied m)) (member_at s n))"

lemma core_eq_refl [simp]: "core_eq s s"
  by (simp add: core_eq_def)

lemma core_eq_trans: "core_eq s t \<Longrightarrow> core_eq t u \<Longrightarrow> core_eq s u"
  by (simp add: core_eq_def)

lemma core_eq_has: "core_eq s t \<Longrightarrow> has (s_members t) n = has (s_members s) n"
  by (simp add: core_eq_def has_iff_keys)

lemma core_eq_member:
  assumes "core_eq s t" and "member_at t n = Some m"
  shows "\<exists>m'. member_at s n = Some m' \<and> m_name m' = m_name m \<and> m_status m' = m_status m \<and>
    m_managedBy m' = m_managedBy m \<and> occupied m' = occupied m"
proof -
  let ?f = "\<lambda>m. (m_name m, m_status m, m_managedBy m, occupied m)"
  have "map_option ?f (member_at t n) = map_option ?f (member_at s n)"
    using assms(1) by (simp add: core_eq_def)
  then show ?thesis using assms(2) by (cases "member_at s n") auto
qed

lemma core_eq_sym: "core_eq s t \<Longrightarrow> core_eq t s"
  by (simp add: core_eq_def)

lemma core_eq_item_ok: "core_eq s t \<Longrightarrow> item_ok t i = item_ok s i"
  by (simp add: item_ok_def core_eq_has)

lemma core_eq_fields:
  assumes "core_eq s t"
  shows "s_status t = s_status s" "s_leader t = s_leader s" "s_managers t = s_managers s"
    "s_items t = s_items s" "s_itemSeq t = s_itemSeq s" "s_topicOf t = s_topicOf s"
    "s_topicWakes t = s_topicWakes s" "s_lastSeq t = s_lastSeq s"
    "keys (s_members t) = keys (s_members s)"
  using assms by (simp_all add: core_eq_def)

lemma core_eq_wf_members: "core_eq s t \<Longrightarrow> wf_members s \<Longrightarrow> wf_members t"
  using core_eq_member [of s t] core_eq_fields(9) [of s t] by (fastforce simp: wf_members_def)

lemma core_eq_wf_addresses:
  assumes "core_eq s t" and "wf_addresses s"
  shows "wf_addresses t"
  unfolding wf_addresses_def
proof (intro conjI allI impI)
  fix n m assume "member_at t n = Some m"
  with core_eq_member [OF assms(1)] assms(2) show "distinct (occupied m)"
    by (force simp: wf_addresses_def)
next
  fix n m n' m'
  assume a: "member_at t n = Some m" "member_at t n' = Some m'" "n \<noteq> n'"
  obtain u u' where "member_at s n = Some u" "occupied u = occupied m"
      "member_at s n' = Some u'" "occupied u' = occupied m'"
    using core_eq_member [OF assms(1) a(1)] core_eq_member [OF assms(1) a(2)] by blast
  with assms(2) a(3) show "set (occupied m) \<inter> set (occupied m') = {}"
    unfolding wf_addresses_def by metis
qed

lemma core_eq_leads: "core_eq s t \<Longrightarrow> leads t n = leads s n"
  using core_eq_member [of s t n] core_eq_member [OF core_eq_sym, of s t n]
  by (fastforce simp: leads_def)

lemma core_eq_wf:
  assumes "core_eq s t"
  shows "wf_leader s \<Longrightarrow> wf_leader t" "wf_managed s \<Longrightarrow> wf_managed t" "wf_items s \<Longrightarrow> wf_items t"
    "wf_topics s \<Longrightarrow> wf_topics t" "wf_wakes s \<Longrightarrow> wf_wakes t" "wf_managers s \<Longrightarrow> wf_managers t"
proof -
  note f = core_eq_fields [OF assms]
  show "wf_leader s \<Longrightarrow> wf_leader t" by (simp add: wf_leader_def f core_eq_leads [OF assms])
  show "wf_managed s \<Longrightarrow> wf_managed t"
    using core_eq_member [OF assms] by (fastforce simp: wf_managed_def f)
  show "wf_items s \<Longrightarrow> wf_items t" by (simp add: wf_items_def f core_eq_item_ok [OF assms])
  show "wf_topics s \<Longrightarrow> wf_topics t" "wf_wakes s \<Longrightarrow> wf_wakes t" "wf_managers s \<Longrightarrow> wf_managers t"
    by (simp_all add: wf_topics_def wf_wakes_def wf_managers_def f)
qed

lemma update_member_core:
  assumes "member_at s n = Some m" and "m_name (f m) = m_name m" "m_status (f m) = m_status m"
    "m_managedBy (f m) = m_managedBy m" "occupied (f m) = occupied m"
  shows "core_eq s (s\<lparr>s_members := AList.update n (f m) (s_members s)\<rparr>)"
  using assms by (auto simp: core_eq_def update_has map_of_has)


text \<open>The invariant in two halves: who takes part, and what they work on.\<close>

definition wf_people :: "space_state \<Rightarrow> bool" where
  "wf_people s \<longleftrightarrow> wf_members s \<and> wf_addresses s \<and> wf_leader s \<and> wf_managed s \<and> wf_managers s"

definition wf_work :: "space_state \<Rightarrow> bool" where
  "wf_work s \<longleftrightarrow> wf_items s \<and> wf_topics s \<and> wf_wakes s \<and> wf_deliveries s"

lemma wf_space_split: "wf_space s \<longleftrightarrow> wf_people s \<and> wf_work s"
  by (auto simp: wf_space_def wf_people_def wf_work_def)

lemmas wf_people_defs =
  wf_people_def wf_members_def wf_addresses_def wf_leader_def leads_def wf_managed_def
  wf_managers_def

lemma people_frame:
  assumes "wf_people s" and "s_members t = s_members s" "s_status t = s_status s"
    "s_leader t = s_leader s" "s_managers t = s_managers s"
  shows "wf_people t"
  using assms by (simp add: wf_people_defs)

lemma item_ok_mono:
  "item_ok s i \<Longrightarrow> (\<And>n. has (s_members s) n \<Longrightarrow> has (s_members t) n) \<Longrightarrow> item_ok t i"
  by (auto simp: item_ok_def)

lemma deliveries_frame:
  assumes "wf_deliveries s" and "s_deliveries t = s_deliveries s" "s_lastSeq s \<le> s_lastSeq t"
    and mono: "\<And>n. has (s_members s) n \<Longrightarrow> has (s_members t) n"
  shows "wf_deliveries t"
  using assms(1-3) mono by (simp add: wf_deliveries_def) (meson le_trans)

lemma wf_topicsD:
  "wf_topics s \<Longrightarrow> map_of (s_topicOf s) q = Some root \<Longrightarrow>
     1 \<le> root \<and> root \<le> q \<and> q \<le> s_lastSeq s \<and> map_of (s_topicOf s) root = Some root"
  by (simp add: wf_topics_def)

lemma work_frame:
  assumes "wf_work s" and "s_items t = s_items s" "s_itemSeq t = s_itemSeq s"
    "s_topicOf t = s_topicOf s" "s_topicWakes t = s_topicWakes s"
    "s_deliveries t = s_deliveries s" "s_lastSeq s \<le> s_lastSeq t"
    and mono: "\<And>n. has (s_members s) n \<Longrightarrow> has (s_members t) n"
  shows "wf_work t"
proof -
  have "wf_items t"
    using assms(1,2) item_ok_mono [of s _ t, OF _ mono] by (simp add: wf_work_def wf_items_def)
  moreover have "wf_topics t"
    using assms(1-4,7) by (auto simp: wf_work_def wf_topics_def) (meson le_trans)
  moreover have "wf_deliveries t"
    using assms(1) by - (rule deliveries_frame [OF _ assms(6,7) mono], simp_all add: wf_work_def)
  ultimately show ?thesis using assms(1,5) by (simp add: wf_work_def wf_wakes_def)
qed

text \<open>Several members change status at once.\<close>

lemma status_fold:
  assumes "\<forall>n \<in> set ns. has (s_members s) n"
  shows "\<exists>ms. fold_data r (map (\<lambda>n. \<lparr>ev_actor = a, ev_data = MemberStatus n st\<rparr>) ns) s
        = Inr (s\<lparr>s_members := ms\<rparr>) \<and> keys ms = keys (s_members s) \<and>
      (\<forall>n. map_of ms n = (if n \<in> set ns then map_option (\<lambda>m. m\<lparr>m_status := st\<rparr>) (member_at s n)
                        else member_at s n))"
  using assms
proof (induction ns arbitrary: s)
  case Nil
  show ?case by (rule exI [of _ "s_members s"]) simp
next
  case (Cons n ns)
  then obtain m where m: "member_at s n = Some m" using has_map_of by fastforce
  let ?s = "s\<lparr>s_members := AList.update n (m\<lparr>m_status := st\<rparr>) (s_members s)\<rparr>"
  from Cons.prems have "\<forall>x \<in> set ns. has (s_members ?s) x" by simp
  from Cons.IH [OF this] obtain ms where
      ms: "fold_data r (map (\<lambda>n. \<lparr>ev_actor = a, ev_data = MemberStatus n st\<rparr>) ns) ?s
        = Inr (?s\<lparr>s_members := ms\<rparr>)" "keys ms = keys (s_members ?s)"
      "\<forall>x. map_of ms x = (if x \<in> set ns then map_option (\<lambda>m. m\<lparr>m_status := st\<rparr>) (member_at ?s x)
         else member_at ?s x)"
    by blast
  have "keys (s_members ?s) = keys (s_members s)" using m by (simp add: update_has map_of_has)
  with ms m show ?case
    by (intro exI [of _ ms]) (auto simp: update_member_def)
qed

text \<open>A change of members that keeps names and addresses and revives nobody.\<close>

lemma retire_people:
  assumes wf: "wf_people s"
    and ms: "keys ms = keys (s_members s)"
      "\<forall>n. map_of ms n = (if n \<in> N then map_option (\<lambda>m. m\<lparr>m_status := st\<rparr>) (member_at s n)
                        else member_at s n)"
    and t: "s_members t = ms" "s_managers t = s_managers s" and st: "st \<noteq> Active"
    and leader: "s_status t = SpaceOpen \<Longrightarrow> leads s (s_leader t) \<and> s_leader t \<notin> N"
  shows "wf_people t"
proof -
  have nm: "\<exists>m'. member_at s n = Some m' \<and> m_name m' = m_name m \<and> occupied m' = occupied m \<and>
      m_managedBy m' = m_managedBy m \<and> (m_status m = Active \<longrightarrow> m_status m' = Active)"
    if "map_of ms n = Some m" for n m
    using that ms(2) st by (auto simp: occupied_def split: if_splits)
  have "wf_members t"
    using wf ms(1) nm by (fastforce simp: t wf_people_def wf_members_def)
  moreover have "wf_addresses t"
    unfolding wf_addresses_def t
  proof (intro conjI allI impI)
    fix n m assume "map_of ms n = Some m"
    with nm wf show "distinct (occupied m)" by (fastforce simp: wf_people_def wf_addresses_def)
  next
    fix n m n' m' assume a: "map_of ms n = Some m" "map_of ms n' = Some m'" "n \<noteq> n'"
    obtain u u' where "member_at s n = Some u" "occupied u = occupied m"
        "member_at s n' = Some u'" "occupied u' = occupied m'"
      using nm [OF a(1)] nm [OF a(2)] by blast
    with wf a(3) show "set (occupied m) \<inter> set (occupied m') = {}"
      unfolding wf_people_def wf_addresses_def by metis
  qed
  moreover have "wf_leader t"
    using leader ms(2) by (auto simp: wf_leader_def leads_def t)
  moreover have "wf_managed t"
    using wf nm by (fastforce simp: wf_people_def wf_managed_def t)
  moreover have "wf_managers t"
    using wf by (simp add: wf_people_def wf_managers_def t)
  ultimately show ?thesis by (simp add: wf_people_def)
qed

text \<open>A new member at a fresh address.\<close>

lemma add_member_people:
  assumes wf: "wf_people s" and new: "\<not> has (s_members s) (m_name m)"
    and fresh: "fresh_address s (m_binding m)" "m_previousBindings m = []"
    and managed: "\<And>c. m_status m = Active \<Longrightarrow> m_managedBy m = Some c \<Longrightarrow> c \<in> set (s_managers s)"
  shows "wf_people (s\<lparr>s_members := AList.update (m_name m) m (s_members s)\<rparr>)"
proof -
  have none: "member_at s (m_name m) = None" using new by (rule not_has_map_of)
  have occ: "occupied m = [address_of (m_binding m)]" using fresh(2) by (simp add: occupied_def)
  have "s_leader s \<noteq> m_name m" if "s_status s = SpaceOpen"
    using wf that none by (auto simp: wf_people_def wf_leader_def leads_def)
  then show ?thesis
    using wf none occ fresh(1) managed
    by (auto simp: wf_people_defs fresh_address_def)
qed

text \<open>A member whose record changes but keeps its name, its addresses, its status and manager.\<close>

lemma same_member_people:
  assumes "wf_people s" and "member_at s n = Some m"
    and "m_name m' = m_name m" "occupied m' = occupied m" "m_managedBy m' = m_managedBy m"
      "m_status m' = Active \<Longrightarrow> m_status m = Active \<or> m_managedBy m = None"
      "m_status m = Active \<Longrightarrow> m_status m' = Active"
  shows "wf_people (s\<lparr>s_members := AList.update n m' (s_members s)\<rparr>)"
  using assms by (auto simp: wf_people_defs)

lemma rebind_people:
  assumes "wf_people s" and "member_at s n = Some m" and "fresh_address s b"
  shows "wf_people (s\<lparr>s_members := AList.update n (rebind b m) (s_members s)\<rparr>)"
proof -
  have occ: "set (occupied (rebind b m)) = insert (address_of b) (set (occupied m))"
    "distinct (occupied (rebind b m)) = distinct (address_of b # occupied m)"
    by (auto simp: occupied_def rebind_def)
  have f: "address_of b \<notin> set (occupied x)" if "member_at s k = Some x" for k x
    using assms(3) that by (auto simp: fresh_address_def)
  have keep: "m_name (rebind b m) = m_name m" "m_status (rebind b m) = m_status m"
    "m_managedBy (rebind b m) = m_managedBy m"
    by (simp_all add: rebind_def)
  have wfa: "wf_addresses s" using assms(1) by (simp add: wf_people_def)
  have "wf_addresses (s\<lparr>s_members := AList.update n (rebind b m) (s_members s)\<rparr>)"
    using wfa assms(2) f [OF assms(2)] f
    by (auto simp: wf_addresses_def occ)
  then show ?thesis
    using assms(1,2) by (auto simp: wf_people_def wf_members_def wf_leader_def leads_def
        wf_managed_def wf_managers_def keep)
qed


subsection \<open>Work\<close>

lemma update_item_work:
  assumes wf: "wf_work s" and old: "item_at s iid = Some j" and new: "item_ok s i" "i_id i = iid"
  shows "wf_work (s\<lparr>s_items := AList.update iid i (s_items s)\<rparr>)"
proof -
  have "wf_items (s\<lparr>s_items := AList.update iid i (s_items s)\<rparr>)"
    using wf old new by (auto simp: wf_work_def wf_items_def item_ok_def)
  moreover have "wf_topics (s\<lparr>s_items := AList.update iid i (s_items s)\<rparr>)"
    using wf map_of_has [OF old] by (auto simp: wf_work_def wf_topics_def)
  ultimately show ?thesis using wf by (simp add: wf_work_def wf_wakes_def wf_deliveries_def)
qed

text \<open>A new seq joins the topic of what it refers to, or starts its own.\<close>

lemma new_topic:
  assumes "wf_topics s" and "topic_root s (Suc (s_lastSeq s)) ref = Inr root"
  shows "\<not> has (s_topicOf s) (Suc (s_lastSeq s))" and "1 \<le> root" and "root \<le> Suc (s_lastSeq s)"
    and "root = Suc (s_lastSeq s) \<or> map_of (s_topicOf s) root = Some root"
proof -
  show "\<not> has (s_topicOf s) (Suc (s_lastSeq s))"
    using wf_topicsD [OF assms(1), of "Suc (s_lastSeq s)"] by (auto dest!: has_map_of)
  show "1 \<le> root" "root \<le> Suc (s_lastSeq s)"
    "root = Suc (s_lastSeq s) \<or> map_of (s_topicOf s) root = Some root"
    using assms(2) wf_topicsD [OF assms(1)] by (fastforce simp: topic_root_ok)+
qed

lemma topics_insert:
  assumes wf: "wf_topics s" and root: "topic_root s (Suc (s_lastSeq s)) ref = Inr root"
    and t: "s_topicOf t = AList.update (Suc (s_lastSeq s)) root (s_topicOf s)"
      "s_lastSeq t = Suc (s_lastSeq s)"
    and items: "(s_items t = s_items s \<and> s_itemSeq t = s_itemSeq s) \<or>
      (s_items t = AList.update iid i (s_items s) \<and>
       s_itemSeq t = AList.update iid (Suc (s_lastSeq s)) (s_itemSeq s))"
  shows "wf_topics t"
proof -
  note n = new_topic [OF wf root]
  have "distinct (keys (s_topicOf t))" using wf by (simp add: t wf_topics_def)
  moreover have "1 \<le> x \<and> x \<le> q \<and> q \<le> s_lastSeq t \<and> map_of (s_topicOf t) x = Some x"
    if q: "map_of (s_topicOf t) q = Some x" for q x
  proof (cases "q = Suc (s_lastSeq s)")
    case True
    with q have "x = root" by (simp add: t)
    with n(2-4) True show ?thesis by (auto simp: t)
  next
    case False
    with q have "map_of (s_topicOf s) q = Some x" by (simp add: t)
    with wf have "1 \<le> x \<and> x \<le> q \<and> q \<le> s_lastSeq s \<and> map_of (s_topicOf s) x = Some x"
      by (simp add: wf_topics_def)
    with n(1) show ?thesis by (auto simp: t has_def)
  qed
  moreover have "(\<forall>x. has (s_items t) x \<longrightarrow> (\<exists>q. map_of (s_itemSeq t) x = Some q)) \<and>
     (\<forall>x q. map_of (s_itemSeq t) x = Some q \<longrightarrow> has (s_items t) x \<and> has (s_topicOf t) q)"
    using items
  proof
    assume "s_items t = s_items s \<and> s_itemSeq t = s_itemSeq s"
    with wf show ?thesis by (simp add: wf_topics_def t)
  next
    assume "s_items t = AList.update iid i (s_items s) \<and>
       s_itemSeq t = AList.update iid (Suc (s_lastSeq s)) (s_itemSeq s)"
    with wf show ?thesis by (simp add: wf_topics_def t)
  qed
  ultimately show ?thesis by (simp add: wf_topics_def)
qed

lemma create_work:
  assumes wf: "wf_work s" and new: "\<not> has (s_items s) (i_id i)" "i_id i \<noteq> []" "item_ok s i"
    and root: "topic_root s (Suc (s_lastSeq s)) ref = Inr root"
  shows "wf_work (s\<lparr>s_topicOf := AList.update (Suc (s_lastSeq s)) root (s_topicOf s),
     s_itemSeq := AList.update (i_id i) (Suc (s_lastSeq s)) (s_itemSeq s),
     s_items := AList.update (i_id i) i (s_items s), s_lastSeq := Suc (s_lastSeq s)\<rparr>)"
    (is "wf_work ?t")
proof -
  have "wf_topics ?t"
    using wf by - (rule topics_insert [OF _ root, where iid = "i_id i" and i = i],
      simp_all add: wf_work_def)
  moreover have "wf_items ?t"
    using wf new by (auto simp: wf_work_def wf_items_def item_ok_def)
  moreover have "wf_deliveries ?t"
    using wf by - (rule deliveries_frame [of s], simp_all add: wf_work_def)
  ultimately show ?thesis using wf by (simp add: wf_work_def wf_wakes_def)
qed

lemma message_work:
  assumes wf: "wf_work s" and root: "topic_root s (Suc (s_lastSeq s)) ref = Inr root"
    and t: "s_topicOf t = AList.update (Suc (s_lastSeq s)) root (s_topicOf s)"
      "s_lastSeq t = Suc (s_lastSeq s)" "s_items t = s_items s" "s_itemSeq t = s_itemSeq s"
      "s_deliveries t = s_deliveries s" "s_members t = s_members s"
    and wakes: "\<forall>q c. map_of (s_topicWakes t) q = Some c \<longrightarrow> c \<le> TOPIC_LIMIT"
  shows "wf_work t"
proof -
  have "wf_topics t"
    using wf t by - (rule topics_insert [OF _ root], simp_all add: wf_work_def)
  moreover have "wf_items t" using wf t by (simp add: wf_work_def wf_items_def item_ok_def)
  moreover have "wf_deliveries t"
    using wf by - (rule deliveries_frame [of s], simp_all add: wf_work_def t)
  ultimately show ?thesis using wakes by (simp add: wf_work_def wf_wakes_def)
qed

definition topic_count :: "space_state \<Rightarrow> nat \<Rightarrow> nat" where
  "topic_count s root = (case map_of (s_topicWakes s) root of None \<Rightarrow> 0 | Some c \<Rightarrow> c)"

text \<open>What \<open>checkTopicLimit\<close> leaves: a counted message finds room in its topic.\<close>

definition limit_ok :: "space_state \<Rightarrow> commit_record \<Rightarrow> event_data list \<Rightarrow> bool" where
  "limit_ok s r ds \<longleftrightarrow>
     (\<forall>m root. MessageSent m \<in> set ds \<longrightarrow> counted r m \<longrightarrow>
        topic_root s (cm_seq r) (msg_ref m) = Inr root \<longrightarrow> topic_count s root < TOPIC_LIMIT)"

lemma bump_topic_limit:
  assumes "wf_wakes s" and "topic_count s root < TOPIC_LIMIT"
  shows "\<forall>q c. map_of (s_topicWakes (bump_topic root s)) q = Some c \<longrightarrow> c \<le> TOPIC_LIMIT"
  using assms by (auto simp: bump_topic_def wf_wakes_def topic_count_def split: option.splits)

lemma ref_root:
  assumes "wf_topics s" and "ref_ok s ref"
  shows "\<exists>root. topic_root s (Suc (s_lastSeq s)) ref = Inr root"
proof (cases ref)
  case None
  then show ?thesis by (simp add: topic_root_def)
next
  case (Some r)
  with assms(2) obtain root where "map_of (s_topicOf s) r = Some root"
    by (auto simp: ref_ok_def dest!: has_map_of)
  moreover from wf_topicsD [OF assms(1) this] have "r < Suc (s_lastSeq s)" by simp
  ultimately show ?thesis using Some by (auto simp: topic_root_def)
qed


subsection \<open>One legal commit\<close>

abbreviation business :: "string \<Rightarrow> event_data list \<Rightarrow> event list" where
  "business a ds \<equiv> map (\<lambda>d. \<lparr>ev_actor = a, ev_data = d\<rparr>) ds"

definition next_seq :: "space_state \<Rightarrow> space_state" where
  "next_seq s = s\<lparr>s_lastSeq := Suc (s_lastSeq s)\<rparr>"

lemma next_seq_sel [simp]:
  "s_members (next_seq s) = s_members s" "s_status (next_seq s) = s_status s"
  "s_leader (next_seq s) = s_leader s" "s_managers (next_seq s) = s_managers s"
  "s_items (next_seq s) = s_items s" "s_itemSeq (next_seq s) = s_itemSeq s"
  "s_topicOf (next_seq s) = s_topicOf s" "s_topicWakes (next_seq s) = s_topicWakes s"
  "s_deliveries (next_seq s) = s_deliveries s" "s_lastSeq (next_seq s) = Suc (s_lastSeq s)"
  "s_messages (next_seq s) = s_messages s"
  by (simp_all add: next_seq_def)

text \<open>Commits that only concern people leave the work alone, and conversely.\<close>

lemma people_step:
  assumes "wf_space s" and "wf_people u" and "s_items u = s_items s" "s_itemSeq u = s_itemSeq s"
    "s_topicOf u = s_topicOf s" "s_topicWakes u = s_topicWakes s"
    "s_deliveries u = s_deliveries s" "s_lastSeq u = s_lastSeq s"
    "\<And>n. has (s_members s) n \<Longrightarrow> has (s_members u) n"
  shows "wf_space (next_seq u)"
proof -
  have "wf_people (next_seq u)" using assms(2) by (rule people_frame) simp_all
  moreover have "wf_work s" using assms(1) by (simp add: wf_space_split)
  then have "wf_work (next_seq u)" by (rule work_frame) (simp_all add: assms)
  ultimately show ?thesis by (simp add: wf_space_split)
qed

lemma work_step:
  assumes "wf_space s" and "wf_work (next_seq u)" and "s_members u = s_members s"
    "s_status u = s_status s" "s_leader u = s_leader s" "s_managers u = s_managers s"
  shows "wf_space (next_seq u)"
proof -
  have "wf_people s" using assms(1) by (simp add: wf_space_split)
  then have "wf_people (next_seq u)" by (rule people_frame) (simp_all add: assms)
  with assms(2) show ?thesis by (simp add: wf_space_split)
qed

lemma work_next_seq: "wf_work s \<Longrightarrow> wf_work (next_seq s)"
  by (erule work_frame) simp_all

lemma leader_people:
  assumes "wf_people s" and "s_members u = s_members s" "s_managers u = s_managers s"
    and "s_status u = SpaceOpen \<Longrightarrow> leads s (s_leader u)"
  shows "wf_people u"
  using assms by (auto simp: wf_people_def wf_members_def wf_addresses_def wf_leader_def
      leads_def wf_managed_def wf_managers_def)

lemma quit_wf:
  assumes wf: "wf_space s" and ns: "\<forall>n \<in> set ns. has (s_members s) n"
    and leader: "\<And>u. s_status (f u) = SpaceOpen \<Longrightarrow> s_status u = s_status s \<Longrightarrow>
      s_leader u = s_leader s \<Longrightarrow> leads s (s_leader (f u)) \<and> s_leader (f u) \<notin> set ns"
    and f: "\<And>u. s_members (f u) = s_members u" "\<And>u. s_managers (f u) = s_managers u"
      "\<And>u. s_items (f u) = s_items u" "\<And>u. s_itemSeq (f u) = s_itemSeq u"
      "\<And>u. s_topicOf (f u) = s_topicOf u" "\<And>u. s_topicWakes (f u) = s_topicWakes u"
      "\<And>u. s_deliveries (f u) = s_deliveries u" "\<And>u. s_lastSeq (f u) = s_lastSeq u"
    and st: "st \<noteq> Active"
  shows "\<exists>u. fold_data r (business a (map (\<lambda>n. MemberStatus n st) ns)) s = Inr u \<and>
    wf_space (next_seq (f u))"
proof -
  from status_fold [OF ns] obtain ms where
    ms: "fold_data r (map (\<lambda>n. \<lparr>ev_actor = a, ev_data = MemberStatus n st\<rparr>) ns) s
        = Inr (s\<lparr>s_members := ms\<rparr>)" "keys ms = keys (s_members s)"
      "\<forall>n. map_of ms n = (if n \<in> set ns then map_option (\<lambda>m. m\<lparr>m_status := st\<rparr>) (member_at s n)
                        else member_at s n)"
    by blast
  let ?u = "s\<lparr>s_members := ms\<rparr>"
  have "wf_people s" using wf by (simp add: wf_space_split)
  then have "wf_people (f ?u)"
    by (rule retire_people [OF _ ms(2,3)]) (use leader [of ?u] st in \<open>simp_all add: f\<close>)
  then have "wf_space (next_seq (f ?u))"
    by (rule people_step [OF wf]) (use ms(2) in \<open>simp_all add: f has_iff_keys\<close>)
  with ms(1) show ?thesis by (simp add: comp_def)
qed


lemma leads_active: "leads s n \<Longrightarrow> has (s_members s) n"
  by (auto simp: leads_def intro: map_of_has)

lemma set_progress_sel [simp]:
  "i_id (set_progress p i) = i_id i" "i_author (set_progress p i) = i_author i"
  "i_revision (set_progress p i) = i_revision i" "i_title (set_progress p i) = i_title i"
  "i_body (set_progress p i) = i_body i" "i_acks (set_progress p i) = i_acks i"
  "i_requiredAcks (set_progress p i) = i_requiredAcks i"
  "i_status (set_progress p i) = i_status i" "i_ref (set_progress p i) = i_ref i"
  by (simp_all add: set_progress_def split: item_kind.split)

lemma set_progress_kind:
  "i_kind (set_progress p i) = (case i_kind i of Request a _ \<Rightarrow> Request a p | k \<Rightarrow> k)"
  by (simp add: set_progress_def split: item_kind.split)

lemma item_ok_set_progress: "item_ok s i \<Longrightarrow> item_ok s (set_progress p i)"
  by (auto simp: item_ok_def fully_acked_def set_progress_kind split: item_kind.splits)

lemma item_step:
  assumes wf: "wf_space s" and old: "item_at s (i_id i) = Some j" and new: "item_ok s i"
  shows "wf_space (next_seq (put_item i s))"
proof -
  have "wf_work s" using wf by (simp add: wf_space_split)
  then have "wf_work (next_seq (put_item i s))"
    unfolding put_item_def by (intro work_next_seq update_item_work [OF _ old new]) simp_all
  with wf show ?thesis by (rule work_step) (simp_all add: put_item_def)
qed

lemma member_step:
  assumes wf: "wf_space s" and "wf_people (s\<lparr>s_members := AList.update n m (s_members s)\<rparr>)"
  shows "wf_space (next_seq (s\<lparr>s_members := AList.update n m (s_members s)\<rparr>))"
  using assms by (rule people_step) simp_all

lemma create_step:
  assumes wf: "wf_space s" and new: "\<not> has (s_items s) (i_id i)" "i_id i \<noteq> []" "item_ok s i"
    and ref: "ref_ok s (i_ref i)" and seq: "cm_seq r = Suc (s_lastSeq s)"
  shows "\<exists>u. apply_data r (ItemCreated i) s = Inr u \<and> wf_space (next_seq u)"
proof -
  have work: "wf_work s" and top: "wf_topics s" using wf by (simp_all add: wf_space_def wf_work_def)
  obtain root where root: "topic_root s (Suc (s_lastSeq s)) (i_ref i) = Inr root"
    using ref_root [OF top ref] by blast
  define u where "u = put_item i (s\<lparr>s_topicOf := AList.update (cm_seq r) root (s_topicOf s),
      s_itemSeq := AList.update (i_id i) (cm_seq r) (s_itemSeq s)\<rparr>)"
  have "next_seq u = s\<lparr>s_topicOf := AList.update (Suc (s_lastSeq s)) root (s_topicOf s),
     s_itemSeq := AList.update (i_id i) (Suc (s_lastSeq s)) (s_itemSeq s),
     s_items := AList.update (i_id i) i (s_items s), s_lastSeq := Suc (s_lastSeq s)\<rparr>"
    by (simp add: u_def put_item_def next_seq_def seq)
  with create_work [OF work new root] have "wf_work (next_seq u)" by simp
  with wf have "wf_space (next_seq u)" by (rule work_step) (simp_all add: u_def put_item_def)
  then show ?thesis using root by (simp add: u_def seq)
qed

lemma message_step:
  assumes wf: "wf_space s" and ref: "ref_ok s (msg_ref m)" and seq: "cm_seq r = Suc (s_lastSeq s)"
    and limit: "limit_ok s r [MessageSent m]"
  shows "\<exists>u. apply_data r (MessageSent m) s = Inr u \<and> wf_space (next_seq u)"
proof -
  have work: "wf_work s" and top: "wf_topics s" and wakes: "wf_wakes s"
    using wf by (simp_all add: wf_space_def wf_work_def)
  obtain root where root: "topic_root s (Suc (s_lastSeq s)) (msg_ref m) = Inr root"
    using ref_root [OF top ref] by blast
  define v where "v = s\<lparr>s_topicOf := AList.update (cm_seq r) root (s_topicOf s),
      s_messages := s_messages s @ [m]\<rparr>"
  define u where "u = (if counted r m then bump_topic root v else v)"
  have vw: "wf_wakes v" "topic_count v root = topic_count s root"
    using wakes by (simp_all add: v_def wf_wakes_def topic_count_def)
  have "\<forall>q c. map_of (s_topicWakes u) q = Some c \<longrightarrow> c \<le> TOPIC_LIMIT"
  proof (cases "counted r m")
    case True
    with limit root seq have "topic_count v root < TOPIC_LIMIT" by (simp add: limit_ok_def vw)
    from bump_topic_limit [OF vw(1) this] True show ?thesis by (simp add: u_def)
  next
    case False
    with vw show ?thesis by (simp add: u_def wf_wakes_def)
  qed
  with work have "wf_work (next_seq u)"
    by - (rule message_work [OF _ root], simp_all add: u_def v_def seq bump_topic_def)
  with wf have "wf_space (next_seq u)"
    by (rule work_step) (simp_all add: u_def v_def bump_topic_def)
  moreover have "apply_data r (MessageSent m) s = Inr u"
    using root by (simp add: u_def v_def seq Let_def)
  ultimately show ?thesis by blast
qed

lemma leader_step:
  assumes "wf_space s" and "leads s n"
  shows "wf_space (next_seq (s\<lparr>s_leader := n\<rparr>))"
proof -
  have "wf_people (s\<lparr>s_leader := n\<rparr>)"
    by (rule leader_people [of s]) (use assms in \<open>simp_all add: wf_space_split\<close>)
  with assms(1) show ?thesis by (rule people_step) simp_all
qed

lemma close_step:
  assumes "wf_space s"
  shows "wf_space (next_seq (s\<lparr>s_status := SpaceClosed\<rparr>))"
proof -
  have "wf_people (s\<lparr>s_status := SpaceClosed\<rparr>)"
    by (rule leader_people [of s]) (use assms in \<open>simp_all add: wf_space_split\<close>)
  with assms(1) show ?thesis by (rule people_step) simp_all
qed

lemma allow_step:
  assumes "wf_space s" and "c \<notin> set (s_managers s)"
  shows "wf_space (next_seq (s\<lparr>s_managers := s_managers s @ [c]\<rparr>))"
proof -
  have "wf_people (s\<lparr>s_managers := s_managers s @ [c]\<rparr>)"
    using assms by (fastforce simp: wf_space_split wf_people_defs)
  with assms(1) show ?thesis by (rule people_step) simp_all
qed


lemma wf_people_of: "wf_space s \<Longrightarrow> wf_people s"
  by (simp add: wf_space_split)

lemma revoke_wf:
  assumes wf: "wf_space s" and ns: "ns = map m_name
      (filter (\<lambda>m. m_managedBy m = Some c \<and> m_status m = Active) (vals (s_members s)))"
  shows "\<exists>u. fold_data r (business a (ManagerRevoked c # map (\<lambda>n. MemberStatus n Gone) ns)) s = Inr u
     \<and> wf_space (next_seq u)"
proof -
  let ?s = "s\<lparr>s_managers := filter (\<lambda>x. x \<noteq> c) (s_managers s)\<rparr>"
  have wfm: "wf_members s" using wf by (simp add: wf_space_def)
  have inns: "n \<in> set ns \<longleftrightarrow> (\<exists>m. member_at s n = Some m \<and> m_managedBy m = Some c \<and>
      m_status m = Active)" for n
  proof -
    have "n \<in> set ns \<longleftrightarrow> (\<exists>m \<in> set (vals (s_members s)). m_managedBy m = Some c \<and>
        m_status m = Active \<and> m_name m = n)"
      by (auto simp: ns)
    also have "\<dots> \<longleftrightarrow> (\<exists>m k. member_at s k = Some m \<and> m_managedBy m = Some c \<and>
        m_status m = Active \<and> m_name m = n)"
      using wfm unfolding wf_members_def Bex_def by (metis vals_iff)
    also have "\<dots> \<longleftrightarrow> (\<exists>m. member_at s n = Some m \<and> m_managedBy m = Some c \<and> m_status m = Active)"
      using wf_membersD [OF wfm] by metis
    finally show ?thesis .
  qed
  have "\<forall>n \<in> set ns. has (s_members ?s) n" by (auto simp: inns intro: map_of_has)
  from status_fold [OF this, of r a Gone] obtain ms where
    "fold_data r (map (\<lambda>n. \<lparr>ev_actor = a, ev_data = MemberStatus n Gone\<rparr>) ns) ?s
        = Inr (?s\<lparr>s_members := ms\<rparr>) \<and> keys ms = keys (s_members ?s) \<and>
      (\<forall>n. map_of ms n = (if n \<in> set ns then map_option (\<lambda>m. m\<lparr>m_status := Gone\<rparr>) (member_at ?s n)
                        else member_at ?s n))" ..
  then have ms: "fold_data r (business a (map (\<lambda>n. MemberStatus n Gone) ns)) ?s
        = Inr (?s\<lparr>s_members := ms\<rparr>)" "keys ms = keys (s_members s)"
      "\<forall>n. map_of ms n = (if n \<in> set ns then map_option (\<lambda>m. m\<lparr>m_status := Gone\<rparr>) (member_at s n)
                        else member_at s n)"
    by (simp_all add: comp_def)
  let ?v = "s\<lparr>s_members := ms\<rparr>"
  have lead: "s_leader s \<notin> set ns" if "s_status s = SpaceOpen"
    using wf that by (auto simp: inns wf_space_def wf_leader_def leads_def)
  have v: "wf_people ?v"
    by (rule retire_people [OF wf_people_of [OF wf] ms(2,3)])
      (use wf lead in \<open>auto simp: wf_space_def wf_leader_def\<close>)
  have "wf_people (?s\<lparr>s_members := ms\<rparr>)"
  proof -
    have "m_managedBy m \<noteq> Some c" if "map_of ms n = Some m" "m_status m = Active" for n m
      using that ms(3) inns by (auto split: if_splits)
    with v show ?thesis by (auto simp: wf_people_defs)
  qed
  then have "wf_space (next_seq (?s\<lparr>s_members := ms\<rparr>))"
    by (rule people_step [OF wf]) (use ms(2) in \<open>simp_all add: has_iff_keys\<close>)
  with ms(1) show ?thesis by simp
qed

theorem legal_step:
  assumes wf: "wf_space s" and op: "s_status s = SpaceOpen" and leg: "legal s ds"
    and seq: "cm_seq r = Suc (s_lastSeq s)" and limit: "limit_ok s r ds"
  shows "\<exists>u. fold_data r (business a ds) s = Inr u \<and> wf_space (next_seq u)"
  using leg
proof cases
  case (invite m)
  have "wf_space (next_seq (s\<lparr>s_members := AList.update (m_name m) m (s_members s)\<rparr>))"
    by (rule member_step [OF wf], rule add_member_people [OF wf_people_of [OF wf]])
      (use invite in simp_all)
  then show ?thesis by (simp add: invite)
next
  case (join m)
  have "wf_space (next_seq (s\<lparr>s_members := AList.update (m_name m)
      (m\<lparr>m_status := Active, m_joinSeq := Suc (s_lastSeq s)\<rparr>) (s_members s)\<rparr>))"
    by (rule member_step [OF wf], rule same_member_people [OF wf_people_of [OF wf] join(2)])
      (use join in \<open>simp_all add: occupied_def\<close>)
  then show ?thesis by (simp add: join)
next
  case (admit m c)
  have "wf_space (next_seq (s\<lparr>s_members := AList.update (m_name m) m (s_members s)\<rparr>))"
    by (rule member_step [OF wf], rule add_member_people [OF wf_people_of [OF wf]])
      (use admit in simp_all)
  then show ?thesis by (simp add: admit)
next
  case (quit n m st)
  have "\<exists>u. fold_data r (business a (map (\<lambda>n. MemberStatus n st) [n])) s = Inr u \<and>
      wf_space (next_seq (id u))"
    by (rule quit_wf [OF wf])
      (use quit wf op in \<open>auto intro: map_of_has simp: wf_space_def wf_leader_def\<close>)
  then show ?thesis by (simp add: quit)
next
  case (handover m n)
  have "\<exists>u. fold_data r (business a (map (\<lambda>n. MemberStatus n Gone) [s_leader s])) s = Inr u \<and>
      wf_space (next_seq (u\<lparr>s_leader := n\<rparr>))"
    by (rule quit_wf [OF wf]) (use handover in \<open>auto intro: map_of_has\<close>)
  then show ?thesis by (auto simp: handover err_bind_ok)
next
  case (last_leaves m)
  have "\<exists>u. fold_data r (business a (map (\<lambda>n. MemberStatus n Gone) [s_leader s])) s = Inr u \<and>
      wf_space (next_seq (u\<lparr>s_status := SpaceClosed\<rparr>))"
    by (rule quit_wf [OF wf]) (use last_leaves in \<open>auto intro: map_of_has\<close>)
  then show ?thesis by (auto simp: last_leaves err_bind_ok)
next
  case (transfer n)
  then show ?thesis using leader_step [OF wf] by simp
next
  case close_space
  then show ?thesis using close_step [OF wf] by simp
next
  case (status_text n m t)
  have "wf_space (next_seq (s\<lparr>s_members := AList.update n (m\<lparr>m_statusText := t\<rparr>) (s_members s)\<rparr>))"
    by (rule member_step [OF wf], rule same_member_people [OF wf_people_of [OF wf] status_text(2)])
      (simp_all add: occupied_def)
  with status_text show ?thesis by (simp add: update_member_def)
next
  case (rebound n m b)
  have "wf_space (next_seq (s\<lparr>s_members := AList.update n (rebind b m) (s_members s)\<rparr>))"
    using rebound by (intro member_step [OF wf] rebind_people [OF wf_people_of [OF wf]])
  with rebound show ?thesis by (simp add: update_member_def)
next
  case (allow c)
  then show ?thesis using allow_step [OF wf allow(2)] by simp
next
  case (revoke c)
  then show ?thesis using revoke_wf [OF wf refl, of r a c] by (simp add: comp_def)
next
  case (create i)
  then show ?thesis using create_step [OF wf create(2-5) seq] by (auto simp: err_bind_ok)
next
  case (revise i j)
  then show ?thesis using item_step [OF wf revise(2,3)] by simp
next
  case (acked i j n)
  then show ?thesis using item_step [OF wf acked(2,3)] by simp
next
  case (progress iid i a' cur p)
  from wf progress have "i_id i = iid" "item_ok s i"
    by (auto simp: wf_space_def dest: wf_itemsD)
  then have "wf_space (next_seq (put_item (set_progress p i) s))"
    using progress by (intro item_step [OF wf]) (simp_all add: item_ok_set_progress)
  with progress \<open>i_id i = iid\<close> show ?thesis by (simp add: put_item_def)
next
  case (message m)
  then show ?thesis using message_step [OF wf message(4) seq] limit by (auto simp: err_bind_ok)
qed

end
