(* ===== verification/CollabSafety.thy ===== *)
theory CollabSafety
  imports CollabProtocol
begin

text \<open>
  The service implements the protocol. Every record a transaction persists folds onto the current
  state and keeps the invariant; the step relation \<open>service_step\<close> interleaves opens, closes, commands,
  manager commands, space creations, launches and completions in any order, with any provider, store
  and guard behaviour, and \<open>service_ok\<close> holds in every reachable state: the log always replays to a
  well-formed space, and the state in memory is exactly that replay.
\<close>

subsection \<open>Intents\<close>

lemma apply_data_has:
  "has (s_members s) n \<Longrightarrow> apply_data r d s = Inr t \<Longrightarrow> has (s_members t) n"
  by (cases d) (auto simp: err_bind_ok update_member_ok put_item_def Let_def
      split: option.splits if_splits)

lemma fold_data_has:
  assumes "has (s_members s) n" and "fold_data r es s = Inr t"
  shows "has (s_members t) n"
  using assms(2,1) unfolding fold_data_def
  by (rule err_fold_invariant) (rule apply_data_has)

lemma fold_data_invited:
  assumes "fold_data r es s = Inr t" and "e \<in> set es" and "ev_data e = MemberInvited m"
  shows "has (s_members t) (m_name m)"
  using assms
proof (induction es arbitrary: s)
  case (Cons e' es)
  from Cons.prems(1) obtain u where u: "apply_data r (ev_data e') s = Inr u" "fold_data r es u = Inr t"
    by (auto simp: err_bind_ok)
  show ?case
  proof (cases "e = e'")
    case True
    with u(1) Cons.prems(3) have "has (s_members u) (m_name m)" by auto
    then show ?thesis using u(2) by (rule fold_data_has)
  next
    case False
    with Cons u show ?thesis by auto
  qed
qed simp

text \<open>What intents do to a state: deliveries are added, and members keep all but their wake count.\<close>

definition deliveries_added :: "space_state \<Rightarrow> space_state \<Rightarrow> event list \<Rightarrow> bool" where
  "deliveries_added u t es \<longleftrightarrow>
     (distinct (keys (s_deliveries u)) \<longrightarrow> distinct (keys (s_deliveries t))) \<and>
     (\<forall>did. has (s_deliveries u) did \<longrightarrow> has (s_deliveries t) did) \<and>
     (\<forall>did d. map_of (s_deliveries t) did = Some d \<longrightarrow>
        map_of (s_deliveries u) did = Some d \<or>
        (d_id d = did \<and> (\<exists>e \<in> set es. ev_data e = DispatchIntended d))) \<and>
     (\<forall>e \<in> set es. \<forall>d. ev_data e = DispatchIntended d \<longrightarrow> has (s_deliveries t) (d_id d)) \<and>
     s_messages t = s_messages u"

lemma intents_fold:
  assumes "\<forall>e \<in> set is. \<exists>d. ev_data e = DispatchIntended d \<and> d_kind d = Wake \<and>
     has (s_members u) (d_member d)"
  shows "\<exists>t. fold_data r is u = Inr t \<and> core_eq u t \<and> deliveries_added u t is"
  using assms
proof (induction "is" arbitrary: u)
  case Nil
  then show ?case by (simp add: deliveries_added_def)
next
  case (Cons e es)
  then obtain d m where d: "ev_data e = DispatchIntended d" "d_kind d = Wake"
      "member_at u (d_member d) = Some m"
    by (auto dest: has_map_of)
  define v where "v = u\<lparr>s_deliveries := AList.update (d_id d) d (s_deliveries u),
     s_members := AList.update (d_member d) (m\<lparr>m_wakeCount := Suc (m_wakeCount m)\<rparr>) (s_members u)\<rparr>"
  have core1: "core_eq u (u\<lparr>s_members :=
      AList.update (d_member d) (m\<lparr>m_wakeCount := Suc (m_wakeCount m)\<rparr>) (s_members u)\<rparr>)"
    using d(3) by (rule update_member_core) (simp_all add: occupied_def)
  then have core: "core_eq u v" by (simp add: core_eq_def v_def)
  have app: "apply_data r (ev_data e) u = Inr v" using d by (simp add: update_member_def v_def)
  have "\<forall>e \<in> set es. \<exists>d. ev_data e = DispatchIntended d \<and> d_kind d = Wake \<and>
     has (s_members v) (d_member d)"
    using Cons.prems core_eq_has [OF core] by auto
  from Cons.IH [OF this] obtain t where t: "fold_data r es v = Inr t" "core_eq v t"
      "deliveries_added v t es" by blast
  have "deliveries_added u t (e # es)"
    using t(3) d by (auto simp: deliveries_added_def v_def split: if_splits)
  with t core_eq_trans [OF core t(2)] app show ?case by auto
qed

lemma wake_event_names:
  assumes "wake_event s e rs = Inr rs'"
    and "\<forall>n. has rs n \<longrightarrow> has (s_members s) n \<or> (\<exists>m. P m \<and> n = m_name m)"
    and "\<And>m. ev_data e = MemberInvited m \<Longrightarrow> P m"
  shows "\<forall>n. has rs' n \<longrightarrow> has (s_members s) n \<or> (\<exists>m. P m \<and> n = m_name m)"
proof -
  have add: "\<forall>n. has (add_recipient s name actor inv th rs) n \<longrightarrow>
      has (s_members s) n \<or> (\<exists>m. P m \<and> n = m_name m)"
    if "\<And>m. inv = Some m \<Longrightarrow> P m \<and> name = m_name m" for name actor inv th
    using assms(2) that
    by (auto simp: add_recipient_def dest: map_of_has split: option.splits)
  have no: "has (s_members s) n \<or> (\<exists>m. P m \<and> n = m_name m)"
    if "has (add_recipient s name actor None th rs) n" for name actor th n
    using add [of None name actor th] that by blast
  show ?thesis
  proof (cases "ev_data e")
    case (MemberInvited m)
    have "rs' = add_recipient s (m_name m) (ev_actor e) (Some m) None rs"
      using assms(1) MemberInvited by simp
    then show ?thesis using add [of "Some m" "m_name m"] assms(3) MemberInvited by simp
  qed (use assms(1,2) in \<open>auto dest!: no split: if_splits option.splits\<close>)
qed

lemma wakeRecipients_names:
  assumes "wakeRecipients s es = Inr rs"
  shows "\<forall>n. has rs n \<longrightarrow> has (s_members s) n \<or>
     (\<exists>m. (\<exists>e \<in> set es. ev_data e = MemberInvited m) \<and> n = m_name m)"
  using assms unfolding wakeRecipients_def
  by (rule err_fold_invariant) (simp, rule wake_event_names, auto)

lemma dispatch_loop_intents:
  assumes "dispatch_loop s ctx c a b k rs = Inr is"
  shows "\<forall>e \<in> set is. \<exists>d. ev_data e = DispatchIntended d \<and> d_kind d = Wake \<and> d_outcome d = None \<and>
     has rs (d_member d) \<and> (\<exists>j. d_id d = delivery_id (Suc (s_lastSeq s)) j)"
  using assms
proof (induction s ctx c a b k rs arbitrary: "is" rule: dispatch_loop.induct)
  case (2 s ctx c a b k name rc rs)
  show ?case
  proof (cases "wake_provider ctx name (rcp_member rc)")
    case None
    with 2 show ?thesis by (fastforce split: if_splits)
  next
    case (Some pid)
    with "2.prems" obtain es where es: "dispatch_loop s ctx c a b (Suc k) rs = Inr es"
        "is = wake_intent s c a b (Suc k) name pid rc # es" "sampled_current ctx name (rcp_member rc)"
      by (auto simp: err_bind_ok split: if_splits)
    from "2.IH"(2) [OF _ Some es(1)] es(3)
    have "\<forall>e \<in> set es. \<exists>d. ev_data e = DispatchIntended d \<and> d_kind d = Wake \<and> d_outcome d = None \<and>
      has ((name, rc) # rs) (d_member d) \<and> (\<exists>j. d_id d = delivery_id (Suc (s_lastSeq s)) j)"
      by fastforce
    then show ?thesis by (auto simp: es(2) wake_intent_def Let_def)
  qed
qed simp

lemma decideDispatch_intents:
  assumes "decideDispatch s (business a ds) ctx = Inr es"
  shows "\<exists>is. es = business a ds @ is \<and> intents_ok s ds is"
proof -
  from assms obtain rs c act "is" where rs: "wakeRecipients s (business a ds) = Inr rs"
    and ds: "dispatch_loop s ctx c act (business a ds) 0 rs = Inr is" "es = business a ds @ is"
    by (auto simp: decideDispatch_def err_bind_ok Let_def)
  from wakeRecipients_names [OF rs] have "\<forall>n. has rs n \<longrightarrow> has (s_members s) n \<or>
     (\<exists>m. MemberInvited m \<in> set ds \<and> n = m_name m)"
    by fastforce
  with dispatch_loop_intents [OF ds(1)] have "intents_ok s ds is"
    unfolding intents_ok_def by (metis (no_types, lifting))
  with ds(2) show ?thesis by blast
qed


subsection \<open>A planned record folds and keeps the invariant\<close>

lemma apply_data_cong:
  "cm_seq r = cm_seq r' \<Longrightarrow> cm_events r = cm_events r' \<Longrightarrow> apply_data r d s = apply_data r' d s"
  by (cases d) (simp_all add: counted_def)

lemma reduce_stamp [simp]: "reduce st (r\<lparr>cm_at := x\<rparr>) = reduce st r"
proof -
  have "apply_data (r\<lparr>cm_at := x\<rparr>) d s = apply_data r d s" for d s
    by (rule apply_data_cong) simp_all
  then have "apply_event (r\<lparr>cm_at := x\<rparr>) = apply_event r"
    by (intro ext) (simp add: apply_event_def split: option.split)
  then show ?thesis by (simp add: reduce_def)
qed

text \<open>\<open>r\<close> extends the current state by one well-formed commit.\<close>

definition extends :: "space_state option \<Rightarrow> commit_record \<Rightarrow> space_state \<Rightarrow> bool" where
  "extends st r t \<longleftrightarrow> reduce st r = Inr (Some t) \<and> wf_space t \<and> s_lastSeq t = cm_seq r \<and>
     (\<forall>s did. st = Some s \<longrightarrow> has (s_deliveries s) did \<longrightarrow> has (s_deliveries t) did) \<and>
     (\<forall>d \<in> set (intents (cm_events r)). has (s_deliveries t) (d_id d))"

lemma legal_not_creates: "legal s ds \<Longrightarrow> list_all (\<lambda>e. \<not> creates e) (business a ds)"
  by (erule legal.cases) (auto simp: creates_def list_all_iff)

lemma intents_ok_not_creates: "intents_ok s ds is \<Longrightarrow> list_all (\<lambda>e. \<not> creates e) is"
  by (fastforce simp: intents_ok_def creates_def list_all_iff)

lemma map_filter_append: "List.map_filter f (xs @ ys) = List.map_filter f xs @ List.map_filter f ys"
  by (simp add: List.map_filter_def)

lemma intents_business: "legal s ds \<Longrightarrow> intents (business a ds) = []"
  by (erule legal.cases) (simp_all add: intents_def List.map_filter_def filter_empty_conv)

lemma apply_data_lastSeq:
  "apply_data r d s = Inr t \<Longrightarrow> s_lastSeq t = s_lastSeq s"
  by (cases d) (auto simp: err_bind_ok update_member_ok put_item_def Let_def
      split: option.splits if_splits)

lemma fold_data_lastSeq:
  "fold_data r es s = Inr t \<Longrightarrow> s_lastSeq t = s_lastSeq s"
  unfolding fold_data_def
  by (rule err_fold_invariant [where P = "\<lambda>u. s_lastSeq u = s_lastSeq s"])
    (auto dest: apply_data_lastSeq)

lemma legal_deliveries:
  assumes "legal s ds" and "fold_data r (business a ds) s = Inr u"
  shows "s_deliveries u = s_deliveries s"
proof -
  have "\<forall>d \<in> set ds. \<forall>x y z w. d \<noteq> DispatchIntended x \<and> d \<noteq> DispatchCompleted y z w"
    using assms(1) by cases auto
  moreover have "s_deliveries t = s_deliveries v"
    if "apply_data r d v = Inr t" "\<forall>x y z w. d \<noteq> DispatchIntended x \<and> d \<noteq> DispatchCompleted y z w"
    for d v t
    using that by (cases d) (auto simp: err_bind_ok update_member_ok put_item_def Let_def
        split: option.splits if_splits)
  ultimately show ?thesis
    using assms(2) unfolding fold_data_def
    by - (rule err_fold_invariant [where P = "\<lambda>v. s_deliveries v = s_deliveries s"], auto)
qed

lemma core_eq_next_seq: "core_eq u t \<Longrightarrow> core_eq (next_seq u) (next_seq t)"
  by (simp add: core_eq_def next_seq_def)

lemma planned_extends:
  assumes wf: "wf_space s" and op: "s_status s = SpaceOpen" and leg: "legal s ds"
    and ints: "intents_ok s ds is" and r: "cm_events r = business a ds @ is"
    and seq: "cm_seq r = Suc (s_lastSeq s)" and limit: "limit_ok s r ds"
  shows "\<exists>t. extends (Some s) r t"
proof -
  from legal_step [OF wf op leg seq limit] obtain u where
    u: "fold_data r (business a ds) s = Inr u" "wf_space (next_seq u)" by blast
  have "\<forall>e \<in> set is. \<exists>d. ev_data e = DispatchIntended d \<and> d_kind d = Wake \<and>
      has (s_members u) (d_member d)"
  proof
    fix e assume e: "e \<in> set is"
    with ints obtain d where d: "ev_data e = DispatchIntended d" "d_kind d = Wake"
        "has (s_members s) (d_member d) \<or> (\<exists>m. MemberInvited m \<in> set ds \<and> d_member d = m_name m)"
      by (fastforce simp: intents_ok_def)
    from d(3) have "has (s_members u) (d_member d)"
    proof
      assume "has (s_members s) (d_member d)"
      then show ?thesis using u(1) by (rule fold_data_has)
    next
      assume "\<exists>m. MemberInvited m \<in> set ds \<and> d_member d = m_name m"
      then obtain m where "MemberInvited m \<in> set ds" "d_member d = m_name m" by blast
      then show ?thesis
        using fold_data_invited [OF u(1), of "\<lparr>ev_actor = a, ev_data = MemberInvited m\<rparr>" m] by auto
    qed
    with d show "\<exists>d. ev_data e = DispatchIntended d \<and> d_kind d = Wake \<and>
        has (s_members u) (d_member d)" by blast
  qed
  from intents_fold [OF this, of r] obtain t where
    t: "fold_data r is u = Inr t" "core_eq u t" "deliveries_added u t is" by blast
  have lastu: "s_lastSeq u = s_lastSeq s" using u(1) by (rule fold_data_lastSeq)
  have nc: "list_all (\<lambda>e. \<not> creates e) (cm_events r)"
    using legal_not_creates [OF leg] intents_ok_not_creates [OF ints] by (simp add: r)
  have lastt: "s_lastSeq t = s_lastSeq s" using t(1) lastu by (simp add: fold_data_lastSeq)
  have red: "reduce (Some s) r = Inr (Some (next_seq t))"
    using u(1) t(1) lastt by (simp add: reduce_Some [OF nc] r fold_data_append seq next_seq_def)
  have core: "core_eq (next_seq u) (next_seq t)" using t(2) by (rule core_eq_next_seq)
  have du: "s_deliveries u = s_deliveries s" using leg u(1) by (rule legal_deliveries)
  have wfu: "wf_deliveries (next_seq u)" using u(2) by (simp add: wf_space_def)
  have "wf_deliveries (next_seq t)"
    unfolding wf_deliveries_def
  proof (intro conjI allI impI)
    show "distinct (keys (s_deliveries (next_seq t)))"
      using t(3) wfu by (simp add: deliveries_added_def wf_deliveries_def)
  next
    fix did d assume d: "map_of (s_deliveries (next_seq t)) did = Some d"
    then consider (old) "map_of (s_deliveries u) did = Some d"
      | (new) e where "d_id d = did" "e \<in> set is" "ev_data e = DispatchIntended d"
      using t(3) unfolding deliveries_added_def next_seq_sel by blast
    then have "d_id d = did \<and> has (s_members (next_seq u)) (d_member d) \<and>
        (\<exists>q k. did = delivery_id q k \<and> q \<le> s_lastSeq (next_seq u))"
    proof cases
      case old
      with wfu show ?thesis by (simp add: wf_deliveries_def)
    next
      case new
      with \<open>\<forall>e \<in> set is. \<exists>d. ev_data e = DispatchIntended d \<and> d_kind d = Wake \<and>
          has (s_members u) (d_member d)\<close> have "has (s_members u) (d_member d)" by fastforce
      moreover from ints new have "\<exists>k. d_id d = delivery_id (Suc (s_lastSeq s)) k"
        by (fastforce simp: intents_ok_def)
      ultimately show ?thesis using new(1) lastu by auto
    qed
    then show "d_id d = did" "has (s_members (next_seq t)) (d_member d)"
      "\<exists>q k. did = delivery_id q k \<and> q \<le> s_lastSeq (next_seq t)"
      using core_eq_has [OF core] lastt lastu by auto
  qed
  then have "wf_space (next_seq t)"
    using u(2) core_eq_wf [OF core] core_eq_wf_members [OF core] core_eq_wf_addresses [OF core]
    by (simp add: wf_space_def)
  moreover have "\<forall>did. has (s_deliveries s) did \<longrightarrow> has (s_deliveries t) did"
    using t(3) by (simp add: deliveries_added_def du)
  moreover have "\<forall>d \<in> set (intents (cm_events r)). has (s_deliveries t) (d_id d)"
    using t(3) intents_business [OF leg, of a]
    by (auto simp: r intents_def map_filter_append deliveries_added_def List.map_filter_def
        split: event_data.splits)
  ultimately show ?thesis using red lastt seq by (auto simp: extends_def)
qed


subsection \<open>What the transactions persist\<close>

lemma topic_of_planned:
  assumes "fold_data r (business a [MessageSent m]) s = Inr u" and "core_eq u t"
    and "topic_root s (cm_seq r) (msg_ref m) = Inr root" and "counted r m"
  shows "map_of (s_topicOf t) (cm_seq r) = Some root" and "topic_count t root = Suc (topic_count s root)"
proof -
  have "s_topicOf t = s_topicOf u" "s_topicWakes t = s_topicWakes u"
    using core_eq_fields [OF assms(2)] by simp_all
  then show "map_of (s_topicOf t) (cm_seq r) = Some root" "topic_count t root = Suc (topic_count s root)"
    using assms(1,3,4)
    by (auto simp: Let_def topic_count_def bump_topic_def split: option.split)
qed

lemma legal_message_only: "legal s ds \<Longrightarrow> MessageSent m \<in> set ds \<Longrightarrow> ds = [MessageSent m]"
  by (erule legal.cases) auto

lemma checkTopicLimit_ok:
  assumes leg: "legal s ds" and ints: "intents_ok s ds is" and r: "cm_events r = business a ds @ is"
    and chk: "checkTopicLimit s r = Inr ()"
  shows "limit_ok s r ds"
  unfolding limit_ok_def
proof (intro allI impI)
  fix m root
  assume m: "MessageSent m \<in> set ds" and cnt: "counted r m"
    and root: "topic_root s (cm_seq r) (msg_ref m) = Inr root"
  from legal_message_only [OF leg m] have ds: "ds = [MessageSent m]" .
  have nc: "list_all (\<lambda>e. \<not> creates e) (cm_events r)"
    using legal_not_creates [OF leg] intents_ok_not_creates [OF ints] by (simp add: r)
  have some: "\<exists>e \<in> set (cm_events r). case ev_data e of MessageSent _ \<Rightarrow> True | _ \<Rightarrow> False"
    using r ds by simp
  have bus: "fold_data r (business a ds) s =
      Inr (bump_topic root (s\<lparr>s_topicOf := AList.update (cm_seq r) root (s_topicOf s),
        s_messages := s_messages s @ [m]\<rparr>))" (is "_ = Inr ?u")
    using root cnt by (simp add: ds Let_def)
  have "\<forall>e \<in> set is. \<exists>d. ev_data e = DispatchIntended d \<and> d_kind d = Wake \<and>
      has (s_members ?u) (d_member d)"
    using ints by (fastforce simp: intents_ok_def ds)
  from intents_fold [OF this, of r] obtain t where t: "fold_data r is ?u = Inr t" "core_eq ?u t"
    by blast
  have red: "reduce (Some s) r = Inr (Some (t\<lparr>s_lastSeq := cm_seq r\<rparr>))"
    using bus t(1) by (simp add: reduce_Some [OF nc] r fold_data_append)
  from topic_of_planned [OF bus [unfolded ds] t(2) root cnt]
  have "map_of (s_topicOf t) (cm_seq r) = Some root" "topic_count t root = Suc (topic_count s root)" .
  with chk some red show "topic_count s root < TOPIC_LIMIT"
    by (auto simp: checkTopicLimit_def topic_count_def Let_def split: if_splits)
qed

lemma lookup_member:
  assumes "wf_members s" and "lookup s p = Inr m"
  shows "member_at s (m_name m) = Some m"
proof -
  from assms(2) have "m \<in> set (vals (s_members s))"
    by (auto simp: lookup_def err_bind_ok of_option_ok dest!: find_SomeD)
  with assms(1) show ?thesis
    by (metis vals_iff wf_membersD wf_members_def)
qed

theorem plan_command_extends:
  assumes wf: "wf_space s" and me: "member_at s (m_name m) = Some m"
    and plan: "plan_command cf en cx cmdId clm ctx cmd s m = Inr (r, res)"
  shows "\<exists>t. extends (Some s) r t" and "cm_seq r = Suc (s_lastSeq s)"
    and "s_status s = SpaceOpen"
proof -
  from plan have op: "s_status s = SpaceOpen"
    by (cases "s_status s") (simp_all add: plan_command_def)
  from plan op obtain ds es u where auth: "authorize (name_of cmd) s m = Inr ()"
    and dec: "decide (cf_providers cf) en clm cmd s m = Inr ds"
    and disp: "decideDispatch s (business (m_name m) ds) ctx = Inr es"
    and r: "cm_events r = es" "cm_seq r = Suc (s_lastSeq s)"
    and chk: "checkTopicLimit s r = Inr u"
    by (auto simp: plan_command_def err_bind_ok Let_def command_record_def)
  have leg: "legal s ds" using wf op me auth dec by (rule decide_legal)
  from decideDispatch_intents [OF disp] obtain "is" where
    ints: "es = business (m_name m) ds @ is" "intents_ok s ds is" by blast
  have ev: "cm_events r = business (m_name m) ds @ is" using r ints by simp
  have chk': "checkTopicLimit s r = Inr ()" using chk by simp
  show "\<exists>t. extends (Some s) r t"
    by (rule planned_extends [OF wf op leg ints(2) ev r(2) checkTopicLimit_ok [OF leg ints(2) ev chk']])
  show "cm_seq r = Suc (s_lastSeq s)" "s_status s = SpaceOpen" by fact+
qed

lemma intents_ok_Nil [simp]: "intents_ok s ds []"
  by (simp add: intents_ok_def)

lemma decide_manager_no_message:
  "decide_manager owned cmd s channel claimed = Inr ds \<Longrightarrow> MessageSent m \<notin> set ds"
  by (cases cmd) (auto simp: ok_iff decide_dispose_ok)

theorem manager_extends:
  assumes wf: "wf_space s" and op: "s_status s = SpaceOpen" and ch: "channel \<in> set (s_managers s)"
    and dec: "decide_manager owned cmd s channel claimed = Inr ds"
    and r: "cm_events r = business a ds" "cm_seq r = Suc (s_lastSeq s)"
  shows "\<exists>t. extends (Some s) r t"
proof (rule planned_extends [where a = a, OF wf op _ intents_ok_Nil])
  show "legal s ds" using wf op ch dec by (rule decide_manager_legal)
  show "limit_ok s r ds" using decide_manager_no_message [OF dec] by (simp add: limit_ok_def)
qed (use r in simp_all)


subsection \<open>Creating a space\<close>

lemma claim_binding:
  "plan_create cf en listed a inp sv = Inr (b, pu) \<Longrightarrow> address_of b = a"
  by (auto simp: plan_create_def err_bind_ok split: if_splits)

theorem create_extends:
  "\<exists>t. extends None (create_record cf space cmdId a inp b pu) t"
proof -
  define me where "me = \<lparr>m_name = cs_name inp, m_kind = Agent, m_status = Active, m_joinSeq = 1,
     m_binding = b, m_statusText = [], m_wakeCount = 0, m_managedBy = None,
     m_previousBindings = []\<rparr>"
  define t where "t = (initial_space space (cf_serviceId cf) (cs_name inp) (cf_convention cf) pu)
     \<lparr>s_members := [(cs_name inp, me)], s_lastSeq := 1\<rparr>"
  have "reduce None (create_record cf space cmdId a inp b pu) = Inr (Some t)"
    by (simp add: reduce_def create_record_def command_record_def apply_event_def Let_def
        me_def t_def initial_space_def)
  moreover have "wf_space t"
    by (simp add: wf_space_def wf_members_def wf_addresses_def wf_leader_def leads_def
        wf_managed_def wf_items_def wf_topics_def wf_wakes_def wf_deliveries_def wf_managers_def
        t_def initial_space_def me_def occupied_def)
  ultimately have "extends None (create_record cf space cmdId a inp b pu) t"
    by (simp add: extends_def t_def create_record_def command_record_def intents_def
        List.map_filter_def Let_def)
  then show ?thesis by blast
qed

subsection \<open>Completions\<close>

lemma wf_deliveriesD:
  "wf_deliveries s \<Longrightarrow> map_of (s_deliveries s) did = Some d \<Longrightarrow>
     d_id d = did \<and> has (s_members s) (d_member d) \<and>
     (\<exists>q k. did = delivery_id q k \<and> q \<le> s_lastSeq s)"
  by (simp add: wf_deliveries_def)

lemma completion_extends:
  assumes wf: "wf_space s" and did: "has (s_deliveries s) did"
  shows "\<exists>t. extends (Some s) (completion_record (Suc (s_lastSeq s)) did out) t"
proof -
  obtain d where d: "map_of (s_deliveries s) did = Some d" using did has_map_of by fast
  let ?d = "d\<lparr>d_outcome := Some out\<rparr>"
  let ?t = "s\<lparr>s_deliveries := AList.update did ?d (s_deliveries s), s_lastSeq := Suc (s_lastSeq s)\<rparr>"
  have "reduce (Some s) (completion_record (Suc (s_lastSeq s)) did out) = Inr (Some ?t)"
    using d by (subst reduce_Some) (simp_all add: completion_record_def creates_def)
  moreover have wd: "wf_deliveries s" and wk: "wf_work s" using wf by (simp_all add: wf_space_def wf_work_def)
  have "wf_people ?t" by (rule people_frame [of s]) (use wf in \<open>simp_all add: wf_space_split\<close>)
  moreover have "wf_work (?t\<lparr>s_deliveries := s_deliveries s\<rparr>)"
    using wk by (rule work_frame) simp_all
  moreover have "wf_deliveries ?t"
    unfolding wf_deliveries_def
  proof (intro conjI allI impI)
    show "distinct (keys (s_deliveries ?t))" using wd by (simp add: wf_deliveries_def)
  next
    fix x y assume y: "map_of (s_deliveries ?t) x = Some y"
    have "d_id y = x \<and> has (s_members s) (d_member y) \<and>
        (\<exists>q k. x = delivery_id q k \<and> q \<le> s_lastSeq s)"
    proof (cases "x = did")
      case True
      with y have "y = ?d" by simp
      with True wf_deliveriesD [OF wd d] show ?thesis by simp
    next
      case False
      with y have "map_of (s_deliveries s) x = Some y" by simp
      then show ?thesis by (rule wf_deliveriesD [OF wd])
    qed
    then show "d_id y = x" "has (s_members ?t) (d_member y)"
      "\<exists>q k. x = delivery_id q k \<and> q \<le> s_lastSeq ?t"
      by simp_all (meson le_SucI)
  qed
  ultimately have "wf_space ?t"
    by (simp add: wf_space_split wf_work_def wf_items_def wf_topics_def wf_wakes_def item_ok_def)
  with \<open>reduce (Some s) _ = Inr (Some ?t)\<close> show ?thesis
    by (intro exI [of _ ?t])
      (simp add: extends_def completion_record_def intents_def List.map_filter_def)
qed


subsection \<open>Every interleaving\<close>

text \<open>
  One step of a space's service. A transaction may run with any generation, samples and claims: they
  were taken earlier, against whatever the space was then. \<open>s_launch\<close> runs the launch of a finished
  command, \<open>s_complete\<close> the queued completion of a delivery that is in flight.
\<close>

inductive service_step :: "config \<Rightarrow> service \<Rightarrow> service \<Rightarrow> bool" for cf where
  s_open: "service_step cf sv (snd (open_space sv))"
| s_close: "service_step cf sv (close_space sv)"
| s_create: "service_step cf sv (snd (create_txn cf en cx epoch listed inp sv))"
| s_command: "service_step cf sv (snd (command_txn cf en cx gen clm ctx cmd sv))"
| s_manager: "service_step cf sv (snd (manager_txn cf en cx gen p claimed mcmd sv))"
| s_launch: "(g, es) \<in> set (sv_launching sv) \<Longrightarrow>
     service_step cf sv (launch_dispatch g es
       (sv\<lparr>sv_launching := remove1 (g, es) (sv_launching sv)\<rparr>))"
| s_complete: "did \<in> set (sv_inFlight sv) \<Longrightarrow> service_step cf sv (complete_txn en g did out sv)"

definition reachable :: "config \<Rightarrow> service \<Rightarrow> bool" where
  "reachable cf = (service_step cf)\<^sup>*\<^sup>* initial_service"

lemma reachable_init: "reachable cf initial_service"
  by (simp add: reachable_def)

lemma reachable_step: "reachable cf sv \<Longrightarrow> service_step cf sv sv' \<Longrightarrow> reachable cf sv'"
  unfolding reachable_def by (rule rtranclp.rtrancl_into_rtrancl)

definition log_state :: "commit_record list \<Rightarrow> space_state option \<Rightarrow> bool" where
  "log_state log st \<longleftrightarrow>
     replay log = Inr st \<and> map cm_seq log = [1..<Suc (length log)] \<and>
     (case st of None \<Rightarrow> log = [] | Some s \<Rightarrow> wf_space s \<and> s_lastSeq s = length log)"

definition known :: "service \<Rightarrow> string \<Rightarrow> bool" where
  "known sv did \<longleftrightarrow> (\<exists>s. sv_state sv = Some s \<and> has (s_deliveries s) did)"

definition live :: "service \<Rightarrow> bool" where
  "live sv \<longleftrightarrow> sv_opened sv \<and> \<not> sv_failed sv"

definition dispatch_ok :: "service \<Rightarrow> bool" where
  "dispatch_ok sv \<longleftrightarrow>
     (\<forall>did \<in> set (sv_inFlight sv). known sv did) \<and>
     (\<forall>(g, es) \<in> set (sv_launching sv). sv_generation sv = Some g \<longrightarrow>
        (\<forall>d \<in> set (intents es). known sv (d_id d)))"

definition generations_ok :: "service \<Rightarrow> bool" where
  "generations_ok sv \<longleftrightarrow>
     (\<forall>(g, es) \<in> set (sv_launching sv). g < sv_nextGeneration sv) \<and>
     (\<forall>g. sv_generation sv = Some g \<longrightarrow> g < sv_nextGeneration sv)"

definition service_ok :: "service \<Rightarrow> bool" where
  "service_ok sv \<longleftrightarrow>
     (\<exists>st. log_state (sv_log sv) st) \<and> generations_ok sv \<and>
     (live sv \<longrightarrow> sv_records sv = sv_log sv \<and> log_state (sv_log sv) (sv_state sv) \<and> dispatch_ok sv)"

lemma last_seq_log: "map cm_seq log = [1..<Suc (length log)] \<Longrightarrow> last_seq log = length log"
  by (cases log rule: rev_cases) (auto simp: last_seq_def)

lemma log_state_snoc:
  assumes "log_state log st" and "extends st r t" and "cm_seq r = Suc (length log)"
  shows "log_state (log @ [r]) (Some t)"
  using assms by (simp add: log_state_def extends_def replay_snoc)

text \<open>A persisted record that extends the state keeps the service well formed.\<close>

lemma persist_frame:
  "sv_generation (snd (persist en sv r)) = sv_generation sv"
  "sv_nextGeneration (snd (persist en sv r)) = sv_nextGeneration sv"
  "sv_launching (snd (persist en sv r)) = sv_launching sv"
  "sv_inFlight (snd (persist en sv r)) = sv_inFlight sv"
  "sv_opened (snd (persist en sv r)) = sv_opened sv"
  by (simp_all add: persist_def Let_def split: store_answer.split sum.split)

lemma persist_cases:
  assumes "service_ok sv"
    and ext: "live sv \<longrightarrow> cm_seq r = Suc (length (sv_log sv)) \<longrightarrow> (\<exists>t. extends (sv_state sv) r t)"
  obtains (refused) e where "persist en sv r = (Inl e, sv)"
  | (fenced) e log where "live sv" "persist en sv r = (Inl e, sv\<lparr>sv_failed := True, sv_log := log\<rparr>)"
      "\<exists>st. log_state log st"
  | (stored) t where "live sv" "persist en sv r = (Inr (), sv\<lparr>sv_log := sv_log sv @ [r\<lparr>cm_at := Some (env_now en)\<rparr>],
        sv_state := Some t, sv_records := sv_records sv @ [r\<lparr>cm_at := Some (env_now en)\<rparr>]\<rparr>)"
      "extends (sv_state sv) r t"
      "log_state (sv_log sv @ [r\<lparr>cm_at := Some (env_now en)\<rparr>]) (Some t)"
proof (cases "live sv")
  case False
  then have "persist en sv r = (Inl STORE_FAILED, sv)"
    by (auto simp: persist_def live_def)
  then show thesis by (rule refused)
next
  case True
  let ?r = "r\<lparr>cm_at := Some (env_now en)\<rparr>"
  from assms(1) True have ls: "log_state (sv_log sv) (sv_state sv)" and rs: "sv_records sv = sv_log sv"
    by (simp_all add: service_ok_def)
  then have last: "last_seq (sv_log sv) = length (sv_log sv)"
    by (simp add: log_state_def last_seq_log)
  have sv': "sv\<lparr>sv_failed := True\<rparr> = sv\<lparr>sv_failed := True, sv_log := sv_log sv\<rparr>" by simp
  show thesis
  proof (cases "store_append sv ?r")
    case False
    have "\<exists>e. persist en sv r = (Inl e, sv\<lparr>sv_failed := True\<rparr>)"
      using True False by (auto simp: persist_def Let_def live_def split: store_answer.split)
    then show thesis using fenced [OF True] ls sv' by metis
  next
    case app: True
    then have seq: "cm_seq r = Suc (length (sv_log sv))" by (simp add: store_append_def rs last)
    from ext True seq obtain t where t: "extends (sv_state sv) r t" by blast
    then have "extends (sv_state sv) ?r t" by (simp add: extends_def)
    with ls seq have ls': "log_state (sv_log sv @ [?r]) (Some t)"
      by (intro log_state_snoc) simp_all
    have red: "reduce (sv_state sv) r = Inr (Some t)" using t by (simp add: extends_def)
    show thesis
    proof (cases "env_store en")
      case StoreOk
      with True app red have "persist en sv r = (Inr (), sv\<lparr>sv_log := sv_log sv @ [?r],
          sv_state := Some t, sv_records := sv_records sv @ [?r]\<rparr>)"
        by (simp add: persist_def Let_def live_def)
      then show thesis using stored [OF True] t ls' by blast
    next
      case StoreConflict
      with True have "persist en sv r = (Inl STORE_CONFLICT, sv\<lparr>sv_failed := True\<rparr>)"
        by (simp add: persist_def Let_def live_def)
      then show thesis using fenced [OF True] ls sv' by metis
    next
      case (StoreFails durable)
      with True app have "persist en sv r = (Inl STORE_FAILED,
          sv\<lparr>sv_failed := True, sv_log := (if durable then sv_log sv @ [?r] else sv_log sv)\<rparr>)"
        by (simp add: persist_def Let_def live_def)
      then show thesis using fenced [OF True] ls ls' by metis
    qed
  qed
qed


lemma persist_ok:
  assumes ok: "service_ok sv"
    and ext: "live sv \<longrightarrow> cm_seq r = Suc (length (sv_log sv)) \<longrightarrow> (\<exists>t. extends (sv_state sv) r t)"
  shows "service_ok (snd (persist en sv r))"
    and "fst (persist en sv r) = Inr () \<Longrightarrow>
      live (snd (persist en sv r)) \<and> (\<forall>d \<in> set (intents (cm_events r)). known (snd (persist en sv r)) (d_id d))"
proof -
  show "service_ok (snd (persist en sv r))"
    using ok ext
  proof (cases rule: persist_cases [where en = en])
    case (refused e)
    with ok show ?thesis by simp
  next
    case (fenced e log)
    with ok show ?thesis by (simp add: service_ok_def live_def generations_ok_def)
  next
    case (stored t)
    let ?r = "r\<lparr>cm_at := Some (env_now en)\<rparr>"
    let ?sv = "sv\<lparr>sv_log := sv_log sv @ [?r], sv_state := Some t, sv_records := sv_records sv @ [?r]\<rparr>"
    have mono: "known sv did \<Longrightarrow> known ?sv did" for did
      using stored(3) by (auto simp: known_def extends_def)
    have "dispatch_ok sv" using ok stored(1) by (simp add: service_ok_def)
    then have "dispatch_ok ?sv" by (fastforce simp: dispatch_ok_def intro: mono)
    with ok stored show ?thesis by (auto simp: service_ok_def live_def generations_ok_def)
  qed
  show "live (snd (persist en sv r)) \<and> (\<forall>d \<in> set (intents (cm_events r)). known (snd (persist en sv r)) (d_id d))"
    if stored: "fst (persist en sv r) = Inr ()"
    using ok ext
  proof (cases rule: persist_cases [where en = en])
    case (stored t)
    then show ?thesis by (simp add: live_def known_def extends_def)
  qed (use stored in simp_all)
qed

lemma committed_snd: "snd (committed en sv r res) = snd (persist en sv r)"
  by (auto simp: committed_def split: prod.split sum.split)

lemma committed_ok: "committed en sv r res = (Inr x, sv') \<Longrightarrow> fst (persist en sv r) = Inr () \<and> sv' = snd (persist en sv r)"
  by (auto simp: committed_def split: prod.splits sum.splits)

lemma live_state: "service_ok sv \<Longrightarrow> live sv \<Longrightarrow> sv_state sv = Some s \<Longrightarrow> wf_space s \<and> s_lastSeq s = length (sv_log sv)"
  by (auto simp: service_ok_def log_state_def)

lemma current_state_live: "current_state sv = Inr s \<longleftrightarrow> live sv \<and> sv_state sv = Some s"
  by (auto simp: current_state_def live_def split: option.split)

lemma open_ok: "service_ok sv \<Longrightarrow> service_ok (snd (open_space sv))"
  by (auto simp: open_space_def service_ok_def log_state_def live_def generations_ok_def
      dispatch_ok_def less_Suc_eq split: sum.split option.split)

lemma close_ok: "service_ok sv \<Longrightarrow> service_ok (close_space sv)"
  by (auto simp: close_space_def service_ok_def live_def generations_ok_def)

lemma add_launch_ok:
  assumes "service_ok sv" and "sv_generation sv = Some g"
    and "live sv \<longrightarrow> (\<forall>d \<in> set (intents es). known sv (d_id d))"
  shows "service_ok (sv\<lparr>sv_launching := sv_launching sv @ [(g, es)]\<rparr>)"
  using assms
  by (auto simp: service_ok_def generations_ok_def live_def dispatch_ok_def known_def)

lemma command_ok:
  assumes ok: "service_ok sv"
  shows "service_ok (snd (command_txn cf en cx gen clm ctx cmd sv))"
proof (cases "\<exists>s cmdId m r res. gen = sv_generation sv \<and> live sv \<and> sv_state sv = Some s \<and>
    lookup s (cx_principal cx) = Inr m \<and> cx_cmdId cx = Arg cmdId \<and> cmdId \<noteq> [] \<and>
    find_receipt sv cmdId (ScopeMember (m_name m)) = None \<and>
    plan_command cf en cx cmdId clm ctx cmd s m = Inr (r, res)")
  case False
  then have "snd (command_txn cf en cx gen clm ctx cmd sv) = sv"
    by (auto simp: command_txn_def replayed_def current_state_live
        split: sum.split arg.split option.split prod.split)
  with ok show ?thesis by simp
next
  case True
  then obtain s cmdId m r res where c: "gen = sv_generation sv" "live sv" "sv_state sv = Some s"
      "lookup s (cx_principal cx) = Inr m" "cx_cmdId cx = Arg cmdId" "cmdId \<noteq> []"
      "find_receipt sv cmdId (ScopeMember (m_name m)) = None"
      "plan_command cf en cx cmdId clm ctx cmd s m = Inr (r, res)" by blast
  have wf: "wf_space s" using live_state [OF ok c(2,3)] by simp
  then have me: "member_at s (m_name m) = Some m"
    using lookup_member [OF _ c(4)] by (simp add: wf_space_def)
  have ext: "live sv \<longrightarrow> cm_seq r = Suc (length (sv_log sv)) \<longrightarrow> (\<exists>t. extends (sv_state sv) r t)"
    using plan_command_extends(1) [OF wf me c(8)] c(3) by simp
  note p = persist_ok [OF ok ext, of en]
  have cur: "current_state sv = Inr s" using c by (simp add: current_state_live)
  have txn: "command_txn cf en cx gen clm ctx cmd sv =
      (case committed en sv r res of (Inl e, sv') \<Rightarrow> (Inl e, sv')
       | (Inr x, sv') \<Rightarrow> (Inr x, case gen of None \<Rightarrow> sv'
           | Some g \<Rightarrow> sv'\<lparr>sv_launching := sv_launching sv' @ [(g, cm_events r)]\<rparr>))"
    unfolding command_txn_def
    by (simp add: cur c(4-8) c(1) [symmetric])
  show ?thesis
  proof (cases "committed en sv r res")
    case (Pair o' sv')
    show ?thesis
    proof (cases o')
      case (Inl e)
      then show ?thesis using Pair p(1) committed_snd [of en sv r res] by (simp add: txn)
    next
      case (Inr x)
      then have q: "fst (persist en sv r) = Inr ()" "sv' = snd (persist en sv r)"
        using Pair committed_ok by blast+
      show ?thesis
      proof (cases gen)
        case None
        then show ?thesis using Pair Inr p(1) q txn by simp
      next
        case (Some g)
        have "service_ok (sv'\<lparr>sv_launching := sv_launching sv' @ [(g, cm_events r)]\<rparr>)"
          using p q Some c(1) by (intro add_launch_ok) (simp_all add: persist_frame)
        then show ?thesis using Pair Inr Some txn by simp
      qed
    qed
  qed
qed


lemma manager_ok:
  assumes ok: "service_ok sv"
  shows "service_ok (snd (manager_txn cf en cx gen p claimed mcmd sv))"
proof (cases "\<exists>s r res. live sv \<and> sv_state sv = Some s \<and> s_status s = SpaceOpen \<and>
    (\<exists>t. extends (Some s) r t) \<and>
    snd (manager_txn cf en cx gen p claimed mcmd sv) = snd (committed en sv r res)")
  case True
  then obtain s r res where c: "sv_state sv = Some s" "\<exists>t. extends (Some s) r t"
    "snd (manager_txn cf en cx gen p claimed mcmd sv) = snd (persist en sv r)"
    by (auto simp: committed_snd)
  show ?thesis unfolding c(3) by (rule persist_ok(1) [OF ok]) (use c in simp)
next
  case False
  have "snd (manager_txn cf en cx gen p claimed mcmd sv) = sv"
  proof (rule ccontr)
    assume ne: "snd (manager_txn cf en cx gen p claimed mcmd sv) \<noteq> sv"
    then obtain s cmdId ds res where c: "gen = sv_generation sv" "live sv" "sv_state sv = Some s"
      "pv_channel p \<in> set (s_managers s)" "s_status s = SpaceOpen"
      "decide_manager (cx_authorOwned cx) mcmd s (pv_channel p) claimed = Inr ds"
      "snd (manager_txn cf en cx gen p claimed mcmd sv) = snd (committed en sv
         (command_record (Suc (s_lastSeq s))
            (map (\<lambda>d. \<lparr>ev_actor = ''manager:'' @ pv_channel p, ev_data = d\<rparr>) ds)
            cmdId (ScopeManager (pv_channel p)) (cf_digest cf (PManagerCommand mcmd)) res) res)"
      by (force simp: manager_txn_def Let_def replayed_def current_state_live
          split: sum.splits arg.splits option.splits prod.splits if_splits space_status.splits
          intro: space_status.exhaust)
    have wf: "wf_space s" using live_state [OF ok c(2,3)] by simp
    have "\<exists>t. extends (Some s) (command_record (Suc (s_lastSeq s))
            (map (\<lambda>d. \<lparr>ev_actor = ''manager:'' @ pv_channel p, ev_data = d\<rparr>) ds)
            cmdId (ScopeManager (pv_channel p)) (cf_digest cf (PManagerCommand mcmd)) res) t"
      by (rule manager_extends [OF wf c(5,4,6), where a = "''manager:'' @ pv_channel p"])
        (simp_all add: command_record_def)
    with False c show False by blast
  qed
  with ok show ?thesis by simp
qed

lemma create_ok:
  assumes ok: "service_ok sv"
  shows "service_ok (snd (create_txn cf en cx epoch listed inp sv))"
proof -
  have opened: "service_ok (snd (if sv_opened sv then (Inr (), sv) else open_space sv))"
    using ok open_ok by simp
  have ext: "live sv' \<longrightarrow> cm_seq r = Suc (length (sv_log sv')) \<longrightarrow> (\<exists>t. extends (sv_state sv') r t)"
    if "service_ok sv'" "r = create_record cf sp cmdId a inp b pu" for sv' r sp cmdId a b pu
  proof (intro impI)
    assume l: "live sv'" and "cm_seq r = Suc (length (sv_log sv'))"
    then have "sv_log sv' = []" using that(2) by (simp add: create_record_def command_record_def Let_def)
    then have "sv_state sv' = None"
      using that(1) l by (auto simp: service_ok_def log_state_def replay_def split: option.splits)
    then show "\<exists>t. extends (sv_state sv') r t" unfolding that(2) by (simp add: create_extends)
  qed
  show ?thesis
    using ok opened
    by (auto simp: create_txn_def Let_def replayed_def committed_snd persist_ok(1) ext
        split: sum.split arg.split option.split prod.split)
qed

lemma launch_ok:
  assumes ok: "service_ok sv" and mem: "(g, es) \<in> set (sv_launching sv)"
  shows "service_ok (launch_dispatch g es (sv\<lparr>sv_launching := remove1 (g, es) (sv_launching sv)\<rparr>))"
proof -
  have sub: "x \<in> set (remove1 (g, es) (sv_launching sv)) \<Longrightarrow> x \<in> set (sv_launching sv)" for x
    using set_remove1_subset by fast
  show ?thesis
    using ok mem
    by (auto simp: launch_dispatch_def fenced_def service_ok_def generations_ok_def live_def
        dispatch_ok_def known_def dest!: sub)
qed

lemma complete_ok:
  assumes ok: "service_ok sv" and did: "did \<in> set (sv_inFlight sv)"
  shows "service_ok (complete_txn en g did out sv)"
proof -
  have settle: "service_ok (if sv_generation v = Some g
      then v\<lparr>sv_inFlight := removeAll did (sv_inFlight v)\<rparr> else v)" if "service_ok v" for v
    using that by (auto simp: service_ok_def generations_ok_def live_def dispatch_ok_def known_def)
  show ?thesis
  proof (cases "live sv \<and> (\<exists>s. sv_state sv = Some s)")
    case False
    then show ?thesis using settle [OF ok]
      by (auto simp: complete_txn_def fenced_def live_def Let_def split: option.split)
  next
    case True
    then obtain s where l: "live sv" and s: "sv_state sv = Some s" by blast
    have "has (s_deliveries s) did"
      using ok l did s by (auto simp: service_ok_def dispatch_ok_def known_def)
    then have "\<exists>t. extends (Some s) (completion_record (Suc (s_lastSeq s)) did out) t"
      using live_state [OF ok l s] completion_extends by blast
    then have "service_ok (snd (persist en sv (completion_record (Suc (s_lastSeq s)) did out)))"
      by (intro persist_ok(1) [OF ok]) (simp add: s)
    then show ?thesis using settle ok s by (simp add: complete_txn_def Let_def)
  qed
qed

lemma initial_ok: "service_ok initial_service"
  by (auto simp: service_ok_def log_state_def initial_service_def generations_ok_def live_def replay_def
      intro!: exI [of _ None])

lemma service_step_ok: "service_step cf sv sv' \<Longrightarrow> service_ok sv \<Longrightarrow> service_ok sv'"
  by (erule service_step.cases)
    (simp_all add: open_ok close_ok create_ok command_ok manager_ok launch_ok complete_ok)

interpretation kernel: invariant_system "service_step cf" service_ok for cf
  by unfold_locales (rule service_step_ok)

lemma reachable_ok: "reachable cf sv \<Longrightarrow> service_ok sv"
  unfolding reachable_def by (rule kernel.run_inv [OF _ initial_ok])

end
