(* ===== verification/CollabRefine.thy ===== *)
theory CollabRefine
  imports CollabSafety
begin

text \<open>
  The refinement: seen from the outside, a service that stays live either leaves the space as it is or
  appends one commit that the protocol of \<open>CollabProtocol\<close> allows. What holds of every protocol step
  (a closed space is frozen, members and addresses stay, terminal requests and recorded outcomes do not
  change) then holds of every run of the service.
\<close>

subsection \<open>Protocol steps\<close>

definition planned :: "space_state \<Rightarrow> commit_record \<Rightarrow> bool" where
  "planned s r \<longleftrightarrow> s_status s = SpaceOpen \<and> cm_seq r = Suc (s_lastSeq s) \<and>
     ((\<exists>a ds is. cm_events r = business a ds @ is \<and> legal s ds \<and> intents_ok s ds is) \<or>
      (\<exists>did d out. map_of (s_deliveries s) did = Some d \<and> d_outcome d = None \<and>
         cm_events r = [\<lparr>ev_actor = ''system:dispatch'', ev_data = DispatchCompleted did out None\<rparr>]))"

definition space_step :: "space_state \<Rightarrow> commit_record \<Rightarrow> space_state \<Rightarrow> bool" where
  "space_step s r t \<longleftrightarrow> planned s r \<and> extends (Some s) r t"

lemma plan_command_planned:
  assumes wf: "wf_space s" and me: "member_at s (m_name m) = Some m"
    and plan: "plan_command cf en cx cmdId clm ctx cmd s m = Inr (r, res)"
  shows "planned s r"
proof -
  from plan have op: "s_status s = SpaceOpen"
    by (cases "s_status s") (simp_all add: plan_command_def)
  from plan op obtain ds es where auth: "authorize (name_of cmd) s m = Inr ()"
    and dec: "decide (cf_providers cf) en clm cmd s m = Inr ds"
    and disp: "decideDispatch s (business (m_name m) ds) ctx = Inr es"
    and r: "cm_events r = es" "cm_seq r = Suc (s_lastSeq s)"
    by (auto simp: plan_command_def err_bind_ok Let_def command_record_def)
  have "legal s ds" using wf op me auth dec by (rule decide_legal)
  with op r decideDispatch_intents [OF disp] show ?thesis by (auto simp: planned_def)
qed

lemma manager_planned:
  assumes "wf_space s" and "s_status s = SpaceOpen" and "channel \<in> set (s_managers s)"
    and "decide_manager owned cmd s channel claimed = Inr ds"
    and "cm_events r = business a ds" "cm_seq r = Suc (s_lastSeq s)"
  shows "planned s r"
  using assms decide_manager_legal [OF assms(1-4)] unfolding planned_def
  by (metis append_Nil2 intents_ok_Nil)

subsection \<open>What a transaction leaves of the log\<close>

text \<open>The part of a service that a reader of the space sees.\<close>

definition visible :: "service \<Rightarrow> commit_record list \<times> space_state option \<times> commit_record list \<times> bool \<times> bool" where
  "visible sv = (sv_log sv, sv_state sv, sv_records sv, sv_opened sv, sv_failed sv)"

definition commits :: "service \<Rightarrow> service \<Rightarrow> bool" where
  "commits sv sv' \<longleftrightarrow> visible sv' = visible sv \<or>
     (\<exists>en s r. live sv \<and> sv_state sv = Some s \<and> planned s r \<and> (\<exists>t. extends (Some s) r t) \<and>
        visible sv' = visible (snd (persist en sv r)))"

lemma commits_same [intro]: "visible sv' = visible sv \<Longrightarrow> commits sv sv'"
  by (simp add: commits_def)

lemma visible_frame [simp]:
  "visible (sv\<lparr>sv_launching := x\<rparr>) = visible sv" "visible (sv\<lparr>sv_inFlight := y\<rparr>) = visible sv"
  by (simp_all add: visible_def)

text \<open>The shape of the queued transactions\<close>

lemma command_txn_shape:
  obtains (read) "snd (command_txn cf en cx gen clm ctx cmd sv) = sv"
  | (store) s cmdId m r res where "gen = sv_generation sv" "current_state sv = Inr s"
      "cx_cmdId cx = Arg cmdId" "lookup s (cx_principal cx) = Inr m"
      "find_receipt sv cmdId (ScopeMember (m_name m)) = None"
      "plan_command cf en cx cmdId clm ctx cmd s m = Inr (r, res)"
      "visible (snd (command_txn cf en cx gen clm ctx cmd sv)) = visible (snd (persist en sv r))"
proof (cases "gen = sv_generation sv")
  case gen: True
  show thesis
  proof (cases "current_state sv")
    case (Inr s)
    note st = this
    show thesis
    proof (cases "cx_cmdId cx")
      case (Arg cmdId)
      show thesis
      proof (cases "cmdId = [] \<or> (\<exists>e. lookup s (cx_principal cx) = Inl e)")
        case False
        then obtain m where m: "cmdId \<noteq> []" "lookup s (cx_principal cx) = Inr m"
          by (cases "lookup s (cx_principal cx)") auto
        show thesis
        proof (cases "find_receipt sv cmdId (ScopeMember (m_name m))")
          case None
          show thesis
          proof (cases "plan_command cf en cx cmdId clm ctx cmd s m")
            case (Inr q)
            obtain r res where q: "q = (r, res)" by fastforce
            have "visible (snd (command_txn cf en cx gen clm ctx cmd sv)) = visible (snd (persist en sv r))"
              using gen st Arg m None Inr q unfolding command_txn_def
              by (simp add: committed_def split: prod.split sum.split option.split)
            with store [OF gen st Arg m(2) None Inr [unfolded q]] show thesis .
          qed (rule read, simp add: command_txn_def gen st Arg m None)
        qed (rule read, simp add: command_txn_def gen st Arg m replayed_def)
      qed (rule read, auto simp: command_txn_def gen st Arg)
    qed (rule read, simp add: command_txn_def gen st)
  qed (rule read, simp add: command_txn_def gen)
qed (rule read, simp add: command_txn_def)

lemma manager_txn_shape:
  obtains (read) "snd (manager_txn cf en cx gen p claimed cmd sv) = sv"
  | (store) s cmdId ds r where "gen = sv_generation sv" "current_state sv = Inr s"
      "cx_cmdId cx = Arg cmdId" "find_receipt sv cmdId (ScopeManager (pv_channel p)) = None"
      "pv_channel p \<in> set (s_managers s)" "s_status s = SpaceOpen"
      "decide_manager (cx_authorOwned cx) cmd s (pv_channel p) claimed = Inr ds"
      "cm_events r = business (''manager:'' @ pv_channel p) ds" "cm_seq r = Suc (s_lastSeq s)"
      "snd (manager_txn cf en cx gen p claimed cmd sv) = snd (persist en sv r)"
proof (cases "gen = sv_generation sv")
  case gen: True
  show thesis
  proof (cases "current_state sv")
    case (Inr s)
    note st = this
    show thesis
    proof (cases "cx_cmdId cx")
      case (Arg cmdId)
      show thesis
      proof (cases "cmdId = [] \<or> find_receipt sv cmdId (ScopeManager (pv_channel p)) \<noteq> None \<or>
          pv_channel p \<notin> set (s_managers s) \<or> s_status s = SpaceClosed")
        case False
        then have c: "cmdId \<noteq> []" "find_receipt sv cmdId (ScopeManager (pv_channel p)) = None"
            "pv_channel p \<in> set (s_managers s)" "s_status s = SpaceOpen"
          by (auto intro: space_status.exhaust)
        show thesis
        proof (cases "decide_manager (cx_authorOwned cx) cmd s (pv_channel p) claimed")
          case (Inr ds)
          show thesis
          proof (cases "check_guard cx")
            case (Inr u)
            show thesis
              by (rule store [OF gen st Arg c(2,3,4) \<open>decide_manager _ _ _ _ _ = _\<close>,
                    of "command_record (Suc (s_lastSeq s)) (business (''manager:'' @ pv_channel p) ds)
                       cmdId (ScopeManager (pv_channel p)) (cf_digest cf (PManagerCommand cmd))
                       \<lparr>cr_seq = Suc (s_lastSeq s), cr_spaceId = s_spaceId s,
                        cr_itemId = None, cr_requestId = None\<rparr>"])
                (simp_all add: command_record_def manager_txn_def Let_def gen [symmetric] st Arg c
                  \<open>decide_manager _ _ _ _ _ = _\<close> Inr committed_snd)
          qed (rule read, simp add: manager_txn_def Let_def gen st Arg c Inr)
        qed (rule read, simp add: manager_txn_def Let_def gen st Arg c)
      qed (rule read, auto simp: manager_txn_def Let_def gen st Arg replayed_def split: option.split)
    qed (rule read, simp add: manager_txn_def Let_def gen st)
  qed (rule read, simp add: manager_txn_def Let_def gen)
qed (rule read, simp add: manager_txn_def Let_def)

lemma plan_create_new: "plan_create cf en listed a inp sv = Inr q \<Longrightarrow> sv_state sv = None"
  by (simp add: plan_create_def split: if_splits)

lemma create_record_seq: "cm_seq (create_record cf sp cmdId a inp b pu) = 1"
  by (simp add: create_record_def command_record_def Let_def)

lemma create_txn_shape:
  "snd (create_txn cf en cx epoch listed inp sv) = sv \<or>
   snd (create_txn cf en cx epoch listed inp sv) = snd (open_space sv) \<and> \<not> sv_opened sv \<or>
   (\<exists>sv' r. sv_state sv = None \<and> cm_seq r = 1 \<and> (sv' = sv \<or> sv' = snd (open_space sv)) \<and>
      snd (create_txn cf en cx epoch listed inp sv) = snd (persist en sv' r))"
proof -
  let ?shape = "\<lambda>v. v = sv \<or> v = snd (open_space sv) \<and> \<not> sv_opened sv \<or>
     (\<exists>sv' r. sv_state sv = None \<and> cm_seq r = 1 \<and> (sv' = sv \<or> sv' = snd (open_space sv)) \<and> v = snd (persist en sv' r))"
  have tail: "?shape (snd (case (if sv_opened sv then (Inr (), sv) else open_space sv) of
      (Inl e, sv') \<Rightarrow> (Inl e, sv')
    | (Inr _, sv') \<Rightarrow> (case check_guard cx of Inl e \<Rightarrow> (Inl e, sv')
         | Inr _ \<Rightarrow> committed en sv' r res)))"
    if "sv_state sv = None" "cm_seq r = 1" for r res
    using that by (cases "sv_opened sv"; cases "open_space sv"; cases "fst (open_space sv)")
      (auto simp: committed_snd split: sum.split)
  have "?shape (snd (create_txn cf en cx epoch listed inp sv))"
  proof (cases "\<exists>a cmdId b pu. err_bind (entry cf cx) (\<lambda>_. err_bind (principal_address (cx_principal cx)) (\<lambda>a.
             err_bind (check_fence epoch sv) (\<lambda>_. Inr a))) = Inr a \<and> cx_cmdId cx = Arg cmdId \<and>
      cmdId \<noteq> [] \<and> find_receipt sv cmdId (ScopeCreate (a_channel a) (a_address a)) = None \<and>
      plan_create cf en listed a inp sv = Inr (b, pu)")
    case True
    then obtain a cmdId b pu where c: "err_bind (entry cf cx) (\<lambda>_. err_bind (principal_address (cx_principal cx)) (\<lambda>a.
             err_bind (check_fence epoch sv) (\<lambda>_. Inr a))) = Inr a" "cx_cmdId cx = Arg cmdId"
      "cmdId \<noteq> []" "find_receipt sv cmdId (ScopeCreate (a_channel a) (a_address a)) = None"
      "plan_create cf en listed a inp sv = Inr (b, pu)" by blast
    show ?thesis
      using tail [OF plan_create_new [OF c(5)] create_record_seq]
      by (simp only: create_txn_def Let_def c sum.case arg.case option.case if_False prod.case)
  next
    case False
    then have "snd (create_txn cf en cx epoch listed inp sv) = sv"
      by (auto simp: create_txn_def replayed_def split: sum.split arg.split option.split)
    then show ?thesis by simp
  qed
  then show ?thesis .
qed

lemma command_commits:
  assumes ok: "service_ok sv"
  shows "commits sv (snd (command_txn cf en cx gen clm ctx cmd sv))"
proof (cases rule: command_txn_shape [of cf en cx gen clm ctx cmd sv])
  case (store s cmdId m r res)
  then have c: "live sv" "sv_state sv = Some s" by (simp_all add: current_state_live)
  have wf: "wf_space s" using live_state [OF ok c] by simp
  then have me: "member_at s (m_name m) = Some m"
    using lookup_member [OF _ store(4)] by (simp add: wf_space_def)
  show ?thesis
    using c store(7) plan_command_planned [OF wf me store(6)] plan_command_extends(1) [OF wf me store(6)]
    unfolding commits_def by blast
qed auto

lemma manager_commits:
  assumes ok: "service_ok sv"
  shows "commits sv (snd (manager_txn cf en cx gen p claimed mcmd sv))"
proof (cases rule: manager_txn_shape [of cf en cx gen p claimed mcmd sv])
  case (store s cmdId ds r)
  then have c: "live sv" "sv_state sv = Some s" by (simp_all add: current_state_live)
  have wf: "wf_space s" using live_state [OF ok c] by simp
  show ?thesis
    using c store(10) manager_planned [OF wf store(6,5,7,8,9)] manager_extends [OF wf store(6,5,7,8,9)]
    unfolding commits_def by metis
qed auto

lemma complete_commits:
  assumes ok: "service_ok sv" and did: "did \<in> set (sv_inFlight sv)"
  shows "commits sv (complete_txn en g did out sv)"
proof (cases "visible (complete_txn en g did out sv) = visible sv")
  case False
  then obtain s where l: "live sv" and s: "sv_state sv = Some s" and op: "s_status s = SpaceOpen"
      and fresh: "\<And>d. map_of (s_deliveries s) did = Some d \<Longrightarrow> d_outcome d = None"
      and v: "visible (complete_txn en g did out sv) =
        visible (snd (persist en sv (completion_record (Suc (s_lastSeq s)) did out)))"
    by (auto simp: complete_txn_def fenced_def live_def Let_def
        split: option.splits if_splits intro: space_status.exhaust)
  have "has (s_deliveries s) did"
    using ok l did s by (auto simp: service_ok_def dispatch_ok_def known_def)
  then obtain d where d: "map_of (s_deliveries s) did = Some d" using has_map_of by fast
  have wf: "wf_space s" using live_state [OF ok l s] by simp
  have "planned s (completion_record (Suc (s_lastSeq s)) did out)"
    using op d fresh [OF d] by (auto simp: planned_def completion_record_def)
  with l s v completion_extends [OF wf \<open>has (s_deliveries s) did\<close>] show ?thesis
    unfolding commits_def by blast
qed auto

lemma persist_log: "\<exists>rs. sv_log (snd (persist en sv r)) = sv_log sv @ rs"
  by (auto simp: persist_def Let_def split: store_answer.split sum.split)

text \<open>A service that stays live: the space is as it was, or one protocol step further.\<close>

lemma service_step_refines:
  assumes ok: "service_ok sv" and st: "service_step cf sv sv'"
    and l: "live sv" "live sv'" and s: "sv_state sv = Some s"
  shows "(sv_state sv' = Some s \<and> sv_log sv' = sv_log sv) \<or>
     (\<exists>r t. space_step s r t \<and> sv_state sv' = Some t \<and> sv_log sv' = sv_log sv @ [r])"
proof -
  have stays: "commits sv sv'"
    using st
  proof cases
    case s_open
    with l show ?thesis by (auto simp: open_space_def live_def)
  next
    case s_close
    with l(2) show ?thesis by (simp add: close_space_def live_def)
  next
    case (s_create en cx epoch listed inp)
    with l s have "sv' = sv"
      by (auto simp: create_txn_def Let_def replayed_def plan_create_def live_def
          split: sum.split arg.split option.split prod.split)
    then show ?thesis by auto
  next
    case (s_command en cx gen clm ctx cmd)
    with command_commits [OF ok] show ?thesis by simp
  next
    case (s_manager en cx gen p claimed mcmd)
    with manager_commits [OF ok] show ?thesis by simp
  next
    case (s_launch g es)
    then show ?thesis by (auto simp: launch_dispatch_def)
  next
    case (s_complete did en g out)
    with complete_commits [OF ok] show ?thesis by simp
  qed
  show ?thesis
  proof (cases "visible sv' = visible sv")
    case True
    with s show ?thesis by (simp add: visible_def)
  next
    case False
    with stays s obtain en r t where r: "planned s r" "extends (Some s) r t"
        "visible sv' = visible (snd (persist en sv r))"
      unfolding commits_def by auto
    have ext: "live sv \<longrightarrow> cm_seq r = Suc (length (sv_log sv)) \<longrightarrow> (\<exists>t. extends (sv_state sv) r t)"
      using r(2) s by auto
    show ?thesis
      using ok ext
    proof (cases rule: persist_cases [where en = en])
      case (refused e)
      with r(3) False show ?thesis by simp
    next
      case (fenced e log)
      with r(3) l(2) show ?thesis by (simp add: visible_def live_def)
    next
      case (stored u)
      have "space_step s (r\<lparr>cm_at := Some (env_now en)\<rparr>) u"
        using stored(3) r(1) s by (auto simp: space_step_def planned_def extends_def)
      with stored(2) r(3) show ?thesis by (auto simp: visible_def)
    qed
  qed
qed

text \<open>No step ever shortens or rewrites the durable log.\<close>

lemma service_step_log:
  assumes "service_step cf sv sv'"
  shows "\<exists>rs. sv_log sv' = sv_log sv @ rs"
proof -
  have o': "sv_log (snd (open_space sv)) = sv_log sv" by (auto simp: open_space_def split: sum.split)
  from assms show ?thesis
  proof cases
    case (s_command en cx gen clm ctx cmd)
    then show ?thesis
      by (cases rule: command_txn_shape [of cf en cx gen clm ctx cmd sv])
        (auto simp: visible_def persist_log)
  next
    case (s_manager en cx gen p claimed mcmd)
    then show ?thesis
      by (cases rule: manager_txn_shape [of cf en cx gen p claimed mcmd sv])
        (auto simp: persist_log)
  next
    case (s_create en cx epoch listed inp)
    show ?thesis
      using create_txn_shape [of cf en cx epoch listed inp sv] unfolding s_create
      by (elim disjE exE conjE)
        (simp_all add: o' persist_log persist_log [where sv = "snd (open_space sv)", unfolded o'])
  next
    case (s_complete did en g out)
    then show ?thesis using persist_log
      by (auto simp: complete_txn_def Let_def split: option.split)
  qed (use o' in \<open>simp_all add: close_space_def launch_dispatch_def\<close>)
qed

end
