(* ===== verification/CollabHistory.thy ===== *)
theory CollabHistory
  imports CollabRefine
begin

text \<open>
  What no commit of the protocol undoes: members and the addresses they ever held stay, an item keeps
  its author and its kind, a request only moves forward, a revision never decreases, a delivery's
  recorded outcome is final, and a closed space takes no further commit. \<open>evolves\<close> collects the facts,
  and holds between any two live states of a run and, whatever closes, fails or opens the service, between the
  spaces that the log replays to.
\<close>

subsection \<open>Delivery ids\<close>

definition digits_value :: "nat list \<Rightarrow> nat" where
  "digits_value = foldl (\<lambda>a d. 10 * a + (d - 48)) 0"

lemma digits_value_decimal: "digits_value (decimal n) = n"
proof (induction n rule: decimal.induct)
  case (1 n)
  then show ?case by (subst decimal.simps) (simp add: digits_value_def)
qed

lemma decimal_digits: "d \<in> set (decimal n) \<Longrightarrow> 48 \<le> d \<and> d \<le> 57"
proof (induction n rule: decimal.induct)
  case (1 n)
  have "n mod 10 < 10" by simp
  then show ?case using 1 by (subst (asm) decimal.simps) (auto split: if_splits)
qed

lemma nat_text_inj: "nat_text a = nat_text b \<Longrightarrow> a = b"
proof -
  assume "nat_text a = nat_text b"
  then have "map of_char (nat_text a) = (map of_char (nat_text b) :: nat list)" by simp
  moreover have "map of_char (nat_text n) = decimal n" for n
    unfolding nat_text_def map_map o_def of_char_of
    by (rule map_idI) (use decimal_digits [of _ n] in force)
  ultimately show ?thesis by (metis digits_value_decimal)
qed

lemma nat_text_no_dash: "CHR ''-'' \<notin> set (nat_text n)"
proof
  assume "CHR ''-'' \<in> set (nat_text n)"
  then obtain d where d: "d \<in> set (decimal n)" "char_of d = CHR ''-''"
    by (auto simp: nat_text_def)
  then have "of_char (char_of d :: char) = (45 :: nat)" by simp
  with decimal_digits [OF d(1)] show False by (simp add: of_char_of)
qed

lemma split_at_dash:
  assumes "x \<notin> set as" and "x \<notin> set bs" and "as @ x # cs = bs @ x # ds"
  shows "as = bs \<and> cs = ds"
  using assms by (induction as arbitrary: bs) (auto simp: Cons_eq_append_conv append_eq_Cons_conv)

lemma delivery_id_inj: "delivery_id q k = delivery_id q' k' \<Longrightarrow> q = q' \<and> k = k'"
  using split_at_dash [OF nat_text_no_dash nat_text_no_dash] nat_text_inj
  unfolding delivery_id_def by (metis append_Cons append_Nil same_append_eq)

subsection \<open>Evolution\<close>

definition kind_le :: "item_kind \<Rightarrow> item_kind \<Rightarrow> bool" where
  "kind_le k l \<longleftrightarrow> l = k \<or>
     (\<exists>a c p. k = Request a c \<and> p \<in> set (dispose_moves c) \<and> l = Request a p)"

definition members_le :: "space_state \<Rightarrow> space_state \<Rightarrow> bool" where
  "members_le s t \<longleftrightarrow> (\<forall>n m. member_at s n = Some m \<longrightarrow>
     (\<exists>m'. member_at t n = Some m' \<and> set (occupied m) \<subseteq> set (occupied m')))"

definition items_le :: "space_state \<Rightarrow> space_state \<Rightarrow> bool" where
  "items_le s t \<longleftrightarrow> (\<forall>iid i. item_at s iid = Some i \<longrightarrow>
     (\<exists>j. item_at t iid = Some j \<and> i_author j = i_author i \<and> i_revision i \<le> i_revision j \<and>
        kind_le (i_kind i) (i_kind j)))"

definition settled_le :: "space_state \<Rightarrow> space_state \<Rightarrow> bool" where
  "settled_le s t \<longleftrightarrow> (\<forall>did d. map_of (s_deliveries s) did = Some d \<longrightarrow> d_outcome d \<noteq> None \<longrightarrow>
     map_of (s_deliveries t) did = Some d)"

definition evolves :: "space_state \<Rightarrow> space_state \<Rightarrow> bool" where
  "evolves s t \<longleftrightarrow> members_le s t \<and> items_le s t \<and> settled_le s t \<and> s_lastSeq s \<le> s_lastSeq t \<and>
     (s_status s = SpaceClosed \<longrightarrow> t = s)"

lemma dispose_moves_trans:
  "p \<in> set (dispose_moves c) \<Longrightarrow> q \<in> set (dispose_moves p) \<Longrightarrow> q \<in> set (dispose_moves c)"
  by (cases c; cases p) auto

lemma kind_le_refl [simp]: "kind_le k k"
  by (simp add: kind_le_def)

lemma kind_le_trans: "kind_le k l \<Longrightarrow> kind_le l m \<Longrightarrow> kind_le k m"
  by (auto simp: kind_le_def intro: dispose_moves_trans)

lemma evolves_refl [simp]: "evolves s s"
  by (simp add: evolves_def members_le_def items_le_def settled_le_def)

lemma members_leD:
  "members_le s t \<Longrightarrow> member_at s n = Some m \<Longrightarrow>
     \<exists>m'. member_at t n = Some m' \<and> set (occupied m) \<subseteq> set (occupied m')"
  by (simp add: members_le_def)

lemma items_leD:
  "items_le s t \<Longrightarrow> item_at s iid = Some i \<Longrightarrow>
     \<exists>j. item_at t iid = Some j \<and> i_author j = i_author i \<and> i_revision i \<le> i_revision j \<and>
        kind_le (i_kind i) (i_kind j)"
  by (simp add: items_le_def)

lemma settled_leD:
  "settled_le s t \<Longrightarrow> map_of (s_deliveries s) did = Some d \<Longrightarrow> d_outcome d \<noteq> None \<Longrightarrow>
     map_of (s_deliveries t) did = Some d"
  unfolding settled_le_def by blast

lemma members_le_trans:
  assumes "members_le s t" and "members_le t u"
  shows "members_le s u"
  unfolding members_le_def
proof (intro allI impI)
  fix n m assume "member_at s n = Some m"
  from members_leD [OF assms(1) this] obtain m' where m': "member_at t n = Some m'"
      "set (occupied m) \<subseteq> set (occupied m')" by blast
  from members_leD [OF assms(2) m'(1)] m'(2)
  show "\<exists>m'. member_at u n = Some m' \<and> set (occupied m) \<subseteq> set (occupied m')" by blast
qed

lemma items_le_trans:
  assumes "items_le s t" and "items_le t u"
  shows "items_le s u"
  unfolding items_le_def
proof (intro allI impI)
  fix iid i assume "item_at s iid = Some i"
  from items_leD [OF assms(1) this] obtain j where j: "item_at t iid = Some j"
      "i_author j = i_author i" "i_revision i \<le> i_revision j" "kind_le (i_kind i) (i_kind j)" by blast
  from items_leD [OF assms(2) j(1)] obtain k where "item_at u iid = Some k"
      "i_author k = i_author j" "i_revision j \<le> i_revision k" "kind_le (i_kind j) (i_kind k)" by blast
  with j show "\<exists>k. item_at u iid = Some k \<and> i_author k = i_author i \<and>
      i_revision i \<le> i_revision k \<and> kind_le (i_kind i) (i_kind k)"
    by (intro exI [of _ k]) (auto elim: kind_le_trans)
qed

lemma settled_le_trans:
  assumes "settled_le s t" and "settled_le t u"
  shows "settled_le s u"
  unfolding settled_le_def
proof (intro allI impI)
  fix did d assume d: "map_of (s_deliveries s) did = Some d" "d_outcome d \<noteq> None"
  show "map_of (s_deliveries u) did = Some d"
    using settled_leD [OF assms(2) settled_leD [OF assms(1) d] d(2)] .
qed

lemma evolves_trans: "evolves s t \<Longrightarrow> evolves t u \<Longrightarrow> evolves s u"
  unfolding evolves_def
  by (elim conjE, intro conjI)
    (erule (1) members_le_trans, erule (1) items_le_trans, erule (1) settled_le_trans, simp_all)

text \<open>The events that replace a whole member or item entry.\<close>

definition replaces_member :: "event_data \<Rightarrow> bool" where
  "replaces_member d = (case d of MemberInvited _ \<Rightarrow> True | MemberJoined _ \<Rightarrow> True | _ \<Rightarrow> False)"

definition touches_items :: "event_data \<Rightarrow> bool" where
  "touches_items d = (case d of ItemCreated _ \<Rightarrow> True | ItemRevised _ \<Rightarrow> True | ItemAcked _ \<Rightarrow> True
     | RequestProgressed _ _ \<Rightarrow> True | DecisionDecided _ \<Rightarrow> True | _ \<Rightarrow> False)"

lemma members_le_same: "s_members t = s_members s \<Longrightarrow> members_le s t"
  by (simp add: members_le_def)

lemma apply_data_members_le:
  assumes "apply_data r d s = Inr t" and "\<not> replaces_member d"
  shows "members_le s t"
  using assms
  by (cases d) (auto simp: replaces_member_def err_bind_ok update_member_ok put_item_def Let_def
      occupied_def rebind_def members_le_def
      split: option.splits if_splits)

lemma apply_data_items_same:
  assumes "apply_data r d s = Inr t" and "\<not> touches_items d"
  shows "s_items t = s_items s"
  using assms
  by (cases d) (auto simp: touches_items_def err_bind_ok update_member_ok put_item_def Let_def
      split: option.splits if_splits)

lemma fold_members_le:
  assumes "fold_data r es s = Inr t" and "\<forall>e \<in> set es. \<not> replaces_member (ev_data e)"
  shows "members_le s t"
  using assms unfolding fold_data_def
  by - (rule err_fold_invariant [where P = "members_le s"],
      auto intro: members_le_same members_le_trans apply_data_members_le)

lemma fold_items_same:
  assumes "fold_data r es s = Inr t" and "\<forall>e \<in> set es. \<not> touches_items (ev_data e)"
  shows "s_items t = s_items s"
  using assms unfolding fold_data_def
  by - (rule err_fold_invariant [where P = "\<lambda>u. s_items u = s_items s"],
      auto dest: apply_data_items_same)

lemma legal_members_le:
  assumes "legal s ds" and "fold_data r (business a ds) s = Inr u"
  shows "members_le s u"
proof (cases "\<exists>d \<in> set ds. replaces_member d")
  case False
  then show ?thesis using fold_members_le [OF assms(2)] by auto
next
  case True
  from assms(1) show ?thesis
  proof cases
    case (invite m)
    then show ?thesis using assms(2) by (auto simp: members_le_def dest: map_of_has)
  next
    case (join m)
    with assms(2) show ?thesis
      by (auto simp: members_le_def occupied_def)
  next
    case (admit m c)
    then show ?thesis using assms(2) by (auto simp: members_le_def dest: map_of_has)
  qed (use True in \<open>auto simp: replaces_member_def\<close>)
qed

lemma items_le_same: "s_items t = s_items s \<Longrightarrow> items_le s t"
  by (simp add: items_le_def)

lemma legal_items_le:
  assumes "wf_items s" and "legal s ds" and "fold_data r (business a ds) s = Inr u"
  shows "items_le s u"
proof (cases "\<exists>d \<in> set ds. touches_items d")
  case False
  then show ?thesis using fold_items_same [OF assms(3)] by (auto intro: items_le_same)
next
  case True
  from assms(2) show ?thesis
  proof cases
    case (create i)
    then show ?thesis using assms(3)
      by (auto simp: err_bind_ok put_item_def items_le_def dest: map_of_has)
  next
    case (revise i j)
    with assms(3) show ?thesis by (auto simp: put_item_def items_le_def)
  next
    case (acked i j n)
    with assms(3) show ?thesis by (auto simp: put_item_def items_le_def)
  next
    case (progress iid i b c p)
    with assms(3) show ?thesis
      by (auto simp: set_progress_def kind_le_def items_le_def)
  qed (use True in \<open>auto simp: touches_items_def\<close>)
qed

subsection \<open>One protocol step\<close>

lemma business_step:
  assumes wf: "wf_space s" and leg: "legal s ds" and ints: "intents_ok s ds is"
    and r: "cm_events r = business a ds @ is" and seq: "cm_seq r = Suc (s_lastSeq s)"
    and red: "reduce (Some s) r = Inr (Some t)"
  shows "members_le s t \<and> items_le s t \<and> settled_le s t"
proof -
  have nc: "list_all (\<lambda>e. \<not> creates e) (cm_events r)"
    using legal_not_creates [OF leg] intents_ok_not_creates [OF ints] by (simp add: r)
  from red obtain u v where u: "fold_data r (business a ds) s = Inr u" "fold_data r is u = Inr v"
      and t: "t = v\<lparr>s_lastSeq := cm_seq r\<rparr>"
    by (auto simp: reduce_Some [OF nc] r fold_data_append err_bind_ok)
  have int_members: "\<forall>e \<in> set is. \<exists>d. ev_data e = DispatchIntended d \<and> d_kind d = Wake \<and>
      d_outcome d = None \<and> (\<exists>k. d_id d = delivery_id (Suc (s_lastSeq s)) k)"
    using ints by (fastforce simp: intents_ok_def)
  have "members_le u v"
    using u(2) int_members by (intro fold_members_le) (auto simp: replaces_member_def)
  then have m: "members_le s t"
    using members_le_trans [OF legal_members_le [OF leg u(1)]] by (simp add: members_le_def t)
  have "s_items v = s_items u"
    using u(2) int_members by (intro fold_items_same) (auto simp: touches_items_def)
  then have i: "items_le s t"
    using legal_items_le [OF _ leg u(1)] wf by (simp add: items_le_def t wf_space_def)
  have du: "s_deliveries u = s_deliveries s" using leg u(1) by (rule legal_deliveries)
  have "map_of (s_deliveries v) did = Some d"
    if d: "map_of (s_deliveries s) did = Some d" for did d
  proof -
    obtain q k where q: "did = delivery_id q k" "q \<le> s_lastSeq s"
      using wf d unfolding wf_space_def wf_deliveries_def by metis
    have "map_of (s_deliveries w') did = Some d"
      if "e \<in> set is" "apply_data r (ev_data e) w = Inr w'" "map_of (s_deliveries w) did = Some d"
      for e w w'
    proof -
      from that(1) int_members obtain x j where x: "ev_data e = DispatchIntended x" "d_kind x = Wake"
          "d_id x = delivery_id (Suc (s_lastSeq s)) j" by blast
      then have "d_id x \<noteq> did" using q delivery_id_inj by fastforce
      then show ?thesis using that x by (auto simp: Let_def update_member_ok)
    qed
    then show ?thesis
      by - (rule err_fold_invariant [OF u(2) [unfolded fold_data_def],
          where P = "\<lambda>w. map_of (s_deliveries w) did = Some d"], simp add: du d)
  qed
  then have "settled_le s t" by (simp add: settled_le_def t)
  with m i show ?thesis by simp
qed

lemma completion_step:
  assumes d: "map_of (s_deliveries s) did = Some d" "d_outcome d = None"
    and r: "cm_events r = [\<lparr>ev_actor = act, ev_data = DispatchCompleted did out ref\<rparr>]"
    and red: "reduce (Some s) r = Inr (Some t)"
  shows "members_le s t \<and> items_le s t \<and> settled_le s t"
proof -
  have nc: "list_all (\<lambda>e. \<not> creates e) (cm_events r)" by (simp add: r creates_def)
  from red d have "s_members t = s_members s" "s_items t = s_items s"
      "\<exists>d'. s_deliveries t = AList.update did d' (s_deliveries s)"
    by (auto simp: reduce_Some [OF nc] r)
  with d show ?thesis
    by (auto simp: settled_le_def intro: members_le_same items_le_same)
qed

lemma space_step_evolves:
  assumes "wf_space s" and "space_step s r t"
  shows "evolves s t"
proof -
  from assms(2) have open_s: "s_status s = SpaceOpen" and seq: "cm_seq r = Suc (s_lastSeq s)"
    and red: "reduce (Some s) r = Inr (Some t)" and last: "s_lastSeq t = cm_seq r"
    by (simp_all add: space_step_def planned_def extends_def)
  have "members_le s t \<and> items_le s t \<and> settled_le s t"
    using assms(2) business_step [OF assms(1) _ _ _ seq red] completion_step [OF _ _ _ red]
    unfolding space_step_def planned_def by blast
  then show ?thesis by (simp add: evolves_def open_s seq last)
qed

subsection \<open>Runs\<close>

text \<open>A run of the service in which it stays live, as the clients of one opening see it.\<close>

definition live_step :: "config \<Rightarrow> service \<Rightarrow> service \<Rightarrow> bool" where
  "live_step cf sv sv' \<longleftrightarrow> service_step cf sv sv' \<and> live sv'"

definition live_run :: "config \<Rightarrow> service \<Rightarrow> service \<Rightarrow> bool" where
  "live_run cf = (live_step cf)\<^sup>*\<^sup>*"

text \<open>A live service whose space exists, and how its successors relate to it.\<close>

definition open_ok :: "service \<Rightarrow> bool" where
  "open_ok sv \<longleftrightarrow> service_ok sv \<and> live sv \<and> (\<exists>s. sv_state sv = Some s)"

definition later :: "service \<Rightarrow> service \<Rightarrow> bool" where
  "later sv sv' \<longleftrightarrow> (\<forall>s. sv_state sv = Some s \<longrightarrow> (\<exists>t. sv_state sv' = Some t \<and> evolves s t)) \<and>
     (\<exists>rs. sv_log sv' = sv_log sv @ rs)"

lemma live_step_later:
  assumes "open_ok sv" and "live_step cf sv sv'"
  shows "open_ok sv' \<and> later sv sv'"
proof -
  from assms obtain s where s: "service_ok sv" "live sv" "sv_state sv = Some s"
      "service_step cf sv sv'" "live sv'"
    by (auto simp: open_ok_def live_step_def)
  have wf: "wf_space s" using live_state [OF s(1-3)] by simp
  from service_step_refines [OF s(1,4,2,5,3)]
  obtain t where "sv_state sv' = Some t" "evolves s t"
    using space_step_evolves [OF wf] by auto
  moreover obtain rs where "sv_log sv' = sv_log sv @ rs" using service_step_log [OF s(4)] by blast
  ultimately show ?thesis
    using s service_step_ok [OF s(4,1)] by (simp add: open_ok_def later_def)
qed

interpretation history: monotone_system "live_step cf" open_ok later for cf
proof unfold_locales
  show "later sv sv'' " if "later sv sv'" "later sv' sv''" for sv sv' sv''
  proof -
    have "\<exists>u. sv_state sv'' = Some u \<and> evolves s u" if s: "sv_state sv = Some s" for s
      using s \<open>later sv sv'\<close> \<open>later sv' sv''\<close> evolves_trans unfolding later_def by metis
    moreover have "\<exists>rs. sv_log sv'' = sv_log sv @ rs"
      using that unfolding later_def by auto
    ultimately show ?thesis by (simp add: later_def)
  qed
qed (use live_step_later in \<open>auto simp: later_def\<close>)

lemma live_run_later:
  assumes "reachable cf sv" and "live sv" and "sv_state sv = Some s" and "live_run cf sv sv'"
  obtains t rs where "service_ok sv'" "live sv'" "sv_state sv' = Some t" "evolves s t"
    "sv_log sv' = sv_log sv @ rs"
proof -
  have "open_ok sv" using assms reachable_ok by (simp add: open_ok_def)
  with assms(4) have "open_ok sv' \<and> later sv sv'"
    unfolding live_run_def by (rule history.run_le)
  with assms(3) show thesis by (auto simp: open_ok_def later_def intro: that)
qed

lemma live_run_refl: "live_run cf sv sv"
  by (simp add: live_run_def)

lemma live_run_step: "live_run cf sv sv' \<Longrightarrow> service_step cf sv' sv'' \<Longrightarrow> live sv'' \<Longrightarrow> live_run cf sv sv''"
  unfolding live_run_def by (rule rtranclp.rtrancl_into_rtrancl) (simp_all add: live_step_def)

subsection \<open>The log across openings\<close>

text \<open>
  The space that the log replays to evolves at every step, whether or not the service stays live: an opening and a
  closing leave the log alone, and a transaction that fences the service has stored its whole commit or nothing.
\<close>

definition log_evolves :: "service \<Rightarrow> service \<Rightarrow> bool" where
  "log_evolves sv sv' \<longleftrightarrow>
     (\<forall>s. log_state (sv_log sv) (Some s) \<longrightarrow> (\<exists>t. log_state (sv_log sv') (Some t) \<and> evolves s t))"

lemma log_evolves_same: "sv_log sv' = sv_log sv \<Longrightarrow> log_evolves sv sv'"
  by (auto simp: log_evolves_def)

lemma log_evolves_new: "sv_log sv = [] \<Longrightarrow> log_evolves sv sv'"
  by (simp add: log_evolves_def log_state_def replay_def)

lemma log_evolves_trans: "log_evolves sv sv' \<Longrightarrow> log_evolves sv' sv'' \<Longrightarrow> log_evolves sv sv''"
  unfolding log_evolves_def using evolves_trans by meson

lemma persist_appends:
  "sv_log (snd (persist en sv r)) = sv_log sv \<or>
     (live sv \<and> store_append sv (r\<lparr>cm_at := Some (env_now en)\<rparr>) \<and>
      sv_log (snd (persist en sv r)) = sv_log sv @ [r\<lparr>cm_at := Some (env_now en)\<rparr>])"
  by (auto simp: persist_def live_def Let_def split: store_answer.split sum.split)

lemma appended_seq:
  assumes "service_ok sv" and "live sv" and "store_append sv r"
  shows "cm_seq r = Suc (length (sv_log sv))"
  using assms last_seq_log [of "sv_log sv"] by (auto simp: service_ok_def store_append_def log_state_def)

lemma persist_log_evolves:
  assumes ok: "service_ok sv" and s: "live sv" "sv_state sv = Some s" and r: "planned s r" "extends (Some s) r u"
  shows "log_evolves sv (snd (persist en sv r))"
proof -
  let ?r = "r\<lparr>cm_at := Some (env_now en)\<rparr>"
  have ls: "log_state (sv_log sv) (Some s)" using ok s by (simp add: service_ok_def)
  from persist_appends [of en sv r] show ?thesis
  proof (elim disjE conjE)
    assume app: "store_append sv ?r" and log: "sv_log (snd (persist en sv r)) = sv_log sv @ [?r]"
    have ext: "extends (Some s) ?r u" using r(2) by (simp add: extends_def)
    have "log_state (sv_log sv @ [?r]) (Some u)"
      by (rule log_state_snoc [OF ls ext appended_seq [OF ok s(1) app]])
    moreover have "evolves s u"
      by (rule space_step_evolves [of _ ?r]) (use ls r(1) ext in \<open>auto simp: log_state_def space_step_def planned_def\<close>)
    ultimately show ?thesis using ls unfolding log_evolves_def log by (auto simp: log_state_def)
  qed (rule log_evolves_same)
qed

lemma commits_log_evolves:
  assumes "service_ok sv" and "commits sv sv'"
  shows "log_evolves sv sv'"
  using assms(2) unfolding commits_def
proof (elim disjE exE conjE)
  fix en s r t
  assume "live sv" "sv_state sv = Some s" "planned s r" "extends (Some s) r t"
    and "visible sv' = visible (snd (persist en sv r))"
  then show ?thesis
    using persist_log_evolves [OF assms(1), of s r t en] by (simp add: visible_def log_evolves_def)
qed (simp add: visible_def log_evolves_same)

text \<open>A space is created as the first commit: on a log with commits the store refuses the record.\<close>

lemma persist_first:
  assumes ok: "service_ok sv" and "cm_seq r = 1"
  shows "log_evolves sv (snd (persist en sv r))"
  using persist_appends [of en sv r]
proof (elim disjE conjE)
  assume "live sv" "store_append sv (r\<lparr>cm_at := Some (env_now en)\<rparr>)"
  from appended_seq [OF ok this] assms(2) show ?thesis by (intro log_evolves_new) simp
qed (rule log_evolves_same)

lemma service_step_log_evolves:
  assumes st: "service_step cf sv sv'" and ok: "service_ok sv"
  shows "log_evolves sv sv'"
proof -
  have o': "sv_log (snd (open_space sv)) = sv_log sv" by (auto simp: open_space_def split: sum.split)
  from st show ?thesis
  proof cases
    case s_open
    with o' show ?thesis by (simp add: log_evolves_same)
  next
    case (s_create en cx epoch listed inp)
    have "log_evolves sv (snd (persist en v r))" if "v = sv \<or> v = snd (open_space sv)" "cm_seq r = 1" for v r
      using that persist_first [OF ok] persist_first [OF open_ok [OF ok]] o' by (auto simp: log_evolves_def)
    then show ?thesis
      using create_txn_shape [of cf en cx epoch listed inp sv] o' unfolding s_create by (auto intro: log_evolves_same)
  next
    case (s_command en cx gen clm ctx cmd)
    with commits_log_evolves [OF ok command_commits [OF ok]] show ?thesis by simp
  next
    case (s_manager en cx gen p claimed mcmd)
    with commits_log_evolves [OF ok manager_commits [OF ok]] show ?thesis by simp
  next
    case (s_complete did en g out)
    with commits_log_evolves [OF ok complete_commits [OF ok]] show ?thesis by simp
  qed (simp_all add: close_space_def launch_dispatch_def log_evolves_same)
qed

interpretation durable: monotone_system "service_step cf" service_ok log_evolves for cf
  by unfold_locales (use service_step_ok service_step_log_evolves log_evolves_trans in \<open>auto intro: log_evolves_same\<close>)

lemma run_log_evolves:
  assumes "reachable cf sv" and "live sv" and "sv_state sv = Some s" and "(service_step cf)\<^sup>*\<^sup>* sv sv'"
  obtains t where "replay (sv_log sv') = Inr (Some t)" "evolves s t" "live sv' \<Longrightarrow> sv_state sv' = Some t"
proof -
  have ok: "service_ok sv" by (rule reachable_ok [OF assms(1)])
  from durable.run_le [OF assms(4) ok] have ok': "service_ok sv'" and ev: "log_evolves sv sv'" by simp_all
  have "log_state (sv_log sv) (Some s)" using ok assms(2,3) by (simp add: service_ok_def)
  with ev obtain t where t: "log_state (sv_log sv') (Some t)" "evolves s t" by (auto simp: log_evolves_def)
  moreover have "sv_state sv' = Some t" if "live sv'" using ok' t(1) that by (simp add: service_ok_def log_state_def)
  ultimately show thesis using that by (simp add: log_state_def)
qed

end
