(* ===== verification/CollabScenario.thy ===== *)
theory CollabScenario
  imports CollabHistory "HOL-Library.Code_Target_Nat"
begin

text \<open>
  One concrete run of the service, the input of the witnesses: \<open>a\<close> creates a space, invites
  \<open>b\<close>, who joins, asks him for a piece of work in a request item, and allows the integrator \<open>r\<close>,
  which admits \<open>c\<close>; \<open>b\<close> accepts the request and finishes it.
\<close>

definition dsh_provider :: provider where
  "dsh_provider = \<lparr>pv_id = ''p'', pv_channel = ''d'', pv_managed = False\<rparr>"

definition room_provider :: provider where
  "room_provider = \<lparr>pv_id = ''r'', pv_channel = ''r'', pv_managed = True\<rparr>"

definition run_config :: config where
  "run_config = \<lparr>cf_serviceId = ''v'', cf_providers = [dsh_provider, room_provider],
     cf_convention = \<lparr>conv_version = ''v1'', conv_sha256 = ''0''\<rparr>,
     cf_digest = (\<lambda>p. case p of PCommand (SendMessage m) \<Rightarrow> mi_to m | PCommand (AckItem i n) \<Rightarrow> i
        | PCommand Leave \<Rightarrow> ''l'' | PCommand _ \<Rightarrow> ''c'' | PManagerCommand _ \<Rightarrow> ''m''
        | PCreate _ \<Rightarrow> ''n'')\<rparr>"

definition run_binding :: "string \<Rightarrow> string \<Rightarrow> binding" where
  "run_binding c a = \<lparr>b_channel = c, b_address = a, b_wake = True, b_confirm = False\<rparr>"

definition run_env :: env where
  "run_env = \<lparr>env_claim = (\<lambda>p a k. ClaimOk (run_binding (pv_channel p) a)),
     env_presence = (\<lambda>p m. Some Reachable), env_supports_mode = (\<lambda>p m. True),
     env_store = StoreOk, env_now = 7\<rparr>"

definition run_call :: "principal \<Rightarrow> string \<Rightarrow> call" where
  "run_call p cmdId = \<lparr>cx_branded = True, cx_principal = p, cx_spaceId = ''s'', cx_cmdId = Arg cmdId,
     cx_guard = GuardFn True, cx_authorOwned = (\<lambda>a. False)\<rparr>"

definition session :: "string \<Rightarrow> principal" where
  "session a = PAgent \<lparr>a_channel = ''d'', a_address = a\<rparr>"

text \<open>One command run to its end on \<open>sv\<close>: its checks and samples, its transaction, its launch.\<close>

definition run_command :: "string \<Rightarrow> string \<Rightarrow> command \<Rightarrow> service \<Rightarrow> service" where
  "run_command who cmdId cmd sv =
     (case command_pre run_config run_env (run_call (session who) cmdId) cmd sv of
        Inl e \<Rightarrow> sv
      | Inr (gen, clm, ctx) \<Rightarrow>
          snd (command_txn run_config run_env (run_call (session who) cmdId) gen clm ctx cmd sv))"

definition run_manager :: "string \<Rightarrow> manager_command \<Rightarrow> service \<Rightarrow> service" where
  "run_manager cmdId cmd sv =
     (case manager_pre run_config run_env (run_call (PManager ''r'') cmdId) cmd sv of
        Inl e \<Rightarrow> sv
      | Inr (gen, p, claimed) \<Rightarrow>
          snd (manager_txn run_config run_env (run_call (PManager ''r'') cmdId) gen p claimed cmd sv))"

definition run_launch :: "service \<Rightarrow> service" where
  "run_launch sv = (case sv_launching sv of [] \<Rightarrow> sv
     | e # rest \<Rightarrow> launch_dispatch (fst e) (snd e) (sv\<lparr>sv_launching := remove1 e (sv_launching sv)\<rparr>))"

definition run_complete :: "string \<Rightarrow> service \<Rightarrow> service" where
  "run_complete did sv = (if did \<in> set (sv_inFlight sv)
     then complete_txn run_env 0 did Succeeded sv else sv)"

definition request_input :: create_item_input where
  "request_input = \<lparr>ci_itemId = Arg ''w'', ci_title = Arg (js ''t''), ci_body = Arg (js ''u''),
     ci_requiredAcks = Arg [''b''], ci_ref = None, ci_ext = None, ci_kind = KRequest ''b'',
     ci_has_deciders = False\<rparr>"

definition note_to :: "string \<Rightarrow> message_input" where
  "note_to who = \<lparr>mi_to = who, mi_body = Arg (js ''h''), mi_needsReply = Some (Arg True), mi_notify = None,
     mi_ref = None, mi_ext = None, mi_mode = None\<rparr>"

definition run_create :: "service" where
  "run_create = snd (create_txn run_config run_env (run_call (session ''A'') ''1'') 0 False
     \<lparr>cs_name = ''a'', cs_address = ''A'', cs_kind = Agent, cs_purpose = None\<rparr> initial_service)"

definition run_members :: "service" where
  "run_members = run_command ''B'' ''3'' Join
     (run_command ''A'' ''2'' (Invite (Arg ''b'') ''B'' Agent) run_create)"

definition run_request :: "service" where
  "run_request = run_command ''A'' ''4'' (CreateItem request_input) run_members"

definition run_accepted :: "service" where
  "run_accepted = run_command ''B'' ''5'' (AdvanceRequest ''w'' Accepted) run_request"

definition run_done :: "service" where
  "run_done = run_command ''B'' ''6'' (AdvanceRequest ''w'' Done) run_accepted"

definition run_managed :: "service" where
  "run_managed = run_manager ''m'' (AdmitMember (Arg ''c'') (Arg ''C''))
     (run_command ''A'' ''7'' (AllowManager (Arg ''r'')) run_done)"

definition run_message :: "service" where
  "run_message = run_command ''A'' ''8'' (SendMessage (note_to ''b'')) run_managed"

definition run_settled :: "service" where
  "run_settled = run_complete ''delivery-2-1'' (run_launch run_message)"

text \<open>Every state of the run is reachable, and each is one live step after the one before.\<close>

lemma run_command_reachable: "reachable run_config sv \<Longrightarrow> reachable run_config (run_command who cmdId cmd sv)"
  unfolding run_command_def
  by (auto split: sum.split prod.split intro: reachable_step service_step.intros)

lemma run_manager_reachable: "reachable run_config sv \<Longrightarrow> reachable run_config (run_manager cmdId cmd sv)"
  unfolding run_manager_def
  by (auto split: sum.split prod.split intro: reachable_step service_step.intros)

lemma run_launch_reachable:
  assumes "reachable run_config sv"
  shows "reachable run_config (run_launch sv)"
proof (cases "sv_launching sv")
  case (Cons e rest)
  then have "(fst e, snd e) \<in> set (sv_launching sv)" by simp
  from reachable_step [OF assms service_step.s_launch [OF this]] show ?thesis
    by (simp add: run_launch_def Cons)
qed (use assms in \<open>simp add: run_launch_def\<close>)

lemma run_complete_reachable: "reachable run_config sv \<Longrightarrow> reachable run_config (run_complete did sv)"
  unfolding run_complete_def by (auto intro: reachable_step service_step.s_complete)

lemma run_create_reachable: "reachable run_config run_create"
  unfolding run_create_def by (rule reachable_step [OF reachable_init service_step.s_create])

lemmas run_reachable = run_create_reachable run_command_reachable run_manager_reachable
  run_launch_reachable run_complete_reachable

lemma run_command_live:
  "live_run run_config sv sv' \<Longrightarrow> live (run_command who cmdId cmd sv') \<Longrightarrow>
     live_run run_config sv (run_command who cmdId cmd sv')"
  unfolding run_command_def
  by (auto split: sum.split prod.split intro: live_run_step service_step.s_command)

end
