(* ===== verification/CollabTheorems.thy ===== *)
theory CollabTheorems
  imports CollabScenario
begin

text \<open>
  The properties of the collaboration kernel, over the model's own definitions, each with a concrete
  run at which it applies.
\<close>

subsection \<open>The log and the state\<close>

lemma reachable_live:
  assumes "reachable cf sv" and "live sv" and "sv_state sv = Some s"
  shows "wf_space s" and "s_lastSeq s = length (sv_log sv)" and "sv_records sv = sv_log sv"
  using reachable_ok [OF assms(1)] assms live_state by (auto simp: service_ok_def)

lemmas run_states = run_create_def [symmetric] run_members_def run_request_def run_accepted_def
  run_done_def run_managed_def run_message_def run_settled_def

lemma run_reached:
  "reachable run_config run_members" "reachable run_config run_request"
  "reachable run_config run_done" "reachable run_config run_managed"
  "reachable run_config run_message" "reachable run_config run_settled"
  unfolding run_members_def run_request_def run_accepted_def run_done_def run_managed_def
    run_message_def run_settled_def
  by (intro run_reachable)+

text \<open>
  C1: in every state the service can reach, whatever the interleaving of its operations, the answers
  of providers and the failures of the store, the durable log is numbered 1, 2, 3, \<dots> and replays
  without an error, and an open, unfenced service holds in memory exactly that log and that replay.
\<close>

theorem log_is_the_space:
  assumes "reachable cf sv"
  shows "\<exists>st. replay (sv_log sv) = Inr st \<and> map cm_seq (sv_log sv) = [1..<Suc (length (sv_log sv))] \<and>
     (sv_opened sv \<and> \<not> sv_failed sv \<longrightarrow> sv_state sv = st \<and> sv_records sv = sv_log sv)"
  using reachable_ok [OF assms]
  by (fastforce simp: service_ok_def log_state_def live_def)

theorem log_is_the_space_witness:
  "replay (sv_log run_settled) \<noteq> Inr None \<and> length (sv_log run_settled) = 10 \<and>
   map cm_seq (sv_log run_settled) = [1..<11] \<and> replay (sv_log run_settled) = Inr (sv_state run_settled)"
proof -
  have "length (sv_log run_settled) = 10 \<and> sv_opened run_settled \<and> \<not> sv_failed run_settled \<and>
      sv_state run_settled \<noteq> None"
    by code_simp
  with log_is_the_space [OF run_reached(6)] show ?thesis by auto
qed

text \<open>
  C2: the service implements the protocol. Between two live states, one step of the service is either
  invisible or appends one commit that the protocol allows, and folds it into the state.
\<close>

theorem service_refines_protocol:
  assumes "reachable cf sv" and "service_step cf sv sv'"
    and "live sv" and "live sv'" and "sv_state sv = Some s"
  shows "(sv_state sv' = Some s \<and> sv_log sv' = sv_log sv) \<or>
     (\<exists>r t. space_step s r t \<and> sv_state sv' = Some t \<and> sv_log sv' = sv_log sv @ [r])"
  using service_step_refines [OF reachable_ok [OF assms(1)]] assms by blast

lemma run_request_step: "service_step run_config run_members run_request"
proof -
  have "run_request = snd (command_txn run_config run_env (run_call (session ''A'') ''4'') (Some 0)
      (Inl ADDRESS_UNCLAIMED) (samplePresence run_config run_env
        (vals (s_members (the (sv_state run_members))))) (CreateItem request_input) run_members)"
    by code_simp
  then show ?thesis by (metis service_step.s_command)
qed

theorem service_refines_protocol_witness:
  "\<exists>r t. space_step (the (sv_state run_members)) r t \<and> sv_state run_request = Some t \<and>
     sv_log run_request = sv_log run_members @ [r]"
proof -
  have c: "live run_members" "live run_request" "sv_state run_members = Some (the (sv_state run_members))"
      "sv_log run_request \<noteq> sv_log run_members"
    by code_simp+
  from service_refines_protocol [OF run_reached(1) run_request_step c(1-3)] c(4) show ?thesis by blast
qed

subsection \<open>What every reachable space satisfies\<close>

text \<open>
  C3: an open space always has a leader who is an active member and belongs to no integrator.
\<close>

theorem leader_is_active_and_unmanaged:
  assumes "reachable cf sv" and "sv_opened sv" and "\<not> sv_failed sv" and "sv_state sv = Some s"
    and "s_status s = SpaceOpen"
  shows "\<exists>m. map_of (s_members s) (s_leader s) = Some m \<and> m_name m = s_leader s \<and>
     m_status m = Active \<and> m_managedBy m = None"
proof -
  have wf: "wf_space s" using reachable_live(1) [OF assms(1)] assms by (simp add: live_def)
  then obtain m where m: "member_at s (s_leader s) = Some m" "m_status m = Active" "m_managedBy m = None"
    using assms(5) by (auto simp: wf_space_def wf_leader_def leads_def)
  moreover have "m_name m = s_leader s" using wf wf_membersD [OF _ m(1)] by (simp add: wf_space_def)
  ultimately show ?thesis by blast
qed

theorem leader_is_active_and_unmanaged_witness:
  "\<exists>m. map_of (s_members (the (sv_state run_managed))) ''a'' = Some m \<and> m_name m = ''a'' \<and>
     m_status m = Active \<and> m_managedBy m = None"
proof -
  have c: "sv_opened run_managed" "\<not> sv_failed run_managed"
      "sv_state run_managed = Some (the (sv_state run_managed))"
      "s_status (the (sv_state run_managed)) = SpaceOpen" "s_leader (the (sv_state run_managed)) = ''a''"
    by code_simp+
  from leader_is_active_and_unmanaged [OF run_reached(4) c(1-4)] show ?thesis by (simp only: c(5))
qed

text \<open>
  C4: no address is ever held twice. Every address a member holds is its current one or one that a rebind retired;
  all of these differ within a member, and two members share none of them, current or retired, so a caller's address
  resolves to one member, then and later.
\<close>

theorem no_address_is_shared:
  assumes "reachable cf sv" and "sv_opened sv" and "\<not> sv_failed sv" and "sv_state sv = Some s"
    and "map_of (s_members s) n = Some m" and "map_of (s_members s) n' = Some m'"
    and "a \<in> set (address_of (m_binding m) # m_previousBindings m)"
    and "a \<in> set (address_of (m_binding m') # m_previousBindings m')"
  shows "n = n' \<and> m = m' \<and> distinct (address_of (m_binding m) # m_previousBindings m)"
proof -
  have wf: "wf_addresses s"
    using reachable_live(1) [OF assms(1)] assms(2-4) by (simp add: live_def wf_space_def)
  have dist: "distinct (occupied m)" using wf assms(5) unfolding wf_addresses_def by blast
  have "n = n'"
  proof (rule ccontr)
    assume "n \<noteq> n'"
    then have "set (occupied m) \<inter> set (occupied m') = {}"
      using wf assms(5,6) unfolding wf_addresses_def by blast
    with assms(7,8) show False by (auto simp: occupied_def)
  qed
  with assms(5,6) dist show ?thesis by (simp add: occupied_def)
qed

theorem no_address_is_shared_witness:
  "\<exists>m. map_of (s_members (the (sv_state run_managed))) ''c'' = Some m \<and>
     distinct (address_of (m_binding m) # m_previousBindings m)"
proof -
  let ?s = "the (sv_state run_managed)"
  have c: "sv_opened run_managed" "\<not> sv_failed run_managed" "sv_state run_managed = Some ?s"
      "map_of (s_members ?s) ''c'' \<noteq> None"
    by code_simp+
  then obtain m where m: "map_of (s_members ?s) ''c'' = Some m" by blast
  have "address_of (m_binding m) \<in> set (address_of (m_binding m) # m_previousBindings m)" by simp
  from no_address_is_shared [OF run_reached(4) c(1-3) m m this this] m show ?thesis by blast
qed

text \<open>
  An active member that an integrator manages is there only while the space grants that
  integrator's channel.
\<close>

theorem managed_members_are_granted:
  assumes "reachable cf sv" and "sv_opened sv" and "\<not> sv_failed sv" and "sv_state sv = Some s"
    and "map_of (s_members s) n = Some m" and "m_status m = Active" and "m_managedBy m = Some c"
  shows "c \<in> set (s_managers s)"
proof -
  have "wf_managed s"
    using reachable_live(1) [OF assms(1)] assms(2-4) by (simp add: live_def wf_space_def)
  with assms(5-7) show ?thesis unfolding wf_managed_def by blast
qed

theorem managed_members_are_granted_witness: "''r'' \<in> set (s_managers (the (sv_state run_managed)))"
proof -
  let ?s = "the (sv_state run_managed)" and ?m = "the (map_of (s_members (the (sv_state run_managed))) ''c'')"
  have c: "sv_opened run_managed" "\<not> sv_failed run_managed" "sv_state run_managed = Some ?s"
      "map_of (s_members ?s) ''c'' = Some ?m" "m_status ?m = Active" "m_managedBy ?m = Some ''r''"
    by code_simp+
  show ?thesis by (rule managed_members_are_granted [OF run_reached(4) c])
qed

text \<open>
  No topic ever wakes anyone more than twenty times, although a topic is only found out by
  folding the commit: the check before the commit is enough.
\<close>

theorem topic_wakes_bounded:
  assumes "reachable cf sv" and "sv_opened sv" and "\<not> sv_failed sv" and "sv_state sv = Some s"
    and "map_of (s_topicWakes s) root = Some c"
  shows "c \<le> TOPIC_LIMIT"
proof -
  have "wf_wakes s"
    using reachable_live(1) [OF assms(1)] assms(2-4) by (simp add: live_def wf_space_def)
  with assms(5) show ?thesis unfolding wf_wakes_def by blast
qed

theorem topic_wakes_bounded_witness:
  "the (map_of (s_topicWakes (the (sv_state run_message))) 9) \<le> TOPIC_LIMIT"
proof -
  let ?s = "the (sv_state run_message)"
  have c: "sv_opened run_message" "\<not> sv_failed run_message" "sv_state run_message = Some ?s"
      "map_of (s_topicWakes ?s) 9 = Some (the (map_of (s_topicWakes ?s) 9))"
    by code_simp+
  show ?thesis by (rule topic_wakes_bounded [OF run_reached(5) c])
qed

text \<open>
  C5: an item counts as agreed exactly when it names required acknowledgements and every one of them
  was given at the current revision: a revision takes the agreement back.
\<close>

theorem agreed_iff_all_acked:
  assumes "reachable cf sv" and "sv_opened sv" and "\<not> sv_failed sv" and "sv_state sv = Some s"
    and "map_of (s_items s) iid = Some i"
  shows "(i_status i = Agreed) = (i_requiredAcks i \<noteq> [] \<and>
     (\<forall>n \<in> set (i_requiredAcks i). map_of (i_acks i) n = Some (i_revision i)))"
proof -
  have "wf_items s"
    using reachable_live(1) [OF assms(1)] assms(2-4) by (simp add: live_def wf_space_def)
  with assms(5) have "item_ok s i" using wf_itemsD by blast
  then have "i_status i = (if fully_acked i then Agreed else Draft)" by (simp add: item_ok_def)
  then show ?thesis by (simp add: fully_acked_def list_all_iff split: if_splits)
qed

definition run_agreed :: service where
  "run_agreed = run_command ''B'' ''9'' (AckItem ''w'' 1) run_request"

theorem agreed_iff_all_acked_witness:
  "i_status (the (map_of (s_items (the (sv_state run_agreed))) ''w'')) = Agreed"
proof -
  let ?s = "the (sv_state run_agreed)" and ?i = "the (map_of (s_items (the (sv_state run_agreed))) ''w'')"
  have r: "reachable run_config run_agreed" unfolding run_agreed_def by (intro run_reachable run_reached)
  have c: "sv_opened run_agreed" "\<not> sv_failed run_agreed" "sv_state run_agreed = Some ?s"
      "map_of (s_items ?s) ''w'' = Some ?i"
      "i_requiredAcks ?i \<noteq> [] \<and> (\<forall>n \<in> set (i_requiredAcks ?i). map_of (i_acks ?i) n = Some (i_revision ?i))"
    by code_simp+
  from agreed_iff_all_acked [OF r c(1-4)] c(5) show ?thesis by blast
qed

subsection \<open>What no run undoes\<close>

lemma run_kinds [simp]:
  "live run_members" "live run_request" "live run_accepted" "live run_done" "live run_managed"
  "live run_message" "live run_settled"
  by code_simp+

lemma run_request_live: "live_run run_config run_request run_done"
  unfolding run_done_def run_accepted_def
  by (intro run_command_live live_run_refl) (simp_all add: run_done_def [symmetric] run_accepted_def [symmetric])

text \<open>
  A request only moves forward. Whatever happens after it is filed, the item keeps its author and
  its assignee, its revision never decreases, and its progress is the one it had or one that the table
  of moves reaches from it; so \<open>done\<close> and \<open>rejected\<close> are final.
\<close>

theorem requests_only_move_forward:
  assumes "reachable cf sv" and "live sv" and "sv_state sv = Some s"
    and "map_of (s_items s) iid = Some i" and "i_kind i = Request a c" and "live_run cf sv sv'"
  shows "\<exists>t j p. sv_state sv' = Some t \<and> map_of (s_items t) iid = Some j \<and>
     i_author j = i_author i \<and> i_revision i \<le> i_revision j \<and>
     i_kind j = Request a p \<and> (p = c \<or> p \<in> set (dispose_moves c)) \<and>
     (c \<in> {Done, Rejected} \<longrightarrow> p = c)"
proof -
  from live_run_later [OF assms(1-3,6)] obtain t where t: "sv_state sv' = Some t" "evolves s t" by metis
  then obtain j where j: "item_at t iid = Some j" "i_author j = i_author i" "i_revision i \<le> i_revision j"
      "kind_le (i_kind i) (i_kind j)"
    using items_leD [of s t iid i] assms(4) by (auto simp: evolves_def)
  from j(4) assms(5) obtain p where "i_kind j = Request a p" "p = c \<or> p \<in> set (dispose_moves c)"
    by (auto simp: kind_le_def)
  moreover from this(2) have "c \<in> {Done, Rejected} \<longrightarrow> p = c" by auto
  ultimately show ?thesis using t(1) j(1-3) by blast
qed

theorem requests_only_move_forward_witness:
  "\<exists>j p. map_of (s_items (the (sv_state run_done))) ''w'' = Some j \<and> i_kind j = Request ''b'' p \<and>
     p \<in> {Open, Accepted, Done, Rejected}"
proof -
  let ?s = "the (sv_state run_request)" and ?i = "the (map_of (s_items (the (sv_state run_request))) ''w'')"
  have c: "live run_request" "sv_state run_request = Some ?s" "map_of (s_items ?s) ''w'' = Some ?i"
      "i_kind ?i = Request ''b'' Open"
    by code_simp+
  from requests_only_move_forward [OF run_reached(2) c run_request_live] show ?thesis by auto
qed

text \<open>
  C6: a delivery's outcome is recorded at most once. Once it is, no later step of the service changes the delivery,
  whatever closes, fails or opens the service in between: the log always replays to a space with exactly this
  delivery, and that space is the state of the service whenever it is live. So a redelivered completion cannot
  overwrite it.
\<close>

theorem delivery_outcome_is_final:
  assumes "reachable cf sv" and "live sv" and "sv_state sv = Some s"
    and "map_of (s_deliveries s) did = Some d" and "d_outcome d = Some out" and "(service_step cf)\<^sup>*\<^sup>* sv sv'"
  shows "\<exists>t. replay (sv_log sv') = Inr (Some t) \<and> map_of (s_deliveries t) did = Some d \<and>
     (live sv' \<longrightarrow> sv_state sv' = Some t)"
proof -
  from run_log_evolves [OF assms(1-3,6)] obtain t where t: "replay (sv_log sv') = Inr (Some t)" "evolves s t"
      "live sv' \<Longrightarrow> sv_state sv' = Some t" by metis
  then have "settled_le s t" by (simp add: evolves_def)
  from settled_leD [OF this assms(4)] assms(5) t show ?thesis by auto
qed

definition run_reopened :: service where
  "run_reopened = snd (open_space (close_space run_settled))"

theorem delivery_outcome_is_final_witness:
  "\<exists>d. map_of (s_deliveries (the (sv_state run_reopened))) ''delivery-2-1'' = Some d \<and>
     d_outcome d = Some Succeeded"
proof -
  let ?s = "the (sv_state run_settled)"
  let ?d = "the (map_of (s_deliveries ?s) ''delivery-2-1'')"
  have c: "sv_state run_settled = Some ?s" "map_of (s_deliveries ?s) ''delivery-2-1'' = Some ?d"
      "d_outcome ?d = Some Succeeded" "live run_reopened"
    by code_simp+
  have "(service_step run_config)\<^sup>*\<^sup>* run_settled run_reopened"
    unfolding run_reopened_def
    by (rule rtranclp.rtrancl_into_rtrancl [OF r_into_rtranclp]) (rule service_step.s_close service_step.s_open)+
  from delivery_outcome_is_final [OF run_reached(6) run_kinds(7) c(1-3) this] c(3,4) show ?thesis by auto
qed

text \<open>
  C7: a closed space is frozen: as long as the service stays live nothing is written to its log and
  its state stays the one it closed in.
\<close>

theorem closed_space_is_frozen:
  assumes "reachable cf sv" and "live sv" and "sv_state sv = Some s" and "s_status s = SpaceClosed"
    and "live_run cf sv sv'"
  shows "sv_state sv' = Some s \<and> sv_log sv' = sv_log sv"
proof -
  from live_run_later [OF assms(1-3,5)] obtain t rs where t: "service_ok sv'" "live sv'"
      "sv_state sv' = Some t" "evolves s t" "sv_log sv' = sv_log sv @ rs" by metis
  from t(4) assms(4) have "t = s" by (simp add: evolves_def)
  moreover have "length (sv_log sv') = length (sv_log sv)"
    using live_state [OF t(1-3)] reachable_live(2) [OF assms(1-3)] \<open>t = s\<close> by simp
  ultimately show ?thesis using t(3,5) by simp
qed

definition run_closed :: service where
  "run_closed = run_command ''A'' ''11'' CloseSpace run_members"

theorem closed_space_is_frozen_witness:
  "sv_log (run_command ''A'' ''12'' (SendMessage (note_to ''b'')) run_closed) = sv_log run_closed \<and>
   length (sv_log run_closed) = 4"
proof -
  let ?s = "the (sv_state run_closed)"
  let ?n = "run_command ''A'' ''12'' (SendMessage (note_to ''b'')) run_closed"
  have r: "reachable run_config run_closed" unfolding run_closed_def by (intro run_reachable run_reached)
  have c: "live run_closed" "sv_state run_closed = Some ?s" "s_status ?s = SpaceClosed" "live ?n"
      "length (sv_log run_closed) = 4"
    by code_simp+
  have "live_run run_config run_closed ?n" by (intro run_command_live live_run_refl c(4))
  from closed_space_is_frozen [OF r c(1-3) this] c(5) show ?thesis by blast
qed

subsection \<open>Commands\<close>

lemma find_append:
  "List.find P (xs @ ys) = (case List.find P xs of None \<Rightarrow> List.find P ys | Some x \<Rightarrow> Some x)"
  by (induction xs) simp_all

lemma find_receipt_mono:
  "find_receipt sv cmdId scope = Some rc \<Longrightarrow> sv_records sv' = sv_records sv @ rs \<Longrightarrow>
     find_receipt sv' cmdId scope = Some rc"
  by (auto simp: find_receipt_def map_filter_append find_append split: option.split)

lemma find_receipt_new:
  assumes "find_receipt sv cmdId scope = None" and "sv_records sv' = sv_records sv @ [r]"
    and "cm_receipt r = Some rc" and "rc_cmdId rc = cmdId" and "rc_scope rc = scope"
  shows "find_receipt sv' cmdId scope = Some rc"
  using assms by (simp add: find_receipt_def map_filter_append List.map_filter_def find_append)

lemma command_leaves_receipt:
  assumes ok: "service_ok sv" and run: "command_txn cf en cx gen clm ctx cmd sv = (Inr res, sv')"
    and st: "sv_state sv = Some s" and me: "lookup s (cx_principal cx) = Inr m" "cx_cmdId cx = Arg cmdId"
  shows "\<exists>rc. find_receipt sv' cmdId (ScopeMember (m_name m)) = Some rc \<and>
     rc_payloadHash rc = cf_digest cf (PCommand cmd) \<and> rc_result rc = res"
proof -
  from run have gen: "gen = sv_generation sv" by (cases "gen = sv_generation sv") (simp_all add: command_txn_def)
  from run st have cur: "current_state sv = Inr s" and id: "cmdId \<noteq> []"
    using me by (auto simp: command_txn_def current_state_def split: if_splits)
  show ?thesis
  proof (cases "find_receipt sv cmdId (ScopeMember (m_name m))")
    case (Some rc)
    then show ?thesis using run gen cur id me
      by (auto simp: command_txn_def replayed_def err_bind_ok split: if_splits)
  next
    case None
    with run gen cur id me obtain r where plan: "plan_command cf en cx cmdId clm ctx cmd s m = Inr (r, res)"
      and com: "fst (committed en sv r res) = Inr res" "sv_records sv' = sv_records (snd (committed en sv r res))"
      by (auto simp: command_txn_def committed_def split: sum.splits prod.splits option.splits)
    from com(1) have "fst (persist en sv r) = Inr ()"
      by (auto simp: committed_def split: prod.splits sum.splits)
    then have rec: "sv_records sv' = sv_records sv @ [r\<lparr>cm_at := Some (env_now en)\<rparr>]"
      unfolding com(2) committed_snd
      by (auto simp: persist_def Let_def split: if_splits store_answer.splits sum.splits)
    from plan have "cm_receipt r = Some \<lparr>rc_cmdId = cmdId, rc_scope = ScopeMember (m_name m),
        rc_payloadHash = cf_digest cf (PCommand cmd), rc_result = res\<rparr>"
      by (auto simp: plan_command_def err_bind_ok Let_def command_record_def split: if_splits)
    with find_receipt_new [OF None rec] show ?thesis by simp
  qed
qed

lemma command_txn_live:
  assumes "command_txn cf en cx gen clm ctx cmd sv = (Inr res, sv')" and "live sv" and "sv_state sv = Some s"
  shows "live sv' \<and> (\<exists>t. sv_state sv' = Some t)"
proof -
  have p: "live sv2 \<and> (\<exists>t. sv_state sv2 = Some t)"
    if "persist en sv r = (Inr u, sv2)" for r u sv2
    using that assms(2,3)
    by (auto simp: persist_def Let_def live_def split: if_splits store_answer.splits sum.splits option.splits)
  show ?thesis
    using assms p
    by (auto simp: command_txn_def replayed_def committed_def live_def err_bind_ok
        split: if_splits sum.splits arg.splits option.splits prod.splits)
qed

text \<open>
  C8: commands are idempotent. Once a command has answered, sending it again with the same id and the
  same content, at any later point and however the space changed in between, answers the stored result
  and writes nothing; the same id with another content is refused as a conflict. Both answers still
  depend on the caller's guard.
\<close>

theorem commands_are_idempotent:
  assumes "reachable cf sv"
    and "command_txn cf en cx gen clm ctx cmd sv = (Inr res, sv1)" and "live_run cf sv1 sv2"
    and "sv_state sv = Some s" and "lookup s (cx_principal cx) = Inr m"
    and "sv_state sv2 = Some s2" and "lookup s2 (cx_principal cx2) = Inr m2" and "m_name m2 = m_name m"
    and "cx_cmdId cx2 = cx_cmdId cx"
  shows "command_txn cf en2 cx2 (sv_generation sv2) clm2 ctx2 cmd2 sv2 =
     (if cf_digest cf (PCommand cmd2) = cf_digest cf (PCommand cmd)
      then (err_bind (check_guard cx2) (\<lambda>_. Inr res), sv2) else (Inl CMD_CONFLICT, sv2))"
proof -
  from assms(2,4) obtain cmdId where id: "cx_cmdId cx = Arg cmdId" "cmdId \<noteq> []" and l: "live sv"
    by (auto simp: command_txn_def current_state_def live_def split: if_splits arg.splits)
  from command_leaves_receipt [OF reachable_ok [OF assms(1)] assms(2,4,5) id(1)] obtain rc
    where rc: "find_receipt sv1 cmdId (ScopeMember (m_name m)) = Some rc"
      "rc_payloadHash rc = cf_digest cf (PCommand cmd)" "rc_result rc = res" by blast
  have step1: "service_step cf sv sv1" using assms(2) by (metis service_step.s_command snd_conv)
  then have reach1: "reachable cf sv1" using assms(1) by (rule reachable_step [rotated])
  have live1: "live sv1" and state1: "\<exists>s1. sv_state sv1 = Some s1"
    using command_txn_live [OF assms(2) l assms(4)] by blast+
  from live_run_later [OF reach1 live1 _ assms(3)] state1 obtain rs where
    2: "service_ok sv2" "live sv2" "sv_log sv2 = sv_log sv1 @ rs" by metis
  have "sv_records sv2 = sv_records sv1 @ rs"
    using 2 reachable_ok [OF reach1] live1 by (simp add: service_ok_def)
  with rc(1) have "find_receipt sv2 cmdId (ScopeMember (m_name m2)) = Some rc"
    using find_receipt_mono assms(8) by metis
  moreover have "current_state sv2 = Inr s2" using 2(2) assms(6) by (simp add: current_state_live)
  ultimately show ?thesis
    using id rc(2,3) assms(7,9) by (auto simp: command_txn_def replayed_def)
qed

theorem commands_are_idempotent_witness:
  "command_txn run_config run_env (run_call (session ''A'') ''4'') (sv_generation run_done)
      (Inl ADDRESS_UNCLAIMED) (samplePresence run_config run_env []) (CreateItem request_input) run_done
    = (Inr (the (map_option rc_result (find_receipt run_request ''4'' (ScopeMember ''a'')))), run_done)"
proof -
  let ?cx = "run_call (session ''A'') ''4''"
  let ?clm = "Inl ADDRESS_UNCLAIMED :: collab_error + binding"
  let ?ctx = "samplePresence run_config run_env (vals (s_members (the (sv_state run_members))))"
  let ?res = "the (map_option rc_result (find_receipt run_request ''4'' (ScopeMember ''a'')))"
  let ?s = "the (sv_state run_members)" and ?t = "the (sv_state run_done)"
  let ?m = "the (map_of (s_members ?s) ''a'')" and ?n = "the (map_of (s_members ?t) ''a'')"
  have c: "command_txn run_config run_env ?cx (Some 0) ?clm ?ctx (CreateItem request_input) run_members
      = (Inr ?res, run_request)" "sv_state run_members = Some ?s" "lookup ?s (cx_principal ?cx) = Inr ?m"
    "sv_state run_done = Some ?t" "lookup ?t (cx_principal ?cx) = Inr ?n" "m_name ?n = m_name ?m"
    "check_guard ?cx = Inr ()"
    by code_simp+
  show ?thesis
    using commands_are_idempotent [OF run_reached(1) c(1) run_request_live c(2-6) refl,
        of run_env ?clm "samplePresence run_config run_env []" "CreateItem request_input"] c(7)
    by simp
qed

lemma plan_command_guard:
  "plan_command cf en cx cmdId clm ctx cmd s m = Inr (r, res) \<Longrightarrow> check_guard cx = Inr ()"
  by (auto simp: plan_command_def err_bind_ok Let_def split: if_splits)

lemma replayed_refused:
  "check_guard cx = Inl e \<Longrightarrow> \<exists>e'. replayed cx sv rc hash = (Inl e', sv)"
  by (simp add: replayed_def)

lemma open_space_log [simp]: "sv_log (snd (open_space sv)) = sv_log sv"
  by (auto simp: open_space_def split: sum.split)

text \<open>
  C9: the caller's guard has a veto over every write: when it is not a function, throws or does not
  answer \<open>true\<close>, a member command and a manager command fail and change nothing at all, and the
  creation of a space fails without a record.
\<close>

theorem guard_vetoes_every_write:
  assumes "cx_guard cx \<in> {GuardNotFunction, GuardFn False}"
  shows "(\<exists>e. command_txn cf en cx gen clm ctx cmd sv = (Inl e, sv)) \<and>
     (\<exists>e. manager_txn cf en cx gen p claimed mcmd sv = (Inl e, sv)) \<and>
     (\<exists>e sv'. create_txn cf en cx epoch listed inp sv = (Inl e, sv') \<and> sv_log sv' = sv_log sv)"
proof (intro conjI)
  have g: "check_guard cx = Inl CALLER_STALE" using assms by (auto simp: check_guard_def)
  note r = replayed_refused [OF g]
  have no: "plan_command cf en cx cmdId clm ctx cmd s m \<noteq> Inr (x, y)" for cmdId s m x y
    using plan_command_guard g by fastforce
  show "\<exists>e. command_txn cf en cx gen clm ctx cmd sv = (Inl e, sv)"
    using r no by (auto simp: command_txn_def split: sum.split arg.split option.split)
  show "\<exists>e. manager_txn cf en cx gen p claimed mcmd sv = (Inl e, sv)"
    using r g by (auto simp: manager_txn_def Let_def split: sum.split arg.split option.split)
  have o': "open_space sv = (x, v) \<Longrightarrow> sv_log v = sv_log sv" for x v
    using open_space_log [of sv] by simp
  have "(\<exists>e. fst (create_txn cf en cx epoch listed inp sv) = Inl e) \<and>
      sv_log (snd (create_txn cf en cx epoch listed inp sv)) = sv_log sv"
    by (auto simp: create_txn_def Let_def replayed_def g dest: o'
        split: sum.split arg.split option.split prod.split)
  then show "\<exists>e sv'. create_txn cf en cx epoch listed inp sv = (Inl e, sv') \<and> sv_log sv' = sv_log sv"
    by (metis prod.collapse)
qed

theorem guard_vetoes_every_write_witness:
  "\<exists>e. command_txn run_config run_env ((run_call (session ''A'') ''20'')\<lparr>cx_guard := GuardFn False\<rparr>)
      (Some 0) (Inl ADDRESS_UNCLAIMED) (samplePresence run_config run_env []) CloseSpace run_members
    = (Inl e, run_members)"
  using guard_vetoes_every_write [of "(run_call (session ''A'') ''20'')\<lparr>cx_guard := GuardFn False\<rparr>"]
  by simp

text \<open>
  An error never leaves half a command behind. When a member command fails, either nothing
  changed, or the store failed while the record was being written; then the space is fenced, and its
  log is the old one, or the old one and that record.
\<close>

theorem failed_command_wrote_nothing:
  assumes "command_txn cf en cx gen clm ctx cmd sv = (Inl e, sv')"
  shows "sv' = sv \<or> (e \<in> {STORE_FAILED, STORE_CONFLICT} \<and> sv_failed sv' \<and>
     sv_state sv' = sv_state sv \<and> sv_records sv' = sv_records sv \<and>
     (sv_log sv' = sv_log sv \<or> (\<exists>r. sv_log sv' = sv_log sv @ [r])))"
proof -
  have p: "sv2 = sv \<or> (e' \<in> {STORE_FAILED, STORE_CONFLICT} \<and> sv_failed sv2 \<and>
     sv_state sv2 = sv_state sv \<and> sv_records sv2 = sv_records sv \<and>
     (sv_log sv2 = sv_log sv \<or> (\<exists>r. sv_log sv2 = sv_log sv @ [r])))"
    if "persist en sv r = (Inl e', sv2)" for r e' sv2
    using that by (auto simp: persist_def Let_def split: if_splits store_answer.splits sum.splits)
  from assms consider "sv' = sv" | r res where "committed en sv r res = (Inl e, sv')"
    by (auto simp: command_txn_def replayed_def
        split: if_splits sum.splits arg.splits option.splits prod.splits)
  then show ?thesis
  proof cases
    case 2
    then have "persist en sv r = (Inl e, sv')" by (auto simp: committed_def split: prod.splits sum.splits)
    then show ?thesis by (rule p)
  qed simp
qed

theorem failed_command_wrote_nothing_witness:
  "let sv' = snd (command_txn run_config (run_env\<lparr>env_store := StoreFails True\<rparr>)
      (run_call (session ''A'') ''20'') (Some 0) (Inl ADDRESS_UNCLAIMED)
      (samplePresence run_config run_env []) CloseSpace run_members)
   in sv_failed sv' \<and> sv_state sv' = sv_state run_members \<and> length (sv_log sv') = 4"
proof -
  let ?t = "command_txn run_config (run_env\<lparr>env_store := StoreFails True\<rparr>)
      (run_call (session ''A'') ''20'') (Some 0) (Inl ADDRESS_UNCLAIMED)
      (samplePresence run_config run_env []) CloseSpace run_members"
  have c: "fst ?t = Inl STORE_FAILED" "sv_failed (snd ?t) \<and> \<not> sv_failed run_members"
      "length (sv_log (snd ?t)) = 4" by code_simp+
  then have "?t = (Inl STORE_FAILED, snd ?t)" by (metis prod.collapse)
  from failed_command_wrote_nothing [OF this] c show ?thesis by (auto simp: Let_def)
qed

subsection \<open>Decisions\<close>

lemma add_recipient_actor:
  "\<not> has rs a \<Longrightarrow> \<not> has (add_recipient s name a ivt th rs) a"
  by (auto simp: add_recipient_def split: option.split)

lemma wakeRecipients_actor:
  assumes "wakeRecipients s es = Inr rs" and "\<forall>e \<in> set es. ev_actor e = a"
  shows "\<not> has rs a"
proof -
  have "\<not> has rs' a" if "e \<in> set es" "wake_event s e rs = Inr rs'" "\<not> has rs a" for e rs rs'
    using that assms(2) add_recipient_actor
    by (auto split: event_data.splits if_splits option.splits)
  then show ?thesis
    using assms(1) unfolding wakeRecipients_def
    by - (rule err_fold_invariant [where P = "\<lambda>rs. \<not> has rs a"], auto)
qed

lemma dispatch_loop_presence:
  assumes "dispatch_loop s ctx c a b k rs = Inr is" and "e \<in> set is"
  shows "\<exists>d. ev_data e = DispatchIntended d \<and> has rs (d_member d) \<and>
     map_of (dc_presence ctx) (d_member d) \<noteq> Some Unreachable"
  using assms
proof (induction s ctx c a b k rs arbitrary: "is" rule: dispatch_loop.induct)
  case (2 s ctx c a b k name rc rs)
  show ?case
  proof (cases "wake_provider ctx name (rcp_member rc)")
    case None
    with 2 show ?thesis by (fastforce split: if_splits)
  next
    case (Some pid)
    with "2.prems" obtain es where es: "dispatch_loop s ctx c a b (Suc k) rs = Inr es"
        "is = wake_intent s c a b (Suc k) name pid rc # es" "sampled_current ctx name (rcp_member rc)"
      by (auto simp: err_bind_ok split: if_splits)
    have p: "map_of (dc_presence ctx) name \<noteq> Some Unreachable"
      using Some by (auto simp: wake_provider_def split: option.splits if_splits)
    show ?thesis
    proof (cases "e \<in> set es")
      case True
      with "2.IH"(2) [OF _ Some es(1)] es(3) show ?thesis by fastforce
    next
      case False
      with "2.prems"(2) es(2) have "e = wake_intent s c a b (Suc k) name pid rc" by simp
      with p show ?thesis by (simp add: wake_intent_def Let_def)
    qed
  qed
qed simp

text \<open>
  A commit never wakes its own author, nor a member whose provider was sampled as unreachable;
  and when it wakes anyone at all, the delivery's id carries the number the commit will have.
\<close>

theorem dispatch_never_wakes_the_actor:
  assumes "decideDispatch s (map (\<lambda>d. \<lparr>ev_actor = a, ev_data = d\<rparr>) ds) ctx = Inr es"
    and "\<forall>d. DispatchIntended d \<notin> set ds"
    and "e \<in> set es" and "ev_data e = DispatchIntended d"
  shows "d_member d \<noteq> a \<and> map_of (dc_presence ctx) (d_member d) \<noteq> Some Unreachable \<and>
     (\<exists>k. d_id d = delivery_id (Suc (s_lastSeq s)) k)"
proof -
  from assms(1) obtain rs c act "is" where rs: "wakeRecipients s (business a ds) = Inr rs"
    and loop: "dispatch_loop s ctx c act (business a ds) 0 rs = Inr is" "es = business a ds @ is"
    by (auto simp: decideDispatch_def err_bind_ok Let_def)
  have "e \<in> set is" using assms(2-4) loop(2) by auto
  with dispatch_loop_presence [OF loop(1)] dispatch_loop_intents [OF loop(1)] assms(4)
  have "has rs (d_member d)" "map_of (dc_presence ctx) (d_member d) \<noteq> Some Unreachable"
      "\<exists>k. d_id d = delivery_id (Suc (s_lastSeq s)) k" by fastforce+
  moreover have "\<not> has rs a" by (rule wakeRecipients_actor [OF rs]) auto
  ultimately show ?thesis by metis
qed

theorem dispatch_never_wakes_the_actor_witness:
  "let s = the (sv_state run_members);
       ds = [MessageSent \<lparr>msg_id = ''4'', msg_actor = ''a'', msg_to = ''b'', msg_body = js ''h'',
         msg_needsReply = True, msg_notify = Some True, msg_ref = None, msg_ext = None, msg_mode = None\<rparr>];
       es = projr (decideDispatch s (map (\<lambda>d. \<lparr>ev_actor = ''a'', ev_data = d\<rparr>) ds)
         (samplePresence run_config run_env (vals (s_members s))))
   in case ev_data (es ! 1) of DispatchIntended d \<Rightarrow> d_member d \<noteq> ''a'' \<and> d_member d = ''b'' | _ \<Rightarrow> False"
proof -
  define s where "s = the (sv_state run_members)"
  define ds where "ds = [MessageSent \<lparr>msg_id = ''4'', msg_actor = ''a'', msg_to = ''b'', msg_body = js ''h'',
         msg_needsReply = True, msg_notify = Some True, msg_ref = None, msg_ext = None, msg_mode = None\<rparr>]"
  define ctx where "ctx = samplePresence run_config run_env (vals (s_members s))"
  define es where "es = projr (decideDispatch s (map (\<lambda>d. \<lparr>ev_actor = ''a'', ev_data = d\<rparr>) ds) ctx)"
  define d where "d = (case ev_data (es ! 1) of DispatchIntended d \<Rightarrow> d)"
  have c: "decideDispatch s (map (\<lambda>d. \<lparr>ev_actor = ''a'', ev_data = d\<rparr>) ds) ctx = Inr es"
      "length es = 2" "ev_data (es ! 1) = DispatchIntended d" "d_member d = ''b''"
    unfolding d_def es_def ctx_def ds_def s_def by code_simp+
  have "es ! 1 \<in> set es" using c(2) by simp
  moreover have "\<forall>x. DispatchIntended x \<notin> set ds" by (simp add: ds_def)
  ultimately have "d_member d \<noteq> ''a''" using dispatch_never_wakes_the_actor [OF c(1) _ _ c(3)] by blast
  with c(3,4) show ?thesis by (simp add: Let_def es_def ctx_def ds_def s_def)
qed

text \<open>Who may take over from a leader who leaves.\<close>

definition heir :: "space_state \<Rightarrow> string \<Rightarrow> member \<Rightarrow> bool" where
  "heir s a m \<longleftrightarrow> m \<in> set (vals (s_members s)) \<and> m_name m \<noteq> a \<and> m_status m = Active \<and> m_managedBy m = None"

lemma sort_key_Nil: "sort_key f xs = [] \<longleftrightarrow> xs = []"
  by (metis length_0_conv length_sort)

lemma successor_heir:
  "(case successor s a of None \<Rightarrow> \<not> (\<exists>x. heir s a x)
    | Some m \<Rightarrow> heir s a m \<and> (\<forall>x. heir s a x \<longrightarrow> m_joinSeq m \<le> m_joinSeq x))"
proof -
  let ?c = "filter (\<lambda>m. m_name m \<noteq> a \<and> m_status m = Active \<and> m_managedBy m = None) (vals (s_members s))"
  have c: "x \<in> set ?c \<longleftrightarrow> heir s a x" for x unfolding heir_def by (simp only: set_filter mem_Collect_eq)
  show ?thesis
  proof (cases "sort_key m_joinSeq ?c")
    case Nil
    then have "?c = []" by (simp only: sort_key_Nil)
    then have "\<not> heir s a x" for x unfolding c [symmetric] by (simp only: list.set empty_iff not_False_eq_True)
    then have "\<not> (\<exists>x. heir s a x)" by blast
    then show ?thesis unfolding successor_def Nil by (simp only: list.case option.case not_False_eq_True)
  next
    case (Cons m ms)
    have "set (m # ms) = set ?c" unfolding Cons [symmetric] by (rule set_sort)
    then have set: "x \<in> set (m # ms) \<longleftrightarrow> heir s a x" for x using c by (simp only:)
    have "sorted (map m_joinSeq (m # ms))" unfolding Cons [symmetric] by (rule sorted_sort_key)
    then have "\<forall>x \<in> set (m # ms). m_joinSeq m \<le> m_joinSeq x" by simp
    moreover have "m \<in> set (m # ms)" by simp
    ultimately have "heir s a m \<and> (\<forall>x. heir s a x \<longrightarrow> m_joinSeq m \<le> m_joinSeq x)"
      unfolding set Ball_def by blast
    then show ?thesis unfolding successor_def Cons list.case option.case .
  qed
qed

text \<open>
  When the leader leaves, the space goes to the earliest-joined active member that no integrator
  manages, and is closed exactly when there is none.
\<close>

theorem leaving_leader_hands_over:
  assumes "s_leader s = m_name me"
  shows "(\<exists>m. heir s (m_name me) m \<and> (\<forall>x. heir s (m_name me) x \<longrightarrow> m_joinSeq m \<le> m_joinSeq x) \<and>
       decide ps en clm Leave s me = Inr [MemberStatus (m_name me) Gone, LeaderChanged (m_name m)]) \<or>
     ((\<forall>x. \<not> heir s (m_name me) x) \<and>
       decide ps en clm Leave s me = Inr [MemberStatus (m_name me) Gone, SpaceClosedEv])"
  using successor_heir [of s "m_name me"] assms
  by (cases "successor s (m_name me)") (auto simp: decide_leave_def)

theorem leaving_leader_hands_over_witness:
  "\<exists>m :: member. decide [] run_env (Inl ADDRESS_UNCLAIMED) Leave (the (sv_state run_managed))
      (the (map_of (s_members (the (sv_state run_managed))) ''a''))
    = Inr [MemberStatus ''a'' Gone, LeaderChanged (m_name m)] \<and> m_managedBy m = None"
proof -
  let ?s = "the (sv_state run_managed)" and ?m = "the (map_of (s_members (the (sv_state run_managed))) ''a'')"
  have c: "s_leader ?s = m_name ?m" "m_name ?m = ''a''"
      "decide [] run_env (Inl ADDRESS_UNCLAIMED) Leave ?s ?m
        \<noteq> Inr [MemberStatus ''a'' Gone, SpaceClosedEv]"
    by code_simp+
  from leaving_leader_hands_over [OF c(1), of "[]" run_env "Inl ADDRESS_UNCLAIMED", unfolded c(2)] c(3)
  show ?thesis unfolding heir_def by blast
qed

subsection \<open>The canonical form\<close>

text \<open>
  C10: the canonical text of an object does not depend on the order in which its properties were
  written, and canonicalising a value twice is canonicalising it once.
\<close>

theorem canonical_form_is_canonical:
  assumes "distinct (keys kvs)" and "mset kvs = mset kvs'" and "wf_json v" and "sorted_json v = Some w"
  shows "canonicalJson (JObj kvs) = canonicalJson (JObj kvs') \<and>
     canonicalJson w = canonicalJson v \<and> sorted_json w = Some w"
  using sorted_json_key_order [OF assms(2,1)] sorted_json_idem [OF assms(3,4)] assms(4)
  by (simp add: canonicalJson_def)

theorem canonical_form_is_canonical_witness:
  "canonicalJson (JObj [(js ''b'', JNum 1), (js ''a'', JNum 2)])
     = canonicalJson (JObj [(js ''a'', JNum 2), (js ''b'', JNum 1)])"
proof -
  have "distinct (keys [(js ''b'', JNum 1), (js ''a'', JNum 2)])" by (simp add: js_def)
  moreover have "mset [(js ''b'', JNum 1), (js ''a'', JNum 2)] = mset [(js ''a'', JNum 2), (js ''b'', JNum 1)]"
    by (simp add: add_mset_commute)
  ultimately show ?thesis
    using canonical_form_is_canonical [of _ _ JNull JNull] by simp
qed

text \<open>
  A row that is encoded decodes to exactly its canonical body, for every digest function, and a
  row whose digest does not match its body is refused as corrupt.
\<close>

theorem row_roundtrip:
  assumes "distinct (keys row)" and "sha_key \<notin> set (keys row)" and "list_all (\<lambda>(k, v). wf_json v) row"
    and "encode_row sha row = Some r"
  shows "\<exists>body. sorted_json (JObj row) = Some (JObj body) \<and> decode_row sha (JObj r) = Some body \<and>
     (d \<noteq> sha (the (canonicalJson (JObj body))) \<longrightarrow>
        decode_row sha (JObj (AList.update sha_key (JStr d) r)) = None)"
proof -
  from assms(4) obtain body d0 where b: "sorted_json (JObj row) = Some (JObj body)"
      "checksum sha body = Some d0" "r = AList.update sha_key (JStr d0) body"
    by (auto simp: encode_row_Some)
  from b(1) obtain fs where fs: "sorted_fields row = Some fs" "body = canonical_order fs"
    by auto
  have "set (keys body) = set (keys fs)" unfolding fs(2) set_map set_canonical_order ..
  then have "set (keys body) \<subseteq> set (keys row)"
    unfolding sorted_fields_keys [OF fs(1)] by auto
  then have new: "without_digest body = body" using assms(2) without_digest_new by blast
  have "decode_row sha (JObj r) = Some body"
    using b new by (simp add: decode_row_def)
  moreover have "decode_row sha (JObj (AList.update sha_key (JStr d) r)) = None"
    if "d \<noteq> sha (the (canonicalJson (JObj body)))"
    using that b(2) new by (auto simp: decode_row_def b(3) checksum_def)
  ultimately show ?thesis using b(1) by blast
qed

theorem row_roundtrip_witness:
  "decode_row (\<lambda>t. t) (JObj (the (encode_row (\<lambda>t. t) [(js ''a'', JNum 1)]))) = Some [(js ''a'', JNum 1)]"
proof -
  have c: "distinct (keys [(js ''a'', JNum 1)])" "sha_key \<notin> set (keys [(js ''a'', JNum 1)])"
      "list_all (\<lambda>(k, v). wf_json v) [(js ''a'', JNum 1)]"
      "encode_row (\<lambda>t. t) [(js ''a'', JNum 1)] = Some (the (encode_row (\<lambda>t. t) [(js ''a'', JNum 1)]))"
      "sorted_json (JObj [(js ''a'', JNum 1)]) = Some (JObj [(js ''a'', JNum 1)])"
    by code_simp+
  from row_roundtrip [OF c(1-4)] c(5) show ?thesis by auto
qed

end
