(* ===== verification/PetDelivery.thy ===== *)
theory PetDelivery
  imports Canonical
begin

text \<open>
  The delivery ledger of dsh-pet: \<^verbatim>\<open>packages/dsh-pet/src/host/locus/delivery.ts\<close>, and the mention
  projection it stores, \<^verbatim>\<open>locus/addressing.ts\<close>. A delivery ties one accepted platform message to one
  turn of a child session; the module is pure, every operation returns the next ledger.

  An interface that extends another is a record that extends another. An optional field is an option.
  A JavaScript number is an \<open>int\<close>: a value that \<open>Number.isSafeInteger\<close> refuses, fractional or not,
  behaves as an out-of-range integer. A thrown \<open>TypeError\<close> or \<open>RangeError\<close> is an \<open>Inl\<close>; the
  static types of the interfaces are taken as given.
\<close>

datatype throw = TypeErr | RangeErr

definition MAX_SAFE_INTEGER :: int where
  "MAX_SAFE_INTEGER = 9007199254740991"

definition safe_integer :: "int \<Rightarrow> bool" where
  "safe_integer n \<longleftrightarrow> - MAX_SAFE_INTEGER \<le> n \<and> n \<le> MAX_SAFE_INTEGER"

fun check_option :: "('a \<Rightarrow> throw + unit) \<Rightarrow> 'a option \<Rightarrow> throw + unit" where
  "check_option f None = Inr ()"
| "check_option f (Some x) = f x"

text \<open>\<open>x ?? d\<close>\<close>

fun or_else :: "'a option \<Rightarrow> 'a \<Rightarrow> 'a" where
  "or_else None d = d"
| "or_else (Some x) d = x"

subsection \<open>Mentions: \<^verbatim>\<open>addressing.ts\<close>\<close>

datatype occurrence_kind = SelfBot | OtherBot | HumanMention | UnknownMention

record occurrence =
  oc_kind :: occurrence_kind
  oc_displayName :: jstr
  oc_stableId :: "jstr option"
  oc_mentionKey :: "jstr option"

record addressing =
  ad_known :: bool
  ad_occurrences :: "occurrence list"
  ad_selfMentioned :: bool
  ad_otherBotCount :: int
  ad_orderKnown :: bool

record mention =
  mn_id :: "jstr option"
  mn_key :: "jstr option"
  mn_name :: "jstr option"

definition MAX_ADDRESSING_OCCURRENCES :: nat where
  "MAX_ADDRESSING_OCCURRENCES = 32"

definition bounded :: "jstr option \<Rightarrow> nat \<Rightarrow> jstr option" where
  "bounded value maximum =
     (case value of None \<Rightarrow> None
      | Some v \<Rightarrow> if trim v = [] then None else Some (take maximum (trim v)))"

definition mention_kind ::
  "jstr option \<Rightarrow> jstr list option \<Rightarrow> jstr option \<Rightarrow> occurrence_kind" where
  "mention_kind selfOpenId botIds stableId =
     (if stableId \<noteq> None \<and> selfOpenId \<noteq> None \<and> stableId = selfOpenId then SelfBot
      else case (stableId, botIds) of
             (Some i, Some bots) \<Rightarrow> if i \<in> set bots then OtherBot else HumanMention
           | _ \<Rightarrow> UnknownMention)"

definition project_mention ::
  "jstr option \<Rightarrow> jstr list option \<Rightarrow> mention \<Rightarrow> occurrence" where
  "project_mention selfOpenId botIds m =
     (let stableId = bounded (mn_id m) 256
      in \<lparr>oc_kind = mention_kind selfOpenId botIds stableId,
          oc_displayName = or_else (bounded (mn_name m) 128) [],
          oc_stableId = stableId, oc_mentionKey = bounded (mn_key m) 256\<rparr>)"

definition projectDeliveryAddressing ::
  "mention list \<Rightarrow> jstr option \<Rightarrow> jstr list option \<Rightarrow> bool option \<Rightarrow> addressing" where
  "projectDeliveryAddressing mentions selfOpenId chatBots orderKnown =
     (let self = bounded selfOpenId 256;
          botIds = map_option (\<lambda>bots. List.map_filter (\<lambda>b. bounded (Some b) 256) bots) chatBots;
          occurrences = map (project_mention self botIds) (take MAX_ADDRESSING_OCCURRENCES mentions)
      in \<lparr>ad_known = (chatBots \<noteq> None), ad_occurrences = occurrences,
          ad_selfMentioned = list_ex (\<lambda>oc. oc_kind oc = SelfBot) occurrences,
          ad_otherBotCount = int (length (filter (\<lambda>oc. oc_kind oc = OtherBot) occurrences)),
          ad_orderKnown = (orderKnown \<noteq> Some False)\<rparr>)"

definition historicalUnknownAddressing :: addressing where
  "historicalUnknownAddressing =
     \<lparr>ad_known = False, ad_occurrences = [], ad_selfMentioned = False, ad_otherBotCount = 0,
      ad_orderKnown = False\<rparr>"

subsection \<open>The types of the ledger\<close>

record endpoint =
  ep_chatId :: jstr
  ep_threadId :: "jstr option"

record feedback_target = endpoint +
  ft_messageId :: jstr
  ft_rootMessageId :: "jstr option"

record correlation =
  co_endpoint :: endpoint
  co_locusId :: jstr
  co_sessionId :: jstr

record turn_correlation = correlation +
  tc_turnId :: "jstr option"

datatype delivery_outcome = OSettled | OFailed

datatype finish_outcome = Reply | NoReply

datatype outbound_result = ONone | OSuccess | OFailure | OUnknown

datatype queue_state = Backlog | InCurrent

datatype delivery_status =
  Accepted | Queued | Running | Settled | Failed
| Current | Finishing | Replied | NoReplySent | Expired | UnknownTerminal

datatype startup_disposition = Unqueued | ExecutionUnrecoverable | TurnInterrupted

datatype dispatch_failure = NotQueued | QueuedNotStarted

definition DEFAULT_DELIVERY_LEASE_MS :: int where
  "DEFAULT_DELIVERY_LEASE_MS = 60 * 60 * 1000"

definition MAX_DELIVERY_LEASE_MS :: int where
  "MAX_DELIVERY_LEASE_MS = 24 * 60 * 60 * 1000"

definition MIN_PROMOTED_DELIVERY_LEASE_MS :: int where
  "MIN_PROMOTED_DELIVERY_LEASE_MS = 10 * 60 * 1000"

record delivery_input = correlation +
  in_messageId :: jstr
  in_deliveryId :: "jstr option"
  in_turnId :: "jstr option"
  in_executionId :: "jstr option"
  in_senderOpenId :: "jstr option"
  in_senderName :: "jstr option"
  in_text :: "jstr option"
  in_addressing :: "addressing option"
  in_docComment :: "jstr option"
  in_rootMessageId :: "jstr option"
  in_replyTarget :: "feedback_target option"
  in_replyToMessageId :: "jstr option"
  in_acceptedAt :: "int option"

record delivery_record = correlation +
  dl_deliveryId :: jstr
  dl_messageId :: jstr
  dl_rootMessageId :: "jstr option"
  dl_senderOpenId :: "jstr option"
  dl_senderName :: "jstr option"
  dl_text :: "jstr option"
  dl_addressing :: "addressing option"
  dl_docComment :: "jstr option"
  dl_replyTarget :: "feedback_target option"
  dl_replyToMessageId :: "jstr option"
  dl_turnId :: "jstr option"
  dl_executionId :: "jstr option"
  dl_inboxMessageId :: "jstr option"
  dl_imageRouteRejected :: bool
  dl_startupDisposition :: "startup_disposition option"
  dl_startupRecoveryDebt :: "jstr option"
  dl_dispatchFailure :: "dispatch_failure option"
  dl_sequence :: int
  dl_status :: delivery_status
  dl_feedbackTarget :: feedback_target
  dl_queueState :: "queue_state option"
  dl_deadlineAt :: "int option"
  dl_hardDeadlineAt :: "int option"
  dl_revision :: "int option"
  dl_stateRevision :: "int option"
  dl_finishOutcome :: "finish_outcome option"
  dl_outboundResult :: "outbound_result option"
  dl_outboundAttemptedAt :: "int option"
  dl_outboundResultAt :: "int option"
  dl_outboundDiagnostic :: "jstr option"
  dl_acceptedAt :: "int option"
  dl_queuedAt :: "int option"
  dl_startedAt :: "int option"
  dl_settledAt :: "int option"
  dl_failedAt :: "int option"
  dl_finishedAt :: "int option"
  dl_expiredAt :: "int option"
  dl_failureReason :: "jstr option"

text \<open>An index is a JavaScript object: \<open>Object.values\<close> enumerates it in \<open>own_order\<close>.\<close>

type_synonym index = "(jstr \<times> delivery_record) list"

record ledger =
  lg_byMessageId :: index
  lg_byDeliveryId :: index
  lg_nextDeliverySequence :: int

datatype mutation_reason =
  UnknownDelivery | CorrelationMismatch | AlreadyInState | AlreadyTerminal | InvalidTransition
| ExecutionProofRequired | NoPendingDelivery | InboxMessageConflict | CurrentOccupied | NotOldest
| RevisionMismatch | DeadlineExpired | DeadlineNotReached | DeadlineAlreadySufficient | InvalidWait

record mutation =
  mu_state :: ledger
  mu_record :: "delivery_record option"
  mu_feedbackTarget :: "feedback_target option"
  mu_changed :: bool
  mu_reason :: "mutation_reason option"

record acceptance =
  ac_state :: ledger
  ac_record :: delivery_record
  ac_duplicate :: bool
  ac_conflict :: bool

record claim_input = correlation +
  cl_now :: int
  cl_deliveryId :: "jstr option"
  cl_expectedRevision :: "int option"

record lease_input = correlation +
  li_deliveryId :: jstr
  li_now :: int
  li_expectedRevision :: "int option"

record wait_input = lease_input +
  wi_waitMinutes :: int

record finish_input = lease_input +
  fi_outcome :: finish_outcome
  fi_outboundResult :: "outbound_result option"
  fi_outboundDiagnostic :: "jstr option"
  fi_reason :: "jstr option"

record settlement_input =
  se_executionId :: jstr
  se_turnId :: jstr
  se_deliveryId :: jstr
  se_outcome :: delivery_outcome
  se_correlation :: turn_correlation
  se_settledAt :: "int option"
  se_failureReason :: "jstr option"

record fifo_input = correlation +
  ff_executionId :: jstr
  ff_turnId :: jstr
  ff_outcome :: delivery_outcome
  ff_settledAt :: int
  ff_failureReason :: "jstr option"

datatype transition_status = ToQueued | ToRunning | ToOutcome delivery_outcome

record transition_input =
  ti_deliveryId :: jstr
  ti_status :: transition_status
  ti_correlation :: "turn_correlation option"
  ti_executionId :: "jstr option"
  ti_turnId :: "jstr option"
  ti_at :: "int option"
  ti_failureReason :: "jstr option"

record queued_input = correlation +
  qi_deliveryId :: jstr
  qi_executionId :: jstr
  qi_inboxMessageId :: jstr
  qi_queuedAt :: "int option"

record bind_input = correlation +
  bi_deliveryId :: jstr
  bi_executionId :: jstr
  bi_turnId :: jstr
  bi_startedAt :: "int option"

subsection \<open>Status classes\<close>

definition TERMINAL_STATUSES :: "delivery_status set" where
  "TERMINAL_STATUSES = {Settled, Failed, Replied, NoReplySent, Expired, UnknownTerminal}"

definition PENDING_STATUSES :: "delivery_status set" where
  "PENDING_STATUSES = {Accepted, Queued, Running, Current, Finishing}"

definition QUEUED_STATUSES :: "delivery_status set" where
  "QUEUED_STATUSES = {Accepted, Queued}"

definition CURRENT_STATUSES :: "delivery_status set" where
  "CURRENT_STATUSES = {Current, Finishing}"

definition isTerminalDeliveryStatus :: "delivery_status \<Rightarrow> bool" where
  "isTerminalDeliveryStatus st \<longleftrightarrow> st \<in> TERMINAL_STATUSES"

definition isPendingDeliveryStatus :: "delivery_status \<Rightarrow> bool" where
  "isPendingDeliveryStatus st \<longleftrightarrow> st \<in> PENDING_STATUSES"

subsection \<open>Validation\<close>

definition assertIdentifier :: "jstr \<Rightarrow> throw + unit" where
  "assertIdentifier v = ensure (trim v \<noteq> []) TypeErr"

definition validateAt :: "int option \<Rightarrow> throw + unit" where
  "validateAt v = check_option (\<lambda>n. ensure (safe_integer n \<and> 0 \<le> n) TypeErr) v"

definition validateCorrelation :: "'a correlation_scheme \<Rightarrow> throw + unit" where
  "validateCorrelation c =
     err_bind (assertIdentifier (ep_chatId (co_endpoint c))) (\<lambda>_.
     err_bind (check_option assertIdentifier (ep_threadId (co_endpoint c))) (\<lambda>_.
     err_bind (assertIdentifier (co_locusId c)) (\<lambda>_. assertIdentifier (co_sessionId c))))"

definition validateAddressing :: "addressing \<Rightarrow> throw + unit" where
  "validateAddressing a =
     err_bind (ensure (length (ad_occurrences a) \<le> 32) TypeErr) (\<lambda>_.
     err_bind (ensure (list_all (\<lambda>oc. length (oc_displayName oc) \<le> 128) (ad_occurrences a)) TypeErr) (\<lambda>_.
       ensure (safe_integer (ad_otherBotCount a) \<and> 0 \<le> ad_otherBotCount a
         \<and> ad_otherBotCount a \<le> int (length (ad_occurrences a))) TypeErr))"

definition isValidDocCommentQuote :: "jstr \<Rightarrow> bool" where
  "isValidDocCommentQuote q \<longleftrightarrow> q \<noteq> [] \<and> length q \<le> 2000"

definition sameEndpoint :: "'a endpoint_scheme \<Rightarrow> 'b endpoint_scheme \<Rightarrow> bool" where
  "sameEndpoint l r \<longleftrightarrow> ep_chatId l = ep_chatId r \<and> ep_threadId l = ep_threadId r"

definition validateReplyTarget :: "delivery_input \<Rightarrow> feedback_target \<Rightarrow> throw + unit" where
  "validateReplyTarget inp t =
     err_bind (assertIdentifier (ep_chatId t)) (\<lambda>_.
     err_bind (assertIdentifier (ft_messageId t)) (\<lambda>_.
     err_bind (check_option assertIdentifier (ep_threadId t)) (\<lambda>_.
     err_bind (check_option assertIdentifier (ft_rootMessageId t)) (\<lambda>_.
     err_bind (ensure (sameEndpoint (co_endpoint inp) t) TypeErr) (\<lambda>_.
       ensure (ft_messageId t = in_messageId inp) TypeErr)))))"

definition validateDeliveryInput :: "delivery_input \<Rightarrow> throw + unit" where
  "validateDeliveryInput inp =
     err_bind (assertIdentifier (in_messageId inp)) (\<lambda>_.
     err_bind (validateCorrelation inp) (\<lambda>_.
     err_bind (ensure (in_turnId inp = None \<and> in_executionId inp = None) TypeErr) (\<lambda>_.
     err_bind (check_option assertIdentifier (in_senderOpenId inp)) (\<lambda>_.
     err_bind (check_option validateAddressing (in_addressing inp)) (\<lambda>_.
     err_bind (check_option (\<lambda>q. ensure (isValidDocCommentQuote q) TypeErr) (in_docComment inp)) (\<lambda>_.
     err_bind (check_option assertIdentifier (in_rootMessageId inp)) (\<lambda>_.
     err_bind (check_option assertIdentifier (in_replyToMessageId inp)) (\<lambda>_.
     err_bind (check_option (validateReplyTarget inp) (in_replyTarget inp)) (\<lambda>_.
       validateAt (in_acceptedAt inp))))))))))"

definition validateLeaseInput :: "'a lease_input_scheme \<Rightarrow> throw + unit" where
  "validateLeaseInput i =
     err_bind (validateCorrelation i) (\<lambda>_.
     err_bind (assertIdentifier (li_deliveryId i)) (\<lambda>_. validateAt (Some (li_now i))))"

subsection \<open>Records and indexes\<close>

definition correlates :: "'a correlation_scheme \<Rightarrow> 'b correlation_scheme \<Rightarrow> bool" where
  "correlates r c \<longleftrightarrow> co_locusId r = co_locusId c \<and> co_sessionId r = co_sessionId c \<and>
     sameEndpoint (co_endpoint r) (co_endpoint c)"

definition records :: "ledger \<Rightarrow> delivery_record list" where
  "records st = vals (own_order (lg_byDeliveryId st))"

definition changed :: "ledger \<Rightarrow> delivery_record \<Rightarrow> mutation" where
  "changed st r =
     \<lparr>mu_state = st\<lparr>lg_byMessageId := AList.update (dl_messageId r) r (lg_byMessageId st),
        lg_byDeliveryId := AList.update (dl_deliveryId r) r (lg_byDeliveryId st)\<rparr>,
      mu_record = Some r, mu_feedbackTarget = None, mu_changed = True, mu_reason = None\<rparr>"

definition unchanged :: "ledger \<Rightarrow> mutation_reason \<Rightarrow> delivery_record option \<Rightarrow> mutation" where
  "unchanged st reason r =
     \<lparr>mu_state = st, mu_record = r, mu_feedbackTarget = None, mu_changed = False,
      mu_reason = Some reason\<rparr>"

definition nextRevision :: "delivery_record \<Rightarrow> throw + int" where
  "nextRevision r =
     (let rv = or_else (dl_revision r) 0
      in if \<not> safe_integer rv \<or> rv < 0 \<or> rv = MAX_SAFE_INTEGER then Inl RangeErr else Inr (rv + 1))"

text \<open>\<open>current.hardDeadlineAt ?? (current.acceptedAt === undefined ? undefined : \<dots>)\<close>\<close>

definition hard_cap :: "delivery_record \<Rightarrow> int option" where
  "hard_cap r =
     (case dl_hardDeadlineAt r of Some h \<Rightarrow> Some h
      | None \<Rightarrow> map_option (\<lambda>a. a + MAX_DELIVERY_LEASE_MS) (dl_acceptedAt r))"

definition isDeliveryExpiredAt :: "delivery_record \<Rightarrow> int \<Rightarrow> bool" where
  "isDeliveryExpiredAt r now \<longleftrightarrow>
     (case dl_deadlineAt r of None \<Rightarrow> False | Some d \<Rightarrow> d \<le> now) \<or>
     (case hard_cap r of None \<Rightarrow> False | Some h \<Rightarrow> h \<le> now)"

definition cloneFeedbackTarget :: "endpoint \<Rightarrow> jstr \<Rightarrow> jstr option \<Rightarrow> feedback_target" where
  "cloneFeedbackTarget e messageId root =
     \<lparr>ep_chatId = ep_chatId e, ep_threadId = ep_threadId e, ft_messageId = messageId,
      ft_rootMessageId = root\<rparr>"

definition createDeliveryLedger :: ledger where
  "createDeliveryLedger = \<lparr>lg_byMessageId = [], lg_byDeliveryId = [], lg_nextDeliverySequence = 1\<rparr>"

subsection \<open>Accepting a message\<close>

definition accepted_record :: "delivery_input \<Rightarrow> jstr \<Rightarrow> int \<Rightarrow> int \<Rightarrow> delivery_record" where
  "accepted_record inp did sequence acceptedAt =
     (let root = (case in_rootMessageId inp of Some r \<Rightarrow> Some r
                  | None \<Rightarrow> Option.bind (in_replyTarget inp) ft_rootMessageId)
      in \<lparr>co_endpoint = co_endpoint inp, co_locusId = co_locusId inp, co_sessionId = co_sessionId inp,
          dl_deliveryId = did, dl_messageId = in_messageId inp, dl_rootMessageId = root,
          dl_senderOpenId = in_senderOpenId inp, dl_senderName = in_senderName inp,
          dl_text = in_text inp, dl_addressing = in_addressing inp, dl_docComment = in_docComment inp,
          dl_replyTarget = in_replyTarget inp, dl_replyToMessageId = in_replyToMessageId inp,
          dl_turnId = None, dl_executionId = None, dl_inboxMessageId = None,
          dl_imageRouteRejected = False, dl_startupDisposition = None, dl_startupRecoveryDebt = None,
          dl_dispatchFailure = None, dl_sequence = sequence, dl_status = Accepted,
          dl_feedbackTarget = cloneFeedbackTarget (co_endpoint inp) (in_messageId inp) root,
          dl_queueState = Some Backlog, dl_deadlineAt = Some (acceptedAt + DEFAULT_DELIVERY_LEASE_MS),
          dl_hardDeadlineAt = Some (acceptedAt + MAX_DELIVERY_LEASE_MS), dl_revision = Some 0,
          dl_stateRevision = None, dl_finishOutcome = None, dl_outboundResult = Some ONone,
          dl_outboundAttemptedAt = None, dl_outboundResultAt = None, dl_outboundDiagnostic = None,
          dl_acceptedAt = Some acceptedAt, dl_queuedAt = None, dl_startedAt = None,
          dl_settledAt = None, dl_failedAt = None, dl_finishedAt = None, dl_expiredAt = None,
          dl_failureReason = None\<rparr>)"

text \<open>\<open>clock\<close> is \<open>Date.now()\<close>.\<close>

definition acceptDelivery :: "int \<Rightarrow> ledger \<Rightarrow> delivery_input \<Rightarrow> throw + acceptance" where
  "acceptDelivery clock st inp =
     err_bind (assertIdentifier (in_messageId inp)) (\<lambda>_.
       case map_of (lg_byMessageId st) (in_messageId inp) of
         Some existing \<Rightarrow>
           Inr \<lparr>ac_state = st, ac_record = existing, ac_duplicate = True,
                ac_conflict = (\<not> correlates existing inp)\<rparr>
       | None \<Rightarrow>
           err_bind (validateDeliveryInput inp) (\<lambda>_.
           err_bind (check_option assertIdentifier (in_deliveryId inp)) (\<lambda>_.
             let sequence = lg_nextDeliverySequence st;
                 did = (case in_deliveryId inp of Some d \<Rightarrow> d
                        | None \<Rightarrow> js ''delivery-'' @ number_text sequence);
                 r = accepted_record inp did sequence (or_else (in_acceptedAt inp) clock)
             in err_bind (ensure (\<not> has (lg_byDeliveryId st) did) TypeErr) (\<lambda>_.
                err_bind (ensure (safe_integer sequence \<and> 1 \<le> sequence) RangeErr) (\<lambda>_.
                  Inr \<lparr>ac_state = \<lparr>lg_byMessageId = AList.update (in_messageId inp) r (lg_byMessageId st),
                                  lg_byDeliveryId = AList.update did r (lg_byDeliveryId st),
                                  lg_nextDeliverySequence = sequence + 1\<rparr>,
                       ac_record = r, ac_duplicate = False, ac_conflict = False\<rparr>)))))"

subsection \<open>The lease of the current delivery\<close>

text \<open>\<open>{ ...current, \<dots>, revision: nextRevision(current) }\<close>, persisted.\<close>

definition lease_step :: "ledger \<Rightarrow> delivery_record \<Rightarrow> delivery_record \<Rightarrow> throw + mutation" where
  "lease_step st cur r =
     err_bind (nextRevision cur) (\<lambda>rv. Inr (changed st (r\<lparr>dl_revision := Some rv\<rparr>)))"

text \<open>\<open>input.expectedRevision !== undefined && current.revision !== input.expectedRevision\<close>\<close>

definition revision_conflict :: "int option \<Rightarrow> int option \<Rightarrow> bool" where
  "revision_conflict expected rv \<longleftrightarrow> expected \<noteq> None \<and> rv \<noteq> expected"

definition expireDelivery :: "ledger \<Rightarrow> 'a lease_input_scheme \<Rightarrow> throw + mutation" where
  "expireDelivery st i =
     err_bind (validateLeaseInput i) (\<lambda>_.
       case map_of (lg_byDeliveryId st) (li_deliveryId i) of
         None \<Rightarrow> Inr (unchanged st UnknownDelivery None)
       | Some cur \<Rightarrow>
           if \<not> correlates cur i then Inr (unchanged st CorrelationMismatch (Some cur))
           else if revision_conflict (li_expectedRevision i) (dl_revision cur)
           then Inr (unchanged st RevisionMismatch (Some cur))
           else if dl_status cur \<in> TERMINAL_STATUSES then Inr (unchanged st AlreadyTerminal (Some cur))
           else if dl_status cur \<notin> PENDING_STATUSES then Inr (unchanged st InvalidTransition (Some cur))
           else (let hard = hard_cap cur;
                     dueAt = (if dl_status cur \<in> CURRENT_STATUSES
                              then (case (hard, dl_deadlineAt cur) of
                                      (None, d) \<Rightarrow> d | (h, None) \<Rightarrow> h
                                    | (Some h, Some d) \<Rightarrow> Some (min d h))
                              else hard)
                 in if (case dueAt of None \<Rightarrow> True | Some d \<Rightarrow> li_now i < d)
                    then Inr (unchanged st DeadlineNotReached (Some cur))
                    else if dl_status cur = Finishing
                    then Inr (unchanged st InvalidTransition (Some cur))
                    else lease_step st cur (cur\<lparr>dl_queueState := None, dl_status := Expired,
                           dl_expiredAt := Some (li_now i),
                           dl_failureReason := Some (or_else (dl_failureReason cur)
                             (js ''delivery deadline expired''))\<rparr>)))"

definition currentForCorrelation ::
  "ledger \<Rightarrow> 'a correlation_scheme \<Rightarrow> delivery_record list" where
  "currentForCorrelation st c =
     filter (\<lambda>r. correlates r c \<and> dl_status r \<in> CURRENT_STATUSES) (records st)"

definition claim_lease :: "'a claim_input_scheme \<Rightarrow> delivery_record \<Rightarrow> lease_input" where
  "claim_lease i r =
     \<lparr>co_endpoint = co_endpoint i, co_locusId = co_locusId i, co_sessionId = co_sessionId i,
      li_deliveryId = dl_deliveryId r, li_now = cl_now i,
      li_expectedRevision = (case dl_revision r of Some n \<Rightarrow> Some n | None \<Rightarrow> cl_expectedRevision i)\<rparr>"

definition promoted :: "'a claim_input_scheme \<Rightarrow> delivery_record \<Rightarrow> int \<Rightarrow> delivery_record" where
  "promoted i r hard =
     r\<lparr>dl_status := Current, dl_queueState := Some InCurrent,
       dl_deadlineAt := Some (min (max (or_else (dl_deadlineAt r) 0)
                                       (cl_now i + MIN_PROMOTED_DELIVERY_LEASE_MS)) hard),
       dl_hardDeadlineAt := Some (or_else (dl_hardDeadlineAt r) hard)\<rparr>"

definition claimCurrentDelivery :: "ledger \<Rightarrow> 'a claim_input_scheme \<Rightarrow> throw + mutation" where
  "claimCurrentDelivery st i =
     err_bind (validateCorrelation i) (\<lambda>_.
     err_bind (validateAt (Some (cl_now i))) (\<lambda>_.
     err_bind (validateAt (cl_expectedRevision i)) (\<lambda>_.
       case currentForCorrelation st i of
         [r] \<Rightarrow> Inr (unchanged st CurrentOccupied (Some r))
       | _ # _ # _ \<Rightarrow> Inr (unchanged st CurrentOccupied None)
       | [] \<Rightarrow>
         (case sort_key dl_sequence
                 (filter (\<lambda>r. correlates r i \<and> dl_status r \<in> QUEUED_STATUSES) (records st)) of
            [] \<Rightarrow> Inr (unchanged st NoPendingDelivery None)
          | nxt # _ \<Rightarrow>
              if cl_deliveryId i \<noteq> None \<and> Some (dl_deliveryId nxt) \<noteq> cl_deliveryId i
              then Inr (unchanged st NotOldest (Some nxt))
              else let hard = or_else (dl_hardDeadlineAt nxt)
                         (or_else (dl_acceptedAt nxt) 0 + MAX_DELIVERY_LEASE_MS)
                in if hard \<le> cl_now i then expireDelivery st (claim_lease i nxt)
                   else if cl_expectedRevision i \<noteq> None
                     \<and> Some (or_else (dl_revision nxt) 0) \<noteq> cl_expectedRevision i
                   then Inr (unchanged st RevisionMismatch (Some nxt))
                   else lease_step st nxt (promoted i nxt hard)))))"

text \<open>The common part of \<open>abandonInterruptedDelivery\<close> and \<open>abandonRefusedDelivery\<close>.\<close>

definition abandon ::
  "(delivery_record \<Rightarrow> delivery_record) \<Rightarrow> ledger \<Rightarrow> 'a lease_input_scheme \<Rightarrow> throw + mutation" where
  "abandon f st i =
     err_bind (validateLeaseInput i) (\<lambda>_.
       case map_of (lg_byDeliveryId st) (li_deliveryId i) of
         None \<Rightarrow> Inr (unchanged st UnknownDelivery None)
       | Some cur \<Rightarrow>
           if \<not> correlates cur i then Inr (unchanged st CorrelationMismatch (Some cur))
           else if revision_conflict (li_expectedRevision i) (dl_revision cur)
           then Inr (unchanged st RevisionMismatch (Some cur))
           else if dl_status cur \<in> TERMINAL_STATUSES then Inr (unchanged st AlreadyTerminal (Some cur))
           else if dl_status cur \<noteq> Current then Inr (unchanged st InvalidTransition (Some cur))
           else lease_step st cur (f (cur\<lparr>dl_queueState := None, dl_status := Failed,
                  dl_failedAt := Some (li_now i)\<rparr>)))"

definition INTERRUPTED_DELIVERY_FAILURE_REASON :: jstr where
  "INTERRUPTED_DELIVERY_FAILURE_REASON =
     js (''The child turn bound to this Delivery ended interrupted (the Host restarted mid-turn), so no execution can ever settle it. ''
       @ ''The message already reached the child inbox and is NOT resent.'')"

definition abandonInterruptedDelivery :: "ledger \<Rightarrow> 'a lease_input_scheme \<Rightarrow> throw + mutation" where
  "abandonInterruptedDelivery =
     abandon (\<lambda>r. r\<lparr>dl_startupDisposition := Some TurnInterrupted,
       dl_failureReason := Some (or_else (dl_failureReason r) INTERRUPTED_DELIVERY_FAILURE_REASON)\<rparr>)"

definition abandonRefusedDelivery :: "ledger \<Rightarrow> 'a lease_input_scheme \<Rightarrow> throw + mutation" where
  "abandonRefusedDelivery =
     abandon (\<lambda>r. r\<lparr>dl_failureReason := Some (js ''reply-refused'')\<rparr>)"

definition markFinishing :: "ledger \<Rightarrow> 'a lease_input_scheme \<Rightarrow> throw + mutation" where
  "markFinishing st i =
     err_bind (validateLeaseInput i) (\<lambda>_.
       case map_of (lg_byDeliveryId st) (li_deliveryId i) of
         None \<Rightarrow> Inr (unchanged st UnknownDelivery None)
       | Some cur \<Rightarrow>
           if \<not> correlates cur i then Inr (unchanged st CorrelationMismatch (Some cur))
           else if revision_conflict (li_expectedRevision i) (Some (or_else (dl_revision cur) 0))
           then Inr (unchanged st RevisionMismatch (Some cur))
           else if dl_status cur = Finishing then Inr (unchanged st AlreadyInState (Some cur))
           else if dl_status cur \<noteq> Current
           then Inr (unchanged st (if dl_status cur \<in> TERMINAL_STATUSES then AlreadyTerminal
                                   else InvalidTransition) (Some cur))
           else if isDeliveryExpiredAt cur (li_now i)
           then Inr (unchanged st DeadlineExpired (Some cur))
           else lease_step st cur (cur\<lparr>dl_status := Finishing, dl_finishOutcome := Some Reply,
                  dl_finishedAt := Some (li_now i)\<rparr>))"

definition completed :: "'a finish_input_scheme \<Rightarrow> delivery_record \<Rightarrow> delivery_record" where
  "completed i cur =
     (let res = or_else (fi_outboundResult i) (if fi_outcome i = NoReply then ONone else OUnknown)
      in cur\<lparr>dl_queueState := None,
           dl_status := (if fi_outcome i = NoReply then NoReplySent
                         else if res = OSuccess then Replied
                         else if res = OUnknown then UnknownTerminal else Failed),
           dl_finishOutcome := Some (fi_outcome i), dl_outboundResult := Some res,
           dl_outboundAttemptedAt := (if res = ONone then dl_outboundAttemptedAt cur
             else Some (or_else (dl_finishedAt cur) (li_now i))),
           dl_outboundResultAt := (if res = ONone then dl_outboundResultAt cur else Some (li_now i)),
           dl_outboundDiagnostic :=
             (case (if fi_outcome i = NoReply then fi_reason i else fi_outboundDiagnostic i) of
                None \<Rightarrow> dl_outboundDiagnostic cur | Some d \<Rightarrow> Some d)\<rparr>)"

definition completeDelivery :: "ledger \<Rightarrow> 'a finish_input_scheme \<Rightarrow> throw + mutation" where
  "completeDelivery st i =
     err_bind (validateLeaseInput i) (\<lambda>_.
       case map_of (lg_byDeliveryId st) (li_deliveryId i) of
         None \<Rightarrow> Inr (unchanged st UnknownDelivery None)
       | Some cur \<Rightarrow>
           if (if fi_outcome i = NoReply
               then (fi_outboundResult i \<noteq> None \<and> fi_outboundResult i \<noteq> Some ONone)
                    \<or> (case fi_reason i of None \<Rightarrow> True | Some t \<Rightarrow> trim t = [])
               else fi_outboundResult i = None \<or> fi_outboundResult i = Some ONone)
           then Inr (unchanged st InvalidTransition (Some cur))
           else if \<not> correlates cur i then Inr (unchanged st CorrelationMismatch (Some cur))
           else if revision_conflict (li_expectedRevision i) (dl_revision cur)
           then Inr (unchanged st RevisionMismatch (Some cur))
           else if dl_status cur \<in> TERMINAL_STATUSES then Inr (unchanged st AlreadyTerminal (Some cur))
           else if dl_status cur \<noteq> Finishing \<and> \<not> (fi_outcome i = NoReply \<and> dl_status cur = Current)
           then Inr (unchanged st InvalidTransition (Some cur))
           else if dl_status cur = Current \<and> isDeliveryExpiredAt cur (li_now i)
           then Inr (unchanged st DeadlineExpired (Some cur))
           else lease_step st cur (completed i cur))"

definition waitDelivery :: "ledger \<Rightarrow> 'a wait_input_scheme \<Rightarrow> throw + mutation" where
  "waitDelivery st i =
     err_bind (validateLeaseInput i) (\<lambda>_.
       if wi_waitMinutes i < 1 \<or> wi_waitMinutes i > 1440
       then Inr (unchanged st InvalidWait (map_of (lg_byDeliveryId st) (li_deliveryId i)))
       else case map_of (lg_byDeliveryId st) (li_deliveryId i) of
         None \<Rightarrow> Inr (unchanged st UnknownDelivery None)
       | Some cur \<Rightarrow>
           if \<not> correlates cur i then Inr (unchanged st CorrelationMismatch (Some cur))
           else if revision_conflict (li_expectedRevision i) (dl_revision cur)
           then Inr (unchanged st RevisionMismatch (Some cur))
           else if dl_status cur \<noteq> Current
           then Inr (unchanged st (if dl_status cur \<in> TERMINAL_STATUSES then AlreadyTerminal
                                   else InvalidTransition) (Some cur))
           else if isDeliveryExpiredAt cur (li_now i)
           then Inr (unchanged st DeadlineExpired (Some cur))
           else (let hard = or_else (dl_hardDeadlineAt cur)
                       (or_else (dl_acceptedAt cur) (li_now i) + MAX_DELIVERY_LEASE_MS);
                     requested = li_now i + wi_waitMinutes i * 60 * 1000;
                     existing = or_else (dl_deadlineAt cur) (li_now i);
                     effective = min (max existing requested) hard
                 in if effective \<le> existing
                    then Inr (unchanged st DeadlineAlreadySufficient (Some cur))
                    else lease_step st cur (cur\<lparr>dl_deadlineAt := Some effective,
                           dl_hardDeadlineAt := Some hard\<rparr>)))"

subsection \<open>Execution and turn proofs\<close>

text \<open>\<open>x !== undefined && y !== undefined && x < y\<close>\<close>

fun before :: "int option \<Rightarrow> int option \<Rightarrow> bool" where
  "before (Some x) (Some y) = (x < y)"
| "before _ _ = False"

text \<open>\<open>...(x !== undefined ? { field: x } : {})\<close>: a given value replaces the old one.\<close>

fun given :: "'a option \<Rightarrow> 'a option \<Rightarrow> 'a option" where
  "given (Some x) old = Some x"
| "given None old = old"

definition bindQueued :: "ledger \<Rightarrow> 'a queued_input_scheme \<Rightarrow> throw + mutation" where
  "bindQueued st i =
     err_bind (assertIdentifier (qi_deliveryId i)) (\<lambda>_.
     err_bind (validateCorrelation i) (\<lambda>_.
     err_bind (assertIdentifier (qi_executionId i)) (\<lambda>_.
     err_bind (assertIdentifier (qi_inboxMessageId i)) (\<lambda>_.
     err_bind (validateAt (qi_queuedAt i)) (\<lambda>_.
       case map_of (lg_byDeliveryId st) (qi_deliveryId i) of
         None \<Rightarrow> Inr (unchanged st UnknownDelivery None)
       | Some cur \<Rightarrow>
           if \<not> correlates cur i then Inr (unchanged st CorrelationMismatch (Some cur))
           else if dl_executionId cur \<noteq> None \<and> dl_executionId cur \<noteq> Some (qi_executionId i)
           then Inr (unchanged st CorrelationMismatch (Some cur))
           else if list_ex (\<lambda>r. dl_deliveryId r \<noteq> dl_deliveryId cur
                    \<and> dl_inboxMessageId r = Some (qi_inboxMessageId i)) (records st)
           then Inr (unchanged st InboxMessageConflict (Some cur))
           else if dl_status cur \<in> TERMINAL_STATUSES then Inr (unchanged st AlreadyTerminal (Some cur))
           else if dl_status cur = Queued \<and> dl_executionId cur = Some (qi_executionId i)
           then Inr (unchanged st AlreadyInState (Some cur))
           else if before (qi_queuedAt i) (dl_acceptedAt cur) then Inl TypeErr
           else if dl_status cur \<noteq> Accepted \<and> dl_status cur \<noteq> Current
           then Inr (unchanged st InvalidTransition (Some cur))
           else Inr (changed st (cur\<lparr>dl_executionId := Some (qi_executionId i),
                  dl_inboxMessageId := Some (qi_inboxMessageId i),
                  dl_status := (if dl_status cur = Current then Current else Queued),
                  dl_queuedAt := given (qi_queuedAt i) (dl_queuedAt cur)\<rparr>)))))))"

definition bindTurn :: "ledger \<Rightarrow> 'a bind_input_scheme \<Rightarrow> throw + mutation" where
  "bindTurn st i =
     err_bind (assertIdentifier (bi_deliveryId i)) (\<lambda>_.
     err_bind (validateCorrelation i) (\<lambda>_.
     err_bind (assertIdentifier (bi_executionId i)) (\<lambda>_.
     err_bind (assertIdentifier (bi_turnId i)) (\<lambda>_.
     err_bind (validateAt (bi_startedAt i)) (\<lambda>_.
       case map_of (lg_byDeliveryId st) (bi_deliveryId i) of
         None \<Rightarrow> Inr (unchanged st UnknownDelivery None)
       | Some cur \<Rightarrow>
           if \<not> correlates cur i then Inr (unchanged st CorrelationMismatch (Some cur))
           else if dl_executionId cur \<noteq> Some (bi_executionId i)
           then Inr (unchanged st CorrelationMismatch (Some cur))
           else if dl_turnId cur \<noteq> None \<and> dl_turnId cur \<noteq> Some (bi_turnId i)
           then Inr (unchanged st CorrelationMismatch (Some cur))
           else if dl_status cur = Running \<and> dl_turnId cur = Some (bi_turnId i)
           then Inr (unchanged st AlreadyInState (Some cur))
           else if dl_status cur \<in> TERMINAL_STATUSES then Inr (unchanged st AlreadyTerminal (Some cur))
           else if before (bi_startedAt i) (dl_queuedAt cur) then Inl TypeErr
           else if dl_status cur \<noteq> Queued \<and> dl_status cur \<noteq> Current
           then Inr (unchanged st InvalidTransition (Some cur))
           else Inr (changed st (cur\<lparr>dl_turnId := Some (bi_turnId i),
                  dl_status := (if dl_status cur = Current then Current else Running),
                  dl_startedAt := given (bi_startedAt i) (dl_startedAt cur)\<rparr>)))))))"

definition queued_input_for ::
  "'a correlation_scheme \<Rightarrow> jstr \<Rightarrow> jstr \<Rightarrow> int option \<Rightarrow> queued_input" where
  "queued_input_for c did ex at =
     \<lparr>co_endpoint = co_endpoint c, co_locusId = co_locusId c, co_sessionId = co_sessionId c,
      qi_deliveryId = did, qi_executionId = ex, qi_inboxMessageId = ex, qi_queuedAt = at\<rparr>"

definition bind_input_for ::
  "'a correlation_scheme \<Rightarrow> jstr \<Rightarrow> jstr \<Rightarrow> jstr \<Rightarrow> int option \<Rightarrow> bind_input" where
  "bind_input_for c did ex turn at =
     \<lparr>co_endpoint = co_endpoint c, co_locusId = co_locusId c, co_sessionId = co_sessionId c,
      bi_deliveryId = did, bi_executionId = ex, bi_turnId = turn, bi_startedAt = at\<rparr>"

definition bindDeliveryTurn :: "ledger \<Rightarrow> 'a bind_input_scheme \<Rightarrow> throw + mutation" where
  "bindDeliveryTurn st i =
     err_bind (bindQueued st (queued_input_for i (bi_deliveryId i) (bi_executionId i) None)) (\<lambda>m.
       if mu_changed m \<or> mu_reason m = Some AlreadyInState then bindTurn (mu_state m) i else Inr m)"

definition queueDelivery ::
  "ledger \<Rightarrow> jstr \<Rightarrow> 'a correlation_scheme \<Rightarrow> int option \<Rightarrow> jstr option \<Rightarrow> throw + mutation" where
  "queueDelivery st did c queuedAt executionId =
     (case executionId of
        None \<Rightarrow> Inr (unchanged st ExecutionProofRequired (map_of (lg_byDeliveryId st) did))
      | Some ex \<Rightarrow> bindQueued st (queued_input_for c did ex queuedAt))"

definition startDelivery ::
  "ledger \<Rightarrow> jstr \<Rightarrow> 'a correlation_scheme \<Rightarrow> int option \<Rightarrow> jstr option \<Rightarrow> jstr option
     \<Rightarrow> throw + mutation" where
  "startDelivery st did c startedAt executionId turnId =
     (case (executionId, turnId) of
        (Some ex, Some turn) \<Rightarrow> bindTurn st (bind_input_for c did ex turn startedAt)
      | _ \<Rightarrow> Inr (unchanged st ExecutionProofRequired (map_of (lg_byDeliveryId st) did)))"

subsection \<open>Settlement\<close>

fun outcome_status :: "delivery_outcome \<Rightarrow> delivery_status" where
  "outcome_status OSettled = Settled"
| "outcome_status OFailed = Failed"

definition prior_timestamp :: "delivery_record \<Rightarrow> int" where
  "prior_timestamp r =
     (case dl_startedAt r of Some t \<Rightarrow> t | None \<Rightarrow>
       (case dl_queuedAt r of Some t \<Rightarrow> t | None \<Rightarrow> or_else (dl_acceptedAt r) 0))"

definition settled_record :: "settlement_input \<Rightarrow> delivery_record \<Rightarrow> delivery_record" where
  "settled_record i cur =
     cur\<lparr>dl_status := outcome_status (se_outcome i),
         dl_settledAt := (if se_outcome i = OSettled then given (se_settledAt i) (dl_settledAt cur)
                          else dl_settledAt cur),
         dl_failedAt := (if se_outcome i = OFailed then given (se_settledAt i) (dl_failedAt cur)
                         else dl_failedAt cur),
         dl_failureReason := given (se_failureReason i) (dl_failureReason cur)\<rparr>"

definition settleByTurn :: "ledger \<Rightarrow> settlement_input \<Rightarrow> throw + mutation" where
  "settleByTurn st i =
     err_bind (assertIdentifier (se_deliveryId i)) (\<lambda>_.
     err_bind (validateCorrelation (se_correlation i)) (\<lambda>_.
     err_bind (assertIdentifier (se_executionId i)) (\<lambda>_.
     err_bind (assertIdentifier (se_turnId i)) (\<lambda>_.
     err_bind (validateAt (se_settledAt i)) (\<lambda>_.
       case map_of (lg_byDeliveryId st) (se_deliveryId i) of
         None \<Rightarrow> Inr (unchanged st UnknownDelivery None)
       | Some cur \<Rightarrow>
           if \<not> correlates cur (se_correlation i) then Inr (unchanged st CorrelationMismatch (Some cur))
           else if dl_executionId cur \<noteq> Some (se_executionId i) \<or> dl_turnId cur \<noteq> Some (se_turnId i)
           then Inr (unchanged st CorrelationMismatch (Some cur))
           else if dl_status cur = outcome_status (se_outcome i)
           then Inr (unchanged st AlreadyInState (Some cur))
           else if dl_status cur \<in> TERMINAL_STATUSES then Inr (unchanged st AlreadyTerminal (Some cur))
           else if dl_status cur \<noteq> Running then Inr (unchanged st InvalidTransition (Some cur))
           else if before (se_settledAt i) (Some (prior_timestamp cur)) then Inl TypeErr
           else if before (se_settledAt i) (dl_startedAt cur) then Inl TypeErr
           else Inr (changed st (settled_record i cur)))))))"

definition settleDelivery :: "ledger \<Rightarrow> settlement_input \<Rightarrow> throw + mutation" where
  "settleDelivery st i =
     (if se_settledAt i = None
      then Inr (unchanged st ExecutionProofRequired (map_of (lg_byDeliveryId st) (se_deliveryId i)))
      else settleByTurn st i)"

definition failDelivery :: "ledger \<Rightarrow> settlement_input \<Rightarrow> throw + mutation" where
  "failDelivery st i = settleByTurn st (i\<lparr>se_outcome := OFailed\<rparr>)"

definition settleNextDelivery :: "ledger \<Rightarrow> 'a fifo_input_scheme \<Rightarrow> throw + mutation" where
  "settleNextDelivery st i =
     err_bind (validateCorrelation i) (\<lambda>_.
     err_bind (validateAt (Some (ff_settledAt i))) (\<lambda>_.
       case filter (\<lambda>r. dl_status r = Running \<and> correlates r i \<and> dl_executionId r = Some (ff_executionId i)
                      \<and> dl_turnId r = Some (ff_turnId i)) (records st) of
         [] \<Rightarrow> Inr (unchanged st NoPendingDelivery None)
       | [r] \<Rightarrow> settleByTurn st
           \<lparr>se_executionId = ff_executionId i, se_turnId = ff_turnId i, se_deliveryId = dl_deliveryId r,
            se_outcome = ff_outcome i,
            se_correlation = \<lparr>co_endpoint = co_endpoint i, co_locusId = co_locusId i,
              co_sessionId = co_sessionId i, tc_turnId = Some (ff_turnId i)\<rparr>,
            se_settledAt = Some (ff_settledAt i), se_failureReason = ff_failureReason i\<rparr>
       | _ \<Rightarrow> Inr (unchanged st CorrelationMismatch None)))"

definition isTurnCorrelation :: "turn_correlation option \<Rightarrow> bool" where
  "isTurnCorrelation c =
     (case Option.bind c tc_turnId of None \<Rightarrow> False | Some t \<Rightarrow> trim t \<noteq> [])"

text \<open>Spreading an absent correlation leaves \<open>endpoint\<close> undefined, which \<open>validateCorrelation\<close> refuses.\<close>

definition transitionDelivery :: "ledger \<Rightarrow> transition_input \<Rightarrow> throw + mutation" where
  "transitionDelivery st i =
     err_bind (assertIdentifier (ti_deliveryId i)) (\<lambda>_.
     err_bind (validateAt (ti_at i)) (\<lambda>_.
       case map_of (lg_byDeliveryId st) (ti_deliveryId i) of
         None \<Rightarrow> Inr (unchanged st UnknownDelivery None)
       | Some cur \<Rightarrow>
           if (case ti_correlation i of None \<Rightarrow> False | Some c \<Rightarrow> \<not> correlates cur c)
           then Inr (unchanged st CorrelationMismatch (Some cur))
           else (case (ti_status i, ti_correlation i, ti_executionId i, ti_turnId i) of
               (ToQueued, _, None, _) \<Rightarrow> Inr (unchanged st ExecutionProofRequired (Some cur))
             | (ToQueued, None, Some ex, _) \<Rightarrow> Inl TypeErr
             | (ToQueued, Some c, Some ex, _) \<Rightarrow>
                 bindQueued st (queued_input_for c (ti_deliveryId i) ex (ti_at i))
             | (ToRunning, Some c, Some ex, Some turn) \<Rightarrow>
                 if isTurnCorrelation (Some c)
                 then bindTurn st (bind_input_for c (ti_deliveryId i) ex turn (ti_at i))
                 else Inr (unchanged st ExecutionProofRequired (Some cur))
             | (ToOutcome out, Some c, Some ex, Some turn) \<Rightarrow>
                 if ti_at i \<noteq> None \<and> isTurnCorrelation (Some c)
                 then settleByTurn st
                   \<lparr>se_executionId = ex, se_turnId = turn, se_deliveryId = ti_deliveryId i,
                    se_outcome = out, se_correlation = c, se_settledAt = ti_at i,
                    se_failureReason = ti_failureReason i\<rparr>
                 else Inr (unchanged st ExecutionProofRequired (Some cur))
             | _ \<Rightarrow> Inr (unchanged st ExecutionProofRequired (Some cur)))))"

subsection \<open>Queries\<close>

definition getDelivery :: "ledger \<Rightarrow> jstr \<Rightarrow> delivery_record option" where
  "getDelivery st did = map_of (lg_byDeliveryId st) did"

definition getDeliveryByMessageId :: "ledger \<Rightarrow> jstr \<Rightarrow> delivery_record option" where
  "getDeliveryByMessageId st mid = map_of (lg_byMessageId st) mid"

definition listDeliveries :: "ledger \<Rightarrow> delivery_record list" where
  "listDeliveries st = sort_key dl_sequence (records st)"

fun oldest :: "delivery_record list \<Rightarrow> delivery_record option \<Rightarrow> delivery_record option" where
  "oldest [] acc = acc"
| "oldest (r # rs) acc =
     oldest rs (case acc of None \<Rightarrow> Some r
                | Some o' \<Rightarrow> if dl_sequence r < dl_sequence o' then Some r else acc)"

definition findOldestPendingDelivery ::
  "ledger \<Rightarrow> 'a correlation_scheme \<Rightarrow> throw + delivery_record option" where
  "findOldestPendingDelivery st c =
     err_bind (validateCorrelation c) (\<lambda>_.
       Inr (oldest (filter (\<lambda>r. dl_status r \<in> PENDING_STATUSES \<and> correlates r c) (records st)) None))"

definition findPendingDeliveryByProof ::
  "ledger \<Rightarrow> 'a fifo_input_scheme \<Rightarrow> throw + delivery_record option" where
  "findPendingDeliveryByProof st i =
     err_bind (validateCorrelation i) (\<lambda>_.
       Inr (oldest (filter (\<lambda>r. dl_status r \<in> PENDING_STATUSES \<and> correlates r i
              \<and> dl_executionId r = Some (ff_executionId i) \<and> dl_turnId r = Some (ff_turnId i))
            (records st)) None))"

definition feedbackTargetForDelivery :: "ledger \<Rightarrow> jstr \<Rightarrow> feedback_target option" where
  "feedbackTargetForDelivery st did =
     map_option (\<lambda>r. cloneFeedbackTarget (co_endpoint r) (dl_messageId r)
                       (ft_rootMessageId (dl_feedbackTarget r))) (getDelivery st did)"

end
