(* ===== verification/PetDeliverySafety.thy ===== *)
theory PetDeliverySafety
  imports PetDelivery
begin

text \<open>
  The contract of the delivery ledger. Every operation leaves the ledger as it is or replaces one record
  by a successor that \<open>advances\<close> it; \<open>ledger_ok\<close> is the invariant of the two indexes, \<open>ledger_le\<close> what
  no operation undoes. Both are shown once, for a replacement, and lifted to runs by the locale
  \<open>monotone_system\<close>.
\<close>

subsection \<open>A record and its successor\<close>

fun next_statuses :: "delivery_status \<Rightarrow> delivery_status set" where
  "next_statuses Accepted = {Queued, Current, Expired}"
| "next_statuses Queued = {Running, Current, Expired}"
| "next_statuses Running = {Settled, Failed, Expired}"
| "next_statuses Current = {Current, Finishing, NoReplySent, Failed, Expired}"
| "next_statuses Finishing = {Replied, NoReplySent, Failed, UnknownTerminal}"
| "next_statuses _ = {}"

text \<open>The protocol of one delivery: a walk along \<open>next_statuses\<close>.\<close>

definition status_run :: "delivery_status \<Rightarrow> delivery_status \<Rightarrow> bool" where
  "status_run = (\<lambda>x y. y \<in> next_statuses x)\<^sup>*\<^sup>*"

definition same_identity :: "delivery_record \<Rightarrow> delivery_record \<Rightarrow> bool" where
  "same_identity r r' \<longleftrightarrow>
     dl_deliveryId r' = dl_deliveryId r \<and> dl_messageId r' = dl_messageId r \<and>
     co_endpoint r' = co_endpoint r \<and> co_locusId r' = co_locusId r \<and>
     co_sessionId r' = co_sessionId r \<and> dl_sequence r' = dl_sequence r \<and>
     dl_feedbackTarget r' = dl_feedbackTarget r \<and> dl_acceptedAt r' = dl_acceptedAt r \<and>
     dl_text r' = dl_text r \<and> dl_senderOpenId r' = dl_senderOpenId r \<and>
     dl_rootMessageId r' = dl_rootMessageId r \<and> dl_startupRecoveryDebt r' = dl_startupRecoveryDebt r"

definition record_ok :: "delivery_record \<Rightarrow> bool" where
  "record_ok r \<longleftrightarrow>
     (\<exists>a d rv. dl_acceptedAt r = Some a \<and> dl_hardDeadlineAt r = Some (a + MAX_DELIVERY_LEASE_MS) \<and>
        dl_deadlineAt r = Some d \<and> d \<le> a + MAX_DELIVERY_LEASE_MS \<and>
        dl_revision r = Some rv \<and> 0 \<le> rv) \<and>
     dl_feedbackTarget r = cloneFeedbackTarget (co_endpoint r) (dl_messageId r) (dl_rootMessageId r) \<and>
     (dl_status r \<in> {Queued, Running, Settled} \<longrightarrow> dl_executionId r \<noteq> None) \<and>
     (dl_status r \<in> {Running, Settled} \<longrightarrow> dl_turnId r \<noteq> None) \<and>
     (dl_status r \<in> {Finishing, Replied, UnknownTerminal} \<longrightarrow> dl_finishOutcome r = Some Reply) \<and>
     (dl_status r = NoReplySent \<longrightarrow> dl_finishOutcome r = Some NoReply) \<and>
     (dl_status r = Replied \<longleftrightarrow> dl_outboundResult r = Some OSuccess)"

definition advances :: "delivery_record \<Rightarrow> delivery_record \<Rightarrow> bool" where
  "advances r r' \<longleftrightarrow> same_identity r r' \<and> dl_status r' \<in> next_statuses (dl_status r) \<and>
     or_else (dl_revision r) 0 \<le> or_else (dl_revision r') 0 \<and> (record_ok r \<longrightarrow> record_ok r')"

lemma status_run_refl [simp]: "status_run st st"
  by (simp add: status_run_def)

lemma status_run_step: "st' \<in> next_statuses st \<Longrightarrow> status_run st st'"
  unfolding status_run_def by (rule r_into_rtranclp)

lemma status_run_trans: "status_run a b \<Longrightarrow> status_run b c \<Longrightarrow> status_run a c"
  unfolding status_run_def by (rule rtranclp_trans)

lemma next_statuses_terminal: "st' \<in> next_statuses st \<Longrightarrow> st \<notin> TERMINAL_STATUSES"
  by (cases st) (simp_all add: TERMINAL_STATUSES_def)

lemma advances_terminal: "advances r r' \<Longrightarrow> dl_status r \<notin> TERMINAL_STATUSES"
  by (auto simp: advances_def dest: next_statuses_terminal)

lemmas status_sets = TERMINAL_STATUSES_def PENDING_STATUSES_def QUEUED_STATUSES_def CURRENT_STATUSES_def

subsection \<open>The invariant of the ledger\<close>

definition one_current :: "index \<Rightarrow> bool" where
  "one_current m \<longleftrightarrow> (\<forall>k k' r r'. map_of m k = Some r \<longrightarrow> map_of m k' = Some r' \<longrightarrow>
     dl_status r \<in> CURRENT_STATUSES \<longrightarrow> dl_status r' \<in> CURRENT_STATUSES \<longrightarrow> correlates r r' \<longrightarrow> k = k')"

definition indexes_ok :: "ledger \<Rightarrow> bool" where
  "indexes_ok st \<longleftrightarrow>
     distinct (keys (lg_byDeliveryId st)) \<and> distinct (keys (lg_byMessageId st)) \<and>
     (\<forall>k r. map_of (lg_byDeliveryId st) k = Some r \<longrightarrow>
        dl_deliveryId r = k \<and> map_of (lg_byMessageId st) (dl_messageId r) = Some r) \<and>
     (\<forall>k r. map_of (lg_byMessageId st) k = Some r \<longrightarrow>
        dl_messageId r = k \<and> map_of (lg_byDeliveryId st) (dl_deliveryId r) = Some r)"

definition sequences_ok :: "ledger \<Rightarrow> bool" where
  "sequences_ok st \<longleftrightarrow> 1 \<le> lg_nextDeliverySequence st \<and>
     (\<forall>k r. map_of (lg_byDeliveryId st) k = Some r \<longrightarrow>
        1 \<le> dl_sequence r \<and> dl_sequence r < lg_nextDeliverySequence st) \<and>
     (\<forall>k k' r r'. map_of (lg_byDeliveryId st) k = Some r \<longrightarrow> map_of (lg_byDeliveryId st) k' = Some r' \<longrightarrow>
        dl_sequence r = dl_sequence r' \<longrightarrow> k = k')"

definition ledger_ok :: "ledger \<Rightarrow> bool" where
  "ledger_ok st \<longleftrightarrow> indexes_ok st \<and> sequences_ok st \<and> one_current (lg_byDeliveryId st) \<and>
     (\<forall>k r. map_of (lg_byDeliveryId st) k = Some r \<longrightarrow> record_ok r)"

definition ledger_le :: "ledger \<Rightarrow> ledger \<Rightarrow> bool" where
  "ledger_le st st' \<longleftrightarrow> lg_nextDeliverySequence st \<le> lg_nextDeliverySequence st' \<and>
     (\<forall>k r. map_of (lg_byDeliveryId st) k = Some r \<longrightarrow>
        (\<exists>r'. map_of (lg_byDeliveryId st') k = Some r' \<and> same_identity r r' \<and>
           or_else (dl_revision r) 0 \<le> or_else (dl_revision r') 0 \<and>
           status_run (dl_status r) (dl_status r') \<and>
           (dl_status r \<in> TERMINAL_STATUSES \<longrightarrow> r' = r)))"

lemma indexes_okD:
  assumes "indexes_ok st" and "map_of (lg_byDeliveryId st) k = Some r"
  shows "dl_deliveryId r = k" and "map_of (lg_byMessageId st) (dl_messageId r) = Some r"
  using assms unfolding indexes_ok_def by blast+

lemma indexes_okD2:
  assumes "indexes_ok st" and "map_of (lg_byMessageId st) k = Some r"
  shows "dl_messageId r = k" and "map_of (lg_byDeliveryId st) (dl_deliveryId r) = Some r"
  using assms unfolding indexes_ok_def by blast+

lemma set_own_order [simp]: "set (own_order m) = set m"
  by (metis mset_own_order set_mset_mset)

lemma records_iff:
  assumes "indexes_ok st"
  shows "r \<in> set (records st) \<longleftrightarrow> map_of (lg_byDeliveryId st) (dl_deliveryId r) = Some r"
proof -
  have d: "distinct (keys (lg_byDeliveryId st))" using assms by (simp add: indexes_ok_def)
  have "r \<in> set (records st) \<longleftrightarrow> (\<exists>k. (k, r) \<in> set (lg_byDeliveryId st))"
    by (force simp: records_def)
  also have "\<dots> \<longleftrightarrow> (\<exists>k. map_of (lg_byDeliveryId st) k = Some r)"
    using d by (auto dest: map_of_SomeI map_of_SomeD)
  also have "\<dots> \<longleftrightarrow> map_of (lg_byDeliveryId st) (dl_deliveryId r) = Some r"
    using indexes_okD(1) [OF assms] by metis
  finally show ?thesis .
qed

lemma distinct_records: "indexes_ok st \<Longrightarrow> distinct (records st)"
proof -
  assume ok: "indexes_ok st"
  have "mset (own_order (lg_byDeliveryId st)) = mset (lg_byDeliveryId st)" by (rule mset_own_order)
  then have "mset (keys (own_order (lg_byDeliveryId st))) = mset (keys (lg_byDeliveryId st))"
    by (metis mset_map)
  then have d: "distinct (keys (own_order (lg_byDeliveryId st)))"
    using ok by (metis indexes_ok_def mset_eq_imp_distinct_iff)
  have inj: "fst p = dl_deliveryId (snd p)" if "p \<in> set (own_order (lg_byDeliveryId st))" for p
    using that ok by (metis indexes_ok_def map_of_is_SomeI prod.collapse set_own_order)
  then have "keys (own_order (lg_byDeliveryId st)) = map dl_deliveryId (records st)"
    by (simp add: records_def)
  then show ?thesis using d by (metis distinct_map)
qed

subsection \<open>What an operation may do\<close>

text \<open>
  \<open>touches st m\<close>: the ledger is unchanged, or one of its records is replaced by one that advances it,
  and only a record whose correlation has no current delivery may become current.
\<close>

definition replaces :: "ledger \<Rightarrow> delivery_record \<Rightarrow> delivery_record \<Rightarrow> bool" where
  "replaces st cur r \<longleftrightarrow> map_of (lg_byDeliveryId st) (dl_deliveryId cur) = Some cur \<and> advances cur r \<and>
     (dl_status r \<in> CURRENT_STATUSES \<longrightarrow> dl_status cur \<in> CURRENT_STATUSES \<or>
        (\<forall>x \<in> set (records st). correlates x cur \<longrightarrow> dl_status x \<notin> CURRENT_STATUSES))"

definition touches :: "ledger \<Rightarrow> mutation \<Rightarrow> bool" where
  "touches st m \<longleftrightarrow> (\<exists>reason rec. m = unchanged st reason rec) \<or>
     (\<exists>cur r. replaces st cur r \<and> m = changed st r)"

lemma touches_unchanged [simp, intro]: "touches st (unchanged st reason rec)"
  by (auto simp: touches_def)

lemma touches_changed: "replaces st cur r \<Longrightarrow> touches st (changed st r)"
  by (auto simp: touches_def)

lemma advancesI:
  assumes "same_identity cur r" and "dl_status r \<in> next_statuses (dl_status cur)"
    and "or_else (dl_revision cur) 0 \<le> or_else (dl_revision r) 0" and "record_ok cur \<Longrightarrow> record_ok r"
  shows "advances cur r"
  using assms by (simp add: advances_def)

lemma replacesI:
  assumes "map_of (lg_byDeliveryId st) (dl_deliveryId cur) = Some cur" and "advances cur r"
    and "dl_status r \<notin> CURRENT_STATUSES \<or> dl_status cur \<in> CURRENT_STATUSES"
  shows "replaces st cur r"
  using assms by (auto simp: replaces_def)

subsection \<open>A replacement keeps the invariant\<close>

lemma correlates_sym: "correlates a b \<longleftrightarrow> correlates b a"
  by (auto simp: correlates_def sameEndpoint_def)

lemma correlates_trans: "correlates a b \<Longrightarrow> correlates b c \<Longrightarrow> correlates a c"
  by (auto simp: correlates_def sameEndpoint_def)

lemma same_identity_correlates:
  "same_identity r r' \<Longrightarrow> correlates r' c = correlates r c"
  "same_identity r r' \<Longrightarrow> correlates c r' = correlates c r"
  by (simp_all add: same_identity_def correlates_def)

lemma changed_sel [simp]:
  "lg_byDeliveryId (mu_state (changed st r)) = AList.update (dl_deliveryId r) r (lg_byDeliveryId st)"
  "lg_byMessageId (mu_state (changed st r)) = AList.update (dl_messageId r) r (lg_byMessageId st)"
  "lg_nextDeliverySequence (mu_state (changed st r)) = lg_nextDeliverySequence st"
  by (simp_all add: changed_def)

lemma unchanged_sel [simp]: "mu_state (unchanged st reason rec) = st" "mu_changed (unchanged st reason rec) = False"
  by (simp_all add: unchanged_def)

lemma replaced_indexes:
  assumes ok: "indexes_ok st" and rep: "replaces st cur r"
  shows "indexes_ok (mu_state (changed st r))"
proof -
  from rep have cur: "map_of (lg_byDeliveryId st) (dl_deliveryId cur) = Some cur"
    and id: "dl_deliveryId r = dl_deliveryId cur" "dl_messageId r = dl_messageId cur"
    by (auto simp: replaces_def advances_def same_identity_def)
  have msg: "map_of (lg_byMessageId st) (dl_messageId cur) = Some cur"
    using indexes_okD(2) [OF ok cur] .
  have other: "dl_messageId x \<noteq> dl_messageId cur"
    if "map_of (lg_byDeliveryId st) k = Some x" "k \<noteq> dl_deliveryId cur" for k x
    using indexes_okD [OF ok that(1)] msg that(2) by (metis option.inject)
  have other': "dl_deliveryId x \<noteq> dl_deliveryId cur"
    if "map_of (lg_byMessageId st) k = Some x" "k \<noteq> dl_messageId cur" for k x
    using indexes_okD2 [OF ok that(1)] cur that(2) by (metis option.inject)
  show ?thesis
    unfolding indexes_ok_def changed_sel id map_of_update
  proof (intro conjI allI impI)
    show "distinct (keys (AList.update (dl_deliveryId cur) r (lg_byDeliveryId st)))"
      "distinct (keys (AList.update (dl_messageId cur) r (lg_byMessageId st)))"
      using ok by (simp_all add: indexes_ok_def)
  next
    fix k x assume x: "((map_of (lg_byDeliveryId st))(dl_deliveryId cur \<mapsto> r)) k = Some x"
    show "dl_deliveryId x = k" using x indexes_okD(1) [OF ok] id by (auto split: if_splits)
    show "((map_of (lg_byMessageId st))(dl_messageId cur \<mapsto> r)) (dl_messageId x) = Some x"
      using x other [of k x] indexes_okD(2) [OF ok, of k x] id by (auto split: if_splits)
  next
    fix k x assume x: "((map_of (lg_byMessageId st))(dl_messageId cur \<mapsto> r)) k = Some x"
    show "dl_messageId x = k" using x indexes_okD2(1) [OF ok] id by (auto split: if_splits)
    show "((map_of (lg_byDeliveryId st))(dl_deliveryId cur \<mapsto> r)) (dl_deliveryId x) = Some x"
      using x other' [of k x] indexes_okD2(2) [OF ok, of k x] id by (auto split: if_splits)
  qed
qed

lemma replaced_sequences:
  assumes ok: "sequences_ok st" and rep: "replaces st cur r"
  shows "sequences_ok (mu_state (changed st r))"
proof -
  from rep have cur: "map_of (lg_byDeliveryId st) (dl_deliveryId cur) = Some cur"
    and id: "dl_deliveryId r = dl_deliveryId cur" "dl_sequence r = dl_sequence cur"
    by (auto simp: replaces_def advances_def same_identity_def)
  from ok cur have "1 \<le> dl_sequence cur" "dl_sequence cur < lg_nextDeliverySequence st"
    and inj: "\<And>k x. map_of (lg_byDeliveryId st) k = Some x \<Longrightarrow> dl_sequence x = dl_sequence cur \<Longrightarrow>
      k = dl_deliveryId cur"
    unfolding sequences_ok_def by blast+
  with ok show ?thesis unfolding sequences_ok_def changed_sel id map_of_update
    by (auto simp: id split: if_splits dest: inj)
qed

lemma replaced_one_current:
  assumes ok: "indexes_ok st" "one_current (lg_byDeliveryId st)" and rep: "replaces st cur r"
  shows "one_current (lg_byDeliveryId (mu_state (changed st r)))"
proof -
  from rep have cur: "map_of (lg_byDeliveryId st) (dl_deliveryId cur) = Some cur"
    and si: "same_identity cur r" and id: "dl_deliveryId r = dl_deliveryId cur"
    by (auto simp: replaces_def advances_def same_identity_def)
  have alone: "k = dl_deliveryId cur"
    if k: "map_of (lg_byDeliveryId st) k = Some x" "dl_status x \<in> CURRENT_STATUSES"
      "correlates x cur" "dl_status r \<in> CURRENT_STATUSES" for k x
  proof (cases "dl_status cur \<in> CURRENT_STATUSES")
    case True
    with ok(2) k cur show ?thesis unfolding one_current_def by blast
  next
    case False
    have "x \<in> set (records st)" using k(1) indexes_okD(1) [OF ok(1) k(1)] records_iff [OF ok(1)] by simp
    with rep False k show ?thesis by (auto simp: replaces_def)
  qed
  show ?thesis
    unfolding one_current_def changed_sel id map_of_update
  proof (intro allI impI)
    fix k k' x x'
    assume a: "((map_of (lg_byDeliveryId st))(dl_deliveryId cur \<mapsto> r)) k = Some x"
        "((map_of (lg_byDeliveryId st))(dl_deliveryId cur \<mapsto> r)) k' = Some x'"
        "dl_status x \<in> CURRENT_STATUSES" "dl_status x' \<in> CURRENT_STATUSES" "correlates x x'"
    show "k = k'"
    proof (cases "k = dl_deliveryId cur"; cases "k' = dl_deliveryId cur")
      assume k: "k = dl_deliveryId cur" "k' \<noteq> dl_deliveryId cur"
      with a have x: "x = r" "map_of (lg_byDeliveryId st) k' = Some x'" by auto
      with a have "correlates x' cur"
        using same_identity_correlates [OF si] correlates_sym by metis
      from alone [OF x(2) a(4) this] a(3) x(1) k(2) show ?thesis by simp
    next
      assume k: "k \<noteq> dl_deliveryId cur" "k' = dl_deliveryId cur"
      with a have x: "x' = r" "map_of (lg_byDeliveryId st) k = Some x" by auto
      with a have "correlates x cur" using same_identity_correlates [OF si] by metis
      from alone [OF x(2) a(3) this] a(4) x(1) k(1) show ?thesis by simp
    next
      assume "k \<noteq> dl_deliveryId cur" "k' \<noteq> dl_deliveryId cur"
      with a ok(2) show ?thesis unfolding one_current_def by (metis fun_upd_other)
    qed simp
  qed
qed

lemma replaces_ok:
  assumes ok: "ledger_ok st" and rep: "replaces st cur r"
  shows "ledger_ok (mu_state (changed st r)) \<and> ledger_le st (mu_state (changed st r))"
proof -
  from rep have cur: "map_of (lg_byDeliveryId st) (dl_deliveryId cur) = Some cur"
    and adv: "advances cur r" and id: "dl_deliveryId r = dl_deliveryId cur"
    by (auto simp: replaces_def advances_def same_identity_def)
  have "record_ok cur" using ok cur unfolding ledger_ok_def by blast
  with adv have "record_ok r" by (simp add: advances_def)
  with ok have "\<forall>k x. map_of (lg_byDeliveryId (mu_state (changed st r))) k = Some x \<longrightarrow> record_ok x"
    unfolding ledger_ok_def by (auto simp: id)
  then have "ledger_ok (mu_state (changed st r))"
    using ok rep replaced_indexes replaced_sequences replaced_one_current by (simp add: ledger_ok_def)
  moreover have "ledger_le st (mu_state (changed st r))"
    using cur adv advances_terminal [OF adv]
    by (auto simp: ledger_le_def id advances_def same_identity_def intro: status_run_step)
  ultimately show ?thesis by blast
qed

lemma ledger_le_refl [simp]: "ledger_le st st"
  by (simp add: ledger_le_def same_identity_def)

lemma touches_ok:
  "ledger_ok st \<Longrightarrow> touches st m \<Longrightarrow> ledger_ok (mu_state m) \<and> ledger_le st (mu_state m)"
  using replaces_ok by (auto simp: touches_def)

subsection \<open>Every operation touches at most one record\<close>

lemma nextRevision_ok: "nextRevision r = Inr rv \<Longrightarrow> rv = or_else (dl_revision r) 0 + 1 \<and> 0 \<le> rv"
  by (auto simp: nextRevision_def Let_def split: if_splits)

lemma lease_step_touches:
  assumes step: "lease_step st cur r = Inr m"
    and cur: "map_of (lg_byDeliveryId st) (dl_deliveryId cur) = Some cur"
    and si: "same_identity cur r" and st: "dl_status r \<in> next_statuses (dl_status cur)"
    and ok: "\<And>rv. record_ok cur \<Longrightarrow> 0 \<le> rv \<Longrightarrow> record_ok (r\<lparr>dl_revision := Some rv\<rparr>)"
    and one: "dl_status r \<in> CURRENT_STATUSES \<Longrightarrow> dl_status cur \<in> CURRENT_STATUSES \<or>
        (\<forall>x \<in> set (records st). correlates x cur \<longrightarrow> dl_status x \<notin> CURRENT_STATUSES)"
  shows "touches st m"
proof -
  from step obtain rv where rv: "nextRevision cur = Inr rv" "m = changed st (r\<lparr>dl_revision := Some rv\<rparr>)"
    by (auto simp: lease_step_def ok_iff)
  from nextRevision_ok [OF rv(1)] have n: "or_else (dl_revision cur) 0 \<le> rv" "0 \<le> rv" by simp_all
  have "advances cur (r\<lparr>dl_revision := Some rv\<rparr>)"
    using si st n ok by (auto simp: advances_def same_identity_def)
  then have "replaces st cur (r\<lparr>dl_revision := Some rv\<rparr>)" using cur one by (auto simp: replaces_def)
  then show ?thesis unfolding rv(2) by (rule touches_changed)
qed

lemma status_neq [simp]:
  "Current \<in> CURRENT_STATUSES" "Finishing \<in> CURRENT_STATUSES" "Expired \<notin> CURRENT_STATUSES"
  "Failed \<notin> CURRENT_STATUSES" "Settled \<notin> CURRENT_STATUSES" "Queued \<notin> CURRENT_STATUSES"
  "Running \<notin> CURRENT_STATUSES" "Replied \<notin> CURRENT_STATUSES" "NoReplySent \<notin> CURRENT_STATUSES"
  "UnknownTerminal \<notin> CURRENT_STATUSES" "Accepted \<notin> CURRENT_STATUSES"
  by (simp_all add: CURRENT_STATUSES_def)

lemma record_ok_plain:
  assumes "record_ok r" and "dl_status r \<noteq> Replied" and "dl_status r' \<in> {Expired, Failed, Current}"
    and "same_identity r r'" and "dl_outboundResult r' = dl_outboundResult r"
    and "dl_hardDeadlineAt r' = dl_hardDeadlineAt r"
    and "\<And>h d. dl_hardDeadlineAt r = Some h \<Longrightarrow> dl_deadlineAt r = Some d \<Longrightarrow> d \<le> h \<Longrightarrow>
       \<exists>d'. dl_deadlineAt r' = Some d' \<and> d' \<le> h"
    and "dl_revision r' = Some rv" and "0 \<le> rv"
  shows "record_ok r'"
proof -
  from assms(1) obtain a d v where r: "dl_acceptedAt r = Some a"
      "dl_hardDeadlineAt r = Some (a + MAX_DELIVERY_LEASE_MS)" "dl_deadlineAt r = Some d"
      "d \<le> a + MAX_DELIVERY_LEASE_MS"
      "dl_feedbackTarget r = cloneFeedbackTarget (co_endpoint r) (dl_messageId r) (dl_rootMessageId r)"
      "dl_outboundResult r \<noteq> Some OSuccess"
    using assms(2) unfolding record_ok_def by blast
  from assms(7) [OF r(2-4)] obtain d' where "dl_deadlineAt r' = Some d'" "d' \<le> a + MAX_DELIVERY_LEASE_MS"
    by blast
  with r assms(3-6,8,9) show ?thesis by (auto simp: record_ok_def same_identity_def)
qed

lemma record_ok_hard: "record_ok r \<Longrightarrow> \<exists>h. dl_hardDeadlineAt r = Some h"
  unfolding record_ok_def by blast

lemma pending_expires:
  "st \<in> PENDING_STATUSES \<Longrightarrow> st \<noteq> Finishing \<Longrightarrow> Expired \<in> next_statuses st"
  by (auto simp: PENDING_STATUSES_def)

lemma expire_touches:
  assumes "expireDelivery st i = Inr m" and ok: "indexes_ok st"
  shows "touches st m"
proof (cases "map_of (lg_byDeliveryId st) (li_deliveryId i)")
  case None
  with assms(1) show ?thesis by (auto simp: expireDelivery_def ok_iff)
next
  case (Some cur)
  let ?r = "cur\<lparr>dl_queueState := None, dl_status := Expired, dl_expiredAt := Some (li_now i),
    dl_failureReason := Some (or_else (dl_failureReason cur) (js ''delivery deadline expired''))\<rparr>"
  from assms(1) Some consider "\<exists>reason rec. m = unchanged st reason rec"
    | "lease_step st cur ?r = Inr m" "dl_status cur \<in> PENDING_STATUSES" "dl_status cur \<noteq> Finishing"
    by (auto simp: expireDelivery_def ok_iff Let_def split: if_splits)
  then show ?thesis
  proof cases
    case 2
    have cur: "map_of (lg_byDeliveryId st) (dl_deliveryId cur) = Some cur"
      using Some indexes_okD(1) [OF ok Some] by simp
    have "dl_status cur \<noteq> Replied" using 2(2) by (auto simp: PENDING_STATUSES_def)
    then have "record_ok (?r\<lparr>dl_revision := Some rv\<rparr>)" if "record_ok cur" "0 \<le> rv" for rv
      by (rule record_ok_plain [OF that(1)]) (use that(2) in \<open>simp_all add: same_identity_def\<close>)
    then show ?thesis
      by (intro lease_step_touches [OF 2(1) cur])
        (simp_all add: same_identity_def pending_expires [OF 2(2,3)])
  qed auto
qed

lemma min_hard: "min (max a b) h \<le> (h :: int)" by simp

lemma claim_touches:
  assumes claim: "claimCurrentDelivery st i = Inr m" and ok: "indexes_ok st"
  shows "touches st m"
proof (cases "currentForCorrelation st i")
  case Nil
  let ?c = "filter (\<lambda>r. correlates r i \<and> dl_status r \<in> QUEUED_STATUSES) (records st)"
  show ?thesis
  proof (cases "sort_key dl_sequence ?c")
    case Nil': Nil
    with claim Nil show ?thesis by (auto simp: claimCurrentDelivery_def ok_iff)
  next
    case (Cons nxt rest)
    have "nxt \<in> set ?c" by (metis Cons list.set_intros(1) set_sort)
    then have nxt: "nxt \<in> set (records st)" "correlates nxt i" "dl_status nxt \<in> QUEUED_STATUSES" by auto
    have cur: "map_of (lg_byDeliveryId st) (dl_deliveryId nxt) = Some nxt"
      using nxt(1) records_iff [OF ok] by simp
    let ?hard = "or_else (dl_hardDeadlineAt nxt) (or_else (dl_acceptedAt nxt) 0 + MAX_DELIVERY_LEASE_MS)"
    from claim Nil Cons consider "\<exists>reason rec. m = unchanged st reason rec"
      | "expireDelivery st (claim_lease i nxt) = Inr m" | "lease_step st nxt (promoted i nxt ?hard) = Inr m"
      by (auto simp: claimCurrentDelivery_def ok_iff Let_def split: if_splits)
    then show ?thesis
    proof cases
      case 2
      then show ?thesis using ok by (rule expire_touches)
    next
      case 3
      have alone: "\<forall>x \<in> set (records st). correlates x nxt \<longrightarrow> dl_status x \<notin> CURRENT_STATUSES"
        using Nil nxt(2) correlates_trans by (auto simp: currentForCorrelation_def filter_empty_conv)
      have st: "dl_status nxt = Accepted \<or> dl_status nxt = Queued"
        using nxt(3) by (auto simp: QUEUED_STATUSES_def)
      show ?thesis
      proof (rule lease_step_touches [OF 3 cur])
        show "same_identity nxt (promoted i nxt ?hard)" by (simp add: promoted_def same_identity_def)
        show "dl_status (promoted i nxt ?hard) \<in> next_statuses (dl_status nxt)"
          using st by (auto simp: promoted_def)
        show "record_ok (promoted i nxt ?hard\<lparr>dl_revision := Some rv\<rparr>)"
          if "record_ok nxt" "0 \<le> rv" for rv
        proof (rule record_ok_plain [OF that(1)])
          show "dl_status nxt \<noteq> Replied" using st by auto
          show "\<exists>d'. dl_deadlineAt (promoted i nxt ?hard\<lparr>dl_revision := Some rv\<rparr>) = Some d' \<and> d' \<le> h"
            if "dl_hardDeadlineAt nxt = Some h" for h using that by (simp add: promoted_def)
          show "dl_hardDeadlineAt (promoted i nxt ?hard\<lparr>dl_revision := Some rv\<rparr>) = dl_hardDeadlineAt nxt"
            using record_ok_hard [OF that(1)] by (auto simp: promoted_def)
        qed (use that(2) in \<open>simp_all add: promoted_def same_identity_def\<close>)
        show "dl_status nxt \<in> CURRENT_STATUSES \<or>
            (\<forall>x \<in> set (records st). correlates x nxt \<longrightarrow> dl_status x \<notin> CURRENT_STATUSES)"
          using alone by blast
      qed
    qed auto
  qed
next
  case (Cons r rs)
  with claim show ?thesis by (cases rs) (auto simp: claimCurrentDelivery_def ok_iff)
qed

lemma abandon_touches:
  assumes "abandon f st i = Inr m" and ok: "indexes_ok st"
    and f: "\<And>r. same_identity r (f r)" "\<And>r. dl_status (f r) = dl_status r"
      "\<And>r rv. record_ok (r\<lparr>dl_revision := rv\<rparr>) \<Longrightarrow> record_ok (f r\<lparr>dl_revision := rv\<rparr>)"
  shows "touches st m"
proof (cases "map_of (lg_byDeliveryId st) (li_deliveryId i)")
  case None
  with assms(1) show ?thesis by (auto simp: abandon_def ok_iff)
next
  case (Some cur)
  let ?g = "cur\<lparr>dl_queueState := None, dl_status := Failed, dl_failedAt := Some (li_now i)\<rparr>"
  from assms(1) Some consider "\<exists>reason rec. m = unchanged st reason rec"
    | "lease_step st cur (f ?g) = Inr m" "dl_status cur = Current"
    by (auto simp: abandon_def ok_iff split: if_splits)
  then show ?thesis
  proof cases
    case 2
    have cur: "map_of (lg_byDeliveryId st) (dl_deliveryId cur) = Some cur"
      using Some indexes_okD(1) [OF ok Some] by simp
    have "same_identity cur (f ?g)" using f(1) [of ?g] by (simp add: same_identity_def)
    moreover have "record_ok (f ?g\<lparr>dl_revision := Some rv\<rparr>)" if "record_ok cur" "0 \<le> rv" for rv
      by (rule f(3), rule record_ok_plain [OF that(1)])
        (use that(2) 2(2) in \<open>simp_all add: same_identity_def\<close>)
    ultimately show ?thesis
      by (intro lease_step_touches [OF 2(1) cur]) (simp_all add: f(2) 2(2))
  qed auto
qed

lemma abandonInterrupted_touches:
  "abandonInterruptedDelivery st i = Inr m \<Longrightarrow> indexes_ok st \<Longrightarrow> touches st m"
  unfolding abandonInterruptedDelivery_def
  by (erule (1) abandon_touches) (auto simp: same_identity_def record_ok_def)

lemma abandonRefused_touches:
  "abandonRefusedDelivery st i = Inr m \<Longrightarrow> indexes_ok st \<Longrightarrow> touches st m"
  unfolding abandonRefusedDelivery_def
  by (erule (1) abandon_touches) (auto simp: same_identity_def record_ok_def)

lemma finishing_touches:
  assumes "markFinishing st i = Inr m" and ok: "indexes_ok st"
  shows "touches st m"
proof (cases "map_of (lg_byDeliveryId st) (li_deliveryId i)")
  case None
  with assms(1) show ?thesis by (auto simp: markFinishing_def ok_iff)
next
  case (Some cur)
  let ?r = "cur\<lparr>dl_status := Finishing, dl_finishOutcome := Some Reply, dl_finishedAt := Some (li_now i)\<rparr>"
  from assms(1) Some consider "\<exists>reason rec. m = unchanged st reason rec"
    | "lease_step st cur ?r = Inr m" "dl_status cur = Current"
    by (auto simp: markFinishing_def ok_iff split: if_splits)
  then show ?thesis
  proof cases
    case 2
    have cur: "map_of (lg_byDeliveryId st) (dl_deliveryId cur) = Some cur"
      using Some indexes_okD(1) [OF ok Some] by simp
    show ?thesis
      by (rule lease_step_touches [OF 2(1) cur]) (use 2 in \<open>auto simp: same_identity_def record_ok_def\<close>)
  qed auto
qed

lemma record_okE:
  assumes "record_ok r"
  obtains a d v where "dl_acceptedAt r = Some a"
    "dl_hardDeadlineAt r = Some (a + MAX_DELIVERY_LEASE_MS)" "dl_deadlineAt r = Some d"
    "d \<le> a + MAX_DELIVERY_LEASE_MS" "dl_revision r = Some v" "0 \<le> v"
    "dl_feedbackTarget r = cloneFeedbackTarget (co_endpoint r) (dl_messageId r) (dl_rootMessageId r)"
    "dl_status r \<in> {Queued, Running, Settled} \<Longrightarrow> dl_executionId r \<noteq> None"
    "dl_status r \<in> {Running, Settled} \<Longrightarrow> dl_turnId r \<noteq> None"
    "dl_status r = Finishing \<Longrightarrow> dl_finishOutcome r = Some Reply"
    "dl_status r = Replied \<longleftrightarrow> dl_outboundResult r = Some OSuccess"
  using assms unfolding record_ok_def by blast

lemma completed_ok:
  assumes "record_ok cur" and "dl_status cur \<in> CURRENT_STATUSES" and "0 \<le> rv"
    and "if fi_outcome i = NoReply then fi_outboundResult i \<in> {None, Some ONone}
         else fi_outboundResult i \<notin> {None, Some ONone}"
  shows "record_ok (completed i cur\<lparr>dl_revision := Some rv\<rparr>)"
    and "dl_status (completed i cur) \<in> {NoReplySent, Replied, UnknownTerminal, Failed}"
proof -
  from assms(1) obtain a d v where r: "dl_acceptedAt cur = Some a"
      "dl_hardDeadlineAt cur = Some (a + MAX_DELIVERY_LEASE_MS)" "dl_deadlineAt cur = Some d"
      "d \<le> a + MAX_DELIVERY_LEASE_MS"
      "dl_feedbackTarget cur = cloneFeedbackTarget (co_endpoint cur) (dl_messageId cur) (dl_rootMessageId cur)"
    by (rule record_okE)
  then show "record_ok (completed i cur\<lparr>dl_revision := Some rv\<rparr>)"
    using assms(3,4) by (cases "fi_outcome i"; cases "fi_outboundResult i")
      (auto simp: record_ok_def completed_def Let_def)
  show "dl_status (completed i cur) \<in> {NoReplySent, Replied, UnknownTerminal, Failed}"
    by (simp add: completed_def Let_def)
qed

lemma complete_touches:
  assumes "completeDelivery st i = Inr m" and ok: "indexes_ok st"
  shows "touches st m"
proof (cases "map_of (lg_byDeliveryId st) (li_deliveryId i)")
  case None
  with assms(1) show ?thesis by (auto simp: completeDelivery_def ok_iff)
next
  case (Some cur)
  from assms(1) Some consider "\<exists>reason rec. m = unchanged st reason rec"
    | "lease_step st cur (completed i cur) = Inr m"
      "dl_status cur = Finishing \<or> (fi_outcome i = NoReply \<and> dl_status cur = Current)"
      "if fi_outcome i = NoReply then fi_outboundResult i \<in> {None, Some ONone}
         else fi_outboundResult i \<notin> {None, Some ONone}"
    by (auto simp: completeDelivery_def ok_iff split: if_splits)
  then show ?thesis
  proof cases
    case 2
    have cur: "map_of (lg_byDeliveryId st) (dl_deliveryId cur) = Some cur"
      using Some indexes_okD(1) [OF ok Some] by simp
    have st: "dl_status cur \<in> CURRENT_STATUSES" using 2(2) by auto
    have nx: "dl_status (completed i cur) \<in> next_statuses (dl_status cur)"
      using 2(2) by (auto simp: completed_def Let_def)
    show ?thesis
      using completed_ok(1) [OF _ st _ 2(3)] st nx
      by (intro lease_step_touches [OF 2(1) cur]) (simp_all add: completed_def Let_def same_identity_def)
  qed auto
qed

lemma wait_touches:
  assumes "waitDelivery st i = Inr m" and ok: "indexes_ok st"
  shows "touches st m"
proof (cases "map_of (lg_byDeliveryId st) (li_deliveryId i)")
  case None
  with assms(1) show ?thesis by (auto simp: waitDelivery_def ok_iff split: if_splits)
next
  case (Some cur)
  let ?hard = "or_else (dl_hardDeadlineAt cur) (or_else (dl_acceptedAt cur) (li_now i) + MAX_DELIVERY_LEASE_MS)"
  let ?r = "cur\<lparr>dl_deadlineAt := Some (min (max (or_else (dl_deadlineAt cur) (li_now i))
      (li_now i + wi_waitMinutes i * 60 * 1000)) ?hard), dl_hardDeadlineAt := Some ?hard\<rparr>"
  from assms(1) Some consider "\<exists>reason rec. m = unchanged st reason rec"
    | "lease_step st cur ?r = Inr m" "dl_status cur = Current"
    by (auto simp: waitDelivery_def ok_iff Let_def split: if_splits)
  then show ?thesis
  proof cases
    case 2
    have cur: "map_of (lg_byDeliveryId st) (dl_deliveryId cur) = Some cur"
      using Some indexes_okD(1) [OF ok Some] by simp
    have "record_ok (?r\<lparr>dl_revision := Some rv\<rparr>)" if "record_ok cur" "0 \<le> rv" for rv
    proof -
      from that(1) obtain h where "dl_hardDeadlineAt cur = Some h" using record_ok_hard by blast
      then show ?thesis
        by (intro record_ok_plain [OF that(1)]) (use that(2) 2(2) in \<open>simp_all add: same_identity_def\<close>)
    qed
    then show ?thesis
      by (intro lease_step_touches [OF 2(1) cur]) (simp_all add: same_identity_def 2(2))
  qed auto
qed

text \<open>A replacement that keeps the revision: the bindings and the settlement.\<close>

lemma binding_replaces:
  assumes "map_of (lg_byDeliveryId st) k = Some cur" and "indexes_ok st" and "same_identity cur r"
    and "dl_status r \<in> next_statuses (dl_status cur)" and "dl_revision r = dl_revision cur"
    and "dl_hardDeadlineAt r = dl_hardDeadlineAt cur" and "dl_deadlineAt r = dl_deadlineAt cur"
    and "dl_outboundResult r = dl_outboundResult cur" and "dl_finishOutcome r = dl_finishOutcome cur"
    and "dl_status r \<in> {Queued, Running, Settled} \<longrightarrow> dl_executionId r \<noteq> None"
    and "dl_status r \<in> {Running, Settled} \<longrightarrow> dl_turnId r \<noteq> None"
    and "dl_status r \<in> {Queued, Running, Settled, Failed} \<or> dl_status r = Current \<and> dl_status cur = Current"
    and "dl_status cur \<noteq> Replied"
  shows "touches st (changed st r)"
proof (rule touches_changed, rule replacesI)
  show "map_of (lg_byDeliveryId st) (dl_deliveryId cur) = Some cur"
    using assms(1) indexes_okD(1) [OF assms(2,1)] by simp
  show "advances cur r"
  proof (rule advancesI [OF assms(3,4)])
    assume ok: "record_ok cur"
    then obtain a d v where c: "dl_acceptedAt cur = Some a"
        "dl_hardDeadlineAt cur = Some (a + MAX_DELIVERY_LEASE_MS)" "dl_deadlineAt cur = Some d"
        "d \<le> a + MAX_DELIVERY_LEASE_MS" "dl_revision cur = Some v" "0 \<le> v"
        "dl_feedbackTarget cur = cloneFeedbackTarget (co_endpoint cur) (dl_messageId cur) (dl_rootMessageId cur)"
        "dl_outboundResult cur \<noteq> Some OSuccess"
      using assms(13) by (elim record_okE) auto
    note same = assms(3) [unfolded same_identity_def]
    have st: "dl_status r \<notin> {Finishing, Replied, UnknownTerminal, NoReplySent}" using assms(12) by auto
    show "record_ok r"
      unfolding record_ok_def assms(5-8) same [THEN conjunct1] using c assms(10,11) st same by simp
  qed (simp add: assms(5))
  show "dl_status r \<notin> CURRENT_STATUSES \<or> dl_status cur \<in> CURRENT_STATUSES" using assms(12) by auto
qed

lemma bindQueued_touches:
  assumes "bindQueued st i = Inr m" and ok: "indexes_ok st"
  shows "touches st m"
proof (cases "map_of (lg_byDeliveryId st) (qi_deliveryId i)")
  case None
  with assms(1) show ?thesis by (auto simp: bindQueued_def ok_iff)
next
  case (Some cur)
  let ?r = "cur\<lparr>dl_executionId := Some (qi_executionId i), dl_inboxMessageId := Some (qi_inboxMessageId i),
      dl_status := (if dl_status cur = Current then Current else Queued),
      dl_queuedAt := given (qi_queuedAt i) (dl_queuedAt cur)\<rparr>"
  from assms(1) Some consider "\<exists>reason rec. m = unchanged st reason rec"
    | "m = changed st ?r" "dl_status cur = Accepted \<or> dl_status cur = Current"
    by (auto simp: bindQueued_def ok_iff split: if_splits)
  then show ?thesis
  proof cases
    case 2
    then show ?thesis unfolding 2(1)
      by (intro binding_replaces [OF Some ok]) (auto simp: same_identity_def)
  qed auto
qed

lemma bindTurn_touches:
  assumes "bindTurn st i = Inr m" and ok: "indexes_ok st"
  shows "touches st m"
proof (cases "map_of (lg_byDeliveryId st) (bi_deliveryId i)")
  case None
  with assms(1) show ?thesis by (auto simp: bindTurn_def ok_iff)
next
  case (Some cur)
  let ?r = "cur\<lparr>dl_turnId := Some (bi_turnId i),
      dl_status := (if dl_status cur = Current then Current else Running),
      dl_startedAt := given (bi_startedAt i) (dl_startedAt cur)\<rparr>"
  from assms(1) Some consider "\<exists>reason rec. m = unchanged st reason rec"
    | "m = changed st ?r" "dl_status cur = Queued \<or> dl_status cur = Current"
      "dl_executionId cur = Some (bi_executionId i)"
    by (auto simp: bindTurn_def ok_iff split: if_splits)
  then show ?thesis
  proof cases
    case 2
    then show ?thesis unfolding 2(1)
      by (intro binding_replaces [OF Some ok]) (auto simp: same_identity_def)
  qed auto
qed

lemma settleByTurn_cases:
  assumes "settleByTurn st i = Inr m"
  obtains (same) reason rec where "m = unchanged st reason rec"
  | (settled) cur where "map_of (lg_byDeliveryId st) (se_deliveryId i) = Some cur"
      "m = changed st (settled_record i cur)" "dl_status cur = Running"
      "correlates cur (se_correlation i)" "dl_executionId cur = Some (se_executionId i)"
      "dl_turnId cur = Some (se_turnId i)" "\<not> before (se_settledAt i) (Some (prior_timestamp cur))"
proof (cases "map_of (lg_byDeliveryId st) (se_deliveryId i)")
  case None
  with assms same show ?thesis by (auto simp: settleByTurn_def ok_iff)
next
  case (Some cur)
  with assms consider "\<exists>reason rec. m = unchanged st reason rec"
    | "m = changed st (settled_record i cur)" "dl_status cur = Running"
      "correlates cur (se_correlation i)" "dl_executionId cur = Some (se_executionId i)"
      "dl_turnId cur = Some (se_turnId i)" "\<not> before (se_settledAt i) (Some (prior_timestamp cur))"
    by (auto simp: settleByTurn_def ok_iff split: if_splits)
  then show ?thesis using Some same settled by cases auto
qed

lemma settleByTurn_touches:
  assumes "settleByTurn st i = Inr m" and ok: "indexes_ok st"
  shows "touches st m"
  using assms(1)
proof (cases rule: settleByTurn_cases)
  case (settled cur)
  have "dl_status (settled_record i cur) \<in> {Settled, Failed}"
    by (cases "se_outcome i") (simp_all add: settled_record_def)
  then show ?thesis unfolding settled(2)
    by (intro binding_replaces [OF settled(1) ok])
      (use settled in \<open>auto simp: settled_record_def same_identity_def\<close>)
qed auto

definition keeps :: "ledger \<Rightarrow> mutation \<Rightarrow> bool" where
  "keeps st m \<longleftrightarrow> ledger_ok (mu_state m) \<and> ledger_le st (mu_state m)"

lemma touches_keeps: "ledger_ok st \<Longrightarrow> touches st m \<Longrightarrow> keeps st m"
  using touches_ok by (simp add: keeps_def)

lemma ledger_ok_indexes: "ledger_ok st \<Longrightarrow> indexes_ok st"
  by (simp add: ledger_ok_def)

lemma unchanged_keeps [simp]: "ledger_ok st \<Longrightarrow> keeps st (unchanged st reason rec)"
  by (simp add: keeps_def)

lemma same_identity_trans: "same_identity a b \<Longrightarrow> same_identity b c \<Longrightarrow> same_identity a c"
  by (simp add: same_identity_def)

lemma ledger_leD:
  assumes "ledger_le st st'" and "map_of (lg_byDeliveryId st) k = Some r"
  obtains r' where "map_of (lg_byDeliveryId st') k = Some r'" "same_identity r r'"
    "or_else (dl_revision r) 0 \<le> or_else (dl_revision r') 0"
    "status_run (dl_status r) (dl_status r')" "dl_status r \<in> TERMINAL_STATUSES \<longrightarrow> r' = r"
  using assms unfolding ledger_le_def by blast

lemma ledger_le_trans:
  assumes "ledger_le a b" and "ledger_le b c"
  shows "ledger_le a c"
  unfolding ledger_le_def
proof (intro conjI allI impI)
  show "lg_nextDeliverySequence a \<le> lg_nextDeliverySequence c" using assms by (simp add: ledger_le_def)
next
  fix k r assume r: "map_of (lg_byDeliveryId a) k = Some r"
  from ledger_leD [OF assms(1) r] obtain r' where r': "map_of (lg_byDeliveryId b) k = Some r'"
      "same_identity r r'" "or_else (dl_revision r) 0 \<le> or_else (dl_revision r') 0"
      "status_run (dl_status r) (dl_status r')" "dl_status r \<in> TERMINAL_STATUSES \<longrightarrow> r' = r" .
  from ledger_leD [OF assms(2) r'(1)] obtain r'' where "map_of (lg_byDeliveryId c) k = Some r''"
      "same_identity r' r''" "or_else (dl_revision r') 0 \<le> or_else (dl_revision r'') 0"
      "status_run (dl_status r') (dl_status r'')" "dl_status r' \<in> TERMINAL_STATUSES \<longrightarrow> r'' = r'" .
  with r' show "\<exists>r'. map_of (lg_byDeliveryId c) k = Some r' \<and> same_identity r r' \<and>
      or_else (dl_revision r) 0 \<le> or_else (dl_revision r') 0 \<and> status_run (dl_status r) (dl_status r') \<and>
      (dl_status r \<in> TERMINAL_STATUSES \<longrightarrow> r' = r)"
    by (intro exI [of _ r'']) (auto intro: same_identity_trans status_run_trans)
qed

lemma bindDeliveryTurn_keeps:
  assumes ok: "ledger_ok st" and run: "bindDeliveryTurn st i = Inr m"
  shows "keeps st m"
proof -
  from run obtain q where q: "bindQueued st (queued_input_for i (bi_deliveryId i) (bi_executionId i) None) = Inr q"
    and cs: "m = q \<or> bindTurn (mu_state q) i = Inr m"
    by (auto simp: bindDeliveryTurn_def ok_iff split: if_splits)
  have kq: "keeps st q" using touches_keeps [OF ok bindQueued_touches [OF q]] ok by (simp add: ledger_ok_def)
  from cs show ?thesis
  proof
    assume b: "bindTurn (mu_state q) i = Inr m"
    have "ledger_ok (mu_state q)" using kq by (simp add: keeps_def)
    then have "keeps (mu_state q) m" using touches_keeps bindTurn_touches [OF b] ledger_ok_indexes by blast
    with kq show ?thesis using ledger_le_trans by (auto simp: keeps_def)
  qed (use kq in simp)
qed

lemma accepted_record_ok: "record_ok (accepted_record inp did sequence at)"
  by (simp add: record_ok_def accepted_record_def Let_def DEFAULT_DELIVERY_LEASE_MS_def MAX_DELIVERY_LEASE_MS_def)

lemma accepted_record_sel [simp]:
  "dl_deliveryId (accepted_record inp did sequence at) = did"
  "dl_messageId (accepted_record inp did sequence at) = in_messageId inp"
  "dl_sequence (accepted_record inp did sequence at) = sequence"
  "dl_status (accepted_record inp did sequence at) = Accepted"
  by (simp_all add: accepted_record_def Let_def)

text \<open>A new record at the next sequence number.\<close>

lemma accept_new_ok:
  assumes ok: "ledger_ok st" and fresh: "map_of (lg_byMessageId st) (dl_messageId r) = None"
      "map_of (lg_byDeliveryId st) (dl_deliveryId r) = None"
    and r: "record_ok r" "dl_status r = Accepted" "dl_sequence r = lg_nextDeliverySequence st"
    and st': "st' = \<lparr>lg_byMessageId = AList.update (dl_messageId r) r (lg_byMessageId st),
       lg_byDeliveryId = AList.update (dl_deliveryId r) r (lg_byDeliveryId st),
       lg_nextDeliverySequence = lg_nextDeliverySequence st + 1\<rparr>"
  shows "ledger_ok st' \<and> ledger_le st st'"
proof -
  have ix: "indexes_ok st" and sq: "sequences_ok st" and one: "one_current (lg_byDeliveryId st)"
    using ok by (simp_all add: ledger_ok_def)
  have old: "k \<noteq> dl_deliveryId r \<and> dl_messageId x \<noteq> dl_messageId r"
    if "map_of (lg_byDeliveryId st) k = Some x" for k x
    using that fresh indexes_okD(2) [OF ix that] by (metis option.distinct(1))
  have old': "k \<noteq> dl_messageId r \<and> dl_deliveryId x \<noteq> dl_deliveryId r"
    if "map_of (lg_byMessageId st) k = Some x" for k x
    using that fresh indexes_okD2(2) [OF ix that] by (metis option.distinct(1))
  have "indexes_ok st'"
    unfolding indexes_ok_def st'
  proof (intro conjI allI impI; simp only: ledger.simps map_of_update)
    show "distinct (keys (AList.update (dl_deliveryId r) r (lg_byDeliveryId st)))"
      "distinct (keys (AList.update (dl_messageId r) r (lg_byMessageId st)))"
      using ix by (simp_all add: indexes_ok_def)
  next
    fix k x assume x: "((map_of (lg_byDeliveryId st))(dl_deliveryId r \<mapsto> r)) k = Some x"
    show "dl_deliveryId x = k" using x indexes_okD(1) [OF ix] by (auto split: if_splits)
    show "((map_of (lg_byMessageId st))(dl_messageId r \<mapsto> r)) (dl_messageId x) = Some x"
      using x old [of k x] indexes_okD(2) [OF ix, of k x] by (auto split: if_splits)
  next
    fix k x assume x: "((map_of (lg_byMessageId st))(dl_messageId r \<mapsto> r)) k = Some x"
    show "dl_messageId x = k" using x indexes_okD2(1) [OF ix] by (auto split: if_splits)
    show "((map_of (lg_byDeliveryId st))(dl_deliveryId r \<mapsto> r)) (dl_deliveryId x) = Some x"
      using x old' [of k x] indexes_okD2(2) [OF ix, of k x] by (auto split: if_splits)
  qed
  moreover have "sequences_ok st'"
  proof -
    have b: "1 \<le> dl_sequence x \<and> dl_sequence x < lg_nextDeliverySequence st"
      if "map_of (lg_byDeliveryId st) k = Some x" for k x
      using sq that unfolding sequences_ok_def by blast
    have inj: "k = k'" if "map_of (lg_byDeliveryId st) k = Some x" "map_of (lg_byDeliveryId st) k' = Some y"
        "dl_sequence x = dl_sequence y" for k k' x y
      using sq that unfolding sequences_ok_def by blast
    have n: "1 \<le> lg_nextDeliverySequence st" using sq by (simp add: sequences_ok_def)
    show ?thesis unfolding sequences_ok_def st' ledger.simps map_of_update
    proof (intro conjI allI impI)
      fix k x assume "((map_of (lg_byDeliveryId st))(dl_deliveryId r \<mapsto> r)) k = Some x"
      then show "1 \<le> dl_sequence x" "dl_sequence x < lg_nextDeliverySequence st + 1"
        using b [of k x] n r(3) by (auto split: if_splits)
    next
      fix k k' x y
      assume x: "((map_of (lg_byDeliveryId st))(dl_deliveryId r \<mapsto> r)) k = Some x"
        and y: "((map_of (lg_byDeliveryId st))(dl_deliveryId r \<mapsto> r)) k' = Some y"
        and eq: "dl_sequence x = dl_sequence y"
      show "k = k'"
      proof (cases "k = dl_deliveryId r"; cases "k' = dl_deliveryId r")
        assume k: "k = dl_deliveryId r" "k' \<noteq> dl_deliveryId r"
        with x y have "x = r" "map_of (lg_byDeliveryId st) k' = Some y" by simp_all
        with b [of k' y] eq r(3) show ?thesis by simp
      next
        assume k: "k \<noteq> dl_deliveryId r" "k' = dl_deliveryId r"
        with x y have "y = r" "map_of (lg_byDeliveryId st) k = Some x" by simp_all
        with b [of k x] eq r(3) show ?thesis by simp
      next
        assume k: "k \<noteq> dl_deliveryId r" "k' \<noteq> dl_deliveryId r"
        with x y have "map_of (lg_byDeliveryId st) k = Some x" "map_of (lg_byDeliveryId st) k' = Some y"
          by simp_all
        then show ?thesis using eq by (rule inj)
      qed simp
    qed (use n in simp)
  qed
  moreover have "one_current (lg_byDeliveryId st')"
    unfolding one_current_def st' ledger.simps map_of_update
  proof (intro allI impI)
    fix k k' x y
    assume a: "((map_of (lg_byDeliveryId st))(dl_deliveryId r \<mapsto> r)) k = Some x"
      "((map_of (lg_byDeliveryId st))(dl_deliveryId r \<mapsto> r)) k' = Some y"
      "dl_status x \<in> CURRENT_STATUSES" "dl_status y \<in> CURRENT_STATUSES" "correlates x y"
    then have "map_of (lg_byDeliveryId st) k = Some x" "map_of (lg_byDeliveryId st) k' = Some y"
      using r(2) by (auto split: if_splits)
    with one a(3-5) show "k = k'" unfolding one_current_def by blast
  qed
  moreover have "\<forall>k x. map_of (lg_byDeliveryId st') k = Some x \<longrightarrow> record_ok x"
    using ok r(1) by (auto simp: st' ledger_ok_def)
  moreover have "ledger_le st st'"
    using old by (auto simp: ledger_le_def st' same_identity_def)
  ultimately show ?thesis by (simp add: ledger_ok_def)
qed

lemma acceptDelivery_keeps:
  assumes ok: "ledger_ok st" and run: "acceptDelivery clock st inp = Inr a"
  shows "ledger_ok (ac_state a) \<and> ledger_le st (ac_state a)"
proof (cases "map_of (lg_byMessageId st) (in_messageId inp)")
  case (Some r)
  with run ok show ?thesis by (auto simp: acceptDelivery_def ok_iff)
next
  case None
  define did where "did = (case in_deliveryId inp of Some d \<Rightarrow> d
    | None \<Rightarrow> js ''delivery-'' @ number_text (lg_nextDeliverySequence st))"
  define r where "r = accepted_record inp did (lg_nextDeliverySequence st) (or_else (in_acceptedAt inp) clock)"
  from run None have new: "map_of (lg_byDeliveryId st) did = None"
    and a: "ac_state a = \<lparr>lg_byMessageId = AList.update (in_messageId inp) r (lg_byMessageId st),
        lg_byDeliveryId = AList.update did r (lg_byDeliveryId st),
        lg_nextDeliverySequence = lg_nextDeliverySequence st + 1\<rparr>"
    unfolding did_def r_def
    by (auto simp: acceptDelivery_def ok_iff Let_def has_def)
  show ?thesis
    by (rule accept_new_ok [OF ok, of r])
      (use None new a in \<open>simp_all add: r_def accepted_record_ok\<close>)
qed

lemma acceptDelivery_stored:
  assumes "acceptDelivery clock st inp = Inr a" and ok: "ledger_ok st"
  shows "map_of (lg_byDeliveryId (ac_state a)) (dl_deliveryId (ac_record a)) = Some (ac_record a)"
    and "dl_messageId (ac_record a) = in_messageId inp" and "trim (in_messageId inp) \<noteq> []"
proof -
  show "trim (in_messageId inp) \<noteq> []" using assms(1) by (auto simp: acceptDelivery_def assertIdentifier_def ok_iff)
  have "map_of (lg_byDeliveryId (ac_state a)) (dl_deliveryId (ac_record a)) = Some (ac_record a) \<and>
      dl_messageId (ac_record a) = in_messageId inp"
  proof (cases "map_of (lg_byMessageId st) (in_messageId inp)")
    case None
    with assms(1) show ?thesis by (auto simp: acceptDelivery_def ok_iff Let_def)
  next
    case (Some r)
    with assms(1) have "ac_state a = st" "ac_record a = r" by (auto simp: acceptDelivery_def ok_iff)
    then show ?thesis using indexes_okD2 [OF ledger_ok_indexes [OF ok] Some] by blast
  qed
  then show "map_of (lg_byDeliveryId (ac_state a)) (dl_deliveryId (ac_record a)) = Some (ac_record a)"
    "dl_messageId (ac_record a) = in_messageId inp" by blast+
qed

subsection \<open>Runs of the ledger\<close>

inductive ledger_step :: "ledger \<Rightarrow> ledger \<Rightarrow> bool" where
  st_accept: "acceptDelivery clock st inp = Inr a \<Longrightarrow> ledger_step st (ac_state a)"
| st_claim: "claimCurrentDelivery st (ci :: claim_input) = Inr m \<Longrightarrow> ledger_step st (mu_state m)"
| st_interrupted: "abandonInterruptedDelivery st (li :: lease_input) = Inr m \<Longrightarrow> ledger_step st (mu_state m)"
| st_refused: "abandonRefusedDelivery st (li :: lease_input) = Inr m \<Longrightarrow> ledger_step st (mu_state m)"
| st_finishing: "markFinishing st (li :: lease_input) = Inr m \<Longrightarrow> ledger_step st (mu_state m)"
| st_complete: "completeDelivery st (fi :: finish_input) = Inr m \<Longrightarrow> ledger_step st (mu_state m)"
| st_expire: "expireDelivery st (li :: lease_input) = Inr m \<Longrightarrow> ledger_step st (mu_state m)"
| st_wait: "waitDelivery st (wi :: wait_input) = Inr m \<Longrightarrow> ledger_step st (mu_state m)"
| st_bindQueued: "bindQueued st (qi :: queued_input) = Inr m \<Longrightarrow> ledger_step st (mu_state m)"
| st_bindTurn: "bindTurn st (bi :: bind_input) = Inr m \<Longrightarrow> ledger_step st (mu_state m)"
| st_bindBoth: "bindDeliveryTurn st (bi :: bind_input) = Inr m \<Longrightarrow> ledger_step st (mu_state m)"
| st_queue: "queueDelivery st did (co :: correlation) at ex = Inr m \<Longrightarrow> ledger_step st (mu_state m)"
| st_start: "startDelivery st did (co :: correlation) at ex turn = Inr m \<Longrightarrow> ledger_step st (mu_state m)"
| st_transition: "transitionDelivery st ti = Inr m \<Longrightarrow> ledger_step st (mu_state m)"
| st_settle: "settleDelivery st si = Inr m \<Longrightarrow> ledger_step st (mu_state m)"
| st_turn: "settleByTurn st si = Inr m \<Longrightarrow> ledger_step st (mu_state m)"
| st_fail: "failDelivery st si = Inr m \<Longrightarrow> ledger_step st (mu_state m)"
| st_next: "settleNextDelivery st (ff :: fifo_input) = Inr m \<Longrightarrow> ledger_step st (mu_state m)"

definition ledger_reachable :: "ledger \<Rightarrow> bool" where
  "ledger_reachable = ledger_step\<^sup>*\<^sup>* createDeliveryLedger"

lemma queue_touches: "queueDelivery st did c at ex = Inr m \<Longrightarrow> indexes_ok st \<Longrightarrow> touches st m"
  by (auto simp: queueDelivery_def dest: bindQueued_touches split: option.splits)

lemma start_touches: "startDelivery st did c at ex turn = Inr m \<Longrightarrow> indexes_ok st \<Longrightarrow> touches st m"
  by (auto simp: startDelivery_def dest: bindTurn_touches split: option.splits)

lemma settle_touches: "settleDelivery st si = Inr m \<Longrightarrow> indexes_ok st \<Longrightarrow> touches st m"
  by (auto simp: settleDelivery_def dest: settleByTurn_touches split: if_splits)

lemma settleNext_touches: "settleNextDelivery st ff = Inr m \<Longrightarrow> indexes_ok st \<Longrightarrow> touches st m"
  by (auto simp: settleNextDelivery_def ok_iff dest: settleByTurn_touches split: list.splits)

lemma transition_touches: "transitionDelivery st ti = Inr m \<Longrightarrow> indexes_ok st \<Longrightarrow> touches st m"
  by (auto simp: transitionDelivery_def ok_iff
      dest: settleByTurn_touches bindTurn_touches bindQueued_touches
      split: option.splits transition_status.splits if_splits)

lemmas operation_touches = claim_touches abandonInterrupted_touches abandonRefused_touches finishing_touches
  complete_touches expire_touches wait_touches bindQueued_touches bindTurn_touches queue_touches start_touches
  settle_touches settleByTurn_touches settleNext_touches transition_touches

lemma ledger_step_keeps:
  assumes "ledger_step st st'" and ok: "ledger_ok st"
  shows "ledger_ok st' \<and> ledger_le st st'"
  using assms(1)
proof cases
  case (st_accept clock inp a)
  then show ?thesis using acceptDelivery_keeps [OF ok] by simp
next
  case (st_bindBoth bi m)
  then show ?thesis using bindDeliveryTurn_keeps [OF ok] by (simp add: keeps_def)
next
  case (st_fail si m)
  then show ?thesis using touches_ok [OF ok] settleByTurn_touches ledger_ok_indexes [OF ok]
    by (simp add: failDelivery_def)
qed (hypsubst, rule touches_ok [OF ok], erule operation_touches [OF _ ledger_ok_indexes [OF ok]])+

interpretation ledger: monotone_system ledger_step ledger_ok ledger_le
  by unfold_locales (use ledger_step_keeps ledger_le_trans in auto)

lemma create_ledger_ok: "ledger_ok createDeliveryLedger"
  by (simp add: ledger_ok_def indexes_ok_def sequences_ok_def one_current_def createDeliveryLedger_def)

lemma ledger_reachable_ok: "ledger_reachable st \<Longrightarrow> ledger_ok st"
  unfolding ledger_reachable_def by (rule ledger.run_inv [OF _ create_ledger_ok])

subsection \<open>What a changing operation did\<close>

lemma sort_key_first:
  assumes "sort_key f xs = (x :: 'a) # ys" and "y \<in> set xs"
  shows "(f x :: int) \<le> f y"
proof -
  have "sorted (map f (x # ys))" using assms(1) sorted_sort_key [of f xs] by simp
  moreover have "y \<in> set (x # ys)" using assms(2) unfolding assms(1) [symmetric] by simp
  ultimately show ?thesis by auto
qed

lemma lease_step_changed:
  assumes "lease_step st cur r = Inr m"
  shows "mu_record m = Some (r\<lparr>dl_revision := Some (or_else (dl_revision cur) 0 + 1)\<rparr>)"
    and "mu_state m = mu_state (changed st (r\<lparr>dl_revision := Some (or_else (dl_revision cur) 0 + 1)\<rparr>))"
  using assms nextRevision_ok by (auto simp: lease_step_def ok_iff changed_def)

text \<open>A delivery becomes current only when nothing of its conversation is and nothing older waits.\<close>

lemma claim_changed:
  assumes claim: "claimCurrentDelivery st i = Inr m" and "mu_record m = Some r" and "dl_status r = Current"
    and ch: "mu_changed m"
  obtains nxt where "nxt \<in> set (records st)" "correlates nxt i" "dl_status nxt \<in> QUEUED_STATUSES"
    "dl_deliveryId r = dl_deliveryId nxt" "same_identity nxt r" "cl_now i < or_else (dl_hardDeadlineAt r) (cl_now i)"
    "\<forall>x \<in> set (records st). correlates x i \<longrightarrow> dl_status x \<notin> CURRENT_STATUSES"
    "\<forall>x \<in> set (records st). correlates x i \<longrightarrow> dl_status x \<in> QUEUED_STATUSES \<longrightarrow>
       dl_sequence nxt \<le> dl_sequence x"
proof (cases "currentForCorrelation st i")
  case Nil
  let ?c = "filter (\<lambda>r. correlates r i \<and> dl_status r \<in> QUEUED_STATUSES) (records st)"
  show ?thesis
  proof (cases "sort_key dl_sequence ?c")
    case Nil': Nil
    with claim Nil ch show ?thesis by (auto simp: claimCurrentDelivery_def ok_iff)
  next
    case (Cons nxt rest)
    have "set (sort_key dl_sequence ?c) = set ?c" by (rule set_sort)
    then have n: "nxt \<in> set ?c" unfolding Cons by auto
    let ?hard = "or_else (dl_hardDeadlineAt nxt) (or_else (dl_acceptedAt nxt) 0 + MAX_DELIVERY_LEASE_MS)"
    from claim Nil Cons ch consider "expireDelivery st (claim_lease i nxt) = Inr m"
      | "lease_step st nxt (promoted i nxt ?hard) = Inr m" "cl_now i < ?hard"
      by (auto simp: claimCurrentDelivery_def ok_iff Let_def split: if_splits)
    then show ?thesis
    proof cases
      case 1
      then have "dl_status r = Expired"
        using assms(2) ch
        by (auto simp: expireDelivery_def ok_iff Let_def dest!: lease_step_changed(1)
            split: option.splits if_splits)
      with assms(3) show ?thesis by simp
    next
      case 2
      from lease_step_changed(1) [OF 2(1)] assms(2) have r: "dl_deliveryId r = dl_deliveryId nxt" "same_identity nxt r"
        "dl_hardDeadlineAt r = Some ?hard" by (cases "dl_hardDeadlineAt nxt"; auto simp: promoted_def same_identity_def)+
      show ?thesis
      proof (rule that [of nxt])
        show "cl_now i < or_else (dl_hardDeadlineAt r) (cl_now i)" using r 2(2) by simp
        show "\<forall>x \<in> set (records st). correlates x i \<longrightarrow> dl_status x \<notin> CURRENT_STATUSES"
          using Nil by (auto simp: currentForCorrelation_def filter_empty_conv)
        show "\<forall>x \<in> set (records st). correlates x i \<longrightarrow> dl_status x \<in> QUEUED_STATUSES \<longrightarrow>
            dl_sequence nxt \<le> dl_sequence x"
          by (intro ballI impI sort_key_first [OF Cons]) simp
      qed (use n r in auto)
    qed
  qed
next
  case (Cons r rs)
  with claim ch show ?thesis by (cases rs) (auto simp: claimCurrentDelivery_def ok_iff)
qed

end
