(* ===== verification/PetDeliveryTheorems.thy ===== *)
theory PetDeliveryTheorems
  imports PetDeliverySafety "HOL-Library.Code_Target_Nat"
begin

text \<open>
  The properties of the delivery ledger, and one concrete run: two messages arrive in one chat, the
  first is claimed, waits, is marked as finishing and replied; a third one of another child session is
  queued, started and settled by its turn.
\<close>

definition chat :: endpoint where
  "chat = \<lparr>ep_chatId = js ''c'', ep_threadId = None\<rparr>"

definition talk :: "string \<Rightarrow> correlation" where
  "talk s = \<lparr>co_endpoint = chat, co_locusId = js ''l'', co_sessionId = js s\<rparr>"

definition arrival :: "string \<Rightarrow> string \<Rightarrow> int \<Rightarrow> delivery_input" where
  "arrival s mid at = \<lparr>co_endpoint = chat, co_locusId = js ''l'', co_sessionId = js s,
     in_messageId = js mid, in_deliveryId = Some (js mid), in_turnId = None, in_executionId = None,
     in_senderOpenId = None, in_senderName = None, in_text = Some (js ''hi''), in_addressing = None,
     in_docComment = None, in_rootMessageId = None, in_replyTarget = None, in_replyToMessageId = None,
     in_acceptedAt = Some at\<rparr>"

definition lease_of :: "string \<Rightarrow> string \<Rightarrow> int \<Rightarrow> lease_input" where
  "lease_of s did now = \<lparr>co_endpoint = chat, co_locusId = js ''l'', co_sessionId = js s,
     li_deliveryId = js did, li_now = now, li_expectedRevision = None\<rparr>"

definition finish_of :: "string \<Rightarrow> string \<Rightarrow> int \<Rightarrow> outbound_result \<Rightarrow> finish_input" where
  "finish_of s did now res = \<lparr>co_endpoint = chat, co_locusId = js ''l'', co_sessionId = js s,
     li_deliveryId = js did, li_now = now, li_expectedRevision = None, fi_outcome = Reply,
     fi_outboundResult = Some res, fi_outboundDiagnostic = None, fi_reason = None\<rparr>"

definition wait_of :: "string \<Rightarrow> string \<Rightarrow> int \<Rightarrow> int \<Rightarrow> wait_input" where
  "wait_of s did now minutes = \<lparr>co_endpoint = chat, co_locusId = js ''l'', co_sessionId = js s,
     li_deliveryId = js did, li_now = now, li_expectedRevision = None, wi_waitMinutes = minutes\<rparr>"

definition claim_of :: "string \<Rightarrow> int \<Rightarrow> claim_input" where
  "claim_of s now = \<lparr>co_endpoint = chat, co_locusId = js ''l'', co_sessionId = js s, cl_now = now,
     cl_deliveryId = None, cl_expectedRevision = None\<rparr>"

definition settle_of :: "string \<Rightarrow> string \<Rightarrow> string \<Rightarrow> string \<Rightarrow> int \<Rightarrow> settlement_input" where
  "settle_of s did ex turn at = \<lparr>se_executionId = js ex, se_turnId = js turn, se_deliveryId = js did,
     se_outcome = OSettled, se_correlation = \<lparr>co_endpoint = chat, co_locusId = js ''l'',
       co_sessionId = js s, tc_turnId = Some (js turn)\<rparr>,
     se_settledAt = Some at, se_failureReason = None\<rparr>"

definition state_of :: "throw + mutation \<Rightarrow> ledger" where
  "state_of r = (case r of Inl e \<Rightarrow> createDeliveryLedger | Inr m \<Rightarrow> mu_state m)"

definition accepted_of :: "throw + acceptance \<Rightarrow> ledger" where
  "accepted_of r = (case r of Inl e \<Rightarrow> createDeliveryLedger | Inr a \<Rightarrow> ac_state a)"

definition run1 :: ledger where
  "run1 = accepted_of (acceptDelivery 0 createDeliveryLedger (arrival ''s'' ''a'' 10))"

definition run2 :: ledger where "run2 = accepted_of (acceptDelivery 0 run1 (arrival ''s'' ''b'' 20))"

definition run3 :: ledger where "run3 = state_of (claimCurrentDelivery run2 (claim_of ''s'' 30))"

definition run4 :: ledger where "run4 = state_of (markFinishing run3 (lease_of ''s'' ''a'' 40))"

definition run5 :: ledger where "run5 = state_of (completeDelivery run4 (finish_of ''s'' ''a'' 50 OSuccess))"

definition run6 :: ledger where "run6 = accepted_of (acceptDelivery 0 run5 (arrival ''t'' ''d'' 60))"

definition run7 :: ledger where
  "run7 = state_of (bindDeliveryTurn run6 (bind_input_for (talk ''t'') (js ''d'') (js ''x'') (js ''y'') (Some 70)))"

lemma accepted_of_step:
  "acceptDelivery clock st inp = Inr a \<Longrightarrow> ledger_step st (accepted_of (acceptDelivery clock st inp))"
  using st_accept by (simp add: accepted_of_def)

definition answers :: "'e + 'a \<Rightarrow> bool" where
  "answers r = (case r of Inl e \<Rightarrow> False | Inr a \<Rightarrow> True)"

lemma answersD: "answers r \<Longrightarrow> \<exists>a. r = Inr a"
  by (cases r) (simp_all add: answers_def)

lemma demo_steps:
  "ledger_step createDeliveryLedger run1" "ledger_step run1 run2" "ledger_step run2 run3"
  "ledger_step run3 run4" "ledger_step run4 run5" "ledger_step run5 run6" "ledger_step run6 run7"
proof -
  have "answers (acceptDelivery 0 createDeliveryLedger (arrival ''s'' ''a'' 10))" by code_simp
  then show "ledger_step createDeliveryLedger run1"
    unfolding run1_def by (auto dest!: answersD intro: accepted_of_step)
  have "answers (acceptDelivery 0 run1 (arrival ''s'' ''b'' 20))" by code_simp
  then show "ledger_step run1 run2" unfolding run2_def by (auto dest!: answersD intro: accepted_of_step)
  have "answers (claimCurrentDelivery run2 (claim_of ''s'' 30))" by code_simp
  then show "ledger_step run2 run3"
    unfolding run3_def state_of_def by (auto dest!: answersD intro: st_claim)
  have "answers (markFinishing run3 (lease_of ''s'' ''a'' 40))" by code_simp
  then show "ledger_step run3 run4"
    unfolding run4_def state_of_def by (auto dest!: answersD intro: st_finishing)
  have "answers (completeDelivery run4 (finish_of ''s'' ''a'' 50 OSuccess))" by code_simp
  then show "ledger_step run4 run5"
    unfolding run5_def state_of_def by (auto dest!: answersD intro: st_complete)
  have "answers (acceptDelivery 0 run5 (arrival ''t'' ''d'' 60))" by code_simp
  then show "ledger_step run5 run6" unfolding run6_def by (auto dest!: answersD intro: accepted_of_step)
  have "answers (bindDeliveryTurn run6 (bind_input_for (talk ''t'') (js ''d'') (js ''x'') (js ''y'') (Some 70)))"
    by code_simp
  then show "ledger_step run6 run7"
    unfolding run7_def state_of_def by (auto dest!: answersD intro: st_bindBoth)
qed

lemma demo_reachable: "ledger_reachable run2" "ledger_reachable run3" "ledger_reachable run4"
  "ledger_reachable run5" "ledger_reachable run7"
  unfolding ledger_reachable_def
  by (meson demo_steps rtranclp.rtrancl_refl rtranclp.rtrancl_into_rtrancl)+

lemma mention_kind_self: "mention_kind self bots i = SelfBot \<longleftrightarrow> i \<noteq> None \<and> i = self"
  by (cases i; cases bots) (auto simp: mention_kind_def)

lemma mentions_self:
  "oc_kind (project_mention self bots m) = SelfBot \<longleftrightarrow> bounded (mn_id m) 256 \<noteq> None \<and> bounded (mn_id m) 256 = self"
  by (simp only: project_mention_def Let_def occurrence.simps mention_kind_self)

subsection \<open>Properties\<close>

text \<open>
  In every reachable ledger the two indexes hold the same records, each under its own ids, no two
  deliveries share a sequence number, and every number was given out.
\<close>

theorem ledger_indexes_agree:
  assumes "ledger_reachable st"
  shows "(getDelivery st did = Some r \<longleftrightarrow> dl_deliveryId r = did \<and> getDeliveryByMessageId st (dl_messageId r) = Some r)
    \<and> (getDelivery st did = Some r \<longrightarrow> 1 \<le> dl_sequence r \<and> dl_sequence r < lg_nextDeliverySequence st)
    \<and> (getDelivery st did = Some r \<longrightarrow> getDelivery st did' = Some r' \<longrightarrow> dl_sequence r = dl_sequence r' \<longrightarrow> did = did')"
proof -
  from ledger_reachable_ok [OF assms] have ok: "indexes_ok st" and sq: "sequences_ok st"
    by (simp_all add: ledger_ok_def)
  have "(getDelivery st did = Some r \<longleftrightarrow> dl_deliveryId r = did \<and> getDeliveryByMessageId st (dl_messageId r) = Some r)"
    unfolding getDelivery_def getDeliveryByMessageId_def
  proof
    assume "map_of (lg_byDeliveryId st) did = Some r"
    from indexes_okD [OF ok this] show "dl_deliveryId r = did \<and> map_of (lg_byMessageId st) (dl_messageId r) = Some r"
      by (rule conjI)
  next
    assume r: "dl_deliveryId r = did \<and> map_of (lg_byMessageId st) (dl_messageId r) = Some r"
    from indexes_okD2(2) [OF ok conjunct2 [OF r]] r show "map_of (lg_byDeliveryId st) did = Some r" by simp
  qed
  moreover have "1 \<le> dl_sequence r \<and> dl_sequence r < lg_nextDeliverySequence st"
    if "getDelivery st did = Some r"
    using sq that unfolding sequences_ok_def getDelivery_def by blast
  moreover have "did = did'"
    if "getDelivery st did = Some r" "getDelivery st did' = Some r'" "dl_sequence r = dl_sequence r'"
    using sq that unfolding sequences_ok_def getDelivery_def by blast
  ultimately show ?thesis by (intro conjI [OF _ conjI] impI)
qed

theorem ledger_indexes_agree_witness:
  "\<exists>r. getDelivery run7 (js ''d'') = Some r \<and> getDeliveryByMessageId run7 (dl_messageId r) = Some r"
proof -
  have "answers (case getDelivery run7 (js ''d'') of None \<Rightarrow> Inl () | Some r \<Rightarrow> Inr r)" by code_simp
  then obtain r where "getDelivery run7 (js ''d'') = Some r" by (auto dest!: answersD split: option.splits)
  with ledger_indexes_agree [OF demo_reachable(5), of "js ''d''" r] show ?thesis by blast
qed

text \<open>
  C19: a reachable ledger never has two deliveries of one conversation (locus, child session and
  endpoint) in the states \<open>current\<close> or \<open>finishing\<close>.
\<close>

theorem one_delivery_is_current:
  assumes "ledger_reachable st"
  shows "length (currentForCorrelation st c) \<le> 1"
proof -
  from ledger_reachable_ok [OF assms] have ok: "indexes_ok st" and one: "one_current (lg_byDeliveryId st)"
    by (simp_all add: ledger_ok_def)
  have eq: "x = y" if "x \<in> set (currentForCorrelation st c)" "y \<in> set (currentForCorrelation st c)" for x y
  proof -
    from that have xy: "map_of (lg_byDeliveryId st) (dl_deliveryId x) = Some x"
        "map_of (lg_byDeliveryId st) (dl_deliveryId y) = Some y" "dl_status x \<in> CURRENT_STATUSES"
        "dl_status y \<in> CURRENT_STATUSES" "correlates x c" "correlates y c"
      using records_iff [OF ok, of x] records_iff [OF ok, of y] by (simp_all add: currentForCorrelation_def)
    have "correlates x y" using correlates_trans [OF xy(5)] xy(6) by (simp add: correlates_sym [of y c])
    with one xy(1-4) have id: "dl_deliveryId x = dl_deliveryId y" unfolding one_current_def by blast
    from xy(1) [unfolded id] xy(2) show ?thesis by (rule option.inject [THEN iffD1, OF trans [OF sym]])
  qed
  have "distinct (currentForCorrelation st c)"
    unfolding currentForCorrelation_def by (intro distinct_filter distinct_records ok)
  show ?thesis
  proof (rule ccontr)
    assume "\<not> length (currentForCorrelation st c) \<le> 1"
    then obtain x y xs where l: "currentForCorrelation st c = x # y # xs"
      by (cases "currentForCorrelation st c" rule: remdups_adj.cases) auto
    have "x = y" by (rule eq) (simp_all add: l)
    with \<open>distinct (currentForCorrelation st c)\<close> show False by (simp add: l)
  qed
qed

theorem one_delivery_is_current_witness:
  "length (currentForCorrelation run3 (talk ''s'')) \<le> 1 \<and> currentForCorrelation run3 (talk ''s'') \<noteq> []"
proof -
  have "answers (case currentForCorrelation run3 (talk ''s'') of [] \<Rightarrow> Inl () | x # xs \<Rightarrow> Inr x)" by code_simp
  then have "currentForCorrelation run3 (talk ''s'') \<noteq> []" by (auto simp: answers_def)
  with one_delivery_is_current [OF demo_reachable(2)] show ?thesis by blast
qed

text \<open>
  C20: whatever happens to the ledger, a delivery keeps its message, text, sender, correlation and the
  feedback target it was accepted with; its status only walks along the protocol of a delivery, its
  revision never decreases, and a delivery in a terminal status never changes again.
\<close>

theorem deliveries_follow_the_protocol:
  assumes "ledger_reachable st" and "ledger_step\<^sup>*\<^sup>* st st'" and "getDelivery st did = Some r"
  shows "\<exists>r'. getDelivery st' did = Some r' \<and> same_identity r r' \<and>
     feedbackTargetForDelivery st' did = Some (dl_feedbackTarget r) \<and>
     status_run (dl_status r) (dl_status r') \<and> or_else (dl_revision r) 0 \<le> or_else (dl_revision r') 0 \<and>
     (isTerminalDeliveryStatus (dl_status r) \<longrightarrow> r' = r)"
proof -
  from ledger.run_le [OF assms(2) ledger_reachable_ok [OF assms(1)]]
  have ok: "ledger_ok st'" and le: "ledger_le st st'" by auto
  from ledger_leD [OF le assms(3) [unfolded getDelivery_def]] obtain r' where
    r': "map_of (lg_byDeliveryId st') did = Some r'" "same_identity r r'"
      "or_else (dl_revision r) 0 \<le> or_else (dl_revision r') 0" "status_run (dl_status r) (dl_status r')"
      "dl_status r \<in> TERMINAL_STATUSES \<longrightarrow> r' = r" .
  from ok r'(1) have "record_ok r'" unfolding ledger_ok_def by blast
  then have ft: "dl_feedbackTarget r' = cloneFeedbackTarget (co_endpoint r') (dl_messageId r') (dl_rootMessageId r')"
    by (rule record_okE)
  then have "feedbackTargetForDelivery st' did = Some (dl_feedbackTarget r')"
    using r'(1) by (simp add: feedbackTargetForDelivery_def getDelivery_def cloneFeedbackTarget_def)
  with r' show ?thesis by (auto simp: getDelivery_def isTerminalDeliveryStatus_def same_identity_def)
qed

theorem deliveries_follow_the_protocol_witness:
  "\<exists>r r'. getDelivery run2 (js ''a'') = Some r \<and> getDelivery run5 (js ''a'') = Some r' \<and>
     dl_status r = Accepted \<and> dl_status r' = Replied \<and> status_run (dl_status r) (dl_status r')"
proof -
  have "(case (getDelivery run2 (js ''a''), getDelivery run5 (js ''a'')) of
      (Some r, Some r') \<Rightarrow> dl_status r = Accepted \<and> dl_status r' = Replied | _ \<Rightarrow> False)" by code_simp
  then obtain r r' where r: "getDelivery run2 (js ''a'') = Some r" "getDelivery run5 (js ''a'') = Some r'"
      "dl_status r = Accepted" "dl_status r' = Replied" by (auto split: option.splits)
  have "ledger_step\<^sup>*\<^sup>* run2 run5"
    by (meson demo_steps rtranclp.rtrancl_refl rtranclp.rtrancl_into_rtrancl)
  from deliveries_follow_the_protocol [OF demo_reachable(1) this r(1)] r show ?thesis by auto
qed

text \<open>
  Accepting a message is idempotent. A message accepted once, offered again at any later time with
  any input of the same message id, changes nothing and answers the record it already has, flagged as
  a conflict exactly when the conversation differs.
\<close>

theorem accept_is_idempotent:
  assumes "ledger_reachable st" and "acceptDelivery clock st inp = Inr a"
    and "ledger_step\<^sup>*\<^sup>* (ac_state a) st'" and "in_messageId inp' = in_messageId inp"
  shows "\<exists>r. getDelivery st' (dl_deliveryId (ac_record a)) = Some r \<and> same_identity (ac_record a) r \<and>
     acceptDelivery clock' st' inp' = Inr \<lparr>ac_state = st', ac_record = r, ac_duplicate = True,
       ac_conflict = (\<not> correlates (ac_record a) inp')\<rparr>"
proof -
  have "ledger_ok (ac_state a)" using acceptDelivery_keeps [OF ledger_reachable_ok [OF assms(1)] assms(2)] by simp
  from ledger.run_le [OF assms(3) this] have le: "ledger_le (ac_state a) st'" and ok: "indexes_ok st'"
    by (auto simp: ledger_ok_indexes)
  have new: "map_of (lg_byDeliveryId (ac_state a)) (dl_deliveryId (ac_record a)) = Some (ac_record a)"
    and mid: "dl_messageId (ac_record a) = in_messageId inp" and id: "trim (in_messageId inp) \<noteq> []"
    using acceptDelivery_stored [OF assms(2) ledger_reachable_ok [OF assms(1)]] by blast+
  from ledger_leD [OF le new] obtain r where
    r: "map_of (lg_byDeliveryId st') (dl_deliveryId (ac_record a)) = Some r" "same_identity (ac_record a) r" .
  have "map_of (lg_byMessageId st') (in_messageId inp') = Some r"
    using indexes_okD(2) [OF ok r(1)] r(2) mid assms(4) by (simp add: same_identity_def)
  then have "acceptDelivery clock' st' inp' = Inr \<lparr>ac_state = st', ac_record = r, ac_duplicate = True,
      ac_conflict = (\<not> correlates (ac_record a) inp')\<rparr>"
    using id assms(4) same_identity_correlates(1) [OF r(2)]
    by (simp add: acceptDelivery_def assertIdentifier_def)
  with r show ?thesis by (auto simp: getDelivery_def)
qed

theorem accept_is_idempotent_witness:
  "\<exists>r. acceptDelivery 99 run7 (arrival ''t'' ''d'' 90) = Inr \<lparr>ac_state = run7, ac_record = r,
     ac_duplicate = True, ac_conflict = False\<rparr>"
proof -
  have "answers (acceptDelivery 0 run5 (arrival ''t'' ''d'' 60))" by code_simp
  then obtain a where a: "acceptDelivery 0 run5 (arrival ''t'' ''d'' 60) = Inr a" by (auto dest: answersD)
  then have "ac_state a = run6" by (simp add: run6_def accepted_of_def)
  then have "ledger_step\<^sup>*\<^sup>* (ac_state a) run7" using r_into_rtranclp [of ledger_step, OF demo_steps(7)] by simp
  from accept_is_idempotent [OF demo_reachable(4) a this, of "arrival ''t'' ''d'' 90" 99] obtain r where
    r: "acceptDelivery 99 run7 (arrival ''t'' ''d'' 90) = Inr \<lparr>ac_state = run7, ac_record = r,
      ac_duplicate = True, ac_conflict = (\<not> correlates (ac_record a) (arrival ''t'' ''d'' 90))\<rparr>"
    by (auto simp: arrival_def)
  have "case acceptDelivery 99 run7 (arrival ''t'' ''d'' 90) of Inl e \<Rightarrow> False | Inr x \<Rightarrow> \<not> ac_conflict x"
    by code_simp
  with r show ?thesis by auto
qed

text \<open>
  A claim that makes a delivery current was made when no delivery of that conversation was current
  or finishing, takes the one accepted first among those still waiting, and only before its hard
  deadline.
\<close>

theorem claim_takes_the_oldest:
  assumes "ledger_reachable st" and "claimCurrentDelivery st i = Inr m" and "mu_changed m"
    and "mu_record m = Some r" and "dl_status r = Current"
  shows "currentForCorrelation st i = [] \<and> correlates r i \<and>
     (\<exists>nxt. getDelivery st (dl_deliveryId r) = Some nxt \<and> dl_status nxt \<in> QUEUED_STATUSES \<and>
        cl_now i < or_else (dl_hardDeadlineAt r) (cl_now i) \<and>
        (\<forall>x \<in> set (listDeliveries st). correlates x i \<longrightarrow> dl_status x \<in> QUEUED_STATUSES \<longrightarrow>
           x = nxt \<or> dl_sequence nxt < dl_sequence x))"
proof -
  from ledger_reachable_ok [OF assms(1)] have ok: "indexes_ok st" and sq: "sequences_ok st"
    by (simp_all add: ledger_ok_def)
  obtain nxt where n: "nxt \<in> set (records st)" "correlates nxt i"
    "dl_status nxt \<in> QUEUED_STATUSES" "dl_deliveryId r = dl_deliveryId nxt" "same_identity nxt r"
    "cl_now i < or_else (dl_hardDeadlineAt r) (cl_now i)"
    and alone: "\<forall>x \<in> set (records st). correlates x i \<longrightarrow> dl_status x \<notin> CURRENT_STATUSES"
    and first: "\<forall>x \<in> set (records st). correlates x i \<longrightarrow> dl_status x \<in> QUEUED_STATUSES \<longrightarrow>
       dl_sequence nxt \<le> dl_sequence x"
    by (rule claim_changed [OF assms(2,4,5,3)])
  have nm: "map_of (lg_byDeliveryId st) (dl_deliveryId nxt) = Some nxt" using n(1) records_iff [OF ok] by simp
  have "x = nxt \<or> dl_sequence nxt < dl_sequence x"
    if x: "x \<in> set (records st)" "correlates x i" "dl_status x \<in> QUEUED_STATUSES" for x
  proof (cases "dl_sequence x = dl_sequence nxt")
    case True
    have xm: "map_of (lg_byDeliveryId st) (dl_deliveryId x) = Some x" using x(1) records_iff [OF ok] by simp
    from sq xm nm True have id: "dl_deliveryId x = dl_deliveryId nxt" unfolding sequences_ok_def by blast
    from xm [unfolded id] nm have "x = nxt" by (rule option.inject [THEN iffD1, OF trans [OF sym]])
    then show ?thesis ..
  qed (use first x in fastforce)
  then have "\<forall>x \<in> set (listDeliveries st). correlates x i \<longrightarrow> dl_status x \<in> QUEUED_STATUSES \<longrightarrow>
      x = nxt \<or> dl_sequence nxt < dl_sequence x"
    by (auto simp: listDeliveries_def)
  moreover have "currentForCorrelation st i = []"
    using alone by (auto simp: currentForCorrelation_def filter_empty_conv)
  moreover have "correlates r i" using n(2) same_identity_correlates(1) [OF n(5), where c = i] by simp
  ultimately show ?thesis using n(3,6) nm unfolding getDelivery_def n(4) by blast
qed

theorem claim_takes_the_oldest_witness:
  "\<exists>m r. claimCurrentDelivery run2 (claim_of ''s'' 30) = Inr m \<and> mu_record m = Some r \<and>
     dl_messageId r = js ''a'' \<and> correlates r (claim_of ''s'' 30)"
proof -
  have "case claimCurrentDelivery run2 (claim_of ''s'' 30) of Inl e \<Rightarrow> False | Inr m \<Rightarrow>
      mu_changed m \<and> (case mu_record m of None \<Rightarrow> False | Some r \<Rightarrow> dl_status r = Current \<and> dl_messageId r = js ''a'')"
    by code_simp
  then obtain m r where m: "claimCurrentDelivery run2 (claim_of ''s'' 30) = Inr m" "mu_changed m"
      "mu_record m = Some r" "dl_status r = Current" "dl_messageId r = js ''a''"
    by (auto split: sum.splits option.splits)
  from claim_takes_the_oldest [OF demo_reachable(1) m(1-4)] m show ?thesis by blast
qed

text \<open>
  C21: no delivery is ever leased beyond a day after it was accepted, and a wait either changes nothing
  or moves the deadline of the current delivery strictly further, by at most the minutes that were
  asked for counted from now, and never beyond that day.
\<close>

theorem leases_are_bounded:
  assumes "ledger_reachable st" and "getDelivery st (li_deliveryId i) = Some r" and "waitDelivery st i = Inr m"
  shows "\<exists>a d. dl_acceptedAt r = Some a \<and> dl_deadlineAt r = Some d \<and> d \<le> a + 86400000 \<and>
     (mu_state m = st \<or> (dl_status r = Current \<and> 1 \<le> wi_waitMinutes i \<and> wi_waitMinutes i \<le> 1440 \<and>
        (\<exists>r' d'. getDelivery (mu_state m) (li_deliveryId i) = Some r' \<and> dl_deadlineAt r' = Some d' \<and>
           dl_status r' = Current \<and> li_now i < d \<and> d < d' \<and> d' \<le> a + 86400000 \<and>
           d' \<le> max d (li_now i + wi_waitMinutes i * 60000))))"
proof -
  from ledger_reachable_ok [OF assms(1)] have ok: "indexes_ok st" and rs: "record_ok r"
    using assms(2) unfolding ledger_ok_def getDelivery_def by blast+
  from rs obtain a d where r: "dl_acceptedAt r = Some a"
      "dl_hardDeadlineAt r = Some (a + MAX_DELIVERY_LEASE_MS)" "dl_deadlineAt r = Some d"
      "d \<le> a + MAX_DELIVERY_LEASE_MS" by (rule record_okE)
  have day: "MAX_DELIVERY_LEASE_MS = 86400000" by (simp add: MAX_DELIVERY_LEASE_MS_def)
  have id: "dl_deliveryId r = li_deliveryId i"
    using indexes_okD(1) [OF ok] assms(2) by (simp add: getDelivery_def)
  let ?d' = "min (max d (li_now i + wi_waitMinutes i * 60 * 1000)) (a + MAX_DELIVERY_LEASE_MS)"
  from assms(2,3) r consider "mu_state m = st"
    | "1 \<le> wi_waitMinutes i" "wi_waitMinutes i \<le> 1440" "dl_status r = Current" "\<not> ?d' \<le> d" "\<not> d \<le> li_now i"
      "lease_step st r (r\<lparr>dl_deadlineAt := Some ?d', dl_hardDeadlineAt := Some (a + MAX_DELIVERY_LEASE_MS)\<rparr>) = Inr m"
    by (auto simp: waitDelivery_def ok_iff Let_def getDelivery_def isDeliveryExpiredAt_def split: if_splits)
  then show ?thesis
  proof cases
    case 2
    have "\<exists>r'. getDelivery (mu_state m) (li_deliveryId i) = Some r' \<and> dl_deadlineAt r' = Some ?d' \<and>
        dl_status r' = Current"
      using 2(3) id by (simp add: lease_step_changed(2) [OF 2(6)] getDelivery_def)
    with 2 r show ?thesis unfolding day by fastforce
  qed (use r day in auto)
qed

theorem leases_are_bounded_witness:
  "\<exists>m r d. waitDelivery run3 (wait_of ''s'' ''a'' 40 1440) = Inr m \<and>
     getDelivery (mu_state m) (js ''a'') = Some r \<and> dl_deadlineAt r = Some d \<and> d \<le> 10 + 86400000 \<and> d = 86400010"
proof -
  have "case waitDelivery run3 (wait_of ''s'' ''a'' 40 1440) of Inl e \<Rightarrow> False | Inr m \<Rightarrow>
      mu_changed m \<and> (case getDelivery (mu_state m) (js ''a'') of None \<Rightarrow> False
        | Some r \<Rightarrow> dl_deadlineAt r = Some 86400010)"
    by code_simp
  then obtain m r' where m: "waitDelivery run3 (wait_of ''s'' ''a'' 40 1440) = Inr m" "mu_changed m"
      "getDelivery (mu_state m) (js ''a'') = Some r'" "dl_deadlineAt r' = Some 86400010"
    by (auto split: sum.splits option.splits)
  have "case getDelivery run3 (js ''a'') of None \<Rightarrow> False | Some r \<Rightarrow> dl_acceptedAt r = Some 10 \<and>
      dl_deadlineAt r \<noteq> Some 86400010" by code_simp
  then obtain r where r: "getDelivery run3 (li_deliveryId (wait_of ''s'' ''a'' 40 1440)) = Some r"
      "dl_acceptedAt r = Some 10" "dl_deadlineAt r \<noteq> Some 86400010"
    by (auto simp: wait_of_def split: option.splits)
  from leases_are_bounded [OF demo_reachable(2) r(1) m(1)] m r show ?thesis
    by (auto simp: wait_of_def)
qed

text \<open>
  A turn settles only the running delivery whose delivery id, conversation, execution id and turn id
  are all the ones given, it records the given outcome on that delivery alone, and no later settlement
  of it, whatever its arguments, changes the ledger again.
\<close>

theorem settlement_needs_the_exact_proof:
  assumes "ledger_reachable st" and "settleByTurn st i = Inr m" and "mu_changed m"
    and "ledger_step\<^sup>*\<^sup>* (mu_state m) st'" and "settleByTurn st' i' = Inr m'" and "se_deliveryId i' = se_deliveryId i"
  shows "\<exists>cur. getDelivery st (se_deliveryId i) = Some cur \<and> dl_status cur = Running \<and>
     correlates cur (se_correlation i) \<and> dl_executionId cur = Some (se_executionId i) \<and>
     dl_turnId cur = Some (se_turnId i) \<and>
     getDelivery (mu_state m) (se_deliveryId i) = Some (settled_record i cur) \<and>
     (\<forall>k. k \<noteq> se_deliveryId i \<longrightarrow> getDelivery (mu_state m) k = getDelivery st k) \<and> mu_state m' = st'"
  using assms(2)
proof (cases rule: settleByTurn_cases)
  case (same reason rec)
  with assms(3) show ?thesis by simp
next
  case (settled cur)
  from ledger_reachable_ok [OF assms(1)] have ok: "indexes_ok st" by (rule ledger_ok_indexes)
  have id: "dl_deliveryId cur = se_deliveryId i" using indexes_okD(1) [OF ok settled(1)] .
  have now: "map_of (lg_byDeliveryId (mu_state m)) (se_deliveryId i) = Some (settled_record i cur)"
    using id by (simp add: settled(2) settled_record_def)
  have "ledger_ok (mu_state m)"
    using touches_ok [OF ledger_reachable_ok [OF assms(1)] settleByTurn_touches [OF assms(2) ok]] by blast
  from ledger.run_le [OF assms(4) this] have "ledger_le (mu_state m) st'" by blast
  from ledger_leD [OF this now] obtain r' where r': "map_of (lg_byDeliveryId st') (se_deliveryId i) = Some r'"
    "dl_status (settled_record i cur) \<in> TERMINAL_STATUSES \<longrightarrow> r' = settled_record i cur" .
  have t: "dl_status (settled_record i cur) \<in> {Settled, Failed}"
    by (cases "se_outcome i") (simp_all add: settled_record_def)
  then have t': "dl_status r' \<noteq> Running" using r'(2) by (auto simp: TERMINAL_STATUSES_def)
  have "mu_state m' = st'"
    using assms(5) by (cases rule: settleByTurn_cases) (use r'(1) t' assms(6) in auto)
  moreover have "getDelivery (mu_state m) k = getDelivery st k" if "k \<noteq> se_deliveryId i" for k
    using that id by (simp add: settled(2) settled_record_def getDelivery_def)
  ultimately show ?thesis using settled now by (auto simp: getDelivery_def)
qed

theorem settlement_needs_the_exact_proof_witness:
  "\<exists>m cur. settleByTurn run7 (settle_of ''t'' ''d'' ''x'' ''y'' 80) = Inr m \<and>
     getDelivery (mu_state m) (js ''d'') = Some (settled_record (settle_of ''t'' ''d'' ''x'' ''y'' 80) cur)"
proof -
  let ?i = "settle_of ''t'' ''d'' ''x'' ''y'' 80"
  have "case settleByTurn run7 ?i of Inl e \<Rightarrow> False | Inr m \<Rightarrow> mu_changed m \<and> answers (settleByTurn (mu_state m) ?i)"
    by code_simp
  then obtain m m' where m: "settleByTurn run7 ?i = Inr m" "mu_changed m" "settleByTurn (mu_state m) ?i = Inr m'"
    by (auto split: sum.splits dest: answersD)
  from settlement_needs_the_exact_proof [OF demo_reachable(5) m(1,2) rtranclp.rtrancl_refl m(3)] m(1) show ?thesis
    by (auto simp: settle_of_def)
qed

text \<open>
  A reply is sent at most once. A delivery completes with a reply only when it was marked as
  finishing before, it is recorded as replied exactly when the platform confirmed the message, and
  after that no completion of it changes the ledger again.
\<close>

theorem reply_is_recorded_once:
  assumes "ledger_reachable st" and "completeDelivery st (i :: finish_input) = Inr m" and "mu_changed m"
    and "ledger_step\<^sup>*\<^sup>* (mu_state m) st'" and "completeDelivery st' (i' :: finish_input) = Inr m'"
    and "li_deliveryId i' = li_deliveryId i"
  shows "\<exists>cur r. getDelivery st (li_deliveryId i) = Some cur \<and> getDelivery (mu_state m) (li_deliveryId i) = Some r \<and>
     (fi_outcome i = Reply \<longrightarrow> dl_status cur = Finishing) \<and>
     (fi_outcome i = NoReply \<longrightarrow> dl_status r = NoReplySent) \<and>
     (dl_status r = Replied \<longleftrightarrow> fi_outcome i = Reply \<and> fi_outboundResult i = Some OSuccess) \<and>
     isTerminalDeliveryStatus (dl_status r) \<and> mu_state m' = st'"
proof -
  from ledger_reachable_ok [OF assms(1)] have ok: "indexes_ok st" by (rule ledger_ok_indexes)
  obtain cur where cur: "map_of (lg_byDeliveryId st) (li_deliveryId i) = Some cur"
    using assms(2,3) by (cases "map_of (lg_byDeliveryId st) (li_deliveryId i)")
      (auto simp: completeDelivery_def ok_iff)
  have id: "dl_deliveryId cur = li_deliveryId i" using indexes_okD(1) [OF ok cur] .
  from assms(2,3) cur have step: "lease_step st cur (completed i cur) = Inr m"
    and st: "dl_status cur = Finishing \<or> (fi_outcome i = NoReply \<and> dl_status cur = Current)"
    and out: "fi_outcome i = Reply \<longrightarrow> fi_outboundResult i \<noteq> None"
    by (auto simp: completeDelivery_def ok_iff split: if_splits)
  let ?r = "completed i cur\<lparr>dl_revision := Some (or_else (dl_revision cur) 0 + 1)\<rparr>"
  have r: "map_of (lg_byDeliveryId (mu_state m)) (li_deliveryId i) = Some ?r"
    using id by (simp add: lease_step_changed(2) [OF step] completed_def Let_def)
  have t: "dl_status ?r \<in> TERMINAL_STATUSES" "fi_outcome i = NoReply \<longrightarrow> dl_status ?r = NoReplySent"
      "dl_status ?r = Replied \<longleftrightarrow> fi_outcome i = Reply \<and> fi_outboundResult i = Some OSuccess"
    using out by (cases "fi_outcome i"; cases "fi_outboundResult i";
        simp add: completed_def Let_def TERMINAL_STATUSES_def)+
  have "ledger_ok (mu_state m)"
    using touches_ok [OF ledger_reachable_ok [OF assms(1)] complete_touches [OF assms(2) ok]] by blast
  from ledger.run_le [OF assms(4) this] have "ledger_le (mu_state m) st'" by blast
  from ledger_leD [OF this r] t(1) have r': "map_of (lg_byDeliveryId st') (li_deliveryId i') = Some ?r"
    using assms(6) by metis
  have "mu_state m' = st'"
    using assms(5) r' t(1) by (auto simp: completeDelivery_def ok_iff split: if_splits)
  with cur r t st show ?thesis by (auto simp: getDelivery_def isTerminalDeliveryStatus_def)
qed

theorem reply_is_recorded_once_witness:
  "\<exists>m m'. completeDelivery run4 (finish_of ''s'' ''a'' 50 OSuccess) = Inr m \<and>
     completeDelivery (mu_state m) (finish_of ''s'' ''a'' 60 OFailure) = Inr m' \<and> mu_state m' = mu_state m"
proof -
  let ?i = "finish_of ''s'' ''a'' 50 OSuccess" and ?j = "finish_of ''s'' ''a'' 60 OFailure"
  have "case completeDelivery run4 ?i of Inl e \<Rightarrow> False
      | Inr m \<Rightarrow> mu_changed m \<and> answers (completeDelivery (mu_state m) ?j)"
    by code_simp
  then obtain m m' where m: "completeDelivery run4 ?i = Inr m" "mu_changed m"
      "completeDelivery (mu_state m) ?j = Inr m'"
    by (auto split: sum.splits dest: answersD)
  from reply_is_recorded_once [OF demo_reachable(3) m(1,2) rtranclp.rtrancl_refl m(3)] m show ?thesis
    by (auto simp: finish_of_def)
qed

text \<open>
  The mention projection of any platform message is one the ledger accepts: at most 32 mentions,
  names of at most 128 units; a bot counts as another bot only when the chat's bot list names it, and
  no mention of this bot does.
\<close>

theorem projected_addressing_is_valid:
  "let a = projectDeliveryAddressing mentions self bots orderKnown
   in validateAddressing a = Inr () \<and> ad_otherBotCount a \<le> 32 \<and>
      ad_otherBotCount (projectDeliveryAddressing mentions self None orderKnown) = 0 \<and>
      (ad_selfMentioned a \<longleftrightarrow> (\<exists>m \<in> set (take 32 mentions). bounded (mn_id m) 256 \<noteq> None \<and>
         bounded (mn_id m) 256 = bounded self 256))"
proof -
  have name: "length (or_else (bounded v 128) []) \<le> 128" for v
    by (cases v) (auto simp: bounded_def)
  let ?ocs = "map (project_mention (bounded self 256)
      (map_option (\<lambda>bots. List.map_filter (\<lambda>b. bounded (Some b) 256) bots) bots)) (take 32 mentions)"
  have n: "length (filter P ?ocs) \<le> length ?ocs" "length ?ocs \<le> 32" for P
    by (rule length_filter_le) simp
  have len: "length (filter P ?ocs) \<le> 32" for P using n(1) [of P] n(2) by linarith
  have "filter (\<lambda>oc. oc_kind oc = OtherBot)
      (map (project_mention (bounded self 256) None) (take 32 mentions)) = []"
    by (auto simp: filter_empty_conv project_mention_def Let_def mention_kind_def split: option.splits)
  moreover have "list_all (\<lambda>oc. length (oc_displayName oc) \<le> 128) ?ocs"
    by (auto simp: list_all_iff project_mention_def Let_def name)
  moreover have "list_ex (\<lambda>oc. oc_kind oc = SelfBot) ?ocs \<longleftrightarrow>
      (\<exists>m \<in> set (take 32 mentions). bounded (mn_id m) 256 \<noteq> None \<and> bounded (mn_id m) 256 = bounded self 256)"
    by (simp add: list_ex_iff mentions_self)
  ultimately show ?thesis
    using len [of "\<lambda>oc. oc_kind oc = OtherBot"] n(1) [of "\<lambda>oc. oc_kind oc = OtherBot"] n(2)
    unfolding Let_def projectDeliveryAddressing_def validateAddressing_def MAX_ADDRESSING_OCCURRENCES_def
    by (simp add: ensure_def safe_integer_def MAX_SAFE_INTEGER_def)
qed

end
