(* ===== verification/PetLocusRows.thy ===== *)
theory PetLocusRows
  imports PetDelivery
begin

text \<open>
  The durable rows of dsh-pet: \<^verbatim>\<open>packages/dsh-pet/src/host/locus/contract-v20.ts\<close>, \<^verbatim>\<open>locus/storage-key.ts\<close>,
  \<^verbatim>\<open>locus/locus-set-v20.ts\<close> and the row schemas of \<^verbatim>\<open>host/spec.ts\<close> the repository writes under. A zod
  schema is the predicate its documentation gives it; the texts of the reported issues are left out.
\<close>

subsection \<open>Keys: \<^verbatim>\<open>storage-key.ts\<close>\<close>

definition STORAGE_KEY_SEPARATOR :: nat where
  "STORAGE_KEY_SEPARATOR = 31"

definition containsStorageKeySeparator :: "jstr \<Rightarrow> bool" where
  "containsStorageKeySeparator v \<longleftrightarrow> STORAGE_KEY_SEPARATOR \<in> set v"

definition endpointKeyV20 :: "'a endpoint_scheme \<Rightarrow> jstr" where
  "endpointKeyV20 e =
     (case ep_threadId e of None \<Rightarrow> ep_chatId e
      | Some t \<Rightarrow> ep_chatId e @ [STORAGE_KEY_SEPARATOR] @ t)"

subsection \<open>Entry rows: \<^verbatim>\<open>contract-v20.ts\<close>\<close>

datatype locus_state = NotCreated | Serving | Invalid | Stopped

datatype access_mode = ReadOnly | FullAccess

text \<open>A group row carries a \<open>group_part\<close>, a topic row none.\<close>

record group_part =
  gp_locusMainSessionId :: jstr
  gp_workspaceId :: jstr
  gp_reboundFrom :: "jstr option"
  gp_defaultQa :: bool

record row =
  rw_endpoint :: endpoint
  rw_locusId :: jstr
  rw_sessionId :: jstr
  rw_state :: locus_state
  rw_accessMode :: access_mode
  rw_verifiedAt :: "int option"
  rw_grantedBy :: "jstr option"
  rw_revision :: int
  rw_createdAt :: int
  rw_updatedAt :: int
  rw_stoppedAt :: "int option"
  rw_invalidReason :: "jstr option"
  rw_group :: "group_part option"

text \<open>\<open>z.number().int().nonnegative()\<close>, \<open>z.string().min(1)\<close>, \<open>.optional()\<close>\<close>

definition nonnegative :: "int \<Rightarrow> bool" where
  "nonnegative n \<longleftrightarrow> 0 \<le> n \<and> n \<le> MAX_SAFE_INTEGER"

definition filled :: "jstr \<Rightarrow> bool" where
  "filled s \<longleftrightarrow> s \<noteq> []"

fun optional :: "('a \<Rightarrow> bool) \<Rightarrow> 'a option \<Rightarrow> bool" where
  "optional P None = True"
| "optional P (Some x) = P x"

definition idPart :: "jstr \<Rightarrow> bool" where
  "idPart v \<longleftrightarrow> filled v \<and> \<not> containsStorageKeySeparator v"

definition rowCommon :: "row \<Rightarrow> bool" where
  "rowCommon r \<longleftrightarrow> filled (rw_locusId r) \<and> filled (rw_sessionId r) \<and>
     optional nonnegative (rw_verifiedAt r) \<and> optional filled (rw_grantedBy r) \<and>
     nonnegative (rw_revision r) \<and> nonnegative (rw_createdAt r) \<and> nonnegative (rw_updatedAt r) \<and>
     optional nonnegative (rw_stoppedAt r)"

definition refineRowLifecycle :: "row \<Rightarrow> bool" where
  "refineRowLifecycle r \<longleftrightarrow>
     (rw_state r = Invalid \<longleftrightarrow> rw_invalidReason r \<noteq> None) \<and>
     (rw_state r = Stopped \<longleftrightarrow> rw_stoppedAt r \<noteq> None)"

definition petLocusGroupRowV20 :: "row \<Rightarrow> bool" where
  "petLocusGroupRowV20 r \<longleftrightarrow> idPart (ep_chatId (rw_endpoint r)) \<and> ep_threadId (rw_endpoint r) = None \<and>
     rowCommon r \<and>
     (case rw_group r of None \<Rightarrow> False
      | Some g \<Rightarrow> filled (gp_locusMainSessionId g) \<and> filled (gp_workspaceId g) \<and> optional filled (gp_reboundFrom g)) \<and>
     refineRowLifecycle r"

definition petLocusTopicRowV20 :: "row \<Rightarrow> bool" where
  "petLocusTopicRowV20 r \<longleftrightarrow> idPart (ep_chatId (rw_endpoint r)) \<and>
     (case ep_threadId (rw_endpoint r) of None \<Rightarrow> False | Some t \<Rightarrow> idPart t) \<and>
     rowCommon r \<and> rw_group r = None \<and> refineRowLifecycle r"

definition petLocusRowV20 :: "row \<Rightarrow> bool" where
  "petLocusRowV20 r \<longleftrightarrow> petLocusGroupRowV20 r \<or> petLocusTopicRowV20 r"

subsection \<open>The set of rows: \<^verbatim>\<open>locus-set-v20.ts\<close>\<close>

definition isTopicRowV20 :: "row \<Rightarrow> bool" where
  "isTopicRowV20 r \<longleftrightarrow> ep_threadId (rw_endpoint r) \<noteq> None"

datatype violation_code =
  RowInvalid | KeyMismatch | TopicWithoutGroup | DuplicateLocusId | DuplicateSessionId
| MultipleDefaultQa | GroupMainUnpaired

type_synonym violation = "violation_code \<times> jstr"

type_synonym loci = "(jstr \<times> row) list"

text \<open>The first loop: rows that do not parse or stand under another key are reported, the rest is \<open>valid\<close>.\<close>

fun parse_rows :: "loci \<Rightarrow> violation list \<times> loci" where
  "parse_rows [] = ([], [])"
| "parse_rows ((k, r) # rest) =
     (let (vs, valid) = parse_rows rest
      in if \<not> petLocusRowV20 r then ((RowInvalid, k) # vs, valid)
         else if endpointKeyV20 (rw_endpoint r) \<noteq> k then ((KeyMismatch, k) # vs, valid)
         else (vs, (k, r) # valid))"

text \<open>The second loop, with the ids seen so far and the default Q&A groups of each main session.\<close>

fun scan_rows ::
  "loci \<Rightarrow> jstr list \<Rightarrow> jstr list \<Rightarrow> jstr list \<Rightarrow> (jstr \<times> jstr list) list \<Rightarrow> loci
     \<Rightarrow> violation list \<times> (jstr \<times> jstr list) list" where
  "scan_rows valid mainIds seenLocus seenSession qa [] = ([], qa)"
| "scan_rows valid mainIds seenLocus seenSession qa ((k, r) # rest) =
     (let dupLocus = (if rw_locusId r \<in> set seenLocus then [(DuplicateLocusId, k)] else []);
          dupSession = (if rw_sessionId r \<in> set seenSession then [(DuplicateSessionId, k)] else []);
          main = (case rw_group r of None \<Rightarrow> [] | Some g \<Rightarrow> gp_locusMainSessionId g);
          placed = (if isTopicRowV20 r
                    then (case map_of valid (ep_chatId (rw_endpoint r)) of
                            None \<Rightarrow> [(TopicWithoutGroup, k)]
                          | Some g \<Rightarrow> if isTopicRowV20 g then [(TopicWithoutGroup, k)] else [])
                    else if main \<notin> set mainIds then [(GroupMainUnpaired, k)] else []);
          qa' = (if \<not> isTopicRowV20 r \<and> (case rw_group r of None \<Rightarrow> False | Some g \<Rightarrow> gp_defaultQa g)
                 then AList.update main (or_else (map_of qa main) [] @ [k]) qa else qa);
          (vs, qa'') = scan_rows valid mainIds (rw_locusId r # seenLocus) (rw_sessionId r # seenSession) qa' rest
      in (dupLocus @ dupSession @ placed @ vs, qa''))"

definition validateLocusSetForStorage :: "loci \<Rightarrow> jstr list \<Rightarrow> violation list" where
  "validateLocusSetForStorage rows mainIds =
     (let (invalid, valid) = parse_rows rows;
          (vs, qa) = scan_rows valid mainIds [] [] [] valid
      in invalid @ vs @ concat (map (\<lambda>(m, ks). if 1 < length ks then map (Pair MultipleDefaultQa) ks else []) qa))"

subsection \<open>The other tables: \<^verbatim>\<open>host/spec.ts\<close>\<close>

datatype pairing_status = Paired | Retired

record main_record =
  mr_locusMainSessionId :: jstr
  mr_workSessionId :: jstr
  mr_generation :: int
  mr_status :: pairing_status
  mr_spaceId :: jstr
  mr_workspaceId :: jstr
  mr_createdAt :: int
  mr_updatedAt :: int
  mr_retiredAt :: "int option"
  mr_retiredReason :: "jstr option"

definition petLocusMainRecord :: "main_record \<Rightarrow> bool" where
  "petLocusMainRecord m \<longleftrightarrow> filled (mr_locusMainSessionId m) \<and> filled (mr_workSessionId m) \<and>
     nonnegative (mr_generation m) \<and> 0 < mr_generation m \<and> filled (mr_spaceId m) \<and> filled (mr_workspaceId m) \<and>
     nonnegative (mr_createdAt m) \<and> nonnegative (mr_updatedAt m) \<and> optional nonnegative (mr_retiredAt m)"

datatype operation_kind =
  Ensure | EnsureDefaultQa | Replace | Rebuild | Busy | StopOp | RetireOp | Invalidate | Permission | ToolTier
| Anchor | DeliveryOp | Rebind | Migrate

datatype operation_phase =
  Prepared | Provisioning | Publishing | Committed | FailedPhase | Compensating | Compensated | NeedsRecovery

datatype compensated_resource = ChatRes | ChildSessionRes | MainSessionRes | LocusMainSessionRes

record resource_refs =
  rr_chatId :: "jstr option"
  rr_threadId :: "jstr option"
  rr_parentSessionId :: "jstr option"
  rr_mainSessionId :: "jstr option"
  rr_locusMainSessionId :: "jstr option"
  rr_childSessionId :: "jstr option"
  rr_workspaceId :: "jstr option"

record operation =
  op_id :: jstr
  op_kind :: operation_kind
  op_phase :: operation_phase
  op_locusId :: "jstr option"
  op_operation :: "jstr option"
  op_deliveryId :: "jstr option"
  op_expectedRevision :: "int option"
  op_endpointKey :: "jstr option"
  op_resourceRefs :: "resource_refs option"
  op_step :: int
  op_attempts :: int
  op_lastError :: "jstr option"
  op_compensatedResources :: "compensated_resource list option"
  op_manualRecoveryReason :: "jstr option"
  op_createdAt :: int
  op_updatedAt :: int
  op_completedAt :: "int option"

definition petLocusOperation :: "operation \<Rightarrow> bool" where
  "petLocusOperation o' \<longleftrightarrow> filled (op_id o') \<and> optional filled (op_locusId o') \<and>
     optional filled (op_operation o') \<and> optional filled (op_deliveryId o') \<and>
     optional nonnegative (op_expectedRevision o') \<and> optional filled (op_endpointKey o') \<and>
     optional (\<lambda>refs. optional filled (rr_chatId refs) \<and> optional filled (rr_threadId refs) \<and>
       optional filled (rr_parentSessionId refs) \<and> optional filled (rr_mainSessionId refs) \<and>
       optional filled (rr_locusMainSessionId refs) \<and> optional filled (rr_childSessionId refs) \<and>
       optional filled (rr_workspaceId refs)) (op_resourceRefs o') \<and>
     optional filled (op_manualRecoveryReason o') \<and>
     nonnegative (op_step o') \<and> nonnegative (op_attempts o') \<and>
     nonnegative (op_createdAt o') \<and> nonnegative (op_updatedAt o') \<and> optional nonnegative (op_completedAt o')"

end
