(* ===== verification/PetDeliverySchema.thy ===== *)
theory PetDeliverySchema
  imports PetLocusRows
begin

text \<open>
  The schema of a stored delivery, \<^verbatim>\<open>petLocusDeliveryBase\<close> and \<^verbatim>\<open>refineLocusDelivery\<close> of
  \<^verbatim>\<open>packages/dsh-pet/src/host/spec.ts\<close>, extended with \<open>sessionId\<close> by \<^verbatim>\<open>locus/contract-v20.ts\<close>. The
  four feedback fields that no operation of the repository reads or writes are left out. The issues of
  \<open>refineLocusDelivery\<close> are the negated conditions, in the order of the code.
\<close>

definition petLocusEndpoint :: "'a endpoint_scheme \<Rightarrow> bool" where
  "petLocusEndpoint e \<longleftrightarrow> idPart (ep_chatId e) \<and> optional idPart (ep_threadId e)"

definition target_schema :: "feedback_target \<Rightarrow> bool" where
  "target_schema t \<longleftrightarrow> petLocusEndpoint t \<and> filled (ft_messageId t) \<and> optional filled (ft_rootMessageId t)"

definition bounded_id :: "jstr \<Rightarrow> bool" where
  "bounded_id s \<longleftrightarrow> filled s \<and> length s \<le> 256"

definition addressing_schema :: "addressing \<Rightarrow> bool" where
  "addressing_schema a \<longleftrightarrow>
     list_all (\<lambda>oc. length (oc_displayName oc) \<le> 128 \<and> optional bounded_id (oc_stableId oc) \<and>
       optional bounded_id (oc_mentionKey oc)) (ad_occurrences a) \<and>
     length (ad_occurrences a) \<le> 32 \<and> nonnegative (ad_otherBotCount a) \<and> ad_otherBotCount a \<le> 32"

definition petLocusDeliveryBase :: "delivery_record \<Rightarrow> bool" where
  "petLocusDeliveryBase d \<longleftrightarrow>
     filled (dl_deliveryId d) \<and> filled (dl_messageId d) \<and> petLocusEndpoint (co_endpoint d) \<and>
     filled (co_locusId d) \<and> (case dl_senderOpenId d of None \<Rightarrow> False | Some s \<Rightarrow> filled s) \<and>
     optional filled (dl_text d) \<and> optional addressing_schema (dl_addressing d) \<and>
     optional target_schema (dl_replyTarget d) \<and> optional filled (dl_rootMessageId d) \<and>
     optional filled (dl_replyToMessageId d) \<and> optional isValidDocCommentQuote (dl_docComment d) \<and>
     nonnegative (dl_sequence d) \<and> 0 < dl_sequence d \<and>
     optional nonnegative (dl_deadlineAt d) \<and> optional nonnegative (dl_hardDeadlineAt d) \<and>
     optional nonnegative (dl_revision d) \<and> optional nonnegative (dl_stateRevision d) \<and>
     optional nonnegative (dl_outboundAttemptedAt d) \<and> optional nonnegative (dl_outboundResultAt d) \<and>
     optional nonnegative (dl_finishedAt d) \<and> optional nonnegative (dl_expiredAt d) \<and>
     target_schema (dl_feedbackTarget d) \<and>
     optional nonnegative (dl_acceptedAt d) \<and> optional nonnegative (dl_queuedAt d) \<and>
     optional nonnegative (dl_startedAt d) \<and> optional nonnegative (dl_settledAt d) \<and>
     optional nonnegative (dl_failedAt d) \<and>
     optional filled (dl_turnId d) \<and> optional filled (dl_executionId d) \<and> optional filled (dl_inboxMessageId d) \<and>
     optional filled (dl_startupRecoveryDebt d)"

text \<open>\<open>modern\<close>: the delivery belongs to the serialized queue.\<close>

definition modern :: "delivery_record \<Rightarrow> bool" where
  "modern d \<longleftrightarrow> dl_queueState d \<noteq> None \<or> dl_deadlineAt d \<noteq> None \<or> dl_finishOutcome d \<noteq> None \<or>
     dl_outboundResult d \<noteq> None \<or>
     dl_status d \<in> {Current, Finishing, Replied, NoReplySent, Expired, UnknownTerminal}"

definition refine_modern :: "delivery_record \<Rightarrow> bool" where
  "refine_modern d \<longleftrightarrow>
     dl_acceptedAt d \<noteq> None \<and>
     \<not> (dl_status d = Accepted \<and> (dl_executionId d \<noteq> None \<or> dl_turnId d \<noteq> None \<or> dl_inboxMessageId d \<noteq> None)) \<and>
     \<not> (dl_status d = Queued \<and> (dl_executionId d = None \<or> dl_inboxMessageId d = None \<or> dl_turnId d \<noteq> None
        \<or> dl_queuedAt d = None)) \<and>
     \<not> (dl_status d = Current \<and> (dl_queueState d \<noteq> Some InCurrent \<or> dl_deadlineAt d = None \<or>
        dl_hardDeadlineAt d = None \<or> dl_revision d = None \<or> dl_stateRevision d = None)) \<and>
     \<not> (dl_status d = Finishing \<and> (dl_queueState d \<noteq> Some InCurrent \<or> dl_deadlineAt d = None \<or>
        dl_hardDeadlineAt d = None \<or> dl_revision d = None \<or> dl_stateRevision d = None \<or>
        dl_finishOutcome d \<noteq> Some Reply)) \<and>
     \<not> (dl_status d \<in> {Replied, UnknownTerminal} \<and> (dl_queueState d \<noteq> None \<or> dl_finishOutcome d \<noteq> Some Reply \<or>
        dl_outboundResult d \<notin> {Some OSuccess, Some OUnknown})) \<and>
     \<not> (dl_status d = NoReplySent \<and> (dl_queueState d \<noteq> None \<or> dl_finishOutcome d \<noteq> Some NoReply \<or>
        dl_outboundResult d \<noteq> Some ONone)) \<and>
     \<not> (dl_status d = Expired \<and> (dl_queueState d \<noteq> None \<or> dl_finishOutcome d \<noteq> None \<or>
        dl_outboundResult d \<notin> {None, Some ONone})) \<and>
     \<not> (dl_stateRevision d \<noteq> None \<and> dl_revision d \<noteq> None \<and> dl_stateRevision d \<noteq> dl_revision d) \<and>
     \<not> (dl_queueState d = Some InCurrent \<and> dl_status d \<notin> {Current, Finishing}) \<and>
     \<not> (dl_queueState d = Some Backlog \<and> dl_status d \<in> {Current, Finishing}) \<and>
     \<not> (dl_finishOutcome d = Some NoReply \<and> dl_outboundResult d \<notin> {None, Some ONone}) \<and>
     \<not> (dl_status d = NoReplySent \<and> dl_finishOutcome d \<noteq> Some NoReply) \<and>
     \<not> (dl_status d \<in> {Replied, UnknownTerminal} \<and> dl_finishOutcome d \<noteq> Some Reply) \<and>
     \<not> (dl_status d = Failed \<and> dl_finishOutcome d \<notin> {None, Some Reply}) \<and>
     \<not> (dl_status d = Expired \<and> dl_finishOutcome d \<noteq> None)"

definition refine_lease :: "delivery_record \<Rightarrow> bool" where
  "refine_lease d \<longleftrightarrow>
     \<not> before (dl_deadlineAt d) (dl_acceptedAt d) \<and>
     \<not> (dl_hardDeadlineAt d \<noteq> None \<and> dl_acceptedAt d \<noteq> None \<and>
        dl_hardDeadlineAt d \<noteq> map_option (\<lambda>a. a + 24 * 60 * 60 * 1000) (dl_acceptedAt d)) \<and>
     \<not> before (dl_hardDeadlineAt d) (dl_deadlineAt d)"

definition has_proof :: "delivery_record \<Rightarrow> bool" where
  "has_proof d \<longleftrightarrow> dl_executionId d \<noteq> None \<and> dl_inboxMessageId d \<noteq> None \<and> dl_turnId d \<noteq> None"

definition has_some_proof :: "delivery_record \<Rightarrow> bool" where
  "has_some_proof d \<longleftrightarrow> dl_executionId d \<noteq> None \<or> dl_inboxMessageId d \<noteq> None \<or> dl_turnId d \<noteq> None"

definition refine_legacy :: "delivery_record \<Rightarrow> bool" where
  "refine_legacy d \<longleftrightarrow>
     \<not> (dl_status d = Accepted \<and> has_some_proof d) \<and>
     \<not> (dl_status d = Queued \<and> (dl_executionId d = None \<or> dl_inboxMessageId d = None \<or> dl_turnId d \<noteq> None
        \<or> dl_queuedAt d = None)) \<and>
     \<not> (dl_status d \<in> {Running, Settled} \<and> \<not> has_proof d) \<and>
     (if dl_status d = Failed
      then \<not> (dl_startupDisposition d = None \<and> dl_dispatchFailure d = None \<and> \<not> has_proof d) \<and>
           \<not> (dl_startupDisposition d = Some Unqueued \<and> has_some_proof d) \<and>
           \<not> (dl_startupDisposition d = Some ExecutionUnrecoverable \<and>
              (dl_executionId d = None \<or> dl_inboxMessageId d = None)) \<and>
           \<not> (dl_dispatchFailure d = Some NotQueued \<and> (dl_startupDisposition d \<noteq> None \<or> has_some_proof d)) \<and>
           \<not> (dl_dispatchFailure d = Some QueuedNotStarted \<and>
              (dl_startupDisposition d \<noteq> None \<or> dl_executionId d = None \<or> dl_inboxMessageId d = None \<or>
               dl_turnId d \<noteq> None \<or> dl_queuedAt d = None))
      else dl_startupDisposition d = None \<and> dl_dispatchFailure d = None)"

definition refine_times :: "delivery_record \<Rightarrow> bool" where
  "refine_times d \<longleftrightarrow>
     \<not> (dl_startupRecoveryDebt d \<noteq> None \<and> dl_status d \<notin> {Queued, Running, Current, Finishing}) \<and>
     \<not> (dl_status d \<in> {Accepted, Queued} \<and>
        (dl_startedAt d \<noteq> None \<or> dl_settledAt d \<noteq> None \<or> dl_failedAt d \<noteq> None)) \<and>
     \<not> (dl_status d = Failed \<and> dl_dispatchFailure d \<noteq> None \<and> dl_startedAt d \<noteq> None) \<and>
     \<not> (dl_status d \<in> {Settled, Failed} \<and> dl_settledAt d = None \<and> dl_failedAt d = None) \<and>
     \<not> before (dl_queuedAt d) (dl_acceptedAt d) \<and>
     \<not> before (dl_startedAt d) (dl_queuedAt d) \<and>
     \<not> before (case dl_settledAt d of None \<Rightarrow> dl_failedAt d | Some t \<Rightarrow> Some t) (dl_startedAt d)"

definition root_of :: "delivery_record \<Rightarrow> jstr option" where
  "root_of d =
     (case dl_rootMessageId d of Some r \<Rightarrow> Some r
      | None \<Rightarrow> (case Option.bind (dl_replyTarget d) ft_rootMessageId of Some r \<Rightarrow> Some r
                 | None \<Rightarrow> ft_rootMessageId (dl_feedbackTarget d)))"

text \<open>\<open>x !== undefined && y !== undefined && x !== y\<close>\<close>

fun conflicting :: "'a option \<Rightarrow> 'a option \<Rightarrow> bool" where
  "conflicting (Some x) (Some y) \<longleftrightarrow> x \<noteq> y"
| "conflicting _ _ \<longleftrightarrow> False"

definition refine_targets :: "delivery_record \<Rightarrow> bool" where
  "refine_targets d \<longleftrightarrow>
     \<not> conflicting (dl_rootMessageId d) (Option.bind (dl_replyTarget d) ft_rootMessageId) \<and>
     \<not> conflicting (dl_rootMessageId d) (ft_rootMessageId (dl_feedbackTarget d)) \<and>
     \<not> conflicting (root_of d) (Option.bind (dl_replyTarget d) ft_rootMessageId) \<and>
     (case dl_replyTarget d of None \<Rightarrow> True
      | Some t \<Rightarrow> sameEndpoint t (co_endpoint d) \<and> ft_messageId t = dl_messageId d) \<and>
     sameEndpoint (dl_feedbackTarget d) (co_endpoint d) \<and> ft_messageId (dl_feedbackTarget d) = dl_messageId d"

definition refineLocusDelivery :: "delivery_record \<Rightarrow> bool" where
  "refineLocusDelivery d \<longleftrightarrow>
     (if modern d then refine_modern d else refine_legacy d) \<and>
     refine_lease d \<and> refine_times d \<and> refine_targets d"

definition petLocusDeliveryV20 :: "delivery_record \<Rightarrow> bool" where
  "petLocusDeliveryV20 d \<longleftrightarrow> petLocusDeliveryBase d \<and> filled (co_sessionId d) \<and> refineLocusDelivery d"

end
