(* ===== verification/PetRepository.thy ===== *)
theory PetRepository
  imports PetDeliverySchema
begin

text \<open>
  The durable repository of dsh-pet, \<^verbatim>\<open>packages/dsh-pet/src/host/locus/persistence-v20.ts\<close>: its tables,
  the staged overlay of one write callback, its reads, the provisioning operations and the commit.

  A write runs as one callback of the repository's queue, so an operation is a function of the whole
  repository. A table is an association list in the order the store enumerates it. What the storage
  medium does is an argument: \<open>commits\<close> says whether the transaction of a flush succeeds; a failing
  transaction leaves the tables as they were.
\<close>

datatype refusal = INVALID_REQUEST | LOCUS_NOT_FOUND | LOCUS_CONFLICT | LOCUS_BUSY | EXPLICIT_PARENT_CONFLICT

datatype failure = Refused refusal | Threw throw | MediumFailed

record tables =
  tb_loci :: loci
  tb_mains :: "(jstr \<times> main_record) list"
  tb_deliveries :: index
  tb_operations :: "(jstr \<times> operation) list"

record repository =
  rp_tables :: tables
  rp_accessChanging :: "jstr list"
  rp_atomic :: bool

subsection \<open>The staged overlay\<close>

text \<open>\<open>sg_reserved\<close> counts the calls of the allocator of session ids an operation is given.\<close>

record staged =
  sg_domain :: tables
  sg_writes :: tables
  sg_reserved :: nat

definition no_tables :: tables where
  "no_tables = \<lparr>tb_loci = [], tb_mains = [], tb_deliveries = [], tb_operations = []\<rparr>"

definition stage :: "repository \<Rightarrow> staged" where
  "stage rp = \<lparr>sg_domain = rp_tables rp, sg_writes = no_tables, sg_reserved = 0\<rparr>"

definition overlay :: "('k \<times> 'v) list \<Rightarrow> ('k \<times> 'v) list \<Rightarrow> ('k \<times> 'v) list" where
  "overlay durable writes = fold (\<lambda>(k, v). AList.update k v) writes durable"

definition staged_get :: "(tables \<Rightarrow> (jstr \<times> 'a) list) \<Rightarrow> staged \<Rightarrow> jstr \<Rightarrow> 'a option" where
  "staged_get table sg k =
     (case map_of (table (sg_writes sg)) k of Some v \<Rightarrow> Some v | None \<Rightarrow> map_of (table (sg_domain sg)) k)"

definition staged_all :: "(tables \<Rightarrow> (jstr \<times> 'a) list) \<Rightarrow> staged \<Rightarrow> (jstr \<times> 'a) list" where
  "staged_all table sg = overlay (table (sg_domain sg)) (table (sg_writes sg))"

definition put_row :: "jstr \<Rightarrow> row \<Rightarrow> staged \<Rightarrow> failure + staged" where
  "put_row k v sg =
     (if \<not> petLocusRowV20 v then Inl (Refused INVALID_REQUEST)
      else Inr (sg\<lparr>sg_writes := (sg_writes sg)\<lparr>tb_loci := AList.update k v (tb_loci (sg_writes sg))\<rparr>\<rparr>))"

definition put_main :: "jstr \<Rightarrow> main_record \<Rightarrow> staged \<Rightarrow> failure + staged" where
  "put_main k v sg =
     (if \<not> petLocusMainRecord v then Inl (Refused INVALID_REQUEST)
      else Inr (sg\<lparr>sg_writes := (sg_writes sg)\<lparr>tb_mains := AList.update k v (tb_mains (sg_writes sg))\<rparr>\<rparr>))"

definition put_delivery :: "jstr \<Rightarrow> delivery_record \<Rightarrow> staged \<Rightarrow> failure + staged" where
  "put_delivery k v sg =
     (if \<not> petLocusDeliveryV20 v then Inl (Refused INVALID_REQUEST)
      else Inr (sg\<lparr>sg_writes := (sg_writes sg)\<lparr>tb_deliveries := AList.update k v (tb_deliveries (sg_writes sg))\<rparr>\<rparr>))"

definition put_operation :: "jstr \<Rightarrow> operation \<Rightarrow> staged \<Rightarrow> failure + staged" where
  "put_operation k v sg =
     (if \<not> petLocusOperation v then Inl (Refused INVALID_REQUEST)
      else Inr (sg\<lparr>sg_writes := (sg_writes sg)\<lparr>tb_operations := AList.update k v (tb_operations (sg_writes sg))\<rparr>\<rparr>))"

definition flush :: "bool \<Rightarrow> staged \<Rightarrow> repository \<Rightarrow> (failure + unit) \<times> repository" where
  "flush commits sg rp =
     (if sg_writes sg = no_tables then (Inr (), rp)
      else if \<not> rp_atomic rp then (Inl (Refused INVALID_REQUEST), rp)
      else if \<not> commits then (Inl MediumFailed, rp)
      else (Inr (), rp\<lparr>rp_tables := \<lparr>tb_loci = staged_all tb_loci sg, tb_mains = staged_all tb_mains sg,
              tb_deliveries = staged_all tb_deliveries sg, tb_operations = staged_all tb_operations sg\<rparr>\<rparr>))"

definition mutate ::
  "bool \<Rightarrow> (staged \<Rightarrow> failure + 'a \<times> staged) \<Rightarrow> repository \<Rightarrow> (failure + 'a) \<times> repository" where
  "mutate commits body rp =
     (case body (stage rp) of
        Inl e \<Rightarrow> (Inl e, rp)
      | Inr (x, sg) \<Rightarrow>
          (case flush commits sg rp of (Inl e, rp') \<Rightarrow> (Inl e, rp') | (Inr _, rp') \<Rightarrow> (Inr x, rp')))"

text \<open>\<open>refuse(code)\<close> unless a condition holds.\<close>

definition require :: "bool \<Rightarrow> refusal \<Rightarrow> failure + unit" where
  "require b code = ensure b (Refused code)"

definition the_or :: "refusal \<Rightarrow> 'a option \<Rightarrow> failure + 'a" where
  "the_or code x = of_option (Refused code) x"

subsection \<open>Status classes\<close>

definition NON_TERMINAL_DELIVERY :: "delivery_status set" where
  "NON_TERMINAL_DELIVERY = {Accepted, Queued, Running, Current, Finishing}"

definition CURRENT_DELIVERY :: "delivery_status set" where
  "CURRENT_DELIVERY = {Queued, Running, Finishing, Current}"

definition PROVISIONING_KINDS :: "operation_kind set" where
  "PROVISIONING_KINDS = {Ensure, Rebind, Migrate}"

definition NON_TERMINAL_PROVISIONING :: "operation_phase set" where
  "NON_TERMINAL_PROVISIONING = {Prepared, Provisioning, Publishing, Compensating, NeedsRecovery}"

definition RECOVERABLE_OPERATION_PHASES :: "operation_phase set" where
  "RECOVERABLE_OPERATION_PHASES = {Prepared, Provisioning, Publishing, FailedPhase, Compensating, NeedsRecovery}"

definition RECOVERY_DEBT_PHASES :: "operation_phase set" where
  "RECOVERY_DEBT_PHASES = {Publishing, Compensating, NeedsRecovery}"

definition PROVISIONING_BLOCK_MS :: int where
  "PROVISIONING_BLOCK_MS = 10 * 60000"

subsection \<open>Reads\<close>

record resolved_row =
  rs_row :: row
  rs_locusMainSessionId :: jstr
  rs_workspaceId :: jstr

definition groupOf :: "loci \<Rightarrow> jstr \<Rightarrow> row option" where
  "groupOf loci chatId =
     (case map_of loci chatId of None \<Rightarrow> None | Some r \<Rightarrow> if isTopicRowV20 r then None else Some r)"

text \<open>\<open>group.locusMainSessionId\<close> and \<open>group.workspaceId\<close> of a group row.\<close>

definition mainOf :: "row \<Rightarrow> jstr" where
  "mainOf r = (case rw_group r of None \<Rightarrow> [] | Some g \<Rightarrow> gp_locusMainSessionId g)"

definition workspaceOf :: "row \<Rightarrow> jstr" where
  "workspaceOf r = (case rw_group r of None \<Rightarrow> [] | Some g \<Rightarrow> gp_workspaceId g)"

definition resolve_row :: "loci \<Rightarrow> row \<Rightarrow> resolved_row option" where
  "resolve_row loci r =
     map_option (\<lambda>g. \<lparr>rs_row = r, rs_locusMainSessionId = mainOf g, rs_workspaceId = workspaceOf g\<rparr>)
       (groupOf loci (ep_chatId (rw_endpoint r)))"

definition loci_of :: "repository \<Rightarrow> loci" where "loci_of rp = tb_loci (rp_tables rp)"

definition deliveries_of :: "repository \<Rightarrow> index" where "deliveries_of rp = tb_deliveries (rp_tables rp)"

definition find_locus :: "loci \<Rightarrow> jstr \<Rightarrow> row option" where
  "find_locus loci locusId = find (\<lambda>r. rw_locusId r = locusId) (vals loci)"

definition getLocus :: "repository \<Rightarrow> jstr \<Rightarrow> row option" where
  "getLocus rp locusId = find_locus (loci_of rp) locusId"

definition getRow :: "repository \<Rightarrow> 'a endpoint_scheme \<Rightarrow> row option" where
  "getRow rp e = map_of (loci_of rp) (endpointKeyV20 e)"

definition groups_first :: "row list \<Rightarrow> row list" where
  "groups_first rs = filter (\<lambda>r. \<not> isTopicRowV20 r) rs @ filter isTopicRowV20 rs"

definition listRowsOfChat :: "repository \<Rightarrow> jstr \<Rightarrow> row list" where
  "listRowsOfChat rp chatId =
     groups_first (filter (\<lambda>r. ep_chatId (rw_endpoint r) = chatId) (vals (loci_of rp)))"

definition listGroupRowsOfMain :: "repository \<Rightarrow> jstr \<Rightarrow> row list" where
  "listGroupRowsOfMain rp m = filter (\<lambda>r. \<not> isTopicRowV20 r \<and> mainOf r = m) (vals (loci_of rp))"

definition findBySessionId :: "repository \<Rightarrow> jstr \<Rightarrow> resolved_row option" where
  "findBySessionId rp sid =
     (case find (\<lambda>r. rw_sessionId r = sid) (vals (loci_of rp)) of
        None \<Rightarrow> None | Some r \<Rightarrow> resolve_row (loci_of rp) r)"

definition findMain :: "repository \<Rightarrow> jstr \<Rightarrow> main_record option" where
  "findMain rp m = map_of (tb_mains (rp_tables rp)) m"

definition listMains :: "repository \<Rightarrow> main_record list" where
  "listMains rp = vals (tb_mains (rp_tables rp))"

definition listPairingsOfWork :: "repository \<Rightarrow> jstr \<Rightarrow> main_record list" where
  "listPairingsOfWork rp w = filter (\<lambda>m. mr_workSessionId m = w) (listMains rp)"

definition findActiveMain :: "repository \<Rightarrow> jstr \<Rightarrow> main_record option" where
  "findActiveMain rp w = find (\<lambda>m. mr_status m = Paired) (listPairingsOfWork rp w)"

definition findDefaultQa :: "repository \<Rightarrow> jstr \<Rightarrow> row option" where
  "findDefaultQa rp w =
     (case findActiveMain rp w of None \<Rightarrow> None
      | Some m \<Rightarrow> find (\<lambda>r. case rw_group r of None \<Rightarrow> False | Some g \<Rightarrow> gp_defaultQa g)
                    (listGroupRowsOfMain rp (mr_locusMainSessionId m)))"

definition hasCurrentDeliveryInChat :: "repository \<Rightarrow> jstr \<Rightarrow> bool" where
  "hasCurrentDeliveryInChat rp chatId =
     list_ex (\<lambda>d. ep_chatId (co_endpoint d) = chatId \<and> dl_status d \<in> CURRENT_DELIVERY) (vals (deliveries_of rp))"

definition hasNonTerminalDelivery :: "repository \<Rightarrow> jstr \<Rightarrow> bool" where
  "hasNonTerminalDelivery rp locusId =
     list_ex (\<lambda>d. co_locusId d = locusId \<and> dl_status d \<in> NON_TERMINAL_DELIVERY) (vals (deliveries_of rp))"

definition hasFirstDeliveryRecoveryDebt :: "repository \<Rightarrow> jstr \<Rightarrow> bool" where
  "hasFirstDeliveryRecoveryDebt rp locusId =
     list_ex (\<lambda>o'. op_locusId o' = Some locusId \<and> op_phase o' \<in> RECOVERY_DEBT_PHASES)
       (vals (tb_operations (rp_tables rp)))"

definition listRows :: "repository \<Rightarrow> row list" where "listRows rp = vals (loci_of rp)"

definition listRecoverableOperations :: "repository \<Rightarrow> operation list" where
  "listRecoverableOperations rp =
     filter (\<lambda>o'. op_phase o' \<in> RECOVERABLE_OPERATION_PHASES) (vals (tb_operations (rp_tables rp)))"

definition getOperation :: "repository \<Rightarrow> jstr \<Rightarrow> operation option" where
  "getOperation rp i = map_of (tb_operations (rp_tables rp)) i"

definition listPendingDeliveries :: "repository \<Rightarrow> delivery_record list" where
  "listPendingDeliveries rp =
     filter (\<lambda>d. dl_status d \<in> NON_TERMINAL_DELIVERY) (vals (deliveries_of rp))"

definition getDelivery_row :: "repository \<Rightarrow> jstr \<Rightarrow> delivery_record option" where
  "getDelivery_row rp i = map_of (deliveries_of rp) i"

definition listDeliveries_row :: "repository \<Rightarrow> jstr option \<Rightarrow> delivery_record list" where
  "listDeliveries_row rp locusId =
     (case locusId of None \<Rightarrow> vals (deliveries_of rp)
      | Some l \<Rightarrow> filter (\<lambda>d. co_locusId d = l) (vals (deliveries_of rp)))"

text \<open>\<open>matches.length === 1 ? matches[0] : undefined\<close>\<close>

fun only_one :: "'a list \<Rightarrow> 'a option" where
  "only_one [x] = Some x"
| "only_one _ = None"

definition findCurrentSerializedDelivery :: "repository \<Rightarrow> jstr \<Rightarrow> jstr \<Rightarrow> delivery_record option" where
  "findCurrentSerializedDelivery rp locusId sessionId =
     only_one (filter (\<lambda>d. dl_status d \<in> {Current, Finishing} \<and> dl_queueState d = Some InCurrent \<and>
       co_locusId d = locusId \<and> co_sessionId d = sessionId) (vals (deliveries_of rp)))"

definition findCurrentDelivery ::
  "repository \<Rightarrow> jstr \<Rightarrow> jstr \<Rightarrow> jstr option \<Rightarrow> jstr option \<Rightarrow> delivery_record option" where
  "findCurrentDelivery rp locusId sessionId executionId turnId =
     (case (executionId, turnId) of
        (Some e, Some t) \<Rightarrow>
          only_one (filter (\<lambda>d. dl_status d \<in> NON_TERMINAL_DELIVERY \<and> co_locusId d = locusId \<and>
            co_sessionId d = sessionId \<and> dl_executionId d = Some e \<and>
            (dl_turnId d = Some t \<or> (dl_status d \<in> {Current, Finishing} \<and> dl_turnId d \<noteq> None)))
            (vals (deliveries_of rp)))
      | _ \<Rightarrow> None)"

definition findDeliveryByInboxMessageId :: "repository \<Rightarrow> jstr \<Rightarrow> delivery_record option" where
  "findDeliveryByInboxMessageId rp i = find (\<lambda>d. dl_inboxMessageId d = Some i) (vals (deliveries_of rp))"

definition hasPendingDeliveries :: "repository \<Rightarrow> jstr \<Rightarrow> bool" where
  "hasPendingDeliveries rp locusId = hasNonTerminalDelivery rp locusId"

definition findDeliveryByMessageId :: "repository \<Rightarrow> jstr \<Rightarrow> delivery_record option" where
  "findDeliveryByMessageId rp i = find (\<lambda>d. dl_messageId d = i) (vals (deliveries_of rp))"

end
