(* ===== verification/PetProvisioning.thy ===== *)
theory PetProvisioning
  imports PetRepository
begin

text \<open>
  Provisioning of entries in \<^verbatim>\<open>locus/persistence-v20.ts\<close>: the write-ahead operation of an endpoint,
  compensation of a failed one, and the publication of the rows of a chat. A compensator is a function
  of the resource and of the operation that created it; it fails with a message.
\<close>

datatype provisioning_kind = ChatProvisioning | RebindProvisioning | MigrateProvisioning

record provisioning_begin =
  pb_provisioningId :: jstr
  pb_kind :: provisioning_kind
  pb_chatId :: jstr
  pb_threadId :: "jstr option"
  pb_workSessionId :: "jstr option"
  pb_startedAt :: int

record provisioning_resource =
  pr_mainSessionId :: "jstr option"
  pr_locusMainSessionId :: "jstr option"
  pr_chatId :: "jstr option"

record compensators =
  cp_mainSession :: "(jstr \<Rightarrow> jstr \<Rightarrow> jstr + unit) option"
  cp_locusMainSession :: "(jstr \<Rightarrow> jstr \<Rightarrow> jstr + unit) option"
  cp_chat :: "(jstr \<Rightarrow> jstr \<Rightarrow> jstr + unit) option"

definition no_refs :: resource_refs where
  "no_refs = \<lparr>rr_chatId = None, rr_threadId = None, rr_parentSessionId = None, rr_mainSessionId = None,
     rr_locusMainSessionId = None, rr_childSessionId = None, rr_workspaceId = None\<rparr>"

subsection \<open>Compensation\<close>

text \<open>One resource of a failed operation: nothing to do, no compensator, or the compensator's answer.\<close>

definition reclaim ::
  "jstr option \<Rightarrow> (jstr \<Rightarrow> jstr \<Rightarrow> jstr + unit) option \<Rightarrow> jstr \<Rightarrow> compensated_resource \<Rightarrow> jstr
     \<Rightarrow> jstr + compensated_resource list" where
  "reclaim resource compensator missing kind opId =
     (case resource of None \<Rightarrow> Inr []
      | Some r \<Rightarrow> (case compensator of None \<Rightarrow> Inl missing
                   | Some f \<Rightarrow> err_bind (f r opId) (\<lambda>_. Inr [kind])))"

definition compensateFailedProvisioning :: "operation \<Rightarrow> int \<Rightarrow> compensators \<Rightarrow> operation" where
  "compensateFailedProvisioning o' now cps =
     (let refs = or_else (op_resourceRefs o') no_refs;
          own = (op_operation o' = Some (js ''chat''))
      in case err_bind (reclaim (rr_locusMainSessionId refs) (cp_locusMainSession cps)
                (js ''no locus-main compensator is configured'') LocusMainSessionRes (op_id o')) (\<lambda>done1.
              err_bind (reclaim (if own then rr_mainSessionId refs else None) (cp_mainSession cps)
                (js ''no main-session compensator is configured'') MainSessionRes (op_id o')) (\<lambda>done2.
              err_bind (reclaim (if own then rr_chatId refs else None) (cp_chat cps)
                (js ''no chat compensator is configured'') ChatRes (op_id o')) (\<lambda>done3.
                Inr (done1 @ done2 @ done3)))) of
           Inr ds \<Rightarrow> o'\<lparr>op_phase := Compensated, op_compensatedResources := Some ds,
             op_updatedAt := now, op_completedAt := Some now\<rparr>
         | Inl message \<Rightarrow> o'\<lparr>op_lastError := Some message\<rparr>)"

subsection \<open>The operation of an endpoint\<close>

fun kind_of :: "provisioning_kind \<Rightarrow> operation_kind" where
  "kind_of ChatProvisioning = Ensure"
| "kind_of RebindProvisioning = Rebind"
| "kind_of MigrateProvisioning = Migrate"

fun kind_label :: "provisioning_kind \<Rightarrow> jstr" where
  "kind_label ChatProvisioning = js ''chat''"
| "kind_label RebindProvisioning = js ''rebind''"
| "kind_label MigrateProvisioning = js ''migrate''"

definition new_operation :: "provisioning_begin \<Rightarrow> jstr \<Rightarrow> operation" where
  "new_operation i key =
     \<lparr>op_id = pb_provisioningId i, op_kind = kind_of (pb_kind i), op_phase = Provisioning, op_locusId = None,
      op_operation = Some (kind_label (pb_kind i)), op_deliveryId = None, op_expectedRevision = None,
      op_endpointKey = Some key, op_resourceRefs = Some no_refs, op_step = 0, op_attempts = 0,
      op_lastError = None, op_compensatedResources = None, op_manualRecoveryReason = None, op_createdAt = pb_startedAt i,
      op_updatedAt = pb_startedAt i, op_completedAt = None\<rparr>"

definition has_refs :: "operation \<Rightarrow> bool" where
  "has_refs o' \<longleftrightarrow>
     (let refs = or_else (op_resourceRefs o') no_refs
      in rr_chatId refs \<noteq> None \<or> rr_threadId refs \<noteq> None \<or> rr_parentSessionId refs \<noteq> None \<or>
         rr_mainSessionId refs \<noteq> None \<or> rr_locusMainSessionId refs \<noteq> None \<or> rr_childSessionId refs \<noteq> None \<or>
         rr_workspaceId refs \<noteq> None)"

definition blocks :: "int \<Rightarrow> operation \<Rightarrow> bool" where
  "blocks startedAt o' \<longleftrightarrow> op_phase o' \<in> NON_TERMINAL_PROVISIONING \<or>
     (op_phase o' = FailedPhase \<and> has_refs o' \<and> startedAt - op_updatedAt o' < PROVISIONING_BLOCK_MS)"

text \<open>The compensation loop: \<open>False\<close> with the staged writes so far when one of the operations stays failed.\<close>

fun compensate_all ::
  "int \<Rightarrow> compensators \<Rightarrow> operation list \<Rightarrow> staged \<Rightarrow> failure + bool \<times> staged" where
  "compensate_all now cps [] sg = Inr (True, sg)"
| "compensate_all now cps (o' # rest) sg =
     (let outcome = compensateFailedProvisioning o' now cps
      in err_bind (put_operation (op_id o') outcome sg) (\<lambda>sg'.
           if op_phase outcome \<noteq> Compensated then Inr (False, sg') else compensate_all now cps rest sg'))"

definition beginProvisioning ::
  "compensators \<Rightarrow> bool \<Rightarrow> provisioning_begin \<Rightarrow> repository \<Rightarrow> (failure + unit) \<times> repository" where
  "beginProvisioning cps commits i rp =
     (let sg = stage rp;
          key = endpointKeyV20 \<lparr>ep_chatId = pb_chatId i, ep_threadId = pb_threadId i\<rparr>;
          earlier = filter (\<lambda>o'. op_endpointKey o' = Some key \<and> op_kind o' \<in> PROVISIONING_KINDS)
                      (vals (staged_all tb_operations sg))
      in if staged_get tb_operations sg (pb_provisioningId i) \<noteq> None
            \<or> list_ex (blocks (pb_startedAt i)) earlier
         then (Inl (Refused LOCUS_CONFLICT), rp)
         else case compensate_all (pb_startedAt i) cps (filter (\<lambda>o'. op_phase o' = FailedPhase) earlier) sg of
                Inl e \<Rightarrow> (Inl e, rp)
              | Inr (False, sg') \<Rightarrow>
                  (case flush commits sg' rp of
                     (Inl e, rp') \<Rightarrow> (Inl e, rp') | (Inr _, rp') \<Rightarrow> (Inl (Refused LOCUS_CONFLICT), rp'))
              | Inr (True, sg') \<Rightarrow>
                  (case put_operation (pb_provisioningId i) (new_operation i key) sg' of
                     Inl e \<Rightarrow> (Inl e, rp) | Inr sg'' \<Rightarrow> flush commits sg'' rp))"

definition requireOperation :: "staged \<Rightarrow> jstr \<Rightarrow> failure + operation" where
  "requireOperation sg i = the_or LOCUS_CONFLICT (staged_get tb_operations sg i)"

definition recordProvisioningResource ::
  "int \<Rightarrow> jstr \<Rightarrow> provisioning_resource \<Rightarrow> staged \<Rightarrow> failure + unit \<times> staged" where
  "recordProvisioningResource now i res sg =
     err_bind (requireOperation sg i) (\<lambda>o'.
       let refs = or_else (op_resourceRefs o') no_refs
       in err_bind (put_operation i (o'\<lparr>op_resourceRefs := Some (refs\<lparr>
            rr_mainSessionId := given (pr_mainSessionId res) (rr_mainSessionId refs),
            rr_locusMainSessionId := given (pr_locusMainSessionId res) (rr_locusMainSessionId refs),
            rr_chatId := given (pr_chatId res) (rr_chatId refs)\<rparr>), op_updatedAt := now\<rparr>) sg) (\<lambda>sg'.
          Inr ((), sg')))"

definition setOperationPhase ::
  "int \<Rightarrow> jstr \<Rightarrow> operation_phase \<Rightarrow> jstr option \<Rightarrow> staged \<Rightarrow> failure + staged" where
  "setOperationPhase now i phase lastError sg =
     err_bind (requireOperation sg i) (\<lambda>o'.
       put_operation i (o'\<lparr>op_phase := phase, op_updatedAt := now,
         op_completedAt := (if phase = Committed \<or> phase = FailedPhase then Some now else op_completedAt o'),
         op_lastError := given lastError (op_lastError o')\<rparr>) sg)"

definition completeProvisioning :: "int \<Rightarrow> jstr \<Rightarrow> staged \<Rightarrow> failure + unit \<times> staged" where
  "completeProvisioning now i sg =
     err_bind (setOperationPhase now i Committed None sg) (\<lambda>sg'. Inr ((), sg'))"

definition failProvisioning :: "int \<Rightarrow> jstr \<Rightarrow> jstr \<Rightarrow> bool \<Rightarrow> staged \<Rightarrow> failure + unit \<times> staged" where
  "failProvisioning now i reason reclaimed sg =
     err_bind (setOperationPhase now i (if reclaimed then Compensated else FailedPhase) (Some reason) sg)
       (\<lambda>sg'. Inr ((), sg'))"

definition putOperation :: "operation \<Rightarrow> staged \<Rightarrow> failure + unit \<times> staged" where
  "putOperation o' sg = err_bind (put_operation (op_id o') o' sg) (\<lambda>sg'. Inr ((), sg'))"

subsection \<open>Publishing rows\<close>

definition open_operation :: "staged \<Rightarrow> jstr \<Rightarrow> failure + unit" where
  "open_operation sg i =
     require (case staged_get tb_operations sg i of None \<Rightarrow> False | Some o' \<Rightarrow> op_phase o' = Provisioning)
       LOCUS_CONFLICT"

text \<open>A new pairing of \<open>commitProvisioning\<close>: fresh, active, the only active one of its work session.\<close>

definition check_pairing :: "(jstr \<times> main_record) list \<Rightarrow> main_record \<Rightarrow> failure + unit" where
  "check_pairing mains m =
     err_bind (require (map_of mains (mr_locusMainSessionId m) = None) LOCUS_CONFLICT) (\<lambda>_.
     err_bind (require (mr_status m = Paired) INVALID_REQUEST) (\<lambda>_.
       require (\<not> list_ex (\<lambda>m'. mr_workSessionId m' = mr_workSessionId m \<and> mr_status m' = Paired) (vals mains))
         INVALID_REQUEST))"

definition valid_set :: "loci \<Rightarrow> (jstr \<times> main_record) list \<Rightarrow> failure + unit" where
  "valid_set loci mains = require (validateLocusSetForStorage loci (keys mains) = []) INVALID_REQUEST"

fun put_rows :: "(jstr \<times> row) list \<Rightarrow> staged \<Rightarrow> failure + staged" where
  "put_rows [] sg = Inr sg"
| "put_rows ((k, r) # rest) sg = err_bind (put_row k r sg) (\<lambda>sg'. put_rows rest sg')"

definition put_pairing :: "main_record option \<Rightarrow> staged \<Rightarrow> failure + staged" where
  "put_pairing m sg = (case m of None \<Rightarrow> Inr sg | Some m \<Rightarrow> put_main (mr_locusMainSessionId m) m sg)"

definition commitProvisioning ::
  "int \<Rightarrow> jstr \<Rightarrow> row \<Rightarrow> row option \<Rightarrow> main_record option \<Rightarrow> staged \<Rightarrow> failure + row list \<times> staged" where
  "commitProvisioning now i grp topic main sg =
     err_bind (open_operation sg i) (\<lambda>_.
     err_bind (require (petLocusGroupRowV20 grp) INVALID_REQUEST) (\<lambda>_.
     err_bind (case topic of None \<Rightarrow> Inr ()
               | Some t \<Rightarrow> err_bind (require (petLocusTopicRowV20 t) INVALID_REQUEST) (\<lambda>_.
                   require (ep_chatId (rw_endpoint t) = ep_chatId (rw_endpoint grp)) INVALID_REQUEST)) (\<lambda>_.
       let loci = staged_all tb_loci sg; mains = staged_all tb_mains sg;
           newRows = (endpointKeyV20 (rw_endpoint grp), grp)
                       # (case topic of None \<Rightarrow> [] | Some t \<Rightarrow> [(endpointKeyV20 (rw_endpoint t), t)])
       in err_bind (require (list_all (\<lambda>(k, r). \<not> has loci k) newRows) LOCUS_CONFLICT) (\<lambda>_.
          err_bind (case main of None \<Rightarrow> Inr () | Some m \<Rightarrow> check_pairing mains m) (\<lambda>_.
          let mains' = (case main of None \<Rightarrow> mains
                        | Some m \<Rightarrow> AList.update (mr_locusMainSessionId m) m mains)
          in err_bind (valid_set (overlay loci newRows) mains') (\<lambda>_.
             err_bind (put_rows newRows sg) (\<lambda>sg1.
             err_bind (put_pairing main sg1) (\<lambda>sg2.
             err_bind (setOperationPhase now i Committed None sg2) (\<lambda>sg3.
               Inr (map snd newRows, sg3)))))))))) "

definition addTopicRow :: "row \<Rightarrow> staged \<Rightarrow> failure + row \<times> staged" where
  "addTopicRow r sg =
     err_bind (require (petLocusTopicRowV20 r) INVALID_REQUEST) (\<lambda>_.
       let loci = staged_all tb_loci sg; key = endpointKeyV20 (rw_endpoint r)
       in err_bind (require (groupOf loci (ep_chatId (rw_endpoint r)) \<noteq> None) LOCUS_NOT_FOUND) (\<lambda>_.
          err_bind (require (\<not> has loci key) LOCUS_CONFLICT) (\<lambda>_.
          err_bind (valid_set (AList.update key r loci) (staged_all tb_mains sg)) (\<lambda>_.
          err_bind (put_row key r sg) (\<lambda>sg'. Inr (r, sg'))))))"

definition assertLocusSetValid :: "repository \<Rightarrow> failure + unit" where
  "assertLocusSetValid rp = valid_set (loci_of rp) (tb_mains (rp_tables rp))"

definition assertEveryGroupMainPaired :: "repository \<Rightarrow> failure + unit" where
  "assertEveryGroupMainPaired rp =
     require (list_all (\<lambda>r. isTopicRowV20 r \<or> has (tb_mains (rp_tables rp)) (mainOf r)) (vals (loci_of rp)))
       INVALID_REQUEST"

end
