(* ===== verification/PetLifecycle.thy ===== *)
theory PetLifecycle
  imports PetProvisioning
begin

text \<open>
  The life of entries and deliveries in \<^verbatim>\<open>locus/persistence-v20.ts\<close>: acceptance, the first child of an
  entry, the durable form of the pure delivery transitions, the access fence, and stop, re-enable,
  invalidate, rebuild, reset, rebind and migrate. \<open>fresh\<close> is the allocator of session ids
  (\<open>reserveChildSessionId\<close>): its n-th call answers \<open>fresh n\<close>.
\<close>

subsection \<open>Shared pieces\<close>

definition isUninjected :: "delivery_record \<Rightarrow> bool" where
  "isUninjected d \<longleftrightarrow> dl_status d = Accepted \<and> dl_queueState d \<noteq> Some InCurrent \<and>
     dl_executionId d = None \<and> dl_inboxMessageId d = None \<and> dl_turnId d = None"

text \<open>The loops that retarget deliveries: \<open>f\<close> gives the new session of a delivery, or skips it.\<close>

fun retarget ::
  "(delivery_record \<Rightarrow> jstr option) \<Rightarrow> delivery_record list \<Rightarrow> staged \<Rightarrow> failure + jstr list \<times> staged" where
  "retarget f [] sg = Inr ([], sg)"
| "retarget f (d # rest) sg =
     (case f d of None \<Rightarrow> retarget f rest sg
      | Some sid \<Rightarrow> err_bind (put_delivery (dl_deliveryId d) (d\<lparr>co_sessionId := sid\<rparr>) sg) (\<lambda>sg'.
          err_bind (retarget f rest sg') (\<lambda>(ids, sg''). Inr (dl_deliveryId d # ids, sg''))))"

definition reserve :: "(nat \<Rightarrow> jstr) \<Rightarrow> staged \<Rightarrow> jstr \<times> staged" where
  "reserve fresh sg = (fresh (sg_reserved sg), sg\<lparr>sg_reserved := sg_reserved sg + 1\<rparr>)"

record fence =
  fe_expectedLocusId :: jstr
  fe_expectedRevision :: int

definition fencedRow :: "loci \<Rightarrow> fence \<Rightarrow> failure + row" where
  "fencedRow loci fence =
     err_bind (the_or LOCUS_NOT_FOUND (find_locus loci (fe_expectedLocusId fence))) (\<lambda>r.
     err_bind (require (rw_revision r = fe_expectedRevision fence) LOCUS_CONFLICT) (\<lambda>_. Inr r))"

definition addPairing :: "main_record \<Rightarrow> staged \<Rightarrow> failure + staged" where
  "addPairing m sg =
     err_bind (require (staged_get tb_mains sg (mr_locusMainSessionId m) = None) LOCUS_CONFLICT) (\<lambda>_.
     err_bind (require (mr_status m = Paired) INVALID_REQUEST) (\<lambda>_.
       put_main (mr_locusMainSessionId m) m sg))"

definition withoutLifecycleGrant :: "row \<Rightarrow> row" where
  "withoutLifecycleGrant r = r\<lparr>rw_verifiedAt := None, rw_grantedBy := None, rw_invalidReason := None\<rparr>"

definition resetLifecycle :: "row \<Rightarrow> int \<Rightarrow> (nat \<Rightarrow> jstr) \<Rightarrow> staged \<Rightarrow> row \<times> staged" where
  "resetLifecycle r now fresh sg =
     (let kept = (withoutLifecycleGrant r)\<lparr>rw_accessMode := ReadOnly, rw_revision := rw_revision r + 1,
            rw_updatedAt := now\<rparr>
      in if rw_state r = Stopped then (kept, sg)
         else let (sid, sg') = reserve fresh sg
              in (kept\<lparr>rw_stoppedAt := None, rw_state := NotCreated, rw_sessionId := sid\<rparr>, sg'))"

text \<open>\<open>staged.put('loci', endpointKeyV20(row.endpoint), row)\<close>, answering the row.\<close>

definition write_row :: "row \<Rightarrow> staged \<Rightarrow> failure + row \<times> staged" where
  "write_row r sg = err_bind (put_row (endpointKeyV20 (rw_endpoint r)) r sg) (\<lambda>sg'. Inr (r, sg'))"

definition assertIdle :: "jstr list \<Rightarrow> staged \<Rightarrow> row \<Rightarrow> failure + unit" where
  "assertIdle changing sg r =
     require (rw_locusId r \<notin> set changing \<and>
       \<not> list_ex (\<lambda>d. co_locusId d = rw_locusId r \<and> dl_status d \<in> NON_TERMINAL_DELIVERY)
           (vals (staged_all tb_deliveries sg))) LOCUS_BUSY"

definition assertRebuildable :: "jstr list \<Rightarrow> staged \<Rightarrow> row \<Rightarrow> failure + unit" where
  "assertRebuildable changing sg r =
     require (rw_locusId r \<notin> set changing \<and>
       \<not> list_ex (\<lambda>d. co_locusId d = rw_locusId r \<and> dl_status d \<in> NON_TERMINAL_DELIVERY \<and> \<not> isUninjected d)
           (vals (staged_all tb_deliveries sg))) LOCUS_BUSY"

subsection \<open>Deliveries\<close>

definition putDeliveryCas :: "delivery_record \<Rightarrow> delivery_record \<Rightarrow> staged \<Rightarrow> failure + unit \<times> staged" where
  "putDeliveryCas prev nxt sg =
     err_bind (the_or LOCUS_NOT_FOUND (staged_get tb_deliveries sg (dl_deliveryId prev))) (\<lambda>cur.
     err_bind (require (or_else (dl_revision cur) 0 = or_else (dl_revision prev) 0) LOCUS_CONFLICT) (\<lambda>_.
       let rv = or_else (dl_revision prev) 0 + 1
       in err_bind (put_delivery (dl_deliveryId nxt)
            (nxt\<lparr>dl_revision := Some rv, dl_stateRevision := Some rv\<rparr>) sg) (\<lambda>sg'. Inr ((), sg'))))"

definition failBeforeDispatch ::
  "int \<Rightarrow> jstr \<Rightarrow> correlation \<Rightarrow> jstr \<Rightarrow> jstr option \<Rightarrow> int option \<Rightarrow> staged \<Rightarrow> failure + bool \<times> staged" where
  "failBeforeDispatch now did c reason executionId failedAt sg =
     (case staged_get tb_deliveries sg did of
        None \<Rightarrow> Inr (False, sg)
      | Some cur \<Rightarrow>
          if co_locusId cur \<noteq> co_locusId c \<or> co_sessionId cur \<noteq> co_sessionId c
             \<or> endpointKeyV20 (co_endpoint cur) \<noteq> endpointKeyV20 (co_endpoint c) then Inr (False, sg)
          else if dl_status cur = Failed \<and> dl_dispatchFailure cur \<noteq> None then Inr (True, sg)
          else if dl_status cur \<notin> {Accepted, Queued, Current} then Inr (False, sg)
          else if (if dl_status cur = Queued
                   then executionId = None \<or> dl_executionId cur \<noteq> executionId
                   else dl_executionId cur \<noteq> None \<or> dl_inboxMessageId cur \<noteq> None) then Inr (False, sg)
          else let at = max (or_else failedAt now)
                     (case dl_queuedAt cur of Some q \<Rightarrow> q | None \<Rightarrow> or_else (dl_acceptedAt cur) 0);
                   nxt = cur\<lparr>dl_queueState := None, dl_status := Failed,
                     dl_dispatchFailure := Some (if dl_status cur = Queued then QueuedNotStarted else NotQueued),
                     dl_failedAt := Some at, dl_failureReason := Some reason\<rparr>
               in err_bind (put_delivery (dl_deliveryId nxt) nxt sg) (\<lambda>sg'. Inr (True, sg')))"

text \<open>\<open>fail\<close> is the older name of the same operation, without a timestamp.\<close>

definition fail_row :: "int \<Rightarrow> jstr \<Rightarrow> correlation \<Rightarrow> jstr \<Rightarrow> jstr option \<Rightarrow> staged \<Rightarrow> failure + bool \<times> staged" where
  "fail_row now did c reason executionId = failBeforeDispatch now did c reason executionId None"

definition next_sequence :: "delivery_record list \<Rightarrow> int" where
  "next_sequence ds = foldr max (map dl_sequence ds) 0 + 1"

text \<open>The accepted record of the ledger, with its state revision.\<close>

definition accepted_row :: "delivery_input \<Rightarrow> int \<Rightarrow> int \<Rightarrow> delivery_record" where
  "accepted_row inp sequence acceptedAt =
     (accepted_record inp (or_else (in_deliveryId inp) (js ''delivery-'' @ number_text sequence)) sequence acceptedAt)
       \<lparr>dl_stateRevision := Some 0\<rparr>"

record row_acceptance =
  ra_record :: delivery_record
  ra_duplicate :: bool
  ra_conflict :: bool

definition acceptDelivery_row ::
  "jstr list \<Rightarrow> int \<Rightarrow> delivery_input \<Rightarrow> staged \<Rightarrow> failure + row_acceptance \<times> staged" where
  "acceptDelivery_row changing now inp sg =
     (case find (\<lambda>d. dl_messageId d = in_messageId inp) (vals (staged_all tb_deliveries sg)) of
        Some d \<Rightarrow> Inr (\<lparr>ra_record = d, ra_duplicate = True,
          ra_conflict = (co_locusId d \<noteq> co_locusId inp \<or> co_sessionId d \<noteq> co_sessionId inp
            \<or> endpointKeyV20 (co_endpoint d) \<noteq> endpointKeyV20 (co_endpoint inp))\<rparr>, sg)
      | None \<Rightarrow>
          err_bind (the_or LOCUS_NOT_FOUND (find_locus (staged_all tb_loci sg) (co_locusId inp))) (\<lambda>r.
          err_bind (require (co_locusId inp \<notin> set changing) LOCUS_BUSY) (\<lambda>_.
          err_bind (require (rw_state r \<noteq> Stopped \<and> rw_state r \<noteq> Invalid) INVALID_REQUEST) (\<lambda>_.
          err_bind (require (rw_sessionId r = co_sessionId inp) LOCUS_CONFLICT) (\<lambda>_.
          err_bind (require (endpointKeyV20 (rw_endpoint r) = endpointKeyV20 (co_endpoint inp)) INVALID_REQUEST) (\<lambda>_.
            let d = accepted_row inp (next_sequence (vals (staged_all tb_deliveries sg)))
                      (or_else (in_acceptedAt inp) now)
            in err_bind (put_delivery (dl_deliveryId d) d sg) (\<lambda>sg'.
                 Inr (\<lparr>ra_record = d, ra_duplicate = False, ra_conflict = False\<rparr>, sg'))))))))"

subsection \<open>The first child of an entry\<close>

record first_identity =
  fd_locusId :: jstr
  fd_sessionId :: jstr
  fd_revision :: int
  fd_deliveryId :: jstr
  fd_now :: int

definition firstIdentityRow :: "staged \<Rightarrow> 'a first_identity_scheme \<Rightarrow> failure + row" where
  "firstIdentityRow sg i =
     err_bind (the_or LOCUS_NOT_FOUND (find_locus (staged_all tb_loci sg) (fd_locusId i))) (\<lambda>r.
     err_bind (require (rw_sessionId r = fd_sessionId i) LOCUS_CONFLICT) (\<lambda>_.
     err_bind (require (rw_revision r = fd_revision i) LOCUS_CONFLICT) (\<lambda>_. Inr r)))"

definition rotateFirstChild ::
  "row \<Rightarrow> jstr \<Rightarrow> (nat \<Rightarrow> jstr) \<Rightarrow> int \<Rightarrow> staged \<Rightarrow> failure + jstr \<times> staged" where
  "rotateFirstChild r except fresh now sg =
     (let (sid, sg0) = reserve fresh sg;
          r' = r\<lparr>rw_verifiedAt := None, rw_stoppedAt := None, rw_invalidReason := None, rw_state := NotCreated,
                 rw_sessionId := sid, rw_revision := rw_revision r + 1, rw_updatedAt := now\<rparr>
      in err_bind (put_row (endpointKeyV20 (rw_endpoint r')) r' sg0) (\<lambda>sg1.
         err_bind (retarget (\<lambda>d. if co_locusId d \<noteq> rw_locusId r \<or> dl_deliveryId d = except \<or> \<not> isUninjected d
                                 then None else Some sid) (vals (staged_all tb_deliveries sg1)) sg1) (\<lambda>(_, sg2).
           Inr (sid, sg2))))"

definition settleTriggerFailed :: "jstr \<Rightarrow> jstr \<Rightarrow> int \<Rightarrow> staged \<Rightarrow> failure + staged" where
  "settleTriggerFailed did reason now sg =
     (case staged_get tb_deliveries sg did of
        None \<Rightarrow> Inr sg
      | Some d \<Rightarrow> put_delivery did (d\<lparr>dl_queueState := None, dl_status := Failed, dl_failedAt := Some now,
          dl_failureReason := Some reason\<rparr>) sg)"

definition first_child_id :: "jstr \<Rightarrow> jstr" where
  "first_child_id executionId = js ''first-child:'' @ executionId"

definition first_operation ::
  "jstr \<Rightarrow> operation_phase \<Rightarrow> first_identity \<Rightarrow> row \<Rightarrow> resource_refs option \<Rightarrow> operation" where
  "first_operation i phase fi r refs =
     \<lparr>op_id = i, op_kind = DeliveryOp, op_phase = phase, op_locusId = Some (fd_locusId fi),
      op_operation = Some (js ''first-child-publication''), op_deliveryId = Some (fd_deliveryId fi),
      op_expectedRevision = Some (fd_revision fi), op_endpointKey = Some (endpointKeyV20 (rw_endpoint r)),
      op_resourceRefs = refs, op_step = 0, op_attempts = 0, op_lastError = None, op_compensatedResources = None,
      op_manualRecoveryReason = None,
      op_createdAt = fd_now fi, op_updatedAt = fd_now fi, op_completedAt = None\<rparr>"

definition publishFirstDelivery ::
  "jstr list \<Rightarrow> first_identity \<Rightarrow> jstr \<Rightarrow> staged \<Rightarrow> failure + unit \<times> staged" where
  "publishFirstDelivery changing i executionId sg =
     err_bind (firstIdentityRow sg i) (\<lambda>r.
     err_bind (require (fd_locusId i \<notin> set changing) LOCUS_BUSY) (\<lambda>_.
     err_bind (require (rw_state r = NotCreated) LOCUS_CONFLICT) (\<lambda>_.
     err_bind (the_or LOCUS_NOT_FOUND (groupOf (staged_all tb_loci sg) (ep_chatId (rw_endpoint r)))) (\<lambda>g.
     err_bind (the_or LOCUS_CONFLICT (staged_get tb_deliveries sg (fd_deliveryId i))) (\<lambda>trigger.
     err_bind (require (co_sessionId trigger = fd_sessionId i \<and> dl_status trigger = Current) LOCUS_CONFLICT) (\<lambda>_.
     err_bind (require (staged_get tb_operations sg (first_child_id executionId) = None) LOCUS_CONFLICT) (\<lambda>_.
     err_bind (put_operation (first_child_id executionId)
         (first_operation (first_child_id executionId) Publishing i r
           (Some (no_refs\<lparr>rr_parentSessionId := Some (mainOf g), rr_childSessionId := Some (fd_sessionId i)\<rparr>))) sg) (\<lambda>sg1.
     err_bind (put_row (endpointKeyV20 (rw_endpoint r))
         (r\<lparr>rw_state := Serving, rw_updatedAt := fd_now i\<rparr>) sg1) (\<lambda>sg2.
     err_bind (put_delivery (fd_deliveryId i) (trigger\<lparr>dl_executionId := Some executionId\<rparr>) sg2) (\<lambda>sg3.
       Inr ((), sg3)))))))))))"

definition commitFirstDelivery :: "jstr \<Rightarrow> int \<Rightarrow> staged \<Rightarrow> failure + unit \<times> staged" where
  "commitFirstDelivery executionId now sg =
     err_bind (requireOperation sg (first_child_id executionId)) (\<lambda>o'.
     err_bind (require (op_phase o' = Publishing) LOCUS_CONFLICT) (\<lambda>_.
     err_bind (put_operation (first_child_id executionId)
         (o'\<lparr>op_phase := Committed, op_updatedAt := now, op_completedAt := Some now\<rparr>) sg) (\<lambda>sg'. Inr ((), sg'))))"

definition failFirstDeliveryCreation ::
  "first_identity \<Rightarrow> (nat \<Rightarrow> jstr) \<Rightarrow> staged \<Rightarrow> failure + unit \<times> staged" where
  "failFirstDeliveryCreation i fresh sg =
     err_bind (firstIdentityRow sg i) (\<lambda>r.
     err_bind (require (case staged_get tb_deliveries sg (fd_deliveryId i) of None \<Rightarrow> False
         | Some d \<Rightarrow> co_sessionId d = fd_sessionId i) LOCUS_CONFLICT) (\<lambda>_.
     err_bind (settleTriggerFailed (fd_deliveryId i) (js ''first child creation failed'') (fd_now i) sg) (\<lambda>sg1.
     err_bind (rotateFirstChild r (fd_deliveryId i) fresh (fd_now i) sg1) (\<lambda>(_, sg2). Inr ((), sg2)))))"

text \<open>The three forms of \<open>revertFirstDelivery\<close>.\<close>

datatype revert_form = RevertDefault | RetryText | RecoveryDebt

definition revertFirstDelivery ::
  "first_identity \<Rightarrow> jstr option \<Rightarrow> revert_form \<Rightarrow> (nat \<Rightarrow> jstr) option \<Rightarrow> staged
     \<Rightarrow> failure + unit \<times> staged" where
  "revertFirstDelivery i executionId form allocator sg =
     err_bind (firstIdentityRow sg i) (\<lambda>r.
       if form = RecoveryDebt
       then let oid = (case executionId of None \<Rightarrow> js ''first-child-debt:'' @ fd_deliveryId i
                       | Some e \<Rightarrow> first_child_id e)
            in err_bind (put_operation oid (case staged_get tb_operations sg oid of
                   None \<Rightarrow> first_operation oid NeedsRecovery i r None
                 | Some o' \<Rightarrow> o'\<lparr>op_phase := NeedsRecovery, op_updatedAt := fd_now i\<rparr>) sg) (\<lambda>sg'. Inr ((), sg'))
       else err_bind (the_or INVALID_REQUEST allocator) (\<lambda>fresh.
            err_bind (rotateFirstChild r (fd_deliveryId i) fresh (fd_now i) sg) (\<lambda>(sid, sg1).
            err_bind (if form = RetryText
                      then (case staged_get tb_deliveries sg1 (fd_deliveryId i) of
                              None \<Rightarrow> Inr sg1
                            | Some d \<Rightarrow> put_delivery (fd_deliveryId i) (d\<lparr>dl_executionId := None,
                                dl_inboxMessageId := None, dl_turnId := None, co_sessionId := sid,
                                dl_imageRouteRejected := True\<rparr>) sg1)
                      else settleTriggerFailed (fd_deliveryId i) (js ''first child publication reverted'')
                             (fd_now i) sg1) (\<lambda>sg2.
              case executionId of
                None \<Rightarrow> Inr ((), sg2)
              | Some e \<Rightarrow> err_bind (requireOperation sg2 (first_child_id e)) (\<lambda>o'.
                  err_bind (put_operation (first_child_id e) (o'\<lparr>op_phase := Compensated,
                    op_updatedAt := fd_now i, op_completedAt := Some (fd_now i)\<rparr>) sg2) (\<lambda>sg3. Inr ((), sg3)))))))"

end
