(* ===== verification/PetEntries.thy ===== *)
theory PetEntries
  imports PetLifecycle
begin

text \<open>
  The rest of \<^verbatim>\<open>locus/persistence-v20.ts\<close>: the pure delivery transitions over stored rows, the access
  fence, the lifecycle of one row, the reset of a chat, rebind and whole-work migration, and the lookup
  at \<open>agent/created\<close>.
\<close>

subsection \<open>Durable delivery transitions\<close>

definition index_by :: "(delivery_record \<Rightarrow> jstr) \<Rightarrow> delivery_record list \<Rightarrow> index" where
  "index_by f ds = fold (\<lambda>d. AList.update (f d) d) ds []"

definition ledgerState :: "staged \<Rightarrow> ledger" where
  "ledgerState sg =
     (let ds = vals (staged_all tb_deliveries sg)
      in \<lparr>lg_byMessageId = index_by dl_messageId ds, lg_byDeliveryId = index_by dl_deliveryId ds,
          lg_nextDeliverySequence = next_sequence ds\<rparr>)"

definition thrown :: "throw + 'a \<Rightarrow> failure + 'a" where
  "thrown r = (case r of Inl t \<Rightarrow> Inl (Threw t) | Inr x \<Rightarrow> Inr x)"

text \<open>\<open>record.revision === undefined ? record : { ...record, stateRevision: record.revision }\<close>\<close>

definition with_state_revision :: "delivery_record \<Rightarrow> delivery_record" where
  "with_state_revision d =
     (case dl_revision d of None \<Rightarrow> d | Some n \<Rightarrow> d\<lparr>dl_stateRevision := Some n\<rparr>)"

definition applyDelivery ::
  "(ledger \<Rightarrow> throw + mutation) \<Rightarrow> staged \<Rightarrow> failure + mutation \<times> staged" where
  "applyDelivery apply_op sg =
     err_bind (thrown (apply_op (ledgerState sg))) (\<lambda>m.
       case mu_record m of
         None \<Rightarrow> Inr (m, sg)
       | Some d \<Rightarrow>
           if \<not> mu_changed m then Inr (m, sg)
           else err_bind (put_delivery (dl_deliveryId d) (with_state_revision d) sg) (\<lambda>sg'.
                  Inr (m\<lparr>mu_record := Some (with_state_revision d)\<rparr>, sg')))"

definition claimCurrentDelivery_row :: "claim_input \<Rightarrow> staged \<Rightarrow> failure + mutation \<times> staged" where
  "claimCurrentDelivery_row i = applyDelivery (\<lambda>st. claimCurrentDelivery st i)"

definition bindQueued_row :: "queued_input \<Rightarrow> staged \<Rightarrow> failure + mutation \<times> staged" where
  "bindQueued_row i = applyDelivery (\<lambda>st. bindQueued st i)"

definition bindTurn_row :: "bind_input \<Rightarrow> staged \<Rightarrow> failure + mutation \<times> staged" where
  "bindTurn_row i = applyDelivery (\<lambda>st. bindTurn st i)"

definition bindDeliveryTurn_row :: "bind_input \<Rightarrow> staged \<Rightarrow> failure + mutation \<times> staged" where
  "bindDeliveryTurn_row i = applyDelivery (\<lambda>st. bindDeliveryTurn st i)"

definition markDeliveryFinishing :: "lease_input \<Rightarrow> staged \<Rightarrow> failure + mutation \<times> staged" where
  "markDeliveryFinishing i = applyDelivery (\<lambda>st. markFinishing st i)"

definition completeCurrentDelivery :: "finish_input \<Rightarrow> staged \<Rightarrow> failure + mutation \<times> staged" where
  "completeCurrentDelivery i = applyDelivery (\<lambda>st. completeDelivery st i)"

definition waitCurrentDelivery :: "wait_input \<Rightarrow> staged \<Rightarrow> failure + mutation \<times> staged" where
  "waitCurrentDelivery i = applyDelivery (\<lambda>st. waitDelivery st i)"

definition abandonRefusedDelivery_row :: "lease_input \<Rightarrow> staged \<Rightarrow> failure + mutation \<times> staged" where
  "abandonRefusedDelivery_row i = applyDelivery (\<lambda>st. abandonRefusedDelivery st i)"

definition abandonInterruptedDelivery_row :: "lease_input \<Rightarrow> staged \<Rightarrow> failure + mutation \<times> staged" where
  "abandonInterruptedDelivery_row i = applyDelivery (\<lambda>st. abandonInterruptedDelivery st i)"

definition expireCurrentDelivery :: "lease_input \<Rightarrow> staged \<Rightarrow> failure + mutation \<times> staged" where
  "expireCurrentDelivery i = applyDelivery (\<lambda>st. expireDelivery st i)"

definition settleByTurn_row ::
  "settlement_input \<Rightarrow> jstr option \<Rightarrow> int option \<Rightarrow> staged \<Rightarrow> failure + mutation \<times> staged" where
  "settleByTurn_row i inboxMessageId expectedRevision sg =
     (case staged_get tb_deliveries sg (se_deliveryId i) of
        None \<Rightarrow> applyDelivery (\<lambda>st. settleByTurn st i) sg
      | Some cur \<Rightarrow>
          if \<not> (dl_status cur = Current \<and> se_outcome i = OFailed
                \<and> se_failureReason i = Some (js ''turn-interrupted''))
          then applyDelivery (\<lambda>st. settleByTurn st i) sg
          else let refused = (\<lambda>reason. Inr (unchanged (ledgerState sg) reason (Some cur), sg))
            in if dl_executionId cur \<noteq> Some (se_executionId i) \<or> dl_turnId cur \<noteq> tc_turnId (se_correlation i)
               then refused CorrelationMismatch
               else if inboxMessageId = None \<or> dl_inboxMessageId cur \<noteq> inboxMessageId
               then refused CorrelationMismatch
               else if expectedRevision = None \<or> dl_revision cur \<noteq> expectedRevision
               then refused RevisionMismatch
               else (case find_locus (staged_all tb_loci sg) (co_locusId cur) of
                       None \<Rightarrow> refused CorrelationMismatch
                     | Some r \<Rightarrow>
                         if rw_state r \<noteq> Serving \<or> rw_sessionId r \<noteq> co_sessionId cur
                         then refused CorrelationMismatch
                         else applyDelivery (\<lambda>st. abandonInterruptedDelivery st
                           \<lparr>co_endpoint = co_endpoint (se_correlation i), co_locusId = co_locusId (se_correlation i),
                            co_sessionId = co_sessionId (se_correlation i), li_deliveryId = se_deliveryId i,
                            li_now = or_else (se_settledAt i) 0, li_expectedRevision = expectedRevision\<rparr>) sg))"

subsection \<open>The access fence\<close>

definition acquireAccessChange ::
  "jstr \<Rightarrow> int option \<Rightarrow> repository \<Rightarrow> (failure + (jstr \<times> int)) \<times> repository" where
  "acquireAccessChange locusId expectedRevision rp =
     (case err_bind (the_or LOCUS_NOT_FOUND (getLocus rp locusId)) (\<lambda>r.
           err_bind (require (expectedRevision = None \<or> Some (rw_revision r) = expectedRevision) LOCUS_CONFLICT) (\<lambda>_.
           err_bind (require (rw_state r \<noteq> Stopped \<and> rw_state r \<noteq> Invalid) INVALID_REQUEST) (\<lambda>_.
           err_bind (require (locusId \<notin> set (rp_accessChanging rp)) LOCUS_BUSY) (\<lambda>_.
           err_bind (require (\<not> hasNonTerminalDelivery rp locusId) LOCUS_BUSY) (\<lambda>_.
             Inr (locusId, rw_revision r)))))) of
        Inl e \<Rightarrow> (Inl e, rp)
      | Inr x \<Rightarrow> (Inr x, rp\<lparr>rp_accessChanging := locusId # rp_accessChanging rp\<rparr>))"

definition releaseAccessChange :: "jstr \<Rightarrow> repository \<Rightarrow> repository" where
  "releaseAccessChange locusId rp =
     rp\<lparr>rp_accessChanging := filter (\<lambda>l. l \<noteq> locusId) (rp_accessChanging rp)\<rparr>"

definition isAccessChanging :: "repository \<Rightarrow> jstr \<Rightarrow> bool" where
  "isAccessChanging rp locusId \<longleftrightarrow> locusId \<in> set (rp_accessChanging rp)"

subsection \<open>The lifecycle of one row\<close>

definition rotateReservation ::
  "jstr \<Rightarrow> int \<Rightarrow> jstr \<Rightarrow> jstr option \<Rightarrow> int \<Rightarrow> (nat \<Rightarrow> jstr) \<Rightarrow> staged
     \<Rightarrow> failure + (row \<times> jstr list) \<times> staged" where
  "rotateReservation locusId expectedRevision failedSessionId retargetId now fresh sg =
     err_bind (the_or LOCUS_NOT_FOUND (find_locus (staged_all tb_loci sg) locusId)) (\<lambda>found.
     err_bind (require (rw_revision found = expectedRevision) LOCUS_CONFLICT) (\<lambda>_.
     err_bind (require (rw_sessionId found = failedSessionId) LOCUS_CONFLICT) (\<lambda>_.
       let (sid, sg0) = reserve fresh sg;
           r = found\<lparr>rw_verifiedAt := None, rw_sessionId := sid, rw_revision := rw_revision found + 1,
                     rw_updatedAt := now\<rparr>
       in err_bind (put_row (endpointKeyV20 (rw_endpoint r)) r sg0) (\<lambda>sg1.
          err_bind (retarget (\<lambda>d. if co_locusId d = locusId
                     \<and> (dl_status d = Accepted \<and> dl_queueState d = Some Backlog \<and> dl_executionId d = None
                          \<and> dl_inboxMessageId d = None \<and> dl_turnId d = None
                        \<or> Some (dl_deliveryId d) = retargetId)
                     then Some sid else None) (vals (staged_all tb_deliveries sg1)) sg1) (\<lambda>(ids, sg2).
            Inr ((r, ids), sg2))))))"

definition stopRow :: "jstr list \<Rightarrow> fence \<Rightarrow> int \<Rightarrow> staged \<Rightarrow> failure + row \<times> staged" where
  "stopRow changing fence now sg =
     err_bind (fencedRow (staged_all tb_loci sg) fence) (\<lambda>r.
     err_bind (assertIdle changing sg r) (\<lambda>_.
       write_row ((withoutLifecycleGrant r)\<lparr>rw_state := Stopped, rw_stoppedAt := Some now,
         rw_revision := rw_revision r + 1, rw_updatedAt := now\<rparr>) sg))"

definition reenableRow :: "fence \<Rightarrow> int \<Rightarrow> (nat \<Rightarrow> jstr) \<Rightarrow> staged \<Rightarrow> failure + row \<times> staged" where
  "reenableRow fence now fresh sg =
     err_bind (fencedRow (staged_all tb_loci sg) fence) (\<lambda>r.
     err_bind (require (rw_state r = Stopped) INVALID_REQUEST) (\<lambda>_.
       let (sid, sg') = reserve fresh sg
       in write_row ((withoutLifecycleGrant r)\<lparr>rw_stoppedAt := None, rw_state := NotCreated, rw_sessionId := sid,
            rw_accessMode := ReadOnly, rw_revision := rw_revision r + 1, rw_updatedAt := now\<rparr>) sg'))"

definition markInvalid :: "fence \<Rightarrow> jstr \<Rightarrow> int \<Rightarrow> staged \<Rightarrow> failure + row \<times> staged" where
  "markInvalid fence reason now sg =
     err_bind (fencedRow (staged_all tb_loci sg) fence) (\<lambda>r.
       write_row (r\<lparr>rw_stoppedAt := None, rw_state := Invalid, rw_invalidReason := Some reason,
         rw_revision := rw_revision r + 1, rw_updatedAt := now\<rparr>) sg)"

definition rebuildRowInPlace ::
  "jstr list \<Rightarrow> fence \<Rightarrow> int \<Rightarrow> (nat \<Rightarrow> jstr) \<Rightarrow> staged \<Rightarrow> failure + row \<times> staged" where
  "rebuildRowInPlace changing fence now fresh sg =
     err_bind (fencedRow (staged_all tb_loci sg) fence) (\<lambda>r.
     err_bind (require (rw_state r = Invalid) INVALID_REQUEST) (\<lambda>_.
     err_bind (assertRebuildable changing sg r) (\<lambda>_.
       let (r', sg0) = resetLifecycle r now fresh sg
       in err_bind (write_row r' sg0) (\<lambda>(_, sg1).
          err_bind (retarget (\<lambda>d. if co_locusId d \<noteq> rw_locusId r \<or> \<not> isUninjected d then None
                                  else Some (rw_sessionId r')) (vals (staged_all tb_deliveries sg1)) sg1) (\<lambda>(_, sg2).
            Inr (r', sg2))))))"

definition setAccessMode :: "fence \<Rightarrow> access_mode \<Rightarrow> jstr \<Rightarrow> int \<Rightarrow> staged \<Rightarrow> failure + row \<times> staged" where
  "setAccessMode fence mode grantedBy now sg =
     err_bind (fencedRow (staged_all tb_loci sg) fence) (\<lambda>r.
     err_bind (require (rw_state r \<noteq> Stopped \<and> rw_state r \<noteq> Invalid) INVALID_REQUEST) (\<lambda>_.
       write_row (r\<lparr>rw_verifiedAt := None, rw_accessMode := mode, rw_grantedBy := Some grantedBy,
         rw_revision := rw_revision r + 1, rw_updatedAt := now\<rparr>) sg))"

definition recordAccessVerified :: "fence \<Rightarrow> access_mode \<Rightarrow> int \<Rightarrow> staged \<Rightarrow> failure + row \<times> staged" where
  "recordAccessVerified fence mode now sg =
     err_bind (fencedRow (staged_all tb_loci sg) fence) (\<lambda>r.
     err_bind (require (rw_accessMode r = mode) LOCUS_CONFLICT) (\<lambda>_.
       write_row (r\<lparr>rw_verifiedAt := Some now, rw_updatedAt := now\<rparr>) sg))"

subsection \<open>The reset of a chat\<close>

record reset_options =
  ro_toM :: jstr
  ro_workspaceId :: "jstr option"
  ro_reboundFrom :: "jstr option"
  ro_clearDefaultQa :: bool
  ro_expectedRevisions :: "(jstr \<times> int) list"
  ro_now :: int

record reset_result =
  re_rows :: "row list"
  re_retargetedDeliveryIds :: "jstr list"

definition move_group :: "reset_options \<Rightarrow> row \<Rightarrow> row" where
  "move_group o' r = r\<lparr>rw_group := map_option (\<lambda>g. g\<lparr>gp_locusMainSessionId := ro_toM o',
       gp_workspaceId := or_else (ro_workspaceId o') (gp_workspaceId g),
       gp_reboundFrom := given (ro_reboundFrom o') (gp_reboundFrom g),
       gp_defaultQa := (gp_defaultQa g \<and> \<not> ro_clearDefaultQa o')\<rparr>) (rw_group r)\<rparr>"

text \<open>The rows of the chat after the reset, with their keys, in the order of the table.\<close>

fun reset_rows ::
  "jstr \<Rightarrow> reset_options \<Rightarrow> (nat \<Rightarrow> jstr) \<Rightarrow> (jstr \<times> row) list \<Rightarrow> staged \<Rightarrow> (jstr \<times> row) list \<times> staged" where
  "reset_rows chatId o' fresh [] sg = ([], sg)"
| "reset_rows chatId o' fresh ((k, r) # rest) sg =
     (let base = (if k = chatId then move_group o' r else r);
          (r', sg') = resetLifecycle base (ro_now o') fresh sg;
          (rs, sg'') = reset_rows chatId o' fresh rest sg'
      in ((k, r') # rs, sg''))"

definition resetChatIn ::
  "jstr list \<Rightarrow> jstr \<Rightarrow> reset_options \<Rightarrow> (nat \<Rightarrow> jstr) \<Rightarrow> staged \<Rightarrow> failure + reset_result \<times> staged" where
  "resetChatIn changing chatId o' fresh sg =
     (let loci = staged_all tb_loci sg;
          chatEntries = filter (\<lambda>(k, r). ep_chatId (rw_endpoint r) = chatId) loci
      in err_bind (require (groupOf loci chatId \<noteq> None) LOCUS_NOT_FOUND) (\<lambda>_.
         err_bind (require (\<not> list_ex (\<lambda>d. ep_chatId (co_endpoint d) = chatId \<and> dl_status d \<in> CURRENT_DELIVERY)
             (vals (staged_all tb_deliveries sg))) LOCUS_BUSY) (\<lambda>_.
         err_bind (require (\<not> list_ex (\<lambda>(k, r). rw_locusId r \<in> set changing) chatEntries) LOCUS_BUSY) (\<lambda>_.
         err_bind (require (list_all (\<lambda>(k, n). case map_of loci k of None \<Rightarrow> True | Some r \<Rightarrow> rw_revision r = n)
             (ro_expectedRevisions o')) LOCUS_CONFLICT) (\<lambda>_.
           let (written, sg0) = reset_rows chatId o' fresh chatEntries sg;
               moved = map (\<lambda>(k, r). (rw_locusId r, rw_sessionId r))
                         (filter (\<lambda>(k, r). rw_state r = NotCreated) written)
           in err_bind (valid_set (overlay loci written) (staged_all tb_mains sg0)) (\<lambda>_.
              err_bind (put_rows (map (\<lambda>(k, r). (endpointKeyV20 (rw_endpoint r), r)) written) sg0) (\<lambda>sg1.
              err_bind (retarget (\<lambda>d. if ep_chatId (co_endpoint d) \<noteq> chatId \<or> \<not> isUninjected d then None
                                      else map_of (rev moved) (co_locusId d))
                   (vals (staged_all tb_deliveries sg1)) sg1) (\<lambda>(ids, sg2).
                Inr (\<lparr>re_rows = groups_first (filter (\<lambda>r. ep_chatId (rw_endpoint r) = chatId) (map snd written)),
                      re_retargetedDeliveryIds = ids\<rparr>, sg2)))))))))"

text \<open>
  \<open>write\<close> hands \<open>resetChat\<close> to the body of its caller: the body is the sequence of the resets it asks for,
  in one transaction.
\<close>

fun resetChats ::
  "jstr list \<Rightarrow> (nat \<Rightarrow> jstr) \<Rightarrow> (jstr \<times> reset_options) list \<Rightarrow> staged
     \<Rightarrow> failure + reset_result list \<times> staged" where
  "resetChats changing fresh [] sg = Inr ([], sg)"
| "resetChats changing fresh ((chatId, o') # rest) sg =
     err_bind (resetChatIn changing chatId o' fresh sg) (\<lambda>(result, sg1).
     err_bind (resetChats changing fresh rest sg1) (\<lambda>(results, sg2). Inr (result # results, sg2)))"

record rebind_input =
  rb_provisioningId :: jstr
  rb_chatId :: jstr
  rb_expectedLocusId :: jstr
  rb_expectedRevision :: int
  rb_toM :: jstr
  rb_main :: "main_record option"
  rb_workspaceId :: jstr
  rb_reboundFrom :: jstr
  rb_now :: int

definition rebindChat ::
  "jstr list \<Rightarrow> int \<Rightarrow> rebind_input \<Rightarrow> (nat \<Rightarrow> jstr) \<Rightarrow> staged \<Rightarrow> failure + reset_result \<times> staged" where
  "rebindChat changing now i fresh sg =
     err_bind (open_operation sg (rb_provisioningId i)) (\<lambda>_.
     err_bind (fencedRow (staged_all tb_loci sg)
       \<lparr>fe_expectedLocusId = rb_expectedLocusId i, fe_expectedRevision = rb_expectedRevision i\<rparr>) (\<lambda>_.
     err_bind (case rb_main i of None \<Rightarrow> Inr sg | Some m \<Rightarrow> addPairing m sg) (\<lambda>sg1.
     err_bind (resetChatIn changing (rb_chatId i)
       \<lparr>ro_toM = rb_toM i, ro_workspaceId = Some (rb_workspaceId i), ro_reboundFrom = Some (rb_reboundFrom i),
        ro_clearDefaultQa = True, ro_expectedRevisions = [(rb_chatId i, rb_expectedRevision i)],
        ro_now = rb_now i\<rparr> fresh sg1) (\<lambda>(result, sg2).
     err_bind (setOperationPhase now (rb_provisioningId i) Committed None sg2) (\<lambda>sg3.
       Inr (result, sg3))))))"

record migrate_chat =
  mc_chatId :: jstr
  mc_expectedMain :: "jstr option"
  mc_expectedRevisions :: "(jstr \<times> int) list"

record migrate_input =
  mi_provisioningId :: jstr
  mi_workSessionId :: jstr
  mi_newMain :: main_record
  mi_retireMain :: "(jstr \<times> jstr) option"
  mi_chats :: "migrate_chat list"
  mi_now :: int

fun migrate_chats ::
  "jstr list \<Rightarrow> jstr \<Rightarrow> int \<Rightarrow> (nat \<Rightarrow> jstr) \<Rightarrow> migrate_chat list \<Rightarrow> staged
     \<Rightarrow> failure + reset_result list \<times> staged" where
  "migrate_chats changing toM now fresh [] sg = Inr ([], sg)"
| "migrate_chats changing toM now fresh (c # rest) sg =
     err_bind (require (case mc_expectedMain c of None \<Rightarrow> True
         | Some m \<Rightarrow> (case groupOf (staged_all tb_loci sg) (mc_chatId c) of
                        None \<Rightarrow> False | Some g \<Rightarrow> mainOf g = m)) LOCUS_CONFLICT) (\<lambda>_.
     err_bind (resetChatIn changing (mc_chatId c)
       \<lparr>ro_toM = toM, ro_workspaceId = None, ro_reboundFrom = None, ro_clearDefaultQa = False,
        ro_expectedRevisions = mc_expectedRevisions c, ro_now = now\<rparr> fresh sg) (\<lambda>(result, sg1).
     err_bind (migrate_chats changing toM now fresh rest sg1) (\<lambda>(results, sg2).
       Inr (result # results, sg2))))"

definition retire_main :: "migrate_input \<Rightarrow> staged \<Rightarrow> failure + staged" where
  "retire_main i sg =
     (case mi_retireMain i of
        None \<Rightarrow> Inr sg
      | Some (m, reason) \<Rightarrow>
          (case staged_get tb_mains sg m of
             None \<Rightarrow> Inl (Refused LOCUS_CONFLICT)
           | Some cur \<Rightarrow>
               if mr_status cur \<noteq> Paired \<or> mr_workSessionId cur \<noteq> mi_workSessionId i
               then Inl (Refused LOCUS_CONFLICT)
               else put_main (mr_locusMainSessionId cur) (cur\<lparr>mr_status := Retired, mr_retiredAt := Some (mi_now i),
                      mr_retiredReason := Some reason, mr_updatedAt := mi_now i\<rparr>) sg))"

definition commitWholeWMigration ::
  "jstr list \<Rightarrow> int \<Rightarrow> migrate_input \<Rightarrow> (nat \<Rightarrow> jstr) \<Rightarrow> staged \<Rightarrow> failure + reset_result list \<times> staged" where
  "commitWholeWMigration changing now i fresh sg =
     err_bind (open_operation sg (mi_provisioningId i)) (\<lambda>_.
     err_bind (require (mr_status (mi_newMain i) = Paired \<and> mr_workSessionId (mi_newMain i) = mi_workSessionId i)
       INVALID_REQUEST) (\<lambda>_.
     err_bind (retire_main i sg) (\<lambda>sg1.
     err_bind (addPairing (mi_newMain i) sg1) (\<lambda>sg2.
     err_bind (migrate_chats changing (mr_locusMainSessionId (mi_newMain i)) (mi_now i) fresh (mi_chats i) sg2)
       (\<lambda>(results, sg3).
     err_bind (setOperationPhase now (mi_provisioningId i) Committed None sg3) (\<lambda>sg4.
       Inr (results, sg4)))))))"

subsection \<open>The lookup at \<open>agent/created\<close>\<close>

record staged_child =
  sc_sessionId :: jstr
  sc_locusMainSessionId :: jstr
  sc_revision :: int

datatype block_reason = AccessChanging | RecoveryDebtReason

datatype child_lookup =
  Blocked block_reason jstr | ActiveChild resolved_row | StagedChild resolved_row | RetiredChild | OrdinaryChild

definition unblocked_child ::
  "resolved_row option \<Rightarrow> jstr option \<Rightarrow> staged_child option \<Rightarrow> child_lookup" where
  "unblocked_child found preset child =
     (case (child, found) of
        (Some c, Some f) \<Rightarrow>
          if rw_state (rs_row f) = NotCreated \<and> rw_sessionId (rs_row f) = sc_sessionId c \<and>
             rs_locusMainSessionId f = sc_locusMainSessionId c \<and> rw_revision (rs_row f) = sc_revision c
          then StagedChild f
          else if preset = Some (js ''locus-child'') then RetiredChild else OrdinaryChild
      | _ \<Rightarrow> if preset = Some (js ''locus-child'') then RetiredChild else OrdinaryChild)"

definition lookupChildForAgentCreated ::
  "repository \<Rightarrow> jstr \<Rightarrow> jstr option \<Rightarrow> staged_child option \<Rightarrow> child_lookup" where
  "lookupChildForAgentCreated rp sessionId preset child =
     (case findBySessionId rp sessionId of
        None \<Rightarrow> unblocked_child None preset child
      | Some f \<Rightarrow>
          if rw_locusId (rs_row f) \<in> set (rp_accessChanging rp)
          then Blocked AccessChanging (rw_locusId (rs_row f))
          else if hasFirstDeliveryRecoveryDebt rp (rw_locusId (rs_row f))
          then Blocked RecoveryDebtReason (rw_locusId (rs_row f))
          else if rw_state (rs_row f) = Serving then ActiveChild f
          else unblocked_child (Some f) preset child)"

end
