(* ===== verification/PetLocusSet.thy ===== *)
theory PetLocusSet
  imports PetEntries
begin

text \<open>
  What \<open>validateLocusSetForStorage\<close> decides. \<open>set_ok\<close> states the invariants of the table of entries over
  the map it represents; the three loops of the code report a violation exactly when one of them fails.
\<close>

definition is_default_qa :: "row \<Rightarrow> bool" where
  "is_default_qa r \<longleftrightarrow> \<not> isTopicRowV20 r \<and> (case rw_group r of None \<Rightarrow> False | Some g \<Rightarrow> gp_defaultQa g)"

definition rows_valid :: "(jstr \<rightharpoonup> row) \<Rightarrow> bool" where
  "rows_valid m \<longleftrightarrow> (\<forall>k r. m k = Some r \<longrightarrow> petLocusRowV20 r \<and> endpointKeyV20 (rw_endpoint r) = k)"

definition ids_unique :: "(row \<Rightarrow> jstr) \<Rightarrow> (jstr \<rightharpoonup> row) \<Rightarrow> bool" where
  "ids_unique f m \<longleftrightarrow> (\<forall>k k' r r'. m k = Some r \<longrightarrow> m k' = Some r' \<longrightarrow> f r = f r' \<longrightarrow> k = k')"

definition placed :: "(jstr \<rightharpoonup> row) \<Rightarrow> jstr set \<Rightarrow> row \<Rightarrow> bool" where
  "placed m M r \<longleftrightarrow>
     (if isTopicRowV20 r then (\<exists>g. m (ep_chatId (rw_endpoint r)) = Some g \<and> \<not> isTopicRowV20 g)
      else mainOf r \<in> M)"

definition one_default_qa :: "(jstr \<rightharpoonup> row) \<Rightarrow> bool" where
  "one_default_qa m \<longleftrightarrow> (\<forall>k k' r r'. m k = Some r \<longrightarrow> m k' = Some r' \<longrightarrow> is_default_qa r \<longrightarrow> is_default_qa r' \<longrightarrow>
     mainOf r = mainOf r' \<longrightarrow> k = k')"

definition set_ok :: "(jstr \<rightharpoonup> row) \<Rightarrow> jstr set \<Rightarrow> bool" where
  "set_ok m M \<longleftrightarrow> rows_valid m \<and> ids_unique rw_locusId m \<and> ids_unique rw_sessionId m \<and>
     (\<forall>k r. m k = Some r \<longrightarrow> placed m M r) \<and> one_default_qa m"

subsection \<open>The first loop\<close>

lemma parse_rows_valid:
  "fst (parse_rows rows) = [] \<longleftrightarrow>
     (\<forall>(k, r) \<in> set rows. petLocusRowV20 r \<and> endpointKeyV20 (rw_endpoint r) = k)"
  by (induction rows) (auto simp: Let_def split: prod.splits)

lemma parse_rows_all: "fst (parse_rows rows) = [] \<Longrightarrow> snd (parse_rows rows) = rows"
  by (induction rows) (auto simp: Let_def split: prod.splits if_splits)

subsection \<open>The second loop\<close>

definition entry_placed :: "loci \<Rightarrow> jstr list \<Rightarrow> row \<Rightarrow> bool" where
  "entry_placed valid mainIds r \<longleftrightarrow> placed (map_of valid) (set mainIds) r"

lemma scan_rows_violations:
  "fst (scan_rows valid mainIds seenL seenS qa rest) = [] \<longleftrightarrow>
     distinct (map rw_locusId (vals rest)) \<and> set (map rw_locusId (vals rest)) \<inter> set seenL = {} \<and>
     distinct (map rw_sessionId (vals rest)) \<and> set (map rw_sessionId (vals rest)) \<inter> set seenS = {} \<and>
     (\<forall>(k, r) \<in> set rest. entry_placed valid mainIds r)"
proof (induction rest arbitrary: seenL seenS qa)
  case (Cons e rest)
  obtain k r where e: "e = (k, r)" by (cases e)
  have pl: "entry_placed valid mainIds r \<longleftrightarrow>
      (if isTopicRowV20 r then (case map_of valid (ep_chatId (rw_endpoint r)) of None \<Rightarrow> False
          | Some g \<Rightarrow> \<not> isTopicRowV20 g)
       else (case rw_group r of None \<Rightarrow> [] | Some g \<Rightarrow> gp_locusMainSessionId g) \<in> set mainIds)"
    by (auto simp: entry_placed_def placed_def mainOf_def split: option.splits)
  let ?main = "case rw_group r of None \<Rightarrow> [] | Some g \<Rightarrow> gp_locusMainSessionId g"
  let ?qa = "if \<not> isTopicRowV20 r \<and> (case rw_group r of None \<Rightarrow> False | Some g \<Rightarrow> gp_defaultQa g)
      then AList.update ?main (or_else (map_of qa ?main) [] @ [k]) qa else qa"
  let ?tail = "scan_rows valid mainIds (rw_locusId r # seenL) (rw_sessionId r # seenS) ?qa rest"
  have "fst (scan_rows valid mainIds seenL seenS qa (e # rest)) = [] \<longleftrightarrow>
      rw_locusId r \<notin> set seenL \<and> rw_sessionId r \<notin> set seenS \<and> entry_placed valid mainIds r \<and> fst ?tail = []"
    unfolding e scan_rows.simps Let_def pl by (simp split: prod.split option.split)
  also have "\<dots> \<longleftrightarrow> rw_locusId r \<notin> set seenL \<and> rw_sessionId r \<notin> set seenS \<and> entry_placed valid mainIds r \<and>
     (distinct (map rw_locusId (vals rest)) \<and> set (map rw_locusId (vals rest)) \<inter> set (rw_locusId r # seenL) = {} \<and>
      distinct (map rw_sessionId (vals rest)) \<and> set (map rw_sessionId (vals rest)) \<inter> set (rw_sessionId r # seenS) = {} \<and>
      (\<forall>(k, r) \<in> set rest. entry_placed valid mainIds r))"
    unfolding Cons.IH ..
  also have "\<dots> \<longleftrightarrow> distinct (map rw_locusId (vals (e # rest))) \<and> set (map rw_locusId (vals (e # rest))) \<inter> set seenL = {} \<and>
     distinct (map rw_sessionId (vals (e # rest))) \<and> set (map rw_sessionId (vals (e # rest))) \<inter> set seenS = {} \<and>
     (\<forall>(k, r) \<in> set (e # rest). entry_placed valid mainIds r)"
    unfolding e by (simp only: list.map snd_conv distinct.simps list.set) blast
  finally show ?case .
qed simp

definition qa_keys :: "jstr \<Rightarrow> loci \<Rightarrow> jstr list" where
  "qa_keys m rest = map fst (filter (\<lambda>(k, r). is_default_qa r \<and> mainOf r = m) rest)"

lemma scan_rows_qa:
  assumes "distinct (keys qa)"
  shows "distinct (keys (snd (scan_rows valid mainIds seenL seenS qa rest))) \<and>
     or_else (map_of (snd (scan_rows valid mainIds seenL seenS qa rest)) m) [] =
       or_else (map_of qa m) [] @ qa_keys m rest"
  using assms
proof (induction rest arbitrary: seenL seenS qa)
  case (Cons e rest)
  obtain k r where e: "e = (k, r)" by (cases e)
  let ?main = "case rw_group r of None \<Rightarrow> [] | Some g \<Rightarrow> gp_locusMainSessionId g"
  let ?qa = "if \<not> isTopicRowV20 r \<and> (case rw_group r of None \<Rightarrow> False | Some g \<Rightarrow> gp_defaultQa g)
      then AList.update ?main (or_else (map_of qa ?main) [] @ [k]) qa else qa"
  have d: "distinct (keys ?qa)" using Cons.prems by simp
  have "snd (scan_rows valid mainIds seenL seenS qa (e # rest)) =
      snd (scan_rows valid mainIds (rw_locusId r # seenL) (rw_sessionId r # seenS) ?qa rest)"
    unfolding e scan_rows.simps Let_def by (simp split: prod.split)
  moreover have "or_else (map_of ?qa m) [] @ qa_keys m rest = or_else (map_of qa m) [] @ qa_keys m (e # rest)"
    by (auto simp: e qa_keys_def is_default_qa_def mainOf_def)
  ultimately show ?case using Cons.IH [OF d] by simp
qed (simp add: qa_keys_def)

lemma qa_empty_iff:
  assumes "distinct (keys qa)"
  shows "concat (map (\<lambda>(m, ks). if 1 < length ks then map (Pair MultipleDefaultQa) ks else []) qa) = []
    \<longleftrightarrow> (\<forall>m. length (or_else (map_of qa m) []) \<le> 1)"
proof -
  have "concat (map (\<lambda>(m, ks). if 1 < length ks then map (Pair MultipleDefaultQa) ks else []) qa) = []
      \<longleftrightarrow> (\<forall>(m, ks) \<in> set qa. length ks \<le> 1)"
    by (auto simp: not_less split: if_splits)
  also have "\<dots> \<longleftrightarrow> (\<forall>m ks. map_of qa m = Some ks \<longrightarrow> length ks \<le> 1)"
    using assms by (auto dest: map_of_SomeI map_of_SomeD)
  also have "\<dots> \<longleftrightarrow> (\<forall>m. length (or_else (map_of qa m) []) \<le> 1)"
  proof (intro iffI allI impI)
    fix m assume "\<forall>m ks. map_of qa m = Some ks \<longrightarrow> length ks \<le> 1"
    then show "length (or_else (map_of qa m) []) \<le> 1" by (cases "map_of qa m") auto
  next
    fix m ks assume "\<forall>m. length (or_else (map_of qa m) []) \<le> 1" and "map_of qa m = Some ks"
    then show "length ks \<le> 1" by (metis or_else.simps(2))
  qed
  finally show ?thesis .
qed

subsection \<open>The three loops together\<close>

lemma distinct_vals_iff:
  assumes "distinct (keys rows)"
  shows "distinct (map f (vals rows)) \<longleftrightarrow>
     (\<forall>k k' r r'. map_of rows k = Some r \<longrightarrow> map_of rows k' = Some r' \<longrightarrow> f r = f r' \<longrightarrow> k = k')"
  using assms
proof (induction rows)
  case (Cons e rows)
  obtain k r where e: "e = (k, r)" by (cases e)
  from Cons.prems have new: "k \<notin> fst ` set rows" and d: "distinct (keys rows)" by (simp_all add: e)
  have in_vals: "x \<in> set (vals rows) \<longleftrightarrow> (\<exists>k'. map_of rows k' = Some x)" for x
    using d by (auto dest: map_of_SomeI map_of_SomeD intro: rev_image_eqI)
  have fresh: "map_of rows k' = Some x \<Longrightarrow> k' \<noteq> k" for k' x
    using new by (auto dest: map_of_SomeD intro: rev_image_eqI)
  have "distinct (map f (vals (e # rows))) \<longleftrightarrow>
      (\<forall>k' x. map_of rows k' = Some x \<longrightarrow> f x \<noteq> f r) \<and>
      (\<forall>k k' r r'. map_of rows k = Some r \<longrightarrow> map_of rows k' = Some r' \<longrightarrow> f r = f r' \<longrightarrow> k = k')"
  proof -
    have "f r \<notin> f ` set (vals rows) \<longleftrightarrow> (\<forall>k' x. map_of rows k' = Some x \<longrightarrow> f x \<noteq> f r)"
      unfolding image_iff Bex_def in_vals by (blast dest: sym)
    then show ?thesis unfolding e using Cons.IH [OF d] by (simp only: list.map distinct.simps snd_conv set_map)
  qed
  also have "\<dots> \<longleftrightarrow> (\<forall>k1 k2 x y. map_of (e # rows) k1 = Some x \<longrightarrow> map_of (e # rows) k2 = Some y \<longrightarrow>
      f x = f y \<longrightarrow> k1 = k2)" (is "?A \<longleftrightarrow> ?B")
  proof
    assume A: ?A
    show ?B
    proof (intro allI impI)
      fix k1 k2 x y
      assume h: "map_of (e # rows) k1 = Some x" "map_of (e # rows) k2 = Some y" "f x = f y"
      show "k1 = k2"
        using A h by (cases "k1 = k"; cases "k2 = k") (auto simp: e)
    qed
  next
    assume B: ?B
    show ?A
    proof (intro conjI allI impI)
      fix k' x assume x: "map_of rows k' = Some x"
      show "f x \<noteq> f r"
        using B [rule_format, of k' x k r] x fresh [OF x] by (auto simp: e)
    next
      fix k1 k2 x y
      assume h: "map_of rows k1 = Some x" "map_of rows k2 = Some y" "f x = f y"
      show "k1 = k2" using B [rule_format, of k1 x k2 y] h fresh [OF h(1)] fresh [OF h(2)] by (simp add: e)
    qed
  qed
  finally show ?case .
qed simp

lemma length_le_one_iff: "distinct xs \<Longrightarrow> length xs \<le> 1 \<longleftrightarrow> (\<forall>x \<in> set xs. \<forall>y \<in> set xs. x = y)"
  by (cases xs rule: remdups_adj.cases) auto

lemma qa_keys_one:
  assumes "distinct (keys rows)"
  shows "(\<forall>m. length (qa_keys m rows) \<le> 1) \<longleftrightarrow> one_default_qa (map_of rows)"
proof -
  have d: "distinct (qa_keys m rows)" for m
    unfolding qa_keys_def using assms by (induction rows) (auto simp: image_iff)
  have mem: "k \<in> set (qa_keys m rows) \<longleftrightarrow> (\<exists>r. map_of rows k = Some r \<and> is_default_qa r \<and> mainOf r = m)" for k m
    using assms by (force simp: qa_keys_def dest: map_of_SomeI map_of_SomeD)
  show ?thesis
    unfolding length_le_one_iff [OF d] one_default_qa_def Ball_def mem by (intro iffI allI impI) blast+
qed

lemma validate_iff:
  assumes "distinct (keys rows)"
  shows "validateLocusSetForStorage rows mainIds = [] \<longleftrightarrow> set_ok (map_of rows) (set mainIds)"
proof (cases "fst (parse_rows rows) = []")
  case False
  then have "\<not> rows_valid (map_of rows)"
    unfolding parse_rows_valid rows_valid_def using assms by (auto dest: map_of_SomeI)
  with False show ?thesis
    by (auto simp: validateLocusSetForStorage_def set_ok_def Let_def split: prod.splits)
next
  case True
  have valid: "parse_rows rows = ([], rows)"
    using True parse_rows_all [OF True] by (cases "parse_rows rows") simp
  have v: "rows_valid (map_of rows)"
    using True assms unfolding parse_rows_valid rows_valid_def by (auto dest: map_of_SomeD)
  have mem: "(\<forall>(k, r) \<in> set rows. P r) \<longleftrightarrow> (\<forall>k r. map_of rows k = Some r \<longrightarrow> P r)" for P :: "row \<Rightarrow> bool"
    using assms by (auto dest: map_of_SomeI map_of_SomeD)
  let ?s = "scan_rows rows mainIds [] [] [] rows"
  have "validateLocusSetForStorage rows mainIds = [] \<longleftrightarrow> fst ?s = [] \<and>
      concat (map (\<lambda>(m, ks). if 1 < length ks then map (Pair MultipleDefaultQa) ks else []) (snd ?s)) = []"
    by (simp add: validateLocusSetForStorage_def valid split: prod.split)
  also have "\<dots> \<longleftrightarrow> fst ?s = [] \<and> (\<forall>m. length (qa_keys m rows) \<le> 1)"
  proof -
    have d: "distinct (keys (snd ?s))" and q: "or_else (map_of (snd ?s) m) [] = qa_keys m rows" for m
      using scan_rows_qa [of "[]" rows mainIds "[]" "[]" rows m] by simp_all
    show ?thesis unfolding qa_empty_iff [OF d] q ..
  qed
  also have "\<dots> \<longleftrightarrow> ids_unique rw_locusId (map_of rows) \<and> ids_unique rw_sessionId (map_of rows) \<and>
      (\<forall>k r. map_of rows k = Some r \<longrightarrow> placed (map_of rows) (set mainIds) r) \<and> one_default_qa (map_of rows)"
    unfolding scan_rows_violations entry_placed_def ids_unique_def distinct_vals_iff [OF assms]
      qa_keys_one [OF assms] mem by simp
  finally show ?thesis using v by (simp add: set_ok_def)
qed

end
