(* ===== verification/PetRepositorySafety.thy ===== *)
theory PetRepositorySafety
  imports PetLocusSet
begin

text \<open>
  The contract of the repository. A write callback works on the staged overlay; \<open>good\<close> relates two
  overlays when the entry set stays valid and no entry goes back. Each body of the repository is \<open>good\<close>,
  a commit carries that to the tables, and the locale \<open>monotone_system\<close> lifts it to runs.
\<close>

subsection \<open>What an overlay reads\<close>

definition wf_tables :: "tables \<Rightarrow> bool" where
  "wf_tables t \<longleftrightarrow> distinct (keys (tb_loci t)) \<and> distinct (keys (tb_mains t)) \<and>
     distinct (keys (tb_deliveries t)) \<and> distinct (keys (tb_operations t))"

definition wf_staged :: "staged \<Rightarrow> bool" where
  "wf_staged sg \<longleftrightarrow> wf_tables (sg_domain sg) \<and> wf_tables (sg_writes sg)"

lemma wf_stagedD:
  assumes "wf_staged sg"
  shows "distinct (keys (tb_loci (sg_domain sg)))" "distinct (keys (tb_mains (sg_domain sg)))"
    "distinct (keys (tb_deliveries (sg_domain sg)))" "distinct (keys (tb_operations (sg_domain sg)))"
    "distinct (keys (tb_loci (sg_writes sg)))" "distinct (keys (tb_mains (sg_writes sg)))"
    "distinct (keys (tb_deliveries (sg_writes sg)))" "distinct (keys (tb_operations (sg_writes sg)))"
  using assms by (simp_all add: wf_staged_def wf_tables_def)

lemma overlay_map: "distinct (keys w) \<Longrightarrow> map_of (overlay d w) = map_of d ++ map_of w"
proof (induction w arbitrary: d)
  case (Cons e w)
  obtain k v where e: "e = (k, v)" by (cases e)
  from Cons.prems have new: "k \<notin> fst ` set w" and d: "distinct (keys w)" by (simp_all add: e)
  have "map_of (overlay d (e # w)) = map_of (AList.update k v d) ++ map_of w"
    unfolding Cons.IH [OF d, of "AList.update k v d", symmetric] by (simp add: overlay_def e)
  also have "\<dots> = map_of d ++ map_of (e # w)"
  proof -
    have "map_of w k = None" using new by (simp add: map_of_eq_None_iff)
    then show ?thesis by (auto simp: e fun_eq_iff map_add_def split: option.splits)
  qed
  finally show ?case .
qed (simp add: overlay_def)

lemma overlay_distinct: "distinct (keys d) \<Longrightarrow> distinct (keys (overlay d w))"
  unfolding overlay_def by (induction w arbitrary: d) auto

lemma staged_get_add: "staged_get t sg = map_of (t (sg_domain sg)) ++ map_of (t (sg_writes sg))"
  by (auto simp: staged_get_def map_add_def fun_eq_iff split: option.splits)

lemma staged_all_map:
  "distinct (keys (t (sg_writes sg))) \<Longrightarrow> map_of (staged_all t sg) = staged_get t sg"
  by (simp add: staged_all_def overlay_map staged_get_add)

lemma staged_all_distinct: "distinct (keys (t (sg_domain sg))) \<Longrightarrow> distinct (keys (staged_all t sg))"
  by (simp add: staged_all_def overlay_distinct)

lemma wf_staged_all [simp]:
  assumes "wf_staged sg"
  shows "map_of (staged_all tb_loci sg) = staged_get tb_loci sg" "map_of (staged_all tb_mains sg) = staged_get tb_mains sg"
    "map_of (staged_all tb_deliveries sg) = staged_get tb_deliveries sg"
    "map_of (staged_all tb_operations sg) = staged_get tb_operations sg"
    "distinct (keys (staged_all tb_loci sg))" "distinct (keys (staged_all tb_mains sg))"
    "distinct (keys (staged_all tb_deliveries sg))" "distinct (keys (staged_all tb_operations sg))"
  using wf_stagedD [OF assms] by (simp_all add: staged_all_map staged_all_distinct)

lemma in_vals_iff: "distinct (keys m) \<Longrightarrow> x \<in> set (vals m) \<longleftrightarrow> (\<exists>k. map_of m k = Some x)"
  by (auto dest: map_of_SomeI map_of_SomeD intro: rev_image_eqI)

subsection \<open>The effect of a staged write\<close>

lemma wf_put [simp]:
  assumes "wf_staged sg"
  shows "wf_staged (sg\<lparr>sg_writes := (sg_writes sg)\<lparr>tb_loci := AList.update k r (tb_loci (sg_writes sg))\<rparr>\<rparr>)"
    "wf_staged (sg\<lparr>sg_writes := (sg_writes sg)\<lparr>tb_mains := AList.update k m (tb_mains (sg_writes sg))\<rparr>\<rparr>)"
    "wf_staged (sg\<lparr>sg_writes := (sg_writes sg)\<lparr>tb_deliveries := AList.update k d (tb_deliveries (sg_writes sg))\<rparr>\<rparr>)"
    "wf_staged (sg\<lparr>sg_writes := (sg_writes sg)\<lparr>tb_operations := AList.update k o' (tb_operations (sg_writes sg))\<rparr>\<rparr>)"
  using assms by (simp_all add: wf_staged_def wf_tables_def)

lemma put_row_effect:
  assumes "put_row k r sg = Inr sg'"
  shows "petLocusRowV20 r" "staged_get tb_loci sg' = (staged_get tb_loci sg)(k \<mapsto> r)"
    "staged_get tb_mains sg' = staged_get tb_mains sg" "staged_get tb_deliveries sg' = staged_get tb_deliveries sg"
    "staged_get tb_operations sg' = staged_get tb_operations sg" "sg_domain sg' = sg_domain sg"
    "wf_staged sg \<Longrightarrow> wf_staged sg'" "sg_reserved sg' = sg_reserved sg"
  using assms by (auto simp: put_row_def staged_get_add split: if_splits)

lemma put_main_effect:
  assumes "put_main k m sg = Inr sg'"
  shows "petLocusMainRecord m" "staged_get tb_mains sg' = (staged_get tb_mains sg)(k \<mapsto> m)"
    "staged_get tb_loci sg' = staged_get tb_loci sg" "staged_get tb_deliveries sg' = staged_get tb_deliveries sg"
    "staged_get tb_operations sg' = staged_get tb_operations sg" "sg_domain sg' = sg_domain sg"
    "wf_staged sg \<Longrightarrow> wf_staged sg'"
  using assms by (auto simp: put_main_def staged_get_add split: if_splits)

lemma put_delivery_effect:
  assumes "put_delivery k d sg = Inr sg'"
  shows "petLocusDeliveryV20 d" "staged_get tb_deliveries sg' = (staged_get tb_deliveries sg)(k \<mapsto> d)"
    "staged_get tb_loci sg' = staged_get tb_loci sg" "staged_get tb_mains sg' = staged_get tb_mains sg"
    "staged_get tb_operations sg' = staged_get tb_operations sg" "sg_domain sg' = sg_domain sg"
    "wf_staged sg \<Longrightarrow> wf_staged sg'"
  using assms by (auto simp: put_delivery_def staged_get_add split: if_splits)

lemma put_operation_effect:
  assumes "put_operation k o' sg = Inr sg'"
  shows "petLocusOperation o'" "staged_get tb_operations sg' = (staged_get tb_operations sg)(k \<mapsto> o')"
    "staged_get tb_loci sg' = staged_get tb_loci sg" "staged_get tb_mains sg' = staged_get tb_mains sg"
    "staged_get tb_deliveries sg' = staged_get tb_deliveries sg" "sg_domain sg' = sg_domain sg"
    "wf_staged sg \<Longrightarrow> wf_staged sg'"
  using assms by (auto simp: put_operation_def staged_get_add split: if_splits)

subsection \<open>The invariant of the entries and the order of their history\<close>

definition row_le :: "row \<Rightarrow> row \<Rightarrow> bool" where
  "row_le r r' \<longleftrightarrow> rw_endpoint r' = rw_endpoint r \<and> rw_locusId r' = rw_locusId r \<and>
     rw_revision r \<le> rw_revision r' \<and>
     (rw_revision r' = rw_revision r \<longrightarrow>
        rw_accessMode r' = rw_accessMode r \<and> rw_sessionId r' = rw_sessionId r \<and> rw_group r' = rw_group r \<and>
        (rw_state r' = rw_state r \<or> rw_state r = NotCreated \<and> rw_state r' = Serving))"

definition rows_le :: "(jstr \<rightharpoonup> row) \<Rightarrow> (jstr \<rightharpoonup> row) \<Rightarrow> bool" where
  "rows_le m m' \<longleftrightarrow> (\<forall>k r. m k = Some r \<longrightarrow> (\<exists>r'. m' k = Some r' \<and> row_le r r'))"

definition entries_ok :: "staged \<Rightarrow> bool" where
  "entries_ok sg \<longleftrightarrow> wf_staged sg \<and> set_ok (staged_get tb_loci sg) (dom (staged_get tb_mains sg))"

definition good :: "staged \<Rightarrow> staged \<Rightarrow> bool" where
  "good sg sg' \<longleftrightarrow> (entries_ok sg \<longrightarrow> entries_ok sg' \<and> rows_le (staged_get tb_loci sg) (staged_get tb_loci sg') \<and>
     dom (staged_get tb_mains sg) \<subseteq> dom (staged_get tb_mains sg'))"

lemma row_le_refl [simp]: "row_le r r"
  by (simp add: row_le_def)

lemma row_le_trans: "row_le a b \<Longrightarrow> row_le b c \<Longrightarrow> row_le a c"
  by (auto simp: row_le_def)

lemma row_le_bump:
  "rw_endpoint r' = rw_endpoint r \<Longrightarrow> rw_locusId r' = rw_locusId r \<Longrightarrow> rw_revision r' = rw_revision r + 1 \<Longrightarrow>
     row_le r r'"
  by (simp add: row_le_def)

lemma rows_le_refl [simp]: "rows_le m m"
  by (auto simp: rows_le_def)

lemma rows_le_trans: "rows_le a b \<Longrightarrow> rows_le b c \<Longrightarrow> rows_le a c"
  unfolding rows_le_def by (meson row_le_trans)

lemma good_refl [simp, intro]: "good sg sg"
  by (simp add: good_def)

lemma good_trans [trans]: "good a b \<Longrightarrow> good b c \<Longrightarrow> good a c"
  unfolding good_def by (meson order_trans rows_le_trans)

lemma good_same_view:
  assumes "staged_get tb_loci sg' = staged_get tb_loci sg" and "staged_get tb_mains sg' = staged_get tb_mains sg"
    and "wf_staged sg \<Longrightarrow> wf_staged sg'"
  shows "good sg sg'"
  using assms by (simp add: good_def entries_ok_def)

lemma put_delivery_good: "put_delivery k d sg = Inr sg' \<Longrightarrow> good sg sg'"
  by (rule good_same_view) (simp_all add: put_delivery_effect)

lemma put_operation_good: "put_operation k d sg = Inr sg' \<Longrightarrow> good sg sg'"
  by (rule good_same_view) (simp_all add: put_operation_effect)

lemma set_ok_more_mains: "set_ok m M \<Longrightarrow> M \<subseteq> M' \<Longrightarrow> set_ok m M'"
  unfolding set_ok_def placed_def by (metis subsetD)

lemma put_main_good: "put_main k m sg = Inr sg' \<Longrightarrow> good sg sg'"
  unfolding good_def entries_ok_def
  by (auto simp: put_main_effect elim: set_ok_more_mains)

lemma good_reserve: "good sg (sg\<lparr>sg_reserved := n\<rparr>)"
  by (rule good_same_view) (simp_all add: staged_get_add wf_staged_def)

lemma retarget_good: "retarget f ds sg = Inr (ids, sg') \<Longrightarrow> good sg sg'"
proof (induction ds arbitrary: ids sg)
  case (Cons d ds)
  show ?case
  proof (cases "f d")
    case None
    with Cons show ?thesis by simp
  next
    case (Some sid)
    with Cons.prems obtain sg1 ids1 where "put_delivery (dl_deliveryId d) (d\<lparr>co_sessionId := sid\<rparr>) sg = Inr sg1"
        "retarget f ds sg1 = Inr (ids1, sg')" by (auto simp: ok_iff split: prod.splits)
    then show ?thesis using put_delivery_good Cons.IH good_trans by blast
  qed
qed simp

definition sessions :: "(jstr \<rightharpoonup> row) \<Rightarrow> jstr set" where
  "sessions m = {rw_sessionId r | r k. m k = Some r}"

text \<open>One row is rewritten under its own key, with its session id or one that no row holds.\<close>

lemma set_ok_update:
  assumes ok: "set_ok m M" and old: "m k = Some r" and key: "endpointKeyV20 (rw_endpoint r') = k"
    and valid: "petLocusRowV20 r'" and e: "rw_endpoint r' = rw_endpoint r" and l: "rw_locusId r' = rw_locusId r"
    and g: "rw_group r' = rw_group r" and s: "rw_sessionId r' = rw_sessionId r \<or> rw_sessionId r' \<notin> sessions m"
  shows "set_ok (m(k \<mapsto> r')) M"
proof -
  have t: "isTopicRowV20 r' = isTopicRowV20 r" and mn: "mainOf r' = mainOf r"
    and qa: "is_default_qa r' = is_default_qa r"
    using e g by (simp_all add: isTopicRowV20_def mainOf_def is_default_qa_def)
  have "rows_valid (m(k \<mapsto> r'))" using ok valid key by (auto simp: set_ok_def rows_valid_def)
  moreover have "ids_unique rw_locusId (m(k \<mapsto> r'))"
  proof -
    have u: "m j = Some x \<Longrightarrow> m j' = Some y \<Longrightarrow> rw_locusId x = rw_locusId y \<Longrightarrow> j = j'" for j j' x y
      using ok unfolding set_ok_def ids_unique_def by blast
    show ?thesis unfolding ids_unique_def
      using u [OF old] u [OF _ old] u by (auto simp: l split: if_splits)
  qed
  moreover have "ids_unique rw_sessionId (m(k \<mapsto> r'))"
  proof -
    have u: "m j = Some x \<Longrightarrow> m j' = Some y \<Longrightarrow> rw_sessionId x = rw_sessionId y \<Longrightarrow> j = j'" for j j' x y
      using ok unfolding set_ok_def ids_unique_def by blast
    have n: "j = k" if "m j = Some x" "rw_sessionId x = rw_sessionId r'" for j x
      using s
    proof
      assume "rw_sessionId r' = rw_sessionId r"
      with that u [OF that(1) old] show ?thesis by simp
    next
      assume "rw_sessionId r' \<notin> sessions m"
      moreover have "rw_sessionId x \<in> sessions m" unfolding sessions_def using that(1) by blast
      ultimately show ?thesis using that(2) by simp
    qed
    show ?thesis unfolding ids_unique_def
    proof (intro allI impI)
      fix j j' x y assume h: "(m(k \<mapsto> r')) j = Some x" "(m(k \<mapsto> r')) j' = Some y" "rw_sessionId x = rw_sessionId y"
      show "j = j'"
      proof (cases "j = k"; cases "j' = k")
        assume "j = k" "j' \<noteq> k"
        with h have "m j' = Some y" "rw_sessionId y = rw_sessionId r'" by auto
        from n [OF this] show ?thesis using \<open>j = k\<close> by simp
      next
        assume "j \<noteq> k" "j' = k"
        with h have "m j = Some x" "rw_sessionId x = rw_sessionId r'" by auto
        from n [OF this] show ?thesis using \<open>j' = k\<close> by simp
      next
        assume "j \<noteq> k" "j' \<noteq> k"
        with h have "m j = Some x" "m j' = Some y" by auto
        from u [OF this h(3)] show ?thesis .
      qed simp
    qed
  qed
  moreover have "\<forall>j x. (m(k \<mapsto> r')) j = Some x \<longrightarrow> placed (m(k \<mapsto> r')) M x"
  proof (intro allI impI)
    fix j x assume x: "(m(k \<mapsto> r')) j = Some x"
    obtain y where y: "m j = Some y" "isTopicRowV20 x = isTopicRowV20 y" "mainOf x = mainOf y"
        "rw_endpoint x = rw_endpoint y"
      using x old t mn e by (cases "j = k") auto
    have "placed m M y" using ok y(1) unfolding set_ok_def by blast
    then show "placed (m(k \<mapsto> r')) M x"
      using y old t by (auto simp: placed_def)
  qed
  moreover have "one_default_qa (m(k \<mapsto> r'))"
  proof -
    have u: "m j = Some x \<Longrightarrow> m j' = Some y \<Longrightarrow> is_default_qa x \<Longrightarrow> is_default_qa y \<Longrightarrow> mainOf x = mainOf y \<Longrightarrow> j = j'"
      for j j' x y
      using ok unfolding set_ok_def one_default_qa_def by blast
    show ?thesis unfolding one_default_qa_def
      using u [OF old] u [OF _ old] u by (auto simp: qa mn split: if_splits)
  qed
  ultimately show ?thesis by (simp add: set_ok_def)
qed

lemma put_row_good:
  assumes put: "put_row (endpointKeyV20 (rw_endpoint r')) r' sg = Inr sg'"
    and old: "staged_get tb_loci sg k = Some r" and le: "row_le r r'" and g: "rw_group r' = rw_group r"
    and s: "rw_sessionId r' = rw_sessionId r \<or> rw_sessionId r' \<notin> sessions (staged_get tb_loci sg)"
  shows "good sg sg'"
  unfolding good_def
proof
  assume ok: "entries_ok sg"
  then have so: "set_ok (staged_get tb_loci sg) (dom (staged_get tb_mains sg))" by (simp add: entries_ok_def)
  have e: "rw_endpoint r' = rw_endpoint r" "rw_locusId r' = rw_locusId r" using le by (simp_all add: row_le_def)
  have k: "endpointKeyV20 (rw_endpoint r') = k"
    using so old unfolding set_ok_def rows_valid_def e by blast
  have view: "staged_get tb_loci sg' = (staged_get tb_loci sg)(k \<mapsto> r')"
    using put_row_effect(2) [OF put] k by simp
  have "set_ok (staged_get tb_loci sg') (dom (staged_get tb_mains sg'))"
    unfolding view put_row_effect(3) [OF put]
    by (rule set_ok_update [OF so old k put_row_effect(1) [OF put] e g s])
  then show "entries_ok sg' \<and> rows_le (staged_get tb_loci sg) (staged_get tb_loci sg') \<and>
      dom (staged_get tb_mains sg) \<subseteq> dom (staged_get tb_mains sg')"
    using ok old le put_row_effect(7) [OF put] unfolding entries_ok_def view put_row_effect(3) [OF put]
    by (auto simp: rows_le_def)
qed

end
