(* ===== verification/PetRepositorySteps.thy ===== *)
theory PetRepositorySteps
  imports PetRepositorySafety
begin

text \<open>Every body of the repository is \<open>good\<close>: it keeps the entry set valid and takes no entry back.\<close>

lemma goodI: "(entries_ok sg \<Longrightarrow> good sg sg') \<Longrightarrow> good sg sg'"
  by (auto simp: good_def)

lemma found_row:
  assumes "entries_ok sg" and "find_locus (staged_all tb_loci sg) l = Some r"
  obtains k where "staged_get tb_loci sg k = Some r" and "rw_locusId r = l"
proof -
  have wf: "wf_staged sg" using assms(1) by (simp add: entries_ok_def)
  from assms(2) have r: "r \<in> set (vals (staged_all tb_loci sg))" "rw_locusId r = l"
    unfolding find_locus_def by (auto dest: find_SomeD)
  then obtain k where "map_of (staged_all tb_loci sg) k = Some r"
    using in_vals_iff [OF wf_staged_all(5) [OF wf]] by blast
  then show thesis using that r(2) wf by simp
qed

lemma the_or_ok [ok_iff]: "the_or code x = Inr v \<longleftrightarrow> x = Some v"
  by (simp add: the_or_def of_option_ok)

lemma require_ok [ok_iff]: "require b code = Inr u \<longleftrightarrow> b"
  by (simp add: require_def ensure_ok)

lemma fencedRow_ok [ok_iff]:
  "fencedRow loci fence = Inr r \<longleftrightarrow>
     find_locus loci (fe_expectedLocusId fence) = Some r \<and> rw_revision r = fe_expectedRevision fence"
  by (auto simp: fencedRow_def ok_iff)

lemma write_row_ok [ok_iff]:
  "write_row r sg = Inr (x, sg') \<longleftrightarrow> x = r \<and> put_row (endpointKeyV20 (rw_endpoint r)) r sg = Inr sg'"
  by (auto simp: write_row_def ok_iff)

text \<open>One found row is rewritten, possibly after an allocation.\<close>

definition fresh_for :: "(nat \<Rightarrow> jstr) \<Rightarrow> staged \<Rightarrow> bool" where
  "fresh_for fresh sg \<longleftrightarrow> (\<forall>n. fresh n \<notin> sessions (staged_get tb_loci sg))"

lemma rewrite_good:
  assumes put: "put_row (endpointKeyV20 (rw_endpoint r')) r' (sg\<lparr>sg_reserved := n\<rparr>) = Inr sg'"
    and old: "staged_get tb_loci sg k = Some r" and le: "row_le r r'" and g: "rw_group r' = rw_group r"
    and s: "rw_sessionId r' = rw_sessionId r \<or> rw_sessionId r' \<notin> sessions (staged_get tb_loci sg)"
  shows "good sg sg'"
proof -
  have view: "staged_get tb_loci (sg\<lparr>sg_reserved := n\<rparr>) = staged_get tb_loci sg" by (simp add: staged_get_add)
  have "good (sg\<lparr>sg_reserved := n\<rparr>) sg'"
    by (rule put_row_good [OF put _ le g]) (use old s in \<open>simp_all add: view\<close>)
  with good_reserve show ?thesis by (rule good_trans)
qed

lemmas rewrite_good_plain = rewrite_good [where n = "sg_reserved sg" and sg = sg for sg, simplified]

lemma reset_fresh:
  assumes "resetLifecycle r now fresh sg = (r', sg')"
  shows "\<exists>n. sg' = sg\<lparr>sg_reserved := n\<rparr>" "rw_endpoint r' = rw_endpoint r" "rw_locusId r' = rw_locusId r"
    "rw_group r' = rw_group r" "rw_revision r' = rw_revision r + 1" "rw_accessMode r' = ReadOnly"
    "rw_verifiedAt r' = None" "rw_grantedBy r' = None"
    "if rw_state r = Stopped then rw_state r' = Stopped \<and> rw_sessionId r' = rw_sessionId r
     else rw_state r' = NotCreated \<and> rw_sessionId r' = fresh (sg_reserved sg)"
proof -
  have s: "\<exists>n. sg = sg\<lparr>sg_reserved := n\<rparr>" by (rule exI [of _ "sg_reserved sg"]) simp
  show "\<exists>n. sg' = sg\<lparr>sg_reserved := n\<rparr>"
    using assms s by (auto simp: resetLifecycle_def reserve_def Let_def split: if_splits)
qed (use assms in \<open>auto simp: resetLifecycle_def reserve_def withoutLifecycleGrant_def Let_def split: if_splits\<close>)

subsection \<open>One row\<close>

lemma stopRow_good: "stopRow changing fence now sg = Inr (x, sg') \<Longrightarrow> good sg sg'"
proof (rule goodI)
  assume "stopRow changing fence now sg = Inr (x, sg')" and ok: "entries_ok sg"
  then obtain r where r: "find_locus (staged_all tb_loci sg) (fe_expectedLocusId fence) = Some r"
    and put: "put_row (endpointKeyV20 (rw_endpoint x)) x sg = Inr sg'"
    and x: "x = (withoutLifecycleGrant r)\<lparr>rw_state := Stopped, rw_stoppedAt := Some now,
      rw_revision := rw_revision r + 1, rw_updatedAt := now\<rparr>"
    unfolding stopRow_def by (auto simp: ok_iff)
  from found_row [OF ok r] obtain k where "staged_get tb_loci sg k = Some r" .
  with put show "good sg sg'"
    by (rule rewrite_good_plain) (simp_all add: x withoutLifecycleGrant_def row_le_def)
qed

lemma reenableRow_good:
  assumes "reenableRow fence now fresh sg = Inr (x, sg')" and "fresh_for fresh sg"
  shows "good sg sg'"
proof (rule goodI)
  assume ok: "entries_ok sg"
  from assms(1) obtain r where r: "find_locus (staged_all tb_loci sg) (fe_expectedLocusId fence) = Some r"
    and put: "put_row (endpointKeyV20 (rw_endpoint x)) x (sg\<lparr>sg_reserved := sg_reserved sg + 1\<rparr>) = Inr sg'"
    and x: "x = (withoutLifecycleGrant r)\<lparr>rw_stoppedAt := None, rw_state := NotCreated,
      rw_sessionId := fresh (sg_reserved sg), rw_accessMode := ReadOnly, rw_revision := rw_revision r + 1,
      rw_updatedAt := now\<rparr>"
    unfolding reenableRow_def reserve_def Let_def by (auto simp: ok_iff)
  from found_row [OF ok r] obtain k where "staged_get tb_loci sg k = Some r" .
  with put show "good sg sg'"
    by (rule rewrite_good)
      (use assms(2) in \<open>simp_all add: x withoutLifecycleGrant_def row_le_def fresh_for_def\<close>)
qed

lemma markInvalid_good: "markInvalid fence reason now sg = Inr (x, sg') \<Longrightarrow> good sg sg'"
proof (rule goodI)
  assume "markInvalid fence reason now sg = Inr (x, sg')" and ok: "entries_ok sg"
  then obtain r where r: "find_locus (staged_all tb_loci sg) (fe_expectedLocusId fence) = Some r"
    and put: "put_row (endpointKeyV20 (rw_endpoint x)) x sg = Inr sg'"
    and x: "x = r\<lparr>rw_stoppedAt := None, rw_state := Invalid, rw_invalidReason := Some reason,
      rw_revision := rw_revision r + 1, rw_updatedAt := now\<rparr>"
    unfolding markInvalid_def by (auto simp: ok_iff)
  from found_row [OF ok r] obtain k where "staged_get tb_loci sg k = Some r" .
  with put show "good sg sg'" by (rule rewrite_good_plain) (simp_all add: x row_le_def)
qed

lemma setAccessMode_good: "setAccessMode fence mode by' now sg = Inr (x, sg') \<Longrightarrow> good sg sg'"
proof (rule goodI)
  assume "setAccessMode fence mode by' now sg = Inr (x, sg')" and ok: "entries_ok sg"
  then obtain r where r: "find_locus (staged_all tb_loci sg) (fe_expectedLocusId fence) = Some r"
    and put: "put_row (endpointKeyV20 (rw_endpoint x)) x sg = Inr sg'"
    and x: "x = r\<lparr>rw_verifiedAt := None, rw_accessMode := mode, rw_grantedBy := Some by',
      rw_revision := rw_revision r + 1, rw_updatedAt := now\<rparr>"
    unfolding setAccessMode_def by (auto simp: ok_iff)
  from found_row [OF ok r] obtain k where "staged_get tb_loci sg k = Some r" .
  with put show "good sg sg'" by (rule rewrite_good_plain) (simp_all add: x row_le_def)
qed

lemma recordAccessVerified_good: "recordAccessVerified fence mode now sg = Inr (x, sg') \<Longrightarrow> good sg sg'"
proof (rule goodI)
  assume "recordAccessVerified fence mode now sg = Inr (x, sg')" and ok: "entries_ok sg"
  then obtain r where r: "find_locus (staged_all tb_loci sg) (fe_expectedLocusId fence) = Some r"
    and put: "put_row (endpointKeyV20 (rw_endpoint x)) x sg = Inr sg'"
    and x: "x = r\<lparr>rw_verifiedAt := Some now, rw_updatedAt := now\<rparr>"
    unfolding recordAccessVerified_def by (auto simp: ok_iff)
  from found_row [OF ok r] obtain k where "staged_get tb_loci sg k = Some r" .
  with put show "good sg sg'" by (rule rewrite_good_plain) (simp_all add: x row_le_def)
qed

lemma rebuildRowInPlace_good:
  assumes "rebuildRowInPlace changing fence now fresh sg = Inr (x, sg')" and "fresh_for fresh sg"
  shows "good sg sg'"
proof (rule goodI)
  assume ok: "entries_ok sg"
  from assms(1) obtain r where
    r: "find_locus (staged_all tb_loci sg) (fe_expectedLocusId fence) = Some r" "rw_state r = Invalid"
    unfolding rebuildRowInPlace_def by (auto simp: ok_iff)
  obtain r' sg0 where reset: "resetLifecycle r now fresh sg = (r', sg0)" by (cases "resetLifecycle r now fresh sg")
  from assms(1) r reset obtain sg1 f ids where
    put: "put_row (endpointKeyV20 (rw_endpoint r')) r' sg0 = Inr sg1"
    and re: "retarget f (vals (staged_all tb_deliveries sg1)) sg1 = Inr (ids, sg')"
    unfolding rebuildRowInPlace_def by (auto simp: ok_iff)
  from found_row [OF ok r(1)] obtain k where old: "staged_get tb_loci sg k = Some r" .
  from reset_fresh(1) [OF reset] obtain n where n: "sg0 = sg\<lparr>sg_reserved := n\<rparr>" by blast
  have "good sg sg1"
    by (rule rewrite_good [OF put [unfolded n] old])
      (use reset_fresh [OF reset] r(2) assms(2) in \<open>auto simp: row_le_def fresh_for_def\<close>)
  with retarget_good [OF re] show "good sg sg'" by (rule good_trans [rotated])
qed

lemma rotateReservation_good:
  assumes "rotateReservation l rv failed target now fresh sg = Inr (x, sg')" and "fresh_for fresh sg"
  shows "good sg sg'"
proof (rule goodI)
  assume ok: "entries_ok sg"
  from assms(1) obtain r r' sg1 f ids where
    r: "find_locus (staged_all tb_loci sg) l = Some r"
    and r': "r' = r\<lparr>rw_verifiedAt := None, rw_sessionId := fresh (sg_reserved sg),
        rw_revision := rw_revision r + 1, rw_updatedAt := now\<rparr>"
    and put: "put_row (endpointKeyV20 (rw_endpoint r')) r' (sg\<lparr>sg_reserved := sg_reserved sg + 1\<rparr>) = Inr sg1"
    and re: "retarget f (vals (staged_all tb_deliveries sg1)) sg1 = Inr (ids, sg')"
    unfolding rotateReservation_def reserve_def Let_def by (auto simp: ok_iff split: prod.splits)
  from found_row [OF ok r] obtain k where old: "staged_get tb_loci sg k = Some r" .
  have "good sg sg1"
    by (rule rewrite_good [OF put old]) (use assms(2) in \<open>auto simp: r' row_le_def fresh_for_def\<close>)
  with retarget_good [OF re] show "good sg sg'" by (rule good_trans [rotated])
qed

subsection \<open>The first child\<close>

lemma firstIdentityRow_ok [ok_iff]:
  "firstIdentityRow sg i = Inr r \<longleftrightarrow> find_locus (staged_all tb_loci sg) (fd_locusId i) = Some r \<and>
     rw_sessionId r = fd_sessionId i \<and> rw_revision r = fd_revision i"
  by (auto simp: firstIdentityRow_def ok_iff)

lemma settleTriggerFailed_good:
  assumes "settleTriggerFailed did reason now sg = Inr sg'"
  shows "good sg sg'" "staged_get tb_loci sg' = staged_get tb_loci sg"
  using assms put_delivery_good put_delivery_effect(3)
  by (auto simp: settleTriggerFailed_def split: option.splits)

lemma rotateFirstChild_good:
  assumes "rotateFirstChild r except fresh now sg = Inr (sid, sg')" and "fresh_for fresh sg"
    and old: "staged_get tb_loci sg k = Some r"
  shows "good sg sg'"
proof -
  from assms(1) obtain r' sg1 f ids where
    r': "r' = r\<lparr>rw_verifiedAt := None, rw_stoppedAt := None,
        rw_invalidReason := None, rw_state := NotCreated, rw_sessionId := fresh (sg_reserved sg),
        rw_revision := rw_revision r + 1, rw_updatedAt := now\<rparr>"
    and put: "put_row (endpointKeyV20 (rw_endpoint r')) r' (sg\<lparr>sg_reserved := sg_reserved sg + 1\<rparr>) = Inr sg1"
    and re: "retarget f (vals (staged_all tb_deliveries sg1)) sg1 = Inr (ids, sg')"
    unfolding rotateFirstChild_def reserve_def Let_def by (auto simp: ok_iff split: prod.splits)
  have "good sg sg1"
    by (rule rewrite_good [OF put old]) (use assms(2) in \<open>auto simp: r' row_le_def fresh_for_def\<close>)
  with retarget_good [OF re] show "good sg sg'" by (rule good_trans [rotated])
qed

lemma publishFirstDelivery_good:
  assumes "publishFirstDelivery changing i ex sg = Inr (x, sg')"
  shows "good sg sg'"
proof (rule goodI)
  assume ok: "entries_ok sg"
  from assms obtain r r' oid o' sg1 sg2 d where
    r: "find_locus (staged_all tb_loci sg) (fd_locusId i) = Some r" "rw_state r = NotCreated"
    and op: "put_operation oid o' sg = Inr sg1"
    and r': "r' = r\<lparr>rw_state := Serving, rw_updatedAt := fd_now i\<rparr>"
    and put: "put_row (endpointKeyV20 (rw_endpoint r')) r' sg1 = Inr sg2"
    and dl: "put_delivery (fd_deliveryId i) d sg2 = Inr sg'"
    unfolding publishFirstDelivery_def by (auto simp: ok_iff)
  from found_row [OF ok r(1)] obtain k where "staged_get tb_loci sg k = Some r" .
  then have old: "staged_get tb_loci sg1 k = Some r" using put_operation_effect(3) [OF op] by simp
  have "good sg1 sg2"
    by (rule put_row_good [OF put old]) (use r(2) in \<open>auto simp: r' row_le_def\<close>)
  then show "good sg sg'"
    using put_operation_good [OF op] put_delivery_good [OF dl] good_trans by blast
qed

lemma commitFirstDelivery_good: "commitFirstDelivery ex now sg = Inr (x, sg') \<Longrightarrow> good sg sg'"
  unfolding commitFirstDelivery_def by (auto simp: ok_iff intro: put_operation_good)

lemma failFirstDeliveryCreation_good:
  assumes "failFirstDeliveryCreation i fresh sg = Inr (x, sg')" and "fresh_for fresh sg"
  shows "good sg sg'"
proof (rule goodI)
  assume ok: "entries_ok sg"
  from assms(1) obtain r reason sg1 sid where
    r: "find_locus (staged_all tb_loci sg) (fd_locusId i) = Some r"
    and st: "settleTriggerFailed (fd_deliveryId i) reason (fd_now i) sg = Inr sg1"
    and ro: "rotateFirstChild r (fd_deliveryId i) fresh (fd_now i) sg1 = Inr (sid, sg')"
    unfolding failFirstDeliveryCreation_def by (auto simp: ok_iff split: prod.splits)
  from found_row [OF ok r] obtain k where "staged_get tb_loci sg k = Some r" .
  then have "staged_get tb_loci sg1 k = Some r" "fresh_for fresh sg1"
    using settleTriggerFailed_good(2) [OF st] assms(2) by (simp_all add: fresh_for_def)
  from rotateFirstChild_good [OF ro this(2,1)] settleTriggerFailed_good(1) [OF st]
  show "good sg sg'" by (rule good_trans [rotated])
qed

lemma revertFirstDelivery_good:
  assumes "revertFirstDelivery i ex form allocator sg = Inr (x, sg')"
    and "\<And>fresh. allocator = Some fresh \<Longrightarrow> fresh_for fresh sg"
  shows "good sg sg'"
proof (rule goodI)
  assume ok: "entries_ok sg"
  from assms(1) obtain r where r: "find_locus (staged_all tb_loci sg) (fd_locusId i) = Some r"
    unfolding revertFirstDelivery_def by (auto simp: ok_iff)
  from found_row [OF ok r] obtain k where old: "staged_get tb_loci sg k = Some r" .
  show "good sg sg'"
  proof (cases "form = RecoveryDebt")
    case True
    with assms(1) show ?thesis
      unfolding revertFirstDelivery_def Let_def by (auto simp: ok_iff intro: put_operation_good)
  next
    case False
    with assms(1) r obtain fresh sid sg1 sg2 where fr: "allocator = Some fresh"
      and ro: "rotateFirstChild r (fd_deliveryId i) fresh (fd_now i) sg = Inr (sid, sg1)"
      and tr: "(if form = RetryText
          then (case staged_get tb_deliveries sg1 (fd_deliveryId i) of None \<Rightarrow> Inr sg1
            | Some d \<Rightarrow> put_delivery (fd_deliveryId i) (d\<lparr>dl_executionId := None, dl_inboxMessageId := None,
                dl_turnId := None, co_sessionId := sid, dl_imageRouteRejected := True\<rparr>) sg1)
          else settleTriggerFailed (fd_deliveryId i) (js ''first child publication reverted'') (fd_now i) sg1) = Inr sg2"
      and op: "(case ex of None \<Rightarrow> Inr ((), sg2)
          | Some e \<Rightarrow> err_bind (requireOperation sg2 (first_child_id e)) (\<lambda>o'.
              err_bind (put_operation (first_child_id e) (o'\<lparr>op_phase := Compensated,
                op_updatedAt := fd_now i, op_completedAt := Some (fd_now i)\<rparr>) sg2) (\<lambda>sg3. Inr ((), sg3))))
          = Inr (x, sg')"
      unfolding revertFirstDelivery_def by (auto simp: ok_iff split: prod.splits)
    have "good sg sg1" by (rule rotateFirstChild_good [OF ro assms(2) [OF fr] old])
    moreover have "good sg1 sg2"
      using tr settleTriggerFailed_good(1) put_delivery_good by (auto split: if_splits option.splits)
    moreover have "good sg2 sg'"
      using op put_operation_good by (auto simp: ok_iff split: option.splits)
    ultimately show ?thesis using good_trans by blast
  qed
qed

end
