(* ===== verification/PetRepositoryRuns.thy ===== *)
theory PetRepositoryRuns
  imports PetRepositorySteps
begin

text \<open>
  Publication, reset, rebind and migration are \<open>good\<close> as well; so are the bodies that write deliveries
  and operations only. A commit lifts this to the repository, and \<open>repo_step\<close> is one operation of it.
\<close>

subsection \<open>Several rows at once\<close>

lemma overlay_rev: "map_of (overlay d w) = map_of d ++ map_of (rev w)"
proof (induction w arbitrary: d)
  case (Cons e w)
  obtain k v where e: "e = (k, v)" by (cases e)
  have "map_of (overlay d (e # w)) = map_of (AList.update k v d) ++ map_of (rev w)"
    unfolding Cons.IH [of "AList.update k v d", symmetric] by (simp add: overlay_def e)
  also have "\<dots> = map_of d ++ map_of (rev (e # w))"
    by (auto simp: e fun_eq_iff map_add_def split: option.splits)
  finally show ?case .
qed (simp add: overlay_def)

lemma map_of_rev_distinct: "distinct (keys w) \<Longrightarrow> map_of (rev w) = map_of w"
  by (rule map_of_inject_set [THEN iffD2]) (simp_all add: rev_map [symmetric])

lemma put_rows_effect:
  assumes "put_rows rows sg = Inr sg'"
  shows "staged_get tb_loci sg' = staged_get tb_loci sg ++ map_of (rev rows)"
    and "staged_get tb_mains sg' = staged_get tb_mains sg"
    and "staged_get tb_deliveries sg' = staged_get tb_deliveries sg"
    and "wf_staged sg \<Longrightarrow> wf_staged sg'"
  using assms
proof (induction rows arbitrary: sg)
  case (Cons e rows)
  obtain k r where e: "e = (k, r)" by (cases e)
  {
    case 1
    then obtain sg1 where s: "put_row k r sg = Inr sg1" "put_rows rows sg1 = Inr sg'" by (auto simp: e ok_iff)
    show ?case unfolding Cons.IH(1) [OF s(2)] put_row_effect(2) [OF s(1)]
      by (auto simp: e fun_eq_iff map_add_def split: option.splits)
  next
    case 2
    then show ?case using Cons.IH(2) by (auto simp: e ok_iff put_row_effect)
  next
    case 3
    then show ?case using Cons.IH(3) by (auto simp: e ok_iff put_row_effect)
  next
    case 4
    then obtain sg1 where s: "put_row k r sg = Inr sg1" "put_rows rows sg1 = Inr sg'" by (auto simp: e ok_iff)
    show ?case using Cons.IH(4) [OF put_row_effect(7) [OF s(1) 4(1)] s(2)] .
  }
qed simp_all

lemma valid_set_ok [ok_iff]:
  "valid_set loci mains = Inr u \<longleftrightarrow> validateLocusSetForStorage loci (keys mains) = []"
  by (simp add: valid_set_def require_ok)

lemma set_keys_dom: "set (keys m) = dom (map_of m)"
  by (simp add: dom_map_of_conv_image_fst)

lemma setOperationPhase_good: "setOperationPhase now i phase e sg = Inr sg' \<Longrightarrow> good sg sg'"
  by (auto simp: setOperationPhase_def ok_iff intro: put_operation_good)

lemma check_pairing_new: "check_pairing mains m = Inr u \<Longrightarrow> map_of mains (mr_locusMainSessionId m) = None"
  by (simp add: check_pairing_def ok_iff)

subsection \<open>Publishing rows\<close>

text \<open>Rows are written together after their set was validated with the pairings that will be stored.\<close>

lemma put_rows_good:
  assumes ok: "entries_ok sg" and put: "put_rows ws sg = Inr sg'"
    and valid: "set_ok (staged_get tb_loci sg ++ map_of (rev ws)) (dom (staged_get tb_mains sg))"
    and le: "\<And>k r r'. staged_get tb_loci sg k = Some r \<Longrightarrow> map_of (rev ws) k = Some r' \<Longrightarrow> row_le r r'"
  shows "entries_ok sg' \<and> rows_le (staged_get tb_loci sg) (staged_get tb_loci sg')"
proof
  show "entries_ok sg'"
    using ok valid put_rows_effect [OF put] by (simp add: entries_ok_def)
  show "rows_le (staged_get tb_loci sg) (staged_get tb_loci sg')"
    unfolding rows_le_def put_rows_effect(1) [OF put]
  proof (intro allI impI)
    fix k r assume r: "staged_get tb_loci sg k = Some r"
    show "\<exists>r'. (staged_get tb_loci sg ++ map_of (rev ws)) k = Some r' \<and> row_le r r'"
      using r le [OF r] by (cases "map_of (rev ws) k") (auto simp: map_add_def)
  qed
qed

lemma addTopicRow_good: "addTopicRow r sg = Inr (x, sg') \<Longrightarrow> good sg sg'"
  unfolding good_def
proof
  assume run: "addTopicRow r sg = Inr (x, sg')" and ok: "entries_ok sg"
  let ?k = "endpointKeyV20 (rw_endpoint r)"
  have wf: "wf_staged sg" using ok by (simp add: entries_ok_def)
  from run have new: "\<not> has (staged_all tb_loci sg) ?k"
    and v: "validateLocusSetForStorage (AList.update ?k r (staged_all tb_loci sg)) (keys (staged_all tb_mains sg)) = []"
    and put: "put_row ?k r sg = Inr sg'"
    unfolding addTopicRow_def by (auto simp: ok_iff Let_def)
  have d: "distinct (keys (AList.update ?k r (staged_all tb_loci sg)))" using wf by simp
  from v have so: "set_ok ((staged_get tb_loci sg)(?k \<mapsto> r)) (dom (staged_get tb_mains sg))"
    unfolding validate_iff [OF d] set_keys_dom using wf by simp
  have rows: "put_rows [(?k, r)] sg = Inr sg'" using put by simp
  have none: "staged_get tb_loci sg ?k = None" using not_has_map_of [OF new] wf by simp
  have "entries_ok sg' \<and> rows_le (staged_get tb_loci sg) (staged_get tb_loci sg')"
    by (rule put_rows_good [OF ok rows]) (use so none in \<open>auto split: if_splits\<close>)
  then show "entries_ok sg' \<and> rows_le (staged_get tb_loci sg) (staged_get tb_loci sg') \<and>
      dom (staged_get tb_mains sg) \<subseteq> dom (staged_get tb_mains sg')"
    using put_row_effect(3) [OF put] by simp
qed

lemma commitProvisioning_good: "commitProvisioning now i grp topic main sg = Inr (x, sg') \<Longrightarrow> good sg sg'"
proof (rule goodI)
  assume run: "commitProvisioning now i grp topic main sg = Inr (x, sg')" and ok: "entries_ok sg"
  have wf: "wf_staged sg" using ok by (simp add: entries_ok_def)
  define ws where "ws = (endpointKeyV20 (rw_endpoint grp), grp)
      # (case topic of None \<Rightarrow> [] | Some t \<Rightarrow> [(endpointKeyV20 (rw_endpoint t), t)])"
  define mains' where "mains' = (case main of None \<Rightarrow> staged_all tb_mains sg
      | Some m \<Rightarrow> AList.update (mr_locusMainSessionId m) m (staged_all tb_mains sg))"
  from run obtain sg1 sg2 where
    new: "list_all (\<lambda>(k, r). \<not> has (staged_all tb_loci sg) k) ws"
    and v: "validateLocusSetForStorage (overlay (staged_all tb_loci sg) ws) (keys mains') = []"
    and put: "put_rows ws sg = Inr sg1" and pm: "put_pairing main sg1 = Inr sg2"
    and op: "setOperationPhase now i Committed None sg2 = Inr sg'"
    unfolding commitProvisioning_def Let_def ws_def [symmetric] mains'_def [symmetric] by (auto simp: ok_iff)
  have d: "distinct (keys (overlay (staged_all tb_loci sg) ws))" using wf by (simp add: overlay_distinct)
  from v have so: "set_ok (staged_get tb_loci sg ++ map_of (rev ws)) (dom (map_of mains'))"
    unfolding validate_iff [OF d] set_keys_dom overlay_rev using wf by simp
  have m2: "staged_get tb_mains sg2 = map_of mains'"
    using pm wf put_rows_effect(2) [OF put]
    by (cases main) (auto simp: mains'_def put_pairing_def put_main_effect)
  have l2: "staged_get tb_loci sg2 = staged_get tb_loci sg ++ map_of (rev ws)"
    using pm put_rows_effect(1) [OF put] by (cases main) (auto simp: put_pairing_def put_main_effect)
  have wf2: "wf_staged sg2"
    using pm put_rows_effect(4) [OF put wf] by (cases main) (auto simp: put_pairing_def put_main_effect)
  have old: "map_of (rev ws) k = None" if "staged_get tb_loci sg k = Some r" for k r
  proof -
    have "k \<notin> set (keys ws)"
      using new that wf not_has_map_of by (fastforce simp: list_all_iff)
    then show ?thesis by (simp add: map_of_eq_None_iff)
  qed
  have "rows_le (staged_get tb_loci sg) (staged_get tb_loci sg2)"
    unfolding rows_le_def l2 using old by (auto simp: map_add_def)
  moreover have "dom (staged_get tb_mains sg) \<subseteq> dom (staged_get tb_mains sg2)"
    unfolding m2 using wf by (cases main) (auto simp: mains'_def)
  moreover have "entries_ok sg2" using wf2 so l2 m2 by (simp add: entries_ok_def)
  ultimately have "good sg sg2" by (simp add: good_def)
  then show "good sg sg'" using setOperationPhase_good [OF op] by (rule good_trans)
qed

subsection \<open>The reset of a chat\<close>

text \<open>What the reset makes of a row: read-only, unverified, under the new main session when it is the group
  row, and with a fresh session unless it is stopped.\<close>

definition reset_of :: "(nat \<Rightarrow> jstr) \<Rightarrow> jstr \<Rightarrow> reset_options \<Rightarrow> jstr \<Rightarrow> row \<Rightarrow> row \<Rightarrow> bool" where
  "reset_of fresh chatId o' k r r' \<longleftrightarrow> rw_endpoint r' = rw_endpoint r \<and> rw_locusId r' = rw_locusId r \<and>
     rw_revision r' = rw_revision r + 1 \<and> rw_accessMode r' = ReadOnly \<and> rw_verifiedAt r' = None \<and>
     rw_grantedBy r' = None \<and> rw_group r' = rw_group (if k = chatId then move_group o' r else r) \<and>
     (if rw_state r = Stopped then rw_state r' = Stopped \<and> rw_sessionId r' = rw_sessionId r
      else rw_state r' = NotCreated \<and> (\<exists>n. rw_sessionId r' = fresh n))"

lemma reset_rows_effect:
  assumes "reset_rows chatId o' fresh es sg = (ws, sg')"
  shows "(\<exists>n. sg' = sg\<lparr>sg_reserved := n\<rparr>) \<and> list_all2 (\<lambda>(k, r) (k', r'). k' = k \<and> reset_of fresh chatId o' k r r') es ws"
  using assms
proof (induction es arbitrary: sg ws sg')
  case Nil
  then show ?case by (auto intro: exI [of _ "sg_reserved sg"])
next
  case (Cons e es)
  obtain k r where e: "e = (k, r)" by (cases e)
  let ?base = "if k = chatId then move_group o' r else r"
  obtain r' sg1 where r': "resetLifecycle ?base (ro_now o') fresh sg = (r', sg1)"
    by (cases "resetLifecycle ?base (ro_now o') fresh sg")
  obtain ws' sg2 where rest: "reset_rows chatId o' fresh es sg1 = (ws', sg2)"
    by (cases "reset_rows chatId o' fresh es sg1")
  from Cons.prems have w: "ws = (k, r') # ws'" "sg' = sg2" by (simp_all add: e r' rest)
  from reset_fresh(1) [OF r'] obtain n where n: "sg1 = sg\<lparr>sg_reserved := n\<rparr>" by blast
  have base: "rw_endpoint ?base = rw_endpoint r" "rw_locusId ?base = rw_locusId r" "rw_state ?base = rw_state r"
    "rw_sessionId ?base = rw_sessionId r" "rw_revision ?base = rw_revision r" by (simp_all add: move_group_def)
  have "reset_of fresh chatId o' k r r'"
    using reset_fresh(2-9) [OF r'] unfolding base by (auto simp: reset_of_def)
  moreover have "(\<exists>n. sg2 = sg\<lparr>sg_reserved := n\<rparr>) \<and> list_all2 (\<lambda>(k, r) (k', r'). k' = k \<and> reset_of fresh chatId o' k r r') es ws'"
    using Cons.IH [OF rest] by (auto simp: n)
  ultimately show ?case by (simp add: e w)
qed

lemma reset_rows_pointwise:
  assumes "list_all2 (\<lambda>(k, r) (k', r'). k' = k \<and> reset_of fresh chatId o' k r r') es ws"
  shows "keys ws = keys es"
    and "map_of ws k = Some r' \<Longrightarrow> \<exists>r. map_of es k = Some r \<and> reset_of fresh chatId o' k r r'"
    and "map_of es k = Some r \<Longrightarrow> \<exists>r'. map_of ws k = Some r' \<and> reset_of fresh chatId o' k r r'"
  using assms by (induction rule: list_all2_induct) auto

lemma resetChatIn_cases:
  assumes run: "resetChatIn changing chatId o' fresh sg = Inr (res, sg')" and wf: "wf_staged sg"
  obtains ws sg0 sg1 f ids where
    "reset_rows chatId o' fresh (filter (\<lambda>(k, r). ep_chatId (rw_endpoint r) = chatId) (staged_all tb_loci sg)) sg = (ws, sg0)"
    "validateLocusSetForStorage (overlay (staged_all tb_loci sg) ws) (keys (staged_all tb_mains sg0)) = []"
    "put_rows (map (\<lambda>(k, r). (endpointKeyV20 (rw_endpoint r), r)) ws) sg0 = Inr sg1"
    "retarget f (vals (staged_all tb_deliveries sg1)) sg1 = Inr (ids, sg')"
    "re_rows res = groups_first (filter (\<lambda>r. ep_chatId (rw_endpoint r) = chatId) (map snd ws))"
    "\<forall>d \<in> set (vals (staged_all tb_deliveries sg)). ep_chatId (co_endpoint d) = chatId \<longrightarrow>
       dl_status d \<notin> CURRENT_DELIVERY"
    "\<forall>(k, r) \<in> set (staged_all tb_loci sg). ep_chatId (rw_endpoint r) = chatId \<longrightarrow> rw_locusId r \<notin> set changing"
proof -
  let ?es = "filter (\<lambda>(k, r). ep_chatId (rw_endpoint r) = chatId) (staged_all tb_loci sg)"
  obtain ws sg0 where w: "reset_rows chatId o' fresh ?es sg = (ws, sg0)"
    by (cases "reset_rows chatId o' fresh ?es sg")
  from run w obtain sg1 f ids where
    "validateLocusSetForStorage (overlay (staged_all tb_loci sg) ws) (keys (staged_all tb_mains sg0)) = []"
    "put_rows (map (\<lambda>(k, r). (endpointKeyV20 (rw_endpoint r), r)) ws) sg0 = Inr sg1"
    "retarget f (vals (staged_all tb_deliveries sg1)) sg1 = Inr (ids, sg')"
    "re_rows res = groups_first (filter (\<lambda>r. ep_chatId (rw_endpoint r) = chatId) (map snd ws))"
    "\<not> list_ex (\<lambda>d. ep_chatId (co_endpoint d) = chatId \<and> dl_status d \<in> CURRENT_DELIVERY)
       (vals (staged_all tb_deliveries sg))"
    "\<not> list_ex (\<lambda>(k, r). rw_locusId r \<in> set changing) ?es"
    unfolding resetChatIn_def Let_def by (auto simp: ok_iff)
  then show thesis using that [OF w] by (simp add: list_ex_iff split: prod.splits) blast
qed

text \<open>The rows the reset writes: exactly the rows of the chat, each under its own key.\<close>

lemma resetChatIn_rows:
  assumes run: "resetChatIn changing chatId o' fresh sg = Inr (res, sg')" and ok: "entries_ok sg"
  obtains ws sg0 sg1 f ids n where "sg0 = sg\<lparr>sg_reserved := n\<rparr>" "put_rows ws sg0 = Inr sg1"
    "retarget f (vals (staged_all tb_deliveries sg1)) sg1 = Inr (ids, sg')" "distinct (keys ws)"
    "set_ok (staged_get tb_loci sg ++ map_of ws) (dom (staged_get tb_mains sg))"
    "\<forall>k r'. map_of ws k = Some r' \<longrightarrow> (\<exists>r. staged_get tb_loci sg k = Some r \<and>
       ep_chatId (rw_endpoint r) = chatId \<and> reset_of fresh chatId o' k r r')"
    "\<forall>k r. staged_get tb_loci sg k = Some r \<longrightarrow> ep_chatId (rw_endpoint r) = chatId \<longrightarrow>
       (\<exists>r'. map_of ws k = Some r' \<and> reset_of fresh chatId o' k r r')"
    "\<forall>k d. staged_get tb_deliveries sg k = Some d \<longrightarrow> ep_chatId (co_endpoint d) = chatId \<longrightarrow>
       dl_status d \<notin> CURRENT_DELIVERY"
    "\<forall>k r. staged_get tb_loci sg k = Some r \<longrightarrow> ep_chatId (rw_endpoint r) = chatId \<longrightarrow> rw_locusId r \<notin> set changing"
proof -
  from ok have wf: "wf_staged sg" and so: "set_ok (staged_get tb_loci sg) (dom (staged_get tb_mains sg))"
    by (simp_all add: entries_ok_def)
  let ?es = "filter (\<lambda>(k, r). ep_chatId (rw_endpoint r) = chatId) (staged_all tb_loci sg)"
  obtain ws sg0 sg1 f ids where
    w: "reset_rows chatId o' fresh ?es sg = (ws, sg0)"
    and v: "validateLocusSetForStorage (overlay (staged_all tb_loci sg) ws) (keys (staged_all tb_mains sg0)) = []"
    and put: "put_rows (map (\<lambda>(k, r). (endpointKeyV20 (rw_endpoint r), r)) ws) sg0 = Inr sg1"
    and re: "retarget f (vals (staged_all tb_deliveries sg1)) sg1 = Inr (ids, sg')"
    and cur: "\<forall>d \<in> set (vals (staged_all tb_deliveries sg)). ep_chatId (co_endpoint d) = chatId \<longrightarrow>
       dl_status d \<notin> CURRENT_DELIVERY"
    and ch: "\<forall>(k, r) \<in> set (staged_all tb_loci sg). ep_chatId (rw_endpoint r) = chatId \<longrightarrow> rw_locusId r \<notin> set changing"
    by (rule resetChatIn_cases [OF run wf]) (rule that)
  from reset_rows_effect [OF w] obtain n where n: "sg0 = sg\<lparr>sg_reserved := n\<rparr>"
    and rel: "list_all2 (\<lambda>(k, r) (k', r'). k' = k \<and> reset_of fresh chatId o' k r r') ?es ws" by blast
  have d: "distinct (keys ?es)"
    using wf_staged_all(5) [OF wf] by (rule distinct_map_filter)
  have es: "map_of ?es k = Some r \<longleftrightarrow> staged_get tb_loci sg k = Some r \<and> ep_chatId (rw_endpoint r) = chatId" for k r
  proof -
    have "map_of ?es k = Some r \<longleftrightarrow> (k, r) \<in> set ?es" using d by (auto dest: map_of_SomeI map_of_SomeD)
    also have "\<dots> \<longleftrightarrow> map_of (staged_all tb_loci sg) k = Some r \<and> ep_chatId (rw_endpoint r) = chatId"
      using wf_staged_all(5) [OF wf] by (auto dest: map_of_SomeI map_of_SomeD)
    finally show ?thesis using wf by simp
  qed
  have dw: "distinct (keys ws)" unfolding reset_rows_pointwise(1) [OF rel] by (rule d)
  have old: "\<exists>r. staged_get tb_loci sg k = Some r \<and> ep_chatId (rw_endpoint r) = chatId \<and> reset_of fresh chatId o' k r r'"
    if "map_of ws k = Some r'" for k r'
    using reset_rows_pointwise(2) [OF rel that] unfolding es by blast
  have new: "\<exists>r'. map_of ws k = Some r' \<and> reset_of fresh chatId o' k r r'"
    if "staged_get tb_loci sg k = Some r" "ep_chatId (rw_endpoint r) = chatId" for k r
    by (rule reset_rows_pointwise(3) [OF rel]) (simp only: es that simp_thms)
  have keys_ws: "map (\<lambda>(k, r). (endpointKeyV20 (rw_endpoint r), r)) ws = ws"
  proof (rule map_idI)
    fix e assume "e \<in> set ws"
    then have "map_of ws (fst e) = Some (snd e)" using dw by (simp add: map_of_is_SomeI)
    from old [OF this] obtain r where "staged_get tb_loci sg (fst e) = Some r" "rw_endpoint (snd e) = rw_endpoint r"
      by (auto simp: reset_of_def)
    moreover have "endpointKeyV20 (rw_endpoint r) = fst e"
      using so calculation(1) unfolding set_ok_def rows_valid_def by blast
    ultimately show "(\<lambda>(k, r). (endpointKeyV20 (rw_endpoint r), r)) e = e" by (cases e) simp
  qed
  have "staged_get tb_mains sg0 = staged_get tb_mains sg" "wf_staged sg0"
    using wf by (simp_all add: n staged_get_add wf_staged_def)
  moreover have "distinct (keys (overlay (staged_all tb_loci sg) ws))" using wf by (simp add: overlay_distinct)
  from v [unfolded validate_iff [OF this] set_keys_dom overlay_rev]
  have "set_ok (map_of (staged_all tb_loci sg) ++ map_of (rev ws)) (dom (map_of (staged_all tb_mains sg0)))" .
  ultimately have set: "set_ok (staged_get tb_loci sg ++ map_of ws) (dom (staged_get tb_mains sg))"
    using wf by (simp add: map_of_rev_distinct [OF dw])
  have cur': "\<forall>k d. staged_get tb_deliveries sg k = Some d \<longrightarrow> ep_chatId (co_endpoint d) = chatId \<longrightarrow>
       dl_status d \<notin> CURRENT_DELIVERY"
  proof (intro allI impI)
    fix k d assume h: "staged_get tb_deliveries sg k = Some d" "ep_chatId (co_endpoint d) = chatId"
    have "(k, d) \<in> set (staged_all tb_deliveries sg)" by (rule map_of_SomeD) (simp add: wf h)
    then have "d \<in> set (vals (staged_all tb_deliveries sg))" by (force simp: image_iff)
    with cur h(2) show "dl_status d \<notin> CURRENT_DELIVERY" by blast
  qed
  have ch': "\<forall>k r. staged_get tb_loci sg k = Some r \<longrightarrow> ep_chatId (rw_endpoint r) = chatId \<longrightarrow> rw_locusId r \<notin> set changing"
  proof (intro allI impI)
    fix k r assume h: "staged_get tb_loci sg k = Some r" "ep_chatId (rw_endpoint r) = chatId"
    have "(k, r) \<in> set (staged_all tb_loci sg)" by (rule map_of_SomeD) (simp add: wf h)
    with ch h(2) show "rw_locusId r \<notin> set changing" by blast
  qed
  show thesis
    by (rule that [OF n put [unfolded keys_ws] re dw set _ _ cur' ch']) (use old new in simp_all)
qed

lemma resetChatIn_good:
  assumes run: "resetChatIn changing chatId o' fresh sg = Inr (res, sg')"
  shows "good sg sg'"
proof (rule goodI)
  assume ok: "entries_ok sg"
  obtain ws sg0 sg1 f ids n where n: "sg0 = sg\<lparr>sg_reserved := n\<rparr>" and put: "put_rows ws sg0 = Inr sg1"
    and re: "retarget f (vals (staged_all tb_deliveries sg1)) sg1 = Inr (ids, sg')" and dw: "distinct (keys ws)"
    and set: "set_ok (staged_get tb_loci sg ++ map_of ws) (dom (staged_get tb_mains sg))"
    and old: "\<forall>k r'. map_of ws k = Some r' \<longrightarrow> (\<exists>r. staged_get tb_loci sg k = Some r \<and>
       ep_chatId (rw_endpoint r) = chatId \<and> reset_of fresh chatId o' k r r')"
    by (rule resetChatIn_rows [OF run ok]) (rule that)
  have view: "staged_get tb_loci sg0 = staged_get tb_loci sg" "staged_get tb_mains sg0 = staged_get tb_mains sg"
      "wf_staged sg0"
    using ok by (simp_all add: n staged_get_add wf_staged_def entries_ok_def)
  have rv: "map_of (rev ws) = map_of ws" using dw by (rule map_of_rev_distinct)
  have le: "row_le r r'" if "staged_get tb_loci sg0 k = Some r" "map_of (rev ws) k = Some r'" for k r r'
    using that old [rule_format, of k r'] by (auto simp: rv view reset_of_def row_le_def)
  have ok0: "entries_ok sg0" using ok view by (simp add: entries_ok_def)
  from put_rows_good [OF ok0 put _ le] set
  have "good sg sg1" using put_rows_effect(2) [OF put] view by (simp add: good_def rv)
  then show "good sg sg'" using retarget_good [OF re] by (rule good_trans)
qed

lemma resetChats_good: "resetChats changing fresh cs sg = Inr (x, sg') \<Longrightarrow> good sg sg'"
proof (induction cs arbitrary: x sg)
  case (Cons c cs)
  obtain chatId o' where c: "c = (chatId, o')" by (cases c)
  from Cons.prems obtain res sg1 xs where "resetChatIn changing chatId o' fresh sg = Inr (res, sg1)"
    "resetChats changing fresh cs sg1 = Inr (xs, sg')"
    by (auto simp: c ok_iff split: prod.splits)
  then show ?case using resetChatIn_good Cons.IH good_trans by blast
qed simp

lemma addPairing_good: "addPairing m sg = Inr sg' \<Longrightarrow> good sg sg'"
  by (auto simp: addPairing_def ok_iff intro: put_main_good)

lemma rebindChat_good:
  assumes "rebindChat changing now i fresh sg = Inr (x, sg')"
  shows "good sg sg'"
proof -
  from assms obtain sg1 sg2 o' where
    "(case rb_main i of None \<Rightarrow> Inr sg | Some m \<Rightarrow> addPairing m sg) = Inr sg1"
    "resetChatIn changing (rb_chatId i) o' fresh sg1 = Inr (x, sg2)"
    "setOperationPhase now (rb_provisioningId i) Committed None sg2 = Inr sg'"
    unfolding rebindChat_def by (auto simp: ok_iff split: prod.splits)
  then have "good sg sg1" "good sg1 sg2" "good sg2 sg'"
    using addPairing_good resetChatIn_good setOperationPhase_good by (auto split: option.splits)
  then show ?thesis using good_trans by blast
qed

lemma migrate_chats_good: "migrate_chats changing toM now fresh cs sg = Inr (x, sg') \<Longrightarrow> good sg sg'"
proof (induction cs arbitrary: x sg)
  case (Cons c cs)
  then obtain o' res sg1 xs where "resetChatIn changing (mc_chatId c) o' fresh sg = Inr (res, sg1)"
    "migrate_chats changing toM now fresh cs sg1 = Inr (xs, sg')"
    by (auto simp: ok_iff split: prod.splits)
  then show ?case using resetChatIn_good Cons.IH good_trans by blast
qed simp

lemma retire_main_good: "retire_main i sg = Inr sg' \<Longrightarrow> good sg sg'"
  by (auto simp: retire_main_def intro: put_main_good split: option.splits if_splits)

lemma commitWholeWMigration_good:
  assumes "commitWholeWMigration changing now i fresh sg = Inr (x, sg')"
  shows "good sg sg'"
proof -
  from assms obtain sg1 sg2 sg3 where
    "retire_main i sg = Inr sg1" "addPairing (mi_newMain i) sg1 = Inr sg2"
    "migrate_chats changing (mr_locusMainSessionId (mi_newMain i)) (mi_now i) fresh (mi_chats i) sg2 = Inr (x, sg3)"
    "setOperationPhase now (mi_provisioningId i) Committed None sg3 = Inr sg'"
    unfolding commitWholeWMigration_def by (auto simp: ok_iff split: prod.splits)
  then have "good sg sg1" "good sg1 sg2" "good sg2 sg3" "good sg3 sg'"
    using retire_main_good addPairing_good migrate_chats_good setOperationPhase_good by blast+
  then show ?thesis using good_trans by blast
qed

subsection \<open>Deliveries and operations\<close>

lemma putDeliveryCas_good: "putDeliveryCas prev nxt sg = Inr (x, sg') \<Longrightarrow> good sg sg'"
  by (auto simp: putDeliveryCas_def ok_iff Let_def intro: put_delivery_good)

lemma failBeforeDispatch_good: "failBeforeDispatch now did c reason ex at sg = Inr (x, sg') \<Longrightarrow> good sg sg'"
  by (auto simp: failBeforeDispatch_def ok_iff Let_def intro: put_delivery_good split: option.splits if_splits)

lemma acceptDelivery_row_good: "acceptDelivery_row changing now inp sg = Inr (x, sg') \<Longrightarrow> good sg sg'"
  by (auto simp: acceptDelivery_row_def ok_iff Let_def intro: put_delivery_good split: option.splits)

lemma applyDelivery_good: "applyDelivery f sg = Inr (x, sg') \<Longrightarrow> good sg sg'"
  by (auto simp: applyDelivery_def ok_iff intro: put_delivery_good split: option.splits if_splits)

lemma settleByTurn_row_good: "settleByTurn_row i inbox rv sg = Inr (x, sg') \<Longrightarrow> good sg sg'"
  by (auto simp: settleByTurn_row_def Let_def intro: applyDelivery_good split: option.splits if_splits)

lemma putOperation_good: "putOperation o' sg = Inr (x, sg') \<Longrightarrow> good sg sg'"
  by (auto simp: putOperation_def ok_iff intro: put_operation_good)

lemma recordProvisioningResource_good: "recordProvisioningResource now i res sg = Inr (x, sg') \<Longrightarrow> good sg sg'"
  by (auto simp: recordProvisioningResource_def ok_iff Let_def intro: put_operation_good)

lemma completeProvisioning_good: "completeProvisioning now i sg = Inr (x, sg') \<Longrightarrow> good sg sg'"
  by (auto simp: completeProvisioning_def ok_iff intro: setOperationPhase_good)

lemma failProvisioning_good: "failProvisioning now i reason b sg = Inr (x, sg') \<Longrightarrow> good sg sg'"
  by (auto simp: failProvisioning_def ok_iff intro: setOperationPhase_good)

end
