(* ===== verification/PetRepositoryReach.thy ===== *)
theory PetRepositoryReach
  imports PetRepositoryRuns
begin

text \<open>
  Runs of the repository. A write commits a body of the overlay to the tables; \<open>repo_step\<close> is one public
  write, and the locale \<open>monotone_system\<close> carries the validity of the entry set and the order of its
  history to every run. An allocator of session ids answers ids that no entry holds.
\<close>

definition repo_ok :: "repository \<Rightarrow> bool" where
  "repo_ok rp \<longleftrightarrow> wf_tables (rp_tables rp) \<and>
     set_ok (map_of (loci_of rp)) (dom (map_of (tb_mains (rp_tables rp))))"

definition repo_le :: "repository \<Rightarrow> repository \<Rightarrow> bool" where
  "repo_le rp rp' \<longleftrightarrow> rows_le (map_of (loci_of rp)) (map_of (loci_of rp')) \<and>
     dom (map_of (tb_mains (rp_tables rp))) \<subseteq> dom (map_of (tb_mains (rp_tables rp')))"

definition unused :: "(nat \<Rightarrow> jstr) \<Rightarrow> repository \<Rightarrow> bool" where
  "unused fresh rp \<longleftrightarrow> (\<forall>n. fresh n \<notin> sessions (map_of (loci_of rp)))"

definition body_good :: "(staged \<Rightarrow> failure + 'a \<times> staged) \<Rightarrow> repository \<Rightarrow> bool" where
  "body_good body rp \<longleftrightarrow> (\<forall>x sg. body (stage rp) = Inr (x, sg) \<longrightarrow> good (stage rp) sg)"

lemma body_goodI: "(\<And>x sg. body (stage rp) = Inr (x, sg) \<Longrightarrow> good (stage rp) sg) \<Longrightarrow> body_good body rp"
  by (simp add: body_good_def)

subsection \<open>A commit\<close>

lemma no_tables_map [simp]:
  "tb_loci no_tables = []" "tb_mains no_tables = []" "tb_deliveries no_tables = []" "tb_operations no_tables = []"
  by (simp_all add: no_tables_def)

lemma stage_view [simp]:
  "staged_get tb_loci (stage rp) = map_of (loci_of rp)"
  "staged_get tb_mains (stage rp) = map_of (tb_mains (rp_tables rp))"
  "wf_staged (stage rp) \<longleftrightarrow> wf_tables (rp_tables rp)"
  by (simp_all add: staged_get_add stage_def loci_of_def wf_staged_def wf_tables_def)

lemma stage_ok: "entries_ok (stage rp) \<longleftrightarrow> repo_ok rp"
  by (simp add: entries_ok_def repo_ok_def)

lemma stage_fresh: "fresh_for fresh (stage rp) \<longleftrightarrow> unused fresh rp"
  by (simp add: fresh_for_def unused_def)

lemma repo_le_refl [simp]: "repo_le rp rp"
  by (simp add: repo_le_def)

lemma repo_le_trans: "repo_le a b \<Longrightarrow> repo_le b c \<Longrightarrow> repo_le a c"
  unfolding repo_le_def by (meson order_trans rows_le_trans)

text \<open>A flush leaves the tables, or writes what the overlay reads.\<close>

lemma flush_keeps:
  assumes "good (stage rp) sg" and ok: "repo_ok rp" and fl: "flush commits sg rp = (r, rp')"
  shows "repo_ok rp' \<and> repo_le rp rp'"
proof -
  have e: "entries_ok sg" "rows_le (map_of (loci_of rp)) (staged_get tb_loci sg)"
      "dom (map_of (tb_mains (rp_tables rp))) \<subseteq> dom (staged_get tb_mains sg)"
    using assms(1) ok by (simp_all add: good_def stage_ok)
  then have wf: "wf_staged sg" by (simp add: entries_ok_def)
  show ?thesis
  proof (cases "rp' = rp")
    case False
    then have new: "rp_tables rp' = \<lparr>tb_loci = staged_all tb_loci sg, tb_mains = staged_all tb_mains sg,
        tb_deliveries = staged_all tb_deliveries sg, tb_operations = staged_all tb_operations sg\<rparr>"
      using fl by (auto simp: flush_def split: if_splits)
    show ?thesis using e wf unfolding repo_ok_def repo_le_def loci_of_def new
      by (simp add: entries_ok_def wf_tables_def)
  qed (use ok in simp)
qed

lemma mutate_keeps:
  assumes "body_good body rp" and "repo_ok rp"
  shows "repo_ok (snd (mutate commits body rp)) \<and> repo_le rp (snd (mutate commits body rp))"
proof (cases "body (stage rp)")
  case (Inr p)
  obtain x sg where p: "p = (x, sg)" by (cases p)
  obtain r rp' where f: "flush commits sg rp = (r, rp')" by (cases "flush commits sg rp")
  have "good (stage rp) sg" using assms(1) Inr p by (simp add: body_good_def)
  from flush_keeps [OF this assms(2) f] show ?thesis
    by (simp add: mutate_def Inr p f split: sum.splits)
qed (use assms in \<open>simp add: mutate_def\<close>)

lemma compensate_all_good: "compensate_all now cps os sg = Inr (b, sg') \<Longrightarrow> good sg sg'"
proof (induction os arbitrary: sg)
  case (Cons o' os)
  from Cons.prems obtain sg1 where p: "put_operation (op_id o') (compensateFailedProvisioning o' now cps) sg = Inr sg1"
    and q: "(if op_phase (compensateFailedProvisioning o' now cps) \<noteq> Compensated then Inr (False, sg1)
             else compensate_all now cps os sg1) = Inr (b, sg')"
    by (auto simp: ok_iff Let_def)
  have "good sg1 sg'" using q Cons.IH by (auto split: if_splits)
  with put_operation_good [OF p] show ?case by (rule good_trans)
qed simp

lemma flush_keeps_snd: "good (stage rp) sg \<Longrightarrow> repo_ok rp \<Longrightarrow>
    repo_ok (snd (flush commits sg rp)) \<and> repo_le rp (snd (flush commits sg rp))"
  by (cases "flush commits sg rp") (simp add: flush_keeps)

lemma beginProvisioning_keeps:
  assumes ok: "repo_ok rp"
  shows "repo_ok (snd (beginProvisioning cps commits i rp)) \<and> repo_le rp (snd (beginProvisioning cps commits i rp))"
proof -
  define key where "key = endpointKeyV20 \<lparr>ep_chatId = pb_chatId i, ep_threadId = pb_threadId i\<rparr>"
  define earlier where "earlier = filter (\<lambda>o'. op_endpointKey o' = Some key \<and> op_kind o' \<in> PROVISIONING_KINDS)
                      (vals (staged_all tb_operations (stage rp)))"
  define comp where "comp = compensate_all (pb_startedAt i) cps (filter (\<lambda>o'. op_phase o' = FailedPhase) earlier) (stage rp)"
  define blocked where "blocked \<longleftrightarrow> staged_get tb_operations (stage rp) (pb_provisioningId i) \<noteq> None
            \<or> list_ex (blocks (pb_startedAt i)) earlier"
  have run: "beginProvisioning cps commits i rp =
      (if blocked then (Inl (Refused LOCUS_CONFLICT), rp)
       else case comp of Inl e \<Rightarrow> (Inl e, rp)
              | Inr (False, sg') \<Rightarrow>
                  (case flush commits sg' rp of
                     (Inl e, rp') \<Rightarrow> (Inl e, rp') | (Inr _, rp') \<Rightarrow> (Inl (Refused LOCUS_CONFLICT), rp'))
              | Inr (True, sg') \<Rightarrow>
                  (case put_operation (pb_provisioningId i) (new_operation i key) sg' of
                     Inl e \<Rightarrow> (Inl e, rp) | Inr sg'' \<Rightarrow> flush commits sg'' rp))"
    unfolding beginProvisioning_def Let_def comp_def blocked_def earlier_def key_def by (rule refl)
  show ?thesis
  proof (cases "blocked \<or> (\<exists>e. comp = Inl e)")
    case False
    then obtain b sg where b: "\<not> blocked" "comp = Inr (b, sg)" by (cases comp) auto
    have g: "good (stage rp) sg" using b(2) unfolding comp_def by (rule compensate_all_good)
    show ?thesis
    proof (cases b)
      case True
      show ?thesis
      proof (cases "put_operation (pb_provisioningId i) (new_operation i key) sg")
        case (Inr sg2)
        from flush_keeps_snd [OF good_trans [OF g put_operation_good [OF Inr]] ok] show ?thesis
          by (simp add: run b True Inr)
      qed (use ok in \<open>simp add: run b True\<close>)
    next
      case no: False
      from flush_keeps_snd [OF g ok, of commits] show ?thesis
        by (cases "flush commits sg rp"; cases "fst (flush commits sg rp)") (simp_all add: run b no)
    qed
  qed (use ok in \<open>auto simp: run\<close>)
qed

subsection \<open>The public writes\<close>

text \<open>
  One public operation of the repository, in the file's order. \<open>ledger\<close> stands for the nine durable
  transitions of a delivery (claim, bind, finish, complete, wait, abandon, expire), which differ in the
  pure transition only.
\<close>

inductive repo_step :: "repository \<Rightarrow> repository \<Rightarrow> bool" where
  begin_provisioning: "repo_step rp (snd (beginProvisioning cps commits i rp))"
| commit_provisioning: "repo_step rp (snd (mutate commits (commitProvisioning now i grp topic main) rp))"
| add_topic: "repo_step rp (snd (mutate commits (addTopicRow r) rp))"
| record_resource: "repo_step rp (snd (mutate commits (recordProvisioningResource now i res) rp))"
| complete_provisioning: "repo_step rp (snd (mutate commits (completeProvisioning now i) rp))"
| fail_provisioning: "repo_step rp (snd (mutate commits (failProvisioning now i reason reclaimed) rp))"
| put_op: "repo_step rp (snd (mutate commits (putOperation op) rp))"
| accept: "repo_step rp (snd (mutate commits (acceptDelivery_row (rp_accessChanging rp) now inp) rp))"
| put_cas: "repo_step rp (snd (mutate commits (putDeliveryCas prev nxt) rp))"
| fail_before: "repo_step rp (snd (mutate commits (failBeforeDispatch now did c reason executionId failedAt) rp))"
| ledger: "repo_step rp (snd (mutate commits (applyDelivery transition) rp))"
| settle: "repo_step rp (snd (mutate commits (settleByTurn_row si inboxMessageId rv) rp))"
| publish_first: "repo_step rp (snd (mutate commits (publishFirstDelivery (rp_accessChanging rp) fi e) rp))"
| commit_first: "repo_step rp (snd (mutate commits (commitFirstDelivery e now) rp))"
| fail_first: "unused fresh rp \<Longrightarrow> repo_step rp (snd (mutate commits (failFirstDeliveryCreation fi fresh) rp))"
| revert_first: "unused fresh rp \<Longrightarrow> repo_step rp (snd (mutate commits (revertFirstDelivery fi executionId form (Some fresh)) rp))"
| revert_debt: "repo_step rp (snd (mutate commits (revertFirstDelivery fi executionId form None) rp))"
| rotate: "unused fresh rp \<Longrightarrow> repo_step rp (snd (mutate commits (rotateReservation locusId rv failed target now fresh) rp))"
| stop: "repo_step rp (snd (mutate commits (stopRow (rp_accessChanging rp) fence now) rp))"
| reenable: "unused fresh rp \<Longrightarrow> repo_step rp (snd (mutate commits (reenableRow fence now fresh) rp))"
| invalidate: "repo_step rp (snd (mutate commits (markInvalid fence reason now) rp))"
| rebuild: "unused fresh rp \<Longrightarrow> repo_step rp (snd (mutate commits (rebuildRowInPlace (rp_accessChanging rp) fence now fresh) rp))"
| set_access: "repo_step rp (snd (mutate commits (setAccessMode fence mode grantedBy now) rp))"
| verified: "repo_step rp (snd (mutate commits (recordAccessVerified fence mode now) rp))"
| write_resets: "repo_step rp (snd (mutate commits (resetChats (rp_accessChanging rp) fresh resets) rp))"
| rebind: "repo_step rp (snd (mutate commits (rebindChat (rp_accessChanging rp) now ri fresh) rp))"
| migrate: "repo_step rp (snd (mutate commits (commitWholeWMigration (rp_accessChanging rp) now mi fresh) rp))"
| acquire: "repo_step rp (snd (acquireAccessChange locusId expectedRevision rp))"
| release: "repo_step rp (releaseAccessChange locusId rp)"

lemma access_fence_view [simp]:
  "rp_tables (snd (acquireAccessChange l n rp)) = rp_tables rp" "rp_tables (releaseAccessChange l rp) = rp_tables rp"
  by (simp_all add: acquireAccessChange_def releaseAccessChange_def split: sum.splits)

lemma same_tables: "rp_tables rp' = rp_tables rp \<Longrightarrow> repo_ok rp \<Longrightarrow> repo_ok rp' \<and> repo_le rp rp'"
  by (simp add: repo_ok_def repo_le_def loci_of_def)

lemma repo_step_keeps: "repo_step rp rp' \<Longrightarrow> repo_ok rp \<Longrightarrow> repo_ok rp' \<and> repo_le rp rp'"
proof (induction rule: repo_step.induct)
  case begin_provisioning
  then show ?case by (rule beginProvisioning_keeps)
next
  case commit_provisioning
  then show ?case by (intro mutate_keeps body_goodI) (rule commitProvisioning_good)
next
  case add_topic
  then show ?case by (intro mutate_keeps body_goodI) (rule addTopicRow_good)
next
  case record_resource
  then show ?case by (intro mutate_keeps body_goodI) (rule recordProvisioningResource_good)
next
  case complete_provisioning
  then show ?case by (intro mutate_keeps body_goodI) (rule completeProvisioning_good)
next
  case fail_provisioning
  then show ?case by (intro mutate_keeps body_goodI) (rule failProvisioning_good)
next
  case put_op
  then show ?case by (intro mutate_keeps body_goodI) (rule putOperation_good)
next
  case accept
  then show ?case by (intro mutate_keeps body_goodI) (rule acceptDelivery_row_good)
next
  case put_cas
  then show ?case by (intro mutate_keeps body_goodI) (rule putDeliveryCas_good)
next
  case fail_before
  then show ?case by (intro mutate_keeps body_goodI) (rule failBeforeDispatch_good)
next
  case ledger
  then show ?case by (intro mutate_keeps body_goodI) (rule applyDelivery_good)
next
  case settle
  then show ?case by (intro mutate_keeps body_goodI) (rule settleByTurn_row_good)
next
  case publish_first
  then show ?case by (intro mutate_keeps body_goodI) (rule publishFirstDelivery_good)
next
  case commit_first
  then show ?case by (intro mutate_keeps body_goodI) (rule commitFirstDelivery_good)
next
  case fail_first
  then show ?case by (intro mutate_keeps body_goodI) (auto simp: stage_fresh intro: failFirstDeliveryCreation_good)
next
  case (revert_first fresh rp)
  then have "fresh_for fresh (stage rp)" by (simp add: stage_fresh)
  with revert_first show ?case by (intro mutate_keeps body_goodI) (auto intro: revertFirstDelivery_good)
next
  case revert_debt
  then show ?case by (intro mutate_keeps body_goodI) (auto intro: revertFirstDelivery_good)
next
  case rotate
  then show ?case by (intro mutate_keeps body_goodI) (auto simp: stage_fresh intro: rotateReservation_good)
next
  case stop
  then show ?case by (intro mutate_keeps body_goodI) (rule stopRow_good)
next
  case reenable
  then show ?case by (intro mutate_keeps body_goodI) (auto simp: stage_fresh intro: reenableRow_good)
next
  case invalidate
  then show ?case by (intro mutate_keeps body_goodI) (rule markInvalid_good)
next
  case rebuild
  then show ?case by (intro mutate_keeps body_goodI) (auto simp: stage_fresh intro: rebuildRowInPlace_good)
next
  case set_access
  then show ?case by (intro mutate_keeps body_goodI) (rule setAccessMode_good)
next
  case verified
  then show ?case by (intro mutate_keeps body_goodI) (rule recordAccessVerified_good)
next
  case write_resets
  then show ?case by (intro mutate_keeps body_goodI) (rule resetChats_good)
next
  case rebind
  then show ?case by (intro mutate_keeps body_goodI) (rule rebindChat_good)
next
  case migrate
  then show ?case by (intro mutate_keeps body_goodI) (rule commitWholeWMigration_good)
next
  case acquire
  then show ?case by (rule same_tables [OF access_fence_view(1)])
next
  case release
  then show ?case by (rule same_tables [OF access_fence_view(2)])
qed

interpretation repo: monotone_system repo_step repo_ok repo_le
  by unfold_locales (auto dest: repo_step_keeps intro: repo_le_trans)

end
