(* ===== verification/PetRepositoryEffects.thy ===== *)
theory PetRepositoryEffects
  imports PetRepositoryReach
begin

text \<open>
  What one successful write of the repository stored: the tables after a commit are those the overlay of
  the write reads, and the pieces that operations are built from leave the durable tables alone.
\<close>

lemma answered: "\<not> isl (fst p) \<Longrightarrow> \<exists>x. p = (Inr x, snd p)"
  by (cases p; cases "fst p") simp_all

subsection \<open>What a successful write stored\<close>

lemma mutate_view:
  assumes run: "mutate commits body rp = (Inr x, rp')" and wf: "wf_tables (rp_tables rp)"
    and keep: "\<And>sg. body (stage rp) = Inr (x, sg) \<Longrightarrow> wf_staged sg \<and> sg_domain sg = rp_tables rp"
  obtains sg where "body (stage rp) = Inr (x, sg)"
    "map_of (loci_of rp') = staged_get tb_loci sg"
    "map_of (tb_mains (rp_tables rp')) = staged_get tb_mains sg"
    "map_of (deliveries_of rp') = staged_get tb_deliveries sg"
proof -
  from run obtain sg u where b: "body (stage rp) = Inr (x, sg)" and f: "flush commits sg rp = (Inr u, rp')"
    by (auto simp: mutate_def split: sum.splits prod.splits)
  from keep [OF b] have w: "wf_staged sg" and d: "sg_domain sg = rp_tables rp" by simp_all
  show thesis
  proof (cases "sg_writes sg = no_tables")
    case True
    then have "rp' = rp" using f by (simp add: flush_def)
    then show thesis
      using that [OF b] True by (simp add: staged_get_add d loci_of_def deliveries_of_def)
  next
    case False
    then have "rp_tables rp' = \<lparr>tb_loci = staged_all tb_loci sg, tb_mains = staged_all tb_mains sg,
        tb_deliveries = staged_all tb_deliveries sg, tb_operations = staged_all tb_operations sg\<rparr>"
      using f by (auto simp: flush_def split: if_splits)
    then show thesis using that [OF b] w by (simp add: loci_of_def deliveries_of_def)
  qed
qed

definition keeps :: "staged \<Rightarrow> staged \<Rightarrow> bool" where
  "keeps sg sg' \<longleftrightarrow> sg_domain sg' = sg_domain sg \<and> (wf_staged sg \<longrightarrow> wf_staged sg')"

lemma keeps_refl [simp, intro]: "keeps sg sg"
  by (simp add: keeps_def)

lemma keeps_trans [trans]: "keeps a b \<Longrightarrow> keeps b c \<Longrightarrow> keeps a c"
  by (simp add: keeps_def)

lemma put_keeps:
  "put_row k r sg = Inr sg' \<Longrightarrow> keeps sg sg'" "put_main k m sg = Inr sg' \<Longrightarrow> keeps sg sg'"
  "put_delivery k d sg = Inr sg' \<Longrightarrow> keeps sg sg'" "put_operation k o' sg = Inr sg' \<Longrightarrow> keeps sg sg'"
  by (simp_all add: keeps_def put_row_effect put_main_effect put_delivery_effect put_operation_effect)

lemma put_rows_keeps: "put_rows rows sg = Inr sg' \<Longrightarrow> keeps sg sg'"
proof (induction rows arbitrary: sg)
  case (Cons e rows)
  obtain k r where "e = (k, r)" by (cases e)
  with Cons show ?case by (auto simp: ok_iff) (blast intro: keeps_trans put_keeps(1))
qed simp

lemma retarget_keeps: "retarget f ds sg = Inr (ids, sg') \<Longrightarrow> keeps sg sg'"
proof (induction ds arbitrary: ids sg)
  case (Cons d ds)
  show ?case
  proof (cases "f d")
    case (Some sid)
    with Cons.prems obtain sg1 ids1 where "put_delivery (dl_deliveryId d) (d\<lparr>co_sessionId := sid\<rparr>) sg = Inr sg1"
        "retarget f ds sg1 = Inr (ids1, sg')" by (auto simp: ok_iff split: prod.splits)
    then show ?thesis using put_keeps(3) Cons.IH keeps_trans by blast
  qed (use Cons in simp)
qed simp

lemma setOperationPhase_keeps: "setOperationPhase now i phase e sg = Inr sg' \<Longrightarrow> keeps sg sg'"
  by (auto simp: setOperationPhase_def ok_iff intro: put_keeps)

lemma setOperationPhase_effect:
  "setOperationPhase now i phase e sg = Inr sg' \<Longrightarrow> staged_get tb_loci sg' = staged_get tb_loci sg \<and>
     staged_get tb_mains sg' = staged_get tb_mains sg \<and> staged_get tb_deliveries sg' = staged_get tb_deliveries sg"
  by (auto simp: setOperationPhase_def ok_iff put_operation_effect)

lemma addPairing_keeps: "addPairing m sg = Inr sg' \<Longrightarrow> keeps sg sg'"
  by (auto simp: addPairing_def ok_iff intro: put_keeps)

lemma addPairing_view:
  "addPairing m sg = Inr sg' \<Longrightarrow> staged_get tb_loci sg' = staged_get tb_loci sg \<and>
     staged_get tb_deliveries sg' = staged_get tb_deliveries sg"
  by (auto simp: addPairing_def ok_iff put_main_effect)

lemma stage_domain: "sg_domain (stage rp) = rp_tables rp"
  by (simp add: stage_def)

lemma stage_deliveries [simp]: "staged_get tb_deliveries (stage rp) = map_of (deliveries_of rp)"
  by (simp add: staged_get_add stage_def deliveries_of_def)

lemma retarget_loci: "retarget f ds sg = Inr (ids, sg') \<Longrightarrow> staged_get tb_loci sg' = staged_get tb_loci sg"
proof (induction ds arbitrary: ids sg)
  case (Cons d ds)
  show ?case
  proof (cases "f d")
    case (Some sid)
    with Cons.prems obtain sg1 ids1 where "put_delivery (dl_deliveryId d) (d\<lparr>co_sessionId := sid\<rparr>) sg = Inr sg1"
        "retarget f ds sg1 = Inr (ids1, sg')" by (auto simp: ok_iff split: prod.splits)
    then show ?thesis using Cons.IH put_delivery_effect(3) by metis
  qed (use Cons in simp)
qed simp

end
