(* ===== verification/PetRepositoryTheorems.thy ===== *)
theory PetRepositoryTheorems
  imports PetRepositoryEffects "HOL-Library.Code_Target_Nat"
begin

text \<open>
  The properties of the repository of entries, and one concrete run: a chat is provisioned under a new
  pairing, a message is accepted and claimed, and later the chat is bound to another main session.
\<close>

subsection \<open>A concrete run\<close>

definition fresh_repository :: "bool \<Rightarrow> repository" where
  "fresh_repository atomic = \<lparr>rp_tables = no_tables, rp_accessChanging = [], rp_atomic = atomic\<rparr>"

lemma fresh_ok: "repo_ok (fresh_repository atomic)"
  by (simp add: fresh_repository_def repo_ok_def wf_tables_def loci_of_def set_ok_def rows_valid_def
      ids_unique_def one_default_qa_def)

definition the_pairing :: "string \<Rightarrow> main_record" where
  "the_pairing m = \<lparr>mr_locusMainSessionId = js m, mr_workSessionId = js ''w'', mr_generation = 1,
     mr_status = Paired, mr_spaceId = js ''sp'', mr_workspaceId = js ''ws'', mr_createdAt = 1, mr_updatedAt = 1,
     mr_retiredAt = None, mr_retiredReason = None\<rparr>"

definition the_entry :: "string option \<Rightarrow> string \<Rightarrow> row" where
  "the_entry thread l = \<lparr>rw_endpoint = \<lparr>ep_chatId = js ''c'', ep_threadId = map_option js thread\<rparr>,
     rw_locusId = js l, rw_sessionId = js (''s'' @ l), rw_state = NotCreated, rw_accessMode = ReadOnly,
     rw_verifiedAt = None, rw_grantedBy = None, rw_revision = 0, rw_createdAt = 1, rw_updatedAt = 1,
     rw_stoppedAt = None, rw_invalidReason = None,
     rw_group = (if thread = None then Some \<lparr>gp_locusMainSessionId = js ''m'', gp_workspaceId = js ''ws'',
       gp_reboundFrom = None, gp_defaultQa = False\<rparr> else None)\<rparr>"

definition chat_begin :: "string \<Rightarrow> provisioning_kind \<Rightarrow> provisioning_begin" where
  "chat_begin p kind = \<lparr>pb_provisioningId = js p, pb_kind = kind, pb_chatId = js ''c'', pb_threadId = None,
     pb_workSessionId = None, pb_startedAt = 1\<rparr>"

definition no_compensators :: compensators where
  "no_compensators = \<lparr>cp_mainSession = None, cp_locusMainSession = None, cp_chat = None\<rparr>"

definition message :: "string \<Rightarrow> delivery_input" where
  "message m = \<lparr>co_endpoint = \<lparr>ep_chatId = js ''c'', ep_threadId = None\<rparr>, co_locusId = js ''g'', co_sessionId = js ''sg'',
     in_messageId = js m, in_deliveryId = Some (js m), in_turnId = None, in_executionId = None,
     in_senderOpenId = Some (js ''u''), in_senderName = None, in_text = Some (js ''hi''), in_addressing = None,
     in_docComment = None, in_rootMessageId = None, in_replyTarget = None, in_replyToMessageId = None,
     in_acceptedAt = Some 10\<rparr>"

text \<open>The allocator of the run: \<open>n0\<close>, \<open>n1\<close>, \<dots>.\<close>

definition allot :: "nat \<Rightarrow> jstr" where
  "allot n = js ''n'' @ [48 + n]"

definition rp1 :: repository where
  "rp1 = snd (beginProvisioning no_compensators True (chat_begin ''p'' ChatProvisioning) (fresh_repository True))"

definition rp2 :: repository where
  "rp2 = snd (mutate True (commitProvisioning 2 (js ''p'') (the_entry None ''g'') (Some (the_entry (Some ''t'') ''t''))
     (Some (the_pairing ''m''))) rp1)"

definition rp3 :: repository where
  "rp3 = snd (mutate True (acceptDelivery_row [] 10 (message ''a'')) rp2)"

definition rp4 :: repository where
  "rp4 = snd (beginProvisioning no_compensators True (chat_begin ''q'' RebindProvisioning) rp3)"

definition to_new_main :: rebind_input where
  "to_new_main = \<lparr>rb_provisioningId = js ''q'', rb_chatId = js ''c'', rb_expectedLocusId = js ''g'',
     rb_expectedRevision = 0, rb_toM = js ''m2'', rb_main = Some (the_pairing ''m2''), rb_workspaceId = js ''ws2'',
     rb_reboundFrom = js ''w'', rb_now = 20\<rparr>"

definition rp5 :: repository where "rp5 = snd (mutate True (rebindChat [] 20 to_new_main allot) rp4)"

lemma demo_run:
  "repo_step (fresh_repository True) rp1" "repo_step rp1 rp2" "repo_step rp2 rp3" "repo_step rp3 rp4" "repo_step rp4 rp5"
proof -
  show "repo_step (fresh_repository True) rp1" unfolding rp1_def by (rule begin_provisioning)
  show "repo_step rp1 rp2" unfolding rp2_def by (rule commit_provisioning)
  have "rp_accessChanging rp2 = []" "rp_accessChanging rp4 = []" by code_simp+
  then show "repo_step rp2 rp3" "repo_step rp4 rp5"
    using accept [of rp2 True 10 "message ''a''"] rebind [of rp4 True 20 to_new_main allot]
    unfolding rp3_def rp5_def by simp_all
  show "repo_step rp3 rp4" unfolding rp4_def by (rule begin_provisioning)
qed

lemma demo_reached: "repo_step\<^sup>*\<^sup>* (fresh_repository True) rp4" "repo_step\<^sup>*\<^sup>* (fresh_repository True) rp5"
  by (meson demo_run rtranclp.rtrancl_refl rtranclp.rtrancl_into_rtrancl)+

lemma demo_ok: "repo_ok rp4" "repo_ok rp5"
  using repo.run_inv [OF _ fresh_ok] demo_reached by blast+

subsection \<open>Properties\<close>

text \<open>
  C22: the validator accepts a table of entries exactly when every row satisfies its schema under its own
  key, entry ids and session ids are unique, every topic has a group row, every group row a paired main
  session, and no main session has two default Q&A groups.
\<close>

theorem validator_decides_the_invariant:
  assumes "distinct (keys rows)"
  shows "validateLocusSetForStorage rows mainIds = [] \<longleftrightarrow> set_ok (map_of rows) (set mainIds)"
  using assms by (rule validate_iff)

theorem validator_decides_the_invariant_witness:
  "set_ok (map_of (loci_of rp3)) {js ''m''} \<and> \<not> set_ok (map_of (loci_of rp3)) {}"
proof -
  have "distinct (keys (loci_of rp3))" by code_simp
  note v = validator_decides_the_invariant [OF this]
  have "validateLocusSetForStorage (loci_of rp3) [js ''m''] = []" by code_simp
  moreover have "validateLocusSetForStorage (loci_of rp3) [] \<noteq> []" by code_simp
  ultimately show ?thesis using v [of "[js ''m'']"] v [of "[]"] by simp
qed

text \<open>
  Whatever operations a repository has run since it was empty, whichever of their commits failed, the
  startup gates accept its tables: the entry set is valid and every group row has its pairing.
\<close>

theorem startup_gates_accept_every_run:
  assumes "repo_step\<^sup>*\<^sup>* (fresh_repository atomic) rp"
  shows "assertLocusSetValid rp = Inr () \<and> assertEveryGroupMainPaired rp = Inr ()"
proof
  from repo.run_inv [OF assms fresh_ok] have d: "distinct (keys (loci_of rp))"
    and so: "set_ok (map_of (loci_of rp)) (set (keys (tb_mains (rp_tables rp))))"
    by (simp_all add: repo_ok_def wf_tables_def loci_of_def dom_map_of_conv_image_fst)
  then show "assertLocusSetValid rp = Inr ()"
    by (simp add: assertLocusSetValid_def valid_set_ok validate_iff)
  have "isTopicRowV20 r \<or> has (tb_mains (rp_tables rp)) (mainOf r)" if "r \<in> set (vals (loci_of rp))" for r
  proof -
    from that d obtain k where "map_of (loci_of rp) k = Some r" by (auto simp: in_vals_iff)
    then have "placed (map_of (loci_of rp)) (set (keys (tb_mains (rp_tables rp)))) r"
      using so unfolding set_ok_def by blast
    then show ?thesis by (auto simp: placed_def has_def map_of_eq_None_iff split: if_splits)
  qed
  then show "assertEveryGroupMainPaired rp = Inr ()"
    by (simp add: assertEveryGroupMainPaired_def require_ok list_all_iff)
qed

theorem startup_gates_accept_every_run_witness:
  "assertLocusSetValid rp5 = Inr () \<and> assertEveryGroupMainPaired rp5 = Inr () \<and> length (loci_of rp5) = 2"
proof -
  have "length (loci_of rp5) = 2" by code_simp
  then show ?thesis using startup_gates_accept_every_run [OF demo_reached(2)] by simp
qed

text \<open>
  C23: an entry never disappears, keeps its endpoint and its id, and its revision never decreases. As long
  as the revision is the same, so are its access mode, its session, its main session and workspace, and
  its state, except that an entry not yet created may have started to serve. So a caller that fences on
  the revision acts on the session and the permissions it has read.
\<close>

theorem revision_fences_the_entry:
  assumes "repo_step\<^sup>*\<^sup>* (fresh_repository atomic) rp" and "repo_step\<^sup>*\<^sup>* rp rp'" and "getRow rp e = Some r"
  shows "\<exists>r'. getRow rp' e = Some r' \<and> rw_endpoint r' = rw_endpoint r \<and> rw_locusId r' = rw_locusId r \<and>
    rw_revision r \<le> rw_revision r' \<and>
    (rw_revision r' = rw_revision r \<longrightarrow> rw_accessMode r' = rw_accessMode r \<and> rw_sessionId r' = rw_sessionId r \<and>
       rw_group r' = rw_group r \<and> (rw_state r' = rw_state r \<or> rw_state r = NotCreated \<and> rw_state r' = Serving))"
proof -
  have "repo_ok rp" by (rule repo.run_inv [OF assms(1) fresh_ok])
  from repo.run_le [OF assms(2) this] have "rows_le (map_of (loci_of rp)) (map_of (loci_of rp'))"
    by (simp add: repo_le_def)
  with assms(3) show ?thesis unfolding rows_le_def row_le_def getRow_def by blast
qed

theorem revision_fences_the_entry_witness:
  "\<exists>r'. getRow rp5 \<lparr>ep_chatId = js ''c'', ep_threadId = None\<rparr> = Some r' \<and> 0 \<le> rw_revision r'"
proof -
  have "repo_step\<^sup>*\<^sup>* rp4 rp5" using demo_run(5) by (rule r_into_rtranclp)
  moreover have "getRow rp4 \<lparr>ep_chatId = js ''c'', ep_threadId = None\<rparr> = Some (the_entry None ''g'')" by code_simp
  ultimately obtain r' where "getRow rp5 \<lparr>ep_chatId = js ''c'', ep_threadId = None\<rparr> = Some r'"
    "rw_revision (the_entry None ''g'') \<le> rw_revision r'"
    using revision_fences_the_entry [OF demo_reached(1)] by blast
  then show ?thesis by (simp add: the_entry_def)
qed

subsection \<open>Rebinding a chat\<close>

lemma resetChatIn_effect:
  assumes run: "resetChatIn changing chatId o' fresh sg = Inr (res, sg')" and ok: "entries_ok sg"
    and old: "staged_get tb_loci sg k = Some r"
  shows "keeps sg sg'"
    "ep_chatId (rw_endpoint r) \<noteq> chatId \<Longrightarrow> staged_get tb_loci sg' k = Some r"
    "ep_chatId (rw_endpoint r) = chatId \<Longrightarrow>
       (\<exists>r'. staged_get tb_loci sg' k = Some r' \<and> reset_of fresh chatId o' k r r') \<and> rw_locusId r \<notin> set changing"
    "\<forall>k d. staged_get tb_deliveries sg k = Some d \<longrightarrow> ep_chatId (co_endpoint d) = chatId \<longrightarrow>
       dl_status d \<notin> CURRENT_DELIVERY"
proof -
  obtain ws sg0 sg1 f ids n where n: "sg0 = sg\<lparr>sg_reserved := n\<rparr>" and put: "put_rows ws sg0 = Inr sg1"
    and re: "retarget f (vals (staged_all tb_deliveries sg1)) sg1 = Inr (ids, sg')" and dw: "distinct (keys ws)"
    and old': "\<forall>k r'. map_of ws k = Some r' \<longrightarrow> (\<exists>r. staged_get tb_loci sg k = Some r \<and>
       ep_chatId (rw_endpoint r) = chatId \<and> reset_of fresh chatId o' k r r')"
    and new: "\<forall>k r. staged_get tb_loci sg k = Some r \<longrightarrow> ep_chatId (rw_endpoint r) = chatId \<longrightarrow>
       (\<exists>r'. map_of ws k = Some r' \<and> reset_of fresh chatId o' k r r')"
    and cur: "\<forall>k d. staged_get tb_deliveries sg k = Some d \<longrightarrow> ep_chatId (co_endpoint d) = chatId \<longrightarrow>
       dl_status d \<notin> CURRENT_DELIVERY"
    and ch: "\<forall>k r. staged_get tb_loci sg k = Some r \<longrightarrow> ep_chatId (rw_endpoint r) = chatId \<longrightarrow> rw_locusId r \<notin> set changing"
    by (rule resetChatIn_rows [OF run ok]) (rule that)
  have "keeps sg sg0" by (simp add: n keeps_def wf_staged_def)
  from keeps_trans [OF this keeps_trans [OF put_rows_keeps [OF put] retarget_keeps [OF re]]] show "keeps sg sg'" .
  have view: "staged_get tb_loci sg' = staged_get tb_loci sg ++ map_of ws"
    unfolding retarget_loci [OF re] put_rows_effect(1) [OF put] map_of_rev_distinct [OF dw]
    by (simp add: n staged_get_add)
  show "staged_get tb_loci sg' k = Some r" if "ep_chatId (rw_endpoint r) \<noteq> chatId"
  proof -
    have "map_of ws k = None" using old' [rule_format, of k] old that by (cases "map_of ws k") auto
    then show ?thesis using old by (simp add: view map_add_def)
  qed
  show "(\<exists>r'. staged_get tb_loci sg' k = Some r' \<and> reset_of fresh chatId o' k r r') \<and> rw_locusId r \<notin> set changing"
    if "ep_chatId (rw_endpoint r) = chatId"
    using new [rule_format, OF old that] ch [rule_format, OF old that] by (auto simp: view map_add_def)
  show "\<forall>k d. staged_get tb_deliveries sg k = Some d \<longrightarrow> ep_chatId (co_endpoint d) = chatId \<longrightarrow>
       dl_status d \<notin> CURRENT_DELIVERY" by (rule cur)
qed

lemma rebindChat_cases:
  assumes "rebindChat changing now i fresh sg = Inr (x, sg')"
  obtains sg1 sg2 o' where "(case rb_main i of None \<Rightarrow> Inr sg | Some m \<Rightarrow> addPairing m sg) = Inr sg1"
    "o' = \<lparr>ro_toM = rb_toM i, ro_workspaceId = Some (rb_workspaceId i), ro_reboundFrom = Some (rb_reboundFrom i),
        ro_clearDefaultQa = True, ro_expectedRevisions = [(rb_chatId i, rb_expectedRevision i)], ro_now = rb_now i\<rparr>"
    "resetChatIn changing (rb_chatId i) o' fresh sg1 = Inr (x, sg2)"
    "setOperationPhase now (rb_provisioningId i) Committed None sg2 = Inr sg'"
  using assms unfolding rebindChat_def by (auto simp: ok_iff split: prod.splits)

lemma rebindChat_effect:
  assumes ok: "repo_ok rp" and old: "map_of (loci_of rp) k = Some r"
    and b: "rebindChat (rp_accessChanging rp) now i fresh (stage rp) = Inr (res, sg)"
  shows "wf_staged sg \<and> sg_domain sg = rp_tables rp \<and>
      (if ep_chatId (rw_endpoint r) \<noteq> rb_chatId i then staged_get tb_loci sg k = Some r
       else (\<exists>r' o'. staged_get tb_loci sg k = Some r' \<and> ro_toM o' = rb_toM i \<and> reset_of fresh (rb_chatId i) o' k r r')
         \<and> rw_locusId r \<notin> set (rp_accessChanging rp) \<and>
         (\<forall>k d. map_of (deliveries_of rp) k = Some d \<longrightarrow> ep_chatId (co_endpoint d) = rb_chatId i \<longrightarrow>
            dl_status d \<notin> CURRENT_DELIVERY))"
proof -
  have ok0: "entries_ok (stage rp)" using ok by (simp add: stage_ok)
  from b obtain sg1 sg2 o' where p: "(case rb_main i of None \<Rightarrow> Inr (stage rp) | Some m \<Rightarrow> addPairing m (stage rp)) = Inr sg1"
    and o': "o' = \<lparr>ro_toM = rb_toM i, ro_workspaceId = Some (rb_workspaceId i), ro_reboundFrom = Some (rb_reboundFrom i),
      ro_clearDefaultQa = True, ro_expectedRevisions = [(rb_chatId i, rb_expectedRevision i)], ro_now = rb_now i\<rparr>"
    and re: "resetChatIn (rp_accessChanging rp) (rb_chatId i) o' fresh sg1 = Inr (res, sg2)"
    and ph: "setOperationPhase now (rb_provisioningId i) Committed None sg2 = Inr sg"
    by (rule rebindChat_cases)
  have 1: "keeps (stage rp) sg1" "good (stage rp) sg1" "staged_get tb_loci sg1 = map_of (loci_of rp)"
      "staged_get tb_deliveries sg1 = map_of (deliveries_of rp)"
    using p addPairing_keeps addPairing_good addPairing_view by (auto split: option.splits)
  have ok1: "entries_ok sg1" using 1(2) ok0 by (simp add: good_def)
  have old1: "staged_get tb_loci sg1 k = Some r" using old by (simp add: 1(3))
  note e = resetChatIn_effect [OF re ok1 old1]
  have "keeps (stage rp) sg"
    using keeps_trans [OF 1(1) keeps_trans [OF e(1) setOperationPhase_keeps [OF ph]]] .
  moreover have "wf_staged (stage rp)" using ok0 by (simp add: entries_ok_def)
  moreover have "staged_get tb_loci sg = staged_get tb_loci sg2" using setOperationPhase_effect [OF ph] by simp
  moreover have "ro_toM o' = rb_toM i" by (simp add: o')
  ultimately show ?thesis using e(2-4) by (auto simp: keeps_def stage_def 1(4))
qed

text \<open>
  A rebind that succeeds resets every entry of the chat and no other. Each entry of the chat becomes
  read-only, without grant or verification, one revision further; unless it is stopped it waits for a new
  child under a freshly allocated session; the group row moves to the new main session. None of the
  entries was changing access, and no delivery of the chat was current.
\<close>

theorem rebind_resets_the_chat:
  assumes ok: "repo_ok rp" and run: "mutate commits (rebindChat (rp_accessChanging rp) now i fresh) rp = (Inr res, rp')"
    and old: "map_of (loci_of rp) k = Some r"
  shows "if ep_chatId (rw_endpoint r) \<noteq> rb_chatId i then map_of (loci_of rp') k = Some r
    else (\<exists>r'. map_of (loci_of rp') k = Some r' \<and> rw_locusId r' = rw_locusId r \<and>
        rw_revision r' = rw_revision r + 1 \<and> rw_accessMode r' = ReadOnly \<and> rw_grantedBy r' = None \<and>
        rw_verifiedAt r' = None \<and>
        (if rw_state r = Stopped then rw_state r' = Stopped \<and> rw_sessionId r' = rw_sessionId r
         else rw_state r' = NotCreated \<and> (\<exists>n. rw_sessionId r' = fresh n)) \<and>
        (k = rb_chatId i \<longrightarrow> rw_group r \<noteq> None \<longrightarrow> mainOf r' = rb_toM i)) \<and>
      \<not> isAccessChanging rp (rw_locusId r) \<and> \<not> hasCurrentDeliveryInChat rp (rb_chatId i)"
proof -
  note keep = rebindChat_effect [OF ok old]
  have wf: "wf_tables (rp_tables rp)" using ok by (simp add: repo_ok_def)
  obtain sg where b: "rebindChat (rp_accessChanging rp) now i fresh (stage rp) = Inr (res, sg)"
    and v: "map_of (loci_of rp') = staged_get tb_loci sg"
    by (rule mutate_view [OF run wf]) (use keep in blast)+
  note k = keep [OF b]
  show ?thesis
  proof (cases "ep_chatId (rw_endpoint r) = rb_chatId i")
    case True
    have "\<not> hasCurrentDeliveryInChat rp (rb_chatId i)"
      using k True wf by (auto simp: hasCurrentDeliveryInChat_def list_ex_iff in_vals_iff wf_tables_def deliveries_of_def
          dest: map_of_SomeI)
    then show ?thesis
      using k True by (auto simp: v reset_of_def isAccessChanging_def mainOf_def move_group_def split: option.splits)
  qed (use k in \<open>simp add: v\<close>)
qed

theorem rebind_resets_the_chat_witness:
  "\<exists>r'. map_of (loci_of rp5) (js ''c'') = Some r' \<and> rw_revision r' = 1 \<and> mainOf r' = js ''m2''"
proof -
  have "\<not> isl (fst (mutate True (rebindChat [] 20 to_new_main allot) rp4))" by code_simp
  moreover have "rp_accessChanging rp4 = []" by code_simp
  ultimately obtain res where
    "mutate True (rebindChat (rp_accessChanging rp4) 20 to_new_main allot) rp4 = (Inr res, rp5)"
    unfolding rp5_def using answered by metis
  moreover have "map_of (loci_of rp4) (js ''c'') = Some (the_entry None ''g'')" by code_simp
  ultimately show ?thesis using rebind_resets_the_chat [OF demo_ok(1)]
    by (fastforce simp: the_entry_def to_new_main_def)
qed

subsection \<open>Pairings\<close>

definition one_active :: "(jstr \<rightharpoonup> main_record) \<Rightarrow> bool" where
  "one_active m \<longleftrightarrow> (\<forall>k k' x y. m k = Some x \<longrightarrow> m k' = Some y \<longrightarrow> mr_status x = Paired \<longrightarrow>
     mr_status y = Paired \<longrightarrow> mr_workSessionId x = mr_workSessionId y \<longrightarrow> k = k')"

lemma put_pairing_effect:
  "put_pairing m sg = Inr sg' \<Longrightarrow> keeps sg sg' \<and> staged_get tb_loci sg' = staged_get tb_loci sg \<and>
     staged_get tb_mains sg' = (case m of None \<Rightarrow> staged_get tb_mains sg
       | Some m \<Rightarrow> (staged_get tb_mains sg)(mr_locusMainSessionId m \<mapsto> m))"
  by (auto simp: put_pairing_def put_main_effect put_keeps split: option.splits)

lemma commitProvisioning_cases:
  assumes "commitProvisioning now i grp topic main sg = Inr (rows, sg')"
  obtains news sg1 sg2 where
    "news = (endpointKeyV20 (rw_endpoint grp), grp)
       # (case topic of None \<Rightarrow> [] | Some t \<Rightarrow> [(endpointKeyV20 (rw_endpoint t), t)])"
    "\<forall>m. main = Some m \<longrightarrow> check_pairing (staged_all tb_mains sg) m = Inr ()"
    "put_rows news sg = Inr sg1" "put_pairing main sg1 = Inr sg2"
    "setOperationPhase now i Committed None sg2 = Inr sg'" "rows = map snd news"
    "\<forall>(k, r) \<in> set news. \<not> has (staged_all tb_loci sg) k"
  using assms unfolding commitProvisioning_def Let_def
  by (auto simp: ok_iff list_all_iff split: option.splits)

lemma commitProvisioning_effect:
  assumes wf: "wf_tables (rp_tables rp)"
    and b: "commitProvisioning now i grp topic main (stage rp) = Inr (rows, sg)"
  shows "wf_staged sg \<and> sg_domain sg = rp_tables rp \<and>
      staged_get tb_mains sg = (case main of None \<Rightarrow> map_of (tb_mains (rp_tables rp))
        | Some m \<Rightarrow> (map_of (tb_mains (rp_tables rp)))(mr_locusMainSessionId m \<mapsto> m)) \<and>
      (\<forall>m. main = Some m \<longrightarrow> check_pairing (staged_all tb_mains (stage rp)) m = Inr ()) \<and>
      map_of (loci_of rp) (endpointKeyV20 (rw_endpoint grp)) = None \<and> grp \<in> set rows"
proof -
  have ws: "wf_staged (stage rp)" using wf by simp
  from b obtain news sg1 sg2 where n: "news = (endpointKeyV20 (rw_endpoint grp), grp)
     # (case topic of None \<Rightarrow> [] | Some t \<Rightarrow> [(endpointKeyV20 (rw_endpoint t), t)])"
    and c: "\<forall>m. main = Some m \<longrightarrow> check_pairing (staged_all tb_mains (stage rp)) m = Inr ()"
    and s: "put_rows news (stage rp) = Inr sg1" "put_pairing main sg1 = Inr sg2"
      "setOperationPhase now i Committed None sg2 = Inr sg"
    and r: "rows = map snd news" "\<forall>(k, r) \<in> set news. \<not> has (staged_all tb_loci (stage rp)) k"
    by (rule commitProvisioning_cases)
  have "keeps (stage rp) sg"
    using put_rows_keeps [OF s(1)] put_pairing_effect [OF s(2)] setOperationPhase_keeps [OF s(3)] keeps_trans by blast
  moreover have "map_of (loci_of rp) (endpointKeyV20 (rw_endpoint grp)) = None"
    using r(2) ws by (simp add: n has_def)
  ultimately show ?thesis
    using put_rows_effect(2) [OF s(1)] put_pairing_effect [OF s(2)] setOperationPhase_effect [OF s(3)] c r(1) n ws
    by (auto simp: keeps_def stage_domain split: option.splits)
qed

text \<open>
  Publishing a chat stores its new rows, which no key held before, together with the new pairing, and
  if each work session had at most one active pairing it still has.
\<close>

theorem publication_keeps_one_active_pairing:
  assumes ok: "repo_ok rp" and one: "one_active (map_of (tb_mains (rp_tables rp)))"
    and run: "mutate commits (commitProvisioning now i grp topic main) rp = (Inr rows, rp')"
  shows "one_active (map_of (tb_mains (rp_tables rp'))) \<and> getRow rp (rw_endpoint grp) = None \<and>
    grp \<in> set rows \<and> (\<forall>m. main = Some m \<longrightarrow>
      findMain rp (mr_locusMainSessionId m) = None \<and> findMain rp' (mr_locusMainSessionId m) = Some m)"
proof -
  have wf: "wf_tables (rp_tables rp)" using ok by (simp add: repo_ok_def)
  then have ws: "wf_staged (stage rp)" by simp
  let ?M = "map_of (tb_mains (rp_tables rp))"
  note keep = commitProvisioning_effect [OF wf]
  obtain sg where b: "commitProvisioning now i grp topic main (stage rp) = Inr (rows, sg)"
    and v: "map_of (tb_mains (rp_tables rp')) = staged_get tb_mains sg"
    by (rule mutate_view [OF run wf]) (use keep in blast)+
  note k = keep [OF b]
  have check: "?M (mr_locusMainSessionId m) = None" "mr_status m = Paired"
      "\<And>k x. ?M k = Some x \<Longrightarrow> mr_workSessionId x = mr_workSessionId m \<Longrightarrow> mr_status x \<noteq> Paired"
    if "main = Some m" for m
  proof -
    have c: "check_pairing (staged_all tb_mains (stage rp)) m = Inr ()" using k that by blast
    then show "?M (mr_locusMainSessionId m) = None" "mr_status m = Paired"
      using ws by (simp_all add: check_pairing_def ok_iff)
    fix k x assume h: "?M k = Some x" "mr_workSessionId x = mr_workSessionId m"
    have "x \<in> set (vals (staged_all tb_mains (stage rp)))"
      using in_vals_iff [OF wf_staged_all(6) [OF ws], of x] h(1) ws by auto
    then show "mr_status x \<noteq> Paired" using c h(2) by (auto simp: check_pairing_def ok_iff list_ex_iff)
  qed
  have stored: "getRow rp (rw_endpoint grp) = None \<and> grp \<in> set rows \<and> (\<forall>m. main = Some m \<longrightarrow>
      findMain rp (mr_locusMainSessionId m) = None \<and> findMain rp' (mr_locusMainSessionId m) = Some m)"
    using k check(1) by (auto simp: getRow_def findMain_def v)
  have "one_active (map_of (tb_mains (rp_tables rp')))"
  proof (cases main)
    case (Some m)
    then show ?thesis
      using one check [OF Some] k unfolding one_active_def v by (auto split: if_splits)
  qed (use one k in \<open>simp add: v\<close>)
  with stored show ?thesis by blast
qed

theorem publication_keeps_one_active_pairing_witness:
  "one_active (map_of (tb_mains (rp_tables rp2))) \<and> findMain rp2 (js ''m'') = Some (the_pairing ''m'')"
proof -
  have "repo_ok rp1"
    using repo.run_inv [OF _ fresh_ok] demo_run(1) by blast
  moreover have "tb_mains (rp_tables rp1) = []" by code_simp
  then have "one_active (map_of (tb_mains (rp_tables rp1)))" by (simp add: one_active_def)
  moreover have "\<not> isl (fst (mutate True (commitProvisioning 2 (js ''p'') (the_entry None ''g'')
      (Some (the_entry (Some ''t'') ''t'')) (Some (the_pairing ''m''))) rp1))" by code_simp
  then obtain rows where "mutate True (commitProvisioning 2 (js ''p'') (the_entry None ''g'')
      (Some (the_entry (Some ''t'') ''t'')) (Some (the_pairing ''m''))) rp1 = (Inr rows, rp2)"
    unfolding rp2_def using answered by metis
  ultimately show ?thesis
    using publication_keeps_one_active_pairing by (fastforce simp: the_pairing_def)
qed

text \<open>A rebind and a migration add a pairing without that check: the run ends with two active ones.\<close>

lemma rebind_adds_a_second_active_pairing:
  "map mr_status (listPairingsOfWork rp5 (js ''w'')) = [Paired, Paired]"
  by code_simp

subsection \<open>Deliveries of an entry\<close>

text \<open>
  An accepted delivery that is not a repetition lies on its entry as it stands: the entry is known, is
  neither stopped nor invalid, is not changing access, and the delivery names its current session and its
  endpoint; its sequence number exceeds all earlier ones. A repeated message stores nothing.
\<close>

theorem acceptance_is_fenced_by_the_entry:
  assumes run: "acceptDelivery_row changing now inp sg = Inr (a, sg')" and wf: "wf_staged sg"
  shows "if ra_duplicate a then sg' = sg \<and> dl_messageId (ra_record a) = in_messageId inp
    else (\<exists>r. find_locus (staged_all tb_loci sg) (co_locusId inp) = Some r \<and> rw_state r \<notin> {Stopped, Invalid} \<and>
        rw_sessionId r = co_sessionId (ra_record a) \<and>
        endpointKeyV20 (rw_endpoint r) = endpointKeyV20 (co_endpoint (ra_record a))) \<and>
      co_locusId inp \<notin> set changing \<and> dl_status (ra_record a) = Accepted \<and>
      (\<forall>d \<in> set (vals (staged_all tb_deliveries sg)). dl_sequence d < dl_sequence (ra_record a) \<and>
         dl_messageId d \<noteq> in_messageId inp) \<and>
      staged_get tb_deliveries sg' = (staged_get tb_deliveries sg)(dl_deliveryId (ra_record a) \<mapsto> ra_record a)"
proof (cases "find (\<lambda>d. dl_messageId d = in_messageId inp) (vals (staged_all tb_deliveries sg))")
  case None
  let ?ds = "vals (staged_all tb_deliveries sg)"
  from run None obtain r where r: "find_locus (staged_all tb_loci sg) (co_locusId inp) = Some r"
    "co_locusId inp \<notin> set changing" "rw_state r \<noteq> Stopped" "rw_state r \<noteq> Invalid"
    "rw_sessionId r = co_sessionId inp" "endpointKeyV20 (rw_endpoint r) = endpointKeyV20 (co_endpoint inp)"
    and put: "put_delivery (dl_deliveryId (ra_record a)) (ra_record a) sg = Inr sg'" and d: "\<not> ra_duplicate a"
    and a: "ra_record a = accepted_row inp (next_sequence ?ds) (or_else (in_acceptedAt inp) now)"
    unfolding acceptDelivery_row_def Let_def by (auto simp: ok_iff)
  have "dl_sequence x \<le> foldr max (map dl_sequence ds) 0" if "x \<in> set ds" for x ds
    using that by (induction ds) (auto simp: le_max_iff_disj)
  then have "\<forall>x \<in> set ?ds. dl_sequence x < next_sequence ?ds"
    by (fastforce simp: next_sequence_def)
  moreover have "\<forall>x \<in> set ?ds. dl_messageId x \<noteq> in_messageId inp"
    using None by (simp add: find_None_iff)
  moreover have "co_sessionId (ra_record a) = co_sessionId inp" "co_endpoint (ra_record a) = co_endpoint inp"
    "dl_status (ra_record a) = Accepted" "dl_sequence (ra_record a) = next_sequence ?ds"
    by (simp_all add: a accepted_row_def accepted_record_def Let_def)
  ultimately show ?thesis using r d put_delivery_effect(2) [OF put] by simp
next
  case (Some d)
  then show ?thesis using run by (auto simp: acceptDelivery_row_def dest: find_SomeD)
qed

theorem acceptance_is_fenced_by_the_entry_witness:
  "\<exists>a sg. acceptDelivery_row [] 10 (message ''a'') (stage rp2) = Inr (a, sg) \<and> dl_status (ra_record a) = Accepted"
proof -
  have "\<not> isl (acceptDelivery_row [] 10 (message ''a'') (stage rp2))" by code_simp
  then obtain a sg where a: "acceptDelivery_row [] 10 (message ''a'') (stage rp2) = Inr (a, sg)"
    by (cases "acceptDelivery_row [] 10 (message ''a'') (stage rp2)") auto
  have "(case acceptDelivery_row [] 10 (message ''a'') (stage rp2) of Inl _ \<Rightarrow> True | Inr (a, _) \<Rightarrow> \<not> ra_duplicate a)"
    by code_simp
  moreover have "wf_staged (stage rp2)" using demo_run repo.run_inv [OF _ fresh_ok, of True rp2]
    by (simp add: repo_ok_def rtranclp.rtrancl_into_rtrancl [OF r_into_rtranclp])
  ultimately show ?thesis
    using acceptance_is_fenced_by_the_entry [OF a] a by auto
qed

subsection \<open>The result of a reply\<close>

lemma nextRevision_valid: "nextRevision r = Inr n \<Longrightarrow> nonnegative n"
  by (auto simp: nextRevision_def nonnegative_def safe_integer_def Let_def split: if_splits)

lemma completed_same [simp]:
  "co_endpoint (completed i cur) = co_endpoint cur" "co_sessionId (completed i cur) = co_sessionId cur"
  "dl_messageId (completed i cur) = dl_messageId cur" "dl_rootMessageId (completed i cur) = dl_rootMessageId cur"
  "dl_replyTarget (completed i cur) = dl_replyTarget cur" "dl_feedbackTarget (completed i cur) = dl_feedbackTarget cur"
  by (simp_all add: completed_def Let_def)

text \<open>The schema of the completed record, part by part.\<close>

lemma completed_schema:
  assumes cur: "petLocusDeliveryV20 cur" "dl_status cur = Finishing" "dl_failedAt cur = None" "dl_settledAt cur = None"
    and i: "fi_outcome i = Reply" "fi_outboundResult i = Some res" "res \<noteq> ONone"
    and n: "nonnegative (li_now i)" "nonnegative rv"
  shows "petLocusDeliveryV20 ((completed i cur)\<lparr>dl_revision := Some rv, dl_stateRevision := Some rv\<rparr>) \<longleftrightarrow>
    res \<noteq> OFailure \<and> dl_startupRecoveryDebt cur = None"
proof -
  let ?r = "(completed i cur)\<lparr>dl_revision := Some rv, dl_stateRevision := Some rv\<rparr>"
  from cur have base: "petLocusDeliveryBase cur" "filled (co_sessionId cur)" and m: "refine_modern cur"
    and l: "refine_lease cur" and t: "refine_times cur" and g: "refine_targets cur"
    by (simp_all add: petLocusDeliveryV20_def refineLocusDelivery_def modern_def)
  have "petLocusDeliveryBase ?r"
    using base(1) n i
    by (cases "dl_finishedAt cur") (auto simp: petLocusDeliveryBase_def completed_def Let_def split: option.splits)
  moreover have "filled (co_sessionId ?r)" using base(2) by (simp add: completed_def Let_def)
  moreover have "modern ?r" by (simp add: modern_def completed_def Let_def)
  moreover have "refine_modern ?r"
    using m i cur(2) by (cases res) (auto simp: refine_modern_def completed_def Let_def)
  moreover have "refine_lease ?r" using l by (simp add: refine_lease_def completed_def Let_def)
  moreover have "refine_targets ?r"
    using g by (simp add: refine_targets_def root_of_def cong: option.case_cong)
  moreover have "refine_times ?r \<longleftrightarrow> res \<noteq> OFailure \<and> dl_startupRecoveryDebt cur = None"
    using t cur(2-4) i by (cases res) (auto simp: refine_times_def completed_def Let_def)
  ultimately show ?thesis by (simp add: petLocusDeliveryV20_def refineLocusDelivery_def)
qed

text \<open>
  Completing a delivery that is being answered: the transition itself succeeds, but the repository can
  store its result exactly when the reply did not fail and the delivery carries no debt of the startup
  recovery. A failed reply is refused as an invalid record, because the transition sets no terminal
  timestamp, and the delivery stays in its finishing state.
\<close>

theorem reply_result_is_storable:
  assumes "completeDelivery (ledgerState sg) i = Inr m" and "mu_changed m"
    and "map_of (lg_byDeliveryId (ledgerState sg)) (li_deliveryId i) = Some cur"
    and "petLocusDeliveryV20 cur" and "dl_failedAt cur = None" and "dl_settledAt cur = None"
    and "fi_outcome i = Reply"
  shows "(\<exists>m' sg'. completeCurrentDelivery i sg = Inr (m', sg')) \<longleftrightarrow>
      fi_outboundResult i \<noteq> Some OFailure \<and> dl_startupRecoveryDebt cur = None"
    (is "_ \<longleftrightarrow> ?storable")
proof -
  from assms(1,2,3,7) obtain res rv where i: "fi_outboundResult i = Some res" "res \<noteq> ONone"
    and st: "dl_status cur = Finishing" and now: "nonnegative (li_now i)"
    and rv: "nextRevision cur = Inr rv" and m: "m = changed (ledgerState sg) ((completed i cur)\<lparr>dl_revision := Some rv\<rparr>)"
    unfolding completeDelivery_def lease_step_def validateLeaseInput_def validateAt_def
    by (auto simp: ok_iff unchanged_def nonnegative_def safe_integer_def split: if_splits option.splits)
  let ?r = "(completed i cur)\<lparr>dl_revision := Some rv, dl_stateRevision := Some rv\<rparr>"
  have "with_state_revision ((completed i cur)\<lparr>dl_revision := Some rv\<rparr>) = ?r"
    by (simp add: with_state_revision_def)
  then have run: "completeCurrentDelivery i sg =
      err_bind (put_delivery (dl_deliveryId ?r) ?r sg) (\<lambda>sg'. Inr (m\<lparr>mu_record := Some ?r\<rparr>, sg'))"
    using assms(1) by (simp add: completeCurrentDelivery_def applyDelivery_def thrown_def m changed_def)
  have "petLocusDeliveryV20 ?r \<longleftrightarrow> ?storable"
    using completed_schema [OF assms(4) st assms(5,6,7) i now nextRevision_valid [OF rv]] i(1) by simp
  then show ?thesis unfolding run put_delivery_def by (auto simp: ok_iff)
qed

definition room :: endpoint where "room = \<lparr>ep_chatId = js ''c'', ep_threadId = None\<rparr>"

definition rp6 :: repository where
  "rp6 = snd (mutate True (claimCurrentDelivery_row \<lparr>co_endpoint = room, co_locusId = js ''g'', co_sessionId = js ''sg'',
     cl_now = 20, cl_deliveryId = None, cl_expectedRevision = None\<rparr>) rp3)"

definition lease_a :: "int \<Rightarrow> lease_input" where
  "lease_a now = \<lparr>co_endpoint = room, co_locusId = js ''g'', co_sessionId = js ''sg'', li_deliveryId = js ''a'',
     li_now = now, li_expectedRevision = None\<rparr>"

definition rp7 :: repository where "rp7 = snd (mutate True (markDeliveryFinishing (lease_a 30)) rp6)"

definition reply_a :: "outbound_result \<Rightarrow> finish_input" where
  "reply_a res = \<lparr>co_endpoint = room, co_locusId = js ''g'', co_sessionId = js ''sg'', li_deliveryId = js ''a'',
     li_now = 40, li_expectedRevision = None, fi_outcome = Reply, fi_outboundResult = Some res,
     fi_outboundDiagnostic = None, fi_reason = None\<rparr>"

definition completable :: "outbound_result \<Rightarrow> bool" where
  "completable res \<longleftrightarrow> (case completeDelivery (ledgerState (stage rp7)) (reply_a res) of Inl _ \<Rightarrow> False | Inr m \<Rightarrow> mu_changed m) \<and>
     (case map_of (lg_byDeliveryId (ledgerState (stage rp7))) (js ''a'') of None \<Rightarrow> False
      | Some cur \<Rightarrow> petLocusDeliveryV20 cur \<and> dl_failedAt cur = None \<and> dl_settledAt cur = None \<and>
          dl_startupRecoveryDebt cur = None)"

theorem reply_result_is_storable_witness:
  "(\<exists>m sg. completeCurrentDelivery (reply_a OSuccess) (stage rp7) = Inr (m, sg)) \<and>
   \<not> (\<exists>m sg. completeCurrentDelivery (reply_a OFailure) (stage rp7) = Inr (m, sg))"
proof -
  have c: "completable OSuccess" "completable OFailure" by code_simp+
  have "(\<exists>m sg. completeCurrentDelivery (reply_a res) (stage rp7) = Inr (m, sg)) \<longleftrightarrow> res \<noteq> OFailure"
    if "completable res" for res
  proof -
    from that obtain m cur where "completeDelivery (ledgerState (stage rp7)) (reply_a res) = Inr m" "mu_changed m"
      "map_of (lg_byDeliveryId (ledgerState (stage rp7))) (li_deliveryId (reply_a res)) = Some cur"
      "petLocusDeliveryV20 cur" "dl_failedAt cur = None" "dl_settledAt cur = None" "dl_startupRecoveryDebt cur = None"
      by (auto simp: completable_def reply_a_def split: sum.splits option.splits)
    from reply_result_is_storable [OF this(1-6)] this(7) show ?thesis by (simp add: reply_a_def)
  qed
  from this [OF c(1)] this [OF c(2)] show ?thesis by simp
qed

subsection \<open>A child that could not be created\<close>

lemma retarget_skips:
  "retarget f ds sg = Inr (ids, sg') \<Longrightarrow> \<forall>d \<in> set ds. dl_deliveryId d = k \<longrightarrow> f d = None \<Longrightarrow>
     staged_get tb_deliveries sg' k = staged_get tb_deliveries sg k"
proof (induction ds arbitrary: ids sg)
  case (Cons d ds)
  show ?case
  proof (cases "f d")
    case (Some sid)
    with Cons.prems obtain sg1 ids1 where p: "put_delivery (dl_deliveryId d) (d\<lparr>co_sessionId := sid\<rparr>) sg = Inr sg1"
        "retarget f ds sg1 = Inr (ids1, sg')" by (auto simp: ok_iff split: prod.splits)
    have "dl_deliveryId d \<noteq> k" using Cons.prems(2) Some by auto
    then show ?thesis using Cons.IH [OF p(2)] Cons.prems(2) put_delivery_effect(2) [OF p(1)] by simp
  qed (use Cons in simp)
qed simp

text \<open>
  When the first child of an entry could not be created, the entry waits for a new child under a freshly
  allocated session, one revision further, with the permissions it had; the delivery that asked for the
  child is failed under its old session.
\<close>

theorem failed_creation_rotates_the_entry:
  assumes run: "failFirstDeliveryCreation i fresh sg = Inr (u, sg')" and ok: "entries_ok sg"
  shows "\<exists>k r r' d d'. staged_get tb_loci sg k = Some r \<and> rw_locusId r = fd_locusId i \<and>
      rw_sessionId r = fd_sessionId i \<and> staged_get tb_loci sg' k = Some r' \<and>
      rw_state r' = NotCreated \<and> rw_revision r' = rw_revision r + 1 \<and> (\<exists>n. rw_sessionId r' = fresh n) \<and>
      rw_accessMode r' = rw_accessMode r \<and> rw_grantedBy r' = rw_grantedBy r \<and>
      staged_get tb_deliveries sg (fd_deliveryId i) = Some d \<and>
      staged_get tb_deliveries sg' (fd_deliveryId i) = Some d' \<and>
      co_sessionId d' = fd_sessionId i \<and> dl_status d' = Failed \<and> dl_failedAt d' = Some (fd_now i)"
proof -
  from run obtain r sg1 sid d where
    r: "find_locus (staged_all tb_loci sg) (fd_locusId i) = Some r" "rw_sessionId r = fd_sessionId i"
    and d: "staged_get tb_deliveries sg (fd_deliveryId i) = Some d" "co_sessionId d = fd_sessionId i"
    and st: "settleTriggerFailed (fd_deliveryId i) (js ''first child creation failed'') (fd_now i) sg = Inr sg1"
    and ro: "rotateFirstChild r (fd_deliveryId i) fresh (fd_now i) sg1 = Inr (sid, sg')"
    unfolding failFirstDeliveryCreation_def firstIdentityRow_def by (auto simp: ok_iff split: prod.splits option.splits)
  from found_row [OF ok r(1)] obtain k where k: "staged_get tb_loci sg k = Some r" "rw_locusId r = fd_locusId i" .
  have key: "endpointKeyV20 (rw_endpoint r) = k"
    using ok k(1) unfolding entries_ok_def set_ok_def rows_valid_def by blast
  define d' where "d' = d\<lparr>dl_queueState := None, dl_status := Failed, dl_failedAt := Some (fd_now i),
      dl_failureReason := Some (js ''first child creation failed'')\<rparr>"
  have d1: "staged_get tb_deliveries sg1 (fd_deliveryId i) = Some d'"
    using st d(1) by (auto simp: settleTriggerFailed_def d'_def put_delivery_effect)
  from ro obtain r' sg2 f ids where
    r': "r' = r\<lparr>rw_verifiedAt := None, rw_stoppedAt := None,
        rw_invalidReason := None, rw_state := NotCreated, rw_sessionId := fresh (sg_reserved sg1),
        rw_revision := rw_revision r + 1, rw_updatedAt := fd_now i\<rparr>"
    and put: "put_row (endpointKeyV20 (rw_endpoint r')) r' (sg1\<lparr>sg_reserved := sg_reserved sg1 + 1\<rparr>) = Inr sg2"
    and re: "retarget f (vals (staged_all tb_deliveries sg2)) sg2 = Inr (ids, sg')"
    and f: "\<forall>x. dl_deliveryId x = fd_deliveryId i \<longrightarrow> f x = None"
    unfolding rotateFirstChild_def reserve_def Let_def by (auto simp: ok_iff split: prod.splits)
  have "staged_get tb_loci sg' k = Some r'"
    unfolding retarget_loci [OF re] put_row_effect(2) [OF put] by (simp add: r' key)
  moreover have "staged_get tb_deliveries sg' (fd_deliveryId i) = Some d'"
    using retarget_skips [OF re, of "fd_deliveryId i"] f put_row_effect(4) [OF put] d1 by (simp add: staged_get_add)
  moreover have "co_sessionId d' = fd_sessionId i" "dl_status d' = Failed" "dl_failedAt d' = Some (fd_now i)"
    using d(2) by (simp_all add: d'_def)
  ultimately show ?thesis
    using k r(2) d(1) by (intro exI [of _ k] exI [of _ r] exI [of _ r'] exI [of _ d] exI [of _ d']) (auto simp: r')
qed

definition creation_of_a :: first_identity where
  "creation_of_a = \<lparr>fd_locusId = js ''g'', fd_sessionId = js ''sg'', fd_revision = 0, fd_deliveryId = js ''a'', fd_now = 50\<rparr>"

theorem failed_creation_rotates_the_entry_witness:
  "\<exists>sg' d. failFirstDeliveryCreation creation_of_a allot (stage rp6) = Inr ((), sg') \<and>
     staged_get tb_deliveries sg' (js ''a'') = Some d \<and> dl_status d = Failed"
proof -
  have "repo_step\<^sup>*\<^sup>* (fresh_repository True) rp3"
    by (meson demo_run rtranclp.rtrancl_refl rtranclp.rtrancl_into_rtrancl)
  moreover have "repo_step rp3 rp6" unfolding rp6_def claimCurrentDelivery_row_def by (rule ledger)
  ultimately have "repo_ok rp6" using repo.run_inv [OF _ fresh_ok] rtranclp.rtrancl_into_rtrancl by metis
  then have ok: "entries_ok (stage rp6)" by (simp add: stage_ok)
  have "\<not> isl (failFirstDeliveryCreation creation_of_a allot (stage rp6))" by code_simp
  then obtain u sg' where run: "failFirstDeliveryCreation creation_of_a allot (stage rp6) = Inr (u, sg')"
    by (cases "failFirstDeliveryCreation creation_of_a allot (stage rp6)") auto
  from failed_creation_rotates_the_entry [OF run ok] run show ?thesis
    by (auto simp: creation_of_a_def)
qed

end
