(* ===== verification/PetAdmission.thy ===== *)
theory PetAdmission
  imports PetEntries
begin

text \<open>
  The admission of inbound messages in dsh-pet: \<^verbatim>\<open>packages/dsh-pet/src/host/locus/admission.ts\<close> and
  \<^verbatim>\<open>packages/dsh-pet/src/host/channel/event.ts\<close>. What the adapter supplies (the event, the replay probe, the
  authorization of an endpoint) is an argument; a probe that throws answers \<open>Inl ()\<close>.

  Two pieces of the language are modelled as far as the code can observe them. \<open>Number(text)\<close> is the exact
  value of the numeral before its rounding to a double, and \<open>None\<close> for NaN and the infinities.
  \<open>toLowerCase\<close> maps the ASCII letters; no other letter has a lower case that occurs in a command.
\<close>

subsection \<open>Events: \<^verbatim>\<open>event.ts\<close>\<close>

text \<open>\<open>message_id\<close> and \<open>chat_id\<close> are checked at run time, so they may be absent.\<close>

record inbound_event =
  ev_type :: jstr
  ev_message_id :: "jstr option"
  ev_chat_id :: "jstr option"
  ev_chat_type :: jstr
  ev_message_type :: jstr
  ev_content :: "jstr option"
  ev_create_time :: "jstr option"
  ev_sender_id :: "jstr option"
  ev_sender_type :: "jstr option"
  ev_root_id :: "jstr option"
  ev_reply_to :: "jstr option"
  ev_thread_id :: "jstr option"
  ev_mentions :: "mention list option"

subsection \<open>Numbers and text of the language\<close>

definition is_digit :: "nat \<Rightarrow> bool" where
  "is_digit u \<longleftrightarrow> 48 \<le> u \<and> u \<le> 57"

fun digits_from :: "int \<Rightarrow> int \<Rightarrow> jstr \<Rightarrow> int" where
  "digits_from base n [] = n"
| "digits_from base n (u # us) = digits_from base (n * base + (if u \<le> 57 then int u - 48 else int u mod 32 + 9)) us"

definition hex_digit :: "nat \<Rightarrow> bool" where
  "hex_digit u \<longleftrightarrow> is_digit u \<or> (65 \<le> u \<and> u \<le> 70) \<or> (97 \<le> u \<and> u \<le> 102)"

text \<open>A numeral as mantissa and power of ten.\<close>

definition exponent_part :: "jstr \<Rightarrow> int option" where
  "exponent_part t =
     (case t of [] \<Rightarrow> Some 0
      | u # rest \<Rightarrow>
          if u \<noteq> 101 \<and> u \<noteq> 69 then None
          else let (sign, ds) = (case rest of [] \<Rightarrow> (1, []) | s # tail \<Rightarrow>
                     if s = 45 then (- 1, tail) else if s = 43 then (1, tail) else (1, rest))
               in if ds = [] \<or> \<not> list_all is_digit ds then None else Some (sign * digits_from 10 0 ds))"

definition decimal_part :: "jstr \<Rightarrow> (int \<times> int) option" where
  "decimal_part t =
     (let whole = takeWhile is_digit t; rest = dropWhile is_digit t;
          (frac, rest') = (case rest of [] \<Rightarrow> ([], []) | u # tail \<Rightarrow>
             if u = 46 then (takeWhile is_digit tail, dropWhile is_digit tail) else ([], rest))
      in if whole = [] \<and> frac = [] then None
         else map_option (\<lambda>e. (digits_from 10 0 (whole @ frac), e - int (length frac))) (exponent_part rest'))"

definition radix_part :: "int \<Rightarrow> (nat \<Rightarrow> bool) \<Rightarrow> jstr \<Rightarrow> (int \<times> int) option" where
  "radix_part base ok ds = (if ds = [] \<or> \<not> list_all ok ds then None else Some (digits_from base 0 ds, 0))"

definition to_number :: "jstr \<Rightarrow> (int \<times> int) option" where
  "to_number text =
     (case trim text of
        [] \<Rightarrow> Some (0, 0)
      | u # rest \<Rightarrow>
          if u = 45 then map_option (\<lambda>(m, e). (- m, e)) (decimal_part rest)
          else if u = 43 then decimal_part rest
          else if u = 48 \<and> rest \<noteq> [] \<and> hd rest \<in> {120, 88} then radix_part 16 hex_digit (tl rest)
          else if u = 48 \<and> rest \<noteq> [] \<and> hd rest \<in> {111, 79} then radix_part 8 (\<lambda>d. 48 \<le> d \<and> d \<le> 55) (tl rest)
          else if u = 48 \<and> rest \<noteq> [] \<and> hd rest \<in> {98, 66} then radix_part 2 (\<lambda>d. d = 48 \<or> d = 49) (tl rest)
          else decimal_part (u # rest))"

text \<open>\<open>Number.isFinite(n) && n > 0 && n < watermark\<close>\<close>

definition before_watermark :: "jstr option \<Rightarrow> int \<Rightarrow> bool" where
  "before_watermark createTime watermark =
     (case to_number (or_else createTime (js ''0'')) of None \<Rightarrow> False
      | Some (m, e) \<Rightarrow> 0 < m \<and>
          (if 0 \<le> e then m * 10 ^ nat e < watermark else m < watermark * 10 ^ nat (- e)))"

definition lower :: "jstr \<Rightarrow> jstr" where
  "lower t = map (\<lambda>u. if 65 \<le> u \<and> u \<le> 90 then u + 32 else u) t"

definition starts_with :: "jstr \<Rightarrow> jstr \<Rightarrow> bool" where
  "starts_with t p \<longleftrightarrow> take (length p) t = p"

text \<open>\<open>words.join(' ')\<close>\<close>

fun joined :: "jstr list \<Rightarrow> jstr" where
  "joined [] = []"
| "joined [w] = w"
| "joined (w # ws) = w @ [32] @ joined ws"

lemma dropWhile_shorter: "xs \<noteq> [] \<Longrightarrow> P (hd xs) \<Longrightarrow> length (dropWhile P xs) < length xs"
  by (cases xs) (auto simp: length_dropWhile_le less_Suc_eq_le)

text \<open>The words of a text: its maximal runs without white space.\<close>

function words_of :: "jstr \<Rightarrow> jstr list" where
  "words_of t = (let s = dropWhile js_space t
     in if s = [] then [] else takeWhile (\<lambda>u. \<not> js_space u) s # words_of (dropWhile (\<lambda>u. \<not> js_space u) s))"
  by pat_completeness auto

termination
proof (relation "measure length")
  fix t s assume s: "s = dropWhile js_space t" and ne: "s \<noteq> ([] :: jstr)"
  have "\<not> js_space (hd s)" using ne unfolding s by (rule hd_dropWhile)
  then have "length (dropWhile (\<lambda>u. \<not> js_space u) s) < length s" using ne by (intro dropWhile_shorter) simp_all
  also have "\<dots> \<le> length t" unfolding s by (rule length_dropWhile_le)
  finally show "(dropWhile (\<lambda>u. \<not> js_space u) s, t) \<in> measure length" by simp
qed simp

declare words_of.simps [simp del]

subsection \<open>Duplicates\<close>

text \<open>\<open>MessageDedup.check\<close>: the map of the ids seen, in insertion order.\<close>

definition dedup_check :: "int \<Rightarrow> jstr \<Rightarrow> int \<Rightarrow> (jstr \<times> int) list \<Rightarrow> bool \<times> (jstr \<times> int) list" where
  "dedup_check windowMs messageId now seen =
     (let kept = filter (\<lambda>(_, at). now - at \<le> windowMs) seen
      in if has kept messageId then (True, kept) else (False, AList.update messageId now kept))"

text \<open>\<open>LocusMessageDedup\<close> of \<^verbatim>\<open>admission.ts\<close> has the same body.\<close>

definition locus_dedup_check :: "int \<Rightarrow> jstr \<Rightarrow> int \<Rightarrow> (jstr \<times> int) list \<Rightarrow> bool \<times> (jstr \<times> int) list" where
  "locus_dedup_check windowMs messageId now seen = dedup_check windowMs messageId now seen"

subsection \<open>The address of an event: \<^verbatim>\<open>admission.ts\<close>\<close>

record locus_endpoint = endpoint +
  le_key :: jstr

datatype endpoint_refusal = InvalidChat | InvalidThread

definition locusEndpointKey :: "jstr \<Rightarrow> jstr option \<Rightarrow> jstr" where
  "locusEndpointKey chatId threadId =
     (case threadId of None \<Rightarrow> chatId | Some t \<Rightarrow> chatId @ [STORAGE_KEY_SEPARATOR] @ t)"

definition normalizeId :: "jstr option \<Rightarrow> jstr option" where
  "normalizeId value =
     (case value of None \<Rightarrow> None
      | Some v \<Rightarrow> if v = [] \<or> trim v \<noteq> v \<or> containsStorageKeySeparator v \<or> list_ex js_space v then None else Some v)"

definition extractLocusEndpoint :: "inbound_event \<Rightarrow> endpoint_refusal + locus_endpoint" where
  "extractLocusEndpoint ev =
     (case normalizeId (ev_chat_id ev) of
        None \<Rightarrow> Inl InvalidChat
      | Some chatId \<Rightarrow>
          let threadId = normalizeId (ev_thread_id ev)
          in if ev_thread_id ev \<noteq> None \<and> ev_thread_id ev \<noteq> Some [] \<and> threadId = None then Inl InvalidThread
             else Inr \<lparr>ep_chatId = chatId, ep_threadId = threadId, le_key = locusEndpointKey chatId threadId\<rparr>)"

subsection \<open>Authorization\<close>

datatype auth_state = Authorized | Uninitialized | OutOfService | Unusable

definition isAdmittableAuthorization :: "auth_state \<Rightarrow> bool" where
  "isAdmittableAuthorization st \<longleftrightarrow> st = Authorized \<or> st = Uninitialized \<or> st = Unusable"

record authorization =
  au_state :: auth_state
  au_locusId :: "jstr option"
  au_reason :: "jstr option"
  au_needsInitialization :: bool

datatype auth_answer = State auth_state | Detailed authorization

type_synonym auth_resolver = "locus_endpoint \<Rightarrow> unit + auth_answer"

text \<open>The resolver over the stored entries; \<open>archived\<close> is \<open>isWorkArchived\<close>.\<close>

definition workArchived :: "repository \<Rightarrow> (jstr \<Rightarrow> unit + bool) option \<Rightarrow> jstr \<Rightarrow> bool" where
  "workArchived rp archived chatId =
     (case archived of None \<Rightarrow> False
      | Some f \<Rightarrow>
          (case getRow rp \<lparr>ep_chatId = chatId, ep_threadId = None\<rparr> of None \<Rightarrow> False
           | Some g \<Rightarrow>
               (case rw_group g of None \<Rightarrow> False
                | Some p \<Rightarrow>
                    (case findMain rp (gp_locusMainSessionId p) of None \<Rightarrow> False
                     | Some m \<Rightarrow> (case f (mr_workSessionId m) of Inl _ \<Rightarrow> False | Inr b \<Rightarrow> b)))))"

definition classify :: "repository \<Rightarrow> (jstr \<Rightarrow> unit + bool) option \<Rightarrow> row \<Rightarrow> bool \<Rightarrow> auth_answer" where
  "classify rp archived r needsInitialization =
     (if rw_state r \<noteq> Stopped \<and> workArchived rp archived (ep_chatId (rw_endpoint r))
      then Detailed \<lparr>au_state = OutOfService, au_locusId = None, au_reason = Some (js ''source-archived''),
             au_needsInitialization = False\<rparr>
      else if rw_state r = Serving \<or> rw_state r = NotCreated
      then Detailed \<lparr>au_state = Authorized, au_locusId = Some (rw_locusId r), au_reason = None,
             au_needsInitialization = needsInitialization\<rparr>
      else State (if rw_state r = Stopped then OutOfService else Unusable))"

definition createDurableLocusAuthorizationResolver ::
  "repository \<Rightarrow> (jstr \<Rightarrow> unit + bool) option \<Rightarrow> auth_resolver" where
  "createDurableLocusAuthorizationResolver rp archived e =
     (case getRow rp e of
        Some r \<Rightarrow> Inr (classify rp archived r False)
      | None \<Rightarrow>
          if ep_threadId e = None then Inr (State Uninitialized)
          else (case getRow rp \<lparr>ep_chatId = ep_chatId e, ep_threadId = None\<rparr> of
                  None \<Rightarrow> Inr (State Uninitialized)
                | Some g \<Rightarrow> Inr (classify rp archived g True)))"

definition durable_accessMode :: "repository \<Rightarrow> locus_endpoint \<Rightarrow> access_mode option" where
  "durable_accessMode rp e = map_option rw_accessMode (getRow rp e)"

subsection \<open>Control commands\<close>

text \<open>
  \<open>ACCESS_COMMAND_MODES[value]\<close> is a lookup in an object literal, which inherits the members of
  \<open>Object.prototype\<close>: two of their names are in lower case, and the values found there are no modes.
\<close>

datatype mode_value = Mode access_mode | Inherited jstr

datatype control_command =
  BindCmd jstr | BindMissingPrefix | BindInvalid | AccessCmd mode_value | AccessMissingMode | AccessInvalid jstr
| DeprecatedTier jstr | Unbind | Help | UnbindInvalid

definition inherited_members :: "jstr list" where
  "inherited_members = map js [''constructor'', ''__proto__'', ''hasOwnProperty'', ''isPrototypeOf'',
     ''propertyIsEnumerable'', ''toLocaleString'', ''toString'', ''valueOf'', ''__defineGetter__'',
     ''__defineSetter__'', ''__lookupGetter__'', ''__lookupSetter__'']"

definition ACCESS_COMMAND_MODES :: "jstr \<Rightarrow> mode_value option" where
  "ACCESS_COMMAND_MODES v =
     (if v = js ''read'' then Some (Mode ReadOnly)
      else if v = js ''full'' then Some (Mode FullAccess)
      else if v \<in> set inherited_members then Some (Inherited v) else None)"

datatype command_id = BindId | UnbindId | AccessId | HelpId

definition LOCUS_COMMAND_TABLE :: "(command_id \<times> jstr list) list" where
  "LOCUS_COMMAND_TABLE =
     [(BindId, map js [''/bind'', ''-b'', ''--bind'']), (UnbindId, map js [''/unbind'', ''-u'', ''--unbind'']),
      (AccessId, map js [''/access'', ''-a'', ''--access'']), (HelpId, map js [''/help'', ''-h'', ''--help''])]"

definition verbsOf :: "command_id \<Rightarrow> jstr list" where
  "verbsOf i = or_else (map_of LOCUS_COMMAND_TABLE i) []"

definition DEPRECATED_TIER_VERBS :: "jstr list" where
  "DEPRECATED_TIER_VERBS = map js [''/scope'', ''-s'', ''--scope'', ''/tools'', ''-t'', ''--tools'']"

text \<open>
  \<open>withoutLeadingMentions\<close>: the words of the text after its leading mentions. A mention is \<open>@\<close> and at
  least one more character; white space is squeezed, so the cleaned text is these words joined by a space.
\<close>

fun drop_mentions :: "jstr list \<Rightarrow> jstr list" where
  "drop_mentions [] = []"
| "drop_mentions (w # ws) = (if 2 \<le> length w \<and> hd w = 64 then drop_mentions ws else w # ws)"

definition withoutLeadingMentions :: "jstr \<Rightarrow> jstr list" where
  "withoutLeadingMentions text = drop_mentions (words_of text)"

definition parseLocusControlCommand :: "jstr \<Rightarrow> control_command option" where
  "parseLocusControlCommand text =
     (case withoutLeadingMentions text of
        [] \<Rightarrow> None
      | verb # args \<Rightarrow>
          let low = lower verb; cleaned = joined (verb # args)
          in if low \<in> set (verbsOf HelpId) then Some Help
             else if low \<in> set (verbsOf UnbindId) then Some (if args = [] then Unbind else UnbindInvalid)
             else if low \<in> set (verbsOf BindId)
             then Some (case args of [] \<Rightarrow> BindMissingPrefix | [p] \<Rightarrow> BindCmd p | _ \<Rightarrow> BindInvalid)
             else if low \<in> set (verbsOf AccessId)
             then Some (case args of [] \<Rightarrow> AccessMissingMode
                        | a # rest \<Rightarrow> (case (if rest = [] then ACCESS_COMMAND_MODES (lower a) else None) of
                                        None \<Rightarrow> AccessInvalid (joined args) | Some m \<Rightarrow> AccessCmd m))
             else if starts_with low (js ''--access='')
             then let v = drop 9 low
                  in Some (case (if args = [] then ACCESS_COMMAND_MODES v else None) of
                             None \<Rightarrow> AccessInvalid (joined (v # args)) | Some m \<Rightarrow> AccessCmd m)
             else if low \<in> set DEPRECATED_TIER_VERBS \<or> starts_with low (js ''--scope='') \<or> starts_with low (js ''--tools='')
             then Some (DeprecatedTier cleaned)
             else if starts_with low (js ''--bind='')
             then Some (if drop 7 cleaned = [] then BindMissingPrefix
                        else if args = [] then BindCmd (drop 7 cleaned) else BindInvalid)
             else None)"

subsection \<open>The context of a decision\<close>

record admission_context =
  cx_botOpenId :: "jstr option"
  cx_allowOpenIds :: "jstr list"
  cx_watermark :: int
  cx_isDuplicate :: "jstr \<Rightarrow> unit + bool"
  cx_authorization :: "auth_resolver option"
  cx_resolveAuthorization :: "auth_resolver option"
  cx_authorizationState :: "auth_answer option"
  cx_authorizationByEndpoint :: "(jstr \<times> auth_answer) list option"
  cx_authorizedEndpoints :: "jstr list option"
  cx_authorizedChats :: "jstr list option"
  cx_accessMode :: "(locus_endpoint \<Rightarrow> access_mode option) option"

definition includesValue :: "jstr list option \<Rightarrow> jstr \<Rightarrow> bool" where
  "includesValue vs v = (case vs of None \<Rightarrow> False | Some vs \<Rightarrow> v \<in> set vs)"

fun stateOf :: "auth_answer \<Rightarrow> auth_state" where
  "stateOf (State st) = st"
| "stateOf (Detailed a) = au_state a"

fun asks_initialization :: "auth_answer \<Rightarrow> bool" where
  "asks_initialization (State st) = False"
| "asks_initialization (Detailed a) = au_needsInitialization a"

text \<open>\<open>Some (state, needsInitialization)\<close> when resolved, \<open>None\<close> when the resolver failed.\<close>

type_synonym authorization_lookup = "(auth_state \<times> bool) option"

definition resolved :: "auth_answer \<Rightarrow> authorization_lookup" where
  "resolved v = Some (stateOf v, asks_initialization v)"

text \<open>
  \<open>authorizationByEndpoint?.[key]\<close> finds inherited members too; they have no state of their own, which
  \<open>stateOf\<close> reads as uninitialized.
\<close>

definition endpoint_snapshot :: "(jstr \<times> auth_answer) list option \<Rightarrow> jstr \<Rightarrow> auth_answer option" where
  "endpoint_snapshot snapshot key =
     (case snapshot of None \<Rightarrow> None
      | Some entries \<Rightarrow> (case map_of entries key of Some v \<Rightarrow> Some v
          | None \<Rightarrow> if key \<in> set inherited_members then Some (State Uninitialized) else None))"

definition lookupLocusAuthorization :: "locus_endpoint \<Rightarrow> admission_context \<Rightarrow> authorization_lookup" where
  "lookupLocusAuthorization e cx =
     (case (case cx_authorization cx of Some r \<Rightarrow> Some r | None \<Rightarrow> cx_resolveAuthorization cx) of
        Some resolver \<Rightarrow> (case resolver e of Inl _ \<Rightarrow> None | Inr v \<Rightarrow> resolved v)
      | None \<Rightarrow>
          (case endpoint_snapshot (cx_authorizationByEndpoint cx) (le_key e) of
             Some v \<Rightarrow> resolved v
           | None \<Rightarrow>
               if includesValue (cx_authorizedEndpoints cx) (le_key e) then Some (Authorized, False)
               else if includesValue (cx_authorizedChats cx) (ep_chatId e) then Some (Authorized, False)
               else (case cx_authorizationState cx of
                       Some v \<Rightarrow> resolved v | None \<Rightarrow> Some (Uninitialized, True))))"

definition resolveLocusAuthorization :: "locus_endpoint \<Rightarrow> admission_context \<Rightarrow> auth_state" where
  "resolveLocusAuthorization e cx =
     (case lookupLocusAuthorization e cx of None \<Rightarrow> Uninitialized | Some (st, _) \<Rightarrow> st)"

definition mentionsLocusBot :: "inbound_event \<Rightarrow> jstr option \<Rightarrow> bool" where
  "mentionsLocusBot ev botOpenId \<longleftrightarrow> botOpenId \<noteq> None \<and> botOpenId \<noteq> Some [] \<and>
     list_ex (\<lambda>m. mn_id m = botOpenId) (or_else (ev_mentions ev) [])"

subsection \<open>The decision\<close>

datatype admission_refusal =
  NotAMessage | MissingMessageId | InvalidEndpoint | BotSender | NotAllowedSender | NoMention | DuplicateMessage
| BeforeWatermark | UnsupportedMessageType | EmptyContent | UninitializedEndpoint | RetiredEndpoint
| AuthorizationUnresolved | ControlNotAllowed | OwnerOnlyTier | DedupUnavailable

record admission =
  am_endpoint :: locus_endpoint
  am_text :: jstr
  am_senderId :: jstr
  am_authorization :: auth_state
  am_needsInitialization :: bool
  am_command :: "control_command option"

datatype decision = Admit admission | Reject admission_refusal "locus_endpoint option" "auth_state option"

record common_input =
  ci_endpoint :: locus_endpoint
  ci_messageId :: jstr
  ci_senderId :: jstr
  ci_text :: jstr
  ci_createTime :: "jstr option"
  ci_memberQuestions :: bool

definition explicit_rebuild :: "control_command option \<Rightarrow> bool" where
  "explicit_rebuild parsed = (case parsed of Some (BindCmd _) \<Rightarrow> True | Some Help \<Rightarrow> True | _ \<Rightarrow> False)"

definition admitCommon :: "common_input \<Rightarrow> admission_context \<Rightarrow> decision" where
  "admitCommon inp cx =
     (let e = ci_endpoint inp; senderId = ci_senderId inp;
          allowlisted = (senderId \<noteq> [] \<and> senderId \<in> set (cx_allowOpenIds cx))
      in case cx_isDuplicate cx (ci_messageId inp) of
           Inl _ \<Rightarrow> Reject DedupUnavailable (Some e) None
         | Inr True \<Rightarrow> Reject DuplicateMessage (Some e) None
         | Inr False \<Rightarrow>
             if before_watermark (ci_createTime inp) (cx_watermark cx) then Reject BeforeWatermark (Some e) None
             else let text = trim (ci_text inp)
               in if text = [] then Reject EmptyContent (Some e) None
               else case lookupLocusAuthorization e cx of
                   None \<Rightarrow> Reject AuthorizationUnresolved (Some e) None
                 | Some (auth, asksInit) \<Rightarrow>
                     let parsed = parseLocusControlCommand text;
                         ownerOnly = (case cx_accessMode cx of None \<Rightarrow> False | Some f \<Rightarrow> f e = Some FullAccess);
                         canAsk = (ci_memberQuestions inp \<and> auth = Authorized \<and> \<not> ownerOnly)
                     in if parsed \<noteq> None \<and> \<not> allowlisted then Reject ControlNotAllowed (Some e) (Some auth)
                        else if auth = OutOfService \<and> \<not> (allowlisted \<and> explicit_rebuild parsed)
                        then Reject RetiredEndpoint (Some e) (Some auth)
                        else if \<not> allowlisted \<and> ownerOnly then Reject OwnerOnlyTier (Some e) (Some auth)
                        else if \<not> allowlisted \<and> \<not> canAsk then Reject NotAllowedSender (Some e) (Some auth)
                        else Admit \<lparr>am_endpoint = e, am_text = text, am_senderId = senderId, am_authorization = auth,
                               am_needsInitialization = (auth = Uninitialized \<or> auth = Unusable \<or> asksInit),
                               am_command = parsed\<rparr>)"

definition admitLocusEvent :: "inbound_event \<Rightarrow> admission_context \<Rightarrow> decision" where
  "admitLocusEvent ev cx =
     (if ev_type ev \<noteq> js ''im.message.receive_v1'' then Reject NotAMessage None None
      else case ev_message_id ev of
        None \<Rightarrow> Reject MissingMessageId None None
      | Some messageId \<Rightarrow>
          if messageId = [] then Reject MissingMessageId None None
          else case extractLocusEndpoint ev of
            Inl _ \<Rightarrow> Reject InvalidEndpoint None None
          | Inr e \<Rightarrow>
              if ev_sender_type ev \<noteq> None \<and> ev_sender_type ev \<noteq> Some (js ''user'') then Reject BotSender (Some e) None
              else let senderId = or_else (ev_sender_id ev) []
                in if senderId = [] then Reject NotAllowedSender (Some e) None
                   else if \<not> mentionsLocusBot ev (cx_botOpenId cx) then Reject NoMention (Some e) None
                   else if ev_message_type ev \<noteq> js ''text'' \<and> ev_message_type ev \<noteq> js ''post''
                   then Reject UnsupportedMessageType (Some e) None
                   else admitCommon \<lparr>ci_endpoint = e, ci_messageId = messageId, ci_senderId = senderId,
                          ci_text = or_else (ev_content ev) [], ci_createTime = ev_create_time ev,
                          ci_memberQuestions = (ev_chat_type ev = js ''group'')\<rparr> cx)"

subsection \<open>The gauntlet of the older channel: \<^verbatim>\<open>event.ts\<close>\<close>

record gauntlet_context =
  gc_allowOpenIds :: "jstr list"
  gc_botOpenId :: "jstr option"
  gc_watermark :: int
  gc_isDuplicate :: "jstr \<Rightarrow> bool"
  gc_isQaChat :: "(jstr \<Rightarrow> bool) option"

text \<open>The events of this channel were parsed before, so they carry both ids.\<close>

definition admitInboundEvent :: "inbound_event \<Rightarrow> gauntlet_context \<Rightarrow> admission_refusal + jstr" where
  "admitInboundEvent ev cx =
     (let sender = or_else (ev_sender_id ev) [];
          qaExempt = (case gc_isQaChat cx of None \<Rightarrow> False | Some f \<Rightarrow> f (or_else (ev_chat_id ev) []));
          text = trim (or_else (ev_content ev) [])
      in if ev_type ev \<noteq> js ''im.message.receive_v1'' then Inl NotAMessage
         else if ev_sender_type ev \<noteq> None \<and> ev_sender_type ev \<noteq> Some (js ''user'') then Inl BotSender
         else if sender = [] then Inl NotAllowedSender
         else if \<not> qaExempt \<and> sender \<notin> set (gc_allowOpenIds cx) then Inl NotAllowedSender
         else if ev_chat_type ev = js ''group'' \<and> \<not> mentionsLocusBot ev (gc_botOpenId cx) then Inl NoMention
         else if gc_isDuplicate cx (or_else (ev_message_id ev) []) then Inl DuplicateMessage
         else if before_watermark (ev_create_time ev) (gc_watermark cx) then Inl BeforeWatermark
         else if ev_message_type ev \<notin> {js ''text'', js ''post''} then Inl UnsupportedMessageType
         else if text = [] then Inl EmptyContent
         else Inr text)"

end
