(* ===== verification/PetAdmissionTheorems.thy ===== *)
theory PetAdmissionTheorems
  imports PetAdmission PetRepositoryTheorems
begin

text \<open>
  The properties of admission, and how it composes with the repository of entries: what a stopped or a
  full-access entry admits.
\<close>

subsection \<open>Concrete events\<close>

definition said :: "string \<Rightarrow> string \<Rightarrow> string option \<Rightarrow> inbound_event" where
  "said who text thread = \<lparr>ev_type = js ''im.message.receive_v1'', ev_message_id = Some (js ''x''), ev_chat_id = Some (js ''c''),
     ev_chat_type = js ''group'', ev_message_type = js ''text'', ev_content = Some (js text),
     ev_create_time = Some (js ''1700''), ev_sender_id = Some (js who), ev_sender_type = Some (js ''user''),
     ev_root_id = None, ev_reply_to = None, ev_thread_id = map_option js thread,
     ev_mentions = Some [\<lparr>mn_id = Some (js ''bot''), mn_key = None, mn_name = None\<rparr>]\<rparr>"

definition owned_by :: "repository \<Rightarrow> admission_context" where
  "owned_by rp = \<lparr>cx_botOpenId = Some (js ''bot''), cx_allowOpenIds = [js ''owner''], cx_watermark = 1000,
     cx_isDuplicate = (\<lambda>_. Inr False),
     cx_authorization = Some (createDurableLocusAuthorizationResolver rp None), cx_resolveAuthorization = None,
     cx_authorizationState = None, cx_authorizationByEndpoint = None, cx_authorizedEndpoints = None,
     cx_authorizedChats = None, cx_accessMode = Some (durable_accessMode rp)\<rparr>"

definition admitted :: "decision \<Rightarrow> bool" where
  "admitted d = (case d of Admit _ \<Rightarrow> True | Reject _ _ _ \<Rightarrow> False)"

lemma admittedD: "admitted d \<Longrightarrow> \<exists>a. d = Admit a"
  by (cases d) (simp_all add: admitted_def)

subsection \<open>The shape of an admission\<close>

text \<open>Everything the common rules checked before they admitted a message.\<close>

lemma admitCommon_Admit:
  assumes "admitCommon inp cx = Admit a"
  obtains auth asks where "am_endpoint a = ci_endpoint inp" "am_senderId a = ci_senderId inp"
    "am_text a = trim (ci_text inp)" "am_text a \<noteq> []" "am_command a = parseLocusControlCommand (am_text a)"
    "lookupLocusAuthorization (am_endpoint a) cx = Some (auth, asks)" "am_authorization a = auth"
    "cx_isDuplicate cx (ci_messageId inp) = Inr False" "\<not> before_watermark (ci_createTime inp) (cx_watermark cx)"
    "am_command a = None \<or> am_senderId a \<in> set (cx_allowOpenIds cx)"
    "auth \<noteq> OutOfService \<or> am_senderId a \<in> set (cx_allowOpenIds cx) \<and> explicit_rebuild (am_command a)"
    "am_senderId a \<in> set (cx_allowOpenIds cx) \<or> ci_memberQuestions inp \<and> auth = Authorized \<and>
       (case cx_accessMode cx of None \<Rightarrow> True | Some f \<Rightarrow> f (am_endpoint a) \<noteq> Some FullAccess)"
    "am_needsInitialization a \<longleftrightarrow> auth = Uninitialized \<or> auth = Unusable \<or> asks"
  using assms unfolding admitCommon_def Let_def
  by (auto split: sum.splits bool.splits if_splits option.splits)

lemma admitLocusEvent_Admit:
  assumes "admitLocusEvent ev cx = Admit a"
  obtains mid where "ev_message_id ev = Some mid" "extractLocusEndpoint ev = Inr (am_endpoint a)"
    "ev_sender_id ev = Some (am_senderId a)" "am_senderId a \<noteq> []" "mentionsLocusBot ev (cx_botOpenId cx)"
    "admitCommon \<lparr>ci_endpoint = am_endpoint a, ci_messageId = mid, ci_senderId = am_senderId a,
       ci_text = or_else (ev_content ev) [], ci_createTime = ev_create_time ev,
       ci_memberQuestions = (ev_chat_type ev = js ''group'')\<rparr> cx = Admit a"
proof -
  from assms obtain mid e where "ev_message_id ev = Some mid" "extractLocusEndpoint ev = Inr e"
    "or_else (ev_sender_id ev) [] \<noteq> []" "mentionsLocusBot ev (cx_botOpenId cx)"
    and c: "admitCommon \<lparr>ci_endpoint = e, ci_messageId = mid, ci_senderId = or_else (ev_sender_id ev) [],
       ci_text = or_else (ev_content ev) [], ci_createTime = ev_create_time ev,
       ci_memberQuestions = (ev_chat_type ev = js ''group'')\<rparr> cx = Admit a"
    unfolding admitLocusEvent_def Let_def by (auto split: if_splits option.splits sum.splits)
  moreover from c have "e = am_endpoint a" "or_else (ev_sender_id ev) [] = am_senderId a"
    by (auto elim: admitCommon_Admit)
  ultimately show thesis using that [of mid] by (cases "ev_sender_id ev") auto
qed

subsection \<open>Who is admitted\<close>

text \<open>
  An admitted event mentions this bot, is no duplicate, is addressed by its own ids, and its text is
  parsed: text that reads as a control command is admitted as that command and only from a sender of the
  allowlist, never as ordinary work.
\<close>

theorem commands_need_the_allowlist:
  assumes "admitLocusEvent ev cx = Admit a"
  shows "am_command a = parseLocusControlCommand (am_text a) \<and>
    (am_command a = None \<or> am_senderId a \<in> set (cx_allowOpenIds cx)) \<and>
    mentionsLocusBot ev (cx_botOpenId cx) \<and> ev_sender_id ev = Some (am_senderId a) \<and> am_text a \<noteq> [] \<and>
    extractLocusEndpoint ev = Inr (am_endpoint a) \<and>
    (\<exists>mid. ev_message_id ev = Some mid \<and> cx_isDuplicate cx mid = Inr False)"
proof -
  from assms obtain mid where ev: "ev_message_id ev = Some mid" "extractLocusEndpoint ev = Inr (am_endpoint a)"
    "ev_sender_id ev = Some (am_senderId a)" "mentionsLocusBot ev (cx_botOpenId cx)"
    and c: "admitCommon \<lparr>ci_endpoint = am_endpoint a, ci_messageId = mid, ci_senderId = am_senderId a,
       ci_text = or_else (ev_content ev) [], ci_createTime = ev_create_time ev,
       ci_memberQuestions = (ev_chat_type ev = js ''group'')\<rparr> cx = Admit a"
    by (rule admitLocusEvent_Admit)
  from c show ?thesis
    by (rule admitCommon_Admit) (use ev in auto)
qed

lemma owner_admitted:
  "admitted (admitLocusEvent (said ''owner'' ''@bot /Access full'' None) (owned_by rp5))"
  "admitted (admitLocusEvent (said ''guest'' ''@bot hello'' None) (owned_by rp5))"
  by code_simp+

theorem commands_need_the_allowlist_witness:
  "\<exists>a. admitLocusEvent (said ''owner'' ''@bot /Access full'' None) (owned_by rp5) = Admit a \<and>
     am_command a = parseLocusControlCommand (am_text a)"
proof -
  from owner_admitted(1) obtain a where
    a: "admitLocusEvent (said ''owner'' ''@bot /Access full'' None) (owned_by rp5) = Admit a"
    using admittedD by blast
  from commands_need_the_allowlist [OF a] a show ?thesis by blast
qed

text \<open>
  A sender outside the allowlist is admitted only with an ordinary question, only in a group chat,
  only while the endpoint is authorized, and never on an entry with full access.
\<close>

theorem strangers_only_ask_in_authorized_groups:
  assumes "admitLocusEvent ev cx = Admit a" and "am_senderId a \<notin> set (cx_allowOpenIds cx)"
  shows "am_command a = None \<and> ev_chat_type ev = js ''group'' \<and> resolveLocusAuthorization (am_endpoint a) cx = Authorized \<and>
    am_authorization a = Authorized \<and>
    (case cx_accessMode cx of None \<Rightarrow> True | Some f \<Rightarrow> f (am_endpoint a) \<noteq> Some FullAccess)"
proof -
  from assms(1) obtain mid where
    c: "admitCommon \<lparr>ci_endpoint = am_endpoint a, ci_messageId = mid, ci_senderId = am_senderId a,
       ci_text = or_else (ev_content ev) [], ci_createTime = ev_create_time ev,
       ci_memberQuestions = (ev_chat_type ev = js ''group'')\<rparr> cx = Admit a"
    by (rule admitLocusEvent_Admit)
  from c show ?thesis
    by (rule admitCommon_Admit) (use assms(2) in \<open>auto simp: resolveLocusAuthorization_def\<close>)
qed

theorem strangers_only_ask_in_authorized_groups_witness:
  "\<exists>a. admitLocusEvent (said ''guest'' ''@bot hello'' None) (owned_by rp5) = Admit a \<and> am_authorization a = Authorized"
proof -
  from owner_admitted(2) obtain a where a: "admitLocusEvent (said ''guest'' ''@bot hello'' None) (owned_by rp5) = Admit a"
    using admittedD by blast
  have "ev_sender_id (said ''guest'' ''@bot hello'' None) = Some (am_senderId a)"
    using a by (rule admitLocusEvent_Admit)
  then have "am_senderId a \<notin> set (cx_allowOpenIds (owned_by rp5))" by (auto simp: said_def owned_by_def js_def)
  from strangers_only_ask_in_authorized_groups [OF a this] a show ?thesis by blast
qed

subsection \<open>Stopped and full-access entries\<close>

text \<open>What a write of one row leaves at the endpoint of the row.\<close>

lemma written_row:
  assumes run: "mutate commits body rp = (Inr r, rp')" and ok: "repo_ok rp"
    and put: "\<And>x sg. body (stage rp) = Inr (x, sg) \<Longrightarrow> put_row (endpointKeyV20 (rw_endpoint x)) x (stage rp) = Inr sg"
    and e: "ep_chatId e = ep_chatId (rw_endpoint r)" "ep_threadId e = ep_threadId (rw_endpoint r)"
  shows "getRow rp' e = Some r"
proof -
  have wf: "wf_tables (rp_tables rp)" using ok by (simp add: repo_ok_def)
  obtain sg where b: "body (stage rp) = Inr (r, sg)" and v: "map_of (loci_of rp') = staged_get tb_loci sg"
    by (rule mutate_view [OF run wf])
      (use put put_row_effect(6,7) wf in \<open>force simp: stage_domain\<close>)+
  have "endpointKeyV20 e = endpointKeyV20 (rw_endpoint r)"
    by (simp add: endpointKeyV20_def e cong: option.case_cong)
  then show ?thesis unfolding getRow_def v put_row_effect(2) [OF put [OF b]] by simp
qed

text \<open>
  Once an entry was stopped, its endpoint admits nothing but an explicit bind or a help request of an
  allowlisted sender, whatever the message and whatever the other facts of the context are.
\<close>

theorem a_stopped_entry_admits_only_bind_and_help:
  assumes stop: "mutate commits (stopRow (rp_accessChanging rp) fence now) rp = (Inr r, rp')" and ok: "repo_ok rp"
    and cx: "cx_authorization cx = Some (createDurableLocusAuthorizationResolver rp' archived)"
    and run: "admitLocusEvent ev cx = Admit a"
    and e: "ep_chatId (am_endpoint a) = ep_chatId (rw_endpoint r)" "ep_threadId (am_endpoint a) = ep_threadId (rw_endpoint r)"
  shows "rw_state r = Stopped \<and> am_senderId a \<in> set (cx_allowOpenIds cx) \<and> explicit_rebuild (am_command a)"
proof -
  have put: "put_row (endpointKeyV20 (rw_endpoint x)) x (stage rp) = Inr sg \<and> rw_state x = Stopped"
    if "stopRow (rp_accessChanging rp) fence now (stage rp) = Inr (x, sg)" for x sg
    using that unfolding stopRow_def by (auto simp: ok_iff)
  have row: "getRow rp' (am_endpoint a) = Some r"
    by (rule written_row [OF stop ok _ e]) (use put in blast)
  have st: "rw_state r = Stopped"
    using stop put by (auto simp: mutate_def split: sum.splits prod.splits)
  have l: "lookupLocusAuthorization (am_endpoint a) cx = Some (OutOfService, False)"
    by (simp add: lookupLocusAuthorization_def cx createDurableLocusAuthorizationResolver_def row classify_def st resolved_def)
  from run obtain mid where
    c: "admitCommon \<lparr>ci_endpoint = am_endpoint a, ci_messageId = mid, ci_senderId = am_senderId a,
       ci_text = or_else (ev_content ev) [], ci_createTime = ev_create_time ev,
       ci_memberQuestions = (ev_chat_type ev = js ''group'')\<rparr> cx = Admit a"
    by (rule admitLocusEvent_Admit)
  from c show ?thesis by (rule admitCommon_Admit) (use l st in auto)
qed

definition fence_of_g :: "repository \<Rightarrow> fence" where
  "fence_of_g rp = \<lparr>fe_expectedLocusId = js ''g'', fe_expectedRevision = 0\<rparr>"

definition rp_stopped :: repository where
  "rp_stopped = snd (mutate True (stopRow (rp_accessChanging rp2) (fence_of_g rp2) 30) rp2)"

lemma rp2_ok: "repo_ok rp2"
  using repo.run_inv [OF _ fresh_ok, of True rp2] demo_run(1,2)
  by (meson r_into_rtranclp rtranclp.rtrancl_into_rtrancl)

theorem a_stopped_entry_admits_only_bind_and_help_witness:
  "\<exists>a. admitLocusEvent (said ''owner'' ''@bot /bind session'' None) (owned_by rp_stopped) = Admit a \<and>
     explicit_rebuild (am_command a)"
proof -
  have "\<not> isl (fst (mutate True (stopRow (rp_accessChanging rp2) (fence_of_g rp2) 30) rp2))" by code_simp
  then obtain r where r: "mutate True (stopRow (rp_accessChanging rp2) (fence_of_g rp2) 30) rp2 = (Inr r, rp_stopped)"
    unfolding rp_stopped_def using answered by metis
  have "fst (mutate True (stopRow (rp_accessChanging rp2) (fence_of_g rp2) 30) rp2) =
      Inr ((the_entry None ''g'')\<lparr>rw_state := Stopped, rw_stoppedAt := Some 30, rw_revision := 1, rw_updatedAt := 30\<rparr>)"
    by code_simp
  with r have e: "rw_endpoint r = \<lparr>ep_chatId = js ''c'', ep_threadId = None\<rparr>" by (simp add: the_entry_def)
  have "admitted (admitLocusEvent (said ''owner'' ''@bot /bind session'' None) (owned_by rp_stopped))" by code_simp
  then obtain a where a: "admitLocusEvent (said ''owner'' ''@bot /bind session'' None) (owned_by rp_stopped) = Admit a"
    using admittedD by blast
  have "extractLocusEndpoint (said ''owner'' ''@bot /bind session'' None) = Inr (am_endpoint a)"
    using a by (rule admitLocusEvent_Admit)
  moreover have "extractLocusEndpoint (said ''owner'' ''@bot /bind session'' None) =
      Inr \<lparr>ep_chatId = js ''c'', ep_threadId = None, le_key = js ''c''\<rparr>" by code_simp
  ultimately have "am_endpoint a = \<lparr>ep_chatId = js ''c'', ep_threadId = None, le_key = js ''c''\<rparr>" by simp
  then have "ep_chatId (am_endpoint a) = ep_chatId (rw_endpoint r)"
    "ep_threadId (am_endpoint a) = ep_threadId (rw_endpoint r)" by (simp_all add: e)
  from a_stopped_entry_admits_only_bind_and_help [OF r rp2_ok _ a this] a show ?thesis
    by (auto simp: owned_by_def)
qed

subsection \<open>Addresses\<close>

lemma normalizeId_Some:
  "normalizeId v = Some t \<longleftrightarrow> v = Some t \<and> idPart t \<and> trim t = t \<and> \<not> list_ex js_space t"
  by (auto simp: normalizeId_def idPart_def filled_def split: option.splits)

lemma extracted:
  assumes "extractLocusEndpoint ev = Inr e"
  shows "idPart (ep_chatId e)" "optional idPart (ep_threadId e)" "le_key e = locusEndpointKey (ep_chatId e) (ep_threadId e)"
proof -
  from assms obtain c where c: "normalizeId (ev_chat_id ev) = Some c"
    and e: "e = \<lparr>ep_chatId = c, ep_threadId = normalizeId (ev_thread_id ev),
      le_key = locusEndpointKey c (normalizeId (ev_thread_id ev))\<rparr>"
    unfolding extractLocusEndpoint_def Let_def by (auto split: option.splits if_splits)
  show "idPart (ep_chatId e)" using c by (simp add: e normalizeId_Some)
  show "optional idPart (ep_threadId e)"
    using normalizeId_Some [of "ev_thread_id ev", THEN iffD1]
    by (cases "normalizeId (ev_thread_id ev)") (simp_all add: e)
  show "le_key e = locusEndpointKey (ep_chatId e) (ep_threadId e)" by (simp add: e)
qed

lemma separated:
  assumes "\<not> containsStorageKeySeparator a" "\<not> containsStorageKeySeparator b"
  shows "a @ [STORAGE_KEY_SEPARATOR] @ s = b @ [STORAGE_KEY_SEPARATOR] @ t \<longleftrightarrow> a = b \<and> s = t"
    and "a \<noteq> b @ [STORAGE_KEY_SEPARATOR] @ t"
proof -
  show "a @ [STORAGE_KEY_SEPARATOR] @ s = b @ [STORAGE_KEY_SEPARATOR] @ t \<longleftrightarrow> a = b \<and> s = t"
    using assms
  proof (induction a arbitrary: b)
    case Nil
    then show ?case by (cases b) (auto simp: containsStorageKeySeparator_def)
  next
    case (Cons x a)
    then show ?case by (cases b) (auto simp: containsStorageKeySeparator_def)
  qed
  show "a \<noteq> b @ [STORAGE_KEY_SEPARATOR] @ t" using assms by (auto simp: containsStorageKeySeparator_def)
qed

text \<open>
  The address of an event satisfies the schema of stored endpoints, its key is the key of the table of
  entries, and no two different addresses share a key: what a platform id contains cannot lead a message
  to another entry.
\<close>

theorem addresses_never_collide:
  assumes "extractLocusEndpoint ev = Inr e" and "extractLocusEndpoint ev' = Inr e'"
  shows "petLocusEndpoint e \<and> le_key e = endpointKeyV20 e \<and>
    (le_key e = le_key e' \<longleftrightarrow> ep_chatId e = ep_chatId e' \<and> ep_threadId e = ep_threadId e')"
proof -
  note x = extracted [OF assms(1)] extracted [OF assms(2)]
  have "\<not> containsStorageKeySeparator (ep_chatId e)" "\<not> containsStorageKeySeparator (ep_chatId e')"
    using x by (simp_all add: idPart_def)
  from separated(1) [OF this] separated(2) [OF this] separated(2) [OF this(2,1)] separated(2) [OF this, THEN not_sym]
    separated(2) [OF this(2,1), THEN not_sym]
  have "le_key e = le_key e' \<longleftrightarrow> ep_chatId e = ep_chatId e' \<and> ep_threadId e = ep_threadId e'"
    unfolding x(3,6) locusEndpointKey_def by (cases "ep_threadId e"; cases "ep_threadId e'") auto
  then show ?thesis using x by (simp add: petLocusEndpoint_def locusEndpointKey_def endpointKeyV20_def)
qed

theorem addresses_never_collide_witness:
  "\<exists>e e'. extractLocusEndpoint (said ''u'' ''hi'' (Some ''t'')) = Inr e \<and>
     extractLocusEndpoint (said ''u'' ''hi'' None) = Inr e' \<and> le_key e \<noteq> le_key e'"
proof -
  have e: "extractLocusEndpoint (said ''u'' ''hi'' (Some ''t'')) =
      Inr \<lparr>ep_chatId = js ''c'', ep_threadId = Some (js ''t''), le_key = js ''c'' @ [31] @ js ''t''\<rparr>" by code_simp
  have e': "extractLocusEndpoint (said ''u'' ''hi'' None) =
      Inr \<lparr>ep_chatId = js ''c'', ep_threadId = None, le_key = js ''c''\<rparr>" by code_simp
  from addresses_never_collide [OF e e'] e e' show ?thesis by auto
qed

subsection \<open>Duplicates\<close>

text \<open>The answers of a run of checks, and of a reference that forgets nothing.\<close>

fun dedup_run :: "int \<Rightarrow> (jstr \<times> int) list \<Rightarrow> (jstr \<times> int) list \<Rightarrow> bool list" where
  "dedup_run w seen [] = []"
| "dedup_run w seen ((i, now) # rest) =
     (let (dup, seen') = dedup_check w i now seen in dup # dedup_run w seen' rest)"

fun dedup_reference :: "int \<Rightarrow> (jstr \<times> int) list \<Rightarrow> (jstr \<times> int) list \<Rightarrow> bool list" where
  "dedup_reference w taken [] = []"
| "dedup_reference w taken ((i, now) # rest) =
     (let dup = list_ex (\<lambda>(j, at). j = i \<and> now - at \<le> w) taken
      in dup # dedup_reference w (if dup then taken else (i, now) # taken) rest)"

definition remembers :: "int \<Rightarrow> int \<Rightarrow> (jstr \<times> int) list \<Rightarrow> (jstr \<times> int) list \<Rightarrow> bool" where
  "remembers w now taken seen \<longleftrightarrow> distinct (keys seen) \<and> set seen \<subseteq> set taken \<and>
     (\<forall>(i, at) \<in> set taken. (i, at) \<in> set seen \<or> w < now - at)"

lemma dedup_step:
  assumes r: "remembers w past taken seen" and "past \<le> now" and c: "dedup_check w i now seen = (dup, seen')"
  shows "dup \<longleftrightarrow> list_ex (\<lambda>(j, at). j = i \<and> now - at \<le> w) taken"
    "remembers w now (if dup then taken else (i, now) # taken) seen'"
proof -
  let ?kept = "filter (\<lambda>(_, at). now - at \<le> w) seen"
  have kept: "(j, at) \<in> set ?kept \<longleftrightarrow> (j, at) \<in> set taken \<and> now - at \<le> w" for j at
    using r \<open>past \<le> now\<close> unfolding remembers_def by fastforce
  have d: "distinct (keys ?kept)" using r unfolding remembers_def by (auto intro: distinct_map_filter)
  have h: "has ?kept i \<longleftrightarrow> (\<exists>at. (i, at) \<in> set ?kept)"
    by (simp only: has_def map_of_eq_None_iff image_iff) force
  have dup: "dup \<longleftrightarrow> has ?kept i" and s: "seen' = (if dup then ?kept else AList.update i now ?kept)"
    using c by (auto simp: dedup_check_def Let_def split: if_splits)
  show "dup \<longleftrightarrow> list_ex (\<lambda>(j, at). j = i \<and> now - at \<le> w) taken"
    unfolding dup h kept by (auto simp: list_ex_iff)
  have "set (AList.update i now ?kept) = insert (i, now) (set ?kept)" if "\<not> has ?kept i"
    using that by (simp add: update_new del: filter.simps)
  then show "remembers w now (if dup then taken else (i, now) # taken) seen'"
    using d dup by (auto simp: remembers_def s kept simp del: set_filter)
qed

lemma dedup_refines:
  "remembers w past taken seen \<Longrightarrow> sorted (map snd es) \<Longrightarrow> \<forall>(i, at) \<in> set es. past \<le> at \<Longrightarrow>
     dedup_run w seen es = dedup_reference w taken es"
proof (induction es arbitrary: past taken seen)
  case (Cons e es)
  obtain i now where e: "e = (i, now)" by (cases e)
  obtain dup seen' where c: "dedup_check w i now seen = (dup, seen')" by (cases "dedup_check w i now seen")
  have "past \<le> now" using Cons.prems(3) by (simp add: e)
  note st = dedup_step [OF Cons.prems(1) this c]
  have "\<forall>(j, at) \<in> set es. now \<le> at" "sorted (map snd es)" using Cons.prems(2) by (auto simp: e)
  from Cons.IH [OF st(2) this(2,1)] st(1) show ?case by (simp add: e c Let_def)
qed simp

lemma reference_far_apart:
  "i < length es \<Longrightarrow> \<not> dedup_reference w taken es ! i \<Longrightarrow> (fst (es ! i), at) \<in> set taken \<Longrightarrow> w < snd (es ! i) - at"
proof (induction es arbitrary: i taken)
  case (Cons e es)
  obtain j now where e: "e = (j, now)" by (cases e)
  show ?case
  proof (cases i)
    case 0
    then show ?thesis using Cons.prems by (auto simp: e list_ex_iff Let_def not_le)
  next
    case (Suc k)
    let ?taken = "if list_ex (\<lambda>(j', at). j' = j \<and> now - at \<le> w) taken then taken else (j, now) # taken"
    have "(fst (es ! k), at) \<in> set ?taken" using Cons.prems(3) by (simp add: Suc)
    then show ?thesis using Cons.IH [of k ?taken] Cons.prems by (simp add: e Suc Let_def)
  qed
qed simp

lemma reference_takes:
  "i < j \<Longrightarrow> j < length es \<Longrightarrow> \<not> dedup_reference w taken es ! i \<Longrightarrow> \<not> dedup_reference w taken es ! j \<Longrightarrow>
     fst (es ! i) = fst (es ! j) \<Longrightarrow> w < snd (es ! j) - snd (es ! i)"
proof (induction es arbitrary: i j taken)
  case (Cons e es)
  obtain m now where e: "e = (m, now)" by (cases e)
  obtain k where k: "j = Suc k" using Cons.prems(1) by (cases j) auto
  let ?taken = "if list_ex (\<lambda>(j', at). j' = m \<and> now - at \<le> w) taken then taken else (m, now) # taken"
  show ?case
  proof (cases i)
    case 0
    with Cons.prems(3) have "?taken = (m, now) # taken" by (auto simp: e Let_def)
    then show ?thesis
      using reference_far_apart [of k es w "(m, now) # taken" now] Cons.prems by (simp add: e k 0 Let_def)
  next
    case (Suc l)
    then show ?thesis using Cons.IH [of l k ?taken] Cons.prems by (simp add: e k Let_def)
  qed
qed simp

text \<open>
  As long as the clock does not run backwards, the bounded map of message ids answers like a record of
  every id ever taken: an id is a duplicate exactly when it was taken at most one window ago. So two
  deliveries of one message that are both taken are more than a window apart.
\<close>

theorem bounded_dedup_forgets_nothing_in_the_window:
  assumes "sorted (map snd es)"
  shows "dedup_run w [] es = dedup_reference w [] es \<and>
    (i < j \<and> j < length es \<and> \<not> dedup_run w [] es ! i \<and> \<not> dedup_run w [] es ! j \<and> fst (es ! i) = fst (es ! j)
       \<longrightarrow> w < snd (es ! j) - snd (es ! i))"
proof -
  have "\<forall>(i, at) \<in> set es. Min (insert 0 (set (map snd es))) \<le> at" by (force intro: Min_le)
  from dedup_refines [OF _ assms this] have "dedup_run w [] es = dedup_reference w [] es"
    by (simp add: remembers_def)
  then show ?thesis using reference_takes [of i j es w "[]"] by simp
qed

theorem bounded_dedup_forgets_nothing_in_the_window_witness:
  "dedup_run 10 [] [(js ''a'', 0), (js ''a'', 5), (js ''a'', 11)] = [False, True, False]"
proof -
  have "sorted (map snd [(js ''a'', 0), (js ''a'', 5), (js ''a'', 11 :: int)])" by simp
  from bounded_dedup_forgets_nothing_in_the_window [OF this, of 10 0 2] show ?thesis by (simp add: Let_def)
qed

subsection \<open>The argument of an access command\<close>

text \<open>A word in lower case is no name with a capital letter.\<close>

definition capital :: "jstr \<Rightarrow> bool" where
  "capital s = list_ex (\<lambda>u. 65 \<le> u \<and> u \<le> 90) s"

lemma inherited_small: "lower t \<in> set inherited_members \<longleftrightarrow> lower t = js ''constructor'' \<or> lower t = js ''__proto__''"
proof -
  have low: "\<not> capital (lower t)" by (auto simp: capital_def lower_def list_ex_iff)
  have "list_all (\<lambda>s. capital s \<or> s = js ''constructor'' \<or> s = js ''__proto__'') inherited_members" by code_simp
  then have "lower t = js ''constructor'' \<or> lower t = js ''__proto__''" if "lower t \<in> set inherited_members"
    using that low by (auto simp: list_all_iff)
  then show ?thesis by (auto simp: inherited_members_def)
qed

text \<open>
  The one access command that parses to a mode names \<open>read\<close> or \<open>full\<close>, in any case. But two other
  words parse as well-formed access commands too, \<open>constructor\<close> and \<open>__proto__\<close>: the lookup finds the
  members that the table of modes inherits.
\<close>

theorem access_modes_and_inherited_members:
  assumes "withoutLeadingMentions text = [verb, value]" and "lower verb \<in> set (verbsOf AccessId)"
  shows "parseLocusControlCommand text = Some (
    if lower value = js ''read'' then AccessCmd (Mode ReadOnly)
    else if lower value = js ''full'' then AccessCmd (Mode FullAccess)
    else if lower value = js ''constructor'' \<or> lower value = js ''__proto__'' then AccessCmd (Inherited (lower value))
    else AccessInvalid value)"
proof -
  have "lower verb \<notin> set (verbsOf HelpId)" "lower verb \<notin> set (verbsOf UnbindId)" "lower verb \<notin> set (verbsOf BindId)"
    using assms(2) by (auto simp: verbsOf_def LOCUS_COMMAND_TABLE_def js_def)
  then show ?thesis
    using assms by (simp add: parseLocusControlCommand_def Let_def ACCESS_COMMAND_MODES_def inherited_small)
qed

theorem access_modes_and_inherited_members_witness:
  "parseLocusControlCommand (js ''@bot /Access  Full'') = Some (AccessCmd (Mode FullAccess)) \<and>
   parseLocusControlCommand (js ''/access constructor'') = Some (AccessCmd (Inherited (js ''constructor'')))"
proof -
  have w: "withoutLeadingMentions (js ''@bot /Access  Full'') = [js ''/Access'', js ''Full'']"
    "withoutLeadingMentions (js ''/access constructor'') = [js ''/access'', js ''constructor'']"
    "lower (js ''/Access'') \<in> set (verbsOf AccessId)" "lower (js ''/access'') \<in> set (verbsOf AccessId)"
    by code_simp+
  have v: "lower (js ''Full'') = js ''full''" "lower (js ''constructor'') = js ''constructor''" by code_simp+
  have n: "js ''full'' \<noteq> js ''read''" "js ''constructor'' \<noteq> js ''read''" "js ''constructor'' \<noteq> js ''full''" by code_simp+
  show ?thesis
    using access_modes_and_inherited_members [OF w(1,3)] access_modes_and_inherited_members [OF w(2,4)] n
    by (simp add: v)
qed

end
