(* ===== verification/PetStartup.thy ===== *)
theory PetStartup
  imports PetDelivery
begin

text \<open>
  What a restarted host can prove about an interrupted delivery from the log of its child session:
  \<^verbatim>\<open>packages/dsh-pet/src/host/locus/startup-recovery.ts\<close>. A logged event is an \<open>unknown\<close>, so it is a
  \<^typ>\<open>json\<close> value (\<open>JAlien\<close> counts as a value that is no object). The closers that the session library
  appends to a log that stopped in a turn (\<open>interruptedTurnClosers\<close>) and the query that reads a log are
  arguments.
\<close>

subsection \<open>Untyped values\<close>

fun is_object :: "json \<Rightarrow> bool" where
  "is_object (JObj kvs) = True"
| "is_object (JArr xs) = True"
| "is_object _ = False"

text \<open>\<open>v[k]\<close> of an object, for a key that is no index\<close>

fun field_of :: "json \<Rightarrow> string \<Rightarrow> json" where
  "field_of (JObj kvs) k = or_else (map_of kvs (js k)) JUndefined"
| "field_of _ k = JUndefined"

text \<open>\<open>recordOf(v)?.[k]\<close>\<close>

definition record_field :: "json \<Rightarrow> string \<Rightarrow> json" where
  "record_field v k = (if is_object v then field_of v k else JUndefined)"

fun positiveTurn :: "json \<Rightarrow> int option" where
  "positiveTurn (JNum n) = (if safe_integer n \<and> 1 \<le> n then Some n else None)"
| "positiveTurn _ = None"

fun nonNegativeInteger :: "json \<Rightarrow> nat option" where
  "nonNegativeInteger (JNum n) = (if safe_integer n \<and> 0 \<le> n then Some (nat n) else None)"
| "nonNegativeInteger _ = None"

text \<open>A loop over events that may return \<open>undefined\<close> from its body.\<close>

fun scan :: "('a \<Rightarrow> 's \<Rightarrow> 's option) \<Rightarrow> 'a list \<Rightarrow> 's \<Rightarrow> 's option" where
  "scan f [] s = Some s"
| "scan f (x # xs) s = (case f x s of None \<Rightarrow> None | Some t \<Rightarrow> scan f xs t)"

text \<open>The \<open>session: unknown\<close> of the proofs: not a session, one whose snapshot throws, or a snapshot.\<close>

datatype session = NoSession | SnapshotThrows | Snapshot json

definition snapshotEvents :: "session \<Rightarrow> json list option" where
  "snapshotEvents s = (case s of Snapshot (JArr events) \<Rightarrow> Some events | _ \<Rightarrow> None)"

subsection \<open>The proofs\<close>

datatype startup_proof =
  RunningProof jstr jstr jstr
| UnconsumedProof jstr jstr
| InterruptedProof jstr jstr jstr

definition turn_id :: "delivery_record \<Rightarrow> int \<Rightarrow> jstr" where
  "turn_id d turn = co_sessionId d @ js ''#'' @ number_text turn"

text \<open>The loop of \<open>proveLiveStartupDelivery\<close>, with \<open>openTurn\<close> and \<open>exactMessages\<close>.\<close>

definition live_event :: "jstr \<Rightarrow> json \<Rightarrow> int option \<times> nat \<Rightarrow> (int option \<times> nat) option" where
  "live_event inbox event state =
     (case state of (openTurn, exactMessages) \<Rightarrow>
      if \<not> is_object event then None
      else if field_of event ''type'' = JStr (js ''turn/start'')
      then (case positiveTurn (record_field (field_of event ''data'') ''turn'') of
              None \<Rightarrow> None
            | Some turn \<Rightarrow> if openTurn \<noteq> None then None else Some (Some turn, 0))
      else if field_of event ''type'' = JStr (js ''turn/end'')
      then (case positiveTurn (record_field (field_of event ''data'') ''turn'') of
              None \<Rightarrow> None
            | Some turn \<Rightarrow> if openTurn \<noteq> Some turn then None else Some (None, 0))
      else if field_of event ''type'' = JStr (js ''user/message'') \<and> openTurn \<noteq> None
              \<and> record_field (field_of event ''data'') ''id'' = JStr inbox
      then Some (openTurn, Suc exactMessages)
      else Some (openTurn, exactMessages))"

definition proveLiveStartupDelivery :: "delivery_record \<Rightarrow> session \<Rightarrow> startup_proof option" where
  "proveLiveStartupDelivery d session =
     (case (dl_executionId d, dl_inboxMessageId d, snapshotEvents session) of
        (Some ex, Some inbox, Some events) \<Rightarrow>
          (case scan (live_event inbox) events (None, 0) of
             Some (Some turn, exactMessages) \<Rightarrow>
               if exactMessages \<noteq> 1 then None
               else if dl_turnId d \<noteq> None \<and> dl_turnId d \<noteq> Some (turn_id d turn) then None
               else Some (RunningProof (dl_deliveryId d) ex (turn_id d turn))
           | _ \<Rightarrow> None)
      | _ \<Rightarrow> None)"

text \<open>The loop of \<open>proveUnconsumedStartupDelivery\<close>, with the queue that the inbox events maintain.\<close>

record inbox_scan =
  ib_openTurn :: bool
  ib_enteredTurn :: bool
  ib_queued :: "json list"

text \<open>\<open>queued.splice(start, removed, ...inserted)\<close>\<close>

definition splice :: "nat \<Rightarrow> nat \<Rightarrow> 'a list \<Rightarrow> 'a list \<Rightarrow> 'a list" where
  "splice start removed inserted queued = take start queued @ inserted @ drop (start + removed) queued"

definition count_field :: "json \<Rightarrow> string \<Rightarrow> nat option" where
  "count_field data k = (if field_of data k = JUndefined then Some 0 else nonNegativeInteger (field_of data k))"

definition inserted_field :: "json \<Rightarrow> json list option" where
  "inserted_field data =
     (case field_of data ''inserted'' of JUndefined \<Rightarrow> Some [] | JArr xs \<Rightarrow> Some xs | _ \<Rightarrow> None)"

definition inbox_splice :: "json \<Rightarrow> inbox_scan \<Rightarrow> inbox_scan option" where
  "inbox_splice data s =
     (case (count_field data ''start'', count_field data ''removedCount'', inserted_field data) of
        (Some start, Some removed, Some inserted) \<Rightarrow>
          if length (ib_queued s) < start then None
          else if list_ex (\<lambda>item. \<not> is_object item) inserted then None
          else Some (s\<lparr>ib_queued := splice start removed inserted (ib_queued s)\<rparr>)
      | _ \<Rightarrow> None)"

definition inbox_event :: "jstr \<Rightarrow> json \<Rightarrow> inbox_scan \<Rightarrow> inbox_scan option" where
  "inbox_event inbox event s =
     (if \<not> is_object event then None
      else if field_of event ''type'' = JStr (js ''turn/start'') then Some (s\<lparr>ib_openTurn := True\<rparr>)
      else if field_of event ''type'' = JStr (js ''turn/end'') then Some (s\<lparr>ib_openTurn := False\<rparr>)
      else if field_of event ''type'' = JStr (js ''user/message'')
      then Some (if ib_openTurn s \<and> record_field (field_of event ''data'') ''id'' = JStr inbox
                 then s\<lparr>ib_enteredTurn := True\<rparr> else s)
      else if field_of event ''type'' \<noteq> JStr (js ''agent/inbox/spliced'')
              \<or> record_field (field_of event ''data'') ''target'' \<noteq> JStr (js ''next-turn'') then Some s
      else inbox_splice (field_of event ''data'') s)"

definition proveUnconsumedStartupDelivery :: "delivery_record \<Rightarrow> session \<Rightarrow> startup_proof option" where
  "proveUnconsumedStartupDelivery d session =
     (case (dl_executionId d, dl_inboxMessageId d, snapshotEvents session) of
        (Some ex, Some inbox, Some events) \<Rightarrow>
          if events = [] then None
          else (case scan (inbox_event inbox) events
                       \<lparr>ib_openTurn = False, ib_enteredTurn = False, ib_queued = []\<rparr> of
                  None \<Rightarrow> None
                | Some s \<Rightarrow>
                    if ib_openTurn s \<or> ib_enteredTurn s then None
                    else if list_ex (\<lambda>item. field_of item ''id'' = JStr inbox) (ib_queued s) then None
                    else Some (UnconsumedProof (dl_deliveryId d) ex))
      | _ \<Rightarrow> None)"

text \<open>The loop of \<open>proveInterruptedStartupDelivery\<close>.\<close>

record interrupt_scan =
  it_openTurn :: "int option"
  it_enteredTurn :: "int option"
  it_entries :: nat
  it_interruptedTurn :: "int option"

definition interrupting :: "json \<Rightarrow> bool" where
  "interrupting data =
     (let reason = record_field data ''reason'';
          cause = (if record_field reason ''kind'' = JStr (js ''aborted'')
                   then record_field (record_field reason ''reason'') ''kind'' else JUndefined)
      in record_field reason ''kind'' = JStr (js ''interrupted'') \<or> cause = JStr (js ''user'')
         \<or> cause = JStr (js ''parent'') \<or> cause = JStr (js ''disposed''))"

definition interrupt_event :: "jstr \<Rightarrow> json \<Rightarrow> interrupt_scan \<Rightarrow> interrupt_scan option" where
  "interrupt_event inbox event s =
     (if \<not> is_object event then None
      else if field_of event ''type'' = JStr (js ''turn/start'')
      then (case positiveTurn (record_field (field_of event ''data'') ''turn'') of
              None \<Rightarrow> None
            | Some turn \<Rightarrow> if it_openTurn s \<noteq> None then None else Some (s\<lparr>it_openTurn := Some turn\<rparr>))
      else if field_of event ''type'' = JStr (js ''turn/end'')
      then (case positiveTurn (record_field (field_of event ''data'') ''turn'') of
              None \<Rightarrow> None
            | Some turn \<Rightarrow>
                if it_openTurn s \<noteq> Some turn then None
                else Some (s\<lparr>it_openTurn := None,
                       it_interruptedTurn := (if it_enteredTurn s = it_openTurn s \<and> interrupting (field_of event ''data'')
                         then it_openTurn s else it_interruptedTurn s)\<rparr>))
      else if field_of event ''type'' = JStr (js ''user/message'') \<and> it_openTurn s \<noteq> None
              \<and> record_field (field_of event ''data'') ''id'' = JStr inbox
      then Some (s\<lparr>it_entries := Suc (it_entries s), it_enteredTurn := it_openTurn s\<rparr>)
      else Some s)"

definition no_interrupt :: interrupt_scan where
  "no_interrupt = \<lparr>it_openTurn = None, it_enteredTurn = None, it_entries = 0, it_interruptedTurn = None\<rparr>"

definition proveInterruptedStartupDelivery :: "delivery_record \<Rightarrow> session \<Rightarrow> startup_proof option" where
  "proveInterruptedStartupDelivery d session =
     (case (dl_executionId d, dl_inboxMessageId d, snapshotEvents session) of
        (Some ex, Some inbox, Some events) \<Rightarrow>
          if events = [] then None
          else (case scan (interrupt_event inbox) events no_interrupt of
                  None \<Rightarrow> None
                | Some s \<Rightarrow>
                    if it_openTurn s \<noteq> None then None
                    else if it_entries s \<noteq> 1 \<or> it_enteredTurn s = None then None
                    else (case it_interruptedTurn s of
                            None \<Rightarrow> None
                          | Some turn \<Rightarrow>
                              if dl_turnId d \<noteq> None \<and> dl_turnId d \<noteq> Some (turn_id d turn) then None
                              else Some (InterruptedProof (dl_deliveryId d) ex (turn_id d turn))))
      | _ \<Rightarrow> None)"

subsection \<open>The cold read\<close>

text \<open>
  The loop of \<open>withoutFabricatedClosers\<close> from the tail length \<open>tail\<close> on, for at most \<open>n\<close> iterations.
  \<open>None\<close> is a library call that throws. Logged events hold no \<open>undefined\<close>, so \<open>stringify\<close> is \<open>JSON.stringify\<close>.
\<close>

fun strip_tail :: "(json list \<Rightarrow> json list option) \<Rightarrow> json list \<Rightarrow> nat \<Rightarrow> nat \<Rightarrow> json list" where
  "strip_tail closers events tail 0 = events"
| "strip_tail closers events tail (Suc n) =
     (let prefix = take (length events - tail) events
      in case closers prefix of
           None \<Rightarrow> events
         | Some cs \<Rightarrow>
             if cs = [] then events
             else if length cs \<noteq> tail then strip_tail closers events (Suc tail) n
             else if stringify (JArr cs) = stringify (JArr (drop (length events - tail) events)) then prefix
             else strip_tail closers events (Suc tail) n)"

definition withoutFabricatedClosers :: "(json list \<Rightarrow> json list option) \<Rightarrow> json list \<Rightarrow> json list" where
  "withoutFabricatedClosers closers events = strip_tail closers events 1 (min (length events - 1) 4096)"

datatype observation_source = LiveSource | PreparedSource

record observation =
  ob_source :: observation_source
  ob_id :: "jstr option"
  ob_parentSession :: "jstr option"
  ob_events :: "json list"

datatype cold_read_failure = SessionQueryUnavailable | ReadFailed | IdentityMismatch

text \<open>The query answers an observation, or rejects (\<open>None\<close>).\<close>

type_synonym session_query = "jstr \<Rightarrow> observation option"

definition readChildLog ::
  "(json list \<Rightarrow> json list option) \<Rightarrow> session_query option \<Rightarrow> jstr \<Rightarrow> jstr
     \<Rightarrow> cold_read_failure + json list" where
  "readChildLog closers query parentSessionId childSessionId =
     (case query of
        None \<Rightarrow> Inl SessionQueryUnavailable
      | Some observe \<Rightarrow>
          (case observe childSessionId of
             None \<Rightarrow> Inl ReadFailed
           | Some ob \<Rightarrow>
               if ob_id ob \<noteq> Some childSessionId \<or> ob_parentSession ob \<noteq> Some parentSessionId
               then Inl IdentityMismatch
               else Inr (if ob_source ob = PreparedSource then withoutFabricatedClosers closers (ob_events ob)
                         else ob_events ob)))"

text \<open>\<open>a ?? b\<close>\<close>

fun or_option :: "'a option \<Rightarrow> 'a option \<Rightarrow> 'a option" where
  "or_option None y = y"
| "or_option (Some x) y = Some x"

definition proveStartupDeliveryFromColdRead ::
  "(json list \<Rightarrow> json list option) \<Rightarrow> session_query option \<Rightarrow> delivery_record \<Rightarrow> jstr
     \<Rightarrow> startup_proof option" where
  "proveStartupDeliveryFromColdRead closers query d parentSessionId =
     (case readChildLog closers query parentSessionId (co_sessionId d) of
        Inl _ \<Rightarrow> None
      | Inr events \<Rightarrow>
          let session = Snapshot (JArr events)
          in or_option (proveLiveStartupDelivery d session)
               (or_option (proveInterruptedStartupDelivery d session)
                 (proveUnconsumedStartupDelivery d session)))"

end
