(* ===== verification/PetStartupTheorems.thy ===== *)
theory PetStartupTheorems
  imports PetStartup "HOL-Library.Code_Target_Nat"
begin

text \<open>
  What the startup proofs say about a child log. A log is abstracted to its marks for one message: turns
  that open and close, and the message entering a turn. \<open>log_turns\<close> reads a log whose turns are all closed
  as the list of its turns, with how often the message entered each of them and whether it closed as
  interrupted.
\<close>

datatype mark = Opens int | Closes int bool | Enters | Quiet

definition mark_of :: "jstr \<Rightarrow> json \<Rightarrow> mark option" where
  "mark_of inbox event =
     (if \<not> is_object event then None
      else if field_of event ''type'' = JStr (js ''turn/start'')
      then map_option Opens (positiveTurn (record_field (field_of event ''data'') ''turn''))
      else if field_of event ''type'' = JStr (js ''turn/end'')
      then map_option (\<lambda>n. Closes n (interrupting (field_of event ''data'')))
             (positiveTurn (record_field (field_of event ''data'') ''turn''))
      else if field_of event ''type'' = JStr (js ''user/message'')
              \<and> record_field (field_of event ''data'') ''id'' = JStr inbox then Some Enters
      else Some Quiet)"

fun marks :: "jstr \<Rightarrow> json list \<Rightarrow> mark list option" where
  "marks inbox [] = Some []"
| "marks inbox (ev # evs) =
     (case (mark_of inbox ev, marks inbox evs) of (Some m, Some ms) \<Rightarrow> Some (m # ms) | _ \<Rightarrow> None)"

definition in_turn :: "mark list \<Rightarrow> bool" where
  "in_turn body \<longleftrightarrow> list_all (\<lambda>m. m = Enters \<or> m = Quiet) body"

inductive log_turns :: "mark list \<Rightarrow> (int \<times> nat \<times> bool) list \<Rightarrow> bool" where
  no_turns: "log_turns [] []"
| between: "m = Enters \<or> m = Quiet \<Longrightarrow> log_turns ms ts \<Longrightarrow> log_turns (m # ms) ts"
| closed_turn: "in_turn body \<Longrightarrow> log_turns ms ts \<Longrightarrow>
    log_turns (Opens n # body @ Closes n b # ms) ((n, count_list body Enters, b) # ts)"

lemma in_turn_simps [simp]:
  "in_turn []" "in_turn (m # ms) \<longleftrightarrow> (m = Enters \<or> m = Quiet) \<and> in_turn ms"
  "in_turn (xs @ ys) \<longleftrightarrow> in_turn xs \<and> in_turn ys"
  by (auto simp: in_turn_def)

lemma scan_append: "scan f (xs @ ys) s = (case scan f xs s of None \<Rightarrow> None | Some t \<Rightarrow> scan f ys t)"
  by (induction xs arbitrary: s) (auto split: option.splits)

subsection \<open>The loops over marks\<close>

fun live_mark :: "mark \<Rightarrow> int option \<times> nat \<Rightarrow> (int option \<times> nat) option" where
  "live_mark (Opens n) (None, k) = Some (Some n, 0)"
| "live_mark (Opens n) (Some m, k) = None"
| "live_mark (Closes n b) (t, k) = (if t = Some n then Some (None, 0) else None)"
| "live_mark Enters (t, k) = Some (t, if t = None then k else Suc k)"
| "live_mark Quiet (t, k) = Some (t, k)"

fun interrupt_mark :: "mark \<Rightarrow> interrupt_scan \<Rightarrow> interrupt_scan option" where
  "interrupt_mark (Opens n) s = (if it_openTurn s \<noteq> None then None else Some (s\<lparr>it_openTurn := Some n\<rparr>))"
| "interrupt_mark (Closes n b) s =
     (if it_openTurn s \<noteq> Some n then None
      else Some (s\<lparr>it_openTurn := None,
             it_interruptedTurn := (if it_enteredTurn s = Some n \<and> b then Some n else it_interruptedTurn s)\<rparr>))"
| "interrupt_mark Enters s =
     Some (if it_openTurn s = None then s
           else s\<lparr>it_entries := Suc (it_entries s), it_enteredTurn := it_openTurn s\<rparr>)"
| "interrupt_mark Quiet s = Some s"

lemma start_is_not_end [simp]:
  "js ''turn/start'' \<noteq> js ''turn/end''" "js ''turn/start'' \<noteq> js ''user/message''"
  "js ''turn/end'' \<noteq> js ''user/message''" "js ''turn/end'' \<noteq> js ''turn/start''"
  "js ''user/message'' \<noteq> js ''turn/end''" "js ''user/message'' \<noteq> js ''turn/start''"
  "js ''agent/inbox/spliced'' \<noteq> js ''turn/start''" "js ''agent/inbox/spliced'' \<noteq> js ''turn/end''"
  "js ''agent/inbox/spliced'' \<noteq> js ''user/message''"
  by code_simp+

lemma live_event_mark:
  "live_event inbox event s = (case mark_of inbox event of None \<Rightarrow> None | Some m \<Rightarrow> live_mark m s)"
proof -
  obtain t k where s: "s = (t, k)" by (cases s)
  show ?thesis unfolding s live_event_def mark_of_def
    by (cases t) (auto split: option.splits)
qed

lemma interrupt_event_mark:
  "interrupt_event inbox event s = (case mark_of inbox event of None \<Rightarrow> None | Some m \<Rightarrow> interrupt_mark m s)"
  unfolding interrupt_event_def mark_of_def by (auto split: option.splits)

lemma scan_marks:
  assumes "\<And>ev s. f ev s = (case mark_of inbox ev of None \<Rightarrow> None | Some m \<Rightarrow> g m s)"
  shows "scan f evs s = (case marks inbox evs of None \<Rightarrow> None | Some ms \<Rightarrow> scan g ms s)"
proof (induction evs arbitrary: s)
  case (Cons ev evs)
  show ?case
    by (cases "mark_of inbox ev"; cases "marks inbox evs") (simp_all add: assms [of ev s] Cons.IH split: option.splits)
qed simp

lemmas scan_live = scan_marks [where f = "live_event inbox" and g = live_mark, OF live_event_mark] for inbox
lemmas scan_interrupt = scan_marks [where f = "interrupt_event inbox" and g = interrupt_mark, OF interrupt_event_mark]
  for inbox

subsection \<open>A turn, and a log of closed turns\<close>

lemma live_body: "in_turn body \<Longrightarrow> scan live_mark body (Some n, k) = Some (Some n, k + count_list body Enters)"
  by (induction body arbitrary: k) auto

lemma interrupt_body:
  "in_turn body \<Longrightarrow> it_openTurn s = Some n \<Longrightarrow>
     scan interrupt_mark body s =
       Some (s\<lparr>it_entries := it_entries s + count_list body Enters,
               it_enteredTurn := (if count_list body Enters = 0 then it_enteredTurn s else Some n)\<rparr>)"
  by (induction body arbitrary: s) auto

text \<open>What one closed turn does to the state of the loop.\<close>

definition turn_step :: "int \<times> nat \<times> bool \<Rightarrow> interrupt_scan \<Rightarrow> interrupt_scan" where
  "turn_step t s =
     (case t of (n, e, b) \<Rightarrow>
      let entered = (if e = 0 then it_enteredTurn s else Some n)
      in s\<lparr>it_entries := it_entries s + e, it_enteredTurn := entered,
           it_interruptedTurn := (if entered = Some n \<and> b then Some n else it_interruptedTurn s)\<rparr>)"

lemma turn_step_open [simp]: "it_openTurn (turn_step t s) = it_openTurn s"
  by (simp add: turn_step_def Let_def split: prod.splits)

lemma log_turns_live: "log_turns ms ts \<Longrightarrow> scan live_mark ms (None, 0) = Some (None, 0)"
proof (induction rule: log_turns.induct)
  case (closed_turn body ms ts n b)
  then show ?case by (simp add: scan_append live_body)
qed auto

lemma interrupt_turn:
  "in_turn body \<Longrightarrow> it_openTurn s = None \<Longrightarrow>
     scan interrupt_mark (Opens n # body @ [Closes n b]) s = Some (turn_step (n, count_list body Enters, b) s)"
  using interrupt_body [of body "s\<lparr>it_openTurn := Some n\<rparr>" n]
  by (cases s) (simp add: scan_append turn_step_def Let_def)

lemma log_turns_interrupt:
  "log_turns ms ts \<Longrightarrow> it_openTurn s = None \<Longrightarrow> scan interrupt_mark ms s = Some (fold turn_step ts s)"
proof (induction arbitrary: s rule: log_turns.induct)
  case (closed_turn body ms ts n b)
  have split: "Opens n # body @ Closes n b # ms = (Opens n # body @ [Closes n b]) @ ms" by simp
  show ?case unfolding split scan_append interrupt_turn [OF closed_turn.hyps(1) closed_turn.prems]
    using closed_turn.IH closed_turn.prems by simp
qed auto

lemma open_turn_ends:
  "scan live_mark ms (Some n, k) = Some s \<Longrightarrow>
     (in_turn ms \<and> s = (Some n, k + count_list ms Enters)) \<or>
     (\<exists>body b rest. ms = body @ Closes n b # rest \<and> in_turn body \<and> scan live_mark rest (None, 0) = Some s)"
proof (induction ms arbitrary: k)
  case (Cons m ms)
  show ?case
  proof (cases m)
    case (Closes l b)
    with Cons.prems have "m # ms = [] @ Closes n b # ms" "scan live_mark ms (None, 0) = Some s"
      by (auto split: if_splits)
    then show ?thesis by (meson in_turn_simps(1))
  next
    case Enters
    with Cons.prems have "scan live_mark ms (Some n, Suc k) = Some s" by simp
    from Cons.IH [OF this] show ?thesis
    proof (elim disjE exE conjE)
      fix body b rest
      assume "ms = body @ Closes n b # rest" "in_turn body" "scan live_mark rest (None, 0) = Some s"
      then have "m # ms = (m # body) @ Closes n b # rest \<and> in_turn (m # body) \<and> scan live_mark rest (None, 0) = Some s"
        using Enters by simp
      then show ?thesis by blast
    qed (simp add: Enters)
  next
    case Quiet
    with Cons.prems have "scan live_mark ms (Some n, k) = Some s" by simp
    from Cons.IH [OF this] show ?thesis
    proof (elim disjE exE conjE)
      fix body b rest
      assume "ms = body @ Closes n b # rest" "in_turn body" "scan live_mark rest (None, 0) = Some s"
      then have "m # ms = (m # body) @ Closes n b # rest \<and> in_turn (m # body) \<and> scan live_mark rest (None, 0) = Some s"
        using Quiet by simp
      then show ?thesis by blast
    qed (simp add: Quiet)
  qed (use Cons.prems in auto)
qed simp

text \<open>A log the loops accept is a list of closed turns, or one followed by an open turn.\<close>

lemma log_shape:
  "scan live_mark ms (None, 0) = Some s \<Longrightarrow>
     (\<exists>ts. log_turns ms ts \<and> s = (None, 0)) \<or>
     (\<exists>pre ts n body. ms = pre @ Opens n # body \<and> log_turns pre ts \<and> in_turn body \<and>
        s = (Some n, count_list body Enters))"
proof (induction ms rule: length_induct)
  case (1 ms)
  show ?case
  proof (cases ms)
    case Nil
    with 1 show ?thesis by (auto intro: no_turns)
  next
    case (Cons m rest)
    show ?thesis
    proof (cases m)
      case (Opens n)
      with 1(2) Cons have "scan live_mark rest (Some n, 0) = Some s" by simp
      from open_turn_ends [OF this] show ?thesis
      proof (elim disjE exE conjE)
        assume "in_turn rest" "s = (Some n, 0 + count_list rest Enters)"
        then have "ms = [] @ Opens n # rest \<and> log_turns [] [] \<and> in_turn rest \<and> s = (Some n, count_list rest Enters)"
          using Cons Opens by (simp add: no_turns)
        then show ?thesis by blast
      next
        fix body b rest'
        assume r: "rest = body @ Closes n b # rest'" "in_turn body" "scan live_mark rest' (None, 0) = Some s"
        have "length rest' < length ms" using r(1) Cons by simp
        with 1(1) r(3) have "(\<exists>ts. log_turns rest' ts \<and> s = (None, 0)) \<or>
          (\<exists>pre ts n body. rest' = pre @ Opens n # body \<and> log_turns pre ts \<and> in_turn body \<and>
             s = (Some n, count_list body Enters))" by blast
        then show ?thesis
        proof (elim disjE exE conjE)
          fix ts assume "log_turns rest' ts" "s = (None, 0)"
          then show ?thesis using closed_turn [OF r(2), of rest' ts n b] Cons Opens r(1) by blast
        next
          fix pre ts k inner
          assume p: "rest' = pre @ Opens k # inner" "log_turns pre ts" "in_turn inner"
            "s = (Some k, count_list inner Enters)"
          have "ms = (Opens n # body @ Closes n b # pre) @ Opens k # inner" using Cons Opens r(1) p(1) by simp
          then show ?thesis using closed_turn [OF r(2) p(2), of n b] p(3,4) by blast
        qed
      qed
    next
      case other: Enters
      with 1 Cons have IH: "(\<exists>ts. log_turns rest ts \<and> s = (None, 0)) \<or>
          (\<exists>pre ts n body. rest = pre @ Opens n # body \<and> log_turns pre ts \<and> in_turn body \<and>
             s = (Some n, count_list body Enters))" by simp
      from between [of m] other have step: "log_turns xs ts \<Longrightarrow> log_turns (m # xs) ts" for xs ts by simp
      from IH show ?thesis using step Cons by (metis append_Cons)
    next
      case other: Quiet
      with 1 Cons have IH: "(\<exists>ts. log_turns rest ts \<and> s = (None, 0)) \<or>
          (\<exists>pre ts n body. rest = pre @ Opens n # body \<and> log_turns pre ts \<and> in_turn body \<and>
             s = (Some n, count_list body Enters))" by simp
      from between [of m] other have step: "log_turns xs ts \<Longrightarrow> log_turns (m # xs) ts" for xs ts by simp
      from IH show ?thesis using step Cons by (metis append_Cons)
    qed (use 1 Cons in auto)
  qed
qed

subsection \<open>The state after a log of closed turns\<close>

definition entries :: "(int \<times> nat \<times> bool) list \<Rightarrow> nat" where
  "entries ts = sum_list (map (fst \<circ> snd) ts)"

lemma entries_simps [simp]: "entries [] = 0" "entries ((n, e, b) # ts) = e + entries ts"
  "entries (xs @ ys) = entries xs + entries ys"
  by (simp_all add: entries_def)

lemma no_more_entries:
  "entries ts = 0 \<Longrightarrow> fold turn_step ts s =
     s\<lparr>it_interruptedTurn := (if \<exists>n e. (n, e, True) \<in> set ts \<and> it_enteredTurn s = Some n
        then it_enteredTurn s else it_interruptedTurn s)\<rparr>"
proof (induction ts arbitrary: s)
  case (Cons t ts)
  obtain n e b where t: "t = (n, e, b)" by (cases t)
  with Cons.prems have e: "e = 0" "entries ts = 0" by simp_all
  have "it_enteredTurn (turn_step t s) = it_enteredTurn s" by (simp add: t e turn_step_def Let_def)
  with Cons.IH [OF e(2), of "turn_step t s"] show ?case
    by (cases s) (auto simp: t e turn_step_def Let_def)
qed simp

lemma one_entry_split:
  "entries ts = 1 \<Longrightarrow> \<exists>us n b vs. ts = us @ (n, 1, b) # vs \<and> entries us = 0 \<and> entries vs = 0"
proof (induction ts)
  case (Cons t ts)
  obtain n e b where t: "t = (n, e, b)" by (cases t)
  show ?case
  proof (cases "e = 0")
    case True
    with Cons t obtain us n' b' vs where "ts = us @ (n', 1, b') # vs" "entries us = 0" "entries vs = 0" by auto
    then have "t # ts = (t # us) @ (n', 1, b') # vs \<and> entries (t # us) = 0 \<and> entries vs = 0"
      using t True by simp
    then show ?thesis by blast
  next
    case False
    with Cons.prems t have "t # ts = [] @ (n, 1, b) # ts \<and> entries [] = 0 \<and> entries ts = 0" by simp
    then show ?thesis by blast
  qed
qed simp

lemma entries_fold: "it_entries (fold turn_step ts s) = it_entries s + entries ts"
proof (induction ts arbitrary: s)
  case (Cons t ts)
  then show ?case by (cases t) (simp add: turn_step_def Let_def)
qed simp

lemma open_fold [simp]: "it_openTurn (fold turn_step ts s) = it_openTurn s"
  by (induction ts arbitrary: s) simp_all

lemma one_entry_fold:
  assumes "entries us = 0" and "entries vs = 0"
  shows "fold turn_step (us @ (n, 1, b) # vs) no_interrupt =
     no_interrupt\<lparr>it_entries := 1, it_enteredTurn := Some n,
       it_interruptedTurn := (if b \<or> (\<exists>e. (n, e, True) \<in> set vs) then Some n else None)\<rparr>"
proof -
  have "fold turn_step us no_interrupt = no_interrupt"
    by (simp add: no_more_entries [OF assms(1)] no_interrupt_def)
  then show ?thesis by (auto simp: no_more_entries [OF assms(2)] turn_step_def no_interrupt_def Let_def)
qed

subsection \<open>The three loops agree on the turns\<close>

lemma same_open_step:
  "map_option it_openTurn (interrupt_mark m s) = map_option fst (live_mark m (it_openTurn s, k))"
  by (cases m; cases "it_openTurn s") simp_all

lemma same_open:
  "map_option it_openTurn (scan interrupt_mark ms s) = map_option fst (scan live_mark ms (it_openTurn s, k))"
proof (induction ms arbitrary: s k)
  case (Cons m ms)
  show ?case
  proof (cases "interrupt_mark m s")
    case None
    with same_open_step [of m s k] show ?thesis by simp
  next
    case (Some t)
    with same_open_step [of m s k] obtain u where u: "live_mark m (it_openTurn s, k) = Some u" "fst u = it_openTurn t"
      by (cases "live_mark m (it_openTurn s, k)") simp_all
    with Some Cons.IH [of t "snd u"] show ?thesis by (cases u) simp
  qed
qed simp

lemma inbox_splice_keeps:
  "inbox_splice data q = Some q' \<Longrightarrow> ib_openTurn q' = ib_openTurn q \<and> ib_enteredTurn q' = ib_enteredTurn q"
  by (auto simp: inbox_splice_def split: option.splits if_splits)

definition inbox_agrees :: "interrupt_scan \<Rightarrow> inbox_scan \<Rightarrow> bool" where
  "inbox_agrees s q \<longleftrightarrow> ib_openTurn q = (it_openTurn s \<noteq> None) \<and> ib_enteredTurn q = (0 < it_entries s)"

lemma inbox_agrees_step:
  "interrupt_event inbox ev s = Some s' \<Longrightarrow> inbox_event inbox ev q = Some q' \<Longrightarrow> inbox_agrees s q
     \<Longrightarrow> inbox_agrees s' q'"
  unfolding interrupt_event_def inbox_event_def inbox_agrees_def
  by (auto split: option.splits if_splits dest: inbox_splice_keeps)

lemma inbox_agrees_scan:
  "scan (interrupt_event inbox) evs s = Some s' \<Longrightarrow> scan (inbox_event inbox) evs q = Some q' \<Longrightarrow>
     inbox_agrees s q \<Longrightarrow> inbox_agrees s' q'"
proof (induction evs arbitrary: s q)
  case (Cons ev evs)
  then obtain t r where "interrupt_event inbox ev s = Some t" "inbox_event inbox ev q = Some r"
      "scan (interrupt_event inbox) evs t = Some s'" "scan (inbox_event inbox) evs r = Some q'"
    by (auto split: option.splits)
  with Cons.IH inbox_agrees_step [OF _ _ Cons.prems(3)] show ?case by blast
qed simp

definition no_inbox :: inbox_scan where
  "no_inbox = \<lparr>ib_openTurn = False, ib_enteredTurn = False, ib_queued = []\<rparr>"

lemma start_agrees: "inbox_agrees no_interrupt no_inbox"
  by (simp add: inbox_agrees_def no_interrupt_def no_inbox_def)

text \<open>When each proof is given, over the states of the loops.\<close>

lemma live_iff:
  "proveLiveStartupDelivery d (Snapshot (JArr events)) = Some p \<longleftrightarrow>
     (\<exists>ex inbox turn. dl_executionId d = Some ex \<and> dl_inboxMessageId d = Some inbox \<and>
        scan (live_event inbox) events (None, 0) = Some (Some turn, 1) \<and>
        (dl_turnId d = None \<or> dl_turnId d = Some (turn_id d turn)) \<and>
        p = RunningProof (dl_deliveryId d) ex (turn_id d turn))"
  by (auto simp: proveLiveStartupDelivery_def snapshotEvents_def split: option.splits if_splits)

lemma interrupted_iff:
  "proveInterruptedStartupDelivery d (Snapshot (JArr events)) = Some p \<longleftrightarrow>
     (\<exists>ex inbox s turn. dl_executionId d = Some ex \<and> dl_inboxMessageId d = Some inbox \<and> events \<noteq> [] \<and>
        scan (interrupt_event inbox) events no_interrupt = Some s \<and> it_openTurn s = None \<and> it_entries s = 1 \<and>
        it_enteredTurn s \<noteq> None \<and> it_interruptedTurn s = Some turn \<and>
        (dl_turnId d = None \<or> dl_turnId d = Some (turn_id d turn)) \<and>
        p = InterruptedProof (dl_deliveryId d) ex (turn_id d turn))"
  by (auto simp: proveInterruptedStartupDelivery_def snapshotEvents_def split: option.splits if_splits)

lemma unconsumed_iff:
  "proveUnconsumedStartupDelivery d (Snapshot (JArr events)) = Some p \<longleftrightarrow>
     (\<exists>ex inbox q. dl_executionId d = Some ex \<and> dl_inboxMessageId d = Some inbox \<and> events \<noteq> [] \<and>
        scan (inbox_event inbox) events no_inbox = Some q \<and> \<not> ib_openTurn q \<and> \<not> ib_enteredTurn q \<and>
        \<not> list_ex (\<lambda>item. field_of item ''id'' = JStr inbox) (ib_queued q) \<and>
        p = UnconsumedProof (dl_deliveryId d) ex)"
  by (auto simp: proveUnconsumedStartupDelivery_def snapshotEvents_def no_inbox_def split: option.splits if_splits)

lemma scan_events:
  "scan (live_event inbox) evs s = Some t \<longleftrightarrow> (\<exists>ms. marks inbox evs = Some ms \<and> scan live_mark ms s = Some t)"
  "scan (interrupt_event inbox) evs u = Some v \<longleftrightarrow>
     (\<exists>ms. marks inbox evs = Some ms \<and> scan interrupt_mark ms u = Some v)"
  by (simp_all add: scan_live scan_interrupt split: option.splits)

lemma live_and_interrupt:
  assumes "scan (live_event inbox) evs (None, 0) = Some (t, k)"
  obtains s where "scan (interrupt_event inbox) evs no_interrupt = Some s" "it_openTurn s = t"
proof -
  from assms obtain ms where ms: "marks inbox evs = Some ms" "scan live_mark ms (None, 0) = Some (t, k)"
    by (auto simp: scan_events)
  have "it_openTurn no_interrupt = None" by (simp add: no_interrupt_def)
  with same_open [of ms no_interrupt 0] ms(2) obtain s where "scan interrupt_mark ms no_interrupt = Some s"
      "it_openTurn s = t" by auto
  with ms(1) that show thesis by (auto simp: scan_events)
qed

lemma open_log_iff:
  "scan live_mark ms (None, 0) = Some (Some turn, k) \<longleftrightarrow>
     (\<exists>pre ts body. ms = pre @ Opens turn # body \<and> log_turns pre ts \<and> in_turn body \<and> count_list body Enters = k)"
    (is "?l \<longleftrightarrow> ?r")
proof
  assume ?l
  from log_shape [OF this] show ?r by blast
next
  assume ?r
  then obtain pre ts body where "ms = pre @ Opens turn # body" "log_turns pre ts" "in_turn body"
      "count_list body Enters = k" by blast
  then show ?l by (simp add: scan_append log_turns_live live_body)
qed

lemma closed_log_iff: "(\<exists>k. scan live_mark ms (None, 0) = Some (None, k)) \<longleftrightarrow> (\<exists>ts. log_turns ms ts)"
  using log_turns_live log_shape by blast

lemma live_reads_the_turns:
  "proveLiveStartupDelivery d (Snapshot (JArr events)) = Some p \<longleftrightarrow>
     (\<exists>ex inbox pre ts turn body. dl_executionId d = Some ex \<and> dl_inboxMessageId d = Some inbox \<and>
        marks inbox events = Some (pre @ Opens turn # body) \<and> log_turns pre ts \<and> in_turn body \<and>
        count_list body Enters = 1 \<and> (dl_turnId d = None \<or> dl_turnId d = Some (turn_id d turn)) \<and>
        p = RunningProof (dl_deliveryId d) ex (turn_id d turn))"
  unfolding live_iff scan_events open_log_iff by blast

lemma interrupted_log_iff:
  "(\<exists>s. scan interrupt_mark ms no_interrupt = Some s \<and> it_openTurn s = None \<and> it_entries s = 1 \<and>
        it_enteredTurn s \<noteq> None \<and> it_interruptedTurn s = Some turn) \<longleftrightarrow>
     (\<exists>us b vs. log_turns ms (us @ (turn, 1, b) # vs) \<and> entries us = 0 \<and> entries vs = 0 \<and>
        (b \<or> (\<exists>e. (turn, e, True) \<in> set vs)))" (is "?l \<longleftrightarrow> ?r")
proof
  assume ?l
  then obtain s where s: "scan interrupt_mark ms no_interrupt = Some s" "it_openTurn s = None" "it_entries s = 1"
      "it_interruptedTurn s = Some turn" by blast
  have n: "it_openTurn no_interrupt = None" by (simp add: no_interrupt_def)
  from same_open [of ms no_interrupt 0] s(1,2) n have "map_option fst (scan live_mark ms (None, 0)) = Some None" by simp
  then obtain k where "scan live_mark ms (None, 0) = Some (None, k)" by auto
  then obtain ts where ts: "log_turns ms ts" using closed_log_iff by blast
  with log_turns_interrupt [OF ts n] s(1) have f: "s = fold turn_step ts no_interrupt" by simp
  with s(3) have "entries ts = 1" by (simp add: entries_fold no_interrupt_def)
  then obtain us m b vs where u: "ts = us @ (m, 1, b) # vs" "entries us = 0" "entries vs = 0"
    using one_entry_split by blast
  have "it_interruptedTurn s = (if b \<or> (\<exists>e. (m, e, True) \<in> set vs) then Some m else None)"
    unfolding f u(1) one_entry_fold [OF u(2,3)] by simp
  with s(4) have "m = turn" "b \<or> (\<exists>e. (turn, e, True) \<in> set vs)" by (auto split: if_splits)
  with ts u show ?r by blast
next
  assume ?r
  then obtain us b vs where l: "log_turns ms (us @ (turn, 1, b) # vs)" "entries us = 0" "entries vs = 0"
      "b \<or> (\<exists>e. (turn, e, True) \<in> set vs)" by blast
  have n: "it_openTurn no_interrupt = None" by (simp add: no_interrupt_def)
  from log_turns_interrupt [OF l(1) n, unfolded one_entry_fold [OF l(2,3)]] l(4) show ?l
    by (auto simp: no_interrupt_def)
qed

lemma interrupted_reads_the_turns:
  "proveInterruptedStartupDelivery d (Snapshot (JArr events)) = Some p \<longleftrightarrow>
     (\<exists>ex inbox ms us turn b vs. dl_executionId d = Some ex \<and> dl_inboxMessageId d = Some inbox \<and>
        marks inbox events = Some ms \<and> log_turns ms (us @ (turn, 1, b) # vs) \<and> entries us = 0 \<and> entries vs = 0 \<and>
        (b \<or> (\<exists>e. (turn, e, True) \<in> set vs)) \<and> (dl_turnId d = None \<or> dl_turnId d = Some (turn_id d turn)) \<and>
        p = InterruptedProof (dl_deliveryId d) ex (turn_id d turn))"
proof -
  have "events \<noteq> []" if "marks inbox events = Some ms" "log_turns ms (us @ t # vs)" for inbox ms us t vs
    using that by (cases events) (auto elim: log_turns.cases)
  note nonempty = this
  show ?thesis (is "_ \<longleftrightarrow> ?r")
  proof
    assume "proveInterruptedStartupDelivery d (Snapshot (JArr events)) = Some p"
    then obtain ex inbox ms turn where m: "marks inbox events = Some ms"
        "\<exists>s. scan interrupt_mark ms no_interrupt = Some s \<and> it_openTurn s = None \<and> it_entries s = 1 \<and>
           it_enteredTurn s \<noteq> None \<and> it_interruptedTurn s = Some turn"
      and d: "dl_executionId d = Some ex" "dl_inboxMessageId d = Some inbox"
        "dl_turnId d = None \<or> dl_turnId d = Some (turn_id d turn)" "p = InterruptedProof (dl_deliveryId d) ex (turn_id d turn)"
      unfolding interrupted_iff scan_events by blast
    from m(2) [unfolded interrupted_log_iff] m(1) d show ?r by blast
  next
    assume ?r
    then obtain ex inbox ms us turn b vs where m: "marks inbox events = Some ms" "log_turns ms (us @ (turn, 1, b) # vs)"
        "entries us = 0" "entries vs = 0" "b \<or> (\<exists>e. (turn, e, True) \<in> set vs)"
      and d: "dl_executionId d = Some ex" "dl_inboxMessageId d = Some inbox"
        "dl_turnId d = None \<or> dl_turnId d = Some (turn_id d turn)" "p = InterruptedProof (dl_deliveryId d) ex (turn_id d turn)"
      by blast
    from m(2-5) interrupted_log_iff obtain s where "scan interrupt_mark ms no_interrupt = Some s" "it_openTurn s = None"
        "it_entries s = 1" "it_enteredTurn s \<noteq> None" "it_interruptedTurn s = Some turn" by metis
    with m(1) d nonempty [OF m(1,2)] show "proveInterruptedStartupDelivery d (Snapshot (JArr events)) = Some p"
      unfolding interrupted_iff scan_events by blast
  qed
qed

subsection \<open>Which proofs exclude each other\<close>

lemma open_turn_excludes:
  assumes "dl_executionId d = Some ex" and "dl_inboxMessageId d = Some inbox"
    and "scan (live_event inbox) events (None, 0) = Some (Some turn, k)"
  shows "proveInterruptedStartupDelivery d (Snapshot (JArr events)) = None \<and>
    proveUnconsumedStartupDelivery d (Snapshot (JArr events)) = None"
proof -
  from live_and_interrupt [OF assms(3)] obtain s where s: "scan (interrupt_event inbox) events no_interrupt = Some s"
      "it_openTurn s = Some turn" by blast
  have "proveInterruptedStartupDelivery d (Snapshot (JArr events)) = None"
    using s assms(1,2) by (simp add: proveInterruptedStartupDelivery_def snapshotEvents_def)
  moreover have "ib_openTurn q" if "scan (inbox_event inbox) events no_inbox = Some q" for q
    using inbox_agrees_scan [OF s(1) that start_agrees] s(2) by (simp add: inbox_agrees_def)
  then have "proveUnconsumedStartupDelivery d (Snapshot (JArr events)) = None"
    using assms(1,2)
    by (auto simp: proveUnconsumedStartupDelivery_def snapshotEvents_def no_inbox_def split: option.splits)
  ultimately show ?thesis ..
qed

lemma live_excludes_interrupted:
  "proveLiveStartupDelivery d (Snapshot (JArr events)) = Some p \<Longrightarrow>
     proveInterruptedStartupDelivery d (Snapshot (JArr events)) = None"
  using open_turn_excludes unfolding live_iff by blast

lemma live_excludes_unconsumed:
  "proveLiveStartupDelivery d (Snapshot (JArr events)) = Some p \<Longrightarrow>
     proveUnconsumedStartupDelivery d (Snapshot (JArr events)) = None"
  using open_turn_excludes unfolding live_iff by blast

lemma interrupted_excludes_unconsumed:
  assumes "proveInterruptedStartupDelivery d (Snapshot (JArr events)) = Some p"
  shows "proveUnconsumedStartupDelivery d (Snapshot (JArr events)) = None"
proof -
  from assms obtain ex inbox s where d: "dl_executionId d = Some ex" "dl_inboxMessageId d = Some inbox"
      and s: "scan (interrupt_event inbox) events no_interrupt = Some s" "it_entries s = 1"
    unfolding interrupted_iff by blast
  have "ib_enteredTurn q" if "scan (inbox_event inbox) events no_inbox = Some q" for q
    using inbox_agrees_scan [OF s(1) that start_agrees] s(2) by (simp add: inbox_agrees_def)
  then show ?thesis
    by (auto simp: proveUnconsumedStartupDelivery_def d snapshotEvents_def no_inbox_def split: option.splits)
qed

text \<open>The first iteration of the loop already finds the rest of the closers.\<close>

lemma strips_the_last_closer:
  assumes "w \<noteq> []" and "cs \<noteq> []"
    and "\<And>j. j < length cs \<Longrightarrow> closers (w @ take j cs) = Some (drop j cs)"
  shows "withoutFabricatedClosers closers (w @ cs) = w @ butlast cs"
proof -
  let ?j = "length cs - 1"
  have j: "?j < length cs" "take ?j cs = butlast cs" using assms(2) by (simp_all add: butlast_conv_take)
  have last: "drop ?j cs = [last cs]" using assms(2) by (metis append_butlast_last_id append_eq_conv_conj length_butlast)
  have prefix: "take (length (w @ cs) - 1) (w @ cs) = w @ butlast cs" using assms(1,2) j by (cases cs rule: rev_cases) simp_all
  have tail: "drop (length (w @ cs) - 1) (w @ cs) = [last cs]" using assms(2) by (cases cs rule: rev_cases) simp_all
  have "0 < min (length (w @ cs) - 1) 4096" using assms(1,2) by (cases w; cases cs) simp_all
  then obtain n where n: "min (length (w @ cs) - 1) 4096 = Suc n" by (cases "min (length (w @ cs) - 1) 4096") simp_all
  have c: "closers (w @ butlast cs) = Some [last cs]" using assms(3) [OF j(1)] j(2) last by simp
  show ?thesis unfolding withoutFabricatedClosers_def n strip_tail.simps Let_def prefix tail c by simp
qed

lemma live_quiet:
  "set evs \<subseteq> {ev. mark_of inbox ev = Some Quiet} \<Longrightarrow> scan (live_event inbox) evs s = Some s"
proof (induction evs arbitrary: s)
  case (Cons ev evs)
  then have "live_event inbox ev s = Some s" by (cases s) (simp add: live_event_mark)
  with Cons show ?case by simp
qed simp

subsection \<open>A concrete log\<close>

definition log_event :: "string \<Rightarrow> (string \<times> json) list \<Rightarrow> json" where
  "log_event type members = JObj [(js ''type'', JStr (js type)), (js ''data'', JObj (map (\<lambda>(k, v). (js k, v)) members))]"

definition open_log :: "json list" where
  "open_log = [log_event ''turn/start'' [(''turn'', JNum 1)], log_event ''turn/end'' [(''turn'', JNum 1)],
     log_event ''turn/start'' [(''turn'', JNum 2)], log_event ''user/message'' [(''id'', JStr (js ''inbox''))],
     log_event ''tool/call'' []]"

definition fabricated :: "json list" where
  "fabricated = [log_event ''tool/result'' [], log_event ''step/end'' [],
     log_event ''turn/end'' [(''turn'', JNum 2), (''reason'', JObj [(js ''kind'', JStr (js ''interrupted''))])]]"

definition demo_closers :: "json list \<Rightarrow> json list option" where
  "demo_closers events = Some (drop (length events - length open_log) fabricated)"

definition asked :: delivery_record where
  "asked = (accepted_record \<lparr>co_endpoint = \<lparr>ep_chatId = js ''c'', ep_threadId = None\<rparr>, co_locusId = js ''l'',
     co_sessionId = js ''s'', in_messageId = js ''m'', in_deliveryId = None, in_turnId = None, in_executionId = None,
     in_senderOpenId = Some (js ''u''), in_senderName = None, in_text = None, in_addressing = None,
     in_docComment = None, in_rootMessageId = None, in_replyTarget = None, in_replyToMessageId = None,
     in_acceptedAt = None\<rparr> (js ''d'') 1 10)
     \<lparr>dl_executionId := Some (js ''e''), dl_inboxMessageId := Some (js ''inbox''), dl_status := Current\<rparr>"

definition demo_query :: session_query where
  "demo_query sid = (if sid = js ''s'' then Some \<lparr>ob_source = PreparedSource, ob_id = Some (js ''s''),
     ob_parentSession = Some (js ''m''), ob_events = open_log @ fabricated\<rparr> else None)"

subsection \<open>Properties\<close>

text \<open>
  The proofs read the turns of the log exactly. A delivery is proved running when the log is closed
  turns followed by one open turn that the message entered exactly once; it is proved interrupted when
  every turn is closed, the message entered exactly one turn, and that turn, or a later one of the same
  number, closed as interrupted. A recorded turn id has to agree.
\<close>

theorem startup_proofs_read_the_turns:
  "(proveLiveStartupDelivery d (Snapshot (JArr events)) = Some p \<longleftrightarrow>
     (\<exists>ex inbox pre ts turn body. dl_executionId d = Some ex \<and> dl_inboxMessageId d = Some inbox \<and>
        marks inbox events = Some (pre @ Opens turn # body) \<and> log_turns pre ts \<and> in_turn body \<and>
        count_list body Enters = 1 \<and> (dl_turnId d = None \<or> dl_turnId d = Some (turn_id d turn)) \<and>
        p = RunningProof (dl_deliveryId d) ex (turn_id d turn))) \<and>
   (proveInterruptedStartupDelivery d (Snapshot (JArr events)) = Some p \<longleftrightarrow>
     (\<exists>ex inbox ms us turn b vs. dl_executionId d = Some ex \<and> dl_inboxMessageId d = Some inbox \<and>
        marks inbox events = Some ms \<and> log_turns ms (us @ (turn, 1, b) # vs) \<and> entries us = 0 \<and> entries vs = 0 \<and>
        (b \<or> (\<exists>e. (turn, e, True) \<in> set vs)) \<and> (dl_turnId d = None \<or> dl_turnId d = Some (turn_id d turn)) \<and>
        p = InterruptedProof (dl_deliveryId d) ex (turn_id d turn)))"
  by (intro conjI live_reads_the_turns interrupted_reads_the_turns)

text \<open>
  Whatever log a child has, at most one of the three proofs holds of a delivery, so the order in which
  a cold read consults them does not matter.
\<close>

theorem startup_proofs_exclude_each_other:
  "length (filter (\<lambda>proof. proof d (Snapshot (JArr events)) \<noteq> None)
     [proveLiveStartupDelivery, proveInterruptedStartupDelivery, proveUnconsumedStartupDelivery]) \<le> 1"
proof -
  let ?s = "Snapshot (JArr events)"
  have no_interrupted: "proveInterruptedStartupDelivery d ?s = None" if live: "proveLiveStartupDelivery d ?s = Some p" for p
    using live_excludes_interrupted [OF live] .
  have "proveUnconsumedStartupDelivery d ?s = None" if "proveLiveStartupDelivery d ?s = Some p" for p
    using live_excludes_unconsumed [OF that] .
  moreover have "proveUnconsumedStartupDelivery d ?s = None" if "proveInterruptedStartupDelivery d ?s = Some p" for p
    using interrupted_excludes_unconsumed [OF that] .
  ultimately show ?thesis using no_interrupted
    by (cases "proveLiveStartupDelivery d ?s"; cases "proveInterruptedStartupDelivery d ?s") simp_all
qed

text \<open>
  A turn that was open when the host died never counts as ended. The query closes such a log with
  fabricated closers, and closing a part of them leaves the rest to be closed; then the cold read keeps no
  closer but the ones before the last, the delivery is proved neither interrupted nor unconsumed, and it is
  proved running exactly when the written log proves it.
\<close>

theorem a_crashed_turn_is_not_an_ended_turn:
  assumes written: "w \<noteq> []" "scan (live_event inbox) w (None, 0) = Some (Some turn, k)"
    and d: "dl_executionId d = Some ex" "dl_inboxMessageId d = Some inbox"
    and cs: "cs \<noteq> []" "set (butlast cs) \<subseteq> {ev. mark_of inbox ev = Some Quiet}"
    and closers: "\<And>j. j < length cs \<Longrightarrow> closers (w @ take j cs) = Some (drop j cs)"
    and ob: "query (co_sessionId d) = Some \<lparr>ob_source = PreparedSource, ob_id = Some (co_sessionId d),
      ob_parentSession = Some parent, ob_events = w @ cs\<rparr>"
  shows "readChildLog closers (Some query) parent (co_sessionId d) = Inr (w @ butlast cs) \<and>
    proveStartupDeliveryFromColdRead closers (Some query) d parent =
      proveLiveStartupDelivery d (Snapshot (JArr w))"
proof -
  have log: "readChildLog closers (Some query) parent (co_sessionId d) = Inr (w @ butlast cs)"
    by (simp add: readChildLog_def ob strips_the_last_closer [OF written(1) cs(1) closers])
  let ?s = "Snapshot (JArr (w @ butlast cs))"
  have quiet: "scan (live_event inbox) (w @ butlast cs) (None, 0) = Some (Some turn, k)"
    using written(2) by (simp add: scan_append live_quiet [OF cs(2)])
  have live: "proveLiveStartupDelivery d ?s = proveLiveStartupDelivery d (Snapshot (JArr w))"
    by (simp add: proveLiveStartupDelivery_def d snapshotEvents_def written(2) quiet)
  have "proveInterruptedStartupDelivery d ?s = None" "proveUnconsumedStartupDelivery d ?s = None"
    using open_turn_excludes [OF d quiet] by simp_all
  then show ?thesis using log live
    by (cases "proveLiveStartupDelivery d (Snapshot (JArr w))") (simp_all add: proveStartupDeliveryFromColdRead_def Let_def)
qed

theorem a_crashed_turn_is_not_an_ended_turn_witness:
  "readChildLog demo_closers (Some demo_query) (js ''m'') (js ''s'') = Inr (open_log @ butlast fabricated) \<and>
   proveStartupDeliveryFromColdRead demo_closers (Some demo_query) asked (js ''m'') =
     Some (RunningProof (js ''d'') (js ''e'') (js ''s#2''))"
proof -
  have w: "open_log \<noteq> []" "scan (live_event (js ''inbox'')) open_log (None, 0) = Some (Some 2, 1)" by code_simp+
  have d: "dl_executionId asked = Some (js ''e'')" "dl_inboxMessageId asked = Some (js ''inbox'')"
    "co_sessionId asked = js ''s''" by code_simp+
  have "fabricated \<noteq> []" "list_all (\<lambda>ev. mark_of (js ''inbox'') ev = Some Quiet) (butlast fabricated)" by code_simp+
  then have cs: "fabricated \<noteq> []" "set (butlast fabricated) \<subseteq> {ev. mark_of (js ''inbox'') ev = Some Quiet}"
    by (auto simp: list_all_iff)
  have c: "demo_closers (open_log @ take j fabricated) = Some (drop j fabricated)" if "j < length fabricated" for j
    using that by (simp add: demo_closers_def)
  have q: "demo_query (co_sessionId asked) = Some \<lparr>ob_source = PreparedSource, ob_id = Some (co_sessionId asked),
      ob_parentSession = Some (js ''m''), ob_events = open_log @ fabricated\<rparr>" by (simp add: demo_query_def d)
  have "proveLiveStartupDelivery asked (Snapshot (JArr open_log)) =
      Some (RunningProof (js ''d'') (js ''e'') (js ''s#2''))" by code_simp
  with a_crashed_turn_is_not_an_ended_turn [where closers = demo_closers and query = demo_query and cs = fabricated,
      OF w d(1,2) cs c q] show ?thesis by (simp add: d)
qed

end
