(* ===== verification/PetReconcile.thy ===== *)
theory PetReconcile
  imports PetEntries PetStartup
begin

text \<open>
  Startup reconciliation of the repository with the live host:
  \<^verbatim>\<open>packages/dsh-pet/src/host/locus/reconcile.ts\<close>. The store is the repository of entries, whose
  operations are those of \<^verbatim>\<open>PetLifecycle\<close> and \<^verbatim>\<open>PetEntries\<close>. What the host answers (proofs about a
  child, termination, compensators, the allocator of session ids, the storage medium) is the argument
  \<open>env\<close>. A rejected promise aborts the pass and keeps what was written before.
\<close>

subsection \<open>A pass over the repository\<close>

record recovery_env =
  en_now :: int
  en_commits :: "nat \<Rightarrow> bool"
  en_proof :: "delivery_record \<Rightarrow> startup_proof option"
  en_terminate :: "(delivery_record \<Rightarrow> bool) option"
  en_chat :: "(jstr \<Rightarrow> jstr \<Rightarrow> jstr + unit) option"
  en_mainSession :: "(jstr \<Rightarrow> jstr \<Rightarrow> jstr + unit) option"
  en_locusMainSession :: "(jstr \<Rightarrow> jstr \<Rightarrow> jstr + unit) option"
  en_childSession :: "(jstr \<Rightarrow> jstr \<Rightarrow> jstr \<Rightarrow> jstr + unit) option"
  en_reserve :: "(nat \<Rightarrow> nat \<Rightarrow> jstr) option"
  en_message :: "failure \<Rightarrow> jstr"

text \<open>
  The state of the pass: the repository, the number of writes it has asked for (the n-th one commits when
  \<open>en_commits\<close> says so, and allocates with \<open>en_reserve n\<close>), the report, and \<open>blockedLoci\<close>.
\<close>

record recovery =
  rv_repo :: repository
  rv_writes :: nat
  rv_failed :: "delivery_record list"
  rv_retained :: "delivery_record list"
  rv_replayable :: "delivery_record list"
  rv_manual :: "delivery_record list"
  rv_compensatedOps :: "operation list"
  rv_manualOps :: "operation list"
  rv_blocked :: "jstr list"

type_synonym 'a pass = "recovery \<Rightarrow> (failure + 'a) \<times> recovery"

definition skip :: "unit pass" where
  "skip rc = (Inr (), rc)"

definition and_then :: "'a pass \<Rightarrow> ('a \<Rightarrow> 'b pass) \<Rightarrow> 'b pass" where
  "and_then m f rc = (case m rc of (Inl e, rc') \<Rightarrow> (Inl e, rc') | (Inr x, rc') \<Rightarrow> f x rc')"

fun for_each :: "('a \<Rightarrow> unit pass) \<Rightarrow> 'a list \<Rightarrow> unit pass" where
  "for_each f [] = skip"
| "for_each f (x # xs) = and_then (f x) (\<lambda>_. for_each f xs)"

definition record_in :: "(recovery \<Rightarrow> recovery) \<Rightarrow> unit pass" where
  "record_in f rc = (Inr (), f rc)"

definition add_failed :: "delivery_record \<Rightarrow> unit pass" where
  "add_failed d = record_in (\<lambda>rc. rc\<lparr>rv_failed := rv_failed rc @ [d]\<rparr>)"

definition add_retained :: "delivery_record \<Rightarrow> unit pass" where
  "add_retained d = record_in (\<lambda>rc. rc\<lparr>rv_retained := rv_retained rc @ [d]\<rparr>)"

definition add_replayable :: "delivery_record \<Rightarrow> unit pass" where
  "add_replayable d = record_in (\<lambda>rc. rc\<lparr>rv_replayable := rv_replayable rc @ [d]\<rparr>)"

definition add_manual :: "delivery_record \<Rightarrow> unit pass" where
  "add_manual d = record_in (\<lambda>rc. rc\<lparr>rv_manual := rv_manual rc @ [d]\<rparr>)"

definition add_compensated :: "operation \<Rightarrow> unit pass" where
  "add_compensated o' = record_in (\<lambda>rc. rc\<lparr>rv_compensatedOps := rv_compensatedOps rc @ [o']\<rparr>)"

definition add_manual_op :: "operation \<Rightarrow> unit pass" where
  "add_manual_op o' = record_in (\<lambda>rc. rc\<lparr>rv_manualOps := rv_manualOps rc @ [o']\<rparr>)"

definition block_locus :: "jstr option \<Rightarrow> unit pass" where
  "block_locus l = (case l of None \<Rightarrow> skip | Some i \<Rightarrow> record_in (\<lambda>rc. rc\<lparr>rv_blocked := rv_blocked rc @ [i]\<rparr>))"

definition durable :: "recovery_env \<Rightarrow> (staged \<Rightarrow> failure + 'a \<times> staged) \<Rightarrow> 'a pass" where
  "durable env body rc =
     (let (r, rp') = mutate (en_commits env (rv_writes rc)) body (rv_repo rc)
      in (r, rc\<lparr>rv_repo := rp', rv_writes := Suc (rv_writes rc)\<rparr>))"

text \<open>\<open>ports.store.putDeliveryCas(prev, next)\<close>, \<open>port.putOperation(op)\<close>\<close>

definition write_delivery :: "recovery_env \<Rightarrow> delivery_record \<Rightarrow> delivery_record \<Rightarrow> unit pass" where
  "write_delivery env prev nxt = durable env (putDeliveryCas prev nxt)"

definition put_op :: "recovery_env \<Rightarrow> operation \<Rightarrow> unit pass" where
  "put_op env o' = durable env (putOperation o')"

definition rowOf :: "repository \<Rightarrow> jstr \<Rightarrow> row option" where
  "rowOf rp locusId = find (\<lambda>r. rw_locusId r = locusId) (listRows rp)"

definition group_row :: "repository \<Rightarrow> jstr \<Rightarrow> row option" where
  "group_row rp chatId =
     find (\<lambda>r. ep_chatId (rw_endpoint r) = chatId \<and> ep_threadId (rw_endpoint r) = None) (listRows rp)"

definition INVALIDATED_REASON :: jstr where
  "INVALIDATED_REASON = [21551, 21160, 24674, 22797, 24050, 32456, 27490, 26080, 27861, 35777, 26126, 21487,
     24674, 22797, 30340, 26087, 23376, 20250, 35805, 25191, 34892, 65307, 19979, 19968, 26465, 25480, 26435,
     32, 64, 32, 23558, 21407, 22320, 37325, 24314, 12290]"

definition invalidateIfActive :: "recovery_env \<Rightarrow> jstr \<Rightarrow> unit pass" where
  "invalidateIfActive env locusId rc =
     (case rowOf (rv_repo rc) locusId of
        None \<Rightarrow> skip rc
      | Some r \<Rightarrow>
          if rw_state r \<noteq> Serving then skip rc
          else and_then (durable env (markInvalid \<lparr>fe_expectedLocusId = rw_locusId r,
                 fe_expectedRevision = rw_revision r\<rparr> INVALIDATED_REASON (en_now env))) (\<lambda>_. skip) rc)"

subsection \<open>First-child publications left mid-flight\<close>

definition FIRST_CHILD_PHASES :: "operation_phase set" where
  "FIRST_CHILD_PHASES = {Prepared, Provisioning, Publishing, Compensating, FailedPhase, NeedsRecovery}"

definition debt_operation :: "recovery_env \<Rightarrow> jstr \<Rightarrow> operation \<Rightarrow> operation" where
  "debt_operation env reason o' =
     o'\<lparr>op_phase := NeedsRecovery, op_attempts := op_attempts o' + 1,
        op_manualRecoveryReason := Some (take 500 reason), op_lastError := Some (take 500 reason),
        op_updatedAt := max (en_now env) (op_updatedAt o')\<rparr>"

definition first_child_debt :: "recovery_env \<Rightarrow> operation \<Rightarrow> jstr \<Rightarrow> unit pass" where
  "first_child_debt env o' reason =
     (let nxt = debt_operation env reason o'
      in and_then (put_op env nxt) (\<lambda>_. and_then (add_manual_op nxt) (\<lambda>_. block_locus (op_locusId o'))))"

record first_child =
  fc_row :: row
  fc_trigger :: delivery_record
  fc_child :: jstr
  fc_parent :: jstr
  fc_executionId :: jstr
  fc_revision :: int

text \<open>\<open>exact\<close>, with the values it proves defined\<close>

definition exact_first_child :: "repository \<Rightarrow> operation \<Rightarrow> first_child option" where
  "exact_first_child rp o' =
     (let refs = or_else (op_resourceRefs o') no_refs
      in case (Option.bind (op_locusId o') (rowOf rp), Option.bind (op_deliveryId o') (getDelivery_row rp),
               rr_childSessionId refs, rr_parentSessionId refs, op_expectedRevision o') of
           (Some r, Some trigger, Some child, Some parent, Some rv) \<Rightarrow>
             (case (group_row rp (ep_chatId (rw_endpoint r)), dl_executionId trigger) of
                (Some g, Some ex) \<Rightarrow>
                  if rw_sessionId r = child \<and> co_sessionId trigger = child \<and> co_locusId trigger = rw_locusId r
                     \<and> dl_status trigger = Current \<and> mainOf g = parent
                  then Some \<lparr>fc_row = r, fc_trigger = trigger, fc_child = child, fc_parent = parent,
                         fc_executionId = ex, fc_revision = rv\<rparr>
                  else None
              | _ \<Rightarrow> None)
         | _ \<Rightarrow> None)"

definition revert_first_child ::
  "recovery_env \<Rightarrow> (nat \<Rightarrow> nat \<Rightarrow> jstr) \<Rightarrow> operation \<Rightarrow> first_child \<Rightarrow> unit pass" where
  "revert_first_child env fresh o' fc rc =
     (case durable env (revertFirstDelivery
             \<lparr>fd_locusId = rw_locusId (fc_row fc), fd_sessionId = fc_child fc, fd_revision = fc_revision fc,
              fd_deliveryId = dl_deliveryId (fc_trigger fc), fd_now = en_now env\<rparr>
             (Some (fc_executionId fc)) RevertDefault (Some (fresh (rv_writes rc)))) rc of
        (Inr _, rc') \<Rightarrow> add_compensated (o'\<lparr>op_phase := Compensated, op_completedAt := Some (en_now env),
           op_updatedAt := max (en_now env) (op_updatedAt o')\<rparr>) rc'
      | (Inl e, rc') \<Rightarrow> first_child_debt env o' (en_message env e) rc')"

definition recover_first_child :: "recovery_env \<Rightarrow> operation \<Rightarrow> unit pass" where
  "recover_first_child env o' rc =
     (if op_operation o' \<noteq> Some (js ''first-child-publication'') \<or> op_phase o' \<notin> FIRST_CHILD_PHASES then skip rc
      else case exact_first_child (rv_repo rc) o' of
             None \<Rightarrow> first_child_debt env o'
               (js ''First child recovery identity could not be proven; manual recovery is required.'') rc
           | Some fc \<Rightarrow>
               (case (en_childSession env, en_reserve env) of
                  (Some release, Some fresh) \<Rightarrow>
                    (case release (fc_parent fc) (fc_child fc) (op_id o') of
                       Inl message \<Rightarrow> first_child_debt env o' message rc
                     | Inr _ \<Rightarrow> revert_first_child env fresh o' fc rc)
                | _ \<Rightarrow> first_child_debt env o' (js ''First child termination capability unavailable'') rc))"

subsection \<open>Pending deliveries\<close>

definition PENDING :: "delivery_status set" where
  "PENDING = {Accepted, Queued, Running, Current, Finishing}"

definition ledgerOf :: "delivery_record \<Rightarrow> ledger" where
  "ledgerOf d = \<lparr>lg_byMessageId = [(dl_messageId d, d)], lg_byDeliveryId = [(dl_deliveryId d, d)],
     lg_nextDeliverySequence = dl_sequence d + 1\<rparr>"

text \<open>A reply whose result the restart lost: an at-most-once unknown terminal.\<close>

definition unknown_terminal :: "int \<Rightarrow> delivery_record \<Rightarrow> delivery_record" where
  "unknown_terminal now cur =
     (let rv = (case dl_revision cur of Some n \<Rightarrow> n | None \<Rightarrow> or_else (dl_stateRevision cur) 0) + 1
      in cur\<lparr>dl_queueState := None, dl_status := UnknownTerminal, dl_finishOutcome := Some Reply,
           dl_outboundResult := Some OUnknown, dl_outboundResultAt := Some now,
           dl_outboundAttemptedAt := Some (case dl_outboundAttemptedAt cur of Some t \<Rightarrow> t
                                           | None \<Rightarrow> or_else (dl_finishedAt cur) now),
           dl_finishedAt := Some (or_else (dl_finishedAt cur) now),
           dl_revision := Some rv, dl_stateRevision := Some rv,
           dl_outboundDiagnostic := Some (or_else (dl_outboundDiagnostic cur)
             (js ''Host restarted while outbound reply result was unknown.''))\<rparr>)"

definition unissued :: "delivery_record \<Rightarrow> bool" where
  "unissued d \<longleftrightarrow> dl_executionId d = None \<and> dl_inboxMessageId d = None \<and> dl_turnId d = None \<and>
     (dl_status d = Accepted \<or> dl_status d = Current)"

definition identityProven :: "repository \<Rightarrow> delivery_record \<Rightarrow> row option" where
  "identityProven rp d =
     (case rowOf rp (co_locusId d) of
        None \<Rightarrow> None
      | Some r \<Rightarrow>
          if ep_chatId (rw_endpoint r) = ep_chatId (co_endpoint d)
             \<and> ep_threadId (rw_endpoint r) = ep_threadId (co_endpoint d)
             \<and> group_row rp (ep_chatId (rw_endpoint r)) \<noteq> None \<and> rw_sessionId r = co_sessionId d
             \<and> (rw_state r = Serving \<or> (rw_state r = NotCreated \<and> unissued d))
          then Some r else None)"

definition with_debt :: "jstr \<Rightarrow> delivery_record \<Rightarrow> delivery_record" where
  "with_debt reason d = d\<lparr>dl_startupRecoveryDebt := Some reason\<rparr>"

definition IDENTITY_DEBT :: jstr where
  "IDENTITY_DEBT = js (''Locus, session, or endpoint identity could not be proven during startup; ''
     @ ''manual recovery is required.'')"

definition TERMINATION_DEBT :: jstr where
  "TERMINATION_DEBT = js (''Exact live-turn proof and safe termination are unavailable; ''
     @ ''manual recovery is required.'')"

definition leave_debt :: "recovery_env \<Rightarrow> jstr \<Rightarrow> delivery_record \<Rightarrow> unit pass" where
  "leave_debt env reason cur =
     and_then (if dl_startupRecoveryDebt cur \<noteq> Some reason then write_delivery env cur (with_debt reason cur) else skip)
       (\<lambda>_. add_manual (with_debt reason cur))"

definition lease_of :: "int \<Rightarrow> delivery_record \<Rightarrow> lease_input" where
  "lease_of now d = \<lparr>co_endpoint = co_endpoint d, co_locusId = co_locusId d, co_sessionId = co_sessionId d,
     li_deliveryId = dl_deliveryId d, li_now = now, li_expectedRevision = dl_revision d\<rparr>"

text \<open>\<open>currentDeadline\<close>\<close>

definition current_deadline :: "delivery_record \<Rightarrow> int option" where
  "current_deadline d =
     (case (hard_cap d, dl_deadlineAt d) of
        (None, t) \<Rightarrow> t | (h, None) \<Rightarrow> h | (Some h, Some t) \<Rightarrow> Some (min t h))"

definition reached :: "int option \<Rightarrow> int \<Rightarrow> bool" where
  "reached deadline now \<longleftrightarrow> (case deadline of None \<Rightarrow> False | Some t \<Rightarrow> t \<le> now)"

definition lease_over :: "int \<Rightarrow> delivery_record \<Rightarrow> bool" where
  "lease_over now d \<longleftrightarrow>
     (dl_status d = Current \<and> reached (current_deadline d) now) \<or>
     (dl_status d \<noteq> Current \<and> reached (hard_cap d) now)"

text \<open>A pure transition of the ledger, stored when it changed the delivery; the answer says whether it did.\<close>

definition settle_with ::
  "recovery_env \<Rightarrow> (ledger \<Rightarrow> lease_input \<Rightarrow> throw + mutation) \<Rightarrow> delivery_record \<Rightarrow> bool pass" where
  "settle_with env transition cur rc =
     (case transition (ledgerOf cur) (lease_of (en_now env) cur) of
        Inl t \<Rightarrow> (Inl (Threw t), rc)
      | Inr m \<Rightarrow>
          (case mu_record m of
             None \<Rightarrow> (Inr False, rc)
           | Some r \<Rightarrow>
               if \<not> mu_changed m then (Inr False, rc)
               else and_then (write_delivery env cur (with_state_revision r)) (\<lambda>_.
                    and_then (add_failed (with_state_revision r)) (\<lambda>_. Pair (Inr True))) rc))"

fun running_proof :: "delivery_record \<Rightarrow> startup_proof option \<Rightarrow> jstr option" where
  "running_proof d (Some (RunningProof did ex turn)) =
     (if did = dl_deliveryId d \<and> Some ex = dl_executionId d \<and> (dl_turnId d = None \<or> dl_turnId d = Some turn)
      then Some turn else None)"
| "running_proof d _ = None"

fun unconsumed_proof :: "delivery_record \<Rightarrow> startup_proof option \<Rightarrow> bool" where
  "unconsumed_proof d (Some (UnconsumedProof did ex)) \<longleftrightarrow>
     dl_turnId d = None \<and> did = dl_deliveryId d \<and> Some ex = dl_executionId d"
| "unconsumed_proof d _ \<longleftrightarrow> False"

fun interrupted_proof :: "delivery_record \<Rightarrow> startup_proof option \<Rightarrow> bool" where
  "interrupted_proof d (Some (InterruptedProof did ex turn)) \<longleftrightarrow>
     did = dl_deliveryId d \<and> Some ex = dl_executionId d \<and> (dl_turnId d = None \<or> dl_turnId d = Some turn)"
| "interrupted_proof d _ \<longleftrightarrow> False"

definition recover_current :: "recovery_env \<Rightarrow> row \<Rightarrow> delivery_record \<Rightarrow> unit pass" where
  "recover_current env r cur =
     (if rw_state r = NotCreated \<and> unissued cur then add_replayable cur
      else let proof = (if dl_executionId cur = None then None else en_proof env cur)
           in if unconsumed_proof cur proof then add_replayable cur
              else if interrupted_proof cur proof
              then and_then (settle_with env abandonInterruptedDelivery cur)
                     (\<lambda>settled. if settled then skip else add_retained cur)
              else add_retained cur)"

definition prior_at :: "delivery_record \<Rightarrow> int option" where
  "prior_at d = (case dl_queuedAt d of Some t \<Rightarrow> Some t | None \<Rightarrow> dl_acceptedAt d)"

definition resumed :: "int \<Rightarrow> jstr \<Rightarrow> delivery_record \<Rightarrow> delivery_record" where
  "resumed now turn cur =
     cur\<lparr>dl_status := Running, dl_turnId := Some turn, dl_startedAt := Some (max now (or_else (prior_at cur) 0))\<rparr>"

definition unrecoverable :: "int \<Rightarrow> delivery_record \<Rightarrow> delivery_record" where
  "unrecoverable now cur =
     cur\<lparr>dl_startupRecoveryDebt := None, dl_status := Failed, dl_startupDisposition := Some ExecutionUnrecoverable,
         dl_failureReason := Some (js (''Host restarted without exact recoverable turn proof; ''
           @ ''the old child execution was terminated and work was not replayed.'')),
         dl_failedAt := Some (max now (case dl_startedAt cur of Some t \<Rightarrow> t | None \<Rightarrow> or_else (prior_at cur) 0))\<rparr>"

text \<open>\<open>queued\<close> and \<open>running\<close>: an issued execution of the inbox.\<close>

definition recover_issued :: "recovery_env \<Rightarrow> delivery_record \<Rightarrow> unit pass" where
  "recover_issued env cur =
     (case running_proof cur (en_proof env cur) of
        Some turn \<Rightarrow>
          if dl_status cur = Running then add_retained cur
          else let retained = resumed (en_now env) turn cur
               in and_then (write_delivery env cur retained) (\<lambda>_. add_retained retained)
      | None \<Rightarrow>
          if \<not> (case en_terminate env of None \<Rightarrow> False | Some f \<Rightarrow> f cur)
          then leave_debt env TERMINATION_DEBT cur
          else let failed = unrecoverable (en_now env) cur
               in and_then (write_delivery env cur failed) (\<lambda>_.
                  and_then (invalidateIfActive env (co_locusId cur)) (\<lambda>_. add_failed failed)))"

definition recover_delivery :: "recovery_env \<Rightarrow> delivery_record \<Rightarrow> unit pass" where
  "recover_delivery env snapshot rc =
     (case getDelivery_row (rv_repo rc) (dl_deliveryId snapshot) of
        None \<Rightarrow> skip rc
      | Some cur \<Rightarrow>
          if dl_status cur \<notin> PENDING then skip rc
          else if co_locusId cur \<in> set (rv_blocked rc) then add_manual cur rc
          else if dl_status cur = Finishing
          then write_delivery env cur (unknown_terminal (en_now env) cur) rc
          else (case identityProven (rv_repo rc) cur of
                  None \<Rightarrow>
                    if dl_status cur = Accepted then add_retained cur rc
                    else leave_debt env IDENTITY_DEBT cur rc
                | Some r \<Rightarrow>
                    if lease_over (en_now env) cur
                    then and_then (settle_with env expireDelivery cur) (\<lambda>_. skip) rc
                    else if dl_status cur = Current then recover_current env r cur rc
                    else if dl_status cur = Accepted then add_retained cur rc
                    else recover_issued env cur rc))"

subsection \<open>Provisioning operations\<close>

definition MANUAL_DEBT_RETRY_BUDGET :: int where
  "MANUAL_DEBT_RETRY_BUDGET = 5"

definition word_unit :: "nat \<Rightarrow> bool" where
  "word_unit u \<longleftrightarrow> (48 \<le> u \<and> u \<le> 57) \<or> (65 \<le> u \<and> u \<le> 90) \<or> (97 \<le> u \<and> u \<le> 122) \<or> u = 95"

text \<open>\<open>/\bunavailable\b/.test(t)\<close>\<close>

definition mentions_unavailable :: "jstr \<Rightarrow> bool" where
  "mentions_unavailable t \<longleftrightarrow>
     list_ex (\<lambda>i. take 11 (drop i t) = js ''unavailable'' \<and> (i = 0 \<or> \<not> word_unit (t ! (i - 1))) \<and>
                  (i + 11 = length t \<or> \<not> word_unit (t ! (i + 11)))) [0..<length t]"

definition owns_chat :: "operation \<Rightarrow> bool" where
  "owns_chat o' \<longleftrightarrow> op_operation o' = Some (js ''chat'')"

text \<open>\<open>required\<close>, with the resource of each kind\<close>

definition required_resources :: "operation \<Rightarrow> (compensated_resource \<times> jstr) list" where
  "required_resources o' =
     (let refs = or_else (op_resourceRefs o') no_refs;
          wanted = (\<lambda>kind ref. case ref of None \<Rightarrow> [] | Some r \<Rightarrow> [(kind, r)])
      in (if owns_chat o' then wanted ChatRes (rr_chatId refs) else [])
         @ wanted LocusMainSessionRes (rr_locusMainSessionId refs)
         @ (if owns_chat o' then wanted MainSessionRes (rr_mainSessionId refs) else []))"

definition compensate_resource ::
  "recovery_env \<Rightarrow> compensated_resource \<Rightarrow> jstr \<Rightarrow> jstr \<Rightarrow> jstr + unit" where
  "compensate_resource env kind ref opId =
     (case kind of
        ChatRes \<Rightarrow> (case en_chat env of None \<Rightarrow> Inl (js ''chat compensator unavailable'') | Some f \<Rightarrow> f ref opId)
      | LocusMainSessionRes \<Rightarrow>
          (case en_locusMainSession env of
             None \<Rightarrow> Inl (js ''locus-main-session compensator unavailable'') | Some f \<Rightarrow> f ref opId)
      | _ \<Rightarrow> (case en_mainSession env of
                None \<Rightarrow> Inl (js ''main-session compensator unavailable'') | Some f \<Rightarrow> f ref opId))"

definition compensated_step :: "int \<Rightarrow> compensated_resource list \<Rightarrow> operation \<Rightarrow> operation" where
  "compensated_step now reclaimed o' =
     o'\<lparr>op_compensatedResources := Some reclaimed, op_step := op_step o' + 1,
        op_updatedAt := max now (op_updatedAt o')\<rparr>"

text \<open>
  The loop over \<open>required\<close>: the operation and \<open>completed\<close> so far, and \<open>manualReason\<close>. The \<open>try\<close> also
  covers the write of the operation.
\<close>

fun compensate_required ::
  "recovery_env \<Rightarrow> (compensated_resource \<times> jstr) list \<Rightarrow> compensated_resource list \<Rightarrow> operation \<Rightarrow> recovery
     \<Rightarrow> (operation \<times> compensated_resource list \<times> jstr option) \<times> recovery" where
  "compensate_required env [] reclaimed o' rc = ((o', reclaimed, None), rc)"
| "compensate_required env ((kind, ref) # rest) reclaimed o' rc =
     (if kind \<in> set reclaimed then compensate_required env rest reclaimed o' rc
      else case compensate_resource env kind ref (op_id o') of
             Inl message \<Rightarrow> ((o', reclaimed, Some message), rc)
           | Inr _ \<Rightarrow>
               let reclaimed' = reclaimed @ [kind];
                   o2 = compensated_step (en_now env) reclaimed' o'
               in (case put_op env o2 rc of
                     (Inl e, rc') \<Rightarrow> ((o2, reclaimed', Some (en_message env e)), rc')
                   | (Inr _, rc') \<Rightarrow> compensate_required env rest reclaimed' o2 rc'))"

definition retry_exhausted :: "operation \<Rightarrow> bool" where
  "retry_exhausted o' \<longleftrightarrow> op_phase o' = NeedsRecovery \<and>
     (case op_manualRecoveryReason o' of None \<Rightarrow> False
      | Some reason \<Rightarrow> \<not> mentions_unavailable reason \<and> MANUAL_DEBT_RETRY_BUDGET \<le> op_attempts o')"

definition begin_compensation :: "int \<Rightarrow> operation \<Rightarrow> operation" where
  "begin_compensation now o' =
     o'\<lparr>op_phase := Compensating, op_attempts := op_attempts o' + 1, op_manualRecoveryReason := None,
        op_updatedAt := max now (op_updatedAt o')\<rparr>"

definition finish_compensation ::
  "recovery_env \<Rightarrow> operation \<Rightarrow> operation \<times> compensated_resource list \<times> jstr option \<Rightarrow> unit pass" where
  "finish_compensation env snapshot outcome =
     (case outcome of
        (o', reclaimed, None) \<Rightarrow>
          let at = max (en_now env) (op_updatedAt o');
              compensated = o'\<lparr>op_phase := Compensated, op_compensatedResources := Some reclaimed,
                op_completedAt := Some at, op_updatedAt := at\<rparr>
          in and_then (put_op env compensated) (\<lambda>_. add_compensated compensated)
      | (o', reclaimed, Some reason) \<Rightarrow>
          if op_phase snapshot = FailedPhase
          then put_op env (o'\<lparr>op_phase := FailedPhase, op_lastError := Some (take 500 reason),
                 op_updatedAt := op_updatedAt snapshot\<rparr>)
          else let debt = o'\<lparr>op_phase := NeedsRecovery, op_manualRecoveryReason := Some (take 500 reason),
                     op_lastError := Some (take 500 reason), op_updatedAt := max (en_now env) (op_updatedAt o')\<rparr>
               in and_then (put_op env debt) (\<lambda>_. add_manual_op debt))"

definition recover_operation :: "recovery_env \<Rightarrow> operation \<Rightarrow> unit pass" where
  "recover_operation env snapshot rc =
     (if op_operation snapshot = Some (js ''first-child-publication'') then skip rc
      else if retry_exhausted snapshot then add_manual_op snapshot rc
      else let o' = begin_compensation (en_now env) snapshot
           in and_then (put_op env o') (\<lambda>_ rc'.
                case compensate_required env (required_resources o') (or_else (op_compensatedResources o') []) o' rc'
                of (outcome, rc'') \<Rightarrow> finish_compensation env snapshot outcome rc'') rc)"

subsection \<open>The pass\<close>

definition start_recovery :: "repository \<Rightarrow> recovery" where
  "start_recovery rp =
     \<lparr>rv_repo = rp, rv_writes = 0, rv_failed = [], rv_retained = [], rv_replayable = [], rv_manual = [],
      rv_compensatedOps = [], rv_manualOps = [], rv_blocked = []\<rparr>"

text \<open>\<open>for (const x of port.list())\<close>: the list is read once, when the loop starts.\<close>

definition for_each_of :: "(repository \<Rightarrow> 'a list) \<Rightarrow> ('a \<Rightarrow> unit pass) \<Rightarrow> unit pass" where
  "for_each_of xs f rc = for_each f (xs (rv_repo rc)) rc"

definition recoverLocusStartupV20 :: "recovery_env \<Rightarrow> repository \<Rightarrow> (failure + unit) \<times> recovery" where
  "recoverLocusStartupV20 env rp =
     (case assertEveryGroupMainPaired rp of
        Inl e \<Rightarrow> (Inl e, start_recovery rp)
      | Inr _ \<Rightarrow>
          and_then (for_each_of listRecoverableOperations (recover_first_child env)) (\<lambda>_.
          and_then (for_each_of listPendingDeliveries (recover_delivery env)) (\<lambda>_.
            for_each_of listRecoverableOperations (recover_operation env))) (start_recovery rp))"

subsection \<open>Children the host lost\<close>

datatype child_liveness = Usable | Unusable jstr | UnknownLiveness jstr | CapacityLimited jstr

record reconcile_row =
  rk_row :: row
  rk_mainSessionId :: jstr

record reconcile_report =
  rt_checked :: nat
  rt_usable :: nat
  rt_invalidated :: "(jstr \<times> jstr) list"
  rt_unproven :: "jstr list"

text \<open>
  The loop over the active rows: \<open>aborted n\<close> is the signal before the n-th iteration, \<open>probe\<close> a check
  that may throw (\<open>None\<close>), \<open>clock n\<close> the time of the n-th write.
\<close>

fun reconcile_loop ::
  "(nat \<Rightarrow> bool) \<Rightarrow> (nat \<Rightarrow> bool) \<Rightarrow> (nat \<Rightarrow> int) \<Rightarrow> (jstr \<Rightarrow> jstr \<Rightarrow> child_liveness option) \<Rightarrow>
     reconcile_row list \<Rightarrow> nat \<Rightarrow> nat \<Rightarrow> reconcile_report \<Rightarrow> repository
     \<Rightarrow> (failure + reconcile_report) \<times> repository" where
  "reconcile_loop aborted commits clock probe [] i n report rp = (Inr report, rp)"
| "reconcile_loop aborted commits clock probe (item # rest) i n report rp =
     (if aborted i then (Inr report, rp)
      else let r = rk_row item
           in case or_else (probe (rk_mainSessionId item) (rw_sessionId r)) (UnknownLiveness []) of
                Unusable reason \<Rightarrow>
                  (case mutate (commits n) (markInvalid \<lparr>fe_expectedLocusId = rw_locusId r,
                          fe_expectedRevision = rw_revision r\<rparr> reason (clock n)) rp of
                     (Inl e, rp') \<Rightarrow> (Inl e, rp')
                   | (Inr _, rp') \<Rightarrow>
                       reconcile_loop aborted commits clock probe rest (Suc i) (Suc n)
                         (report\<lparr>rt_invalidated := rt_invalidated report @ [(rw_locusId r, reason)]\<rparr>) rp')
              | Usable \<Rightarrow>
                  reconcile_loop aborted commits clock probe rest (Suc i) n
                    (report\<lparr>rt_usable := rt_usable report + 1\<rparr>) rp
              | _ \<Rightarrow>
                  reconcile_loop aborted commits clock probe rest (Suc i) n
                    (report\<lparr>rt_unproven := rt_unproven report @ [rw_locusId r]\<rparr>) rp)"

definition reconcileLocusChildren ::
  "(nat \<Rightarrow> bool) \<Rightarrow> (nat \<Rightarrow> bool) \<Rightarrow> (nat \<Rightarrow> int) \<Rightarrow> (jstr \<Rightarrow> jstr \<Rightarrow> child_liveness option) option \<Rightarrow>
     reconcile_row list \<Rightarrow> repository \<Rightarrow> (failure + reconcile_report) \<times> repository" where
  "reconcileLocusChildren aborted commits clock probe rows rp =
     (let candidates = filter (\<lambda>item. rw_state (rk_row item) = Serving) rows
      in case probe of
           None \<Rightarrow> (Inr \<lparr>rt_checked = 0, rt_usable = 0, rt_invalidated = [],
                       rt_unproven = map (\<lambda>item. rw_locusId (rk_row item)) candidates\<rparr>, rp)
         | Some check \<Rightarrow>
             reconcile_loop aborted commits clock check candidates 0 0
               \<lparr>rt_checked = length candidates, rt_usable = 0, rt_invalidated = [], rt_unproven = []\<rparr> rp)"

end
