(* ===== verification/PetDeliveryTable.thy ===== *)
theory PetDeliveryTable
  imports PetRepositoryEffects
begin

text \<open>
  The table of deliveries of the repository. Every write keeps its type: a delivery is stored under its own
  id and satisfies the schema. \<open>typed_step\<close> is the lemma collection, one fact per operation on the
  overlay.
\<close>

named_theorems typed_step "operations that keep the table of deliveries well-typed"

definition deliveries_ok :: "staged \<Rightarrow> bool" where
  "deliveries_ok sg \<longleftrightarrow> wf_staged sg \<and>
     (\<forall>k d. staged_get tb_deliveries sg k = Some d \<longrightarrow> dl_deliveryId d = k \<and> petLocusDeliveryV20 d)"

definition typed :: "staged \<Rightarrow> staged \<Rightarrow> bool" where
  "typed sg sg' \<longleftrightarrow> (deliveries_ok sg \<longrightarrow> deliveries_ok sg')"

lemma typed_refl [simp, intro]: "typed sg sg"
  by (simp add: typed_def)

lemma typed_trans [trans]: "typed a b \<Longrightarrow> typed b c \<Longrightarrow> typed a c"
  by (simp add: typed_def)

lemma typedI: "(deliveries_ok sg \<Longrightarrow> typed sg sg') \<Longrightarrow> typed sg sg'"
  by (simp add: typed_def)

lemma typed_same:
  "staged_get tb_deliveries sg' = staged_get tb_deliveries sg \<Longrightarrow> (wf_staged sg \<Longrightarrow> wf_staged sg') \<Longrightarrow> typed sg sg'"
  by (simp add: typed_def deliveries_ok_def)

lemma typed_reserved [simp, intro]: "typed sg (sg\<lparr>sg_reserved := n\<rparr>)"
  by (rule typed_same) (simp_all add: staged_get_add wf_staged_def)

lemma reserve_typed [typed_step]: "reserve fresh sg = (sid, sg') \<Longrightarrow> typed sg sg'"
  by (auto simp: reserve_def)

lemma put_typed [typed_step]:
  "put_row k r sg = Inr sg' \<Longrightarrow> typed sg sg'"
  "put_main k m sg = Inr sg' \<Longrightarrow> typed sg sg'"
  "put_operation k o' sg = Inr sg' \<Longrightarrow> typed sg sg'"
  "put_delivery (dl_deliveryId d) d sg = Inr sg' \<Longrightarrow> typed sg sg'"
  by (auto simp: typed_def deliveries_ok_def put_row_effect put_main_effect put_operation_effect put_delivery_effect)

lemma put_stored_typed:
  assumes "put_delivery k d' sg = Inr sg'" and "staged_get tb_deliveries sg k = Some d"
    and "dl_deliveryId d' = dl_deliveryId d"
  shows "typed sg sg'"
proof (rule typedI)
  assume "deliveries_ok sg"
  then have "k = dl_deliveryId d'" using assms(2,3) by (simp add: deliveries_ok_def)
  with assms(1) put_typed(4) show "typed sg sg'" by blast
qed

lemma retarget_typed [typed_step]: "retarget f ds sg = Inr (ids, sg') \<Longrightarrow> typed sg sg'"
proof (induction ds arbitrary: ids sg)
  case (Cons d ds)
  show ?case
  proof (cases "f d")
    case (Some sid)
    with Cons.prems obtain sg1 ids1 where p: "put_delivery (dl_deliveryId d) (d\<lparr>co_sessionId := sid\<rparr>) sg = Inr sg1"
        "retarget f ds sg1 = Inr (ids1, sg')" by (auto simp: ok_iff split: prod.splits)
    from put_typed(4) [of "d\<lparr>co_sessionId := sid\<rparr>" sg sg1] p(1) have "typed sg sg1" by simp
    with Cons.IH [OF p(2)] show ?thesis by (rule typed_trans [rotated])
  qed (use Cons in simp)
qed simp

lemma put_rows_typed [typed_step]: "put_rows rows sg = Inr sg' \<Longrightarrow> typed sg sg'"
proof (induction rows arbitrary: sg)
  case (Cons e rows)
  obtain k r where "e = (k, r)" by (cases e)
  with Cons show ?case by (auto simp: ok_iff) (blast intro: typed_trans put_typed(1))
qed simp

subsection \<open>Operations\<close>

lemma setOperationPhase_typed [typed_step]: "setOperationPhase now i phase e sg = Inr sg' \<Longrightarrow> typed sg sg'"
  by (auto simp: setOperationPhase_def ok_iff intro: typed_step)

lemma addPairing_typed [typed_step]: "addPairing m sg = Inr sg' \<Longrightarrow> typed sg sg'"
  by (auto simp: addPairing_def ok_iff intro: typed_step)

lemma put_pairing_typed [typed_step]: "put_pairing m sg = Inr sg' \<Longrightarrow> typed sg sg'"
  by (auto simp: put_pairing_def intro: typed_step split: option.splits)

lemma settleTriggerFailed_typed [typed_step]: "settleTriggerFailed did reason now sg = Inr sg' \<Longrightarrow> typed sg sg'"
  by (auto simp: settleTriggerFailed_def intro: put_stored_typed split: option.splits)

lemma write_row_typed [typed_step]: "write_row r sg = Inr (x, sg') \<Longrightarrow> typed sg sg'"
  by (auto simp: ok_iff intro: typed_step)

lemma resetLifecycle_typed [typed_step]: "resetLifecycle r now fresh sg = (r', sg') \<Longrightarrow> typed sg sg'"
  by (auto simp: resetLifecycle_def Let_def split: if_splits prod.splits intro: typed_step)

lemma reset_rows_typed [typed_step]: "reset_rows chatId o' fresh entries sg = (written, sg') \<Longrightarrow> typed sg sg'"
proof (induction entries arbitrary: sg written)
  case (Cons e entries)
  obtain k r where e: "e = (k, r)" by (cases e)
  obtain r' sg1 where r: "resetLifecycle (if k = chatId then move_group o' r else r) (ro_now o') fresh sg = (r', sg1)"
    by (cases "resetLifecycle (if k = chatId then move_group o' r else r) (ro_now o') fresh sg")
  with Cons.prems e obtain rs where "reset_rows chatId o' fresh entries sg1 = (rs, sg')"
    by (auto split: prod.splits)
  with Cons.IH resetLifecycle_typed [OF r] show ?case by (blast intro: typed_trans)
qed simp

lemma applyDelivery_typed [typed_step]: "applyDelivery f sg = Inr (x, sg') \<Longrightarrow> typed sg sg'"
proof -
  assume a: "applyDelivery f sg = Inr (x, sg')"
  have k: "dl_deliveryId (with_state_revision d) = dl_deliveryId d" for d
    by (simp add: with_state_revision_def split: option.splits)
  from a show ?thesis
    using put_typed(4) [of "with_state_revision d" for d]
    by (auto simp: applyDelivery_def ok_iff k split: option.splits if_splits)
qed

lemma resetChatIn_typed [typed_step]: "resetChatIn changing chatId o' fresh sg = Inr (x, sg') \<Longrightarrow> typed sg sg'"
  unfolding resetChatIn_def Let_def
  by (auto simp: ok_iff split: prod.splits dest!: typed_step) (meson typed_trans)

lemma resetChats_typed [typed_step]: "resetChats changing fresh cs sg = Inr (x, sg') \<Longrightarrow> typed sg sg'"
proof (induction cs arbitrary: sg x)
  case (Cons c cs)
  obtain chatId o' where "c = (chatId, o')" by (cases c)
  with Cons show ?case by (auto simp: ok_iff) (meson typed_trans resetChatIn_typed)
qed simp

lemma migrate_chats_typed [typed_step]: "migrate_chats changing toM now fresh cs sg = Inr (x, sg') \<Longrightarrow> typed sg sg'"
proof (induction cs arbitrary: sg x)
  case (Cons c cs)
  then show ?case by (auto simp: ok_iff) (meson typed_trans resetChatIn_typed)
qed simp

lemma retire_main_typed [typed_step]: "retire_main i sg = Inr sg' \<Longrightarrow> typed sg sg'"
  by (auto simp: retire_main_def split: option.splits prod.splits if_splits intro: typed_step)

lemma rotateFirstChild_typed [typed_step]: "rotateFirstChild r except fresh now sg = Inr (x, sg') \<Longrightarrow> typed sg sg'"
  unfolding rotateFirstChild_def Let_def
  by (auto simp: ok_iff split: prod.splits dest!: typed_step) (meson typed_trans)

lemma entry_writes_typed [typed_step]:
  "commitProvisioning now i grp topic main sg = Inr (rs, sg') \<Longrightarrow> typed sg sg'"
  "addTopicRow r sg = Inr (r2, sg') \<Longrightarrow> typed sg sg'"
  "stopRow changing fence now sg = Inr (r2, sg') \<Longrightarrow> typed sg sg'"
  "markInvalid fence reason now sg = Inr (r2, sg') \<Longrightarrow> typed sg sg'"
  "setAccessMode fence mode grantedBy now sg = Inr (r2, sg') \<Longrightarrow> typed sg sg'"
  "recordAccessVerified fence mode now sg = Inr (r2, sg') \<Longrightarrow> typed sg sg'"
  unfolding commitProvisioning_def addTopicRow_def stopRow_def markInvalid_def setAccessMode_def
    recordAccessVerified_def Let_def
  by (auto simp: ok_iff simp del: write_row_ok split: prod.splits dest!: typed_step intro: typed_trans)

lemma operation_writes_typed [typed_step]:
  "recordProvisioningResource now i res sg = Inr (u, sg') \<Longrightarrow> typed sg sg'"
  "completeProvisioning now i sg = Inr (u, sg') \<Longrightarrow> typed sg sg'"
  "failProvisioning now i reason reclaimed sg = Inr (u, sg') \<Longrightarrow> typed sg sg'"
  "putOperation o' sg = Inr (u, sg') \<Longrightarrow> typed sg sg'"
  "commitFirstDelivery e now sg = Inr (u, sg') \<Longrightarrow> typed sg sg'"
  unfolding recordProvisioningResource_def completeProvisioning_def failProvisioning_def putOperation_def
    commitFirstDelivery_def Let_def
  by (auto simp: ok_iff intro: typed_step)

lemma typed_reserve: "typed (sg\<lparr>sg_reserved := n\<rparr>) sg' \<Longrightarrow> typed sg sg'"
  using typed_trans typed_reserved by blast

lemma reenableRow_typed [typed_step]: "reenableRow fence now fresh sg = Inr (r2, sg') \<Longrightarrow> typed sg sg'"
  unfolding reenableRow_def reserve_def Let_def
  by (auto simp: ok_iff simp del: write_row_ok dest!: typed_step intro: typed_reserve)

lemma rotateReservation_typed [typed_step]:
  assumes "rotateReservation locusId rv failed target now fresh sg = Inr (u, sg')"
  shows "typed sg sg'"
proof -
  from assms obtain k r sg1 f ids where
    p: "put_row k r (sg\<lparr>sg_reserved := sg_reserved sg + 1\<rparr>) = Inr sg1"
    and t: "retarget f (vals (staged_all tb_deliveries sg1)) sg1 = Inr (ids, sg')"
    unfolding rotateReservation_def reserve_def Let_def by (auto simp: ok_iff split: prod.splits)
  have "typed (sg\<lparr>sg_reserved := sg_reserved sg + 1\<rparr>) sg1" using p by (rule typed_step)
  also have "typed sg1 sg'" using t by (rule typed_step)
  finally show ?thesis by (rule typed_reserve)
qed

lemma rebuildRowInPlace_typed [typed_step]:
  assumes "rebuildRowInPlace changing fence now fresh sg = Inr (x, sg')"
  shows "typed sg sg'"
proof -
  from assms obtain r where
    r: "find_locus (staged_all tb_loci sg) (fe_expectedLocusId fence) = Some r" "rw_state r = Invalid"
    unfolding rebuildRowInPlace_def by (auto simp: ok_iff)
  obtain r' sg0 where reset: "resetLifecycle r now fresh sg = (r', sg0)" by (cases "resetLifecycle r now fresh sg")
  from assms r reset obtain sg1 f ids where
    "put_row (endpointKeyV20 (rw_endpoint r')) r' sg0 = Inr sg1"
    "retarget f (vals (staged_all tb_deliveries sg1)) sg1 = Inr (ids, sg')"
    unfolding rebuildRowInPlace_def by (auto simp: ok_iff)
  then have "typed sg0 sg1" "typed sg1 sg'" by (auto dest: typed_step)
  with resetLifecycle_typed [OF reset] show ?thesis by (meson typed_trans)
qed

lemma rebindChat_typed [typed_step]:
  assumes "rebindChat changing now ri fresh sg = Inr (res, sg')"
  shows "typed sg sg'"
proof -
  from assms obtain sg1 o' sg2 res' where
    m: "(case rb_main ri of None \<Rightarrow> Inr sg | Some m \<Rightarrow> addPairing m sg) = Inr sg1"
    and r: "resetChatIn changing (rb_chatId ri) o' fresh sg1 = Inr (res', sg2)"
    and p: "setOperationPhase now (rb_provisioningId ri) Committed None sg2 = Inr sg'"
    unfolding rebindChat_def by (auto simp: ok_iff)
  have "typed sg sg1" using m by (auto split: option.splits dest: typed_step)
  also have "typed sg1 sg2" using r by (rule typed_step)
  also have "typed sg2 sg'" using p by (rule typed_step)
  finally show ?thesis .
qed

lemma migration_typed [typed_step]:
  assumes "commitWholeWMigration changing now mi fresh sg = Inr (ress, sg')"
  shows "typed sg sg'"
proof -
  from assms obtain sg1 sg2 sg3 toM rs where
    r: "retire_main mi sg = Inr sg1" and a: "addPairing (mi_newMain mi) sg1 = Inr sg2"
    and c: "migrate_chats changing toM (mi_now mi) fresh (mi_chats mi) sg2 = Inr (rs, sg3)"
    and p: "setOperationPhase now (mi_provisioningId mi) Committed None sg3 = Inr sg'"
    unfolding commitWholeWMigration_def by (auto simp: ok_iff)
  have "typed sg sg1" using r by (rule typed_step)
  also have "typed sg1 sg2" using a by (rule typed_step)
  also have "typed sg2 sg3" using c by (rule typed_step)
  also have "typed sg3 sg'" using p by (rule typed_step)
  finally show ?thesis .
qed

lemma putDeliveryCas_typed [typed_step]: "putDeliveryCas prev nxt sg = Inr (u, sg') \<Longrightarrow> typed sg sg'"
  using put_typed(4) [of "nxt\<lparr>dl_revision := Some (or_else (dl_revision prev) 0 + 1),
      dl_stateRevision := Some (or_else (dl_revision prev) 0 + 1)\<rparr>" sg sg']
  unfolding putDeliveryCas_def Let_def by (auto simp: ok_iff)

lemma put_typed_at: "put_delivery k d sg = Inr sg' \<Longrightarrow> dl_deliveryId d = k \<Longrightarrow> typed sg sg'"
  using put_typed(4) by blast

lemma failBeforeDispatch_typed [typed_step]:
  "failBeforeDispatch now did c reason ex failedAt sg = Inr (u, sg') \<Longrightarrow> typed sg sg'"
  unfolding failBeforeDispatch_def Let_def
  by (auto simp: ok_iff split: option.splits if_splits elim!: put_typed_at)

lemma delivery_writes_typed [typed_step]:
  "acceptDelivery_row changing now inp sg = Inr (a, sg') \<Longrightarrow> typed sg sg'"
  "settleByTurn_row si inboxMessageId rv sg = Inr (m, sg') \<Longrightarrow> typed sg sg'"
  unfolding acceptDelivery_row_def settleByTurn_row_def Let_def
  by (auto simp: ok_iff split: option.splits if_splits intro: typed_step put_typed(4))

lemma publishFirstDelivery_typed [typed_step]:
  assumes "publishFirstDelivery changing i ex sg = Inr (u, sg')"
  shows "typed sg sg'"
proof -
  from assms obtain trigger sg1 sg2 where t: "staged_get tb_deliveries sg (fd_deliveryId i) = Some trigger"
    and s: "typed sg sg2" "staged_get tb_deliveries sg2 = staged_get tb_deliveries sg"
    and p: "put_delivery (fd_deliveryId i) (trigger\<lparr>dl_executionId := Some ex\<rparr>) sg2 = Inr sg'"
    unfolding publishFirstDelivery_def
    by (auto simp: ok_iff put_row_effect put_operation_effect) (metis put_typed(1,3) typed_trans put_row_effect(4) put_operation_effect(5))
  have "typed sg2 sg'" by (rule put_stored_typed [OF p]) (simp_all add: s(2) t)
  with s(1) show ?thesis by (rule typed_trans)
qed

lemma failFirst_typed [typed_step]: "failFirstDeliveryCreation i fresh sg = Inr (u, sg') \<Longrightarrow> typed sg sg'"
  unfolding failFirstDeliveryCreation_def
  by (auto simp: ok_iff split: prod.splits dest!: typed_step) (meson typed_trans)

lemma revertFirst_typed [typed_step]:
  assumes "revertFirstDelivery i ex form allocator sg = Inr (u, sg')"
  shows "typed sg sg'"
proof (cases "form = RecoveryDebt")
  case True
  with assms show ?thesis unfolding revertFirstDelivery_def Let_def
    by (auto simp: ok_iff dest: typed_step)
next
  case False
  with assms obtain fresh r sid sg1 sg2 where
    r: "rotateFirstChild r (fd_deliveryId i) fresh (fd_now i) sg = Inr (sid, sg1)"
    and t: "(if form = RetryText then case staged_get tb_deliveries sg1 (fd_deliveryId i) of None \<Rightarrow> Inr sg1
        | Some d \<Rightarrow> put_delivery (fd_deliveryId i) (d\<lparr>dl_executionId := None, dl_inboxMessageId := None,
            dl_turnId := None, co_sessionId := sid, dl_imageRouteRejected := True\<rparr>) sg1
        else settleTriggerFailed (fd_deliveryId i) (js ''first child publication reverted'') (fd_now i) sg1) = Inr sg2"
    and e: "(case ex of None \<Rightarrow> Inr ((), sg2)
        | Some e \<Rightarrow> err_bind (requireOperation sg2 (first_child_id e)) (\<lambda>o'.
            err_bind (put_operation (first_child_id e) (o'\<lparr>op_phase := Compensated,
              op_updatedAt := fd_now i, op_completedAt := Some (fd_now i)\<rparr>) sg2) (\<lambda>sg3. Inr ((), sg3)))) = Inr (u, sg')"
    unfolding revertFirstDelivery_def by (auto simp: ok_iff cong: option.case_cong)
  from e have o': "typed sg2 sg'" by (auto simp: ok_iff split: option.splits dest: typed_step)
  have "typed sg sg1" using r by (rule typed_step)
  also have "typed sg1 sg2" using t
    by (auto split: if_splits option.splits dest: typed_step elim: put_stored_typed)
  also note o'
  finally show ?thesis .
qed

lemma compensate_all_typed [typed_step]: "compensate_all now cps os sg = Inr (b, sg') \<Longrightarrow> typed sg sg'"
proof (induction os arbitrary: sg)
  case (Cons o' os)
  then obtain sg1 where p: "put_operation (op_id o') (compensateFailedProvisioning o' now cps) sg = Inr sg1"
    and q: "(if op_phase (compensateFailedProvisioning o' now cps) \<noteq> Compensated then Inr (False, sg1)
             else compensate_all now cps os sg1) = Inr (b, sg')"
    by (auto simp: ok_iff Let_def)
  have "typed sg1 sg'" using q Cons.IH by (auto split: if_splits)
  with put_typed(3) [OF p] show ?case by (rule typed_trans)
qed simp

subsection \<open>Commits and runs\<close>

definition repo_typed :: "repository \<Rightarrow> bool" where
  "repo_typed rp \<longleftrightarrow> deliveries_ok (stage rp)"

lemma flush_typed: "typed (stage rp) sg \<Longrightarrow> repo_typed rp \<Longrightarrow> repo_typed (snd (flush commits sg rp))"
proof -
  assume t: "typed (stage rp) sg" "repo_typed rp"
  then have ok: "deliveries_ok sg" by (simp add: typed_def repo_typed_def)
  then have wf: "wf_staged sg" by (simp add: deliveries_ok_def)
  show ?thesis
  proof (cases "snd (flush commits sg rp) = rp")
    case False
    then have new: "rp_tables (snd (flush commits sg rp)) = \<lparr>tb_loci = staged_all tb_loci sg,
        tb_mains = staged_all tb_mains sg, tb_deliveries = staged_all tb_deliveries sg,
        tb_operations = staged_all tb_operations sg\<rparr>"
      by (auto simp: flush_def split: if_splits)
    show ?thesis using ok wf unfolding repo_typed_def deliveries_ok_def
      by (simp add: deliveries_of_def new wf_tables_def)
  qed (use t in simp)
qed

lemma mutate_typed:
  assumes "repo_typed rp" and "\<And>x sg. body (stage rp) = Inr (x, sg) \<Longrightarrow> typed (stage rp) sg"
  shows "repo_typed (snd (mutate commits body rp))"
proof (cases "body (stage rp)")
  case (Inr p)
  obtain x sg where p: "p = (x, sg)" by (cases p)
  have "repo_typed (snd (flush commits sg rp))" by (rule flush_typed [OF assms(2) assms(1)]) (simp add: Inr p)
  then show ?thesis
    by (cases "flush commits sg rp"; cases "fst (flush commits sg rp)") (simp_all add: mutate_def Inr p)
qed (use assms in \<open>simp add: mutate_def\<close>)

lemma beginProvisioning_typed:
  assumes "repo_typed rp"
  shows "repo_typed (snd (beginProvisioning cps commits i rp))"
proof (cases "snd (beginProvisioning cps commits i rp) = rp")
  case False
  then obtain sg where "typed (stage rp) sg" "snd (beginProvisioning cps commits i rp) = snd (flush commits sg rp)"
    unfolding beginProvisioning_def Let_def
    by (auto split: if_splits sum.splits prod.splits bool.splits dest!: typed_step) (metis typed_trans)+
  with flush_typed [OF _ assms] show ?thesis by metis
qed (use assms in simp)

lemma same_tables_typed: "rp_tables rp' = rp_tables rp \<Longrightarrow> repo_typed rp \<Longrightarrow> repo_typed rp'"
  by (simp add: repo_typed_def stage_def)

lemma repo_step_typed: "repo_step rp rp' \<Longrightarrow> repo_typed rp \<Longrightarrow> repo_typed rp'"
proof (induction rule: repo_step.induct)
  case begin_provisioning
  then show ?case by (rule beginProvisioning_typed)
next
  case acquire
  then show ?case by (rule same_tables_typed [OF access_fence_view(1)])
next
  case release
  then show ?case by (rule same_tables_typed [OF access_fence_view(2)])
qed (rule mutate_typed, assumption, erule typed_step)+

interpretation delivery_table: invariant_system repo_step repo_typed
  by unfold_locales (rule repo_step_typed)

end
