(* ===== verification/PetReconcileSafety.thy ===== *)
theory PetReconcileSafety
  imports PetReconcile PetDeliveryTable PetRepositoryTheorems
begin

text \<open>
  What startup recovery guarantees, over the repository and the startup proofs: which deliveries it leaves
  pending and why, what it may replay, that it only moves through public writes, and what a delivery with
  startup debt can still do.
\<close>

subsection \<open>Outcomes of a pass\<close>

lemma and_then_ok [ok_iff]:
  "and_then m f rc = (Inr y, rc') \<longleftrightarrow> (\<exists>x rc1. m rc = (Inr x, rc1) \<and> f x rc1 = (Inr y, rc'))"
  by (auto simp: and_then_def split: sum.splits prod.splits)

lemma skip_ok [ok_iff]: "skip rc = (Inr u, rc') \<longleftrightarrow> rc' = rc"
  by (auto simp: skip_def)

lemma record_in_ok [ok_iff]: "record_in f rc = (Inr u, rc') \<longleftrightarrow> rc' = f rc"
  by (auto simp: record_in_def)

abbreviation deliveries :: "recovery \<Rightarrow> jstr \<Rightarrow> delivery_record option" where
  "deliveries rc \<equiv> map_of (deliveries_of (rv_repo rc))"

definition recovery_typed :: "recovery \<Rightarrow> bool" where
  "recovery_typed rc \<longleftrightarrow> repo_typed (rv_repo rc)"

lemma repo_typed_wf: "repo_typed rp \<Longrightarrow> wf_tables (rp_tables rp)"
  by (simp add: repo_typed_def deliveries_ok_def)

lemma typed_delivery:
  "recovery_typed rc \<Longrightarrow> deliveries rc i = Some d \<Longrightarrow> dl_deliveryId d = i \<and> petLocusDeliveryV20 d"
  by (simp add: recovery_typed_def repo_typed_def deliveries_ok_def)

lemma durable_view:
  assumes run: "durable env body rc = (Inr x, rc')" and ok: "recovery_typed rc"
    and t: "\<And>sg. body (stage (rv_repo rc)) = Inr (x, sg) \<Longrightarrow> typed (stage (rv_repo rc)) sg"
    and k: "\<And>sg. body (stage (rv_repo rc)) = Inr (x, sg) \<Longrightarrow> keeps (stage (rv_repo rc)) sg"
  obtains sg where "body (stage (rv_repo rc)) = Inr (x, sg)" "recovery_typed rc'"
    "map_of (loci_of (rv_repo rc')) = staged_get tb_loci sg" "deliveries rc' = staged_get tb_deliveries sg"
    "rc' = rc\<lparr>rv_repo := rv_repo rc', rv_writes := Suc (rv_writes rc)\<rparr>"
proof -
  let ?c = "en_commits env (rv_writes rc)"
  from run obtain rp' where m: "mutate ?c body (rv_repo rc) = (Inr x, rp')"
    and rc': "rc' = rc\<lparr>rv_repo := rp', rv_writes := Suc (rv_writes rc)\<rparr>"
    by (auto simp: durable_def Let_def split: prod.splits)
  have wf: "wf_tables (rp_tables (rv_repo rc))" using ok by (simp add: recovery_typed_def repo_typed_wf)
  have keep: "wf_staged sg \<and> sg_domain sg = rp_tables (rv_repo rc)"
    if "body (stage (rv_repo rc)) = Inr (x, sg)" for sg
    using k [OF that] wf by (simp add: keeps_def stage_domain)
  from mutate_view [OF m wf keep] obtain sg where sg: "body (stage (rv_repo rc)) = Inr (x, sg)"
      "map_of (loci_of rp') = staged_get tb_loci sg" "map_of (deliveries_of rp') = staged_get tb_deliveries sg" .
  have "repo_typed (snd (mutate ?c body (rv_repo rc)))"
  proof -
    obtain u where f: "flush ?c sg (rv_repo rc) = (Inr u, rp')"
      using m sg(1) by (auto simp: mutate_def split: sum.splits prod.splits)
    have "repo_typed (snd (flush ?c sg (rv_repo rc)))"
      using flush_typed [OF t [OF sg(1)]] ok by (simp add: recovery_typed_def)
    then show ?thesis by (simp add: f m)
  qed
  then have "recovery_typed rc'" by (simp add: recovery_typed_def rc' m)
  then show thesis using that [OF sg(1)] sg(2,3) by (simp add: rc')
qed

text \<open>A delivery is written, an operation is written, an entry is marked invalid.\<close>

definition same_report :: "recovery \<Rightarrow> recovery \<Rightarrow> bool" where
  "same_report rc rc' \<longleftrightarrow> rv_failed rc' = rv_failed rc \<and> rv_retained rc' = rv_retained rc \<and>
     rv_replayable rc' = rv_replayable rc \<and> rv_manual rc' = rv_manual rc \<and> rv_blocked rc' = rv_blocked rc"

lemma same_report_refl [simp]: "same_report rc rc"
  by (simp add: same_report_def)

lemma same_report_writes: "rc' = rc\<lparr>rv_repo := rp, rv_writes := n\<rparr> \<Longrightarrow> same_report rc rc'"
  by (simp add: same_report_def)

lemma write_delivery_view:
  assumes "write_delivery env prev nxt rc = (Inr u, rc')" and "recovery_typed rc"
  shows "recovery_typed rc' \<and> same_report rc rc' \<and>
    (\<exists>rv. deliveries rc' = (deliveries rc)(dl_deliveryId nxt \<mapsto> nxt\<lparr>dl_revision := rv, dl_stateRevision := rv\<rparr>)) \<and>
    map_of (loci_of (rv_repo rc')) = map_of (loci_of (rv_repo rc))"
proof -
  have eff: "typed (stage (rv_repo rc)) sg \<and> keeps (stage (rv_repo rc)) sg \<and>
      staged_get tb_loci sg = map_of (loci_of (rv_repo rc)) \<and>
      (\<exists>rv. staged_get tb_deliveries sg = (deliveries rc)(dl_deliveryId nxt \<mapsto> nxt\<lparr>dl_revision := rv, dl_stateRevision := rv\<rparr>))"
    if b: "putDeliveryCas prev nxt (stage (rv_repo rc)) = Inr (u, sg)" for sg
  proof -
    from b obtain rv where p: "put_delivery (dl_deliveryId nxt) (nxt\<lparr>dl_revision := Some rv, dl_stateRevision := Some rv\<rparr>)
        (stage (rv_repo rc)) = Inr sg"
      by (auto simp: putDeliveryCas_def Let_def ok_iff)
    have "typed (stage (rv_repo rc)) sg" using b by (rule typed_step)
    then show ?thesis using put_keeps(3) [OF p] put_delivery_effect(2,3) [OF p] by auto
  qed
  from durable_view [OF assms(1) [unfolded write_delivery_def] assms(2)] eff obtain sg where
    "putDeliveryCas prev nxt (stage (rv_repo rc)) = Inr (u, sg)" "recovery_typed rc'"
    "map_of (loci_of (rv_repo rc')) = staged_get tb_loci sg" "deliveries rc' = staged_get tb_deliveries sg"
    "rc' = rc\<lparr>rv_repo := rv_repo rc', rv_writes := Suc (rv_writes rc)\<rparr>" by blast
  with eff show ?thesis by (simp add: same_report_writes)
qed

lemma put_op_view:
  assumes "put_op env o' rc = (Inr u, rc')" and "recovery_typed rc"
  shows "recovery_typed rc' \<and> same_report rc rc' \<and> deliveries rc' = deliveries rc"
proof -
  have eff: "typed (stage (rv_repo rc)) sg \<and> keeps (stage (rv_repo rc)) sg \<and> staged_get tb_deliveries sg = deliveries rc"
    if b: "putOperation o' (stage (rv_repo rc)) = Inr (u, sg)" for sg
    using b
    by (auto simp: putOperation_def ok_iff put_operation_effect dest: put_typed(3) put_keeps(4))
  from durable_view [OF assms(1) [unfolded put_op_def] assms(2)] eff obtain sg where
    "putOperation o' (stage (rv_repo rc)) = Inr (u, sg)" "recovery_typed rc'"
    "deliveries rc' = staged_get tb_deliveries sg"
    "rc' = rc\<lparr>rv_repo := rv_repo rc', rv_writes := Suc (rv_writes rc)\<rparr>" by blast
  with eff show ?thesis by (simp add: same_report_writes)
qed

lemma markInvalid_view:
  assumes "durable env (markInvalid fence reason now) rc = (Inr r, rc')" and "recovery_typed rc"
  shows "recovery_typed rc' \<and> same_report rc rc' \<and> deliveries rc' = deliveries rc"
proof -
  have eff: "typed (stage (rv_repo rc)) sg \<and> keeps (stage (rv_repo rc)) sg \<and> staged_get tb_deliveries sg = deliveries rc"
    if b: "markInvalid fence reason now (stage (rv_repo rc)) = Inr (r, sg)" for sg
    using typed_step(17) b
    by (auto simp: markInvalid_def ok_iff put_row_effect dest: put_typed(1) put_keeps(1))
  from durable_view [OF assms(1,2)] eff obtain sg where
    "markInvalid fence reason now (stage (rv_repo rc)) = Inr (r, sg)" "recovery_typed rc'"
    "deliveries rc' = staged_get tb_deliveries sg"
    "rc' = rc\<lparr>rv_repo := rv_repo rc', rv_writes := Suc (rv_writes rc)\<rparr>" by blast
  with eff show ?thesis by (simp add: same_report_writes)
qed

lemma invalidateIfActive_view:
  assumes "invalidateIfActive env l rc = (Inr u, rc')" and "recovery_typed rc"
  shows "recovery_typed rc' \<and> same_report rc rc' \<and> deliveries rc' = deliveries rc"
  using assms markInvalid_view
  by (auto simp: invalidateIfActive_def ok_iff split: option.splits if_splits)

subsection \<open>What the pass does to one delivery\<close>

definition reported :: "recovery \<Rightarrow> jstr set" where
  "reported rc = dl_deliveryId ` (set (rv_retained rc) \<union> set (rv_replayable rc) \<union> set (rv_manual rc))"

definition decided :: "recovery \<Rightarrow> jstr \<Rightarrow> bool" where
  "decided rc i \<longleftrightarrow> (\<forall>d. deliveries rc i = Some d \<longrightarrow> dl_status d \<in> PENDING \<longrightarrow>
     i \<in> reported rc \<and> (dl_status d = Finishing \<longrightarrow> co_locusId d \<in> set (rv_blocked rc)))"

text \<open>Why a delivery may be replayed, and why one was settled.\<close>

definition replay_ok :: "recovery_env \<Rightarrow> delivery_record \<Rightarrow> bool" where
  "replay_ok env d \<longleftrightarrow> dl_status d = Current \<and> (unissued d \<or> unconsumed_proof d (en_proof env d))"

definition settled_for :: "recovery_env \<Rightarrow> (jstr \<Rightarrow> delivery_record option) \<Rightarrow> delivery_record \<Rightarrow> bool" where
  "settled_for env stored d \<longleftrightarrow> (\<exists>cur. stored (dl_deliveryId d) = Some cur \<and>
     ((dl_status d = Expired \<and> lease_over (en_now env) cur) \<or>
      (dl_status d = Failed \<and> interrupted_proof cur (en_proof env cur)) \<or>
      (d = unrecoverable (en_now env) cur \<and> running_proof cur (en_proof env cur) = None \<and>
       (\<exists>f. en_terminate env = Some f \<and> f cur))))"

definition settles :: "delivery_record option \<Rightarrow> delivery_record option \<Rightarrow> delivery_record list \<Rightarrow> bool" where
  "settles old new fa \<longleftrightarrow> (\<forall>cur d. old = Some cur \<longrightarrow> dl_status cur \<in> PENDING \<longrightarrow> new = Some d \<longrightarrow>
     dl_status d \<in> PENDING \<or> (dl_status cur = Finishing \<and> dl_status d = UnknownTerminal) \<or>
     (\<exists>x \<in> set fa. dl_deliveryId x = dl_deliveryId d \<and> dl_status x = dl_status d))"

definition treats :: "recovery_env \<Rightarrow> jstr \<Rightarrow> recovery \<Rightarrow> recovery \<Rightarrow> bool" where
  "treats env i rc rc' \<longleftrightarrow> recovery_typed rc' \<and> (\<forall>j. j \<noteq> i \<longrightarrow> deliveries rc' j = deliveries rc j) \<and>
     decided rc' i \<and> rv_blocked rc' = rv_blocked rc \<and>
     (\<exists>re pl ma fa. rv_retained rc' = rv_retained rc @ re \<and> rv_replayable rc' = rv_replayable rc @ pl \<and>
        rv_manual rc' = rv_manual rc @ ma \<and> rv_failed rc' = rv_failed rc @ fa \<and>
        settles (deliveries rc i) (deliveries rc' i) fa \<and>
        (\<forall>d \<in> set pl. dl_deliveryId d = i \<and> replay_ok env d \<and> deliveries rc' i = Some d) \<and>
        (\<forall>d \<in> set fa. dl_deliveryId d = i \<and> settled_for env (deliveries rc) d))"

lemma treatsI:
  assumes "recovery_typed rc'" and "\<And>j. j \<noteq> i \<Longrightarrow> deliveries rc' j = deliveries rc j"
    and "decided rc' i" and "rv_blocked rc' = rv_blocked rc"
    and "rv_retained rc' = rv_retained rc @ re" and "rv_replayable rc' = rv_replayable rc @ pl"
    and "rv_manual rc' = rv_manual rc @ ma" and "rv_failed rc' = rv_failed rc @ fa"
    and "settles (deliveries rc i) (deliveries rc' i) fa"
    and "\<And>d. d \<in> set pl \<Longrightarrow> dl_deliveryId d = i \<and> replay_ok env d \<and> deliveries rc' i = Some d"
    and "\<And>d. d \<in> set fa \<Longrightarrow> dl_deliveryId d = i \<and> settled_for env (deliveries rc) d"
  shows "treats env i rc rc'"
  unfolding treats_def using assms by blast

lemma settles_pending: "dl_status d \<in> PENDING \<Longrightarrow> settles b (Some d) fa"
  by (simp add: settles_def)

lemma settles_same: "settles b b fa"
  by (auto simp: settles_def)

text \<open>A delivery that stays pending is added to one of the lists.\<close>

lemma kept_pending:
  assumes typed: "recovery_typed rc1"
    and d: "deliveries rc1 i = Some d" "dl_status d \<in> PENDING" "dl_status d \<noteq> Finishing"
    and other: "\<And>j. j \<noteq> i \<Longrightarrow> deliveries rc1 j = deliveries rc j" and same: "same_report rc rc1"
    and x: "dl_deliveryId x = i"
  shows "treats env i rc (rc1\<lparr>rv_retained := rv_retained rc1 @ [x]\<rparr>)"
    "treats env i rc (rc1\<lparr>rv_manual := rv_manual rc1 @ [x]\<rparr>)"
    "replay_ok env x \<Longrightarrow> x = d \<Longrightarrow> treats env i rc (rc1\<lparr>rv_replayable := rv_replayable rc1 @ [x]\<rparr>)"
  using typed d other same x
  by (auto intro!: treatsI settles_pending simp: recovery_typed_def decided_def reported_def same_report_def)

lemma settled_terminal:
  assumes typed: "recovery_typed rc1" and d: "deliveries rc1 i = Some d" "dl_status d \<notin> PENDING"
    and other: "\<And>j. j \<noteq> i \<Longrightarrow> deliveries rc1 j = deliveries rc j" and same: "same_report rc rc1"
    and x: "dl_deliveryId x = i" "dl_status x = dl_status d" "settled_for env (deliveries rc) x"
  shows "treats env i rc (rc1\<lparr>rv_failed := rv_failed rc1 @ [x]\<rparr>)"
  using typed d other same x typed_delivery [OF typed d(1)]
  by (auto intro!: treatsI simp: recovery_typed_def decided_def same_report_def settles_def)

lemma treats_same: "recovery_typed rc \<Longrightarrow> decided rc i \<Longrightarrow> treats env i rc rc"
  by (rule treatsI [where re = "[]" and pl = "[]" and ma = "[]" and fa = "[]"]) (simp_all add: settles_same)

lemma add_outcome [ok_iff]:
  "add_failed d rc = (Inr u, rc') \<longleftrightarrow> rc' = rc\<lparr>rv_failed := rv_failed rc @ [d]\<rparr>"
  "add_retained d rc = (Inr u, rc') \<longleftrightarrow> rc' = rc\<lparr>rv_retained := rv_retained rc @ [d]\<rparr>"
  "add_replayable d rc = (Inr u, rc') \<longleftrightarrow> rc' = rc\<lparr>rv_replayable := rv_replayable rc @ [d]\<rparr>"
  "add_manual d rc = (Inr u, rc') \<longleftrightarrow> rc' = rc\<lparr>rv_manual := rv_manual rc @ [d]\<rparr>"
  by (simp_all add: add_failed_def add_retained_def add_replayable_def add_manual_def ok_iff)

text \<open>A lease that is over expires, an interrupted delivery fails: neither transition declines.\<close>

lemma correlates_lease [simp]: "correlates d (lease_of now d)"
  by (simp add: correlates_def lease_of_def sameEndpoint_def)

lemma changed_record [simp]: "mu_record (changed st r) = Some r" "mu_changed (changed st r)"
  by (simp_all add: changed_def)

lemma pending_sets: "PENDING = PENDING_STATUSES" "st \<in> PENDING \<Longrightarrow> st \<notin> TERMINAL_STATUSES"
  by (auto simp: PENDING_def PENDING_STATUSES_def TERMINAL_STATUSES_def)

lemma current_due:
  "dl_status d = Current \<Longrightarrow> current_deadline d = (case (hard_cap d, dl_deadlineAt d) of
     (None, t) \<Rightarrow> t | (h, None) \<Rightarrow> h | (Some h, Some t) \<Rightarrow> Some (min t h))"
  by (simp add: current_deadline_def)

lemma expire_due:
  assumes "lease_over now d" and "dl_status d \<in> PENDING" and "dl_status d \<noteq> Finishing"
    and "expireDelivery (ledgerOf d) (lease_of now d) = Inr m"
  shows "\<exists>r. mu_record m = Some r \<and> mu_changed m \<and> dl_status r = Expired \<and> dl_deliveryId r = dl_deliveryId d"
proof -
  have due: "reached (if dl_status d \<in> CURRENT_STATUSES
      then (case (hard_cap d, dl_deadlineAt d) of (None, t) \<Rightarrow> t | (h, None) \<Rightarrow> h | (Some h, Some t) \<Rightarrow> Some (min t h))
      else hard_cap d) now"
    using assms(1,3) unfolding lease_over_def CURRENT_STATUSES_def current_deadline_def by auto
  have *: "dl_status d \<notin> TERMINAL_STATUSES" "dl_status d \<in> PENDING_STATUSES"
    using assms(2) pending_sets by auto
  show ?thesis using assms(3,4) * due
    by (auto simp: expireDelivery_def ok_iff ledgerOf_def lease_of_def [of now d] revision_conflict_def Let_def
        reached_def lease_step_def not_le correlates_def sameEndpoint_def split: option.splits if_splits)
qed

lemma abandon_current:
  assumes "dl_status d = Current" and "abandonInterruptedDelivery (ledgerOf d) (lease_of now d) = Inr m"
  shows "\<exists>r. mu_record m = Some r \<and> mu_changed m \<and> dl_status r = Failed \<and> dl_deliveryId r = dl_deliveryId d"
  using assms
  by (auto simp: abandonInterruptedDelivery_def abandon_def ok_iff ledgerOf_def lease_of_def revision_conflict_def
      lease_step_def correlates_def sameEndpoint_def TERMINAL_STATUSES_def)

lemma with_state_revision_same [simp]:
  "dl_deliveryId (with_state_revision d) = dl_deliveryId d" "dl_status (with_state_revision d) = dl_status d"
  by (simp_all add: with_state_revision_def split: option.splits)

lemma settle_with_ok:
  "settle_with env tr cur rc = (Inr b, rc') \<Longrightarrow> \<exists>m. tr (ledgerOf cur) (lease_of (en_now env) cur) = Inr m"
  by (auto simp: settle_with_def split: sum.splits)

lemma settle_with_changed:
  assumes "settle_with env tr cur rc = (Inr b, rc')" and "tr (ledgerOf cur) (lease_of (en_now env) cur) = Inr m"
    and "mu_record m = Some r" and "mu_changed m"
  obtains rc1 where b "write_delivery env cur (with_state_revision r) rc = (Inr (), rc1)"
    "rc' = rc1\<lparr>rv_failed := rv_failed rc1 @ [with_state_revision r]\<rparr>"
  using assms by (auto simp: settle_with_def ok_iff)

lemma written_terminal:
  assumes w: "write_delivery env cur nxt rc = (Inr u, rc1)" and typed: "recovery_typed rc"
    and i: "dl_deliveryId nxt = i" and st: "dl_status nxt \<notin> PENDING"
  shows "recovery_typed rc1 \<and> same_report rc rc1 \<and> (\<forall>j. j \<noteq> i \<longrightarrow> deliveries rc1 j = deliveries rc j) \<and>
    (\<exists>d. deliveries rc1 i = Some d \<and> dl_status d \<notin> PENDING \<and> dl_status d = dl_status nxt)"
  using write_delivery_view [OF w typed] i st by auto

lemma settled_by:
  assumes run: "settle_with env tr cur rc = (Inr b, rc')" and typed: "recovery_typed rc"
    and i: "dl_deliveryId cur = i" and pending: "dl_status r \<notin> PENDING"
    and tr: "tr (ledgerOf cur) (lease_of (en_now env) cur) = Inr m"
    and m: "mu_record m = Some r" "mu_changed m" "dl_deliveryId r = i"
    and why: "settled_for env (deliveries rc) (with_state_revision r)"
  shows "b \<and> treats env i rc rc'"
proof -
  from run tr m(1,2) obtain rc1 where b: b and w: "write_delivery env cur (with_state_revision r) rc = (Inr (), rc1)"
    and rc': "rc' = rc1\<lparr>rv_failed := rv_failed rc1 @ [with_state_revision r]\<rparr>"
    by (rule settle_with_changed)
  from written_terminal [OF w typed, of i] m(3) pending obtain d where
    "recovery_typed rc1" "same_report rc rc1" "\<And>j. j \<noteq> i \<Longrightarrow> deliveries rc1 j = deliveries rc j"
    "deliveries rc1 i = Some d" "dl_status d \<notin> PENDING" "dl_status d = dl_status r" by auto
  then have "treats env i rc (rc1\<lparr>rv_failed := rv_failed rc1 @ [with_state_revision r]\<rparr>)"
    using m(3) why by (intro settled_terminal [where d = d]) simp_all
  with b rc' show ?thesis by simp
qed

lemma expire_treats:
  assumes "settle_with env expireDelivery cur rc = (Inr b, rc')" and "recovery_typed rc"
    and stored: "deliveries rc (dl_deliveryId cur) = Some cur"
    and "lease_over (en_now env) cur" and "dl_status cur \<in> PENDING" "dl_status cur \<noteq> Finishing"
  shows "treats env (dl_deliveryId cur) rc rc'"
proof -
  from assms(1) obtain m where m: "expireDelivery (ledgerOf cur) (lease_of (en_now env) cur) = Inr m"
    using settle_with_ok by blast
  from expire_due [OF assms(4-6) m] obtain r where
    r: "mu_record m = Some r" "mu_changed m" "dl_status r = Expired" "dl_deliveryId r = dl_deliveryId cur" by blast
  then have "settled_for env (deliveries rc) (with_state_revision r)"
    unfolding settled_for_def using assms(4) stored by (intro exI [of _ cur]) simp
  with settled_by [OF assms(1,2) refl _ m r(1,2,4)] r(3) show ?thesis by (simp add: PENDING_def)
qed

lemma abandon_treats:
  assumes "settle_with env abandonInterruptedDelivery cur rc = (Inr b, rc')" and "recovery_typed rc"
    and stored: "deliveries rc (dl_deliveryId cur) = Some cur"
    and "dl_status cur = Current" and "interrupted_proof cur (en_proof env cur)"
  shows "b \<and> treats env (dl_deliveryId cur) rc rc'"
proof -
  from assms(1) obtain m where m: "abandonInterruptedDelivery (ledgerOf cur) (lease_of (en_now env) cur) = Inr m"
    using settle_with_ok by blast
  from abandon_current [OF assms(4) m] obtain r where
    r: "mu_record m = Some r" "mu_changed m" "dl_status r = Failed" "dl_deliveryId r = dl_deliveryId cur" by blast
  then have "settled_for env (deliveries rc) (with_state_revision r)"
    unfolding settled_for_def using assms(5) stored by (intro exI [of _ cur]) simp
  with settled_by [OF assms(1,2) refl _ m r(1,2,4)] r(3) show ?thesis by (simp add: PENDING_def)
qed

lemma leave_debt_treats:
  assumes run: "leave_debt env reason cur rc = (Inr u, rc')" and typed: "recovery_typed rc"
    and cur: "deliveries rc i = Some cur" "dl_status cur \<in> PENDING" "dl_status cur \<noteq> Finishing"
  shows "treats env i rc rc'"
proof -
  have i: "dl_deliveryId cur = i" using typed_delivery [OF typed cur(1)] by simp
  show ?thesis
  proof (cases "dl_startupRecoveryDebt cur \<noteq> Some reason")
    case True
    with run obtain rc1 where w: "write_delivery env cur (with_debt reason cur) rc = (Inr (), rc1)"
      and rc': "rc' = rc1\<lparr>rv_manual := rv_manual rc1 @ [with_debt reason cur]\<rparr>"
      by (auto simp: leave_debt_def ok_iff)
    from write_delivery_view [OF w typed] obtain d where
      "recovery_typed rc1" "same_report rc rc1" "\<And>j. j \<noteq> i \<Longrightarrow> deliveries rc1 j = deliveries rc j"
      "deliveries rc1 i = Some d" "dl_status d \<in> PENDING" "dl_status d \<noteq> Finishing"
      using i cur(2,3) by (auto simp: with_debt_def)
    then show ?thesis unfolding rc' using i by (intro kept_pending(2)) (simp_all add: with_debt_def)
  next
    case False
    with run have "rc' = rc\<lparr>rv_manual := rv_manual rc @ [with_debt reason cur]\<rparr>"
      by (auto simp: leave_debt_def ok_iff)
    then show ?thesis using typed cur i by (auto intro!: kept_pending(2) simp: with_debt_def)
  qed
qed

lemma added_treats:
  assumes "recovery_typed rc" and "deliveries rc i = Some cur" and "dl_status cur \<in> PENDING" and "dl_status cur \<noteq> Finishing"
  shows "add_retained cur rc = (Inr u, rc') \<Longrightarrow> treats env i rc rc'"
    "add_replayable cur rc = (Inr u, rc') \<Longrightarrow> replay_ok env cur \<Longrightarrow> treats env i rc rc'"
  using assms kept_pending(1) [OF assms refl same_report_refl] kept_pending(3) [OF assms refl same_report_refl]
    typed_delivery [OF assms(1,2)]
  by (auto simp: ok_iff)

lemma recover_current_treats:
  assumes run: "recover_current env r cur rc = (Inr u, rc')" and typed: "recovery_typed rc"
    and cur: "deliveries rc i = Some cur" "dl_status cur = Current"
  shows "treats env i rc rc'"
proof -
  let ?proof = "if dl_executionId cur = None then None else en_proof env cur"
  have i: "dl_deliveryId cur = i" using typed_delivery [OF typed cur(1)] by simp
  have nf: "dl_status cur \<in> PENDING" "dl_status cur \<noteq> Finishing" using cur(2) by (simp_all add: PENDING_def)
  have st: "deliveries rc (dl_deliveryId cur) = Some cur" using cur(1) i by simp
  consider (unissued) "rw_state r = NotCreated" "unissued cur" "add_replayable cur rc = (Inr u, rc')"
    | (unconsumed) "unconsumed_proof cur (en_proof env cur)" "add_replayable cur rc = (Inr u, rc')"
    | (interrupted) b rc1 where "interrupted_proof cur (en_proof env cur)"
        "settle_with env abandonInterruptedDelivery cur rc = (Inr b, rc1)" "b \<longrightarrow> rc' = rc1"
    | (kept) "add_retained cur rc = (Inr u, rc')"
    using run by (auto simp: recover_current_def Let_def ok_iff split: if_splits)
  then show ?thesis
  proof cases
    case unissued
    then show ?thesis using added_treats(2) [OF typed cur(1) nf] cur(2) by (simp add: replay_ok_def)
  next
    case unconsumed
    then show ?thesis using added_treats(2) [OF typed cur(1) nf] cur(2) by (simp add: replay_ok_def)
  next
    case interrupted
    from abandon_treats [OF interrupted(2) typed st cur(2) interrupted(1)] interrupted(3) i show ?thesis by simp
  next
    case kept
    then show ?thesis using added_treats(1) [OF typed cur(1) nf] by simp
  qed
qed

lemma then_settled:
  assumes "invalidateIfActive env l rc1 = (Inr u, rc2)" and "recovery_typed rc1" and "same_report rc rc1"
    and "\<And>j. j \<noteq> i \<Longrightarrow> deliveries rc1 j = deliveries rc j" and "deliveries rc1 i = Some d" "dl_status d \<notin> PENDING"
    and "dl_deliveryId x = i" "dl_status x = dl_status d" "settled_for env (deliveries rc) x"
  shows "treats env i rc (rc2\<lparr>rv_failed := rv_failed rc2 @ [x]\<rparr>)"
proof -
  from invalidateIfActive_view [OF assms(1,2)] have v: "recovery_typed rc2" "deliveries rc2 = deliveries rc1"
      "same_report rc rc2" using assms(3) by (auto simp: same_report_def)
  show ?thesis by (rule settled_terminal [where d = d]) (use v assms(4-9) in simp_all)
qed

lemma recover_issued_treats:
  assumes run: "recover_issued env cur rc = (Inr u, rc')" and typed: "recovery_typed rc"
    and cur: "deliveries rc i = Some cur" "dl_status cur \<in> PENDING" "dl_status cur \<noteq> Finishing"
  shows "treats env i rc rc'"
proof (cases "running_proof cur (en_proof env cur)")
  case (Some turn)
  let ?r = "resumed (en_now env) turn cur"
  have i: "dl_deliveryId ?r = i" using typed_delivery [OF typed cur(1)] by (simp add: resumed_def)
  show ?thesis
  proof (cases "dl_status cur = Running")
    case True
    with run Some have "add_retained cur rc = (Inr u, rc')" by (simp add: recover_issued_def)
    then show ?thesis using added_treats(1) [OF typed cur] by simp
  next
    case False
    with run Some obtain rc1 where w: "write_delivery env cur ?r rc = (Inr (), rc1)"
      and rc': "rc' = rc1\<lparr>rv_retained := rv_retained rc1 @ [?r]\<rparr>"
      by (auto simp: recover_issued_def Let_def ok_iff)
    from write_delivery_view [OF w typed] obtain d where
      "recovery_typed rc1" "same_report rc rc1" "\<And>j. j \<noteq> i \<Longrightarrow> deliveries rc1 j = deliveries rc j"
      "deliveries rc1 i = Some d" "dl_status d \<in> PENDING" "dl_status d \<noteq> Finishing"
      using i by (auto simp: resumed_def PENDING_def)
    then show ?thesis unfolding rc' using i by (intro kept_pending(1)) simp_all
  qed
next
  case None
  let ?x = "unrecoverable (en_now env) cur"
  have i: "dl_deliveryId ?x = i" "dl_deliveryId cur = i" "dl_status ?x \<notin> PENDING"
    using typed_delivery [OF typed cur(1)] by (simp_all add: unrecoverable_def PENDING_def)
  show ?thesis
  proof (cases "\<exists>f. en_terminate env = Some f \<and> f cur")
    case True
    with run None obtain rc1 rc2 where w: "write_delivery env cur ?x rc = (Inr (), rc1)"
      and v: "invalidateIfActive env (co_locusId cur) rc1 = (Inr (), rc2)"
      and rc': "rc' = rc2\<lparr>rv_failed := rv_failed rc2 @ [?x]\<rparr>"
      by (auto simp: recover_issued_def Let_def ok_iff)
    have s: "settled_for env (deliveries rc) ?x"
      unfolding settled_for_def using None True i cur(1) by (intro exI [of _ cur]) simp
    from written_terminal [OF w typed i(1,3)] obtain d where
      "recovery_typed rc1" "same_report rc rc1" "\<And>j. j \<noteq> i \<Longrightarrow> deliveries rc1 j = deliveries rc j"
      "deliveries rc1 i = Some d" "dl_status d \<notin> PENDING" "dl_status ?x = dl_status d" by metis
    then show ?thesis unfolding rc' using i s by (intro then_settled [OF v, where d = d]) simp_all
  next
    case False
    with run None have "leave_debt env TERMINATION_DEBT cur rc = (Inr u, rc')"
      by (auto simp: recover_issued_def Let_def split: option.splits if_splits)
    then show ?thesis using typed cur by (rule leave_debt_treats)
  qed
qed

lemma recover_delivery_treats:
  assumes run: "recover_delivery env snapshot rc = (Inr u, rc')" and typed: "recovery_typed rc"
  shows "treats env (dl_deliveryId snapshot) rc rc'"
proof -
  define i where "i = dl_deliveryId snapshot"
  show ?thesis unfolding i_def [symmetric]
  proof (cases "deliveries rc i")
    case None
    then have "rc' = rc" using run by (simp add: recover_delivery_def getDelivery_row_def i_def [symmetric] ok_iff)
    then show "treats env i rc rc'" using typed None by (simp add: treats_same decided_def)
  next
    case (Some cur)
    have id: "dl_deliveryId cur = i" using typed_delivery [OF typed Some] by simp
    note run' = run [unfolded recover_delivery_def getDelivery_row_def i_def [symmetric] Some option.case]
    consider (over) "dl_status cur \<notin> PENDING" | (blocked) "dl_status cur \<in> PENDING" "co_locusId cur \<in> set (rv_blocked rc)"
      | (finishing) "co_locusId cur \<notin> set (rv_blocked rc)" "dl_status cur = Finishing"
      | (unproven) "dl_status cur \<in> PENDING" "co_locusId cur \<notin> set (rv_blocked rc)" "dl_status cur \<noteq> Finishing"
          "identityProven (rv_repo rc) cur = None"
      | (proven) r where "dl_status cur \<in> PENDING" "co_locusId cur \<notin> set (rv_blocked rc)" "dl_status cur \<noteq> Finishing"
          "identityProven (rv_repo rc) cur = Some r"
      by fastforce
    then show "treats env i rc rc'"
    proof cases
      case over
      then have "rc' = rc" using run' by (simp add: ok_iff)
      then show ?thesis using typed Some over by (simp add: treats_same decided_def)
    next
      case blocked
      then have rc': "rc' = rc\<lparr>rv_manual := rv_manual rc @ [cur]\<rparr>" using run' by (simp add: ok_iff)
      show ?thesis unfolding rc'
        by (rule treatsI [where re = "[]" and pl = "[]" and ma = "[cur]" and fa = "[]"])
          (use typed Some blocked id in \<open>simp_all add: recovery_typed_def decided_def reported_def settles_same\<close>)
    next
      case finishing
      then have w: "write_delivery env cur (unknown_terminal (en_now env) cur) rc = (Inr u, rc')"
        using run' by (simp add: PENDING_def)
      from written_terminal [OF w typed, of i] id obtain d where
        "recovery_typed rc'" "same_report rc rc'" "\<And>j. j \<noteq> i \<Longrightarrow> deliveries rc' j = deliveries rc j"
        "deliveries rc' i = Some d" "dl_status d = UnknownTerminal"
        by (auto simp: unknown_terminal_def Let_def PENDING_def)
      then show ?thesis
        by (intro treatsI [where re = "[]" and pl = "[]" and ma = "[]" and fa = "[]"])
          (use Some finishing in \<open>simp_all add: decided_def same_report_def settles_def PENDING_def\<close>)
    next
      case unproven
      then have "if dl_status cur = Accepted then add_retained cur rc = (Inr u, rc')
          else leave_debt env IDENTITY_DEBT cur rc = (Inr u, rc')" using run' by (auto split: if_splits)
      then show ?thesis
        using added_treats(1) [OF typed Some unproven(1,3)] leave_debt_treats [OF _ typed Some unproven(1,3)]
        by (simp split: if_splits)
    next
      case proven
      then consider (expired) b where "lease_over (en_now env) cur" "settle_with env expireDelivery cur rc = (Inr b, rc')"
        | (current) "dl_status cur = Current" "recover_current env r cur rc = (Inr u, rc')"
        | (accepted) "add_retained cur rc = (Inr u, rc')" | (issued) "recover_issued env cur rc = (Inr u, rc')"
        using run' by (auto simp: ok_iff split: if_splits)
      then show ?thesis
      proof cases
        case expired
        from expire_treats [OF expired(2) typed _ expired(1) proven(1,3)] id Some show ?thesis by simp
      next
        case current
        then show ?thesis using recover_current_treats [OF current(2) typed Some current(1)] by simp
      next
        case accepted
        then show ?thesis using added_treats(1) [OF typed Some proven(1,3)] by simp
      next
        case issued
        then show ?thesis using recover_issued_treats [OF issued typed Some proven(1,3)] by simp
      qed
    qed
  qed
qed

subsection \<open>The other loops\<close>

lemma failed_write: "durable env body rc = (Inl e, rc') \<Longrightarrow> rv_repo rc' = rv_repo rc \<and> same_report rc rc'"
  by (auto simp: durable_def mutate_def flush_def same_report_def Let_def
      split: prod.splits sum.splits if_splits)

lemma durable_typed:
  assumes "durable env body rc = (x, rc')" and "recovery_typed rc"
    and "\<And>y sg. body (stage (rv_repo rc)) = Inr (y, sg) \<Longrightarrow> typed (stage (rv_repo rc)) sg"
  shows "recovery_typed rc'"
  using mutate_typed [where body = body and commits = "en_commits env (rv_writes rc)" and rp = "rv_repo rc", OF _ assms(3)]
    assms(1,2)
  by (auto simp: durable_def recovery_typed_def Let_def split: prod.splits)

lemma durable_report: "durable env body rc = (x, rc') \<Longrightarrow> same_report rc rc'"
  by (auto simp: durable_def same_report_def Let_def split: prod.splits)

definition same_deliveries :: "recovery \<Rightarrow> recovery \<Rightarrow> bool" where
  "same_deliveries rc rc' \<longleftrightarrow> (recovery_typed rc \<longrightarrow> recovery_typed rc' \<and> same_report rc rc' \<and> deliveries rc' = deliveries rc)"

lemma same_deliveries_refl [simp]: "same_deliveries rc rc"
  by (simp add: same_deliveries_def)

lemma same_deliveries_trans [trans]: "same_deliveries a b \<Longrightarrow> same_deliveries b c \<Longrightarrow> same_deliveries a c"
  by (auto simp: same_deliveries_def same_report_def)

lemma put_op_same: "put_op env o' rc = (x, rc') \<Longrightarrow> same_deliveries rc rc'"
proof (cases x)
  case (Inl e)
  assume "put_op env o' rc = (x, rc')"
  with Inl have "rv_repo rc' = rv_repo rc \<and> same_report rc rc'" unfolding put_op_def by (intro failed_write) simp
  then show ?thesis by (simp add: same_deliveries_def recovery_typed_def)
next
  case (Inr u)
  assume "put_op env o' rc = (x, rc')"
  with Inr put_op_view show ?thesis by (auto simp: same_deliveries_def)
qed

lemma compensate_required_same:
  "compensate_required env rs reclaimed o' rc = (out, rc') \<Longrightarrow> same_deliveries rc rc'"
proof (induction rs arbitrary: reclaimed o' rc)
  case (Cons e rs)
  obtain kind ref where e: "e = (kind, ref)" by (cases e)
  show ?case
  proof (cases "kind \<in> set reclaimed \<or> isl (compensate_resource env kind ref (op_id o'))")
    case True
    with Cons e show ?thesis by (auto split: if_splits sum.splits)
  next
    case False
    then obtain v where v: "compensate_resource env kind ref (op_id o') = Inr v" by (cases "compensate_resource env kind ref (op_id o')") auto
    obtain x rc1 where p: "put_op env (compensated_step (en_now env) (reclaimed @ [kind]) o') rc = (x, rc1)"
      by (cases "put_op env (compensated_step (en_now env) (reclaimed @ [kind]) o') rc")
    have "same_deliveries rc1 rc'" using Cons e False v p by (auto simp: Let_def split: sum.splits)
    with put_op_same [OF p] show ?thesis by (rule same_deliveries_trans)
  qed
qed simp

lemma add_op_same:
  "add_compensated o' rc = (Inr u, rc') \<Longrightarrow> same_deliveries rc rc'"
  "add_manual_op o' rc = (Inr u, rc') \<Longrightarrow> same_deliveries rc rc'"
  by (auto simp: add_compensated_def add_manual_op_def ok_iff same_deliveries_def recovery_typed_def same_report_def)

lemma finish_compensation_same:
  "finish_compensation env snapshot outcome rc = (Inr u, rc') \<Longrightarrow> same_deliveries rc rc'"
  by (auto simp: finish_compensation_def Let_def ok_iff split: prod.splits option.splits if_splits
      dest!: put_op_same add_op_same intro: same_deliveries_trans)

lemma recover_operation_same: "recover_operation env o' rc = (Inr u, rc') \<Longrightarrow> same_deliveries rc rc'"
proof -
  assume run: "recover_operation env o' rc = (Inr u, rc')"
  let ?o = "begin_compensation (en_now env) o'"
  consider "rc' = rc" | "add_manual_op o' rc = (Inr u, rc')"
    | rc1 out rc2 where "put_op env ?o rc = (Inr (), rc1)"
        "compensate_required env (required_resources ?o) (or_else (op_compensatedResources ?o) []) ?o rc1 = (out, rc2)"
        "finish_compensation env o' out rc2 = (Inr u, rc')"
    using run by (auto simp: recover_operation_def Let_def ok_iff skip_def case_prod_beta split: if_splits) (metis prod.collapse)
  then show ?thesis
  proof cases
    case 3
    from same_deliveries_trans [OF compensate_required_same [OF 3(2)] finish_compensation_same [OF 3(3)]]
    show ?thesis by (rule same_deliveries_trans [OF put_op_same [OF 3(1)]])
  qed (auto dest: add_op_same)
qed

lemma recover_operations_same: "for_each (recover_operation env) os rc = (Inr u, rc') \<Longrightarrow> same_deliveries rc rc'"
proof (induction os arbitrary: rc)
  case (Cons o' os)
  then obtain rc1 where "recover_operation env o' rc = (Inr (), rc1)" "for_each (recover_operation env) os rc1 = (Inr u, rc')"
    by (auto simp: ok_iff)
  with Cons.IH recover_operation_same show ?case by (blast intro: same_deliveries_trans)
qed (simp add: ok_iff)

text \<open>The first loop reports no delivery.\<close>

definition same_lists :: "recovery \<Rightarrow> recovery \<Rightarrow> bool" where
  "same_lists rc rc' \<longleftrightarrow> (recovery_typed rc \<longrightarrow> recovery_typed rc') \<and> rv_failed rc' = rv_failed rc \<and>
     rv_retained rc' = rv_retained rc \<and> rv_replayable rc' = rv_replayable rc \<and> rv_manual rc' = rv_manual rc"

lemma same_lists_refl [simp]: "same_lists rc rc"
  by (simp add: same_lists_def)

lemma same_lists_trans [trans]: "same_lists a b \<Longrightarrow> same_lists b c \<Longrightarrow> same_lists a c"
  by (simp add: same_lists_def)

lemma durable_lists:
  assumes "durable env body rc = (x, rc')"
    and "\<And>y sg. body (stage (rv_repo rc)) = Inr (y, sg) \<Longrightarrow> typed (stage (rv_repo rc)) sg"
  shows "same_lists rc rc'"
  using durable_typed [OF assms(1) _ assms(2)] durable_report [OF assms(1)]
  by (simp add: same_lists_def same_report_def)

lemma first_child_debt_lists: "first_child_debt env o' reason rc = (Inr u, rc') \<Longrightarrow> same_lists rc rc'"
proof -
  assume "first_child_debt env o' reason rc = (Inr u, rc')"
  then obtain rc1 where p: "put_op env (debt_operation env reason o') rc = (Inr (), rc1)"
    and r: "same_lists rc1 rc'"
    by (auto simp: first_child_debt_def Let_def ok_iff add_manual_op_def block_locus_def same_lists_def
        recovery_typed_def split: option.splits)
  have "same_lists rc rc1" using p [unfolded put_op_def] by (rule durable_lists) (erule typed_step)
  from this r show ?thesis by (rule same_lists_trans)
qed

lemma revert_first_child_lists:
  assumes "revert_first_child env fresh o' fc rc = (Inr u, rc')" shows "same_lists rc rc'"
proof -
  let ?b = "revertFirstDelivery \<lparr>fd_locusId = rw_locusId (fc_row fc), fd_sessionId = fc_child fc,
    fd_revision = fc_revision fc, fd_deliveryId = dl_deliveryId (fc_trigger fc), fd_now = en_now env\<rparr>
    (Some (fc_executionId fc)) RevertDefault (Some (fresh (rv_writes rc)))"
  obtain x rc1 where d: "durable env ?b rc = (x, rc1)" by (cases "durable env ?b rc")
  have "same_lists rc rc1" using d by (rule durable_lists) (erule typed_step)
  also have "same_lists rc1 rc'" using assms d first_child_debt_lists
    by (auto simp: revert_first_child_def add_compensated_def ok_iff same_lists_def recovery_typed_def split: sum.splits)
  finally show ?thesis .
qed

lemma recover_first_child_lists: "recover_first_child env o' rc = (Inr u, rc') \<Longrightarrow> same_lists rc rc'"
  by (auto simp: recover_first_child_def skip_def split: if_splits option.splits sum.splits
      dest!: first_child_debt_lists revert_first_child_lists)

lemma recover_first_children_lists: "for_each (recover_first_child env) os rc = (Inr u, rc') \<Longrightarrow> same_lists rc rc'"
proof (induction os arbitrary: rc)
  case (Cons o' os)
  then obtain rc1 where "recover_first_child env o' rc = (Inr (), rc1)" "for_each (recover_first_child env) os rc1 = (Inr u, rc')"
    by (auto simp: ok_iff)
  with Cons.IH recover_first_child_lists show ?case by (blast intro: same_lists_trans)
qed (simp add: ok_iff)

subsection \<open>The second loop\<close>

text \<open>What the loop over the deliveries \<open>ids\<close> does: the sum of its steps.\<close>

definition treated :: "recovery_env \<Rightarrow> jstr set \<Rightarrow> recovery \<Rightarrow> recovery \<Rightarrow> bool" where
  "treated env ids rc rc' \<longleftrightarrow> recovery_typed rc' \<and> (\<forall>j. j \<notin> ids \<longrightarrow> deliveries rc' j = deliveries rc j) \<and>
     (\<forall>i \<in> ids. decided rc' i) \<and> rv_blocked rc' = rv_blocked rc \<and>
     (\<exists>re pl ma fa. rv_retained rc' = rv_retained rc @ re \<and> rv_replayable rc' = rv_replayable rc @ pl \<and>
        rv_manual rc' = rv_manual rc @ ma \<and> rv_failed rc' = rv_failed rc @ fa \<and>
        (\<forall>i \<in> ids. settles (deliveries rc i) (deliveries rc' i) fa) \<and>
        (\<forall>d \<in> set pl. replay_ok env d \<and> dl_deliveryId d \<in> ids \<and> deliveries rc' (dl_deliveryId d) = Some d) \<and>
        (\<forall>d \<in> set fa. dl_deliveryId d \<in> ids \<and> settled_for env (deliveries rc) d))"

lemma decided_mono:
  assumes "decided rc i" and "deliveries rc' i = deliveries rc i" and "rv_blocked rc' = rv_blocked rc"
    and "rv_retained rc' = rv_retained rc @ re" "rv_replayable rc' = rv_replayable rc @ pl"
      "rv_manual rc' = rv_manual rc @ ma"
  shows "decided rc' i"
  using assms by (auto simp: decided_def reported_def)

lemma settled_for_same:
  "settled_for env ds d \<Longrightarrow> ds' (dl_deliveryId d) = ds (dl_deliveryId d) \<Longrightarrow> settled_for env ds' d"
  by (simp add: settled_for_def)

lemma settles_more: "settles old new fa \<Longrightarrow> set fa \<subseteq> set fa' \<Longrightarrow> settles old new fa'"
  unfolding settles_def by blast

lemma treated_none: "recovery_typed rc \<Longrightarrow> treated env {} rc rc"
  by (simp add: treated_def)

lemma treated_step:
  assumes a: "treats env i rc rc1" and b: "treated env ids rc1 rc2" and i: "i \<notin> ids"
  shows "treated env (insert i ids) rc rc2"
proof -
  from a obtain re pl ma fa where
    a1: "\<And>j. j \<noteq> i \<Longrightarrow> deliveries rc1 j = deliveries rc j" "decided rc1 i" "rv_blocked rc1 = rv_blocked rc"
    and l1: "rv_retained rc1 = rv_retained rc @ re" "rv_replayable rc1 = rv_replayable rc @ pl"
      "rv_manual rc1 = rv_manual rc @ ma" "rv_failed rc1 = rv_failed rc @ fa"
    and s1: "settles (deliveries rc i) (deliveries rc1 i) fa"
    and p1: "\<forall>d \<in> set pl. dl_deliveryId d = i \<and> replay_ok env d \<and> deliveries rc1 i = Some d"
    and f1: "\<forall>d \<in> set fa. dl_deliveryId d = i \<and> settled_for env (deliveries rc) d"
    unfolding treats_def by blast
  from b obtain re' pl' ma' fa' where
    b1: "recovery_typed rc2" "\<And>j. j \<notin> ids \<Longrightarrow> deliveries rc2 j = deliveries rc1 j" "\<forall>j \<in> ids. decided rc2 j"
      "rv_blocked rc2 = rv_blocked rc1"
    and l2: "rv_retained rc2 = rv_retained rc1 @ re'" "rv_replayable rc2 = rv_replayable rc1 @ pl'"
      "rv_manual rc2 = rv_manual rc1 @ ma'" "rv_failed rc2 = rv_failed rc1 @ fa'"
    and s2: "\<forall>j \<in> ids. settles (deliveries rc1 j) (deliveries rc2 j) fa'"
    and p2: "\<forall>d \<in> set pl'. replay_ok env d \<and> dl_deliveryId d \<in> ids \<and> deliveries rc2 (dl_deliveryId d) = Some d"
    and f2: "\<forall>d \<in> set fa'. dl_deliveryId d \<in> ids \<and> settled_for env (deliveries rc1) d"
    unfolding treated_def by blast
  have di: "deliveries rc2 i = deliveries rc1 i" using b1(2) i by blast
  have "decided rc2 i" using a1(2) di b1(4) l2(1-3) by (rule decided_mono)
  then have dec: "\<forall>j \<in> insert i ids. decided rc2 j" using b1(3) by simp
  have same: "deliveries rc1 j = deliveries rc j" if "j \<in> ids" for j using that i by (intro a1(1)) blast
  have fas: "\<forall>d \<in> set (fa @ fa'). dl_deliveryId d \<in> insert i ids \<and> settled_for env (deliveries rc) d"
    using f1 f2 same settled_for_same by fastforce
  have pls: "\<forall>d \<in> set (pl @ pl'). replay_ok env d \<and> dl_deliveryId d \<in> insert i ids \<and>
      deliveries rc2 (dl_deliveryId d) = Some d" using p1 p2 di by auto
  have "settles (deliveries rc i) (deliveries rc2 i) (fa @ fa')"
    unfolding di using s1 by (rule settles_more) simp
  moreover have "settles (deliveries rc j) (deliveries rc2 j) (fa @ fa')" if "j \<in> ids" for j
    using s2 that same [OF that] by (metis settles_more set_append sup_ge2)
  ultimately have set: "\<forall>j \<in> insert i ids. settles (deliveries rc j) (deliveries rc2 j) (fa @ fa')" by blast
  have out: "\<forall>j. j \<notin> insert i ids \<longrightarrow> deliveries rc2 j = deliveries rc j" using a1(1) b1(2) by simp
  have lists: "rv_retained rc2 = rv_retained rc @ (re @ re')" "rv_replayable rc2 = rv_replayable rc @ (pl @ pl')"
    "rv_manual rc2 = rv_manual rc @ (ma @ ma')" "rv_failed rc2 = rv_failed rc @ (fa @ fa')"
    by (simp_all add: l1 l2)
  have blocked: "rv_blocked rc2 = rv_blocked rc" using a1(3) b1(4) by simp
  show ?thesis unfolding treated_def using b1(1) out dec blocked lists set pls fas by blast
qed

lemma recover_deliveries_treated:
  "for_each (recover_delivery env) ds rc = (Inr u, rc') \<Longrightarrow> recovery_typed rc \<Longrightarrow> distinct (map dl_deliveryId ds) \<Longrightarrow>
     treated env (dl_deliveryId ` set ds) rc rc'"
proof (induction ds arbitrary: rc)
  case (Cons d ds)
  then obtain rc1 where d: "recover_delivery env d rc = (Inr (), rc1)"
    and ds: "for_each (recover_delivery env) ds rc1 = (Inr u, rc')" by (auto simp: ok_iff)
  from recover_delivery_treats [OF d Cons.prems(2)] have t: "treats env (dl_deliveryId d) rc rc1" .
  then have "recovery_typed rc1" by (simp add: treats_def)
  with Cons.IH [OF ds] Cons.prems(3) have "treated env (dl_deliveryId ` set ds) rc1 rc'" by simp
  from treated_step [OF t this] Cons.prems(3) show ?case by simp
qed (simp add: ok_iff treated_none)

text \<open>The deliveries a list reports have distinct ids: they are the keys of the table.\<close>

lemma pending_ids:
  assumes "repo_typed rp"
  shows "distinct (map dl_deliveryId (listPendingDeliveries rp))"
    "dl_deliveryId ` set (listPendingDeliveries rp) =
       {i. \<exists>d. map_of (deliveries_of rp) i = Some d \<and> dl_status d \<in> PENDING}"
proof -
  let ?m = "deliveries_of rp"
  have wf: "distinct (keys ?m)" using repo_typed_wf [OF assms] by (simp add: wf_tables_def deliveries_of_def)
  have key: "dl_deliveryId d = k" if "(k, d) \<in> set ?m" for k d
    using map_of_is_SomeI [OF wf that] assms by (simp add: repo_typed_def deliveries_ok_def)
  have ids: "map dl_deliveryId (vals ?m) = keys ?m" using key by (auto intro: map_cong)
  then have d: "distinct (map dl_deliveryId (vals ?m))" by (subst ids) (rule wf)
  then show "distinct (map dl_deliveryId (listPendingDeliveries rp))"
    unfolding listPendingDeliveries_def by (rule distinct_map_filter)
  have nt: "NON_TERMINAL_DELIVERY = PENDING" by (auto simp: NON_TERMINAL_DELIVERY_def PENDING_def)
  show "dl_deliveryId ` set (listPendingDeliveries rp) =
       {i. \<exists>d. map_of ?m i = Some d \<and> dl_status d \<in> PENDING}"
    using key map_of_is_SomeI [OF wf] by (force simp: listPendingDeliveries_def nt dest: map_of_SomeD)
qed

subsection \<open>The whole pass\<close>

lemma recovery_phases:
  assumes "recoverLocusStartupV20 env rp = (Inr (), rc)" and "repo_typed rp"
  obtains rc1 rc2 where
    "for_each_of listRecoverableOperations (recover_first_child env) (start_recovery rp) = (Inr (), rc1)"
    "recovery_typed rc1" "same_lists (start_recovery rp) rc1"
    "treated env {i. \<exists>d. deliveries rc1 i = Some d \<and> dl_status d \<in> PENDING} rc1 rc2"
    "same_deliveries rc2 rc"
proof -
  from assms(1) obtain rc1 rc2 where
    r1: "for_each_of listRecoverableOperations (recover_first_child env) (start_recovery rp) = (Inr (), rc1)"
    and r2: "for_each_of listPendingDeliveries (recover_delivery env) rc1 = (Inr (), rc2)"
    and r3: "for_each_of listRecoverableOperations (recover_operation env) rc2 = (Inr (), rc)"
    by (auto simp: recoverLocusStartupV20_def ok_iff split: sum.splits)
  have l: "same_lists (start_recovery rp) rc1"
    using r1 unfolding for_each_of_def by (rule recover_first_children_lists)
  moreover have "recovery_typed (start_recovery rp)" using assms(2) by (simp add: recovery_typed_def start_recovery_def)
  ultimately have t1: "recovery_typed rc1" by (simp add: same_lists_def)
  then have rt: "repo_typed (rv_repo rc1)" by (simp add: recovery_typed_def)
  have "treated env (dl_deliveryId ` set (listPendingDeliveries (rv_repo rc1))) rc1 rc2"
    using r2 [unfolded for_each_of_def] t1 pending_ids(1) [OF rt] by (rule recover_deliveries_treated)
  with r1 t1 l r3 show thesis
    using that unfolding pending_ids(2) [OF rt] for_each_of_def by (blast intro: recover_operations_same)
qed

end
