(* ===== verification/PetReconcileTheorems.thy ===== *)
theory PetReconcileTheorems
  imports PetReconcileSafety
begin

text \<open>
  The properties of startup recovery: every pending delivery is decided, only unissued or provably
  unconsumed work is replayed, a delivery is settled for a cause, and the pass moves through public writes
  of the repository only.
\<close>

subsection \<open>A pass is a run of public writes\<close>

text \<open>\<open>inv\<close> is kept and the repository moves by public writes, whatever the outcome.\<close>

definition moves :: "(recovery \<Rightarrow> bool) \<Rightarrow> 'a pass \<Rightarrow> bool" where
  "moves I m \<longleftrightarrow> (\<forall>rc. I rc \<longrightarrow> I (snd (m rc)) \<and> repo_step\<^sup>*\<^sup>* (rv_repo rc) (rv_repo (snd (m rc))))"

lemma movesI:
  "(\<And>rc. I rc \<Longrightarrow> I (snd (m rc)) \<and> repo_step\<^sup>*\<^sup>* (rv_repo rc) (rv_repo (snd (m rc)))) \<Longrightarrow> moves I m"
  by (simp add: moves_def)

lemma movesD:
  assumes "moves I m" and "I rc" and "m rc = (x, rc')"
  shows "I rc'" and "repo_step\<^sup>*\<^sup>* (rv_repo rc) (rv_repo rc')"
  using assms unfolding moves_def by (metis snd_conv)+

lemma moves_and_then:
  assumes "moves I m" and "\<And>x. moves I (f x)"
  shows "moves I (and_then m f)"
proof (rule movesI)
  fix rc assume i: "I rc"
  obtain x rc1 where m: "m rc = (x, rc1)" by (cases "m rc")
  note a = movesD [OF assms(1) i m]
  show "I (snd (and_then m f rc)) \<and> repo_step\<^sup>*\<^sup>* (rv_repo rc) (rv_repo (snd (and_then m f rc)))"
  proof (cases x)
    case (Inr y)
    obtain z rc2 where "f y rc1 = (z, rc2)" by (cases "f y rc1")
    from movesD [OF assms(2) a(1) this] a(2) this show ?thesis
      by (simp add: and_then_def m Inr)
  qed (use a in \<open>simp add: and_then_def m\<close>)
qed

lemma moves_for_each: "(\<And>x. moves I (f x)) \<Longrightarrow> moves I (for_each f xs)"
proof (induction xs)
  case Nil
  then show ?case by (simp add: moves_def skip_def)
next
  case (Cons x xs)
  from Cons.IH [OF Cons.prems] Cons.prems show ?case by (simp add: moves_and_then)
qed

lemma moves_for_each_of: "(\<And>x. moves I (f x)) \<Longrightarrow> moves I (for_each_of xs f)"
  using moves_for_each unfolding moves_def for_each_of_def by blast

lemma moves_skip [simp, intro]: "moves I skip"
  by (simp add: moves_def skip_def)

text \<open>The invariant of the pass: no session id that the allocator may still give is in use.\<close>

definition spare :: "recovery_env \<Rightarrow> recovery \<Rightarrow> bool" where
  "spare env rc \<longleftrightarrow> repo_ok (rv_repo rc) \<and>
     (\<forall>fresh n. en_reserve env = Some fresh \<longrightarrow> rv_writes rc \<le> n \<longrightarrow> unused (fresh n) (rv_repo rc))"

lemma moves_same_repo:
  assumes "\<And>rc. rv_repo (snd (m rc)) = rv_repo rc \<and> rv_writes (snd (m rc)) = rv_writes rc"
  shows "moves (spare env) m"
  by (rule movesI) (simp add: spare_def assms)

lemma moves_records [simp, intro]:
  "moves (spare env) (add_failed d)" "moves (spare env) (add_retained d)" "moves (spare env) (add_replayable d)"
  "moves (spare env) (add_manual d)" "moves (spare env) (add_compensated o')" "moves (spare env) (add_manual_op o')"
  "moves (spare env) (block_locus l)"
  by (rule moves_same_repo; simp add: add_failed_def add_retained_def add_replayable_def add_manual_def
      add_compensated_def add_manual_op_def block_locus_def record_in_def skip_def split: option.splits)+

text \<open>What a write may do to the session ids of the rows: leave them, or use some of \<open>F\<close>.\<close>

definition within :: "jstr set \<Rightarrow> staged \<Rightarrow> staged \<Rightarrow> bool" where
  "within F sg sg' \<longleftrightarrow> keeps sg sg' \<and> sessions (staged_get tb_loci sg') \<subseteq> sessions (staged_get tb_loci sg) \<union> F"

lemma within_refl [simp]: "within F sg sg"
  by (simp add: within_def)

lemma within_trans [trans]: "within F a b \<Longrightarrow> within F b c \<Longrightarrow> within F a c"
  unfolding within_def using keeps_trans by blast

lemma within_same: "keeps sg sg' \<Longrightarrow> staged_get tb_loci sg' = staged_get tb_loci sg \<Longrightarrow> within F sg sg'"
  by (simp add: within_def)

lemma within_puts:
  "put_operation k o' sg = Inr sg' \<Longrightarrow> within F sg sg'" "put_delivery k d sg = Inr sg' \<Longrightarrow> within F sg sg'"
  by (rule within_same, erule put_keeps, simp add: put_operation_effect put_delivery_effect)+

lemma put_row_within: "put_row k r sg = Inr sg' \<Longrightarrow> rw_sessionId r \<in> F \<or> staged_get tb_loci sg k' = Some r0 \<and> rw_sessionId r = rw_sessionId r0 \<Longrightarrow> within F sg sg'"
  unfolding within_def
  by (auto simp: put_keeps put_row_effect sessions_def split: if_splits)

lemma cas_within: "putDeliveryCas prev nxt sg = Inr (u, sg') \<Longrightarrow> within F sg sg'"
  by (auto simp: putDeliveryCas_def Let_def ok_iff intro: within_puts)

lemma operation_within: "putOperation o' sg = Inr (u, sg') \<Longrightarrow> within F sg sg'"
  by (auto simp: putOperation_def ok_iff intro: within_puts)

lemma invalid_within:
  assumes "markInvalid fence reason now sg = Inr (r, sg')" and wf: "wf_staged sg"
  shows "within F sg sg'"
proof -
  from assms(1) obtain old where f: "find_locus (staged_all tb_loci sg) (fe_expectedLocusId fence) = Some old"
    and p: "put_row (endpointKeyV20 (rw_endpoint r)) r sg = Inr sg'" "rw_sessionId r = rw_sessionId old"
    unfolding markInvalid_def by (auto simp: ok_iff)
  from f have "old \<in> set (vals (staged_all tb_loci sg))" unfolding find_locus_def by (auto dest: find_SomeD)
  then obtain k where "staged_get tb_loci sg k = Some old" using wf in_vals_iff [OF wf_staged_all(5) [OF wf]] by auto
  with p(2) show ?thesis by (intro put_row_within [OF p(1)]) auto
qed

lemma reserve_within: "reserve fresh sg = (sid, sg') \<Longrightarrow> within F sg sg' \<and> sid \<in> range fresh"
  by (auto simp: reserve_def within_def keeps_def staged_get_add wf_staged_def)

lemma rotate_within:
  assumes "rotateFirstChild r except fresh now sg = Inr (sid, sg')"
  shows "within (range fresh) sg sg'"
proof -
  obtain s sg0 where r: "reserve fresh sg = (s, sg0)" by (cases "reserve fresh sg")
  let ?r = "r\<lparr>rw_verifiedAt := None, rw_stoppedAt := None, rw_invalidReason := None, rw_state := NotCreated,
    rw_sessionId := s, rw_revision := rw_revision r + 1, rw_updatedAt := now\<rparr>"
  from assms r obtain sg1 f ids where p: "put_row (endpointKeyV20 (rw_endpoint r)) ?r sg0 = Inr sg1"
    and t: "retarget f (vals (staged_all tb_deliveries sg1)) sg1 = Inr (ids, sg')"
    unfolding rotateFirstChild_def Let_def by (auto simp: ok_iff)
  have "within (range fresh) sg sg0" using reserve_within [OF r] by blast
  also have "within (range fresh) sg0 sg1" using reserve_within [OF r] by (intro put_row_within [OF p]) simp
  also have "within (range fresh) sg1 sg'" using retarget_keeps [OF t] retarget_loci [OF t] by (rule within_same)
  finally show ?thesis .
qed

lemma revert_within:
  assumes "revertFirstDelivery i ex RevertDefault (Some fresh) sg = Inr (u, sg')"
  shows "within (range fresh) sg sg'"
proof -
  from assms obtain r sid sg1 sg2 where
    r: "rotateFirstChild r (fd_deliveryId i) fresh (fd_now i) sg = Inr (sid, sg1)"
    and t: "settleTriggerFailed (fd_deliveryId i) (js ''first child publication reverted'') (fd_now i) sg1 = Inr sg2"
    and e: "(case ex of None \<Rightarrow> Inr ((), sg2)
        | Some e \<Rightarrow> err_bind (requireOperation sg2 (first_child_id e)) (\<lambda>o'.
            err_bind (put_operation (first_child_id e) (o'\<lparr>op_phase := Compensated,
              op_updatedAt := fd_now i, op_completedAt := Some (fd_now i)\<rparr>) sg2) (\<lambda>sg3. Inr ((), sg3)))) = Inr (u, sg')"
    unfolding revertFirstDelivery_def by (auto simp: ok_iff cong: option.case_cong)
  have "within (range fresh) sg sg1" using r by (rule rotate_within)
  also have "within (range fresh) sg1 sg2"
    using t by (auto simp: settleTriggerFailed_def intro: within_puts split: option.splits)
  also have "within (range fresh) sg2 sg'" using e by (auto simp: ok_iff intro: within_puts split: option.splits)
  finally show ?thesis .
qed

subsection \<open>The writes of the pass\<close>

text \<open>The host never hands out the same session id in two writes.\<close>

definition distinct_ids :: "recovery_env \<Rightarrow> bool" where
  "distinct_ids env \<longleftrightarrow> (\<forall>fresh n n'. en_reserve env = Some fresh \<longrightarrow> n \<noteq> n' \<longrightarrow> range (fresh n) \<inter> range (fresh n') = {})"

lemma durable_moves:
  assumes ids: "distinct_ids env"
    and step: "\<And>rc. spare env rc \<Longrightarrow> repo_step (rv_repo rc) (snd (mutate (en_commits env (rv_writes rc)) (body (rv_writes rc)) (rv_repo rc)))"
    and use: "\<And>sg n x sg'. body n sg = Inr (x, sg') \<Longrightarrow> wf_staged sg \<Longrightarrow>
       within (case en_reserve env of None \<Rightarrow> {} | Some fresh \<Rightarrow> range (fresh n)) sg sg'"
  shows "moves (spare env) (\<lambda>rc. durable env (body (rv_writes rc)) rc)"
proof (rule movesI)
  fix rc assume i: "spare env rc"
  let ?c = "en_commits env (rv_writes rc)" and ?b = "body (rv_writes rc)"
  let ?rc = "snd (durable env ?b rc)"
  obtain x rp where m: "mutate ?c ?b (rv_repo rc) = (x, rp)" by (cases "mutate ?c ?b (rv_repo rc)")
  then have rc': "?rc = rc\<lparr>rv_repo := rp, rv_writes := Suc (rv_writes rc)\<rparr>" by (simp add: durable_def Let_def)
  have st: "repo_step (rv_repo rc) rp" using step [OF i] m by simp
  have ok: "repo_ok (rv_repo rc)" "wf_tables (rp_tables (rv_repo rc))" using i by (simp_all add: spare_def repo_ok_def)
  have "unused (fresh n) rp" if f: "en_reserve env = Some fresh" and n: "Suc (rv_writes rc) \<le> n" for fresh n
  proof -
    have old: "unused (fresh n) (rv_repo rc)" using i f n by (simp add: spare_def)
    have "sessions (map_of (loci_of rp)) \<subseteq> sessions (map_of (loci_of (rv_repo rc))) \<union> range (fresh (rv_writes rc))"
    proof (cases x)
      case (Inl e)
      with m have "rp = rv_repo rc" by (auto simp: mutate_def flush_def split: sum.splits prod.splits if_splits)
      then show ?thesis by simp
    next
      case (Inr y)
      have wf: "wf_staged (stage (rv_repo rc))" using ok(2) by simp
      have k: "wf_staged sg \<and> sg_domain sg = rp_tables (rv_repo rc)" if "?b (stage (rv_repo rc)) = Inr (y, sg)" for sg
        using use [OF that] ok(2) wf by (simp add: within_def keeps_def stage_domain)
      from mutate_view [OF m [unfolded Inr] ok(2) k] obtain sg where
        "?b (stage (rv_repo rc)) = Inr (y, sg)" "map_of (loci_of rp) = staged_get tb_loci sg" .
      then show ?thesis using use [of "rv_writes rc" "stage (rv_repo rc)"] f wf by (simp add: within_def)
    qed
    moreover have "range (fresh n) \<inter> range (fresh (rv_writes rc)) = {}"
      using ids f n unfolding distinct_ids_def by (metis Suc_n_not_le_n)
    ultimately show ?thesis using old unfolding unused_def by blast
  qed
  then have "spare env ?rc" using repo.step_inv [OF ok(1) st] by (simp add: rc' spare_def)
  moreover have "repo_step\<^sup>*\<^sup>* (rv_repo rc) (rv_repo ?rc)" using st by (simp add: rc' r_into_rtranclp)
  ultimately show "spare env ?rc \<and> repo_step\<^sup>*\<^sup>* (rv_repo rc) (rv_repo ?rc)" by simp
qed

text \<open>One outcome \<open>p\<close> of a pass started in \<open>rc\<close>.\<close>

definition goes :: "recovery_env \<Rightarrow> recovery \<Rightarrow> 'a \<times> recovery \<Rightarrow> bool" where
  "goes env rc p \<longleftrightarrow> spare env (snd p) \<and> repo_step\<^sup>*\<^sup>* (rv_repo rc) (rv_repo (snd p))"

lemma moves_goes: "moves (spare env) m \<longleftrightarrow> (\<forall>rc. spare env rc \<longrightarrow> goes env rc (m rc))"
  by (simp add: moves_def goes_def)

lemma goesI: "moves (spare env) m \<Longrightarrow> spare env rc \<Longrightarrow> goes env rc (m rc)"
  by (simp add: moves_goes)

lemma goes_here: "spare env rc \<Longrightarrow> goes env rc (x, rc)"
  by (simp add: goes_def)

lemma goes_trans: "goes env rc (x, rc1) \<Longrightarrow> goes env rc1 p \<Longrightarrow> goes env rc p"
  unfolding goes_def by (metis rtranclp_trans snd_conv)

lemma goes_spare: "goes env rc (x, rc1) \<Longrightarrow> spare env rc1"
  by (simp add: goes_def)

lemma write_moves:
  assumes "distinct_ids env"
  shows "moves (spare env) (write_delivery env prev nxt)" "moves (spare env) (put_op env o')"
    "moves (spare env) (durable env (markInvalid fence reason now))"
  unfolding write_delivery_def put_op_def
  by (rule durable_moves [OF assms, where body = "\<lambda>_. putDeliveryCas prev nxt", simplified],
      rule put_cas, erule cas_within,
      rule durable_moves [OF assms, where body = "\<lambda>_. putOperation o'", simplified],
      rule repo_step.put_op, erule operation_within,
      rule durable_moves [OF assms, where body = "\<lambda>_. markInvalid fence reason now", simplified],
      rule invalidate, erule (1) invalid_within)

lemma revert_moves:
  assumes "distinct_ids env" and "en_reserve env = Some fresh"
  shows "moves (spare env) (\<lambda>rc. durable env (revertFirstDelivery i ex RevertDefault (Some (fresh (rv_writes rc)))) rc)"
  by (rule durable_moves [OF assms(1), where body = "\<lambda>n. revertFirstDelivery i ex RevertDefault (Some (fresh n))"])
    (auto simp: assms(2) spare_def intro: revert_first dest: revert_within)

lemmas pass_moves = write_moves moves_records moves_skip

lemma invalidateIfActive_moves:
  assumes "distinct_ids env" shows "moves (spare env) (invalidateIfActive env l)"
proof -
  have m: "moves (spare env) (and_then (durable env (markInvalid fence reason now)) (\<lambda>_. skip))" for fence reason now
    by (intro moves_and_then write_moves(3) [OF assms] moves_skip)
  show ?thesis unfolding moves_goes
    by (auto simp: invalidateIfActive_def skip_def goes_here goesI [OF m] split: option.splits)
qed

lemma leave_debt_moves: "distinct_ids env \<Longrightarrow> moves (spare env) (leave_debt env reason cur)"
  unfolding leave_debt_def by (intro moves_and_then) (auto simp: pass_moves)

lemma settle_with_moves:
  assumes "distinct_ids env" shows "moves (spare env) (settle_with env tr cur)"
proof -
  have p: "moves (spare env) (Pair x)" for x by (simp add: moves_def)
  have m: "moves (spare env) (and_then (write_delivery env cur r) (\<lambda>_. and_then (add_failed r) (\<lambda>_. Pair (Inr True))))" for r
    by (intro moves_and_then write_moves(1) [OF assms] moves_records p)
  show ?thesis unfolding moves_goes
    by (auto simp: settle_with_def goes_here goesI [OF m] split: sum.splits option.splits)
qed

lemma recover_delivery_moves:
  assumes d: "distinct_ids env" shows "moves (spare env) (recover_delivery env snapshot)"
proof -
  note step = write_moves [OF d] leave_debt_moves [OF d] settle_with_moves [OF d] invalidateIfActive_moves [OF d] moves_records
    moves_skip
  have c: "moves (spare env) (recover_current env r cur)" for r cur
    unfolding recover_current_def Let_def by (auto simp: step intro!: moves_and_then)
  have i: "moves (spare env) (recover_issued env cur)" for cur
    unfolding recover_issued_def Let_def by (auto simp: step intro!: moves_and_then split: option.splits)
  have e: "moves (spare env) (and_then (settle_with env expireDelivery cur) (\<lambda>_. skip))" for cur
    by (intro moves_and_then step)
  show ?thesis unfolding moves_goes
    by (auto simp: recover_delivery_def skip_def goes_here goesI [OF c] goesI [OF i] goesI [OF e] goesI [OF step(1)]
        goesI [OF step(4)] goesI [OF moves_records(2)] goesI [OF moves_records(4)] split: option.splits)
qed

lemma compensate_required_goes:
  "distinct_ids env \<Longrightarrow> spare env rc \<Longrightarrow> goes env rc (compensate_required env rs reclaimed o' rc)"
proof (induction rs arbitrary: reclaimed o' rc)
  case Nil
  then show ?case by (simp add: goes_here)
next
  case (Cons e rs)
  obtain kind ref where e: "e = (kind, ref)" by (cases e)
  let ?o = "compensated_step (en_now env) (reclaimed @ [kind]) o'"
  obtain x rc1 where p: "put_op env ?o rc = (x, rc1)" by (cases "put_op env ?o rc")
  have g: "goes env rc (x, rc1)" using goesI [OF write_moves(2) [OF Cons.prems(1)] Cons.prems(2), of ?o] p by simp
  have s: "spare env rc1" using g by (rule goes_spare)
  have next1: "goes env rc (compensate_required env rs (reclaimed @ [kind]) ?o rc1)"
    by (rule goes_trans [OF g Cons.IH [OF Cons.prems(1) s]])
  have stop1: "goes env rc (y, rc1)" for y :: "operation \<times> compensated_resource list \<times> jstr option"
    using g by (simp add: goes_def)
  show ?case
    using Cons.IH [OF Cons.prems] Cons.prems(2) next1 stop1 p
    by (auto simp: e Let_def goes_here split: sum.splits)
qed

lemma recover_operation_moves:
  assumes d: "distinct_ids env" shows "moves (spare env) (recover_operation env o')"
proof -
  have f: "moves (spare env) (finish_compensation env o' out)" for out
    unfolding finish_compensation_def Let_def
    by (auto intro!: moves_and_then simp: write_moves [OF d] split: prod.splits option.splits)
  have tail: "moves (spare env) (\<lambda>rc'. case compensate_required env rs reclaimed x rc' of
      (outcome, rc'') \<Rightarrow> finish_compensation env o' outcome rc'')" for rs reclaimed x
    unfolding moves_goes
  proof (intro allI impI)
    fix rc assume s: "spare env rc"
    obtain out rc2 where c: "compensate_required env rs reclaimed x rc = (out, rc2)"
      by (cases "compensate_required env rs reclaimed x rc")
    have g: "goes env rc (out, rc2)" using compensate_required_goes [OF d s, of rs reclaimed x] c by simp
    show "goes env rc (case compensate_required env rs reclaimed x rc of
        (outcome, rc'') \<Rightarrow> finish_compensation env o' outcome rc'')"
      using goes_trans [OF g goesI [OF f goes_spare [OF g], of out]] by (simp add: c)
  qed
  have m: "moves (spare env) (and_then (put_op env x) (\<lambda>_ rc'. case compensate_required env rs reclaimed x rc' of
      (outcome, rc'') \<Rightarrow> finish_compensation env o' outcome rc''))" for x rs reclaimed
    by (intro moves_and_then write_moves(2) [OF d] tail)
  show ?thesis unfolding moves_goes
    by (auto simp: recover_operation_def skip_def goes_here Let_def goesI [OF moves_records(6)]
        intro: goesI [OF m, of _ "begin_compensation (en_now env) o'"])
qed

lemma recover_first_child_moves:
  assumes d: "distinct_ids env" shows "moves (spare env) (recover_first_child env o')"
proof -
  have debt: "moves (spare env) (first_child_debt env o' reason)" for reason
    unfolding first_child_debt_def Let_def by (intro moves_and_then write_moves(2) [OF d] moves_records)
  have r: "goes env rc (revert_first_child env fresh o' fc rc)"
    if f: "en_reserve env = Some fresh" and s: "spare env rc" for fresh fc rc
  proof -
    let ?i = "\<lparr>fd_locusId = rw_locusId (fc_row fc), fd_sessionId = fc_child fc,
      fd_revision = fc_revision fc, fd_deliveryId = dl_deliveryId (fc_trigger fc), fd_now = en_now env\<rparr>"
    let ?b = "\<lambda>n. revertFirstDelivery ?i (Some (fc_executionId fc)) RevertDefault (Some (fresh n))"
    obtain x rc1 where c: "durable env (?b (rv_writes rc)) rc = (x, rc1)" by (cases "durable env (?b (rv_writes rc)) rc")
    have g: "goes env rc (x, rc1)" using goesI [OF revert_moves [OF d f, of ?i "Some (fc_executionId fc)"] s] c by simp
    have s1: "spare env rc1" using g by (rule goes_spare)
    show ?thesis unfolding revert_first_child_def c
      using goes_trans [OF g goesI [OF debt s1]] goes_trans [OF g goesI [OF moves_records(5) s1]]
      by (auto split: sum.splits)
  qed
  show ?thesis unfolding moves_goes
    by (auto simp: recover_first_child_def skip_def goes_here goesI [OF debt] r split: option.splits sum.splits)
qed

lemma recovery_goes:
  assumes "distinct_ids env" and "spare env (start_recovery rp)"
  shows "goes env (start_recovery rp) (recoverLocusStartupV20 env rp)"
proof -
  have "moves (spare env) (and_then (for_each_of listRecoverableOperations (recover_first_child env)) (\<lambda>_.
      and_then (for_each_of listPendingDeliveries (recover_delivery env)) (\<lambda>_.
        for_each_of listRecoverableOperations (recover_operation env))))"
    by (intro moves_and_then moves_for_each_of recover_first_child_moves recover_delivery_moves
        recover_operation_moves assms(1))
  from goesI [OF this assms(2)] show ?thesis
    by (simp add: recoverLocusStartupV20_def goes_here assms(2) split: sum.splits)
qed

subsection \<open>A concrete pass\<close>

text \<open>Two messages wait at an entry whose child does not exist yet; the first of them is current.\<close>

definition rp3b :: repository where
  "rp3b = snd (mutate True (acceptDelivery_row [] 20 (message ''b'')) rp3)"

definition rp3c :: repository where
  "rp3c = snd (mutate True (claimCurrentDelivery_row \<lparr>co_endpoint = \<lparr>ep_chatId = js ''c'', ep_threadId = None\<rparr>,
     co_locusId = js ''g'', co_sessionId = js ''sg'', cl_now = 30, cl_deliveryId = None, cl_expectedRevision = None\<rparr>) rp3b)"

definition restart :: "int \<Rightarrow> recovery_env" where
  "restart now = \<lparr>en_now = now, en_commits = (\<lambda>_. True), en_proof = (\<lambda>_. None), en_terminate = None,
     en_chat = None, en_mainSession = None, en_locusMainSession = None, en_childSession = None,
     en_reserve = Some (\<lambda>n k. js ''new'' @ [n, k]), en_message = (\<lambda>_. js ''failed'')\<rparr>"

definition restarted :: "int \<Rightarrow> recovery" where
  "restarted now = snd (recoverLocusStartupV20 (restart now) rp3c)"

lemma waiting_run: "repo_step\<^sup>*\<^sup>* (fresh_repository True) rp3c"
proof -
  have "rp_accessChanging rp3 = []" by code_simp
  then have "repo_step rp3 rp3b" using accept [of rp3 True 20 "message ''b''"] unfolding rp3b_def by simp
  moreover have "repo_step rp3b rp3c" unfolding rp3c_def claimCurrentDelivery_row_def by (rule ledger)
  ultimately show ?thesis by (meson demo_run rtranclp.rtrancl_refl rtranclp.rtrancl_into_rtrancl)
qed

lemma restarts: "recoverLocusStartupV20 (restart 40) rp3c = (Inr (), restarted 40)"
proof -
  have "\<not> isl (fst (recoverLocusStartupV20 (restart 40) rp3c))" by code_simp
  from answered [OF this] show ?thesis by (auto simp: restarted_def)
qed

lemma restart_ids: "distinct_ids (restart now)" "spare (restart now) (start_recovery rp3c)"
proof -
  show "distinct_ids (restart now)" by (auto simp: distinct_ids_def restart_def)
  have ok: "repo_ok rp3c" by (rule repo.run_inv [OF waiting_run fresh_ok])
  have "rw_sessionId ` set (vals (loci_of rp3c)) = {js ''sg'', js ''st''}" by code_simp
  then have sub: "sessions (map_of (loci_of rp3c)) \<subseteq> {js ''sg'', js ''st''}"
    unfolding sessions_def by (force dest: map_of_SomeD)
  have "js ''new'' @ [n, k] \<notin> sessions (map_of (loci_of rp3c))" for n k
  proof -
    have "length x = 2" if "x \<in> sessions (map_of (loci_of rp3c))" for x
      using that sub by (auto simp: js_def)
    from this [of "js ''new'' @ [n, k]"] show ?thesis by (auto simp: js_def)
  qed
  with ok show "spare (restart now) (start_recovery rp3c)"
    by (simp add: spare_def unused_def start_recovery_def restart_def)
qed

lemma fresh_typed: "repo_typed (fresh_repository atomic)"
  by (simp add: repo_typed_def deliveries_ok_def fresh_repository_def wf_tables_def deliveries_of_def)

lemmas reached_typed = delivery_table.run_inv [OF _ fresh_typed]

lemma listed_pending:
  assumes "repo_typed rp" and "d \<in> set (listPendingDeliveries rp)"
  shows "map_of (deliveries_of rp) (dl_deliveryId d) = Some d" "dl_status d \<in> PENDING"
proof -
  have wf: "distinct (keys (deliveries_of rp))" using repo_typed_wf [OF assms(1)] by (simp add: wf_tables_def deliveries_of_def)
  from assms(2) obtain k where k: "(k, d) \<in> set (deliveries_of rp)" and "dl_status d \<in> NON_TERMINAL_DELIVERY"
    by (auto simp: listPendingDeliveries_def)
  then show "dl_status d \<in> PENDING" by (simp add: NON_TERMINAL_DELIVERY_def PENDING_def)
  have "map_of (deliveries_of rp) k = Some d" by (rule map_of_is_SomeI [OF wf k])
  moreover from this assms(1) have "dl_deliveryId d = k" by (simp add: repo_typed_def deliveries_ok_def)
  ultimately show "map_of (deliveries_of rp) (dl_deliveryId d) = Some d" by simp
qed

subsection \<open>Properties\<close>

text \<open>
  C24: a startup pass that completes leaves no pending delivery undecided: every delivery that is still
  pending afterwards is reported as retained, as replayable, or as waiting for an operator, and one that
  still awaits its outbound result belongs to an entry the pass has blocked.
\<close>

theorem startup_recovery_decides_every_delivery:
  assumes "repo_step\<^sup>*\<^sup>* (fresh_repository atomic) rp" and "recoverLocusStartupV20 env rp = (Inr (), rc)"
  shows "\<forall>d \<in> set (listPendingDeliveries (rv_repo rc)).
    dl_deliveryId d \<in> dl_deliveryId ` (set (rv_retained rc) \<union> set (rv_replayable rc) \<union> set (rv_manual rc)) \<and>
    (dl_status d = Finishing \<longrightarrow> co_locusId d \<in> set (rv_blocked rc))"
proof
  fix d
  assume d: "d \<in> set (listPendingDeliveries (rv_repo rc))"
  have typed: "repo_typed rp" by (rule reached_typed [OF assms(1)])
  from recovery_phases [OF assms(2) typed] obtain rc1 rc2 where "recovery_typed rc1"
    and t: "treated env {i. \<exists>d. deliveries rc1 i = Some d \<and> dl_status d \<in> PENDING} rc1 rc2" and s: "same_deliveries rc2 rc" .
  let ?i = "dl_deliveryId d"
  have r2: "recovery_typed rc2" using t by (simp add: treated_def)
  have r: "repo_typed (rv_repo rc)" and same: "same_report rc2 rc" "deliveries rc = deliveries rc2"
    using s r2 by (auto simp: same_deliveries_def recovery_typed_def)
  from pending_ids(2) [OF r] d obtain d' where "deliveries rc ?i = Some d'" "dl_status d' \<in> PENDING" by blast
  moreover have "deliveries rc ?i = Some d" "dl_status d \<in> PENDING" using d listed_pending [OF r] by blast+
  moreover have "decided rc2 ?i"
  proof (cases "\<exists>d. deliveries rc1 ?i = Some d \<and> dl_status d \<in> PENDING")
    case False
    then have "deliveries rc2 ?i = deliveries rc1 ?i" using t by (simp add: treated_def)
    then show ?thesis using False by (auto simp: decided_def)
  qed (use t in \<open>auto simp: treated_def\<close>)
  ultimately show "?i \<in> dl_deliveryId ` (set (rv_retained rc) \<union> set (rv_replayable rc) \<union> set (rv_manual rc)) \<and>
      (dl_status d = Finishing \<longrightarrow> co_locusId d \<in> set (rv_blocked rc))"
    using same by (simp add: decided_def reported_def same_report_def)
qed

theorem startup_recovery_decides_every_delivery_witness:
  "map dl_deliveryId (listPendingDeliveries (rv_repo (restarted 40))) = [js ''a'', js ''b''] \<and>
   js ''b'' \<in> dl_deliveryId ` (set (rv_retained (restarted 40)) \<union> set (rv_replayable (restarted 40)) \<union>
     set (rv_manual (restarted 40)))"
proof -
  have l: "map dl_deliveryId (listPendingDeliveries (rv_repo (restarted 40))) = [js ''a'', js ''b'']" by code_simp
  then have "js ''b'' \<in> dl_deliveryId ` set (listPendingDeliveries (rv_repo (restarted 40)))"
    by (metis list.set_intros(1,2) list.set_map)
  with l startup_recovery_decides_every_delivery [OF waiting_run restarts] show ?thesis by auto
qed

text \<open>
  C25: startup replays nothing that a child may already have consumed. Every delivery reported as replayable
  is the one still stored, is current, and either was never issued (no execution, inbox message or turn) or
  the host proved that its inbox message was not consumed.
\<close>

theorem startup_replays_only_unconsumed_work:
  assumes "repo_step\<^sup>*\<^sup>* (fresh_repository atomic) rp" and "recoverLocusStartupV20 env rp = (Inr (), rc)"
  shows "\<forall>d \<in> set (rv_replayable rc). getDelivery_row (rv_repo rc) (dl_deliveryId d) = Some d \<and>
    dl_status d = Current \<and> (unissued d \<or> unconsumed_proof d (en_proof env d))"
proof
  fix d
  assume d: "d \<in> set (rv_replayable rc)"
  have typed: "repo_typed rp" by (rule reached_typed [OF assms(1)])
  from recovery_phases [OF assms(2) typed] obtain rc1 rc2 where l: "same_lists (start_recovery rp) rc1"
    and t: "treated env {i. \<exists>d. deliveries rc1 i = Some d \<and> dl_status d \<in> PENDING} rc1 rc2" and s: "same_deliveries rc2 rc" .
  have r2: "recovery_typed rc2" using t by (simp add: treated_def)
  have same: "rv_replayable rc = rv_replayable rc2" "deliveries rc = deliveries rc2"
    using s r2 by (auto simp: same_deliveries_def same_report_def)
  have "rv_replayable rc1 = []" using l by (simp add: same_lists_def start_recovery_def)
  with t d same have "replay_ok env d \<and> deliveries rc (dl_deliveryId d) = Some d" by (auto simp: treated_def)
  then show "getDelivery_row (rv_repo rc) (dl_deliveryId d) = Some d \<and> dl_status d = Current \<and>
      (unissued d \<or> unconsumed_proof d (en_proof env d))" by (simp add: replay_ok_def getDelivery_row_def)
qed

theorem startup_replays_only_unconsumed_work_witness:
  "map dl_deliveryId (rv_replayable (restarted 40)) = [js ''a''] \<and>
   (\<exists>d. getDelivery_row (rv_repo (restarted 40)) (js ''a'') = Some d \<and> dl_status d = Current \<and> unissued d)"
proof -
  have l: "map dl_deliveryId (rv_replayable (restarted 40)) = [js ''a'']" by code_simp
  then obtain d where d: "rv_replayable (restarted 40) = [d]" "dl_deliveryId d = js ''a''" by auto
  have "\<not> unconsumed_proof d (en_proof (restart 40) d)" by (simp add: restart_def)
  with d l startup_replays_only_unconsumed_work [OF waiting_run restarts] show ?thesis by auto
qed

text \<open>
  Startup ends a pending delivery only for a cause. With \<open>cur\<close> the delivery as the pass finds it (after
  its first loop) and \<open>d\<close> as it leaves it: a reply whose result was lost becomes an unknown terminal, and
  every other delivery that ends is in the report and either expired with its lease over, or failed with a
  proof that its turn was interrupted, or failed with no proof of a live turn and its execution terminated.
\<close>

theorem startup_ends_deliveries_for_a_cause:
  assumes "repo_step\<^sup>*\<^sup>* (fresh_repository atomic) rp" and "recoverLocusStartupV20 env rp = (Inr (), rc)"
    and "for_each_of listRecoverableOperations (recover_first_child env) (start_recovery rp) = (Inr (), rc1)"
    and "getDelivery_row (rv_repo rc1) i = Some cur" and "dl_status cur \<in> PENDING"
    and "getDelivery_row (rv_repo rc) i = Some d" and "dl_status d \<notin> PENDING"
  shows "(dl_status cur = Finishing \<and> dl_status d = UnknownTerminal) \<or>
    (\<exists>x \<in> set (rv_failed rc). dl_deliveryId x = i \<and> dl_status x = dl_status d \<and>
       (dl_status d = Expired \<and> lease_over (en_now env) cur \<or>
        dl_status d = Failed \<and> interrupted_proof cur (en_proof env cur) \<or>
        dl_status d = Failed \<and> running_proof cur (en_proof env cur) = None \<and>
          (\<exists>terminate. en_terminate env = Some terminate \<and> terminate cur)))"
proof -
  have typed: "repo_typed rp" by (rule reached_typed [OF assms(1)])
  from recovery_phases [OF assms(2) typed] obtain rc1' rc2 where
    r1: "for_each_of listRecoverableOperations (recover_first_child env) (start_recovery rp) = (Inr (), rc1')"
    and l': "same_lists (start_recovery rp) rc1'"
    and t': "treated env {i. \<exists>d. deliveries rc1' i = Some d \<and> dl_status d \<in> PENDING} rc1' rc2"
    and s: "same_deliveries rc2 rc" .
  have "rc1' = rc1" using r1 assms(3) by simp
  note l = l' [unfolded this] and t = t' [unfolded this]
  have r2: "recovery_typed rc2" using t by (simp add: treated_def)
  have same: "rv_failed rc = rv_failed rc2" "deliveries rc = deliveries rc2"
    using s r2 by (auto simp: same_deliveries_def same_report_def)
  have cur: "deliveries rc1 i = Some cur" "deliveries rc2 i = Some d"
    using assms(4,6) same by (simp_all add: getDelivery_row_def)
  have "rv_failed rc1 = []" using l by (simp add: same_lists_def start_recovery_def)
  with t cur(1) assms(5) have a: "settles (deliveries rc1 i) (deliveries rc2 i) (rv_failed rc)"
    and b: "\<forall>x \<in> set (rv_failed rc). settled_for env (deliveries rc1) x" unfolding treated_def same by auto
  from a cur assms(5,7) consider "dl_status cur = Finishing" "dl_status d = UnknownTerminal"
    | x where "x \<in> set (rv_failed rc)" "dl_deliveryId x = dl_deliveryId d" "dl_status x = dl_status d"
    unfolding settles_def by blast
  then show ?thesis
  proof cases
    case 2
    have i: "dl_deliveryId d = i" using typed_delivery [OF r2 cur(2)] by simp
    from b 2(1) have "settled_for env (deliveries rc1) x" by blast
    then show ?thesis using 2 i cur(1) by (auto simp: settled_for_def unrecoverable_def)
  qed simp
qed

theorem startup_ends_deliveries_for_a_cause_witness:
  "\<exists>d. getDelivery_row (rv_repo (restarted 100000000)) (js ''a'') = Some d \<and> dl_status d = Expired \<and>
     (\<exists>x \<in> set (rv_failed (restarted 100000000)). dl_deliveryId x = js ''a'' \<and> dl_status x = Expired)"
proof -
  have "\<not> isl (fst (recoverLocusStartupV20 (restart 100000000) rp3c))" by code_simp
  from answered [OF this] have run: "recoverLocusStartupV20 (restart 100000000) rp3c = (Inr (), restarted 100000000)"
    by (auto simp: restarted_def)
  have "listRecoverableOperations rp3c = []" by code_simp
  then have first: "for_each_of listRecoverableOperations (recover_first_child (restart 100000000)) (start_recovery rp3c) =
      (Inr (), start_recovery rp3c)" by (simp add: for_each_of_def start_recovery_def skip_def)
  have "map_option dl_status (getDelivery_row rp3c (js ''a'')) = Some Current" by code_simp
  then obtain cur where cur: "getDelivery_row (rv_repo (start_recovery rp3c)) (js ''a'') = Some cur" "dl_status cur = Current"
    by (auto simp: start_recovery_def)
  have "map_option dl_status (getDelivery_row (rv_repo (restarted 100000000)) (js ''a'')) = Some Expired" by code_simp
  then obtain d where d: "getDelivery_row (rv_repo (restarted 100000000)) (js ''a'') = Some d" "dl_status d = Expired" by auto
  from startup_ends_deliveries_for_a_cause [OF waiting_run run first cur(1) _ d(1)] cur(2) d show ?thesis
    by (auto simp: PENDING_def)
qed

text \<open>
  Recovery is a run of public writes. Whatever it is told about the host and whichever of its commits
  fail, and also when it gives up halfway, the repository it leaves is reached from the one it found by the
  repository's own operations, so every invariant of the repository survives a restart. The allocator of
  session ids must not repeat itself or hand out an id that an entry already holds.
\<close>

theorem startup_recovery_is_a_run:
  assumes "repo_step\<^sup>*\<^sup>* (fresh_repository atomic) rp"
    and "\<And>fresh n n' k k'. en_reserve env = Some fresh \<Longrightarrow> n \<noteq> n' \<Longrightarrow> fresh n k \<noteq> fresh n' k'"
    and "\<And>fresh n. en_reserve env = Some fresh \<Longrightarrow> unused (fresh n) rp"
  shows "repo_step\<^sup>*\<^sup>* rp (rv_repo (snd (recoverLocusStartupV20 env rp))) \<and>
    repo_ok (rv_repo (snd (recoverLocusStartupV20 env rp)))"
proof -
  have "distinct_ids env" unfolding distinct_ids_def using assms(2) by (auto simp: disjoint_iff)
  moreover have "repo_ok rp" by (rule repo.run_inv [OF assms(1) fresh_ok])
  then have "spare env (start_recovery rp)" using assms(3) by (simp add: spare_def start_recovery_def)
  ultimately have "goes env (start_recovery rp) (recoverLocusStartupV20 env rp)" by (rule recovery_goes)
  then show ?thesis by (simp add: goes_def spare_def start_recovery_def)
qed

theorem startup_recovery_is_a_run_witness:
  "repo_step\<^sup>*\<^sup>* rp3c (rv_repo (restarted 100000000)) \<and> rv_writes (restarted 100000000) = 2"
proof -
  have "fresh n k \<noteq> fresh n' k'" if "en_reserve (restart 100000000) = Some fresh" "n \<noteq> n'" for fresh n n' k k'
    using that by (auto simp: restart_def)
  moreover have "unused (fresh n) rp3c" if "en_reserve (restart 100000000) = Some fresh" for fresh n
    using restart_ids(2) [of 100000000] that by (simp add: spare_def start_recovery_def)
  ultimately have "repo_step\<^sup>*\<^sup>* rp3c (rv_repo (restarted 100000000))"
    using startup_recovery_is_a_run [OF waiting_run, of "restart 100000000"] unfolding restarted_def by blast
  moreover have "rv_writes (restarted 100000000) = 2" by code_simp
  ultimately show ?thesis by simp
qed

text \<open>
  C26: the table of deliveries is well-typed after every run: a delivery is stored under its own id and
  satisfies the schema of the stored deliveries, whichever operations ran and whichever commits failed.
\<close>

theorem stored_deliveries_are_well_typed:
  assumes "repo_step\<^sup>*\<^sup>* (fresh_repository atomic) rp" and "getDelivery_row rp i = Some d"
  shows "dl_deliveryId d = i \<and> petLocusDeliveryV20 d"
  using reached_typed [OF assms(1)] assms(2)
  by (simp add: repo_typed_def deliveries_ok_def getDelivery_row_def)

theorem stored_deliveries_are_well_typed_witness:
  "\<exists>d. getDelivery_row rp3c (js ''a'') = Some d \<and> dl_status d = Current \<and> dl_stateRevision d = dl_revision d \<and>
     petLocusDeliveryV20 d"
proof -
  have "map_option (\<lambda>d. (dl_status d, dl_stateRevision d = dl_revision d)) (getDelivery_row rp3c (js ''a'')) = Some (Current, True)"
    by code_simp
  then obtain d where d: "getDelivery_row rp3c (js ''a'') = Some d" "dl_status d = Current" "dl_stateRevision d = dl_revision d"
    by auto
  with stored_deliveries_are_well_typed [OF waiting_run d(1)] show ?thesis by blast
qed

end
