(* ===== verification/PetReconcileChildren.thy ===== *)
theory PetReconcileChildren
  imports PetReconcileTheorems
begin

text \<open>
  Reconciling the entries with the children the host still has (\<^verbatim>\<open>reconcileLocusChildren\<close>): only
  an answer that a child is unusable takes an entry out of service.
\<close>

definition unusable_in :: "(jstr \<Rightarrow> jstr \<Rightarrow> child_liveness option) \<Rightarrow> reconcile_row list \<Rightarrow> jstr \<times> jstr \<Rightarrow> bool" where
  "unusable_in check items p \<longleftrightarrow> (\<exists>item \<in> set items. rw_locusId (rk_row item) = fst p \<and>
     check (rk_mainSessionId item) (rw_sessionId (rk_row item)) = Some (Unusable (snd p)))"

definition only_invalidated :: "repository \<Rightarrow> repository \<Rightarrow> (jstr \<times> jstr) list \<Rightarrow> bool" where
  "only_invalidated rp rp' ps \<longleftrightarrow> (\<forall>k. map_of (loci_of rp') k \<noteq> map_of (loci_of rp) k \<longrightarrow>
     (\<exists>r' reason. map_of (loci_of rp') k = Some r' \<and> rw_state r' = Invalid \<and> rw_invalidReason r' = Some reason \<and>
        (rw_locusId r', reason) \<in> set ps))"

lemma only_invalidated_refl [simp]: "only_invalidated rp rp ps"
  by (simp add: only_invalidated_def)

lemma only_invalidated_more: "only_invalidated rp rp' ps \<Longrightarrow> set ps \<subseteq> set qs \<Longrightarrow> only_invalidated rp rp' qs"
  unfolding only_invalidated_def by blast

lemma only_invalidated_trans:
  assumes "only_invalidated a b ps" and "only_invalidated b c ps"
  shows "only_invalidated a c ps"
  using assms unfolding only_invalidated_def by metis

lemma markInvalid_only:
  assumes run: "mutate c (markInvalid \<lparr>fe_expectedLocusId = l, fe_expectedRevision = rv\<rparr> reason now) rp = (Inr r, rp')"
    and ok: "repo_ok rp"
  shows "repo_ok rp' \<and> only_invalidated rp rp' [(l, reason)]"
proof -
  let ?b = "markInvalid \<lparr>fe_expectedLocusId = l, fe_expectedRevision = rv\<rparr> reason now"
  have wf: "wf_tables (rp_tables rp)" "wf_staged (stage rp)" using ok by (simp_all add: repo_ok_def)
  have "repo_step rp (snd (mutate c ?b rp))" by (rule invalidate)
  with ok run have "repo_ok rp'" by (metis repo.step_inv snd_conv)
  moreover have eff: "wf_staged sg \<and> sg_domain sg = rp_tables rp \<and> (\<exists>k. staged_get tb_loci sg = (map_of (loci_of rp))(k \<mapsto> r)) \<and>
      rw_state r = Invalid \<and> rw_invalidReason r = Some reason \<and> rw_locusId r = l"
    if "?b (stage rp) = Inr (r, sg)" for sg
  proof -
    from that obtain old where f: "find_locus (staged_all tb_loci (stage rp)) l = Some old"
      and p: "put_row (endpointKeyV20 (rw_endpoint r)) r (stage rp) = Inr sg"
      and r: "rw_state r = Invalid" "rw_invalidReason r = Some reason" "rw_locusId r = rw_locusId old"
      unfolding markInvalid_def by (auto simp: ok_iff)
    from f have "rw_locusId old = l" unfolding find_locus_def by (auto dest: find_SomeD)
    with r put_row_effect [OF p] wf(2) show ?thesis by (auto simp: stage_domain)
  qed
  ultimately show ?thesis
  proof -
    from mutate_view [OF run wf(1)] eff obtain sg where "?b (stage rp) = Inr (r, sg)"
      "map_of (loci_of rp') = staged_get tb_loci sg" by blast
    with eff show ?thesis using \<open>repo_ok rp'\<close> by (auto simp: only_invalidated_def)
  qed
qed

text \<open>What the loop adds to its report.\<close>

definition probed ::
  "(nat \<Rightarrow> bool) \<Rightarrow> (jstr \<Rightarrow> jstr \<Rightarrow> child_liveness option) \<Rightarrow> reconcile_row list \<Rightarrow> reconcile_report \<Rightarrow> reconcile_report
     \<Rightarrow> repository \<Rightarrow> repository \<Rightarrow> bool" where
  "probed aborted check items r0 r1 rp rp' \<longleftrightarrow> rt_checked r1 = rt_checked r0 \<and>
     (\<exists>inv unp. rt_invalidated r1 = rt_invalidated r0 @ inv \<and> rt_unproven r1 = rt_unproven r0 @ unp \<and>
        list_all (unusable_in check items) inv \<and> only_invalidated rp rp' inv \<and>
        ((\<forall>n. \<not> aborted n) \<longrightarrow> rt_usable r1 + length inv + length unp = rt_usable r0 + length items))"

lemma unusable_in_more: "list_all (unusable_in check items) ps \<Longrightarrow> list_all (unusable_in check (x # items)) ps"
  by (auto simp: list_all_iff unusable_in_def)

lemma reconcile_loop_probed:
  "reconcile_loop aborted commits clock check items i n r0 rp = (Inr r1, rp') \<Longrightarrow> repo_ok rp \<Longrightarrow>
     probed aborted check items r0 r1 rp rp'"
proof (induction items arbitrary: i n r0 rp)
  case Nil
  then show ?case by (simp add: probed_def)
next
  case (Cons item items)
  let ?r = "rk_row item"
  let ?l = "or_else (check (rk_mainSessionId item) (rw_sessionId ?r)) (UnknownLiveness [])"
  show ?case
  proof (cases "aborted i")
    case True
    then have "r1 = r0 \<and> rp' = rp" using Cons.prems(1) by simp
    then show ?thesis using True by (auto simp: probed_def)
  next
    case False
    note run = Cons.prems(1) [simplified False Let_def reconcile_loop.simps, simplified]
    show ?thesis
    proof (cases ?l)
      case Usable
      with run Cons.IH Cons.prems(2) have "probed aborted check items (r0\<lparr>rt_usable := rt_usable r0 + 1\<rparr>) r1 rp rp'"
        by fastforce
      then show ?thesis unfolding probed_def using unusable_in_more by fastforce
    next
      case (Unusable reason)
      from run Unusable obtain u rp1 where
        m: "mutate (commits n) (markInvalid \<lparr>fe_expectedLocusId = rw_locusId ?r, fe_expectedRevision = rw_revision ?r\<rparr>
              reason (clock n)) rp = (Inr u, rp1)"
        and rest: "reconcile_loop aborted commits clock check items (Suc i) (Suc n)
              (r0\<lparr>rt_invalidated := rt_invalidated r0 @ [(rw_locusId ?r, reason)]\<rparr>) rp1 = (Inr r1, rp')"
        by (auto split: prod.splits sum.splits)
      from markInvalid_only [OF m Cons.prems(2)] have ok: "repo_ok rp1"
        and o1: "only_invalidated rp rp1 [(rw_locusId ?r, reason)]" by simp_all
      from Cons.IH [OF rest ok] obtain inv unp where
        r1: "rt_invalidated r1 = rt_invalidated r0 @ (rw_locusId ?r, reason) # inv" "rt_unproven r1 = rt_unproven r0 @ unp"
          "rt_checked r1 = rt_checked r0" "list_all (unusable_in check items) inv"
        and o2: "only_invalidated rp1 rp' inv"
        and c: "(\<forall>n. \<not> aborted n) \<longrightarrow> rt_usable r1 + length inv + length unp = rt_usable r0 + length items"
        unfolding probed_def by auto
      have "check (rk_mainSessionId item) (rw_sessionId ?r) = Some (Unusable reason)"
        using Unusable by (cases "check (rk_mainSessionId item) (rw_sessionId ?r)") simp_all
      then have "list_all (unusable_in check (item # items)) ((rw_locusId ?r, reason) # inv)"
        using unusable_in_more [OF r1(4)] by (simp add: unusable_in_def)
      moreover have "only_invalidated rp rp' ((rw_locusId ?r, reason) # inv)"
        by (rule only_invalidated_trans [OF only_invalidated_more [OF o1] only_invalidated_more [OF o2]]) auto
      ultimately show ?thesis unfolding probed_def using r1(1-3) c
        by (intro conjI exI [of _ "(rw_locusId ?r, reason) # inv"] exI [of _ unp]) simp_all
    next
      case (UnknownLiveness reason)
      with run Cons.IH Cons.prems(2)
      have "probed aborted check items (r0\<lparr>rt_unproven := rt_unproven r0 @ [rw_locusId ?r]\<rparr>) r1 rp rp'" by fastforce
      then show ?thesis unfolding probed_def using unusable_in_more by fastforce
    next
      case (CapacityLimited reason)
      with run Cons.IH Cons.prems(2)
      have "probed aborted check items (r0\<lparr>rt_unproven := rt_unproven r0 @ [rw_locusId ?r]\<rparr>) r1 rp rp'" by fastforce
      then show ?thesis unfolding probed_def using unusable_in_more by fastforce
    qed
  qed
qed

subsection \<open>A concrete probe\<close>

text \<open>The entry of the chat serves its first child, whose session the host then reports gone.\<close>

definition rp3d :: repository where
  "rp3d = snd (mutate True (publishFirstDelivery [] \<lparr>fd_locusId = js ''g'', fd_sessionId = js ''sg'', fd_revision = 0,
     fd_deliveryId = js ''a'', fd_now = 50\<rparr> (js ''e'')) rp3c)"

definition probe_gone :: "jstr \<Rightarrow> jstr \<Rightarrow> child_liveness option" where
  "probe_gone main sid = (if sid = js ''sg'' then Some (Unusable (js ''gone'')) else None)"

definition the_rows :: "reconcile_row list" where
  "the_rows = map (\<lambda>r. \<lparr>rk_row = r, rk_mainSessionId = js ''m''\<rparr>) (listRows rp3d)"

definition probed_run :: "(failure + reconcile_report) \<times> repository" where
  "probed_run = reconcileLocusChildren (\<lambda>_. False) (\<lambda>_. True) (\<lambda>n. 60) (Some probe_gone) the_rows rp3d"

lemma serving_run: "repo_step\<^sup>*\<^sup>* (fresh_repository True) rp3d"
proof -
  have "rp_accessChanging rp3c = []" by code_simp
  then have "repo_step rp3c rp3d"
    using publish_first [of rp3c True "\<lparr>fd_locusId = js ''g'', fd_sessionId = js ''sg'', fd_revision = 0,
      fd_deliveryId = js ''a'', fd_now = 50\<rparr>" "js ''e''"] unfolding rp3d_def by simp
  with waiting_run show ?thesis by simp
qed

subsection \<open>Property\<close>

text \<open>
  C27: reconciliation takes an entry out of service only when the host answered that its child is unusable.
  Every entry of the repository that changed is invalid with the reason the probe gave for the session of
  that entry, and it is in the report; an unknown answer, a capacity answer, a probe that throws, or no
  probe at all leave the entry as it is.
\<close>

theorem reconciliation_needs_an_unusable_child:
  assumes "repo_step\<^sup>*\<^sup>* (fresh_repository atomic) rp"
    and "reconcileLocusChildren aborted commits clock probe rows rp = (Inr report, rp')"
    and "getRow rp' e \<noteq> getRow rp e"
  shows "\<exists>r' reason check item. getRow rp' e = Some r' \<and> rw_state r' = Invalid \<and> rw_invalidReason r' = Some reason \<and>
    (rw_locusId r', reason) \<in> set (rt_invalidated report) \<and> probe = Some check \<and> item \<in> set rows \<and>
    rw_state (rk_row item) = Serving \<and> rw_locusId (rk_row item) = rw_locusId r' \<and>
    check (rk_mainSessionId item) (rw_sessionId (rk_row item)) = Some (Unusable reason)"
proof (cases probe)
  case None
  with assms(2,3) show ?thesis by (simp add: reconcileLocusChildren_def)
next
  case (Some check)
  let ?items = "filter (\<lambda>item. rw_state (rk_row item) = Serving) rows"
  from assms(2) Some obtain r0 where
    "reconcile_loop aborted commits clock check ?items 0 0 r0 rp = (Inr report, rp')" "rt_invalidated r0 = []"
    by (auto simp: reconcileLocusChildren_def Let_def)
  moreover have "repo_ok rp" by (rule repo.run_inv [OF assms(1) fresh_ok])
  ultimately have "list_all (unusable_in check ?items) (rt_invalidated report)" "only_invalidated rp rp' (rt_invalidated report)"
    using reconcile_loop_probed by (fastforce simp: probed_def)+
  moreover from this(2) assms(3) obtain r' reason where r: "getRow rp' e = Some r'" "rw_state r' = Invalid"
    "rw_invalidReason r' = Some reason" "(rw_locusId r', reason) \<in> set (rt_invalidated report)"
    unfolding only_invalidated_def getRow_def by blast
  ultimately have "unusable_in check ?items (rw_locusId r', reason)" by (auto simp: list_all_iff)
  then obtain item where "item \<in> set ?items" "rw_locusId (rk_row item) = rw_locusId r'"
    "check (rk_mainSessionId item) (rw_sessionId (rk_row item)) = Some (Unusable reason)"
    unfolding unusable_in_def by auto
  with r Some show ?thesis by auto
qed

theorem reconciliation_needs_an_unusable_child_witness:
  "\<exists>r'. getRow (snd probed_run) \<lparr>ep_chatId = js ''c'', ep_threadId = None\<rparr> = Some r' \<and> rw_state r' = Invalid \<and>
     rw_invalidReason r' = Some (js ''gone'')"
proof -
  let ?e = "\<lparr>ep_chatId = js ''c'', ep_threadId = None\<rparr>"
  have "\<not> isl (fst probed_run)" by code_simp
  from answered [OF this] obtain report where run: "probed_run = (Inr report, snd probed_run)" by blast
  have "map_option rw_state (getRow (snd probed_run) ?e) = Some Invalid" "map_option rw_state (getRow rp3d ?e) = Some Serving"
    by code_simp+
  then have d: "getRow (snd probed_run) ?e \<noteq> getRow rp3d ?e" by auto
  from reconciliation_needs_an_unusable_child [OF serving_run run [unfolded probed_run_def] d [unfolded probed_run_def]]
  show ?thesis by (auto simp: probed_run_def probe_gone_def split: if_splits)
qed

end
