(* ===== verification/PetExpiry.thy ===== *)
theory PetExpiry
  imports PetEntries
begin

text \<open>
  The timers that end leases: \<^verbatim>\<open>packages/dsh-pet/src/host/locus/expiry-scheduler.ts\<close>. The host's timer
  service is the list of timers it still holds; firing one removes it there and hands its callback to the
  dispatch lane, which runs it later. Expiry itself is the durable write of the repository.
\<close>

definition effectiveDeliveryDeadline :: "delivery_record \<Rightarrow> int option" where
  "effectiveDeliveryDeadline d =
     (case hard_cap d of
        None \<Rightarrow> dl_deadlineAt d
      | Some hard \<Rightarrow> (case dl_deadlineAt d of None \<Rightarrow> Some hard | Some t \<Rightarrow> Some (min t hard)))"

text \<open>One armed timer with what its callback captured: the delivery id, the correlation and the table key.\<close>

record timer =
  tm_id :: nat
  tm_key :: jstr
  tm_delivery :: jstr
  tm_correlation :: correlation
  tm_due :: int

text \<open>\<open>timers\<close>, the timers the host holds, and the id of the next one\<close>

record scheduler =
  sc_timers :: "(jstr \<times> nat) list"
  sc_armed :: "timer list"
  sc_next :: nat

definition createExpiryScheduler :: scheduler where
  "createExpiryScheduler = \<lparr>sc_timers = [], sc_armed = [], sc_next = 0\<rparr>"

definition MAX_TIMER_DELAY :: int where
  "MAX_TIMER_DELAY = 2147483647"

definition timer_key :: "delivery_record \<Rightarrow> jstr" where
  "timer_key d = dl_deliveryId d @ [0] @ co_sessionId d"

definition correlation_of :: "delivery_record \<Rightarrow> correlation" where
  "correlation_of d = \<lparr>co_endpoint = co_endpoint d, co_locusId = co_locusId d, co_sessionId = co_sessionId d\<rparr>"

definition clearTimer :: "nat option \<Rightarrow> scheduler \<Rightarrow> scheduler" where
  "clearTimer i sc =
     (case i of None \<Rightarrow> sc | Some n \<Rightarrow> sc\<lparr>sc_armed := filter (\<lambda>tm. tm_id tm \<noteq> n) (sc_armed sc)\<rparr>)"

definition schedule :: "int \<Rightarrow> delivery_record \<Rightarrow> scheduler \<Rightarrow> scheduler" where
  "schedule now d sc =
     (case effectiveDeliveryDeadline d of
        None \<Rightarrow> sc
      | Some deadline \<Rightarrow>
          if dl_status d \<noteq> Current then sc
          else let key = timer_key d;
                   sc1 = clearTimer (map_of (sc_timers sc) key) sc;
                   delay = max 0 (min (deadline - now) MAX_TIMER_DELAY);
                   tm = \<lparr>tm_id = sc_next sc1, tm_key = key, tm_delivery = dl_deliveryId d,
                         tm_correlation = correlation_of d, tm_due = now + delay\<rparr>
               in sc1\<lparr>sc_timers := AList.update key (tm_id tm) (sc_timers sc1), sc_armed := tm # sc_armed sc1,
                      sc_next := Suc (sc_next sc1)\<rparr>)"

definition dispose :: "scheduler \<Rightarrow> scheduler" where
  "dispose sc = (fold (\<lambda>n. clearTimer (Some n)) (vals (sc_timers sc)) sc)\<lparr>sc_timers := []\<rparr>"

text \<open>\<open>finally\<close>: the entry of the table is dropped unless the callback armed a new timer for it.\<close>

definition release_timer :: "timer \<Rightarrow> scheduler \<Rightarrow> scheduler" where
  "release_timer tm sc =
     (if map_of (sc_timers sc) (tm_key tm) = Some (tm_id tm)
      then sc\<lparr>sc_timers := AList.delete (tm_key tm) (sc_timers sc)\<rparr> else sc)"

definition expiry_input :: "int \<Rightarrow> timer \<Rightarrow> delivery_record \<Rightarrow> lease_input" where
  "expiry_input firedAt tm cur =
     \<lparr>co_endpoint = co_endpoint (tm_correlation tm), co_locusId = co_locusId (tm_correlation tm),
      co_sessionId = co_sessionId (tm_correlation tm), li_deliveryId = dl_deliveryId cur, li_now = firedAt,
      li_expectedRevision = dl_revision cur\<rparr>"

datatype expiry_outcome = NothingCurrent | Rearmed | LostRace | ExpiredAs delivery_record | ExpiryRejected failure

text \<open>
  The callback, run in the dispatch lane at \<open>firedAt\<close>; re-arming reads the clock again. \<open>ExpiredAs d\<close> is the
  call of \<open>finishAndAdvance\<close> with \<open>d\<close>.
\<close>

definition expiry_job ::
  "bool \<Rightarrow> int \<Rightarrow> int \<Rightarrow> timer \<Rightarrow> scheduler \<Rightarrow> repository \<Rightarrow> expiry_outcome \<times> scheduler \<times> repository" where
  "expiry_job commits firedAt rearmedAt tm sc rp =
     (case getDelivery_row rp (tm_delivery tm) of
        None \<Rightarrow> (NothingCurrent, sc, rp)
      | Some cur \<Rightarrow>
          if dl_status cur \<noteq> Current \<or> dl_queueState cur \<noteq> Some InCurrent \<or> dl_revision cur = None
          then (NothingCurrent, sc, rp)
          else if (case effectiveDeliveryDeadline cur of None \<Rightarrow> False | Some t \<Rightarrow> firedAt < t)
          then (Rearmed, schedule rearmedAt cur sc, rp)
          else (case mutate commits (expireCurrentDelivery (expiry_input firedAt tm cur)) rp of
                  (Inl e, rp') \<Rightarrow> (ExpiryRejected e, sc, rp')
                | (Inr m, rp') \<Rightarrow>
                    (case mu_record m of
                       None \<Rightarrow> (LostRace, sc, rp')
                     | Some r \<Rightarrow> if \<not> mu_changed m then (LostRace, sc, rp') else (ExpiredAs r, sc, rp'))))"

definition run_timer ::
  "bool \<Rightarrow> int \<Rightarrow> int \<Rightarrow> timer \<Rightarrow> scheduler \<Rightarrow> repository \<Rightarrow> expiry_outcome \<times> scheduler \<times> repository" where
  "run_timer commits firedAt rearmedAt tm sc rp =
     (case expiry_job commits firedAt rearmedAt tm sc rp of (out, sc', rp') \<Rightarrow> (out, release_timer tm sc', rp'))"

subsection \<open>The scheduler and its host\<close>

text \<open>
  The clock, the callbacks that wait in the dispatch lane and the deliveries handed to \<open>finishAndAdvance\<close>.
  Between two steps of the scheduler others write the repository.
\<close>

record expiry_system =
  xs_scheduler :: scheduler
  xs_repo :: repository
  xs_clock :: int
  xs_waiting :: "timer list"
  xs_advanced :: "delivery_record list"

definition advance_of :: "expiry_outcome \<Rightarrow> delivery_record list" where
  "advance_of out = (case out of ExpiredAs d \<Rightarrow> [d] | _ \<Rightarrow> [])"

inductive expiry_step :: "expiry_system \<Rightarrow> expiry_system \<Rightarrow> bool" where
  tick: "xs_clock s \<le> t \<Longrightarrow> expiry_step s (s\<lparr>xs_clock := t\<rparr>)"
| others: "expiry_step s (s\<lparr>xs_repo := rp\<rparr>)"
| arm: "expiry_step s (s\<lparr>xs_scheduler := schedule (xs_clock s) d (xs_scheduler s)\<rparr>)"
| fire: "tm \<in> set (sc_armed (xs_scheduler s)) \<Longrightarrow> tm_due tm \<le> xs_clock s \<Longrightarrow>
    expiry_step s (s\<lparr>xs_scheduler := (xs_scheduler s)\<lparr>sc_armed := remove1 tm (sc_armed (xs_scheduler s))\<rparr>,
      xs_waiting := xs_waiting s @ [tm]\<rparr>)"
| run: "tm \<in> set (xs_waiting s) \<Longrightarrow> xs_clock s \<le> t \<Longrightarrow>
    run_timer commits (xs_clock s) t tm (xs_scheduler s) (xs_repo s) = (out, sc, rp) \<Longrightarrow>
    expiry_step s (s\<lparr>xs_scheduler := sc, xs_repo := rp, xs_clock := t, xs_waiting := remove1 tm (xs_waiting s),
      xs_advanced := xs_advanced s @ advance_of out\<rparr>)"
| teardown: "expiry_step s (s\<lparr>xs_scheduler := dispose (xs_scheduler s)\<rparr>)"

definition expiry_start :: "repository \<Rightarrow> int \<Rightarrow> expiry_system" where
  "expiry_start rp now = \<lparr>xs_scheduler = createExpiryScheduler, xs_repo = rp, xs_clock = now, xs_waiting = [],
     xs_advanced = []\<rparr>"

end
