(* ===== verification/PetExpiryTheorems.thy ===== *)
theory PetExpiryTheorems
  imports PetExpiry PetReconcileTheorems
begin

text \<open>
  The properties of the expiry scheduler: one armed timer for a delivery and session, none after teardown,
  and no lease outlives its deadline once the due timers have run.
\<close>

subsection \<open>The table of timers\<close>

definition timers_ok :: "scheduler \<Rightarrow> timer list \<Rightarrow> bool" where
  "timers_ok sc waiting \<longleftrightarrow>
     distinct (map tm_id (sc_armed sc @ waiting)) \<and> distinct (keys (sc_timers sc)) \<and>
     (\<forall>tm \<in> set (sc_armed sc @ waiting). tm_id tm < sc_next sc) \<and>
     (\<forall>tm \<in> set (sc_armed sc). map_of (sc_timers sc) (tm_key tm) = Some (tm_id tm)) \<and>
     (\<forall>k n. map_of (sc_timers sc) k = Some n \<longrightarrow> (\<exists>tm \<in> set (sc_armed sc @ waiting). tm_id tm = n \<and> tm_key tm = k))"

lemma clearTimer_sel [simp]:
  "sc_timers (clearTimer i sc) = sc_timers sc" "sc_next (clearTimer i sc) = sc_next sc"
  "set (sc_armed (clearTimer i sc)) = {tm \<in> set (sc_armed sc). Some (tm_id tm) \<noteq> i}"
  by (auto simp: clearTimer_def split: option.splits)

lemma clearTimer_armed: "sc_armed (clearTimer i sc) = filter (\<lambda>tm. Some (tm_id tm) \<noteq> i) (sc_armed sc)"
  by (simp add: clearTimer_def split: option.splits)

lemma schedule_ok:
  assumes ok: "timers_ok sc waiting" shows "timers_ok (schedule now d sc) waiting"
proof (cases "effectiveDeliveryDeadline d = None \<or> dl_status d \<noteq> Current")
  case True
  then show ?thesis using ok by (auto simp: schedule_def split: option.splits)
next
  case False
  then obtain t where t: "effectiveDeliveryDeadline d = Some t" "dl_status d = Current" by auto
  let ?k = "timer_key d" and ?n = "sc_next sc"
  let ?tm = "\<lparr>tm_id = ?n, tm_key = ?k, tm_delivery = dl_deliveryId d, tm_correlation = correlation_of d,
    tm_due = now + max 0 (min (t - now) MAX_TIMER_DELAY)\<rparr>"
  let ?kept = "filter (\<lambda>tm. Some (tm_id tm) \<noteq> map_of (sc_timers sc) ?k) (sc_armed sc)"
  have sc': "schedule now d sc = sc\<lparr>sc_timers := AList.update ?k ?n (sc_timers sc), sc_armed := ?tm # ?kept, sc_next := Suc ?n\<rparr>"
    using t by (simp add: schedule_def Let_def clearTimer_def split: option.splits)
  have new: "\<forall>tm \<in> set (sc_armed sc @ waiting). tm_id tm < ?n" using ok by (simp add: timers_ok_def)
  have kept: "tm_key tm \<noteq> ?k" if "tm \<in> set ?kept" for tm
    using that ok by (auto simp: timers_ok_def)
  have "distinct (map tm_id (?kept @ waiting))"
    using ok by (auto simp: timers_ok_def distinct_map_filter)
  moreover have "?n \<notin> tm_id ` set (?kept @ waiting)" using new by auto
  ultimately have d: "distinct (map tm_id ((?tm # ?kept) @ waiting))" by auto
  have reg: "map_of (AList.update ?k ?n (sc_timers sc)) (tm_key tm) = Some (tm_id tm)" if "tm \<in> set (?tm # ?kept)" for tm
    using that kept ok by (auto simp: timers_ok_def update_conv')
  have bk: "\<exists>tm \<in> set ((?tm # ?kept) @ waiting). tm_id tm = n \<and> tm_key tm = k"
    if "map_of (AList.update ?k ?n (sc_timers sc)) k = Some n" for k n
  proof (cases "k = ?k")
    case False
    with that have m: "map_of (sc_timers sc) k = Some n" by (simp add: update_conv')
    then obtain tm where tm: "tm \<in> set (sc_armed sc @ waiting)" "tm_id tm = n" "tm_key tm = k"
      using ok unfolding timers_ok_def by blast
    have "Some n \<noteq> map_of (sc_timers sc) ?k"
    proof
      assume "Some n = map_of (sc_timers sc) ?k"
      then obtain tm' where tm': "tm' \<in> set (sc_armed sc @ waiting)" "tm_id tm' = n" "tm_key tm' = ?k"
        using ok unfolding timers_ok_def by metis
      have "inj_on tm_id (set (sc_armed sc @ waiting))" using ok distinct_map unfolding timers_ok_def by blast
      with tm tm' have "tm = tm'" by (metis inj_onD)
      then show False using tm(3) tm'(3) False by simp
    qed
    then show ?thesis using tm by auto
  qed (use that in \<open>auto simp: update_conv'\<close>)
  show ?thesis unfolding sc' timers_ok_def
    using d reg bk new ok by (auto simp: timers_ok_def distinct_update less_Suc_eq)
qed

lemma release_ok:
  assumes ok: "timers_ok sc waiting" and tm: "tm \<in> set waiting"
  shows "timers_ok (release_timer tm sc) (remove1 tm waiting)"
proof -
  have d: "distinct (map tm_id (sc_armed sc @ waiting))" using ok unfolding timers_ok_def by blast
  then have inj: "inj_on tm_id (set (sc_armed sc @ waiting))" using distinct_map by blast
  have dw: "distinct waiting" using d by (auto simp: distinct_map)
  have arm: "tm_id t \<noteq> tm_id tm" if "t \<in> set (sc_armed sc)" for t
  proof
    assume "tm_id t = tm_id tm"
    then have "t = tm" using inj that tm by (auto dest!: inj_onD)
    then show False using d that tm by auto
  qed
  have sub: "set (remove1 tm waiting) = set waiting - {tm}" using dw by simp
  have bk: "\<exists>t \<in> set (sc_armed sc @ remove1 tm waiting). tm_id t = n \<and> tm_key t = k"
    if m: "map_of (sc_timers sc) k = Some n" and n: "\<not> (k = tm_key tm \<and> n = tm_id tm)" for k n
  proof -
    from m obtain t where t: "t \<in> set (sc_armed sc @ waiting)" "tm_id t = n" "tm_key t = k"
      using ok unfolding timers_ok_def by blast
    have "t \<noteq> tm" using t n by auto
    then show ?thesis using t sub by auto
  qed
  have d': "distinct (map tm_id (sc_armed sc @ remove1 tm waiting))"
    using d sub by (auto simp: distinct_map distinct_remove1 inj_on_def)
  show ?thesis
  proof (cases "map_of (sc_timers sc) (tm_key tm) = Some (tm_id tm)")
    case True
    have "map_of (AList.delete (tm_key tm) (sc_timers sc)) (tm_key t) = Some (tm_id t)" if "t \<in> set (sc_armed sc)" for t
      using that arm [OF that] True ok by (auto simp: timers_ok_def delete_conv')
    moreover have "\<exists>t \<in> set (sc_armed sc @ remove1 tm waiting). tm_id t = n \<and> tm_key t = k"
      if "map_of (AList.delete (tm_key tm) (sc_timers sc)) k = Some n" for k n
      using that bk [of k n] by (auto simp: delete_conv' split: if_splits)
    ultimately show ?thesis using ok d' sub True
      by (auto simp: release_timer_def timers_ok_def distinct_delete)
  next
    case False
    then have "\<exists>t \<in> set (sc_armed sc @ remove1 tm waiting). tm_id t = n \<and> tm_key t = k"
      if "map_of (sc_timers sc) k = Some n" for k n
      using that bk [of k n] by auto
    then show ?thesis using ok d' sub False by (auto simp: release_timer_def timers_ok_def)
  qed
qed

lemma fold_clear:
  "sc_timers (fold (\<lambda>n. clearTimer (Some n)) ns sc) = sc_timers sc"
  "sc_next (fold (\<lambda>n. clearTimer (Some n)) ns sc) = sc_next sc"
  "sc_armed (fold (\<lambda>n. clearTimer (Some n)) ns sc) = filter (\<lambda>tm. tm_id tm \<notin> set ns) (sc_armed sc)"
  by (induction ns arbitrary: sc) (auto simp: clearTimer_armed intro: filter_cong)

lemma dispose_clears: "timers_ok sc waiting \<Longrightarrow> sc_armed (dispose sc) = []"
proof -
  assume ok: "timers_ok sc waiting"
  have "tm_id tm \<in> set (vals (sc_timers sc))" if "tm \<in> set (sc_armed sc)" for tm
  proof -
    from that ok have "map_of (sc_timers sc) (tm_key tm) = Some (tm_id tm)" by (simp add: timers_ok_def)
    from map_of_SomeD [OF this] show ?thesis by force
  qed
  then show ?thesis by (auto simp: dispose_def fold_clear filter_empty_conv)
qed

lemma dispose_ok: "timers_ok sc waiting \<Longrightarrow> timers_ok (dispose sc) waiting"
proof -
  assume ok: "timers_ok sc waiting"
  have "sc_timers (dispose sc) = []" "sc_next (dispose sc) = sc_next sc" by (simp_all add: dispose_def fold_clear)
  with ok dispose_clears [OF ok] show ?thesis by (simp add: timers_ok_def)
qed

lemma fire_ok:
  assumes ok: "timers_ok sc waiting" and tm: "tm \<in> set (sc_armed sc)"
  shows "timers_ok (sc\<lparr>sc_armed := remove1 tm (sc_armed sc)\<rparr>) (waiting @ [tm])"
proof -
  have "mset (map tm_id (sc_armed sc @ waiting)) = mset (map tm_id (remove1 tm (sc_armed sc) @ waiting @ [tm]))"
    using tm by (simp add: image_mset_Diff)
  moreover have "distinct (map tm_id (sc_armed sc @ waiting))" using ok unfolding timers_ok_def by blast
  ultimately have d: "distinct (map tm_id (remove1 tm (sc_armed sc) @ waiting @ [tm]))"
    by (metis mset_eq_imp_distinct_iff)
  have all: "set (remove1 tm (sc_armed sc) @ waiting @ [tm]) = set (sc_armed sc @ waiting)"
    using tm set_remove1_subset [of tm "sc_armed sc"] by (auto simp: in_set_remove1)
  have less: "\<forall>t \<in> set (sc_armed sc @ waiting). tm_id t < sc_next sc"
    and reg: "\<forall>t \<in> set (sc_armed sc). map_of (sc_timers sc) (tm_key t) = Some (tm_id t)"
    and bk: "\<forall>k n. map_of (sc_timers sc) k = Some n \<longrightarrow> (\<exists>t \<in> set (sc_armed sc @ waiting). tm_id t = n \<and> tm_key t = k)"
    and keys: "distinct (keys (sc_timers sc))"
    using ok unfolding timers_ok_def by blast+
  have reg': "\<forall>t \<in> set (remove1 tm (sc_armed sc)). map_of (sc_timers sc) (tm_key t) = Some (tm_id t)"
    using reg set_remove1_subset [of tm "sc_armed sc"] by blast
  let ?sc = "sc\<lparr>sc_armed := remove1 tm (sc_armed sc)\<rparr>"
  have sel: "sc_armed ?sc = remove1 tm (sc_armed sc)" "sc_timers ?sc = sc_timers sc" "sc_next ?sc = sc_next sc" by simp_all
  show ?thesis unfolding timers_ok_def sel all by (intro conjI d less reg' bk keys)
qed

lemma run_ok:
  assumes ok: "timers_ok sc waiting" and tm: "tm \<in> set waiting"
    and run: "run_timer commits firedAt rearmedAt tm sc rp = (out, sc', rp')"
  shows "timers_ok sc' (remove1 tm waiting)"
proof -
  obtain sc1 where j: "expiry_job commits firedAt rearmedAt tm sc rp = (out, sc1, rp')" "sc' = release_timer tm sc1"
    using run by (auto simp: run_timer_def split: prod.splits)
  have "timers_ok sc1 waiting" using j(1) ok schedule_ok [OF ok]
    by (auto simp: expiry_job_def split: option.splits if_splits prod.splits sum.splits)
  then show ?thesis unfolding j(2) using tm by (rule release_ok)
qed

lemma expiry_step_ok:
  "expiry_step s t \<Longrightarrow> timers_ok (xs_scheduler s) (xs_waiting s) \<Longrightarrow> timers_ok (xs_scheduler t) (xs_waiting t)"
  by (induction rule: expiry_step.induct) (auto intro: schedule_ok fire_ok dispose_ok run_ok)

interpretation expiry_timers: invariant_system expiry_step "\<lambda>s. timers_ok (xs_scheduler s) (xs_waiting s)"
  by unfold_locales (rule expiry_step_ok)

lemma expiry_start_ok: "timers_ok (xs_scheduler (expiry_start rp now)) (xs_waiting (expiry_start rp now))"
  by (simp add: expiry_start_def timers_ok_def createExpiryScheduler_def)

subsection \<open>The expiry write\<close>

lemma index_by_other: "i \<notin> f ` set ds \<Longrightarrow> map_of (fold (\<lambda>d. AList.update (f d) d) ds m) i = map_of m i"
  by (induction ds arbitrary: m) (auto simp: update_conv')

lemma index_by_own:
  "distinct (map f ds) \<Longrightarrow> d \<in> set ds \<Longrightarrow> map_of (fold (\<lambda>d. AList.update (f d) d) ds m) (f d) = Some d"
proof (induction ds arbitrary: m)
  case (Cons x ds)
  show ?case
  proof (cases "d = x")
    case True
    then show ?thesis using Cons.prems(1) index_by_other [of "f d" f ds] by (simp add: update_conv')
  qed (use Cons in simp)
qed simp

lemma ledger_lookup:
  assumes "repo_typed rp"
  shows "map_of (lg_byDeliveryId (ledgerState (stage rp))) i = getDelivery_row rp i"
proof -
  let ?m = "deliveries_of rp"
  have all: "staged_all tb_deliveries (stage rp) = ?m"
    by (simp add: staged_all_def stage_def deliveries_of_def overlay_def)
  have wf: "distinct (keys ?m)" using repo_typed_wf [OF assms] by (simp add: wf_tables_def deliveries_of_def)
  have key: "dl_deliveryId d = k" if "(k, d) \<in> set ?m" for k d
    using map_of_is_SomeI [OF wf that] assms by (simp add: repo_typed_def deliveries_ok_def)
  have ids: "map dl_deliveryId (vals ?m) = keys ?m" using key by (auto intro: map_cong)
  have d: "distinct (map dl_deliveryId (vals ?m))" by (subst ids) (rule wf)
  show ?thesis
  proof (cases "map_of ?m i")
    case None
    have "i \<notin> dl_deliveryId ` set (vals ?m)" using None key by (force simp: map_of_eq_None_iff)
    then show ?thesis using None index_by_other [of i dl_deliveryId "vals ?m" "[]"]
      by (simp add: ledgerState_def Let_def all index_by_def getDelivery_row_def)
  next
    case (Some x)
    then have "(i, x) \<in> set ?m" by (rule map_of_SomeD)
    then have "x \<in> set (vals ?m)" "dl_deliveryId x = i" using key by force+
    with index_by_own [OF d, of x "[]"] show ?thesis using Some
      by (simp add: ledgerState_def Let_def all index_by_def getDelivery_row_def)
  qed
qed

lemma apply_view:
  assumes run: "mutate commits (applyDelivery f) rp = (Inr m, rp')" and typed: "repo_typed rp"
  obtains (same) "rp' = rp" "mu_record m = None \<or> \<not> mu_changed m" "f (ledgerState (stage rp)) = Inr m"
  | (wrote) m0 d where "f (ledgerState (stage rp)) = Inr m0" "mu_record m0 = Some d" "mu_changed m0"
      "mu_record m = Some (with_state_revision d)" "mu_changed m"
      "getDelivery_row rp' = (getDelivery_row rp)(dl_deliveryId d \<mapsto> with_state_revision d)"
proof -
  have wf: "wf_tables (rp_tables rp)" using typed by (rule repo_typed_wf)
  obtain sg where b: "applyDelivery f (stage rp) = Inr (m, sg)"
    using run by (auto simp: mutate_def split: sum.splits prod.splits)
  then obtain m0 where m0: "f (ledgerState (stage rp)) = Inr m0"
    by (auto simp: applyDelivery_def thrown_def ok_iff split: sum.splits)
  show thesis
  proof (cases "\<exists>d. mu_record m0 = Some d \<and> mu_changed m0")
    case False
    then have "sg = stage rp" "m = m0"
      using b m0 by (auto simp: applyDelivery_def thrown_def ok_iff split: option.splits if_splits)
    moreover from this have "rp' = rp" using run b by (auto simp: mutate_def flush_def stage_def split: if_splits)
    ultimately show thesis using m0 False by (intro same) auto
  next
    case True
    then obtain d where d: "mu_record m0 = Some d" "mu_changed m0" by blast
    with b m0 have m: "m = m0\<lparr>mu_record := Some (with_state_revision d)\<rparr>"
      and p: "put_delivery (dl_deliveryId d) (with_state_revision d) (stage rp) = Inr sg"
      by (auto simp: applyDelivery_def thrown_def ok_iff)
    have keep: "wf_staged sg' \<and> sg_domain sg' = rp_tables rp" if "applyDelivery f (stage rp) = Inr (m, sg')" for sg'
    proof -
      have "sg' = sg" using that b by simp
      then show ?thesis using put_keeps(3) [OF p] wf by (simp add: keeps_def stage_domain)
    qed
    from mutate_view [OF run wf keep] obtain sg' where "applyDelivery f (stage rp) = Inr (m, sg')"
      "map_of (deliveries_of rp') = staged_get tb_deliveries sg'" by blast
    then have "getDelivery_row rp' = (getDelivery_row rp)(dl_deliveryId d \<mapsto> with_state_revision d)"
      using b put_delivery_effect(2) [OF p] by (auto simp: getDelivery_row_def fun_eq_iff)
    then show thesis using m0 d m by (intro wrote) auto
  qed
qed

lemma with_state_revision_lease [simp]:
  "dl_queueState (with_state_revision d) = dl_queueState d" "correlation_of (with_state_revision d) = correlation_of d"
  by (simp_all add: with_state_revision_def correlation_of_def split: option.splits)

lemma current_fields:
  assumes "petLocusDeliveryV20 d" and "dl_status d = Current"
  shows "dl_queueState d = Some InCurrent" "dl_revision d \<noteq> None" "\<exists>t. effectiveDeliveryDeadline d = Some t"
proof -
  have m: "modern d" using assms(2) by (simp add: modern_def)
  then have "refine_modern d" using assms(1) by (simp add: petLocusDeliveryV20_def refineLocusDelivery_def)
  then have f: "dl_queueState d = Some InCurrent" "dl_revision d \<noteq> None" "dl_deadlineAt d \<noteq> None" "dl_hardDeadlineAt d \<noteq> None"
    using assms(2) by (auto simp: refine_modern_def)
  then show "dl_queueState d = Some InCurrent" "dl_revision d \<noteq> None" by auto
  from f(3,4) show "\<exists>t. effectiveDeliveryDeadline d = Some t" by (auto simp: effectiveDeliveryDeadline_def hard_cap_def)
qed

text \<open>An expiry at or after the deadline, by a timer that captured the correlation of the stored delivery, takes place.\<close>

lemma expiry_takes_place:
  assumes run: "mutate commits (expireCurrentDelivery (expiry_input now tm cur)) rp = (Inr m, rp')"
    and typed: "repo_typed rp" and cur: "getDelivery_row rp i = Some cur" "dl_status cur = Current"
    and corr: "tm_correlation tm = correlation_of cur"
    and due: "effectiveDeliveryDeadline cur = Some t" "t \<le> now"
  shows "\<exists>r. mu_record m = Some r \<and> mu_changed m \<and> dl_deliveryId r = i \<and> dl_status r = Expired \<and>
    getDelivery_row rp' = (getDelivery_row rp)(i \<mapsto> r)"
proof -
  let ?i = "expiry_input now tm cur"
  have id: "dl_deliveryId cur = i" "petLocusDeliveryV20 cur"
    using typed cur(1) by (simp_all add: repo_typed_def deliveries_ok_def getDelivery_row_def)
  have look: "map_of (lg_byDeliveryId (ledgerState (stage rp))) i = Some cur" using ledger_lookup [OF typed] cur(1) by simp
  have dueAt: "(case (hard_cap cur, dl_deadlineAt cur) of (None, d) \<Rightarrow> d | (h, None) \<Rightarrow> h | (Some h, Some d) \<Rightarrow> Some (min d h)) = Some t"
    using due(1) by (auto simp: effectiveDeliveryDeadline_def split: option.splits)
  have c: "correlates cur ?i" using corr by (simp add: correlates_def expiry_input_def correlation_of_def sameEndpoint_def)
  have ex: "\<exists>r. mu_record n = Some r \<and> mu_changed n \<and> dl_deliveryId r = i \<and> dl_status r = Expired"
    if "expireDelivery (ledgerState (stage rp)) ?i = Inr n" for n
    using that look c dueAt due(2) id(1) cur(2)
    by (auto simp: expireDelivery_def ok_iff expiry_input_def [of now tm cur] revision_conflict_def Let_def lease_step_def
        TERMINAL_STATUSES_def PENDING_STATUSES_def CURRENT_STATUSES_def split: if_splits)
  from run have a: "mutate commits (applyDelivery (\<lambda>st. expireDelivery st ?i)) rp = (Inr m, rp')"
    by (simp add: expireCurrentDelivery_def)
  show ?thesis using a typed
  proof (cases rule: apply_view)
    case same
    with ex show ?thesis by fastforce
  next
    case (wrote m0 d)
    with ex [OF wrote(1)] show ?thesis by auto
  qed
qed

subsection \<open>The serving scheduler\<close>

text \<open>The current delivery of an id, and when its lease ends.\<close>

definition leased :: "repository \<Rightarrow> jstr \<Rightarrow> delivery_record \<Rightarrow> bool" where
  "leased rp i d \<longleftrightarrow> getDelivery_row rp i = Some d \<and> dl_status d = Current"

definition lease_end :: "delivery_record \<Rightarrow> int" where
  "lease_end d = or_else (effectiveDeliveryDeadline d) 0"

text \<open>
  The timers enforce a lease once the delivery has been scheduled as it is stored. The set \<open>loose\<close> holds the
  deliveries of which that cannot be said: a write of others made them current, moved them or shortened their lease;
  their expiry write was refused; a record that is not the stored one was scheduled under their key; or the
  scheduler was torn down.
\<close>

definition loosened :: "repository \<Rightarrow> repository \<Rightarrow> jstr set" where
  "loosened rp rp' = {i. \<exists>d. leased rp' i d \<and>
     \<not> (\<exists>d0. leased rp i d0 \<and> correlation_of d = correlation_of d0 \<and> lease_end d0 \<le> lease_end d)}"

definition scheduled :: "repository \<Rightarrow> delivery_record \<Rightarrow> jstr set \<Rightarrow> jstr set" where
  "scheduled rp d loose =
     {i. (i \<in> loose \<or> (\<exists>d'. leased rp i d' \<and> timer_key d' = timer_key d)) \<and> \<not> leased rp i d}"

definition after_callback :: "repository \<Rightarrow> timer \<Rightarrow> expiry_outcome \<Rightarrow> jstr set \<Rightarrow> jstr set" where
  "after_callback rp tm out loose =
     (case out of
        ExpiryRejected _ \<Rightarrow> insert (tm_delivery tm) loose
      | Rearmed \<Rightarrow> (case getDelivery_row rp (tm_delivery tm) of None \<Rightarrow> loose | Some cur \<Rightarrow> scheduled rp cur loose)
      | _ \<Rightarrow> loose)"

text \<open>
  The system while it serves: time passes, due timers fire, their callbacks run and the writes they ask for may be
  refused, any operation of the repository writes, any record is scheduled, and the scheduler may be torn down.
\<close>

inductive serving_step :: "expiry_system \<times> jstr set \<Rightarrow> expiry_system \<times> jstr set \<Rightarrow> bool" where
  serve_tick: "xs_clock s \<le> t \<Longrightarrow> serving_step (s, loose) (s\<lparr>xs_clock := t\<rparr>, loose)"
| serve_fire: "tm \<in> set (sc_armed (xs_scheduler s)) \<Longrightarrow> tm_due tm \<le> xs_clock s \<Longrightarrow>
    serving_step (s, loose) (s\<lparr>xs_scheduler := (xs_scheduler s)\<lparr>sc_armed := remove1 tm (sc_armed (xs_scheduler s))\<rparr>,
      xs_waiting := xs_waiting s @ [tm]\<rparr>, loose)"
| serve_run: "tm \<in> set (xs_waiting s) \<Longrightarrow> xs_clock s \<le> t \<Longrightarrow>
    run_timer commits (xs_clock s) t tm (xs_scheduler s) (xs_repo s) = (out, sc, rp) \<Longrightarrow>
    serving_step (s, loose) (s\<lparr>xs_scheduler := sc, xs_repo := rp, xs_clock := t, xs_waiting := remove1 tm (xs_waiting s),
      xs_advanced := xs_advanced s @ advance_of out\<rparr>, after_callback (xs_repo s) tm out loose)"
| serve_write: "repo_step (xs_repo s) rp \<Longrightarrow>
    serving_step (s, loose) (s\<lparr>xs_repo := rp\<rparr>, loose \<union> loosened (xs_repo s) rp)"
| serve_schedule:
    "serving_step (s, loose) (s\<lparr>xs_scheduler := schedule (xs_clock s) d (xs_scheduler s)\<rparr>, scheduled (xs_repo s) d loose)"
| serve_teardown: "serving_step (s, loose)
    (s\<lparr>xs_scheduler := dispose (xs_scheduler s)\<rparr>, loose \<union> {i. \<exists>d. leased (xs_repo s) i d})"

text \<open>At the start nothing is scheduled yet.\<close>

definition serving_start :: "repository \<Rightarrow> int \<Rightarrow> expiry_system \<times> jstr set" where
  "serving_start rp now = (expiry_start rp now, {i. \<exists>d. leased rp i d})"

definition watches :: "expiry_system \<Rightarrow> jstr \<Rightarrow> delivery_record \<Rightarrow> timer \<Rightarrow> bool" where
  "watches s i d tm \<longleftrightarrow> tm_delivery tm = i \<and> tm_correlation tm = correlation_of d \<and> tm_key tm = timer_key d \<and>
     (tm \<in> set (sc_armed (xs_scheduler s)) \<and> tm_due tm \<le> max (lease_end d) (xs_clock s) \<or> tm \<in> set (xs_waiting s))"

definition watched :: "expiry_system \<times> jstr set \<Rightarrow> bool" where
  "watched = (\<lambda>(s, loose). timers_ok (xs_scheduler s) (xs_waiting s) \<and> repo_typed (xs_repo s) \<and>
     (\<forall>i d. leased (xs_repo s) i d \<longrightarrow> i \<notin> loose \<longrightarrow> (\<exists>tm. watches s i d tm)))"

lemma watchedD:
  assumes "watched (s, loose)"
  shows "timers_ok (xs_scheduler s) (xs_waiting s)" and "repo_typed (xs_repo s)"
    and "leased (xs_repo s) i d \<Longrightarrow> i \<notin> loose \<Longrightarrow> \<exists>tm. watches s i d tm"
  using assms by (auto simp: watched_def)

lemma watchedI:
  assumes "timers_ok (xs_scheduler s) (xs_waiting s)" and "repo_typed (xs_repo s)"
    and "\<And>i d. leased (xs_repo s) i d \<Longrightarrow> i \<notin> loose \<Longrightarrow> \<exists>tm. watches s i d tm"
  shows "watched (s, loose)"
  using assms by (auto simp: watched_def)

lemma leased_id: "repo_typed rp \<Longrightarrow> leased rp i d \<Longrightarrow> dl_deliveryId d = i \<and> petLocusDeliveryV20 d"
  by (auto simp: leased_def repo_typed_def deliveries_ok_def getDelivery_row_def)

lemma leased_end: "repo_typed rp \<Longrightarrow> leased rp i d \<Longrightarrow> effectiveDeliveryDeadline d = Some (lease_end d)"
  using leased_id current_fields(3) by (fastforce simp: leased_def lease_end_def)

lemma schedule_other: "tm \<in> set (sc_armed sc) \<Longrightarrow> timers_ok sc w \<Longrightarrow> tm_key tm \<noteq> timer_key d \<Longrightarrow>
    tm \<in> set (sc_armed (schedule now d sc))"
proof -
  assume tm: "tm \<in> set (sc_armed sc)" and ok: "timers_ok sc w" and k: "tm_key tm \<noteq> timer_key d"
  have d: "distinct (map tm_id (sc_armed sc @ w))" using ok unfolding timers_ok_def by blast
  then have inj: "inj_on tm_id (set (sc_armed sc @ w))" using distinct_map by blast
  have "Some (tm_id tm) \<noteq> map_of (sc_timers sc) (timer_key d)"
  proof
    assume "Some (tm_id tm) = map_of (sc_timers sc) (timer_key d)"
    then obtain t where "t \<in> set (sc_armed sc @ w)" "tm_id t = tm_id tm" "tm_key t = timer_key d"
      using ok unfolding timers_ok_def by metis
    with inj tm k show False by (auto dest: inj_onD)
  qed
  then show ?thesis using tm by (auto simp: schedule_def Let_def clearTimer_armed split: option.splits)
qed

lemma schedule_arms:
  assumes "effectiveDeliveryDeadline d = Some t" "dl_status d = Current"
  obtains tm where "tm \<in> set (sc_armed (schedule now d sc))" "tm_delivery tm = dl_deliveryId d"
    "tm_correlation tm = correlation_of d" "tm_key tm = timer_key d" "tm_due tm \<le> max t now"
proof
  let ?tm = "\<lparr>tm_id = sc_next sc, tm_key = timer_key d, tm_delivery = dl_deliveryId d, tm_correlation = correlation_of d,
    tm_due = now + max 0 (min (t - now) MAX_TIMER_DELAY)\<rparr>"
  show "?tm \<in> set (sc_armed (schedule now d sc))" using assms by (simp add: schedule_def Let_def)
qed (simp_all add: MAX_TIMER_DELAY_def)

lemma same_key:
  assumes "repo_typed rp" "leased rp i d" and "repo_typed rp'" "leased rp' i d'" and "correlation_of d' = correlation_of d"
  shows "timer_key d' = timer_key d"
  using leased_id [OF assms(1,2)] leased_id [OF assms(3,4)] assms(5) by (simp add: timer_key_def correlation_of_def)

text \<open>A watch survives writes that keep the lease, the passing of time, and the arming of another delivery.\<close>

lemma watch_kept:
  assumes "watches s i d0 tm" and "correlation_of d = correlation_of d0" "timer_key d = timer_key d0" "lease_end d0 \<le> lease_end d"
    and "xs_clock s \<le> xs_clock t"
    and "tm \<in> set (sc_armed (xs_scheduler s)) \<Longrightarrow> tm \<in> set (sc_armed (xs_scheduler t)) \<or> tm \<in> set (xs_waiting t)"
    and "tm \<in> set (xs_waiting s) \<Longrightarrow> tm \<in> set (xs_waiting t)"
  shows "watches t i d tm"
  using assms unfolding watches_def by (auto simp: max_def split: if_splits)

text \<open>Arming a timer for a record: the record is watched when it is the stored one, and other keys are left alone.\<close>

lemma watch_scheduled:
  assumes ok: "timers_ok (xs_scheduler s) (xs_waiting s)" and ty: "repo_typed rp"
    and w: "\<And>i d. leased rp i d \<Longrightarrow> i \<notin> loose \<Longrightarrow> \<exists>tm. watches s i d tm"
    and l: "leased rp i d'" and tight: "i \<notin> scheduled rp d loose"
    and armed: "set (sc_armed (schedule now d (xs_scheduler s))) \<subseteq> set (sc_armed (xs_scheduler t))"
    and waiting: "\<And>x. x \<in> set (xs_waiting s) \<Longrightarrow> x \<in> set (xs_waiting t) \<or> leased rp (tm_delivery x) d"
    and clock: "xs_clock s \<le> xs_clock t" "now \<le> xs_clock t"
  shows "\<exists>tm. watches t i d' tm"
proof (cases "leased rp i d")
  case True
  then have d: "d' = d" "dl_status d = Current" "dl_deliveryId d = i"
    using l leased_id [OF ty True] by (auto simp: leased_def)
  from schedule_arms [OF leased_end [OF ty True] d(2), of now "xs_scheduler s"] obtain tm where
    tm: "tm \<in> set (sc_armed (schedule now d (xs_scheduler s)))" "tm_delivery tm = dl_deliveryId d"
      "tm_correlation tm = correlation_of d" "tm_key tm = timer_key d" "tm_due tm \<le> max (lease_end d) now" by blast
  then have "watches t i d' tm" using armed clock d unfolding watches_def by auto
  then show ?thesis by blast
next
  case False
  with tight l have free: "i \<notin> loose" and key: "timer_key d' \<noteq> timer_key d" by (auto simp: scheduled_def)
  from w [OF l free] obtain x where x: "watches s i d' x" by blast
  then have k: "tm_key x \<noteq> timer_key d" and id: "tm_delivery x = i" using key by (simp_all add: watches_def)
  have "watches t i d' x"
    by (rule watch_kept [OF x refl refl order_refl clock(1)])
      (use schedule_other [OF _ ok k] armed waiting [of x] id False in auto)
  then show ?thesis by blast
qed

lemma watched_schedule:
  assumes w: "watched (s, loose)"
  shows "watched (s\<lparr>xs_scheduler := schedule (xs_clock s) d (xs_scheduler s)\<rparr>, scheduled (xs_repo s) d loose)"
    (is "watched (?t, _)")
proof (rule watchedI)
  note ok = watchedD(1) [OF w] and ty = watchedD(2) [OF w]
  show "timers_ok (xs_scheduler ?t) (xs_waiting ?t)" using schedule_ok [OF ok] by simp
  show "repo_typed (xs_repo ?t)" using ty by simp
  fix i d'
  assume l: "leased (xs_repo ?t) i d'" and tight: "i \<notin> scheduled (xs_repo s) d loose"
  from l have "leased (xs_repo s) i d'" by simp
  from watch_scheduled [OF ok ty watchedD(3) [OF w] this tight, where t = ?t and now = "xs_clock s"]
  show "\<exists>tm. watches ?t i d' tm" by simp
qed

lemma watched_write:
  assumes w: "watched (s, loose)" and st: "repo_step (xs_repo s) rp"
  shows "watched (s\<lparr>xs_repo := rp\<rparr>, loose \<union> loosened (xs_repo s) rp)"
proof (rule watchedI)
  have ty: "repo_typed (xs_repo s)" "repo_typed rp" using watchedD(2) [OF w] repo_step_typed [OF st] by simp_all
  show "timers_ok (xs_scheduler (s\<lparr>xs_repo := rp\<rparr>)) (xs_waiting (s\<lparr>xs_repo := rp\<rparr>))" using watchedD(1) [OF w] by simp
  show "repo_typed (xs_repo (s\<lparr>xs_repo := rp\<rparr>))" using ty(2) by simp
  fix i d
  assume j: "leased (xs_repo (s\<lparr>xs_repo := rp\<rparr>)) i d" and free: "i \<notin> loose \<union> loosened (xs_repo s) rp"
  then have j': "leased rp i d" by simp
  with free obtain d0 where d0: "leased (xs_repo s) i d0" "correlation_of d = correlation_of d0" "lease_end d0 \<le> lease_end d"
    unfolding loosened_def by blast
  from watchedD(3) [OF w d0(1)] free obtain tm where tm: "watches s i d0 tm" by blast
  have "watches (s\<lparr>xs_repo := rp\<rparr>) i d tm"
    by (rule watch_kept [OF tm d0(2) same_key [OF ty(1) d0(1) ty(2) j' d0(2)] d0(3)]) simp_all
  then show "\<exists>tm. watches (s\<lparr>xs_repo := rp\<rparr>) i d tm" by blast
qed

lemma watched_fire:
  assumes w: "watched (s, loose)" and tm: "tm \<in> set (sc_armed (xs_scheduler s))"
  shows "watched (s\<lparr>xs_scheduler := (xs_scheduler s)\<lparr>sc_armed := remove1 tm (sc_armed (xs_scheduler s))\<rparr>,
      xs_waiting := xs_waiting s @ [tm]\<rparr>, loose)" (is "watched (?t, _)")
proof (rule watchedI)
  show "timers_ok (xs_scheduler ?t) (xs_waiting ?t)" using fire_ok [OF watchedD(1) [OF w] tm] by simp
  show "repo_typed (xs_repo ?t)" using watchedD(2) [OF w] by simp
  fix i d
  assume "leased (xs_repo ?t) i d" and "i \<notin> loose"
  then obtain x where x: "watches s i d x" using watchedD(3) [OF w, of i d] by auto
  have "watches ?t i d x" by (rule watch_kept [OF x refl refl order_refl]; cases "x = tm") simp_all
  then show "\<exists>x. watches ?t i d x" by blast
qed

lemma watched_tick:
  assumes w: "watched (s, loose)" and t: "xs_clock s \<le> t"
  shows "watched (s\<lparr>xs_clock := t\<rparr>, loose)"
proof -
  have "watches (s\<lparr>xs_clock := t\<rparr>) i d tm" if "watches s i d tm" for i d tm
    by (rule watch_kept [OF that refl refl order_refl]) (use t in simp_all)
  with watchedD [OF w] show ?thesis by (intro watchedI) (simp_all, blast)
qed

lemma watched_teardown:
  "watched (s, loose) \<Longrightarrow>
     watched (s\<lparr>xs_scheduler := dispose (xs_scheduler s)\<rparr>, loose \<union> {i. \<exists>d. leased (xs_repo s) i d})"
  by (rule watchedI) (auto dest: watchedD(1,2) intro: dispose_ok)

text \<open>A timer of another correlation than the stored one changes nothing.\<close>

lemma stale_expiry:
  assumes m: "mutate commits (expireCurrentDelivery (expiry_input now tm cur)) rp = (Inr n, rp')" and typed: "repo_typed rp"
    and cur: "leased rp (tm_delivery tm) cur" and off: "correlation_of cur \<noteq> tm_correlation tm"
  shows "rp' = rp \<and> (mu_record n = None \<or> \<not> mu_changed n)"
proof -
  have a: "mutate commits (applyDelivery (\<lambda>st. expireDelivery st (expiry_input now tm cur))) rp = (Inr n, rp')"
    using m by (simp add: expireCurrentDelivery_def)
  have look: "map_of (lg_byDeliveryId (ledgerState (stage rp))) (tm_delivery tm) = Some cur"
    using ledger_lookup [OF typed] cur by (simp add: leased_def)
  have c: "\<not> correlates cur (expiry_input now tm cur)"
    using off by (auto simp: correlates_def expiry_input_def correlation_of_def sameEndpoint_def)
  have nc: "\<not> mu_changed k" if "expireDelivery (ledgerState (stage rp)) (expiry_input now tm cur) = Inr k" for k
    using that look c leased_id [OF typed cur]
    by (auto simp: expireDelivery_def ok_iff expiry_input_def [of now tm cur] unchanged_def)
  from a typed show ?thesis by (cases rule: apply_view) (use nc in auto)
qed

text \<open>What a callback does.\<close>

lemma job_cases:
  assumes job: "expiry_job commits now t tm sc rp = (out, sc1, rp')" and typed: "repo_typed rp"
  obtains (idle) "sc1 = sc" "rp' = rp" "\<nexists>d. leased rp (tm_delivery tm) d" "out = NothingCurrent"
  | (rearm) cur where "leased rp (tm_delivery tm) cur" "sc1 = schedule t cur sc" "rp' = rp" "out = Rearmed"
  | (refused) e where "out = ExpiryRejected e" "sc1 = sc" "rp' = rp"
  | (lost) cur where "leased rp (tm_delivery tm) cur" "correlation_of cur \<noteq> tm_correlation tm" "sc1 = sc" "rp' = rp" "out = LostRace"
  | (expired) cur r where "leased rp (tm_delivery tm) cur" "sc1 = sc" "dl_status r = Expired" "out = ExpiredAs r"
      "getDelivery_row rp' = (getDelivery_row rp)(tm_delivery tm \<mapsto> r)" "repo_typed rp'"
proof (cases "\<exists>d. leased rp (tm_delivery tm) d")
  case False
  then have "sc1 = sc \<and> rp' = rp \<and> out = NothingCurrent" using job by (auto simp: expiry_job_def leased_def split: option.splits if_splits)
  with False idle show thesis by blast
next
  case True
  then obtain cur where cur: "leased rp (tm_delivery tm) cur" by blast
  from current_fields [of cur] leased_id [OF typed cur] cur have f: "dl_queueState cur = Some InCurrent" "dl_revision cur \<noteq> None"
    by (simp_all add: leased_def)
  note e = leased_end [OF typed cur]
  show thesis
  proof (cases "now < lease_end cur")
    case True
    then have "sc1 = schedule t cur sc \<and> rp' = rp \<and> out = Rearmed" using job cur f e by (auto simp: expiry_job_def leased_def)
    with cur rearm show thesis by blast
  next
    case False
    let ?w = "expireCurrentDelivery (expiry_input now tm cur)"
    obtain res rp1 where m: "mutate commits ?w rp = (res, rp1)" by fastforce
    show thesis
    proof (cases res)
      case (Inl e)
      then have "rp1 = rp" using m by (auto simp: mutate_def flush_def split: sum.splits prod.splits if_splits)
      moreover have "out = ExpiryRejected e \<and> sc1 = sc \<and> rp' = rp1"
        using job cur f e False m Inl by (auto simp: expiry_job_def leased_def)
      ultimately show thesis using refused by blast
    next
      case (Inr n)
      then have m: "mutate commits ?w rp = (Inr n, rp')" and sc1: "sc1 = sc"
        and out: "out = (case mu_record n of None \<Rightarrow> LostRace | Some r \<Rightarrow> if \<not> mu_changed n then LostRace else ExpiredAs r)"
        using job cur f e False m by (auto simp: expiry_job_def leased_def split: option.splits if_splits)
      show thesis
      proof (cases "correlation_of cur = tm_correlation tm")
        case True
        from expiry_takes_place [OF m typed _ _ True [symmetric] e] False cur obtain r where
          "mu_record n = Some r" "mu_changed n" "dl_status r = Expired" "getDelivery_row rp' = (getDelivery_row rp)(tm_delivery tm \<mapsto> r)"
          by (auto simp: leased_def)
        moreover have "repo_typed rp'"
          using mutate_typed [OF typed, of ?w commits] m by (auto simp: expireCurrentDelivery_def intro: typed_step)
        ultimately show thesis using expired cur sc1 out by simp
      next
        case off: False
        from stale_expiry [OF m typed cur off] have same: "rp' = rp" "mu_record n = None \<or> \<not> mu_changed n" by simp_all
        then have "out = LostRace" unfolding out by (auto split: option.split)
        with lost cur off sc1 same(1) show thesis by blast
      qed
    qed
  qed
qed

lemma release_armed [simp]: "sc_armed (release_timer tm sc) = sc_armed sc"
  by (simp add: release_timer_def)

lemma watched_run:
  assumes w: "watched (s, loose)" and tm: "tm \<in> set (xs_waiting s)" and clock: "xs_clock s \<le> t"
    and run: "run_timer commits (xs_clock s) t tm (xs_scheduler s) (xs_repo s) = (out, sc, rp)"
  shows "watched (s\<lparr>xs_scheduler := sc, xs_repo := rp, xs_clock := t, xs_waiting := remove1 tm (xs_waiting s),
    xs_advanced := a\<rparr>, after_callback (xs_repo s) tm out loose)" (is "watched (?t, ?loose)")
proof -
  note ok = watchedD(1) [OF w] and ty = watchedD(2) [OF w] and ws = watchedD(3) [OF w]
  let ?i = "tm_delivery tm"
  obtain sc1 where j: "expiry_job commits (xs_clock s) t tm (xs_scheduler s) (xs_repo s) = (out, sc1, rp)"
    and sc: "sc = release_timer tm sc1" using run by (auto simp: run_timer_def split: prod.splits)
  text \<open>A watch of another timer than \<open>tm\<close> survives as long as that timer stays armed.\<close>
  have other: "\<exists>x. watches ?t i d x" if "watches s i d x" "x \<noteq> tm" "sc1 = xs_scheduler s" for i d x
    by (rule exI, rule watch_kept [OF that(1) refl refl order_refl]) (use that(2,3) clock sc in auto)
  have ok': "timers_ok (xs_scheduler ?t) (xs_waiting ?t)" using run_ok [OF ok tm run] by simp
  from j ty show ?thesis
  proof (cases rule: job_cases)
    case idle
    have "\<exists>x. watches ?t i d x" if l: "leased (xs_repo s) i d" "i \<notin> loose" for i d
    proof -
      from ws [OF l] obtain x where x: "watches s i d x" by blast
      then have "x \<noteq> tm" using l idle(3) by (auto simp: watches_def)
      from other [OF x this idle(1)] show ?thesis .
    qed
    with ok' ty idle(2,4) show ?thesis by (intro watchedI) (simp_all add: after_callback_def)
  next
    case (rearm cur)
    have cur: "getDelivery_row (xs_repo s) ?i = Some cur" "dl_deliveryId cur = ?i"
      using rearm(1) leased_id [OF ty rearm(1)] by (simp_all add: leased_def)
    have loose: "?loose = scheduled (xs_repo s) cur loose" using rearm(4) cur(1) by (simp add: after_callback_def)
    have "\<exists>x. watches ?t i d x" if "leased (xs_repo s) i d" "i \<notin> ?loose" for i d
    proof (rule watch_scheduled [OF ok ty ws that [unfolded loose], where now = t])
      show "set (sc_armed (schedule t cur (xs_scheduler s))) \<subseteq> set (sc_armed (xs_scheduler ?t))" by (simp add: sc rearm(2))
      show "x \<in> set (xs_waiting ?t) \<or> leased (xs_repo s) (tm_delivery x) cur" if "x \<in> set (xs_waiting s)" for x
        using that rearm(1) by (cases "x = tm") simp_all
    qed (use clock in simp_all)
    with ok' ty rearm(3) show ?thesis by (intro watchedI) simp_all
  next
    case (refused e)
    have "\<exists>x. watches ?t i d x" if l: "leased (xs_repo s) i d" "i \<notin> insert ?i loose" for i d
    proof -
      from ws [of i d] l obtain x where x: "watches s i d x" by blast
      then have "x \<noteq> tm" using l(2) by (auto simp: watches_def)
      from other [OF x this refused(2)] show ?thesis .
    qed
    with ok' ty refused(1,3) show ?thesis by (intro watchedI) (simp_all add: after_callback_def)
  next
    case (lost cur)
    have "\<exists>x. watches ?t i d x" if l: "leased (xs_repo s) i d" "i \<notin> loose" for i d
    proof -
      from ws [OF l] obtain x where x: "watches s i d x" by blast
      have "x \<noteq> tm"
      proof
        assume "x = tm"
        with x have "i = ?i" "correlation_of d = tm_correlation tm" by (auto simp: watches_def)
        moreover from this l(1) lost(1) have "d = cur" by (simp add: leased_def)
        ultimately show False using lost(2) by simp
      qed
      from other [OF x this lost(3)] show ?thesis .
    qed
    with ok' ty lost(4,5) show ?thesis by (intro watchedI) (simp_all add: after_callback_def)
  next
    case (expired cur r)
    have "\<exists>x. watches ?t i d x" if l: "leased rp i d" "i \<notin> loose" for i d
    proof -
      have i: "i \<noteq> ?i" using l(1) expired(3,5) by (auto simp: leased_def)
      then have l': "leased (xs_repo s) i d" using l(1) expired(5) by (simp add: leased_def)
      from ws [OF l' l(2)] obtain x where x: "watches s i d x" by blast
      then have "x \<noteq> tm" using i by (auto simp: watches_def)
      from other [OF x this expired(2)] show ?thesis .
    qed
    with ok' expired(4,6) show ?thesis by (intro watchedI) (simp_all add: after_callback_def)
  qed
qed

lemma serving_step_watched: "serving_step p q \<Longrightarrow> watched p \<Longrightarrow> watched q"
  by (induction rule: serving_step.induct)
    (erule watched_tick watched_fire watched_run watched_write watched_schedule watched_teardown; assumption?)+

interpretation serving: invariant_system serving_step watched
  by unfold_locales (rule serving_step_watched)

lemma serving_start_watched: "repo_typed rp \<Longrightarrow> watched (serving_start rp now)"
  using expiry_start_ok unfolding serving_start_def
  by (intro watchedI) (auto simp: expiry_start_def)

text \<open>A write that starts no lease, moves none and shortens none loosens nothing; the extension of a lease is one.\<close>

lemma lease_kept_write:
  assumes run: "mutate commits (applyDelivery f) rp = (x, rp')" and typed: "repo_typed rp"
    and f: "\<And>m r. f (ledgerState (stage rp)) = Inr m \<Longrightarrow> mu_record m = Some r \<Longrightarrow> mu_changed m \<Longrightarrow> dl_status r = Current \<Longrightarrow>
      \<exists>cur. leased rp (dl_deliveryId r) cur \<and> correlation_of r = correlation_of cur \<and> lease_end cur \<le> lease_end r"
  shows "loosened rp rp' = {}"
proof -
  have le: "lease_end (with_state_revision d) = lease_end d" for d
    by (cases "dl_revision d") (simp_all add: with_state_revision_def lease_end_def effectiveDeliveryDeadline_def hard_cap_def
        cong: option.case_cong)
  have "rp' = rp \<or> (\<exists>m0 d. f (ledgerState (stage rp)) = Inr m0 \<and> mu_record m0 = Some d \<and> mu_changed m0 \<and>
      getDelivery_row rp' = (getDelivery_row rp)(dl_deliveryId d \<mapsto> with_state_revision d))"
  proof (cases x)
    case (Inl e)
    with run show ?thesis by (auto simp: mutate_def flush_def split: sum.splits prod.splits if_splits)
  next
    case (Inr m)
    from run [unfolded Inr] typed show ?thesis by (cases rule: apply_view) blast+
  qed
  then show ?thesis
  proof
    assume "\<exists>m0 d. f (ledgerState (stage rp)) = Inr m0 \<and> mu_record m0 = Some d \<and> mu_changed m0 \<and>
      getDelivery_row rp' = (getDelivery_row rp)(dl_deliveryId d \<mapsto> with_state_revision d)"
    then obtain m0 d where d: "f (ledgerState (stage rp)) = Inr m0" "mu_record m0 = Some d" "mu_changed m0"
      "getDelivery_row rp' = (getDelivery_row rp)(dl_deliveryId d \<mapsto> with_state_revision d)" by blast
    have "\<exists>d0. leased rp i d0 \<and> correlation_of d' = correlation_of d0 \<and> lease_end d0 \<le> lease_end d'" if l: "leased rp' i d'" for i d'
    proof (cases "i = dl_deliveryId d")
      case True
      then have "d' = with_state_revision d" "dl_status d = Current" using l d(4) by (auto simp: leased_def)
      with f [OF d(1-3)] True show ?thesis by (auto simp: le)
    next
      case False
      then have "leased rp i d'" using l d(4) by (simp add: leased_def)
      then show ?thesis by blast
    qed
    then show ?thesis unfolding loosened_def by blast
  qed (auto simp: loosened_def)
qed

lemma extension_keeps_leases:
  assumes "mutate commits (waitCurrentDelivery i) rp = (x, rp')" and "repo_typed rp"
  shows "loosened rp rp' = {}"
proof (rule lease_kept_write [OF assms(1) [unfolded waitCurrentDelivery_def] assms(2)])
  fix m r
  assume w: "waitDelivery (ledgerState (stage rp)) i = Inr m" "mu_record m = Some r" "mu_changed m"
  let ?hard = "\<lambda>cur. or_else (dl_hardDeadlineAt cur) (or_else (dl_acceptedAt cur) (li_now i) + MAX_DELIVERY_LEASE_MS)"
  have look: "map_of (lg_byDeliveryId (ledgerState (stage rp))) (li_deliveryId i) = getDelivery_row rp (li_deliveryId i)"
    by (rule ledger_lookup [OF assms(2)])
  obtain cur where cur: "getDelivery_row rp (li_deliveryId i) = Some cur" "dl_status cur = Current"
    using w by (auto simp: waitDelivery_def ok_iff unchanged_def look split: option.splits if_splits)
  have "\<exists>t. or_else (dl_deadlineAt cur) (li_now i) \<le> t \<and> lease_step (ledgerState (stage rp)) cur
      (cur\<lparr>dl_deadlineAt := Some t, dl_hardDeadlineAt := Some (?hard cur)\<rparr>) = Inr m"
    using w look cur
    by (auto simp: waitDelivery_def ok_iff Let_def unchanged_def not_le split: if_splits
        intro!: exI [of _ "min (max (or_else (dl_deadlineAt cur) (li_now i)) (li_now i + wi_waitMinutes i * 60 * 1000)) (?hard cur)"])
  then obtain t where more: "or_else (dl_deadlineAt cur) (li_now i) \<le> t"
    and s: "lease_step (ledgerState (stage rp)) cur (cur\<lparr>dl_deadlineAt := Some t, dl_hardDeadlineAt := Some (?hard cur)\<rparr>) = Inr m"
    by blast
  from s w(2) obtain rv where r: "r = cur\<lparr>dl_deadlineAt := Some t, dl_hardDeadlineAt := Some (?hard cur), dl_revision := Some rv\<rparr>"
    by (auto simp: lease_step_def ok_iff)
  have l: "leased rp (li_deliveryId i) cur" using cur by (simp add: leased_def)
  have id: "dl_deliveryId cur = li_deliveryId i" and ok: "petLocusDeliveryV20 cur" using leased_id [OF assms(2) l] by simp_all
  have "refine_modern cur" using ok cur(2) by (simp add: petLocusDeliveryV20_def refineLocusDelivery_def modern_def)
  then obtain h t0 where ht: "dl_hardDeadlineAt cur = Some h" "dl_deadlineAt cur = Some t0" using cur(2) by (auto simp: refine_modern_def)
  have "lease_end cur \<le> lease_end r"
    using more by (simp add: r lease_end_def effectiveDeliveryDeadline_def hard_cap_def ht)
  then show "\<exists>cur. leased rp (dl_deliveryId r) cur \<and> correlation_of r = correlation_of cur \<and> lease_end cur \<le> lease_end r"
    using l id by (intro exI [of _ cur]) (simp add: r correlation_of_def)
qed

subsection \<open>A concrete run\<close>

text \<open>The message \<open>a\<close> of the chat becomes current at time 30 and is scheduled; ten units pass.\<close>

definition current_a :: delivery_record where
  "current_a = the (getDelivery_row rp3c (js ''a''))"

definition claimed :: expiry_system where
  "claimed = (expiry_start rp3b 30)\<lparr>xs_repo := rp3c,
     xs_scheduler := schedule 30 current_a (xs_scheduler (expiry_start rp3b 30))\<rparr>"

lemma the_current: "leased rp3c (js ''a'') current_a" "leased rp3c i d \<Longrightarrow> i = js ''a''" "\<not> leased rp3b i d"
proof -
  have "map_option dl_status (getDelivery_row rp3c (js ''a'')) = Some Current" by code_simp
  then show "leased rp3c (js ''a'') current_a" by (auto simp: leased_def current_a_def)
  have c: "list_all (\<lambda>(k, d). dl_status d = Current \<longrightarrow> k = js ''a'') (deliveries_of rp3c)"
    and b: "list_all (\<lambda>(k, d). dl_status d \<noteq> Current) (deliveries_of rp3b)" by code_simp+
  show "leased rp3c i d \<Longrightarrow> i = js ''a''"
    using c by (auto simp: leased_def getDelivery_row_def list_all_iff dest!: map_of_SomeD)
  show "\<not> leased rp3b i d"
    using b by (auto simp: leased_def getDelivery_row_def list_all_iff dest!: map_of_SomeD)
qed

lemma claim_run: "serving_step\<^sup>*\<^sup>* (serving_start rp3b 30) (claimed, {})"
proof -
  let ?s0 = "expiry_start rp3b 30"
  let ?s1 = "?s0\<lparr>xs_repo := rp3c\<rparr>"
  have none: "{i. \<exists>d. leased rp3b i d} = {}" using the_current(3) by blast
  have "repo_step (xs_repo ?s0) rp3c" unfolding rp3c_def claimCurrentDelivery_row_def expiry_start_def by (simp add: ledger)
  from serve_write [OF this, of "{}"] have 1: "serving_step (serving_start rp3b 30) (?s1, loosened rp3b rp3c)"
    unfolding serving_start_def none by (simp add: expiry_start_def)
  have "scheduled rp3c current_a (loosened rp3b rp3c) = {}"
  proof -
    have "leased rp3c i current_a" if "leased rp3c i d" for i d using the_current(2) [OF that] the_current(1) by simp
    then show ?thesis by (auto simp: scheduled_def loosened_def)
  qed
  then have 2: "serving_step (?s1, loosened rp3b rp3c) (claimed, {})"
    using serve_schedule [of ?s1 "loosened rp3b rp3c" current_a] by (simp add: claimed_def expiry_start_def)
  from 1 2 show ?thesis by simp
qed

lemma accepted_run: "repo_step\<^sup>*\<^sup>* (fresh_repository True) rp3b"
proof -
  have "rp_accessChanging rp3 = []" by code_simp
  then have "repo_step rp3 rp3b" using accept [of rp3 True 20 "message ''b''"] unfolding rp3b_def by simp
  then show ?thesis by (meson demo_run rtranclp.rtrancl_refl rtranclp.rtrancl_into_rtrancl)
qed

subsection \<open>Properties\<close>

text \<open>
  C28: no enforced lease outlives its deadline. Time passes, due timers fire, their callbacks run, each as one step,
  with writes that may be refused, every operation of the repository may write in between, any record may be scheduled
  and the scheduler may be torn down, in any order. Once no callback waits and no armed timer is due, every current
  delivery that is not \<open>loose\<close> has time left. A delivery is tight from when it is scheduled as it is stored, through
  extensions and re-armings, until its expiry write is refused, a write of others makes it current anew, moves it to
  another chat, entry or session or shortens its lease, a record that is not the stored one is scheduled under its
  key, or the scheduler is torn down.
\<close>

theorem no_lease_outlives_its_deadline:
  assumes "repo_step\<^sup>*\<^sup>* (fresh_repository atomic) rp" and "serving_step\<^sup>*\<^sup>* (serving_start rp now) (s, loose)"
    and "xs_waiting s = []" and "\<And>tm. tm \<in> set (sc_armed (xs_scheduler s)) \<Longrightarrow> xs_clock s < tm_due tm"
    and "getDelivery_row (xs_repo s) i = Some d" and "dl_status d = Current" and "i \<notin> loose"
  shows "\<exists>t. effectiveDeliveryDeadline d = Some t \<and> xs_clock s < t"
proof -
  from serving.run_inv [OF assms(2) serving_start_watched [OF reached_typed [OF assms(1)]]]
  have w: "watched (s, loose)" .
  have l: "leased (xs_repo s) i d" using assms(5,6) by (simp add: leased_def)
  from watchedD(3) [OF w l assms(7)] obtain tm where tm: "watches s i d tm" by blast
  with assms(3) have armed: "tm \<in> set (sc_armed (xs_scheduler s))" and due: "tm_due tm \<le> max (lease_end d) (xs_clock s)"
    by (auto simp: watches_def)
  with assms(4) [OF armed] have "xs_clock s < lease_end d" by linarith
  with leased_end [OF watchedD(2) [OF w] l] show ?thesis by blast
qed

theorem no_lease_outlives_its_deadline_witness:
  "effectiveDeliveryDeadline current_a = Some 3600010 \<and> 40 < (3600010 :: int)"
proof -
  let ?s = "claimed\<lparr>xs_clock := 40\<rparr>"
  have e: "effectiveDeliveryDeadline current_a = Some 3600010" by code_simp
  have "serving_step (claimed, {}) (?s, {})" by (rule serve_tick) (simp add: claimed_def expiry_start_def)
  with claim_run have run: "serving_step\<^sup>*\<^sup>* (serving_start rp3b 30) (?s, {})" by simp
  have waits: "xs_waiting ?s = []" by (simp add: claimed_def expiry_start_def)
  have c: "getDelivery_row (xs_repo ?s) (js ''a'') = Some current_a" "dl_status current_a = Current"
    using the_current(1) by (simp_all add: claimed_def leased_def)
  have due: "xs_clock ?s < tm_due tm" if "tm \<in> set (sc_armed (xs_scheduler ?s))" for tm
    using that e c(2) by (simp add: claimed_def expiry_start_def createExpiryScheduler_def schedule_def Let_def
        clearTimer_def MAX_TIMER_DELAY_def)
  have "js ''a'' \<notin> {}" by simp
  from no_lease_outlives_its_deadline [OF accepted_run run waits due c this] e show ?thesis by auto
qed

text \<open>
  The scheduler never holds two armed timers for one delivery and session, every armed timer can be
  cleared through the table, and a teardown leaves none armed, whatever was scheduled, fired and re-armed
  before, and whichever writes were refused.
\<close>

theorem one_timer_per_delivery:
  assumes "expiry_step\<^sup>*\<^sup>* (expiry_start rp now) s"
  shows "distinct (map tm_key (sc_armed (xs_scheduler s))) \<and>
    set (map tm_id (sc_armed (xs_scheduler s))) \<subseteq> set (vals (sc_timers (xs_scheduler s))) \<and>
    sc_armed (dispose (xs_scheduler s)) = []"
proof -
  let ?sc = "xs_scheduler s"
  have ok: "timers_ok ?sc (xs_waiting s)" by (rule expiry_timers.run_inv [OF assms expiry_start_ok])
  then have d: "distinct (map tm_id (sc_armed ?sc @ xs_waiting s))"
    and reg: "\<And>tm. tm \<in> set (sc_armed ?sc) \<Longrightarrow> map_of (sc_timers ?sc) (tm_key tm) = Some (tm_id tm)"
    unfolding timers_ok_def by blast+
  have "inj_on tm_key (set (sc_armed ?sc))"
  proof (rule inj_onI)
    fix x y assume xy: "x \<in> set (sc_armed ?sc)" "y \<in> set (sc_armed ?sc)" "tm_key x = tm_key y"
    then have "tm_id x = tm_id y" using reg [OF xy(1)] reg [OF xy(2)] by simp
    then show "x = y" using d xy(1,2) by (auto simp: distinct_map dest: inj_onD)
  qed
  then have "distinct (map tm_key (sc_armed ?sc))" using d by (simp add: distinct_map)
  moreover have "set (map tm_id (sc_armed ?sc)) \<subseteq> set (vals (sc_timers ?sc))"
    using reg by (force dest: map_of_SomeD)
  ultimately show ?thesis using dispose_clears [OF ok] by blast
qed

theorem one_timer_per_delivery_witness:
  "let sc = schedule 50 current_a (xs_scheduler claimed)
   in length (sc_armed sc) = 1 \<and> sc_next sc = 2 \<and> sc_armed (dispose sc) = []"
proof -
  let ?sc = "schedule 50 current_a (xs_scheduler claimed)"
  have start: "xs_scheduler claimed = schedule 30 current_a createExpiryScheduler" by (simp add: claimed_def expiry_start_def)
  have l: "length (sc_armed ?sc) = 1" "sc_next ?sc = 2" unfolding start by code_simp+
  let ?s = "(expiry_start rp3c 30)\<lparr>xs_scheduler := schedule 30 current_a createExpiryScheduler\<rparr>"
  let ?t = "?s\<lparr>xs_clock := 50\<rparr>"
  have "expiry_step (expiry_start rp3c 30) ?s" using arm [of "expiry_start rp3c 30" current_a] by (simp add: expiry_start_def)
  moreover have "expiry_step ?s ?t" by (rule tick) (simp add: expiry_start_def)
  moreover have "expiry_step ?t (?t\<lparr>xs_scheduler := ?sc\<rparr>)" using arm [of ?t current_a] by (simp add: start)
  ultimately have "expiry_step\<^sup>*\<^sup>* (expiry_start rp3c 30) (?t\<lparr>xs_scheduler := ?sc\<rparr>)" by simp
  from one_timer_per_delivery [OF this] l show ?thesis by (simp add: Let_def)
qed

end
