(* ===== verification/Effects.thy ===== *)
theory Effects
  imports Prelude
begin

text \<open>
  Operations that change a state and may throw. A function of the source that reads and writes a state of
  type \<open>'s\<close> is a function of that state; it returns the outcome, an error on the left or a value on the
  right, together with the state it leaves, whether it threw or not.

  \<^item> \<open>eff_bind\<close> runs two operations in order, \<open>eff_catch\<close> and \<open>eff_finally\<close> are \<open>try\<close> with \<open>catch\<close> and
    with \<open>finally\<close>, \<open>eff_when\<close> is a guard that throws.
  \<^item> The collection \<open>eff_ok\<close> says when a composed operation returns and in which state.
  \<^item> \<open>keeps_under P m\<close> says that \<open>m\<close> leads from states with \<open>P\<close> to states with \<open>P\<close> on every path.
\<close>

named_theorems eff_ok "when a composed operation returns a value, and the state it leaves"
named_theorems eff_keep "what keeps an invariant of the state"

type_synonym ('s, 'e, 'a) eff = "'s \<Rightarrow> ('e + 'a) \<times> 's"

definition eff_return :: "'a \<Rightarrow> ('s, 'e, 'a) eff" where
  "eff_return x s = (Inr x, s)"

definition eff_throw :: "'e \<Rightarrow> ('s, 'e, 'a) eff" where
  "eff_throw e s = (Inl e, s)"

definition eff_bind :: "('s, 'e, 'a) eff \<Rightarrow> ('a \<Rightarrow> ('s, 'e, 'b) eff) \<Rightarrow> ('s, 'e, 'b) eff" where
  "eff_bind m f s = (case m s of (Inl e, t) \<Rightarrow> (Inl e, t) | (Inr x, t) \<Rightarrow> f x t)"

definition eff_catch :: "('s, 'e, 'a) eff \<Rightarrow> ('e \<Rightarrow> ('s, 'f, 'a) eff) \<Rightarrow> ('s, 'f, 'a) eff" where
  "eff_catch m h s = (case m s of (Inl e, t) \<Rightarrow> h e t | (Inr x, t) \<Rightarrow> (Inr x, t))"

definition eff_finally :: "('s, 'e, 'a) eff \<Rightarrow> ('s \<Rightarrow> 's) \<Rightarrow> ('s, 'e, 'a) eff" where
  "eff_finally m g s = (case m s of (r, t) \<Rightarrow> (r, g t))"

definition eff_when :: "bool \<Rightarrow> 'e \<Rightarrow> ('s, 'e, unit) eff" where
  "eff_when b e = (if b then eff_return () else eff_throw e)"

text \<open>A read of the state, and a read that may throw.\<close>

definition eff_read :: "('s \<Rightarrow> 'a) \<Rightarrow> ('s, 'e, 'a) eff" where
  "eff_read f s = (Inr (f s), s)"

definition eff_ask :: "('s \<Rightarrow> 'e + 'a) \<Rightarrow> ('s, 'e, 'a) eff" where
  "eff_ask f s = (f s, s)"

definition eff_update :: "('s \<Rightarrow> 's) \<Rightarrow> ('s, 'e, unit) eff" where
  "eff_update f s = (Inr (), f s)"

text \<open>An operation on a part of the state, with its errors renamed.\<close>

definition eff_zoom ::
  "('s \<Rightarrow> 't) \<Rightarrow> ('t \<Rightarrow> 's \<Rightarrow> 's) \<Rightarrow> ('e \<Rightarrow> 'f) \<Rightarrow> ('t, 'e, 'a) eff \<Rightarrow> ('s, 'f, 'a) eff" where
  "eff_zoom part put err m s = (case m (part s) of (r, t) \<Rightarrow> (map_sum err id r, put t s))"

lemma eff_simps [simp]:
  "eff_return x s = (Inr x, s)" "eff_throw e s = (Inl e, s)"
  "eff_read f s = (Inr (f s), s)" "eff_update g s = (Inr (), g s)" "eff_ask a s = (a s, s)"
  by (simp_all add: eff_return_def eff_throw_def eff_read_def eff_update_def eff_ask_def)

lemma eff_bind_ok [eff_ok]: "eff_bind m f s = (Inr y, t) \<longleftrightarrow> (\<exists>x u. m s = (Inr x, u) \<and> f x u = (Inr y, t))"
  by (auto simp: eff_bind_def split: prod.splits sum.splits)

lemma eff_bind_err:
  "eff_bind m f s = (Inl e, t) \<longleftrightarrow> m s = (Inl e, t) \<or> (\<exists>x u. m s = (Inr x, u) \<and> f x u = (Inl e, t))"
  by (auto simp: eff_bind_def split: prod.splits sum.splits)

lemma eff_catch_ok [eff_ok]:
  "eff_catch m h s = (Inr y, t) \<longleftrightarrow> m s = (Inr y, t) \<or> (\<exists>e u. m s = (Inl e, u) \<and> h e u = (Inr y, t))"
  by (auto simp: eff_catch_def split: prod.splits sum.splits)

lemma eff_catch_err: "eff_catch m h s = (Inl f, t) \<longleftrightarrow> (\<exists>e u. m s = (Inl e, u) \<and> h e u = (Inl f, t))"
  by (auto simp: eff_catch_def split: prod.splits sum.splits)

lemma eff_finally_eq: "eff_finally m g s = (r, t) \<longleftrightarrow> (\<exists>u. m s = (r, u) \<and> t = g u)"
  by (auto simp: eff_finally_def split: prod.splits)

lemma eff_zoom_ok [eff_ok]:
  "eff_zoom part put err m s = (Inr y, t) \<longleftrightarrow> (\<exists>u. m (part s) = (Inr y, u) \<and> t = put u s)"
  by (auto simp: eff_zoom_def split: prod.splits sum.splits) (metis sum.distinct(1) obj_sumE map_sum.simps id_apply sum.inject(2))+

lemma eff_zoom_err:
  "eff_zoom part put err m s = (Inl f, t) \<longleftrightarrow> (\<exists>e u. m (part s) = (Inl e, u) \<and> f = err e \<and> t = put u s)"
  by (auto simp: eff_zoom_def split: prod.splits) (metis sum.distinct(1) obj_sumE map_sum.simps sum.inject(1))+

lemma eff_when_ok [eff_ok]: "eff_when b e s = (Inr u, t) \<longleftrightarrow> b \<and> t = s"
  by (auto simp: eff_when_def)

lemma eff_when_err: "eff_when b e s = (Inl f, t) \<longleftrightarrow> \<not> b \<and> f = e \<and> t = s"
  by (auto simp: eff_when_def)

lemma eff_bind_assoc: "eff_bind (eff_bind m f) g = eff_bind m (\<lambda>x. eff_bind (f x) g)"
  by (rule ext) (simp add: eff_bind_def split: prod.split sum.split)

lemma eff_bind_return: "eff_bind (eff_return x) f = f x"
  by (rule ext) (simp add: eff_bind_def eff_return_def)

lemma eff_bind_throw: "eff_bind (eff_throw e) f = eff_throw e"
  by (rule ext) (simp add: eff_bind_def eff_throw_def)

lemma eff_bind_if: "eff_bind (if b then m else n) f = (if b then eff_bind m f else eff_bind n f)"
  by simp

lemma eff_bind_cases [simp]:
  "m s = (Inr x, t) \<Longrightarrow> eff_bind m f s = f x t"
  "m s = (Inl e, t) \<Longrightarrow> eff_bind m f s = (Inl e, t)"
  by (simp_all add: eff_bind_def)

lemma eff_catch_cases [simp]:
  "m s = (Inr x, t) \<Longrightarrow> eff_catch m h s = (Inr x, t)"
  "m s = (Inl e, t) \<Longrightarrow> eff_catch m h s = h e t"
  by (simp_all add: eff_catch_def)

subsection \<open>Invariants of the state\<close>

definition keeps_under :: "('s \<Rightarrow> bool) \<Rightarrow> ('s, 'e, 'a) eff \<Rightarrow> bool" where
  "keeps_under P m \<longleftrightarrow> (\<forall>s. P s \<longrightarrow> P (snd (m s)))"

lemma keeps_underI: "(\<And>s r t. m s = (r, t) \<Longrightarrow> P s \<Longrightarrow> P t) \<Longrightarrow> keeps_under P m"
  by (metis keeps_under_def prod.collapse)

lemma keeps_underD: "keeps_under P m \<Longrightarrow> m s = (r, t) \<Longrightarrow> P s \<Longrightarrow> P t"
  by (metis keeps_under_def snd_conv)

lemma keeps_under_pure [eff_keep]:
  "keeps_under P (eff_return x)" "keeps_under P (eff_throw e)" "keeps_under P (eff_read f)"
  "keeps_under P (eff_ask a)" "keeps_under P (eff_when b e)"
  by (auto simp: keeps_under_def eff_when_def)

lemma keeps_under_bind [eff_keep]:
  "keeps_under P m \<Longrightarrow> (\<And>x. keeps_under P (f x)) \<Longrightarrow> keeps_under P (eff_bind m f)"
  by (fastforce simp: keeps_under_def eff_bind_def split: prod.splits sum.splits)

lemma keeps_under_catch [eff_keep]:
  "keeps_under P m \<Longrightarrow> (\<And>e. keeps_under P (h e)) \<Longrightarrow> keeps_under P (eff_catch m h)"
  by (fastforce simp: keeps_under_def eff_catch_def split: prod.splits sum.splits)

lemma keeps_under_finally [eff_keep]:
  "keeps_under P m \<Longrightarrow> (\<And>s. P s \<Longrightarrow> P (g s)) \<Longrightarrow> keeps_under P (eff_finally m g)"
  by (fastforce simp: keeps_under_def eff_finally_def split: prod.splits)

lemma keeps_under_if [eff_keep]:
  "keeps_under P m \<Longrightarrow> keeps_under P n \<Longrightarrow> keeps_under P (if b then m else n)"
  by simp

subsection \<open>Triples\<close>

text \<open>From a state with \<open>P\<close> the operation returns a value and a state with \<open>Q\<close>, or throws in a state with \<open>E\<close>.\<close>

definition triple :: "('s \<Rightarrow> bool) \<Rightarrow> ('s, 'e, 'a) eff \<Rightarrow> ('a \<Rightarrow> 's \<Rightarrow> bool) \<Rightarrow> ('s \<Rightarrow> bool) \<Rightarrow> bool" where
  "triple P m Q E \<longleftrightarrow> (\<forall>s. P s \<longrightarrow> (case m s of (Inr x, t) \<Rightarrow> Q x t | (Inl e, t) \<Rightarrow> E t))"

lemma tripleI:
  assumes "\<And>s x t. P s \<Longrightarrow> m s = (Inr x, t) \<Longrightarrow> Q x t" and "\<And>s e t. P s \<Longrightarrow> m s = (Inl e, t) \<Longrightarrow> E t"
  shows "triple P m Q E"
  using assms by (auto simp: triple_def split: prod.splits sum.splits)

lemma triple_ok: "triple P m Q E \<Longrightarrow> P s \<Longrightarrow> m s = (Inr x, t) \<Longrightarrow> Q x t"
  unfolding triple_def by (drule spec [where x = s]) simp

lemma triple_err: "triple P m Q E \<Longrightarrow> P s \<Longrightarrow> m s = (Inl e, t) \<Longrightarrow> E t"
  unfolding triple_def by (drule spec [where x = s]) simp

lemma triple_bind:
  assumes "triple P m R E" and "\<And>x. triple (R x) (f x) Q E"
  shows "triple P (eff_bind m f) Q E"
  by (rule tripleI; simp only: eff_bind_ok eff_bind_err)
    (use triple_ok [OF assms(1)] triple_err [OF assms(1)] triple_ok [OF assms(2)] triple_err [OF assms(2)] in blast)+

lemma triple_catch:
  assumes "triple P m Q R" and "\<And>e. triple R (h e) Q E"
  shows "triple P (eff_catch m h) Q E"
  by (rule tripleI; simp only: eff_catch_ok eff_catch_err)
    (use triple_ok [OF assms(1)] triple_err [OF assms(1)] triple_ok [OF assms(2)] triple_err [OF assms(2)] in blast)+

lemma triple_weaken:
  assumes "triple P m Q E" and "\<And>s. P' s \<Longrightarrow> P s" and "\<And>x s. Q x s \<Longrightarrow> Q' x s" and "\<And>s. E s \<Longrightarrow> E' s"
  shows "triple P' m Q' E'"
  by (rule tripleI) (use triple_ok [OF assms(1)] triple_err [OF assms(1)] assms(2-4) in blast)+

lemma triple_return: "(\<And>s. P s \<Longrightarrow> Q x s) \<Longrightarrow> triple P (eff_return x) Q E"
  and triple_throw: "(\<And>s. P s \<Longrightarrow> E s) \<Longrightarrow> triple P (eff_throw e) Q E"
  and triple_when: "(\<And>s. P s \<Longrightarrow> b \<Longrightarrow> Q () s) \<Longrightarrow> (\<And>s. P s \<Longrightarrow> E s) \<Longrightarrow> triple P (eff_when b e) Q E"
  and triple_read: "(\<And>s. P s \<Longrightarrow> Q (f s) s) \<Longrightarrow> triple P (eff_read f) Q E"
  and triple_ask: "(\<And>s x. P s \<Longrightarrow> a s = Inr x \<Longrightarrow> Q x s) \<Longrightarrow> (\<And>s. P s \<Longrightarrow> E s) \<Longrightarrow> triple P (eff_ask a) Q E"
  by (auto simp: triple_def eff_when_def split: sum.splits)

lemma triple_keeps: "keeps_under P m \<Longrightarrow> triple P m (\<lambda>_. P) P"
  by (auto intro!: tripleI dest: keeps_underD)

end
