(* ===== verification/PetComposition.thy ===== *)
theory PetComposition
  imports Effects PetLocusRows "HOL-Library.List_Lexorder"
begin

text \<open>
  What must hold before a locus child is published: \<^verbatim>\<open>locus/composition.ts\<close> with \<^verbatim>\<open>locus/preset.ts\<close>,
  \<^verbatim>\<open>locus/policy-verification.ts\<close> and \<^verbatim>\<open>locus/serviceability.ts\<close> of \<^verbatim>\<open>packages/dsh-pet/src/host\<close>.

  The host that runs the child is not under \<^verbatim>\<open>src\<close>: its state is the type \<open>'h\<close> and the ports are
  operations on it. A port that changes the host returns whether it returned or threw; either way it may
  have changed the state. A read may throw (\<open>Inl\<close>). The texts of the diagnostics are left out.
\<close>

subsection \<open>Presets: \<^verbatim>\<open>preset.ts\<close>\<close>

definition LOCUS_BASE_PRESET :: jstr where "LOCUS_BASE_PRESET = js ''locus-base''"

definition LOCUS_CHILD_PRESET :: jstr where "LOCUS_CHILD_PRESET = js ''locus-child''"

text \<open>The catalog as one \<open>presets.list()\<close> answers it, or the call rejects.\<close>

definition isLocusPresetDeclared :: "unit + jstr list \<Rightarrow> jstr \<Rightarrow> bool" where
  "isLocusPresetDeclared listed presetId =
     (case listed of Inl _ \<Rightarrow> False | Inr ids \<Rightarrow> list_ex (\<lambda>i. i = presetId) ids)"

definition areLocusPresetsDeclared :: "unit + jstr list \<Rightarrow> unit + jstr list \<Rightarrow> bool" where
  "areLocusPresetsDeclared first second \<longleftrightarrow>
     isLocusPresetDeclared first LOCUS_BASE_PRESET \<and> isLocusPresetDeclared second LOCUS_CHILD_PRESET"

datatype mount_error = LocusPresetMissing | MountThrew

definition mountLocusPreset ::
  "unit + jstr list \<Rightarrow> (jstr \<Rightarrow> 'h \<Rightarrow> bool \<times> 'h) \<Rightarrow> ('h, mount_error, unit) eff" where
  "mountLocusPreset listed mount =
     eff_bind (eff_when (isLocusPresetDeclared listed LOCUS_BASE_PRESET) LocusPresetMissing) (\<lambda>_ h.
       case mount LOCUS_BASE_PRESET h of (returned, h') \<Rightarrow> (if returned then Inr () else Inl MountThrew, h'))"

subsection \<open>Access modes: \<^verbatim>\<open>policy-verification.ts\<close>\<close>

definition LOCUS_WRITE_ENABLED :: bool where "LOCUS_WRITE_ENABLED = False"

definition mode_text :: "access_mode \<Rightarrow> jstr" where
  "mode_text m = (case m of ReadOnly \<Rightarrow> js ''read-only'' | FullAccess \<Rightarrow> js ''danger-full-access'')"

datatype policy_failure = NoLivePolicy | ModeMismatch | ModeDisabled

text \<open>The mode of a live policy is \<open>undefined\<close> or of another type: \<open>BadType\<close>.\<close>

definition verifyLocusLivePolicy ::
  "access_mode \<Rightarrow> jstr arg option \<Rightarrow> bool \<Rightarrow> policy_failure + access_mode" where
  "verifyLocusLivePolicy mode policy writeEnabled =
     (if mode = FullAccess \<and> \<not> writeEnabled then Inl ModeDisabled
      else (case policy of
              Some (Arg live) \<Rightarrow> if live \<noteq> mode_text mode then Inl ModeMismatch else Inr mode
            | _ \<Rightarrow> Inl NoLivePolicy))"

definition verifyLocusPersistedPolicy :: "access_mode \<Rightarrow> bool \<Rightarrow> policy_failure + access_mode" where
  "verifyLocusPersistedPolicy mode writeEnabled =
     (if mode = FullAccess \<and> \<not> writeEnabled then Inl ModeDisabled else Inr mode)"

subsection \<open>The tool surface\<close>

definition LOCUS_SAFE_TOOL_NAMES :: "jstr list" where
  "LOCUS_SAFE_TOOL_NAMES = map js [''read'', ''read_image'', ''glob'', ''grep'', ''web_search'']"

definition LOCUS_FULL_ACCESS_TOOL_NAMES :: "jstr list" where
  "LOCUS_FULL_ACCESS_TOOL_NAMES = map js [''bash'', ''skill'']"

definition LOCUS_DELEGATION_DENYLIST :: "jstr list" where
  "LOCUS_DELEGATION_DENYLIST = map js [''subagent'', ''subagent_fork'', ''subagent_codex'',
     ''subagent_claude_code'', ''workflow'', ''ralph'', ''send_message'', ''list_agents'', ''job_output'',
     ''job_list'', ''job_kill'']"

definition LOCUS_CALLER_BOUND_TOOLS :: "jstr list" where
  "LOCUS_CALLER_BOUND_TOOLS = map js [''locus_ask_parent'', ''locus_context'', ''pet_context'',
     ''pet_locus_chat_history'', ''pet_locus_doc_context'', ''pet_locus_finish'', ''pet_locus_track'',
     ''pet_locus_wait'']"

definition allowed_tools :: "access_mode \<Rightarrow> jstr list" where
  "allowed_tools mode = LOCUS_SAFE_TOOL_NAMES
     @ (if mode = FullAccess then LOCUS_FULL_ACCESS_TOOL_NAMES else []) @ LOCUS_CALLER_BOUND_TOOLS"

text \<open>\<open>new Set(xs)\<close> enumerates in the order of first insertion.\<close>

definition unique_first :: "'a list \<Rightarrow> 'a list" where
  "unique_first xs = rev (remdups (rev xs))"

datatype attestation = Attested | Unreadable | Leaked "jstr list"

definition attestLocusComposition :: "jstr list option \<Rightarrow> access_mode \<Rightarrow> attestation" where
  "attestLocusComposition visible mode =
     (case visible of
        None \<Rightarrow> Unreadable
      | Some names \<Rightarrow>
          let leaks0 = unique_first (filter (\<lambda>n. n \<notin> set (allowed_tools mode)) names);
              leaks1 = (if mode = FullAccess \<and> js ''bash'' \<notin> set names
                        then leaks0 @ [js ''bash (required for danger-full-access)''] else leaks0);
              leaks2 = fold (\<lambda>n leaks. if n \<in> set names \<and> n \<notin> set leaks then leaks @ [n] else leaks)
                         LOCUS_DELEGATION_DENYLIST leaks1
          in if leaks2 = [] then Attested else Leaked (sort leaks2))"

subsection \<open>The ports of one composition\<close>

record child_composition =
  cc_locusMainSessionId :: jstr
  cc_sessionId :: jstr
  cc_locusId :: jstr
  cc_revision :: int
  cc_accessMode :: access_mode
  cc_endpoint :: endpoint

record 'h surface_port =
  sf_install :: "jstr \<Rightarrow> child_composition \<Rightarrow> 'h \<Rightarrow> bool \<times> 'h"
  sf_applyAccessMode :: "(jstr \<Rightarrow> access_mode \<Rightarrow> 'h \<Rightarrow> bool \<times> 'h) option"
  sf_installOutboundGuard :: "(jstr \<Rightarrow> 'h \<Rightarrow> bool \<times> 'h) option"
  sf_visibleTools :: "(jstr \<Rightarrow> 'h \<Rightarrow> unit + jstr list option) option"

record 'h policy_port =
  po_apply :: "jstr \<Rightarrow> access_mode \<Rightarrow> 'h \<Rightarrow> bool \<times> 'h"
  po_resolve :: "jstr \<Rightarrow> 'h \<Rightarrow> unit + access_mode option"

record 'h composition_ports =
  cp_find :: "jstr \<Rightarrow> 'h \<Rightarrow> unit + child_composition option"
  cp_parentPreset :: "(jstr \<Rightarrow> 'h \<Rightarrow> unit + jstr option) option"
  cp_childPreset :: "(jstr \<Rightarrow> 'h \<Rightarrow> unit + jstr option) option"
  cp_surface :: "'h surface_port option"
  cp_policy :: "'h policy_port option"
  cp_writeEnabled :: "bool option"

datatype composition_failure =
  IdentityUnproven | MainUnavailable | PresetUnverified | PresetMismatch | SurfaceUnavailable
| SurfaceFailed | SurfaceNotAttested | PolicyUnavailable | PolicyFailed | PolicyNotVerified
| WriteDisabled | LookupFailed

datatype failure_class = ClassA | ClassB | ClassMainUnavailable

text \<open>An error that is no \<open>LocusCompositionError\<close> is \<open>None\<close>.\<close>

definition classifyLocusCompositionFailure :: "composition_failure option \<Rightarrow> failure_class" where
  "classifyLocusCompositionFailure e =
     (if e = Some IdentityUnproven then ClassA
      else if e = Some MainUnavailable then ClassMainUnavailable else ClassB)"

text \<open>A call of a port whose exception becomes a failure, and a read likewise.\<close>

definition attempt :: "composition_failure \<Rightarrow> ('h \<Rightarrow> bool \<times> 'h) \<Rightarrow> ('h, composition_failure, unit) eff" where
  "attempt e port h = (case port h of (returned, h') \<Rightarrow> (if returned then Inr () else Inl e, h'))"

definition attempt_read ::
  "composition_failure \<Rightarrow> ('h \<Rightarrow> unit + 'a) \<Rightarrow> ('h, composition_failure, 'a) eff" where
  "attempt_read e port h = (case port h of Inl _ \<Rightarrow> (Inl e, h) | Inr x \<Rightarrow> (Inr x, h))"

subsection \<open>The proofs of a composition\<close>

definition verifyParentPreset ::
  "child_composition \<Rightarrow> (jstr \<Rightarrow> 'h \<Rightarrow> unit + jstr option) option \<Rightarrow> ('h, composition_failure, unit) eff" where
  "verifyParentPreset composition read =
     eff_bind (case read of None \<Rightarrow> eff_return None
               | Some f \<Rightarrow> attempt_read MainUnavailable (f (cc_locusMainSessionId composition))) (\<lambda>preset.
       eff_when (preset = Some LOCUS_BASE_PRESET) MainUnavailable)"

definition verifyChildPreset ::
  "jstr \<Rightarrow> (jstr \<Rightarrow> 'h \<Rightarrow> unit + jstr option) option \<Rightarrow> ('h, composition_failure, unit) eff" where
  "verifyChildPreset agent read =
     (case read of
        None \<Rightarrow> eff_throw PresetUnverified
      | Some f \<Rightarrow>
          eff_bind (attempt_read PresetUnverified (f agent)) (\<lambda>preset.
          eff_bind (eff_when (preset \<noteq> None) PresetUnverified) (\<lambda>_.
            eff_when (preset = Some LOCUS_CHILD_PRESET) PresetMismatch)))"

definition applyPolicy ::
  "jstr \<Rightarrow> access_mode \<Rightarrow> 'h policy_port option \<Rightarrow> ('h, composition_failure, unit) eff" where
  "applyPolicy agent mode policy =
     (case policy of
        None \<Rightarrow> eff_throw PolicyUnavailable
      | Some po \<Rightarrow>
          eff_bind (attempt PolicyFailed (po_apply po agent mode)) (\<lambda>_.
          eff_bind (attempt_read PolicyFailed (po_resolve po agent)) (\<lambda>resolved.
            eff_when (resolved = Some mode) PolicyNotVerified)))"

text \<open>The part of \<open>composeLocusChild\<close> that installs and reads the surface.\<close>

definition composeSurface ::
  "jstr \<Rightarrow> child_composition \<Rightarrow> access_mode \<Rightarrow> 'h surface_port option \<Rightarrow> ('h, composition_failure, unit) eff" where
  "composeSurface agent composition mode surface =
     (case surface of
        None \<Rightarrow> eff_throw SurfaceUnavailable
      | Some sf \<Rightarrow>
          eff_bind (attempt SurfaceFailed (sf_install sf agent composition)) (\<lambda>_.
            case (sf_applyAccessMode sf, sf_installOutboundGuard sf) of
              (Some restrict, Some guard) \<Rightarrow>
                eff_bind (attempt SurfaceNotAttested (guard agent)) (\<lambda>_.
                eff_bind (attempt SurfaceNotAttested (restrict agent mode)) (\<lambda>_.
                eff_bind (case sf_visibleTools sf of None \<Rightarrow> eff_return None
                          | Some f \<Rightarrow> attempt_read SurfaceNotAttested (f agent)) (\<lambda>visible.
                  eff_when (attestLocusComposition visible mode = Attested) SurfaceNotAttested)))
            | _ \<Rightarrow> eff_throw SurfaceNotAttested))"

text \<open>
  \<open>None\<close> is \<open>{composed: false}\<close>. The identity of a candidate is checked with \<open>typeof\<close>.
\<close>

definition composeLocusChild ::
  "jstr arg \<Rightarrow> 'h composition_ports \<Rightarrow>
     ('h, composition_failure, (child_composition \<times> access_mode) option) eff" where
  "composeLocusChild candidate ports =
     (case candidate of
        BadType \<Rightarrow> eff_return None
      | Arg agent \<Rightarrow>
          if trim agent = [] then eff_return None
          else eff_bind (attempt_read LookupFailed (cp_find ports agent)) (\<lambda>found.
            case found of
              None \<Rightarrow> eff_return None
            | Some composition \<Rightarrow>
                eff_bind (eff_when (cc_sessionId composition = agent) IdentityUnproven) (\<lambda>_.
                eff_bind (verifyParentPreset composition (cp_parentPreset ports)) (\<lambda>_.
                eff_bind (verifyChildPreset agent (cp_childPreset ports)) (\<lambda>_.
                let mode = cc_accessMode composition in
                eff_bind (eff_when (mode \<noteq> FullAccess \<or> or_else (cp_writeEnabled ports) LOCUS_WRITE_ENABLED)
                            WriteDisabled) (\<lambda>_.
                eff_bind (applyPolicy agent mode (cp_policy ports)) (\<lambda>_.
                eff_bind (composeSurface agent composition mode (cp_surface ports)) (\<lambda>_.
                  eff_return (Some (composition, mode))))))))))"

subsection \<open>Whether a row may serve: \<^verbatim>\<open>serviceability.ts\<close>\<close>

datatype replace_why = LocusMainUnavailable | ChildUnusable

text \<open>The \<open>workArchived\<close> of a terminal disposition; the texts are left out.\<close>

datatype disposition = Serve | Create | Replace replace_why | Terminal bool

definition isOwnerExit :: "locus_state \<Rightarrow> bool" where
  "isOwnerExit st \<longleftrightarrow> st = Stopped"

definition dispositionOf :: "locus_state \<Rightarrow> bool \<Rightarrow> bool \<Rightarrow> disposition" where
  "dispositionOf st workArchived mainUnavailable =
     (if workArchived then Terminal True
      else if isOwnerExit st then Terminal False
      else if mainUnavailable then Replace LocusMainUnavailable
      else if st = NotCreated then Create
      else if st = Serving then Serve
      else Replace ChildUnusable)"

end
