(* ===== verification/PetStaging.thy ===== *)
theory PetStaging
  imports PetComposition
begin

text \<open>
  The registry that bridges the time between the reservation of a child and its publication, and the
  registry of first prompts: \<^verbatim>\<open>locus/prepublication-staging.ts\<close> and \<^verbatim>\<open>locus/first-prompt.ts\<close> of
  \<^verbatim>\<open>packages/dsh-pet/src/host\<close>.

  A reservation is an object, and its holder proves ownership by handing the object back. Objects are
  numbers here: \<open>st_entries ! n\<close> is the entry of the \<open>n\<close>-th reservation, and the live map names entries
  by number. The clock and the two id factories are arguments.
\<close>

subsection \<open>Staging: \<^verbatim>\<open>prepublication-staging.ts\<close>\<close>

datatype staging_failure =
  InvalidOptions | InvalidIdentity | CapacityExceeded | ChildIdConflict | ReservationIdConflict
| ReservationUnknown | ReservationExpired | AlreadyClaimed | ClaimRequired | AlreadyCommitted
| AlreadyAborted | RegistryDisposed | DurableStageConflict | AlreadyPublished

datatype entry_state = Reserved | Claimed | CommittedEntry | AbortedEntry | ExpiredEntry | DisposedEntry

record reservation =
  rv_reservationId :: jstr
  rv_childSessionId :: jstr
  rv_composition :: child_composition
  rv_expiresAt :: int

record staging_entry =
  en_reservation :: reservation
  en_hasPublication :: bool
  en_state :: entry_state
  en_published :: bool

record staging =
  st_ttlMs :: int
  st_capacity :: int
  st_entries :: "staging_entry list"
  st_byChild :: "(jstr \<times> nat) list"
  st_activeReservationIds :: "jstr list"
  st_disposed :: bool

definition DEFAULT_TTL_MS :: int where "DEFAULT_TTL_MS = 30000"

definition MAX_TTL_MS :: int where "MAX_TTL_MS = 60000"

definition DEFAULT_CAPACITY :: int where "DEFAULT_CAPACITY = 128"

definition MAX_CAPACITY :: int where "MAX_CAPACITY = 4096"

definition isIdentifier :: "jstr \<Rightarrow> bool" where
  "isIdentifier s \<longleftrightarrow> trim s \<noteq> []"

definition positiveBoundedInteger :: "int \<Rightarrow> int \<Rightarrow> staging_failure + int" where
  "positiveBoundedInteger v maximum =
     err_bind (ensure (safe_integer v \<and> 0 < v \<and> v \<le> maximum) InvalidOptions) (\<lambda>_. Inr v)"

definition new_staging :: "int option \<Rightarrow> int option \<Rightarrow> staging_failure + staging" where
  "new_staging ttl cap =
     err_bind (positiveBoundedInteger (or_else ttl DEFAULT_TTL_MS) MAX_TTL_MS) (\<lambda>t.
     err_bind (positiveBoundedInteger (or_else cap DEFAULT_CAPACITY) MAX_CAPACITY) (\<lambda>c.
       Inr \<lparr>st_ttlMs = t, st_capacity = c, st_entries = [], st_byChild = [], st_activeReservationIds = [],
            st_disposed = False\<rparr>))"

record staging_identity =
  si_sessionId :: "jstr option"
  si_locusMainSessionId :: jstr
  si_locusId :: jstr
  si_revision :: int
  si_accessMode :: access_mode
  si_endpoint :: endpoint

definition assertIdentity :: "staging_identity \<Rightarrow> staging_failure + unit" where
  "assertIdentity i = ensure (isIdentifier (si_locusMainSessionId i) \<and> isIdentifier (si_locusId i)
     \<and> safe_integer (si_revision i) \<and> 0 \<le> si_revision i \<and> isIdentifier (ep_chatId (si_endpoint i))
     \<and> (case si_sessionId i of None \<Rightarrow> True | Some s \<Rightarrow> isIdentifier s)) InvalidIdentity"

definition entry_of :: "staging \<Rightarrow> nat \<Rightarrow> staging_entry option" where
  "entry_of st n = (if n < length (st_entries st) then Some (st_entries st ! n) else None)"

definition set_entry :: "nat \<Rightarrow> (staging_entry \<Rightarrow> staging_entry) \<Rightarrow> staging \<Rightarrow> staging" where
  "set_entry n f st = st\<lparr>st_entries := (st_entries st)[n := f (st_entries st ! n)]\<rparr>"

definition removeLive :: "nat \<Rightarrow> staging \<Rightarrow> staging" where
  "removeLive n st =
     (let rv = en_reservation (st_entries st ! n) in
      st\<lparr>st_byChild := (if map_of (st_byChild st) (rv_childSessionId rv) = Some n
                       then AList.delete (rv_childSessionId rv) (st_byChild st) else st_byChild st),
         st_activeReservationIds := filter (\<lambda>i. i \<noteq> rv_reservationId rv) (st_activeReservationIds st)\<rparr>)"

definition leave :: "entry_state \<Rightarrow> nat \<Rightarrow> staging \<Rightarrow> staging" where
  "leave s n st = set_entry n (\<lambda>e. e\<lparr>en_state := s\<rparr>) (removeLive n st)"

definition expireIfNeeded :: "int \<Rightarrow> nat \<Rightarrow> staging \<Rightarrow> bool \<times> staging" where
  "expireIfNeeded now n st =
     (let e = st_entries st ! n in
      if en_state e = ExpiredEntry then (True, st)
      else if en_state e \<noteq> Reserved then (False, st)
      else if now < rv_expiresAt (en_reservation e) then (False, st)
      else (True, leave ExpiredEntry n st))"

definition sweep_one :: "int \<Rightarrow> nat \<Rightarrow> staging \<Rightarrow> staging" where
  "sweep_one now n st =
     (let e = st_entries st ! n in
      if en_state e \<noteq> Reserved \<or> now < rv_expiresAt (en_reservation e) then st else leave ExpiredEntry n st)"

definition sweepExpired :: "int \<Rightarrow> staging \<Rightarrow> staging" where
  "sweepExpired now st = (if st_disposed st then st else fold (sweep_one now) (vals (st_byChild st)) st)"

definition activeCount :: "int \<Rightarrow> staging \<Rightarrow> nat" where
  "activeCount now st =
     length (filter (\<lambda>n. en_state (st_entries (sweepExpired now st) ! n) \<in> {Reserved, Claimed})
       (vals (st_byChild (sweepExpired now st))))"

text \<open>The checks of \<open>reserve\<close> that follow the sweep, and the new entry.\<close>

definition reserve_staged ::
  "int \<Rightarrow> jstr \<Rightarrow> jstr \<Rightarrow> staging_identity \<Rightarrow> bool \<Rightarrow> staging \<Rightarrow> staging_failure + (nat \<times> reservation) \<times> staging" where
  "reserve_staged now childSessionId reservationId i hasPublication st =
     err_bind (ensure (int (length (st_byChild st)) < st_capacity st) CapacityExceeded) (\<lambda>_.
     err_bind (ensure (isIdentifier childSessionId) InvalidIdentity) (\<lambda>_.
     err_bind (ensure (isIdentifier reservationId) InvalidIdentity) (\<lambda>_.
     err_bind (ensure (\<not> has (st_byChild st) childSessionId) ChildIdConflict) (\<lambda>_.
     err_bind (ensure (reservationId \<notin> set (st_activeReservationIds st)) ReservationIdConflict) (\<lambda>_.
       let composition = \<lparr>cc_locusMainSessionId = trim (si_locusMainSessionId i), cc_sessionId = trim childSessionId,
             cc_locusId = trim (si_locusId i), cc_revision = si_revision i, cc_accessMode = si_accessMode i,
             cc_endpoint = si_endpoint i\<rparr>;
           rv = \<lparr>rv_reservationId = trim reservationId, rv_childSessionId = trim childSessionId,
             rv_composition = composition, rv_expiresAt = now + st_ttlMs st\<rparr>;
           n = length (st_entries st)
       in Inr ((n, rv), st\<lparr>st_entries := st_entries st @ [\<lparr>en_reservation = rv,
               en_hasPublication = hasPublication, en_state = Reserved, en_published = False\<rparr>],
             st_byChild := AList.update (rv_childSessionId rv) n (st_byChild st),
             st_activeReservationIds := List.insert (rv_reservationId rv) (st_activeReservationIds st)\<rparr>))))))"

definition reserve_child ::
  "int \<Rightarrow> jstr \<Rightarrow> jstr \<Rightarrow> staging_identity \<Rightarrow> bool \<Rightarrow> (staging, staging_failure, nat \<times> reservation) eff" where
  "reserve_child now fresh reservationId i hasPublication =
     eff_bind (\<lambda>st. eff_when (\<not> st_disposed st) RegistryDisposed st) (\<lambda>_.
     eff_bind (eff_ask (\<lambda>_. assertIdentity i)) (\<lambda>_.
     eff_bind (eff_update (sweepExpired now)) (\<lambda>_ st.
       case reserve_staged now (or_else (si_sessionId i) fresh) reservationId i hasPublication st of
         Inl e \<Rightarrow> (Inl e, st) | Inr (x, st') \<Rightarrow> (Inr x, st'))))"

record staging_snapshot =
  sn_reservationId :: jstr
  sn_composition :: child_composition
  sn_state :: entry_state
  sn_published :: bool
  sn_expiresAt :: int

definition inspect :: "int \<Rightarrow> jstr \<Rightarrow> (staging, staging_failure, staging_snapshot option) eff" where
  "inspect now child =
     eff_bind (\<lambda>st. eff_when (\<not> st_disposed st) RegistryDisposed st) (\<lambda>_ st.
       if \<not> isIdentifier child then (Inr None, st)
       else (case map_of (st_byChild st) child of
               None \<Rightarrow> (Inr None, st)
             | Some n \<Rightarrow>
                 (case expireIfNeeded now n st of (expired, st') \<Rightarrow>
                  let e = st_entries st' ! n in
                  if expired \<or> en_state e \<notin> {Reserved, Claimed} then (Inr None, st')
                  else (Inr (Some \<lparr>sn_reservationId = rv_reservationId (en_reservation e),
                          sn_composition = rv_composition (en_reservation e), sn_state = en_state e,
                          sn_published = en_published e, sn_expiresAt = rv_expiresAt (en_reservation e)\<rparr>), st'))))"

definition claim_staged :: "int \<Rightarrow> jstr \<Rightarrow> (staging, staging_failure, child_composition option) eff" where
  "claim_staged now child =
     eff_bind (\<lambda>st. eff_when (\<not> st_disposed st) RegistryDisposed st) (\<lambda>_ st.
       if \<not> isIdentifier child then (Inr None, st)
       else (case map_of (st_byChild st) child of
               None \<Rightarrow> (Inr None, st)
             | Some n \<Rightarrow>
                 (case expireIfNeeded now n st of (expired, st') \<Rightarrow>
                  let e = st_entries st' ! n in
                  if expired then (Inl ReservationExpired, st')
                  else if en_state e = Claimed then (Inl AlreadyClaimed, st')
                  else if en_state e \<noteq> Reserved then (Inl ReservationUnknown, st')
                  else (Inr (Some (rv_composition (en_reservation e))),
                        set_entry n (\<lambda>e. e\<lparr>en_state := Claimed\<rparr>) st'))))"

text \<open>\<open>requireOwned\<close> and \<open>requireLive\<close>: the handle is the number of the reservation.\<close>

definition requireOwned :: "nat \<Rightarrow> (staging, staging_failure, unit) eff" where
  "requireOwned n st =
     (if st_disposed st then (Inl RegistryDisposed, st)
      else if entry_of st n = None then (Inl ReservationUnknown, st) else (Inr (), st))"

definition requireLive :: "int \<Rightarrow> nat \<Rightarrow> (staging, staging_failure, unit) eff" where
  "requireLive now n st =
     (let e = st_entries st ! n in
      if en_state e = CommittedEntry then (Inl AlreadyCommitted, st)
      else if en_state e \<in> {AbortedEntry, DisposedEntry} then (Inl AlreadyAborted, st)
      else (case expireIfNeeded now n st of (expired, st') \<Rightarrow>
              (if expired then Inl ReservationExpired else Inr (), st')))"

definition commit_staged :: "int \<Rightarrow> nat \<Rightarrow> (staging, staging_failure, unit) eff" where
  "commit_staged now n =
     eff_bind (requireOwned n) (\<lambda>_.
     eff_bind (requireLive now n) (\<lambda>_ st.
       if en_state (st_entries st ! n) \<noteq> Claimed then (Inl ClaimRequired, st)
       else (Inr (), leave CommittedEntry n st)))"

definition abort_staged :: "int \<Rightarrow> nat \<Rightarrow> (staging, staging_failure, unit) eff" where
  "abort_staged now n =
     eff_bind (requireOwned n) (\<lambda>_.
     eff_bind (requireLive now n) (\<lambda>_. eff_update (leave AbortedEntry n)))"

definition dispose_staging :: "staging \<Rightarrow> staging" where
  "dispose_staging st =
     (if st_disposed st then st
      else (fold (\<lambda>n. set_entry n (\<lambda>e. e\<lparr>en_state := DisposedEntry\<rparr>)) (vals (st_byChild st)) st)
             \<lparr>st_disposed := True, st_byChild := [], st_activeReservationIds := []\<rparr>)"

text \<open>
  \<open>publishClaimed\<close> up to the call of the publication: the entry whose callback must run, or nothing to do;
  and what it does once the callback has completed.
\<close>

definition begin_publication :: "jstr \<Rightarrow> (staging, staging_failure, nat option) eff" where
  "begin_publication child =
     eff_bind (\<lambda>st. eff_when (\<not> st_disposed st) RegistryDisposed st) (\<lambda>_ st.
       if \<not> isIdentifier child then (Inr None, st)
       else (case map_of (st_byChild st) child of
               None \<Rightarrow> (Inr None, st)
             | Some n \<Rightarrow>
                 let e = st_entries st ! n in
                 if \<not> en_hasPublication e then (Inr None, st)
                 else if en_state e \<noteq> Claimed then (Inl ClaimRequired, st)
                 else if en_published e then (Inl AlreadyPublished, st)
                 else (Inr (Some n), st)))"

definition end_publication :: "int \<Rightarrow> nat \<Rightarrow> (staging, staging_failure, unit) eff" where
  "end_publication now n =
     eff_bind (eff_update (set_entry n (\<lambda>e. e\<lparr>en_published := True\<rparr>))) (\<lambda>_. commit_staged now n)"

text \<open>\<open>createPrepublicationCompositionLookup\<close>\<close>

definition staged_lookup ::
  "int \<Rightarrow> (jstr \<Rightarrow> staging_failure + child_composition option) \<Rightarrow> jstr \<Rightarrow>
     (staging, staging_failure, child_composition option) eff" where
  "staged_lookup now durable child =
     eff_bind (eff_ask (\<lambda>_. durable child)) (\<lambda>found.
     eff_bind (inspect now child) (\<lambda>snapshot.
       case (found, snapshot) of
         (Some _, Some _) \<Rightarrow> eff_throw DurableStageConflict
       | (Some c, None) \<Rightarrow> eff_return (Some c)
       | (None, None) \<Rightarrow> eff_return None
       | (None, Some _) \<Rightarrow> claim_staged now child))"

subsection \<open>First prompts: \<^verbatim>\<open>first-prompt.ts\<close>\<close>

record first_prompt =
  fp_deliveryId :: jstr
  fp_executionId :: jstr
  fp_correlation :: correlation

text \<open>The promise \<open>bindQueued\<close> returns: running, fulfilled or rejected.\<close>

datatype binding = Running_binding | Bound | BindingRejected

record expectation =
  ex_delivery :: first_prompt
  ex_messageId :: "jstr option"
  ex_binding :: "binding option"

record prompts =
  pr_expectations :: "(jstr \<times> expectation) list"
  pr_binds :: bool

datatype prompt_error = EmptyIdentity | AlreadyExpected | WrongChild

definition expect_prompt :: "jstr \<Rightarrow> first_prompt \<Rightarrow> (prompts, prompt_error, unit) eff" where
  "expect_prompt child d pr =
     (if trim child = [] \<or> trim (fp_deliveryId d) = [] \<or> trim (fp_executionId d) = [] then (Inl EmptyIdentity, pr)
      else if has (pr_expectations pr) child then (Inl AlreadyExpected, pr)
      else if co_sessionId (fp_correlation d) \<noteq> child then (Inl WrongChild, pr)
      else (Inr (), pr\<lparr>pr_expectations := AList.update child
              \<lparr>ex_delivery = d, ex_messageId = None, ex_binding = None\<rparr> (pr_expectations pr)\<rparr>))"

definition resolve_prompt :: "jstr \<Rightarrow> jstr \<Rightarrow> prompts \<Rightarrow> first_prompt option \<times> prompts" where
  "resolve_prompt child messageId pr =
     (if trim child = [] \<or> trim messageId = [] then (None, pr)
      else (case map_of (pr_expectations pr) child of
              None \<Rightarrow> (None, pr)
            | Some e \<Rightarrow>
                (case ex_messageId e of
                   None \<Rightarrow> (Some (ex_delivery e), pr\<lparr>pr_expectations := AList.update child
                     (e\<lparr>ex_messageId := Some messageId,
                        ex_binding := (if pr_binds pr then Some Running_binding else None)\<rparr>) (pr_expectations pr)\<rparr>)
                 | Some m \<Rightarrow> (if m = messageId then Some (ex_delivery e) else None, pr))))"

definition claimedMessageId :: "jstr \<Rightarrow> prompts \<Rightarrow> jstr option" where
  "claimedMessageId child pr =
     (case map_of (pr_expectations pr) child of None \<Rightarrow> None | Some e \<Rightarrow> ex_messageId e)"

text \<open>\<open>whenBound\<close>: it returns, it throws, or it still waits for the binding.\<close>

datatype bound_wait = BoundReturns | BoundThrows | BoundWaits

definition whenBound :: "jstr \<Rightarrow> prompts \<Rightarrow> bound_wait" where
  "whenBound child pr =
     (case map_of (pr_expectations pr) child of
        None \<Rightarrow> BoundReturns
      | Some e \<Rightarrow>
          if ex_messageId e = None then BoundThrows
          else (case ex_binding e of
                  None \<Rightarrow> BoundReturns
                | Some Bound \<Rightarrow> BoundReturns
                | Some BindingRejected \<Rightarrow> BoundThrows
                | Some Running_binding \<Rightarrow> BoundWaits))"

definition retire_prompt :: "jstr \<Rightarrow> prompts \<Rightarrow> prompts" where
  "retire_prompt child pr = pr\<lparr>pr_expectations := AList.delete child (pr_expectations pr)\<rparr>"

text \<open>The promise of a first claim settles.\<close>

definition settle_binding :: "jstr \<Rightarrow> bool \<Rightarrow> prompts \<Rightarrow> prompts" where
  "settle_binding child fulfilled pr =
     (case map_of (pr_expectations pr) child of
        Some e \<Rightarrow> if ex_binding e = Some Running_binding
                  then pr\<lparr>pr_expectations := AList.update child (e\<lparr>ex_binding :=
                    Some (if fulfilled then Bound else BindingRejected)\<rparr>) (pr_expectations pr)\<rparr> else pr
      | None \<Rightarrow> pr)"

end
