(* ===== verification/PetChildAdapter.thy ===== *)
theory PetChildAdapter
  imports PetStaging
begin

text \<open>
  The adapter that owns one continuable child of the host, \<^verbatim>\<open>packages/dsh-pet/src/host/locus/child.ts\<close>.

  The runtime of the host is not under \<^verbatim>\<open>src\<close>: a live parent is a value of type \<open>'p\<close>, and the ports are
  operations on the whole state, the adapter's fields and whatever else there is (the rest of the record).
  So a port may dispose the adapter while it runs, as another caller may during an \<open>await\<close>. An abort signal
  is a predicate of the state. \<open>enqueueLifecycleMutation\<close> runs the operations named \<open>..._locked\<close> one at
  a time; the synchronous reservation of a creation happens before.
\<close>

datatype child_failure =
  InvalidParentId | ParentArchived | ParentUnavailable | ParentOperationFailed | InvalidChildRequest
| ActiveChildConflict | ChildCreateFailed | ChildCapacityExhausted | IndependentContextUnproven
| ChildIdentityInvalid | AdapterDisposed | AbortedChild | NoActiveChild | ChildIdentityMismatch
| InboxUnavailable | InboxFailed | ImageRouteUnsupported | ImageRouteCleanupUnproven
| InboxMessageIdInvalid | CompensationUnavailable | CompensationFailed | ChildNotFound
| ChildParentMismatch | ChildProofUnavailable | ChildProofFailed

datatype content_block = TextBlock jstr | ImageBlock jstr | OtherBlock jstr

record child_identity =
  ci_parent :: jstr
  ci_child :: jstr

record 'p active_child =
  ac_identity :: child_identity
  ac_live :: 'p

text \<open>
  \<open>childRequestFingerprint\<close> is the JSON text of these five values; the values themselves are compared.
\<close>

record child_request =
  rq_parent :: jstr
  rq_label :: jstr
  rq_prompt :: "content_block list"
  rq_provider :: "jstr option"
  rq_childId :: jstr

definition DEFAULT_CHILD_PROVIDER :: jstr where "DEFAULT_CHILD_PROVIDER = js ''spawn''"

definition childRequestFingerprint :: "child_request \<Rightarrow> jstr \<times> jstr \<times> content_block list \<times> jstr \<times> jstr" where
  "childRequestFingerprint r =
     (rq_parent r, rq_label r, rq_prompt r, or_else (rq_provider r) DEFAULT_CHILD_PROVIDER, rq_childId r)"

record 'p adapter =
  ad_active :: "'p active_child option"
  ad_createInFlight :: "(jstr \<times> jstr \<times> content_block list \<times> jstr \<times> jstr) option"
  ad_transitions :: nat
  ad_disposed :: bool

subsection \<open>The ports\<close>

record provider =
  pv_inheritsParentContext :: "bool option"
  pv_agentPreset :: "bool option"

record 'p start_spec =
  ss_provider :: jstr
  ss_label :: jstr
  ss_childId :: jstr
  ss_prompt :: "content_block list"
  ss_parent :: 'p
  ss_agentPreset :: jstr

record activation =
  av_childId :: "jstr arg"
  av_messageId :: "jstr arg"

datatype start_error = ActivationLimitReached | ImagesUnsupported | OtherStartError

text \<open>The compensation port has \<open>release\<close>, \<open>drainChildren\<close> or neither; a failed call rejects.\<close>

record ('p, 'w) child_ports =
  pt_id :: "'p \<Rightarrow> jstr arg"
  pt_isArchived :: "(jstr \<Rightarrow> 'w \<Rightarrow> unit + bool) option"
  pt_get :: "jstr \<Rightarrow> 'w \<Rightarrow> unit + 'p option"
  pt_resume :: "jstr \<Rightarrow> 'w \<Rightarrow> (unit + 'p option) \<times> 'w"
  pt_start :: "'p start_spec \<Rightarrow> 'w \<Rightarrow> (start_error + activation) \<times> 'w"
  pt_getProvider :: "(jstr \<Rightarrow> 'w \<Rightarrow> unit + provider option) option"
  pt_queuePrompt :: "('p \<Rightarrow> jstr \<Rightarrow> content_block list \<Rightarrow> 'w \<Rightarrow> (start_error + jstr arg) \<times> 'w) option"
  pt_hasCompensation :: bool
  pt_release :: "('p \<Rightarrow> jstr \<Rightarrow> 'w \<Rightarrow> bool \<times> 'w) option"
  pt_findChild :: "(jstr \<Rightarrow> jstr \<Rightarrow> 'w \<Rightarrow> (unit + (jstr arg \<times> jstr arg) option) \<times> 'w) option"

definition defaultProviderProvenIndependent :: "('p, 'w) child_ports \<Rightarrow> 'w \<Rightarrow> bool" where
  "defaultProviderProvenIndependent pt w =
     (case pt_getProvider pt of
        None \<Rightarrow> False
      | Some f \<Rightarrow> (case f DEFAULT_CHILD_PROVIDER w of
                     Inr (Some v) \<Rightarrow> pv_inheritsParentContext v = Some False \<and> pv_agentPreset v = Some True
                   | _ \<Rightarrow> False))"

text \<open>\<open>isLiveParent(value) && value.id === id\<close>\<close>

definition exact_parent :: "('p, 'w) child_ports \<Rightarrow> jstr \<Rightarrow> 'p option \<Rightarrow> 'p option" where
  "exact_parent pt i v =
     (case v of None \<Rightarrow> None | Some p \<Rightarrow> if pt_id pt p = Arg i \<and> isIdentifier i then Some p else None)"

definition resolveLocusParent ::
  "('p, 'w) child_ports \<Rightarrow> ('w \<Rightarrow> bool) \<Rightarrow> jstr \<Rightarrow> ('w, child_failure, 'p) eff" where
  "resolveLocusParent pt aborted i w =
     (if \<not> isIdentifier i then (Inl InvalidParentId, w)
      else if aborted w then (Inl AbortedChild, w)
      else if (case pt_isArchived pt of None \<Rightarrow> False | Some f \<Rightarrow> f i w = Inr True) then (Inl ParentArchived, w)
      else (case pt_get pt i w of
              Inl _ \<Rightarrow> (Inl ParentOperationFailed, w)
            | Inr resident \<Rightarrow>
                (case exact_parent pt i resident of
                   Some p \<Rightarrow> (Inr p, w)
                 | None \<Rightarrow>
                     (case pt_resume pt i w of
                        (Inl _, w1) \<Rightarrow> (Inl ParentUnavailable, w1)
                      | (Inr resumed, w1) \<Rightarrow>
                          if aborted w1 then (Inl AbortedChild, w1)
                          else (case exact_parent pt i resumed of
                                  Some p \<Rightarrow> (Inr p, w1)
                                | None \<Rightarrow>
                                    (case pt_get pt i w1 of
                                       Inl _ \<Rightarrow> (Inl ParentOperationFailed, w1)
                                     | Inr after \<Rightarrow>
                                         (case exact_parent pt i after of
                                            Some p \<Rightarrow> (Inr p, w1)
                                          | None \<Rightarrow> (Inl ParentUnavailable, w1))))))))"

text \<open>\<open>this.resolveParent\<close>, and the two fences that most operations repeat after an \<open>await\<close>.\<close>

definition resolveParent ::
  "('p, ('p, 'z) adapter_scheme) child_ports \<Rightarrow> (('p, 'z) adapter_scheme \<Rightarrow> bool) \<Rightarrow> jstr \<Rightarrow>
     (('p, 'z) adapter_scheme, child_failure, 'p) eff" where
  "resolveParent pt aborted i w =
     (if ad_disposed w then (Inl AdapterDisposed, w) else resolveLocusParent pt aborted i w)"

definition open_and_wanted ::
  "(('p, 'z) adapter_scheme \<Rightarrow> bool) \<Rightarrow> (('p, 'z) adapter_scheme, child_failure, unit) eff" where
  "open_and_wanted aborted w =
     (if ad_disposed w then (Inl AdapterDisposed, w)
      else if aborted w then (Inl AbortedChild, w) else (Inr (), w))"

subsection \<open>Adoption of a persisted child\<close>

record adoption =
  ao_adopted :: bool
  ao_identity :: child_identity

definition adoptChild_locked ::
  "('p, ('p, 'z) adapter_scheme) child_ports \<Rightarrow> (('p, 'z) adapter_scheme \<Rightarrow> bool) \<Rightarrow> child_identity \<Rightarrow>
     (('p, 'z) adapter_scheme, child_failure, adoption) eff" where
  "adoptChild_locked pt aborted i =
     eff_bind (open_and_wanted aborted) (\<lambda>_ w.
       if ad_createInFlight w \<noteq> None then (Inl ActiveChildConflict, w)
       else (case ad_active w of
               Some a \<Rightarrow> (if ac_identity a = i then Inr \<lparr>ao_adopted = False, ao_identity = i\<rparr>
                          else Inl ActiveChildConflict, w)
             | None \<Rightarrow>
                 eff_bind (resolveParent pt aborted (ci_parent i)) (\<lambda>p.
                 eff_bind (open_and_wanted aborted) (\<lambda>_.
                   case pt_findChild pt of
                     None \<Rightarrow> eff_throw ChildProofUnavailable
                   | Some findChild \<Rightarrow>
                       eff_bind (\<lambda>w. case findChild (ci_parent i) (ci_child i) w of
                           (Inl _, w') \<Rightarrow> (Inl ChildProofFailed, w') | (Inr x, w') \<Rightarrow> (Inr x, w')) (\<lambda>observed.
                       eff_bind (open_and_wanted aborted) (\<lambda>_.
                         case observed of
                           None \<Rightarrow> eff_throw ChildNotFound
                         | Some (Arg op, Arg oc) \<Rightarrow>
                             if \<not> isIdentifier op \<or> \<not> isIdentifier oc then eff_throw ChildProofFailed
                             else if op \<noteq> ci_parent i then eff_throw ChildParentMismatch
                             else if oc \<noteq> ci_child i then eff_throw ChildNotFound
                             else eff_bind (eff_update (\<lambda>w. w\<lparr>ad_active := Some
                                      \<lparr>ac_identity = \<lparr>ci_parent = op, ci_child = oc\<rparr>, ac_live = p\<rparr>\<rparr>)) (\<lambda>_.
                                    eff_return \<lparr>ao_adopted = True, ao_identity = \<lparr>ci_parent = op, ci_child = oc\<rparr>\<rparr>)
                         | Some _ \<Rightarrow> eff_throw ChildProofFailed)))) w))"

text \<open>\<open>enqueueActiveTransition\<close> counts the operation while it is queued and running.\<close>

definition active_transition ::
  "(('p, 'z) adapter_scheme, child_failure, 'a) eff \<Rightarrow> (('p, 'z) adapter_scheme, child_failure, 'a) eff" where
  "active_transition m =
     eff_finally (\<lambda>w. m (w\<lparr>ad_transitions := Suc (ad_transitions w)\<rparr>)) (\<lambda>w. w\<lparr>ad_transitions := ad_transitions w - 1\<rparr>)"

definition adoptChild ::
  "('p, ('p, 'z) adapter_scheme) child_ports \<Rightarrow> (('p, 'z) adapter_scheme \<Rightarrow> bool) \<Rightarrow> child_identity \<Rightarrow>
     (('p, 'z) adapter_scheme, child_failure, adoption) eff" where
  "adoptChild pt aborted i =
     eff_bind (eff_when (isIdentifier (ci_parent i) \<and> isIdentifier (ci_child i)) InvalidChildRequest) (\<lambda>_.
     eff_bind (\<lambda>w. eff_when (\<not> aborted w) AbortedChild w) (\<lambda>_.
       active_transition (adoptChild_locked pt aborted i)))"

subsection \<open>Creation\<close>

record created_child =
  cr_created :: bool
  cr_identity :: child_identity
  cr_messageId :: "jstr arg option"

definition releaseUnpublishedChild ::
  "('p, ('p, 'z) adapter_scheme) child_ports \<Rightarrow> 'p \<Rightarrow> jstr \<Rightarrow> ('p, 'z) adapter_scheme \<Rightarrow> ('p, 'z) adapter_scheme" where
  "releaseUnpublishedChild pt p child w =
     (case (pt_hasCompensation pt, pt_release pt) of (True, Some f) \<Rightarrow> snd (f p child w) | _ \<Rightarrow> w)"

text \<open>What \<open>startChild\<close> answers when \<open>startActivation\<close> throws.\<close>

definition start_refused ::
  "('p, ('p, 'z) adapter_scheme) child_ports \<Rightarrow> (('p, 'z) adapter_scheme \<Rightarrow> bool) \<Rightarrow> child_request \<Rightarrow> 'p \<Rightarrow>
     start_error \<Rightarrow> (('p, 'z) adapter_scheme, child_failure, created_child) eff" where
  "start_refused pt aborted r p e =
     eff_bind (open_and_wanted aborted) (\<lambda>_.
       if e = ActivationLimitReached then eff_throw ChildCapacityExhausted
       else if e = ImagesUnsupported \<and> list_ex (\<lambda>b. case b of ImageBlock _ \<Rightarrow> True | _ \<Rightarrow> False) (rq_prompt r)
       then (case (pt_hasCompensation pt, pt_release pt) of
               (True, Some release) \<Rightarrow> (\<lambda>w. case release p (rq_childId r) w of
                   (returned, w') \<Rightarrow> (Inl (if returned then ImageRouteUnsupported else ImageRouteCleanupUnproven), w'))
             | _ \<Rightarrow> eff_throw ImageRouteCleanupUnproven)
       else eff_throw ChildCreateFailed)"

definition startChild ::
  "('p, ('p, 'z) adapter_scheme) child_ports \<Rightarrow> (('p, 'z) adapter_scheme \<Rightarrow> bool) \<Rightarrow> child_request \<Rightarrow>
     (('p, 'z) adapter_scheme, child_failure, created_child) eff" where
  "startChild pt aborted r =
     eff_bind (open_and_wanted aborted) (\<lambda>_.
     eff_bind (\<lambda>w. eff_when (rq_provider r \<noteq> None \<or> defaultProviderProvenIndependent pt w)
                 IndependentContextUnproven w) (\<lambda>_.
     eff_bind (resolveParent pt aborted (rq_parent r)) (\<lambda>p.
     eff_bind (open_and_wanted aborted) (\<lambda>_ w.
       case pt_start pt \<lparr>ss_provider = or_else (rq_provider r) DEFAULT_CHILD_PROVIDER, ss_label = rq_label r,
              ss_childId = rq_childId r, ss_prompt = rq_prompt r, ss_parent = p,
              ss_agentPreset = LOCUS_CHILD_PRESET\<rparr> w of
         (Inl e, w') \<Rightarrow> start_refused pt aborted r p e w'
       | (Inr av, w') \<Rightarrow>
           if av_childId av \<noteq> Arg (rq_childId r) \<or> \<not> isIdentifier (rq_childId r) then (Inl ChildIdentityInvalid, w')
           else let i = \<lparr>ci_parent = rq_parent r, ci_child = rq_childId r\<rparr> in
             if ad_disposed w' \<or> aborted w'
             then let w'' = releaseUnpublishedChild pt p (rq_childId r) w'
                  in (Inl (if ad_disposed w'' then AdapterDisposed else AbortedChild), w'')
             else (Inr \<lparr>cr_created = True, cr_identity = i, cr_messageId = Some (av_messageId av)\<rparr>,
                   w'\<lparr>ad_active := Some \<lparr>ac_identity = i, ac_live = p\<rparr>\<rparr>)))))"

text \<open>\<open>reserveCreate\<close>: an answer, the pending creation of an equal request, or the start of one.\<close>

datatype create_reservation = Answered "child_failure + created_child" | SharesPending | Starts

definition reserveCreate ::
  "(('p, 'z) adapter_scheme \<Rightarrow> bool) \<Rightarrow> child_request \<Rightarrow> ('p, 'z) adapter_scheme \<Rightarrow>
     create_reservation \<times> ('p, 'z) adapter_scheme" where
  "reserveCreate aborted r w =
     (if ad_disposed w then (Answered (Inl AdapterDisposed), w)
      else if aborted w then (Answered (Inl AbortedChild), w)
      else if 0 < ad_transitions w then (Answered (Inl ActiveChildConflict), w)
      else (case ad_active w of
              Some a \<Rightarrow>
                (if ci_parent (ac_identity a) \<noteq> rq_parent r \<or> rq_childId r \<noteq> ci_child (ac_identity a)
                 then Answered (Inl ActiveChildConflict)
                 else Answered (Inr \<lparr>cr_created = False, cr_identity = ac_identity a, cr_messageId = None\<rparr>), w)
            | None \<Rightarrow>
                (case ad_createInFlight w of
                   Some f \<Rightarrow> (if f = childRequestFingerprint r then SharesPending
                              else Answered (Inl ActiveChildConflict), w)
                 | None \<Rightarrow> (Starts, w\<lparr>ad_createInFlight := Some (childRequestFingerprint r)\<rparr>))))"

definition runReservedCreate ::
  "('p, ('p, 'z) adapter_scheme) child_ports \<Rightarrow> (('p, 'z) adapter_scheme \<Rightarrow> bool) \<Rightarrow> child_request \<Rightarrow>
     (('p, 'z) adapter_scheme, child_failure, created_child) eff" where
  "runReservedCreate pt aborted r =
     eff_finally
       (eff_bind (open_and_wanted aborted) (\<lambda>_.
        eff_bind (\<lambda>w. eff_when (ad_active w = None) ActiveChildConflict w) (\<lambda>_.
          startChild pt aborted r)))
       (\<lambda>w. w\<lparr>ad_createInFlight := None\<rparr>)"

text \<open>\<open>None\<close>: the caller shares the promise of the pending creation of an equal request.\<close>

definition createChild ::
  "('p, ('p, 'z) adapter_scheme) child_ports \<Rightarrow> (('p, 'z) adapter_scheme \<Rightarrow> bool) \<Rightarrow> child_request \<Rightarrow>
     (('p, 'z) adapter_scheme, child_failure, created_child option) eff" where
  "createChild pt aborted r w =
     (if \<not> isIdentifier (rq_parent r) \<or> \<not> isIdentifier (rq_label r) \<or> \<not> isIdentifier (rq_childId r) \<or> rq_prompt r = []
      then (Inl InvalidChildRequest, w)
      else if aborted w then (Inl AbortedChild, w)
      else (case reserveCreate aborted r w of
              (Answered x, w') \<Rightarrow> (map_sum id Some x, w')
            | (SharesPending, w') \<Rightarrow> (Inr None, w')
            | (Starts, w') \<Rightarrow> eff_bind (runReservedCreate pt aborted r) (\<lambda>x. eff_return (Some x)) w'))"

subsection \<open>Prompts, compensation and the end of an activation\<close>

text \<open>
  After the parent was resolved: the adapter must still own the child it owned before; then the live parent
  of the active child is replaced.
\<close>

definition refresh_active ::
  "'p active_child \<Rightarrow> 'p \<Rightarrow> (('p, 'z) adapter_scheme, child_failure, unit) eff" where
  "refresh_active a p w =
     (if ad_disposed w then (Inl AdapterDisposed, w)
      else (case ad_active w of
              None \<Rightarrow> (Inl ChildIdentityMismatch, w)
            | Some b \<Rightarrow>
                if ac_identity b \<noteq> ac_identity a then (Inl ChildIdentityMismatch, w)
                else (Inr (), w\<lparr>ad_active := Some (a\<lparr>ac_live := p\<rparr>)\<rparr>)))"

record queued_prompt =
  qd_messageId :: jstr
  qd_identity :: child_identity

text \<open>The authorization fence of the caller; it counts as refused when it throws.\<close>

type_synonym 'w fence_port = "'w \<Rightarrow> bool \<times> 'w"

definition queue_error :: "start_error \<Rightarrow> child_failure" where
  "queue_error e = (case e of ActivationLimitReached \<Rightarrow> ChildCapacityExhausted
     | ImagesUnsupported \<Rightarrow> ImageRouteUnsupported | OtherStartError \<Rightarrow> InboxFailed)"

definition queuePrompt_locked ::
  "('p, ('p, 'z) adapter_scheme) child_ports \<Rightarrow> (('p, 'z) adapter_scheme \<Rightarrow> bool) \<Rightarrow> content_block list \<Rightarrow>
     child_identity option \<Rightarrow> ('p, 'z) adapter_scheme fence_port option \<Rightarrow>
     (('p, 'z) adapter_scheme, child_failure, queued_prompt) eff" where
  "queuePrompt_locked pt aborted content identity authorize =
     eff_bind (\<lambda>w. eff_when (\<not> ad_disposed w) AdapterDisposed w) (\<lambda>_.
     eff_bind (eff_ask (\<lambda>w. of_option NoActiveChild (ad_active w))) (\<lambda>a.
     eff_bind (eff_when (identity = None \<or> identity = Some (ac_identity a)) ChildIdentityMismatch) (\<lambda>_.
     eff_bind (resolveParent pt aborted (ci_parent (ac_identity a))) (\<lambda>p.
     eff_bind (refresh_active a p) (\<lambda>_.
       case pt_queuePrompt pt of
         None \<Rightarrow> eff_throw InboxUnavailable
       | Some queue \<Rightarrow>
           eff_bind (\<lambda>w. eff_when (\<not> aborted w) AbortedChild w) (\<lambda>_.
           eff_bind (case authorize of
                       None \<Rightarrow> eff_return ()
                     | Some f \<Rightarrow> (\<lambda>w. case f w of (ok, w') \<Rightarrow> eff_when ok ChildProofFailed w')) (\<lambda>_.
           eff_bind (\<lambda>w. case queue p (ci_child (ac_identity a)) content w of
               (Inl e, w') \<Rightarrow> (Inl (queue_error e), w') | (Inr m, w') \<Rightarrow> (Inr m, w')) (\<lambda>m.
           eff_bind (open_and_wanted aborted) (\<lambda>_.
             case m of
               Arg i \<Rightarrow> if isIdentifier i then eff_return \<lparr>qd_messageId = i, qd_identity = ac_identity a\<rparr>
                        else eff_throw InboxMessageIdInvalid
             | BadType \<Rightarrow> eff_throw InboxMessageIdInvalid)))))))))"

definition queuePrompt ::
  "('p, ('p, 'z) adapter_scheme) child_ports \<Rightarrow> (('p, 'z) adapter_scheme \<Rightarrow> bool) \<Rightarrow> content_block list \<Rightarrow>
     child_identity option \<Rightarrow> ('p, 'z) adapter_scheme fence_port option \<Rightarrow>
     (('p, 'z) adapter_scheme, child_failure, queued_prompt) eff" where
  "queuePrompt pt aborted content identity authorize =
     eff_bind (eff_when (content \<noteq> []) InvalidChildRequest) (\<lambda>_.
     eff_bind (\<lambda>w. eff_when (\<not> aborted w) AbortedChild w) (\<lambda>_.
       queuePrompt_locked pt aborted content identity authorize))"

definition compensateChild_locked ::
  "('p, ('p, 'z) adapter_scheme) child_ports \<Rightarrow> (('p, 'z) adapter_scheme \<Rightarrow> bool) \<Rightarrow> child_identity option \<Rightarrow>
     (('p, 'z) adapter_scheme, child_failure, child_identity) eff" where
  "compensateChild_locked pt aborted identity =
     eff_bind (\<lambda>w. eff_when (\<not> ad_disposed w) AdapterDisposed w) (\<lambda>_.
     eff_bind (eff_ask (\<lambda>w. of_option NoActiveChild (ad_active w))) (\<lambda>a.
     eff_bind (eff_when (identity = None \<or> identity = Some (ac_identity a)) ChildIdentityMismatch) (\<lambda>_.
     eff_bind (eff_when (pt_hasCompensation pt) CompensationUnavailable) (\<lambda>_.
     eff_bind (resolveParent pt aborted (ci_parent (ac_identity a))) (\<lambda>p.
     eff_bind (refresh_active a p) (\<lambda>_.
       case pt_release pt of
         None \<Rightarrow> eff_throw CompensationUnavailable
       | Some release \<Rightarrow>
           eff_bind (\<lambda>w. case release p (ci_child (ac_identity a)) w of
               (returned, w') \<Rightarrow> (if returned then Inr () else Inl CompensationFailed, w')) (\<lambda>_.
           eff_bind (\<lambda>w. eff_when (map_option ac_identity (ad_active w) = Some (ac_identity a))
                       ChildIdentityMismatch w) (\<lambda>_.
           eff_bind (eff_update (\<lambda>w. w\<lparr>ad_active := None\<rparr>)) (\<lambda>_.
           eff_bind (open_and_wanted aborted) (\<lambda>_. eff_return (ac_identity a)))))))))))"

definition compensateChild ::
  "('p, ('p, 'z) adapter_scheme) child_ports \<Rightarrow> (('p, 'z) adapter_scheme \<Rightarrow> bool) \<Rightarrow> child_identity option \<Rightarrow>
     (('p, 'z) adapter_scheme, child_failure, child_identity) eff" where
  "compensateChild pt aborted identity =
     eff_bind (\<lambda>w. eff_when (\<not> aborted w) AbortedChild w) (\<lambda>_.
       active_transition (compensateChild_locked pt aborted identity))"

definition dispose_adapter :: "('p, 'z) adapter_scheme \<Rightarrow> ('p, 'z) adapter_scheme" where
  "dispose_adapter w = w\<lparr>ad_disposed := True\<rparr>"

text \<open>
  What the listeners of a settlement event are told: the active identity, when the event names its child.
  The event carries \<open>childSessionId\<close> or \<open>id\<close>.
\<close>

definition handleSettlement ::
  "jstr arg \<Rightarrow> jstr arg \<Rightarrow> ('p, 'z) adapter_scheme \<Rightarrow> child_identity option" where
  "handleSettlement childSessionId rawId w =
     (case ad_active w of
        None \<Rightarrow> None
      | Some a \<Rightarrow>
          if (case childSessionId of Arg c \<Rightarrow> Some c | BadType \<Rightarrow> (case rawId of Arg i \<Rightarrow> Some i | BadType \<Rightarrow> None))
               = Some (ci_child (ac_identity a))
          then Some (ac_identity a) else None)"

subsection \<open>The proof that a persisted child exists\<close>

text \<open>One row of \<open>subagents.listChildren\<close>; a field of another type is \<open>BadType\<close>, an absent one \<open>None\<close>.\<close>

record listed_child =
  lc_id :: "jstr arg"
  lc_parentSessionId :: "jstr arg option"
  lc_mode :: "jstr arg option"
  lc_kind :: "jstr arg option"

text \<open>\<open>findChild\<close> of \<open>probeLocusChildPorts\<close>: \<open>None\<close> for a row that is no object, and for a listing that is no array.\<close>

definition findListedChild ::
  "jstr \<Rightarrow> jstr \<Rightarrow> listed_child option list option \<Rightarrow> child_identity option" where
  "findListedChild parent child rows =
     (case rows of
        None \<Rightarrow> None
      | Some rs \<Rightarrow>
          if list_ex (\<lambda>r. case r of None \<Rightarrow> False
               | Some c \<Rightarrow> lc_id c = Arg child
                   \<and> (lc_parentSessionId c = None \<or> lc_parentSessionId c = Some (Arg parent))
                   \<and> lc_mode c = Some (Arg (js ''continuable''))
                   \<and> (lc_kind c = None \<or> lc_kind c = Some (Arg (js ''child'')))) rs
          then Some \<lparr>ci_parent = parent, ci_child = child\<rparr> else None)"

end
