(* ===== verification/PetChildCreation.thy ===== *)
theory PetChildCreation
  imports PetChildAdapter PetEntries
begin

text \<open>
  How the first message of an entry brings its child into being: \<^verbatim>\<open>locus/lazy-child.ts\<close>,
  \<^verbatim>\<open>locus/first-delivery-publication.ts\<close> and \<^verbatim>\<open>locus/agent-created.ts\<close> of
  \<^verbatim>\<open>packages/dsh-pet/src/host\<close>, wired as \<^verbatim>\<open>index.ts\<close> wires them.

  The state is the \<open>world\<close>: the durable repository, the staging registry, the registry of first prompts, the
  local flags of the creation at hand, and the host. What other work of the program does while an operation
  awaits the repository, whether a transaction commits, the allocator of session ids and the texts of
  the refusals are the \<open>surroundings\<close>.
\<close>

record 'h world =
  wd_rp :: repository
  wd_staging :: staging
  wd_prompts :: prompts
  wd_now :: int
  wd_issued :: bool
  wd_published :: bool
  wd_everPublished :: bool
  wd_host :: 'h

record 'h surroundings =
  su_others :: "'h world \<Rightarrow> 'h world"
  su_commits :: "'h world \<Rightarrow> bool"
  su_reserveChildSessionId :: "'h world \<Rightarrow> nat \<Rightarrow> jstr"
  su_reasonOf :: "composition_failure \<Rightarrow> jstr"

datatype creation_error =
  StagingFailed staging_failure | CompositionRefused composition_failure | WriteFailed failure
| PromptRefused prompt_error | RetiredLocusChild | PublicationBlocked block_reason | NotComposed
| DiffersFromReserved | FirstPromptUnbound | ClaimedPromptNotRetried

text \<open>One write of the repository: it is queued, other work goes first, and goes on before the caller resumes.\<close>

definition durable ::
  "'h surroundings \<Rightarrow> ('h world \<Rightarrow> repository \<Rightarrow> staged \<Rightarrow> failure + 'a \<times> staged) \<Rightarrow> ('h world, creation_error, 'a) eff" where
  "durable su write w =
     (let w1 = su_others su w in
      case mutate (su_commits su w1) (write w (wd_rp w1)) (wd_rp w1) of
        (r, rp') \<Rightarrow> (map_sum WriteFailed id r, su_others su (w1\<lparr>wd_rp := rp'\<rparr>)))"

definition on_staging :: "(staging, staging_failure, 'a) eff \<Rightarrow> ('h world, creation_error, 'a) eff" where
  "on_staging = eff_zoom wd_staging (\<lambda>st w. w\<lparr>wd_staging := st\<rparr>) StagingFailed"

definition on_prompts :: "(prompts, prompt_error, 'a) eff \<Rightarrow> ('h world, creation_error, 'a) eff" where
  "on_prompts = eff_zoom wd_prompts (\<lambda>pr w. w\<lparr>wd_prompts := pr\<rparr>) PromptRefused"

definition retire :: "jstr \<Rightarrow> 'h world \<Rightarrow> 'h world" where
  "retire child w = w\<lparr>wd_prompts := retire_prompt child (wd_prompts w)\<rparr>"

subsection \<open>The publication of a first delivery: \<^verbatim>\<open>first-delivery-publication.ts\<close>\<close>

record publication_input =
  pi_locusId :: jstr
  pi_sessionId :: jstr
  pi_revision :: int
  pi_endpoint :: endpoint
  pi_deliveryId :: jstr
  pi_executionId :: jstr

definition identity_at :: "publication_input \<Rightarrow> 'h world \<Rightarrow> first_identity" where
  "identity_at i w = \<lparr>fd_locusId = pi_locusId i, fd_sessionId = pi_sessionId i, fd_revision = pi_revision i,
     fd_deliveryId = pi_deliveryId i, fd_now = wd_now w\<rparr>"

definition expected_prompt :: "publication_input \<Rightarrow> first_prompt" where
  "expected_prompt i = \<lparr>fp_deliveryId = pi_deliveryId i, fp_executionId = pi_executionId i,
     fp_correlation = \<lparr>co_endpoint = pi_endpoint i, co_locusId = pi_locusId i, co_sessionId = pi_sessionId i\<rparr>\<rparr>"

definition publish_first ::
  "'h surroundings \<Rightarrow> publication_input \<Rightarrow> jstr \<Rightarrow> ('h world, creation_error, unit) eff" where
  "publish_first su i child =
     eff_bind (eff_when (child = pi_sessionId i) DiffersFromReserved) (\<lambda>_.
     eff_bind (on_prompts (expect_prompt child (expected_prompt i))) (\<lambda>_.
       eff_catch
         (eff_bind (durable su (\<lambda>w rp. publishFirstDelivery (rp_accessChanging rp) (identity_at i w) (pi_executionId i)))
           (\<lambda>_. eff_update (\<lambda>w. w\<lparr>wd_issued := True\<rparr>)))
         (\<lambda>e. eff_bind (eff_update (retire child)) (\<lambda>_. eff_throw e))))"

text \<open>
  \<open>bindQueued\<close> of the first prompt, the body of the promise a first claim starts, and the wait for it.
\<close>

definition run_binding :: "'h surroundings \<Rightarrow> jstr \<Rightarrow> ('h world, creation_error, unit) eff" where
  "run_binding su child w =
     (case map_of (pr_expectations (wd_prompts w)) child of
        Some e \<Rightarrow>
          (case (ex_binding e, ex_messageId e) of
             (Some Running_binding, Some m) \<Rightarrow>
               (let c = fp_correlation (ex_delivery e) in
                case durable su (\<lambda>_ _. bindQueued_row \<lparr>co_endpoint = co_endpoint c, co_locusId = co_locusId c,
                        co_sessionId = co_sessionId c, qi_deliveryId = fp_deliveryId (ex_delivery e),
                        qi_executionId = fp_executionId (ex_delivery e), qi_inboxMessageId = m, qi_queuedAt = None\<rparr>) w of
                  (r, w') \<Rightarrow> (Inr (), w'\<lparr>wd_prompts := settle_binding child
                     (case r of Inl _ \<Rightarrow> False | Inr mu \<Rightarrow> mu_changed mu) (wd_prompts w')\<rparr>))
           | _ \<Rightarrow> (Inr (), w))
      | None \<Rightarrow> (Inr (), w))"

definition await_bound :: "'h surroundings \<Rightarrow> jstr \<Rightarrow> ('h world, creation_error, unit) eff" where
  "await_bound su child w =
     (case whenBound child (wd_prompts w) of
        BoundReturns \<Rightarrow> (Inr (), w)
      | BoundThrows \<Rightarrow> (Inl FirstPromptUnbound, w)
      | BoundWaits \<Rightarrow>
          eff_bind (run_binding su child) (\<lambda>_ w'.
            (if whenBound child (wd_prompts w') = BoundReturns then Inr () else Inl FirstPromptUnbound, w')) w)"

definition commit_first ::
  "'h surroundings \<Rightarrow> publication_input \<Rightarrow> jstr \<Rightarrow> ('h world, creation_error, unit) eff" where
  "commit_first su i child =
     eff_bind (await_bound su child) (\<lambda>_.
     eff_bind (durable su (\<lambda>w rp. commitFirstDelivery (pi_executionId i) (wd_now w))) (\<lambda>_.
       eff_update (retire child)))"

definition revert_as ::
  "'h surroundings \<Rightarrow> publication_input \<Rightarrow> jstr option \<Rightarrow> revert_form \<Rightarrow> ('h world, creation_error, unit) eff" where
  "revert_as su i executionId form = durable su (\<lambda>w rp. revertFirstDelivery (identity_at i w) executionId form
     (if form = RecoveryDebt then None else Some (su_reserveChildSessionId su w)))"

definition unpublish_first ::
  "'h surroundings \<Rightarrow> publication_input \<Rightarrow> jstr \<Rightarrow> ('h world, creation_error, unit) eff" where
  "unpublish_first su i child =
     eff_bind (eff_update (retire child)) (\<lambda>_. revert_as su i (Some (pi_executionId i)) RevertDefault)"

definition failed_first :: "'h surroundings \<Rightarrow> publication_input \<Rightarrow> ('h world, creation_error, unit) eff" where
  "failed_first su i = durable su (\<lambda>w rp. failFirstDeliveryCreation (identity_at i w) (su_reserveChildSessionId su w))"

definition recoveryDebt_first ::
  "'h surroundings \<Rightarrow> publication_input \<Rightarrow> jstr \<Rightarrow> ('h world, creation_error, unit) eff" where
  "recoveryDebt_first su i child =
     eff_bind (eff_update (retire child)) (\<lambda>_. revert_as su i (Some (pi_executionId i)) RecoveryDebt)"

definition retryText_first ::
  "'h surroundings \<Rightarrow> publication_input \<Rightarrow> jstr \<Rightarrow> ('h world, creation_error, unit) eff" where
  "retryText_first su i child w =
     (if claimedMessageId child (wd_prompts w) \<noteq> None
      then eff_bind (eff_update (retire child)) (\<lambda>_.
           eff_bind (revert_as su i (Some (pi_executionId i)) RevertDefault) (\<lambda>_.
             eff_throw ClaimedPromptNotRetried)) w
      else eff_finally
             (eff_catch
               (revert_as su i (if wd_issued w then Some (pi_executionId i) else None) RetryText)
               (\<lambda>e. eff_bind (eff_catch (revert_as su i (Some (pi_executionId i)) RecoveryDebt) (\<lambda>_. eff_return ()))
                      (\<lambda>_. eff_throw e)))
             (retire child) w)"

subsection \<open>\<open>agent/created\<close>: \<^verbatim>\<open>agent-created.ts\<close>\<close>

definition compositionOf :: "resolved_row \<Rightarrow> child_composition" where
  "compositionOf hit = \<lparr>cc_locusMainSessionId = rs_locusMainSessionId hit, cc_sessionId = rw_sessionId (rs_row hit),
     cc_locusId = rw_locusId (rs_row hit), cc_revision = rw_revision (rs_row hit),
     cc_accessMode = rw_accessMode (rs_row hit), cc_endpoint = rw_endpoint (rs_row hit)\<rparr>"

datatype agent_outcome = OrdinaryAgent | ComposedAgent

text \<open>\<open>publishClaimed\<close>: the publication of entry \<open>n\<close> is \<open>publication n\<close>.\<close>

definition publishClaimed ::
  "(nat \<Rightarrow> jstr \<Rightarrow> ('h world, creation_error, unit) eff) \<Rightarrow> jstr \<Rightarrow> ('h world, creation_error, unit) eff" where
  "publishClaimed publication child =
     eff_bind (on_staging (begin_publication child)) (\<lambda>n.
       case n of
         None \<Rightarrow> eff_return ()
       | Some k \<Rightarrow> eff_bind (publication k child) (\<lambda>_ w. on_staging (end_publication (wd_now w) k) w))"

definition revertPublication ::
  "(nat \<Rightarrow> jstr \<Rightarrow> ('h world, creation_error, unit) eff) \<Rightarrow> jstr \<Rightarrow> ('h world, creation_error, bool) eff" where
  "revertPublication unpublication child w =
     (case map_of (st_byChild (wd_staging w)) child of
        None \<Rightarrow> (Inr False, w)
      | Some n \<Rightarrow>
          let e = st_entries (wd_staging w) ! n in
          if \<not> en_hasPublication e \<or> \<not> en_published e then (Inr False, w)
          else eff_bind (unpublication n child) (\<lambda>_.
               eff_bind (eff_update (\<lambda>w. w\<lparr>wd_staging := set_entry n (\<lambda>e. e\<lparr>en_published := False\<rparr>) (wd_staging w)\<rparr>)) (\<lambda>_.
                 eff_return True)) w)"

text \<open>
  The composition runs \<open>composeLocusChild\<close> with a lookup that answers the row found here. The migration that
  class \<open>main-unavailable\<close> starts runs beside it; its writes belong to the surroundings.
\<close>

definition composeFound ::
  "'h surroundings \<Rightarrow> 'h composition_ports \<Rightarrow> jstr \<Rightarrow> child_composition \<Rightarrow>
     ('h world, creation_error, (child_composition \<times> access_mode) option) eff" where
  "composeFound su ports child composition =
     eff_catch
       (eff_zoom wd_host (\<lambda>h w. w\<lparr>wd_host := h\<rparr>) CompositionRefused
         (composeLocusChild (Arg child) (ports\<lparr>cp_find := (\<lambda>_ _. Inr (Some composition))\<rparr>)))
       (\<lambda>e. eff_bind
          (case e of
             CompositionRefused f \<Rightarrow>
               if classifyLocusCompositionFailure (Some f) = ClassA
               then eff_catch (eff_bind (durable su (\<lambda>w rp. markInvalid
                        \<lparr>fe_expectedLocusId = cc_locusId composition, fe_expectedRevision = cc_revision composition\<rparr>
                        (js ''composition: '' @ su_reasonOf su f) (wd_now w))) (\<lambda>_. eff_return ())) (\<lambda>_. eff_return ())
               else eff_return ()
           | _ \<Rightarrow> eff_return ()) (\<lambda>_. eff_throw e))"

definition compose_and_publish ::
  "'h surroundings \<Rightarrow> 'h composition_ports \<Rightarrow> (nat \<Rightarrow> jstr \<Rightarrow> ('h world, creation_error, unit) eff) \<Rightarrow> jstr \<Rightarrow>
     resolved_row \<Rightarrow> ('h world, creation_error, unit) eff \<Rightarrow> ('h world, creation_error, agent_outcome) eff" where
  "compose_and_publish su ports publication child hit claim =
     (let composition = compositionOf hit in
      eff_bind claim (\<lambda>_.
      eff_bind (composeFound su ports child composition) (\<lambda>result.
        case result of
          None \<Rightarrow> eff_throw NotComposed
        | Some (_, mode) \<Rightarrow>
            eff_bind (durable su (\<lambda>w rp. recordAccessVerified
                \<lparr>fe_expectedLocusId = cc_locusId composition, fe_expectedRevision = cc_revision composition\<rparr>
                mode (wd_now w))) (\<lambda>_.
            eff_bind (publishClaimed publication child) (\<lambda>_. eff_return ComposedAgent)))))"

definition handleLocusAgentCreated ::
  "'h surroundings \<Rightarrow> 'h composition_ports \<Rightarrow> (jstr \<Rightarrow> 'h \<Rightarrow> jstr option) \<Rightarrow>
     (nat \<Rightarrow> jstr \<Rightarrow> ('h world, creation_error, unit) eff) \<Rightarrow> jstr \<Rightarrow> ('h world, creation_error, agent_outcome) eff" where
  "handleLocusAgentCreated su ports agentPreset publication child =
     eff_bind (\<lambda>w. on_staging (inspect (wd_now w) child) w) (\<lambda>staged.
     eff_bind (eff_read (\<lambda>w. lookupChildForAgentCreated (wd_rp w) child (agentPreset child (wd_host w))
         (map_option (\<lambda>sn. \<lparr>sc_sessionId = cc_sessionId (sn_composition sn),
            sc_locusMainSessionId = cc_locusMainSessionId (sn_composition sn),
            sc_revision = cc_revision (sn_composition sn)\<rparr>) staged))) (\<lambda>found.
       case found of
         OrdinaryChild \<Rightarrow> eff_return OrdinaryAgent
       | RetiredChild \<Rightarrow> eff_throw RetiredLocusChild
       | Blocked reason locusId \<Rightarrow> eff_throw (PublicationBlocked reason)
       | ActiveChild hit \<Rightarrow> compose_and_publish su ports publication child hit (eff_return ())
       | StagedChild hit \<Rightarrow> compose_and_publish su ports publication child hit
           (eff_bind (\<lambda>w. on_staging (claim_staged (wd_now w) child) w) (\<lambda>_. eff_return ()))))"

subsection \<open>Creation on the first message: \<^verbatim>\<open>lazy-child.ts\<close>\<close>

record lazy_input =
  la_sessionId :: jstr
  la_locusMainSessionId :: jstr
  la_locusId :: jstr
  la_revision :: int
  la_accessMode :: access_mode
  la_label :: jstr
  la_endpoint :: endpoint
  la_prompt :: "content_block list"

record 'h publication_callbacks =
  cb_publish :: "jstr \<Rightarrow> ('h world, creation_error, unit) eff"
  cb_unpublish :: "jstr \<Rightarrow> ('h world, creation_error, unit) eff"
  cb_commit :: "(jstr \<Rightarrow> ('h world, creation_error, unit) eff) option"
  cb_failed :: "(jstr \<Rightarrow> ('h world, creation_error, unit) eff) option"
  cb_retryText :: "(jstr \<Rightarrow> ('h world, creation_error, unit) eff) option"
  cb_recoveryDebt :: "(jstr \<Rightarrow> ('h world, creation_error, unit) eff) option"

text \<open>\<open>createFirstDeliveryPublication\<close> provides all of them.\<close>

definition first_delivery_callbacks :: "'h surroundings \<Rightarrow> publication_input \<Rightarrow> 'h publication_callbacks" where
  "first_delivery_callbacks su i =
     \<lparr>cb_publish = publish_first su i, cb_unpublish = unpublish_first su i, cb_commit = Some (commit_first su i),
      cb_failed = Some (\<lambda>_. failed_first su i), cb_retryText = Some (retryText_first su i),
      cb_recoveryDebt = Some (recoveryDebt_first su i)\<rparr>"

datatype lazy_reason =
  LazyCapacity | LazyContextUnproven | LazyImageRoute | LazyPresetMissing | LazyCreateFailed
| LazyWithoutComposition | LazyRollbackFailed | LazyAborted

datatype lazy_result = LazyCreated jstr "jstr arg option" | LazyFailed lazy_reason bool

type_synonym ('p, 'h) creating = "('p, 'h world) adapter_scheme"

definition in_world :: "('h world, creation_error, 'a) eff \<Rightarrow> (('p, 'h) creating, creation_error, 'a) eff" where
  "in_world = eff_zoom adapter.more (\<lambda>w s. adapter.more_update (\<lambda>_. w) s) id"

text \<open>A callback that may be absent, in a \<open>try\<close>: whether it (or nothing) completed.\<close>

definition tried :: "('h world, creation_error, unit) eff option \<Rightarrow> (('p, 'h) creating, creation_error, bool) eff" where
  "tried m = (case m of None \<Rightarrow> eff_return True
     | Some f \<Rightarrow> eff_catch (eff_bind (in_world f) (\<lambda>_. eff_return True)) (\<lambda>_. eff_return False))"

definition unwind ::
  "'h publication_callbacks \<Rightarrow> ('p, ('p, 'h) creating) child_ports \<Rightarrow> nat \<Rightarrow> jstr \<Rightarrow> bool \<Rightarrow> bool \<Rightarrow>
     (('p, 'h) creating, creation_error, bool) eff" where
  "unwind cb pt n child compensate retryText =
     eff_bind (\<lambda>s. tried (if retryText then map_option (\<lambda>f. f child) (cb_retryText cb)
                          else if wd_published (adapter.more s) then Some (cb_unpublish cb child) else None) s) (\<lambda>reverted.
     eff_bind (if reverted then in_world (eff_update (\<lambda>w. w\<lparr>wd_published := False\<rparr>)) else eff_return ()) (\<lambda>_.
     eff_bind (if compensate
               then (\<lambda>s. case compensateChild pt (\<lambda>_. False) None s of
                           (Inl _, s') \<Rightarrow> (Inr False, s') | (Inr _, s') \<Rightarrow> (Inr True, s'))
               else eff_return True) (\<lambda>released.
     eff_bind (in_world (\<lambda>w. on_staging (inspect (wd_now w) child) w)) (\<lambda>snapshot.
     eff_bind (if snapshot = None then eff_return ()
               else eff_catch (in_world (\<lambda>w. on_staging (abort_staged (wd_now w) n) w)) (\<lambda>_. eff_return ())) (\<lambda>_.
     eff_bind (eff_update dispose_adapter) (\<lambda>_.
       eff_return (reverted \<and> released)))))))"

definition lazy_reason_of :: "bool \<Rightarrow> child_failure \<Rightarrow> lazy_result" where
  "lazy_reason_of retryText e =
     (case e of
        ChildCapacityExhausted \<Rightarrow> LazyFailed LazyCapacity True
      | IndependentContextUnproven \<Rightarrow> LazyFailed LazyContextUnproven False
      | AbortedChild \<Rightarrow> LazyFailed LazyAborted False
      | ImageRouteUnsupported \<Rightarrow> LazyFailed (if retryText then LazyImageRoute else LazyCreateFailed) False
      | _ \<Rightarrow> LazyFailed LazyCreateFailed False)"

definition creation_refused ::
  "'h publication_callbacks \<Rightarrow> ('p, ('p, 'h) creating) child_ports \<Rightarrow> nat \<Rightarrow> jstr \<Rightarrow> child_failure \<Rightarrow>
     (('p, 'h) creating, creation_error, lazy_result) eff" where
  "creation_refused cb pt n child e =
     (if e = ImageRouteCleanupUnproven
      then eff_bind (tried (map_option (\<lambda>f. f child) (cb_recoveryDebt cb))) (\<lambda>_.
           eff_bind (eff_update dispose_adapter) (\<lambda>_.
           eff_bind (in_world (\<lambda>w. on_staging (abort_staged (wd_now w) n) w)) (\<lambda>_.
             eff_return (LazyFailed LazyRollbackFailed False))))
      else let retryText = (e = ImageRouteUnsupported \<and> cb_retryText cb \<noteq> None) in
        eff_bind (unwind cb pt n child False retryText) (\<lambda>clean.
          if \<not> clean then eff_return (LazyFailed LazyRollbackFailed False)
          else eff_bind (\<lambda>s. if e \<noteq> ChildCapacityExhausted \<and> \<not> retryText \<and> \<not> wd_everPublished (adapter.more s)
                             then tried (map_option (\<lambda>f. f child) (cb_failed cb)) s else eff_return True s) (\<lambda>settled.
            eff_return (if settled then lazy_reason_of retryText e else LazyFailed LazyRollbackFailed False))))"

definition creation_accepted ::
  "'h publication_callbacks \<Rightarrow> ('p, ('p, 'h) creating) child_ports \<Rightarrow> nat \<Rightarrow> jstr \<Rightarrow> jstr arg option \<Rightarrow>
     (('p, 'h) creating, creation_error, lazy_result) eff" where
  "creation_accepted cb pt n child messageId =
     eff_bind (\<lambda>s. if wd_published (adapter.more s)
                   then in_world (\<lambda>w. on_staging (inspect (wd_now w) child) w) s else eff_return None s) (\<lambda>snapshot s.
       if \<not> wd_published (adapter.more s) \<or> snapshot \<noteq> None
       then eff_bind (unwind cb pt n child True False) (\<lambda>clean.
            eff_bind (\<lambda>s. if clean \<and> \<not> wd_everPublished (adapter.more s)
                          then tried (map_option (\<lambda>f. f child) (cb_failed cb)) s else eff_return clean s) (\<lambda>clean'.
              eff_return (LazyFailed (if clean' then LazyWithoutComposition else LazyRollbackFailed) False))) s
       else eff_bind (tried (map_option (\<lambda>f. f child) (cb_commit cb))) (\<lambda>committed.
              if \<not> committed
              then eff_bind (unwind cb pt n child True False) (\<lambda>clean.
                     eff_return (LazyFailed (if clean then LazyCreateFailed else LazyRollbackFailed) False))
              else eff_bind (eff_update dispose_adapter) (\<lambda>_.
                     eff_return (LazyCreated child messageId))) s)"

text \<open>
  The registry keeps the creation's publication with the entry; \<open>runtime n f\<close> are the ports of a host that runs
  \<open>f\<close> as the publication of entry \<open>n\<close>. The adapter is new and belongs to this creation.
\<close>

definition registered_publication ::
  "'h publication_callbacks \<Rightarrow> jstr \<Rightarrow> ('h world, creation_error, unit) eff" where
  "registered_publication cb child =
     eff_bind (cb_publish cb child) (\<lambda>_. eff_update (\<lambda>w. w\<lparr>wd_published := True, wd_everPublished := True\<rparr>))"

definition with_adapter :: "(('p, 'h) creating, creation_error, 'a) eff \<Rightarrow> ('h world, creation_error, 'a) eff" where
  "with_adapter m w =
     (case m \<lparr>ad_active = None, ad_createInFlight = None, ad_transitions = 0, ad_disposed = False, \<dots> = w\<rparr> of
        (r, s) \<Rightarrow> (r, adapter.more s))"

definition lazy_create ::
  "'h publication_callbacks \<Rightarrow>
     (nat \<Rightarrow> (jstr \<Rightarrow> ('h world, creation_error, unit) eff) \<Rightarrow> ('p, ('p, 'h) creating) child_ports) \<Rightarrow>
     ('h world \<Rightarrow> bool) \<Rightarrow> unit + bool \<Rightarrow> jstr \<Rightarrow> lazy_input \<Rightarrow> ('h world, creation_error, lazy_result) eff" where
  "lazy_create cb runtime aborted presetDeclared reservationId inp w =
     (if aborted w then (Inr (LazyFailed LazyAborted False), w)
      else if presetDeclared \<noteq> Inr True then (Inr (LazyFailed LazyPresetMissing False), w)
      else eff_bind (on_staging (reserve_child (wd_now w) [] reservationId
             \<lparr>si_sessionId = Some (la_sessionId inp), si_locusMainSessionId = la_locusMainSessionId inp,
              si_locusId = la_locusId inp, si_revision = la_revision inp, si_accessMode = la_accessMode inp,
              si_endpoint = la_endpoint inp\<rparr> True)) (\<lambda>(n, rv).
        let child = rv_childSessionId rv; pt = runtime n (registered_publication cb) in
        eff_bind (eff_update (\<lambda>w. w\<lparr>wd_issued := False, wd_published := False, wd_everPublished := False\<rparr>)) (\<lambda>_.
          with_adapter (\<lambda>s.
            case createChild pt (\<lambda>s. aborted (adapter.more s))
                   \<lparr>rq_parent = la_locusMainSessionId inp, rq_label = la_label inp, rq_prompt = la_prompt inp,
                    rq_provider = None, rq_childId = child\<rparr> s of
              (Inl e, s') \<Rightarrow> creation_refused cb pt n child e s'
            | (Inr created, s') \<Rightarrow> creation_accepted cb pt n child
                (case created of None \<Rightarrow> None | Some x \<Rightarrow> cr_messageId x) s'))) w)"

end
