(* ===== verification/PetCreationSafety.thy ===== *)
theory PetCreationSafety
  imports PetChildCreation PetRepositoryEffects
begin

text \<open>
  What the writes of a first creation do to the row of its entry and to its operation, and the invariant
  that a creation keeps while the host runs it.
\<close>

subsection \<open>The row of one entry in an overlay\<close>

definition tidy :: "staged \<Rightarrow> bool" where
  "tidy sg \<longleftrightarrow> wf_staged sg \<and> (\<forall>k r. staged_get tb_loci sg k = Some r \<longrightarrow> endpointKeyV20 (rw_endpoint r) = k)"

definition entry_in :: "staged \<Rightarrow> jstr \<Rightarrow> row \<Rightarrow> bool" where
  "entry_in sg l r \<longleftrightarrow> tidy sg \<and> (\<forall>r'. r' \<in> ran (staged_get tb_loci sg) \<and> rw_locusId r' = l \<longleftrightarrow> r' = r)"

lemma tidy_found:
  assumes "tidy sg" and "find_locus (staged_all tb_loci sg) l = Some r"
  shows "staged_get tb_loci sg (endpointKeyV20 (rw_endpoint r)) = Some r" "rw_locusId r = l"
proof -
  from assms(2) have r: "r \<in> set (vals (staged_all tb_loci sg))" "rw_locusId r = l"
    unfolding find_locus_def by (auto dest: find_SomeD)
  then obtain k where k: "map_of (staged_all tb_loci sg) k = Some r"
    using in_vals_iff [OF wf_staged_all(5)] assms(1) unfolding tidy_def by blast
  moreover have "map_of (staged_all tb_loci sg) = staged_get tb_loci sg" using assms(1) unfolding tidy_def by simp
  ultimately show "staged_get tb_loci sg (endpointKeyV20 (rw_endpoint r)) = Some r"
    using assms(1) unfolding tidy_def by metis
  show "rw_locusId r = l" by (rule r(2))
qed

lemma entry_found: "entry_in sg l r \<Longrightarrow> find_locus (staged_all tb_loci sg) l = Some r' \<Longrightarrow> r' = r"
  using tidy_found [of sg l r'] ranI unfolding entry_in_def by metis

lemma entry_id: "entry_in sg l r \<Longrightarrow> rw_locusId r = l"
  unfolding entry_in_def by blast

lemma entry_get: "entry_in sg l r \<Longrightarrow> staged_get tb_loci sg (endpointKeyV20 (rw_endpoint r)) = Some r"
  unfolding entry_in_def tidy_def ran_def by blast

lemma tidy_same:
  assumes "tidy sg" and "staged_get tb_loci sg' = staged_get tb_loci sg" and "wf_staged sg \<Longrightarrow> wf_staged sg'"
  shows "tidy sg'"
  using assms unfolding tidy_def by simp

lemma entry_same:
  assumes "entry_in sg l r" and "staged_get tb_loci sg' = staged_get tb_loci sg" and "wf_staged sg \<Longrightarrow> wf_staged sg'"
  shows "entry_in sg' l r"
  using assms tidy_same [of sg sg'] unfolding entry_in_def by simp

lemma tidy_put_row:
  assumes "tidy sg" and "put_row (endpointKeyV20 (rw_endpoint r)) r sg = Inr sg'"
  shows "tidy sg'"
  using assms put_row_effect [OF assms(2)] unfolding tidy_def by auto

text \<open>A row is rewritten in place: the entry itself, or the row of another entry.\<close>

lemma ran_update:
  assumes "inj_on m (dom m)" and "m k = Some r"
  shows "x \<in> ran (m(k \<mapsto> r')) \<longleftrightarrow> x = r' \<or> x \<in> ran m \<and> x \<noteq> r"
proof
  assume "x \<in> ran (m(k \<mapsto> r'))"
  then obtain j where j: "(m(k \<mapsto> r')) j = Some x" unfolding ran_def by blast
  show "x = r' \<or> x \<in> ran m \<and> x \<noteq> r"
  proof (cases "j = k")
    case False
    with j have "m j = Some x" by simp
    moreover have "x \<noteq> r" using assms \<open>m j = Some x\<close> False by (metis domI inj_onD)
    ultimately show ?thesis by (blast intro: ranI)
  qed (use j in simp)
next
  assume "x = r' \<or> x \<in> ran m \<and> x \<noteq> r"
  then show "x \<in> ran (m(k \<mapsto> r'))"
  proof
    assume "x \<in> ran m \<and> x \<noteq> r"
    then obtain j where "m j = Some x" "x \<noteq> r" unfolding ran_def by blast
    then have "(m(k \<mapsto> r')) j = Some x" using assms(2) by (auto simp: fun_upd_def)
    then show ?thesis by (rule ranI)
  qed (auto simp: ran_def)
qed

lemma tidy_inj: "tidy sg \<Longrightarrow> inj_on (staged_get tb_loci sg) (dom (staged_get tb_loci sg))"
  unfolding tidy_def inj_on_def dom_def by (metis (mono_tags, lifting) mem_Collect_eq not_None_eq)

lemma entry_rewrite:
  assumes e: "entry_in sg l r" and put: "put_row (endpointKeyV20 (rw_endpoint r')) r' sg = Inr sg'"
    and old: "staged_get tb_loci sg (endpointKeyV20 (rw_endpoint r0)) = Some r0"
    and r': "rw_endpoint r' = rw_endpoint r0" "rw_locusId r' = rw_locusId r0"
  shows "entry_in sg' l (if r0 = r then r' else r)"
proof -
  have t: "tidy sg" using e by (simp add: entry_in_def)
  have ran: "x \<in> ran (staged_get tb_loci sg') \<longleftrightarrow> x = r' \<or> x \<in> ran (staged_get tb_loci sg) \<and> x \<noteq> r0" for x
    unfolding put_row_effect(2) [OF put] r'(1) using ran_update [OF tidy_inj [OF t] old] .
  have r0: "r0 \<in> ran (staged_get tb_loci sg)" using old by (rule ranI)
  have i: "x \<in> ran (staged_get tb_loci sg) \<Longrightarrow> rw_locusId x = l \<longleftrightarrow> x = r" for x
    using e unfolding entry_in_def by blast
  have r: "r \<in> ran (staged_get tb_loci sg)" "rw_locusId r = l" using e unfolding entry_in_def by blast+
  have "x \<in> ran (staged_get tb_loci sg') \<and> rw_locusId x = l \<longleftrightarrow> x = (if r0 = r then r' else r)" for x
    unfolding ran using i [of x] i [OF r0] r r'(2) by (cases "r0 = r") auto
  then show ?thesis using tidy_put_row [OF t put] unfolding entry_in_def by blast
qed

lemma entry_update:
  assumes "entry_in sg l r" and "put_row (endpointKeyV20 (rw_endpoint r')) r' sg = Inr sg'"
    and "rw_endpoint r' = rw_endpoint r" "rw_locusId r' = rw_locusId r"
  shows "entry_in sg' l r'"
  using entry_rewrite [OF assms(1,2) entry_get [OF assms(1)] assms(3,4)] by simp

subsection \<open>The writes of a first creation\<close>

lemma op_put: "put_operation k o' sg = Inr sg' \<Longrightarrow> entry_in sg l r \<Longrightarrow>
    entry_in sg' l r \<and> staged_get tb_operations sg' = (staged_get tb_operations sg)(k \<mapsto> o')"
  using entry_same put_operation_effect by metis

lemma delivery_put: "put_delivery k d sg = Inr sg' \<Longrightarrow> entry_in sg l r \<Longrightarrow>
    entry_in sg' l r \<and> staged_get tb_operations sg' = staged_get tb_operations sg"
  using entry_same put_delivery_effect by metis

lemma reserved_entry: "entry_in sg l r \<Longrightarrow> entry_in (sg\<lparr>sg_reserved := n\<rparr>) l r"
  by (rule entry_same) (simp_all add: staged_get_add wf_staged_def)

lemma reserved_get: "staged_get t (sg\<lparr>sg_reserved := n\<rparr>) = staged_get t sg"
  by (simp add: staged_get_add)

lemma retarget_operations: "retarget f ds sg = Inr (ids, sg') \<Longrightarrow> staged_get tb_operations sg' = staged_get tb_operations sg"
proof (induction ds arbitrary: ids sg)
  case (Cons d ds)
  show ?case
  proof (cases "f d")
    case (Some sid)
    with Cons.prems obtain sg1 ids1 where "put_delivery (dl_deliveryId d) (d\<lparr>co_sessionId := sid\<rparr>) sg = Inr sg1"
        "retarget f ds sg1 = Inr (ids1, sg')" by (auto simp: ok_iff split: prod.splits)
    then show ?thesis using Cons.IH put_delivery_effect(5) by metis
  qed (use Cons in simp)
qed simp

lemma retarget_entry:
  assumes "retarget f ds sg = Inr (ids, sg')" and "entry_in sg l r"
  shows "entry_in sg' l r"
  by (rule entry_same [OF assms(2) retarget_loci [OF assms(1)]])
    (use retarget_keeps [OF assms(1)] in \<open>simp add: keeps_def\<close>)

lemma rotate_entry:
  assumes run: "rotateFirstChild r except fresh now sg = Inr (sid, sg')" and e: "entry_in sg l r"
  shows "\<exists>r'. entry_in sg' l r' \<and> rw_state r' = NotCreated \<and> rw_revision r' = rw_revision r + 1 \<and>
      rw_sessionId r' = sid \<and> staged_get tb_operations sg' = staged_get tb_operations sg"
proof -
  let ?r = "r\<lparr>rw_verifiedAt := None, rw_stoppedAt := None, rw_invalidReason := None, rw_state := NotCreated,
      rw_sessionId := fresh (sg_reserved sg), rw_revision := rw_revision r + 1, rw_updatedAt := now\<rparr>"
  from run obtain sg1 f ids where sid: "sid = fresh (sg_reserved sg)"
    and put: "put_row (endpointKeyV20 (rw_endpoint ?r)) ?r (sg\<lparr>sg_reserved := sg_reserved sg + 1\<rparr>) = Inr sg1"
    and re: "retarget f (vals (staged_all tb_deliveries sg1)) sg1 = Inr (ids, sg')"
    unfolding rotateFirstChild_def reserve_def Let_def by (auto simp: ok_iff split: prod.splits)
  have "entry_in sg1 l ?r"
    by (rule entry_update [OF reserved_entry [OF e] put]) simp_all
  from retarget_entry [OF re this] retarget_operations [OF re] put_row_effect(5) [OF put]
  show ?thesis by (intro exI [of _ ?r]) (simp add: sid reserved_get)
qed

lemma settle_entry: "settleTriggerFailed did reason now sg = Inr sg' \<Longrightarrow> entry_in sg l r \<Longrightarrow>
    entry_in sg' l r \<and> staged_get tb_operations sg' = staged_get tb_operations sg"
  by (auto simp: settleTriggerFailed_def split: option.splits dest: delivery_put)

lemma publish_entry:
  assumes run: "publishFirstDelivery changing i ex sg = Inr (u, sg')" and e: "entry_in sg l r" and l: "fd_locusId i = l"
  shows "rw_state r = NotCreated" "rw_sessionId r = fd_sessionId i" "rw_revision r = fd_revision i"
    "staged_get tb_operations sg (first_child_id ex) = None"
    "entry_in sg' l (r\<lparr>rw_state := Serving, rw_updatedAt := fd_now i\<rparr>)"
    "\<exists>o'. staged_get tb_operations sg' (first_child_id ex) = Some o' \<and> op_phase o' = Publishing \<and> op_locusId o' = Some l"
proof -
  from run l obtain r0 o' d sg1 sg2 where
    r0: "find_locus (staged_all tb_loci sg) l = Some r0" "rw_sessionId r0 = fd_sessionId i" "rw_revision r0 = fd_revision i"
      "rw_state r0 = NotCreated" "staged_get tb_operations sg (first_child_id ex) = None"
    and op: "put_operation (first_child_id ex) o' sg = Inr sg1" "op_phase o' = Publishing" "op_locusId o' = Some l"
    and put: "put_row (endpointKeyV20 (rw_endpoint r0)) (r0\<lparr>rw_state := Serving, rw_updatedAt := fd_now i\<rparr>) sg1 = Inr sg2"
    and dl: "put_delivery (fd_deliveryId i) d sg2 = Inr sg'"
    unfolding publishFirstDelivery_def by (auto simp: ok_iff first_operation_def)
  have r: "r0 = r" using entry_found [OF e r0(1)] .
  show "rw_state r = NotCreated" "rw_sessionId r = fd_sessionId i" "rw_revision r = fd_revision i"
    "staged_get tb_operations sg (first_child_id ex) = None" using r0 r by simp_all
  have 1: "entry_in sg1 l r" "staged_get tb_operations sg1 = (staged_get tb_operations sg)(first_child_id ex \<mapsto> o')"
    using op_put [OF op(1) e] by simp_all
  have 2: "entry_in sg2 l (r\<lparr>rw_state := Serving, rw_updatedAt := fd_now i\<rparr>)"
    by (rule entry_update [OF 1(1)]) (use put r in simp_all)
  show "entry_in sg' l (r\<lparr>rw_state := Serving, rw_updatedAt := fd_now i\<rparr>)"
    "\<exists>o'. staged_get tb_operations sg' (first_child_id ex) = Some o' \<and> op_phase o' = Publishing \<and> op_locusId o' = Some l"
    using delivery_put [OF dl 2] put_row_effect(5) [OF put] 1(2) op(2,3) by simp_all
qed

lemma commit_entry:
  assumes run: "commitFirstDelivery ex now sg = Inr (u, sg')" and e: "entry_in sg l r"
  shows "entry_in sg' l r"
    "\<exists>o'. staged_get tb_operations sg' (first_child_id ex) = Some o' \<and> op_phase o' = Committed"
proof -
  from run obtain o' where op: "put_operation (first_child_id ex) o' sg = Inr sg'" "op_phase o' = Committed"
    unfolding commitFirstDelivery_def by (auto simp: ok_iff)
  show "entry_in sg' l r" "\<exists>o'. staged_get tb_operations sg' (first_child_id ex) = Some o' \<and> op_phase o' = Committed"
    using op_put [OF op(1) e] op(2) by simp_all
qed

lemma fail_entry:
  assumes run: "failFirstDeliveryCreation i fresh sg = Inr (u, sg')" and e: "entry_in sg (fd_locusId i) r"
  shows "\<exists>r'. entry_in sg' (fd_locusId i) r' \<and> rw_state r' = NotCreated \<and>
      staged_get tb_operations sg' = staged_get tb_operations sg"
proof -
  from run obtain r0 sg1 sid reason where r0: "find_locus (staged_all tb_loci sg) (fd_locusId i) = Some r0"
    and st: "settleTriggerFailed (fd_deliveryId i) reason (fd_now i) sg = Inr sg1"
    and ro: "rotateFirstChild r0 (fd_deliveryId i) fresh (fd_now i) sg1 = Inr (sid, sg')"
    unfolding failFirstDeliveryCreation_def by (auto simp: ok_iff split: prod.splits)
  have "entry_in sg1 (fd_locusId i) r0" "staged_get tb_operations sg1 = staged_get tb_operations sg"
    using settle_entry [OF st e] entry_found [OF e r0] by simp_all
  with rotate_entry [OF ro] show ?thesis by metis
qed

lemma debt_entry:
  assumes run: "revertFirstDelivery i (Some ex) RecoveryDebt allocator sg = Inr (u, sg')" and e: "entry_in sg (fd_locusId i) r"
    and known: "\<And>o'. staged_get tb_operations sg (first_child_id ex) = Some o' \<Longrightarrow> op_locusId o' = Some (fd_locusId i)"
  shows "entry_in sg' (fd_locusId i) r"
    "\<exists>o'. staged_get tb_operations sg' (first_child_id ex) = Some o' \<and> op_phase o' = NeedsRecovery \<and>
       op_locusId o' = Some (fd_locusId i)"
proof -
  from run obtain o' where op: "put_operation (first_child_id ex) o' sg = Inr sg'" "op_phase o' = NeedsRecovery"
      "op_locusId o' = Some (fd_locusId i)"
    unfolding revertFirstDelivery_def Let_def using known
    by (auto simp: ok_iff first_operation_def split: option.splits)
  show "entry_in sg' (fd_locusId i) r" "\<exists>o'. staged_get tb_operations sg' (first_child_id ex) = Some o' \<and>
      op_phase o' = NeedsRecovery \<and> op_locusId o' = Some (fd_locusId i)"
    using op_put [OF op(1) e] op(2,3) by simp_all
qed

lemma revert_entry:
  assumes run: "revertFirstDelivery i ex form (Some fresh) sg = Inr (u, sg')" and e: "entry_in sg (fd_locusId i) r"
    and form: "form \<noteq> RecoveryDebt"
    and known: "\<And>x o'. ex = Some x \<Longrightarrow> staged_get tb_operations sg (first_child_id x) = Some o' \<Longrightarrow>
      op_locusId o' = Some (fd_locusId i)"
  shows "\<exists>r'. entry_in sg' (fd_locusId i) r' \<and> rw_state r' = NotCreated"
    "case ex of None \<Rightarrow> staged_get tb_operations sg' = staged_get tb_operations sg
     | Some x \<Rightarrow> \<exists>o'. staged_get tb_operations sg' (first_child_id x) = Some o' \<and> op_phase o' = Compensated \<and>
         op_locusId o' = Some (fd_locusId i)"
proof -
  from run form obtain r0 sid sg1 sg2 where r0: "find_locus (staged_all tb_loci sg) (fd_locusId i) = Some r0"
    and ro: "rotateFirstChild r0 (fd_deliveryId i) fresh (fd_now i) sg = Inr (sid, sg1)"
    and st: "(if form = RetryText
              then (case staged_get tb_deliveries sg1 (fd_deliveryId i) of
                      None \<Rightarrow> Inr sg1
                    | Some d \<Rightarrow> put_delivery (fd_deliveryId i) (d\<lparr>dl_executionId := None,
                        dl_inboxMessageId := None, dl_turnId := None, co_sessionId := sid,
                        dl_imageRouteRejected := True\<rparr>) sg1)
              else settleTriggerFailed (fd_deliveryId i) (js ''first child publication reverted'') (fd_now i) sg1) = Inr sg2"
    and fin: "(case ex of None \<Rightarrow> Inr ((), sg2)
        | Some e \<Rightarrow> err_bind (requireOperation sg2 (first_child_id e)) (\<lambda>o'.
            err_bind (put_operation (first_child_id e) (o'\<lparr>op_phase := Compensated,
              op_updatedAt := fd_now i, op_completedAt := Some (fd_now i)\<rparr>) sg2) (\<lambda>sg3. Inr ((), sg3)))) = Inr (u, sg')"
    unfolding revertFirstDelivery_def by (auto simp: ok_iff)
  from e entry_found [OF e r0] have e0: "entry_in sg (fd_locusId i) r0" by simp
  from rotate_entry [OF ro e0] obtain r1 where
    r1: "entry_in sg1 (fd_locusId i) r1" "rw_state r1 = NotCreated" "staged_get tb_operations sg1 = staged_get tb_operations sg"
    by blast
  have 2: "entry_in sg2 (fd_locusId i) r1" "staged_get tb_operations sg2 = staged_get tb_operations sg"
    using st r1 by (auto split: if_splits option.splits dest: delivery_put settle_entry)
  have "entry_in sg' (fd_locusId i) r1 \<and> (case ex of None \<Rightarrow> staged_get tb_operations sg' = staged_get tb_operations sg
     | Some x \<Rightarrow> \<exists>o'. staged_get tb_operations sg' (first_child_id x) = Some o' \<and> op_phase o' = Compensated \<and>
         op_locusId o' = Some (fd_locusId i))"
  proof (cases ex)
    case None
    then show ?thesis using fin 2 by simp
  next
    case (Some x)
    with fin obtain o' where o': "requireOperation sg2 (first_child_id x) = Inr o'"
      and p: "put_operation (first_child_id x) (o'\<lparr>op_phase := Compensated,
              op_updatedAt := fd_now i, op_completedAt := Some (fd_now i)\<rparr>) sg2 = Inr sg'" by (auto simp: ok_iff)
    from o' 2(2) have "staged_get tb_operations sg (first_child_id x) = Some o'"
      by (auto simp: requireOperation_def ok_iff)
    from known [OF Some this] op_put [OF p 2(1)] show ?thesis by (simp add: Some)
  qed
  with r1(2) show "\<exists>r'. entry_in sg' (fd_locusId i) r' \<and> rw_state r' = NotCreated"
    "case ex of None \<Rightarrow> staged_get tb_operations sg' = staged_get tb_operations sg
     | Some x \<Rightarrow> \<exists>o'. staged_get tb_operations sg' (first_child_id x) = Some o' \<and> op_phase o' = Compensated \<and>
         op_locusId o' = Some (fd_locusId i)" by blast+
qed

subsection \<open>Writes of the repository\<close>

lemma stage_operations [simp]: "staged_get tb_operations (stage rp) = map_of (tb_operations (rp_tables rp))"
  by (simp add: staged_get_add stage_def)

lemma mutate_failed: "mutate commits body rp = (Inl e, rp') \<Longrightarrow> rp' = rp"
  by (auto simp: mutate_def flush_def split: sum.splits prod.splits if_splits)

lemma mutate_entry:
  assumes run: "mutate commits body rp = (Inr x, rp')" and wf: "wf_tables (rp_tables rp)"
    and keep: "\<And>sg. body (stage rp) = Inr (x, sg) \<Longrightarrow> keeps (stage rp) sg"
  obtains sg where "body (stage rp) = Inr (x, sg)" "staged_get tb_loci (stage rp') = staged_get tb_loci sg"
    "map_of (tb_operations (rp_tables rp')) = staged_get tb_operations sg" "wf_staged (stage rp')" "wf_staged sg"
proof -
  from run obtain sg u where b: "body (stage rp) = Inr (x, sg)" and f: "flush commits sg rp = (Inr u, rp')"
    by (auto simp: mutate_def split: sum.splits prod.splits)
  from keep [OF b] wf have w: "wf_staged sg" and d: "sg_domain sg = rp_tables rp" by (simp_all add: keeps_def stage_domain)
  show thesis
  proof (cases "sg_writes sg = no_tables")
    case True
    then have "rp' = rp" using f by (simp add: flush_def)
    moreover have "staged_get tb_loci sg = map_of (loci_of rp)"
      "staged_get tb_operations sg = map_of (tb_operations (rp_tables rp))"
      using True by (simp_all add: staged_get_add d loci_of_def)
    ultimately show thesis using that [OF b] wf w by simp
  next
    case False
    then have "rp_tables rp' = \<lparr>tb_loci = staged_all tb_loci sg, tb_mains = staged_all tb_mains sg,
        tb_deliveries = staged_all tb_deliveries sg, tb_operations = staged_all tb_operations sg\<rparr>"
      using f by (auto simp: flush_def split: if_splits)
    then show thesis using that [OF b] w by (simp add: loci_of_def wf_tables_def)
  qed
qed

lemma entry_view:
  assumes "entry_in sg l r" and "staged_get tb_loci sg' = staged_get tb_loci sg" and "wf_staged sg'"
  shows "entry_in sg' l r"
  using assms unfolding entry_in_def tidy_def by simp

lemma entry_tables: "entry_in (stage rp) l r \<Longrightarrow> wf_tables (rp_tables rp)"
  by (simp add: entry_in_def tidy_def)

lemma keeps_reserve: "keeps (sg\<lparr>sg_reserved := n\<rparr>) sg' \<Longrightarrow> keeps sg sg'"
  by (simp add: keeps_def wf_staged_def)

lemma rotate_keeps: "rotateFirstChild r except fresh now sg = Inr (sid, sg') \<Longrightarrow> keeps sg sg'"
  unfolding rotateFirstChild_def reserve_def Let_def
  by (auto simp: ok_iff split: prod.splits intro: keeps_reserve keeps_trans [OF put_keeps(1) retarget_keeps])

lemma settle_keeps: "settleTriggerFailed did reason now sg = Inr sg' \<Longrightarrow> keeps sg sg'"
  by (auto simp: settleTriggerFailed_def split: option.splits intro: put_keeps)

lemma publish_keeps: "publishFirstDelivery changing i ex sg = Inr (u, sg') \<Longrightarrow> keeps sg sg'"
  unfolding publishFirstDelivery_def
  by (auto simp: ok_iff dest!: put_keeps intro: keeps_trans [OF keeps_trans])

lemma commit_keeps: "commitFirstDelivery ex now sg = Inr (u, sg') \<Longrightarrow> keeps sg sg'"
  unfolding commitFirstDelivery_def by (auto simp: ok_iff intro: put_keeps)

lemma fail_keeps: "failFirstDeliveryCreation i fresh sg = Inr (u, sg') \<Longrightarrow> keeps sg sg'"
  unfolding failFirstDeliveryCreation_def
  by (auto simp: ok_iff split: prod.splits intro: keeps_trans [OF settle_keeps rotate_keeps])

lemma revert_keeps: "revertFirstDelivery i ex form allocator sg = Inr (u, sg') \<Longrightarrow> keeps sg sg'"
  unfolding revertFirstDelivery_def Let_def
  by (auto simp: ok_iff split: if_splits option.splits prod.splits
      intro: put_keeps keeps_trans [OF rotate_keeps] keeps_trans [OF settle_keeps] settle_keeps rotate_keeps
        keeps_trans [OF rotate_keeps keeps_trans [OF settle_keeps put_keeps(4)]]
        keeps_trans [OF rotate_keeps keeps_trans [OF put_keeps(3) put_keeps(4)]]
        keeps_trans [OF rotate_keeps put_keeps(3)])

lemma verified_keeps: "recordAccessVerified fence mode now sg = Inr (x, sg') \<Longrightarrow> keeps sg sg'"
  unfolding recordAccessVerified_def by (auto simp: ok_iff intro: put_keeps)

subsection \<open>The phases of a creation\<close>

definition op_of :: "publication_input \<Rightarrow> repository \<Rightarrow> operation option" where
  "op_of i rp = map_of (tb_operations (rp_tables rp)) (first_child_id (pi_executionId i))"

definition own_op :: "publication_input \<Rightarrow> repository \<Rightarrow> operation_phase set \<Rightarrow> bool" where
  "own_op i rp phases \<longleftrightarrow> (\<exists>o'. op_of i rp = Some o' \<and> op_phase o' \<in> phases \<and> op_locusId o' = Some (pi_locusId i))"

definition own_row :: "publication_input \<Rightarrow> repository \<Rightarrow> (row \<Rightarrow> bool) \<Rightarrow> bool" where
  "own_row i rp P \<longleftrightarrow> (\<exists>r. entry_in (stage rp) (pi_locusId i) r \<and> P r)"

definition published_row :: "publication_input \<Rightarrow> row \<Rightarrow> bool" where
  "published_row i r \<longleftrightarrow> rw_state r = Serving \<and> rw_sessionId r = pi_sessionId i \<and> rw_revision r = pi_revision i"

text \<open>
  The entry waits for a child; its child is published and the creation not yet committed; it is committed;
  the entry is blocked by the operation of this creation.
\<close>

definition entry_resting :: "publication_input \<Rightarrow> repository \<Rightarrow> bool" where
  "entry_resting i rp \<longleftrightarrow> own_row i rp (\<lambda>r. rw_state r = NotCreated) \<and>
     (op_of i rp = None \<or> own_op i rp {Compensated})"

definition child_published :: "publication_input \<Rightarrow> repository \<Rightarrow> bool" where
  "child_published i rp \<longleftrightarrow> own_row i rp (published_row i) \<and> own_op i rp {Publishing}"

definition child_established :: "publication_input \<Rightarrow> repository \<Rightarrow> bool" where
  "child_established i rp \<longleftrightarrow> own_row i rp (published_row i) \<and> (\<exists>o'. op_of i rp = Some o' \<and> op_phase o' = Committed)"

definition entry_blocked :: "publication_input \<Rightarrow> repository \<Rightarrow> bool" where
  "entry_blocked i rp \<longleftrightarrow> own_row i rp (\<lambda>_. True) \<and> own_op i rp RECOVERY_DEBT_PHASES"

lemma published_blocks: "child_published i rp \<Longrightarrow> entry_blocked i rp"
  by (auto simp: child_published_def entry_blocked_def own_row_def own_op_def RECOVERY_DEBT_PHASES_def)

lemma blocked_debt: "entry_blocked i rp \<Longrightarrow> hasFirstDeliveryRecoveryDebt rp (pi_locusId i)"
proof -
  assume "entry_blocked i rp"
  then obtain o' where o': "op_of i rp = Some o'" "op_phase o' \<in> RECOVERY_DEBT_PHASES" "op_locusId o' = Some (pi_locusId i)"
    by (auto simp: entry_blocked_def own_op_def)
  from o'(1) have "o' \<in> set (vals (tb_operations (rp_tables rp)))"
    unfolding op_of_def by (force dest: map_of_SomeD)
  then show ?thesis using o' unfolding hasFirstDeliveryRecoveryDebt_def by (auto simp: list_ex_iff)
qed

text \<open>Other work leaves the row of this entry, this operation and the local flags alone.\<close>

definition same_entry :: "publication_input \<Rightarrow> repository \<Rightarrow> repository \<Rightarrow> bool" where
  "same_entry i rp rp' \<longleftrightarrow> (tidy (stage rp) \<longrightarrow> tidy (stage rp')) \<and> op_of i rp' = op_of i rp \<and>
     (\<forall>r. rw_locusId r = pi_locusId i \<longrightarrow> (r \<in> ran (map_of (loci_of rp')) \<longleftrightarrow> r \<in> ran (map_of (loci_of rp))))"

definition same_flags :: "'h world \<Rightarrow> 'h world \<Rightarrow> bool" where
  "same_flags w w' \<longleftrightarrow> wd_issued w' = wd_issued w \<and> wd_published w' = wd_published w \<and>
     wd_everPublished w' = wd_everPublished w"

definition leaves_alone :: "publication_input \<Rightarrow> 'h world \<Rightarrow> 'h world \<Rightarrow> bool" where
  "leaves_alone i w w' \<longleftrightarrow> same_entry i (wd_rp w) (wd_rp w') \<and> same_flags w w'"

lemma same_own_row: "same_entry i rp rp' \<Longrightarrow> own_row i rp P \<Longrightarrow> own_row i rp' P"
  unfolding same_entry_def own_row_def entry_in_def by (auto simp: stage_view)

lemma same_phases:
  assumes "same_entry i rp rp'"
  shows "entry_resting i rp \<Longrightarrow> entry_resting i rp'" "child_published i rp \<Longrightarrow> child_published i rp'"
    "child_established i rp \<Longrightarrow> child_established i rp'" "entry_blocked i rp \<Longrightarrow> entry_blocked i rp'"
  using same_own_row [OF assms] assms
  unfolding entry_resting_def child_published_def child_established_def entry_blocked_def own_op_def same_entry_def
  by auto

lemma own_rowI: "entry_in (stage rp) (pi_locusId i) r \<Longrightarrow> P r \<Longrightarrow> own_row i rp P"
  unfolding own_row_def by blast

lemma identity_sel [simp]: "fd_locusId (identity_at i w) = pi_locusId i" "fd_sessionId (identity_at i w) = pi_sessionId i"
  "fd_revision (identity_at i w) = pi_revision i"
  by (simp_all add: identity_at_def)

lemma publish_phase:
  assumes run: "mutate commits (publishFirstDelivery changing (identity_at i w) (pi_executionId i)) rp = (Inr u, rp')"
    and e: "own_row i rp (\<lambda>_. True)"
  shows "child_published i rp'" "\<not> child_published i rp"
proof -
  from e obtain r where r: "entry_in (stage rp) (pi_locusId i) r" by (auto simp: own_row_def)
  obtain sg where b: "publishFirstDelivery changing (identity_at i w) (pi_executionId i) (stage rp) = Inr (u, sg)"
    and v: "staged_get tb_loci (stage rp') = staged_get tb_loci sg"
      "map_of (tb_operations (rp_tables rp')) = staged_get tb_operations sg" "wf_staged (stage rp')"
    by (rule mutate_entry [OF run entry_tables [OF r] publish_keeps]) (assumption | erule (3) that)+
  note p = publish_entry [OF b r, simplified]
  have "entry_in (stage rp') (pi_locusId i) (r\<lparr>rw_state := Serving, rw_updatedAt := fd_now (identity_at i w)\<rparr>)"
    by (rule entry_view [OF p(5) v(1,3)])
  moreover have "own_op i rp' {Publishing}" using p(6) v(2) by (auto simp: own_op_def op_of_def)
  moreover have "published_row i (r\<lparr>rw_state := Serving, rw_updatedAt := fd_now (identity_at i w)\<rparr>)"
    using p(2,3) by (simp add: published_row_def)
  ultimately show "child_published i rp'" unfolding child_published_def by (blast intro: own_rowI)
  show "\<not> child_published i rp" using p(4) by (simp add: child_published_def own_op_def op_of_def)
qed

lemma commit_phase:
  assumes run: "mutate commits (commitFirstDelivery (pi_executionId i) now) rp = (Inr u, rp')"
    and e: "child_published i rp"
  shows "child_established i rp'"
proof -
  from e obtain r where r: "entry_in (stage rp) (pi_locusId i) r" "published_row i r"
    by (auto simp: child_published_def own_row_def)
  obtain sg where b: "commitFirstDelivery (pi_executionId i) now (stage rp) = Inr (u, sg)"
    and v: "staged_get tb_loci (stage rp') = staged_get tb_loci sg"
      "map_of (tb_operations (rp_tables rp')) = staged_get tb_operations sg" "wf_staged (stage rp')"
    by (rule mutate_entry [OF run entry_tables [OF r(1)] commit_keeps]) (assumption | erule (3) that)+
  note p = commit_entry [OF b r(1)]
  from entry_view [OF p(1) v(1,3)] r(2) p(2) v(2) show ?thesis
    unfolding child_established_def op_of_def by (auto intro: own_rowI)
qed

lemma fail_phase:
  assumes run: "mutate commits (failFirstDeliveryCreation (identity_at i w) fresh) rp = (Inr u, rp')"
    and e: "entry_resting i rp"
  shows "entry_resting i rp'"
proof -
  from e obtain r where r: "entry_in (stage rp) (pi_locusId i) r" by (auto simp: entry_resting_def own_row_def)
  obtain sg where b: "failFirstDeliveryCreation (identity_at i w) fresh (stage rp) = Inr (u, sg)"
    and v: "staged_get tb_loci (stage rp') = staged_get tb_loci sg"
      "map_of (tb_operations (rp_tables rp')) = staged_get tb_operations sg" "wf_staged (stage rp')"
    by (rule mutate_entry [OF run entry_tables [OF r] fail_keeps]) (assumption | erule (3) that)+
  obtain r' where r': "entry_in sg (pi_locusId i) r'" "rw_state r' = NotCreated"
    "staged_get tb_operations sg = staged_get tb_operations (stage rp)"
    using fail_entry [OF b] r by auto
  from entry_view [OF r'(1) v(1,3)] r' v(2) e show ?thesis
    unfolding entry_resting_def own_op_def op_of_def by (auto intro: own_rowI)
qed

lemma own_op_known:
  assumes "entry_resting i rp \<or> child_published i rp" and "op_of i rp = Some o'"
  shows "op_locusId o' = Some (pi_locusId i)"
  using assms by (auto simp: entry_resting_def child_published_def own_op_def)

lemma own_entry: "entry_resting i rp \<or> child_published i rp \<Longrightarrow> \<exists>r. entry_in (stage rp) (pi_locusId i) r"
  by (auto simp: entry_resting_def child_published_def own_row_def)

lemma debt_phase:
  assumes run: "mutate commits (revertFirstDelivery (identity_at i w) (Some (pi_executionId i)) RecoveryDebt a) rp = (Inr u, rp')"
    and e: "entry_resting i rp \<or> child_published i rp"
  shows "entry_blocked i rp'"
proof -
  from own_entry [OF e] obtain r where r: "entry_in (stage rp) (pi_locusId i) r" by blast
  obtain sg where b: "revertFirstDelivery (identity_at i w) (Some (pi_executionId i)) RecoveryDebt a (stage rp) = Inr (u, sg)"
    and v: "staged_get tb_loci (stage rp') = staged_get tb_loci sg"
      "map_of (tb_operations (rp_tables rp')) = staged_get tb_operations sg" "wf_staged (stage rp')"
    by (rule mutate_entry [OF run entry_tables [OF r] revert_keeps]) (assumption | erule (3) that)+
  have known: "op_locusId o' = Some (pi_locusId i)"
    if "staged_get tb_operations (stage rp) (first_child_id (pi_executionId i)) = Some o'" for o'
    using own_op_known [OF e, of o'] that by (simp add: op_of_def)
  have 1: "entry_in sg (pi_locusId i) r"
    using debt_entry(1) [OF b, of r] r known by simp
  have 2: "\<exists>o'. staged_get tb_operations sg (first_child_id (pi_executionId i)) = Some o' \<and>
      op_phase o' = NeedsRecovery \<and> op_locusId o' = Some (pi_locusId i)"
    using debt_entry(2) [OF b, of r] r known by simp
  from entry_view [OF 1 v(1,3)] 2 v(2) show ?thesis
    unfolding entry_blocked_def own_op_def op_of_def RECOVERY_DEBT_PHASES_def by (auto intro: own_rowI)
qed

lemma revert_phase:
  assumes run: "mutate commits (revertFirstDelivery (identity_at i w) ex form (Some fresh)) rp = (Inr u, rp')"
    and form: "form \<noteq> RecoveryDebt"
    and e: "ex = Some (pi_executionId i) \<and> (entry_resting i rp \<or> child_published i rp) \<or> ex = None \<and> entry_resting i rp"
  shows "entry_resting i rp'"
proof -
  from e have e': "entry_resting i rp \<or> child_published i rp" by blast
  from own_entry [OF this] obtain r where r: "entry_in (stage rp) (pi_locusId i) r" by blast
  obtain sg where b: "revertFirstDelivery (identity_at i w) ex form (Some fresh) (stage rp) = Inr (u, sg)"
    and v: "staged_get tb_loci (stage rp') = staged_get tb_loci sg"
      "map_of (tb_operations (rp_tables rp')) = staged_get tb_operations sg" "wf_staged (stage rp')"
    by (rule mutate_entry [OF run entry_tables [OF r] revert_keeps]) (assumption | erule (3) that)+
  have known: "op_locusId o' = Some (pi_locusId i)"
    if "ex = Some x" "staged_get tb_operations (stage rp) (first_child_id x) = Some o'" for x o'
    using own_op_known [OF e', of o'] that e by (simp add: op_of_def)
  have r2: "entry_in (stage rp) (fd_locusId (identity_at i w)) r" using r by simp
  have k2: "op_locusId o' = Some (fd_locusId (identity_at i w))"
    if "ex = Some x" "staged_get tb_operations (stage rp) (first_child_id x) = Some o'" for x o'
    using known [OF that] by simp
  have "\<exists>r'. entry_in sg (fd_locusId (identity_at i w)) r' \<and> rw_state r' = NotCreated"
    by (rule revert_entry(1) [OF b r2 form]) (rule k2)
  then obtain r' where r': "entry_in sg (pi_locusId i) r'" "rw_state r' = NotCreated" by auto
  have o: "case ex of None \<Rightarrow> staged_get tb_operations sg = staged_get tb_operations (stage rp)
     | Some x \<Rightarrow> \<exists>o'. staged_get tb_operations sg (first_child_id x) = Some o' \<and> op_phase o' = Compensated \<and>
         op_locusId o' = Some (pi_locusId i)"
    unfolding identity_sel(1) [of i w, symmetric] by (rule revert_entry(2) [OF b r2 form]) (rule k2)
  have "op_of i rp' = None \<or> own_op i rp' {Compensated}"
  proof (cases ex)
    case None
    then show ?thesis using o e v(2) by (simp add: entry_resting_def own_op_def op_of_def)
  next
    case (Some x)
    then show ?thesis using o e v(2) by (simp add: own_op_def op_of_def)
  qed
  with entry_view [OF r'(1) v(1,3)] r'(2) show ?thesis
    unfolding entry_resting_def by (auto intro: own_rowI)
qed

end
