(* ===== verification/PetCompositionTheorems.thy ===== *)
theory PetCompositionTheorems
  imports PetComposition
begin

text \<open>
  What a composition proves: \<open>composeLocusChild\<close> returns a composition only when every proof held in the host
  it ran on, and a refusal for want of a proof has touched nothing.
\<close>

lemma attempt_ok [eff_ok]: "attempt e port h = (Inr u, h') \<longleftrightarrow> port h = (True, h')"
  by (auto simp: attempt_def split: prod.splits)

lemma attempt_err: "attempt e port h = (Inl f, h') \<longleftrightarrow> f = e \<and> port h = (False, h')"
  by (auto simp: attempt_def split: prod.splits)

lemma attempt_read_ok [eff_ok]: "attempt_read e port h = (Inr x, h') \<longleftrightarrow> port h = Inr x \<and> h' = h"
  by (auto simp: attempt_read_def split: sum.splits)

lemma attempt_read_err: "attempt_read e port h = (Inl f, h') \<longleftrightarrow> f = e \<and> h' = h \<and> (\<exists>u. port h = Inl u)"
  by (auto simp: attempt_read_def split: sum.splits)

lemmas eff_err = eff_bind_err eff_catch_err eff_when_err attempt_err attempt_read_err

lemma parent_ok [eff_ok]:
  "verifyParentPreset c read h = (Inr u, h') \<longleftrightarrow>
     h' = h \<and> (\<exists>f. read = Some f \<and> f (cc_locusMainSessionId c) h = Inr (Some LOCUS_BASE_PRESET))"
  by (auto simp: verifyParentPreset_def eff_ok split: option.splits)

lemma parent_err: "verifyParentPreset c read h = (Inl f, h') \<Longrightarrow> f = MainUnavailable \<and> h' = h"
  by (auto simp: verifyParentPreset_def eff_err eff_ok split: option.splits)

lemma child_ok [eff_ok]:
  "verifyChildPreset a read h = (Inr u, h') \<longleftrightarrow>
     h' = h \<and> (\<exists>f. read = Some f \<and> f a h = Inr (Some LOCUS_CHILD_PRESET))"
  by (auto simp: verifyChildPreset_def eff_ok split: option.splits)

lemma child_err: "verifyChildPreset a read h = (Inl f, h') \<Longrightarrow> f \<in> {PresetUnverified, PresetMismatch} \<and> h' = h"
  by (auto simp: verifyChildPreset_def eff_err eff_ok split: option.splits)

lemma policy_ok [eff_ok]:
  "applyPolicy a mode policy h = (Inr u, h') \<longleftrightarrow>
     (\<exists>po. policy = Some po \<and> po_apply po a mode h = (True, h') \<and> po_resolve po a h' = Inr (Some mode))"
  by (auto simp: applyPolicy_def eff_ok split: option.splits)

lemma policy_err:
  "applyPolicy a mode policy h = (Inl f, h') \<Longrightarrow> f \<in> {PolicyUnavailable, PolicyFailed, PolicyNotVerified} \<and>
     (h' = h \<or> (\<exists>po. policy = Some po \<and> f \<noteq> PolicyUnavailable \<and> h' = snd (po_apply po a mode h)))"
  by (auto simp: applyPolicy_def eff_err eff_ok split: option.splits)

lemma surface_ok [eff_ok]:
  "composeSurface a c mode surface h = (Inr u, h') \<longleftrightarrow>
     (\<exists>sf guard restrict read names h1 h2. surface = Some sf \<and> sf_installOutboundGuard sf = Some guard \<and>
        sf_applyAccessMode sf = Some restrict \<and> sf_visibleTools sf = Some read \<and> sf_install sf a c h = (True, h1) \<and>
        guard a h1 = (True, h2) \<and> restrict a mode h2 = (True, h') \<and> read a h' = Inr (Some names) \<and>
        attestLocusComposition (Some names) mode = Attested)"
proof -
  have u: "\<not> (attestLocusComposition None mode = Attested)" by (simp add: attestLocusComposition_def)
  have v: "(\<exists>x. R x \<and> attestLocusComposition x mode = Attested) \<longleftrightarrow>
      (\<exists>names. R (Some names) \<and> attestLocusComposition (Some names) mode = Attested)" for R
    using u by (metis option.exhaust)
  show ?thesis
  proof (cases surface)
    case (Some sf)
    show ?thesis
    proof (cases "sf_applyAccessMode sf = None \<or> sf_installOutboundGuard sf = None")
      case True
      then show ?thesis by (auto simp: composeSurface_def Some eff_bind_ok attempt_ok split: option.splits)
    next
      case False
      then obtain restrict guard where g: "sf_applyAccessMode sf = Some restrict" "sf_installOutboundGuard sf = Some guard" by auto
      show ?thesis
      proof (cases "sf_visibleTools sf")
        case None
        then show ?thesis by (simp add: composeSurface_def Some g eff_bind_ok attempt_ok eff_when_ok u)
      next
        case r: (Some read)
        show ?thesis
          by (simp add: composeSurface_def Some g r eff_bind_ok attempt_ok attempt_read_ok eff_when_ok)
            (use v [of "\<lambda>x. read a h' = Inr x"] in blast)
      qed
    qed
  qed (simp add: composeSurface_def)
qed

lemma surface_err: "composeSurface a c mode surface h = (Inl f, h') \<Longrightarrow> f \<in> {SurfaceUnavailable, SurfaceFailed, SurfaceNotAttested}"
  by (auto simp: composeSurface_def eff_err eff_ok split: option.splits)

subsection \<open>The surface\<close>

lemma fold_deny:
  "set (fold (\<lambda>n leaks. if n \<in> set names \<and> n \<notin> set leaks then leaks @ [n] else leaks) deny leaks) =
     set leaks \<union> (set deny \<inter> set names)"
  by (induction deny arbitrary: leaks) auto

lemma attested_iff:
  "attestLocusComposition (Some names) mode = Attested \<longleftrightarrow>
     set names \<subseteq> set (allowed_tools mode) \<and> set LOCUS_DELEGATION_DENYLIST \<inter> set names = {} \<and>
     (mode = FullAccess \<longrightarrow> js ''bash'' \<in> set names)"
proof -
  have e: "xs = [] \<longleftrightarrow> set xs = {}" for xs :: "jstr list" by simp
  show ?thesis
    unfolding attestLocusComposition_def Let_def option.case
    by (simp only: e fold_deny split: if_split) (auto simp: unique_first_def)
qed

subsection \<open>The composition\<close>

lemma compose_none: "attempt_read e port h = (Inr None, h') \<longleftrightarrow> port h = Inr None \<and> h' = h"
  by (rule attempt_read_ok)

lemma composed_iff:
  "composeLocusChild (Arg a) ports h = (Inr (Some (c, mode)), h') \<longleftrightarrow>
     trim a \<noteq> [] \<and> cp_find ports a h = Inr (Some c) \<and> cc_sessionId c = a \<and> mode = cc_accessMode c \<and>
     (\<exists>u. verifyParentPreset c (cp_parentPreset ports) h = (Inr u, h)) \<and>
     (\<exists>u. verifyChildPreset a (cp_childPreset ports) h = (Inr u, h)) \<and>
     (mode \<noteq> FullAccess \<or> or_else (cp_writeEnabled ports) LOCUS_WRITE_ENABLED) \<and>
     (\<exists>h1 u v. applyPolicy a mode (cp_policy ports) h = (Inr u, h1) \<and>
        composeSurface a c mode (cp_surface ports) h1 = (Inr v, h'))"
  unfolding composeLocusChild_def Let_def
  by (auto simp: eff_bind_ok attempt_read_ok eff_when_ok parent_ok child_ok split: option.splits)

lemma compose_refused:
  assumes run: "composeLocusChild (Arg a) ports h = (Inl f, h')" and c: "cp_find ports a h = Inr (Some c)"
  shows "cc_sessionId c \<noteq> a \<and> f = IdentityUnproven \<and> h' = h \<or>
    verifyParentPreset c (cp_parentPreset ports) h = (Inl f, h') \<or>
    verifyChildPreset a (cp_childPreset ports) h = (Inl f, h') \<or> f = WriteDisabled \<and> h' = h \<or>
    applyPolicy a (cc_accessMode c) (cp_policy ports) h = (Inl f, h') \<or>
    (\<exists>u h1. applyPolicy a (cc_accessMode c) (cp_policy ports) h = (Inr u, h1) \<and>
       composeSurface a c (cc_accessMode c) (cp_surface ports) h1 = (Inl f, h'))"
proof -
  have "trim a \<noteq> []" using run by (auto simp: composeLocusChild_def)
  with run c show ?thesis
    unfolding composeLocusChild_def Let_def
    by (auto simp: eff_bind_err attempt_read_err attempt_read_ok eff_when_err eff_when_ok parent_ok child_ok)
qed

text \<open>
  C29: A child is composed only when the row named it and every proof held: its locus main runs
  \<^verbatim>\<open>locus-base\<close>, it runs \<^verbatim>\<open>locus-child\<close>, full access is switched on if its row grants it, the sandbox
  was set to the mode of the row and read back as that mode, and the tools the child can see after all
  installations are those reviewed for the mode, none of them a delegation tool.
\<close>

theorem composed_child_is_proven:
  assumes run: "composeLocusChild (Arg a) ports h = (Inr (Some (c, mode)), h')"
  shows "cp_find ports a h = Inr (Some c) \<and> cc_sessionId c = a \<and> mode = cc_accessMode c \<and>
    (\<exists>f. cp_parentPreset ports = Some f \<and> f (cc_locusMainSessionId c) h = Inr (Some (js ''locus-base''))) \<and>
    (\<exists>f. cp_childPreset ports = Some f \<and> f a h = Inr (Some (js ''locus-child''))) \<and>
    (mode = FullAccess \<longrightarrow> cp_writeEnabled ports = Some True) \<and>
    (\<exists>po h1. cp_policy ports = Some po \<and> po_apply po a mode h = (True, h1) \<and> po_resolve po a h1 = Inr (Some mode)) \<and>
    (\<exists>sf f names. cp_surface ports = Some sf \<and> sf_visibleTools sf = Some f \<and> f a h' = Inr (Some names) \<and>
       set names \<subseteq> set (allowed_tools mode) \<and> set LOCUS_DELEGATION_DENYLIST \<inter> set names = {} \<and>
       (mode = FullAccess \<longrightarrow> js ''bash'' \<in> set names))"
proof -
  from run obtain h1 u v where
    c: "cp_find ports a h = Inr (Some c)" "cc_sessionId c = a" "mode = cc_accessMode c"
      "mode \<noteq> FullAccess \<or> or_else (cp_writeEnabled ports) LOCUS_WRITE_ENABLED"
    and p: "\<exists>u. verifyParentPreset c (cp_parentPreset ports) h = (Inr u, h)"
      "\<exists>u. verifyChildPreset a (cp_childPreset ports) h = (Inr u, h)"
    and ap: "applyPolicy a mode (cp_policy ports) h = (Inr u, h1)"
    and su: "composeSurface a c mode (cp_surface ports) h1 = (Inr v, h')"
    unfolding composed_iff by blast
  have w: "mode = FullAccess \<longrightarrow> cp_writeEnabled ports = Some True"
    using c(4) by (cases "cp_writeEnabled ports") (simp_all add: LOCUS_WRITE_ENABLED_def)
  from su obtain sf f names where t: "cp_surface ports = Some sf" "sf_visibleTools sf = Some f"
      "f a h' = Inr (Some names)" "attestLocusComposition (Some names) mode = Attested"
    unfolding surface_ok by blast
  from t(4) have t': "set names \<subseteq> set (allowed_tools mode)" "set LOCUS_DELEGATION_DENYLIST \<inter> set names = {}"
    "mode = FullAccess \<longrightarrow> js ''bash'' \<in> set names" unfolding attested_iff by blast+
  from p have p': "\<exists>f. cp_parentPreset ports = Some f \<and> f (cc_locusMainSessionId c) h = Inr (Some (js ''locus-base''))"
    "\<exists>f. cp_childPreset ports = Some f \<and> f a h = Inr (Some (js ''locus-child''))"
    by (simp_all add: parent_ok child_ok LOCUS_BASE_PRESET_def LOCUS_CHILD_PRESET_def)
  from ap have "\<exists>po h1. cp_policy ports = Some po \<and> po_apply po a mode h = (True, h1) \<and> po_resolve po a h1 = Inr (Some mode)"
    unfolding policy_ok by blast
  with c(1-3) w p' t(1-3) t' show ?thesis by blast
qed

text \<open>White space over integers, whose numerals evaluate.\<close>

lemma js_space_code [code]:
  "js_space u \<longleftrightarrow> (let i = int u in list_ex (\<lambda>j. i = j) [9, 10, 11, 12, 13, 32, 160, 5760, 8232, 8233, 8239, 8287, 12288, 65279]
     \<or> (8192 \<le> i \<and> i \<le> 8202))"
  unfolding js_space_def Let_def by auto

text \<open>A host whose state is the sandbox mode and the tools of one child.\<close>

type_synonym demo_host = "access_mode option \<times> jstr list"

definition demo_row :: child_composition where
  "demo_row = \<lparr>cc_locusMainSessionId = js ''m'', cc_sessionId = js ''s'', cc_locusId = js ''l'', cc_revision = 0,
     cc_accessMode = ReadOnly, cc_endpoint = \<lparr>ep_chatId = js ''c'', ep_threadId = None\<rparr>\<rparr>"

definition demo_ports :: "demo_host composition_ports" where
  "demo_ports = \<lparr>cp_find = (\<lambda>_ _. Inr (Some demo_row)),
     cp_parentPreset = Some (\<lambda>_ _. Inr (Some (js ''locus-base''))),
     cp_childPreset = Some (\<lambda>_ _. Inr (Some (js ''locus-child''))),
     cp_surface = Some \<lparr>sf_install = (\<lambda>_ _ (m, tools). (True, (m, tools @ [js ''pet_context'']))),
       sf_applyAccessMode = Some (\<lambda>_ mode (m, tools). (True, (m, filter (\<lambda>t. t \<in> set (allowed_tools mode)) tools))),
       sf_installOutboundGuard = Some (\<lambda>_ h. (True, h)), sf_visibleTools = Some (\<lambda>_ (m, tools). Inr (Some tools))\<rparr>,
     cp_policy = Some \<lparr>po_apply = (\<lambda>_ mode (m, tools). (True, (Some mode, tools))), po_resolve = (\<lambda>_ (m, tools). Inr m)\<rparr>,
     cp_writeEnabled = None\<rparr>"

theorem composed_child_is_proven_witness:
  "composeLocusChild (Arg (js ''s'')) demo_ports (None, [js ''read'', js ''bash'']) =
     (Inr (Some (demo_row, ReadOnly)), (Some ReadOnly, [js ''read'', js ''pet_context''])) \<and>
   cc_sessionId demo_row = js ''s''"
proof -
  have run: "composeLocusChild (Arg (js ''s'')) demo_ports (None, [js ''read'', js ''bash'']) =
     (Inr (Some (demo_row, ReadOnly)), (Some ReadOnly, [js ''read'', js ''pet_context'']))" by code_simp
  from composed_child_is_proven [OF run] run show ?thesis by blast
qed

text \<open>
  A composition refused for want of a proof has not touched the host, and one refused by the sandbox
  policy has not touched the child's tools.
\<close>

theorem unproven_composition_touches_nothing:
  assumes run: "composeLocusChild (Arg a) ports h = (Inl f, h')"
  shows "h' = h \<or> (\<exists>po c. cp_policy ports = Some po \<and> cp_find ports a h = Inr (Some c) \<and>
      (f \<in> {PolicyFailed, PolicyNotVerified} \<and> h' = snd (po_apply po a (cc_accessMode c) h) \<or>
       f \<in> {SurfaceUnavailable, SurfaceFailed, SurfaceNotAttested} \<and>
         (\<exists>h1. po_apply po a (cc_accessMode c) h = (True, h1) \<and> po_resolve po a h1 = Inr (Some (cc_accessMode c)))))"
proof -
  from run have ne: "trim a \<noteq> []" by (auto simp: composeLocusChild_def)
  show ?thesis
  proof (cases "cp_find ports a h")
    case (Inr r)
    show ?thesis
    proof (cases r)
      case None
      with run Inr ne show ?thesis by (simp add: composeLocusChild_def eff_bind_err attempt_read_err attempt_read_ok)
    next
      case (Some c)
      define m where "m = cc_accessMode c"
      have f: "cp_find ports a h = Inr (Some c)" using Inr Some by simp
      from compose_refused [OF run f] parent_err [of c _ h f h'] child_err [of a _ h f h']
      consider "h' = h" | "applyPolicy a m (cp_policy ports) h = (Inl f, h')"
        | u h1 where "applyPolicy a m (cp_policy ports) h = (Inr u, h1)" "composeSurface a c m (cp_surface ports) h1 = (Inl f, h')"
        unfolding m_def by blast
      then show ?thesis
      proof cases
        case 2
        from policy_err [OF this] show ?thesis using f m_def by blast
      next
        case (3 u h1)
        from 3(1) obtain po where "cp_policy ports = Some po" "po_apply po a m h = (True, h1)" "po_resolve po a h1 = Inr (Some m)"
          unfolding policy_ok by blast
        with surface_err [OF 3(2)] f m_def show ?thesis by blast
      qed simp
    qed
  qed (use run ne in \<open>simp add: composeLocusChild_def eff_bind_err attempt_read_err attempt_read_ok\<close>)
qed

theorem unproven_composition_touches_nothing_witness:
  "\<exists>f. composeLocusChild (Arg (js ''s'')) (demo_ports\<lparr>cp_childPreset := None\<rparr>) (None, [js ''read'']) =
     (Inl f, (None, [js ''read''])) \<and> f = PresetUnverified"
proof -
  have run: "composeLocusChild (Arg (js ''s'')) (demo_ports\<lparr>cp_childPreset := None\<rparr>) (None, [js ''read'']) =
     (Inl PresetUnverified, (None, [js ''read'']))" by code_simp
  from unproven_composition_touches_nothing [OF run] run show ?thesis by blast
qed

text \<open>A row that the lookup answers for the candidate itself leaves nothing of class A.\<close>

lemma identity_is_proven:
  assumes run: "composeLocusChild (Arg a) ports h = (Inl f, h')" and c: "cp_find ports a h = Inr (Some c)" "cc_sessionId c = a"
  shows "f \<noteq> IdentityUnproven"
proof -
  from compose_refused [OF run c(1)] c(2)
  consider "verifyParentPreset c (cp_parentPreset ports) h = (Inl f, h')"
    | "verifyChildPreset a (cp_childPreset ports) h = (Inl f, h')" | "f = WriteDisabled"
    | "applyPolicy a (cc_accessMode c) (cp_policy ports) h = (Inl f, h')"
    | h1 where "composeSurface a c (cc_accessMode c) (cp_surface ports) h1 = (Inl f, h')"
    by blast
  then show ?thesis
  proof cases
    case 1 from parent_err [OF this] show ?thesis by simp
  next
    case 2 from child_err [OF this] show ?thesis by auto
  next
    case 3 then show ?thesis by simp
  next
    case 4 from policy_err [OF this] show ?thesis by auto
  next
    case 5 from surface_err [OF this] show ?thesis by auto
  qed
qed

end
