(* ===== verification/PetCreationRuns.thy ===== *)
theory PetCreationRuns
  imports PetCreationSafety PetCompositionTheorems
begin

text \<open>
  The creation of a first child over the whole world: every step, with whatever other work runs between the
  writes, keeps the row of the entry and the operation of the creation in step with the local flag
  \<open>published\<close>.
\<close>

definition holds :: "publication_input \<Rightarrow> 'h world \<Rightarrow> bool" where
  "holds i w \<longleftrightarrow> (if wd_published w then wd_issued w \<and> child_published i (wd_rp w) else entry_resting i (wd_rp w))"

definition quiet :: "publication_input \<Rightarrow> 'h surroundings \<Rightarrow> bool" where
  "quiet i su \<longleftrightarrow> (\<forall>w. leaves_alone i w (su_others su w))"

subsection \<open>One write with other work around it\<close>

lemma same_entry_trans: "same_entry i a b \<Longrightarrow> same_entry i b c \<Longrightarrow> same_entry i a c"
  unfolding same_entry_def by metis

lemma same_flags_trans: "same_flags a b \<Longrightarrow> same_flags b c \<Longrightarrow> same_flags a c"
  unfolding same_flags_def by simp

lemma leaves_alone_holds: "leaves_alone i w w' \<Longrightarrow> holds i w \<Longrightarrow> holds i w'"
  unfolding leaves_alone_def holds_def same_flags_def by (auto dest: same_phases split: if_splits)

lemma durable_cases:
  assumes run: "durable su write w = (r, w')" and q: "quiet i su"
  obtains e where "r = Inl (WriteFailed e)" "leaves_alone i w w'"
  | x rp1 rp2 commits where "r = Inr x" "same_entry i (wd_rp w) rp1"
      "mutate commits (write w rp1) rp1 = (Inr x, rp2)" "same_entry i rp2 (wd_rp w')" "same_flags w w'"
proof -
  define w1 where "w1 = su_others su w"
  obtain m rp2 where m: "mutate (su_commits su w1) (write w (wd_rp w1)) (wd_rp w1) = (m, rp2)" by fastforce
  from run have r: "r = map_sum WriteFailed id m" "w' = su_others su (w1\<lparr>wd_rp := rp2\<rparr>)"
    by (simp_all add: durable_def Let_def w1_def [symmetric] m)
  have q1: "leaves_alone i w w1" and q2: "leaves_alone i (w1\<lparr>wd_rp := rp2\<rparr>) w'"
    using q unfolding quiet_def w1_def r(2) by blast+
  have f: "same_flags w w'" using q1 q2 unfolding leaves_alone_def same_flags_def by simp
  show thesis
  proof (cases m)
    case (Inl e)
    then have "rp2 = wd_rp w1" using mutate_failed m by metis
    then have "leaves_alone i w w'" using q1 q2 f same_entry_trans unfolding leaves_alone_def by auto
    then show thesis using that(1) [of e] r(1) Inl by simp
  next
    case (Inr x)
    show thesis
      by (rule that(2) [of x "wd_rp w1" _ rp2])
        (use q1 q2 f m r(1) Inr in \<open>simp_all add: leaves_alone_def\<close>)
  qed
qed

lemma flags_sel: "same_flags w w' \<Longrightarrow> wd_issued w' = wd_issued w \<and> wd_published w' = wd_published w \<and>
    wd_everPublished w' = wd_everPublished w"
  by (simp add: same_flags_def)

lemma holds_entry: "holds i w \<Longrightarrow> same_entry i (wd_rp w) rp \<Longrightarrow>
    if wd_published w then wd_issued w \<and> child_published i rp else entry_resting i rp"
  unfolding holds_def by (auto dest: same_phases split: if_splits)

lemma holds_either: "holds i w \<Longrightarrow> same_entry i (wd_rp w) rp \<Longrightarrow> entry_resting i rp \<or> child_published i rp"
  using holds_entry [of i w rp] by (auto split: if_splits)

text \<open>What does not reach the repository or the flags keeps everything.\<close>

lemma retire_sel [simp]: "wd_rp (retire c w) = wd_rp w" "wd_published (retire c w) = wd_published w"
  "wd_issued (retire c w) = wd_issued w" "wd_everPublished (retire c w) = wd_everPublished w"
  by (simp_all add: retire_def)

lemma retire_holds [simp]: "holds i (retire c w) \<longleftrightarrow> holds i w"
  by (simp add: holds_def)

lemma on_staging_sel: "on_staging m w = (r, w') \<Longrightarrow> wd_rp w' = wd_rp w \<and> same_flags w w'"
  by (auto simp: on_staging_def eff_zoom_def same_flags_def split: prod.splits)

lemma on_prompts_sel: "on_prompts m w = (r, w') \<Longrightarrow> wd_rp w' = wd_rp w \<and> same_flags w w'"
  by (auto simp: on_prompts_def eff_zoom_def same_flags_def split: prod.splits)

lemma same_world_holds: "wd_rp w' = wd_rp w \<Longrightarrow> same_flags w w' \<Longrightarrow> holds i w' = holds i w"
  by (simp add: holds_def same_flags_def)

lemma keeps_staging [eff_keep]: "keeps_under (holds i) (\<lambda>w. on_staging (m w) w)"
  using on_staging_sel same_world_holds by (blast intro: keeps_underI)

subsection \<open>Publication\<close>

lemma publish_first_run:
  assumes run: "publish_first su i child w = (r, w')" and q: "quiet i su" and h: "holds i w"
  shows "case r of Inl e \<Rightarrow> holds i w'
    | Inr u \<Rightarrow> \<not> wd_published w \<and> child_published i (wd_rp w') \<and> wd_issued w' \<and> wd_published w' = wd_published w"
proof -
  consider (bad) "r = Inl DiffersFromReserved" "w' = w"
    | (refused) e where "r = Inl e" "on_prompts (expect_prompt child (expected_prompt i)) w = (Inl e, w')"
    | (go) u w1 d w2 where "on_prompts (expect_prompt child (expected_prompt i)) w = (Inr u, w1)"
        "durable su (\<lambda>w rp. publishFirstDelivery (rp_accessChanging rp) (identity_at i w) (pi_executionId i)) w1 = (d, w2)"
        "case d of Inl e \<Rightarrow> r = Inl e \<and> w' = retire child w2 | Inr v \<Rightarrow> r = Inr () \<and> w' = w2\<lparr>wd_issued := True\<rparr>"
  proof (cases "child = pi_sessionId i")
    case False
    then show ?thesis using bad run by (simp add: publish_first_def eff_bind_def eff_when_def)
  next
    case True
    obtain p w1 where p: "on_prompts (expect_prompt child (expected_prompt i)) w = (p, w1)" by fastforce
    show ?thesis
    proof (cases p)
      case (Inl e)
      then show ?thesis using refused [of e] run p True by (simp add: publish_first_def eff_bind_def eff_when_def)
    next
      case (Inr u)
      obtain d w2 where d: "durable su (\<lambda>w rp. publishFirstDelivery (rp_accessChanging rp) (identity_at i w) (pi_executionId i)) w1 = (d, w2)"
        by fastforce
      show ?thesis
        by (rule go [of u w1 d w2])
          (use run p Inr d True in \<open>auto simp: publish_first_def eff_bind_def eff_when_def eff_catch_def split: sum.splits\<close>)
    qed
  qed
  then show ?thesis
  proof cases
    case bad
    then show ?thesis using h by simp
  next
    case (refused e)
    then show ?thesis using h on_prompts_sel [OF refused(2)] same_world_holds [of w' w i] by simp
  next
    case (go u w1 d w2)
    have w1: "holds i w1" "wd_published w1 = wd_published w"
      using h on_prompts_sel [OF go(1)] same_world_holds [of w1 w i] by (simp_all add: same_flags_def)
    from go(2) q show ?thesis
    proof (cases rule: durable_cases)
      case (1 e)
      then show ?thesis using go(3) leaves_alone_holds [OF 1(2) w1(1)] by simp
    next
      case (2 x rp1 rp2 commits)
      have o: "own_row i rp1 (\<lambda>_. True)"
        using holds_either [OF w1(1) 2(2)] by (auto simp: entry_resting_def child_published_def own_row_def)
      note p = publish_phase [OF 2(3) o]
      have np: "\<not> wd_published w1" using holds_entry [OF w1(1) 2(2)] p(2) by auto
      from same_phases(2) [OF 2(4) p(1)] np flags_sel [OF 2(5)] go(3) 2(1) w1(2) show ?thesis by simp
    qed
  qed
qed

lemma registered_keeps:
  assumes "quiet i su"
  shows "keeps_under (holds i) (registered_publication (first_delivery_callbacks su i) child)"
proof (rule keeps_underI)
  fix w r w' assume run: "registered_publication (first_delivery_callbacks su i) child w = (r, w')" and h: "holds i w"
  obtain p w1 where p: "publish_first su i child w = (p, w1)" by fastforce
  show "holds i w'"
  proof (cases p)
    case (Inl e)
    then show ?thesis using publish_first_run [OF p assms h] run p
      by (simp add: registered_publication_def first_delivery_callbacks_def)
  next
    case (Inr u)
    then show ?thesis using publish_first_run [OF p assms h] run p
      by (auto simp: registered_publication_def first_delivery_callbacks_def holds_def)
  qed
qed

subsection \<open>\<open>agent/created\<close>\<close>

lemma verified_phase:
  assumes run: "mutate commits (recordAccessVerified fence mode now) rp = (Inr x, rp')"
    and e: "own_row i rp P" and P: "\<And>r. P r \<Longrightarrow> P (r\<lparr>rw_verifiedAt := Some now, rw_updatedAt := now\<rparr>)"
  shows "own_row i rp' P" "op_of i rp' = op_of i rp"
proof -
  from e obtain r where r: "entry_in (stage rp) (pi_locusId i) r" "P r" by (auto simp: own_row_def)
  obtain sg where b: "recordAccessVerified fence mode now (stage rp) = Inr (x, sg)"
    and v: "staged_get tb_loci (stage rp') = staged_get tb_loci sg"
      "map_of (tb_operations (rp_tables rp')) = staged_get tb_operations sg" "wf_staged (stage rp')"
    by (rule mutate_entry [OF run entry_tables [OF r(1)] verified_keeps]) (assumption | erule (3) that)+
  from b obtain r0 where r0: "find_locus (staged_all tb_loci (stage rp)) (fe_expectedLocusId fence) = Some r0"
    and put: "put_row (endpointKeyV20 (rw_endpoint r0)) (r0\<lparr>rw_verifiedAt := Some now, rw_updatedAt := now\<rparr>) (stage rp) = Inr sg"
    unfolding recordAccessVerified_def by (auto simp: ok_iff)
  have t: "tidy (stage rp)" using r(1) by (simp add: entry_in_def)
  let ?n = "r0\<lparr>rw_verifiedAt := Some now, rw_updatedAt := now\<rparr>"
  have "entry_in sg (pi_locusId i) (if r0 = r then ?n else r)"
    by (rule entry_rewrite [OF r(1) _ tidy_found(1) [OF t r0]]) (use put in simp_all)
  from entry_view [OF this v(1,3)] show "own_row i rp' P" using P [of r0] r(2) by (auto simp: own_row_def split: if_splits)
  show "op_of i rp' = op_of i rp" using v(2) put_row_effect(5) [OF put] by (simp add: op_of_def)
qed

lemma verified_keeps_phase:
  assumes run: "mutate commits (recordAccessVerified fence mode now) rp = (Inr x, rp')"
  shows "entry_resting i rp \<Longrightarrow> entry_resting i rp'" "child_published i rp \<Longrightarrow> child_published i rp'"
proof -
  have a: "own_row i rp' P" "op_of i rp' = op_of i rp"
    if "own_row i rp P" "\<And>r. P r \<Longrightarrow> P (r\<lparr>rw_verifiedAt := Some now, rw_updatedAt := now\<rparr>)" for P
    using verified_phase [where P = P, OF run that(1)] that(2) by blast+
  show "entry_resting i rp \<Longrightarrow> entry_resting i rp'"
    using a [of "\<lambda>r. rw_state r = NotCreated"] by (auto simp: entry_resting_def own_op_def)
  show "child_published i rp \<Longrightarrow> child_published i rp'"
    using a [of "published_row i"] by (auto simp: child_published_def own_op_def published_row_def)
qed

lemma verified_write_keeps:
  assumes q: "quiet i su"
  shows "keeps_under (holds i) (durable su (\<lambda>w rp. recordAccessVerified fence mode (wd_now w)))"
proof (rule keeps_underI)
  fix w r w' assume run: "durable su (\<lambda>w rp. recordAccessVerified fence mode (wd_now w)) w = (r, w')"
    and h: "holds i w"
  from run q show "holds i w'"
  proof (cases rule: durable_cases)
    case (2 x rp1 rp2 commits)
    from holds_entry [OF h 2(2)] verified_keeps_phase [OF 2(3), of i] same_phases(1,2) [OF 2(4)] flags_sel [OF 2(5)]
    show ?thesis unfolding holds_def by (auto split: if_splits)
  qed (use h leaves_alone_holds in blast)
qed

lemma composeFound_keeps:
  assumes q: "quiet i su" and c: "cc_sessionId c = child"
  shows "keeps_under (holds i) (composeFound su ports child c)"
proof (rule keeps_underI)
  fix w r w' assume run: "composeFound su ports child c w = (r, w')" and h: "holds i w"
  let ?m = "eff_zoom wd_host (\<lambda>h w. w\<lparr>wd_host := h\<rparr>) CompositionRefused
         (composeLocusChild (Arg child) (ports\<lparr>cp_find := (\<lambda>_ _. Inr (Some c))\<rparr>))"
  obtain m w1 where m: "?m w = (m, w1)" by fastforce
  have w1: "holds i w1" using m h by (auto simp: eff_zoom_def holds_def split: prod.splits)
  show "holds i w'"
  proof (cases m)
    case (Inl e)
    then have "?m w = (Inl e, w1)" using m by simp
    then obtain f h1 where f: "composeLocusChild (Arg child) (ports\<lparr>cp_find := (\<lambda>_ _. Inr (Some c))\<rparr>) (wd_host w) = (Inl f, h1)"
      "e = CompositionRefused f" unfolding eff_zoom_err by blast
    have "f \<noteq> IdentityUnproven" by (rule identity_is_proven [OF f(1) _ c]) simp
    then have "classifyLocusCompositionFailure (Some f) \<noteq> ClassA"
      by (auto simp: classifyLocusCompositionFailure_def)
    then show ?thesis using run m Inl f(2) w1 by (simp add: composeFound_def)
  next
    case (Inr x)
    then show ?thesis using run m w1 by (simp add: composeFound_def)
  qed
qed

lemma publishClaimed_keeps:
  assumes "\<And>n c. keeps_under (holds i) (publication n c)"
  shows "keeps_under (holds i) (publishClaimed publication child)"
  unfolding publishClaimed_def
  by (intro keeps_under_bind keeps_staging [of i "\<lambda>_. m" for m])
    (auto split: option.splits intro!: keeps_under_bind keeps_under_pure keeps_staging assms)

lemma lookup_session:
  assumes "lookupChildForAgentCreated rp child preset staged \<in> {ActiveChild hit, StagedChild hit}"
  shows "rw_sessionId (rs_row hit) = child" "findBySessionId rp child = Some hit"
    "rw_locusId (rs_row hit) \<notin> set (rp_accessChanging rp)" "\<not> hasFirstDeliveryRecoveryDebt rp (rw_locusId (rs_row hit))"
proof -
  from assms show f: "findBySessionId rp child = Some hit"
    by (auto simp: lookupChildForAgentCreated_def unblocked_child_def split: option.splits if_splits)
  then obtain r where "find (\<lambda>r. rw_sessionId r = child) (vals (loci_of rp)) = Some r" "rs_row hit = r"
    by (auto simp: findBySessionId_def resolve_row_def split: option.splits)
  then show "rw_sessionId (rs_row hit) = child" by (auto dest: find_SomeD)
  from assms f show "rw_locusId (rs_row hit) \<notin> set (rp_accessChanging rp)"
    "\<not> hasFirstDeliveryRecoveryDebt rp (rw_locusId (rs_row hit))"
    by (auto simp: lookupChildForAgentCreated_def split: if_splits)
qed

lemma compose_and_publish_keeps:
  assumes q: "quiet i su" and p: "\<And>n c. keeps_under (holds i) (publication n c)"
    and c: "keeps_under (holds i) claim" and s: "rw_sessionId (rs_row hit) = child"
  shows "keeps_under (holds i) (compose_and_publish su ports publication child hit claim)"
  unfolding compose_and_publish_def Let_def
  by (intro keeps_under_bind c composeFound_keeps q)
    (auto simp: compositionOf_def s split: option.splits
       intro!: keeps_under_bind keeps_under_pure verified_write_keeps q publishClaimed_keeps p)

lemma agent_created_keeps:
  assumes q: "quiet i su" and p: "\<And>n c. keeps_under (holds i) (publication n c)"
  shows "keeps_under (holds i) (handleLocusAgentCreated su ports agentPreset publication child)"
proof (rule keeps_underI)
  fix w r w' assume run: "handleLocusAgentCreated su ports agentPreset publication child w = (r, w')" and h: "holds i w"
  obtain a w1 where a: "on_staging (inspect (wd_now w) child) w = (a, w1)" by fastforce
  have w1: "holds i w1" using keeps_underD [OF keeps_staging [of i "\<lambda>w. inspect (wd_now w) child"] a h] .
  show "holds i w'"
  proof (cases a)
    case (Inl e)
    then show ?thesis using run a w1 by (simp add: handleLocusAgentCreated_def eff_bind_def)
  next
    case (Inr staged)
    define found where "found = lookupChildForAgentCreated (wd_rp w1) child (agentPreset child (wd_host w1))
         (map_option (\<lambda>sn. \<lparr>sc_sessionId = cc_sessionId (sn_composition sn),
            sc_locusMainSessionId = cc_locusMainSessionId (sn_composition sn),
            sc_revision = cc_revision (sn_composition sn)\<rparr>) staged)"
    have claim: "keeps_under (holds i) (eff_bind (\<lambda>w. on_staging (claim_staged (wd_now w) child) w) (\<lambda>_. eff_return ()))"
      by (intro keeps_under_bind keeps_staging keeps_under_pure)
    from run a Inr have r: "(case found of
         OrdinaryChild \<Rightarrow> eff_return OrdinaryAgent
       | RetiredChild \<Rightarrow> eff_throw RetiredLocusChild
       | Blocked reason locusId \<Rightarrow> eff_throw (PublicationBlocked reason)
       | ActiveChild hit \<Rightarrow> compose_and_publish su ports publication child hit (eff_return ())
       | StagedChild hit \<Rightarrow> compose_and_publish su ports publication child hit
           (eff_bind (\<lambda>w. on_staging (claim_staged (wd_now w) child) w) (\<lambda>_. eff_return ()))) w1 = (r, w')"
      by (simp add: handleLocusAgentCreated_def eff_bind_def found_def)
    have in_found: "lookupChildForAgentCreated (wd_rp w1) child (agentPreset child (wd_host w1))
         (map_option (\<lambda>sn. \<lparr>sc_sessionId = cc_sessionId (sn_composition sn),
            sc_locusMainSessionId = cc_locusMainSessionId (sn_composition sn),
            sc_revision = cc_revision (sn_composition sn)\<rparr>) staged) \<in> {ActiveChild hit, StagedChild hit}"
      if "found = ActiveChild hit \<or> found = StagedChild hit" for hit
      using that unfolding found_def by blast
    show ?thesis
    proof (cases found)
      case (ActiveChild hit)
      have "rw_sessionId (rs_row hit) = child" using lookup_session(1) [OF in_found] ActiveChild by blast
      then have "keeps_under (holds i) (compose_and_publish su ports publication child hit (eff_return ()))"
        by (intro compose_and_publish_keeps q p keeps_under_pure)
      from keeps_underD [OF this _ w1] r ActiveChild show ?thesis by simp
    next
      case (StagedChild hit)
      have "rw_sessionId (rs_row hit) = child" using lookup_session(1) [OF in_found] StagedChild by blast
      then have "keeps_under (holds i) (compose_and_publish su ports publication child hit
          (eff_bind (\<lambda>w. on_staging (claim_staged (wd_now w) child) w) (\<lambda>_. eff_return ())))"
        by (intro compose_and_publish_keeps q p claim)
      from keeps_underD [OF this _ w1] r StagedChild show ?thesis by simp
    qed (use r w1 in auto)
  qed
qed

end
