(* ===== verification/PetChildAdapterTheorems.thy ===== *)
theory PetChildAdapterTheorems
  imports PetChildAdapter
begin

text \<open>
  Which operations of the host the adapter of one child can reach. A property of the host's state that every
  \<^emph>\<open>allowed\<close> call keeps is kept by the adapter's operation; since nothing is assumed of other calls, no other
  call is made.
\<close>

subsection \<open>Predicates the adapter's own fields do not matter for\<close>

definition blind :: "(('p, 'z) adapter_scheme \<Rightarrow> bool) \<Rightarrow> bool" where
  "blind P \<longleftrightarrow> (\<forall>w a f n d. P (w\<lparr>ad_active := a\<rparr>) = P w \<and> P (w\<lparr>ad_createInFlight := f\<rparr>) = P w \<and>
     P (w\<lparr>ad_transitions := n\<rparr>) = P w \<and> P (w\<lparr>ad_disposed := d\<rparr>) = P w)"

lemma blindD [simp]:
  "blind P \<Longrightarrow> P (w\<lparr>ad_active := a\<rparr>) = P w" "blind P \<Longrightarrow> P (w\<lparr>ad_createInFlight := f\<rparr>) = P w"
  "blind P \<Longrightarrow> P (w\<lparr>ad_transitions := n\<rparr>) = P w" "blind P \<Longrightarrow> P (w\<lparr>ad_disposed := d\<rparr>) = P w"
  by (simp_all add: blind_def)

text \<open>The calls that concern one parent and one child keep \<open>P\<close>.\<close>

definition resumes_keep :: "('w \<Rightarrow> bool) \<Rightarrow> ('p, 'w) child_ports \<Rightarrow> jstr \<Rightarrow> bool" where
  "resumes_keep P pt parent \<longleftrightarrow> (\<forall>w. P w \<longrightarrow> P (snd (pt_resume pt parent w)))"

definition releases_keep :: "('w \<Rightarrow> bool) \<Rightarrow> ('p, 'w) child_ports \<Rightarrow> child_identity \<Rightarrow> bool" where
  "releases_keep P pt i \<longleftrightarrow> (\<forall>f p w. pt_release pt = Some f \<longrightarrow> pt_id pt p = Arg (ci_parent i) \<longrightarrow> P w \<longrightarrow>
     P (snd (f p (ci_child i) w)))"

definition starts_keep :: "('w \<Rightarrow> bool) \<Rightarrow> ('p, 'w) child_ports \<Rightarrow> child_request \<Rightarrow> bool" where
  "starts_keep P pt r \<longleftrightarrow> (\<forall>spec w. pt_id pt (ss_parent spec) = Arg (rq_parent r) \<longrightarrow> ss_childId spec = rq_childId r \<longrightarrow>
     ss_agentPreset spec = LOCUS_CHILD_PRESET \<longrightarrow> ss_prompt spec = rq_prompt r \<longrightarrow> P w \<longrightarrow> P (snd (pt_start pt spec w)))"

definition queues_keep :: "('w \<Rightarrow> bool) \<Rightarrow> ('p, 'w) child_ports \<Rightarrow> child_identity \<Rightarrow> content_block list \<Rightarrow> bool" where
  "queues_keep P pt i content \<longleftrightarrow> (\<forall>f p w. pt_queuePrompt pt = Some f \<longrightarrow> pt_id pt p = Arg (ci_parent i) \<longrightarrow> P w \<longrightarrow>
     P (snd (f p (ci_child i) content w)))"

subsection \<open>The parent\<close>

lemma exact_parent_ok: "exact_parent pt i v = Some p \<longleftrightarrow> v = Some p \<and> pt_id pt p = Arg i \<and> isIdentifier i"
  by (auto simp: exact_parent_def split: option.splits)

lemma resolved_parent:
  assumes "resolveLocusParent pt aborted i w = (Inr p, w')"
  shows "pt_id pt p = Arg i" "isIdentifier i" "w' = w \<or> w' = snd (pt_resume pt i w)"
  using assms unfolding resolveLocusParent_def
  by (auto split: if_splits sum.splits option.splits prod.splits simp: exact_parent_ok)

lemma resolve_keeps:
  assumes "resumes_keep P pt i"
  shows "keeps_under P (resolveLocusParent pt aborted i)"
proof (rule keeps_underI)
  fix w r w' assume "resolveLocusParent pt aborted i w = (r, w')" and "P w"
  moreover from this(1) have "w' = w \<or> w' = snd (pt_resume pt i w)"
    unfolding resolveLocusParent_def
    by (auto split: if_splits sum.splits option.splits prod.splits)
  ultimately show "P w'" using assms unfolding resumes_keep_def by auto
qed

lemma resolveParent_keeps [eff_keep]: "resumes_keep P pt i \<Longrightarrow> keeps_under P (resolveParent pt aborted i)"
  using resolve_keeps [of P pt i aborted] unfolding keeps_under_def resolveParent_def by auto

lemma resolveParent_id: "resolveParent pt aborted i w = (Inr p, w') \<Longrightarrow> pt_id pt p = Arg i"
  by (auto simp: resolveParent_def split: if_splits dest: resolved_parent)

lemma fences_keep [eff_keep]:
  "keeps_under P (open_and_wanted aborted)" "keeps_under P (\<lambda>w. eff_when (b w) e w)"
  "blind P \<Longrightarrow> keeps_under P (refresh_active a p)"
  by (auto simp: keeps_under_def open_and_wanted_def refresh_active_def eff_when_def split: option.splits)

lemma keeps_option: "keeps_under P n \<Longrightarrow> (\<And>y. x = Some y \<Longrightarrow> keeps_under P (f y)) \<Longrightarrow>
    keeps_under P (case x of None \<Rightarrow> n | Some y \<Rightarrow> f y)"
  by (cases x) simp_all

lemma keeps_arg: "keeps_under P n \<Longrightarrow> (\<And>y. x = Arg y \<Longrightarrow> keeps_under P (f y)) \<Longrightarrow>
    keeps_under P (case x of Arg y \<Rightarrow> f y | BadType \<Rightarrow> n)"
  by (cases x) simp_all

text \<open>A continuation that may use what the first operation answered.\<close>

lemma keeps_bind_with:
  assumes "keeps_under P m" and "\<And>x w u. m w = (Inr x, u) \<Longrightarrow> keeps_under P (f x)"
  shows "keeps_under P (eff_bind m f)"
proof (rule keeps_underI)
  fix s r t assume run: "eff_bind m f s = (r, t)" and P: "P s"
  obtain x u where x: "m s = (x, u)" by fastforce
  have "P u" by (rule keeps_underD [OF assms(1) x P])
  then show "P t"
    using run x keeps_underD [OF assms(2)] by (cases x) auto
qed

subsection \<open>Creation\<close>

lemma release_unpublished_keeps:
  assumes "releases_keep P pt i" and "pt_id pt p = Arg (ci_parent i)" and "P w"
  shows "P (releaseUnpublishedChild pt p (ci_child i) w)"
  using assms by (auto simp: releaseUnpublishedChild_def releases_keep_def split: bool.splits option.splits)

lemma start_refused_keeps:
  assumes "releases_keep P pt \<lparr>ci_parent = rq_parent r, ci_child = rq_childId r\<rparr>" and "pt_id pt p = Arg (rq_parent r)"
  shows "keeps_under P (start_refused pt aborted r p e)"
proof (rule keeps_underI)
  fix w x w' assume run: "start_refused pt aborted r p e w = (x, w')" and P: "P w"
  then have "w' = w \<or> (\<exists>f. pt_release pt = Some f \<and> w' = snd (f p (rq_childId r) w))"
    unfolding start_refused_def
    by (auto simp: eff_bind_def open_and_wanted_def split: if_splits option.splits prod.splits bool.splits)
  then show "P w'" using assms P by (auto simp: releases_keep_def)
qed

lemma startChild_keeps:
  assumes b: "blind P" and res: "resumes_keep P pt (rq_parent r)" and st: "starts_keep P pt r"
    and rel: "releases_keep P pt \<lparr>ci_parent = rq_parent r, ci_child = rq_childId r\<rparr>"
  shows "keeps_under P (startChild pt aborted r)"
proof -
  let ?last = "\<lambda>p (w :: ('a, 'b) adapter_scheme).
       case pt_start pt \<lparr>ss_provider = or_else (rq_provider r) DEFAULT_CHILD_PROVIDER, ss_label = rq_label r,
              ss_childId = rq_childId r, ss_prompt = rq_prompt r, ss_parent = p,
              ss_agentPreset = LOCUS_CHILD_PRESET\<rparr> w of
         (Inl e, w') \<Rightarrow> start_refused pt aborted r p e w'
       | (Inr av, w') \<Rightarrow>
           if av_childId av \<noteq> Arg (rq_childId r) \<or> \<not> isIdentifier (rq_childId r) then (Inl ChildIdentityInvalid, w')
           else let i = \<lparr>ci_parent = rq_parent r, ci_child = rq_childId r\<rparr> in
             if ad_disposed w' \<or> aborted w'
             then let w'' = releaseUnpublishedChild pt p (rq_childId r) w'
                  in (Inl (if ad_disposed w'' then AdapterDisposed else AbortedChild), w'')
             else (Inr \<lparr>cr_created = True, cr_identity = i, cr_messageId = Some (av_messageId av)\<rparr>,
                   w'\<lparr>ad_active := Some \<lparr>ac_identity = i, ac_live = p\<rparr>\<rparr>)"
  have last: "keeps_under P (?last p)" if p: "pt_id pt p = Arg (rq_parent r)" for p
  proof (rule keeps_underI)
    fix w x w' assume run: "?last p w = (x, w')" and P: "P w"
    let ?spec = "\<lparr>ss_provider = or_else (rq_provider r) DEFAULT_CHILD_PROVIDER, ss_label = rq_label r,
              ss_childId = rq_childId r, ss_prompt = rq_prompt r, ss_parent = p, ss_agentPreset = LOCUS_CHILD_PRESET\<rparr>"
    obtain a w1 where a: "pt_start pt ?spec w = (a, w1)" by fastforce
    have "P (snd (pt_start pt ?spec w))" using st p P unfolding starts_keep_def by simp
    then have P1: "P w1" by (simp add: a)
    show "P w'"
    proof (cases a)
      case (Inl e)
      then show ?thesis using run a keeps_underD [OF start_refused_keeps [OF rel p] _ P1] by simp
    next
      case (Inr av)
      have "P (releaseUnpublishedChild pt p (rq_childId r) w1)"
        using release_unpublished_keeps [OF rel _ P1, of p] p by simp
      then show ?thesis using run a Inr P1 b by (auto simp: Let_def split: if_splits)
    qed
  qed
  show ?thesis
    unfolding startChild_def
    by (intro keeps_under_bind fences_keep keeps_bind_with [OF resolveParent_keeps [OF res]] last)
      (rule resolveParent_id)
qed

lemma createChild_keeps:
  assumes b: "blind P" and res: "resumes_keep P pt (rq_parent r)" and st: "starts_keep P pt r"
    and rel: "releases_keep P pt \<lparr>ci_parent = rq_parent r, ci_child = rq_childId r\<rparr>"
  shows "keeps_under P (createChild pt aborted r)"
proof (rule keeps_underI)
  fix w x w' assume run: "createChild pt aborted r w = (x, w')" and P: "P w"
  have k: "keeps_under P (eff_bind (runReservedCreate pt aborted r) (\<lambda>x. eff_return (Some x)))"
    unfolding runReservedCreate_def
    by (intro keeps_under_bind keeps_under_finally fences_keep startChild_keeps assms keeps_under_pure) (use b in simp)
  obtain v w1 where v: "reserveCreate aborted r w = (v, w1)" by fastforce
  have P1: "P w1" using v P b by (auto simp: reserveCreate_def split: if_splits option.splits)
  show "P w'"
    using run P P1 keeps_underD [OF k _ P1] v by (auto simp: createChild_def split: if_splits create_reservation.splits)
qed

subsection \<open>Prompts and compensation\<close>

lemma queue_keeps:
  assumes b: "blind P" and res: "resumes_keep P pt (ci_parent i)" and q: "queues_keep P pt i content"
    and f: "\<And>f w. authorize = Some f \<Longrightarrow> P w \<Longrightarrow> P (snd (f w))"
  shows "keeps_under P (queuePrompt pt aborted content (Some i) authorize)"
proof -
  have port: "keeps_under P (\<lambda>w. case queue p (ci_child i) content w of
               (Inl e, w') \<Rightarrow> (Inl (queue_error e), w') | (Inr m, w') \<Rightarrow> (Inr m, w'))"
    if "pt_queuePrompt pt = Some queue" "pt_id pt p = Arg (ci_parent i)" for queue p
  proof (rule keeps_underI)
    fix w x w' assume run: "(case queue p (ci_child i) content w of
               (Inl e, w') \<Rightarrow> (Inl (queue_error e), w') | (Inr m, w') \<Rightarrow> (Inr m, w')) = (x, w')" and P: "P w"
    then have "w' = snd (queue p (ci_child i) content w)" by (auto split: prod.splits sum.splits)
    then show "P w'" using q that P unfolding queues_keep_def by blast
  qed
  have au: "keeps_under P (case authorize of None \<Rightarrow> eff_return ()
                     | Some f \<Rightarrow> (\<lambda>w. case f w of (ok, w') \<Rightarrow> eff_when ok ChildProofFailed w'))"
  proof (cases authorize)
    case (Some g)
    show ?thesis
    proof (rule keeps_underI)
      fix w x w' assume "(case authorize of None \<Rightarrow> eff_return ()
                     | Some f \<Rightarrow> (\<lambda>w. case f w of (ok, w') \<Rightarrow> eff_when ok ChildProofFailed w')) w = (x, w')" and "P w"
      moreover from this(1) have "w' = snd (g w)" by (auto simp: Some eff_when_def split: prod.splits if_splits)
      ultimately show "P w'" using f [OF Some] by simp
    qed
  qed (simp add: keeps_under_def)
  have tail: "keeps_under P (queuePrompt_locked pt aborted content (Some i) authorize)"
  proof (rule keeps_underI)
    fix w x w' assume run: "queuePrompt_locked pt aborted content (Some i) authorize w = (x, w')" and P: "P w"
    show "P w'"
    proof (cases "\<not> ad_disposed w \<and> map_option ac_identity (ad_active w) = Some i")
      case False
      then have "w' = w" using run
        by (auto simp: queuePrompt_locked_def eff_bind_def eff_when_def of_option_def split: if_splits option.splits)
      then show ?thesis using P by simp
    next
      case True
      then obtain a where a: "ad_active w = Some a" "ac_identity a = i" "\<not> ad_disposed w" by auto
      let ?rest = "eff_bind (resolveParent pt aborted (ci_parent i)) (\<lambda>p.
     eff_bind (refresh_active a p) (\<lambda>_.
       case pt_queuePrompt pt of
         None \<Rightarrow> eff_throw InboxUnavailable
       | Some queue \<Rightarrow>
           eff_bind (\<lambda>w. eff_when (\<not> aborted w) AbortedChild w) (\<lambda>_.
           eff_bind (case authorize of
                       None \<Rightarrow> eff_return ()
                     | Some f \<Rightarrow> (\<lambda>w. case f w of (ok, w') \<Rightarrow> eff_when ok ChildProofFailed w')) (\<lambda>_.
           eff_bind (\<lambda>w. case queue p (ci_child i) content w of
               (Inl e, w') \<Rightarrow> (Inl (queue_error e), w') | (Inr m, w') \<Rightarrow> (Inr m, w')) (\<lambda>m.
           eff_bind (open_and_wanted aborted) (\<lambda>_.
             case m of
               Arg j \<Rightarrow> if isIdentifier j then eff_return \<lparr>qd_messageId = j, qd_identity = i\<rparr>
                        else eff_throw InboxMessageIdInvalid
             | BadType \<Rightarrow> eff_throw InboxMessageIdInvalid))))))"
      have r: "?rest w = (x, w')" using run a(1,3) unfolding a(2) [symmetric]
        by (simp add: queuePrompt_locked_def eff_bind_def [of "\<lambda>w. eff_when (\<not> ad_disposed w) AdapterDisposed w"]
            eff_bind_def [of "eff_ask f" for f] eff_bind_def [of "eff_when b e" for b e] eff_when_def of_option_def)
      have "keeps_under P ?rest"
        by (intro keeps_bind_with [OF resolveParent_keeps [OF res]] keeps_under_bind fences_keep b au port
            keeps_option keeps_arg keeps_under_if keeps_under_pure resolveParent_id; assumption)
      then have "P (snd (?rest w))" using P unfolding keeps_under_def by blast
      then show ?thesis unfolding r by simp
    qed
  qed
  show ?thesis
    unfolding queuePrompt_def by (intro keeps_under_bind fences_keep tail keeps_under_pure)
qed

lemma keeps_ask: "(\<And>x. keeps_under P (f x)) \<Longrightarrow> keeps_under P (eff_bind (eff_ask g) f)"
  by (intro keeps_under_bind keeps_under_pure)

lemma compensate_keeps:
  assumes b: "blind P" and res: "\<And>j. resumes_keep P pt j" and rel: "\<And>j. releases_keep P pt j"
  shows "keeps_under P (compensateChild pt aborted identity)"
proof -
  have port: "keeps_under P (\<lambda>w. case release p (ci_child i) w of
       (returned, w') \<Rightarrow> (if returned then Inr () else Inl CompensationFailed, w'))"
    if "pt_release pt = Some release" "pt_id pt p = Arg (ci_parent i)" for release p and i :: child_identity
  proof (rule keeps_underI)
    fix w x w' assume run: "(case release p (ci_child i) w of
       (returned, w') \<Rightarrow> (if returned then Inr () else Inl CompensationFailed, w')) = (x, w')" and P: "P w"
    then have "w' = snd (release p (ci_child i) w)" by (auto split: prod.splits)
    then show "P w'" using rel [of i] that P unfolding releases_keep_def by blast
  qed
  have up: "keeps_under P (eff_update (\<lambda>w. w\<lparr>ad_active := None\<rparr>))" using b by (simp add: keeps_under_def)
  have locked: "keeps_under P (compensateChild_locked pt aborted identity)"
    unfolding compensateChild_locked_def
    by (intro keeps_under_bind keeps_bind_with [OF resolveParent_keeps [OF res]] fences_keep b up port
        keeps_option keeps_under_pure resolveParent_id; assumption)
  show ?thesis
    unfolding compensateChild_def active_transition_def
    by (intro keeps_under_bind fences_keep keeps_under_finally)
      (use locked b in \<open>auto simp: keeps_under_def\<close>)
qed

end
