(* ===== verification/PetCreationTheorems.thy ===== *)
theory PetCreationTheorems
  imports PetCreationRuns PetChildAdapterTheorems
begin

text \<open>
  A creation on the first message ends settled: the child is established, or the entry waits for another
  child, or its operation blocks the entry until recovery.
\<close>

subsection \<open>The runtime of the host\<close>

text \<open>
  The official runtime, as \<^verbatim>\<open>lazy-child.ts\<close> documents it: it may refuse a start, then it emits
  \<open>agent/created\<close> and waits for it, a rejection vetoes the start, and afterwards it lets the child take its
  first prompt and answers. What it does besides is \<open>hr_admit\<close> and \<open>hr_after\<close>.
\<close>

record ('p, 'h) host_runtime =
  hr_id :: "'p \<Rightarrow> jstr arg"
  hr_isArchived :: "(jstr \<Rightarrow> 'h world \<Rightarrow> unit + bool) option"
  hr_get :: "jstr \<Rightarrow> 'h world \<Rightarrow> unit + 'p option"
  hr_resume :: "jstr \<Rightarrow> 'h world \<Rightarrow> (unit + 'p option) \<times> 'h world"
  hr_admit :: "'p start_spec \<Rightarrow> 'h world \<Rightarrow> start_error option \<times> 'h world"
  hr_after :: "'p start_spec \<Rightarrow> 'h world \<Rightarrow> (start_error + activation) \<times> 'h world"
  hr_getProvider :: "(jstr \<Rightarrow> 'h world \<Rightarrow> unit + provider option) option"
  hr_release :: "('p \<Rightarrow> jstr \<Rightarrow> 'h world \<Rightarrow> bool \<times> 'h world) option"

definition official_start ::
  "'h surroundings \<Rightarrow> 'h composition_ports \<Rightarrow> (jstr \<Rightarrow> 'h \<Rightarrow> jstr option) \<Rightarrow>
     (nat \<Rightarrow> jstr \<Rightarrow> ('h world, creation_error, unit) eff) \<Rightarrow> ('p, 'h) host_runtime \<Rightarrow> 'p start_spec \<Rightarrow>
     'h world \<Rightarrow> (start_error + activation) \<times> 'h world" where
  "official_start su ports agentPreset publication hr spec w =
     (case hr_admit hr spec w of
        (Some e, w1) \<Rightarrow> (Inl e, w1)
      | (None, w1) \<Rightarrow>
          (case handleLocusAgentCreated su ports agentPreset publication (ss_childId spec) w1 of
             (Inl _, w2) \<Rightarrow> (Inl OtherStartError, w2)
           | (Inr _, w2) \<Rightarrow> hr_after hr spec w2))"

definition on_more :: "('h world \<Rightarrow> 'a \<times> 'h world) \<Rightarrow> ('p, 'h) creating \<Rightarrow> 'a \<times> ('p, 'h) creating" where
  "on_more f s = (case f (adapter.more s) of (r, w) \<Rightarrow> (r, adapter.more_update (\<lambda>_. w) s))"

definition official_runtime ::
  "'h surroundings \<Rightarrow> 'h composition_ports \<Rightarrow> (jstr \<Rightarrow> 'h \<Rightarrow> jstr option) \<Rightarrow>
     (nat \<Rightarrow> jstr \<Rightarrow> ('h world, creation_error, unit) eff) \<Rightarrow> ('p, 'h) host_runtime \<Rightarrow> nat \<Rightarrow>
     (jstr \<Rightarrow> ('h world, creation_error, unit) eff) \<Rightarrow> ('p, ('p, 'h) creating) child_ports" where
  "official_runtime su ports agentPreset other hr n f =
     \<lparr>pt_id = hr_id hr,
      pt_isArchived = map_option (\<lambda>g i s. g i (adapter.more s)) (hr_isArchived hr),
      pt_get = (\<lambda>i s. hr_get hr i (adapter.more s)),
      pt_resume = (\<lambda>i. on_more (hr_resume hr i)),
      pt_start = (\<lambda>spec. on_more (official_start su ports agentPreset (\<lambda>k. if k = n then f else other k) hr spec)),
      pt_getProvider = map_option (\<lambda>g i s. g i (adapter.more s)) (hr_getProvider hr),
      pt_queuePrompt = None,
      pt_hasCompensation = (hr_release hr \<noteq> None),
      pt_release = map_option (\<lambda>g p c. on_more (g p c)) (hr_release hr),
      pt_findChild = None\<rparr>"

definition host_quiet :: "publication_input \<Rightarrow> ('p, 'h) host_runtime \<Rightarrow> bool" where
  "host_quiet i hr \<longleftrightarrow> (\<forall>s w. leaves_alone i w (snd (hr_resume hr s w))) \<and>
     (\<forall>spec w. leaves_alone i w (snd (hr_admit hr spec w)) \<and> leaves_alone i w (snd (hr_after hr spec w))) \<and>
     (\<forall>f p c w. hr_release hr = Some f \<longrightarrow> leaves_alone i w (snd (f p c w)))"

subsection \<open>What the callbacks of the publication leave\<close>

definition safe :: "publication_input \<Rightarrow> repository \<Rightarrow> bool" where
  "safe i rp \<longleftrightarrow> entry_resting i rp \<or> entry_blocked i rp"

lemma safe_same: "same_entry i rp rp' \<Longrightarrow> safe i rp \<Longrightarrow> safe i rp'"
  unfolding safe_def by (auto dest: same_phases)

lemma holds_safe: "holds i w \<Longrightarrow> safe i (wd_rp w)"
  unfolding holds_def safe_def by (auto split: if_splits dest: published_blocks)

lemma revert_run:
  assumes run: "revert_as su i ex form w = (r, w')" and q: "quiet i su" and form: "form \<noteq> RecoveryDebt"
    and e: "ex = Some (pi_executionId i) \<and> (entry_resting i (wd_rp w) \<or> child_published i (wd_rp w)) \<or>
      ex = None \<and> entry_resting i (wd_rp w)"
  shows "case r of Inr u \<Rightarrow> entry_resting i (wd_rp w') | Inl x \<Rightarrow> same_entry i (wd_rp w) (wd_rp w')"
proof -
  from run have "durable su (\<lambda>w rp. revertFirstDelivery (identity_at i w) ex form (Some (su_reserveChildSessionId su w))) w = (r, w')"
    using form by (simp add: revert_as_def)
  from this q show ?thesis
  proof (cases rule: durable_cases)
    case (1 e)
    then show ?thesis by (simp add: leaves_alone_def)
  next
    case (2 x rp1 rp2 commits)
    have "ex = Some (pi_executionId i) \<and> (entry_resting i rp1 \<or> child_published i rp1) \<or> ex = None \<and> entry_resting i rp1"
      using e same_phases(1,2) [OF 2(2)] by blast
    from same_phases(1) [OF 2(4) revert_phase [OF 2(3) form this]] 2(1) show ?thesis by simp
  qed
qed

lemma debt_run:
  assumes run: "revert_as su i (Some (pi_executionId i)) RecoveryDebt w = (r, w')" and q: "quiet i su"
    and e: "entry_resting i (wd_rp w) \<or> child_published i (wd_rp w)"
  shows "safe i (wd_rp w')"
proof -
  from run have "durable su (\<lambda>w rp. revertFirstDelivery (identity_at i w) (Some (pi_executionId i)) RecoveryDebt None) w = (r, w')"
    by (simp add: revert_as_def)
  from this q show ?thesis
  proof (cases rule: durable_cases)
    case (1 x)
    then show ?thesis using e safe_same published_blocks unfolding leaves_alone_def safe_def by blast
  next
    case (2 x rp1 rp2 commits)
    have "entry_resting i rp1 \<or> child_published i rp1" using e same_phases(1,2) [OF 2(2)] by blast
    from same_phases(4) [OF 2(4) debt_phase [OF 2(3) this]] show ?thesis by (simp add: safe_def)
  qed
qed

lemma holds_phases: "holds i w \<Longrightarrow> entry_resting i (wd_rp w) \<or> child_published i (wd_rp w)"
  unfolding holds_def by (auto split: if_splits)

lemma unpublish_run:
  assumes run: "unpublish_first su i child w = (r, w')" and q: "quiet i su" and h: "holds i w"
  shows "case r of Inr u \<Rightarrow> entry_resting i (wd_rp w') | Inl x \<Rightarrow> safe i (wd_rp w')"
proof -
  from run have r: "revert_as su i (Some (pi_executionId i)) RevertDefault (retire child w) = (r, w')"
    by (simp add: unpublish_first_def)
  have "same_entry i (wd_rp w) (wd_rp w') \<Longrightarrow> safe i (wd_rp w')" using holds_safe [OF h] by (rule safe_same [rotated])
  then show ?thesis using revert_run [OF r q] holds_phases [OF h] by (auto split: sum.splits)
qed

lemma recoveryDebt_run:
  assumes run: "recoveryDebt_first su i child w = (r, w')" and q: "quiet i su" and h: "holds i w"
  shows "safe i (wd_rp w')"
proof (rule debt_run [OF _ q])
  show "revert_as su i (Some (pi_executionId i)) RecoveryDebt (retire child w) = (r, w')"
    using run by (simp add: recoveryDebt_first_def)
  show "entry_resting i (wd_rp (retire child w)) \<or> child_published i (wd_rp (retire child w))"
    using holds_phases [OF h] by simp
qed

lemma failed_run:
  assumes run: "failed_first su i w = (r, w')" and q: "quiet i su" and h: "entry_resting i (wd_rp w)"
  shows "entry_resting i (wd_rp w')"
proof -
  from run have "durable su (\<lambda>w rp. failFirstDeliveryCreation (identity_at i w) (su_reserveChildSessionId su w)) w = (r, w')"
    by (simp add: failed_first_def)
  from this q show ?thesis
  proof (cases rule: durable_cases)
    case (1 x)
    then show ?thesis using h same_phases(1) unfolding leaves_alone_def by blast
  next
    case (2 x rp1 rp2 commits)
    show ?thesis by (rule same_phases(1) [OF 2(4) fail_phase [OF 2(3) same_phases(1) [OF 2(2) h]]])
  qed
qed

lemma retryText_run:
  assumes run: "retryText_first su i child w = (r, w')" and q: "quiet i su" and h: "holds i w"
  shows "case r of Inr u \<Rightarrow> entry_resting i (wd_rp w') | Inl x \<Rightarrow> safe i (wd_rp w')"
proof (cases "claimedMessageId child (wd_prompts w) = None")
  case False
  obtain a w1 where a: "revert_as su i (Some (pi_executionId i)) RevertDefault (retire child w) = (a, w1)" by fastforce
  from run False a have "r = (case a of Inl e \<Rightarrow> Inl e | Inr _ \<Rightarrow> Inl ClaimedPromptNotRetried)" "w' = w1"
    by (auto simp: retryText_first_def eff_bind_def split: sum.splits)
  moreover have "case a of Inr u \<Rightarrow> entry_resting i (wd_rp w1) | Inl x \<Rightarrow> same_entry i (wd_rp w) (wd_rp w1)"
    using revert_run [OF a q] holds_phases [OF h] by (simp cong: sum.case_cong)
  ultimately show ?thesis using safe_same [OF _ holds_safe [OF h]] by (auto simp: safe_def split: sum.splits)
next
  case True
  let ?ex = "if wd_issued w then Some (pi_executionId i) else None"
  obtain a w1 where a: "revert_as su i ?ex RetryText w = (a, w1)" by fastforce
  have e: "?ex = Some (pi_executionId i) \<and> (entry_resting i (wd_rp w) \<or> child_published i (wd_rp w)) \<or>
      ?ex = None \<and> entry_resting i (wd_rp w)"
    using h unfolding holds_def by (auto split: if_splits)
  have p: "case a of Inr u \<Rightarrow> entry_resting i (wd_rp w1) | Inl x \<Rightarrow> same_entry i (wd_rp w) (wd_rp w1)"
    using revert_run [OF a q _ e] by simp
  show ?thesis
  proof (cases a)
    case (Inr u)
    then have "r = Inr u" "w' = retire child w1"
      using run True a by (simp_all add: retryText_first_def eff_finally_def eff_catch_def)
    then show ?thesis using p Inr by simp
  next
    case (Inl x)
    obtain b w2 where b: "revert_as su i (Some (pi_executionId i)) RecoveryDebt w1 = (b, w2)" by fastforce
    have r: "r = Inl x" "w' = retire child w2"
      using run True a Inl b
      by (cases b; simp add: retryText_first_def eff_finally_def eff_catch_def eff_bind_def)+
    have "entry_resting i (wd_rp w1) \<or> child_published i (wd_rp w1)"
      using holds_phases [OF h] p Inl by (auto dest: same_phases)
    from debt_run [OF b q this] r show ?thesis by simp
  qed
qed

text \<open>The binding of the first prompt writes deliveries only.\<close>

lemma ledger_same:
  assumes run: "mutate commits (applyDelivery f) rp = (Inr x, rp')" and t: "own_row i rp P"
  shows "same_entry i rp rp'"
proof -
  from t have t': "tidy (stage rp)" by (auto simp: own_row_def entry_in_def)
  have k: "applyDelivery f sg = Inr (x, sg') \<Longrightarrow> keeps sg sg' \<and> staged_get tb_loci sg' = staged_get tb_loci sg \<and>
      staged_get tb_operations sg' = staged_get tb_operations sg" for sg sg'
    by (auto simp: applyDelivery_def ok_iff split: option.splits if_splits dest: put_keeps put_delivery_effect)
  obtain sg where b: "applyDelivery f (stage rp) = Inr (x, sg)"
    and v: "staged_get tb_loci (stage rp') = staged_get tb_loci sg"
      "map_of (tb_operations (rp_tables rp')) = staged_get tb_operations sg" "wf_staged (stage rp')"
    by (rule mutate_entry [OF run _ conjunct1 [OF k]]) (use t' in \<open>simp add: tidy_def\<close>, assumption, erule (3) that)
  have "map_of (loci_of rp') = map_of (loci_of rp)" using v(1) k [OF b] by simp
  moreover have "op_of i rp' = op_of i rp" using v(2) k [OF b] by (simp add: op_of_def)
  moreover have "tidy (stage rp')" using t' v k [OF b] unfolding tidy_def by simp
  ultimately show ?thesis unfolding same_entry_def by simp
qed

lemma await_bound_run:
  assumes run: "await_bound su child w = (r, w')" and q: "quiet i su" and h: "own_row i (wd_rp w) P"
  shows "leaves_alone i w w'"
proof -
  have refl: "leaves_alone i w w" by (simp add: leaves_alone_def same_entry_def same_flags_def)
  have bind: "leaves_alone i w w1" if b: "run_binding su child w = (x, w1)" for x w1
  proof (cases "w1 = w")
    case False
    from b False obtain body d w2 pr where d: "durable su (\<lambda>_ _. applyDelivery body) w = (d, w2)" and w1: "w1 = w2\<lparr>wd_prompts := pr\<rparr>"
      by (auto simp: run_binding_def Let_def bindQueued_row_def split: option.splits binding.splits prod.splits)
    from d q have "leaves_alone i w w2"
    proof (cases rule: durable_cases)
      case (2 x rp1 rp2 commits)
      have "same_entry i rp1 rp2" by (rule ledger_same [OF 2(3) same_own_row [OF 2(2) h]])
      with 2 show ?thesis unfolding leaves_alone_def by (blast intro: same_entry_trans)
    qed
    then show ?thesis by (simp add: w1 leaves_alone_def same_flags_def)
  qed (use refl in simp)
  obtain x w1 where b: "run_binding su child w = (x, w1)" by fastforce
  have "w' = w \<or> w' = w1"
    using run b by (auto simp: await_bound_def eff_bind_def split: bound_wait.splits sum.splits)
  then show ?thesis using refl bind [OF b] by blast
qed

lemma commit_run:
  assumes run: "commit_first su i child w = (r, w')" and q: "quiet i su" and h: "child_published i (wd_rp w)"
  shows "case r of Inr u \<Rightarrow> child_established i (wd_rp w') | Inl x \<Rightarrow> leaves_alone i w w'"
proof -
  obtain a w1 where a: "await_bound su child w = (a, w1)" by fastforce
  have "own_row i (wd_rp w) (published_row i)" using h by (simp add: child_published_def)
  from await_bound_run [OF a q this] have la: "leaves_alone i w w1" .
  show ?thesis
  proof (cases a)
    case (Inl e)
    then show ?thesis using run a la by (auto simp: commit_first_def)
  next
    case (Inr u)
    obtain d w2 where d: "durable su (\<lambda>w rp. commitFirstDelivery (pi_executionId i) (wd_now w)) w1 = (d, w2)" by fastforce
    have r: "case d of Inl e \<Rightarrow> r = Inl e \<and> w' = w2 | Inr v \<Rightarrow> r = Inr () \<and> w' = retire child w2"
      using run a Inr d by (auto simp: commit_first_def eff_bind_def split: sum.splits)
    from d q show ?thesis
    proof (cases rule: durable_cases)
      case (1 e)
      then show ?thesis using r la same_entry_trans same_flags_trans unfolding leaves_alone_def by auto
    next
      case (2 x rp1 rp2 commits)
      have "child_published i rp1"
        using same_phases(2) [OF 2(2)] same_phases(2) h la unfolding leaves_alone_def by blast
      from same_phases(3) [OF 2(4) commit_phase [OF 2(3) this]] r 2(1) show ?thesis by simp
    qed
  qed
qed

subsection \<open>The creation as a whole\<close>

definition closed_under :: "publication_input \<Rightarrow> (repository \<Rightarrow> bool) \<Rightarrow> bool" where
  "closed_under i R \<longleftrightarrow> (\<forall>rp rp'. same_entry i rp rp' \<longrightarrow> R rp \<longrightarrow> R rp')"

lemma closed_phases: "closed_under i (entry_resting i)" "closed_under i (safe i)"
  unfolding closed_under_def using same_phases(1) safe_same by blast+

lemma on_more_run: "on_more f s = (r, s') \<Longrightarrow> \<exists>w. f (adapter.more s) = (r, w) \<and> adapter.more s' = w"
  by (auto simp: on_more_def split: prod.splits)

lemma in_world_run: "in_world m s = (r, s') \<Longrightarrow> \<exists>w. m (adapter.more s) = (r, w) \<and> adapter.more s' = w"
  by (auto simp: in_world_def eff_zoom_def map_sum.id split: prod.splits)

lemma tried_run:
  assumes "tried m s = (r, s')"
  shows "(m = None \<and> r = Inr True \<and> s' = s) \<or>
    (\<exists>f a w. m = Some f \<and> f (adapter.more s) = (a, w) \<and> adapter.more s' = w \<and> r = Inr (\<not> isl a))"
proof (cases m)
  case (Some f)
  obtain a t where a: "in_world f s = (a, t)" by fastforce
  from in_world_run [OF a] assms Some a show ?thesis
    by (cases a) (auto simp: tried_def eff_catch_def eff_bind_def)
qed (use assms in \<open>simp add: tried_def\<close>)

lemma blind_more [simp, intro!]: "blind (\<lambda>s. R (adapter.more s))"
  by (simp add: blind_def)

lemma on_more_keeps:
  assumes "\<And>w. R w \<Longrightarrow> R (snd (f w))" and "R (adapter.more s)"
  shows "R (adapter.more (snd (on_more f s)))"
  using assms by (simp add: on_more_def split: prod.splits) (metis snd_conv)

lemma host_calls_keep:
  assumes host: "host_quiet i hr" and R: "\<And>w w'. leaves_alone i w w' \<Longrightarrow> R w \<Longrightarrow> R w'"
  shows "resumes_keep (\<lambda>s. R (adapter.more s)) (official_runtime su ports agentPreset other hr n f) j"
    "releases_keep (\<lambda>s. R (adapter.more s)) (official_runtime su ports agentPreset other hr n f) ci"
proof -
  have "R (snd (hr_resume hr j w))" if "R w" for w
    using R [OF _ that] host unfolding host_quiet_def by blast
  then show "resumes_keep (\<lambda>s. R (adapter.more s)) (official_runtime su ports agentPreset other hr n f) j"
    unfolding resumes_keep_def official_runtime_def by (auto intro: on_more_keeps)
  have "R (snd (g p c w))" if "hr_release hr = Some g" "R w" for g p c w
    using R [OF _ that(2)] that(1) host unfolding host_quiet_def by blast
  then show "releases_keep (\<lambda>s. R (adapter.more s)) (official_runtime su ports agentPreset other hr n f) ci"
    unfolding releases_keep_def official_runtime_def by (auto intro: on_more_keeps)
qed

lemma official_start_keeps:
  assumes q: "quiet i su" and host: "host_quiet i hr" and p: "\<And>k c. keeps_under (holds i) (publication k c)"
    and h: "holds i w"
  shows "holds i (snd (official_start su ports agentPreset publication hr spec w))"
proof -
  obtain a w1 where a: "hr_admit hr spec w = (a, w1)" by fastforce
  have "leaves_alone i w (snd (hr_admit hr spec w))" using host unfolding host_quiet_def by blast
  then have w1: "holds i w1" using leaves_alone_holds h a by fastforce
  obtain b w2 where b: "handleLocusAgentCreated su ports agentPreset publication (ss_childId spec) w1 = (b, w2)" by fastforce
  have w2: "holds i w2" by (rule keeps_underD [OF agent_created_keeps [OF q p] b w1])
  have "leaves_alone i w2 (snd (hr_after hr spec w2))" using host unfolding host_quiet_def by blast
  then have "holds i (snd (hr_after hr spec w2))" using leaves_alone_holds w2 by blast
  then show ?thesis using w1 w2 by (auto simp: official_start_def a b split: option.splits sum.splits)
qed

lemma creating_child_keeps:
  assumes q: "quiet i su" and host: "host_quiet i hr" and other: "\<And>k c w. leaves_alone i w (snd (other k c w))"
  shows "keeps_under (\<lambda>s. holds i (adapter.more s))
    (createChild (official_runtime su ports agentPreset other hr n (registered_publication (first_delivery_callbacks su i))) aborted r)"
proof -
  let ?f = "registered_publication (first_delivery_callbacks su i)"
  have pub: "keeps_under (holds i) (if k = n then ?f c else other k c)" for k c
  proof (cases "k = n")
    case False
    have "holds i w \<Longrightarrow> holds i (snd (other k c w))" for w using leaves_alone_holds other by blast
    then show ?thesis using False by (simp add: keeps_under_def)
  qed (simp add: registered_keeps [OF q])
  have pub': "keeps_under (holds i) ((\<lambda>k. if k = n then ?f else other k) k c)" for k c
    using pub [of k c] by (simp split: if_splits)
  have "holds i (snd (official_start su ports agentPreset (\<lambda>k. if k = n then ?f else other k) hr spec w))"
    if "holds i w" for spec w by (rule official_start_keeps [OF q host pub' that])
  then have st: "starts_keep (\<lambda>s. holds i (adapter.more s)) (official_runtime su ports agentPreset other hr n ?f) r"
    unfolding starts_keep_def official_runtime_def by (auto intro: on_more_keeps)
  show ?thesis
    by (intro createChild_keeps blind_more st host_calls_keep [where i = i] host) (erule (1) leaves_alone_holds)+
qed

lemma compensating_keeps:
  assumes host: "host_quiet i hr" and R: "closed_under i R"
  shows "keeps_under (\<lambda>s. R (wd_rp (adapter.more s)))
    (compensateChild (official_runtime su ports agentPreset other hr n f) aborted identity)"
proof -
  have r: "R (wd_rp w')" if "leaves_alone i w w'" "R (wd_rp w)" for w w' :: "'b world"
    using R that unfolding closed_under_def leaves_alone_def by blast
  show ?thesis
    by (intro compensate_keeps blind_more [where R = "\<lambda>w. R (wd_rp w)"]
        host_calls_keep [where i = i and R = "\<lambda>w. R (wd_rp w)"] host) (erule (1) r)+
qed

lemma unwind_run:
  assumes run: "unwind (first_delivery_callbacks su i) (official_runtime su ports agentPreset other hr n f) n child release retry s = (r, s')"
    and q: "quiet i su" and host: "host_quiet i hr" and h: "holds i (adapter.more s)"
  shows "case r of Inl e \<Rightarrow> safe i (wd_rp (adapter.more s'))
    | Inr clean \<Rightarrow> if clean then entry_resting i (wd_rp (adapter.more s')) else safe i (wd_rp (adapter.more s'))"
proof -
  let ?cb = "first_delivery_callbacks su i" and ?pt = "official_runtime su ports agentPreset other hr n f"
  let ?m = "if retry then map_option (\<lambda>f. f child) (cb_retryText ?cb)
            else if wd_published (adapter.more s) then Some (cb_unpublish ?cb child) else None"
  obtain a s1 where a: "tried ?m s = (a, s1)" by fastforce
  have first: "\<exists>reverted. a = Inr reverted \<and> (if reverted then entry_resting i (wd_rp (adapter.more s1)) else safe i (wd_rp (adapter.more s1)))"
  proof (cases "?m = None")
    case True
    then have "\<not> wd_published (adapter.more s)" by (auto simp: first_delivery_callbacks_def split: if_splits)
    with h have "entry_resting i (wd_rp (adapter.more s))" by (simp add: holds_def)
    then show ?thesis using tried_run [OF a] True by auto
  next
    case False
    then obtain g where g: "?m = Some g" by blast
    with tried_run [OF a] obtain x w where x: "g (adapter.more s) = (x, w)" "adapter.more s1 = w" "a = Inr (\<not> isl x)" by auto
    have "case x of Inr u \<Rightarrow> entry_resting i (wd_rp w) | Inl x \<Rightarrow> safe i (wd_rp w)"
    proof (cases retry)
      case True
      with g x(1) have "retryText_first su i child (adapter.more s) = (x, w)" by (auto simp: first_delivery_callbacks_def)
      then show ?thesis by (rule retryText_run [OF _ q h])
    next
      case False
      with g x(1) have "unpublish_first su i child (adapter.more s) = (x, w)"
        by (auto simp: first_delivery_callbacks_def split: if_splits)
      then show ?thesis by (rule unpublish_run [OF _ q h])
    qed
    then show ?thesis using x by (intro exI [of _ "\<not> isl x"]) (cases x; simp)
  qed
  then obtain reverted where rev: "a = Inr reverted"
    and after: "if reverted then entry_resting i (wd_rp (adapter.more s1)) else safe i (wd_rp (adapter.more s1))" by blast
  define R where "R = (if reverted then entry_resting i else safe i)"
  have R: "closed_under i R" using closed_phases by (simp add: R_def)
  let ?R = "\<lambda>s. R (wd_rp (adapter.more s))"
  have k1: "keeps_under ?R (if reverted then in_world (eff_update (\<lambda>w. w\<lparr>wd_published := False\<rparr>)) else eff_return ())"
    by (auto simp: keeps_under_def in_world_def eff_zoom_def)
  have k2: "keeps_under ?R (if release
               then (\<lambda>s. case compensateChild ?pt (\<lambda>_. False) None s of
                           (Inl _, s') \<Rightarrow> (Inr False, s') | (Inr _, s') \<Rightarrow> (Inr True, s'))
               else eff_return True)"
  proof (cases release)
    case True
    show ?thesis
    proof (rule keeps_underI)
      fix s x s' assume c: "(if release
               then (\<lambda>s. case compensateChild ?pt (\<lambda>_. False) None s of
                           (Inl _, s') \<Rightarrow> (Inr False, s') | (Inr _, s') \<Rightarrow> (Inr True, s'))
               else eff_return True) s = (x, s')" and P: "?R s"
      from c True obtain y where "compensateChild ?pt (\<lambda>_. False) None s = (y, s')" by (auto split: prod.splits sum.splits)
      from keeps_underD [OF compensating_keeps [OF host R] this P] show "?R s'" .
    qed
  qed (simp add: keeps_under_def)
  have st: "keeps_under ?R (in_world (\<lambda>w. on_staging (m w) w))" for m
  proof (rule keeps_underI)
    fix s x s' assume c: "in_world (\<lambda>w. on_staging (m w) w) s = (x, s')" and P: "?R s"
    from in_world_run [OF c] P show "?R s'" by (auto dest: on_staging_sel)
  qed
  have k3: "keeps_under ?R (if snapshot = None then eff_return ()
               else eff_catch (in_world (\<lambda>w. on_staging (abort_staged (wd_now w) n) w)) (\<lambda>_. eff_return ()))" for snapshot :: "staging_snapshot option"
    by (intro keeps_under_if keeps_under_catch keeps_under_pure st)
  have k4: "keeps_under ?R (eff_update dispose_adapter)" by (simp add: keeps_under_def dispose_adapter_def)
  obtain b s2 where b: "(if reverted then in_world (eff_update (\<lambda>w. w\<lparr>wd_published := False\<rparr>)) else eff_return ()) s1 = (b, s2)" by fastforce
  have bi: "b = Inr ()" using b by (auto simp: in_world_def eff_zoom_def split: if_splits)
  have s1: "?R s1" using after by (simp add: R_def split: if_splits)
  have s2: "?R s2" by (rule keeps_underD [OF k1 b s1])
  let ?rest = "eff_bind (if release
               then (\<lambda>s. case compensateChild ?pt (\<lambda>_. False) None s of
                           (Inl _, s') \<Rightarrow> (Inr False, s') | (Inr _, s') \<Rightarrow> (Inr True, s'))
               else eff_return True) (\<lambda>released.
     eff_bind (in_world (\<lambda>w. on_staging (inspect (wd_now w) child) w)) (\<lambda>snapshot.
     eff_bind (if snapshot = None then eff_return ()
               else eff_catch (in_world (\<lambda>w. on_staging (abort_staged (wd_now w) n) w)) (\<lambda>_. eff_return ())) (\<lambda>_.
     eff_bind (eff_update dispose_adapter) (\<lambda>_.
       eff_return (reverted \<and> released)))))"
  have tail: "?rest s2 = (r, s')"
    using run a rev b bi by (simp add: unwind_def)
  have "keeps_under ?R ?rest" by (intro keeps_under_bind k2 k3 k4 st keeps_under_pure)
  from keeps_underD [OF this tail s2] have fin: "?R s'" .
  have "clean \<Longrightarrow> reverted" if "r = Inr clean" for clean
    using tail that by (auto simp: eff_bind_ok)
  then show ?thesis using fin by (cases r) (auto simp: R_def safe_def split: if_splits)
qed

end
