(* ===== verification/PetCreationSettles.thy ===== *)
theory PetCreationSettles
  imports PetCreationTheorems PetReconcileTheorems
begin

text \<open>
  Every way a creation on the first message can end: the child is established, the entry waits for another
  child, or its operation blocks the entry until recovery; and the creation reports which.
\<close>

definition settled :: "publication_input \<Rightarrow> creation_error + lazy_result \<Rightarrow> repository \<Rightarrow> bool" where
  "settled i r rp \<longleftrightarrow>
     (case r of
        Inr (LazyCreated child messageId) \<Rightarrow> child_established i rp
      | Inr (LazyFailed reason retryable) \<Rightarrow> if reason = LazyRollbackFailed then safe i rp else entry_resting i rp
      | Inl e \<Rightarrow> safe i rp)"

lemma settledI:
  "safe i rp \<Longrightarrow> settled i (Inl e) rp"
  "safe i rp \<Longrightarrow> settled i (Inr (LazyFailed LazyRollbackFailed b)) rp"
  "child_established i rp \<Longrightarrow> settled i (Inr (LazyCreated c m)) rp"
  by (simp_all add: settled_def)

lemma resting_settles: "entry_resting i rp \<Longrightarrow> settled i (Inr (LazyFailed reason b)) rp"
  by (simp add: settled_def safe_def)

text \<open>One step of a run, taken by rewriting.\<close>

lemma bind_step: "eff_bind m f s = p \<Longrightarrow> m s = (Inr x, t) \<Longrightarrow> f x t = p"
  by (simp add: eff_bind_def)

lemma bind_stop: "eff_bind m f s = p \<Longrightarrow> m s = (Inl e, t) \<Longrightarrow> p = (Inl e, t)"
  by (simp add: eff_bind_def)

lemma reason_settles: "entry_resting i rp \<Longrightarrow> settled i (Inr (lazy_reason_of retry e)) rp"
  by (cases e) (simp_all add: resting_settles lazy_reason_of_def)

lemma in_world_staging:
  assumes "in_world (\<lambda>w. on_staging (m w) w) s = (r, s')"
  shows "wd_rp (adapter.more s') = wd_rp (adapter.more s) \<and> same_flags (adapter.more s) (adapter.more s')"
  using in_world_run [OF assms] by (auto dest: on_staging_sel)

lemma disposing: "eff_update dispose_adapter s = (r, s') \<Longrightarrow> r = Inr () \<and> adapter.more s' = adapter.more s"
  by (auto simp: dispose_adapter_def)

lemma failing_run:
  assumes run: "tried (map_option (\<lambda>f. f child) (cb_failed (first_delivery_callbacks su i))) s = (a, s')"
    and q: "quiet i su" and h: "entry_resting i (wd_rp (adapter.more s))"
  shows "\<exists>b. a = Inr b \<and> entry_resting i (wd_rp (adapter.more s'))"
proof -
  have "map_option (\<lambda>f. f child) (cb_failed (first_delivery_callbacks su i)) = Some (failed_first su i)"
    by (simp add: first_delivery_callbacks_def)
  with tried_run [OF run] obtain x w where x: "failed_first su i (adapter.more s) = (x, w)"
    "adapter.more s' = w" "a = Inr (\<not> isl x)" by auto
  from failed_run [OF x(1) q h] x show ?thesis by simp
qed

lemma commit_tried:
  assumes run: "tried (map_option (\<lambda>f. f child) (cb_commit (first_delivery_callbacks su i))) s = (a, s')"
    and q: "quiet i su" and h: "child_published i (wd_rp (adapter.more s))"
  shows "(a = Inr True \<and> child_established i (wd_rp (adapter.more s'))) \<or>
    (a = Inr False \<and> leaves_alone i (adapter.more s) (adapter.more s'))"
proof -
  have "map_option (\<lambda>f. f child) (cb_commit (first_delivery_callbacks su i)) = Some (commit_first su i child)"
    by (simp add: first_delivery_callbacks_def)
  with tried_run [OF run] obtain x w where x: "commit_first su i child (adapter.more s) = (x, w)"
    "adapter.more s' = w" "a = Inr (\<not> isl x)" by auto
  from commit_run [OF x(1) q h] x show ?thesis by (cases x) simp_all
qed

lemma debt_tried:
  assumes run: "tried (map_option (\<lambda>f. f child) (cb_recoveryDebt (first_delivery_callbacks su i))) s = (a, s')"
    and q: "quiet i su" and h: "holds i (adapter.more s)"
  shows "\<exists>b. a = Inr b \<and> safe i (wd_rp (adapter.more s'))"
proof -
  have "map_option (\<lambda>f. f child) (cb_recoveryDebt (first_delivery_callbacks su i)) = Some (recoveryDebt_first su i child)"
    by (simp add: first_delivery_callbacks_def)
  with tried_run [OF run] obtain x w where x: "recoveryDebt_first su i child (adapter.more s) = (x, w)"
    "adapter.more s' = w" "a = Inr (\<not> isl x)" by auto
  from recoveryDebt_run [OF x(1) q h] x show ?thesis by simp
qed

lemma refused_settles:
  assumes run: "creation_refused (first_delivery_callbacks su i) (official_runtime su ports agentPreset other hr n f) n child e s = (r, s')"
    and q: "quiet i su" and host: "host_quiet i hr" and h: "holds i (adapter.more s)"
  shows "settled i r (wd_rp (adapter.more s'))"
proof (cases "e = ImageRouteCleanupUnproven")
  case True
  obtain a s1 where a: "tried (map_option (\<lambda>f. f child) (cb_recoveryDebt (first_delivery_callbacks su i))) s = (a, s1)" by fastforce
  from debt_tried [OF a q h] obtain b where b: "a = Inr b" "safe i (wd_rp (adapter.more s1))" by blast
  obtain c s2 where c: "in_world (\<lambda>w. on_staging (abort_staged (wd_now w) n) w) (dispose_adapter s1) = (c, s2)" by fastforce
  have "wd_rp (adapter.more s2) = wd_rp (adapter.more s1)"
    using in_world_staging [OF c] by (simp add: dispose_adapter_def)
  moreover have "s' = s2" "\<exists>x. r = Inl x \<or> r = Inr (LazyFailed LazyRollbackFailed False)"
    using run True a b(1) c by (auto simp: creation_refused_def eff_bind_def split: sum.splits)
  ultimately show ?thesis using b(2) by (auto intro: settledI)
next
  case False
  define retry where "retry = (e = ImageRouteUnsupported \<and> cb_retryText (first_delivery_callbacks su i) \<noteq> None)"
  note run' = run [unfolded creation_refused_def if_not_P [OF False] Let_def, folded retry_def]
  obtain a s1 where a: "unwind (first_delivery_callbacks su i) (official_runtime su ports agentPreset other hr n f) n child False retry s = (a, s1)"
    by fastforce
  note u = unwind_run [OF a q host h]
  show ?thesis
  proof (cases a)
    case (Inl x)
    from bind_stop [OF run' a [unfolded Inl]] have "r = Inl x" "s' = s1" by simp_all
    then show ?thesis using u Inl by (simp add: settledI)
  next
    case (Inr clean)
    note run2 = bind_step [OF run' a [unfolded Inr]]
    show ?thesis
    proof (cases clean)
      case False
      with run2 have "r = Inr (LazyFailed LazyRollbackFailed False)" "s' = s1" by simp_all
      then show ?thesis using u Inr False by (simp add: settledI)
    next
      case True
      with u Inr have rest: "entry_resting i (wd_rp (adapter.more s1))" by simp
      let ?m = "\<lambda>s. if e \<noteq> ChildCapacityExhausted \<and> \<not> retry \<and> \<not> wd_everPublished (adapter.more s)
        then tried (map_option (\<lambda>f. f child) (cb_failed (first_delivery_callbacks su i))) s else eff_return True s"
      obtain b s2 where b: "?m s1 = (b, s2)" by fastforce
      obtain x where x: "b = Inr x" "entry_resting i (wd_rp (adapter.more s2))"
        using b rest failing_run [OF _ q rest] by (auto split: if_splits)
      have "eff_bind ?m (\<lambda>settled. eff_return (if settled then lazy_reason_of retry e else LazyFailed LazyRollbackFailed False)) s1 = (r, s')"
        using run2 True by (simp only: not_True_eq_False if_False)
      from bind_step [OF this b [unfolded x(1)]]
      have "r = Inr (if x then lazy_reason_of retry e else LazyFailed LazyRollbackFailed False)" "s' = s2" by simp_all
      then show ?thesis using x(2) by (simp add: reason_settles resting_settles)
    qed
  qed
qed

lemma released_settles:
  assumes run: "eff_bind (unwind (first_delivery_callbacks su i) (official_runtime su ports agentPreset other hr n f) n child True False)
      (\<lambda>clean. eff_bind (\<lambda>s. if clean \<and> \<not> wd_everPublished (adapter.more s)
          then tried (map_option (\<lambda>f. f child) (cb_failed (first_delivery_callbacks su i))) s else eff_return clean s)
        (\<lambda>clean'. eff_return (LazyFailed (if clean' then LazyWithoutComposition else LazyRollbackFailed) False))) s = (r, s')"
    and q: "quiet i su" and host: "host_quiet i hr" and h: "holds i (adapter.more s)"
  shows "settled i r (wd_rp (adapter.more s'))"
proof -
  obtain a s1 where a: "unwind (first_delivery_callbacks su i) (official_runtime su ports agentPreset other hr n f) n child True False s = (a, s1)"
    by fastforce
  note u = unwind_run [OF a q host h]
  show ?thesis
  proof (cases a)
    case (Inl x)
    from bind_stop [OF run a [unfolded Inl]] have "r = Inl x" "s' = s1" by simp_all
    then show ?thesis using u Inl by (simp add: settledI)
  next
    case (Inr clean)
    let ?m = "\<lambda>s. if clean \<and> \<not> wd_everPublished (adapter.more s)
      then tried (map_option (\<lambda>f. f child) (cb_failed (first_delivery_callbacks su i))) s else eff_return clean s"
    obtain b s2 where b: "?m s1 = (b, s2)" by fastforce
    have "(clean \<and> (\<exists>x. b = Inr x \<and> entry_resting i (wd_rp (adapter.more s2)))) \<or> (\<not> clean \<and> b = Inr False \<and> s2 = s1)"
    proof (cases clean)
      case True
      with u Inr have rest: "entry_resting i (wd_rp (adapter.more s1))" by simp
      then show ?thesis using b True failing_run [OF _ q rest] by (auto split: if_splits)
    qed (use b in simp)
    then show ?thesis
    proof (elim disjE conjE exE)
      fix x assume x: "b = Inr x" "entry_resting i (wd_rp (adapter.more s2))"
      from bind_step [OF bind_step [OF run a [unfolded Inr]] b [unfolded x(1)]]
      have "r = Inr (LazyFailed (if x then LazyWithoutComposition else LazyRollbackFailed) False)" "s' = s2" by simp_all
      then show ?thesis using x(2) by (auto intro: resting_settles)
    next
      assume x: "\<not> clean" "b = Inr False" "s2 = s1"
      from bind_step [OF bind_step [OF run a [unfolded Inr]] b [unfolded x(2)]]
      have "r = Inr (LazyFailed LazyRollbackFailed False)" "s' = s1" using x(3) by simp_all
      then show ?thesis using u Inr x(1) by (simp add: settledI)
    qed
  qed
qed

lemma accepted_settles:
  assumes run: "creation_accepted (first_delivery_callbacks su i) (official_runtime su ports agentPreset other hr n f) n child m s = (r, s')"
    and q: "quiet i su" and host: "host_quiet i hr" and h: "holds i (adapter.more s)"
  shows "settled i r (wd_rp (adapter.more s'))"
proof -
  let ?cb = "first_delivery_callbacks su i" and ?pt = "official_runtime su ports agentPreset other hr n f"
  let ?look = "\<lambda>s. if wd_published (adapter.more s)
    then in_world (\<lambda>w. on_staging (inspect (wd_now w) child) w) s else eff_return None s"
  obtain v s1 where v: "?look s = (v, s1)" by fastforce
  have "wd_rp (adapter.more s1) = wd_rp (adapter.more s)" "same_flags (adapter.more s) (adapter.more s1)"
    using v by (auto simp: same_flags_def split: if_splits dest!: in_world_staging)
  then have h1: "holds i (adapter.more s1)" using h same_world_holds by blast
  note run' = run [unfolded creation_accepted_def]
  show ?thesis
  proof (cases v)
    case (Inl e)
    from bind_stop [OF run' v [unfolded Inl]] have "r = Inl e" "s' = s1" by simp_all
    then show ?thesis using holds_safe [OF h1] by (simp add: settledI)
  next
    case (Inr snapshot)
    note run1 = bind_step [OF run' v [unfolded Inr]]
    show ?thesis
    proof (cases "\<not> wd_published (adapter.more s1) \<or> snapshot \<noteq> None")
      case True
      note run2 = run1 [unfolded if_P [OF True]]
      from run2 q host h1 show ?thesis by (rule released_settles)
    next
      case False
      then have pub: "child_published i (wd_rp (adapter.more s1))" using h1 by (simp add: holds_def)
      note run2 = run1 [unfolded if_not_P [OF False]]
      obtain b s2 where b: "tried (map_option (\<lambda>f. f child) (cb_commit ?cb)) s1 = (b, s2)" by fastforce
      from commit_tried [OF b q pub] show ?thesis
      proof (elim disjE conjE)
        assume b': "b = Inr True" and e: "child_established i (wd_rp (adapter.more s2))"
        from bind_step [OF run2 b [unfolded b']]
        have "r = Inr (LazyCreated child m)" "s' = dispose_adapter s2" by (simp_all add: eff_bind_def)
        then show ?thesis using e by (simp add: dispose_adapter_def settledI)
      next
        assume b': "b = Inr False" and la: "leaves_alone i (adapter.more s1) (adapter.more s2)"
        obtain a s3 where a: "unwind ?cb ?pt n child True False s2 = (a, s3)" by fastforce
        note u = unwind_run [OF a q host leaves_alone_holds [OF la h1]]
        from bind_step [OF run2 b [unfolded b']]
        have run3: "eff_bind (unwind ?cb ?pt n child True False)
            (\<lambda>clean. eff_return (LazyFailed (if clean then LazyCreateFailed else LazyRollbackFailed) False)) s2 = (r, s')"
          by simp
        show ?thesis
        proof (cases a)
          case (Inl x)
          from bind_stop [OF run3 a [unfolded Inl]] have "r = Inl x" "s' = s3" by simp_all
          then show ?thesis using u Inl by (simp add: settledI)
        next
          case (Inr clean)
          from bind_step [OF run3 a [unfolded Inr]]
          have "r = Inr (LazyFailed (if clean then LazyCreateFailed else LazyRollbackFailed) False)" "s' = s3" by simp_all
          then show ?thesis using u Inr by (auto intro: settledI resting_settles split: if_splits)
        qed
      qed
    qed
  qed
qed

lemma creation_run:
  assumes run: "lazy_create (first_delivery_callbacks su i) (official_runtime su ports agentPreset other hr) aborted declared rid inp (w :: 'h world) = (r, w')"
    and q: "quiet i su" and host: "host_quiet i (hr :: ('p, 'h) host_runtime)" and other: "\<And>k c w. leaves_alone i w (snd (other k c w))"
    and rest: "entry_resting i (wd_rp w)"
  shows "settled i r (wd_rp w')"
proof (cases "aborted w \<or> declared \<noteq> Inr True")
  case True
  then have "\<exists>reason k. r = Inr (LazyFailed reason k)" "w' = w" using run by (auto simp: lazy_create_def split: if_splits)
  then show ?thesis using rest resting_settles by auto
next
  case False
  let ?cb = "first_delivery_callbacks su i"
  let ?res = "on_staging (reserve_child (wd_now w) [] rid
             \<lparr>si_sessionId = Some (la_sessionId inp), si_locusMainSessionId = la_locusMainSessionId inp,
              si_locusId = la_locusId inp, si_revision = la_revision inp, si_accessMode = la_accessMode inp,
              si_endpoint = la_endpoint inp\<rparr> True) w"
  obtain a w1 where a: "?res = (a, w1)" by fastforce
  have w1: "entry_resting i (wd_rp w1)" using on_staging_sel [OF a] rest by simp
  show ?thesis
  proof (cases a)
    case (Inl e)
    then have "r = Inl e" "w' = w1" using run False a by (simp_all add: lazy_create_def eff_bind_def)
    then show ?thesis using w1 by (simp add: settledI safe_def)
  next
    case (Inr p)
    obtain n rv where p: "p = (n, rv)" by (cases p)
    define child where "child = rv_childSessionId rv"
    define pt where "pt = official_runtime su ports agentPreset other hr n (registered_publication ?cb)"
    define s0 where "s0 = (\<lparr>ad_active = None, ad_createInFlight = None, ad_transitions = 0, ad_disposed = False,
      \<dots> = w1\<lparr>wd_issued := False, wd_published := False, wd_everPublished := False\<rparr>\<rparr> :: ('p, 'h) creating)"
    define ab where "ab = (\<lambda>s :: ('p, 'h) creating. aborted (adapter.more s))"
    define rq where "rq = \<lparr>rq_parent = la_locusMainSessionId inp, rq_label = la_label inp, rq_prompt = la_prompt inp,
                    rq_provider = None, rq_childId = child\<rparr>"
    obtain c s1 where c: "createChild pt ab rq s0 = (c, s1)" by fastforce
    have "holds i (adapter.more s0)" using w1 by (simp add: s0_def holds_def)
    with keeps_underD [OF creating_child_keeps [OF q host other] c [unfolded pt_def]]
    have h1: "holds i (adapter.more s1)" by blast
    obtain t where t: "(case c of Inl e \<Rightarrow> creation_refused ?cb pt n child e s1
        | Inr created \<Rightarrow> creation_accepted ?cb pt n child (case created of None \<Rightarrow> None | Some x \<Rightarrow> cr_messageId x) s1) = (r, t)"
      "w' = adapter.more t"
      using run False a Inr p c
      by (auto simp: lazy_create_def eff_bind_def with_adapter_def Let_def child_def pt_def s0_def ab_def rq_def
          split: prod.splits sum.splits)
    show ?thesis
    proof (cases c)
      case (Inl e)
      with t(1) have "creation_refused ?cb pt n child e s1 = (r, t)" by simp
      from refused_settles [OF this [unfolded pt_def] q host h1] t(2) show ?thesis by simp
    next
      case (Inr x)
      with t(1) have "creation_accepted ?cb pt n child (case x of None \<Rightarrow> None | Some x \<Rightarrow> cr_messageId x) s1 = (r, t)" by simp
      from accepted_settles [OF this [unfolded pt_def] q host h1] t(2) show ?thesis by simp
    qed
  qed
qed

text \<open>
  C30: A creation on the first message ends settled, whatever the host answers and at every interleaving with writers
  that leave this entry alone. The entry rests when the creation starts, and neither the other writers nor the host,
  while it resumes, admits, prompts and releases, change this entry, its provisioning operation or the flags of this
  creation; so writes to this very entry in between, such as a migration of its main session or a change of its
  access mode, are excluded. Reported as created, the child is committed to its row; reported as failed, the
  entry waits for another child with no operation of this creation open; only a failed rollback or a thrown
  error may leave the operation of this creation open, and that operation then blocks the entry.
\<close>

theorem creation_settles_the_entry:
  assumes "lazy_create (first_delivery_callbacks su i) (official_runtime su ports agentPreset other hr)
      aborted declared rid inp w = (r, w')"
    and "quiet i su" and "host_quiet i hr" and "\<And>k c v. leaves_alone i v (snd (other k c v))"
    and "entry_resting i (wd_rp w)"
  shows "case r of
      Inr (LazyCreated child messageId) \<Rightarrow> child_established i (wd_rp w')
    | Inr (LazyFailed reason retryable) \<Rightarrow>
        entry_resting i (wd_rp w') \<or> (reason = LazyRollbackFailed \<and> entry_blocked i (wd_rp w'))
    | Inl e \<Rightarrow> entry_resting i (wd_rp w') \<or> entry_blocked i (wd_rp w')"
  using creation_run [OF assms] unfolding settled_def safe_def
  by (auto split: sum.splits lazy_result.splits if_splits)

text \<open>A creation on the demonstration repository, whose group entry waits for its first child.\<close>

definition demo_creation :: publication_input where
  "demo_creation = \<lparr>pi_locusId = js ''g'', pi_sessionId = js ''sg'', pi_revision = 0, pi_endpoint = room,
     pi_deliveryId = js ''a'', pi_executionId = js ''x''\<rparr>"

definition demo_surroundings :: "demo_host surroundings" where
  "demo_surroundings = \<lparr>su_others = id, su_commits = (\<lambda>_. True), su_reserveChildSessionId = (\<lambda>_. allot),
     su_reasonOf = (\<lambda>_. js ''r'')\<rparr>"

definition demo_runtime :: "(jstr, demo_host) host_runtime" where
  "demo_runtime = \<lparr>hr_id = Arg, hr_isArchived = None, hr_get = (\<lambda>p _. Inr (Some p)), hr_resume = (\<lambda>p w. (Inr (Some p), w)),
     hr_admit = (\<lambda>_ w. (None, w)),
     hr_after = (\<lambda>spec w. (Inr \<lparr>av_childId = Arg (ss_childId spec), av_messageId = Arg (js ''p1'')\<rparr>,
       w\<lparr>wd_prompts := snd (resolve_prompt (ss_childId spec) (js ''p1'') (wd_prompts w))\<rparr>)),
     hr_getProvider = Some (\<lambda>_ _. Inr (Some \<lparr>pv_inheritsParentContext = Some False, pv_agentPreset = Some True\<rparr>)),
     hr_release = None\<rparr>"

definition demo_world :: "demo_host world" where
  "demo_world = \<lparr>wd_rp = rp6, wd_staging = (case new_staging None None of Inr s \<Rightarrow> s),
     wd_prompts = \<lparr>pr_expectations = [], pr_binds = False\<rparr>, wd_now = 30, wd_issued = False, wd_published = False,
     wd_everPublished = False, wd_host = (None, [js ''read'', js ''bash''])\<rparr>"

definition demo_request :: lazy_input where
  "demo_request = \<lparr>la_sessionId = js ''sg'', la_locusMainSessionId = js ''m'', la_locusId = js ''g'', la_revision = 0,
     la_accessMode = ReadOnly, la_label = js ''label'', la_endpoint = room, la_prompt = [TextBlock (js ''hi'')]\<rparr>"

definition demo_created :: "(creation_error + lazy_result) \<times> demo_host world" where
  "demo_created = lazy_create (first_delivery_callbacks demo_surroundings demo_creation)
     (official_runtime demo_surroundings demo_ports (\<lambda>_ _. Some (js ''locus-child'')) (\<lambda>_ _. eff_return ()) demo_runtime)
     (\<lambda>_. False) (Inr True) (js ''r1'') demo_request demo_world"

lemma repo_entry:
  assumes "repo_ok rp" and "map_of (loci_of rp) k = Some r"
  shows "entry_in (stage rp) (rw_locusId r) r"
proof -
  have t: "tidy (stage rp)" using assms(1) by (auto simp: tidy_def repo_ok_def set_ok_def rows_valid_def)
  have u: "ids_unique rw_locusId (map_of (loci_of rp))" using assms(1) by (simp add: repo_ok_def set_ok_def)
  have "r' = r" if "map_of (loci_of rp) k' = Some r'" "rw_locusId r' = rw_locusId r" for k' r'
    using u that assms(2) unfolding ids_unique_def by (metis option.inject)
  then show ?thesis using t assms(2) unfolding entry_in_def by (auto simp: ran_def)
qed

theorem creation_settles_the_entry_witness:
  "\<exists>w'. demo_created = (Inr (LazyCreated (js ''sg'') (Some (Arg (js ''p1'')))), w') \<and>
     child_established demo_creation (wd_rp w')"
proof -
  have "repo_step\<^sup>*\<^sup>* (fresh_repository True) rp3"
    by (meson demo_run rtranclp.rtrancl_refl rtranclp.rtrancl_into_rtrancl)
  moreover have "repo_step rp3 rp6" unfolding rp6_def claimCurrentDelivery_row_def by (rule ledger)
  ultimately have ok: "repo_ok rp6" using repo.run_inv [OF _ fresh_ok] rtranclp.rtrancl_into_rtrancl by metis
  have "map_option (\<lambda>r. (rw_locusId r, rw_state r)) (map_of (loci_of rp6) (js ''c'')) = Some (js ''g'', NotCreated)"
    by code_simp
  then obtain r where "map_of (loci_of rp6) (js ''c'') = Some r" and r: "rw_locusId r = js ''g''" "rw_state r = NotCreated"
    by auto
  from repo_entry [OF ok this(1)] r have "own_row demo_creation rp6 (\<lambda>r. rw_state r = NotCreated)"
    unfolding own_row_def demo_creation_def by (intro exI [of _ r]) simp
  moreover have "op_of demo_creation rp6 = None" by code_simp
  ultimately have rest: "entry_resting demo_creation (wd_rp demo_world)" by (simp add: entry_resting_def demo_world_def)
  have la: "leaves_alone demo_creation v v" "leaves_alone demo_creation v (v\<lparr>wd_prompts := p\<rparr>)"
    for v :: "demo_host world" and p by (simp_all add: leaves_alone_def same_entry_def same_flags_def)
  have q: "quiet demo_creation demo_surroundings" using la(1) by (simp add: quiet_def demo_surroundings_def)
  have h: "host_quiet demo_creation demo_runtime" using la by (simp add: host_quiet_def demo_runtime_def)
  obtain x w' where run: "demo_created = (x, w')" by fastforce
  have "fst demo_created = Inr (LazyCreated (js ''sg'') (Some (Arg (js ''p1''))))" by code_simp
  then have x: "x = Inr (LazyCreated (js ''sg'') (Some (Arg (js ''p1''))))" unfolding run fst_conv .
  from creation_settles_the_entry [OF run [unfolded demo_created_def] q h _ rest] la(1)
  have "child_established demo_creation (wd_rp w')" unfolding x by simp
  with run x show ?thesis by blast
qed

end
