(* ===== verification/JsonText.thy ===== *)
theory JsonText
  imports Canonical
begin

text \<open>
  The texts and bytes of a log line: UTF-8 as \<open>Buffer.from\<close> writes it and \<open>TextDecoder\<close> with \<open>fatal\<close> reads
  it, \<open>JSON.parse\<close>, and the round trips. A byte is a number below 256, a code unit one below 65536.

  A number of JSON text whose value is integral is \<open>JNum\<close> of its exact value; any other number is \<open>JAlien\<close>,
  which no checksum accepts.
\<close>

type_synonym bytes = "nat list"

subsection \<open>UTF-8\<close>

definition utf8_code :: "nat \<Rightarrow> bytes" where
  "utf8_code c =
     (if c < 128 then [c]
      else if c < 2048 then [192 + c div 64, 128 + c mod 64]
      else if c < 65536 then [224 + c div 4096, 128 + c div 64 mod 64, 128 + c mod 64]
      else [240 + c div 262144, 128 + c div 4096 mod 64, 128 + c div 64 mod 64, 128 + c mod 64])"

definition surrogate :: "nat \<Rightarrow> bool" where
  "surrogate u \<longleftrightarrow> high_surrogate u \<or> low_surrogate u"

text \<open>A lone surrogate is written as the replacement character.\<close>

fun utf8_encode :: "jstr \<Rightarrow> bytes" where
  "utf8_encode [] = []"
| "utf8_encode [u] = utf8_code (if surrogate u then 65533 else u)"
| "utf8_encode (u # v # us) =
     (if high_surrogate u \<and> low_surrogate v
      then utf8_code (65536 + (u - 55296) * 1024 + (v - 56320)) @ utf8_encode us
      else utf8_code (if surrogate u then 65533 else u) @ utf8_encode (v # us))"

definition continues :: "nat \<Rightarrow> bool" where
  "continues b \<longleftrightarrow> 128 \<le> b \<and> b < 192"

fun utf8_decode :: "bytes \<Rightarrow> jstr option" where
  "utf8_decode [] = Some []"
| "utf8_decode (b # bs) =
     (if b < 128 then map_option (\<lambda>s. b # s) (utf8_decode bs)
      else if 194 \<le> b \<and> b < 224
      then (case bs of
              x # r \<Rightarrow> if continues x then map_option (\<lambda>s. ((b - 192) * 64 + (x - 128)) # s) (utf8_decode r) else None
            | [] \<Rightarrow> None)
      else if 224 \<le> b \<and> b < 240
      then (case bs of
              x # y # r \<Rightarrow>
                if continues x \<and> continues y \<and> (b = 224 \<longrightarrow> 160 \<le> x) \<and> (b = 237 \<longrightarrow> x < 160)
                then map_option (\<lambda>s. ((b - 224) * 4096 + (x - 128) * 64 + (y - 128)) # s) (utf8_decode r) else None
            | _ \<Rightarrow> None)
      else if 240 \<le> b \<and> b < 245
      then (case bs of
              x # y # z # r \<Rightarrow>
                if continues x \<and> continues y \<and> continues z \<and> (b = 240 \<longrightarrow> 144 \<le> x) \<and> (b = 244 \<longrightarrow> x < 144)
                then let c = (b - 240) * 262144 + (x - 128) * 4096 + (y - 128) * 64 + (z - 128) - 65536
                     in map_option (\<lambda>s. (55296 + c div 1024) # (56320 + c mod 1024) # s) (utf8_decode r)
                else None
            | _ \<Rightarrow> None)
      else None)"

text \<open>Texts that survive: code units in pairs of surrogates or none.\<close>

fun well_formed :: "jstr \<Rightarrow> bool" where
  "well_formed [] = True"
| "well_formed [u] = (u < 65536 \<and> \<not> surrogate u)"
| "well_formed (u # v # us) =
     (if high_surrogate u \<and> low_surrogate v then well_formed us
      else u < 65536 \<and> \<not> surrogate u \<and> well_formed (v # us))"

lemma base_64:
  fixes c :: nat
  shows "c div 64 * 64 + c mod 64 = c" "c div 4096 * 64 + c div 64 mod 64 = c div 64"
    "c div 262144 * 64 + c div 4096 mod 64 = c div 4096"
proof -
  have e: "c div 4096 = c div 64 div 64" "c div 262144 = c div 4096 div 64" by (simp_all add: div_mult2_eq [symmetric])
  show "c div 64 * 64 + c mod 64 = c" by simp
  show "c div 4096 * 64 + c div 64 mod 64 = c div 64" unfolding e(1) by (rule div_mult_mod_eq)
  show "c div 262144 * 64 + c div 4096 mod 64 = c div 4096" unfolding e(2) by (rule div_mult_mod_eq)
qed

lemma decode_code:
  assumes "c < 65536" and "\<not> surrogate c"
  shows "utf8_decode (utf8_code c @ bs) = map_option (\<lambda>s. c # s) (utf8_decode bs)"
proof -
  note d = base_64 [of c]
  have r: "c mod 64 < 64" "c div 64 mod 64 < 64" by simp_all
  consider "c < 128" | "128 \<le> c" "c < 2048" | "2048 \<le> c" by linarith
  then show ?thesis
  proof cases
    case 2
    define h l where "h = c div 64" and "l = c mod 64"
    have "2 \<le> h" "h < 32" "l < 64" "h * 64 + l = c" using 2 d(1) r(1) unfolding h_def l_def by linarith+
    moreover have "utf8_code c = [192 + h, 128 + l]" using 2 by (simp add: utf8_code_def h_def l_def)
    ultimately show ?thesis by (simp add: continues_def)
  next
    case 3
    define g h l where "g = c div 4096" and "h = c div 64 mod 64" and "l = c mod 64"
    have "g < 16" "g = 0 \<Longrightarrow> 32 \<le> h" "g * 4096 + h * 64 + l = c" "h < 64" "l < 64"
      using 3 assms(1) d r unfolding g_def h_def l_def by linarith+
    moreover have "g = 13 \<Longrightarrow> h < 32"
      using assms(2) d r unfolding surrogate_def high_surrogate_def low_surrogate_def g_def h_def by linarith
    moreover have "utf8_code c = [224 + g, 128 + h, 128 + l]" using 3 assms(1) by (simp add: utf8_code_def g_def h_def l_def)
    ultimately show ?thesis by (simp add: continues_def)
  qed (simp add: utf8_code_def)
qed

lemma decode_pair:
  assumes "high_surrogate u" and "low_surrogate v"
  shows "utf8_decode (utf8_code (65536 + (u - 55296) * 1024 + (v - 56320)) @ bs) =
    map_option (\<lambda>s. u # v # s) (utf8_decode bs)"
proof -
  define c where "c = 65536 + (u - 55296) * 1024 + (v - 56320)"
  have u: "u - 55296 < 1024" "v - 56320 < 1024" "55296 \<le> u" "56320 \<le> v"
    using assms by (auto simp: high_surrogate_def low_surrogate_def)
  have c: "65536 \<le> c" "c < 1114112" using u by (auto simp: c_def)
  note d = base_64 [of c]
  have r: "c mod 64 < 64" "c div 64 mod 64 < 64" "c div 4096 mod 64 < 64" by simp_all
  define f g h l where "f = c div 262144" and "g = c div 4096 mod 64" and "h = c div 64 mod 64" and "l = c mod 64"
  have n: "f < 5" "f = 0 \<Longrightarrow> 16 \<le> g" "f = 4 \<Longrightarrow> g < 16" "f * 262144 + g * 4096 + h * 64 + l = c" "g < 64" "h < 64" "l < 64"
    using c d r unfolding f_def g_def h_def l_def by linarith+
  have e: "utf8_code c = [240 + f, 128 + g, 128 + h, 128 + l]" using c by (simp add: utf8_code_def f_def g_def h_def l_def)
  obtain a b where ab: "a = u - 55296" "b = v - 56320" "b < 1024" using u by blast
  have "c - 65536 = b + 1024 * a" by (simp add: c_def ab)
  then have "(c - 65536) div 1024 = a" "(c - 65536) mod 1024 = b" using ab(3) by simp_all
  then show ?thesis using n u(3,4) ab(1,2) unfolding c_def [symmetric] e by (simp add: continues_def Let_def)
qed

lemma utf8_roundtrip: "well_formed s \<Longrightarrow> utf8_decode (utf8_encode s) = Some s"
proof (induction s rule: well_formed.induct)
  case (2 u)
  then show ?case using decode_code [of u "[]"] by simp
next
  case (3 u v us)
  then show ?case by (simp add: decode_pair decode_code)
qed simp

subsection \<open>Lines\<close>

text \<open>No byte of a longer sequence is a line feed, so a text splits into lines where its bytes do.\<close>

lemma decode_ConsE:
  assumes "utf8_decode (b # bs) = Some s"
  obtains t where "b < 128" "utf8_decode bs = Some t" "s = b # t"
  | x r t where "\<not> b < 128" "194 \<le> b" "b < 224" "bs = x # r" "continues x" "utf8_decode r = Some t"
      "s = ((b - 192) * 64 + (x - 128)) # t"
  | x y r t where "\<not> b < 128" "224 \<le> b" "b < 240" "bs = x # y # r"
      "continues x \<and> continues y \<and> (b = 224 \<longrightarrow> 160 \<le> x) \<and> (b = 237 \<longrightarrow> x < 160)"
      "utf8_decode r = Some t" "s = ((b - 224) * 4096 + (x - 128) * 64 + (y - 128)) # t"
  | x y z r t c where "\<not> b < 128" "240 \<le> b" "b < 245" "bs = x # y # z # r"
      "continues x \<and> continues y \<and> continues z \<and> (b = 240 \<longrightarrow> 144 \<le> x) \<and> (b = 244 \<longrightarrow> x < 144)"
      "utf8_decode r = Some t" "s = (55296 + c div 1024) # (56320 + c mod 1024) # t"
proof -
  note d = assms [unfolded utf8_decode.simps]
  consider "b < 128" | "\<not> b < 128" "194 \<le> b" "b < 224" | "\<not> b < 128" "224 \<le> b" "b < 240"
    | "\<not> b < 128" "240 \<le> b" "b < 245" | "\<not> b < 128" "b < 194 \<or> 245 \<le> b" by linarith
  then show thesis
  proof cases
    case 1
    then show thesis using d that(1) by auto
  next
    case 2
    then show thesis using d that(2) by (cases bs) (auto split: if_splits)
  next
    case 3
    obtain x y r where bs: "bs = x # y # r" using d 3 by (auto split: list.splits)
    show thesis using d 3 that(3) [OF 3 bs] by (auto simp: bs split: if_splits)
  next
    case 4
    obtain x y z r where bs: "bs = x # y # z # r" using d 4 by (auto split: list.splits)
    show thesis using d 4 that(4) [OF 4 bs] by (auto simp: bs Let_def split: if_splits)
  qed (use d in auto)
qed

lemma decode_append: "utf8_decode xs = Some a \<Longrightarrow> utf8_decode (xs @ ys) = map_option (\<lambda>b. a @ b) (utf8_decode ys)"
proof (induction xs arbitrary: a rule: length_induct)
  case (1 xs)
  note ih = "1.IH" [rule_format]
  show ?case
  proof (cases xs)
    case (Cons b r)
    show ?thesis
    proof (cases rule: decode_ConsE [OF "1.prems" [unfolded Cons]])
      case (1 t)
      then show ?thesis using ih [of r t] Cons by (simp add: option.map_comp comp_def)
    next
      case (2 x q t)
      then show ?thesis using ih [of q t] Cons by (simp add: option.map_comp comp_def)
    next
      case (3 x y q t)
      then show ?thesis using ih [of q t] Cons by (simp add: option.map_comp comp_def)
    next
      case (4 x y z q t c)
      have "utf8_decode (b # x # y # z # q') = map_option (\<lambda>s. (55296 + c div 1024) # (56320 + c mod 1024) # s) (utf8_decode q')" for q'
        using 4 "1.prems" Cons by (auto simp: Let_def)
      then show ?thesis using ih [of q t] Cons 4 by (simp add: option.map_comp comp_def del: utf8_decode.simps)
    qed
  qed (use "1.prems" in \<open>simp add: option.map_ident\<close>)
qed

lemma decode_before: "utf8_decode (xs @ 10 # ys) = Some s \<Longrightarrow> \<exists>a. utf8_decode xs = Some a"
proof (induction xs arbitrary: s rule: length_induct)
  case (1 xs)
  note ih = "1.IH" [rule_format]
  show ?case
  proof (cases xs)
    case (Cons b bs)
    have "utf8_decode (b # (bs @ 10 # ys)) = Some s" using "1.prems" Cons by simp
    then show ?thesis
    proof (cases rule: decode_ConsE)
      case (1 t)
      then show ?thesis using ih [of bs t] Cons by auto
    next
      case (2 x q t)
      then obtain r where "bs = x # r" "q = r @ 10 # ys" by (cases bs) (auto simp: continues_def)
      then show ?thesis using ih [of r t] Cons 2 by auto
    next
      case (3 x y q t)
      then obtain r where "bs = x # y # r" "q = r @ 10 # ys"
        by (cases bs; cases "tl bs") (auto simp: continues_def)
      then show ?thesis using ih [of r t] Cons 3 by auto
    next
      case (4 x y z q t c)
      then obtain r where "bs = x # y # z # r" "q = r @ 10 # ys"
        by (cases bs; cases "tl bs"; cases "tl (tl bs)") (auto simp: continues_def)
      then show ?thesis using ih [of r t] Cons 4 by (auto simp: Let_def)
    qed
  qed simp
qed

lemma decode_line:
  "utf8_decode (xs @ 10 # ys) =
     (case utf8_decode xs of None \<Rightarrow> None | Some a \<Rightarrow> map_option (\<lambda>b. a @ 10 # b) (utf8_decode ys))"
proof (cases "utf8_decode xs")
  case None
  then have "utf8_decode (xs @ 10 # ys) = None" using decode_before [of xs ys] by (cases "utf8_decode (xs @ 10 # ys)") auto
  then show ?thesis using None by simp
next
  case (Some a)
  then show ?thesis by (simp add: decode_append option.map_comp comp_def)
qed

lemma decode_no_newline: "utf8_decode bs = Some s \<Longrightarrow> 10 \<notin> set bs \<Longrightarrow> 10 \<notin> set s"
proof (induction bs arbitrary: s rule: length_induct)
  case (1 bs)
  show ?case
  proof (cases bs)
    case (Cons b r)
    note ih = "1.IH" [rule_format]
    have n: "10 \<notin> set r" "b \<noteq> 10" using "1.prems"(2) Cons by auto
    show ?thesis
    proof (cases rule: decode_ConsE [OF "1.prems"(1) [unfolded Cons]])
      case (1 t)
      then show ?thesis using ih [of r t] n Cons by simp
    next
      case (2 x q t)
      then show ?thesis using ih [of q t] n Cons by auto
    next
      case (3 x y q t)
      have "10 < (b - 224) * 4096 + (x - 128) * 64" using 3(2,5) by (cases "b = 224") auto
      then show ?thesis using ih [of q t] n Cons 3 by auto
    next
      case (4 x y z q t c)
      then show ?thesis using ih [of q t] n Cons by auto
    qed
  qed (use "1.prems" in simp)
qed

lemma code_no_newline: "c \<noteq> 10 \<Longrightarrow> 10 \<notin> set (utf8_code c)"
  by (auto simp: utf8_code_def)

lemma encode_no_newline: "10 \<notin> set s \<Longrightarrow> 10 \<notin> set (utf8_encode s)"
proof (induction s rule: utf8_encode.induct)
  case (3 u v us)
  have "65536 + (u - 55296) * 1024 + (v - 56320) \<noteq> 10" by simp
  from code_no_newline [OF this] 3 show ?case by (auto simp: code_no_newline)
qed (auto simp: code_no_newline)

lemma encode_append:
  "u < 128 \<Longrightarrow> utf8_encode (s @ [u]) = utf8_encode s @ [u]"
  by (induction s rule: utf8_encode.induct)
    (auto simp: utf8_code_def surrogate_def high_surrogate_def low_surrogate_def)

subsection \<open>\<open>JSON.parse\<close>\<close>

definition json_space :: "nat \<Rightarrow> bool" where
  "json_space u \<longleftrightarrow> u = 32 \<or> u = 9 \<or> u = 10 \<or> u = 13"

definition skip_space :: "jstr \<Rightarrow> jstr" where
  "skip_space s = dropWhile json_space s"

definition hex_value :: "nat \<Rightarrow> nat option" where
  "hex_value u =
     (if 48 \<le> u \<and> u \<le> 57 then Some (u - 48) else if 97 \<le> u \<and> u \<le> 102 then Some (u - 87)
      else if 65 \<le> u \<and> u \<le> 70 then Some (u - 55) else None)"

definition hex4 :: "nat \<Rightarrow> nat \<Rightarrow> nat \<Rightarrow> nat \<Rightarrow> nat option" where
  "hex4 a b c d =
     (case (hex_value a, hex_value b, hex_value c, hex_value d) of
        (Some w, Some x, Some y, Some z) \<Rightarrow> Some (w * 4096 + x * 256 + y * 16 + z) | _ \<Rightarrow> None)"

definition unescape :: "nat \<Rightarrow> nat option" where
  "unescape e =
     (if e = 34 \<or> e = 92 \<or> e = 47 then Some e else if e = 98 then Some 8 else if e = 102 then Some 12
      else if e = 110 then Some 10 else if e = 114 then Some 13 else if e = 116 then Some 9 else None)"

text \<open>The rest of a string, after its opening quote, and what follows it.\<close>

fun parse_string :: "jstr \<Rightarrow> (jstr \<times> jstr) option" where
  "parse_string [] = None"
| "parse_string (u # us) =
     (if u = 34 then Some ([], us)
      else if u < 32 then None
      else if u = 92
      then (case us of
              [] \<Rightarrow> None
            | e # r \<Rightarrow>
                if e = 117
                then (case r of
                        a # b # c # d # r' \<Rightarrow>
                          (case hex4 a b c d of None \<Rightarrow> None
                           | Some x \<Rightarrow> map_option (\<lambda>(s, t). (x # s, t)) (parse_string r'))
                      | _ \<Rightarrow> None)
                else (case unescape e of None \<Rightarrow> None
                      | Some x \<Rightarrow> map_option (\<lambda>(s, t). (x # s, t)) (parse_string r)))
      else map_option (\<lambda>(s, t). (u # s, t)) (parse_string us))"

definition digit :: "nat \<Rightarrow> bool" where
  "digit u \<longleftrightarrow> 48 \<le> u \<and> u \<le> 57"

text \<open>
  A number is an integer part, a fraction and an exponent; its value is \<open>m * 10 ^ (e - f)\<close> for the integer
  \<open>m\<close> of all digits, \<open>f\<close> digits in the fraction and the exponent \<open>e\<close>.
\<close>

definition the_value :: "jstr \<Rightarrow> nat" where
  "the_value ds = foldl (\<lambda>a u. 10 * a + (u - 48)) 0 ds"

definition scaled :: "int \<Rightarrow> int \<Rightarrow> json" where
  "scaled m e = (if 0 \<le> e then JNum (m * 10 ^ nat e)
     else if m mod 10 ^ nat (- e) = 0 then JNum (m div 10 ^ nat (- e)) else JAlien)"

definition parse_exponent :: "jstr \<Rightarrow> (int \<times> jstr) option" where
  "parse_exponent s =
     (case s of
        u # us \<Rightarrow>
          if u = 101 \<or> u = 69
          then (let (sign, t) = (case us of v # vs \<Rightarrow> if v = 43 then (1, vs) else if v = 45 then (- 1, vs) else (1, us) | [] \<Rightarrow> (1, us));
                    ds = takeWhile digit t
                in if ds = [] then None else Some (sign * int (the_value ds), dropWhile digit t))
          else Some (0, s)
      | [] \<Rightarrow> Some (0, s))"

definition parse_fraction :: "jstr \<Rightarrow> (jstr \<times> jstr) option" where
  "parse_fraction s =
     (case s of
        u # us \<Rightarrow> if u = 46
          then (let ds = takeWhile digit us in if ds = [] then None else Some (ds, dropWhile digit us))
          else Some ([], s)
      | [] \<Rightarrow> Some ([], s))"

definition parse_number :: "jstr \<Rightarrow> (json \<times> jstr) option" where
  "parse_number s =
     (let (sign, t) = (case s of u # us \<Rightarrow> if u = 45 then (- 1, us) else (1, s) | [] \<Rightarrow> (1, s));
          ds = (case t of u # us \<Rightarrow> if u = 48 then [48] else takeWhile digit t | [] \<Rightarrow> [])
      in if ds = [] then None
         else (case parse_fraction (drop (length ds) t) of None \<Rightarrow> None
               | Some (fs, t') \<Rightarrow>
                   (case parse_exponent t' of None \<Rightarrow> None
                    | Some (e, r) \<Rightarrow> Some (scaled (sign * int (the_value (ds @ fs))) (e - int (length fs)), r))))"

definition literal :: "jstr \<Rightarrow> json \<Rightarrow> jstr \<Rightarrow> (json \<times> jstr) option" where
  "literal w v s = (if take (length w) s = w then Some (v, drop (length w) s) else None)"

lemma js_words: "js ''true'' = [116, 114, 117, 101]" "js ''false'' = [102, 97, 108, 115, 101]" "js ''null'' = [110, 117, 108, 108]"
  by code_simp+

text \<open>The scalar values, at their first character.\<close>

definition parse_scalar :: "jstr \<Rightarrow> (json \<times> jstr) option" where
  "parse_scalar s =
     (case s of
        [] \<Rightarrow> None
      | u # us \<Rightarrow>
          if u = 34 then map_option (\<lambda>(t, r). (JStr t, r)) (parse_string us)
          else if u = 116 then literal (js ''true'') (JBool True) s
          else if u = 102 then literal (js ''false'') (JBool False) s
          else if u = 110 then literal (js ''null'') JNull s
          else parse_number s)"

text \<open>
  A member given again replaces the earlier value in place; an object then enumerates its own properties.
  The first argument bounds the recursion; \<open>fuel_enough\<close> below shows that the length of the text is enough.
\<close>

definition object_of :: "(jstr \<times> json) list \<Rightarrow> json" where
  "object_of kvs = JObj (own_order (fold (\<lambda>(k, v). AList.update k v) kvs []))"

fun parse_value :: "nat \<Rightarrow> jstr \<Rightarrow> (json \<times> jstr) option"
  and parse_elements :: "nat \<Rightarrow> jstr \<Rightarrow> (json list \<times> jstr) option"
  and parse_members :: "nat \<Rightarrow> jstr \<Rightarrow> ((jstr \<times> json) list \<times> jstr) option" where
  "parse_value 0 s = None"
| "parse_value (Suc n) s =
     (case skip_space s of
        [] \<Rightarrow> None
      | u # us \<Rightarrow>
          if u = 91
          then (case skip_space us of
                  [] \<Rightarrow> None
                | v # vs \<Rightarrow> if v = 93 then Some (JArr [], vs)
                            else map_option (\<lambda>(xs, r). (JArr xs, r)) (parse_elements n us))
          else if u = 123
          then (case skip_space us of
                  [] \<Rightarrow> None
                | v # vs \<Rightarrow> if v = 125 then Some (JObj [], vs)
                            else map_option (\<lambda>(kvs, r). (object_of kvs, r)) (parse_members n us))
          else parse_scalar (u # us))"
| "parse_elements 0 s = None"
| "parse_elements (Suc n) s =
     (case parse_value n s of
        None \<Rightarrow> None
      | Some (v, r) \<Rightarrow>
          (case skip_space r of
             [] \<Rightarrow> None
           | u # us \<Rightarrow> if u = 93 then Some ([v], us)
                       else if u = 44 then map_option (\<lambda>(xs, t). (v # xs, t)) (parse_elements n us)
                       else None))"
| "parse_members 0 s = None"
| "parse_members (Suc n) s =
     (case skip_space s of
        [] \<Rightarrow> None
      | q # qs \<Rightarrow>
          if q \<noteq> 34 then None
          else (case parse_string qs of
                  None \<Rightarrow> None
                | Some (k, r) \<Rightarrow>
                    (case skip_space r of
                       [] \<Rightarrow> None
                     | c # cs \<Rightarrow>
                         if c \<noteq> 58 then None
                         else (case parse_value n cs of
                                 None \<Rightarrow> None
                               | Some (v, r') \<Rightarrow>
                                   (case skip_space r' of
                                      [] \<Rightarrow> None
                                    | u # us \<Rightarrow> if u = 125 then Some ([(k, v)], us)
                                                else if u = 44 then map_option (\<lambda>(kvs, t). ((k, v) # kvs, t)) (parse_members n us)
                                                else None)))))"

definition json_parse :: "jstr \<Rightarrow> json option" where
  "json_parse s =
     (case parse_value (2 * length s + 1) s of
        Some (v, r) \<Rightarrow> if skip_space r = [] then Some v else None
      | None \<Rightarrow> None)"

text \<open>\<open>decodeRecord\<close> of \<^verbatim>\<open>store/canonical.ts\<close>, from the text of a line.\<close>

definition decodeRecord :: "(jstr \<Rightarrow> jstr) \<Rightarrow> jstr \<Rightarrow> (jstr \<times> json) list option" where
  "decodeRecord sha line = (case json_parse line of None \<Rightarrow> None | Some v \<Rightarrow> decode_row sha v)"

subsubsection \<open>The bound is enough\<close>

lemma skip_le: "skip_space s = u # us \<Longrightarrow> length us < length s"
  using length_dropWhile_le [of json_space s] by (simp add: skip_space_def)

lemma parse_string_shorter: "parse_string s = Some (t, r) \<Longrightarrow> length r < length s"
proof (induction s arbitrary: t rule: length_induct)
  case (1 s)
  note ih = "1.IH" [rule_format]
  have ih': "length r < length s" if "parse_string q = Some (t', r)" "length q < length s" for q t'
    using ih [OF that(2,1)] that(2) by simp
  show ?case
  proof (cases s)
    case (Cons u us)
    note run = "1.prems" [unfolded Cons parse_string.simps]
    consider "u = 34" | "u \<noteq> 34" "u < 32" | "u \<noteq> 34" "\<not> u < 32" "u = 92" | "u \<noteq> 34" "\<not> u < 32" "u \<noteq> 92" by blast
    then show ?thesis
    proof cases
      case 3
      then obtain e q where q: "us = e # q" using run by (cases us) simp_all
      show ?thesis
      proof (cases "e = 117")
        case True
        then obtain a b c d q' x where "q = a # b # c # d # q'" "hex4 a b c d = Some x"
          using run 3 q by (auto split: list.splits option.splits)
        then show ?thesis using run 3 q True ih' [of q'] Cons by auto
      next
        case False
        then obtain x where "unescape e = Some x" using run 3 q by (cases "unescape e") simp_all
        then show ?thesis using run 3 q False ih' [of q] Cons by auto
      qed
    next
      case 4
      then show ?thesis using run ih' [of us] Cons by auto
    qed (use run Cons in simp_all)
  qed (use "1.prems" in simp)
qed

lemma parts_shorter:
  "parse_fraction s = Some (fs, t) \<Longrightarrow> length t \<le> length s" "parse_exponent s = Some (e, t) \<Longrightarrow> length t \<le> length s"
  using length_dropWhile_le [of digit]
  by (auto simp: parse_fraction_def parse_exponent_def Let_def le_SucI split: list.splits if_splits)

lemma parse_number_shorter: "parse_number s = Some (v, r) \<Longrightarrow> length r < length s"
proof -
  assume n: "parse_number s = Some (v, r)"
  obtain sign t where st: "(case s of u # us \<Rightarrow> if u = 45 then (- 1, us) else (1, s) | [] \<Rightarrow> (1, s)) = (sign :: int, t)" by fastforce
  define ds where "ds = (case t of u # us \<Rightarrow> if u = 48 then [48] else takeWhile digit t | [] \<Rightarrow> [])"
  from n st obtain fs t' e where d: "ds \<noteq> []" "parse_fraction (drop (length ds) t) = Some (fs, t')" "parse_exponent t' = Some (e, r)"
    unfolding parse_number_def Let_def st prod.case ds_def [symmetric] by (auto split: if_splits option.splits)
  have "length t \<le> length s" using st by (auto split: list.splits if_splits)
  moreover have "length (drop (length ds) t) < length t" using d(1) by (cases t) (auto simp: ds_def)
  moreover have "length t' \<le> length (drop (length ds) t)"
    using parts_shorter(1) [OF d(2)] .
  moreover have "length r \<le> length t'" using parts_shorter(2) [OF d(3)] .
  ultimately show ?thesis by linarith
qed

lemma parse_scalar_shorter: "parse_scalar s = Some (v, r) \<Longrightarrow> length r < length s"
  using parse_string_shorter parse_number_shorter
  by (cases s) (force simp: parse_scalar_def literal_def js_words split: if_splits)+

lemma parse_shorter:
  "parse_value n s = Some (v, r) \<Longrightarrow> length r < length s"
  "parse_elements n s = Some (xs, r) \<Longrightarrow> length r < length s"
  "parse_members n s = Some (kvs, r) \<Longrightarrow> length r < length s"
proof (induction n arbitrary: s v xs kvs r)
  case (Suc n)
  { case 1
    then obtain u us where s: "skip_space s = u # us" by (cases "skip_space s") auto
    note run = 1 [unfolded parse_value.simps s list.case]
    have "length r \<le> length us"
    proof (cases "u = 91 \<or> u = 123")
      case True
      then obtain w ws where w: "skip_space us = w # ws" using run by (cases "skip_space us") auto
      consider "r = ws" | xs where "parse_elements n us = Some (xs, r)" | kvs where "parse_members n us = Some (kvs, r)"
        using run True by (auto simp: w split: if_splits)
      then show ?thesis using Suc.IH(2,3) [of us] skip_le [OF w] by cases (auto simp: less_imp_le)
    next
      case False
      then have "parse_scalar (u # us) = Some (v, r)" using run by simp
      from parse_scalar_shorter [OF this] show ?thesis by simp
    qed
    then show ?case using skip_le [OF s] by simp }
  { case 2
    note run = 2 [unfolded parse_elements.simps]
    obtain w t where w: "parse_value n s = Some (w, t)" using run by (cases "parse_value n s") auto
    obtain u us where u: "skip_space t = u # us" using run w by (cases "skip_space t") auto
    have "r = us \<or> (\<exists>ys. parse_elements n us = Some (ys, r))" using run w u by (auto split: if_splits)
    then have "length r \<le> length us" using Suc.IH(2) [of us] by (auto simp: less_imp_le)
    then show ?case using skip_le [OF u] Suc.IH(1) [OF w] by linarith }
  { case 3
    note run = 3 [unfolded parse_members.simps]
    obtain q qs where q: "skip_space s = q # qs" "q = 34" using run by (cases "skip_space s") (auto split: if_splits)
    obtain k t where k: "parse_string qs = Some (k, t)" using run q by (cases "parse_string qs") auto
    obtain c cs where c: "skip_space t = c # cs" "c = 58" using run q k by (cases "skip_space t") (auto split: if_splits)
    obtain w t' where w: "parse_value n cs = Some (w, t')" using run q k c by (cases "parse_value n cs") auto
    obtain u us where u: "skip_space t' = u # us" using run q k c w by (cases "skip_space t'") auto
    have "r = us \<or> (\<exists>ys. parse_members n us = Some (ys, r))" using run q k c w u by (auto split: if_splits)
    then have "length r \<le> length us" using Suc.IH(3) [of us] by (auto simp: less_imp_le)
    then show ?case using skip_le [OF q(1)] parse_string_shorter [OF k] skip_le [OF c(1)] Suc.IH(1) [OF w] skip_le [OF u]
      by linarith }
qed simp_all

lemma fuel_enough:
  "2 * length s < n \<Longrightarrow> parse_value (Suc n) s = parse_value n s"
  "2 * length s + 1 < n \<Longrightarrow> parse_elements (Suc n) s = parse_elements n s"
  "2 * length s + 1 < n \<Longrightarrow> parse_members (Suc n) s = parse_members n s"
proof (induction n arbitrary: s)
  case (Suc n)
  { case 1
    have "parse_elements (Suc n) us = parse_elements n us" "parse_members (Suc n) us = parse_members n us"
      if "skip_space s = u # us" for u us
      using Suc.IH(2,3) [of us] skip_le [OF that] 1 by simp_all
    then show ?case unfolding parse_value.simps(2) by (simp split: list.split del: parse_elements.simps parse_members.simps) }
  { case 2
    have "parse_value (Suc n) s = parse_value n s" using Suc.IH(1) [of s] 2 by simp
    moreover have "parse_elements (Suc n) us = parse_elements n us"
      if "parse_value n s = Some (v, r)" "skip_space r = u # us" for v r u us
      using Suc.IH(2) [of us] skip_le [OF that(2)] parse_shorter(1) [OF that(1)] 2 by simp
    ultimately show ?case unfolding parse_elements.simps(2)
      by (simp split: list.split option.split del: parse_value.simps parse_elements.simps) }
  { case 3
    have "parse_value (Suc n) cs = parse_value n cs" if "skip_space s = q # qs" "parse_string qs = Some (k, r)" "skip_space r = c # cs" for q qs k r c cs
      using Suc.IH(1) [of cs] skip_le [OF that(1)] skip_le [OF that(3)] parse_string_shorter [OF that(2)] 3 by simp
    moreover have "parse_members (Suc n) us = parse_members n us"
      if "skip_space s = q # qs" "parse_string qs = Some (k, r)" "skip_space r = c # cs" "parse_value n cs = Some (v, r')" "skip_space r' = u # us"
      for q qs k r c cs v r' u us
      using Suc.IH(3) [of us] skip_le [OF that(1)] skip_le [OF that(3)] skip_le [OF that(5)] parse_string_shorter [OF that(2)]
        parse_shorter(1) [OF that(4)] 3 by simp
    ultimately show ?case unfolding parse_members.simps(2)
      by (simp split: list.split option.split del: parse_value.simps parse_members.simps) }
qed simp_all

subsection \<open>Reading back what was written\<close>

lemma hex_digit_value: "d < 16 \<Longrightarrow> hex_value (hex_digit d) = Some d"
  by (auto simp: hex_value_def hex_digit_def)

lemma hex4_digits:
  assumes "u < 65536"
  shows "hex4 (hex_digit (u div 4096 mod 16)) (hex_digit (u div 256 mod 16)) (hex_digit (u div 16 mod 16)) (hex_digit (u mod 16))
    = Some u"
proof -
  have e: "u div 256 = u div 16 div 16" "u div 4096 = u div 256 div 16" "u div 65536 = u div 4096 div 16"
    by (simp_all add: div_mult2_eq [symmetric])
  have "u div 65536 = 0" using assms by simp
  then have t: "u div 4096 mod 16 = u div 4096" using e(3) by (metis mod_less div_eq_0_iff mod_by_0 zero_neq_numeral)
  have "u div 4096 * 16 + u div 256 mod 16 = u div 256" unfolding e(2) by (rule div_mult_mod_eq)
  moreover have "u div 256 * 16 + u div 16 mod 16 = u div 16" unfolding e(1) by (rule div_mult_mod_eq)
  moreover have "u div 16 * 16 + u mod 16 = u" by (rule div_mult_mod_eq)
  ultimately have "u div 4096 mod 16 * 4096 + u div 256 mod 16 * 256 + u div 16 mod 16 * 16 + u mod 16 = u"
    unfolding t by linarith
  then show ?thesis by (simp only: hex4_def hex_digit_value mod_less_divisor zero_less_numeral prod.case option.case)
qed

lemma parse_hex:
  assumes "u < 65536"
  shows "parse_string (hex_escape u @ t) = map_option (\<lambda>(s, r). (u # s, r)) (parse_string t)"
  using hex4_digits [OF assms] by (simp add: hex_escape_def)

lemma parse_unit:
  assumes "u < 65536"
  shows "parse_string (escape_unit u @ t) = map_option (\<lambda>(s, r). (u # s, r)) (parse_string t)"
proof -
  consider "u < 32" "u \<notin> {8, 9, 10, 12, 13}" | "u \<in> {8, 9, 10, 12, 13, 34, 92}" | "32 \<le> u" "u \<noteq> 34" "u \<noteq> 92" by fastforce
  then show ?thesis
  proof cases
    case 1
    then have "escape_unit u = hex_escape u" by (auto simp: escape_unit_def)
    then show ?thesis using parse_hex [OF assms] by simp
  next
    case 2
    then show ?thesis by (auto simp: escape_unit_def unescape_def)
  next
    case 3
    then show ?thesis by (simp add: escape_unit_def)
  qed
qed

lemma parse_escaped:
  assumes "\<forall>u \<in> set s. u < 65536"
  shows "parse_string (escape_text s @ 34 # t) = Some (s, t)"
  using assms
proof (induction s rule: escape_text.induct)
  case (2 u)
  then have u: "u < 65536" by simp
  show ?case by (simp add: parse_hex [OF u] parse_unit [OF u])
next
  case (3 u v us)
  then have u: "u < 65536" "v < 65536" by simp_all
  show ?case
  proof (cases "high_surrogate u \<and> low_surrogate v")
    case True
    then have "32 \<le> u" "u \<noteq> 34" "u \<noteq> 92" "32 \<le> v" "v \<noteq> 34" "v \<noteq> 92" by (auto simp: high_surrogate_def low_surrogate_def)
    then show ?thesis using True 3 by simp
  next
    case False
    then have "parse_string (escape_text (v # us) @ 34 # t) = Some (v # us, t)" using 3 by simp
    moreover have "escape_text (u # v # us) =
        (if high_surrogate u \<or> low_surrogate u then hex_escape u else escape_unit u) @ escape_text (v # us)"
      by (simp only: escape_text.simps False if_False)
    ultimately show ?thesis by (simp add: parse_hex [OF u(1)] parse_unit [OF u(1)] del: parse_string.simps escape_text.simps)
  qed
qed simp

lemma parse_quoted:
  assumes "\<forall>u \<in> set s. u < 65536"
  obtains us where "quote_text s = 34 # us" "\<And>t. parse_string (us @ t) = Some (s, t)"
proof
  show "quote_text s = 34 # (escape_text s @ [34])" by (simp add: quote_text_def)
  show "parse_string ((escape_text s @ [34]) @ t) = Some (s, t)" for t using parse_escaped [OF assms, of t] by simp
qed

subsubsection \<open>Numbers\<close>

lemma the_value_append: "the_value (ds @ [u]) = 10 * the_value ds + (u - 48)"
  by (simp add: the_value_def)

lemma decimal_value: "the_value (decimal n) = n"
proof (induction n rule: decimal.induct)
  case (1 n)
  show ?case
  proof (cases "n < 10")
    case True
    then show ?thesis by (subst decimal.simps) (simp add: the_value_def)
  next
    case False
    then have "decimal n = decimal (n div 10) @ [48 + n mod 10]" by (subst decimal.simps) simp
    then show ?thesis using "1.IH" False by (simp add: the_value_append)
  qed
qed

lemma decimal_text: "\<forall>u \<in> set (decimal n). digit u" "decimal n \<noteq> []" "n \<noteq> 0 \<Longrightarrow> hd (decimal n) \<noteq> 48"
proof (induction n rule: decimal.induct)
  case (1 n)
  have e: "decimal n = (if n < 10 then [48 + n] else decimal (n div 10) @ [48 + n mod 10])" by (subst decimal.simps) simp
  { case 1 show ?case using "1.IH"(1) by (auto simp: e digit_def) }
  { case 2 show ?case by (simp add: e) }
  { case 3 then show ?case using "1.IH"(2,3) by (auto simp: e) }
qed

definition ends :: "jstr \<Rightarrow> bool" where
  "ends r \<longleftrightarrow> (case r of [] \<Rightarrow> True | u # _ \<Rightarrow> \<not> digit u \<and> u \<noteq> 46 \<and> u \<noteq> 69 \<and> u \<noteq> 101)"

lemma ends_parts: "ends r \<Longrightarrow> parse_fraction r = Some ([], r)" "ends r \<Longrightarrow> parse_exponent r = Some (0, r)"
  by (auto simp: ends_def parse_fraction_def parse_exponent_def split: list.splits)

lemma digits_taken:
  assumes "ends r"
  shows "takeWhile digit (decimal n @ r) = decimal n" "dropWhile digit (decimal n @ r) = r"
proof -
  have "takeWhile digit r = []" "dropWhile digit r = r" using assms by (auto simp: ends_def split: list.splits)
  then show "takeWhile digit (decimal n @ r) = decimal n" "dropWhile digit (decimal n @ r) = r"
    using decimal_text(1) [of n] by (simp_all add: takeWhile_append dropWhile_append)
qed

lemma parse_decimal:
  assumes "ends r"
  shows "(case decimal n @ r of u # us \<Rightarrow> if u = 48 then [48] else takeWhile digit (decimal n @ r) | [] \<Rightarrow> []) = decimal n"
proof (cases "n = 0")
  case True
  then show ?thesis by (simp add: decimal.simps [of 0])
next
  case False
  obtain u us where d: "decimal n = u # us" using decimal_text(2) [of n] by (cases "decimal n") auto
  then have "u \<noteq> 48" using decimal_text(3) [OF False] by simp
  then show ?thesis using digits_taken(1) [OF assms, of n] d by simp
qed

lemma parse_number_text: "ends r \<Longrightarrow> parse_number (number_text n @ r) = Some (JNum n, r)"
proof -
  assume r: "ends r"
  obtain u us where d: "decimal (nat \<bar>n\<bar>) = u # us" using decimal_text(2) by (cases "decimal (nat \<bar>n\<bar>)") auto
  then have u: "u \<noteq> 45" using decimal_text(1) [of "nat \<bar>n\<bar>"] by (auto simp: digit_def)
  define sign where "sign = (if n < 0 then - 1 else 1 :: int)"
  have s: "(case number_text n @ r of u # us \<Rightarrow> if u = 45 then (- 1, us) else (1, number_text n @ r) | [] \<Rightarrow> (1, number_text n @ r))
      = (sign, decimal (nat \<bar>n\<bar>) @ r)"
    using d u by (cases "n < 0") (simp_all add: number_text_def sign_def)
  have v: "sign * int (nat \<bar>n\<bar>) = n" by (simp add: sign_def)
  show ?thesis
    unfolding parse_number_def s Let_def prod.case parse_decimal [OF r]
    using decimal_text(2) [of "nat \<bar>n\<bar>"] v by (simp add: ends_parts [OF r] decimal_value scaled_def)
qed

subsubsection \<open>Values\<close>

text \<open>A value that \<open>stringify\<close> writes and that has the shape \<open>JSON.parse\<close> gives its values.\<close>

fun printable :: "json \<Rightarrow> bool" where
  "printable (JStr s) = (\<forall>u \<in> set s. u < 65536)"
| "printable (JArr xs) = list_all printable xs"
| "printable (JObj kvs) = (distinct (keys kvs) \<and> own_order kvs = kvs \<and>
     list_all (\<lambda>(k, v). (\<forall>u \<in> set k. u < 65536) \<and> printable v) kvs)"
| "printable JUndefined = False"
| "printable JAlien = False"
| "printable v = True"

lemma skip_text: "\<not> json_space u \<Longrightarrow> skip_space (u # us) = u # us"
  by (simp add: skip_space_def)

lemma no_space [simp]: "\<not> json_space 34" "\<not> json_space 44" "\<not> json_space 58" "\<not> json_space 91" "\<not> json_space 93"
  "\<not> json_space 123" "\<not> json_space 125"
  by (simp_all add: json_space_def)

lemma number_first: "\<exists>u us. number_text n = u # us \<and> (digit u \<or> u = 45)"
proof (cases "decimal (nat \<bar>n\<bar>)")
  case (Cons u us)
  then have "digit u" using decimal_text(1) [of "nat \<bar>n\<bar>"] by simp
  then show ?thesis using Cons by (cases "n < 0") (auto simp: number_text_def)
qed (use decimal_text(2) in blast)

lemma scalar_first:
  assumes "printable v" and "\<And>xs. v \<noteq> JArr xs" and "\<And>kvs. v \<noteq> JObj kvs"
  shows "\<exists>u us. stringify v = u # us \<and> u \<notin> {9, 10, 13, 32, 44, 58, 91, 93, 123, 125}"
proof (cases v)
  case (JNum n)
  obtain u us where "number_text n = u # us" "digit u \<or> u = 45" using number_first by blast
  then show ?thesis using JNum by (auto simp: digit_def)
next
  case (JBool b)
  then show ?thesis by (cases b) (simp_all add: js_words)
qed (use assms in \<open>auto simp: quote_text_def js_words\<close>)

lemma value_first:
  assumes "printable v"
  shows "\<exists>u us. stringify v = u # us \<and> \<not> json_space u \<and> u \<noteq> 93 \<and> u \<noteq> 125"
  using scalar_first [OF assms] by (cases v) (auto simp: json_space_def)

lemma parse_scalar_text:
  assumes "printable v" and "\<And>xs. v \<noteq> JArr xs" and "\<And>kvs. v \<noteq> JObj kvs" and r: "ends r"
  shows "parse_scalar (stringify v @ r) = Some (v, r)"
proof (cases v)
  case (JNum n)
  obtain u us where u: "number_text n = u # us" "digit u \<or> u = 45" using number_first by blast
  then have "u \<noteq> 34" "u \<noteq> 116" "u \<noteq> 102" "u \<noteq> 110" by (auto simp: digit_def)
  then show ?thesis using parse_number_text [OF r, of n] JNum u(1) by (simp add: parse_scalar_def)
next
  case (JStr t)
  then obtain us where "quote_text t = 34 # us" "\<And>r. parse_string (us @ r) = Some (t, r)"
    using parse_quoted [of t] assms(1) by auto
  then show ?thesis using JStr by (simp add: parse_scalar_def)
next
  case (JBool b)
  then show ?thesis by (cases b) (simp_all add: parse_scalar_def literal_def js_words)
qed (use assms in \<open>auto simp: parse_scalar_def literal_def js_words\<close>)

lemma parse_scalar_value:
  assumes "printable v" and "\<And>xs. v \<noteq> JArr xs" and "\<And>kvs. v \<noteq> JObj kvs" and r: "ends r" and "0 < n"
  shows "parse_value n (stringify v @ r) = Some (v, r)"
proof -
  obtain u us where u: "stringify v = u # us" "u \<notin> {9, 10, 13, 32, 44, 58, 91, 93, 123, 125}"
    using scalar_first [OF assms(1-3)] by blast
  then have "\<not> json_space u" by (auto simp: json_space_def)
  obtain m where "n = Suc m" using assms(5) by (cases n) auto
  then show ?thesis using u parse_scalar_text [OF assms(1-4)] skip_text [OF \<open>\<not> json_space u\<close>] by simp
qed

lemma ends_delims [simp]: "ends (44 # r)" "ends (93 # r)" "ends (125 # r)" "ends []"
  by (simp_all add: ends_def digit_def)

lemma parse_elements_text:
  assumes "\<And>x n r. x \<in> set xs \<Longrightarrow> ends r \<Longrightarrow> 2 * length (stringify x) < n \<Longrightarrow> parse_value n (stringify x @ r) = Some (x, r)"
    and "xs \<noteq> []" and "2 * length (separated (map stringify xs)) + 1 < n"
  shows "parse_elements n (separated (map stringify xs) @ 93 # r) = Some (xs, r)"
  using assms
proof (induction xs arbitrary: n rule: induct_list012)
  case (2 x)
  then obtain m where "n = Suc m" "2 * length (stringify x) < m" by (cases n) auto
  then show ?case using "2.prems"(1) [of x "93 # r" m] by (simp add: skip_text)
next
  case (3 x y ys)
  from "3.prems"(3) obtain m where m: "n = Suc m" "2 * length (stringify x) < m"
      "2 * length (separated (map stringify (y # ys))) + 1 < m" by (cases n) auto
  have "parse_value m (stringify x @ 44 # (separated (map stringify (y # ys)) @ 93 # r)) =
      Some (x, 44 # (separated (map stringify (y # ys)) @ 93 # r))"
    using "3.prems"(1) [of x _ m] m by simp
  moreover have "parse_elements m (separated (map stringify (y # ys)) @ 93 # r) = Some (y # ys, r)"
    using "3.IH"(2) [OF _ _ m(3)] "3.prems"(1) by simp
  ultimately show ?case using m by (simp add: skip_text)
qed simp

lemma fold_update_new:
  "distinct (keys (kvs' @ kvs)) \<Longrightarrow> fold (\<lambda>(k, v). AList.update k v) kvs kvs' = kvs' @ kvs"
proof (induction kvs arbitrary: kvs')
  case (Cons kv kvs)
  obtain k v where kv: "kv = (k, v)" by (cases kv)
  then have "AList.update k v kvs' = kvs' @ [(k, v)]" using Cons.prems by (intro update_new) (simp add: has_iff_keys)
  then show ?case using Cons.IH [of "kvs' @ [(k, v)]"] Cons.prems kv by simp
qed simp

lemma object_of_own: "distinct (keys kvs) \<Longrightarrow> own_order kvs = kvs \<Longrightarrow> object_of kvs = JObj kvs"
  using fold_update_new [of "[]" kvs] by (simp add: object_of_def)

definition member_text :: "jstr \<times> json \<Rightarrow> jstr" where
  "member_text kv = quote_text (fst kv) @ [58] @ stringify (snd kv)"

lemma parse_members_text:
  assumes "\<And>k v n r. (k, v) \<in> set kvs \<Longrightarrow> ends r \<Longrightarrow> 2 * length (stringify v) < n \<Longrightarrow>
      parse_value n (stringify v @ r) = Some (v, r)"
    and "\<And>k v. (k, v) \<in> set kvs \<Longrightarrow> \<forall>u \<in> set k. u < 65536"
    and "kvs \<noteq> []" and "2 * length (separated (map member_text kvs)) + 1 < n"
  shows "parse_members n (separated (map member_text kvs) @ 125 # r) = Some (kvs, r)"
  using assms
proof (induction kvs arbitrary: n rule: induct_list012)
  case (2 kv)
  obtain k v where kv: "kv = (k, v)" by (cases kv)
  obtain us where us: "quote_text k = 34 # us" "\<And>t. parse_string (us @ t) = Some (k, t)"
    using parse_quoted [of k] "2.prems"(2) [of k v] kv by auto
  from "2.prems"(4) obtain m where m: "n = Suc m" "2 * length (stringify v) < m" by (cases n) (auto simp: member_text_def kv)
  then show ?case using "2.prems"(1) [of k v "125 # r" m] us kv by (simp add: skip_text member_text_def)
next
  case (3 kv kv' kvs)
  obtain k v where kv: "kv = (k, v)" by (cases kv)
  obtain us where us: "quote_text k = 34 # us" "\<And>t. parse_string (us @ t) = Some (k, t)"
    using parse_quoted [of k] "3.prems"(2) [of k v] kv by auto
  let ?t = "separated (map member_text (kv' # kvs)) @ 125 # r"
  have s: "separated (map member_text (kv # kv' # kvs)) = 34 # us @ 58 # stringify v @ 44 # separated (map member_text (kv' # kvs))"
    using us(1) kv by (simp only: list.map separated.simps) (simp add: member_text_def)
  from "3.prems"(4) obtain m where m: "n = Suc m" "2 * length (stringify v) < m"
      "2 * length (separated (map member_text (kv' # kvs))) + 1 < m" unfolding s by (cases n) auto
  have "parse_value m (stringify v @ 44 # ?t) = Some (v, 44 # ?t)" using "3.prems"(1) [of k v "44 # ?t" m] m kv by simp
  moreover have "parse_members m ?t = Some (kv' # kvs, r)"
  proof (rule "3.IH"(2) [OF _ _ _ m(3)])
    show "parse_value n (stringify v @ r) = Some (v, r)"
      if "(k, v) \<in> set (kv' # kvs)" "ends r" "2 * length (stringify v) < n" for k v n r
      using "3.prems"(1) [of k v r n] that by simp
    show "\<forall>u \<in> set k. u < 65536" if "(k, v) \<in> set (kv' # kvs)" for k v using "3.prems"(2) [of k v] that by simp
  qed simp
  ultimately show ?case using m us(2) kv unfolding s by (simp add: skip_text del: separated.simps list.map)
qed simp

lemma parse_stringify:
  "printable v \<Longrightarrow> ends r \<Longrightarrow> 2 * length (stringify v) < n \<Longrightarrow> parse_value n (stringify v @ r) = Some (v, r)"
proof (induction v arbitrary: n r)
  case (JArr xs)
  then obtain m where m: "n = Suc m" by (cases n) auto
  show ?case
  proof (cases "xs = []")
    case True
    then show ?thesis using m by (simp add: skip_text)
  next
    case False
    have "parse_elements m (separated (map stringify xs) @ 93 # r) = Some (xs, r)"
      by (rule parse_elements_text) (use JArr False m in \<open>auto simp: list_all_iff\<close>)
    moreover obtain u us where "separated (map stringify xs) = u # us" "\<not> json_space u" "u \<noteq> 93"
      using False JArr.prems(1) value_first [of "hd xs"] by (cases xs; cases "tl xs") auto
    ultimately show ?thesis using m by (simp add: skip_text)
  qed
next
  case (JObj kvs)
  then obtain m where m: "n = Suc m" by (cases n) auto
  have e: "map (\<lambda>(k, v). quote_text k @ 58 # stringify v) kvs = map member_text kvs"
    by (simp add: member_text_def case_prod_beta)
  show ?case
  proof (cases "kvs = []")
    case True
    then show ?thesis using m by (simp add: skip_text)
  next
    case False
    have ih: "parse_value n (stringify v @ r) = Some (v, r)"
      if "(k, v) \<in> set kvs" "ends r" "2 * length (stringify v) < n" for k v n r
      using JObj.IH [of "(k, v)" v r n] JObj.prems(1) that by (auto simp: list_all_iff)
    have "parse_members m (separated (map member_text kvs) @ 125 # r) = Some (kvs, r)"
    proof (rule parse_members_text [OF ih])
      show "2 * length (separated (map member_text kvs)) + 1 < m" using JObj.prems(3) m by (simp add: e)
    qed (use JObj.prems(1) False in \<open>auto simp: list_all_iff\<close>)
    moreover obtain us where "separated (map member_text kvs) = 34 # us"
      using False by (cases kvs; cases "tl kvs") (auto simp: member_text_def quote_text_def)
    moreover have "object_of kvs = JObj kvs" using JObj.prems(1) object_of_own by simp
    ultimately show ?thesis using m by (simp add: skip_text e)
  qed
qed (rule parse_scalar_value; simp)+

theorem json_roundtrip: "printable v \<Longrightarrow> json_parse (stringify v) = Some v"
  using parse_stringify [of v "[]" "2 * length (stringify v) + 1"] by (simp add: json_parse_def skip_space_def)

end
