(* ===== verification/CollabStore.thy ===== *)
theory CollabStore
  imports JsonText
begin

text \<open>
  The log of one space on disk: \<^verbatim>\<open>packages/collab-kernel/src/store/file-store.ts\<close>. The maps of
  \<open>FileStore\<close> are keyed by the space, so the store is the slice of one space.

  Every call of the file system may fail; its answers are the arguments of the operation. The disk remembers,
  beside the log a reader finds now, every earlier content that a loss of power may bring back: all bytes
  written since the last \<open>sync\<close> of the file, and the absence of a new file until its directory is synced.
  A record is the body of a decoded line.
\<close>

type_synonym row_body = "(jstr \<times> json) list"

datatype store_error = LogFailed | LogCorrupt | LogConflict | LogLocked | SystemError

subsection \<open>Reading a log\<close>

text \<open>The length of the content up to its last line feed.\<close>

definition complete_bytes :: "bytes \<Rightarrow> nat" where
  "complete_bytes content = length content - length (takeWhile (\<lambda>b. b \<noteq> 10) (rev content))"

fun split_lines :: "jstr \<Rightarrow> jstr list" where
  "split_lines [] = [[]]"
| "split_lines (u # us) =
     (if u = 10 then [] # split_lines us
      else (case split_lines us of l # ls \<Rightarrow> (u # l) # ls | [] \<Rightarrow> [[u]]))"

definition record_seq :: "row_body \<Rightarrow> int option" where
  "record_seq r = (case map_of r (js ''seq'') of
     Some (JNum n) \<Rightarrow> if \<bar>n\<bar> \<le> 9007199254740991 then Some n else None | _ \<Rightarrow> None)"

fun read_lines :: "(jstr \<Rightarrow> jstr) \<Rightarrow> row_body list \<Rightarrow> jstr list \<Rightarrow> row_body list option" where
  "read_lines sha records [] = Some records"
| "read_lines sha records (l # ls) =
     (case decodeRecord sha l of
        None \<Rightarrow> None
      | Some r \<Rightarrow> if record_seq r \<noteq> Some (int (length records) + 1) then None
                  else read_lines sha (records @ [r]) ls)"

definition completeRecords :: "(jstr \<Rightarrow> jstr) \<Rightarrow> bytes \<Rightarrow> store_error + row_body list \<times> nat" where
  "completeRecords sha content =
     (let n = complete_bytes content in
      case utf8_decode (take n content) of
        None \<Rightarrow> Inl LogCorrupt
      | Some complete \<Rightarrow>
          (case read_lines sha [] (if complete = [] then [] else split_lines (butlast complete)) of
             None \<Rightarrow> Inl LogCorrupt
           | Some records \<Rightarrow> Inr (records, n)))"

subsection \<open>The disk\<close>

text \<open>The lock file is an inode with the instance id it holds, if its text could be parsed.\<close>

record disk =
  dk_log :: "bytes option"
  dk_past :: "bytes option list"
  dk_lock :: "(nat \<times> jstr option) option"
  dk_inode :: nat

definition log_bytes :: "disk \<Rightarrow> bytes" where
  "log_bytes dk = (case dk_log dk of None \<Rightarrow> [] | Some bs \<Rightarrow> bs)"

text \<open>Opening for append creates a missing file; each byte written is one more content that may survive.\<close>

definition create_log :: "disk \<Rightarrow> disk" where
  "create_log dk = (case dk_log dk of
     None \<Rightarrow> dk\<lparr>dk_log := Some [], dk_past := None # dk_past dk\<rparr> | Some _ \<Rightarrow> dk)"

definition append_byte :: "nat \<Rightarrow> disk \<Rightarrow> disk" where
  "append_byte b dk = dk\<lparr>dk_log := Some (log_bytes dk @ [b]), dk_past := dk_log dk # dk_past dk\<rparr>"

definition sync_file :: "disk \<Rightarrow> disk" where
  "sync_file dk = dk\<lparr>dk_past := filter (\<lambda>c. c = None) (dk_past dk)\<rparr>"

definition sync_dir :: "disk \<Rightarrow> disk" where
  "sync_dir dk = dk\<lparr>dk_past := filter (\<lambda>c. c \<noteq> None) (dk_past dk)\<rparr>"

definition truncate_log :: "nat \<Rightarrow> disk \<Rightarrow> disk" where
  "truncate_log n dk = dk\<lparr>dk_log := map_option (take n) (dk_log dk), dk_past := dk_log dk # dk_past dk\<rparr>"

subsection \<open>The store\<close>

record log_space =
  os_records :: "row_body list"
  os_failed :: bool
  os_closed :: bool
  os_logCreated :: bool
  os_inode :: nat

record file_store =
  st_instance :: jstr
  st_open :: "log_space option"

definition new_store :: "jstr \<Rightarrow> file_store" where
  "new_store i = \<lparr>st_instance = i, st_open = None\<rparr>"

text \<open>\<open>removeOwnedLock\<close>: the lock of this handle, still there and still naming this instance.\<close>

definition removeOwnedLock :: "jstr \<Rightarrow> nat \<Rightarrow> disk \<Rightarrow> disk" where
  "removeOwnedLock i inode dk =
     (if dk_lock dk = Some (inode, Some i) then dk\<lparr>dk_lock := None\<rparr> else dk)"

text \<open>What the calls of \<open>load\<close> answer: \<open>True\<close> when the call returns.\<close>

record load_calls =
  lc_mkdir :: bool
  lc_lock :: bool
  lc_write :: bool
  lc_lock_sync :: bool
  lc_read :: bool
  lc_open :: bool
  lc_truncate :: bool
  lc_sync :: bool
  lc_close :: bool
  lc_unlock :: bool

text \<open>The part of \<open>load\<close> under its \<open>try\<close>: the records and whether the log existed.\<close>

definition recover_log ::
  "(jstr \<Rightarrow> jstr) \<Rightarrow> load_calls \<Rightarrow> disk \<Rightarrow> (store_error + row_body list \<times> bool) \<times> disk" where
  "recover_log sha c dk =
     (if \<not> lc_write c \<or> \<not> lc_lock_sync c then (Inl SystemError, dk)
      else if \<not> lc_read c then (Inl SystemError, dk)
      else (case completeRecords sha (log_bytes dk) of
              Inl e \<Rightarrow> (Inl e, dk)
            | Inr (records, n) \<Rightarrow>
                if n = length (log_bytes dk) then (Inr (records, dk_log dk \<noteq> None), dk)
                else if \<not> lc_open c \<or> \<not> lc_truncate c then (Inl SystemError, dk)
                else if \<not> lc_sync c then (Inl SystemError, truncate_log n dk)
                else if \<not> lc_close c then (Inl SystemError, sync_file (truncate_log n dk))
                else (Inr (records, dk_log dk \<noteq> None), sync_file (truncate_log n dk))))"

definition load :: "(jstr \<Rightarrow> jstr) \<Rightarrow> load_calls \<Rightarrow> file_store \<Rightarrow> disk \<Rightarrow> (store_error + unit) \<times> file_store \<times> disk" where
  "load sha c st dk =
     (if \<not> lc_mkdir c then (Inl SystemError, st, dk)
      else if dk_lock dk \<noteq> None then (Inl LogLocked, st, dk)
      else if \<not> lc_lock c then (Inl SystemError, st, dk)
      else let inode = dk_inode dk;
               dk1 = dk\<lparr>dk_lock := Some (inode, if lc_write c then Some (st_instance st) else None), dk_inode := Suc inode\<rparr>
           in (case recover_log sha c dk1 of
                 (Inl e, dk2) \<Rightarrow> (Inl e, st, if lc_unlock c then removeOwnedLock (st_instance st) inode dk2 else dk2)
               | (Inr (records, existed), dk2) \<Rightarrow>
                   (Inr (), st\<lparr>st_open := Some \<lparr>os_records = records, os_failed = False, os_closed = False,
                      os_logCreated = existed, os_inode = inode\<rparr>\<rparr>, dk2)))"

text \<open>\<open>open\<close> refuses a space that is open, and one that is being opened or closed.\<close>

definition store_open :: "(jstr \<Rightarrow> jstr) \<Rightarrow> load_calls \<Rightarrow> file_store \<Rightarrow> disk \<Rightarrow> (store_error + unit) \<times> file_store \<times> disk" where
  "store_open sha c st dk = (if st_open st \<noteq> None then (Inl LogFailed, st, dk) else load sha c st dk)"

text \<open>\<open>close\<close> bars the space at once and leaves it when the commits in its queue are over.\<close>

definition begin_close :: "file_store \<Rightarrow> file_store" where
  "begin_close st = st\<lparr>st_open := map_option (\<lambda>sp. sp\<lparr>os_closed := True\<rparr>) (st_open st)\<rparr>"

definition store_close :: "bool \<Rightarrow> file_store \<Rightarrow> disk \<Rightarrow> file_store \<times> disk" where
  "store_close unlocks st dk =
     (case st_open st of
        None \<Rightarrow> (st, dk)
      | Some sp \<Rightarrow> (st\<lparr>st_open := None\<rparr>, if unlocks then removeOwnedLock (st_instance st) (os_inode sp) dk else dk))"

text \<open>\<open>unlinks\<close>: whether reading and unlinking the lock file return.\<close>

definition breakLock :: "bool \<Rightarrow> jstr \<Rightarrow> disk \<Rightarrow> (store_error + unit) \<times> disk" where
  "breakLock unlinks expected dk =
     (case dk_lock dk of
        Some (inode, Some i) \<Rightarrow>
          if i \<noteq> expected then (Inl LogLocked, dk)
          else if \<not> unlinks then (Inl SystemError, dk)
          else (Inr (), dk\<lparr>dk_lock := None\<rparr>)
      | _ \<Rightarrow> (Inl LogLocked, dk))"

subsection \<open>A commit\<close>

text \<open>One call of \<open>write\<close>: how many bytes reached the file, and the count it reports (or it throws).\<close>

datatype write_answer = WriteThrew nat | Wrote nat

definition written :: "write_answer \<Rightarrow> bytes \<Rightarrow> bytes" where
  "written a rest = take (case a of WriteThrew k \<Rightarrow> k | Wrote k \<Rightarrow> k) rest"

text \<open>
  The write loop: the answer of each call is \<open>answers\<close> at its number. The result is whether every byte was
  reported written, the number of calls and the disk.
\<close>

function write_loop :: "(nat \<Rightarrow> write_answer) \<Rightarrow> nat \<Rightarrow> bytes \<Rightarrow> nat \<Rightarrow> disk \<Rightarrow> bool \<times> nat \<times> disk" where
  "write_loop answers calls bytes offset dk =
     (if offset < length bytes
      then (let rest = drop offset bytes;
                dk' = fold append_byte (written (answers calls) rest) dk
            in case answers calls of
                 WriteThrew _ \<Rightarrow> (False, Suc calls, dk')
               | Wrote k \<Rightarrow> if k = 0 \<or> length rest < k then (False, Suc calls, dk')
                            else write_loop answers (Suc calls) bytes (offset + k) dk')
      else (True, calls, dk))"
  by pat_completeness auto
termination
  by (relation "measure (\<lambda>(answers, calls, bytes, offset, dk). length bytes - offset)") auto

declare write_loop.simps [simp del]

record commit_calls =
  cc_read :: bool
  cc_open :: bool
  cc_write :: "nat \<Rightarrow> write_answer"
  cc_sync :: bool
  cc_dir :: bool
  cc_close :: bool

text \<open>The bytes of a record, taken at admission; a record that cannot be encoded fails the space.\<close>

definition admit_commit :: "(jstr \<Rightarrow> jstr) \<Rightarrow> row_body \<Rightarrow> file_store \<Rightarrow> (store_error + bytes) \<times> file_store" where
  "admit_commit sha row st =
     (case st_open st of
        None \<Rightarrow> (Inl LogFailed, st)
      | Some sp \<Rightarrow>
          if os_closed sp \<or> os_failed sp then (Inl LogFailed, st)
          else (case encodeRecord sha row of
                  None \<Rightarrow> (Inl LogFailed, st\<lparr>st_open := Some (sp\<lparr>os_failed := True\<rparr>)\<rparr>)
                | Some t \<Rightarrow> (Inr (utf8_encode t), st)))"

text \<open>From opening the log for append to closing it: whether all calls returned, and whether the directory is synced.\<close>

definition append_record :: "commit_calls \<Rightarrow> bytes \<Rightarrow> bool \<Rightarrow> disk \<Rightarrow> bool \<times> bool \<times> disk" where
  "append_record c bytes created dk =
     (if \<not> cc_open c then (False, created, dk)
      else (case write_loop (cc_write c) 0 bytes 0 (create_log dk) of
              (False, _, dk1) \<Rightarrow> (False, created, dk1)
            | (True, _, dk1) \<Rightarrow>
                if \<not> cc_sync c then (False, created, dk1)
                else if created then (cc_close c, True, sync_file dk1)
                else if \<not> cc_dir c then (False, False, sync_file dk1)
                else (cc_close c, True, sync_dir (sync_file dk1))))"

text \<open>The turn of a commit in the queue of the space: its error, if any, fails the space.\<close>

definition commit_body ::
  "(jstr \<Rightarrow> jstr) \<Rightarrow> commit_calls \<Rightarrow> bytes \<Rightarrow> int \<Rightarrow> log_space \<Rightarrow> disk \<Rightarrow> (store_error + row_body list) \<times> bool \<times> disk" where
  "commit_body sha c bytes expectedLastSeq sp dk =
     (if os_closed sp \<or> os_failed sp then (Inl LogFailed, os_logCreated sp, dk)
      else if \<not> cc_read c then (Inl LogFailed, os_logCreated sp, dk)
      else (case completeRecords sha (log_bytes dk) of
              Inl e \<Rightarrow> (Inl e, os_logCreated sp, dk)
            | Inr (records, n) \<Rightarrow>
                if n \<noteq> length (log_bytes dk) then (Inl LogCorrupt, os_logCreated sp, dk)
                else (case (case utf8_decode bytes of None \<Rightarrow> None | Some t \<Rightarrow> decodeRecord sha t) of
                        None \<Rightarrow> (Inl LogFailed, os_logCreated sp, dk)
                      | Some next \<Rightarrow>
                          if expectedLastSeq < 0 \<or> 9007199254740991 < expectedLastSeq
                             \<or> (if records = [] then 0 else the (record_seq (last records))) \<noteq> expectedLastSeq
                             \<or> record_seq next \<noteq> Some (expectedLastSeq + 1)
                          then (Inl LogConflict, os_logCreated sp, dk)
                          else (case append_record c bytes (os_logCreated sp) dk of
                                  (ok, created, dk') \<Rightarrow> (if ok then Inr (records @ [next]) else Inl LogFailed, created, dk')))))"

definition run_commit ::
  "(jstr \<Rightarrow> jstr) \<Rightarrow> commit_calls \<Rightarrow> bytes \<Rightarrow> int \<Rightarrow> file_store \<Rightarrow> disk \<Rightarrow> (store_error + unit) \<times> file_store \<times> disk" where
  "run_commit sha c bytes expectedLastSeq st dk =
     (case st_open st of
        None \<Rightarrow> (Inl LogFailed, st, dk)
      | Some sp \<Rightarrow>
          (case commit_body sha c bytes expectedLastSeq sp dk of
             (Inl e, created, dk') \<Rightarrow> (Inl e, st\<lparr>st_open := Some (sp\<lparr>os_failed := True, os_logCreated := created\<rparr>)\<rparr>, dk')
           | (Inr records, created, dk') \<Rightarrow>
               (Inr (), st\<lparr>st_open := Some (sp\<lparr>os_records := records, os_logCreated := created\<rparr>)\<rparr>, dk')))"

text \<open>\<open>read\<close>: the records at or after a sequence number.\<close>

definition read_space :: "int \<Rightarrow> file_store \<Rightarrow> store_error + row_body list" where
  "read_space fromSeq st =
     (case st_open st of
        Some sp \<Rightarrow> if os_closed sp \<or> os_failed sp then Inl LogFailed
                   else Inr (filter (\<lambda>r. case record_seq r of Some n \<Rightarrow> fromSeq \<le> n | None \<Rightarrow> False) (os_records sp))
      | None \<Rightarrow> Inl LogFailed)"

end
