(* ===== verification/CollabLines.thy ===== *)
theory CollabLines
  imports CollabStore
begin

text \<open>
  A log is its lines: \<open>completeRecords\<close>, which decodes the whole buffer, reads what decoding line by line reads;
  and the line that \<open>encodeRecord\<close> writes is one line that reads back as its row.
\<close>

subsection \<open>Lines of bytes\<close>

definition unlines :: "nat list list \<Rightarrow> nat list" where
  "unlines ls = concat (map (\<lambda>l. l @ [10]) ls)"

lemma unlines_simps [simp]:
  "unlines [] = []" "unlines (l # ls) = l @ 10 # unlines ls" "unlines (ls @ ls') = unlines ls @ unlines ls'"
  by (simp_all add: unlines_def)

definition no_break :: "nat list \<Rightarrow> bool" where
  "no_break l \<longleftrightarrow> 10 \<notin> set l"

lemma no_break_simps [simp]:
  "no_break []" "no_break (b # l) \<longleftrightarrow> b \<noteq> 10 \<and> no_break l" "no_break (l @ l') \<longleftrightarrow> no_break l \<and> no_break l'"
  by (auto simp: no_break_def)

lemma no_break_take: "no_break l \<Longrightarrow> no_break (take k l)"
  by (auto simp: no_break_def dest: in_set_takeD)

lemma lines_exist:
  obtains ls t where "bs = unlines ls @ t" "list_all no_break ls" "no_break t"
proof (induction bs arbitrary: thesis)
  case Nil
  then show ?case using Nil [of "[]" "[]"] by simp
next
  case (Cons b bs)
  obtain ls t where l: "bs = unlines ls @ t" "list_all no_break ls" "no_break t" using Cons.IH by blast
  consider "b = 10" | "b \<noteq> 10" "ls = []" | l' ls' where "b \<noteq> 10" "ls = l' # ls'" by (cases ls) auto
  then show ?case
  proof cases
    case 1
    then show ?thesis using Cons.prems [of "[] # ls" t] l by simp
  next
    case 2
    then show ?thesis using Cons.prems [of "[]" "b # t"] l by simp
  next
    case 3
    then show ?thesis using Cons.prems [of "(b # l') # ls'" t] l by simp
  qed
qed

lemma complete_bytes_lines:
  assumes "no_break t"
  shows "complete_bytes (unlines ls @ t) = length (unlines ls)"
proof -
  have t: "\<And>x. x \<in> set (rev t) \<Longrightarrow> x \<noteq> 10" using assms by (auto simp: no_break_def)
  show ?thesis
  proof (cases ls rule: rev_cases)
    case Nil
    have "takeWhile (\<lambda>b. b \<noteq> 10) (rev t @ []) = rev t @ takeWhile (\<lambda>b. b \<noteq> 10) []"
      using t by (rule takeWhile_append2)
    from arg_cong [OF this, of length] have "length (takeWhile (\<lambda>b. b \<noteq> 10) (rev t)) = length t" by simp
    then show ?thesis using Nil by (simp add: complete_bytes_def)
  next
    case (snoc ks l)
    have "takeWhile (\<lambda>b. b \<noteq> 10) (rev t @ 10 # r) = rev t" for r using takeWhile_append2 [of "rev t"] t by simp
    then show ?thesis using snoc by (simp add: complete_bytes_def)
  qed
qed

lemma split_lines_append: "no_break l \<Longrightarrow> split_lines (l @ 10 # s) = l # split_lines s"
  by (induction l) auto

lemma split_lines_single: "no_break l \<Longrightarrow> split_lines l = [l]"
  by (induction l) auto

lemma split_unlines: "list_all no_break ls \<Longrightarrow> ls \<noteq> [] \<Longrightarrow> split_lines (butlast (unlines ls)) = ls"
proof (induction ls)
  case (Cons l ls)
  show ?case
  proof (cases "ls = []")
    case True
    then show ?thesis using Cons.prems by (simp add: split_lines_single)
  next
    case False
    then have "unlines ls \<noteq> []" by (cases ls) simp_all
    then show ?thesis using Cons False by (simp add: butlast_append split_lines_append)
  qed
qed simp

subsection \<open>Decoding line by line\<close>

definition decode_bytes :: "(jstr \<Rightarrow> jstr) \<Rightarrow> bytes \<Rightarrow> row_body option" where
  "decode_bytes sha l = (case utf8_decode l of None \<Rightarrow> None | Some s \<Rightarrow> decodeRecord sha s)"

definition next_record :: "(jstr \<Rightarrow> jstr) \<Rightarrow> nat \<Rightarrow> bytes \<Rightarrow> row_body option" where
  "next_record sha k l = (case decode_bytes sha l of None \<Rightarrow> None
     | Some r \<Rightarrow> if record_seq r = Some (int k + 1) then Some r else None)"

fun read_bytes :: "(jstr \<Rightarrow> jstr) \<Rightarrow> nat \<Rightarrow> bytes list \<Rightarrow> row_body list option" where
  "read_bytes sha k [] = Some []"
| "read_bytes sha k (l # ls) =
     (case next_record sha k l of None \<Rightarrow> None | Some r \<Rightarrow> map_option (\<lambda>rs. r # rs) (read_bytes sha (Suc k) ls))"

fun decode_lines :: "bytes list \<Rightarrow> jstr list option" where
  "decode_lines [] = Some []"
| "decode_lines (l # ls) =
     (case utf8_decode l of None \<Rightarrow> None | Some s \<Rightarrow> map_option (\<lambda>ss. s # ss) (decode_lines ls))"

lemma decode_unlines: "utf8_decode (unlines ls) = map_option unlines (decode_lines ls)"
  by (induction ls) (simp_all add: decode_line option.map_comp comp_def split: option.splits)

lemma decode_lines_no_break: "decode_lines ls = Some ss \<Longrightarrow> list_all no_break ls \<Longrightarrow> list_all no_break ss"
  by (induction ls arbitrary: ss) (auto simp: no_break_def dest: decode_no_newline split: option.splits)

lemma read_lines_bytes:
  "decode_lines ls = Some ss \<Longrightarrow> read_lines sha acc ss = map_option (\<lambda>rs. acc @ rs) (read_bytes sha (length acc) ls)"
proof (induction ls arbitrary: ss acc)
  case (Cons l ls)
  then obtain s ss' where s: "utf8_decode l = Some s" "decode_lines ls = Some ss'" "ss = s # ss'"
    by (auto split: option.splits)
  show ?case
  proof (cases "decodeRecord sha s")
    case (Some r)
    then show ?thesis using Cons.IH [OF s(2), of "acc @ [r]"] s
      by (simp add: next_record_def decode_bytes_def option.map_comp comp_def)
  qed (simp add: s next_record_def decode_bytes_def)
qed simp

lemma read_bytes_undecodable: "decode_lines ls = None \<Longrightarrow> read_bytes sha k ls = None"
  by (induction ls arbitrary: k) (auto simp: next_record_def decode_bytes_def split: option.splits)

lemma complete_lines:
  assumes "list_all no_break ls" and "no_break t"
  shows "completeRecords sha (unlines ls @ t) =
    (case read_bytes sha 0 ls of None \<Rightarrow> Inl LogCorrupt | Some rs \<Rightarrow> Inr (rs, length (unlines ls)))"
proof (cases "decode_lines ls")
  case None
  then show ?thesis using assms
    by (simp add: completeRecords_def complete_bytes_lines decode_unlines read_bytes_undecodable)
next
  case (Some ss)
  have "(if unlines ss = [] then [] else split_lines (butlast (unlines ss))) = ss"
  proof (cases ss)
    case (Cons s ss')
    then show ?thesis using split_unlines [OF decode_lines_no_break [OF Some assms(1)]] by simp
  qed simp
  then show ?thesis using assms read_lines_bytes [OF Some, of sha "[]"] Some
    by (simp add: completeRecords_def complete_bytes_lines decode_unlines split: option.split)
qed

lemma read_bytes_append:
  "read_bytes sha k (ls @ [l]) =
     (case read_bytes sha k ls of None \<Rightarrow> None
      | Some rs \<Rightarrow> map_option (\<lambda>r. rs @ [r]) (next_record sha (k + length ls) l))"
  by (induction ls arbitrary: k) (auto simp: option.map_comp comp_def split: option.splits)

lemma read_bytes_length: "read_bytes sha k ls = Some rs \<Longrightarrow> length rs = length ls"
  by (induction ls arbitrary: k rs) (auto split: option.splits)

lemma read_bytes_take: "read_bytes sha k ls = Some rs \<Longrightarrow> read_bytes sha k (take n ls) = Some (take n rs)"
proof (induction ls arbitrary: k rs n)
  case (Cons l ls)
  then show ?case by (cases n) (auto split: option.splits)
qed simp

text \<open>What a log that could be read consists of.\<close>

lemma readE:
  assumes "completeRecords sha bs = Inr (rs, n)"
  obtains ls t where "bs = unlines ls @ t" "list_all no_break ls" "no_break t" "read_bytes sha 0 ls = Some rs"
    "n = length (unlines ls)"
proof -
  obtain ls t where l: "bs = unlines ls @ t" "list_all no_break ls" "no_break t" by (rule lines_exist)
  then show thesis using assms that complete_lines [OF l(2,3), of sha] by (auto split: option.splits)
qed

lemma read_seq: "read_bytes sha k ls = Some rs \<Longrightarrow> i < length rs \<Longrightarrow> record_seq (rs ! i) = Some (int (k + i) + 1)"
proof (induction ls arbitrary: k rs i)
  case (Cons l ls)
  then obtain r rs' where r: "next_record sha k l = Some r" "read_bytes sha (Suc k) ls = Some rs'" "rs = r # rs'"
    by (auto split: option.splits)
  show ?case
  proof (cases i)
    case 0
    then show ?thesis using r by (auto simp: next_record_def split: option.splits if_splits)
  next
    case (Suc j)
    then show ?thesis using Cons.IH [OF r(2), of j] Cons.prems(2) r(3) by simp
  qed
qed simp

lemma read_last_seq:
  assumes "completeRecords sha bs = Inr (rs, n)"
  shows "(if rs = [] then 0 else the (record_seq (last rs))) = int (length rs)"
proof (cases "rs = []")
  case False
  obtain ls where "read_bytes sha 0 ls = Some rs" using assms by (rule readE)
  from read_seq [OF this, of "length rs - 1"] False have "record_seq (last rs) = Some (int (length rs - 1) + 1)"
    by (simp add: last_conv_nth)
  moreover have "int (length rs - 1) + 1 = int (length rs)" using False by (cases rs) simp_all
  ultimately show ?thesis using False by simp
qed simp

subsection \<open>The line of a record\<close>

fun units_ok :: "json \<Rightarrow> bool" where
  "units_ok (JStr s) = (\<forall>u \<in> set s. u < 65536)"
| "units_ok (JArr xs) = list_all units_ok xs"
| "units_ok (JObj kvs) = list_all (\<lambda>(k, v). (\<forall>u \<in> set k. u < 65536) \<and> units_ok v) kvs"
| "units_ok v = True"

text \<open>What every object of the language is: 16-bit code units, and no two properties of one object share a key.\<close>

definition js_row :: "row_body \<Rightarrow> bool" where
  "js_row row \<longleftrightarrow> wf_json (JObj row) \<and> units_ok (JObj row)"

definition digest_text :: "(jstr \<Rightarrow> jstr) \<Rightarrow> bool" where
  "digest_text sha \<longleftrightarrow> (\<forall>t. list_all (\<lambda>u. u < 65536) (sha t))"

lemma own_order_idem: "own_order (own_order kvs) = own_order kvs"
proof -
  define idx where "idx = (\<lambda>kv :: jstr \<times> 'a. array_index (fst kv) \<noteq> None)"
  define a where "a = sort_key (\<lambda>kv. the (array_index (fst kv))) (filter idx kvs)"
  define b where "b = filter (\<lambda>kv. \<not> idx kv) kvs"
  have o: "own_order xs = sort_key (\<lambda>kv. the (array_index (fst kv))) (filter idx xs) @ filter (\<lambda>kv. \<not> idx kv) xs" for xs :: "(jstr \<times> 'a) list"
    by (simp add: own_order_def idx_def)
  have s: "\<forall>kv \<in> set a. idx kv" "\<forall>kv \<in> set b. \<not> idx kv" by (auto simp: a_def b_def)
  then have "filter idx (a @ b) = a" "filter (\<lambda>kv. \<not> idx kv) (a @ b) = b" by (auto simp: filter_id_conv filter_empty_conv)
  moreover have "sort_key (\<lambda>kv. the (array_index (fst kv))) a = a" unfolding a_def by (rule sort_key_id_if_sorted) simp
  ultimately show ?thesis unfolding o [of kvs] a_def [symmetric] b_def [symmetric] unfolding o by simp
qed

lemma update_indexed:
  assumes "array_index k = None"
  shows "own_order (AList.update k v kvs) = AList.update k v (own_order kvs)"
proof -
  define idx where "idx = (\<lambda>kv :: jstr \<times> 'a. array_index (fst kv) \<noteq> None)"
  have i: "filter idx (AList.update k v kvs) = filter idx kvs" for kvs :: "(jstr \<times> 'a) list"
    using assms by (induction kvs) (auto simp: idx_def)
  have n: "filter (\<lambda>kv. \<not> idx kv) (AList.update k v kvs) = AList.update k v (filter (\<lambda>kv. \<not> idx kv) kvs)" for kvs :: "(jstr \<times> 'a) list"
    using assms by (induction kvs) (auto simp: idx_def)
  have o: "own_order xs = sort_key (\<lambda>kv. the (array_index (fst kv))) (filter idx xs) @ filter (\<lambda>kv. \<not> idx kv) xs" for xs :: "(jstr \<times> 'a) list"
    by (simp add: own_order_def idx_def)
  have u: "k \<notin> set (keys xs) \<Longrightarrow> AList.update k v (xs @ ys) = xs @ AList.update k v ys" for xs ys :: "(jstr \<times> 'a) list"
    by (induction xs) auto
  have "k \<notin> set (keys (sort_key (\<lambda>kv. the (array_index (fst kv))) (filter idx kvs)))"
    using assms by (auto simp: idx_def)
  from u [OF this] show ?thesis unfolding o i n by simp
qed

lemma sorted_printable:
  "wf_json v \<Longrightarrow> units_ok v \<Longrightarrow> sorted_json v = Some w \<Longrightarrow> printable w"
  "list_all wf_json xs \<Longrightarrow> list_all units_ok xs \<Longrightarrow> sorted_list xs = Some ys \<Longrightarrow> list_all printable ys"
  "list_all (\<lambda>(k, v). wf_json v) kvs \<Longrightarrow> list_all (\<lambda>(k, v). (\<forall>u \<in> set k. u < 65536) \<and> units_ok v) kvs \<Longrightarrow>
     sorted_fields kvs = Some fs \<Longrightarrow> list_all (\<lambda>(k, v). (\<forall>u \<in> set k. u < 65536) \<and> printable v) fs"
proof (induction v and xs and kvs arbitrary: w and ys and fs
    rule: sorted_json_sorted_list_sorted_fields.induct)
  case (8 kvs)
  from "8.prems"(3) obtain fs where fs: "sorted_fields kvs = Some fs" "w = JObj (canonical_order fs)" by auto
  have "distinct (keys fs)" using sorted_fields_distinct [OF fs(1)] "8.prems"(1) by simp
  moreover have "own_order (canonical_order fs) = canonical_order fs" by (simp add: canonical_order_def own_order_idem)
  moreover have "list_all (\<lambda>(k, v). (\<forall>u \<in> set k. u < 65536) \<and> printable v) (canonical_order fs)"
    using "8.IH" [OF _ _ fs(1)] "8.prems"(1,2) by (simp add: list_all_iff)
  ultimately show ?case by (simp add: fs(2))
next
  case (10 x xs)
  from "10.prems"(3) obtain y ys' where y: "sorted_json x = Some y" "sorted_list xs = Some ys'" "ys = y # ys'"
    by (auto split: option.splits)
  show ?case using "10.IH"(1) [OF _ _ y(1)] "10.IH"(2) [OF y(1) _ _ y(2)] "10.prems"(1,2) y(3) by simp
next
  case (12 k v kvs)
  show ?case
  proof (cases "v = JUndefined")
    case True
    then show ?thesis using 12 by simp
  next
    case False
    with "12.prems"(3) obtain w fs' where w: "sorted_json v = Some w" "sorted_fields kvs = Some fs'" "fs = (k, w) # fs'"
      by (auto split: option.splits)
    show ?thesis using "12.IH"(2) [OF False _ _ w(1)] "12.IH"(3) [OF False w(1) _ _ w(2)] "12.prems"(1,2) w(3) by simp
  qed
qed auto

lemma list_all_update: "list_all P kvs \<Longrightarrow> P (k, v) \<Longrightarrow> list_all P (AList.update k v kvs)"
  by (induction kvs) auto

lemma sha_key_text: "array_index sha_key = None" "\<forall>u \<in> set sha_key. u < 65536"
proof -
  have k: "sha_key = [115, 104, 97, 50, 53, 54]" by code_simp
  show "array_index sha_key = None" by (simp add: k array_index_def)
  show "\<forall>u \<in> set sha_key. u < 65536" by (simp add: k)
qed

lemma encoded_row:
  assumes "js_row row" and "digest_text sha" and "encode_row sha row = Some r"
  obtains body d where "sorted_json (JObj row) = Some (JObj body)" "checksum sha body = Some d"
    "r = AList.update sha_key (JStr d) body" "printable (JObj r)" "without_digest r = without_digest body"
proof -
  obtain body d where b: "sorted_json (JObj row) = Some (JObj body)" "checksum sha body = Some d"
      "r = AList.update sha_key (JStr d) body" using assms(3) by (auto simp: encode_row_Some)
  have p: "printable (JObj body)" using sorted_printable(1) [OF _ _ b(1)] assms(1) by (simp add: js_row_def)
  have "\<forall>u \<in> set d. u < 65536" using b(2) assms(2) by (auto simp: checksum_def digest_text_def list_all_iff)
  then have "printable (JObj r)"
    using p by (simp add: b(3) distinct_update update_indexed sha_key_text list_all_update)
  then show thesis using that b by simp
qed

lemma parse_line: "printable v \<Longrightarrow> json_parse (stringify v @ [10]) = Some v"
proof -
  assume "printable v"
  moreover have "ends [10]" by (simp add: ends_def digit_def)
  ultimately have "parse_value (2 * length (stringify v @ [10]) + 1) (stringify v @ [10]) = Some (v, [10])"
    by (rule parse_stringify) simp
  then show ?thesis unfolding json_parse_def by (simp add: skip_space_def json_space_def)
qed

subsubsection \<open>The line is one line\<close>

lemma ascii_well_formed:
  assumes "list_all (\<lambda>u. u < 128) a"
  shows "well_formed (a @ s) = well_formed s" "well_formed a"
proof -
  have w: "u < 128 \<Longrightarrow> well_formed (u # s) = well_formed s" for u s
    by (cases s) (auto simp: surrogate_def high_surrogate_def low_surrogate_def)
  show "well_formed (a @ s) = well_formed s" for s using assms by (induction a) (simp_all add: w del: well_formed.simps(2-))
  from this [of "[]"] show "well_formed a" by simp
qed

lemma well_formed_append: "well_formed a \<Longrightarrow> well_formed b \<Longrightarrow> well_formed (a @ b)"
proof (induction a rule: well_formed.induct)
  case (2 u)
  then show ?case by (cases b) (auto simp: surrogate_def)
qed (auto split: if_splits)

lemma hex_escape_text: "list_all (\<lambda>u. u < 128 \<and> u \<noteq> 10) (hex_escape u)"
proof -
  have "hex_digit d \<noteq> 10" "d < 16 \<Longrightarrow> hex_digit d < 128" for d by (simp_all add: hex_digit_def)
  then show ?thesis by (simp add: hex_escape_def)
qed

definition plain :: "jstr \<Rightarrow> bool" where
  "plain s \<longleftrightarrow> well_formed s \<and> no_break s"

lemma plain_append: "plain a \<Longrightarrow> plain b \<Longrightarrow> plain (a @ b)"
  by (simp add: plain_def well_formed_append)

lemma plain_ascii: "list_all (\<lambda>u. u < 128 \<and> u \<noteq> 10) a \<Longrightarrow> plain a"
  using ascii_well_formed(2) [of a] by (auto simp: plain_def no_break_def list_all_iff)

lemma plain_Cons [simp]: "u < 128 \<Longrightarrow> u \<noteq> 10 \<Longrightarrow> plain (u # s) = plain s"
  using ascii_well_formed(1) [of "[u]" s] by (simp add: plain_def)

lemma plain_units [simp]: "plain []" "plain [34]" "plain [44]" "plain [58]" "plain [91]" "plain [93]" "plain [123]" "plain [125]"
  by (simp_all add: plain_ascii)

lemma plain_escape_unit: "u < 65536 \<Longrightarrow> \<not> surrogate u \<Longrightarrow> plain (escape_unit u)"
  by (auto simp: escape_unit_def plain_ascii hex_escape_text) (simp add: plain_def)

lemma plain_escaped: "\<forall>u \<in> set s. u < 65536 \<Longrightarrow> plain (escape_text s)"
proof (induction s rule: escape_text.induct)
  case (2 u)
  then show ?case using plain_escape_unit [of u] by (simp add: surrogate_def plain_ascii hex_escape_text)
next
  case (3 u v us)
  show ?case
  proof (cases "high_surrogate u \<and> low_surrogate v")
    case True
    then have "plain [u, v]" by (simp add: plain_def) (auto simp: high_surrogate_def low_surrogate_def)
    from plain_append [OF this] 3 True show ?thesis by auto
  next
    case False
    have "plain (if high_surrogate u \<or> low_surrogate u then hex_escape u else escape_unit u)"
      using plain_escape_unit [of u] 3 by (simp add: surrogate_def plain_ascii hex_escape_text)
    from plain_append [OF this] 3 False show ?thesis by auto
  qed
qed simp

lemma plain_quoted: "\<forall>u \<in> set s. u < 65536 \<Longrightarrow> plain (quote_text s)"
  unfolding quote_text_def by (intro plain_append plain_escaped) simp_all

lemma plain_separated: "list_all plain xs \<Longrightarrow> plain (separated xs)"
  by (induction xs rule: separated.induct) (auto intro!: plain_append)

lemma plain_number: "plain (number_text n)"
proof -
  have "list_all (\<lambda>u. u < 128 \<and> u \<noteq> 10) (decimal k)" for k using decimal_text(1) [of k] by (auto simp: list_all_iff digit_def)
  then show ?thesis by (simp add: number_text_def plain_ascii)
qed

lemma plain_stringify: "printable v \<Longrightarrow> plain (stringify v)"
proof (induction v)
  case (JArr xs)
  then have "list_all plain (map stringify xs)" by (auto simp: list_all_iff)
  from plain_separated [OF this] show ?case unfolding stringify.simps by (intro plain_append) simp_all
next
  case (JObj kvs)
  have "plain (stringify (snd kv))" if "kv \<in> set kvs" for kv
    using JObj that by (cases kv) (auto simp: list_all_iff)
  moreover have "plain (quote_text (fst kv))" if "kv \<in> set kvs" for kv
    using JObj.prems that by (cases kv) (auto simp: list_all_iff intro: plain_quoted)
  ultimately have "list_all plain (map (\<lambda>(k, v). quote_text k @ [58] @ stringify v) kvs)"
    by (auto simp: list_all_iff intro!: plain_append)
  from plain_separated [OF this] show ?case unfolding stringify.simps by (intro plain_append) simp_all
qed (simp_all add: plain_quoted plain_number plain_ascii js_words)

text \<open>The bytes of a record are one line; \<open>decodeRecord\<close> reads it with and without its line feed.\<close>

lemma encoded_line:
  assumes "js_row row" and "digest_text sha" and "encodeRecord sha row = Some t"
  obtains line body where "sorted_json (JObj row) = Some (JObj body)" "t = line @ [10]"
    "utf8_encode t = utf8_encode line @ [10]" "no_break (utf8_encode line)"
    "decode_bytes sha (utf8_encode line) = Some (without_digest body)"
    "utf8_decode (utf8_encode t) = Some t" "decodeRecord sha t = Some (without_digest body)"
proof -
  obtain r where r: "encode_row sha row = Some r" "t = stringify (JObj r) @ [10]"
    using assms(3) unfolding encodeRecord_def by blast
  obtain body d where b: "sorted_json (JObj row) = Some (JObj body)" "checksum sha body = Some d"
      "r = AList.update sha_key (JStr d) body" "printable (JObj r)" "without_digest r = without_digest body"
    using encoded_row [OF assms(1,2) r(1)] by blast
  define line where "line = stringify (JObj r)"
  have p: "well_formed line" "no_break line" using plain_stringify [OF b(4)] by (simp_all add: line_def plain_def)
  have d: "decode_row sha (JObj r) = Some (without_digest body)" using b(2,3,5) by (simp add: decode_row_def update_Some_unfold)
  have t: "t = line @ [10]" by (simp add: r(2) line_def)
  have e: "utf8_encode t = utf8_encode line @ [10]" by (simp add: t encode_append)
  have l: "utf8_decode (utf8_encode line) = Some line" using p(1) by (rule utf8_roundtrip)
  show thesis
  proof (rule that [OF b(1) t e])
    show "no_break (utf8_encode line)" using p(2) encode_no_newline by (simp add: no_break_def)
    show "decode_bytes sha (utf8_encode line) = Some (without_digest body)"
      using json_roundtrip [OF b(4)] d l by (simp add: decode_bytes_def decodeRecord_def line_def del: stringify.simps)
    show "utf8_decode (utf8_encode t) = Some t" using l unfolding e by (simp add: t decode_line)
    show "decodeRecord sha t = Some (without_digest body)"
      using parse_line [OF b(4)] d by (simp add: decodeRecord_def t line_def del: stringify.simps)
  qed
qed

end
