(* ===== verification/CollabStoreTheorems.thy ===== *)
theory CollabStoreTheorems
  imports CollabLines "HOL-Library.Sublist"
begin

text \<open>
  What the log of a space survives: any sequence of openings, commits and closings of any stores, with any call
  of the file system failing, processes killed and losses of power at any moment.
\<close>

subsection \<open>Appending\<close>

definition contents :: "disk \<Rightarrow> bytes option set" where
  "contents dk = insert (dk_log dk) (set (dk_past dk))"

lemma append_bytes:
  defines "app \<equiv> \<lambda>bs dk. fold append_byte bs dk"
  shows "log_bytes (app bs dk) = log_bytes dk @ bs"
    "dk_log dk \<noteq> None \<Longrightarrow> dk_log (app bs dk) = Some (log_bytes dk @ bs)"
    "dk_lock (app bs dk) = dk_lock dk" "dk_inode (app bs dk) = dk_inode dk"
    "dk_log dk \<noteq> None \<Longrightarrow> None \<in> set (dk_past (app bs dk)) \<longleftrightarrow> None \<in> set (dk_past dk)"
proof (induction bs arbitrary: dk)
  case (Cons b bs)
  { case 1 show ?case using Cons(1) [of "append_byte b dk"] by (simp add: app_def append_byte_def log_bytes_def) }
  { case 2 then show ?case using Cons(2) [of "append_byte b dk"] by (simp add: app_def append_byte_def log_bytes_def) }
  { case 3 show ?case using Cons(3) [of "append_byte b dk"] by (simp add: app_def append_byte_def) }
  { case 4 show ?case using Cons(4) [of "append_byte b dk"] by (simp add: app_def append_byte_def) }
  { case 5 then show ?case using Cons(5) [of "append_byte b dk"] by (auto simp: app_def append_byte_def) }
qed (auto simp: app_def log_bytes_def)

lemma append_contents:
  "x \<in> contents (fold append_byte bs dk) \<Longrightarrow>
     x \<in> contents dk \<or> (\<exists>j \<le> length bs. x = Some (log_bytes dk @ take j bs))"
proof (induction bs arbitrary: dk)
  case (Cons b bs)
  from Cons.IH [of "append_byte b dk"] Cons.prems
  consider "x \<in> contents (append_byte b dk)"
    | j where "j \<le> length bs" "x = Some (log_bytes (append_byte b dk) @ take j bs)" by auto
  then show ?case
  proof cases
    case 1
    then consider "x \<in> contents dk" | "x = Some (log_bytes dk @ [b])" by (auto simp: contents_def append_byte_def)
    then show ?thesis
    proof cases
      case 2
      then have "1 \<le> length (b # bs) \<and> x = Some (log_bytes dk @ take 1 (b # bs))" by simp
      then show ?thesis by blast
    qed blast
  next
    case 2
    then have "Suc j \<le> length (b # bs) \<and> x = Some (log_bytes dk @ take (Suc j) (b # bs))"
      by (simp add: append_byte_def log_bytes_def)
    then show ?thesis by blast
  qed
qed simp

text \<open>The write loop appends a part of the bytes in at most as many calls as there are bytes.\<close>

lemma write_loop_appends:
  "offset \<le> length bytes \<Longrightarrow> write_loop answers calls bytes offset dk = (ok, n, dk') \<Longrightarrow>
     \<exists>j \<le> length bytes - offset. dk' = fold append_byte (take j (drop offset bytes)) dk
       \<and> (ok \<longrightarrow> j = length bytes - offset) \<and> n + offset \<le> calls + length bytes"
proof (induction answers calls bytes offset dk rule: write_loop.induct)
  case (1 answers calls bytes offset dk)
  show ?case
  proof (cases "offset < length bytes")
    case False
    then have "offset = length bytes" "dk' = dk" "n = calls" using "1.prems" by (simp_all add: write_loop.simps)
    then show ?thesis by simp
  next
    case True
    define rest where "rest = drop offset bytes"
    define dk1 where "dk1 = fold append_byte (written (answers calls) rest) dk"
    have fin: ?thesis if "(ok, n, dk') = (False, Suc calls, dk1)" "written (answers calls) rest = take k rest" for k
    proof (rule exI [of _ "min k (length rest)"])
      have "take (min k (length rest)) rest = take k rest" by (cases "k \<le> length rest") simp_all
      then show "min k (length rest) \<le> length bytes - offset \<and> dk' = fold append_byte (take (min k (length rest)) (drop offset bytes)) dk
          \<and> (ok \<longrightarrow> min k (length rest) = length bytes - offset) \<and> n + offset \<le> calls + length bytes"
        using that True by (simp add: dk1_def rest_def)
    qed
    show ?thesis
    proof (cases "answers calls")
      case (WriteThrew k)
      then have "(ok, n, dk') = (False, Suc calls, dk1)"
        using "1.prems"(2) True by (subst (asm) write_loop.simps) (simp add: dk1_def rest_def Let_def)
      then show ?thesis using fin [of k] WriteThrew by (simp add: written_def)
    next
      case (Wrote k)
      show ?thesis
      proof (cases "k = 0 \<or> length rest < k")
        case bad: True
        then have "(ok, n, dk') = (False, Suc calls, dk1)"
          using "1.prems"(2) True Wrote by (subst (asm) write_loop.simps) (simp add: dk1_def rest_def Let_def)
        then show ?thesis using fin [of k] Wrote by (simp add: written_def)
      next
        case good: False
        have w: "write_loop answers (Suc calls) bytes (offset + k) dk1 = (ok, n, dk')"
          using "1.prems"(2) True Wrote good by (subst (asm) write_loop.simps) (simp add: dk1_def rest_def Let_def)
        have le: "offset + k \<le> length bytes" using good True by (auto simp: rest_def)
        have "\<exists>j \<le> length bytes - (offset + k). dk' = fold append_byte (take j (drop (offset + k) bytes)) dk1
            \<and> (ok \<longrightarrow> j = length bytes - (offset + k)) \<and> n + (offset + k) \<le> Suc calls + length bytes"
          using "1.IH" [OF True refl refl Wrote] good le w by (simp add: rest_def dk1_def)
        then obtain j where j: "j \<le> length bytes - (offset + k)" "dk' = fold append_byte (take j (drop (offset + k) bytes)) dk1"
            "ok \<longrightarrow> j = length bytes - (offset + k)" "n + (offset + k) \<le> Suc calls + length bytes" by blast
        have "take (k + j) (drop offset bytes) = take k rest @ take j (drop (offset + k) bytes)"
          unfolding rest_def take_add drop_drop by (simp only: add.commute)
        then have "dk' = fold append_byte (take (k + j) (drop offset bytes)) dk"
          using j(2) Wrote by (simp add: dk1_def written_def)
        then show ?thesis using j good le by (intro exI [of _ "k + j"]) auto
      qed
    qed
  qed
qed

lemma append_outcome:
  assumes "append_record c bytes created dk = (ok, created', dk')"
  shows "x \<in> contents dk' \<Longrightarrow> x \<in> contents dk \<or> (\<exists>j \<le> length bytes. x = Some (log_bytes dk @ take j bytes))"
    and "dk_lock dk' = dk_lock dk"
    and "dk' \<noteq> dk \<Longrightarrow> dk_log dk' \<noteq> None"
    and "dk_log dk \<noteq> None \<Longrightarrow> dk_log dk' \<noteq> None"
    and "dk_log dk \<noteq> None \<Longrightarrow> None \<in> set (dk_past dk') \<Longrightarrow> None \<in> set (dk_past dk)"
    and "created' \<Longrightarrow> \<not> created \<Longrightarrow> dk_log dk' \<noteq> None \<and> None \<notin> set (dk_past dk')"
    and "created \<Longrightarrow> created'"
    and "ok \<Longrightarrow> contents dk' \<subseteq> {None, Some (log_bytes dk @ bytes)} \<and> dk_log dk' = Some (log_bytes dk @ bytes) \<and> created'"
proof -
  define dk0 where "dk0 = create_log dk"
  have e0: "log_bytes dk0 = log_bytes dk" "dk_log dk0 \<noteq> None" "dk_lock dk0 = dk_lock dk"
      "dk_log dk \<noteq> None \<Longrightarrow> dk0 = dk"
    by (auto simp: dk0_def create_log_def log_bytes_def split: option.splits)
  have c0: "x \<in> contents dk0 \<Longrightarrow> x \<in> contents dk \<or> (\<exists>j \<le> length bytes. x = Some (log_bytes dk @ take j bytes))" for x
    by (cases "dk_log dk") (auto simp: dk0_def create_log_def contents_def log_bytes_def intro!: exI [of _ 0])
  show "x \<in> contents dk' \<Longrightarrow> x \<in> contents dk \<or> (\<exists>j \<le> length bytes. x = Some (log_bytes dk @ take j bytes))"
    "dk_lock dk' = dk_lock dk" "dk' \<noteq> dk \<Longrightarrow> dk_log dk' \<noteq> None" "dk_log dk \<noteq> None \<Longrightarrow> dk_log dk' \<noteq> None"
    "dk_log dk \<noteq> None \<Longrightarrow> None \<in> set (dk_past dk') \<Longrightarrow> None \<in> set (dk_past dk)"
    "created' \<Longrightarrow> \<not> created \<Longrightarrow> dk_log dk' \<noteq> None \<and> None \<notin> set (dk_past dk')" "created \<Longrightarrow> created'"
    "ok \<Longrightarrow> contents dk' \<subseteq> {None, Some (log_bytes dk @ bytes)} \<and> dk_log dk' = Some (log_bytes dk @ bytes) \<and> created'"
  proof (atomize (full), goal_cases)
    case 1
    show ?case
    proof (cases "cc_open c")
      case False
      then show ?thesis using assms by (simp add: append_record_def)
    next
      case True
      obtain w n dk1 where w: "write_loop (cc_write c) 0 bytes 0 dk0 = (w, n, dk1)" by (rule prod_cases3)
      obtain j where j: "j \<le> length bytes" "dk1 = fold append_byte (take j bytes) dk0" "w \<longrightarrow> j = length bytes"
        using write_loop_appends [OF _ w] by auto
      note a = append_bytes [where bs = "take j bytes" and dk = dk0, folded j(2)]
      have l1: "dk_log dk1 = Some (log_bytes dk @ take j bytes)" using a(2) e0 by simp
      have c1: "x \<in> contents dk1 \<Longrightarrow> x \<in> contents dk \<or> (\<exists>j \<le> length bytes. x = Some (log_bytes dk @ take j bytes))" for x
      proof -
        assume "x \<in> contents dk1"
        then have "x \<in> contents dk0 \<or> (\<exists>i \<le> length (take j bytes). x = Some (log_bytes dk0 @ take i (take j bytes)))"
          unfolding j(2) by (rule append_contents)
        then show ?thesis
        proof
          assume "\<exists>i \<le> length (take j bytes). x = Some (log_bytes dk0 @ take i (take j bytes))"
          then obtain i where "i \<le> j" "x = Some (log_bytes dk @ take i bytes)" using e0(1) j(1) by (auto simp: min_def split: if_splits)
          then show ?thesis using j(1) by (intro disjI2 exI [of _ i]) simp
        qed (rule c0)
      qed
      have p1: "dk_log dk \<noteq> None \<Longrightarrow> None \<in> set (dk_past dk1) \<Longrightarrow> None \<in> set (dk_past dk)"
        using a(5) e0(2,4) by auto
      have s: "contents (sync_file dk1) \<subseteq> contents dk1" "contents (sync_file dk1) \<subseteq> {None, dk_log dk1}"
          "dk_log (sync_file dk1) = dk_log dk1" "dk_lock (sync_file dk1) = dk_lock dk1"
          "None \<in> set (dk_past (sync_file dk1)) \<Longrightarrow> None \<in> set (dk_past dk1)"
          "contents (sync_dir (sync_file dk1)) \<subseteq> contents dk1" "contents (sync_dir (sync_file dk1)) \<subseteq> {None, dk_log dk1}"
          "dk_log (sync_dir (sync_file dk1)) = dk_log dk1" "dk_lock (sync_dir (sync_file dk1)) = dk_lock dk1"
          "None \<notin> set (dk_past (sync_dir (sync_file dk1)))"
        by (auto simp: contents_def sync_file_def sync_dir_def)
      have r: "(ok, created', dk') =
          (if \<not> w then (False, created, dk1) else if \<not> cc_sync c then (False, created, dk1)
           else if created then (cc_close c, True, sync_file dk1)
           else if \<not> cc_dir c then (False, False, sync_file dk1)
           else (cc_close c, True, sync_dir (sync_file dk1)))"
        using assms w True by (cases w) (simp_all add: append_record_def dk0_def)
      have c2: "x \<in> contents (sync_file dk1) \<Longrightarrow> x \<in> contents dk \<or> (\<exists>j \<le> length bytes. x = Some (log_bytes dk @ take j bytes))"
          "x \<in> contents (sync_dir (sync_file dk1)) \<Longrightarrow> x \<in> contents dk \<or> (\<exists>j \<le> length bytes. x = Some (log_bytes dk @ take j bytes))"
        using c1 [of x] s(1) s(6) by blast+
      consider "\<not> ok" "created' = created" "dk' = dk1" | "\<not> ok" "created' = created" "dk' = sync_file dk1"
        | "created" "created'" "dk' = sync_file dk1" "w" | "\<not> created" "created'" "dk' = sync_dir (sync_file dk1)" "w"
        using r by (auto split: if_splits)
      then show ?thesis
      proof cases
        case 1
        then show ?thesis using c1 a(3) e0(3) l1 p1 by auto
      next
        case 2
        then show ?thesis using c2 a(3) e0(3) l1 p1 s(2-5) by auto
      next
        case 3
        then show ?thesis using c2 a(3) e0(3) l1 p1 s(2-5) j(3) by auto
      next
        case 4
        then show ?thesis using c2 a(3) e0(3) l1 s(7-) j(3) by auto
      qed
    qed
  qed
qed

lemma append_log:
  assumes "append_record c bytes created dk = (ok, created', dk')"
  obtains j where "j \<le> length bytes" "log_bytes dk' = log_bytes dk @ take j bytes"
proof (cases "cc_open c")
  case False
  then show thesis using assms that [of 0] by (simp add: append_record_def)
next
  case True
  obtain w n dk1 where w: "write_loop (cc_write c) 0 bytes 0 (create_log dk) = (w, n, dk1)" by (rule prod_cases3)
  obtain j where j: "j \<le> length bytes" "dk1 = fold append_byte (take j bytes) (create_log dk)"
    using write_loop_appends [OF _ w] by auto
  have "dk_log dk' = dk_log dk1"
    using assms w True by (cases w) (auto simp: append_record_def sync_file_def sync_dir_def split: if_splits)
  moreover have "log_bytes dk1 = log_bytes dk @ take j bytes"
    unfolding j(2) append_bytes(1) by (simp add: create_log_def log_bytes_def split: option.split)
  ultimately show thesis using that [OF j(1)] by (simp add: log_bytes_def)
qed

lemma append_reads:
  assumes "completeRecords sha base = Inr (rs, length base)" and "no_break l"
    and "decode_bytes sha l = Some r" and "record_seq r = Some (int (length rs) + 1)" and "j \<le> length (l @ [10])"
  shows "\<exists>n. completeRecords sha (base @ take j (l @ [10])) =
    Inr (if j = length (l @ [10]) then rs @ [r] else rs, n)"
    and "completeRecords sha (base @ l @ [10]) = Inr (rs @ [r], length (base @ l @ [10]))"
proof -
  obtain ls t where b: "base = unlines ls @ t" "list_all no_break ls" "no_break t" "read_bytes sha 0 ls = Some rs"
      "length base = length (unlines ls)" using assms(1) by (rule readE)
  then have t: "base = unlines ls" by simp
  have "next_record sha (length ls) l = Some r"
    using assms(3,4) read_bytes_length [OF b(4)] by (simp add: next_record_def)
  then have a: "read_bytes sha 0 (ls @ [l]) = Some (rs @ [r])" by (simp add: read_bytes_append b(4))
  have c: "completeRecords sha (unlines (ls @ [l]) @ []) = Inr (rs @ [r], length (unlines (ls @ [l])))"
    using complete_lines [of "ls @ [l]" "[]" sha] a b(2) assms(2) by simp
  then show f: "completeRecords sha (base @ l @ [10]) = Inr (rs @ [r], length (base @ l @ [10]))" by (simp add: t)
  show "\<exists>n. completeRecords sha (base @ take j (l @ [10])) = Inr (if j = length (l @ [10]) then rs @ [r] else rs, n)"
  proof (cases "j = length (l @ [10])")
    case False
    then have "j \<le> length l" using assms(5) by simp
    then have "take j (l @ [10]) = take j l" by simp
    then show ?thesis using complete_lines [OF b(2) no_break_take [OF assms(2)], of sha j] b(4) False t by simp
  qed (use f in simp)
qed

lemma read_truncated:
  assumes "completeRecords sha bs = Inr (rs, n)"
  shows "completeRecords sha (take n bs) = Inr (rs, n)" "n \<le> length bs" "length (take n bs) = n"
proof -
  obtain ls t where b: "bs = unlines ls @ t" "list_all no_break ls" "no_break t" "read_bytes sha 0 ls = Some rs"
      "n = length (unlines ls)" using assms by (rule readE)
  then show "completeRecords sha (take n bs) = Inr (rs, n)" using complete_lines [OF b(2), of "[]" sha] by simp
  show "n \<le> length bs" "length (take n bs) = n" using b by simp_all
qed

subsection \<open>The life of a log\<close>

text \<open>
  Stores are named by their instance id. \<open>lw_acked\<close> is what the log held when the last commit returned;
  \<open>lw_adopted\<close> records that a store found a log whose directory entry was not yet durable. A loss of power
  brings back any content the disk remembers, and keeps the lock file or not.
\<close>

record log_world =
  lw_stores :: "jstr \<Rightarrow> log_space option"
  lw_disk :: disk
  lw_acked :: "row_body list"
  lw_adopted :: bool

definition store_of :: "log_world \<Rightarrow> jstr \<Rightarrow> file_store" where
  "store_of w i = \<lparr>st_instance = i, st_open = lw_stores w i\<rparr>"

definition set_store :: "jstr \<Rightarrow> file_store \<Rightarrow> disk \<Rightarrow> log_world \<Rightarrow> log_world" where
  "set_store i st dk w = w\<lparr>lw_stores := (lw_stores w)(i := st_open st), lw_disk := dk\<rparr>"

definition unsynced_entry :: "disk \<Rightarrow> bool" where
  "unsynced_entry dk \<longleftrightarrow> dk_log dk \<noteq> None \<and> None \<in> set (dk_past dk)"

definition after_commit :: "(store_error + unit) \<Rightarrow> file_store \<Rightarrow> row_body list \<Rightarrow> row_body list" where
  "after_commit r st acked = (case (r, st_open st) of (Inr _, Some sp) \<Rightarrow> os_records sp | _ \<Rightarrow> acked)"

inductive log_step :: "(jstr \<Rightarrow> jstr) \<Rightarrow> log_world \<Rightarrow> log_world \<Rightarrow> bool" for sha where
  opened: "store_open sha c (store_of w i) (lw_disk w) = (r, st, dk) \<Longrightarrow>
     log_step sha w (set_store i st dk w\<lparr>lw_adopted := lw_adopted w \<or> unsynced_entry (lw_disk w)\<rparr>)"
| admitted: "js_row row \<Longrightarrow> admit_commit sha row (store_of w i) = (r, st) \<Longrightarrow>
     log_step sha w (set_store i st (lw_disk w) w)"
| committed: "js_row row \<Longrightarrow> encodeRecord sha row = Some t \<Longrightarrow>
     run_commit sha c (utf8_encode t) e (store_of w i) (lw_disk w) = (r, st, dk) \<Longrightarrow>
     log_step sha w (set_store i st dk w\<lparr>lw_acked := after_commit r st (lw_acked w)\<rparr>)"
| closing: "log_step sha w (set_store i (begin_close (store_of w i)) (lw_disk w) w)"
| closed: "store_close u (store_of w i) (lw_disk w) = (st, dk) \<Longrightarrow> log_step sha w (set_store i st dk w)"
| killed: "log_step sha w (set_store i (new_store i) (lw_disk w) w)"
| broken: "lw_stores w i = None \<Longrightarrow> breakLock b i (lw_disk w) = (r, dk) \<Longrightarrow> log_step sha w (w\<lparr>lw_disk := dk\<rparr>)"
| power: "x \<in> contents (lw_disk w) \<Longrightarrow> l \<in> {dk_lock (lw_disk w), None} \<Longrightarrow>
     log_step sha w (w\<lparr>lw_stores := \<lambda>_. None, lw_disk := (lw_disk w)\<lparr>dk_log := x, dk_past := [], dk_lock := l\<rparr>,
       lw_acked := (if x = None then [] else lw_acked w), lw_adopted := False\<rparr>)"

definition new_log :: log_world where
  "new_log = \<lparr>lw_stores = \<lambda>_. None, lw_disk = \<lparr>dk_log = None, dk_past = [], dk_lock = None, dk_inode = 0\<rparr>,
     lw_acked = [], lw_adopted = False\<rparr>"

inductive log_run :: "(jstr \<Rightarrow> jstr) \<Rightarrow> log_world \<Rightarrow> bool" for sha where
  log_new: "log_run sha new_log"
| log_more: "log_run sha w \<Longrightarrow> log_step sha w w' \<Longrightarrow> log_run sha w'"

definition holds_acked :: "(jstr \<Rightarrow> jstr) \<Rightarrow> log_world \<Rightarrow> bytes option \<Rightarrow> bool" where
  "holds_acked sha w x =
     (case x of
        None \<Rightarrow> lw_acked w = [] \<or> lw_adopted w
      | Some bs \<Rightarrow> (case completeRecords sha bs of Inl _ \<Rightarrow> False | Inr (rs, _) \<Rightarrow> prefix (lw_acked w) rs))"

text \<open>An open store holds the lock; what it serves, while it has not failed, is the whole log.\<close>

definition store_ok :: "(jstr \<Rightarrow> jstr) \<Rightarrow> log_world \<Rightarrow> jstr \<Rightarrow> log_space \<Rightarrow> bool" where
  "store_ok sha w i sp \<longleftrightarrow>
     dk_lock (lw_disk w) = Some (os_inode sp, Some i)
     \<and> (os_logCreated sp \<longrightarrow> dk_log (lw_disk w) \<noteq> None \<and> (None \<in> set (dk_past (lw_disk w)) \<longrightarrow> lw_adopted w))
     \<and> (os_failed sp \<or> completeRecords sha (log_bytes (lw_disk w)) = Inr (os_records sp, length (log_bytes (lw_disk w))))"

definition log_ok :: "(jstr \<Rightarrow> jstr) \<Rightarrow> log_world \<Rightarrow> bool" where
  "log_ok sha w \<longleftrightarrow>
     (\<forall>x \<in> contents (lw_disk w). holds_acked sha w x)
     \<and> (dk_log (lw_disk w) = None \<longrightarrow> lw_acked w = [])
     \<and> (\<forall>i sp. lw_stores w i = Some sp \<longrightarrow> store_ok sha w i sp)"

lemma log_okD:
  assumes "log_ok sha w"
  shows "x \<in> contents (lw_disk w) \<Longrightarrow> holds_acked sha w x"
    and "dk_log (lw_disk w) = None \<Longrightarrow> lw_acked w = []"
    and "lw_stores w i = Some sp \<Longrightarrow> store_ok sha w i sp"
  using assms by (auto simp: log_ok_def)

lemma log_okI:
  assumes "\<And>x. x \<in> contents (lw_disk w) \<Longrightarrow> holds_acked sha w x"
    and "dk_log (lw_disk w) = None \<Longrightarrow> lw_acked w = []"
    and "\<And>i sp. lw_stores w i = Some sp \<Longrightarrow> store_ok sha w i sp"
  shows "log_ok sha w"
  using assms by (auto simp: log_ok_def)

lemma one_open:
  assumes "log_ok sha w" and "lw_stores w i = Some sp" and "lw_stores w j = Some sp'"
  shows "i = j"
  using log_okD(3) [OF assms(1,2)] log_okD(3) [OF assms(1,3)] by (auto simp: store_ok_def)

lemma holds_acked_None: "holds_acked sha w None \<longleftrightarrow> lw_acked w = [] \<or> lw_adopted w"
  by (simp add: holds_acked_def)

lemma holds_acked_Some:
  "holds_acked sha w (Some bs) \<longleftrightarrow> (\<exists>rs n. completeRecords sha bs = Inr (rs, n) \<and> prefix (lw_acked w) rs)"
  by (simp add: holds_acked_def split: sum.splits)

lemma empty_reads: "completeRecords sha [] = Inr ([], 0)"
  using complete_lines [of "[]" "[]" sha] by simp

lemma acked_in_log:
  assumes "log_ok sha w" and "completeRecords sha (log_bytes (lw_disk w)) = Inr (rs, n)"
  shows "prefix (lw_acked w) rs"
proof (cases "dk_log (lw_disk w)")
  case None
  then show ?thesis using log_okD(2) [OF assms(1)] by simp
next
  case (Some bs)
  then have "holds_acked sha w (Some bs)" using log_okD(1) [OF assms(1)] by (simp add: contents_def)
  then show ?thesis using assms(2) Some by (auto simp: holds_acked_Some log_bytes_def)
qed

subsection \<open>Every step keeps what was acknowledged\<close>

lemma holds_acked_cong:
  "lw_acked w' = lw_acked w \<Longrightarrow> lw_adopted w' = lw_adopted w \<Longrightarrow> holds_acked sha w' x = holds_acked sha w x"
  by (cases x) (simp_all add: holds_acked_None holds_acked_Some)

lemma log_ok_disk:
  assumes "log_ok sha w"
    and "\<And>x. x \<in> contents dk \<Longrightarrow> x \<in> contents (lw_disk w) \<or> holds_acked sha w x"
    and "dk_log dk = None \<Longrightarrow> dk_log (lw_disk w) = None"
    and "\<And>i sp. S i = Some sp \<Longrightarrow> store_ok sha (w\<lparr>lw_stores := S, lw_disk := dk\<rparr>) i sp"
  shows "log_ok sha (w\<lparr>lw_stores := S, lw_disk := dk\<rparr>)"
proof (rule log_okI)
  show "holds_acked sha (w\<lparr>lw_stores := S, lw_disk := dk\<rparr>) x" if "x \<in> contents (lw_disk (w\<lparr>lw_stores := S, lw_disk := dk\<rparr>))" for x
    using assms(2) [of x] log_okD(1) [OF assms(1), of x] that holds_acked_cong [of "w\<lparr>lw_stores := S, lw_disk := dk\<rparr>" w] by auto
qed (use log_okD(2) [OF assms(1)] assms(3,4) in auto)

lemma log_ok_adopt: "log_ok sha w \<Longrightarrow> log_ok sha (w\<lparr>lw_adopted := lw_adopted w \<or> b\<rparr>)"
proof (rule log_okI)
  assume ok: "log_ok sha w"
  show "holds_acked sha (w\<lparr>lw_adopted := lw_adopted w \<or> b\<rparr>) x" if "x \<in> contents (lw_disk (w\<lparr>lw_adopted := lw_adopted w \<or> b\<rparr>))" for x
    using log_okD(1) [OF ok, of x] that by (cases x) (auto simp: holds_acked_None holds_acked_Some)
  show "store_ok sha (w\<lparr>lw_adopted := lw_adopted w \<or> b\<rparr>) i sp" if "lw_stores (w\<lparr>lw_adopted := lw_adopted w \<or> b\<rparr>) i = Some sp" for i sp
    using log_okD(3) [OF ok, of i sp] that by (auto simp: store_ok_def)
qed (use log_okD(2) in auto)

lemma log_ok_stores:
  assumes "log_ok sha w" and "\<And>i sp. S i = Some sp \<Longrightarrow> \<exists>sp'. lw_stores w i = Some sp' \<and> os_inode sp = os_inode sp'
     \<and> os_logCreated sp = os_logCreated sp' \<and> (os_failed sp \<or> \<not> os_failed sp' \<and> os_records sp = os_records sp')"
  shows "log_ok sha (w\<lparr>lw_stores := S\<rparr>)"
proof -
  have "store_ok sha w i sp" if s: "S i = Some sp" for i sp
  proof -
    obtain sp' where "lw_stores w i = Some sp'" and e: "os_inode sp = os_inode sp'" "os_logCreated sp = os_logCreated sp'"
        "os_failed sp \<or> \<not> os_failed sp' \<and> os_records sp = os_records sp'" using assms(2) [OF s] by blast
    then have "store_ok sha w i sp'" using log_okD(3) [OF assms(1)] by blast
    then show ?thesis using e by (auto simp: store_ok_def)
  qed
  then have "log_ok sha (w\<lparr>lw_stores := S, lw_disk := lw_disk w\<rparr>)"
    by (intro log_ok_disk [OF assms(1)]) (auto simp: store_ok_def)
  then show ?thesis by simp
qed

lemma recover_outcome:
  assumes "recover_log sha c dk = (r, dk')"
  shows "x \<in> contents dk' \<Longrightarrow> x \<in> contents dk
      \<or> (\<exists>bs rs n. dk_log dk = Some bs \<and> completeRecords sha bs = Inr (rs, n) \<and> x = Some (take n bs))"
    and "dk_log dk' = None \<longleftrightarrow> dk_log dk = None" and "None \<in> set (dk_past dk') \<Longrightarrow> None \<in> contents dk"
    and "dk_lock dk' = dk_lock dk"
    and "r = Inr (rs, existed) \<Longrightarrow> existed \<longleftrightarrow> dk_log dk \<noteq> None"
    and "r = Inr (rs, existed) \<Longrightarrow> completeRecords sha (log_bytes dk') = Inr (rs, length (log_bytes dk'))"
    and "None \<in> set (dk_past dk') \<Longrightarrow> dk_log dk \<noteq> None \<Longrightarrow> None \<in> set (dk_past dk)"
proof (atomize (full), goal_cases)
  case 1
  consider "dk' = dk" "\<And>a. r \<noteq> Inr a"
    | rs where "dk' = dk" "r = Inr (rs, dk_log dk \<noteq> None)" "completeRecords sha (log_bytes dk) = Inr (rs, length (log_bytes dk))"
    | bs rs n where "dk_log dk = Some bs" "completeRecords sha bs = Inr (rs, n)"
        "dk' = truncate_log n dk \<and> (\<forall>a. r \<noteq> Inr a) \<or> dk' = sync_file (truncate_log n dk) \<and> (r = Inr (rs, True) \<or> (\<forall>a. r \<noteq> Inr a))"
  proof (cases "completeRecords sha (log_bytes dk)")
    case (Inl e)
    then show thesis using assms that(1) by (auto simp: recover_log_def split: if_splits)
  next
    case (Inr a)
    then obtain rs n where a: "completeRecords sha (log_bytes dk) = Inr (rs, n)" by (cases a) simp
    show thesis
    proof (cases "n = length (log_bytes dk)")
      case True
      then show thesis using assms a that(1,2) by (auto simp: recover_log_def split: if_splits)
    next
      case False
      then obtain bs where bs: "dk_log dk = Some bs" using a by (cases "dk_log dk") (auto simp: log_bytes_def empty_reads)
      then show thesis using assms a False that(1) that(3) [OF bs, of rs n]
        by (auto simp: recover_log_def log_bytes_def split: if_splits)
    qed
  qed
  then show ?case
  proof cases
    case (3 bs rs' n)
    note t = read_truncated [OF 3(2)]
    show ?thesis using 3 t
      by (auto simp: contents_def truncate_log_def sync_file_def log_bytes_def)
  qed (auto simp: contents_def)
qed

lemma open_keeps:
  assumes ok: "log_ok sha w" and o: "store_open sha c (store_of w i) (lw_disk w) = (r, st, dk)"
  shows "log_ok sha (set_store i st dk w\<lparr>lw_adopted := lw_adopted w \<or> unsynced_entry (lw_disk w)\<rparr>)"
proof -
  define dk0 where "dk0 = lw_disk w"
  define w0 where "w0 = w\<lparr>lw_adopted := lw_adopted w \<or> unsynced_entry dk0\<rparr>"
  have ok0: "log_ok sha w0" unfolding w0_def by (rule log_ok_adopt [OF ok])
  have goal: "set_store i st dk w\<lparr>lw_adopted := lw_adopted w \<or> unsynced_entry (lw_disk w)\<rparr> =
      w0\<lparr>lw_stores := (lw_stores w)(i := st_open st), lw_disk := dk\<rparr>"
    by (simp add: set_store_def w0_def dk0_def)
  show ?thesis
  proof (cases "st = store_of w i \<and> dk = dk0")
    case True
    then have "w0\<lparr>lw_stores := (lw_stores w)(i := st_open st), lw_disk := dk\<rparr> = w0"
      by (simp add: w0_def dk0_def store_of_def)
    then show ?thesis using ok0 goal by simp
  next
    case False
    have l: "load sha c (store_of w i) dk0 = (r, st, dk)" "lw_stores w i = None"
      using o False by (auto simp: store_open_def store_of_def dk0_def split: if_splits)
    have free: "dk_lock dk0 = None"
    proof (rule ccontr)
      assume "dk_lock dk0 \<noteq> None"
      then show False using l(1) False by (auto simp: load_def split: if_splits)
    qed
    have none: "lw_stores w j = None" for j
      using log_okD(3) [OF ok, of j] free by (cases "lw_stores w j") (auto simp: store_ok_def dk0_def)
    define dk1 where "dk1 = dk0\<lparr>dk_lock := Some (dk_inode dk0, if lc_write c then Some i else None), dk_inode := Suc (dk_inode dk0)\<rparr>"
    obtain a dk2 where rec: "recover_log sha c dk1 = (a, dk2)" by (cases "recover_log sha c dk1")
    note ro = recover_outcome [OF rec]
    have d1: "contents dk1 = contents dk0" "dk_log dk1 = dk_log dk0" "dk_past dk1 = dk_past dk0" by (simp_all add: dk1_def contents_def)
    have cont: "x \<in> contents dk0 \<or> holds_acked sha w0 x" if "x \<in> contents dk2" for x
      using ro(1) [OF that]
    proof
      assume "\<exists>bs rs n. dk_log dk1 = Some bs \<and> completeRecords sha bs = Inr (rs, n) \<and> x = Some (take n bs)"
      then obtain bs rs n where b: "dk_log dk0 = Some bs" "completeRecords sha bs = Inr (rs, n)" "x = Some (take n bs)" using d1 by auto
      have "prefix (lw_acked w) rs" using acked_in_log [OF ok, of rs n] b by (simp add: dk0_def log_bytes_def)
      then show ?thesis using b(3) read_truncated(1) [OF b(2)] by (auto simp: holds_acked_Some w0_def)
    qed (simp add: d1)
    have w0: "lw_disk w0 = dk0" by (simp add: w0_def dk0_def)
    have calls: "lc_mkdir c" "lc_lock c" using l(1) False free by (auto simp: load_def split: if_splits)
    have e: "(r, st, dk) = (case a of
          Inl e \<Rightarrow> (Inl e, store_of w i, if lc_unlock c then removeOwnedLock i (dk_inode dk0) dk2 else dk2)
        | Inr (records, existed) \<Rightarrow> (Inr (), (store_of w i)\<lparr>st_open := Some \<lparr>os_records = records, os_failed = False,
            os_closed = False, os_logCreated = existed, os_inode = dk_inode dk0\<rparr>\<rparr>, dk2))"
    proof -
      have inst: "st_instance (store_of w i) = i" by (simp add: store_of_def)
      have "load sha c (store_of w i) dk0 = (case recover_log sha c dk1 of
          (Inl e, dk2) \<Rightarrow> (Inl e, store_of w i, if lc_unlock c then removeOwnedLock i (dk_inode dk0) dk2 else dk2)
        | (Inr (records, existed), dk2) \<Rightarrow> (Inr (), (store_of w i)\<lparr>st_open := Some \<lparr>os_records = records, os_failed = False,
            os_closed = False, os_logCreated = existed, os_inode = dk_inode dk0\<rparr>\<rparr>, dk2))"
        unfolding load_def Let_def inst dk1_def using calls free by simp
      then show ?thesis using l(1) rec by (cases a) auto
    qed
    have dk: "contents dk = contents dk2" "dk_log dk = dk_log dk2" "dk_past dk = dk_past dk2"
      "a = Inr (rs, existed) \<Longrightarrow> dk = dk2 \<and> st_open st = Some \<lparr>os_records = rs, os_failed = False, os_closed = False,
          os_logCreated = existed, os_inode = dk_inode dk0\<rparr>"
      "a = Inl e \<Longrightarrow> st = store_of w i" for rs existed e
      using e by (cases a; auto simp: contents_def removeOwnedLock_def)+
    show ?thesis unfolding goal
    proof (rule log_ok_disk [OF ok0])
      show "x \<in> contents (lw_disk w0) \<or> holds_acked sha w0 x" if "x \<in> contents dk" for x using cont that dk(1) w0 by simp
      show "dk_log (lw_disk w0) = None" if "dk_log dk = None" using that ro(2) dk(2) d1(2) w0 by simp
      show "store_ok sha (w0\<lparr>lw_stores := (lw_stores w)(i := st_open st), lw_disk := dk\<rparr>) j sp"
        if "((lw_stores w)(i := st_open st)) j = Some sp" for j sp
      proof -
        have j: "j = i" "st_open st = Some sp" using that none [of j] by (auto split: if_splits)
        have "st \<noteq> store_of w i" using j(2) l(2) by (auto simp: store_of_def)
        then obtain rs existed where a: "a = Inr (rs, existed)" using dk(5) by (cases a) auto
        note s = dk(4) [OF a]
        have "lc_write c" using rec a by (auto simp: recover_log_def split: if_splits)
        then have "dk_lock dk2 = Some (dk_inode dk0, Some i)" using ro(4) by (simp add: dk1_def)
        moreover have "existed \<Longrightarrow> None \<in> set (dk_past dk2) \<Longrightarrow> lw_adopted w0"
          using ro(5) [OF a] ro(7) d1(2,3) by (auto simp: w0_def unsynced_entry_def)
        ultimately show ?thesis using s j ro(2) ro(5,6) [OF a] d1(2) by (auto simp: store_ok_def)
      qed
    qed
  qed
qed

lemma commit_bodyE:
  assumes "js_row row" and "digest_text sha" and "encodeRecord sha row = Some t"
    and run: "commit_body sha c (utf8_encode t) e sp dk = (r, created, dk')"
  obtains err where "r = Inl err" "created = os_logCreated sp" "dk' = dk"
  | rs l nx ok where "\<not> os_failed sp" "completeRecords sha (log_bytes dk) = Inr (rs, length (log_bytes dk))"
      "utf8_encode t = l @ [10]" "no_break l" "decode_bytes sha l = Some nx"
      "record_seq nx = Some (int (length rs) + 1)"
      "append_record c (l @ [10]) (os_logCreated sp) dk = (ok, created, dk')"
      "r = (if ok then Inr (rs @ [nx]) else Inl LogFailed)"
proof -
  note run' = run [unfolded commit_body_def]
  obtain line body where b: "utf8_encode t = utf8_encode line @ [10]" "no_break (utf8_encode line)"
      "decode_bytes sha (utf8_encode line) = Some (without_digest body)"
      "utf8_decode (utf8_encode t) = Some t" "decodeRecord sha t = Some (without_digest body)"
    using encoded_line [OF assms(1-3)] by metis
  define nx where "nx = without_digest body"
  show thesis
  proof (cases "(os_closed sp \<or> os_failed sp) \<or> \<not> cc_read c")
    case True
    then show thesis using run' that(1) by (auto split: if_splits)
  next
    case ok: False
    show thesis
    proof (cases "completeRecords sha (log_bytes dk)")
      case (Inl err)
      then show thesis using run' ok that(1) by auto
    next
      case (Inr a)
      then obtain rs n where rs: "completeRecords sha (log_bytes dk) = Inr (rs, n)" by (cases a) simp
      note last = read_last_seq [OF rs]
      show thesis
      proof (cases "n = length (log_bytes dk) \<and> e = int (length rs) \<and> record_seq nx = Some (e + 1)
          \<and> \<not> (e < 0 \<or> 9007199254740991 < e)")
        case False
        then have "\<exists>err. r = Inl err" "created = os_logCreated sp" "dk' = dk"
          using run' ok rs b(4,5) last by (auto simp: nx_def [symmetric] split: if_splits)
        then show thesis using that(1) by blast
      next
        case True
        obtain g cr dk1 where g: "append_record c (utf8_encode t) (os_logCreated sp) dk = (g, cr, dk1)" by (rule prod_cases3)
        have "(r, created, dk') = (if g then Inr (rs @ [nx]) else Inl LogFailed, cr, dk1)"
          using run' ok rs b(4,5) last True g by (cases g) (simp_all add: nx_def)
        then have "r = (if g then Inr (rs @ [nx]) else Inl LogFailed)" "created = cr" "dk' = dk1" unfolding prod.inject by blast+
        then show thesis using that(2) [of rs "utf8_encode line" nx g] ok rs True b g by (simp add: nx_def)
      qed
    qed
  qed
qed

lemma commit_keeps_log:
  assumes ok: "log_ok sha w" and row: "js_row row" "digest_text sha" "encodeRecord sha row = Some t"
    and run: "run_commit sha c (utf8_encode t) e (store_of w i) (lw_disk w) = (r, st, dk)"
  shows "log_ok sha (set_store i st dk w\<lparr>lw_acked := after_commit r st (lw_acked w)\<rparr>)"
proof (cases "lw_stores w i")
  case None
  then have "r = Inl LogFailed" "st = store_of w i" "dk = lw_disk w" using run by (auto simp: run_commit_def store_of_def)
  moreover from this None have "set_store i st dk w\<lparr>lw_acked := after_commit r st (lw_acked w)\<rparr> = w"
    by (simp add: set_store_def after_commit_def store_of_def fun_upd_idem)
  ultimately show ?thesis using ok by simp
next
  case (Some sp)
  define dk0 where "dk0 = lw_disk w"
  have sp: "store_ok sha w i sp" using log_okD(3) [OF ok Some] .
  have only: "j = i" if "lw_stores w j = Some sp'" for j sp' using one_open [OF ok that Some] .
  obtain created b where cb: "commit_body sha c (utf8_encode t) e sp dk0 = (b, created, dk)"
    and rb: "r = (case b of Inl err \<Rightarrow> Inl err | Inr _ \<Rightarrow> Inr ())"
    using run Some by (auto simp: run_commit_def store_of_def dk0_def split: prod.splits sum.splits)
  have st: "st_open st = (case b of Inl _ \<Rightarrow> Some (sp\<lparr>os_failed := True, os_logCreated := created\<rparr>)
      | Inr records \<Rightarrow> Some (sp\<lparr>os_records := records, os_logCreated := created\<rparr>))"
    using run Some cb by (cases b) (auto simp: run_commit_def store_of_def dk0_def)
  define S where "S = (lw_stores w)(i := st_open st)"
  have S: "S j = Some sp' \<Longrightarrow> j = i \<and> st_open st = Some sp'" for j sp' using only by (auto simp: S_def split: if_splits)
  have w: "set_store i st dk w = w\<lparr>lw_stores := S, lw_disk := dk\<rparr>" by (simp add: set_store_def S_def)
  show ?thesis
  proof (cases rule: commit_bodyE [OF row cb])
    case (1 err)
    have "log_ok sha (w\<lparr>lw_stores := S, lw_disk := dk\<rparr>)"
    proof (rule log_ok_disk [OF ok])
      show "store_ok sha (w\<lparr>lw_stores := S, lw_disk := dk\<rparr>) j sp'" if "S j = Some sp'" for j sp'
        using S [OF that] sp 1 st by (auto simp: store_ok_def dk0_def)
    qed (use 1 in \<open>auto simp: dk0_def\<close>)
    then show ?thesis unfolding w using 1(1) rb by (simp add: after_commit_def)
  next
    case (2 rs l nx g)
    note ao = append_outcome [OF 2(7)]
    have pre: "prefix (lw_acked w) rs" using acked_in_log [OF ok] 2(2) by (simp add: dk0_def)
    have rs: "os_records sp = rs" using sp 2(1,2) by (auto simp: store_ok_def dk0_def)
    have cr: "os_logCreated sp \<Longrightarrow> dk_log dk0 \<noteq> None \<and> (None \<in> set (dk_past dk0) \<longrightarrow> lw_adopted w)" and lock: "dk_lock dk0 = Some (os_inode sp, Some i)"
      using sp by (auto simp: store_ok_def dk0_def)
    note part = append_reads(1) [OF 2(2,4,5,6)]
    note full = append_reads(2) [OF 2(2,4,5,6) le_refl]
    have cr': "created \<Longrightarrow> dk_log dk \<noteq> None \<and> (None \<in> set (dk_past dk) \<longrightarrow> lw_adopted w)"
      using cr ao(4,5,6) by blast
    show ?thesis
    proof (cases g)
      case False
      have "log_ok sha (w\<lparr>lw_stores := S, lw_disk := dk\<rparr>)"
      proof (rule log_ok_disk [OF ok])
        show "x \<in> contents (lw_disk w) \<or> holds_acked sha w x" if x: "x \<in> contents dk" for x
        proof -
          from ao(1) [OF x] consider "x \<in> contents dk0"
            | j where "j \<le> length (l @ [10])" "x = Some (log_bytes dk0 @ take j (l @ [10]))" by blast
          then show ?thesis
          proof cases
            case (2 j)
            have "prefix (lw_acked w) (if j = length (l @ [10]) then rs @ [nx] else rs)" using pre by (simp add: prefix_prefix)
            then show ?thesis using part [OF 2(1)] 2(2)
              by (auto simp: holds_acked_Some)
          qed (simp add: dk0_def)
        qed
        show "dk_log dk = None \<Longrightarrow> dk_log (lw_disk w) = None" using ao(4) by (cases "dk_log (lw_disk w)") (auto simp: dk0_def)
        show "store_ok sha (w\<lparr>lw_stores := S, lw_disk := dk\<rparr>) j sp'" if "S j = Some sp'" for j sp'
          using S [OF that] st 2(8) False cr' ao(2) lock by (auto simp: store_ok_def)
      qed
      then show ?thesis unfolding w using 2(8) False rb by (simp add: after_commit_def)
    next
      case True
      note good = ao(8) [OF True]
      have logb: "log_bytes dk = log_bytes dk0 @ l @ [10]" using good by (simp add: log_bytes_def)
      have a: "after_commit r st (lw_acked w) = rs @ [nx]" using 2(8) True st rs rb by (simp add: after_commit_def)
      define w' where "w' = w\<lparr>lw_stores := S, lw_disk := dk, lw_acked := rs @ [nx]\<rparr>"
      have "log_ok sha w'"
      proof (rule log_okI)
        show "holds_acked sha w' x" if x: "x \<in> contents (lw_disk w')" for x
        proof -
          consider "x = None" "x \<in> set (dk_past dk)" | "x = Some (log_bytes dk0 @ l @ [10])"
            using x good by (auto simp: w'_def contents_def)
          then show ?thesis
          proof cases
            case 1
            then show ?thesis using cr' good by (simp add: holds_acked_None w'_def)
          next
            case 2
            then show ?thesis using full by (simp add: holds_acked_Some w'_def)
          qed
        qed
        show "dk_log (lw_disk w') = None \<Longrightarrow> lw_acked w' = []" using good by (simp add: w'_def)
        show "store_ok sha w' j sp'" if "lw_stores w' j = Some sp'" for j sp'
          using S [of j sp'] that st 2(8) True cr' ao(2) lock full logb rs by (auto simp: store_ok_def w'_def)
      qed
      then show ?thesis unfolding w a by (simp add: w'_def)
    qed
  qed
qed

lemma unlock_keeps:
  assumes "log_ok sha w" and "S i = None" and "\<And>j sp. S j = Some sp \<Longrightarrow> lw_stores w j = Some sp"
    and "dk_lock dk = dk_lock (lw_disk w) \<or> (\<forall>j. lw_stores w j \<noteq> None \<longrightarrow> j = i)"
    and "dk_log dk = dk_log (lw_disk w)" and "dk_past dk = dk_past (lw_disk w)"
  shows "log_ok sha (w\<lparr>lw_stores := S, lw_disk := dk\<rparr>)"
proof (rule log_ok_disk [OF assms(1)])
  show "store_ok sha (w\<lparr>lw_stores := S, lw_disk := dk\<rparr>) j sp" if j: "S j = Some sp" for j sp
  proof -
    have l: "lw_stores w j = Some sp" using assms(3) [OF j] .
    have "j \<noteq> i" using j assms(2) by auto
    then have "dk_lock dk = dk_lock (lw_disk w)" using assms(4) l by blast
    then show ?thesis using log_okD(3) [OF assms(1) l] assms(5,6) by (simp add: store_ok_def log_bytes_def)
  qed
qed (use assms(5,6) in \<open>auto simp: contents_def\<close>)

lemma removed_lock:
  "dk_log (removeOwnedLock i n dk) = dk_log dk" "dk_past (removeOwnedLock i n dk) = dk_past dk"
  by (simp_all add: removeOwnedLock_def)

lemma step_keeps:
  assumes "digest_text sha" and "log_step sha w w'" and ok: "log_ok sha w"
  shows "log_ok sha w'"
  using assms(2)
proof cases
  case (opened c i r st dk)
  show ?thesis unfolding opened(1) by (rule open_keeps [OF ok opened(2)])
next
  case (admitted row i r st)
  have "log_ok sha (w\<lparr>lw_stores := (lw_stores w)(i := st_open st)\<rparr>)"
    using admitted(3) by (intro log_ok_stores [OF ok])
      (auto simp: admit_commit_def store_of_def split: option.splits if_splits)
  then show ?thesis unfolding admitted(1) by (simp add: set_store_def)
next
  case (committed row t c e i r st dk)
  show ?thesis unfolding committed(1) by (rule commit_keeps_log [OF ok committed(2) assms(1) committed(3,4)])
next
  case (closing i)
  have "log_ok sha (w\<lparr>lw_stores := (lw_stores w)(i := st_open (begin_close (store_of w i)))\<rparr>)"
    by (intro log_ok_stores [OF ok]) (auto simp: begin_close_def store_of_def split: if_splits)
  then show ?thesis unfolding closing(1) by (simp add: set_store_def)
next
  case (closed u i st dk)
  have "log_ok sha (w\<lparr>lw_stores := (lw_stores w)(i := st_open st), lw_disk := dk\<rparr>)"
  proof (cases "lw_stores w i")
    case None
    then have "st_open st = None" "dk = lw_disk w" using closed(2) by (auto simp: store_close_def store_of_def)
    then show ?thesis by (intro unlock_keeps [where i = i, OF ok]) (auto split: if_splits)
  next
    case (Some sp)
    then have "st_open st = None" "dk_log dk = dk_log (lw_disk w)" "dk_past dk = dk_past (lw_disk w)"
      using closed(2) by (auto simp: store_close_def store_of_def removed_lock split: if_splits)
    moreover have "lw_stores w j \<noteq> None \<longrightarrow> j = i" for j using one_open [OF ok _ Some] by auto
    ultimately show ?thesis by (intro unlock_keeps [where i = i, OF ok]) (auto split: if_splits)
  qed
  then show ?thesis unfolding closed(1) by (simp add: set_store_def)
next
  case (killed i)
  have "log_ok sha (w\<lparr>lw_stores := (lw_stores w)(i := None), lw_disk := lw_disk w\<rparr>)"
    by (rule unlock_keeps [where i = i, OF ok]) (auto split: if_splits)
  then show ?thesis unfolding killed(1) by (simp add: set_store_def new_store_def)
next
  case (broken i b r dk)
  have none: "lw_stores w j = None" if "dk_lock dk \<noteq> dk_lock (lw_disk w)" for j
  proof (rule ccontr)
    assume "lw_stores w j \<noteq> None"
    then obtain sp where sp: "lw_stores w j = Some sp" by blast
    then have "dk_lock (lw_disk w) = Some (os_inode sp, Some j)" using log_okD(3) [OF ok] by (simp add: store_ok_def)
    then have "j = i" using broken(3) that by (auto simp: breakLock_def split: if_splits)
    then show False using sp broken(2) by simp
  qed
  have "log_ok sha (w\<lparr>lw_stores := lw_stores w, lw_disk := dk\<rparr>)"
    using broken(2,3) none by (intro unlock_keeps [where i = i, OF ok]) (auto simp: breakLock_def split: option.splits if_splits)
  then show ?thesis unfolding broken(1) by simp
next
  case (power x l)
  have x: "holds_acked sha w x" using log_okD(1) [OF ok power(2)] .
  show ?thesis unfolding power(1)
    using x by (intro log_okI; cases x) (auto simp: contents_def holds_acked_Some holds_acked_None)
qed

lemma run_keeps:
  assumes "digest_text sha" and "log_run sha w"
  shows "log_ok sha w"
  using assms(2)
proof induction
  case log_new
  show ?case by (rule log_okI) (simp_all add: new_log_def contents_def holds_acked_None)
qed (rule step_keeps [OF assms(1)])

end
