(* ===== verification/CollabStoreSafety.thy ===== *)
theory CollabStoreSafety
  imports CollabStoreTheorems
begin

text \<open>
  The properties of the log of a space, and small runs of stores over one disk on which they are applied.
\<close>

subsection \<open>A commit on which every call returns\<close>

lemma write_one_by_one:
  "(\<And>n. answers n = Wrote 1) \<Longrightarrow> offset \<le> length bytes \<Longrightarrow>
     \<exists>n. write_loop answers calls bytes offset dk = (True, n, fold append_byte (drop offset bytes) dk)"
proof (induction "length bytes - offset" arbitrary: offset calls dk)
  case 0
  then show ?case by (simp add: write_loop.simps)
next
  case (Suc m)
  then have o: "offset < length bytes" by simp
  define b where "b = bytes ! offset"
  have d: "drop offset bytes = b # drop (Suc offset) bytes" using o by (simp add: b_def Cons_nth_drop_Suc)
  have "write_loop answers calls bytes offset dk = write_loop answers (Suc calls) bytes (Suc offset) (append_byte b dk)"
    using o Suc.prems(1) by (subst write_loop.simps) (simp add: d written_def)
  moreover obtain n where "write_loop answers (Suc calls) bytes (Suc offset) (append_byte b dk) =
      (True, n, fold append_byte (drop (Suc offset) bytes) (append_byte b dk))"
    using Suc.hyps(1) [of "Suc offset"] Suc.hyps(2) Suc.prems(1) o by fastforce
  ultimately show ?case by (simp add: d)
qed

definition byte_by_byte :: "bool \<Rightarrow> commit_calls" where
  "byte_by_byte dir = \<lparr>cc_read = True, cc_open = True, cc_write = \<lambda>_. Wrote 1, cc_sync = True, cc_dir = dir, cc_close = True\<rparr>"

definition appended :: "bool \<Rightarrow> bool \<Rightarrow> bytes \<Rightarrow> disk \<Rightarrow> disk" where
  "appended created dir bytes dk =
     (let dk' = sync_file (fold append_byte bytes (create_log dk)) in if created \<or> \<not> dir then dk' else sync_dir dk')"

lemma append_byte_by_byte:
  "append_record (byte_by_byte dir) bytes created dk = (created \<or> dir, created \<or> dir, appended created dir bytes dk)"
proof -
  obtain n where "write_loop (\<lambda>_. Wrote 1) 0 bytes 0 (create_log dk) = (True, n, fold append_byte (drop 0 bytes) (create_log dk))"
    using write_one_by_one [of "\<lambda>_. Wrote 1" 0 bytes] by auto
  then show ?thesis by (cases created; cases dir) (simp_all add: append_record_def byte_by_byte_def appended_def)
qed

text \<open>The body that the log keeps of a row.\<close>

definition stored_body :: "row_body \<Rightarrow> row_body" where
  "stored_body row = (case sorted_json (JObj row) of Some (JObj body) \<Rightarrow> without_digest body | _ \<Rightarrow> [])"

lemma commit_byte_by_byte:
  assumes row: "js_row row" "digest_text sha" "encodeRecord sha row = Some t"
    and sp: "st_open st = Some sp" "\<not> os_closed sp" "\<not> os_failed sp"
    and rd: "completeRecords sha (log_bytes dk) = Inr (rs, length (log_bytes dk))"
    and e: "e = int (length rs)" "e \<le> 9007199254740991" "record_seq (stored_body row) = Some (e + 1)"
  shows "run_commit sha (byte_by_byte dir) (utf8_encode t) e st dk =
    (let created = os_logCreated sp; dk' = appended created dir (utf8_encode t) dk in
     if created \<or> dir
     then (Inr (), st\<lparr>st_open := Some (sp\<lparr>os_records := rs @ [stored_body row], os_logCreated := True\<rparr>)\<rparr>, dk')
     else (Inl LogFailed, st\<lparr>st_open := Some (sp\<lparr>os_failed := True, os_logCreated := False\<rparr>)\<rparr>, dk'))"
proof -
  obtain line body where b: "sorted_json (JObj row) = Some (JObj body)" "utf8_decode (utf8_encode t) = Some t"
      "decodeRecord sha t = Some (without_digest body)" using encoded_line [OF row] by metis
  have s: "stored_body row = without_digest body" unfolding stored_body_def b(1) by simp
  have "commit_body sha (byte_by_byte dir) (utf8_encode t) e sp dk =
      (if os_logCreated sp \<or> dir then Inr (rs @ [stored_body row]) else Inl LogFailed, os_logCreated sp \<or> dir,
       appended (os_logCreated sp) dir (utf8_encode t) dk)"
    using sp rd e b(2,3) read_last_seq [OF rd]
    by (simp add: commit_body_def append_byte_by_byte s) (simp add: byte_by_byte_def)
  then show ?thesis using sp(1) by (cases "os_logCreated sp"; cases dir) (simp_all add: run_commit_def Let_def)
qed

lemma appended_disk:
  "log_bytes (appended created dir bytes dk) = log_bytes dk @ bytes"
  "dk_log (appended created dir bytes dk) = Some (log_bytes dk @ bytes)"
  "dk_lock (appended created dir bytes dk) = dk_lock dk" "dk_inode (appended created dir bytes dk) = dk_inode dk"
  "None \<in> set (dk_past (appended created dir bytes dk)) \<longleftrightarrow>
     (created \<or> \<not> dir) \<and> (dk_log dk = None \<or> None \<in> set (dk_past dk))"
proof -
  define dk0 where "dk0 = create_log dk"
  have e: "log_bytes dk0 = log_bytes dk" "dk_log dk0 \<noteq> None" "dk_lock dk0 = dk_lock dk" "dk_inode dk0 = dk_inode dk"
      "None \<in> set (dk_past dk0) \<longleftrightarrow> dk_log dk = None \<or> None \<in> set (dk_past dk)"
    by (auto simp: dk0_def create_log_def log_bytes_def split: option.splits)
  note a = append_bytes [where bs = bytes and dk = dk0]
  have l: "dk_log (appended created dir bytes dk) = Some (log_bytes dk @ bytes)"
    using a(2) e by (simp add: appended_def Let_def dk0_def sync_file_def sync_dir_def)
  then show "dk_log (appended created dir bytes dk) = Some (log_bytes dk @ bytes)"
    "log_bytes (appended created dir bytes dk) = log_bytes dk @ bytes" by (simp_all add: log_bytes_def)
  show "dk_lock (appended created dir bytes dk) = dk_lock dk" "dk_inode (appended created dir bytes dk) = dk_inode dk"
    using a(3,4) e by (simp_all add: appended_def Let_def dk0_def sync_file_def sync_dir_def)
  show "None \<in> set (dk_past (appended created dir bytes dk)) \<longleftrightarrow>
     (created \<or> \<not> dir) \<and> (dk_log dk = None \<or> None \<in> set (dk_past dk))"
    using a(5) [OF e(2)] e(5) by (auto simp: appended_def Let_def dk0_def sync_file_def sync_dir_def)
qed

definition calls_ok :: load_calls where
  "calls_ok = \<lparr>lc_mkdir = True, lc_lock = True, lc_write = True, lc_lock_sync = True, lc_read = True, lc_open = True,
     lc_truncate = True, lc_sync = True, lc_close = True, lc_unlock = True\<rparr>"

lemma open_unlocked:
  assumes "dk_lock dk = None" and "completeRecords sha (log_bytes dk) = Inr (rs, length (log_bytes dk))"
  shows "store_open sha calls_ok \<lparr>st_instance = i, st_open = None\<rparr> dk =
    (Inr (), \<lparr>st_instance = i, st_open = Some \<lparr>os_records = rs, os_failed = False, os_closed = False,
        os_logCreated = dk_log dk \<noteq> None, os_inode = dk_inode dk\<rparr>\<rparr>,
     dk\<lparr>dk_lock := Some (dk_inode dk, Some i), dk_inode := Suc (dk_inode dk)\<rparr>)"
  using assms by (simp add: store_open_def load_def calls_ok_def Let_def recover_log_def log_bytes_def)

definition demo_sha :: "jstr \<Rightarrow> jstr" where
  "demo_sha t = [97]"

definition log_row :: "int \<Rightarrow> row_body" where
  "log_row n = [([115, 101, 113], JNum n)]"

lemma log_rows:
  "digest_text demo_sha" "js_row (log_row n)" "sorted_json (JObj (log_row n)) = Some (JObj (log_row n))"
  "without_digest (log_row n) = log_row n" "stored_body (log_row n) = log_row n"
  "\<exists>t. encodeRecord demo_sha (log_row n) = Some t"
  "\<bar>n\<bar> \<le> 9007199254740991 \<Longrightarrow> record_seq (log_row n) = Some n"
proof -
  have k: "sha_key = [115, 104, 97, 50, 53, 54]" "js ''seq'' = [115, 101, 113]" by code_simp+
  have o: "canonical_order [kv] = [kv]" for kv :: "jstr \<times> json" by (simp add: canonical_order_def own_order_def)
  show s: "sorted_json (JObj (log_row n)) = Some (JObj (log_row n))" by (simp add: log_row_def o)
  show w: "without_digest (log_row n) = log_row n" by (simp add: without_digest_def log_row_def k)
  show "stored_body (log_row n) = log_row n" unfolding stored_body_def s by (simp add: w)
  show "\<exists>t. encodeRecord demo_sha (log_row n) = Some t"
    unfolding encodeRecord_def encode_row_def s by (simp add: checksum_def w canonicalJson_def s del: sorted_json.simps)
  show "digest_text demo_sha" by (simp add: digest_text_def demo_sha_def)
  show "js_row (log_row n)" by (simp add: js_row_def log_row_def)
  show "\<bar>n\<bar> \<le> 9007199254740991 \<Longrightarrow> record_seq (log_row n) = Some n" by (simp add: record_seq_def log_row_def k)
qed

definition log_line :: "int \<Rightarrow> bytes" where
  "log_line n = utf8_encode (the (encodeRecord demo_sha (log_row n)))"

lemma log_line: "encodeRecord demo_sha (log_row n) = Some (the (encodeRecord demo_sha (log_row n)))"
  using log_rows(6) [of n] by auto

lemma demo_reads:
  assumes "completeRecords demo_sha bs = Inr (rs, length bs)" and "n = int (length rs) + 1" and "n \<le> 9007199254740991"
  shows "completeRecords demo_sha (bs @ log_line n) = Inr (rs @ [log_row n], length (bs @ log_line n))"
proof -
  obtain line body where b: "sorted_json (JObj (log_row n)) = Some (JObj body)"
      "log_line n = utf8_encode line @ [10]" "no_break (utf8_encode line)"
      "decode_bytes demo_sha (utf8_encode line) = Some (without_digest body)"
    unfolding log_line_def using encoded_line [OF log_rows(2,1) log_line] by metis
  then have "without_digest body = log_row n" using log_rows(4) [of n] unfolding log_rows(3) by auto
  then show ?thesis
    using append_reads(2) [OF assms(1) b(3,4), of "length (utf8_encode line @ [10])"] log_rows(7) [of n] assms(2,3) b(2) by simp
qed

lemma commit_expected:
  assumes "commit_body sha c bytes e sp dk = (Inr nx, created, dk')" and "completeRecords sha (log_bytes dk) = Inr (rs, n)"
  shows "e = int (length rs)"
  using assms read_last_seq [OF assms(2)] by (auto simp: commit_body_def split: if_splits option.splits prod.splits)

lemma demo_commit:
  assumes "st_open st = Some sp" "\<not> os_closed sp" "\<not> os_failed sp"
    and "completeRecords demo_sha (log_bytes dk) = Inr (rs, length (log_bytes dk))"
    and "e = int (length rs)" "e < 9007199254740991" and "n = e + 1"
  shows "run_commit demo_sha (byte_by_byte dir) (log_line n) e st dk =
    (let created = os_logCreated sp; dk' = appended created dir (log_line n) dk in
     if created \<or> dir
     then (Inr (), st\<lparr>st_open := Some (sp\<lparr>os_records := rs @ [log_row n], os_logCreated := True\<rparr>)\<rparr>, dk')
     else (Inl LogFailed, st\<lparr>st_open := Some (sp\<lparr>os_failed := True, os_logCreated := False\<rparr>)\<rparr>, dk'))"
proof -
  have "record_seq (stored_body (log_row n)) = Some (e + 1)" using log_rows(7) [of n] assms(5-7) by (simp add: log_rows(5))
  from commit_byte_by_byte [OF log_rows(2,1) log_line assms(1-5) _ this] assms(6)
  show ?thesis unfolding log_line_def log_rows(5) by simp
qed

subsection \<open>One store, one commit\<close>

definition demo_open :: log_world where
  "demo_open = new_log\<lparr>lw_stores := (\<lambda>_. None)([65] := Some \<lparr>os_records = [], os_failed = False, os_closed = False,
       os_logCreated = False, os_inode = 0\<rparr>),
     lw_disk := \<lparr>dk_log = None, dk_past = [], dk_lock = Some (0, Some [65]), dk_inode = 1\<rparr>\<rparr>"

lemma demo_opens: "log_run demo_sha demo_open"
proof -
  let ?dk = "lw_disk new_log"
  have d: "dk_lock ?dk = None" "log_bytes ?dk = []" "dk_log ?dk = None" "dk_inode ?dk = 0" "dk_past ?dk = []"
    by (simp_all add: new_log_def log_bytes_def)
  have "store_open demo_sha calls_ok (store_of new_log [65]) ?dk = (Inr (), \<lparr>st_instance = [65],
      st_open = Some \<lparr>os_records = [], os_failed = False, os_closed = False, os_logCreated = False, os_inode = 0\<rparr>\<rparr>,
      \<lparr>dk_log = None, dk_past = [], dk_lock = Some (0, Some [65]), dk_inode = 1\<rparr>)"
    using open_unlocked [of ?dk demo_sha "[]" "[65]"] d by (simp add: empty_reads store_of_def new_log_def)
  from log_more [OF log_new opened [OF this]] show ?thesis
    by (simp add: set_store_def demo_open_def unsynced_entry_def new_log_def)
qed

lemma demo_open_facts:
  "store_of demo_open [65] = \<lparr>st_instance = [65], st_open = Some \<lparr>os_records = [], os_failed = False, os_closed = False,
       os_logCreated = False, os_inode = 0\<rparr>\<rparr>"
  "log_bytes (lw_disk demo_open) = []" "dk_log (lw_disk demo_open) = None" "dk_past (lw_disk demo_open) = []"
  "dk_lock (lw_disk demo_open) = Some (0, Some [65])"
  by (simp_all add: demo_open_def store_of_def log_bytes_def)

lemma demo_commits:
  obtains w sp where "log_run demo_sha w" "lw_acked w = [log_row 1]" "lw_stores w [65] = Some sp"
    "\<not> os_failed sp" "dk_log (lw_disk w) = Some (log_line 1)" "None \<notin> set (dk_past (lw_disk w))"
proof -
  define sp where "sp = \<lparr>os_records = [log_row 1], os_failed = False, os_closed = False, os_logCreated = True, os_inode = 0\<rparr>"
  define dk where "dk = appended False True (log_line 1) (lw_disk demo_open)"
  have "run_commit demo_sha (byte_by_byte True) (log_line 1) 0 (store_of demo_open [65]) (lw_disk demo_open) =
      (Inr (), \<lparr>st_instance = [65], st_open = Some sp\<rparr>, dk)"
    using demo_commit [of "store_of demo_open [65]" _ "lw_disk demo_open" "[]" 0 1 True]
    by (simp add: demo_open_facts empty_reads sp_def dk_def)
  note step = committed [OF log_rows(2) log_line this [unfolded log_line_def]]
  show thesis
  proof (rule that [where sp = sp, OF log_more [OF demo_opens step]])
    show "dk_log (lw_disk (set_store [65] \<lparr>st_instance = [65], st_open = Some sp\<rparr> dk demo_open
        \<lparr>lw_acked := after_commit (Inr ()) \<lparr>st_instance = [65], st_open = Some sp\<rparr> (lw_acked demo_open)\<rparr>)) = Some (log_line 1)"
      by (simp add: set_store_def dk_def appended_disk demo_open_facts)
  qed (simp_all add: set_store_def after_commit_def dk_def appended_disk sp_def)
qed

subsection \<open>The properties\<close>

text \<open>
  C11: the log survives. After any run of stores over one disk - openings, commits, closings, broken locks,
  killed processes and losses of power, with every call of the file system free to fail - each content that
  a loss of power may leave reads back without an error, and as all records up to the last commit that
  returned; a torn tail is at most dropped. The log can be missing only if nothing was acknowledged or if a
  store took over a file whose directory entry had never been made durable.
\<close>

theorem acknowledged_records_survive:
  assumes "digest_text sha" and "log_run sha w" and "x \<in> contents (lw_disk w)"
  shows "case x of None \<Rightarrow> lw_acked w = [] \<or> lw_adopted w
    | Some bs \<Rightarrow> \<exists>rs n. completeRecords sha bs = Inr (rs, n) \<and> prefix (lw_acked w) rs"
  using log_okD(1) [OF run_keeps [OF assms(1,2)] assms(3)] by (cases x) (simp_all add: holds_acked_None holds_acked_Some)

theorem acknowledged_records_survive_witness:
  "\<exists>w bs rs n. log_run demo_sha w \<and> lw_acked w = [log_row 1] \<and> dk_log (lw_disk w) = Some bs
     \<and> completeRecords demo_sha bs = Inr (rs, n) \<and> prefix [log_row 1] rs"
proof -
  obtain w sp where w: "log_run demo_sha w" "lw_acked w = [log_row 1]" "dk_log (lw_disk w) = Some (log_line 1)"
    using demo_commits by metis
  have "Some (log_line 1) \<in> contents (lw_disk w)" using w(3) by (simp add: contents_def)
  from acknowledged_records_survive [OF log_rows(1) w(1) this] show ?thesis using w by auto
qed

text \<open>
  C13: one writer, and it serves the log. In every run at most one store has the space open, and unless a
  commit of it failed, the records it serves are exactly those of the log on disk, with no torn tail behind
  them.
\<close>

theorem serving_store_mirrors_the_log:
  assumes "digest_text sha" and "log_run sha w" and "lw_stores w i = Some sp"
  shows "(\<forall>j. j \<noteq> i \<longrightarrow> lw_stores w j = None) \<and>
    (os_failed sp \<or> completeRecords sha (log_bytes (lw_disk w)) = Inr (os_records sp, length (log_bytes (lw_disk w))))"
proof -
  note ok = run_keeps [OF assms(1,2)]
  have "lw_stores w j = None" if "j \<noteq> i" for j using one_open [OF ok _ assms(3)] that by (cases "lw_stores w j") auto
  then show ?thesis using log_okD(3) [OF ok assms(3)] by (simp add: store_ok_def)
qed

theorem serving_store_mirrors_the_log_witness:
  "\<exists>w sp. log_run demo_sha w \<and> lw_stores w [65] = Some sp \<and>
     completeRecords demo_sha (log_line 1) = Inr (os_records sp, length (log_line 1))"
proof -
  obtain w sp where w: "log_run demo_sha w" "lw_stores w [65] = Some sp" "\<not> os_failed sp"
      "dk_log (lw_disk w) = Some (log_line 1)"
    using demo_commits by metis
  from serving_store_mirrors_the_log [OF log_rows(1) w(1,2)] show ?thesis using w by (auto simp: log_bytes_def)
qed

text \<open>
  C12: the file implements an append-only log. After a commit the log reads without an error; if the commit
  returned, it holds what it held, which is what the store served, and the canonical body of the new record; if
  it failed, the log holds what it held and perhaps that body, nothing else.
\<close>

theorem commit_appends_one_or_nothing:
  assumes "digest_text sha" and "log_run sha w" and "lw_stores w i = Some sp"
    and "js_row row" and "encodeRecord sha row = Some t"
    and "completeRecords sha (log_bytes (lw_disk w)) = Inr (rs, n)"
    and "run_commit sha c (utf8_encode t) e (store_of w i) (lw_disk w) = (r, st, dk)"
  shows "\<exists>rs' n'. completeRecords sha (log_bytes dk) = Inr (rs', n') \<and>
    (case r of Inr _ \<Rightarrow> rs = os_records sp \<and> rs' = rs @ [stored_body row] \<and> e = int (length rs)
     | Inl _ \<Rightarrow> rs' = rs \<or> rs' = rs @ [stored_body row])"
proof -
  have sp: "store_ok sha w i sp" using log_okD(3) [OF run_keeps [OF assms(1,2)] assms(3)] .
  obtain created b where cb: "commit_body sha c (utf8_encode t) e sp (lw_disk w) = (b, created, dk)"
      "r = (case b of Inl err \<Rightarrow> Inl err | Inr _ \<Rightarrow> Inr ())"
    using assms(3,7) by (auto simp: run_commit_def store_of_def split: prod.splits sum.splits)
  obtain line body where b: "sorted_json (JObj row) = Some (JObj body)" "utf8_encode t = utf8_encode line @ [10]"
      "decode_bytes sha (utf8_encode line) = Some (without_digest body)"
    using encoded_line [OF assms(4,1,5)] by metis
  have s: "stored_body row = without_digest body" unfolding stored_body_def b(1) by simp
  show ?thesis
  proof (cases rule: commit_bodyE [OF assms(4,1,5) cb(1)])
    case (1 err)
    then show ?thesis using assms(6) cb(2) by auto
  next
    case (2 rs0 l nx ok)
    have rs: "rs0 = rs" "os_records sp = rs" using 2(1,2) assms(6) sp by (auto simp: store_ok_def)
    have nx: "nx = stored_body row" using 2(3,5) b(2,3) s by simp
    obtain j where j: "j \<le> length (l @ [10])" "log_bytes dk = log_bytes (lw_disk w) @ take j (l @ [10])"
      using append_log [OF 2(7)] .
    note part = append_reads(1) [OF 2(2,4,5,6) j(1), folded j(2)]
    show ?thesis
    proof (cases ok)
      case True
      have "log_bytes dk = log_bytes (lw_disk w) @ l @ [10]" using append_outcome(8) [OF 2(7) True] by (simp add: log_bytes_def)
      then have "completeRecords sha (log_bytes dk) = Inr (rs @ [nx], length (log_bytes dk))"
        using append_reads(2) [OF 2(2,4,5,6) le_refl] rs(1) by simp
      moreover have "e = int (length rs)" using commit_expected [of sha c "utf8_encode t" e sp "lw_disk w" _ created dk] cb(1) 2(2,8) True rs(1) by simp
      ultimately show ?thesis using 2(8) True rs nx cb(2) by simp
    next
      case False
      then show ?thesis using part 2(8) rs(1) nx cb(2) by (auto split: if_splits)
    qed
  qed
qed

theorem commit_appends_one_or_nothing_witness:
  "\<exists>st dk n. run_commit demo_sha (byte_by_byte True) (utf8_encode (the (encodeRecord demo_sha (log_row 1)))) 0
      (store_of demo_open [65]) (lw_disk demo_open) = (Inr (), st, dk)
    \<and> completeRecords demo_sha (log_bytes dk) = Inr ([log_row 1], n)"
proof -
  obtain st dk where c: "run_commit demo_sha (byte_by_byte True) (utf8_encode (the (encodeRecord demo_sha (log_row 1)))) 0
      (store_of demo_open [65]) (lw_disk demo_open) = (Inr (), st, dk)"
    using demo_commit [of "store_of demo_open [65]" _ "lw_disk demo_open" "[]" 0 1 True]
    by (simp add: demo_open_facts empty_reads log_line_def)
  obtain sp where sp: "lw_stores demo_open [65] = Some sp" by (simp add: demo_open_def)
  have rd: "completeRecords demo_sha (log_bytes (lw_disk demo_open)) = Inr ([], 0)" by (simp add: demo_open_facts empty_reads)
  from commit_appends_one_or_nothing [OF log_rows(1) demo_opens sp log_rows(2) log_line rd c] c
  show ?thesis by (auto simp: log_rows(5))
qed

text \<open>
  C14: the write loop ends. Whatever the calls of \<open>write\<close> answer - short writes, a zero or oversized count,
  an exception after any number of bytes - the loop makes at most as many calls as there are bytes, and the
  log has grown by the whole record when it succeeds and by a part of it when it fails.
\<close>

theorem write_loop_ends:
  "case write_loop answers 0 bytes 0 dk of (ok, n, dk') \<Rightarrow>
     n \<le> length bytes \<and> (\<exists>j \<le> length bytes. log_bytes dk' = log_bytes dk @ take j bytes \<and> (if ok then j = length bytes else True))"
proof -
  obtain ok n dk' where w: "write_loop answers 0 bytes 0 dk = (ok, n, dk')" by (rule prod_cases3)
  obtain j where "j \<le> length bytes" "dk' = fold append_byte (take j bytes) dk" "ok \<longrightarrow> j = length bytes" "n \<le> length bytes"
    using write_loop_appends [OF _ w] by auto
  then show ?thesis using append_bytes(1) w by auto
qed

lemma written_rows_read:
  assumes "digest_text sha" and "list_all js_row rows"
    and "\<And>k. k < length rows \<Longrightarrow> encodeRecord sha (rows ! k) \<noteq> None"
    and "\<And>k. k < length rows \<Longrightarrow> record_seq (stored_body (rows ! k)) = Some (int k + 1)"
  shows "completeRecords sha (concat (map (\<lambda>r. utf8_encode (the (encodeRecord sha r))) rows)) =
    Inr (map stored_body rows, length (concat (map (\<lambda>r. utf8_encode (the (encodeRecord sha r))) rows)))"
  using assms(2-)
proof (induction rows rule: rev_induct)
  case (snoc r rows)
  define bs where "bs = concat (map (\<lambda>r. utf8_encode (the (encodeRecord sha r))) rows)"
  have "encodeRecord sha (rows ! k) \<noteq> None" "record_seq (stored_body (rows ! k)) = Some (int k + 1)"
    if "k < length rows" for k using snoc.prems(2,3) [of k] that by (simp_all add: nth_append)
  then have ih: "completeRecords sha bs = Inr (map stored_body rows, length bs)"
    using snoc.IH snoc.prems(1) by (simp add: bs_def)
  have r: "js_row r" "encodeRecord sha r \<noteq> None" "record_seq (stored_body r) = Some (int (length (map stored_body rows)) + 1)"
    using snoc.prems(1) snoc.prems(2,3) [of "length rows"] by simp_all
  obtain t where t: "encodeRecord sha r = Some t" using r(2) by blast
  obtain line body where b: "sorted_json (JObj r) = Some (JObj body)" "utf8_encode t = utf8_encode line @ [10]"
      "no_break (utf8_encode line)" "decode_bytes sha (utf8_encode line) = Some (without_digest body)"
    using encoded_line [OF r(1) assms(1) t] by metis
  have "stored_body r = without_digest body" unfolding stored_body_def b(1) by simp
  then show ?case using append_reads(2) [OF ih b(3,4) _ le_refl] r(3) b(2) t by (simp add: bs_def)
qed (simp add: empty_reads)

text \<open>
  C15: rows survive the file. The lines that \<open>encodeRecord\<close> writes for any rows numbered from one - strings
  with quotes, control characters, lone surrogates and characters outside the basic plane, numbers, nested
  values - go through UTF-8, are split into lines and parsed again, and read back as exactly the canonical
  bodies of these rows, to the last byte.
\<close>

theorem written_rows_read_back:
  assumes "digest_text sha" and "list_all js_row rows"
    and "\<And>k. k < length rows \<Longrightarrow> encodeRecord sha (rows ! k) \<noteq> None"
    and "\<And>k. k < length rows \<Longrightarrow> record_seq (stored_body (rows ! k)) = Some (int k + 1)"
    and "content = concat (map (\<lambda>r. utf8_encode (the (encodeRecord sha r))) rows)"
  shows "completeRecords sha content = Inr (map stored_body rows, length content)"
  using written_rows_read [OF assms(1-4)] by (simp add: assms(5))

theorem written_rows_read_back_witness:
  "completeRecords demo_sha (log_line 1 @ log_line 2) = Inr ([log_row 1, log_row 2], length (log_line 1 @ log_line 2))"
proof -
  have k: "k < length [log_row 1, log_row 2] \<Longrightarrow> k = 0 \<or> k = 1" for k by auto
  have "completeRecords demo_sha (log_line 1 @ log_line 2) =
      Inr (map stored_body [log_row 1, log_row 2], length (log_line 1 @ log_line 2))"
  proof (rule written_rows_read_back [OF log_rows(1)])
    show "encodeRecord demo_sha ([log_row 1, log_row 2] ! k) \<noteq> None" if "k < length [log_row 1, log_row 2]" for k
      using k [OF that] log_rows(6) [of 1] log_rows(6) [of 2] by auto
    show "record_seq (stored_body ([log_row 1, log_row 2] ! k)) = Some (int k + 1)" if "k < length [log_row 1, log_row 2]" for k
      using k [OF that] log_rows(7) [of 1] log_rows(7) [of 2] by (auto simp: log_rows(5))
  qed (simp_all add: log_rows(2) log_line_def)
  then show ?thesis by (simp add: log_rows(5))
qed

subsection \<open>An entry that was never made durable\<close>

lemma demo_stopped:
  obtains w where "log_run demo_sha w" "dk_log (lw_disk w) = Some (log_line 1)" "dk_lock (lw_disk w) = None"
    "None \<in> set (dk_past (lw_disk w))" "lw_stores w = (\<lambda>_. None)"
proof -
  define sp1 where "sp1 = \<lparr>os_records = [], os_failed = True, os_closed = False, os_logCreated = False, os_inode = 0\<rparr>"
  define dk1 where "dk1 = appended False False (log_line 1) (lw_disk demo_open)"
  define w1 where "w1 = set_store [65] \<lparr>st_instance = [65], st_open = Some sp1\<rparr> dk1 demo_open"
  have "run_commit demo_sha (byte_by_byte False) (log_line 1) 0 (store_of demo_open [65]) (lw_disk demo_open) =
      (Inl LogFailed, \<lparr>st_instance = [65], st_open = Some sp1\<rparr>, dk1)"
    using demo_commit [of "store_of demo_open [65]" _ "lw_disk demo_open" "[]" 0 1 False]
    by (simp add: demo_open_facts empty_reads sp1_def dk1_def)
  from log_more [OF demo_opens committed [OF log_rows(2) log_line this [unfolded log_line_def]]]
  have r1: "log_run demo_sha w1" by (simp add: w1_def after_commit_def set_store_def demo_open_def)
  have d1: "dk_log dk1 = Some (log_line 1)" "dk_lock dk1 = Some (0, Some [65])" "None \<in> set (dk_past dk1)"
    by (simp_all add: dk1_def appended_disk demo_open_facts)
  define dk2 where "dk2 = dk1\<lparr>dk_lock := None\<rparr>"
  define w2 where "w2 = set_store [65] \<lparr>st_instance = [65], st_open = None\<rparr> dk2 w1"
  have "store_close True (store_of w1 [65]) (lw_disk w1) = (\<lparr>st_instance = [65], st_open = None\<rparr>, dk2)"
    by (simp add: store_close_def store_of_def w1_def set_store_def removeOwnedLock_def sp1_def d1 dk2_def)
  from log_more [OF r1 closed [OF this]] have r2: "log_run demo_sha w2" by (simp add: w2_def)
  show thesis
    by (rule that [OF r2]) (use d1 in \<open>auto simp: w2_def w1_def dk2_def set_store_def demo_open_def\<close>)
qed

text \<open>
  C16: a lost log. A first commit writes and syncs the file and is stopped before the directory is synced; the
  next store finds the file, takes its entry for durable and never syncs the directory. A commit that it
  acknowledges disappears with the whole log in a loss of power.
\<close>

theorem acknowledged_record_can_vanish:
  "\<exists>w w'. log_run demo_sha w \<and> lw_acked w = [log_row 1, log_row 2] \<and> log_step demo_sha w w' \<and> dk_log (lw_disk w') = None"
proof -
  obtain w2 where r2: "log_run demo_sha w2" and d2: "dk_log (lw_disk w2) = Some (log_line 1)" "dk_lock (lw_disk w2) = None"
      "None \<in> set (dk_past (lw_disk w2))" "lw_stores w2 = (\<lambda>_. None)" by (rule demo_stopped)
  define sp3 where "sp3 = \<lparr>os_records = [log_row 1], os_failed = False, os_closed = False, os_logCreated = True, os_inode = dk_inode (lw_disk w2)\<rparr>"
  define dk3 where "dk3 = (lw_disk w2)\<lparr>dk_lock := Some (dk_inode (lw_disk w2), Some [66]), dk_inode := Suc (dk_inode (lw_disk w2))\<rparr>"
  define w3 where "w3 = set_store [66] \<lparr>st_instance = [66], st_open = Some sp3\<rparr> dk3 w2\<lparr>lw_adopted := lw_adopted w2 \<or> unsynced_entry (lw_disk w2)\<rparr>"
  have l2: "log_bytes (lw_disk w2) = log_line 1" using d2(1) by (simp add: log_bytes_def)
  have rd: "completeRecords demo_sha (log_line 1) = Inr ([log_row 1], length (log_line 1))"
    using demo_reads [of "[]" "[]" 1] by (simp add: empty_reads)
  have "store_of w2 [66] = \<lparr>st_instance = [66], st_open = None\<rparr>"
    by (simp add: store_of_def d2(4))
  then have "store_open demo_sha calls_ok (store_of w2 [66]) (lw_disk w2) = (Inr (), \<lparr>st_instance = [66], st_open = Some sp3\<rparr>, dk3)"
    using open_unlocked [of "lw_disk w2" demo_sha "[log_row 1]" "[66]"] l2 d2 rd by (simp add: sp3_def dk3_def)
  from log_more [OF r2 opened [OF this]] have r3: "log_run demo_sha w3" by (simp add: w3_def)
  have d3: "log_bytes (lw_disk w3) = log_line 1" "store_of w3 [66] = \<lparr>st_instance = [66], st_open = Some sp3\<rparr>" "None \<in> set (dk_past (lw_disk w3))"
    using l2 d2(3) by (simp_all add: w3_def set_store_def dk3_def log_bytes_def store_of_def)
  define sp4 where "sp4 = sp3\<lparr>os_records := [log_row 1, log_row 2]\<rparr>"
  define dk4 where "dk4 = appended True True (log_line 2) (lw_disk w3)"
  define w4 where "w4 = set_store [66] \<lparr>st_instance = [66], st_open = Some sp4\<rparr> dk4 w3\<lparr>lw_acked := [log_row 1, log_row 2]\<rparr>"
  have "run_commit demo_sha (byte_by_byte True) (log_line 2) 1 (store_of w3 [66]) (lw_disk w3) =
      (Inr (), \<lparr>st_instance = [66], st_open = Some sp4\<rparr>, dk4)"
    using demo_commit [of "store_of w3 [66]" sp3 "lw_disk w3" "[log_row 1]" 1 2 True]
    by (simp add: d3 rd sp3_def sp4_def dk4_def)
  from log_more [OF r3 committed [OF log_rows(2) log_line this [unfolded log_line_def]]]
  have r4: "log_run demo_sha w4" by (simp add: w4_def after_commit_def sp4_def)
  have "None \<in> contents (lw_disk w4)"
    using d3(3) by (simp add: contents_def w4_def set_store_def dk4_def appended_disk)
  from power [OF this, of "dk_lock (lw_disk w4)" demo_sha] r4 show ?thesis
    by (intro exI [of _ w4] exI conjI) (auto simp: w4_def)
qed

end
