(* ===== verification/CollabSalvage.thy ===== *)
theory CollabSalvage
  imports CollabLines "HOL-Library.Sublist"
begin

text \<open>
  Offline repair of a corrupt log: \<^verbatim>\<open>packages/dsh-collab/src/salvage.ts\<close>. The directory of the data holds the
  log, the temporary file, the backups by name and the lock with the instance id that can be read from it. Every
  call may fail; the result comes with the states the directory goes through, where a kill would leave it. The
  texts for the operator are left out.
\<close>

subsection \<open>\<open>scanLog\<close>\<close>

record log_scan =
  sc_kept :: nat
  sc_bytes :: nat
  sc_bad :: "nat option"

function scan_from :: "(jstr \<Rightarrow> jstr) \<Rightarrow> bytes \<Rightarrow> nat \<Rightarrow> nat \<Rightarrow> nat \<Rightarrow> log_scan" where
  "scan_from sha raw complete offset kept =
     (if offset < complete
      then (let line = takeWhile (\<lambda>b. b \<noteq> 10) (drop offset raw);
                record_of = (case utf8_decode line of None \<Rightarrow> None | Some s \<Rightarrow> decodeRecord sha s)
            in case record_of of
                 None \<Rightarrow> \<lparr>sc_kept = kept, sc_bytes = offset, sc_bad = Some (kept + 1)\<rparr>
               | Some r \<Rightarrow>
                   if record_seq r \<noteq> Some (int kept + 1)
                   then \<lparr>sc_kept = kept, sc_bytes = offset, sc_bad = Some (kept + 1)\<rparr>
                   else scan_from sha raw complete (offset + length line + 1) (kept + 1))
      else \<lparr>sc_kept = kept, sc_bytes = offset, sc_bad = None\<rparr>)"
  by pat_completeness auto
termination
  by (relation "measure (\<lambda>(sha, raw, complete, offset, kept). complete - offset)") auto

declare scan_from.simps [simp del]

definition scanLog :: "(jstr \<Rightarrow> jstr) \<Rightarrow> bytes \<Rightarrow> log_scan" where
  "scanLog sha raw = scan_from sha raw (complete_bytes raw) 0 0"

subsection \<open>\<open>salvage\<close>\<close>

record salvage_dir =
  sd_log :: "bytes option"
  sd_tmp :: "bytes option"
  sd_backup :: "jstr \<Rightarrow> bytes option"
  sd_lock :: "jstr option option"

text \<open>What the calls answer; \<open>sv_tmp\<close> is how many bytes reached the temporary file when its writing threw.\<close>

record salvage_calls =
  sv_lock :: bool
  sv_lock_text :: bool
  sv_stat :: bool
  sv_read :: bool
  sv_tmp_open :: bool
  sv_tmp :: "nat option"
  sv_tmp_unlink :: bool
  sv_link :: bool
  sv_link_sync :: bool
  sv_replace :: bool
  sv_replace_sync :: bool
  sv_release :: bool

datatype salvage_result = SalvageRefused | SalvageFailed | NothingCorrupt nat | Salvaged nat nat

text \<open>The space id: a letter or digit, then up to 127 letters, digits, dots, underscores and dashes.\<close>

definition letter_or_digit :: "nat \<Rightarrow> bool" where
  "letter_or_digit u \<longleftrightarrow> 48 \<le> u \<and> u \<le> 57 \<or> 65 \<le> u \<and> u \<le> 90 \<or> 97 \<le> u \<and> u \<le> 122"

definition valid_space_id :: "jstr \<Rightarrow> bool" where
  "valid_space_id s = (case s of
     [] \<Rightarrow> False
   | u # us \<Rightarrow> letter_or_digit u \<and> length us \<le> 127 \<and> list_all (\<lambda>v. letter_or_digit v \<or> v = 46 \<or> v = 95 \<or> v = 45) us)"

definition salvage_release :: "salvage_calls \<Rightarrow> jstr \<Rightarrow> salvage_dir \<Rightarrow> salvage_dir" where
  "salvage_release c me d = (if sv_release c \<and> sd_lock d = Some (Some me) then d\<lparr>sd_lock := None\<rparr> else d)"

text \<open>The first free backup name among the base and its numbered variants; \<open>n\<close> names are left to try.\<close>

definition backup_name :: "jstr \<Rightarrow> nat \<Rightarrow> jstr" where
  "backup_name base n = (if n = 0 then base else base @ [45] @ decimal n)"

fun link_backup :: "bool \<Rightarrow> jstr \<Rightarrow> (jstr \<Rightarrow> bytes option) \<Rightarrow> nat \<Rightarrow> jstr option" where
  "link_backup links base backups 0 = None"
| "link_backup links base backups (Suc n) =
     (let name = backup_name base (99 - n) in
      if backups name \<noteq> None then link_backup links base backups n
      else if links then Some name else None)"

text \<open>The atomic replacement, or the removal when no record is valid.\<close>

definition salvage_replace :: "salvage_calls \<Rightarrow> jstr \<Rightarrow> log_scan \<Rightarrow> salvage_dir \<Rightarrow> salvage_result \<times> salvage_dir list" where
  "salvage_replace c me scan d =
     (if \<not> sv_replace c then (SalvageFailed, [salvage_release c me d])
      else let d1 = (if 0 < sc_kept scan then d\<lparr>sd_log := sd_tmp d, sd_tmp := None\<rparr> else d\<lparr>sd_log := None\<rparr>);
               d2 = (if sc_kept scan = 0 \<and> sv_tmp_unlink c then d1\<lparr>sd_tmp := None\<rparr> else d1)
           in (if sv_replace_sync c then Salvaged (sc_kept scan) (the (sc_bad scan)) else SalvageFailed,
               [d1, d2, salvage_release c me d2]))"

definition salvage_backup ::
  "salvage_calls \<Rightarrow> jstr \<Rightarrow> jstr \<Rightarrow> bytes \<Rightarrow> log_scan \<Rightarrow> salvage_dir \<Rightarrow> salvage_result \<times> salvage_dir list" where
  "salvage_backup c base me raw scan d =
     (case link_backup (sv_link c) base (sd_backup d) 100 of
        None \<Rightarrow> (SalvageFailed, [salvage_release c me d])
      | Some name \<Rightarrow>
          let d1 = d\<lparr>sd_backup := (sd_backup d)(name := Some raw)\<rparr> in
          if \<not> sv_link_sync c then (SalvageFailed, [d1, salvage_release c me d1])
          else (case salvage_replace c me scan d1 of (r, ds) \<Rightarrow> (r, d1 # ds)))"

text \<open>The valid prefix goes to a temporary file first; a failure removes it.\<close>

definition salvage_write ::
  "salvage_calls \<Rightarrow> jstr \<Rightarrow> jstr \<Rightarrow> bytes \<Rightarrow> log_scan \<Rightarrow> salvage_dir \<Rightarrow> salvage_result \<times> salvage_dir list" where
  "salvage_write c base me raw scan d =
     (if sc_kept scan = 0 then salvage_backup c base me raw scan d
      else let bytes = take (sc_bytes scan) raw;
               opens = sv_tmp_open c \<and> sd_tmp d = None;
               d1 = (if opens then d\<lparr>sd_tmp := Some (case sv_tmp c of None \<Rightarrow> bytes | Some k \<Rightarrow> take k bytes)\<rparr> else d)
           in if opens \<and> sv_tmp c = None
              then (case salvage_backup c base me raw scan d1 of (r, ds) \<Rightarrow> (r, d1 # ds))
              else let d2 = (if sv_tmp_unlink c then d1\<lparr>sd_tmp := None\<rparr> else d1)
                   in (SalvageFailed, [d1, d2, salvage_release c me d2]))"

definition salvage ::
  "(jstr \<Rightarrow> jstr) \<Rightarrow> salvage_calls \<Rightarrow> jstr \<Rightarrow> jstr \<Rightarrow> jstr \<Rightarrow> bool \<Rightarrow> salvage_dir \<Rightarrow> salvage_result \<times> salvage_dir list" where
  "salvage sha c base me spaceId absolute d =
     (if \<not> absolute \<or> \<not> valid_space_id spaceId then (SalvageRefused, [d])
      else if sd_lock d \<noteq> None \<or> \<not> sv_lock c then (SalvageRefused, [d])
      else if \<not> sv_lock_text c then (SalvageRefused, [d, d\<lparr>sd_lock := Some None\<rparr>])
      else let d1 = d\<lparr>sd_lock := Some (Some me)\<rparr>; off = salvage_release c me in
           if sd_tmp d1 \<noteq> None \<and> sv_stat c then (SalvageRefused, [d, d1, off d1])
           else (case (sd_log d1, sv_read c) of
                   (Some raw, True) \<Rightarrow>
                     (let scan = scanLog sha raw in
                      if sc_bad scan = None then (NothingCorrupt (sc_kept scan), [d, d1, off d1])
                      else (case salvage_write c base me raw scan d1 of (r, ds) \<Rightarrow> (r, d # d1 # ds)))
                 | _ \<Rightarrow> (SalvageRefused, [d, d1, off d1])))"

subsection \<open>The scan finds the longest readable prefix\<close>

fun good_lines :: "(jstr \<Rightarrow> jstr) \<Rightarrow> nat \<Rightarrow> bytes list \<Rightarrow> nat" where
  "good_lines sha k [] = 0"
| "good_lines sha k (l # ls) = (if next_record sha k l = None then 0 else Suc (good_lines sha (Suc k) ls))"

lemma scan_good:
  assumes "list_all no_break (ps @ qs)" and "no_break t" and "raw = unlines (ps @ qs) @ t"
  shows "scan_from sha raw (length (unlines (ps @ qs))) (length (unlines ps)) (length ps) =
    (let m = good_lines sha (length ps) qs in
     \<lparr>sc_kept = length ps + m, sc_bytes = length (unlines (ps @ take m qs)),
      sc_bad = if m < length qs then Some (length ps + m + 1) else None\<rparr>)"
  using assms
proof (induction qs arbitrary: ps)
  case Nil
  then show ?case by (simp add: scan_from.simps)
next
  case (Cons l qs)
  have line: "takeWhile (\<lambda>b. b \<noteq> 10) (drop (length (unlines ps)) raw) = l"
  proof -
    have "\<And>b. b \<in> set l \<Longrightarrow> b \<noteq> 10" using Cons.prems(1) by (auto simp: no_break_def)
    then have "takeWhile (\<lambda>b. b \<noteq> 10) (l @ 10 # unlines qs @ t) = l @ takeWhile (\<lambda>b. b \<noteq> 10) (10 # unlines qs @ t)"
      by (rule takeWhile_append2)
    then show ?thesis using Cons.prems(3) by simp
  qed
  have less: "length (unlines ps) < length (unlines (ps @ l # qs))" by simp
  note step = scan_from.simps [of sha raw "length (unlines (ps @ l # qs))" "length (unlines ps)" "length ps",
      unfolded line Let_def if_P [OF less], folded decode_bytes_def]
  show ?case
  proof (cases "next_record sha (length ps) l")
    case None
    have "decode_bytes sha l = None \<or> (\<exists>r. decode_bytes sha l = Some r \<and> record_seq r \<noteq> Some (int (length ps) + 1))"
      using None by (auto simp: next_record_def split: option.splits if_splits)
    then show ?thesis using step None by (auto simp: Let_def)
  next
    case (Some r)
    then have "decode_bytes sha l = Some r" "record_seq r = Some (int (length ps) + 1)"
      by (auto simp: next_record_def split: option.splits if_splits)
    then have "scan_from sha raw (length (unlines (ps @ l # qs))) (length (unlines ps)) (length ps) =
        scan_from sha raw (length (unlines ((ps @ [l]) @ qs))) (length (unlines (ps @ [l]))) (length (ps @ [l]))"
      using step by simp
    then show ?thesis using Cons.IH [of "ps @ [l]"] Cons.prems Some by (simp add: Let_def)
  qed
qed

lemma good_lines_read:
  "\<exists>rs. read_bytes sha k (take (good_lines sha k ls) ls) = Some rs" "good_lines sha k ls \<le> length ls"
  "read_bytes sha k (take j ls) = Some rs \<Longrightarrow> j \<le> length ls \<Longrightarrow> j \<le> good_lines sha k ls"
proof (induction ls arbitrary: k j rs)
  case (Cons l ls)
  { case 1 show ?case using Cons(1) [of "Suc k"] by (auto split: option.splits) }
  { case 2 show ?case using Cons(2) [of "Suc k"] by simp }
  { case 3 then show ?case using Cons(3) [of "Suc k" "j - 1"] by (cases j) (auto split: option.splits) }
qed simp_all

lemma scan_lines:
  assumes "list_all no_break ls" and "no_break t" and "raw = unlines ls @ t"
  shows "scanLog sha raw = \<lparr>sc_kept = good_lines sha 0 ls, sc_bytes = length (unlines (take (good_lines sha 0 ls) ls)),
    sc_bad = if good_lines sha 0 ls < length ls then Some (good_lines sha 0 ls + 1) else None\<rparr>"
  using scan_good [of "[]" ls t raw sha] assms by (simp add: scanLog_def complete_bytes_lines Let_def)

lemma lines_take:
  "list_all no_break ls \<Longrightarrow> no_break t \<Longrightarrow>
     \<exists>j t'. take n (unlines ls @ t) = unlines (take j ls) @ t' \<and> no_break t' \<and> j \<le> length ls"
proof (induction ls arbitrary: n)
  case Nil
  then show ?case by (auto intro: no_break_take)
next
  case (Cons l ls)
  show ?case
  proof (cases "n \<le> length l")
    case True
    then have "take n (unlines (l # ls) @ t) = take n l" by simp
    then show ?thesis using Cons.prems(1) by (intro exI [of _ 0]) (simp add: no_break_take)
  next
    case False
    obtain m where m: "n = Suc (length l + m)" using False by (auto simp: not_le less_iff_Suc_add)
    obtain j t' where j: "take m (unlines ls @ t) = unlines (take j ls) @ t'" "no_break t'" "j \<le> length ls"
      using Cons.IH [OF _ Cons.prems(2), of m] Cons.prems(1) by (auto simp del: take_append)
    have "take n (unlines (l # ls) @ t) = l @ 10 # take m (unlines ls @ t)" by (simp add: m)
    then show ?thesis using j by (intro exI [of _ "Suc j"] exI [of _ t']) simp
  qed
qed

lemma scan_reads:
  obtains rs where "completeRecords sha (take (sc_bytes (scanLog sha raw)) raw) = Inr (rs, sc_bytes (scanLog sha raw))"
    "length rs = sc_kept (scanLog sha raw)"
proof -
  obtain ls t where l: "raw = unlines ls @ t" "list_all no_break ls" "no_break t" by (rule lines_exist)
  define m where "m = good_lines sha 0 ls"
  note s = scan_lines [OF l(2,3,1), of sha, folded m_def]
  obtain rs where rs: "read_bytes sha 0 (take m ls) = Some rs" using good_lines_read(1) [of sha 0 ls] by (auto simp: m_def)
  have len: "m \<le> length ls" using good_lines_read(2) by (simp add: m_def)
  have "raw = unlines (take m ls) @ unlines (drop m ls) @ t" using l(1) unlines_simps(3) [of "take m ls" "drop m ls"] by simp
  then have "take (length (unlines (take m ls))) raw = unlines (take m ls) @ []" by simp
  moreover have "list_all no_break (take m ls)" using l(2) by (auto simp: list_all_iff dest: in_set_takeD)
  ultimately have "completeRecords sha (take (length (unlines (take m ls))) raw) = Inr (rs, length (unlines (take m ls)))"
    using complete_lines [of "take m ls" "[]" sha] rs by simp
  moreover have "length rs = m" using read_bytes_length [OF rs] len by simp
  ultimately show thesis using that by (simp add: s)
qed

lemma scan_no_bad:
  "(sc_bad (scanLog sha raw) = None) = (\<exists>rs n. completeRecords sha raw = Inr (rs, n))"
proof -
  obtain ls t where l: "raw = unlines ls @ t" "list_all no_break ls" "no_break t" by (rule lines_exist)
  note s = scan_lines [OF l(2,3,1), of sha]
  have "(\<exists>rs n. completeRecords sha raw = Inr (rs, n)) \<longleftrightarrow> read_bytes sha 0 ls \<noteq> None"
    using complete_lines [OF l(2,3), of sha] l(1) by (cases "read_bytes sha 0 ls") simp_all
  moreover have "read_bytes sha 0 ls \<noteq> None \<longleftrightarrow> \<not> good_lines sha 0 ls < length ls"
    using good_lines_read(1,2) [of sha 0 ls] good_lines_read(3) [of sha 0 "length ls" ls]
    by (cases "read_bytes sha 0 ls") auto
  ultimately show ?thesis by (simp add: s)
qed

text \<open>
  C17: the repair tool reads like the store. \<open>scanLog\<close>, which decodes line by line, keeps a prefix that the
  store's \<open>completeRecords\<close>, which decodes the whole buffer, reads as the same number of records; it reports no
  bad line exactly when the store can read the log; and no longer prefix of the file holds more that the store
  could read.
\<close>

theorem scan_finds_the_readable_prefix:
  "(\<exists>rs. completeRecords sha (take (sc_bytes (scanLog sha raw)) raw) = Inr (rs, sc_bytes (scanLog sha raw))
      \<and> length rs = sc_kept (scanLog sha raw))
    \<and> (sc_bad (scanLog sha raw) = None) = (\<exists>rs n. completeRecords sha raw = Inr (rs, n))
    \<and> (case completeRecords sha (take n raw) of Inl _ \<Rightarrow> True | Inr (rs, n') \<Rightarrow> n' \<le> sc_bytes (scanLog sha raw))"
proof -
  obtain ls t where l: "raw = unlines ls @ t" "list_all no_break ls" "no_break t" by (rule lines_exist)
  define m where "m = good_lines sha 0 ls"
  note s = scan_lines [OF l(2,3,1), of sha, folded m_def]
  have len: "m \<le> length ls" using good_lines_read(2) by (simp add: m_def)
  have 1: "\<exists>rs. completeRecords sha (take (sc_bytes (scanLog sha raw)) raw) = Inr (rs, sc_bytes (scanLog sha raw))
      \<and> length rs = sc_kept (scanLog sha raw)" by (rule scan_reads [of sha raw]) blast
  obtain j t' where j: "take n raw = unlines (take j ls) @ t'" "no_break t'" "j \<le> length ls"
    using lines_take [OF l(2,3), of n] l(1) by auto
  have "list_all no_break (take j ls)" using l(2) by (auto simp: list_all_iff dest: in_set_takeD)
  note c = complete_lines [OF this j(2), of sha]
  have "length (unlines (take j ls)) \<le> length (unlines (take m ls))" if "read_bytes sha 0 (take j ls) = Some rs" for rs
  proof -
    have "j \<le> m" using good_lines_read(3) [OF that j(3)] by (simp add: m_def)
    then have "take m ls = take j ls @ take (m - j) (drop j ls)" by (metis le_add_diff_inverse take_add)
    then show ?thesis by simp
  qed
  then have "case completeRecords sha (take n raw) of Inl _ \<Rightarrow> True | Inr (rs, n') \<Rightarrow> n' \<le> sc_bytes (scanLog sha raw)"
    using c j(1) s by (cases "read_bytes sha 0 (take j ls)") simp_all
  then show ?thesis using 1 scan_no_bad by blast
qed

subsection \<open>The original bytes are kept\<close>

text \<open>What every state holds: the original content in the log or under a backup name, and the old backups.\<close>

definition keeps_original :: "bytes \<Rightarrow> salvage_dir \<Rightarrow> salvage_dir \<Rightarrow> bool" where
  "keeps_original raw d d' \<longleftrightarrow>
     (sd_log d' = Some raw \<or> (\<exists>name. sd_backup d' name = Some raw))
     \<and> (\<forall>name. sd_backup d name = None \<or> sd_backup d' name = sd_backup d name)"

lemma release_fields [simp]:
  "sd_log (salvage_release c me d) = sd_log d" "sd_tmp (salvage_release c me d) = sd_tmp d"
  "sd_backup (salvage_release c me d) = sd_backup d" "keeps_original raw d0 (salvage_release c me d) = keeps_original raw d0 d"
  by (simp_all add: salvage_release_def keeps_original_def)

lemma link_backup_free: "link_backup links base backups n = Some name \<Longrightarrow> backups name = None"
  by (induction n) (auto simp: Let_def split: if_splits)

lemma replace_keeps:
  assumes "sd_backup d name = Some raw" and "keeps_original raw d0 d" and "salvage_replace c me scan d = (r, ds)"
  shows "list_all (keeps_original raw d0) ds"
    and "r = Salvaged k b \<Longrightarrow> ds \<noteq> [] \<and> k = sc_kept scan \<and> sd_log (last ds) = (if 0 < sc_kept scan then sd_tmp d else None)"
    and "\<not> (\<exists>n. r = NothingCorrupt n)"
  using assms by (auto simp: salvage_replace_def keeps_original_def Let_def split: if_splits)

lemma nothing_corrupt:
  "salvage_write c base me raw scan d \<noteq> (NothingCorrupt n, ds)"
  by (auto simp: salvage_write_def salvage_backup_def salvage_replace_def Let_def
      split: if_splits option.splits prod.splits simp del: link_backup.simps)

lemma backup_keeps:
  assumes "sd_log d = Some raw" and "keeps_original raw d0 d" and "\<And>name. sd_backup d name = None \<Longrightarrow> sd_backup d0 name = None"
    and "salvage_backup c base me raw scan d = (r, ds)"
  shows "list_all (keeps_original raw d0) ds"
    and "r = Salvaged k b \<Longrightarrow> ds \<noteq> [] \<and> k = sc_kept scan \<and> sd_log (last ds) = (if 0 < sc_kept scan then sd_tmp d else None)"
proof -
  have "list_all (keeps_original raw d0) ds \<and>
      (r = Salvaged k b \<longrightarrow> ds \<noteq> [] \<and> k = sc_kept scan \<and> sd_log (last ds) = (if 0 < sc_kept scan then sd_tmp d else None))"
  proof (cases "link_backup (sv_link c) base (sd_backup d) 100")
    case None
    then have "r = SalvageFailed" "ds = [salvage_release c me d]" using assms(4) by (simp_all add: salvage_backup_def del: link_backup.simps)
    then show ?thesis using assms(2) by simp
  next
    case (Some name)
    define d1 where "d1 = d\<lparr>sd_backup := (sd_backup d)(name := Some raw)\<rparr>"
    have k1: "keeps_original raw d0 d1"
      using assms(1-3) link_backup_free [OF Some] by (auto simp: keeps_original_def d1_def)
    have b1: "sd_backup d1 name = Some raw" "sd_tmp d1 = sd_tmp d" by (simp_all add: d1_def)
    obtain r' ds' where rep: "salvage_replace c me scan d1 = (r', ds')" by (cases "salvage_replace c me scan d1")
    note rk = replace_keeps [OF b1(1) k1 rep]
    show ?thesis
    proof (cases "sv_link_sync c")
      case False
      then have "r = SalvageFailed" "ds = [d1, salvage_release c me d1]"
        using assms(4) Some by (simp_all add: salvage_backup_def d1_def Let_def del: link_backup.simps)
      then show ?thesis using k1 by simp
    next
      case True
      then have "r = r'" "ds = d1 # ds'"
        using assms(4) Some rep by (simp_all add: salvage_backup_def d1_def Let_def del: link_backup.simps)
      then show ?thesis using k1 rk b1(2) by auto
    qed
  qed
  then show "list_all (keeps_original raw d0) ds"
    "r = Salvaged k b \<Longrightarrow> ds \<noteq> [] \<and> k = sc_kept scan \<and> sd_log (last ds) = (if 0 < sc_kept scan then sd_tmp d else None)"
    by blast+
qed

lemma write_keeps:
  assumes "sd_log d = Some raw" and "keeps_original raw d0 d" and "sd_backup d = sd_backup d0"
    and "salvage_write c base me raw scan d = (r, ds)"
  shows "list_all (keeps_original raw d0) ds"
    and "r = Salvaged k b \<Longrightarrow> ds \<noteq> [] \<and> k = sc_kept scan \<and>
      sd_log (last ds) = (if 0 < sc_kept scan then Some (take (sc_bytes scan) raw) else None)"
proof -
  have t: "keeps_original raw d0 (d\<lparr>sd_tmp := x\<rparr>)" for x using assms(1-3) by (simp add: keeps_original_def)
  have "list_all (keeps_original raw d0) ds \<and>
      (r = Salvaged k b \<longrightarrow> ds \<noteq> [] \<and> k = sc_kept scan \<and>
        sd_log (last ds) = (if 0 < sc_kept scan then Some (take (sc_bytes scan) raw) else None))"
  proof (cases "sc_kept scan = 0")
    case True
    then show ?thesis
      using assms(4) backup_keeps(1) [OF assms(1,2), of c base me scan r ds]
        backup_keeps(2) [OF assms(1,2), of c base me scan r ds k b] assms(3) by (auto simp: salvage_write_def)
  next
    case False
    define d1 where "d1 = d\<lparr>sd_tmp := Some (take (sc_bytes scan) raw)\<rparr>"
    show ?thesis
    proof (cases "sv_tmp_open c \<and> sd_tmp d = None \<and> sv_tmp c = None")
      case True
      obtain r' ds' where b: "salvage_backup c base me raw scan d1 = (r', ds')" by (cases "salvage_backup c base me raw scan d1")
      have "r = r'" "ds = d1 # ds'" using assms(4) False True b by (simp_all add: salvage_write_def d1_def Let_def)
      moreover have "sd_log d1 = Some raw" "keeps_original raw d0 d1" "sd_backup d1 = sd_backup d0"
        using assms(1,3) t by (simp_all add: d1_def)
      ultimately show ?thesis
        using backup_keeps(1) [of d1 raw d0 c base me scan r' ds'] backup_keeps(2) [of d1 raw d0 c base me scan r' ds' k b]
          b False by (auto simp: d1_def)
    next
      case bad: False
      then show ?thesis using assms(2,4) False t by (auto simp: salvage_write_def Let_def split: if_splits)
    qed
  qed
  then show "list_all (keeps_original raw d0) ds"
    "r = Salvaged k b \<Longrightarrow> ds \<noteq> [] \<and> k = sc_kept scan \<and>
      sd_log (last ds) = (if 0 < sc_kept scan then Some (take (sc_bytes scan) raw) else None)"
    by blast+
qed

text \<open>
  C18: salvage loses nothing. In every state that a repair goes through, whatever call of the file system
  fails and wherever the process is killed, the original bytes of the log are still in the log or under a backup
  name, and no earlier backup has changed. When the repair reports success with \<open>k\<close> records, the log is a
  prefix of the original that the store reads as \<open>k\<close> records, or is gone when no record was valid.
\<close>

theorem salvage_keeps_the_original:
  assumes "sd_log d = Some raw" and "salvage sha c base me spaceId absolute d = (r, ds)" and "d' \<in> set ds"
  shows "keeps_original raw d d' \<and>
    (case r of
       Salvaged k b \<Rightarrow>
         (case sd_log (last ds) of
            None \<Rightarrow> k = 0
          | Some bs \<Rightarrow> prefix bs raw \<and> (\<exists>rs n. completeRecords sha bs = Inr (rs, n) \<and> length rs = k))
     | NothingCorrupt k \<Rightarrow> sd_log (last ds) = Some raw \<and> (\<exists>rs n. completeRecords sha raw = Inr (rs, n))
     | _ \<Rightarrow> True)"
proof -
  define d1 where "d1 = d\<lparr>sd_lock := Some (Some me)\<rparr>"
  define scan where "scan = scanLog sha raw"
  have k: "keeps_original raw d d" "keeps_original raw d d1" "keeps_original raw d (d\<lparr>sd_lock := x\<rparr>)" for x
    using assms(1) by (simp_all add: keeps_original_def d1_def)
  have l1: "sd_log d1 = Some raw" "sd_backup d1 = sd_backup d" using assms(1) by (simp_all add: d1_def)
  consider "r = SalvageRefused" "list_all (keeps_original raw d) ds"
    | "r = NothingCorrupt (sc_kept scan)" "sc_bad scan = None" "ds = [d, d1, salvage_release c me d1]"
    | ds' where "salvage_write c base me raw scan d1 = (r, ds')" "ds = d # d1 # ds'"
  proof (cases "\<not> absolute \<or> \<not> valid_space_id spaceId \<or> sd_lock d \<noteq> None \<or> \<not> sv_lock c \<or> \<not> sv_lock_text c
      \<or> sd_tmp d1 \<noteq> None \<and> sv_stat c \<or> \<not> sv_read c")
    case True
    then show thesis using assms(1,2) k that(1) d1_def
      by (auto simp: salvage_def Let_def split: if_splits)
  next
    case False
    obtain r' ds' where w: "salvage_write c base me raw scan d1 = (r', ds')" by (cases "salvage_write c base me raw scan d1")
    have "salvage sha c base me spaceId absolute d = (if sc_bad scan = None then (NothingCorrupt (sc_kept scan), [d, d1, salvage_release c me d1])
        else (r', d # d1 # ds'))"
      using False l1 w by (auto simp: salvage_def Let_def d1_def [symmetric] scan_def [symmetric])
    then show thesis using assms(2) w that(2,3) by (auto split: if_splits)
  qed
  then show ?thesis
  proof cases
    case 1
    then show ?thesis using assms(3) by (auto simp: list_all_iff)
  next
    case 2
    have "\<exists>rs n. completeRecords sha raw = Inr (rs, n)"
      using scan_no_bad 2(2) unfolding scan_def by blast
    then show ?thesis using 2 assms(3) k l1 by auto
  next
    case (3 ds')
    note w = write_keeps [OF l1(1) k(2) l1(2) 3(1)]
    have "keeps_original raw d d'" using w(1) assms(3) 3(2) k by (auto simp: list_all_iff)
    moreover have "prefix (take (sc_bytes scan) raw) raw" by (rule take_is_prefix)
    moreover obtain rs where "completeRecords sha (take (sc_bytes scan) raw) = Inr (rs, sc_bytes scan)" "length rs = sc_kept scan"
      unfolding scan_def by (rule scan_reads)
    moreover have "r \<noteq> NothingCorrupt n" for n using 3(1) nothing_corrupt by blast
    ultimately show ?thesis using w(2) 3(2) by (auto split: salvage_result.split option.split if_splits)
  qed
qed

definition salvage_ok :: salvage_calls where
  "salvage_ok = \<lparr>sv_lock = True, sv_lock_text = True, sv_stat = True, sv_read = True, sv_tmp_open = True, sv_tmp = None,
     sv_tmp_unlink = True, sv_link = True, sv_link_sync = True, sv_replace = True, sv_replace_sync = True, sv_release = True\<rparr>"

definition corrupt_dir :: salvage_dir where
  "corrupt_dir = \<lparr>sd_log = Some [10], sd_tmp = None, sd_backup = \<lambda>_. None, sd_lock = None\<rparr>"

lemma empty_line_is_bad: "scanLog sha [10] = \<lparr>sc_kept = 0, sc_bytes = 0, sc_bad = Some 1\<rparr>"
  by (simp add: scanLog_def scan_from.simps complete_bytes_def decodeRecord_def json_parse_def skip_space_def Let_def)

lemma one_backup: "link_backup True base (\<lambda>_. None) 100 = Some base"
  by (simp add: backup_name_def Let_def numeral_eq_Suc)

theorem salvage_keeps_the_original_witness:
  "\<exists>ds. salvage (\<lambda>t. t) salvage_ok [98] [99] [97] True corrupt_dir = (Salvaged 0 1, ds) \<and> length ds = 6
     \<and> keeps_original [10] corrupt_dir (last ds) \<and> sd_log (last ds) = None"
proof -
  have "salvage_backup salvage_ok [98] [99] [10] \<lparr>sc_kept = 0, sc_bytes = 0, sc_bad = Some 1\<rparr> (corrupt_dir\<lparr>sd_lock := Some (Some [99])\<rparr>) =
      (let d1 = corrupt_dir\<lparr>sd_lock := Some (Some [99]), sd_backup := (\<lambda>_. None)([98] := Some [10])\<rparr>;
           d2 = d1\<lparr>sd_log := None\<rparr>
       in (Salvaged 0 1, [d1, d2, d2, d2\<lparr>sd_lock := None\<rparr>]))"
    using one_backup [of "[98]"]
    by (simp add: salvage_backup_def salvage_replace_def salvage_release_def salvage_ok_def corrupt_dir_def Let_def del: link_backup.simps)
  then obtain ds where ds: "salvage (\<lambda>t. t) salvage_ok [98] [99] [97] True corrupt_dir = (Salvaged 0 1, ds)"
      "length ds = 6" "sd_log (last ds) = None"
    by (simp add: salvage_def salvage_ok_def corrupt_dir_def valid_space_id_def letter_or_digit_def empty_line_is_bad
        salvage_write_def Let_def)
  have "last ds \<in> set ds" using ds(2) by (cases ds) auto
  with salvage_keeps_the_original [OF _ ds(1), of "[10]" "last ds"] ds show ?thesis by (simp add: corrupt_dir_def)
qed

end
