(* ===== verification/Paths.thy ===== *)
theory Paths
  imports Prelude "HOL-Library.Sublist"
begin

text \<open>
  The path library of the runtime, for POSIX, as the guards use it: a resolved path is the list of its names.
  \<open>contained_prefix\<close>: the test of containment that the guards write with \<open>relative\<close> is the prefix order on
  resolved paths.
\<close>

type_synonym path = "jstr list"

subsection \<open>Paths\<close>

text \<open>The names between the slashes; \<open>resolve\<close> drops empty ones and dots and follows double dots.\<close>

fun path_names :: "jstr \<Rightarrow> jstr list" where
  "path_names [] = [[]]"
| "path_names (u # us) =
     (if u = 47 then [] # path_names us
      else (case path_names us of n # ns \<Rightarrow> (u # n) # ns | [] \<Rightarrow> [[u]]))"

definition path_step :: "jstr \<Rightarrow> path \<Rightarrow> path" where
  "path_step n p = (if n = [] \<or> n = [46] then p else if n = [46, 46] then butlast p else p @ [n])"

definition resolve_names :: "path \<Rightarrow> jstr \<Rightarrow> path" where
  "resolve_names base t = fold path_step (path_names t) base"

definition isAbsolute :: "jstr \<Rightarrow> bool" where
  "isAbsolute t \<longleftrightarrow> (case t of u # us \<Rightarrow> u = 47 | [] \<Rightarrow> False)"

fun join_names :: "path \<Rightarrow> jstr" where
  "join_names [] = []"
| "join_names [n] = n"
| "join_names (n # m # ns) = n @ 47 # join_names (m # ns)"

definition path_text :: "path \<Rightarrow> jstr" where
  "path_text p = 47 # join_names p"

text \<open>\<open>relative\<close>, between resolved paths.\<close>

fun relative_names :: "path \<Rightarrow> path \<Rightarrow> path" where
  "relative_names (r # rs) (t # ts) = (if r = t then relative_names rs ts else replicate (length (r # rs)) [46, 46] @ t # ts)"
| "relative_names [] ts = ts"
| "relative_names (r # rs) [] = replicate (length (r # rs)) [46, 46]"

definition text_starts :: "jstr \<Rightarrow> jstr \<Rightarrow> bool" where
  "text_starts p t \<longleftrightarrow> take (length p) t = p"

definition physicallyContained :: "path \<Rightarrow> path \<Rightarrow> bool" where
  "physicallyContained root target =
     (let rel = join_names (relative_names root target) in
      rel = [] \<or> rel \<noteq> [46, 46] \<and> \<not> text_starts [46, 46, 47] rel \<and> \<not> isAbsolute rel)"

subsection \<open>Containment is the prefix order\<close>

text \<open>A resolved path: no name is empty, a dot or a double dot, and none holds a slash.\<close>

definition name_ok :: "jstr \<Rightarrow> bool" where
  "name_ok n \<longleftrightarrow> n \<noteq> [] \<and> 47 \<notin> set n \<and> n \<noteq> [46] \<and> n \<noteq> [46, 46]"

abbreviation resolved :: "path \<Rightarrow> bool" where
  "resolved \<equiv> list_all name_ok"

lemma join_Cons: "join_names (n # ns) = n @ (case ns of [] \<Rightarrow> [] | _ \<Rightarrow> 47 # join_names ns)"
  by (cases ns) simp_all

lemma no_slash_unique: "47 \<notin> set n \<Longrightarrow> 47 \<notin> set m \<Longrightarrow> n @ 47 # a = m @ 47 # b \<Longrightarrow> n = m"
  by (induction n arbitrary: m; case_tac m) auto

lemma join_below:
  assumes "resolved ts" and "ts \<noteq> []"
  shows "join_names ts \<noteq> [] \<and> join_names ts \<noteq> [46, 46] \<and> \<not> text_starts [46, 46, 47] (join_names ts) \<and> \<not> isAbsolute (join_names ts)"
proof -
  obtain n ns where t: "ts = n # ns" using assms(2) by (cases ts) auto
  have n: "n \<noteq> []" "47 \<notin> set n" "n \<noteq> [46, 46]" using assms(1) t by (auto simp: name_ok_def)
  have j: "join_names ts = n \<or> (\<exists>a. join_names ts = n @ 47 # a)" unfolding t join_Cons by (cases ns) auto
  have "join_names ts \<noteq> [46, 46]"
    using j n by (auto simp: append_eq_Cons_conv)
  moreover have "\<not> text_starts [46, 46, 47] (join_names ts)"
  proof
    assume "text_starts [46, 46, 47] (join_names ts)"
    then obtain b where b: "join_names ts = [46, 46] @ 47 # b"
      by (auto simp: text_starts_def) (metis append_take_drop_id append_Cons append_Nil)
    show False using j
    proof
      assume "join_names ts = n"
      then show False using b n(2) by auto
    next
      assume "\<exists>a. join_names ts = n @ 47 # a"
      then obtain a where "n @ 47 # a = [46, 46] @ 47 # b" using b by auto
      from no_slash_unique [OF n(2) _ this] n(3) show False by simp
    qed
  qed
  moreover have "\<not> isAbsolute (join_names ts)" "join_names ts \<noteq> []"
    using j n(1,2) by (cases n; auto simp: isAbsolute_def)+
  ultimately show ?thesis by blast
qed

lemma join_above:
  "join_names ([46, 46] # ns) = [46, 46] \<or> text_starts [46, 46, 47] (join_names ([46, 46] # ns))"
  by (cases ns) (simp_all add: text_starts_def)

lemma relative_prefix: "prefix root target \<Longrightarrow> relative_names root target = drop (length root) target"
  by (induction root target rule: relative_names.induct) auto

lemma relative_not_prefix: "\<not> prefix root target \<Longrightarrow> \<exists>ns. relative_names root target = [46, 46] # ns"
  by (induction root target rule: relative_names.induct) auto

lemma contained_prefix:
  assumes "resolved target"
  shows "physicallyContained root target = prefix root target"
proof (cases "prefix root target")
  case True
  have "resolved (drop (length root) target)" using assms by (auto simp: list_all_iff dest: in_set_dropD)
  then show ?thesis
    using True join_below [of "drop (length root) target"]
    by (cases "drop (length root) target = []") (simp_all add: physicallyContained_def Let_def relative_prefix)
next
  case False
  then obtain ns where r: "relative_names root target = [46, 46] # ns" using relative_not_prefix by blast
  have "join_names ([46, 46] # ns) \<noteq> []" by (cases ns) simp_all
  then show ?thesis using False join_above [of ns] by (auto simp: physicallyContained_def Let_def r)
qed

lemma path_names_no_slash: "list_all (\<lambda>n. 47 \<notin> set n) (path_names t)"
proof (induction t)
  case (Cons u us)
  then show ?case by (cases "path_names us") auto
qed simp

lemma path_steps_resolved: "list_all (\<lambda>n. 47 \<notin> set n) ns \<Longrightarrow> resolved p \<Longrightarrow> resolved (fold path_step ns p)"
proof (induction ns arbitrary: p)
  case (Cons n ns)
  have "resolved (path_step n p)"
    using Cons.prems by (auto simp: path_step_def name_ok_def list_all_iff dest: in_set_butlastD)
  then show ?case using Cons by simp
qed simp

lemma resolve_resolved: "resolved base \<Longrightarrow> resolved (resolve_names base t)"
  unfolding resolve_names_def by (rule path_steps_resolved [OF path_names_no_slash])

end
