(* ===== verification/PetReadGuard.thy ===== *)
theory PetReadGuard
  imports Canonical Paths
begin

text \<open>
  The guard on the tools that read the project: \<^verbatim>\<open>locus/project-read-guard.ts\<close>. The file system is a parameter,
  asked once when the guard is installed and again on every call of a tool; a path that it has resolved is the
  list of its names. The path library is the one for POSIX. The texts of a denial are left out, except for the
  root that they name.
\<close>

datatype fs_error = ENOENT | OtherFsError

record file_system =
  fs_real :: "jstr \<Rightarrow> fs_error + path"
  fs_directory :: "path \<Rightarrow> fs_error + bool"
  fs_lstat :: "jstr \<Rightarrow> fs_error + unit"

datatype guard_error = RootNotAbsolute | RootNotDirectory | FsFailed fs_error | DeniedRootUncovered
  | RootsDisagree | ProjectOverlapsDenied | ToolsMissing

subsection \<open>The roots\<close>

definition canonicalExistingDirectory :: "file_system \<Rightarrow> jstr \<Rightarrow> guard_error + path" where
  "canonicalExistingDirectory fs t =
     (if \<not> isAbsolute t then Inl RootNotAbsolute
      else (case fs_real fs t of
              Inl e \<Rightarrow> Inl (FsFailed e)
            | Inr p \<Rightarrow> (case fs_directory fs p of
                          Inl e \<Rightarrow> Inl (FsFailed e)
                        | Inr d \<Rightarrow> if d then Inr p else Inl RootNotDirectory)))"

text \<open>
  The loop over the ancestors of a missing path: \<open>current\<close> is the path so far, its names in reverse order, and
  \<open>taken\<close> the names taken off.
\<close>

fun nearest_ancestor :: "file_system \<Rightarrow> jstr list \<Rightarrow> path \<Rightarrow> path option" where
  "nearest_ancestor fs [] taken = None"
| "nearest_ancestor fs (n # current) taken =
     (case fs_lstat fs (path_text (rev current)) of
        Inl ENOENT \<Rightarrow> nearest_ancestor fs current (n # taken)
      | Inl OtherFsError \<Rightarrow> None
      | Inr _ \<Rightarrow>
          (case fs_real fs (path_text (rev current)) of
             Inl _ \<Rightarrow> None
           | Inr p \<Rightarrow> Some (p @ n # taken)))"

definition prospectivePhysicalPath :: "file_system \<Rightarrow> jstr \<Rightarrow> path option" where
  "prospectivePhysicalPath fs t =
     (case fs_lstat fs t of
        Inl ENOENT \<Rightarrow> nearest_ancestor fs (rev (resolve_names [] t)) []
      | _ \<Rightarrow> None)"

fun sort_roots :: "file_system \<Rightarrow> jstr list \<Rightarrow> path list \<Rightarrow> jstr list \<Rightarrow> guard_error + path list \<times> jstr list" where
  "sort_roots fs [] existing missing = Inr (existing, missing)"
| "sort_roots fs (r # rs) existing missing =
     (if \<not> isAbsolute r then Inl RootNotAbsolute
      else (case canonicalExistingDirectory fs r of
              Inr p \<Rightarrow> sort_roots fs rs (existing @ [p]) missing
            | Inl (FsFailed ENOENT) \<Rightarrow> sort_roots fs rs existing (missing @ [r])
            | Inl e \<Rightarrow> Inl e))"

definition covered :: "file_system \<Rightarrow> path list \<Rightarrow> jstr \<Rightarrow> bool" where
  "covered fs existing r =
     (case prospectivePhysicalPath fs r of
        None \<Rightarrow> False
      | Some p \<Rightarrow> \<exists>d \<in> set existing. d \<noteq> p \<and> physicallyContained d p)"

definition canonicalDeniedRoots :: "file_system \<Rightarrow> jstr list \<Rightarrow> guard_error + path list" where
  "canonicalDeniedRoots fs roots =
     (case sort_roots fs roots [] [] of
        Inl e \<Rightarrow> Inl e
      | Inr (existing, missing) \<Rightarrow>
          if list_all (covered fs existing) missing then Inr existing else Inl DeniedRootUncovered)"

text \<open>What the host proves about a child: its directories, the confirmed project and the roots to deny.\<close>

record guard_input =
  gi_childCwd :: jstr
  gi_parentCwd :: jstr
  gi_workspaceRoot :: jstr
  gi_projectRoot :: "jstr option"
  gi_deniedRoots :: "jstr list"

definition locusDeniedRoots :: "jstr \<Rightarrow> jstr \<Rightarrow> jstr list" where
  "locusDeniedRoots dshHome stateRoot =
     [dshHome, stateRoot, path_text (resolve_names (resolve_names [] dshHome) (js ''attachments''))]"

record read_policy =
  rp_base :: path
  rp_allowed :: "path list"
  rp_denied :: "path list"

definition compilePolicy :: "file_system \<Rightarrow> guard_input \<Rightarrow> guard_error + read_policy" where
  "compilePolicy fs i =
     err_bind (canonicalExistingDirectory fs (gi_childCwd i)) (\<lambda>childCwd.
     err_bind (canonicalExistingDirectory fs (gi_parentCwd i)) (\<lambda>parentCwd.
     err_bind (canonicalExistingDirectory fs (gi_workspaceRoot i)) (\<lambda>workspaceRoot.
     err_bind (canonicalDeniedRoots fs (gi_deniedRoots i)) (\<lambda>deniedRoots.
     err_bind (ensure (childCwd = parentCwd \<and> childCwd = workspaceRoot) RootsDisagree) (\<lambda>_.
     err_bind (canonicalExistingDirectory fs
         (case gi_projectRoot i of None \<Rightarrow> path_text workspaceRoot | Some t \<Rightarrow> t)) (\<lambda>projectRoot.
     err_bind (ensure (\<not> (\<exists>d \<in> set deniedRoots. physicallyContained d projectRoot \<or> physicallyContained projectRoot d))
         ProjectOverlapsDenied) (\<lambda>_.
       Inr \<lparr>rp_base = childCwd, rp_allowed = [projectRoot], rp_denied = deniedRoots\<rparr>)))))))"

subsection \<open>A call of a tool\<close>

text \<open>The arguments and the directory of the session are run-time values; \<open>JUndefined\<close> is an absent one.\<close>

record tool_call =
  tc_name :: string
  tc_arguments :: json
  tc_cwd :: json

definition PROJECT_READ_TOOLS :: "string list" where
  "PROJECT_READ_TOOLS = [''read'', ''read_image'', ''glob'', ''grep'']"

definition DEFAULT_ROOTED_SEARCH_TOOLS :: "string list" where
  "DEFAULT_ROOTED_SEARCH_TOOLS = [''glob'', ''grep'']"

definition property_of :: "json \<Rightarrow> jstr \<Rightarrow> json" where
  "property_of v k = (case v of JObj kvs \<Rightarrow> (case map_of kvs k of None \<Rightarrow> JUndefined | Some w \<Rightarrow> w) | _ \<Rightarrow> JUndefined)"

definition object_value :: "json \<Rightarrow> bool" where
  "object_value v = (case v of JObj _ \<Rightarrow> True | JArr _ \<Rightarrow> True | _ \<Rightarrow> False)"

definition searchDefaultRoot :: "tool_call \<Rightarrow> jstr option" where
  "searchDefaultRoot c =
     (case tc_cwd c of JStr t \<Rightarrow> if trim t \<noteq> [] \<and> isAbsolute t then Some t else None | _ \<Rightarrow> None)"

definition requestedPath :: "tool_call \<Rightarrow> jstr option" where
  "requestedPath c =
     (if tc_name c \<notin> set PROJECT_READ_TOOLS then None
      else let args = tc_arguments c;
               value = property_of args (if tc_name c = ''read'' \<or> tc_name c = ''read_image'' then js ''file_path'' else js ''path'')
           in if value = JUndefined \<and> object_value args \<and> tc_name c \<in> set DEFAULT_ROOTED_SEARCH_TOOLS
              then Some (case searchDefaultRoot c of None \<Rightarrow> [] | Some t \<Rightarrow> t)
              else Some (case value of JStr t \<Rightarrow> if trim t \<noteq> [] then t else [] | _ \<Rightarrow> []))"

text \<open>The reason of a denial is the root that may be read; \<open>None\<close> lets the call go on.\<close>

definition denial_root :: "read_policy \<Rightarrow> path" where
  "denial_root pol = (case rp_allowed pol of r # _ \<Rightarrow> r | [] \<Rightarrow> rp_base pol)"

definition asked_location :: "read_policy \<Rightarrow> jstr \<Rightarrow> jstr" where
  "asked_location pol t = (if isAbsolute t then t else path_text (resolve_names (rp_base pol) t))"

definition denial :: "file_system \<Rightarrow> read_policy \<Rightarrow> tool_call \<Rightarrow> path option" where
  "denial fs pol c =
     (case requestedPath c of
        None \<Rightarrow> None
      | Some t \<Rightarrow>
          if t = [] then Some (denial_root pol)
          else (case fs_real fs (asked_location pol t) of
                  Inl _ \<Rightarrow> Some (denial_root pol)
                | Inr p \<Rightarrow>
                    if \<exists>d \<in> set (rp_denied pol). physicallyContained d p then Some (denial_root pol)
                    else if \<exists>r \<in> set (rp_allowed pol). physicallyContained r p then None
                    else Some (denial_root pol)))"

text \<open>The policy is compiled once; the guard and the gate before execution both ask \<open>denial\<close>.\<close>

definition installLocusProjectReadGuard :: "file_system \<Rightarrow> bool \<Rightarrow> guard_input \<Rightarrow> guard_error + (file_system \<Rightarrow> tool_call \<Rightarrow> path option)" where
  "installLocusProjectReadGuard fs tools i =
     err_bind (compilePolicy fs i) (\<lambda>pol. if tools then Inr (\<lambda>fs'. denial fs' pol) else Inl ToolsMissing)"

subsection \<open>What a compiled policy denies\<close>

text \<open>What the documentation of the file system says: a resolved path is absolute and canonical, and it exists.\<close>

definition posix_snapshot :: "file_system \<Rightarrow> bool" where
  "posix_snapshot fs \<longleftrightarrow> (\<forall>t p. fs_real fs t = Inr p \<longrightarrow> resolved p \<and> fs_directory fs p \<noteq> Inl ENOENT)"

lemma directory_real:
  assumes "canonicalExistingDirectory fs t = Inr p"
  shows "fs_real fs t = Inr p"
  using assms by (auto simp: canonicalExistingDirectory_def split: if_splits sum.splits)

lemma sort_roots_split:
  "sort_roots fs roots existing missing = Inr (ex, mi) \<Longrightarrow>
     \<exists>ex' mi'. ex = existing @ ex' \<and> mi = missing @ mi' \<and>
       (\<forall>r \<in> set roots. (\<exists>p \<in> set ex'. canonicalExistingDirectory fs r = Inr p)
          \<or> r \<in> set mi' \<and> canonicalExistingDirectory fs r = Inl (FsFailed ENOENT)) \<and>
       (\<forall>p \<in> set ex'. \<exists>r \<in> set roots. canonicalExistingDirectory fs r = Inr p)"
proof (induction roots arbitrary: existing missing)
  case (Cons r roots)
  consider p where "canonicalExistingDirectory fs r = Inr p" "sort_roots fs roots (existing @ [p]) missing = Inr (ex, mi)"
    | "canonicalExistingDirectory fs r = Inl (FsFailed ENOENT)" "sort_roots fs roots existing (missing @ [r]) = Inr (ex, mi)"
    using Cons.prems by (auto split: if_splits sum.splits guard_error.splits fs_error.splits)
  then show ?case
  proof cases
    case (1 p)
    from Cons.IH [OF 1(2)] show ?thesis using 1(1) by auto
  next
    case 2
    from Cons.IH [OF 2(2)] show ?thesis using 2(1) by auto
  qed
qed simp

lemma nearest_resolved:
  "posix_snapshot fs \<Longrightarrow> resolved (rev current) \<Longrightarrow> resolved taken \<Longrightarrow> nearest_ancestor fs current taken = Some p \<Longrightarrow> resolved p"
proof (induction current arbitrary: taken)
  case (Cons n current)
  have "resolved (n # taken)" using Cons.prems by simp
  then show ?case
    using Cons.IH [OF Cons.prems(1), of "n # taken"] Cons.prems
    by (auto simp: posix_snapshot_def split: sum.splits fs_error.splits)
qed simp

lemma prospective_resolved: "posix_snapshot fs \<Longrightarrow> prospectivePhysicalPath fs t = Some p \<Longrightarrow> resolved p"
  using nearest_resolved [of fs "rev (resolve_names [] t)" "[]" p] resolve_resolved [of "[]" t]
  by (auto simp: prospectivePhysicalPath_def split: sum.splits fs_error.splits)

text \<open>Every root to deny lies, where it is or where it would come to be, below a root that the policy denies.\<close>

lemma denied_covered:
  assumes fs: "posix_snapshot fs" and "canonicalDeniedRoots fs roots = Inr ds" and "r \<in> set roots"
  shows "case fs_real fs r of
      Inr p \<Rightarrow> p \<in> set ds
    | Inl _ \<Rightarrow> (case prospectivePhysicalPath fs r of None \<Rightarrow> False | Some p \<Rightarrow> \<exists>d \<in> set ds. prefix d p)"
proof -
  obtain mi where s: "sort_roots fs roots [] [] = Inr (ds, mi)" "list_all (covered fs ds) mi"
    using assms(2) by (auto simp: canonicalDeniedRoots_def split: sum.splits if_splits)
  from sort_roots_split [OF s(1)] assms(3)
  have "(\<exists>p \<in> set ds. canonicalExistingDirectory fs r = Inr p)
      \<or> r \<in> set mi \<and> canonicalExistingDirectory fs r = Inl (FsFailed ENOENT)" by auto
  then show ?thesis
  proof
    assume "\<exists>p \<in> set ds. canonicalExistingDirectory fs r = Inr p"
    then show ?thesis using directory_real by fastforce
  next
    assume m: "r \<in> set mi \<and> canonicalExistingDirectory fs r = Inl (FsFailed ENOENT)"
    then obtain e where e: "fs_real fs r = Inl e"
      using fs by (auto simp: canonicalExistingDirectory_def posix_snapshot_def split: if_splits sum.splits)
    obtain p d where "prospectivePhysicalPath fs r = Some p" "d \<in> set ds" "physicallyContained d p"
      using m s(2) by (auto simp: list_all_iff covered_def split: option.splits)
    then show ?thesis using e contained_prefix [OF prospective_resolved [OF fs]] by auto
  qed
qed

lemma denied_from:
  assumes "canonicalDeniedRoots fs roots = Inr ds" and "d \<in> set ds"
  shows "\<exists>r \<in> set roots. canonicalExistingDirectory fs r = Inr d"
proof -
  obtain mi where "sort_roots fs roots [] [] = Inr (ds, mi)"
    using assms(1) by (auto simp: canonicalDeniedRoots_def split: sum.splits if_splits)
  from sort_roots_split [OF this] assms(2) show ?thesis by auto
qed

lemma compiled:
  assumes "compilePolicy fs i = Inr pol"
  obtains project where "rp_allowed pol = [project]" "canonicalDeniedRoots fs (gi_deniedRoots i) = Inr (rp_denied pol)"
    "canonicalExistingDirectory fs (gi_childCwd i) = Inr (rp_base pol)"
    "canonicalExistingDirectory fs (gi_parentCwd i) = Inr (rp_base pol)"
    "canonicalExistingDirectory fs (gi_workspaceRoot i) = Inr (rp_base pol)"
    "canonicalExistingDirectory fs (case gi_projectRoot i of None \<Rightarrow> path_text (rp_base pol) | Some t \<Rightarrow> t) = Inr project"
    "\<forall>d \<in> set (rp_denied pol). \<not> physicallyContained d project \<and> \<not> physicallyContained project d"
proof -
  obtain b ds project where
    "canonicalExistingDirectory fs (gi_childCwd i) = Inr b" "canonicalExistingDirectory fs (gi_parentCwd i) = Inr b"
    "canonicalExistingDirectory fs (gi_workspaceRoot i) = Inr b" "canonicalDeniedRoots fs (gi_deniedRoots i) = Inr ds"
    "canonicalExistingDirectory fs (case gi_projectRoot i of None \<Rightarrow> path_text b | Some t \<Rightarrow> t) = Inr project"
    "\<forall>d \<in> set ds. \<not> physicallyContained d project \<and> \<not> physicallyContained project d"
    "pol = \<lparr>rp_base = b, rp_allowed = [project], rp_denied = ds\<rparr>"
    using assms by (auto simp: compilePolicy_def ok_iff)
  moreover from this have "canonicalExistingDirectory fs (case gi_projectRoot i of None \<Rightarrow> path_text (rp_base pol) | Some t \<Rightarrow> t) = Inr project"
    by (cases "gi_projectRoot i") simp_all
  ultimately show thesis using that [of project] by simp
qed

lemma outside_denied:
  assumes fs: "posix_snapshot fs" and ds: "canonicalDeniedRoots fs roots = Inr ds" and r: "r \<in> set roots"
    and project: "resolved project" "\<forall>d \<in> set ds. \<not> physicallyContained d project \<and> \<not> physicallyContained project d"
    and p: "resolved p" "\<forall>d \<in> set ds. \<not> physicallyContained d p"
  shows "case fs_real fs r of
      Inr d \<Rightarrow> \<not> prefix d p \<and> \<not> prefix d project \<and> \<not> prefix project d
    | Inl _ \<Rightarrow> (case prospectivePhysicalPath fs r of None \<Rightarrow> False | Some d \<Rightarrow> \<not> prefix d p \<and> \<not> prefix project d)"
proof -
  have dp: "\<not> prefix d p" "\<not> prefix d project" if "d \<in> set ds" for d
    using p project that contained_prefix [OF p(1)] contained_prefix [OF project(1)] by auto
  have apart: "\<not> prefix project d" if d: "d \<in> set ds" for d
  proof -
    obtain r' where "canonicalExistingDirectory fs r' = Inr d" using denied_from [OF ds d] by blast
    from directory_real [OF this] have "resolved d" using fs by (auto simp: posix_snapshot_def)
    then show ?thesis using project(2) d contained_prefix [of d project] by auto
  qed
  show ?thesis
  proof (cases "fs_real fs r")
    case (Inr d)
    then have "d \<in> set ds" using denied_covered [OF fs ds r] by simp
    then show ?thesis using Inr dp [of d] apart [of d] by simp
  next
    case (Inl e)
    then obtain q d where q: "prospectivePhysicalPath fs r = Some q" "d \<in> set ds" "prefix d q"
      using denied_covered [OF fs ds r] by (auto split: option.splits)
    have "\<not> prefix q p" using q(3) dp(1) [OF q(2)] prefix_order.trans by blast
    moreover have "\<not> prefix project q"
    proof
      assume "prefix project q"
      then consider "prefix project d" | "prefix d project" using q(3) prefix_same_cases by blast
      then show False using apart [OF q(2)] dp(2) [OF q(2)] by cases simp_all
    qed
    ultimately show ?thesis using Inl q(1) by simp
  qed
qed

subsection \<open>The properties\<close>

text \<open>
  C38: a child reads the confirmed project and nothing else, on file systems whose resolved paths are canonical and
  exist. When the guard lets a call of a reading tool go on, the path it asks for was resolved, through every symbolic
  link, to a location inside the confirmed project: the directory that the confirmed project root of the input
  resolved to when the guard was installed, or the workspace root when the input names none. That location is outside
  every root to deny: outside where the root is, and for a root that did not exist when the guard was installed, outside the location it would come to have. No root that exists holds or lies in the project,
  and none that is still missing would come to lie in it.
\<close>

theorem project_reads_stay_inside:
  assumes "posix_snapshot fs" and "posix_snapshot fs'"
    and "compilePolicy fs i = Inr pol" and "tc_name c \<in> set PROJECT_READ_TOOLS" and "denial fs' pol c = None"
  shows "\<exists>t p project. requestedPath c = Some t \<and> fs_real fs' (asked_location pol t) = Inr p
    \<and> rp_allowed pol = [project] \<and> prefix project p
    \<and> (case gi_projectRoot i of
          Some root \<Rightarrow> fs_real fs root = Inr project
        | None \<Rightarrow> \<exists>b. fs_real fs (gi_workspaceRoot i) = Inr b \<and> fs_real fs (path_text b) = Inr project)
    \<and> (\<forall>r \<in> set (gi_deniedRoots i).
         case fs_real fs r of
           Inr d \<Rightarrow> \<not> prefix d p \<and> \<not> prefix d project \<and> \<not> prefix project d
         | Inl _ \<Rightarrow> (case prospectivePhysicalPath fs r of None \<Rightarrow> False | Some d \<Rightarrow> \<not> prefix d p \<and> \<not> prefix project d))"
proof -
  obtain project where c: "rp_allowed pol = [project]" "canonicalDeniedRoots fs (gi_deniedRoots i) = Inr (rp_denied pol)"
      "canonicalExistingDirectory fs (gi_workspaceRoot i) = Inr (rp_base pol)"
      "canonicalExistingDirectory fs (case gi_projectRoot i of None \<Rightarrow> path_text (rp_base pol) | Some t \<Rightarrow> t) = Inr project"
      "\<forall>d \<in> set (rp_denied pol). \<not> physicallyContained d project \<and> \<not> physicallyContained project d"
    using compiled [OF assms(3)] by metis
  have "requestedPath c \<noteq> None" using assms(4) by (simp add: requestedPath_def Let_def)
  then obtain t where t: "requestedPath c = Some t" by blast
  obtain p where p: "fs_real fs' (asked_location pol t) = Inr p"
      "\<forall>d \<in> set (rp_denied pol). \<not> physicallyContained d p" "physicallyContained project p"
    using assms(5) t c(1) by (auto simp: denial_def split: if_splits sum.splits)
  have ok: "resolved p" "resolved project"
    using assms(1,2) p(1) directory_real [OF c(4)] by (auto simp: posix_snapshot_def)
  have "case fs_real fs r of
           Inr d \<Rightarrow> \<not> prefix d p \<and> \<not> prefix d project \<and> \<not> prefix project d
         | Inl _ \<Rightarrow> (case prospectivePhysicalPath fs r of None \<Rightarrow> False | Some d \<Rightarrow> \<not> prefix d p \<and> \<not> prefix project d)"
    if "r \<in> set (gi_deniedRoots i)" for r
    by (rule outside_denied [OF assms(1) c(2) that ok(2) c(5) ok(1) p(2)])
  moreover have "prefix project p" using p(3) contained_prefix [OF ok(1)] by simp
  moreover have "case gi_projectRoot i of
          Some root \<Rightarrow> fs_real fs root = Inr project
        | None \<Rightarrow> \<exists>b. fs_real fs (gi_workspaceRoot i) = Inr b \<and> fs_real fs (path_text b) = Inr project"
    using directory_real [OF c(3)] directory_real [OF c(4)] by (simp split: option.splits)
  ultimately show ?thesis using t p(1) c(1) by blast
qed

text \<open>A host with the home directory \<open>/h\<close>, whose store of attachments does not exist yet, the workspace \<open>/w\<close> and the
  confirmed project \<open>/p\<close>.\<close>

definition demo_fs :: file_system where
  "demo_fs = \<lparr>fs_real = \<lambda>t. if t = [47, 104, 47, 97] then Inl ENOENT else Inr (resolve_names [] t),
     fs_directory = \<lambda>_. Inr True, fs_lstat = \<lambda>t. if t = [47, 104, 47, 97] then Inl ENOENT else Inr ()\<rparr>"

definition demo_guard :: guard_input where
  "demo_guard = \<lparr>gi_childCwd = [47, 119], gi_parentCwd = [47, 119], gi_workspaceRoot = [47, 119], gi_projectRoot = Some [47, 112],
     gi_deniedRoots = [[47, 104], [47, 104, 47, 97]]\<rparr>"

definition demo_policy :: read_policy where
  "demo_policy = \<lparr>rp_base = [[119]], rp_allowed = [[[112]]], rp_denied = [[[104]]]\<rparr>"

definition demo_read :: tool_call where
  "demo_read = \<lparr>tc_name = ''read'', tc_arguments = JObj [(js ''file_path'', JStr [47, 112, 47, 120])], tc_cwd = JUndefined\<rparr>"

lemma demo_resolved: "posix_snapshot demo_fs"
  by (auto simp: posix_snapshot_def demo_fs_def resolve_resolved split: if_splits)

lemma demo_compiles: "compilePolicy demo_fs demo_guard = Inr demo_policy" "denial demo_fs demo_policy demo_read = None"
proof -
  have r: "resolve_names [] [47, 119] = [[119]]" "resolve_names [] [47, 104] = [[104]]" "resolve_names [] [47, 104, 47, 97] = [[104], [97]]"
      "resolve_names [] [47, 112] = [[112]]" "resolve_names [] [47, 112, 47, 120] = [[112], [120]]"
    by (simp_all add: resolve_names_def path_step_def)
  show "compilePolicy demo_fs demo_guard = Inr demo_policy"
    by (simp add: compilePolicy_def demo_guard_def demo_policy_def canonicalExistingDirectory_def demo_fs_def isAbsolute_def r
        canonicalDeniedRoots_def covered_def prospectivePhysicalPath_def path_text_def physicallyContained_def text_starts_def)
  show "denial demo_fs demo_policy demo_read = None"
    by (simp add: denial_def demo_policy_def demo_read_def requestedPath_def PROJECT_READ_TOOLS_def property_of_def
        DEFAULT_ROOTED_SEARCH_TOOLS_def trim_def js_space_def asked_location_def isAbsolute_def path_text_def r demo_fs_def
        physicallyContained_def text_starts_def)
qed

theorem project_reads_stay_inside_witness:
  "\<exists>t p project. requestedPath demo_read = Some t \<and> fs_real demo_fs (asked_location demo_policy t) = Inr p
    \<and> fs_real demo_fs [47, 112] = Inr project \<and> prefix project p"
proof -
  have "tc_name demo_read \<in> set PROJECT_READ_TOOLS" by (simp add: demo_read_def PROJECT_READ_TOOLS_def)
  from project_reads_stay_inside [OF demo_resolved demo_resolved demo_compiles(1) this demo_compiles(2)]
  show ?thesis by (auto simp: demo_guard_def)
qed

end
