(* ===== verification/PetStop.thy ===== *)
theory PetStop
  imports Canonical
begin

text \<open>
  Preparing a host for its shutdown: \<^verbatim>\<open>locus/stop-preparation.ts\<close>. One operation freezes the host and drains it
  on its own; clients wait for it, each with a deadline, and any of them may have a settled operation resumed. An
  operation object is its number in \<open>sp_ops\<close>; what runs behind a promise is a list of tasks, and a step is one
  task that goes on. The files that publish the address of the host are left out.
\<close>

subsection \<open>Requests\<close>

datatype stop_action = PrepareStop | StatusStop | ResumeStop

record stop_identity =
  si_hostPid :: int
  si_bootId :: jstr

record stop_request =
  sr_action :: stop_action
  sr_nonce :: jstr
  sr_deadlineAt :: int

definition STOP_REQUEST_LIFETIME_MS :: int where
  "STOP_REQUEST_LIFETIME_MS = 60000"

text \<open>Eight to 128 letters, digits, underscores and dashes.\<close>

definition stop_identifier :: "jstr \<Rightarrow> bool" where
  "stop_identifier s \<longleftrightarrow> 8 \<le> length s \<and> length s \<le> 128 \<and>
     list_all (\<lambda>u. 97 \<le> u \<and> u \<le> 122 \<or> 65 \<le> u \<and> u \<le> 90 \<or> 48 \<le> u \<and> u \<le> 57 \<or> u = 95 \<or> u = 45) s"

definition stop_fields :: "jstr list" where
  "stop_fields = [js ''v'', js ''action'', js ''nonce'', js ''expectedHostPid'', js ''expectedBootId'', js ''deadlineAt'']"

definition action_of :: "jstr \<Rightarrow> stop_action option" where
  "action_of a = (if a = js ''prepare'' then Some PrepareStop else if a = js ''status'' then Some StatusStop
     else if a = js ''resume'' then Some ResumeStop else None)"

definition parseStopRequest :: "json \<Rightarrow> stop_identity \<Rightarrow> int \<Rightarrow> stop_request option" where
  "parseStopRequest body ident now =
     (case body of
        JObj r \<Rightarrow>
          if length r \<noteq> length stop_fields \<or> \<not> list_all (\<lambda>k. k \<in> set stop_fields) (keys r) then None
          else (case (map_of r (js ''v''), map_of r (js ''action''), map_of r (js ''nonce'')) of
                  (Some (JNum v), Some (JStr a), Some (JStr nonce)) \<Rightarrow>
                    (case action_of a of
                       None \<Rightarrow> None
                     | Some action \<Rightarrow>
                         if v \<noteq> 1 \<or> \<not> stop_identifier nonce then None
                         else if map_of r (js ''expectedHostPid'') \<noteq> Some (JNum (si_hostPid ident))
                            \<or> map_of r (js ''expectedBootId'') \<noteq> Some (JStr (si_bootId ident)) then None
                         else (case map_of r (js ''deadlineAt'') of
                                 Some (JNum d) \<Rightarrow>
                                   if \<bar>d\<bar> > 9007199254740991 \<or> d \<le> now \<or> d - now > STOP_REQUEST_LIFETIME_MS then None
                                   else Some \<lparr>sr_action = action, sr_nonce = nonce, sr_deadlineAt = d\<rparr>
                               | _ \<Rightarrow> None))
                | _ \<Rightarrow> None)
      | _ \<Rightarrow> None)"

subsection \<open>The operation\<close>

datatype stop_phase = Preparing | Prepared | PrepareFailed | Resuming

record preparation =
  pn_nonce :: jstr
  pn_phase :: stop_phase
  pn_preparedAt :: "int option"
  pn_expiresAt :: "int option"

text \<open>
  \<open>sp_workers\<close> are the operations whose preparation runs, with what it awaits; \<open>sp_resumes\<close> and \<open>sp_waiters\<close> the
  requests that await a resumption or a preparation. \<open>sp_frozen\<close> and \<open>sp_drained\<close> are the facts of the host.
\<close>

datatype worker_stage = Freezing | Draining

record stopper =
  sp_ops :: "preparation list"
  sp_current :: "nat option"
  sp_closed :: bool
  sp_workers :: "(nat \<times> worker_stage) list"
  sp_resumes :: "(nat \<times> stop_request) list"
  sp_waiters :: "(nat \<times> stop_request) list"
  sp_frozen :: bool
  sp_drained :: bool

definition new_stopper :: stopper where
  "new_stopper = \<lparr>sp_ops = [], sp_current = None, sp_closed = False, sp_workers = [], sp_resumes = [],
     sp_waiters = [], sp_frozen = False, sp_drained = False\<rparr>"

text \<open>The phase of an answer is \<open>None\<close> when the host is active, without an operation.\<close>

record stop_response =
  rs_nonce :: jstr
  rs_phase :: "stop_phase option"
  rs_operationNonce :: "jstr option"
  rs_preparedAt :: "int option"
  rs_expiresAt :: "int option"

datatype stop_answer = StopRefused | StopAnswered stop_response | StopAwaits nat

definition set_op :: "nat \<Rightarrow> (preparation \<Rightarrow> preparation) \<Rightarrow> stopper \<Rightarrow> stopper" where
  "set_op k f st = st\<lparr>sp_ops := (sp_ops st)[k := f (sp_ops st ! k)]\<rparr>"

definition set_phase :: "stop_phase \<Rightarrow> nat \<Rightarrow> stopper \<Rightarrow> stopper" where
  "set_phase ph k st = set_op k (\<lambda>p. p\<lparr>pn_phase := ph\<rparr>) st"

definition active_answer :: "stop_request \<Rightarrow> stop_response" where
  "active_answer r = \<lparr>rs_nonce = sr_nonce r, rs_phase = None, rs_operationNonce = None, rs_preparedAt = None, rs_expiresAt = None\<rparr>"

definition status_answer :: "stop_request \<Rightarrow> stopper \<Rightarrow> stop_response" where
  "status_answer r st =
     (case sp_current st of
        None \<Rightarrow> active_answer r
      | Some k \<Rightarrow>
          let p = sp_ops st ! k; told = pn_phase p = Prepared \<and> pn_preparedAt p \<noteq> None \<and> pn_expiresAt p \<noteq> None in
          \<lparr>rs_nonce = sr_nonce r, rs_phase = Some (pn_phase p), rs_operationNonce = Some (pn_nonce p),
            rs_preparedAt = if told then pn_preparedAt p else None, rs_expiresAt = if told then pn_expiresAt p else None\<rparr>)"

definition begin_resume :: "stop_request \<Rightarrow> stopper \<Rightarrow> stop_answer \<times> stopper" where
  "begin_resume r st =
     (case sp_current st of
        None \<Rightarrow> (StopAnswered (active_answer r), st)
      | Some k \<Rightarrow>
          if pn_phase (sp_ops st ! k) = Preparing \<or> pn_phase (sp_ops st ! k) = Resuming then (StopRefused, st)
          else (StopAwaits k, (set_phase Resuming k st)\<lparr>sp_resumes := sp_resumes st @ [(k, r)]\<rparr>))"

definition begin_prepare :: "stop_request \<Rightarrow> stopper \<Rightarrow> stop_answer \<times> stopper" where
  "begin_prepare r st =
     (case sp_current st of
        None \<Rightarrow>
          let k = length (sp_ops st) in
          (StopAwaits k, st\<lparr>sp_ops := sp_ops st @ [\<lparr>pn_nonce = sr_nonce r, pn_phase = Preparing, pn_preparedAt = None, pn_expiresAt = None\<rparr>],
             sp_current := Some k, sp_workers := sp_workers st @ [(k, Freezing)], sp_waiters := sp_waiters st @ [(k, r)]\<rparr>)
      | Some k \<Rightarrow>
          if pn_nonce (sp_ops st ! k) \<noteq> sr_nonce r then (StopRefused, st)
          else if pn_phase (sp_ops st ! k) = Resuming \<or> pn_phase (sp_ops st ! k) = PrepareFailed then (StopRefused, st)
          else (StopAwaits k, st\<lparr>sp_waiters := sp_waiters st @ [(k, r)]\<rparr>))"

text \<open>\<open>request\<close>, up to its first \<open>await\<close>.\<close>

definition stop_received :: "json \<Rightarrow> stop_identity \<Rightarrow> int \<Rightarrow> stopper \<Rightarrow> stop_answer \<times> stopper" where
  "stop_received body ident now st =
     (if sp_closed st then (StopRefused, st)
      else (case parseStopRequest body ident now of
              None \<Rightarrow> (StopRefused, st)
            | Some r \<Rightarrow>
                (case sr_action r of
                   StatusStop \<Rightarrow> (StopAnswered (status_answer r st), st)
                 | ResumeStop \<Rightarrow> begin_resume r st
                 | PrepareStop \<Rightarrow> begin_prepare r st)))"

text \<open>The preparation itself: \<open>freeze\<close> and \<open>drain\<close> return or throw; one that threw may have done its work.\<close>

definition freeze_settles :: "bool \<Rightarrow> bool \<Rightarrow> nat \<Rightarrow> stopper \<Rightarrow> stopper" where
  "freeze_settles ok partial k st =
     (let st' = st\<lparr>sp_workers := remove1 (k, Freezing) (sp_workers st), sp_frozen := sp_frozen st \<or> ok \<or> partial\<rparr> in
      if ok then st'\<lparr>sp_workers := sp_workers st' @ [(k, Draining)]\<rparr> else set_phase PrepareFailed k st')"

definition drain_settles :: "bool \<Rightarrow> bool \<Rightarrow> int \<Rightarrow> nat \<Rightarrow> stopper \<Rightarrow> stopper" where
  "drain_settles ok partial now k st =
     (let st' = st\<lparr>sp_workers := remove1 (k, Draining) (sp_workers st), sp_drained := sp_drained st \<or> ok \<or> partial\<rparr> in
      if ok \<and> \<not> sp_closed st then set_op k (\<lambda>p. p\<lparr>pn_preparedAt := Some now, pn_phase := Prepared\<rparr>) st'
      else set_phase PrepareFailed k st')"

text \<open>The end of a resumption; \<open>resume\<close> of the host returns or throws.\<close>

definition resume_settles :: "bool \<Rightarrow> bool \<Rightarrow> nat \<times> stop_request \<Rightarrow> stopper \<Rightarrow> stop_answer \<times> stopper" where
  "resume_settles ok partial kr st =
     (let k = fst kr; thawed = ok \<or> partial;
          st' = st\<lparr>sp_resumes := remove1 kr (sp_resumes st), sp_frozen := sp_frozen st \<and> \<not> thawed, sp_drained := sp_drained st \<and> \<not> thawed\<rparr>
      in if ok \<and> \<not> sp_closed st \<and> sp_current st = Some k
         then (StopAnswered (active_answer (snd kr)), st'\<lparr>sp_current := None\<rparr>)
         else (StopRefused, set_phase PrepareFailed k st'))"

text \<open>A waiting request goes on when the preparation has settled; at its deadline it is refused.\<close>

definition waiter_wakes :: "int \<Rightarrow> nat \<times> stop_request \<Rightarrow> stopper \<Rightarrow> stop_answer \<times> stopper" where
  "waiter_wakes now kr st =
     (let k = fst kr; r = snd kr; st' = st\<lparr>sp_waiters := remove1 kr (sp_waiters st)\<rparr> in
      if sr_deadlineAt r \<le> now \<or> sp_closed st \<or> pn_phase (sp_ops st ! k) \<noteq> Prepared then (StopRefused, st')
      else (StopAnswered \<lparr>rs_nonce = sr_nonce r, rs_phase = Some Prepared, rs_operationNonce = None,
              rs_preparedAt = pn_preparedAt (sp_ops st ! k), rs_expiresAt = Some (sr_deadlineAt r)\<rparr>,
            set_op k (\<lambda>p. p\<lparr>pn_expiresAt := Some (sr_deadlineAt r)\<rparr>) st'))"

definition waiter_expires :: "nat \<times> stop_request \<Rightarrow> stopper \<Rightarrow> stop_answer \<times> stopper" where
  "waiter_expires kr st = (StopRefused, st\<lparr>sp_waiters := remove1 kr (sp_waiters st)\<rparr>)"

definition dispose_stop :: "stopper \<Rightarrow> stopper" where
  "dispose_stop st = st\<lparr>sp_closed := True\<rparr>"

text \<open>Any interleaving of requests and of what runs behind them, with the answer that a step gives.\<close>

inductive stop_step :: "stop_identity \<Rightarrow> stopper \<Rightarrow> stop_answer option \<Rightarrow> stopper \<Rightarrow> bool" for ident where
  stop_received: "stop_received body ident now st = (a, st') \<Longrightarrow> stop_step ident st (Some a) st'"
| freeze_settles: "(k, Freezing) \<in> set (sp_workers st) \<Longrightarrow> stop_step ident st None (freeze_settles ok partial k st)"
| drain_settles: "(k, Draining) \<in> set (sp_workers st) \<Longrightarrow> stop_step ident st None (drain_settles ok partial now k st)"
| resume_settles: "kr \<in> set (sp_resumes st) \<Longrightarrow> resume_settles ok partial kr st = (a, st') \<Longrightarrow> stop_step ident st (Some a) st'"
| waiter_wakes: "kr \<in> set (sp_waiters st) \<Longrightarrow> \<forall>s. (fst kr, s) \<notin> set (sp_workers st) \<Longrightarrow> waiter_wakes now kr st = (a, st') \<Longrightarrow>
     stop_step ident st (Some a) st'"
| waiter_expires: "kr \<in> set (sp_waiters st) \<Longrightarrow> waiter_expires kr st = (a, st') \<Longrightarrow> stop_step ident st (Some a) st'"
| stop_disposed: "stop_step ident st None (dispose_stop st)"

definition stop_moves :: "stop_identity \<Rightarrow> stopper \<Rightarrow> stopper \<Rightarrow> bool" where
  "stop_moves ident st st' \<longleftrightarrow> (\<exists>a. stop_step ident st a st')"

end
