(* ===== verification/PetStopTheorems.thy ===== *)
theory PetStopTheorems
  imports PetStop
begin

text \<open>What a prepared host is, and that a settled preparation can always be undone.\<close>

subsection \<open>The invariant\<close>

abbreviation phase_at :: "stopper \<Rightarrow> nat \<Rightarrow> stop_phase" where
  "phase_at st k \<equiv> pn_phase (sp_ops st ! k)"

definition workers_ok :: "stopper \<Rightarrow> bool" where
  "workers_ok st \<longleftrightarrow> (case sp_workers st of
     [] \<Rightarrow> True
   | [(k, s)] \<Rightarrow> sp_current st = Some k \<and> phase_at st k = Preparing \<and> (s = Draining \<longrightarrow> sp_frozen st)
   | _ \<Rightarrow> False)"

definition resumes_ok :: "stopper \<Rightarrow> bool" where
  "resumes_ok st \<longleftrightarrow> (case sp_resumes st of
     [] \<Rightarrow> True
   | [(k, _)] \<Rightarrow> sp_current st = Some k \<and> phase_at st k = Resuming
   | _ \<Rightarrow> False)"

definition prepared_ok :: "stopper \<Rightarrow> bool" where
  "prepared_ok st \<longleftrightarrow>
     (\<forall>k < length (sp_ops st). phase_at st k = Prepared \<longrightarrow> sp_current st = Some k \<and> sp_frozen st \<and> sp_drained st)"

definition waiters_ok :: "stopper \<Rightarrow> bool" where
  "waiters_ok st \<longleftrightarrow>
     (\<forall>kr \<in> set (sp_waiters st). fst kr < length (sp_ops st) \<and> pn_nonce (sp_ops st ! fst kr) = sr_nonce (snd kr))"

definition stop_ok :: "stopper \<Rightarrow> bool" where
  "stop_ok st \<longleftrightarrow> (case sp_current st of None \<Rightarrow> True | Some k \<Rightarrow> k < length (sp_ops st))
     \<and> workers_ok st \<and> resumes_ok st \<and> prepared_ok st \<and> waiters_ok st"

lemma stop_okD:
  assumes "stop_ok st"
  shows "sp_current st = Some k \<Longrightarrow> k < length (sp_ops st)"
    and "(k, s) \<in> set (sp_workers st) \<Longrightarrow>
      sp_workers st = [(k, s)] \<and> sp_current st = Some k \<and> phase_at st k = Preparing \<and> (s = Draining \<longrightarrow> sp_frozen st)"
    and "kr \<in> set (sp_resumes st) \<Longrightarrow> sp_resumes st = [kr] \<and> sp_current st = Some (fst kr) \<and> phase_at st (fst kr) = Resuming"
    and "k < length (sp_ops st) \<Longrightarrow> phase_at st k = Prepared \<Longrightarrow> sp_current st = Some k \<and> sp_frozen st \<and> sp_drained st"
    and "kr \<in> set (sp_waiters st) \<Longrightarrow> fst kr < length (sp_ops st) \<and> pn_nonce (sp_ops st ! fst kr) = sr_nonce (snd kr)"
proof -
  note o = assms [unfolded stop_ok_def]
  show "sp_current st = Some k \<Longrightarrow> k < length (sp_ops st)" using o by simp
  show "sp_workers st = [(k, s)] \<and> sp_current st = Some k \<and> phase_at st k = Preparing \<and> (s = Draining \<longrightarrow> sp_frozen st)"
    if "(k, s) \<in> set (sp_workers st)"
  proof -
    have "workers_ok st" using o by blast
    then show ?thesis using that by (cases "sp_workers st"; cases "tl (sp_workers st)") (auto simp: workers_ok_def)
  qed
  show "sp_resumes st = [kr] \<and> sp_current st = Some (fst kr) \<and> phase_at st (fst kr) = Resuming" if "kr \<in> set (sp_resumes st)"
  proof -
    have "resumes_ok st" using o by blast
    then show ?thesis using that by (cases "sp_resumes st"; cases "tl (sp_resumes st)") (auto simp: resumes_ok_def)
  qed
  show "sp_current st = Some k \<and> sp_frozen st \<and> sp_drained st" if "k < length (sp_ops st)" "phase_at st k = Prepared"
    using o that unfolding prepared_ok_def by blast
  show "fst kr < length (sp_ops st) \<and> pn_nonce (sp_ops st ! fst kr) = sr_nonce (snd kr)" if "kr \<in> set (sp_waiters st)"
    using o that unfolding waiters_ok_def by blast
qed

lemma stop_okI:
  assumes "case sp_current st of None \<Rightarrow> True | Some k \<Rightarrow> k < length (sp_ops st)"
    and "workers_ok st" and "resumes_ok st" and "prepared_ok st" and "waiters_ok st"
  shows "stop_ok st"
  using assms unfolding stop_ok_def by blast

lemma same_ok:
  assumes "\<And>j. phase_at st' j = phase_at st j" and "\<And>j. pn_nonce (sp_ops st' ! j) = pn_nonce (sp_ops st ! j)"
    and "length (sp_ops st') = length (sp_ops st)" and "sp_current st' = sp_current st"
    and "sp_workers st' = sp_workers st" and "sp_resumes st' = sp_resumes st"
    and "sp_frozen st' = sp_frozen st" and "sp_drained st' = sp_drained st"
    and "set (sp_waiters st') \<subseteq> set (sp_waiters st)" and "stop_ok st"
  shows "stop_ok st'"
proof -
  have "waiters_ok st" using assms(10) by (simp add: stop_ok_def)
  then have "waiters_ok st'" using assms(9) unfolding waiters_ok_def assms(2,3) by blast
  moreover have "workers_ok st' = workers_ok st" "resumes_ok st' = resumes_ok st" "prepared_ok st' = prepared_ok st"
    unfolding workers_ok_def resumes_ok_def prepared_ok_def assms(1,3-8) by (rule refl)+
  ultimately show ?thesis using assms(10) unfolding stop_ok_def assms(3,4) by blast
qed

lemma idle_workers:
  assumes "stop_ok st" and "case sp_current st of None \<Rightarrow> True | Some k \<Rightarrow> phase_at st k \<noteq> Preparing"
  shows "sp_workers st = []"
proof (cases "sp_workers st")
  case (Cons ks ws)
  obtain k s where "ks = (k, s)" by (cases ks)
  then show ?thesis using stop_okD(2) [OF assms(1), of k s] assms(2) Cons by simp
qed

lemma idle_resumes:
  assumes "stop_ok st" and "case sp_current st of None \<Rightarrow> True | Some k \<Rightarrow> phase_at st k \<noteq> Resuming"
  shows "sp_resumes st = []"
proof (cases "sp_resumes st")
  case (Cons kr rs)
  then show ?thesis using stop_okD(3) [OF assms(1), of kr] assms(2) by simp
qed

lemma only_current_prepared:
  assumes "stop_ok st" and "case sp_current st of None \<Rightarrow> True | Some k \<Rightarrow> phase_at st k \<noteq> Prepared" and "k < length (sp_ops st)"
  shows "phase_at st k \<noteq> Prepared"
  using stop_okD(4) [OF assms(1,3)] assms(2) by auto

lemma set_op_fields [simp]:
  "length (sp_ops (set_op k f st)) = length (sp_ops st)" "sp_current (set_op k f st) = sp_current st"
  "sp_closed (set_op k f st) = sp_closed st" "sp_workers (set_op k f st) = sp_workers st"
  "sp_resumes (set_op k f st) = sp_resumes st" "sp_waiters (set_op k f st) = sp_waiters st"
  "sp_frozen (set_op k f st) = sp_frozen st" "sp_drained (set_op k f st) = sp_drained st"
  by (simp_all add: set_op_def)

lemma set_op_at: "k < length (sp_ops st) \<Longrightarrow> sp_ops (set_op k f st) ! j = (if j = k then f (sp_ops st ! k) else sp_ops st ! j)"
  by (simp add: set_op_def)

text \<open>A change of the operation \<open>k\<close> that is not the preparation of another: what has to be shown again.\<close>

lemma changed_ok:
  assumes ok: "stop_ok st" and k: "k < length (sp_ops st)"
    and ops: "sp_ops st' = (sp_ops st)[k := p]" and "pn_nonce p = pn_nonce (sp_ops st ! k)"
    and "sp_waiters st' = sp_waiters st" and "sp_current st' \<in> {sp_current st, None}"
    and "workers_ok st'" and "resumes_ok st'"
    and "\<And>j. j < length (sp_ops st) \<Longrightarrow> j \<noteq> k \<Longrightarrow> phase_at st j \<noteq> Prepared"
    and "pn_phase p = Prepared \<Longrightarrow> sp_current st' = Some k \<and> sp_frozen st' \<and> sp_drained st'"
  shows "stop_ok st'"
proof (rule stop_okI)
  show "case sp_current st' of None \<Rightarrow> True | Some k \<Rightarrow> k < length (sp_ops st')"
    using assms(6) stop_okD(1) [OF ok] ops by (auto split: option.split)
  show "workers_ok st'" "resumes_ok st'" by fact+
  show "prepared_ok st'" unfolding prepared_ok_def
  proof (intro allI impI)
    fix j assume j: "j < length (sp_ops st')" "phase_at st' j = Prepared"
    show "sp_current st' = Some j \<and> sp_frozen st' \<and> sp_drained st'"
      using j ops k assms(9) [of j] assms(10) by (cases "j = k") simp_all
  qed
  have "waiters_ok st" using ok by (simp add: stop_ok_def)
  then show "waiters_ok st'" using assms(4,5) k ops unfolding waiters_ok_def by (auto simp: nth_list_update)
qed

lemma begin_resume_ok:
  assumes ok: "stop_ok st" and "begin_resume r st = (a, st')"
  shows "stop_ok st'"
proof (cases "sp_current st")
  case None
  then show ?thesis using assms by (simp add: begin_resume_def)
next
  case (Some k)
  have k: "k < length (sp_ops st)" using stop_okD(1) [OF ok Some] .
  show ?thesis
  proof (cases "phase_at st k = Preparing \<or> phase_at st k = Resuming")
    case True
    then show ?thesis using assms Some by (simp add: begin_resume_def)
  next
    case False
    have w: "sp_workers st = []" and r: "sp_resumes st = []" using idle_workers [OF ok] idle_resumes [OF ok] Some False by simp_all
    have st': "st' = (set_phase Resuming k st)\<lparr>sp_resumes := [(k, r)]\<rparr>" using assms(2) Some False r by (simp add: begin_resume_def)
    show ?thesis
    proof (rule changed_ok [OF ok k, of st' "(sp_ops st ! k)\<lparr>pn_phase := Resuming\<rparr>"])
      show "phase_at st j \<noteq> Prepared" if "j < length (sp_ops st)" "j \<noteq> k" for j using stop_okD(4) [OF ok that(1)] that(2) Some by auto
    qed (simp_all add: st' set_phase_def set_op_def w Some workers_ok_def resumes_ok_def k)
  qed
qed

lemma begin_prepare_ok:
  assumes ok: "stop_ok st" and "begin_prepare r st = (a, st')"
  shows "stop_ok st'"
proof (cases "sp_current st")
  case None
  define p where "p = \<lparr>pn_nonce = sr_nonce r, pn_phase = Preparing, pn_preparedAt = None, pn_expiresAt = None\<rparr>"
  have w: "sp_workers st = []" and re: "sp_resumes st = []" using idle_workers [OF ok] idle_resumes [OF ok] None by simp_all
  have st': "st' = st\<lparr>sp_ops := sp_ops st @ [p], sp_current := Some (length (sp_ops st)),
      sp_workers := [(length (sp_ops st), Freezing)], sp_waiters := sp_waiters st @ [(length (sp_ops st), r)]\<rparr>"
    using assms(2) None w by (simp add: begin_prepare_def p_def Let_def)
  have np: "phase_at st j \<noteq> Prepared" if "j < length (sp_ops st)" for j using only_current_prepared [OF ok _ that] None by simp
  have "waiters_ok st" using ok by (simp add: stop_ok_def)
  then have "waiters_ok st'" unfolding waiters_ok_def by (auto simp: st' nth_append p_def)
  moreover have "prepared_ok st'" unfolding prepared_ok_def using np by (auto simp: st' nth_append p_def less_Suc_eq)
  moreover have "workers_ok st'" "resumes_ok st'" by (simp_all add: st' workers_ok_def resumes_ok_def re p_def)
  ultimately show ?thesis by (intro stop_okI) (simp_all add: st')
next
  case (Some k)
  have "stop_ok (st\<lparr>sp_waiters := sp_waiters st @ [(k, r)]\<rparr>)" if n: "pn_nonce (sp_ops st ! k) = sr_nonce r"
  proof -
    define st1 where "st1 = st\<lparr>sp_waiters := sp_waiters st @ [(k, r)]\<rparr>"
    have e: "sp_ops st1 = sp_ops st" "sp_current st1 = sp_current st" "sp_workers st1 = sp_workers st" "sp_resumes st1 = sp_resumes st"
      "sp_frozen st1 = sp_frozen st" "sp_drained st1 = sp_drained st" by (simp_all add: st1_def)
    have "waiters_ok st" using ok by (simp add: stop_ok_def)
    then have "waiters_ok st1" using stop_okD(1) [OF ok Some] n by (auto simp: waiters_ok_def st1_def)
    moreover have "workers_ok st1 = workers_ok st" "resumes_ok st1 = resumes_ok st" "prepared_ok st1 = prepared_ok st"
      unfolding workers_ok_def resumes_ok_def prepared_ok_def e by (rule refl)+
    ultimately have "stop_ok st1" using ok unfolding stop_ok_def e by blast
    then show ?thesis by (simp add: st1_def)
  qed
  then show ?thesis using assms Some by (auto simp: begin_prepare_def split: if_splits)
qed

lemma freeze_ok:
  assumes ok: "stop_ok st" and k: "(k, Freezing) \<in> set (sp_workers st)"
  shows "stop_ok (freeze_settles good partial k st)"
proof -
  have c: "sp_workers st = [(k, Freezing)]" "sp_current st = Some k" "phase_at st k = Preparing" using stop_okD(2) [OF ok k] by simp_all
  have l: "k < length (sp_ops st)" using stop_okD(1) [OF ok c(2)] .
  have re: "sp_resumes st = []" using idle_resumes [OF ok] c by simp
  have "sp_ops st = (sp_ops st)[k := sp_ops st ! k]" by simp
  have np: "phase_at st j \<noteq> Prepared" if "j < length (sp_ops st)" for j using only_current_prepared [OF ok _ that] c by simp
  show ?thesis
  proof (cases good)
    case True
    show ?thesis
      by (rule changed_ok [OF ok l, of _ "sp_ops st ! k"])
        (use c np True re l in \<open>simp_all add: freeze_settles_def Let_def workers_ok_def resumes_ok_def\<close>)
  next
    case False
    show ?thesis
      by (rule changed_ok [OF ok l, of _ "(sp_ops st ! k)\<lparr>pn_phase := PrepareFailed\<rparr>"])
        (use c np False re l in \<open>simp_all add: freeze_settles_def Let_def workers_ok_def resumes_ok_def set_phase_def set_op_def\<close>)
  qed
qed

lemma drain_ok:
  assumes ok: "stop_ok st" and k: "(k, Draining) \<in> set (sp_workers st)"
  shows "stop_ok (drain_settles good partial now k st)"
proof -
  have c: "sp_workers st = [(k, Draining)]" "sp_current st = Some k" "phase_at st k = Preparing" "sp_frozen st"
    using stop_okD(2) [OF ok k] by simp_all
  have l: "k < length (sp_ops st)" using stop_okD(1) [OF ok c(2)] .
  have re: "sp_resumes st = []" using idle_resumes [OF ok] c by simp
  have np: "phase_at st j \<noteq> Prepared" if "j < length (sp_ops st)" for j using only_current_prepared [OF ok _ that] c by simp
  show ?thesis
  proof (cases "good \<and> \<not> sp_closed st")
    case True
    show ?thesis
      by (rule changed_ok [OF ok l, of _ "(sp_ops st ! k)\<lparr>pn_preparedAt := Some now, pn_phase := Prepared\<rparr>"])
        (use c np True re l in \<open>simp_all add: drain_settles_def Let_def workers_ok_def resumes_ok_def set_op_def\<close>)
  next
    case False
    show ?thesis
      by (rule changed_ok [OF ok l, of _ "(sp_ops st ! k)\<lparr>pn_phase := PrepareFailed\<rparr>"])
        (use c np False re l in \<open>auto simp: drain_settles_def Let_def workers_ok_def resumes_ok_def set_phase_def set_op_def\<close>)
  qed
qed

lemma resume_ok:
  assumes ok: "stop_ok st" and kr: "kr \<in> set (sp_resumes st)" and run: "resume_settles good partial kr st = (a, st')"
  shows "stop_ok st'"
proof -
  have c: "sp_resumes st = [kr]" "sp_current st = Some (fst kr)" "phase_at st (fst kr) = Resuming" using stop_okD(3) [OF ok kr] by simp_all
  have l: "fst kr < length (sp_ops st)" using stop_okD(1) [OF ok c(2)] .
  have w: "sp_workers st = []" using idle_workers [OF ok] c by simp
  have np: "phase_at st j \<noteq> Prepared" if "j < length (sp_ops st)" for j using only_current_prepared [OF ok _ that] c by simp
  show ?thesis
  proof (cases "good \<and> \<not> sp_closed st")
    case True
    then show ?thesis using run c w
      by (intro changed_ok [OF ok l, of st' "sp_ops st ! fst kr"])
        (auto simp: resume_settles_def Let_def workers_ok_def resumes_ok_def np)
  next
    case False
    then show ?thesis using run c w l
      by (intro changed_ok [OF ok l, of st' "(sp_ops st ! fst kr)\<lparr>pn_phase := PrepareFailed\<rparr>"])
        (auto simp: resume_settles_def Let_def workers_ok_def resumes_ok_def set_phase_def set_op_def np)
  qed
qed

lemma waiter_ok:
  assumes ok: "stop_ok st" and kr: "kr \<in> set (sp_waiters st)"
  shows "waiter_wakes now kr st = (a, st') \<Longrightarrow> stop_ok st'" and "waiter_expires kr st = (a, st') \<Longrightarrow> stop_ok st'"
proof -
  define st1 where "st1 = st\<lparr>sp_waiters := remove1 kr (sp_waiters st)\<rparr>"
  have l: "fst kr < length (sp_ops st1)" using stop_okD(5) [OF ok kr] by (simp add: st1_def)
  have rest: "stop_ok st1" by (rule same_ok [OF _ _ _ _ _ _ _ _ _ ok]) (simp_all add: st1_def set_remove1_subset)
  define st2 where "st2 = set_op (fst kr) (\<lambda>p. p\<lparr>pn_expiresAt := Some (sr_deadlineAt (snd kr))\<rparr>) st1"
  have same: "phase_at st2 j = phase_at st1 j" "pn_nonce (sp_ops st2 ! j) = pn_nonce (sp_ops st1 ! j)" for j
    by (simp_all add: st2_def set_op_at [OF l])
  have ack: "stop_ok st2"
    by (rule same_ok [OF same _ _ _ _ _ _ _ rest]) (simp_all add: st2_def)
  show "stop_ok st'" if "waiter_wakes now kr st = (a, st')"
    using that rest ack by (auto simp: waiter_wakes_def Let_def st1_def [symmetric] st2_def split: if_splits)
  show "stop_ok st'" if "waiter_expires kr st = (a, st')" using that rest by (simp add: waiter_expires_def st1_def)
qed

lemma stop_step_ok:
  assumes "stop_step ident st a st'" and ok: "stop_ok st"
  shows "stop_ok st'"
  using assms(1)
proof cases
  case (stop_received body now b)
  show ?thesis
  proof (cases "sp_closed st \<or> parseStopRequest body ident now = None")
    case True
    then have "st' = st" using stop_received(2) by (cases "sp_closed st") (simp_all add: stop_received_def)
    then show ?thesis using ok by simp
  next
    case False
    then obtain r where "parseStopRequest body ident now = Some r" by blast
    then show ?thesis using stop_received(2) False ok begin_resume_ok [OF ok, of r b st'] begin_prepare_ok [OF ok, of r b st']
      by (cases "sr_action r") (simp_all add: stop_received_def)
  qed
next
  case (freeze_settles k good partial)
  show ?thesis unfolding freeze_settles(2) by (rule freeze_ok [OF ok freeze_settles(3)])
next
  case (drain_settles k good partial now)
  show ?thesis unfolding drain_settles(2) by (rule drain_ok [OF ok drain_settles(3)])
next
  case (resume_settles kr good partial b)
  show ?thesis by (rule resume_ok [OF ok resume_settles(2,3)])
next
  case (waiter_wakes kr now b)
  show ?thesis by (rule waiter_ok(1) [OF ok waiter_wakes(2,4)])
next
  case (waiter_expires kr b)
  show ?thesis by (rule waiter_ok(2) [OF ok waiter_expires(2,3)])
next
  case stop_disposed
  show ?thesis unfolding stop_disposed(2) by (rule same_ok [OF _ _ _ _ _ _ _ _ _ ok]) (simp_all add: dispose_stop_def)
qed

interpretation stopping: invariant_system "stop_moves ident" stop_ok for ident
  by unfold_locales (auto simp: stop_moves_def intro: stop_step_ok)

lemma stop_run_ok: "(stop_moves ident)\<^sup>*\<^sup>* new_stopper st \<Longrightarrow> stop_ok st"
  by (erule stopping.run_inv) (simp add: stop_ok_def new_stopper_def workers_ok_def resumes_ok_def prepared_ok_def waiters_ok_def)

subsection \<open>A preparation and its resumption\<close>

definition stop_demo_host :: stop_identity where
  "stop_demo_host = \<lparr>si_hostPid = 7, si_bootId = js ''b''\<rparr>"

definition demo_stop_body :: "string \<Rightarrow> json" where
  "demo_stop_body action = JObj [(js ''v'', JNum 1), (js ''action'', JStr (js action)), (js ''nonce'', JStr (js ''nonce-01'')),
     (js ''expectedHostPid'', JNum 7), (js ''expectedBootId'', JStr (js ''b'')), (js ''deadlineAt'', JNum 100)]"

definition stop_demo_request :: "stop_action \<Rightarrow> stop_request" where
  "stop_demo_request a = \<lparr>sr_action = a, sr_nonce = js ''nonce-01'', sr_deadlineAt = 100\<rparr>"

lemma demo_parses:
  "parseStopRequest (demo_stop_body ''prepare'') stop_demo_host 0 = Some (stop_demo_request PrepareStop)"
  "parseStopRequest (demo_stop_body ''resume'') stop_demo_host 0 = Some (stop_demo_request ResumeStop)"
  by code_simp+

definition demo_prepared :: stopper where
  "demo_prepared = \<lparr>sp_ops = [\<lparr>pn_nonce = js ''nonce-01'', pn_phase = Prepared, pn_preparedAt = Some 5, pn_expiresAt = None\<rparr>],
     sp_current = Some 0, sp_closed = False, sp_workers = [], sp_resumes = [],
     sp_waiters = [(0, stop_demo_request PrepareStop)], sp_frozen = True, sp_drained = True\<rparr>"

lemma stop_demo_run: "(stop_moves stop_demo_host)\<^sup>*\<^sup>* new_stopper demo_prepared"
proof -
  define st1 where "st1 = snd (begin_prepare (stop_demo_request PrepareStop) new_stopper)"
  have "stop_received (demo_stop_body ''prepare'') stop_demo_host 0 new_stopper = (StopAwaits 0, st1)"
    by (simp add: stop_received_def demo_parses stop_demo_request_def st1_def new_stopper_def begin_prepare_def Let_def)
  then have 1: "stop_moves stop_demo_host new_stopper st1" unfolding stop_moves_def by (blast intro: stop_step.stop_received)
  have "(0, Freezing) \<in> set (sp_workers st1)" by (simp add: st1_def begin_prepare_def new_stopper_def Let_def)
  then have 2: "stop_moves stop_demo_host st1 (freeze_settles True False 0 st1)"
    unfolding stop_moves_def by (blast intro: stop_step.freeze_settles)
  have "(0, Draining) \<in> set (sp_workers (freeze_settles True False 0 st1))"
    by (simp add: freeze_settles_def Let_def)
  then have 3: "stop_moves stop_demo_host (freeze_settles True False 0 st1) (drain_settles True False 5 0 (freeze_settles True False 0 st1))"
    unfolding stop_moves_def by (blast intro: stop_step.drain_settles)
  have "drain_settles True False 5 0 (freeze_settles True False 0 st1) = demo_prepared"
    by (simp add: st1_def begin_prepare_def new_stopper_def Let_def freeze_settles_def drain_settles_def set_op_def demo_prepared_def
        stop_demo_request_def)
  with 1 2 3 show ?thesis by (metis (no_types, lifting) converse_rtranclp_into_rtranclp rtranclp.rtrancl_refl)
qed

subsection \<open>The properties\<close>

text \<open>
  C39: a prepared host is still. Whenever an answer says \<open>prepared\<close>, to a request that waited or to a request
  for the status, the host is frozen and drained, the preparation it speaks of is the current one, and neither a
  preparation nor a resumption is running. In no state does a resumption run beside a drain that has not settled.
\<close>

theorem prepared_answer_is_true:
  assumes "(stop_moves ident)\<^sup>*\<^sup>* new_stopper st"
    and "stop_step ident st (Some (StopAnswered r)) st'" and "rs_phase r = Some Prepared"
  shows "sp_frozen st' \<and> sp_drained st' \<and> \<not> sp_closed st' \<and> sp_workers st' = [] \<and> sp_resumes st' = []
    \<and> (\<exists>k. sp_current st' = Some k \<and> phase_at st' k = Prepared)"
proof -
  note ok = stop_run_ok [OF assms(1)]
  note ok' = stop_step_ok [OF assms(2) ok]
  have "\<not> sp_closed st' \<and> (\<exists>k < length (sp_ops st'). phase_at st' k = Prepared)"
    using assms(2)
  proof cases
    case (stop_received body now)
    then obtain q where q: "\<not> sp_closed st" "parseStopRequest body ident now = Some q"
      by (auto simp: stop_received_def split: if_splits option.splits)
    have e: "status_answer q st = r \<and> st' = st"
      using stop_received q assms(3)
      by (cases "sr_action q") (auto simp: stop_received_def begin_prepare_def begin_resume_def Let_def active_answer_def
          split: option.splits if_splits)
    show ?thesis
    proof (cases "sp_current st")
      case None
      then show ?thesis using e assms(3) by (auto simp: status_answer_def active_answer_def)
    next
      case (Some k)
      then show ?thesis using e assms(3) q stop_okD(1) [OF ok Some] by (auto simp: status_answer_def Let_def)
    qed
  next
    case (resume_settles kr good partial)
    then show ?thesis using assms(3) by (auto simp: resume_settles_def Let_def active_answer_def split: if_splits)
  next
    case (waiter_wakes kr now)
    have l: "fst kr < length (sp_ops st)" using stop_okD(5) [OF ok waiter_wakes(1)] by simp
    have "phase_at st (fst kr) = Prepared" "\<not> sp_closed st"
      "st' = set_op (fst kr) (\<lambda>p. p\<lparr>pn_expiresAt := Some (sr_deadlineAt (snd kr))\<rparr>) (st\<lparr>sp_waiters := remove1 kr (sp_waiters st)\<rparr>)"
      using waiter_wakes(3) by (auto simp: waiter_wakes_def Let_def split: if_splits)
    then show ?thesis using l by (intro conjI exI [of _ "fst kr"]) (simp_all add: set_op_def)
  next
    case (waiter_expires kr)
    then show ?thesis by (simp add: waiter_expires_def)
  qed
  then obtain k where k: "\<not> sp_closed st'" "k < length (sp_ops st')" "phase_at st' k = Prepared" by blast
  then have c: "sp_current st' = Some k \<and> sp_frozen st' \<and> sp_drained st'" using stop_okD(4) [OF ok'] by blast
  moreover have "sp_workers st' = []" "sp_resumes st' = []" using idle_workers [OF ok'] idle_resumes [OF ok'] c k(3) by simp_all
  ultimately show ?thesis using k by blast
qed

theorem prepared_answer_is_true_witness:
  "\<exists>r st'. stop_step stop_demo_host demo_prepared (Some (StopAnswered r)) st' \<and> rs_phase r = Some Prepared \<and> sp_frozen st' \<and> sp_drained st'"
proof -
  obtain r st' where w: "waiter_wakes 6 (0, stop_demo_request PrepareStop) demo_prepared = (StopAnswered r, st')" "rs_phase r = Some Prepared"
    by (simp add: waiter_wakes_def demo_prepared_def stop_demo_request_def Let_def)
  have "stop_step stop_demo_host demo_prepared (Some (StopAnswered r)) st'"
    by (rule stop_step.waiter_wakes [OF _ _ w(1)]) (simp_all add: demo_prepared_def)
  with prepared_answer_is_true [OF stop_demo_run this w(2)] w(2) show ?thesis by blast
qed

lemma resume_accepted:
  assumes ok: "stop_ok st" and "\<not> sp_closed st" and cur: "sp_current st = Some k"
    and settled: "phase_at st k = Prepared \<or> phase_at st k = PrepareFailed"
    and "parseStopRequest body ident now = Some r" and "sr_action r = ResumeStop"
  shows "stop_received body ident now st = (StopAwaits k, (set_phase Resuming k st)\<lparr>sp_resumes := [(k, r)]\<rparr>)"
proof -
  have "sp_resumes st = []" using idle_resumes [OF ok] cur settled by auto
  then show ?thesis using assms(2-6) by (auto simp: stop_received_def begin_resume_def)
qed

lemma resume_ends:
  assumes ok: "stop_ok st" and kr: "(k, r) \<in> set (sp_resumes st)" and run: "resume_settles good partial (k, r) st = (a, st')"
  shows "sp_workers st' = [] \<and> sp_resumes st' = []
    \<and> (if good \<and> \<not> sp_closed st
       then a = StopAnswered (active_answer r) \<and> sp_current st' = None \<and> \<not> sp_frozen st' \<and> \<not> sp_drained st'
       else a = StopRefused \<and> sp_current st' = Some k \<and> phase_at st' k = PrepareFailed)"
proof -
  have c: "sp_resumes st = [(k, r)]" "sp_current st = Some k" "phase_at st k = Resuming" using stop_okD(3) [OF ok kr] by simp_all
  have l: "k < length (sp_ops st)" using stop_okD(1) [OF ok c(2)] .
  have w: "sp_workers st = []" using idle_workers [OF ok] c by simp
  show ?thesis using run c w l by (cases "good \<and> \<not> sp_closed st") (auto simp: resume_settles_def Let_def set_phase_def set_op_at)
qed

text \<open>
  C40: no host stays frozen for a lost client. As long as the object is not disposed, a valid request to resume, with
  any nonce, is accepted for a preparation that has settled - prepared or failed, whoever asked for it. When the
  host's own resumption then ends, whatever happened in between, nothing of the preparation is running any more.
  If the host resumed and the object was not disposed meanwhile, the preparation is undone: the request is answered
  with an active host, there is no current operation and the host is neither frozen nor drained. If the host threw,
  or the object was disposed meanwhile, the request is refused and the preparation stands as failed, from where,
  unless disposed, it can be resumed again.
\<close>

theorem settled_preparation_can_be_resumed:
  assumes "(stop_moves ident)\<^sup>*\<^sup>* new_stopper st" and "\<not> sp_closed st"
    and "sp_current st = Some k" and "phase_at st k = Prepared \<or> phase_at st k = PrepareFailed"
    and "parseStopRequest body ident now = Some r" and "sr_action r = ResumeStop"
  shows "\<exists>st1. stop_received body ident now st = (StopAwaits k, st1) \<and> (k, r) \<in> set (sp_resumes st1)
    \<and> (\<forall>st2 good partial a st3.
         (stop_moves ident)\<^sup>*\<^sup>* st1 st2 \<and> (k, r) \<in> set (sp_resumes st2) \<and> resume_settles good partial (k, r) st2 = (a, st3)
         \<longrightarrow> sp_workers st3 = [] \<and> sp_resumes st3 = []
           \<and> (if good \<and> \<not> sp_closed st2
              then a = StopAnswered (active_answer r) \<and> sp_current st3 = None \<and> \<not> sp_frozen st3 \<and> \<not> sp_drained st3
              else a = StopRefused \<and> sp_current st3 = Some k \<and> phase_at st3 k = PrepareFailed))"
proof (intro exI conjI allI impI)
  note run = resume_accepted [OF stop_run_ok [OF assms(1)] assms(2-6)]
  show "stop_received body ident now st = (StopAwaits k, (set_phase Resuming k st)\<lparr>sp_resumes := [(k, r)]\<rparr>)" by (rule run)
  show "(k, r) \<in> set (sp_resumes ((set_phase Resuming k st)\<lparr>sp_resumes := [(k, r)]\<rparr>))" by simp
  fix st2 good partial a st3
  assume h: "(stop_moves ident)\<^sup>*\<^sup>* ((set_phase Resuming k st)\<lparr>sp_resumes := [(k, r)]\<rparr>) st2 \<and> (k, r) \<in> set (sp_resumes st2)
      \<and> resume_settles good partial (k, r) st2 = (a, st3)"
  have "stop_moves ident st ((set_phase Resuming k st)\<lparr>sp_resumes := [(k, r)]\<rparr>)"
    unfolding stop_moves_def by (rule exI, rule stop_step.stop_received [OF run])
  with h assms(1) have "(stop_moves ident)\<^sup>*\<^sup>* new_stopper st2" by (meson rtranclp.rtrancl_into_rtrancl rtranclp_trans)
  note ends = resume_ends [OF stop_run_ok [OF this], of k r good partial a st3]
  show "sp_workers st3 = []" "sp_resumes st3 = []"
    and "if good \<and> \<not> sp_closed st2
       then a = StopAnswered (active_answer r) \<and> sp_current st3 = None \<and> \<not> sp_frozen st3 \<and> \<not> sp_drained st3
       else a = StopRefused \<and> sp_current st3 = Some k \<and> phase_at st3 k = PrepareFailed"
    using ends h by simp_all
qed

theorem settled_preparation_can_be_resumed_witness:
  "\<exists>st1. stop_received (demo_stop_body ''resume'') stop_demo_host 0 demo_prepared = (StopAwaits 0, st1)
    \<and> fst (resume_settles True False (0, stop_demo_request ResumeStop) st1) = StopAnswered (active_answer (stop_demo_request ResumeStop))
    \<and> sp_current (snd (resume_settles True False (0, stop_demo_request ResumeStop) st1)) = None
    \<and> phase_at (snd (resume_settles False False (0, stop_demo_request ResumeStop) st1)) 0 = PrepareFailed"
proof -
  let ?r = "stop_demo_request ResumeStop"
  have "\<not> sp_closed demo_prepared" "sp_current demo_prepared = Some 0" "phase_at demo_prepared 0 = Prepared \<or> phase_at demo_prepared 0 = PrepareFailed"
      "sr_action ?r = ResumeStop" by (simp_all add: demo_prepared_def stop_demo_request_def)
  from settled_preparation_can_be_resumed [OF stop_demo_run this(1-3) demo_parses(2) this(4)] obtain st1
    where st1: "stop_received (demo_stop_body ''resume'') stop_demo_host 0 demo_prepared = (StopAwaits 0, st1)"
      "(0, ?r) \<in> set (sp_resumes st1)"
      and ends: "\<And>good partial. fst (resume_settles good partial (0, ?r) st1)
          = (if good \<and> \<not> sp_closed st1 then StopAnswered (active_answer ?r) else StopRefused)
        \<and> (if good \<and> \<not> sp_closed st1 then sp_current (snd (resume_settles good partial (0, ?r) st1)) = None
           else phase_at (snd (resume_settles good partial (0, ?r) st1)) 0 = PrepareFailed)"
    by (metis (no_types, lifting) prod.collapse rtranclp.rtrancl_refl)
  have "\<not> sp_closed st1" using st1(1) by (auto simp: stop_received_def demo_prepared_def demo_parses stop_demo_request_def begin_resume_def
        set_phase_def)
  with st1(1) ends [of True False] ends [of False False] show ?thesis by auto
qed

end
