(* ===== verification/WsRecords.thy ===== *)
theory WsRecords
  imports Effects Paths JsonText
begin

text \<open>
  Worktree sessions, the records: \<^verbatim>\<open>wire.ts\<close>, \<^verbatim>\<open>host/errors.ts\<close>, \<^verbatim>\<open>host/process.ts\<close> and what
  \<^verbatim>\<open>host/operation.ts\<close> and \<^verbatim>\<open>host/fs.ts\<close> do to the files of operations.

  A state is the files of all repositories, the commands issued so far with their answers, and the world:
  everything else that the code asks or changes. What answers for the world, the processes it starts, the file
  system outside the files of operations and the preparation of dependencies, is a parameter. It may fail at any
  call and stay failed, which covers a process that is killed in the middle of an operation. The texts of errors
  are left out.
\<close>

datatype ws_code = WsInvalidRequest | WsNotARepository | WsOutsideRepository | WsGitFailed | WsGitTimeout
  | WsOperationConflict | WsOperationNotFound | WsOperationInvalid | WsUnsupportedSchemaVersion | WsUnsupportedProject
  | WsDependencyFailed | WsEnvironmentFailed | WsPromoteRefused | WsCleanRefused

datatype ws_error = WsError ws_code | UnexpectedError

datatype ws_phase = Allocated | BranchCreated | WorktreeCreated | DependenciesReady | EnvironmentReady | Prepared | Cleaned

datatype dependency_mode = Lean | Mutable

datatype package_manager = Npm | Pnpm

datatype binding_state = BindingBound | BindingCleaned | BindingCleanedArchived | BindingReleased

record source_binding =
  sb_sourceSessionId :: jstr
  sb_state :: binding_state
  sb_updatedAt :: jstr
  sb_archiveLifecycle :: bool

datatype preview_status = PreviewOk | PreviewFailed | PreviewSkipped

record preview_result =
  pv_status :: preview_status
  pv_exitCode :: "int option"
  pv_outputTail :: jstr
  pv_at :: jstr

datatype adoption_signal = PackageManagerField | GitTracking

datatype ws_diagnostic = AdoptedLockfile package_manager adoption_signal | FailedWith ws_error

record ws_operation =
  wo_operationId :: jstr
  wo_repoRoot :: jstr
  wo_gitCommonDir :: jstr
  wo_baseRef :: jstr
  wo_baseCommit :: jstr
  wo_taskBranch :: jstr
  wo_worktreePath :: jstr
  wo_taskHash :: jstr
  wo_dependencyMode :: dependency_mode
  wo_packageManager :: "package_manager option"
  wo_lockFingerprint :: "jstr option"
  wo_cacheNodeModules :: "jstr option"
  wo_dshHome :: jstr
  wo_phase :: ws_phase
  wo_createdAt :: jstr
  wo_updatedAt :: jstr
  wo_preview :: "preview_result option"
  wo_diagnostics :: "ws_diagnostic list option"
  wo_binding :: "source_binding option"

text \<open>The only mode of a binding is that of a source session.\<close>

definition isCurrentBinding :: "source_binding option \<Rightarrow> bool" where
  "isCurrentBinding b = (case b of None \<Rightarrow> False | Some c \<Rightarrow> sb_state c \<noteq> BindingReleased)"

datatype public_lifecycle = PublicBound | PublicCleaned | PublicReleased

fun publicBindingLifecycle :: "binding_state \<Rightarrow> public_lifecycle" where
  "publicBindingLifecycle BindingBound = PublicBound"
| "publicBindingLifecycle BindingCleaned = PublicCleaned"
| "publicBindingLifecycle BindingCleanedArchived = PublicCleaned"
| "publicBindingLifecycle BindingReleased = PublicReleased"

subsection \<open>The state and the world\<close>

text \<open>A file of an operation: a record of the schema, one of another schema, or text that is no JSON.\<close>

datatype ws_file = OperationFile ws_operation | OtherSchema | NotJson

record process_result =
  pr_code :: int
  pr_stdout :: jstr
  pr_stderr :: jstr
  pr_timedOut :: bool

record process_call =
  pc_file :: jstr
  pc_args :: "jstr list"
  pc_cwd :: jstr
  pc_answer :: "ws_error + process_result"

text \<open>
  The files by the directory of their repository, then by operation id; the order of the list is the order in
  which the directory is read.
\<close>

record 'w ws_state =
  wst_files :: "jstr \<Rightarrow> (jstr \<times> ws_file) list"
  wst_calls :: "process_call list"
  wst_world :: 'w

text \<open>
  The world. \<open>wp_save\<close> says whether the file was written and whether the call returned: a rename that took
  place may still be followed by a failure.
\<close>

record 'w ws_world =
  wp_run :: "jstr \<Rightarrow> jstr list \<Rightarrow> jstr \<Rightarrow> 'w \<Rightarrow> (ws_error + process_result) \<times> 'w"
  wp_save :: "ws_operation \<Rightarrow> 'w \<Rightarrow> (bool \<times> ws_error option) \<times> 'w"
  wp_now :: "'w \<Rightarrow> jstr \<times> 'w"
  wp_lock :: "jstr \<Rightarrow> 'w \<Rightarrow> (ws_error + unit) \<times> 'w"
  wp_unlock :: "jstr \<Rightarrow> 'w \<Rightarrow> (ws_error + unit) \<times> 'w"
  wp_isDirectory :: "jstr \<Rightarrow> 'w \<Rightarrow> ws_error + bool"
  wp_pathExists :: "jstr \<Rightarrow> 'w \<Rightarrow> ws_error + bool"
  wp_realpath :: "jstr \<Rightarrow> 'w \<Rightarrow> ws_error + jstr"
  wp_readText :: "jstr \<Rightarrow> 'w \<Rightarrow> ws_error + jstr option"
  wp_sha256 :: "jstr \<Rightarrow> jstr"
  wp_exclude :: "jstr \<Rightarrow> 'w \<Rightarrow> (ws_error + unit) \<times> 'w"
  wp_fingerprint :: "jstr \<Rightarrow> package_manager \<Rightarrow> 'w \<Rightarrow> (ws_error + jstr) \<times> 'w"
  wp_cacheHealthy :: "jstr \<Rightarrow> jstr \<Rightarrow> 'w \<Rightarrow> (ws_error + bool) \<times> 'w"
  wp_leanLinkMatches :: "jstr \<Rightarrow> jstr \<Rightarrow> 'w \<Rightarrow> ws_error + bool"
  wp_preparePnpm :: "jstr \<Rightarrow> 'w \<Rightarrow> (ws_error + jstr) \<times> 'w"
  wp_prepareCache :: "jstr \<Rightarrow> jstr \<Rightarrow> 'w \<Rightarrow> (ws_error + jstr \<times> jstr) \<times> 'w"
  wp_ensureLeanLink :: "jstr \<Rightarrow> jstr \<Rightarrow> 'w \<Rightarrow> (ws_error + unit) \<times> 'w"
  wp_promote :: "ws_operation \<Rightarrow> 'w \<Rightarrow> (ws_error + unit) \<times> 'w"
  wp_environment :: "jstr \<Rightarrow> jstr \<Rightarrow> jstr \<Rightarrow> jstr \<Rightarrow> 'w \<Rightarrow> (ws_error + jstr) \<times> 'w"
  wp_previewLock :: "ws_operation \<Rightarrow> 'w \<Rightarrow> (ws_error + unit) \<times> 'w"
  wp_previewUnlock :: "ws_operation \<Rightarrow> 'w \<Rightarrow> (ws_error + unit) \<times> 'w"
  wp_ensureHome :: "ws_operation \<Rightarrow> 'w \<Rightarrow> (ws_error + unit) \<times> 'w"
  wp_removeHome :: "ws_operation \<Rightarrow> 'w \<Rightarrow> (ws_error + jstr) \<times> 'w"
  wp_hookDeclared :: "jstr \<Rightarrow> 'w \<Rightarrow> ws_error + bool"
  wp_hook :: "ws_operation \<Rightarrow> jstr \<Rightarrow> 'w \<Rightarrow> (ws_error + preview_result) \<times> 'w"

type_synonym ('w, 'a) ws = "('w ws_state, ws_error, 'a) eff"

text \<open>A call of the world that may change it, and a question to it.\<close>

definition world_call :: "('w \<Rightarrow> (ws_error + 'a) \<times> 'w) \<Rightarrow> ('w, 'a) ws" where
  "world_call f s = (case f (wst_world s) of (r, w) \<Rightarrow> (r, s\<lparr>wst_world := w\<rparr>))"

definition world_ask :: "('w \<Rightarrow> ws_error + 'a) \<Rightarrow> ('w, 'a) ws" where
  "world_ask f = eff_ask (\<lambda>s. f (wst_world s))"

definition world_now :: "'w ws_world \<Rightarrow> ('w, jstr) ws" where
  "world_now p s = (case wp_now p (wst_world s) of (t, w) \<Rightarrow> (Inr t, s\<lparr>wst_world := w\<rparr>))"

subsection \<open>Processes\<close>

definition run_process :: "'w ws_world \<Rightarrow> jstr \<Rightarrow> jstr list \<Rightarrow> jstr \<Rightarrow> ('w, process_result) ws" where
  "run_process p file args cwd s =
     (case wp_run p file args cwd (wst_world s) of (r, w) \<Rightarrow>
        (r, s\<lparr>wst_calls := wst_calls s @ [\<lparr>pc_file = file, pc_args = args, pc_cwd = cwd, pc_answer = r\<rparr>], wst_world := w\<rparr>))"

definition checkedProcess :: "'w ws_world \<Rightarrow> jstr \<Rightarrow> jstr list \<Rightarrow> jstr \<Rightarrow> ws_code \<Rightarrow> ('w, jstr) ws" where
  "checkedProcess p file args cwd code =
     eff_bind (run_process p file args cwd) (\<lambda>r.
     if pr_timedOut r then eff_throw (WsError (if file = js ''git'' then WsGitTimeout else code))
     else if pr_code r \<noteq> 0 then eff_throw (WsError code)
     else eff_return (pr_stdout r))"

definition gitRun :: "'w ws_world \<Rightarrow> jstr \<Rightarrow> jstr list \<Rightarrow> ('w, jstr) ws" where
  "gitRun p cwd args = checkedProcess p (js ''git'') args cwd WsGitFailed"

definition gitMaybe :: "'w ws_world \<Rightarrow> jstr \<Rightarrow> jstr list \<Rightarrow> ('w, jstr option) ws" where
  "gitMaybe p cwd args =
     eff_bind (run_process p (js ''git'') args cwd) (\<lambda>r. eff_return (if pr_code r = 0 then Some (pr_stdout r) else None))"

subsection \<open>The lock of a repository\<close>

definition withLock :: "'w ws_world \<Rightarrow> jstr \<Rightarrow> ('w, 'a) ws \<Rightarrow> ('w, 'a) ws" where
  "withLock p lock action =
     eff_bind (world_call (wp_lock p lock)) (\<lambda>_ s.
       case action s of (r, t) \<Rightarrow>
         (case world_call (wp_unlock p lock) t of (Inl e, u) \<Rightarrow> (Inl e, u) | (Inr _, u) \<Rightarrow> (r, u)))"

definition repoLock :: "jstr \<Rightarrow> jstr" where
  "repoLock gitCommonDir = gitCommonDir @ js ''/ws/locks/repo.lock''"

subsection \<open>The files of operations\<close>

definition loadOperation :: "jstr \<Rightarrow> jstr \<Rightarrow> ('w, ws_operation option) ws" where
  "loadOperation gitCommonDir operationId = eff_ask (\<lambda>s.
     (case map_of (wst_files s gitCommonDir) operationId of
        None \<Rightarrow> Inr None
      | Some (OperationFile op) \<Rightarrow> Inr (Some op)
      | Some OtherSchema \<Rightarrow> Inl (WsError WsUnsupportedSchemaVersion)
      | Some NotJson \<Rightarrow> Inl UnexpectedError))"

definition write_file :: "ws_operation \<Rightarrow> 'w ws_state \<Rightarrow> 'w ws_state" where
  "write_file op s = s\<lparr>wst_files := (wst_files s)(wo_gitCommonDir op :=
     AList.update (wo_operationId op) (OperationFile op) (wst_files s (wo_gitCommonDir op)))\<rparr>"

definition saveOperation :: "'w ws_world \<Rightarrow> ws_operation \<Rightarrow> ('w, ws_operation) ws" where
  "saveOperation p operation =
     eff_bind (world_now p) (\<lambda>now s.
       let op = operation\<lparr>wo_updatedAt := now\<rparr> in
       case wp_save p op (wst_world s) of ((written, failed), w) \<Rightarrow>
         (let t = s\<lparr>wst_world := w\<rparr>; u = if written \<or> failed = None then write_file op t else t
          in (case failed of Some e \<Rightarrow> (Inl e, u) | None \<Rightarrow> (Inr op, u))))"

text \<open>The names of the files end in \<^verbatim>\<open>.json\<close> when they are sorted.\<close>

definition listOperationIds :: "(jstr \<times> ws_file) list \<Rightarrow> jstr list" where
  "listOperationIds files = sort_key (\<lambda>k. k @ js ''.json'') (keys files)"

text \<open>Eight to 128 safe characters, the first a letter or a digit, with no two dots in a row.\<close>

definition id_letter :: "nat \<Rightarrow> bool" where
  "id_letter u \<longleftrightarrow> 97 \<le> u \<and> u \<le> 122 \<or> 65 \<le> u \<and> u \<le> 90 \<or> 48 \<le> u \<and> u \<le> 57"

fun double_dot :: "jstr \<Rightarrow> bool" where
  "double_dot (a # b # us) \<longleftrightarrow> a = 46 \<and> b = 46 \<or> double_dot (b # us)"
| "double_dot us \<longleftrightarrow> False"

definition validateOperationId :: "jstr \<Rightarrow> bool" where
  "validateOperationId t \<longleftrightarrow>
     (case t of [] \<Rightarrow> False
      | u # us \<Rightarrow> id_letter u \<and> 7 \<le> length us \<and> length us \<le> 127
          \<and> list_all (\<lambda>v. id_letter v \<or> v = 46 \<or> v = 95 \<or> v = 45) us) \<and> \<not> double_dot t"

record prepared_operation =
  po_operationId :: jstr
  po_worktreePath :: jstr
  po_taskBranch :: jstr
  po_baseCommit :: jstr
  po_dependencyMode :: dependency_mode
  po_packageManager :: package_manager
  po_lockFingerprint :: jstr
  po_dshHome :: jstr

definition manager_of :: "ws_operation \<Rightarrow> package_manager" where
  "manager_of op = (case wo_packageManager op of None \<Rightarrow> Npm | Some m \<Rightarrow> m)"

definition resultOf :: "ws_operation \<Rightarrow> ws_error + prepared_operation" where
  "resultOf op =
     (case (wo_phase op, wo_lockFingerprint op) of
        (Prepared, Some fingerprint) \<Rightarrow>
          Inr \<lparr>po_operationId = wo_operationId op, po_worktreePath = wo_worktreePath op, po_taskBranch = wo_taskBranch op,
               po_baseCommit = wo_baseCommit op, po_dependencyMode = wo_dependencyMode op,
               po_packageManager = manager_of op, po_lockFingerprint = fingerprint, po_dshHome = wo_dshHome op\<rparr>
      | _ \<Rightarrow> Inl (WsError WsOperationInvalid))"

record operation_status =
  os_operationId :: jstr
  os_phase :: ws_phase
  os_repoRoot :: jstr
  os_baseRef :: jstr
  os_baseCommit :: jstr
  os_taskBranch :: jstr
  os_worktreePath :: jstr
  os_dependencyMode :: dependency_mode
  os_packageManager :: package_manager
  os_lockFingerprint :: "jstr option"
  os_dshHome :: jstr
  os_preview :: "preview_result option"

definition statusOf :: "ws_operation \<Rightarrow> operation_status" where
  "statusOf op =
     \<lparr>os_operationId = wo_operationId op, os_phase = wo_phase op, os_repoRoot = wo_repoRoot op, os_baseRef = wo_baseRef op,
      os_baseCommit = wo_baseCommit op, os_taskBranch = wo_taskBranch op, os_worktreePath = wo_worktreePath op,
      os_dependencyMode = wo_dependencyMode op, os_packageManager = manager_of op,
      os_lockFingerprint = wo_lockFingerprint op, os_dshHome = wo_dshHome op, os_preview = wo_preview op\<rparr>"

subsection \<open>Lookup by source session\<close>

text \<open>The first record in the order of the file names, whatever its state; an unreadable file on the way throws.\<close>

fun history_scan :: "jstr \<Rightarrow> jstr list \<Rightarrow> jstr \<Rightarrow> ('w, ws_operation option) ws" where
  "history_scan gitCommonDir [] sourceSessionId = eff_return None"
| "history_scan gitCommonDir (name # names) sourceSessionId =
     eff_bind (loadOperation gitCommonDir name) (\<lambda>operation.
     case operation of
       Some op \<Rightarrow>
         (case wo_binding op of
            Some b \<Rightarrow> if sb_sourceSessionId b = sourceSessionId then eff_return (Some op)
                      else history_scan gitCommonDir names sourceSessionId
          | None \<Rightarrow> history_scan gitCommonDir names sourceSessionId)
     | None \<Rightarrow> history_scan gitCommonDir names sourceSessionId)"

definition findHistoryBySourceSession :: "jstr \<Rightarrow> jstr \<Rightarrow> ('w, ws_operation option) ws" where
  "findHistoryBySourceSession gitCommonDir sourceSessionId =
     eff_bind (eff_read (\<lambda>s. listOperationIds (wst_files s gitCommonDir))) (\<lambda>names.
       history_scan gitCommonDir names sourceSessionId)"

definition findBySourceSession :: "jstr \<Rightarrow> jstr \<Rightarrow> ('w, ws_operation option) ws" where
  "findBySourceSession gitCommonDir sourceSessionId =
     eff_bind (findHistoryBySourceSession gitCommonDir sourceSessionId) (\<lambda>operation.
       eff_return (case operation of None \<Rightarrow> None
         | Some op \<Rightarrow> if isCurrentBinding (wo_binding op) then Some op else None))"

end
