(* ===== verification/WsGit.thy ===== *)
theory WsGit
  imports WsRecords
begin

text \<open>
  Worktree sessions, git and the project: \<^verbatim>\<open>host/git.ts\<close> and \<^verbatim>\<open>host/project.ts\<close>. The commands are issued as the
  code spells them and their output is read as the code reads it; what git answers is up to the world.
\<close>

subsection \<open>Paths as texts\<close>

text \<open>
  \<open>resolve\<close> with an absolute first argument, \<open>normalize\<close>, which keeps a slash at the end, and \<open>join\<close>.
\<close>

definition resolve_text :: "jstr \<Rightarrow> jstr \<Rightarrow> jstr" where
  "resolve_text base t = path_text (resolve_names (if isAbsolute t then [] else resolve_names [] base) t)"

definition relative_step :: "jstr \<Rightarrow> path \<Rightarrow> path" where
  "relative_step n p =
     (if n = [] \<or> n = [46] then p
      else if n = [46, 46] \<and> p \<noteq> [] \<and> last p \<noteq> [46, 46] then butlast p else p @ [n])"

definition normalize :: "jstr \<Rightarrow> jstr" where
  "normalize t =
     (let slash = (if t \<noteq> [] \<and> last t = 47 then [47] else []) in
      if isAbsolute t then (let p = resolve_names [] t in if p = [] then [47] else path_text p @ slash)
      else (let p = fold relative_step (path_names t) [] in (if p = [] then [46] else join_names p) @ slash))"

definition join :: "jstr \<Rightarrow> jstr \<Rightarrow> jstr" where
  "join a b = normalize (a @ 47 # b)"

text \<open>\<open>relative\<close> between absolute paths, and the test of containment that three files spell out.\<close>

definition doesNotEscape :: "jstr \<Rightarrow> jstr \<Rightarrow> bool" where
  "doesNotEscape ancestor candidate =
     (let rel = join_names (relative_names (resolve_names [] ancestor) (resolve_names [] candidate)) in
      rel = [] \<or> \<not> text_starts [46, 46, 47] rel \<and> rel \<noteq> [46, 46] \<and> \<not> isAbsolute rel)"

definition withinRepo :: "jstr \<Rightarrow> jstr \<Rightarrow> bool" where
  "withinRepo repoRoot candidate = doesNotEscape repoRoot candidate"

subsection \<open>The repository\<close>

record repo_facts =
  rf_repoRoot :: jstr
  rf_gitCommonDir :: jstr
  rf_currentBranch :: "jstr option"
  rf_currentCommit :: jstr

definition discoverRepo :: "'w ws_world \<Rightarrow> jstr \<Rightarrow> ('w, repo_facts) ws" where
  "discoverRepo p path =
     eff_bind (if isAbsolute path then world_ask (wp_isDirectory p path) else eff_return False) (\<lambda>ok.
     if \<not> ok then eff_throw (WsError WsNotARepository)
     else
       eff_bind (gitMaybe p path [js ''rev-parse'', js ''--show-toplevel'']) (\<lambda>top.
       case top of
         None \<Rightarrow> eff_throw (WsError WsNotARepository)
       | Some top' \<Rightarrow>
           eff_bind (world_ask (wp_realpath p (trim top'))) (\<lambda>root.
           eff_bind (gitRun p path [js ''rev-parse'', js ''--git-common-dir'']) (\<lambda>commonOutput.
           eff_bind (world_ask (wp_realpath p (resolve_text path (trim commonOutput)))) (\<lambda>common.
           eff_bind (gitMaybe p path [js ''branch'', js ''--show-current'']) (\<lambda>branchOutput.
           eff_bind (gitRun p path [js ''rev-parse'', js ''HEAD^{commit}'']) (\<lambda>commit.
             eff_return \<lparr>rf_repoRoot = normalize root, rf_gitCommonDir = normalize common,
               rf_currentBranch = (case branchOutput of None \<Rightarrow> None | Some b \<Rightarrow> if trim b = [] then None else Some (trim b)),
               rf_currentCommit = trim commit\<rparr>)))))))"

definition resolveCommit :: "'w ws_world \<Rightarrow> jstr \<Rightarrow> jstr \<Rightarrow> ('w, jstr) ws" where
  "resolveCommit p repoRoot ref =
     (if trim ref = [] \<or> text_starts [45] ref then eff_throw (WsError WsInvalidRequest)
      else eff_bind (gitMaybe p repoRoot [js ''rev-parse'', js ''--verify'', ref @ js ''^{commit}'']) (\<lambda>result.
        case result of
          None \<Rightarrow> eff_throw (WsError WsInvalidRequest)
        | Some out \<Rightarrow> if trim out = [] then eff_throw (WsError WsInvalidRequest) else eff_return (trim out)))"

subsection \<open>The list of worktrees\<close>

record worktree_entry =
  we_path :: jstr
  we_head :: "jstr option"
  we_branch :: "jstr option"
  we_bare :: bool
  we_detached :: bool
  we_prunable :: bool

fun text_lines :: "jstr \<Rightarrow> jstr list" where
  "text_lines [] = [[]]"
| "text_lines (u # us) =
     (if u = 10 then [] # text_lines us
      else (case text_lines us of l # ls \<Rightarrow> (u # l) # ls | [] \<Rightarrow> [[u]]))"

definition flush_entry :: "worktree_entry option \<Rightarrow> worktree_entry list \<Rightarrow> worktree_entry list" where
  "flush_entry current entries =
     (case current of
        None \<Rightarrow> entries
      | Some e \<Rightarrow> if we_head e = None then entries else entries @ [e\<lparr>we_path := normalize (we_path e)\<rparr>])"

definition read_field :: "jstr \<Rightarrow> worktree_entry \<Rightarrow> worktree_entry" where
  "read_field line e =
     (if text_starts (js ''HEAD '') line then e\<lparr>we_head := Some (drop 5 line)\<rparr>
      else if text_starts (js ''branch '') line then e\<lparr>we_branch := Some (drop 7 line)\<rparr>
      else if line = js ''bare'' then e\<lparr>we_bare := True\<rparr>
      else if line = js ''detached'' then e\<lparr>we_detached := True\<rparr>
      else if text_starts (js ''prunable'') line then e\<lparr>we_prunable := True\<rparr> else e)"

fun read_entries :: "jstr list \<Rightarrow> worktree_entry option \<Rightarrow> worktree_entry list \<Rightarrow> worktree_entry list" where
  "read_entries [] current entries = flush_entry current entries"
| "read_entries (line # ls) current entries =
     (if text_starts (js ''worktree '') line
      then read_entries ls
        (Some \<lparr>we_path = drop 9 line, we_head = None, we_branch = None, we_bare = False, we_detached = False,
          we_prunable = False\<rparr>) (flush_entry current entries)
      else read_entries ls (map_option (read_field line) current) entries)"

definition listWorktrees :: "'w ws_world \<Rightarrow> jstr \<Rightarrow> ('w, worktree_entry list) ws" where
  "listWorktrees p repoRoot =
     eff_bind (gitRun p repoRoot [js ''worktree'', js ''list'', js ''--porcelain'']) (\<lambda>output.
       eff_return (read_entries (text_lines output) None []))"

definition worktreeStatus :: "'w ws_world \<Rightarrow> jstr \<Rightarrow> ('w, jstr) ws" where
  "worktreeStatus p path = gitRun p path [js ''status'', js ''--porcelain=v1'', js ''--untracked-files=all'']"

text \<open>\<open>None\<close>: the tracking state is not known.\<close>

definition isTracked :: "'w ws_world \<Rightarrow> jstr \<Rightarrow> jstr \<Rightarrow> ('w, bool option) ws" where
  "isTracked p repoRoot relativePath =
     eff_catch
       (eff_bind (run_process p (js ''git'') [js ''ls-files'', js ''--error-unmatch'', js ''--'', relativePath] repoRoot) (\<lambda>r.
          eff_return (if pr_timedOut r then None else if pr_code r = 0 then Some True
            else if pr_code r = 1 then Some False else None)))
       (\<lambda>_. eff_return None)"

subsection \<open>Allocating a branch and a directory\<close>

text \<open>
  \<open>toLowerCase\<close>: besides the capital letters of ASCII, two code units have a lower case that begins in ASCII, the
  Kelvin sign and the dotted capital I; only letters and digits of ASCII are read from the result.
\<close>

fun lower_units :: "jstr \<Rightarrow> jstr" where
  "lower_units [] = []"
| "lower_units (u # us) =
     (if 65 \<le> u \<and> u \<le> 90 then (u + 32) # lower_units us
      else if u = 8490 then 107 # lower_units us
      else if u = 304 then 105 # 775 # lower_units us else u # lower_units us)"

definition slug_unit :: "nat \<Rightarrow> bool" where
  "slug_unit u \<longleftrightarrow> 97 \<le> u \<and> u \<le> 122 \<or> 48 \<le> u \<and> u \<le> 57"

text \<open>The maximal runs of letters and digits; the second argument is the run that is being read.\<close>

fun slug_tokens :: "jstr \<Rightarrow> jstr \<Rightarrow> jstr list" where
  "slug_tokens [] run = (if run = [] then [] else [run])"
| "slug_tokens (u # us) run =
     (if slug_unit u then slug_tokens us (run @ [u])
      else (if run = [] then [] else [run]) @ slug_tokens us [])"

fun join_dashes :: "jstr list \<Rightarrow> jstr" where
  "join_dashes [] = []"
| "join_dashes [t] = t"
| "join_dashes (t # u # ts) = t @ 45 # join_dashes (u # ts)"

definition taskSlug :: "'w ws_world \<Rightarrow> jstr \<Rightarrow> jstr" where
  "taskSlug p taskText =
     (let joined = rev (dropWhile (\<lambda>u. u = 45) (rev (take 48 (join_dashes (slug_tokens (lower_units taskText) []))))) in
      if joined \<noteq> [] then joined else js ''task-'' @ take 10 (wp_sha256 p taskText))"

definition validateBranch :: "'w ws_world \<Rightarrow> jstr \<Rightarrow> jstr \<Rightarrow> ('w, unit) ws" where
  "validateBranch p branch repoRoot =
     eff_bind (run_process p (js ''git'') [js ''check-ref-format'', js ''--branch'', branch] repoRoot) (\<lambda>r.
       eff_when (pr_code r = 0) (WsError WsInvalidRequest))"

definition branchExists :: "'w ws_world \<Rightarrow> jstr \<Rightarrow> jstr \<Rightarrow> ('w, bool) ws" where
  "branchExists p repoRoot branch =
     eff_bind (gitMaybe p repoRoot [js ''show-ref'', js ''--verify'', js ''--quiet'', js ''refs/heads/'' @ branch]) (\<lambda>r.
       eff_return (r \<noteq> None))"

record allocation =
  al_slug :: jstr
  al_branch :: jstr
  al_path :: jstr

text \<open>The loop over the suffixes, up to 9999.\<close>

fun allocate_from :: "'w ws_world \<Rightarrow> jstr \<Rightarrow> jstr \<Rightarrow> nat list \<Rightarrow> ('w, allocation) ws" where
  "allocate_from p repoRoot base [] = eff_throw (WsError WsOperationConflict)"
| "allocate_from p repoRoot base (n # ns) =
     (let slug = (if n = 1 then base else base @ 45 # decimal n);
          branch = js ''ws/'' @ slug;
          path = path_text (resolve_names (resolve_names (resolve_names [] repoRoot) (js ''.worktrees'')) slug)
      in eff_bind (validateBranch p branch repoRoot) (\<lambda>_.
         eff_bind (branchExists p repoRoot branch) (\<lambda>exists.
         if exists then allocate_from p repoRoot base ns
         else eff_bind (world_ask (wp_isDirectory p path)) (\<lambda>taken.
           if taken then allocate_from p repoRoot base ns
           else eff_return \<lparr>al_slug = slug, al_branch = branch, al_path = path\<rparr>))))"

definition allocateTask :: "'w ws_world \<Rightarrow> jstr \<Rightarrow> jstr \<Rightarrow> ('w, allocation) ws" where
  "allocateTask p repoRoot taskText = allocate_from p repoRoot (taskSlug p taskText) [1 ..< 10000]"

definition createTaskWorktree :: "'w ws_world \<Rightarrow> jstr \<Rightarrow> jstr \<Rightarrow> jstr \<Rightarrow> jstr \<Rightarrow> ('w, unit) ws" where
  "createTaskWorktree p repoRoot branch path baseCommit =
     eff_bind (branchExists p repoRoot branch) (\<lambda>exists.
     if exists then
       eff_bind (gitRun p repoRoot [js ''rev-parse'', js ''--verify'', js ''refs/heads/'' @ branch @ js ''^{commit}'']) (\<lambda>existing.
       if trim existing \<noteq> baseCommit then eff_throw (WsError WsOperationConflict)
       else eff_bind (gitRun p repoRoot [js ''worktree'', js ''add'', path, branch]) (\<lambda>_. eff_return ()))
     else eff_bind (gitRun p repoRoot [js ''worktree'', js ''add'', js ''-b'', branch, path, baseCommit]) (\<lambda>_. eff_return ()))"

fun missing_worktrees :: "'w ws_world \<Rightarrow> worktree_entry list \<Rightarrow> ('w, jstr list) ws" where
  "missing_worktrees p [] = eff_return []"
| "missing_worktrees p (e # es) =
     (if we_bare e then missing_worktrees p es
      else eff_bind (world_ask (wp_isDirectory p (we_path e))) (\<lambda>there.
        eff_bind (missing_worktrees p es) (\<lambda>paths. eff_return (if there then paths else we_path e # paths))))"

definition pruneInvalidRegistrations :: "'w ws_world \<Rightarrow> jstr \<Rightarrow> ('w, jstr list) ws" where
  "pruneInvalidRegistrations p repoRoot =
     eff_bind (listWorktrees p repoRoot) (\<lambda>entries.
     eff_bind (missing_worktrees p entries) (\<lambda>paths.
     if paths = [] then eff_return []
     else eff_bind (gitRun p repoRoot [js ''worktree'', js ''prune'', js ''--expire'', js ''now'']) (\<lambda>_. eff_return paths)))"

subsection \<open>The package manager of the project\<close>

definition NPM_LOCKFILE :: jstr where
  "NPM_LOCKFILE = js ''package-lock.json''"

definition PNPM_LOCKFILE :: jstr where
  "PNPM_LOCKFILE = js ''pnpm-lock.yaml''"

text \<open>The name before the first at-sign of the declared manager; whatever goes wrong is no declaration.\<close>

definition declared_manager :: "jstr \<Rightarrow> package_manager option" where
  "declared_manager text =
     (case json_parse text of
        Some (JObj kvs) \<Rightarrow>
          (case map_of kvs (js ''packageManager'') of
             Some (JStr value) \<Rightarrow>
               (let name = takeWhile (\<lambda>u. u \<noteq> 64) value in
                if name = js ''npm'' then Some Npm else if name = js ''pnpm'' then Some Pnpm else None)
           | _ \<Rightarrow> None)
      | _ \<Rightarrow> None)"

definition declaredPackageManager :: "'w ws_world \<Rightarrow> jstr \<Rightarrow> ('w, package_manager option) ws" where
  "declaredPackageManager p repoPath =
     eff_catch
       (eff_bind (world_ask (wp_readText p (join repoPath (js ''package.json'')))) (\<lambda>text.
          eff_return (case text of None \<Rightarrow> None | Some t \<Rightarrow> declared_manager t)))
       (\<lambda>_. eff_return None)"

text \<open>A project, and the signal that decided between two lockfiles.\<close>

definition detectPackageManager :: "'w ws_world \<Rightarrow> jstr \<Rightarrow> ('w, package_manager \<times> adoption_signal option) ws" where
  "detectPackageManager p repoPath =
     eff_bind (world_ask (wp_pathExists p (join repoPath NPM_LOCKFILE))) (\<lambda>npm.
     eff_bind (world_ask (wp_pathExists p (join repoPath PNPM_LOCKFILE))) (\<lambda>pnpm.
     if npm \<and> pnpm then
       eff_bind (declaredPackageManager p repoPath) (\<lambda>declared.
       case declared of
         Some m \<Rightarrow> eff_return (m, Some PackageManagerField)
       | None \<Rightarrow>
           eff_bind (isTracked p repoPath NPM_LOCKFILE) (\<lambda>npmTracked.
           eff_bind (isTracked p repoPath PNPM_LOCKFILE) (\<lambda>pnpmTracked.
           if npmTracked \<noteq> None \<and> pnpmTracked \<noteq> None \<and> npmTracked \<noteq> pnpmTracked
           then eff_return (if npmTracked = Some True then Npm else Pnpm, Some GitTracking)
           else eff_throw (WsError WsUnsupportedProject))))
     else if npm then eff_return (Npm, None)
     else if pnpm then eff_return (Pnpm, None)
     else eff_throw (WsError WsUnsupportedProject)))"

end
