(* ===== verification/WsOperations.thy ===== *)
theory WsOperations
  imports WsGit
begin

text \<open>
  Worktree sessions, the operations: \<^verbatim>\<open>host/operation.ts\<close>. The part of an operation behind the lock of the
  repository is a definition of its own, so that runs can interleave operations at the lock. The table of starts
  in flight, which answers a second identical call with the promise of the first, is left out.
\<close>

record start_request =
  sq_operationId :: jstr
  sq_repoPath :: jstr
  sq_baseRef :: jstr
  sq_taskText :: jstr
  sq_dependencyMode :: dependency_mode

subsection \<open>Whether the resource of a phase is there\<close>

fun text_includes :: "jstr \<Rightarrow> jstr \<Rightarrow> bool" where
  "text_includes t [] \<longleftrightarrow> t = []"
| "text_includes t (u # us) \<longleftrightarrow> text_starts t (u # us) \<or> text_includes t us"

fun shell_escape :: "jstr \<Rightarrow> jstr" where
  "shell_escape [] = []"
| "shell_escape (u # us) = (if u = 39 then [39, 92, 39, 39] @ shell_escape us else u # shell_escape us)"

definition environment_line :: "jstr \<Rightarrow> jstr" where
  "environment_line dshHome = js ''DSH_HOME='' @ 39 # shell_escape dshHome @ [39]"

definition worktree_there :: "'w ws_world \<Rightarrow> ws_operation \<Rightarrow> ('w, bool) ws" where
  "worktree_there p op =
     eff_bind (world_ask (wp_isDirectory p (wo_worktreePath op))) (\<lambda>there.
     if \<not> there then eff_return False
     else eff_bind (listWorktrees p (wo_repoRoot op)) (\<lambda>entries.
       eff_return (\<exists>e \<in> set entries. we_path e = wo_worktreePath op
         \<and> we_branch e = Some (js ''refs/heads/'' @ wo_taskBranch op))))"

definition dependencies_ready :: "'w ws_world \<Rightarrow> ws_operation \<Rightarrow> ('w, bool) ws" where
  "dependencies_ready p op =
     (if wo_packageManager op = Some Pnpm then
        (case wo_lockFingerprint op of
           None \<Rightarrow> eff_return False
         | Some fingerprint \<Rightarrow>
             eff_bind (world_call (wp_fingerprint p (wo_worktreePath op) Pnpm)) (\<lambda>expected.
             if expected \<noteq> fingerprint then eff_return False
             else world_ask (wp_isDirectory p (join (wo_worktreePath op) (js ''node_modules'')))))
      else
        (case (wo_lockFingerprint op, wo_cacheNodeModules op) of
           (Some fingerprint, Some cache) \<Rightarrow>
             eff_bind (world_call (wp_fingerprint p (wo_worktreePath op) Npm)) (\<lambda>expected.
             if expected \<noteq> fingerprint then eff_return False
             else
               eff_bind (world_call (wp_cacheHealthy p (join cache (js ''..'')) expected)) (\<lambda>healthy.
               if healthy then world_ask (wp_leanLinkMatches p (wo_worktreePath op) cache) else eff_return False))
         | _ \<Rightarrow> eff_return False))"

definition environment_there :: "'w ws_world \<Rightarrow> ws_operation \<Rightarrow> ('w, bool) ws" where
  "environment_there p op =
     (if wo_dshHome op = [] then eff_return False
      else
        eff_bind (world_ask (wp_isDirectory p (wo_dshHome op))) (\<lambda>home.
        if \<not> home then eff_return False
        else eff_bind (world_ask (wp_readText p (join (wo_worktreePath op) (js ''.env.local'')))) (\<lambda>env.
          eff_return (text_includes (environment_line (wo_dshHome op)) (case env of None \<Rightarrow> [] | Some t \<Rightarrow> t)))))"

definition validateResource :: "'w ws_world \<Rightarrow> ws_operation \<Rightarrow> ws_phase \<Rightarrow> ('w, bool) ws" where
  "validateResource p op phase =
     (case phase of
        BranchCreated \<Rightarrow> branchExists p (wo_repoRoot op) (wo_taskBranch op)
      | WorktreeCreated \<Rightarrow> worktree_there p op
      | DependenciesReady \<Rightarrow> dependencies_ready p op
      | Allocated \<Rightarrow> eff_return True
      | Cleaned \<Rightarrow> eff_return True
      | _ \<Rightarrow>
          eff_bind (worktree_there p op) (\<lambda>there.
          if \<not> there then eff_return False
          else eff_bind (if wo_dependencyMode op = Lean then dependencies_ready p op else eff_return True) (\<lambda>ready.
            if ready then environment_there p op else eff_return False)))"

subsection \<open>The start of an operation\<close>

text \<open>
  The steps of a start change the variable \<open>operation\<close>, which the handler of their errors reads: they run on the
  state together with its value.
\<close>

type_synonym ('w, 'a) start = "('w ws_state \<times> ws_operation, ws_error, 'a) eff"

definition on_state :: "('w, 'a) ws \<Rightarrow> ('w, 'a) start" where
  "on_state m = eff_zoom fst (\<lambda>t s. (t, snd s)) id m"

definition assign :: "(ws_operation \<Rightarrow> ws_operation) \<Rightarrow> ('w, unit) start" where
  "assign f = eff_update (\<lambda>s. (fst s, f (snd s)))"

definition with_operation :: "(ws_operation \<Rightarrow> ('w, 'a) start) \<Rightarrow> ('w, 'a) start" where
  "with_operation f s = f (snd s) s"

text \<open>\<^verbatim>\<open>operation = await saveOperation({ ...operation, ... })\<close>\<close>

definition save_as :: "'w ws_world \<Rightarrow> (ws_operation \<Rightarrow> ws_operation) \<Rightarrow> ('w, unit) start" where
  "save_as p f = with_operation (\<lambda>op. eff_bind (on_state (saveOperation p (f op))) (\<lambda>next_op. assign (\<lambda>_. next_op)))"

definition recreate :: "'w ws_world \<Rightarrow> ws_operation \<Rightarrow> ('w, unit) ws" where
  "recreate p op =
     eff_bind (pruneInvalidRegistrations p (wo_repoRoot op)) (\<lambda>_.
       createTaskWorktree p (wo_repoRoot op) (wo_taskBranch op) (wo_worktreePath op) (wo_baseCommit op))"

definition start_branch :: "'w ws_world \<Rightarrow> ('w, unit) start" where
  "start_branch p =
     eff_bind (with_operation (\<lambda>op. on_state
       (eff_bind (validateResource p op BranchCreated) (\<lambda>ok. if ok then eff_return () else recreate p op)))) (\<lambda>_.
     save_as p (\<lambda>op. op\<lparr>wo_phase := BranchCreated\<rparr>))"

definition start_worktree :: "'w ws_world \<Rightarrow> ('w, unit) start" where
  "start_worktree p =
     eff_bind (with_operation (\<lambda>op. on_state
       (eff_bind (validateResource p op WorktreeCreated) (\<lambda>ok.
        if ok then eff_return ()
        else
          eff_bind (branchExists p (wo_repoRoot op) (wo_taskBranch op)) (\<lambda>branch.
          if \<not> branch then eff_return ()
          else eff_bind (world_ask (wp_isDirectory p (wo_worktreePath op))) (\<lambda>there.
            if there then eff_return () else recreate p op)))))) (\<lambda>_.
     eff_bind (with_operation (\<lambda>op. on_state
       (eff_bind (validateResource p op WorktreeCreated) (\<lambda>ok. eff_when ok (WsError WsOperationInvalid))))) (\<lambda>_.
     save_as p (\<lambda>op. op\<lparr>wo_phase := WorktreeCreated\<rparr>)))"

definition start_dependencies :: "'w ws_world \<Rightarrow> ('w, unit) start" where
  "start_dependencies p =
     eff_bind (with_operation (\<lambda>op. on_state (validateResource p op DependenciesReady))) (\<lambda>ok.
     eff_bind
       (if ok then eff_return ()
        else with_operation (\<lambda>op.
          if wo_packageManager op = Some Pnpm then
            eff_bind (on_state (world_call (wp_preparePnpm p (wo_worktreePath op)))) (\<lambda>fingerprint.
              assign (\<lambda>op. op\<lparr>wo_lockFingerprint := Some fingerprint\<rparr>))
          else
            eff_bind (on_state (world_call (wp_prepareCache p (wo_worktreePath op) (wo_gitCommonDir op)))) (\<lambda>(fingerprint, cache).
            eff_bind (on_state (world_call (wp_ensureLeanLink p (wo_worktreePath op) cache))) (\<lambda>_.
              assign (\<lambda>op. op\<lparr>wo_lockFingerprint := Some fingerprint, wo_cacheNodeModules := Some cache\<rparr>))))) (\<lambda>_.
     save_as p (\<lambda>op. op\<lparr>wo_phase := DependenciesReady\<rparr>)))"

definition start_environment :: "'w ws_world \<Rightarrow> ('w, unit) start" where
  "start_environment p =
     eff_bind (with_operation (\<lambda>op. on_state
       (world_call (wp_environment p (wo_repoRoot op) (wo_worktreePath op) (wo_gitCommonDir op) (wo_operationId op))))) (\<lambda>dshHome.
     eff_bind (save_as p (\<lambda>op. op\<lparr>wo_dshHome := dshHome, wo_phase := EnvironmentReady\<rparr>)) (\<lambda>_.
     save_as p (\<lambda>op. op\<lparr>wo_phase := Prepared\<rparr>)))"

definition start_resources :: "'w ws_world \<Rightarrow> ('w, prepared_operation) start" where
  "start_resources p =
     eff_bind (start_branch p) (\<lambda>_.
     eff_bind (start_worktree p) (\<lambda>_.
     eff_bind (start_dependencies p) (\<lambda>_.
     eff_bind (start_environment p) (\<lambda>_.
       with_operation (\<lambda>op. eff_ask (\<lambda>_. resultOf op))))))"

definition last_20 :: "'a list \<Rightarrow> 'a list" where
  "last_20 xs = drop (length xs - 20) xs"

definition start_failed :: "'w ws_world \<Rightarrow> ws_diagnostic list \<Rightarrow> ws_error \<Rightarrow> ('w, prepared_operation) start" where
  "start_failed p diagnostics err =
     with_operation (\<lambda>op. on_state
       (eff_bind (saveOperation p (op\<lparr>wo_diagnostics := Some (last_20 (diagnostics @ [FailedWith err]))\<rparr>)) (\<lambda>_.
        eff_bind
          (if wo_phase op = Allocated then
             eff_bind (branchExists p (wo_repoRoot op) (wo_taskBranch op)) (\<lambda>branch.
             if \<not> branch then eff_return ()
             else eff_bind (world_ask (wp_isDirectory p (wo_worktreePath op))) (\<lambda>there.
               if there then eff_return ()
               else eff_bind (gitMaybe p (wo_repoRoot op) [js ''branch'', js ''-D'', wo_taskBranch op]) (\<lambda>_. eff_return ())))
           else eff_return ()) (\<lambda>_.
          eff_throw err))))"

definition validateReplay :: "'w ws_world \<Rightarrow> ws_operation \<Rightarrow> start_request \<Rightarrow> jstr \<Rightarrow> bool" where
  "validateReplay p existing rq repoRoot \<longleftrightarrow>
     wo_repoRoot existing = repoRoot \<and> wo_baseRef existing = sq_baseRef rq \<and> wo_taskHash existing = wp_sha256 p (sq_taskText rq)"

definition new_operation :: "'w ws_world \<Rightarrow> start_request \<Rightarrow> repo_facts \<Rightarrow> package_manager \<times> adoption_signal option
    \<Rightarrow> jstr \<Rightarrow> allocation \<Rightarrow> jstr \<Rightarrow> ws_operation" where
  "new_operation p rq repo resolution baseCommit al timestamp =
     \<lparr>wo_operationId = sq_operationId rq, wo_repoRoot = rf_repoRoot repo, wo_gitCommonDir = rf_gitCommonDir repo,
      wo_baseRef = sq_baseRef rq, wo_baseCommit = baseCommit, wo_taskBranch = al_branch al, wo_worktreePath = al_path al,
      wo_taskHash = wp_sha256 p (sq_taskText rq), wo_dependencyMode = Lean, wo_packageManager = Some (fst resolution),
      wo_lockFingerprint = None, wo_cacheNodeModules = None,
      wo_dshHome = join (rf_gitCommonDir repo) (js ''ws/dsh-home/'' @ sq_operationId rq), wo_phase = Allocated,
      wo_createdAt = timestamp, wo_updatedAt = timestamp, wo_preview = None,
      wo_diagnostics = map_option (\<lambda>sig. [AdoptedLockfile (fst resolution) sig]) (snd resolution),
      wo_binding = None\<rparr>"

definition allocate_operation :: "'w ws_world \<Rightarrow> start_request \<Rightarrow> repo_facts \<Rightarrow> ('w, ws_operation) ws" where
  "allocate_operation p rq repo =
     eff_bind (detectPackageManager p (rf_repoRoot repo)) (\<lambda>resolution.
     eff_bind (resolveCommit p (rf_repoRoot repo) (sq_baseRef rq)) (\<lambda>baseCommit.
     eff_bind (allocateTask p (rf_repoRoot repo) (sq_taskText rq)) (\<lambda>al.
     eff_bind (world_now p) (\<lambda>timestamp.
     let op = new_operation p rq repo resolution baseCommit al timestamp in
     eff_bind (saveOperation p op) (\<lambda>_. eff_return op)))))"

definition run_start :: "'w ws_world \<Rightarrow> ws_operation \<Rightarrow> ('w, prepared_operation) ws" where
  "run_start p op s =
     (case eff_catch (start_resources p)
             (start_failed p (case wo_diagnostics op of None \<Rightarrow> [] | Some ds \<Rightarrow> ds)) (s, op) of
        (r, t) \<Rightarrow> (r, fst t))"

definition start_locked :: "'w ws_world \<Rightarrow> start_request \<Rightarrow> repo_facts \<Rightarrow> ('w, prepared_operation) ws" where
  "start_locked p rq repo =
     eff_bind (loadOperation (rf_gitCommonDir repo) (sq_operationId rq)) (\<lambda>existing.
     eff_bind
       (case existing of
          Some op \<Rightarrow> if validateReplay p op rq (rf_repoRoot repo) then eff_return op else eff_throw (WsError WsOperationConflict)
        | None \<Rightarrow> allocate_operation p rq repo) (\<lambda>op.
     if wo_phase op = Cleaned then eff_throw (WsError WsOperationConflict)
     else
       eff_bind (if wo_phase op = Prepared then validateResource p op Prepared else eff_return False) (\<lambda>ready.
       if ready then eff_ask (\<lambda>_. resultOf op) else run_start p op)))"

definition performStart :: "'w ws_world \<Rightarrow> start_request \<Rightarrow> ('w, prepared_operation) ws" where
  "performStart p rq =
     (if \<not> validateOperationId (sq_operationId rq) then eff_throw (WsError WsInvalidRequest)
      else if sq_dependencyMode rq \<noteq> Lean then eff_throw (WsError WsInvalidRequest)
      else
        eff_bind (discoverRepo p (sq_repoPath rq)) (\<lambda>repo.
        eff_bind (world_ask (wp_realpath p (sq_repoPath rq))) (\<lambda>requestedPath.
        if \<not> withinRepo (rf_repoRoot repo) requestedPath then eff_throw (WsError WsOutsideRepository)
        else
          eff_bind (world_call (wp_exclude p (rf_gitCommonDir repo))) (\<lambda>_.
            withLock p (repoLock (rf_gitCommonDir repo)) (start_locked p rq repo)))))"

subsection \<open>Binding to a session\<close>

record bind_request =
  bq_operationId :: jstr
  bq_repoPath :: jstr
  bq_sourceSessionId :: jstr

definition ensureFreshSourceBinding :: "ws_operation \<Rightarrow> jstr \<Rightarrow> jstr \<Rightarrow> ws_operation" where
  "ensureFreshSourceBinding op sourceSessionId now =
     (case wo_binding op of
        Some _ \<Rightarrow> op
      | None \<Rightarrow> op\<lparr>wo_binding := Some \<lparr>sb_sourceSessionId = sourceSessionId, sb_state = BindingBound, sb_updatedAt = now,
          sb_archiveLifecycle = False\<rparr>\<rparr>)"

definition bind_locked :: "'w ws_world \<Rightarrow> bind_request \<Rightarrow> repo_facts \<Rightarrow> ('w, public_lifecycle) ws" where
  "bind_locked p rq repo =
     eff_bind (loadOperation (rf_gitCommonDir repo) (bq_operationId rq)) (\<lambda>operation.
     case operation of
       None \<Rightarrow> eff_throw (WsError WsOperationNotFound)
     | Some op \<Rightarrow>
         if wo_phase op \<noteq> Prepared then eff_throw (WsError WsOperationNotFound)
         else if wo_repoRoot op \<noteq> rf_repoRoot repo then eff_throw (WsError WsOperationConflict)
         else
           eff_bind (findBySourceSession (rf_gitCommonDir repo) (bq_sourceSessionId rq)) (\<lambda>owned.
           if (case owned of None \<Rightarrow> False | Some o' \<Rightarrow> wo_operationId o' \<noteq> wo_operationId op)
           then eff_throw (WsError WsOperationConflict)
           else if (case wo_binding op of None \<Rightarrow> False | Some b \<Rightarrow> sb_state b = BindingReleased)
           then eff_throw (WsError WsOperationConflict)
           else if (case wo_binding op of None \<Rightarrow> False | Some b \<Rightarrow> sb_sourceSessionId b \<noteq> bq_sourceSessionId rq)
           then eff_throw (WsError WsOperationConflict)
           else
             eff_bind (if wo_binding op = None then world_now p else eff_return []) (\<lambda>now.
             eff_bind (saveOperation p (ensureFreshSourceBinding op (bq_sourceSessionId rq) now)) (\<lambda>updated.
               eff_return (case wo_binding updated of None \<Rightarrow> PublicBound | Some b \<Rightarrow> publicBindingLifecycle (sb_state b))))))"

definition bindSource :: "'w ws_world \<Rightarrow> bind_request \<Rightarrow> ('w, public_lifecycle) ws" where
  "bindSource p rq =
     (if \<not> validateOperationId (bq_operationId rq) then eff_throw (WsError WsInvalidRequest)
      else if trim (bq_sourceSessionId rq) = [] then eff_throw (WsError WsInvalidRequest)
      else
        eff_bind (discoverRepo p (bq_repoPath rq)) (\<lambda>repo.
        eff_bind (world_ask (wp_realpath p (bq_repoPath rq))) (\<lambda>requestedPath.
        if \<not> withinRepo (rf_repoRoot repo) requestedPath then eff_throw (WsError WsOutsideRepository)
        else withLock p (repoLock (rf_gitCommonDir repo)) (bind_locked p rq repo))))"

subsection \<open>Release and the archive\<close>

definition save_binding :: "'w ws_world \<Rightarrow> ws_operation \<Rightarrow> source_binding \<Rightarrow> binding_state \<Rightarrow> ('w, ws_operation option) ws" where
  "save_binding p op b state =
     eff_bind (world_now p) (\<lambda>now.
     eff_bind (saveOperation p
       (op\<lparr>wo_binding := Some (b\<lparr>sb_state := state, sb_archiveLifecycle := True, sb_updatedAt := now\<rparr>)\<rparr>)) (\<lambda>saved.
       eff_return (Some saved)))"

definition release_locked :: "'w ws_world \<Rightarrow> jstr \<Rightarrow> jstr \<Rightarrow> ('w, ws_operation option) ws" where
  "release_locked p gitCommonDir sourceSessionId =
     eff_bind (findHistoryBySourceSession gitCommonDir sourceSessionId) (\<lambda>operation.
     case operation of
       None \<Rightarrow> eff_return None
     | Some op \<Rightarrow>
         (case wo_binding op of
            None \<Rightarrow> eff_return (Some op)
          | Some b \<Rightarrow>
              if sb_state b \<noteq> BindingCleaned \<and> sb_state b \<noteq> BindingCleanedArchived then eff_return (Some op)
              else save_binding p op b BindingReleased))"

definition releaseMissingWorktreeBinding :: "'w ws_world \<Rightarrow> jstr \<Rightarrow> jstr \<Rightarrow> ('w, ws_operation option) ws" where
  "releaseMissingWorktreeBinding p gitCommonDir sourceSessionId =
     withLock p (repoLock gitCommonDir) (release_locked p gitCommonDir sourceSessionId)"

datatype archive_mode = ArchiveObserved | UnarchiveObserved | CurrentSnapshot

definition archive_step :: "ws_operation \<Rightarrow> source_binding \<Rightarrow> bool \<Rightarrow> archive_mode \<Rightarrow> binding_state option" where
  "archive_step op b archived mode =
     (let legacy = wo_phase op = Cleaned \<and> sb_state b = BindingCleaned \<and> \<not> sb_archiveLifecycle b in
      if legacy \<and> mode = CurrentSnapshot then Some (if archived then BindingCleanedArchived else BindingReleased)
      else if sb_archiveLifecycle b \<and> sb_state b = BindingCleaned \<and> archived \<and> (mode = ArchiveObserved \<or> mode = CurrentSnapshot)
      then Some BindingCleanedArchived
      else if sb_archiveLifecycle b \<and> sb_state b = BindingCleanedArchived \<and> \<not> archived
          \<and> (mode = UnarchiveObserved \<or> mode = CurrentSnapshot)
      then Some BindingReleased
      else None)"

definition reconcile_locked :: "'w ws_world \<Rightarrow> jstr \<Rightarrow> jstr \<Rightarrow> bool \<Rightarrow> archive_mode \<Rightarrow> ('w, ws_operation option) ws" where
  "reconcile_locked p gitCommonDir sourceSessionId archived mode =
     eff_bind (findHistoryBySourceSession gitCommonDir sourceSessionId) (\<lambda>operation.
     case operation of
       None \<Rightarrow> eff_return None
     | Some op \<Rightarrow>
         (case wo_binding op of
            None \<Rightarrow> eff_return (Some op)
          | Some b \<Rightarrow>
              if sb_state b = BindingReleased then eff_return (Some op)
              else (case archive_step op b archived mode of
                      None \<Rightarrow> eff_return (Some op)
                    | Some state \<Rightarrow> save_binding p op b state)))"

definition reconcileSourceArchiveLifecycle ::
  "'w ws_world \<Rightarrow> jstr \<Rightarrow> jstr \<Rightarrow> bool \<Rightarrow> archive_mode \<Rightarrow> ('w, ws_operation option) ws" where
  "reconcileSourceArchiveLifecycle p gitCommonDir sourceSessionId archived mode =
     withLock p (repoLock gitCommonDir) (reconcile_locked p gitCommonDir sourceSessionId archived mode)"

subsection \<open>The status of a session\<close>

record session_status =
  ss_operationId :: jstr
  ss_phase :: ws_phase
  ss_taskBranch :: jstr
  ss_worktreePath :: jstr
  ss_dependencyMode :: dependency_mode
  ss_packageManager :: package_manager
  ss_lifecycle :: public_lifecycle
  ss_cleaned :: bool

text \<open>\<open>None\<close>: the session is not bound.\<close>

definition sessionStatus :: "'w ws_world \<Rightarrow> jstr \<Rightarrow> jstr \<Rightarrow> ('w, session_status option) ws" where
  "sessionStatus p repoPath sourceSessionId =
     eff_bind (discoverRepo p repoPath) (\<lambda>repo.
     eff_bind (findBySourceSession (rf_gitCommonDir repo) sourceSessionId) (\<lambda>operation.
       eff_return (case operation of
         None \<Rightarrow> None
       | Some op \<Rightarrow>
           (case wo_binding op of
              None \<Rightarrow> None
            | Some b \<Rightarrow>
                Some \<lparr>ss_operationId = wo_operationId op, ss_phase = wo_phase op, ss_taskBranch = wo_taskBranch op,
                  ss_worktreePath = wo_worktreePath op, ss_dependencyMode = wo_dependencyMode op,
                  ss_packageManager = manager_of op, ss_lifecycle = publicBindingLifecycle (sb_state b),
                  ss_cleaned = (sb_state b = BindingCleaned \<or> sb_state b = BindingCleanedArchived)\<rparr>))))"

end
