(* ===== verification/WsMaintenance.thy ===== *)
theory WsMaintenance
  imports WsOperations
begin

text \<open>
  Worktree sessions, maintenance: \<^verbatim>\<open>host/maintenance.ts\<close>: finding the operation of a path or a session, the status,
  the promotion to mutable dependencies, the preview, and cleaning one worktree or a repository. The hooks of a
  preview are processes of the world.
\<close>

subsection \<open>Finding the operation\<close>

datatype maintenance_target = TargetPath jstr | TargetSession jstr "jstr option" | TargetNone

definition owns_path :: "jstr \<Rightarrow> worktree_entry \<Rightarrow> bool" where
  "owns_path absolute e \<longleftrightarrow> absolute = we_path e \<or> text_starts (we_path e @ [47]) absolute"

text \<open>The longest owner, the first one of several.\<close>

definition longest_entry :: "worktree_entry list \<Rightarrow> worktree_entry option" where
  "longest_entry es = (case sort_key (\<lambda>e. - int (length (we_path e))) es of [] \<Rightarrow> None | e # _ \<Rightarrow> Some e)"

fun scan_worktree :: "jstr \<Rightarrow> jstr list \<Rightarrow> jstr \<Rightarrow> ('w, ws_operation) ws" where
  "scan_worktree gitCommonDir [] path = eff_throw (WsError WsOperationNotFound)"
| "scan_worktree gitCommonDir (name # names) path =
     eff_bind (loadOperation gitCommonDir name) (\<lambda>operation.
     case operation of
       Some op \<Rightarrow> if wo_worktreePath op = path then eff_return op else scan_worktree gitCommonDir names path
     | None \<Rightarrow> scan_worktree gitCommonDir names path)"

definition resolveOperation :: "'w ws_world \<Rightarrow> jstr \<Rightarrow> ('w, ws_operation) ws" where
  "resolveOperation p path =
     eff_bind (discoverRepo p path) (\<lambda>repo.
     eff_bind (world_ask (wp_realpath p path)) (\<lambda>absolute.
     eff_bind (listWorktrees p (rf_repoRoot repo)) (\<lambda>entries.
     case longest_entry (filter (owns_path absolute) entries) of
       None \<Rightarrow> eff_throw (WsError WsOperationNotFound)
     | Some e \<Rightarrow>
         eff_bind (eff_read (\<lambda>s. keys (wst_files s (rf_gitCommonDir repo)))) (\<lambda>names.
           scan_worktree (rf_gitCommonDir repo) names (we_path e)))))"

definition resolveMaintenanceTarget :: "'w ws_world \<Rightarrow> maintenance_target \<Rightarrow> ('w, ws_operation) ws" where
  "resolveMaintenanceTarget p target =
     (case target of
        TargetPath path \<Rightarrow> resolveOperation p path
      | TargetSession sessionId None \<Rightarrow> eff_throw (WsError WsInvalidRequest)
      | TargetSession sessionId (Some repoPath) \<Rightarrow>
          eff_bind (discoverRepo p repoPath) (\<lambda>repo.
          eff_bind (findBySourceSession (rf_gitCommonDir repo) sessionId) (\<lambda>operation.
          case operation of
            None \<Rightarrow> eff_throw (WsError WsOperationNotFound)
          | Some op \<Rightarrow> eff_return op))
      | TargetNone \<Rightarrow> eff_throw (WsError WsInvalidRequest))"

definition wsStatus :: "'w ws_world \<Rightarrow> maintenance_target \<Rightarrow> ('w, operation_status) ws" where
  "wsStatus p target = eff_bind (resolveMaintenanceTarget p target) (\<lambda>op. eff_return (statusOf op))"

subsection \<open>Promotion and preview\<close>

definition promote_locked :: "'w ws_world \<Rightarrow> maintenance_target \<Rightarrow> ('w, operation_status) ws" where
  "promote_locked p target =
     eff_bind (resolveMaintenanceTarget p target) (\<lambda>op.
     if wo_phase op \<noteq> Prepared then eff_throw (WsError WsPromoteRefused)
     else if wo_dependencyMode op = Mutable then eff_return (statusOf op)
     else
       eff_bind (world_call (wp_promote p op)) (\<lambda>_.
       eff_bind (saveOperation p (op\<lparr>wo_dependencyMode := Mutable\<rparr>)) (\<lambda>updated.
         eff_return (statusOf updated))))"

definition wsPromote :: "'w ws_world \<Rightarrow> maintenance_target \<Rightarrow> ('w, operation_status) ws" where
  "wsPromote p target =
     eff_bind (resolveMaintenanceTarget p target) (\<lambda>initial.
       withLock p (repoLock (wo_gitCommonDir initial)) (promote_locked p target))"

definition serves_preview :: "ws_operation \<Rightarrow> bool" where
  "serves_preview op \<longleftrightarrow> wo_phase op = Prepared \<and> map_option sb_state (wo_binding op) = Some BindingBound"

definition preview_begins :: "'w ws_world \<Rightarrow> maintenance_target \<Rightarrow> ('w, ws_operation) ws" where
  "preview_begins p target =
     eff_bind (resolveMaintenanceTarget p target) (\<lambda>current.
     if \<not> serves_preview current then eff_throw (WsError WsOperationInvalid)
     else
       eff_bind (world_call (wp_previewLock p current)) (\<lambda>_.
       eff_bind (world_call (wp_ensureHome p current)) (\<lambda>_.
         eff_return current)))"

definition preview_ends :: "'w ws_world \<Rightarrow> ws_operation \<Rightarrow> preview_result \<Rightarrow> ('w, operation_status) ws" where
  "preview_ends p op preview =
     eff_bind (loadOperation (wo_gitCommonDir op) (wo_operationId op)) (\<lambda>current.
     case current of
       None \<Rightarrow> eff_throw (WsError WsOperationConflict)
     | Some cur \<Rightarrow>
         if \<not> serves_preview cur \<or> wo_worktreePath cur \<noteq> wo_worktreePath op
            \<or> map_option sb_sourceSessionId (wo_binding cur) \<noteq> map_option sb_sourceSessionId (wo_binding op)
         then eff_throw (WsError WsOperationConflict)
         else
           eff_bind (saveOperation p (cur\<lparr>wo_preview := Some preview\<rparr>)) (\<lambda>saved.
             eff_return (statusOf saved)))"

text \<open>
  The lock of a preview is released at the end only when it was taken, which \<open>wp_previewUnlock\<close> answers for: it
  removes the file that holds its token.
\<close>

definition wsPreparePreview :: "'w ws_world \<Rightarrow> maintenance_target \<Rightarrow> ('w, operation_status) ws" where
  "wsPreparePreview p target =
     eff_bind (resolveMaintenanceTarget p target) (\<lambda>initial.
     let lock = repoLock (wo_gitCommonDir initial) in
     (\<lambda>s. case (eff_bind (withLock p lock (preview_begins p target)) (\<lambda>op.
             eff_bind (world_call (wp_hook p op (js ''prepare-preview''))) (\<lambda>preview.
               withLock p lock (preview_ends p op preview)))) s of (r, t) \<Rightarrow>
           (case world_call (wp_previewUnlock p initial) t of (Inl e, u) \<Rightarrow> (Inl e, u) | (Inr _, u) \<Rightarrow> (r, u))))"

subsection \<open>Cleaning one worktree\<close>

record clean_options =
  ko_dryRun :: bool
  ko_activePaths :: "jstr list option"
  ko_activeBoundSessionIds :: "jstr list"
  ko_cwd :: jstr
  ko_requireActivePaths :: bool
  ko_finishedSourceSessionId :: "jstr option"
  ko_sourceSessionArchived :: bool

datatype merge_proof = Ancestor | PatchEquivalent

record clean_result =
  kr_dryRun :: bool
  kr_operationId :: jstr
  kr_worktreePath :: jstr
  kr_taskBranch :: jstr
  kr_cleaned :: bool
  kr_mergeProof :: merge_proof
  kr_archivedBeforeClean :: bool

definition inside :: "jstr \<Rightarrow> jstr \<Rightarrow> bool" where
  "inside target t \<longleftrightarrow> t = target \<or> text_starts (target @ [47]) t"

definition cleanRefused :: ws_error where
  "cleanRefused = WsError WsCleanRefused"

text \<open>\<open>resolve\<close> with one argument; its base is the directory of the process.\<close>

definition clean_target :: "clean_options \<Rightarrow> ws_operation \<Rightarrow> jstr" where
  "clean_target o' op = resolve_text (ko_cwd o') (wo_worktreePath op)"

text \<open>The gates that ask nothing of git, in their order.\<close>

definition finished_by_user :: "clean_options \<Rightarrow> ws_operation \<Rightarrow> bool" where
  "finished_by_user o' op \<longleftrightarrow>
     ko_finishedSourceSessionId o' \<noteq> None
     \<and> map_option sb_sourceSessionId (wo_binding op) = ko_finishedSourceSessionId o'"

definition clean_gates :: "clean_options \<Rightarrow> ws_operation \<Rightarrow> bool" where
  "clean_gates o' op \<longleftrightarrow>
     (let target = clean_target o' op;
          active = map (resolve_text (ko_cwd o')) (case ko_activePaths o' of None \<Rightarrow> [] | Some ps \<Rightarrow> ps)
      in \<not> (ko_requireActivePaths o' \<and> ko_activePaths o' = None)
         \<and> \<not> inside target (resolve_text (ko_cwd o') (ko_cwd o'))
         \<and> \<not> (\<exists>t \<in> set active. inside target t)
         \<and> (finished_by_user o' op
            \<or> (case wo_binding op of None \<Rightarrow> True | Some b \<Rightarrow> sb_sourceSessionId b \<notin> set (ko_activeBoundSessionIds o')))
         \<and> wo_phase op = Prepared)"

definition cherry_lines :: "jstr \<Rightarrow> jstr list" where
  "cherry_lines out = filter (\<lambda>l. l \<noteq> []) (map trim (text_lines out))"

text \<open>Two proofs that the branch has landed: its head is an ancestor, or each of its commits has an equal patch.\<close>

definition prove_merged :: "'w ws_world \<Rightarrow> ws_operation \<Rightarrow> ('w, merge_proof) ws" where
  "prove_merged p op =
     (let root = wo_repoRoot op; commit = js ''^{commit}'' in
      eff_bind (gitRun p root [js ''rev-parse'', js ''--verify'', wo_baseRef op @ commit]) (\<lambda>baseTip.
      eff_bind (gitRun p root [js ''rev-parse'', js ''--verify'', wo_taskBranch op @ commit]) (\<lambda>taskHead.
      eff_bind (run_process p (js ''git'')
        [js ''merge-base'', js ''--is-ancestor'', wo_baseCommit op, trim taskHead] root) (\<lambda>hasProgress.
      if pr_code hasProgress \<noteq> 0 then eff_throw cleanRefused
      else
        eff_bind (run_process p (js ''git'')
          [js ''merge-base'', js ''--is-ancestor'', trim taskHead, trim baseTip] root) (\<lambda>ancestor.
        if pr_code ancestor = 0 then eff_return Ancestor
        else
          eff_bind (run_process p (js ''git'') [js ''cherry'', wo_baseRef op, wo_taskBranch op] root) (\<lambda>cherry.
          if pr_code cherry = 0 \<and> list_all (text_starts [45]) (cherry_lines (pr_stdout cherry))
          then eff_return PatchEquivalent else eff_throw cleanRefused))))))"

definition delete_flag :: "merge_proof \<Rightarrow> jstr" where
  "delete_flag proof = (if proof = PatchEquivalent then js ''-D'' else js ''-d'')"

definition tombstone :: "clean_options \<Rightarrow> ws_operation \<Rightarrow> source_binding \<Rightarrow> jstr \<Rightarrow> ws_operation" where
  "tombstone o' op b now =
     op\<lparr>wo_diagnostics := None, wo_cacheNodeModules := None, wo_phase := Cleaned,
        wo_binding := Some (b\<lparr>sb_state := (if ko_sourceSessionArchived o' then BindingCleanedArchived else BindingCleaned),
          sb_archiveLifecycle := True, sb_updatedAt := now\<rparr>)\<rparr>"

text \<open>The removal itself: the teardown hook, the worktree, the isolated home, the branch, the tombstone.\<close>

definition remove_worktree :: "'w ws_world \<Rightarrow> clean_options \<Rightarrow> ws_operation \<Rightarrow> source_binding \<Rightarrow> merge_proof \<Rightarrow> bool \<Rightarrow> ('w, unit) ws" where
  "remove_worktree p o' op b proof declared =
     eff_bind (if declared then eff_bind (world_call (wp_hook p op (js ''teardown-preview''))) (\<lambda>_. eff_return ())
               else eff_return ()) (\<lambda>_.
     eff_bind (gitRun p (wo_repoRoot op) [js ''worktree'', js ''remove'', clean_target o' op]) (\<lambda>_.
     eff_bind (eff_catch (eff_bind (world_call (wp_removeHome p op)) (\<lambda>_. eff_return ())) (\<lambda>_. eff_return ())) (\<lambda>_.
     eff_bind (gitRun p (wo_repoRoot op) [js ''branch'', delete_flag proof, wo_taskBranch op]) (\<lambda>_.
     eff_bind (world_now p) (\<lambda>now.
     eff_bind (saveOperation p (tombstone o' op b now)) (\<lambda>_. eff_return ()))))))"

definition clean_locked :: "'w ws_world \<Rightarrow> maintenance_target \<Rightarrow> clean_options \<Rightarrow> ('w, clean_result) ws" where
  "clean_locked p target o' =
     eff_bind (resolveMaintenanceTarget p target) (\<lambda>op.
     if \<not> clean_gates o' op then eff_throw cleanRefused
     else
       eff_bind (worktreeStatus p (clean_target o' op)) (\<lambda>status.
       if trim status \<noteq> [] then eff_throw cleanRefused
       else
         eff_bind (prove_merged p op) (\<lambda>proof.
         case wo_binding op of
           None \<Rightarrow> eff_throw cleanRefused
         | Some b \<Rightarrow>
             eff_bind (world_ask (wp_hookDeclared p (join (clean_target o' op) (js ''.ws/teardown-preview'')))) (\<lambda>declared.
             let answer = \<lparr>kr_dryRun = ko_dryRun o', kr_operationId = wo_operationId op,
               kr_worktreePath = clean_target o' op, kr_taskBranch = wo_taskBranch op, kr_cleaned = \<not> ko_dryRun o',
               kr_mergeProof = proof, kr_archivedBeforeClean = False\<rparr>
             in if ko_dryRun o' then eff_return answer
                else eff_bind (remove_worktree p o' op b proof declared) (\<lambda>_. eff_return answer)))))"

definition wsClean :: "'w ws_world \<Rightarrow> maintenance_target \<Rightarrow> clean_options \<Rightarrow> ('w, clean_result) ws" where
  "wsClean p target o' =
     eff_bind (resolveMaintenanceTarget p target) (\<lambda>initial.
       withLock p (repoLock (wo_gitCommonDir initial)) (clean_locked p target o'))"

subsection \<open>Cleaning a repository\<close>

datatype confirmation = Confirmed | Declined | ConfirmationUnavailable

datatype refusal_kind = NotArchived | ConfirmationUnreachable | ArchiveFailed | RefusedByGate | Unreadable

text \<open>
  What the caller gives: the archived sessions, the live ones, and how to ask a human and to archive a session,
  where it can. The three ways to narrow the sweep to one operation are the last fields.
\<close>

record 'w sweep_options =
  co_archivedSessionIds :: "jstr list"
  co_activePaths :: "jstr list"
  co_activeBoundSessionIds :: "jstr list"
  co_dryRun :: bool
  co_cwd :: jstr
  co_confirmArchive :: "(ws_operation \<Rightarrow> 'w \<Rightarrow> confirmation \<times> 'w) option"
  co_archiveSession :: "(jstr \<Rightarrow> 'w \<Rightarrow> (ws_error + unit) \<times> 'w) option"
  co_onlyOperationId :: "jstr option"
  co_onlySourceSessionId :: "jstr option"
  co_onlyWorktreePath :: "jstr option"

datatype sweep_entry = EntryCleaned clean_result | EntryRefused jstr refusal_kind "ws_error option"
  | EntryIgnored jstr public_lifecycle | EntryVanished

record sweep_result =
  sw_dryRun :: bool
  sw_repoRoot :: jstr
  sw_scanned :: nat
  sw_cleaned :: "clean_result list"
  sw_refused :: "(jstr \<times> refusal_kind \<times> ws_error option) list"
  sw_ignored :: "(jstr \<times> public_lifecycle) list"
  sw_wouldOfferToFinish :: nat

text \<open>A call whose error is caught.\<close>

definition settled :: "('w, 'a) ws \<Rightarrow> ('w, ws_error + 'a) ws" where
  "settled m s = (case m s of (r, t) \<Rightarrow> (Inr r, t))"

definition world_answer :: "('w \<Rightarrow> 'a \<times> 'w) \<Rightarrow> ('w, 'a) ws" where
  "world_answer f s = (case f (wst_world s) of (r, w) \<Rightarrow> (Inr r, s\<lparr>wst_world := w\<rparr>))"

definition candidate_options :: "'w sweep_options \<Rightarrow> bool \<Rightarrow> jstr option \<Rightarrow> bool \<Rightarrow> clean_options" where
  "candidate_options co dryRun finished archived =
     \<lparr>ko_dryRun = dryRun, ko_activePaths = Some (co_activePaths co), ko_activeBoundSessionIds = co_activeBoundSessionIds co,
      ko_cwd = co_cwd co, ko_requireActivePaths = True, ko_finishedSourceSessionId = finished,
      ko_sourceSessionArchived = archived\<rparr>"

definition clean_candidate :: "'w ws_world \<Rightarrow> 'w sweep_options \<Rightarrow> jstr \<Rightarrow> ws_operation \<Rightarrow> jstr \<Rightarrow> bool \<Rightarrow> ('w, sweep_entry) ws" where
  "clean_candidate p co k op sessionId archivedBefore =
     eff_bind (settled (wsClean p (TargetPath (wo_worktreePath op))
       (candidate_options co (co_dryRun co) (if archivedBefore then Some sessionId else None)
          (sessionId \<in> set (co_archivedSessionIds co) \<or> archivedBefore)))) (\<lambda>r.
     eff_return (case r of
       Inl e \<Rightarrow> EntryRefused k RefusedByGate (Some e)
     | Inr result \<Rightarrow> EntryCleaned (if archivedBefore then result\<lparr>kr_archivedBeforeClean := True\<rparr> else result)))"

text \<open>The offer to finish a session that is not archived: the other gates first, then the human, then the archive.\<close>

definition offer_to_finish :: "'w ws_world \<Rightarrow> 'w sweep_options \<Rightarrow> jstr \<Rightarrow> ws_operation \<Rightarrow> jstr \<Rightarrow> ('w, sweep_entry) ws" where
  "offer_to_finish p co k op sessionId =
     (case (co_confirmArchive co, co_archiveSession co) of
        (Some confirm, Some archive) \<Rightarrow>
          if co_dryRun co then eff_return (EntryRefused k NotArchived None)
          else
            eff_bind (settled (wsClean p (TargetPath (wo_worktreePath op))
              (candidate_options co True (Some sessionId) False))) (\<lambda>probe.
            case probe of
              Inl e \<Rightarrow> eff_return (EntryRefused k RefusedByGate (Some e))
            | Inr _ \<Rightarrow>
                eff_bind (world_answer (confirm op)) (\<lambda>answer.
                case answer of
                  ConfirmationUnavailable \<Rightarrow> eff_return (EntryRefused k ConfirmationUnreachable None)
                | Declined \<Rightarrow> eff_return (EntryRefused k NotArchived None)
                | Confirmed \<Rightarrow>
                    eff_bind (settled (world_call (archive sessionId))) (\<lambda>archived.
                    case archived of
                      Inl e \<Rightarrow> eff_return (EntryRefused k ArchiveFailed (Some e))
                    | Inr _ \<Rightarrow> clean_candidate p co k op sessionId True)))
      | _ \<Rightarrow> eff_return (EntryRefused k NotArchived None))"

definition sweep_one :: "'w ws_world \<Rightarrow> 'w sweep_options \<Rightarrow> jstr \<Rightarrow> jstr \<Rightarrow> ('w, sweep_entry) ws" where
  "sweep_one p co gitCommonDir operationId =
     eff_bind (settled (loadOperation gitCommonDir operationId)) (\<lambda>loaded.
     case loaded of
       Inl e \<Rightarrow> eff_return (EntryRefused operationId Unreadable (Some e))
     | Inr None \<Rightarrow> eff_return EntryVanished
     | Inr (Some op) \<Rightarrow>
         (case wo_binding op of
            None \<Rightarrow> eff_return (EntryRefused operationId Unreadable (Some cleanRefused))
          | Some b \<Rightarrow>
              if sb_state b = BindingReleased then eff_return (EntryIgnored operationId PublicReleased)
              else if wo_phase op = Cleaned \<or> sb_state b = BindingCleaned \<or> sb_state b = BindingCleanedArchived
              then eff_return (EntryIgnored operationId PublicCleaned)
              else if sb_sourceSessionId b \<in> set (co_archivedSessionIds co)
              then clean_candidate p co operationId op (sb_sourceSessionId b) False
              else offer_to_finish p co operationId op (sb_sourceSessionId b)))"

fun sweep_all :: "'w ws_world \<Rightarrow> 'w sweep_options \<Rightarrow> jstr \<Rightarrow> jstr list \<Rightarrow> ('w, sweep_entry list) ws" where
  "sweep_all p co gitCommonDir [] = eff_return []"
| "sweep_all p co gitCommonDir (k # ks) =
     eff_bind (sweep_one p co gitCommonDir k) (\<lambda>entry.
     eff_bind (sweep_all p co gitCommonDir ks) (\<lambda>es. eff_return (entry # es)))"

definition sweep_scope :: "'w ws_world \<Rightarrow> 'w sweep_options \<Rightarrow> repo_facts \<Rightarrow> jstr list \<Rightarrow> ('w, jstr \<times> jstr list) ws" where
  "sweep_scope p co repo ids =
     eff_bind (case co_onlyWorktreePath co of
         None \<Rightarrow> eff_return (co_onlyOperationId co, rf_repoRoot repo)
       | Some path \<Rightarrow> eff_bind (resolveOperation p path) (\<lambda>owner. eff_return (Some (wo_operationId owner), wo_repoRoot owner)))
       (\<lambda>(only, root).
     eff_bind (case co_onlySourceSessionId co of
         None \<Rightarrow> eff_return only
       | Some sessionId \<Rightarrow>
           eff_bind (findBySourceSession (rf_gitCommonDir repo) sessionId) (\<lambda>bound.
           case bound of
             None \<Rightarrow> eff_throw (WsError WsOperationNotFound)
           | Some op \<Rightarrow> eff_return (Some (wo_operationId op)))) (\<lambda>only'.
     case only' of
       None \<Rightarrow> eff_return (root, ids)
     | Some k \<Rightarrow> if k \<in> set ids then eff_return (root, [k]) else eff_throw (WsError WsOperationNotFound)))"

definition sweep_report :: "'w sweep_options \<Rightarrow> jstr \<Rightarrow> jstr list \<Rightarrow> sweep_entry list \<Rightarrow> sweep_result" where
  "sweep_report co root ids es =
     (let refused = concat (map (\<lambda>e. case e of EntryRefused k kind err \<Rightarrow> [(k, kind, err)] | _ \<Rightarrow> []) es) in
      \<lparr>sw_dryRun = co_dryRun co, sw_repoRoot = root, sw_scanned = length ids,
       sw_cleaned = concat (map (\<lambda>e. case e of EntryCleaned r \<Rightarrow> [r] | _ \<Rightarrow> []) es),
       sw_refused = refused,
       sw_ignored = concat (map (\<lambda>e. case e of EntryIgnored k l \<Rightarrow> [(k, l)] | _ \<Rightarrow> []) es),
       sw_wouldOfferToFinish =
         (if co_dryRun co \<and> co_confirmArchive co \<noteq> None \<and> co_archiveSession co \<noteq> None
          then length (filter (\<lambda>(_, kind, _). kind = NotArchived) refused) else 0)\<rparr>)"

definition wsCleanRepository :: "'w ws_world \<Rightarrow> jstr \<Rightarrow> 'w sweep_options \<Rightarrow> ('w, sweep_result) ws" where
  "wsCleanRepository p repoPath co =
     eff_bind (discoverRepo p repoPath) (\<lambda>repo.
     eff_bind (eff_read (\<lambda>s. listOperationIds (wst_files s (rf_gitCommonDir repo)))) (\<lambda>allIds.
     eff_bind (sweep_scope p co repo allIds) (\<lambda>(root, ids).
     eff_bind (sweep_all p co (rf_gitCommonDir repo) ids) (\<lambda>es.
       eff_return (sweep_report co root ids es)))))"

end
