(* ===== verification/WsSafety.thy ===== *)
theory WsSafety
  imports WsMaintenance
begin

text \<open>
  Worktree sessions, the runs over the files of operations: which operations leave the files alone, what a write
  must respect, and that every operation behind the lock keeps the invariant and takes no record back.
\<close>

subsection \<open>Operations that leave the files alone\<close>

named_theorems ws_files "operations that leave the files of operations alone"

definition keeps_files :: "('w ws_state, 'e, 'a) eff \<Rightarrow> bool" where
  "keeps_files m \<longleftrightarrow> (\<forall>s. wst_files (snd (m s)) = wst_files s)"

lemma keeps_filesI: "(\<And>s r t. m s = (r, t) \<Longrightarrow> wst_files t = wst_files s) \<Longrightarrow> keeps_files m"
  by (metis keeps_files_def prod.collapse)

lemma keeps_filesD: "keeps_files m \<Longrightarrow> m s = (r, t) \<Longrightarrow> wst_files t = wst_files s"
  by (metis keeps_files_def snd_conv)

lemma keeps_files_keeps: "keeps_files m \<Longrightarrow> keeps_under (\<lambda>s. I (wst_files s)) m"
  by (auto simp: keeps_under_def keeps_files_def)

lemma keeps_files_pure [ws_files]:
  "keeps_files (eff_return x)" "keeps_files (eff_throw e)" "keeps_files (eff_read f)" "keeps_files (eff_ask a)"
  "keeps_files (eff_when b e)" "keeps_files (Pair r)"
  by (auto simp: keeps_files_def eff_when_def)

lemma keeps_files_bind [ws_files]:
  assumes "keeps_files m" and "\<And>x. keeps_files (f x)"
  shows "keeps_files (eff_bind m f)"
proof (rule keeps_filesI)
  fix s r t
  assume run: "eff_bind m f s = (r, t)"
  obtain r1 u where m: "m s = (r1, u)" by fastforce
  show "wst_files t = wst_files s"
    using run keeps_filesD [OF assms(1) m] keeps_filesD [OF assms(2)] m by (cases r1) (auto simp: eff_bind_def)
qed

lemma keeps_files_catch [ws_files]:
  assumes "keeps_files m" and "\<And>e. keeps_files (h e)"
  shows "keeps_files (eff_catch m h)"
proof (rule keeps_filesI)
  fix s r t
  assume run: "eff_catch m h s = (r, t)"
  obtain r1 u where m: "m s = (r1, u)" by fastforce
  show "wst_files t = wst_files s"
    using run keeps_filesD [OF assms(1) m] keeps_filesD [OF assms(2)] m by (cases r1) (auto simp: eff_catch_def)
qed

lemma keeps_files_if [ws_files]: "keeps_files m \<Longrightarrow> keeps_files n \<Longrightarrow> keeps_files (if b then m else n)"
  by simp

lemma keeps_files_option [ws_files]:
  "keeps_files m \<Longrightarrow> (\<And>x. keeps_files (f x)) \<Longrightarrow> keeps_files (case o' of None \<Rightarrow> m | Some x \<Rightarrow> f x)"
  by (cases o') simp_all

lemma keeps_files_world [ws_files]:
  "keeps_files (world_call f)" "keeps_files (world_ask g)" "keeps_files (world_now p)"
  "keeps_files (run_process p file args cwd)" "keeps_files (world_answer h)"
  by (auto simp: keeps_files_def world_call_def world_ask_def world_now_def run_process_def world_answer_def split: prod.splits)

lemma keeps_files_settled [ws_files]: "keeps_files m \<Longrightarrow> keeps_files (settled m)"
  by (auto simp: keeps_files_def settled_def split: prod.splits) (metis snd_conv)

lemma keeps_files_load [ws_files]: "keeps_files (loadOperation c k)"
  unfolding loadOperation_def by (intro ws_files)

lemma keeps_files_checked [ws_files]: "keeps_files (checkedProcess p file args cwd code)"
  unfolding checkedProcess_def by (intro ws_files)

lemma keeps_files_git [ws_files]: "keeps_files (gitRun p cwd args)" "keeps_files (gitMaybe p cwd args)"
  unfolding gitRun_def gitMaybe_def by (intro ws_files)+

lemma keeps_files_repo [ws_files]:
  "keeps_files (discoverRepo p path)" "keeps_files (resolveCommit p root ref)" "keeps_files (listWorktrees p root)"
  "keeps_files (worktreeStatus p path)" "keeps_files (isTracked p root path)" "keeps_files (validateBranch p branch root)"
  "keeps_files (branchExists p root branch)"
  unfolding discoverRepo_def resolveCommit_def listWorktrees_def worktreeStatus_def isTracked_def validateBranch_def
    branchExists_def
  by (intro ws_files)+

lemma keeps_files_allocate [ws_files]: "keeps_files (allocate_from p root base ns)"
proof (induction ns)
  case (Cons n ns)
  then show ?case by (simp add: Let_def ws_files)
qed (simp add: ws_files)

lemma keeps_files_missing [ws_files]: "keeps_files (missing_worktrees p es)"
  by (induction es) (simp_all add: ws_files)

lemma keeps_files_git_work [ws_files]:
  "keeps_files (allocateTask p root task)" "keeps_files (createTaskWorktree p root branch path commit)"
  "keeps_files (pruneInvalidRegistrations p root)" "keeps_files (declaredPackageManager p path)"
  "keeps_files (detectPackageManager p path)"
  unfolding allocateTask_def createTaskWorktree_def pruneInvalidRegistrations_def declaredPackageManager_def
    detectPackageManager_def
  by (intro ws_files)+

lemma keeps_files_resource [ws_files]:
  "keeps_files (worktree_there p op)" "keeps_files (dependencies_ready p op)" "keeps_files (environment_there p op)"
  "keeps_files (recreate p op)"
  unfolding worktree_there_def dependencies_ready_def environment_there_def recreate_def
  by (simp_all add: ws_files split: option.split)

lemma keeps_files_validate [ws_files]: "keeps_files (validateResource p op phase)"
  unfolding validateResource_def by (cases phase) (simp_all add: ws_files)

lemma keeps_files_scans [ws_files]:
  "keeps_files (history_scan c names sid)" "keeps_files (scan_worktree c names path)"
  by (induction names) (simp_all add: ws_files)

lemma keeps_files_find [ws_files]:
  "keeps_files (findHistoryBySourceSession c sid)" "keeps_files (findBySourceSession c sid)"
  "keeps_files (resolveOperation p path)"
  unfolding findHistoryBySourceSession_def findBySourceSession_def resolveOperation_def
  by (intro ws_files)+

lemma keeps_files_resolve [ws_files]: "keeps_files (resolveMaintenanceTarget p target)"
  unfolding resolveMaintenanceTarget_def by (cases target; simp) (intro ws_files)+

lemma keeps_files_prove [ws_files]: "keeps_files (prove_merged p op)"
  unfolding prove_merged_def Let_def by (intro ws_files)

lemma keeps_files_preview [ws_files]: "keeps_files (preview_begins p target)"
  unfolding preview_begins_def by (intro ws_files)

subsection \<open>The invariant of the files\<close>

type_synonym ws_files = "jstr \<Rightarrow> (jstr \<times> ws_file) list"

definition stored :: "ws_files \<Rightarrow> jstr \<Rightarrow> jstr \<Rightarrow> ws_operation \<Rightarrow> bool" where
  "stored F c k op \<longleftrightarrow> map_of (F c) k = Some (OperationFile op)"

definition of_session :: "jstr \<Rightarrow> ws_operation \<Rightarrow> bool" where
  "of_session sid op \<longleftrightarrow> (\<exists>b. wo_binding op = Some b \<and> sb_sourceSessionId b = sid)"

text \<open>A cleaned operation is one whose binding has left the state bound.\<close>

definition lifecycle_ok :: "ws_operation \<Rightarrow> bool" where
  "lifecycle_ok op \<longleftrightarrow> (wo_phase op = Cleaned \<longleftrightarrow> (\<exists>b. wo_binding op = Some b \<and> sb_state b \<noteq> BindingBound))"

definition released_for :: "jstr \<Rightarrow> ws_operation \<Rightarrow> bool" where
  "released_for sid op \<longleftrightarrow> (\<exists>b. wo_binding op = Some b \<and> sb_sourceSessionId b = sid \<and> sb_state b = BindingReleased)"

definition no_history :: "ws_files \<Rightarrow> jstr \<Rightarrow> jstr \<Rightarrow> bool" where
  "no_history F c sid \<longleftrightarrow> (\<forall>k op. stored F c k op \<longrightarrow> \<not> released_for sid op)"

definition one_owner :: "ws_files \<Rightarrow> bool" where
  "one_owner F \<longleftrightarrow> (\<forall>c sid k k' op op'. no_history F c sid \<longrightarrow> stored F c k op \<longrightarrow> stored F c k' op' \<longrightarrow>
     of_session sid op \<longrightarrow> of_session sid op' \<longrightarrow> k = k')"

definition records_ok :: "ws_files \<Rightarrow> bool" where
  "records_ok F \<longleftrightarrow> (\<forall>c k op. stored F c k op \<longrightarrow> wo_gitCommonDir op = c \<and> wo_operationId op = k \<and> lifecycle_ok op)"

definition ws_ok :: "ws_files \<Rightarrow> bool" where
  "ws_ok F \<longleftrightarrow> records_ok F \<and> one_owner F"

fun binding_rank :: "binding_state \<Rightarrow> nat" where
  "binding_rank BindingBound = 0"
| "binding_rank BindingCleaned = 1"
| "binding_rank BindingCleanedArchived = 2"
| "binding_rank BindingReleased = 3"

definition same_identity :: "ws_operation \<Rightarrow> ws_operation \<Rightarrow> bool" where
  "same_identity a b \<longleftrightarrow>
     wo_operationId b = wo_operationId a \<and> wo_repoRoot b = wo_repoRoot a \<and> wo_gitCommonDir b = wo_gitCommonDir a
     \<and> wo_baseRef b = wo_baseRef a \<and> wo_baseCommit b = wo_baseCommit a \<and> wo_taskBranch b = wo_taskBranch a
     \<and> wo_worktreePath b = wo_worktreePath a \<and> wo_taskHash b = wo_taskHash a \<and> wo_createdAt b = wo_createdAt a"

definition operation_le :: "ws_operation \<Rightarrow> ws_operation \<Rightarrow> bool" where
  "operation_le a b \<longleftrightarrow> same_identity a b \<and>
     (\<forall>x. wo_binding a = Some x \<longrightarrow> (\<exists>y. wo_binding b = Some y \<and> sb_sourceSessionId y = sb_sourceSessionId x
        \<and> binding_rank (sb_state x) \<le> binding_rank (sb_state y)))"

definition files_le :: "ws_files \<Rightarrow> ws_files \<Rightarrow> bool" where
  "files_le F G \<longleftrightarrow> (\<forall>c k op. stored F c k op \<longrightarrow> (\<exists>op'. stored G c k op' \<and> operation_le op op'))"

lemma same_identity_refl [simp]: "same_identity a a"
  by (simp add: same_identity_def)

lemma released_stays: "released_for sid a \<Longrightarrow> operation_le a b \<Longrightarrow> released_for sid b"
proof -
  have top: "st = BindingReleased" if "3 \<le> binding_rank st" for st using that by (cases st) simp_all
  assume "released_for sid a" and "operation_le a b"
  then show ?thesis unfolding released_for_def operation_le_def by (metis top binding_rank.simps(4))
qed

lemma operation_le_refl [simp]: "operation_le a a"
  by (simp add: operation_le_def)

lemma operation_le_trans: "operation_le a b \<Longrightarrow> operation_le b c \<Longrightarrow> operation_le a c"
  unfolding operation_le_def same_identity_def by auto

lemma files_le_refl: "files_le F F"
  by (auto simp: files_le_def)

lemma files_le_trans: "files_le F G \<Longrightarrow> files_le G H \<Longrightarrow> files_le F H"
  unfolding files_le_def by (metis operation_le_trans)

subsection \<open>What a write must respect\<close>

definition may_write :: "ws_files \<Rightarrow> ws_operation \<Rightarrow> bool" where
  "may_write F op \<longleftrightarrow> lifecycle_ok op \<and>
     (case map_of (F (wo_gitCommonDir op)) (wo_operationId op) of
        None \<Rightarrow> wo_binding op = None
      | Some (OperationFile old) \<Rightarrow> operation_le old op
          \<and> (wo_binding old = None \<longrightarrow> (\<forall>sid k o'. of_session sid op \<longrightarrow> no_history F (wo_gitCommonDir op) sid
             \<longrightarrow> stored F (wo_gitCommonDir op) k o' \<longrightarrow> \<not> of_session sid o'))
      | Some _ \<Rightarrow> False)"

definition written :: "ws_operation \<Rightarrow> ws_files \<Rightarrow> ws_files" where
  "written op F = F(wo_gitCommonDir op := AList.update (wo_operationId op) (OperationFile op) (F (wo_gitCommonDir op)))"

lemma write_file_files [simp]: "wst_files (write_file op s) = written op (wst_files s)"
  by (simp add: write_file_def written_def)

lemma stored_written:
  "stored (written op F) c k o' \<longleftrightarrow>
     (if c = wo_gitCommonDir op \<and> k = wo_operationId op then o' = op else stored F c k o')"
  by (auto simp: stored_def written_def)

lemma written_le:
  assumes "may_write F op"
  shows "files_le F (written op F)"
  unfolding files_le_def
proof (intro allI impI)
  fix c k a
  assume a: "stored F c k a"
  show "\<exists>a'. stored (written op F) c k a' \<and> operation_le a a'"
  proof (cases "c = wo_gitCommonDir op \<and> k = wo_operationId op")
    case True
    then have "operation_le a op" using assms a by (auto simp: may_write_def stored_def)
    then show ?thesis using True by (auto simp: stored_written)
  qed (use a in \<open>auto simp: stored_written\<close>)
qed

lemma written_records:
  assumes "records_ok F" and "may_write F op"
  shows "records_ok (written op F)"
  using assms by (auto simp: records_ok_def stored_written may_write_def split: if_splits)

lemma no_history_written:
  assumes "no_history (written op F) c sid" and "may_write F op"
  shows "no_history F c sid"
  unfolding no_history_def
proof (intro allI impI notI)
  fix k a
  assume a: "stored F c k a" "released_for sid a"
  obtain a' where a': "stored (written op F) c k a'" "operation_le a a'"
    using written_le [OF assms(2)] a(1) unfolding files_le_def by blast
  have "released_for sid a'" by (rule released_stays [OF a(2) a'(2)])
  then show False using assms(1) a'(1) by (auto simp: no_history_def)
qed

lemma one_owner_written:
  assumes ok: "ws_ok F" and may: "may_write F op"
  shows "one_owner (written op F)"
  unfolding one_owner_def
proof (intro allI impI)
  fix c sid k k' a a'
  assume h: "no_history (written op F) c sid" and a: "stored (written op F) c k a" "stored (written op F) c k' a'"
    and own: "of_session sid a" "of_session sid a'"
  have h0: "no_history F c sid" by (rule no_history_written [OF h may])
  have new: "k1 = k2" if n: "c = wo_gitCommonDir op" "k1 = wo_operationId op" "of_session sid op"
      and b: "stored F c k2 b" "of_session sid b" for k1 k2 b
  proof (cases "map_of (F c) k1")
    case None
    then show ?thesis using may n by (simp add: may_write_def of_session_def)
  next
    case (Some f)
    then obtain old where old: "map_of (F c) k1 = Some (OperationFile old)" "operation_le old op"
      "wo_binding old = None \<longrightarrow> (\<forall>sid k o'. of_session sid op \<longrightarrow> no_history F c sid \<longrightarrow> stored F c k o' \<longrightarrow> \<not> of_session sid o')"
      using may n(1,2) by (cases f) (auto simp: may_write_def)
    have "wo_binding old \<noteq> None" using old(3) n(3) b h0 by blast
    then have "of_session sid old" using old(2) n(3) by (auto simp: of_session_def operation_le_def)
    then show ?thesis using ok h0 b old(1) unfolding ws_ok_def one_owner_def stored_def by blast
  qed
  show "k = k'"
  proof (cases "c = wo_gitCommonDir op \<and> k = wo_operationId op"; cases "c = wo_gitCommonDir op \<and> k' = wo_operationId op")
    assume "c = wo_gitCommonDir op \<and> k = wo_operationId op" "\<not> (c = wo_gitCommonDir op \<and> k' = wo_operationId op)"
    then show ?thesis using new [of k k' a'] a own by (simp add: stored_written split: if_splits)
  next
    assume "\<not> (c = wo_gitCommonDir op \<and> k = wo_operationId op)" "c = wo_gitCommonDir op \<and> k' = wo_operationId op"
    then show ?thesis using new [of k' k a] a own by (simp add: stored_written split: if_splits)
  next
    assume "\<not> (c = wo_gitCommonDir op \<and> k = wo_operationId op)" "\<not> (c = wo_gitCommonDir op \<and> k' = wo_operationId op)"
    then show ?thesis using ok h0 a own unfolding ws_ok_def one_owner_def by (simp add: stored_written split: if_splits)
  qed simp
qed

lemma written_ok: "ws_ok F \<Longrightarrow> may_write F op \<Longrightarrow> ws_ok (written op F)"
  using one_owner_written written_records by (simp add: ws_ok_def)

text \<open>The time of the write makes no difference to what it must respect.\<close>

lemma updated_at_simps [simp]:
  "lifecycle_ok (op\<lparr>wo_updatedAt := t\<rparr>) = lifecycle_ok op" "of_session sid (op\<lparr>wo_updatedAt := t\<rparr>) = of_session sid op"
  "operation_le old (op\<lparr>wo_updatedAt := t\<rparr>) = operation_le old op"
  by (simp_all add: lifecycle_ok_def operation_le_def same_identity_def of_session_def)

lemma may_write_time [simp]: "may_write F (op\<lparr>wo_updatedAt := t\<rparr>) = may_write F op"
  by (simp add: may_write_def split: option.split ws_file.split)

text \<open>The files are well-formed and have come up from \<open>F\<close>.\<close>

definition grown :: "ws_files \<Rightarrow> ws_files \<Rightarrow> bool" where
  "grown F G \<longleftrightarrow> ws_ok G \<and> files_le F G"

lemma grown_written: "grown F G \<Longrightarrow> may_write G op \<Longrightarrow> grown F (written op G)"
  using written_ok written_le files_le_trans by (auto simp: grown_def)

lemma save_triple:
  "triple (\<lambda>s. grown F (wst_files s) \<and> may_write (wst_files s) op \<and> wst_files s = G) (saveOperation p op)
     (\<lambda>x s. grown F (wst_files s) \<and> (\<exists>now. x = op\<lparr>wo_updatedAt := now\<rparr>) \<and> wst_files s = written x G)
     (\<lambda>s. grown F (wst_files s) \<and> (wst_files s = G \<or> (\<exists>now. wst_files s = written (op\<lparr>wo_updatedAt := now\<rparr>) G)))"
proof -
  have save: "\<exists>now w r b. saveOperation p op s = (r, (if b then write_file (op\<lparr>wo_updatedAt := now\<rparr>) (s\<lparr>wst_world := w\<rparr>) else s\<lparr>wst_world := w\<rparr>))
      \<and> (\<forall>x. r = Inr x \<longrightarrow> b \<and> x = op\<lparr>wo_updatedAt := now\<rparr>)" for s
    by (auto simp: saveOperation_def eff_bind_def world_now_def Let_def split: prod.split option.split)
  show ?thesis
  proof (rule tripleI)
    fix s x t
    assume "grown F (wst_files s) \<and> may_write (wst_files s) op \<and> wst_files s = G" "saveOperation p op s = (Inr x, t)"
    then show "grown F (wst_files t) \<and> (\<exists>now. x = op\<lparr>wo_updatedAt := now\<rparr>) \<and> wst_files t = written x G"
      using save [of s] grown_written by auto
  next
    fix s e t
    assume pre: "grown F (wst_files s) \<and> may_write (wst_files s) op \<and> wst_files s = G"
      and run: "saveOperation p op s = (Inl e, t)"
    obtain now w b where "t = (if b then write_file (op\<lparr>wo_updatedAt := now\<rparr>) (s\<lparr>wst_world := w\<rparr>) else s\<lparr>wst_world := w\<rparr>)"
      using save [of s] run by auto
    then have t: "wst_files t = G \<or> wst_files t = written (op\<lparr>wo_updatedAt := now\<rparr>) G" using pre by auto
    moreover have "grown F (wst_files t)" using t pre grown_written [of F G "op\<lparr>wo_updatedAt := now\<rparr>"] by auto
    ultimately show "grown F (wst_files t) \<and> (wst_files t = G \<or> (\<exists>now. wst_files t = written (op\<lparr>wo_updatedAt := now\<rparr>) G))"
      by blast
  qed
qed

subsection \<open>A start\<close>

text \<open>While a start runs, its variable and the record on disk belong to the same task and are not cleaned.\<close>

definition same_task :: "ws_operation \<Rightarrow> ws_operation \<Rightarrow> bool" where
  "same_task a b \<longleftrightarrow> same_identity a b \<and> wo_binding b = wo_binding a \<and> wo_phase b \<noteq> Cleaned"

definition starting :: "ws_files \<Rightarrow> 'w ws_state \<times> ws_operation \<Rightarrow> bool" where
  "starting F so \<longleftrightarrow> grown F (wst_files (fst so)) \<and> wo_phase (snd so) \<noteq> Cleaned \<and>
     (\<exists>d. stored (wst_files (fst so)) (wo_gitCommonDir (snd so)) (wo_operationId (snd so)) d \<and> wo_phase d \<noteq> Cleaned
        \<and> same_task d (snd so))"

lemma same_task_trans: "same_task a b \<Longrightarrow> same_task b c \<Longrightarrow> same_task a c"
  by (simp add: same_task_def same_identity_def)

lemma same_task_identity: "same_task a b \<Longrightarrow> wo_gitCommonDir b = wo_gitCommonDir a \<and> wo_operationId b = wo_operationId a"
  by (simp add: same_task_def same_identity_def)

lemma same_task_le: "same_task a b \<Longrightarrow> operation_le a b"
  by (auto simp: same_task_def operation_le_def)

lemma starting_may_write:
  assumes "starting F (s, op)" and "same_task op op'"
  shows "may_write (wst_files s) op'"
proof -
  from assms(1) obtain d where d: "stored (wst_files s) (wo_gitCommonDir op) (wo_operationId op) d" "wo_phase d \<noteq> Cleaned"
    "same_task d op" and ok: "ws_ok (wst_files s)" by (auto simp: starting_def grown_def)
  have d': "same_task d op'" by (rule same_task_trans [OF d(3) assms(2)])
  have k: "map_of (wst_files s (wo_gitCommonDir op')) (wo_operationId op') = Some (OperationFile d)"
    using d(1) same_task_identity [OF assms(2)] by (simp add: stored_def)
  have "lifecycle_ok d" using ok d(1) by (auto simp: ws_ok_def records_ok_def)
  then have "lifecycle_ok op'" using d' d(2) by (auto simp: lifecycle_ok_def same_task_def)
  moreover have "wo_binding d = None \<Longrightarrow> \<not> of_session sid op'" for sid using d' by (simp add: same_task_def of_session_def)
  ultimately show ?thesis using k same_task_le [OF d'] by (auto simp: may_write_def)
qed

lemma starting_written:
  assumes "grown F (wst_files t)" and "wst_files t = written x G" and "same_task x op" and "wo_phase x \<noteq> Cleaned"
  shows "starting F (t, op)"
  using assms same_task_identity [OF assms(3)] by (auto simp: starting_def stored_written same_task_def)

lemma same_task_time: "same_task a b \<Longrightarrow> same_task a (b\<lparr>wo_updatedAt := n\<rparr>)"
  and same_task_refl: "wo_phase a \<noteq> Cleaned \<Longrightarrow> same_task a a"
  and same_task_sym: "same_task a b \<Longrightarrow> wo_phase a \<noteq> Cleaned \<Longrightarrow> same_task b a"
  by (simp_all add: same_task_def same_identity_def)

lemma start_save:
  assumes st: "starting F (s, op)" and task: "same_task op op'" and run: "saveOperation p op' s = (r, t)"
  shows "starting F (t, op)" and "r = Inr x \<Longrightarrow> starting F (t, x)"
proof -
  note may = starting_may_write [OF st task]
  have pre: "grown F (wst_files s) \<and> may_write (wst_files s) op' \<and> wst_files s = wst_files s"
    using st may by (simp add: starting_def)
  have open_phase: "wo_phase op \<noteq> Cleaned" "wo_phase op' \<noteq> Cleaned" using st task by (simp_all add: starting_def same_task_def)
  have saved: "starting F (t, op)" if "grown F (wst_files t)" "wst_files t = written (op'\<lparr>wo_updatedAt := n\<rparr>) (wst_files s)" for n
    by (rule starting_written [OF that])
      (use same_task_sym [OF same_task_time [OF task] open_phase(1)] open_phase in simp_all)
  show "starting F (t, op)"
  proof (cases r)
    case (Inl e)
    from triple_err [OF save_triple pre run [unfolded Inl]]
    consider "grown F (wst_files t)" "wst_files t = wst_files s"
      | n where "grown F (wst_files t)" "wst_files t = written (op'\<lparr>wo_updatedAt := n\<rparr>) (wst_files s)" by blast
    then show ?thesis
    proof cases
      case 1
      then show ?thesis using st by (simp add: starting_def)
    qed (rule saved)
  next
    case (Inr x)
    from triple_ok [OF save_triple pre run [unfolded Inr]] show ?thesis using saved by blast
  qed
  assume r: "r = Inr x"
  from triple_ok [OF save_triple pre run [unfolded r]] obtain n where
    x: "grown F (wst_files t)" "x = op'\<lparr>wo_updatedAt := n\<rparr>" "wst_files t = written x (wst_files s)" by blast
  show "starting F (t, x)"
    by (rule starting_written [OF x(1,3)]) (use x(2) open_phase in \<open>simp_all add: same_task_def same_identity_def\<close>)
qed

lemma on_state_run: "on_state m so = (r, to) \<longleftrightarrow> m (fst so) = (r, fst to) \<and> snd to = snd so"
  by (cases to) (auto simp: on_state_def eff_zoom_def sum.map_id split: prod.splits)

named_theorems ws_starting "steps of a start that keep its record"

lemma starting_on_state [ws_starting]:
  assumes "keeps_files m"
  shows "keeps_under (starting F) (on_state m)"
  by (rule keeps_underI) (use keeps_filesD [OF assms] in \<open>auto simp: on_state_run starting_def\<close>)

lemma starting_with [ws_starting]: "(\<And>op. keeps_under (starting F) (f op)) \<Longrightarrow> keeps_under (starting F) (with_operation f)"
  by (auto simp: keeps_under_def with_operation_def)

lemma starting_assign:
  assumes "\<And>op. wo_phase op \<noteq> Cleaned \<Longrightarrow> same_task op (f op)"
  shows "keeps_under (starting F) (assign f)"
proof (rule keeps_underI)
  fix so r to
  assume run: "assign f so = (r, to)" and st: "starting F so"
  have to: "to = (fst so, f (snd so))" using run by (simp add: assign_def)
  have task: "same_task (snd so) (f (snd so))" using assms st by (simp add: starting_def)
  obtain d where d: "stored (wst_files (fst so)) (wo_gitCommonDir (snd so)) (wo_operationId (snd so)) d" "wo_phase d \<noteq> Cleaned"
    "same_task d (snd so)" using st by (auto simp: starting_def)
  have "wo_phase (f (snd so)) \<noteq> Cleaned" using task by (simp add: same_task_def)
  then show "starting F to"
    using st d same_task_trans [OF d(3) task] same_task_identity [OF task] by (auto simp: to starting_def)
qed

lemma starting_save_as:
  assumes "\<And>op. wo_phase op \<noteq> Cleaned \<Longrightarrow> same_task op (f op)"
  shows "keeps_under (starting F) (save_as p f)"
proof (rule keeps_underI)
  fix so r to
  assume run: "save_as p f so = (r, to)" and st: "starting F so"
  obtain s op where so: "so = (s, op)" by (cases so)
  have task: "same_task op (f op)" using assms st so by (simp add: starting_def)
  obtain r1 t where save: "saveOperation p (f op) s = (r1, t)" by fastforce
  note kept = start_save [OF st [unfolded so] task save]
  have os: "on_state (saveOperation p (f op)) (s, op) = (r1, (t, op))" using save by (simp add: on_state_run)
  show "starting F to"
  proof (cases r1)
    case (Inl e)
    then show ?thesis using run os kept(1) by (simp add: so save_as_def with_operation_def)
  next
    case (Inr x)
    then show ?thesis using run os kept(2) by (simp add: so save_as_def with_operation_def assign_def)
  qed
qed

lemmas starting_rules = ws_starting keeps_under_bind keeps_under_if keeps_under_pure keeps_files_validate keeps_files_world ws_files

lemma starting_steps:
  "keeps_under (starting F) (start_branch p)" "keeps_under (starting F) (start_worktree p)"
  "keeps_under (starting F) (start_environment p)"
  unfolding start_branch_def start_worktree_def start_environment_def
  by (intro starting_rules starting_save_as; simp add: same_task_def same_identity_def)+

lemma starting_dependencies: "keeps_under (starting F) (start_dependencies p)"
  unfolding start_dependencies_def
  by (intro starting_rules starting_save_as starting_assign; simp add: same_task_def same_identity_def split: prod.split)
    (intro conjI allI impI starting_rules starting_assign; simp add: same_task_def same_identity_def)?

lemma starting_resources: "keeps_under (starting F) (start_resources p)"
  unfolding start_resources_def by (intro starting_rules starting_steps starting_dependencies)

end
