(* ===== verification/WsRuns.thy ===== *)
theory WsRuns
  imports WsSafety
begin

text \<open>
  Worktree sessions, runs: every operation behind the lock of the repository, whatever its arguments and whatever
  the world answers, keeps the files well-formed and takes no record back. A run is any sequence of such operations
  with anything in between that does not write a file of an operation; each public operation is a run.
\<close>

subsection \<open>The end of a start\<close>

lemma starting_failed:
  fixes p :: "'w ws_world"
  shows "keeps_under (starting F) (start_failed p ds e)"
proof (rule keeps_underI)
  fix so r to
  assume run: "start_failed p ds e so = (r, to)" and st: "starting F so"
  obtain s op where so: "so = (s, op)" by (cases so)
  define op' where "op' = op\<lparr>wo_diagnostics := Some (last_20 (ds @ [FailedWith e]))\<rparr>"
  define rest where
    "rest = (eff_bind
      (if wo_phase op = Allocated then
         eff_bind (branchExists p (wo_repoRoot op) (wo_taskBranch op)) (\<lambda>branch.
         if \<not> branch then eff_return ()
         else eff_bind (world_ask (wp_isDirectory p (wo_worktreePath op))) (\<lambda>there.
           if there then eff_return ()
           else eff_bind (gitMaybe p (wo_repoRoot op) [js ''branch'', js ''-D'', wo_taskBranch op]) (\<lambda>_. eff_return ())))
       else eff_return ()) (\<lambda>_. eff_throw e) :: ('w, prepared_operation) ws)"
  have rest: "keeps_files rest" unfolding rest_def by (intro ws_files)
  have task: "same_task op op'" using st by (simp add: so starting_def op'_def same_task_def same_identity_def)
  obtain r1 t where save: "saveOperation p op' s = (r1, t)" by fastforce
  note kept = start_save(1) [OF st [unfolded so] task save]
  have run': "eff_bind (saveOperation p op') (\<lambda>_. rest) s = (r, fst to)" "snd to = op"
  proof -
    have "start_failed p ds e so = on_state (eff_bind (saveOperation p op') (\<lambda>_. rest)) so"
      by (simp only: start_failed_def with_operation_def so snd_conv op'_def rest_def)
    then show "eff_bind (saveOperation p op') (\<lambda>_. rest) s = (r, fst to)" "snd to = op"
      using run by (simp_all add: on_state_run so)
  qed
  show "starting F to"
  proof (cases r1)
    case (Inl e)
    then show ?thesis using run' save kept by (cases to) simp
  next
    case (Inr x)
    then have "rest t = (r, fst to)" using run'(1) save by simp
    then show ?thesis using keeps_filesD [OF rest] kept run'(2) by (cases to) (simp add: starting_def)
  qed
qed

lemma run_start_grown:
  assumes "starting F (s, op)" and "run_start p op s = (r, t)"
  shows "grown F (wst_files t)"
proof -
  have "keeps_under (starting F) (eff_catch (start_resources p)
      (start_failed p (case wo_diagnostics op of None \<Rightarrow> [] | Some ds \<Rightarrow> ds)))"
    by (rule keeps_under_catch [OF starting_resources starting_failed])
  from keeps_underD [OF this _ assms(1)] show ?thesis
    using assms(2) by (auto simp: run_start_def starting_def split: prod.splits)
qed

text \<open>A record that keeps its task and its phase may be written over the one that is stored.\<close>

lemma may_write_same:
  assumes "ws_ok G" and "stored G c k op" and "same_identity op op'" and "wo_binding op' = wo_binding op"
    and "wo_phase op' = Cleaned \<longleftrightarrow> wo_phase op = Cleaned"
  shows "may_write G op'"
proof -
  have op: "wo_gitCommonDir op = c" "wo_operationId op = k" "lifecycle_ok op"
    using assms(1,2) by (auto simp: ws_ok_def records_ok_def)
  have "operation_le op op'" using assms(3,4) by (simp add: operation_le_def)
  moreover have "lifecycle_ok op'" using op(3) assms(4,5) by (simp add: lifecycle_ok_def)
  ultimately show ?thesis
    using assms(2,3,4) op by (auto simp: may_write_def stored_def same_identity_def of_session_def)
qed

lemma save_grown:
  assumes "grown F (wst_files s)" and "may_write (wst_files s) op" and "saveOperation p op s = (r, t)"
  shows "grown F (wst_files t)"
proof -
  have pre: "grown F (wst_files s) \<and> may_write (wst_files s) op \<and> wst_files s = wst_files s" using assms by simp
  show ?thesis
    using triple_ok [OF save_triple pre] triple_err [OF save_triple pre] assms(3) by (cases r) blast+
qed

subsection \<open>What the lookups answer\<close>

lemma loadOperation_eq: "loadOperation c k s = (r, t) \<Longrightarrow> t = s"
  by (simp add: loadOperation_def)

lemma loadOperation_Some: "loadOperation c k s = (Inr (Some op), t) \<longleftrightarrow> t = s \<and> stored (wst_files s) c k op"
  by (auto simp: loadOperation_def stored_def split: option.splits ws_file.splits)

lemma loadOperation_None: "loadOperation c k s = (Inr None, t) \<longleftrightarrow> t = s \<and> map_of (wst_files s c) k = None"
  by (auto simp: loadOperation_def split: option.splits ws_file.splits)

lemma history_scan_spec:
  "history_scan c names sid s = (r, t) \<Longrightarrow> t = s
     \<and> (\<forall>op. r = Inr (Some op) \<longrightarrow> of_session sid op \<and> (\<exists>k. stored (wst_files s) c k op))
     \<and> (r = Inr None \<longrightarrow> (\<forall>k \<in> set names. \<forall>op. stored (wst_files s) c k op \<longrightarrow> \<not> of_session sid op))"
proof (induction names arbitrary: r t)
  case (Cons k names)
  obtain r1 t1 where load: "loadOperation c k s = (r1, t1)" by fastforce
  have t1: "t1 = s" by (rule loadOperation_eq [OF load])
  consider e where "r1 = Inl e" | "r1 = Inr None" | op where "r1 = Inr (Some op)" by (metis sum.exhaust option.exhaust)
  then show ?case
  proof cases
    case 1
    then have "r = Inl e \<and> t = s" using Cons.prems load t1 by simp
    then show ?thesis by simp
  next
    case 2
    then have "history_scan c names sid s = (r, t)" using Cons.prems load t1 by simp
    moreover have "\<not> stored (wst_files s) c k op" for op using load 2 by (auto simp: loadOperation_None stored_def)
    ultimately show ?thesis using Cons.IH by auto
  next
    case (3 op)
    then have st: "stored (wst_files s) c k op" using load by (simp add: loadOperation_Some)
    show ?thesis
    proof (cases "of_session sid op")
      case True
      then show ?thesis using Cons.prems load 3 t1 st by (auto simp: of_session_def)
    next
      case False
      then have "history_scan c names sid s = (r, t)"
        using Cons.prems load 3 t1 by (auto simp: of_session_def split: option.splits if_splits)
      then show ?thesis using Cons.IH False st by (auto simp: stored_def)
    qed
  qed
qed simp

lemma in_ids: "k \<in> set (listOperationIds (F c)) \<longleftrightarrow> k \<in> set (keys (F c))"
  by (simp add: listOperationIds_def)

lemma stored_key: "stored F c k op \<Longrightarrow> k \<in> set (keys (F c))"
  unfolding stored_def by (metis map_of_has has_iff_keys)

lemma history_spec:
  assumes "findHistoryBySourceSession c sid s = (r, t)"
  shows "t = s" and "r = Inr (Some op) \<Longrightarrow> of_session sid op \<and> (\<exists>k. stored (wst_files s) c k op)"
    and "r = Inr None \<Longrightarrow> stored (wst_files s) c k op \<Longrightarrow> \<not> of_session sid op"
  using history_scan_spec [of c "listOperationIds (wst_files s c)" sid s r t] assms stored_key [of "wst_files s" c k op]
  by (auto simp: findHistoryBySourceSession_def eff_bind_def in_ids)

lemma find_spec:
  assumes "findBySourceSession c sid s = (r, t)"
  shows "t = s" and "r = Inr (Some op) \<Longrightarrow> of_session sid op \<and> \<not> released_for sid op \<and> (\<exists>k. stored (wst_files s) c k op)"
    and "r = Inr None \<Longrightarrow> no_history (wst_files s) c sid \<Longrightarrow> stored (wst_files s) c k op \<Longrightarrow> \<not> of_session sid op"
proof -
  obtain r1 t1 where h: "findHistoryBySourceSession c sid s = (r1, t1)" by fastforce
  note spec = history_spec [OF h]
  have run: "eff_bind (findHistoryBySourceSession c sid) (\<lambda>operation. eff_return (case operation of None \<Rightarrow> None
      | Some op \<Rightarrow> if isCurrentBinding (wo_binding op) then Some op else None)) s = (r, t)"
    using assms by (simp add: findBySourceSession_def)
  show "t = s" using run h spec(1) by (cases r1) auto
  show "of_session sid op \<and> \<not> released_for sid op \<and> (\<exists>k. stored (wst_files s) c k op)" if "r = Inr (Some op)"
    using run h spec(2) that
    by (cases r1) (auto simp: isCurrentBinding_def released_for_def split: option.splits if_splits)
  show "\<not> of_session sid op" if "r = Inr None" "no_history (wst_files s) c sid" "stored (wst_files s) c k op"
  proof -
    note none = that
    obtain o1 where o1: "r1 = Inr o1" using run h none(1) by (cases r1) auto
    consider "r1 = Inr None" | o' where "r1 = Inr (Some o')" "\<not> isCurrentBinding (wo_binding o')"
      using run h none(1) o1 by (cases o1) (auto split: if_splits)
    then show ?thesis
    proof cases
      case (2 o')
      then have "released_for sid o'" using spec(2)
        by (auto simp: isCurrentBinding_def of_session_def released_for_def)
      then show ?thesis using spec(2) [OF 2(1)] none(2) by (auto simp: no_history_def)
    qed (use spec(3) none(3) in blast)
  qed
qed

lemma scan_worktree_spec:
  "scan_worktree c names path s = (Inr op, t) \<Longrightarrow> \<exists>k. stored (wst_files t) c k op"
  by (induction names) (auto simp: eff_bind_ok loadOperation_Some split: option.splits if_splits dest: loadOperation_eq)

lemma resolveOperation_spec:
  assumes "resolveOperation p path s = (Inr op, t)"
  shows "\<exists>c k. stored (wst_files t) c k op"
proof -
  obtain c names path' u where "scan_worktree c names path' u = (Inr op, t)"
    using assms unfolding resolveOperation_def by (auto simp: eff_bind_ok split: option.splits)
  then show ?thesis using scan_worktree_spec by blast
qed

lemma resolve_spec:
  assumes "resolveMaintenanceTarget p target s = (Inr op, t)"
  shows "\<exists>c k. stored (wst_files t) c k op"
proof (cases target)
  case (TargetPath path)
  then show ?thesis using assms resolveOperation_spec by (simp add: resolveMaintenanceTarget_def) blast
next
  case (TargetSession sid repo)
  obtain c u where "findBySourceSession c sid u = (Inr (Some op), t)"
    using assms unfolding resolveMaintenanceTarget_def TargetSession
    by (auto simp: eff_bind_ok split: option.splits)
  from find_spec(1,2) [OF this] show ?thesis by blast
qed (use assms in \<open>simp add: resolveMaintenanceTarget_def\<close>)

subsection \<open>Every operation behind the lock\<close>

text \<open>A first write under a key that is free.\<close>

lemma allocate_starting:
  assumes g: "grown F (wst_files s)" and free: "map_of (wst_files s (rf_gitCommonDir repo)) (sq_operationId rq) = None"
    and run: "allocate_operation p rq repo s = (r, t)"
  shows "grown F (wst_files t)" and "r = Inr op \<Longrightarrow> starting F (t, op)"
proof -
  define pre :: "('a, ws_operation) ws" where "pre =
     eff_bind (detectPackageManager p (rf_repoRoot repo)) (\<lambda>resolution.
     eff_bind (resolveCommit p (rf_repoRoot repo) (sq_baseRef rq)) (\<lambda>baseCommit.
     eff_bind (allocateTask p (rf_repoRoot repo) (sq_taskText rq)) (\<lambda>al.
     eff_bind (world_now p) (\<lambda>timestamp. eff_return (new_operation p rq repo resolution baseCommit al timestamp)))))"
  have split: "allocate_operation p rq repo s = eff_bind pre (\<lambda>op. eff_bind (saveOperation p op) (\<lambda>_. eff_return op)) s"
    by (simp add: allocate_operation_def pre_def Let_def eff_bind_def split: prod.split sum.split)
  have keep: "keeps_files pre" unfolding pre_def by (intro ws_files)
  obtain r1 u where pr: "pre s = (r1, u)" by fastforce
  have u: "wst_files u = wst_files s" by (rule keeps_filesD [OF keep pr])
  have "grown F (wst_files t) \<and> (\<forall>op. r = Inr op \<longrightarrow> starting F (t, op))"
  proof (cases r1)
    case (Inl e)
    then have "r = Inl e \<and> t = u" using run split pr by simp
    then show ?thesis using u g by simp
  next
    case (Inr op1)
    have new: "wo_gitCommonDir op1 = rf_gitCommonDir repo" "wo_operationId op1 = sq_operationId rq" "wo_binding op1 = None"
      "wo_phase op1 = Allocated"
      using pr unfolding Inr pre_def by (auto simp: eff_bind_ok new_operation_def)
    have may: "may_write (wst_files u) op1" using free new u by (simp add: may_write_def lifecycle_ok_def)
    obtain r2 v where save: "saveOperation p op1 u = (r2, v)" by fastforce
    have gv: "grown F (wst_files v)" by (rule save_grown [OF _ may save]) (simp add: u g)
    show ?thesis
    proof (cases r2)
      case (Inl e)
      then have "r = Inl e \<and> t = v" using run split pr \<open>r1 = Inr op1\<close> save by simp
      then show ?thesis using gv by simp
    next
      case (Inr x)
      have pre2: "grown F (wst_files u) \<and> may_write (wst_files u) op1 \<and> wst_files u = wst_files u" using may u g by simp
      from triple_ok [OF save_triple pre2 save [unfolded Inr]] obtain n where
        x: "x = op1\<lparr>wo_updatedAt := n\<rparr>" "wst_files v = written x (wst_files u)" by blast
      have "starting F (v, op1)"
        by (rule starting_written [OF gv x(2)]) (use x(1) new in \<open>simp_all add: same_task_def same_identity_def\<close>)
      then show ?thesis using run split pr \<open>r1 = Inr op1\<close> save Inr gv by auto
    qed
  qed
  then show "grown F (wst_files t)" and "r = Inr op \<Longrightarrow> starting F (t, op)" by blast+
qed

lemma loaded_starting:
  assumes "grown F (wst_files s)" and "stored (wst_files s) c k op" and "wo_phase op \<noteq> Cleaned"
  shows "starting F (s, op)"
  using assms same_task_refl by (auto simp: starting_def grown_def ws_ok_def records_ok_def)

lemma start_grown:
  assumes g: "grown F (wst_files s)" and run: "start_locked p rq repo s = (r, t)"
  shows "grown F (wst_files t)"
proof -
  have finish: "grown F (wst_files t)"
    if st: "wo_phase op \<noteq> Cleaned \<Longrightarrow> starting F (u, op)" and gu: "grown F (wst_files u)"
      and run: "(if wo_phase op = Cleaned then eff_throw (WsError WsOperationConflict)
       else eff_bind (if wo_phase op = Prepared then validateResource p op Prepared else eff_return False) (\<lambda>ready.
         if ready then eff_ask (\<lambda>_. resultOf op) else run_start p op)) u = (r, t)" for op u
  proof (cases "wo_phase op = Cleaned")
    case False
    define check where "check = (if wo_phase op = Prepared then validateResource p op Prepared else eff_return False)"
    obtain r1 v where ck: "check u = (r1, v)" by fastforce
    have keep: "keeps_files check" unfolding check_def by (intro ws_files)
    have v: "wst_files v = wst_files u" by (rule keeps_filesD [OF keep ck])
    have stv: "starting F (v, op)" using st [OF False] v by (simp add: starting_def)
    show ?thesis
      using run False ck v gu run_start_grown [OF stv] unfolding check_def [symmetric]
      by (cases r1) (auto simp: check_def split: if_splits)
  qed (use run gu in simp)
  obtain r0 u0 where load: "loadOperation (rf_gitCommonDir repo) (sq_operationId rq) s = (r0, u0)" by fastforce
  have u0: "u0 = s" by (rule loadOperation_eq [OF load])
  consider e where "r0 = Inl e" | "r0 = Inr None" | op where "r0 = Inr (Some op)" by (metis sum.exhaust option.exhaust)
  then show ?thesis
  proof cases
    case 1
    then show ?thesis using run load u0 g by (simp add: start_locked_def)
  next
    case 2
    then have free: "map_of (wst_files s (rf_gitCommonDir repo)) (sq_operationId rq) = None" using load by (simp add: loadOperation_None)
    obtain r1 u where al: "allocate_operation p rq repo s = (r1, u)" by fastforce
    note made = allocate_starting [OF g free al]
    show ?thesis
      using run load 2 u0 al made finish by (cases r1) (auto simp: start_locked_def)
  next
    case (3 op)
    then have st: "stored (wst_files s) (rf_gitCommonDir repo) (sq_operationId rq) op" using load by (simp add: loadOperation_Some)
    show ?thesis
      using run load 3 u0 g finish [OF loaded_starting [OF g st] g] by (auto simp: start_locked_def split: if_splits)
  qed
qed

lemma save_binding_grown:
  assumes g: "grown F (wst_files s)" and st: "stored (wst_files s) c k op" and b: "wo_binding op = Some b"
    and left: "sb_state b \<noteq> BindingBound" and up: "binding_rank (sb_state b) \<le> binding_rank state"
    and run: "save_binding p op b state s = (r, t)"
  shows "grown F (wst_files t)"
proof -
  obtain now w where n: "wp_now p (wst_world s) = (now, w)" by fastforce
  define op' where "op' = op\<lparr>wo_binding := Some (b\<lparr>sb_state := state, sb_archiveLifecycle := True, sb_updatedAt := now\<rparr>)\<rparr>"
  have op: "wo_gitCommonDir op = c" "wo_operationId op = k" "lifecycle_ok op" "wo_phase op = Cleaned"
    using g st b left by (auto simp: grown_def ws_ok_def records_ok_def lifecycle_ok_def)
  have "state \<noteq> BindingBound" using left up by (cases "sb_state b") auto
  then have "lifecycle_ok op'" using op by (simp add: op'_def lifecycle_ok_def)
  moreover have "operation_le op op'" using b up by (simp add: op'_def operation_le_def same_identity_def)
  ultimately have may: "may_write (wst_files s) op'" using st op b by (auto simp: may_write_def stored_def op'_def)
  obtain r1 u where save: "saveOperation p op' (s\<lparr>wst_world := w\<rparr>) = (r1, u)" by fastforce
  have "grown F (wst_files u)" by (rule save_grown [OF _ _ save]) (use g may in simp_all)
  then show ?thesis using run n save by (cases r1) (auto simp: save_binding_def eff_bind_def world_now_def op'_def)
qed

lemma found_grown:
  assumes g: "grown F (wst_files s)" and run: "eff_bind (findHistoryBySourceSession c sid) f s = (r, t)"
    and none: "f None = eff_return None"
    and some: "\<And>op k u r. stored (wst_files s) c k op \<Longrightarrow> of_session sid op \<Longrightarrow> f (Some op) s = (r, u) \<Longrightarrow> grown F (wst_files u)"
  shows "grown F (wst_files t)"
proof -
  obtain r1 u where h: "findHistoryBySourceSession c sid s = (r1, u)" by fastforce
  note spec = history_spec [OF h]
  consider e where "r1 = Inl e" | "r1 = Inr None" | op where "r1 = Inr (Some op)" by (metis sum.exhaust option.exhaust)
  then show ?thesis
  proof cases
    case (3 op)
    then show ?thesis using run h spec(1) spec(2) [OF 3] some by auto
  qed (use run h spec(1) none g in auto)
qed

lemma release_grown:
  assumes g: "grown F (wst_files s)" and run: "release_locked p c sid s = (r, t)"
  shows "grown F (wst_files t)"
  by (rule found_grown [OF g run [unfolded release_locked_def]])
    (use g in \<open>auto split: option.splits if_splits dest: save_binding_grown [OF g, rotated 4]\<close>)

lemma archive_step_up:
  "archive_step op b archived mode = Some state \<Longrightarrow> sb_state b \<noteq> BindingBound \<and> binding_rank (sb_state b) \<le> binding_rank state"
  by (auto simp: archive_step_def Let_def split: if_splits)

lemma reconcile_grown:
  assumes g: "grown F (wst_files s)" and run: "reconcile_locked p c sid archived mode s = (r, t)"
  shows "grown F (wst_files t)"
  by (rule found_grown [OF g run [unfolded reconcile_locked_def]])
    (use g archive_step_up in \<open>auto split: option.splits if_splits dest: save_binding_grown [OF g, rotated 4]\<close>)

end
