(* ===== verification/WsSteps.thy ===== *)
theory WsSteps
  imports WsRuns
begin

text \<open>
  Worktree sessions, the step relation: the rest of the operations behind the lock, and that each public operation
  is a run.
\<close>

lemma resolve_grown:
  assumes g: "grown F (wst_files s)" and run: "eff_bind (resolveMaintenanceTarget p target) f s = (r, t)"
    and some: "\<And>op c k u. stored (wst_files u) c k op \<Longrightarrow> grown F (wst_files u) \<Longrightarrow> f op u = (r, t) \<Longrightarrow> grown F (wst_files t)"
  shows "grown F (wst_files t)"
proof -
  obtain r1 u where res: "resolveMaintenanceTarget p target s = (r1, u)" by fastforce
  have u: "wst_files u = wst_files s" by (rule keeps_filesD [OF keeps_files_resolve res])
  show ?thesis
  proof (cases r1)
    case (Inl e)
    then have "t = u" using run res by simp
    then show ?thesis using g u by simp
  next
    case (Inr op)
    then obtain c k where "stored (wst_files u) c k op" using resolve_spec res by blast
    then show ?thesis by (rule some) (use run res Inr g u in auto)
  qed
qed

text \<open>A record that was loaded is saved after calls of the world.\<close>

lemma save_after_grown:
  assumes g: "grown F (wst_files u)" and may: "\<And>x. may_write (wst_files u) (f x)" and keep: "keeps_files m"
    and run: "eff_bind m (\<lambda>x. eff_bind (saveOperation p (f x)) h) u = (r, t)" and rest: "\<And>x. keeps_files (h x)"
  shows "grown F (wst_files t)"
proof -
  obtain r1 v where mv: "m u = (r1, v)" by fastforce
  have v: "wst_files v = wst_files u" by (rule keeps_filesD [OF keep mv])
  show ?thesis
  proof (cases r1)
    case (Inl e)
    then have "t = v" using run mv by simp
    then show ?thesis using g v by simp
  next
    case (Inr x)
    obtain r2 w where save: "saveOperation p (f x) v = (r2, w)" by fastforce
    have w: "grown F (wst_files w)" by (rule save_grown [OF _ _ save]) (use g may v in simp_all)
    show ?thesis
    proof (cases r2)
      case (Inl e)
      then have "t = w" using run mv \<open>r1 = Inr x\<close> save by simp
      then show ?thesis using w by simp
    next
      case (Inr y)
      then have "h y w = (r, t)" using run mv \<open>r1 = Inr x\<close> save by simp
      then show ?thesis using keeps_filesD [OF rest] w by simp
    qed
  qed
qed

lemma promote_grown:
  assumes g: "grown F (wst_files s)" and run: "promote_locked p target s = (r, t)"
  shows "grown F (wst_files t)"
proof (rule resolve_grown [OF g run [unfolded promote_locked_def]])
  fix op c k u
  assume st: "stored (wst_files u) c k op" and gu: "grown F (wst_files u)"
    and go: "(if wo_phase op \<noteq> Prepared then eff_throw (WsError WsPromoteRefused)
      else if wo_dependencyMode op = Mutable then eff_return (statusOf op)
      else eff_bind (world_call (wp_promote p op)) (\<lambda>_.
        eff_bind (saveOperation p (op\<lparr>wo_dependencyMode := Mutable\<rparr>)) (\<lambda>updated. eff_return (statusOf updated)))) u = (r, t)"
  have may: "may_write (wst_files u) (op\<lparr>wo_dependencyMode := Mutable\<rparr>)"
    by (rule may_write_same [OF _ st]) (use gu in \<open>simp_all add: grown_def same_identity_def\<close>)
  show "grown F (wst_files t)"
    using go gu save_after_grown [OF gu may, of "world_call (wp_promote p op)" p "\<lambda>updated. eff_return (statusOf updated)" r t]
    by (auto simp: ws_files split: if_splits)
qed

lemma preview_ends_grown:
  assumes g: "grown F (wst_files s)" and run: "preview_ends p op preview s = (r, t)"
  shows "grown F (wst_files t)"
proof -
  obtain r0 u0 where load: "loadOperation (wo_gitCommonDir op) (wo_operationId op) s = (r0, u0)" by fastforce
  have u0: "u0 = s" by (rule loadOperation_eq [OF load])
  consider e where "r0 = Inl e" | "r0 = Inr None" | cur where "r0 = Inr (Some cur)" by (metis sum.exhaust option.exhaust)
  then show ?thesis
  proof cases
    case (3 cur)
    then have st: "stored (wst_files s) (wo_gitCommonDir op) (wo_operationId op) cur" using load by (simp add: loadOperation_Some)
    have may: "may_write (wst_files s) (cur\<lparr>wo_preview := Some preview\<rparr>)"
      by (rule may_write_same [OF _ st]) (use g in \<open>simp_all add: grown_def same_identity_def\<close>)
    show ?thesis
      using run load 3 u0 g save_after_grown [OF g may, of "eff_return ()" p "\<lambda>saved. eff_return (statusOf saved)" r t]
      by (auto simp: preview_ends_def ws_files split: if_splits)
  qed (use run load u0 g in \<open>auto simp: preview_ends_def\<close>)
qed

lemma tombstone_may_write:
  assumes ok: "ws_ok G" and st: "stored G c k op" and b: "wo_binding op = Some b" and prepared: "wo_phase op = Prepared"
  shows "may_write G (tombstone o' op b now)"
proof -
  have op: "wo_gitCommonDir op = c" "wo_operationId op = k" "lifecycle_ok op" using ok st by (auto simp: ws_ok_def records_ok_def)
  then have "sb_state b = BindingBound" using b prepared by (simp add: lifecycle_ok_def)
  then show ?thesis
    using op st b
    by (auto simp: may_write_def stored_def tombstone_def lifecycle_ok_def operation_le_def same_identity_def)
qed

lemma remove_grown:
  assumes g: "grown F (wst_files u)" and st: "stored (wst_files u) c k op" and b: "wo_binding op = Some b"
    and prepared: "wo_phase op = Prepared" and run: "remove_worktree p o' op b proof declared u = (r, t)"
  shows "grown F (wst_files t)"
proof -
  define pre :: "('a, jstr) ws" where "pre =
     eff_bind (if declared then eff_bind (world_call (wp_hook p op (js ''teardown-preview''))) (\<lambda>_. eff_return ())
               else eff_return ()) (\<lambda>_.
     eff_bind (gitRun p (wo_repoRoot op) [js ''worktree'', js ''remove'', clean_target o' op]) (\<lambda>_.
     eff_bind (eff_catch (eff_bind (world_call (wp_removeHome p op)) (\<lambda>_. eff_return ())) (\<lambda>_. eff_return ())) (\<lambda>_.
     eff_bind (gitRun p (wo_repoRoot op) [js ''branch'', delete_flag proof, wo_taskBranch op]) (\<lambda>_. world_now p))))"
  have "remove_worktree p o' op b proof declared u
    = eff_bind pre (\<lambda>now. eff_bind (saveOperation p (tombstone o' op b now)) (\<lambda>_. eff_return ())) u"
    unfolding remove_worktree_def pre_def eff_bind_assoc by (rule refl)
  with run have go: "eff_bind pre (\<lambda>now. eff_bind (saveOperation p (tombstone o' op b now)) (\<lambda>_. eff_return ())) u = (r, t)" by simp
  have keep: "keeps_files pre" unfolding pre_def by (intro ws_files)
  have may: "may_write (wst_files u) (tombstone o' op b now)" for now
    by (rule tombstone_may_write [OF _ st b prepared]) (use g in \<open>simp add: grown_def\<close>)
  show ?thesis by (rule save_after_grown [OF g may keep go]) (rule ws_files)
qed

lemma clean_grown:
  assumes g: "grown F (wst_files s)" and run: "clean_locked p target o' s = (r, t)"
  shows "grown F (wst_files t)"
proof (rule resolve_grown [OF g run [unfolded clean_locked_def]])
  fix op c k u
  define gates where "gates =
    eff_bind (worktreeStatus p (clean_target o' op)) (\<lambda>status.
      if trim status \<noteq> [] then eff_throw cleanRefused else prove_merged p op)"
  define body where "body how =
    (case wo_binding op of
       None \<Rightarrow> eff_throw cleanRefused
     | Some b \<Rightarrow>
         eff_bind (world_ask (wp_hookDeclared p (join (clean_target o' op) (js ''.ws/teardown-preview'')))) (\<lambda>declared.
         let answer = \<lparr>kr_dryRun = ko_dryRun o', kr_operationId = wo_operationId op,
           kr_worktreePath = clean_target o' op, kr_taskBranch = wo_taskBranch op, kr_cleaned = \<not> ko_dryRun o',
           kr_mergeProof = how, kr_archivedBeforeClean = False\<rparr>
         in if ko_dryRun o' then eff_return answer
            else eff_bind (remove_worktree p o' op b how declared) (\<lambda>_. eff_return answer)))" for how
  assume st: "stored (wst_files u) c k op" and gu: "grown F (wst_files u)"
    and go: "(if \<not> clean_gates o' op then eff_throw cleanRefused
     else
       eff_bind (worktreeStatus p (clean_target o' op)) (\<lambda>status.
       if trim status \<noteq> [] then eff_throw cleanRefused
       else
         eff_bind (prove_merged p op) (\<lambda>proof.
         case wo_binding op of
           None \<Rightarrow> eff_throw cleanRefused
         | Some b \<Rightarrow>
             eff_bind (world_ask (wp_hookDeclared p (join (clean_target o' op) (js ''.ws/teardown-preview'')))) (\<lambda>declared.
             let answer = \<lparr>kr_dryRun = ko_dryRun o', kr_operationId = wo_operationId op,
               kr_worktreePath = clean_target o' op, kr_taskBranch = wo_taskBranch op, kr_cleaned = \<not> ko_dryRun o',
               kr_mergeProof = proof, kr_archivedBeforeClean = False\<rparr>
             in if ko_dryRun o' then eff_return answer
                else eff_bind (remove_worktree p o' op b proof declared) (\<lambda>_. eff_return answer))))) u = (r, t)"
  show "grown F (wst_files t)"
  proof (cases "clean_gates o' op")
    case True
    then have prepared: "wo_phase op = Prepared" by (simp add: clean_gates_def Let_def)
    have run: "eff_bind gates body u = (r, t)"
      using go True unfolding gates_def body_def by (simp add: eff_bind_def split: prod.splits sum.splits if_splits)
    have keep: "keeps_files gates" unfolding gates_def by (intro ws_files)
    obtain r1 v where gv: "gates u = (r1, v)" by fastforce
    have v: "wst_files v = wst_files u" by (rule keeps_filesD [OF keep gv])
    show ?thesis
    proof (cases r1)
      case (Inl e)
      then have "t = v" using run gv by simp
      then show ?thesis using gu v by simp
    next
      case (Inr how)
      have body: "body how v = (r, t)" using run gv Inr by simp
      show ?thesis
      proof (cases "wo_binding op")
        case (Some b)
        have "grown F (wst_files w')" if "remove_worktree p o' op b how d w = (r', w')" "wst_files w = wst_files v" for d w r' w'
          by (rule remove_grown [OF _ _ Some prepared that(1)]) (use gu st v that(2) in simp_all)
        then show ?thesis
          using body gu v unfolding body_def Some
          by (auto simp: eff_bind_def world_ask_def Let_def split: prod.splits sum.splits if_splits)
      qed (use body gu v in \<open>simp add: body_def\<close>)
    qed
  qed (use go gu in simp)
qed

lemma bind_grown:
  assumes g: "grown F (wst_files s)" and run: "bind_locked p rq repo s = (r, t)"
  shows "grown F (wst_files t)"
proof -
  let ?c = "rf_gitCommonDir repo" and ?sid = "bq_sourceSessionId rq"
  obtain r0 u0 where load: "loadOperation ?c (bq_operationId rq) s = (r0, u0)" by fastforce
  have u0: "u0 = s" by (rule loadOperation_eq [OF load])
  consider e where "r0 = Inl e" | "r0 = Inr None" | op where "r0 = Inr (Some op)" by (metis sum.exhaust option.exhaust)
  then show ?thesis
  proof cases
    case (3 op)
    then have st: "stored (wst_files s) ?c (bq_operationId rq) op" using load by (simp add: loadOperation_Some)
    have rec: "wo_gitCommonDir op = ?c" "wo_operationId op = bq_operationId rq" "lifecycle_ok op" "ws_ok (wst_files s)"
      using g st by (auto simp: grown_def ws_ok_def records_ok_def)
    obtain r1 u1 where owned: "findBySourceSession ?c ?sid s = (r1, u1)" by fastforce
    note spec = find_spec [OF owned]
    have may: "may_write (wst_files s) (ensureFreshSourceBinding op ?sid now)"
      if prepared: "wo_phase op = Prepared" and r1: "r1 = Inr o1"
        and mine: "case o1 of None \<Rightarrow> True | Some o' \<Rightarrow> wo_operationId o' = wo_operationId op" for o1 now
    proof (cases "wo_binding op")
      case None
      have none: "\<not> of_session ?sid o'" if nh: "no_history (wst_files s) ?c ?sid" and o': "stored (wst_files s) ?c k o'" for k o'
      proof (cases o1)
        case None
        then show ?thesis using spec(3) r1 nh o' by blast
      next
        case (Some o2)
        then obtain k2 where "stored (wst_files s) ?c k2 o2" "of_session ?sid o2" using spec(2) r1 by blast
        moreover then have "o2 = op" using rec Some mine st by (auto simp: ws_ok_def records_ok_def stored_def)
        ultimately show ?thesis using None by (simp add: of_session_def)
      qed
      show ?thesis
        using None none st rec prepared
        by (auto simp: may_write_def stored_def ensureFreshSourceBinding_def lifecycle_ok_def operation_le_def
          same_identity_def of_session_def)
    next
      case (Some b)
      then have same: "ensureFreshSourceBinding op ?sid now = op" by (simp add: ensureFreshSourceBinding_def)
      show ?thesis unfolding same by (rule may_write_same [OF rec(4) st]) simp_all
    qed
    have keep: "keeps_files (if wo_binding op = None then world_now p else eff_return [])" by (intro ws_files)
    show ?thesis
    proof (cases r1)
      case (Inl e)
      then show ?thesis using run load 3 u0 owned spec(1) g by (auto simp: bind_locked_def split: if_splits)
    next
      case (Inr o1)
      show ?thesis
      proof (cases "wo_phase op = Prepared \<and> (case o1 of None \<Rightarrow> True | Some o' \<Rightarrow> wo_operationId o' = wo_operationId op)")
        case True
        note save = save_after_grown [OF g may [OF _ Inr] keep, where p = p and r = r and t = t and h = "\<lambda>updated. eff_return (case wo_binding updated of None \<Rightarrow> PublicBound | Some b \<Rightarrow> publicBindingLifecycle (sb_state b))"]
        show ?thesis
          using run load 3 u0 owned spec(1) g Inr True save
          by (auto simp: bind_locked_def ws_files split: if_splits option.splits)
      next
        case False
        then show ?thesis
          using run load 3 u0 owned spec(1) g Inr by (auto simp: bind_locked_def split: if_splits option.splits)
      qed
    qed
  qed (use run load u0 g in \<open>auto simp: bind_locked_def\<close>)
qed

subsection \<open>Steps and runs\<close>

inductive ws_step :: "'w ws_world \<Rightarrow> 'w ws_state \<Rightarrow> 'w ws_state \<Rightarrow> bool" for p where
  step_elsewhere: "wst_files t = wst_files s \<Longrightarrow> ws_step p s t"
| step_start: "start_locked p rq repo s = (r, t) \<Longrightarrow> ws_step p s t"
| step_bind: "bind_locked p brq repo s = (rb, t) \<Longrightarrow> ws_step p s t"
| step_release: "release_locked p c sid s = (ro, t) \<Longrightarrow> ws_step p s t"
| step_reconcile: "reconcile_locked p c sid archived mode s = (ro, t) \<Longrightarrow> ws_step p s t"
| step_promote: "promote_locked p target s = (rs, t) \<Longrightarrow> ws_step p s t"
| step_preview: "preview_ends p op preview s = (rs, t) \<Longrightarrow> ws_step p s t"
| step_clean: "clean_locked p target opts s = (rc, t) \<Longrightarrow> ws_step p s t"

lemma step_grown: "ws_step p s t \<Longrightarrow> grown F (wst_files s) \<Longrightarrow> grown F (wst_files t)"
  by (induction rule: ws_step.induct)
    (auto intro: start_grown bind_grown release_grown reconcile_grown promote_grown preview_ends_grown clean_grown)

lemma grown_self: "ws_ok F \<Longrightarrow> grown F F"
  by (simp add: grown_def files_le_refl)

interpretation worktrees: monotone_system "ws_step p" "\<lambda>s. ws_ok (wst_files s)" "\<lambda>s t. files_le (wst_files s) (wst_files t)" for p
proof
  fix s t
  assume ok: "ws_ok (wst_files s)" and step: "ws_step p s t"
  have "grown (wst_files s) (wst_files t)" by (rule step_grown [OF step grown_self [OF ok]])
  then show "ws_ok (wst_files t)" and "files_le (wst_files s) (wst_files t)" by (simp_all add: grown_def)
qed (auto intro: files_le_refl files_le_trans)

text \<open>The public operations.\<close>

named_theorems ws_run "operations that are runs"

abbreviation reaches :: "'w ws_world \<Rightarrow> 'w ws_state \<Rightarrow> 'w ws_state \<Rightarrow> bool" where
  "reaches p s0 \<equiv> (ws_step p)\<^sup>*\<^sup>* s0"

lemma run_elsewhere: "keeps_files m \<Longrightarrow> keeps_under (reaches p s0) m"
  by (rule keeps_underI) (metis keeps_filesD step_elsewhere rtranclp.rtrancl_into_rtrancl)

lemma run_locked [ws_run]:
  "keeps_under (reaches p s0) (start_locked p rq repo)" "keeps_under (reaches p s0) (bind_locked p brq repo)"
  "keeps_under (reaches p s0) (release_locked p c sid)" "keeps_under (reaches p s0) (reconcile_locked p c sid archived mode)"
  "keeps_under (reaches p s0) (promote_locked p target)" "keeps_under (reaches p s0) (preview_ends p op preview)"
  "keeps_under (reaches p s0) (clean_locked p target opts)"
  by (rule keeps_underI, metis ws_step.intros rtranclp.rtrancl_into_rtrancl)+

lemma run_withLock [ws_run]:
  assumes "keeps_under (reaches p s0) m"
  shows "keeps_under (reaches p s0) (withLock p' lock m)"
proof -
  have call: "keeps_under (reaches p s0) (world_call f)" for f :: "'a \<Rightarrow> (ws_error + unit) \<times> 'a"
    by (rule run_elsewhere) (rule ws_files)
  have "keeps_under (reaches p s0) (\<lambda>s. case m s of (r, t) \<Rightarrow>
      (case world_call (wp_unlock p' lock) t of (Inl e, u) \<Rightarrow> (Inl e, u) | (Inr _, u) \<Rightarrow> (r, u)))"
    by (rule keeps_underI)
      (auto split: prod.splits sum.splits dest: keeps_underD [OF assms] keeps_underD [OF call])
  then show ?thesis unfolding withLock_def by (intro keeps_under_bind call)
qed

lemma run_operations [ws_run]:
  "keeps_under (reaches p s0) (performStart p rq)" "keeps_under (reaches p s0) (bindSource p brq)"
  "keeps_under (reaches p s0) (releaseMissingWorktreeBinding p c sid)"
  "keeps_under (reaches p s0) (reconcileSourceArchiveLifecycle p c sid archived mode)"
  unfolding performStart_def bindSource_def releaseMissingWorktreeBinding_def reconcileSourceArchiveLifecycle_def
  by (intro keeps_under_if keeps_under_bind keeps_under_pure ws_run; intro run_elsewhere ws_files)+

lemma run_maintenance [ws_run]:
  "keeps_under (reaches p s0) (wsPromote p target)" "keeps_under (reaches p s0) (wsClean p target opts)"
  unfolding wsPromote_def wsClean_def
  by (intro keeps_under_bind ws_run; intro run_elsewhere ws_files)+

lemma run_preview [ws_run]: "keeps_under (reaches p s0) (wsPreparePreview p target)"
proof -
  have body: "keeps_under (reaches p s0) (eff_bind (withLock p lock (preview_begins p target)) (\<lambda>op.
      eff_bind (world_call (wp_hook p op (js ''prepare-preview''))) (\<lambda>preview. withLock p lock (preview_ends p op preview))))" for lock
    by (intro keeps_under_bind ws_run run_elsewhere ws_files)
  have call: "keeps_under (reaches p s0) (world_call f)" for f :: "'a \<Rightarrow> (ws_error + unit) \<times> 'a"
    by (rule run_elsewhere) (rule ws_files)
  show ?thesis
    unfolding wsPreparePreview_def Let_def
    by (rule keeps_under_bind [OF run_elsewhere [OF keeps_files_resolve]], rule keeps_underI)
      (auto split: prod.splits sum.splits dest: keeps_underD [OF body] keeps_underD [OF call])
qed

lemma run_settled [ws_run]: "keeps_under (reaches p s0) m \<Longrightarrow> keeps_under (reaches p s0) (settled m)"
  by (auto simp: keeps_under_def settled_def split: prod.splits)

lemma run_candidate [ws_run]: "keeps_under (reaches p s0) (clean_candidate p co k op sid before)"
  unfolding clean_candidate_def by (intro keeps_under_bind ws_run keeps_under_pure)

lemma run_offer [ws_run]: "keeps_under (reaches p s0) (offer_to_finish p co k op sid)"
  unfolding offer_to_finish_def
  by (auto split: option.split sum.split confirmation.split
      intro!: keeps_under_bind ws_run keeps_under_pure run_elsewhere [OF keeps_files_world(5)]
        run_elsewhere [OF keeps_files_settled [OF keeps_files_world(1)]])

lemma run_sweep_one [ws_run]: "keeps_under (reaches p s0) (sweep_one p co c k)"
  unfolding sweep_one_def
  by (auto split: option.split sum.split
      intro!: keeps_under_bind ws_run keeps_under_pure run_elsewhere [OF keeps_files_settled [OF keeps_files_load]])

lemma run_sweep_all [ws_run]: "keeps_under (reaches p s0) (sweep_all p co c ks)"
  by (induction ks) (auto intro!: keeps_under_bind ws_run keeps_under_pure run_elsewhere [OF keeps_files_pure(6)])

lemma keeps_files_scope [ws_files]: "keeps_files (sweep_scope p co repo ids)"
  unfolding sweep_scope_def by (auto split: option.split prod.split intro!: ws_files)

lemma run_sweep [ws_run]: "keeps_under (reaches p s0) (wsCleanRepository p path co)"
  unfolding wsCleanRepository_def
  by (auto split: prod.split intro!: keeps_under_bind ws_run keeps_under_pure run_elsewhere [OF keeps_files_scope]
      run_elsewhere [OF keeps_files_repo(1)])

end
