(* ===== verification/WsGuard.thy ===== *)
theory WsGuard
  imports WsOperations
begin

text \<open>
  Worktree sessions, the policy of a bound session: \<^verbatim>\<open>host/containment.ts\<close>, \<^verbatim>\<open>host/guard.ts\<close>,
  \<^verbatim>\<open>host/recovery.ts\<close>, \<^verbatim>\<open>host/policy.ts\<close> and what \<^verbatim>\<open>index.ts\<close> does when an agent appears. The reasons of a
  denial are constructors; the file system answers \<open>realpath\<close>.
\<close>

subsection \<open>Containment of a path\<close>

type_synonym realpaths = "jstr \<Rightarrow> ws_error + jstr"

text \<open>The last name of a path, and the walk up to the nearest ancestor that exists, at most 200 steps.\<close>

definition head_name :: "jstr \<Rightarrow> jstr" where
  "head_name t = last (path_names t)"

fun nearest_real :: "realpaths \<Rightarrow> jstr \<Rightarrow> nat \<Rightarrow> jstr \<Rightarrow> jstr list \<Rightarrow> jstr option" where
  "nearest_real real baseRoot 0 current tail = None"
| "nearest_real real baseRoot (Suc n) current tail =
     (if normalize current = baseRoot then None
      else (case real current of
              Inr ancestor \<Rightarrow>
                Some (if doesNotEscape baseRoot ancestor \<and> tail \<noteq> []
                      then path_text (fold (\<lambda>t base. resolve_names base t) tail (resolve_names [] ancestor))
                      else ancestor)
            | Inl _ \<Rightarrow>
                (let parent = resolve_text current [46, 46] in
                 if parent = current then None
                 else nearest_real real baseRoot n parent (head_name current # tail))))"

definition resolveRealInside :: "realpaths \<Rightarrow> jstr \<Rightarrow> jstr \<Rightarrow> jstr option" where
  "resolveRealInside real baseRoot path =
     (case real path of Inr r \<Rightarrow> Some r | Inl _ \<Rightarrow> nearest_real real baseRoot 200 path [])"

datatype ws_denial = DeniedCleaned | DeniedValidation | DeniedDelegation | DeniedUnaudited | DeniedContract
  | DeniedNoRoot | DeniedRelative | DeniedOutside

text \<open>The error on the left is thrown by \<open>realpath\<close> of the base.\<close>

definition confinePath :: "realpaths \<Rightarrow> jstr \<Rightarrow> jstr \<Rightarrow> bool \<Rightarrow> ws_error + (ws_denial + jstr)" where
  "confinePath real base entry requireAbsolute =
     (case real base of
        Inl e \<Rightarrow> Inl e
      | Inr physical \<Rightarrow>
          (let physRoot = normalize physical in
           if entry = [] then Inr (Inl DeniedNoRoot)
           else if \<not> isAbsolute entry \<and> requireAbsolute then Inr (Inl DeniedRelative)
           else
             (let normalized = normalize (if isAbsolute entry then entry else resolve_text (normalize base) entry) in
              if \<not> doesNotEscape (normalize base) normalized then Inr (Inl DeniedOutside)
              else (case resolveRealInside real physRoot normalized of
                      Some r \<Rightarrow> if doesNotEscape physRoot r then Inr (Inr normalized) else Inr (Inl DeniedOutside)
                    | None \<Rightarrow> Inr (Inr normalized)))))"

subsection \<open>The contracts of the tools\<close>

datatype tool_kind = BashTool | PathsTool | SearchTool | DelegationTool | MaintenanceTool | InquiryTool

record tool_contract =
  tk_kind :: tool_kind
  tk_pathFields :: "string list"

text \<open>Every contract with path fields requires absolute ones. No installed contract is of the kind \<^verbatim>\<open>non-local\<close>.\<close>

definition TOOL_CONTRACTS :: "string \<Rightarrow> tool_contract option" where
  "TOOL_CONTRACTS name =
     map_of
       [(''bash'', \<lparr>tk_kind = BashTool, tk_pathFields = [''workdir'']\<rparr>),
        (''read'', \<lparr>tk_kind = PathsTool, tk_pathFields = [''file_path'']\<rparr>),
        (''read_image'', \<lparr>tk_kind = PathsTool, tk_pathFields = [''file_path'']\<rparr>),
        (''edit'', \<lparr>tk_kind = PathsTool, tk_pathFields = [''file_path'']\<rparr>),
        (''write'', \<lparr>tk_kind = PathsTool, tk_pathFields = [''file_path'']\<rparr>),
        (''glob'', \<lparr>tk_kind = SearchTool, tk_pathFields = [''path'']\<rparr>),
        (''grep'', \<lparr>tk_kind = SearchTool, tk_pathFields = [''path'']\<rparr>),
        (''subagent'', \<lparr>tk_kind = DelegationTool, tk_pathFields = []\<rparr>),
        (''send_message'', \<lparr>tk_kind = DelegationTool, tk_pathFields = []\<rparr>),
        (''ws'', \<lparr>tk_kind = MaintenanceTool, tk_pathFields = [''path'']\<rparr>),
        (''pet_inquire'', \<lparr>tk_kind = InquiryTool, tk_pathFields = []\<rparr>)] name"

text \<open>The arguments of a call are a run-time value.\<close>

definition argument :: "json \<Rightarrow> string \<Rightarrow> json" where
  "argument args key =
     (case args of JObj kvs \<Rightarrow> (case map_of kvs (js key) of None \<Rightarrow> JUndefined | Some v \<Rightarrow> v) | _ \<Rightarrow> JUndefined)"

definition has_argument :: "json \<Rightarrow> string \<Rightarrow> bool" where
  "has_argument args key \<longleftrightarrow> (case args of JObj kvs \<Rightarrow> has kvs (js key) | _ \<Rightarrow> False)"

definition text_argument :: "json \<Rightarrow> string \<Rightarrow> jstr option" where
  "text_argument args key = (case argument args key of JStr t \<Rightarrow> Some t | _ \<Rightarrow> None)"

text \<open>A path field may hold one text or an array, of which the texts count.\<close>

definition path_entries :: "json \<Rightarrow> string \<Rightarrow> jstr list" where
  "path_entries args key =
     (case argument args key of
        JStr t \<Rightarrow> [t]
      | JArr xs \<Rightarrow> concat (map (\<lambda>x. case x of JStr t \<Rightarrow> [t] | _ \<Rightarrow> []) xs)
      | _ \<Rightarrow> [])"

fun first_text :: "json \<Rightarrow> string list \<Rightarrow> jstr option" where
  "first_text args [] = None"
| "first_text args (k # ks) = (case text_argument args k of Some t \<Rightarrow> Some t | None \<Rightarrow> first_text args ks)"

definition firstPathOf :: "json \<Rightarrow> jstr option" where
  "firstPathOf args =
     (case args of
        JStr t \<Rightarrow> Some t
      | _ \<Rightarrow> first_text args [''path'', ''filePath'', ''dir'', ''directory'', ''cwd'', ''root''])"

definition inquiry_ok :: "json \<Rightarrow> bool" where
  "inquiry_ok args =
     (case args of
        JObj kvs \<Rightarrow> length kvs = 3
          \<and> list_all (\<lambda>k. text_argument args k \<noteq> None) [''target'', ''question'', ''purpose'']
      | _ \<Rightarrow> False)"

definition suspicious :: "json \<Rightarrow> bool" where
  "suspicious args \<longleftrightarrow> list_ex (has_argument args)
     [''path'', ''file_path'', ''filePath'', ''cwd'', ''workdir'', ''command'', ''root'', ''directory'', ''target'']"

fun check_entries :: "jstr \<Rightarrow> jstr list \<Rightarrow> ws_denial option" where
  "check_entries managedRoot [] = None"
| "check_entries managedRoot (e # es) =
     (if \<not> isAbsolute e then Some DeniedRelative
      else if \<not> doesNotEscape managedRoot (normalize e) then Some DeniedOutside
      else check_entries managedRoot es)"

text \<open>\<open>None\<close> lets the call go on.\<close>

definition checkTool :: "string \<Rightarrow> json \<Rightarrow> ws_operation \<Rightarrow> bool \<Rightarrow> string list \<Rightarrow> ws_denial option" where
  "checkTool name args op validationFailed continuable =
     (case wo_binding op of
        None \<Rightarrow> None
      | Some b \<Rightarrow>
          if sb_state b = BindingCleaned then Some DeniedCleaned
          else if validationFailed then Some DeniedValidation
          else (case TOOL_CONTRACTS name of
            None \<Rightarrow>
              if take 8 name = ''subagent'' \<or> name = ''ralph'' \<or> name = ''workflow'' then Some DeniedDelegation
              else if suspicious args then Some DeniedUnaudited else None
          | Some contract \<Rightarrow>
              (let managedRoot = normalize (wo_worktreePath op) in
               case tk_kind contract of
                 InquiryTool \<Rightarrow> if inquiry_ok args then None else Some DeniedContract
               | DelegationTool \<Rightarrow>
                   if name = ''send_message'' then None
                   else if name \<notin> set continuable then Some DeniedDelegation else None
               | MaintenanceTool \<Rightarrow> None
               | BashTool \<Rightarrow>
                   (case text_argument args ''workdir'' of
                      None \<Rightarrow> Some DeniedNoRoot
                    | Some workdir \<Rightarrow>
                        if workdir = [] then Some DeniedNoRoot else check_entries managedRoot [workdir])
               | SearchTool \<Rightarrow>
                   (case firstPathOf args of None \<Rightarrow> Some DeniedNoRoot | Some path \<Rightarrow> check_entries managedRoot [path])
               | PathsTool \<Rightarrow> check_entries managedRoot (concat (map (path_entries args) (tk_pathFields contract))))))"

definition auditedPaths :: "string \<Rightarrow> json \<Rightarrow> jstr list" where
  "auditedPaths name args =
     (case TOOL_CONTRACTS name of
        None \<Rightarrow> []
      | Some contract \<Rightarrow>
          if tk_kind contract = DelegationTool \<or> tk_kind contract = MaintenanceTool then []
          else concat (map (path_entries args) (tk_pathFields contract)))"

fun confine_all :: "realpaths \<Rightarrow> jstr \<Rightarrow> jstr list \<Rightarrow> ws_error + ws_denial option" where
  "confine_all real base [] = Inr None"
| "confine_all real base (e # es) =
     (case confinePath real base e True of
        Inl err \<Rightarrow> Inl err
      | Inr (Inl d) \<Rightarrow> Inr (Some d)
      | Inr (Inr _) \<Rightarrow> confine_all real base es)"

text \<open>An error on the left ends the call as well.\<close>

definition physicalDecision :: "realpaths \<Rightarrow> string \<Rightarrow> json \<Rightarrow> ws_operation \<Rightarrow> ws_error + ws_denial option" where
  "physicalDecision real name args op =
     (if map_option sb_state (wo_binding op) = Some BindingCleaned then Inr None
      else (case TOOL_CONTRACTS name of
              None \<Rightarrow> Inr None
            | Some contract \<Rightarrow>
                if tk_kind contract = DelegationTool then Inr None
                else confine_all real (wo_worktreePath op) (auditedPaths name args)))"

subsection \<open>Recovery of a binding\<close>

record recovered_binding =
  rb_operation :: ws_operation
  rb_valid :: bool
  rb_worktreeGone :: bool

text \<open>
  What the file system and git answer to the proof of identity of the managed worktree is a parameter. A record of
  another schema holds no source-session binding; one that is no JSON is skipped.
\<close>

fun recover_scan :: "realpaths \<Rightarrow> (ws_operation \<Rightarrow> bool) \<Rightarrow> (jstr \<times> ws_file) list \<Rightarrow> jstr list \<Rightarrow> jstr \<Rightarrow> jstr
    \<Rightarrow> recovered_binding option" where
  "recover_scan real identity files [] repoRoot sourceSessionId = None"
| "recover_scan real identity files (name # names) repoRoot sourceSessionId =
     (case map_of files name of
        Some (OperationFile op) \<Rightarrow>
          (case wo_binding op of
             None \<Rightarrow> recover_scan real identity files names repoRoot sourceSessionId
           | Some b \<Rightarrow>
               if sb_sourceSessionId b \<noteq> sourceSessionId \<or> sb_state b = BindingReleased
               then recover_scan real identity files names repoRoot sourceSessionId
               else if real (wo_repoRoot op) \<noteq> Inr repoRoot
               then Some \<lparr>rb_operation = op, rb_valid = False, rb_worktreeGone = False\<rparr>
               else if identity op then Some \<lparr>rb_operation = op, rb_valid = True, rb_worktreeGone = False\<rparr>
               else Some \<lparr>rb_operation = op, rb_valid = False,
                      rb_worktreeGone = (sb_state b = BindingCleaned \<or> sb_state b = BindingCleanedArchived)\<rparr>)
      | _ \<Rightarrow> recover_scan real identity files names repoRoot sourceSessionId)"

definition recoverBindingSync :: "realpaths \<Rightarrow> (jstr \<Rightarrow> jstr option) \<Rightarrow> (ws_operation \<Rightarrow> bool)
    \<Rightarrow> (jstr \<Rightarrow> (jstr \<times> ws_file) list) \<Rightarrow> jstr option \<Rightarrow> jstr \<Rightarrow> recovered_binding option" where
  "recoverBindingSync real commonDir identity files repoPath sourceSessionId =
     (case repoPath of
        None \<Rightarrow> None
      | Some path \<Rightarrow>
          (case real path of
             Inl _ \<Rightarrow> None
           | Inr repoRoot \<Rightarrow>
               (case commonDir repoRoot of
                  None \<Rightarrow> None
                | Some common \<Rightarrow>
                    recover_scan real identity (files common) (listOperationIds (files common)) repoRoot sourceSessionId)))"

subsection \<open>The policy of live agents\<close>

text \<open>
  An agent is named by its session. \<open>py_guards\<close> holds the operation and the failed validation that the guard of a
  live agent was installed with.
\<close>

record policy_state =
  py_survey :: "(jstr \<times> ws_operation) list"
  py_guards :: "jstr \<Rightarrow> (ws_operation \<times> bool) option"
  py_inherited :: "jstr list"

definition refreshAgent :: "jstr \<Rightarrow> ws_operation option \<Rightarrow> bool \<Rightarrow> policy_state \<Rightarrow> policy_state" where
  "refreshAgent agent operation validationFailed y =
     y\<lparr>py_guards := (py_guards y)(agent :=
       (case operation of
          None \<Rightarrow> None
        | Some op \<Rightarrow> if isCurrentBinding (wo_binding op) then Some (op, validationFailed) else None))\<rparr>"

definition rememberBind :: "bool \<Rightarrow> jstr \<Rightarrow> ws_operation option \<Rightarrow> bool \<Rightarrow> policy_state \<Rightarrow> policy_state" where
  "rememberBind live sessionId operation validationFailed y =
     (let current = (case operation of
            None \<Rightarrow> None
          | Some op \<Rightarrow> if map_option sb_state (wo_binding op) = Some BindingReleased then None else Some op)
      in if live \<and> sessionId \<in> set (py_inherited y) then y
         else
           (let y' = y\<lparr>py_survey := (case current of
                  None \<Rightarrow> AList.delete sessionId (py_survey y)
                | Some op \<Rightarrow> AList.update sessionId op (py_survey y))\<rparr>
            in if live then refreshAgent sessionId current validationFailed y' else y'))"

text \<open>A delegated child: \<open>None\<close> vetoes its creation.\<close>

definition inherit_policy :: "jstr \<Rightarrow> jstr option \<Rightarrow> policy_state \<Rightarrow> policy_state option" where
  "inherit_policy child parentSession y =
     (case parentSession of
        None \<Rightarrow> Some y
      | Some parentId \<Rightarrow>
          (case map_of (py_survey y) parentId of
             None \<Rightarrow> Some y
           | Some op \<Rightarrow>
               if map_option sb_sourceSessionId (wo_binding op) \<noteq> Some parentId then None
               else (let y' = refreshAgent child (Some op) False y in Some (y'\<lparr>py_inherited := child # py_inherited y'\<rparr>))))"

definition dispose_inherited :: "jstr \<Rightarrow> policy_state \<Rightarrow> policy_state" where
  "dispose_inherited child y =
     (if child \<in> set (py_inherited y)
      then y\<lparr>py_inherited := removeAll child (py_inherited y), py_guards := (py_guards y)(child := None)\<rparr> else y)"

definition activeBoundSessionIds :: "(jstr \<Rightarrow> bool) \<Rightarrow> policy_state \<Rightarrow> jstr list" where
  "activeBoundSessionIds live y =
     map fst (filter (\<lambda>(k, op). map_option sb_state (wo_binding op) = Some BindingBound \<and> live k) (py_survey y))"

text \<open>
  An agent that appears: what is installed at once, and whether the record is released in the background. The
  reconciliation with the archive, which runs later, ends with \<open>record_reconciled\<close>.
\<close>

definition recoverAgent :: "recovered_binding option \<Rightarrow> jstr \<Rightarrow> policy_state \<Rightarrow> policy_state \<times> bool" where
  "recoverAgent recovered sessionId y =
     (case recovered of
        None \<Rightarrow> (y, False)
      | Some r \<Rightarrow>
          if rb_worktreeGone r then (rememberBind True sessionId None False y, True)
          else if (case wo_binding (rb_operation r) of
                     None \<Rightarrow> False | Some b \<Rightarrow> sb_state b = BindingCleaned \<and> \<not> sb_archiveLifecycle b)
          then (y, False)
          else (rememberBind True sessionId (Some (rb_operation r)) (\<not> rb_valid r) y, False))"

text \<open>\<^verbatim>\<open>reconcileOne\<close> behind the queue: an error of it is logged and leaves the policy as it is.\<close>

definition reconcileOne :: "'w ws_world \<Rightarrow> bool \<Rightarrow> jstr option \<Rightarrow> jstr \<Rightarrow> bool \<Rightarrow> archive_mode \<Rightarrow> policy_state
    \<Rightarrow> 'w ws_state \<Rightarrow> policy_state \<times> 'w ws_state" where
  "reconcileOne p live repoPath sourceSessionId archived mode y s =
     (case repoPath of
        None \<Rightarrow> (y, s)
      | Some path \<Rightarrow>
          (case (eff_bind (discoverRepo p path) (\<lambda>repo.
             eff_bind (reconcileSourceArchiveLifecycle p (rf_gitCommonDir repo) sourceSessionId archived mode) (\<lambda>_.
               findBySourceSession (rf_gitCommonDir repo) sourceSessionId))) s of
             (Inl _, t) \<Rightarrow> (y, t)
           | (Inr operation, t) \<Rightarrow> (rememberBind live sourceSessionId operation False y, t)))"

end
