(* ===== verification/WsTheorems.thy ===== *)
theory WsTheorems
  imports WsSteps WsGuard
begin

text \<open>
  Worktree sessions, a small world, and the properties of the records: what no run takes back, that a session owns
  one operation as long as none of its operations is released, and what a released one hides.
\<close>

subsection \<open>A small world\<close>

definition demo_process :: process_result where
  "demo_process = \<lparr>pr_code = 0, pr_stdout = [], pr_stderr = [], pr_timedOut = False\<rparr>"

text \<open>Every call returns, every write is kept, nothing exists.\<close>

definition demo_world :: "unit ws_world" where
  "demo_world =
     \<lparr>wp_run = (\<lambda>_ _ _ w. (Inr demo_process, w)), wp_save = (\<lambda>_ w. ((True, None), w)), wp_now = (\<lambda>w. ([], w)),
      wp_lock = (\<lambda>_ w. (Inr (), w)), wp_unlock = (\<lambda>_ w. (Inr (), w)), wp_isDirectory = (\<lambda>_ _. Inr False),
      wp_pathExists = (\<lambda>_ _. Inr False), wp_realpath = (\<lambda>t _. Inr t), wp_readText = (\<lambda>_ _. Inr None),
      wp_sha256 = id, wp_exclude = (\<lambda>_ w. (Inr (), w)), wp_fingerprint = (\<lambda>_ _ w. (Inr [], w)),
      wp_cacheHealthy = (\<lambda>_ _ w. (Inr True, w)), wp_leanLinkMatches = (\<lambda>_ _ _. Inr True),
      wp_preparePnpm = (\<lambda>_ w. (Inr [], w)), wp_prepareCache = (\<lambda>_ _ w. (Inr ([], []), w)),
      wp_ensureLeanLink = (\<lambda>_ _ w. (Inr (), w)), wp_promote = (\<lambda>_ w. (Inr (), w)),
      wp_environment = (\<lambda>_ _ _ _ w. (Inr [], w)), wp_previewLock = (\<lambda>_ w. (Inr (), w)),
      wp_previewUnlock = (\<lambda>_ w. (Inr (), w)), wp_ensureHome = (\<lambda>_ w. (Inr (), w)), wp_removeHome = (\<lambda>_ w. (Inr [], w)),
      wp_hookDeclared = (\<lambda>_ _. Inr False),
      wp_hook = (\<lambda>_ _ w. (Inr \<lparr>pv_status = PreviewOk, pv_exitCode = Some 0, pv_outputTail = [], pv_at = []\<rparr>, w))\<rparr>"

definition demo_git :: jstr where "demo_git = js ''/r/.git''"

definition demo_binding :: "binding_state \<Rightarrow> source_binding" where
  "demo_binding state = \<lparr>sb_sourceSessionId = js ''s'', sb_state = state, sb_updatedAt = [], sb_archiveLifecycle = True\<rparr>"

definition demo_operation :: "string \<Rightarrow> ws_phase \<Rightarrow> source_binding option \<Rightarrow> ws_operation" where
  "demo_operation k phase binding =
     \<lparr>wo_operationId = js k, wo_repoRoot = js ''/r'', wo_gitCommonDir = demo_git, wo_baseRef = js ''main'', wo_baseCommit = js ''1'',
      wo_taskBranch = js ''ws/t'', wo_worktreePath = js ''/r/.worktrees/t'', wo_taskHash = [], wo_dependencyMode = Lean,
      wo_packageManager = Some Npm, wo_lockFingerprint = Some [], wo_cacheNodeModules = Some [], wo_dshHome = js ''/h'',
      wo_phase = phase, wo_createdAt = [], wo_updatedAt = [], wo_preview = None, wo_diagnostics = None,
      wo_binding = binding\<rparr>"

definition demo_files :: "ws_operation list \<Rightarrow> ws_files" where
  "demo_files ops = (\<lambda>_. [])(demo_git := map (\<lambda>op. (wo_operationId op, OperationFile op)) ops)"

definition demo_state :: "ws_operation list \<Rightarrow> unit ws_state" where
  "demo_state ops = \<lparr>wst_files = demo_files ops, wst_calls = [], wst_world = ()\<rparr>"

lemma demo_stored: "stored (demo_files ops) c k op \<Longrightarrow> c = demo_git \<and> op \<in> set ops \<and> k = wo_operationId op"
  by (auto simp: stored_def demo_files_def dest: map_of_SomeD split: if_splits)

lemma demo_files_ok:
  assumes "\<And>op. op \<in> set ops \<Longrightarrow> wo_gitCommonDir op = demo_git \<and> lifecycle_ok op"
    and "\<And>sid op op'. op \<in> set ops \<Longrightarrow> op' \<in> set ops \<Longrightarrow> of_session sid op \<Longrightarrow> of_session sid op' \<Longrightarrow> op = op'"
  shows "ws_ok (demo_files ops)"
  using assms unfolding ws_ok_def records_ok_def one_owner_def by (metis demo_stored)

subsection \<open>Records\<close>

text \<open>
  C31: Whatever operations run, in whatever order, and whichever calls of git, of the file system or of other
  processes fail, a record of an operation never disappears; its repository, base, branch, worktree and task
  never change; its session, once bound, stays; and its binding only moves forward from bound over cleaned and
  archived to released. A record says that it is cleaned exactly when its binding is no longer bound.
\<close>

theorem records_only_move_forward:
  assumes "ws_ok (wst_files s)" and "reaches p s t" and "stored (wst_files s) c k op"
  shows "\<exists>op'. stored (wst_files t) c k op' \<and> same_identity op op'
    \<and> (case (wo_binding op, wo_binding op') of
         (None, _) \<Rightarrow> True
       | (Some b, None) \<Rightarrow> False
       | (Some b, Some b') \<Rightarrow> sb_sourceSessionId b' = sb_sourceSessionId b \<and> binding_rank (sb_state b) \<le> binding_rank (sb_state b'))
    \<and> (wo_phase op' = Cleaned) = (\<exists>b'. wo_binding op' = Some b' \<and> sb_state b' \<noteq> BindingBound)"
proof -
  have t: "ws_ok (wst_files t)" "files_le (wst_files s) (wst_files t)" using worktrees.run_le [OF assms(2,1)] by auto
  obtain op' where op': "stored (wst_files t) c k op'" "operation_le op op'"
    using t(2) assms(3) unfolding files_le_def by blast
  have "lifecycle_ok op'" using t(1) op'(1) by (auto simp: ws_ok_def records_ok_def)
  then show ?thesis using op' by (auto simp: operation_le_def lifecycle_ok_def split: option.split intro!: exI [of _ op'])
qed

theorem records_only_move_forward_witness:
  "\<exists>s t c k op. ws_ok (wst_files s) \<and> reaches demo_world s t \<and> stored (wst_files s) c k op
     \<and> (\<exists>op'. stored (wst_files t) c k op' \<and> same_identity op op')"
proof -
  let ?op = "demo_operation ''aaaaaaaa'' Prepared None"
  have ok: "ws_ok (wst_files (demo_state [?op]))"
    unfolding demo_state_def by (simp, rule demo_files_ok) (auto simp: demo_operation_def lifecycle_ok_def)
  have st: "stored (wst_files (demo_state [?op])) demo_git (wo_operationId ?op) ?op"
    by (simp add: stored_def demo_state_def demo_files_def)
  show ?thesis
    using records_only_move_forward [OF ok rtranclp.rtrancl_refl st] ok st by blast
qed

subsection \<open>Sessions\<close>

lemma history_scan_first:
  assumes "\<forall>j \<in> set pre. \<exists>o'. stored (wst_files s) c j o' \<and> \<not> of_session sid o'"
    and "stored (wst_files s) c k op" and "of_session sid op"
  shows "history_scan c (pre @ k # post) sid s = (Inr (Some op), s)"
  using assms(1)
proof (induction pre)
  case Nil
  have "loadOperation c k s = (Inr (Some op), s)" using assms(2) by (simp add: loadOperation_Some)
  then show ?case using assms(3) by (auto simp: of_session_def)
next
  case (Cons j pre)
  then obtain o' where o': "stored (wst_files s) c j o'" "\<not> of_session sid o'" by auto
  have "loadOperation c j s = (Inr (Some o'), s)" using o'(1) by (simp add: loadOperation_Some)
  then show ?case using o'(2) Cons by (auto simp: of_session_def split: option.split)
qed

lemma find_first:
  assumes "listOperationIds (wst_files s c) = pre @ k # post"
    and "\<forall>j \<in> set pre. \<exists>o'. stored (wst_files s) c j o' \<and> \<not> of_session sid o'"
    and "stored (wst_files s) c k op" and "of_session sid op"
  shows "findBySourceSession c sid s = (Inr (if released_for sid op then None else Some op), s)"
proof -
  have h: "findHistoryBySourceSession c sid s = (Inr (Some op), s)"
    unfolding findHistoryBySourceSession_def using history_scan_first [OF assms(2-4)] assms(1) by (simp add: eff_bind_def)
  show ?thesis
    unfolding findBySourceSession_def
    using h assms(4) by (auto simp: of_session_def released_for_def isCurrentBinding_def)
qed

text \<open>
  C34: As long as no operation of a session has been released, the session owns at most one operation of a
  repository, whatever ran before on sound records. When every file of the repository can be read as a record, the
  lookup of the session finds that operation; a file that cannot be read may stop the lookup, but it does not let the
  session own a second one.
\<close>

theorem a_session_owns_one_operation:
  assumes "ws_ok (wst_files s)" and "reaches p s t"
    and "stored (wst_files t) c k op" and "of_session sid op"
    and "\<not> (\<exists>k' op'. stored (wst_files t) c k' op' \<and> released_for sid op')"
  shows "(\<forall>k' op'. stored (wst_files t) c k' op' \<and> of_session sid op' \<longrightarrow> k' = k \<and> op' = op)
    \<and> (list_all (\<lambda>(k', f). \<exists>op'. f = OperationFile op') (wst_files t c)
        \<longrightarrow> findBySourceSession c sid t = (Inr (Some op), t))"
proof -
  have ok: "one_owner (wst_files t)" using worktrees.run_le [OF assms(2,1)] by (simp add: ws_ok_def)
  have nh: "no_history (wst_files t) c sid" using assms(5) by (auto simp: no_history_def)
  have one: "k' = k \<and> op' = op" if "stored (wst_files t) c k' op'" "of_session sid op'" for k' op'
    using ok nh that assms(3,4) unfolding one_owner_def by (metis stored_def option.inject ws_file.inject)
  have lookup: "findBySourceSession c sid t = (Inr (Some op), t)"
    if readable: "list_all (\<lambda>(k', f). \<exists>op'. f = OperationFile op') (wst_files t c)"
  proof -
    obtain pre post where ids: "listOperationIds (wst_files t c) = pre @ k # post" "k \<notin> set pre"
      using stored_key [OF assms(3)] in_ids [of k "wst_files t" c] by (meson split_list_first)
    have "\<exists>o'. stored (wst_files t) c j o' \<and> \<not> of_session sid o'" if j: "j \<in> set pre" for j
    proof -
      have "j \<in> set (keys (wst_files t c))" using ids(1) j in_ids [of j "wst_files t" c] by simp
      then obtain f where f: "map_of (wst_files t c) j = Some f" by (metis has_iff_keys has_map_of)
      have "\<exists>op'. f = OperationFile op'" using map_of_SomeD [OF f] readable by (auto simp: list_all_iff)
      then obtain o' where "stored (wst_files t) c j o'" using f by (auto simp: stored_def)
      then show ?thesis using one j ids(2) by blast
    qed
    then have "findBySourceSession c sid t = (Inr (if released_for sid op then None else Some op), t)"
      by (intro find_first [OF ids(1) _ assms(3,4)]) blast
    moreover have "\<not> released_for sid op" using assms(3,5) by blast
    ultimately show ?thesis by simp
  qed
  then show ?thesis using one by blast
qed

theorem a_session_owns_one_operation_witness:
  "findBySourceSession demo_git (js ''s'') (demo_state [demo_operation ''aaaaaaaa'' Prepared (Some (demo_binding BindingBound))])
     = (Inr (Some (demo_operation ''aaaaaaaa'' Prepared (Some (demo_binding BindingBound)))),
        demo_state [demo_operation ''aaaaaaaa'' Prepared (Some (demo_binding BindingBound))])"
proof -
  let ?op = "demo_operation ''aaaaaaaa'' Prepared (Some (demo_binding BindingBound))"
  have ok: "ws_ok (wst_files (demo_state [?op]))"
    unfolding demo_state_def by (simp, rule demo_files_ok) (auto simp: demo_operation_def demo_binding_def lifecycle_ok_def)
  have st: "stored (wst_files (demo_state [?op])) demo_git (wo_operationId ?op) ?op"
    by (simp add: stored_def demo_state_def demo_files_def)
  have own: "of_session (js ''s'') ?op" by (simp add: of_session_def demo_operation_def demo_binding_def)
  have rel: "\<not> (\<exists>k' op'. stored (wst_files (demo_state [?op])) demo_git k' op' \<and> released_for (js ''s'') op')"
    by (auto simp: demo_state_def released_for_def demo_operation_def demo_binding_def dest!: demo_stored)
  have readable: "list_all (\<lambda>(k', f). \<exists>op'. f = OperationFile op') (wst_files (demo_state [?op]) demo_git)"
    by (simp add: demo_state_def demo_files_def)
  show ?thesis
    using a_session_owns_one_operation [OF ok rtranclp.rtrancl_refl [of "ws_step demo_world"] st own rel] readable by blast
qed

definition demo_repo :: repo_facts where
  "demo_repo = \<lparr>rf_repoRoot = js ''/r'', rf_gitCommonDir = demo_git, rf_currentBranch = None, rf_currentCommit = []\<rparr>"

definition demo_before :: "unit ws_state" where
  "demo_before = demo_state [demo_operation ''aaaaaaaa'' Cleaned (Some (demo_binding BindingCleanedArchived)),
     demo_operation ''bbbbbbbb'' Prepared None]"

definition demo_released :: "unit ws_state" where
  "demo_released = snd (reconcile_locked demo_world demo_git (js ''s'') False UnarchiveObserved demo_before)"

definition demo_rebound :: "unit ws_state" where
  "demo_rebound = snd (bind_locked demo_world
     \<lparr>bq_operationId = js ''bbbbbbbb'', bq_repoPath = js ''/r'', bq_sourceSessionId = js ''s''\<rparr> demo_repo demo_released)"

lemmas demo_defs = demo_state_def demo_operation_def demo_binding_def demo_git_def demo_repo_def demo_world_def

lemma demo_released_files:
  "wst_files demo_released demo_git
    = [(js ''aaaaaaaa'', OperationFile (demo_operation ''aaaaaaaa'' Cleaned (Some (demo_binding BindingReleased)))),
       (js ''bbbbbbbb'', OperationFile (demo_operation ''bbbbbbbb'' Prepared None))]"
  by code_simp

lemma demo_rebound_files:
  "wst_files demo_rebound demo_git
    = [(js ''aaaaaaaa'', OperationFile (demo_operation ''aaaaaaaa'' Cleaned (Some (demo_binding BindingReleased)))),
       (js ''bbbbbbbb'', OperationFile (demo_operation ''bbbbbbbb'' Prepared
          (Some ((demo_binding BindingBound)\<lparr>sb_archiveLifecycle := False\<rparr>))))]"
  by code_simp

text \<open>
  C36: The lookup of a session stops at its first record, released or not. So a session whose cleaned worktree was
  released after its archive was undone, and which is then bound to another prepared operation with a later name,
  is looked up as unbound although that operation is bound to it; the recovery of an agent, which skips released
  records, finds the binding that the lookup denies.
\<close>

theorem released_history_hides_a_binding:
  "ws_ok (wst_files demo_before) \<and> reaches demo_world demo_before demo_rebound
   \<and> (\<exists>op b. stored (wst_files demo_rebound) demo_git (js ''bbbbbbbb'') op \<and> wo_phase op = Prepared
        \<and> wo_binding op = Some b \<and> sb_sourceSessionId b = js ''s'' \<and> sb_state b = BindingBound
        \<and> recoverBindingSync Inr (\<lambda>_. Some demo_git) (\<lambda>_. True) (wst_files demo_rebound) (Some (js ''/r'')) (js ''s'')
            = Some \<lparr>rb_operation = op, rb_valid = True, rb_worktreeGone = False\<rparr>)
   \<and> fst (findBySourceSession demo_git (js ''s'') demo_rebound) = Inr None"
proof (intro conjI)
  show "ws_ok (wst_files demo_before)"
    unfolding demo_before_def demo_state_def
    by (simp, rule demo_files_ok) (auto simp: demo_operation_def demo_binding_def lifecycle_ok_def of_session_def)
  have "ws_step demo_world demo_before demo_released" "ws_step demo_world demo_released demo_rebound"
    unfolding demo_released_def demo_rebound_def
    by (rule step_reconcile [OF prod.collapse [symmetric]], rule step_bind [OF prod.collapse [symmetric]])
  then show "reaches demo_world demo_before demo_rebound" by auto
  let ?b = "(demo_binding BindingBound)\<lparr>sb_archiveLifecycle := False\<rparr>"
  show "\<exists>op b. stored (wst_files demo_rebound) demo_git (js ''bbbbbbbb'') op \<and> wo_phase op = Prepared
        \<and> wo_binding op = Some b \<and> sb_sourceSessionId b = js ''s'' \<and> sb_state b = BindingBound
        \<and> recoverBindingSync Inr (\<lambda>_. Some demo_git) (\<lambda>_. True) (wst_files demo_rebound) (Some (js ''/r'')) (js ''s'')
            = Some \<lparr>rb_operation = op, rb_valid = True, rb_worktreeGone = False\<rparr>"
  proof (rule exI [of _ "demo_operation ''bbbbbbbb'' Prepared (Some ?b)"], rule exI [of _ ?b], intro conjI)
    show "stored (wst_files demo_rebound) demo_git (js ''bbbbbbbb'') (demo_operation ''bbbbbbbb'' Prepared (Some ?b))"
      unfolding stored_def demo_rebound_files by code_simp
    show "recoverBindingSync Inr (\<lambda>_. Some demo_git) (\<lambda>_. True) (wst_files demo_rebound) (Some (js ''/r'')) (js ''s'')
        = Some \<lparr>rb_operation = demo_operation ''bbbbbbbb'' Prepared (Some ?b), rb_valid = True, rb_worktreeGone = False\<rparr>"
      by code_simp
  qed (simp_all add: demo_operation_def demo_binding_def)
  show "fst (findBySourceSession demo_git (js ''s'') demo_rebound) = Inr None" by code_simp
qed

end
