(* ===== verification/WsCalls.thy ===== *)
theory WsCalls
  imports WsTheorems
begin

text \<open>
  Worktree sessions, the commands that are issued: which operations issue none that destroys a worktree or a
  branch, and what cleaning has seen before it issues one.
\<close>

subsection \<open>Harmless operations\<close>

definition destructive :: "process_call \<Rightarrow> bool" where
  "destructive c \<longleftrightarrow> take 2 (pc_args c) = [js ''worktree'', js ''remove'']
     \<or> take 2 (pc_args c) = [js ''branch'', js ''-d''] \<or> take 2 (pc_args c) = [js ''branch'', js ''-D'']"

definition issues :: "(process_call \<Rightarrow> bool) \<Rightarrow> ('w ws_state, 'e, 'a) eff \<Rightarrow> bool" where
  "issues Q m \<longleftrightarrow> (\<forall>s r t. m s = (r, t) \<longrightarrow> (\<exists>new. wst_calls t = wst_calls s @ new \<and> (\<forall>c \<in> set new. Q c)))"

abbreviation harmless :: "('w ws_state, 'e, 'a) eff \<Rightarrow> bool" where
  "harmless \<equiv> issues (\<lambda>c. \<not> destructive c)"

named_theorems ws_harmless "operations that destroy nothing"

lemma issuesI:
  "(\<And>s r t. m s = (r, t) \<Longrightarrow> \<exists>new. wst_calls t = wst_calls s @ new \<and> (\<forall>c \<in> set new. Q c)) \<Longrightarrow> issues Q m"
  by (simp add: issues_def)

lemma issuesD:
  "issues Q m \<Longrightarrow> m s = (r, t) \<Longrightarrow> \<exists>new. wst_calls t = wst_calls s @ new \<and> (\<forall>c \<in> set new. Q c)"
  by (simp add: issues_def)

lemma issues_same: "(\<And>s r t. m s = (r, t) \<Longrightarrow> wst_calls t = wst_calls s) \<Longrightarrow> issues Q m"
  by (rule issuesI) auto

lemma issues_pure [ws_harmless]:
  "issues Q (eff_return x)" "issues Q (eff_throw e)" "issues Q (eff_read f)" "issues Q (eff_ask a)"
  "issues Q (eff_when b e)" "issues Q (Pair r)"
  by (rule issues_same, auto simp: eff_when_def split: if_splits)+

lemma issues_world [ws_harmless]:
  "issues Q (world_call f)" "issues Q (world_ask g)" "issues Q (world_now p)" "issues Q (world_answer h)"
  by (rule issues_same, auto simp: world_call_def world_ask_def world_now_def world_answer_def split: prod.splits)+

lemma issues_bind [ws_harmless]:
  assumes "issues Q m" and "\<And>x. issues Q (f x)"
  shows "issues Q (eff_bind m f)"
proof (rule issuesI)
  fix s r t
  assume run: "eff_bind m f s = (r, t)"
  obtain r1 u where m: "m s = (r1, u)" by fastforce
  obtain new where new: "wst_calls u = wst_calls s @ new" "\<forall>c \<in> set new. Q c"
    using issuesD [OF assms(1) m] by blast
  show "\<exists>new. wst_calls t = wst_calls s @ new \<and> (\<forall>c \<in> set new. Q c)"
  proof (cases r1)
    case (Inl e)
    then have "t = u" using run m by simp
    then show ?thesis using new by blast
  next
    case (Inr x)
    then have "f x u = (r, t)" using run m by simp
    then obtain new' where "wst_calls t = wst_calls u @ new'" "\<forall>c \<in> set new'. Q c"
      using issuesD [OF assms(2)] by blast
    then show ?thesis using new by (intro exI [of _ "new @ new'"]) auto
  qed
qed

lemma issues_catch [ws_harmless]:
  assumes "issues Q m" and "\<And>e. issues Q (h e)"
  shows "issues Q (eff_catch m h)"
proof (rule issuesI)
  fix s r t
  assume run: "eff_catch m h s = (r, t)"
  obtain r1 u where m: "m s = (r1, u)" by fastforce
  obtain new where new: "wst_calls u = wst_calls s @ new" "\<forall>c \<in> set new. Q c"
    using issuesD [OF assms(1) m] by blast
  show "\<exists>new. wst_calls t = wst_calls s @ new \<and> (\<forall>c \<in> set new. Q c)"
  proof (cases r1)
    case (Inr x)
    then have "t = u" using run m by simp
    then show ?thesis using new by blast
  next
    case (Inl e)
    then have "h e u = (r, t)" using run m by simp
    then obtain new' where "wst_calls t = wst_calls u @ new'" "\<forall>c \<in> set new'. Q c"
      using issuesD [OF assms(2)] by blast
    then show ?thesis using new by (intro exI [of _ "new @ new'"]) auto
  qed
qed

lemma issues_if [ws_harmless]: "issues Q m \<Longrightarrow> issues Q n \<Longrightarrow> issues Q (if b then m else n)"
  by simp

lemma issues_option [ws_harmless]:
  "issues Q m \<Longrightarrow> (\<And>x. issues Q (f x)) \<Longrightarrow> issues Q (case o' of None \<Rightarrow> m | Some x \<Rightarrow> f x)"
  by (cases o') simp_all

lemma issues_settled [ws_harmless]: "issues Q m \<Longrightarrow> issues Q (settled m)"
  unfolding issues_def settled_def by (auto split: prod.splits)

lemma run_process_calls:
  "run_process p file args cwd s = (r, t) \<Longrightarrow>
     wst_calls t = wst_calls s @ [\<lparr>pc_file = file, pc_args = args, pc_cwd = cwd, pc_answer = r\<rparr>]"
  by (auto simp: run_process_def split: prod.splits)

lemma issues_run: "(\<And>r. Q \<lparr>pc_file = file, pc_args = args, pc_cwd = cwd, pc_answer = r\<rparr>) \<Longrightarrow> issues Q (run_process p file args cwd)"
  by (rule issuesI) (auto dest: run_process_calls)

lemma issues_git:
  assumes "\<And>r. Q \<lparr>pc_file = js ''git'', pc_args = args, pc_cwd = cwd, pc_answer = r\<rparr>"
  shows "issues Q (gitRun p cwd args)" and "issues Q (gitMaybe p cwd args)"
  unfolding gitRun_def checkedProcess_def gitMaybe_def by (intro ws_harmless issues_run assms)+

lemma js_eq [simp]: "js a = js b \<longleftrightarrow> a = b"
  unfolding js_def by (metis inj_map_eq_map inj_onI of_char_eq_iff)

lemma harmless_queries [ws_harmless]:
  "harmless (discoverRepo p path)" "harmless (listWorktrees p root)" "harmless (worktreeStatus p path)"
  unfolding discoverRepo_def listWorktrees_def worktreeStatus_def
  by (intro ws_harmless issues_git; simp add: destructive_def)+

lemma harmless_load [ws_harmless]: "harmless (loadOperation c k)"
  unfolding loadOperation_def by (rule ws_harmless)

lemma harmless_scans [ws_harmless]: "harmless (history_scan c names sid)" "harmless (scan_worktree c names path)"
  by (induction names) (simp_all add: ws_harmless)

lemma harmless_find [ws_harmless]: "harmless (findBySourceSession c sid)" "harmless (resolveOperation p path)"
  unfolding findBySourceSession_def findHistoryBySourceSession_def resolveOperation_def by (intro ws_harmless)+

lemma harmless_resolve [ws_harmless]: "harmless (resolveMaintenanceTarget p target)"
  unfolding resolveMaintenanceTarget_def by (cases target; simp; intro ws_harmless)

lemma harmless_prove [ws_harmless]: "harmless (prove_merged p op)"
  unfolding prove_merged_def Let_def
  by (intro ws_harmless issues_git issues_run; simp add: destructive_def)

subsection \<open>What cleaning has seen\<close>

definition answered :: "process_call list \<Rightarrow> jstr \<Rightarrow> jstr list \<Rightarrow> process_result \<Rightarrow> bool" where
  "answered calls cwd args r \<longleftrightarrow> \<lparr>pc_file = js ''git'', pc_args = args, pc_cwd = cwd, pc_answer = Inr r\<rparr> \<in> set calls"

text \<open>The commit that a reference was resolved to, and the two proofs that the task branch has landed.\<close>

definition tip :: "process_call list \<Rightarrow> ws_operation \<Rightarrow> jstr \<Rightarrow> jstr \<Rightarrow> bool" where
  "tip calls op ref commit \<longleftrightarrow>
     (\<exists>r. answered calls (wo_repoRoot op) [js ''rev-parse'', js ''--verify'', ref @ js ''^{commit}''] r
        \<and> pr_code r = 0 \<and> trim (pr_stdout r) = commit)"

definition is_ancestor :: "process_call list \<Rightarrow> ws_operation \<Rightarrow> jstr \<Rightarrow> jstr \<Rightarrow> bool" where
  "is_ancestor calls op a b \<longleftrightarrow>
     (\<exists>r. answered calls (wo_repoRoot op) [js ''merge-base'', js ''--is-ancestor'', a, b] r \<and> pr_code r = 0)"

definition landed :: "merge_proof \<Rightarrow> ws_operation \<Rightarrow> process_call list \<Rightarrow> bool" where
  "landed how op calls \<longleftrightarrow>
     (\<exists>base head. tip calls op (wo_baseRef op) base \<and> tip calls op (wo_taskBranch op) head
        \<and> is_ancestor calls op (wo_baseCommit op) head
        \<and> (case how of
             Ancestor \<Rightarrow> is_ancestor calls op head base
           | PatchEquivalent \<Rightarrow>
               (\<exists>r. answered calls (wo_repoRoot op) [js ''cherry'', wo_baseRef op, wo_taskBranch op] r \<and> pr_code r = 0
                  \<and> list_all (text_starts [45]) (cherry_lines (pr_stdout r)))))"

definition seen_clean :: "jstr \<Rightarrow> process_call list \<Rightarrow> bool" where
  "seen_clean target calls \<longleftrightarrow>
     (\<exists>r. answered calls target [js ''status'', js ''--porcelain=v1'', js ''--untracked-files=all''] r
        \<and> pr_code r = 0 \<and> trim (pr_stdout r) = [])"

lemma run_process_ok:
  "run_process p file args cwd s = (Inr r, t) \<Longrightarrow>
     wst_calls t = wst_calls s @ [\<lparr>pc_file = file, pc_args = args, pc_cwd = cwd, pc_answer = Inr r\<rparr>]"
  by (rule run_process_calls)

lemma gitRun_ok:
  "gitRun p cwd args s = (Inr out, t) \<Longrightarrow>
     \<exists>r. wst_calls t = wst_calls s @ [\<lparr>pc_file = js ''git'', pc_args = args, pc_cwd = cwd, pc_answer = Inr r\<rparr>]
       \<and> pr_code r = 0 \<and> pr_stdout r = out"
  unfolding gitRun_def checkedProcess_def
  by (auto simp: eff_bind_ok split: if_splits dest!: run_process_ok)

lemma prove_merged_spec:
  assumes "prove_merged p op s = (Inr how, t)"
  shows "\<exists>new. wst_calls t = wst_calls s @ new \<and> landed how op new"
proof -
  let ?root = "wo_repoRoot op" and ?rev = "\<lambda>ref. [js ''rev-parse'', js ''--verify'', ref @ js ''^{commit}'']"
  obtain baseTip s1 taskHead s2 hasProgress s3 ancestor s4 where
    base: "gitRun p ?root (?rev (wo_baseRef op)) s = (Inr baseTip, s1)" and
    head: "gitRun p ?root (?rev (wo_taskBranch op)) s1 = (Inr taskHead, s2)" and
    prog: "run_process p (js ''git'') [js ''merge-base'', js ''--is-ancestor'', wo_baseCommit op, trim taskHead] ?root s2
      = (Inr hasProgress, s3)" "pr_code hasProgress = 0" and
    anc: "run_process p (js ''git'') [js ''merge-base'', js ''--is-ancestor'', trim taskHead, trim baseTip] ?root s3 = (Inr ancestor, s4)"
    and fin: "(if pr_code ancestor = 0 then eff_return Ancestor
        else
          eff_bind (run_process p (js ''git'') [js ''cherry'', wo_baseRef op, wo_taskBranch op] ?root) (\<lambda>cherry.
          if pr_code cherry = 0 \<and> list_all (text_starts [45]) (cherry_lines (pr_stdout cherry))
          then eff_return PatchEquivalent else eff_throw cleanRefused)) s4 = (Inr how, t)"
    using assms unfolding prove_merged_def Let_def by (auto simp: eff_bind_ok [where t = t] split: if_splits)
  obtain rb where rb: "wst_calls s1 = wst_calls s @ [\<lparr>pc_file = js ''git'', pc_args = ?rev (wo_baseRef op), pc_cwd = ?root, pc_answer = Inr rb\<rparr>]"
    "pr_code rb = 0" "pr_stdout rb = baseTip" using gitRun_ok [OF base] by blast
  obtain rh where rh: "wst_calls s2 = wst_calls s1 @ [\<lparr>pc_file = js ''git'', pc_args = ?rev (wo_taskBranch op), pc_cwd = ?root, pc_answer = Inr rh\<rparr>]"
    "pr_code rh = 0" "pr_stdout rh = taskHead" using gitRun_ok [OF head] by blast
  note calls = rb(1) rh(1) run_process_ok [OF prog(1)] run_process_ok [OF anc]
  show ?thesis
  proof (cases "pr_code ancestor = 0")
    case True
    then have "t = s4" "how = Ancestor" using fin by simp_all
    then show ?thesis using calls rb rh prog(2) True by (auto simp: landed_def tip_def is_ancestor_def answered_def)
  next
    case False
    then obtain cherry where ch: "run_process p (js ''git'') [js ''cherry'', wo_baseRef op, wo_taskBranch op] ?root s4 = (Inr cherry, t)"
      "pr_code cherry = 0" "list_all (text_starts [45]) (cherry_lines (pr_stdout cherry))" "how = PatchEquivalent"
      using fin by (auto simp: eff_bind_ok split: if_splits)
    then show ?thesis
      using calls run_process_ok [OF ch(1)] rb rh prog(2) by (auto simp: landed_def tip_def is_ancestor_def answered_def)
  qed
qed

definition git_call :: "jstr \<Rightarrow> jstr list \<Rightarrow> ws_error + process_result \<Rightarrow> process_call" where
  "git_call cwd args answer = \<lparr>pc_file = js ''git'', pc_args = args, pc_cwd = cwd, pc_answer = answer\<rparr>"

lemma gitRun_call:
  assumes "gitRun p cwd args s = (r, t)"
  obtains a where "wst_calls t = wst_calls s @ [git_call cwd args a]"
    and "\<And>out. r = Inr out \<Longrightarrow> \<exists>q. a = Inr q \<and> pr_code q = 0"
proof -
  obtain a u where a: "run_process p (js ''git'') args cwd s = (a, u)" by fastforce
  have "t = u" using assms a by (cases a) (auto simp: gitRun_def checkedProcess_def split: if_splits)
  moreover have "\<exists>q. a = Inr q \<and> pr_code q = 0" if "r = Inr out" for out
    using assms a that by (cases a) (auto simp: gitRun_def checkedProcess_def split: if_splits)
  ultimately show thesis using that [of a] run_process_calls [OF a] by (simp add: git_call_def)
qed

text \<open>
  The calls that remove: the worktree, and after git has answered that with success, the branch; the sequence may
  stop after the first.
\<close>

definition removes_in_order :: "jstr \<Rightarrow> jstr \<Rightarrow> jstr \<Rightarrow> jstr \<Rightarrow> process_call list \<Rightarrow> bool" where
  "removes_in_order root target flag branch calls \<longleftrightarrow>
     (\<exists>a. calls = [git_call root [js ''worktree'', js ''remove'', target] a])
     \<or> (\<exists>q a. pr_code q = 0
          \<and> calls = [git_call root [js ''worktree'', js ''remove'', target] (Inr q), git_call root [js ''branch'', flag, branch] a])"

text \<open>What the calls of one cleaning may be: nothing destructive, or the removal of what was seen to be landed.\<close>

definition removal_calls :: "clean_options \<Rightarrow> ws_operation \<Rightarrow> merge_proof \<Rightarrow> process_call list \<Rightarrow> bool" where
  "removal_calls o' op how calls \<longleftrightarrow>
     calls = [] \<or> removes_in_order (wo_repoRoot op) (clean_target o' op) (delete_flag how) (wo_taskBranch op) calls"

definition removal_seen :: "ws_files \<Rightarrow> clean_options \<Rightarrow> process_call list \<Rightarrow> process_call list \<Rightarrow> bool" where
  "removal_seen F o' before after \<longleftrightarrow>
     (\<exists>c k op how. stored F c k op \<and> \<not> ko_dryRun o' \<and> clean_gates o' op
        \<and> (\<forall>x \<in> set before. \<not> destructive x) \<and> seen_clean (clean_target o' op) before \<and> landed how op before
        \<and> removal_calls o' op how after)"

abbreviation silent :: "('w ws_state, 'e, 'a) eff \<Rightarrow> bool" where
  "silent \<equiv> issues (\<lambda>_. False)"

lemma silentD: "silent m \<Longrightarrow> m s = (r, t) \<Longrightarrow> wst_calls t = wst_calls s"
  unfolding issues_def by fastforce

lemma silent_save: "silent (saveOperation p x)"
  unfolding saveOperation_def
  by (intro ws_harmless, rule issues_same)
    (auto simp: Let_def write_file_def split: prod.splits option.splits if_splits)

lemma silent_then:
  assumes "silent m" and "eff_bind m f s = (r, t)"
  shows "wst_calls t = wst_calls s \<or> (\<exists>x u. f x u = (r, t) \<and> wst_calls u = wst_calls s)"
proof -
  obtain r1 u where m: "m s = (r1, u)" by fastforce
  then have "wst_calls u = wst_calls s" by (rule silentD [OF assms(1)])
  then show ?thesis using assms(2) m by (cases r1) auto
qed

lemma branch_calls:
  assumes "eff_bind (gitRun p root args) f s = (r, t)" and "\<And>x. silent (f x)"
  shows "\<exists>a. wst_calls t = wst_calls s @ [git_call root args a]"
proof -
  obtain r1 u where m: "gitRun p root args s = (r1, u)" by fastforce
  obtain a where a: "wst_calls u = wst_calls s @ [git_call root args a]" by (rule gitRun_call [OF m])
  show ?thesis
  proof (cases r1)
    case (Inl e)
    then show ?thesis using a assms(1) m by auto
  next
    case (Inr x)
    then have "f x u = (r, t)" using assms(1) m by simp
    then show ?thesis using a silentD [OF assms(2)] by metis
  qed
qed

lemma remove_calls:
  assumes "remove_worktree p o' op b how declared s = (r, t)"
  shows "\<exists>after. wst_calls t = wst_calls s @ after \<and> removal_calls o' op how after"
proof -
  let ?root = "wo_repoRoot op" and ?rm = "[js ''worktree'', js ''remove'', clean_target o' op]"
  let ?br = "[js ''branch'', delete_flag how, wo_taskBranch op]"
  define hook :: "('a, unit) ws" where
    "hook = (if declared then eff_bind (world_call (wp_hook p op (js ''teardown-preview''))) (\<lambda>_. eff_return ()) else eff_return ())"
  define home :: "('a, unit) ws" where
    "home = eff_catch (eff_bind (world_call (wp_removeHome p op)) (\<lambda>_. eff_return ())) (\<lambda>_. eff_return ())"
  define last_part :: "('a, unit) ws" where
    "last_part = eff_bind (gitRun p ?root ?br) (\<lambda>_. eff_bind (world_now p) (\<lambda>now.
       eff_bind (saveOperation p (tombstone o' op b now)) (\<lambda>_. eff_return ())))"
  have parts: "silent hook" "silent home" unfolding hook_def home_def by (intro ws_harmless)+
  have run: "eff_bind hook (\<lambda>_. eff_bind (gitRun p ?root ?rm) (\<lambda>_. eff_bind home (\<lambda>_. last_part))) s = (r, t)"
    using assms unfolding remove_worktree_def hook_def home_def last_part_def .
  from silent_then [OF parts(1) run] show ?thesis
  proof
    assume "wst_calls t = wst_calls s"
    then show ?thesis by (simp add: removal_calls_def)
  next
    assume "\<exists>x u. eff_bind (gitRun p ?root ?rm) (\<lambda>_. eff_bind home (\<lambda>_. last_part)) u = (r, t) \<and> wst_calls u = wst_calls s"
    then obtain u where u: "eff_bind (gitRun p ?root ?rm) (\<lambda>_. eff_bind home (\<lambda>_. last_part)) u = (r, t)"
      "wst_calls u = wst_calls s" by blast
    obtain r1 v where m: "gitRun p ?root ?rm u = (r1, v)" by fastforce
    obtain a where a: "wst_calls v = wst_calls s @ [git_call ?root ?rm a]"
      "\<And>out. r1 = Inr out \<Longrightarrow> \<exists>q. a = Inr q \<and> pr_code q = 0"
      using gitRun_call [OF m] u(2) by metis
    have stops: ?thesis if "wst_calls t = wst_calls v"
      using that a(1) by (auto simp: removal_calls_def removes_in_order_def)
    show ?thesis
    proof (cases r1)
      case (Inl e)
      then show ?thesis using u(1) m by (intro stops) auto
    next
      case (Inr x)
      obtain q where q: "a = Inr q" "pr_code q = 0" using a(2) Inr by blast
      have "eff_bind home (\<lambda>_. last_part) v = (r, t)" using u(1) m Inr by simp
      from silent_then [OF parts(2) this] show ?thesis
      proof
        assume "\<exists>x w. last_part w = (r, t) \<and> wst_calls w = wst_calls v"
        then obtain w where w: "last_part w = (r, t)" "wst_calls w = wst_calls v" by blast
        have "\<exists>a'. wst_calls t = wst_calls w @ [git_call ?root ?br a']"
          using w(1) unfolding last_part_def by (rule branch_calls) (intro ws_harmless silent_save)
        then show ?thesis using w(2) a(1) q by (auto simp: removal_calls_def removes_in_order_def)
      qed (rule stops)
    qed
  qed
qed

lemma status_seen:
  assumes "worktreeStatus p target s = (Inr status, t)" and "trim status = []"
  shows "\<exists>new. wst_calls t = wst_calls s @ new \<and> (\<forall>c \<in> set new. \<not> destructive c) \<and> seen_clean target new"
proof -
  obtain r where "wst_calls t = wst_calls s @ [\<lparr>pc_file = js ''git'',
      pc_args = [js ''status'', js ''--porcelain=v1'', js ''--untracked-files=all''], pc_cwd = target, pc_answer = Inr r\<rparr>]"
    "pr_code r = 0" "pr_stdout r = status"
    using gitRun_ok [OF assms(1) [unfolded worktreeStatus_def]] by blast
  then show ?thesis using assms(2) by (auto simp: seen_clean_def answered_def destructive_def)
qed

lemma answered_more: "answered b cwd args r \<Longrightarrow> answered (a @ b @ c) cwd args r"
  by (simp add: answered_def)

lemma tip_more: "tip b op ref commit \<Longrightarrow> tip (a @ b @ c) op ref commit"
  and ancestor_more: "is_ancestor b op x y \<Longrightarrow> is_ancestor (a @ b @ c) op x y"
  unfolding tip_def is_ancestor_def using answered_more by blast+

lemma landed_more: "landed how op b \<Longrightarrow> landed how op (a @ b @ c)"
  unfolding landed_def by (cases how) (simp; blast intro: tip_more ancestor_more answered_more)+

lemma seen_clean_more: "seen_clean target b \<Longrightarrow> seen_clean target (a @ b @ c)"
  by (auto simp: seen_clean_def answered_def)

lemma gates_seen:
  assumes "eff_bind (worktreeStatus p target) (\<lambda>status.
      if trim status \<noteq> [] then eff_throw cleanRefused else prove_merged p op) u = (Inr how, v)"
  shows "\<exists>new. wst_calls v = wst_calls u @ new \<and> (\<forall>c \<in> set new. \<not> destructive c) \<and> seen_clean target new \<and> landed how op new"
proof -
  obtain status w where st: "worktreeStatus p target u = (Inr status, w)" "trim status = []"
    and pm: "prove_merged p op w = (Inr how, v)"
    using assms by (auto simp: eff_bind_ok split: if_splits)
  obtain n1 where n1: "wst_calls w = wst_calls u @ n1" "\<forall>c \<in> set n1. \<not> destructive c" "seen_clean target n1"
    using status_seen [OF st] by blast
  obtain n2 where n2: "wst_calls v = wst_calls w @ n2" "landed how op n2" using prove_merged_spec [OF pm] by blast
  obtain n3 where n3: "wst_calls v = wst_calls w @ n3" "\<forall>c \<in> set n3. \<not> destructive c"
    using issuesD [OF harmless_prove pm] by blast
  have "n2 = n3" using n2(1) n3(1) by simp
  then show ?thesis
    using n1 n2 n3 seen_clean_more [of target n1 "[]" n2] landed_more [of how op n2 n1 "[]"]
    by (intro exI [of _ "n1 @ n2"]) auto
qed

lemma rest_calls:
  assumes "eff_bind (world_ask h) (\<lambda>declared. if ko_dryRun o' then eff_return x
      else eff_bind (remove_worktree p o' op b how declared) (\<lambda>_. eff_return x)) s = (r, t)" and "\<not> ko_dryRun o'"
  shows "\<exists>after. wst_calls t = wst_calls s @ after \<and> removal_calls o' op how after"
proof -
  have "silent (world_ask h)" by (rule ws_harmless)
  from silent_then [OF this assms(1)] show ?thesis
  proof
    assume "\<exists>declared u. (if ko_dryRun o' then eff_return x
      else eff_bind (remove_worktree p o' op b how declared) (\<lambda>_. eff_return x)) u = (r, t) \<and> wst_calls u = wst_calls s"
    then obtain declared u where u: "eff_bind (remove_worktree p o' op b how declared) (\<lambda>_. eff_return x) u = (r, t)"
      "wst_calls u = wst_calls s" using assms(2) by auto
    obtain r1 v where m: "remove_worktree p o' op b how declared u = (r1, v)" by fastforce
    then have "wst_calls t = wst_calls v" using u(1) by (cases r1) auto
    then show ?thesis using remove_calls [OF m] u(2) by simp
  qed (simp add: removal_calls_def)
qed

lemma clean_locked_calls:
  assumes run: "clean_locked p target o' s = (r, t)"
  shows "\<exists>before after. wst_calls t = wst_calls s @ before @ after
    \<and> ((\<forall>c \<in> set (before @ after). \<not> destructive c) \<or> removal_seen (wst_files s) o' before after)"
proof -
  have harmless_case: ?thesis if "\<exists>new. wst_calls t = wst_calls s @ new \<and> (\<forall>c \<in> set new. \<not> destructive c)"
    using that by (metis append_Nil2)
  obtain r1 u where res: "resolveMaintenanceTarget p target s = (r1, u)" by fastforce
  obtain n0 where n0: "wst_calls u = wst_calls s @ n0" "\<forall>c \<in> set n0. \<not> destructive c"
    using issuesD [OF harmless_resolve res] by blast
  have fu: "wst_files u = wst_files s" by (rule keeps_filesD [OF keeps_files_resolve res])
  show ?thesis
  proof (cases r1)
    case (Inl e)
    then have "t = u" using run res by (simp add: clean_locked_def)
    then show ?thesis using n0 by (intro harmless_case) blast
  next
    case (Inr op)
    obtain c k where st: "stored (wst_files u) c k op" using resolve_spec res Inr by blast
    define gates where "gates = eff_bind (worktreeStatus p (clean_target o' op)) (\<lambda>status.
      if trim status \<noteq> [] then eff_throw cleanRefused else prove_merged p op)"
    define answer where "answer how = \<lparr>kr_dryRun = ko_dryRun o', kr_operationId = wo_operationId op,
           kr_worktreePath = clean_target o' op, kr_taskBranch = wo_taskBranch op, kr_cleaned = \<not> ko_dryRun o',
           kr_mergeProof = how, kr_archivedBeforeClean = False\<rparr>" for how
    define rest where "rest how b = eff_bind (world_ask (wp_hookDeclared p (join (clean_target o' op) (js ''.ws/teardown-preview''))))
      (\<lambda>declared. if ko_dryRun o' then eff_return (answer how)
         else eff_bind (remove_worktree p o' op b how declared) (\<lambda>_. eff_return (answer how)))" for how b
    have go: "(if \<not> clean_gates o' op then eff_throw cleanRefused
        else eff_bind gates (\<lambda>how. case wo_binding op of None \<Rightarrow> eff_throw cleanRefused | Some b \<Rightarrow> rest how b)) u = (r, t)"
      using run res Inr unfolding clean_locked_def gates_def rest_def answer_def Let_def eff_bind_assoc
      by (simp only: eff_bind_cases eff_bind_if eff_bind_throw eff_bind_assoc)
    have gates_harmless: "harmless gates" unfolding gates_def by (intro ws_harmless)
    show ?thesis
    proof (cases "clean_gates o' op")
      case True
      obtain r2 v where gv: "gates u = (r2, v)" by fastforce
      show ?thesis
      proof (cases r2)
        case (Inl e)
        then have "t = v" using go True gv by simp
        moreover obtain n1 where "wst_calls v = wst_calls u @ n1" "\<forall>c \<in> set n1. \<not> destructive c"
          using issuesD [OF gates_harmless gv] by blast
        ultimately show ?thesis using n0 by (intro harmless_case exI [of _ "n0 @ n1"]) auto
      next
        case (Inr how)
        obtain n1 where n1: "wst_calls v = wst_calls u @ n1" "\<forall>c \<in> set n1. \<not> destructive c"
          "seen_clean (clean_target o' op) n1" "landed how op n1"
          using gates_seen gv [unfolded gates_def] Inr by blast
        have before: "\<forall>c \<in> set (n0 @ n1). \<not> destructive c" "seen_clean (clean_target o' op) (n0 @ n1)" "landed how op (n0 @ n1)"
          using n0(2) n1 seen_clean_more [of _ n1 n0 "[]"] landed_more [of how op n1 n0 "[]"] by auto
        show ?thesis
        proof (cases "wo_binding op")
          case None
          then have "t = v" using go True gv Inr by simp
          then show ?thesis using n0 n1 before by (intro harmless_case exI [of _ "n0 @ n1"]) auto
        next
          case (Some b)
          have body: "rest how b v = (r, t)" using go True gv Inr Some by simp
          show ?thesis
          proof (cases "ko_dryRun o'")
            case True
            have "harmless (rest how b)" unfolding rest_def using True by (simp add: ws_harmless)
            then obtain n2 where "wst_calls t = wst_calls v @ n2" "\<forall>c \<in> set n2. \<not> destructive c" using issuesD body by blast
            then show ?thesis using n0 n1 before by (intro harmless_case exI [of _ "n0 @ n1 @ n2"]) auto
          next
            case False
            obtain n2 where n2: "wst_calls t = wst_calls v @ n2" "removal_calls o' op how n2"
              using rest_calls [OF body [unfolded rest_def] False] by blast
            have "removal_seen (wst_files s) o' (n0 @ n1) n2"
              unfolding removal_seen_def using st fu False \<open>clean_gates o' op\<close> before n2(2) by auto
            then show ?thesis using n0(1) n1(1) n2(1) by (intro exI [of _ "n0 @ n1"] exI [of _ n2]) simp
          qed
        qed
      qed
    qed (use go n0 in \<open>intro harmless_case; simp\<close>)
  qed
qed

subsection \<open>The properties\<close>

lemma wsClean_calls:
  assumes run: "wsClean p target o' s = (r, t)"
  shows "\<exists>before after. wst_calls t = wst_calls s @ before @ after
    \<and> ((\<forall>c \<in> set (before @ after). \<not> destructive c) \<or> removal_seen (wst_files s) o' before after)"
proof -
  have harmless_case: ?thesis if "\<exists>new. wst_calls t = wst_calls s @ new \<and> (\<forall>c \<in> set new. \<not> destructive c)"
    using that by (metis append_Nil2)
  obtain r1 u where res: "resolveMaintenanceTarget p target s = (r1, u)" by fastforce
  obtain n0 where n0: "wst_calls u = wst_calls s @ n0" "\<forall>c \<in> set n0. \<not> destructive c"
    using issuesD [OF harmless_resolve res] by blast
  have fu: "wst_files u = wst_files s" by (rule keeps_filesD [OF keeps_files_resolve res])
  show ?thesis
  proof (cases r1)
    case (Inl e)
    then have "t = u" using run res by (simp add: wsClean_def)
    then show ?thesis using n0 by (intro harmless_case) blast
  next
    case (Inr initial)
    let ?lock = "repoLock (wo_gitCommonDir initial)"
    have go: "withLock p ?lock (clean_locked p target o') u = (r, t)" using run res Inr by (simp add: wsClean_def)
    obtain r2 v where lv: "wp_lock p ?lock (wst_world u) = (r2, v)" by fastforce
    show ?thesis
    proof (cases r2)
      case (Inl e)
      then have "wst_calls t = wst_calls u" using go lv by (auto simp: withLock_def world_call_def eff_bind_def)
      then show ?thesis using n0 by (intro harmless_case) auto
    next
      case (Inr x)
      obtain r3 w where body: "clean_locked p target o' (u\<lparr>wst_world := v\<rparr>) = (r3, w)" by fastforce
      have t: "wst_calls t = wst_calls w"
        using go lv Inr body by (auto simp: withLock_def world_call_def eff_bind_def split: prod.splits sum.splits)
      obtain before after where b: "wst_calls w = wst_calls u @ before @ after"
        "(\<forall>c \<in> set (before @ after). \<not> destructive c) \<or> removal_seen (wst_files s) o' before after"
        using clean_locked_calls [OF body] fu by auto
      have seen: "removal_seen (wst_files s) o' (n0 @ before) after" if "removal_seen (wst_files s) o' before after"
        using that n0(2) seen_clean_more [of _ before n0 "[]"] landed_more [of _ _ before n0 "[]"]
        unfolding removal_seen_def by (auto; blast)
      show ?thesis using t n0 b seen by (intro exI [of _ "n0 @ before"] exI [of _ after]) auto
    qed
  qed
qed

text \<open>
  C32: A cleaning issues a command that removes a worktree or deletes a branch only for a stored, prepared operation,
  not in a dry run and with all gates on live sessions passed, after git has answered that the worktree has no
  change and that the task branch contains its base and has landed on the base ref, by ancestry or by equal
  patches. From then on it issues at most two commands, both in the repository of the operation: it removes that
  worktree, and only when git has answered that with success it deletes that branch, with force only where equal
  patches were the proof.
\<close>

theorem clean_removes_only_landed_work:
  assumes "wsClean p target o' s = (r, t)" and "wst_calls t = wst_calls s @ new" and "list_ex destructive new"
  shows "\<exists>before after c k op how. new = before @ after \<and> stored (wst_files s) c k op \<and> wo_phase op = Prepared
    \<and> \<not> ko_dryRun o' \<and> clean_gates o' op \<and> \<not> list_ex destructive before
    \<and> seen_clean (clean_target o' op) before \<and> landed how op before
    \<and> removes_in_order (wo_repoRoot op) (clean_target o' op) (if how = Ancestor then js ''-d'' else js ''-D'')
        (wo_taskBranch op) after"
proof -
  obtain before after where ba: "wst_calls t = wst_calls s @ before @ after"
    "(\<forall>c \<in> set (before @ after). \<not> destructive c) \<or> removal_seen (wst_files s) o' before after"
    using wsClean_calls [OF assms(1)] by blast
  have new: "new = before @ after" using ba(1) assms(2) by simp
  then have "removal_seen (wst_files s) o' before after" using ba(2) assms(3) by (auto simp: list_ex_iff)
  then obtain c k op how where h: "stored (wst_files s) c k op" "\<not> ko_dryRun o'" "clean_gates o' op"
    "\<forall>x \<in> set before. \<not> destructive x" "seen_clean (clean_target o' op) before" "landed how op before"
    "removal_calls o' op how after" unfolding removal_seen_def by blast
  have "after \<noteq> []" using new assms(3) h(4) by (auto simp: list_ex_iff)
  moreover have flag: "delete_flag how = (if how = Ancestor then js ''-d'' else js ''-D'')"
    by (cases how) (simp_all add: delete_flag_def)
  ultimately have "removes_in_order (wo_repoRoot op) (clean_target o' op) (if how = Ancestor then js ''-d'' else js ''-D'')
      (wo_taskBranch op) after" using h(7) by (simp add: removal_calls_def)
  moreover have "wo_phase op = Prepared" using h(3) by (simp add: clean_gates_def Let_def)
  moreover have "\<not> list_ex destructive before" using h(4) by (simp add: list_ex_iff)
  ultimately show ?thesis using new h(1,2,3,5,6) by blast
qed

text \<open>
  A repository in which everything has landed: git answers every command with success and no output, and the two
  links that are resolved lead to the repository and to its directory.
\<close>

definition landed_world :: "unit ws_world" where
  "landed_world = demo_world\<lparr>wp_isDirectory := (\<lambda>_ _. Inr True),
     wp_realpath := (\<lambda>t _. Inr (if t = [] then js ''/r'' else demo_git))\<rparr>"

definition landed_options :: clean_options where
  "landed_options = \<lparr>ko_dryRun = False, ko_activePaths = Some [], ko_activeBoundSessionIds = [], ko_cwd = js ''/r'',
     ko_requireActivePaths = True, ko_finishedSourceSessionId = None, ko_sourceSessionArchived = False\<rparr>"

definition landed_state :: "unit ws_state" where
  "landed_state = demo_state [demo_operation ''aaaaaaaa'' Prepared (Some (demo_binding BindingBound))]"

definition landed_run :: "(ws_error + clean_result) \<times> unit ws_state" where
  "landed_run = wsClean landed_world (TargetSession (js ''s'') (Some (js ''/r''))) landed_options landed_state"

lemma landed_process:
  "run_process landed_world file args cwd s =
     (Inr demo_process, s\<lparr>wst_calls := wst_calls s @ [\<lparr>pc_file = file, pc_args = args, pc_cwd = cwd, pc_answer = Inr demo_process\<rparr>]\<rparr>)"
  by (simp add: run_process_def landed_world_def demo_world_def)

lemma landed_git:
  "gitRun landed_world cwd args s =
     (Inr [], s\<lparr>wst_calls := wst_calls s @ [\<lparr>pc_file = js ''git'', pc_args = args, pc_cwd = cwd, pc_answer = Inr demo_process\<rparr>]\<rparr>)"
  by (simp add: gitRun_def checkedProcess_def landed_process demo_process_def)

definition landed_operation :: ws_operation where
  "landed_operation = demo_operation ''aaaaaaaa'' Prepared (Some (demo_binding BindingBound))"

lemma landed_gates: "clean_gates landed_options landed_operation"
  by code_simp

lemma landed_world_parts:
  "wp_lock landed_world l w = (Inr (), w)" "wp_unlock landed_world l w = (Inr (), w)" "wp_hookDeclared landed_world l w = Inr False"
  "wp_removeHome landed_world op w = (Inr [], w)" "wp_now landed_world w = ([], w)" "wp_save landed_world op w = ((True, None), w)"
  by (simp_all add: landed_world_def demo_world_def)

lemma trim_Nil [simp]: "trim [] = []"
  by (simp add: trim_def)

lemma landed_clean:
  assumes "resolveMaintenanceTarget landed_world target s = (Inr landed_operation, u)"
  shows "list_ex destructive (wst_calls (snd (clean_locked landed_world target landed_options s)))"
proof -
  have prove: "\<exists>v. prove_merged landed_world landed_operation w = (Inr Ancestor, v)" for w
    by (simp add: prove_merged_def Let_def landed_git landed_process demo_process_def)
  obtain v where v: "worktreeStatus landed_world (clean_target landed_options landed_operation) u = (Inr [], v)"
    by (simp add: worktreeStatus_def landed_git)
  obtain w where w: "prove_merged landed_world landed_operation v = (Inr Ancestor, w)" using prove by blast
  have binding: "wo_binding landed_operation = Some (demo_binding BindingBound)"
    by (simp add: landed_operation_def demo_operation_def)
  have dry: "\<not> ko_dryRun landed_options" by (simp add: landed_options_def)
  have destroy: "destructive \<lparr>pc_file = f, pc_args = [js ''worktree'', js ''remove'', x], pc_cwd = c, pc_answer = r\<rparr>" for f x c r
    by (simp add: destructive_def)
  show ?thesis
    unfolding clean_locked_def
    by (simp add: assms landed_gates v w binding dry world_ask_def landed_world_parts Let_def remove_worktree_def landed_git
        world_call_def world_now_def saveOperation_def write_file_def destroy eff_bind_def [where m = "eff_return _"]
        eff_catch_def eff_bind_def)
qed

abbreviation landed_target :: maintenance_target where
  "landed_target \<equiv> TargetSession (js ''s'') (Some (js ''/r''))"

lemma landed_paths:
  "isAbsolute (js ''/r'')" "resolve_text (js ''/r'') [] = js ''/r''" "normalize demo_git = demo_git" "js ''/r'' \<noteq> []"
  by code_simp+

lemma landed_repo:
  "\<exists>facts t. discoverRepo landed_world (js ''/r'') s = (Inr facts, t) \<and> rf_gitCommonDir facts = demo_git \<and> wst_files t = wst_files s"
  by (simp add: discoverRepo_def gitMaybe_def landed_process landed_git demo_process_def landed_paths world_ask_def
      landed_world_def [THEN arg_cong [where f = "\<lambda>p. wp_isDirectory p"]] landed_world_def [THEN arg_cong [where f = "\<lambda>p. wp_realpath p"]])

lemma landed_resolve:
  assumes "wst_files s = demo_files [landed_operation]"
  shows "\<exists>t. resolveMaintenanceTarget landed_world landed_target s = (Inr landed_operation, t) \<and> wst_files t = wst_files s"
proof -
  obtain facts t where repo: "discoverRepo landed_world (js ''/r'') s = (Inr facts, t)" "rf_gitCommonDir facts = demo_git"
    "wst_files t = wst_files s" using landed_repo by blast
  have "findBySourceSession demo_git (js ''s'') t
      = (Inr (if released_for (js ''s'') landed_operation then None else Some landed_operation), t)"
    by (rule find_first [where pre = "[]" and post = "[]" and k = "wo_operationId landed_operation"])
      (simp_all add: repo(3) assms demo_files_def listOperationIds_def stored_def of_session_def landed_operation_def
        demo_operation_def demo_binding_def)
  moreover have "\<not> released_for (js ''s'') landed_operation"
    by (simp add: released_for_def landed_operation_def demo_operation_def demo_binding_def)
  ultimately show ?thesis using repo by (simp add: resolveMaintenanceTarget_def)
qed

lemma landed_run_calls: "wst_calls landed_state = []" "list_ex destructive (wst_calls (snd landed_run))"
proof -
  show "wst_calls landed_state = []" by (simp add: landed_state_def demo_state_def)
  have files: "wst_files landed_state = demo_files [landed_operation]"
    by (simp add: landed_state_def demo_state_def landed_operation_def)
  obtain u where u: "resolveMaintenanceTarget landed_world landed_target landed_state = (Inr landed_operation, u)"
    "wst_files u = demo_files [landed_operation]" using landed_resolve [OF files] files by auto
  obtain v where v: "resolveMaintenanceTarget landed_world landed_target u = (Inr landed_operation, v)"
    using landed_resolve [OF u(2)] by blast
  have same: "u\<lparr>wst_world := ()\<rparr> = u" by (cases u) simp
  have "wst_calls (snd landed_run) = wst_calls (snd (clean_locked landed_world landed_target landed_options u))"
    unfolding landed_run_def wsClean_def withLock_def
    by (simp add: u(1) world_call_def landed_world_parts same eff_bind_def split: prod.split)
  then show "list_ex destructive (wst_calls (snd landed_run))" using landed_clean [OF v] by simp
qed

theorem clean_removes_only_landed_work_witness:
  "list_ex destructive (wst_calls (snd landed_run))
   \<and> (\<exists>before after c k op how. wst_calls (snd landed_run) = before @ after \<and> stored (wst_files landed_state) c k op
    \<and> wo_phase op = Prepared \<and> \<not> ko_dryRun landed_options \<and> clean_gates landed_options op \<and> \<not> list_ex destructive before
    \<and> seen_clean (clean_target landed_options op) before \<and> landed how op before
    \<and> removes_in_order (wo_repoRoot op) (clean_target landed_options op) (if how = Ancestor then js ''-d'' else js ''-D'')
        (wo_taskBranch op) after)"
proof -
  have run: "wsClean landed_world (TargetSession (js ''s'') (Some (js ''/r''))) landed_options landed_state
    = (fst landed_run, snd landed_run)" by (simp add: landed_run_def)
  have calls: "wst_calls (snd landed_run) = wst_calls landed_state @ wst_calls (snd landed_run)"
    by (simp add: landed_run_calls(1))
  show ?thesis
    by (rule conjI [OF landed_run_calls(2) clean_removes_only_landed_work [OF run calls landed_run_calls(2)]])
qed

lemma dry_clean:
  assumes "ko_dryRun o'"
  shows "keeps_files (wsClean p target o')" and "harmless (wsClean p target o')"
proof -
  have locked: "keeps_files (clean_locked p target o')"
    unfolding clean_locked_def Let_def if_P [OF assms] by (intro ws_files)
  have lock: "keeps_files (withLock p' l m)" if "keeps_files m" for p' l and m :: "('a, clean_result) ws"
    by (rule keeps_filesI)
      (auto simp: withLock_def world_call_def eff_bind_def split: prod.splits sum.splits dest!: keeps_filesD [OF that])
  show "keeps_files (wsClean p target o')" unfolding wsClean_def by (intro ws_files lock locked)
  show "harmless (wsClean p target o')"
  proof (rule issuesI)
    fix s r t
    assume "wsClean p target o' s = (r, t)"
    from wsClean_calls [OF this] show "\<exists>new. wst_calls t = wst_calls s @ new \<and> (\<forall>c \<in> set new. \<not> destructive c)"
      using assms unfolding removal_seen_def by blast
  qed
qed

lemma dry_sweep_one:
  assumes "co_dryRun co"
  shows "keeps_files (sweep_one p co c k)" and "harmless (sweep_one p co c k)"
proof -
  have options: "ko_dryRun (candidate_options co (co_dryRun co) f a)" for f a using assms by (simp add: candidate_options_def)
  have candidate: "keeps_files (clean_candidate p co k op sid b)" "harmless (clean_candidate p co k op sid b)" for op sid b
    unfolding clean_candidate_def by (intro ws_files ws_harmless dry_clean options)+
  have offer: "keeps_files (offer_to_finish p co k op sid)" "harmless (offer_to_finish p co k op sid)" for op sid
    unfolding offer_to_finish_def using assms by (auto split: option.split intro: ws_files ws_harmless)
  show "keeps_files (sweep_one p co c k)" and "harmless (sweep_one p co c k)"
    unfolding sweep_one_def
    by (auto split: option.split sum.split intro!: ws_files ws_harmless candidate offer)
qed

text \<open>
  C35: A preview of a sweep over a repository changes no record and issues no command that removes a worktree or
  deletes a branch, whatever is archived, whatever answers the caller can get and whatever the calls answer.
\<close>

theorem a_preview_changes_nothing:
  assumes "co_dryRun co" and "wsCleanRepository p path co s = (r, t)"
  shows "wst_files t = wst_files s \<and> (\<exists>new. wst_calls t = wst_calls s @ new \<and> \<not> list_ex destructive new)"
proof -
  have all: "keeps_files (sweep_all p co c ks)" "harmless (sweep_all p co c ks)" for c ks
    by (induction ks) (auto intro!: ws_files ws_harmless dry_sweep_one assms(1))
  have scope: "harmless (sweep_scope p co repo ids)" for repo ids
    unfolding sweep_scope_def by (auto split: option.split prod.split intro!: ws_harmless)
  have kept: "keeps_files (wsCleanRepository p path co)" "harmless (wsCleanRepository p path co)"
    unfolding wsCleanRepository_def by (auto split: prod.split intro!: ws_files ws_harmless all scope)
  then show ?thesis using keeps_filesD [OF kept(1) assms(2)] issuesD [OF kept(2) assms(2)] by (auto simp: list_ex_iff)
qed

definition preview_options :: "unit sweep_options" where
  "preview_options = \<lparr>co_archivedSessionIds = [js ''s''], co_activePaths = [], co_activeBoundSessionIds = [], co_dryRun = True,
     co_cwd = js ''/r'', co_confirmArchive = None, co_archiveSession = None, co_onlyOperationId = None,
     co_onlySourceSessionId = None, co_onlyWorktreePath = None\<rparr>"

theorem a_preview_changes_nothing_witness:
  "wst_files (snd (wsCleanRepository landed_world (js ''/r'') preview_options landed_state)) = wst_files landed_state"
  using a_preview_changes_nothing [of preview_options, OF _ prod.collapse [symmetric]] by (simp add: preview_options_def)

end
