(* ===== verification/WsGuardTheorems.thy ===== *)
theory WsGuardTheorems
  imports WsGuard
begin

text \<open>
  Worktree sessions, what the guard of a bound session lets through: a call that passes the contract of its tool and
  the physical check names only paths inside the managed worktree, as texts and as locations, with the bound of
  the walk; what lies beyond that bound; and which bindings deny every call.
\<close>

subsection \<open>Normalized paths\<close>

lemma path_names_append: "47 \<notin> set n \<Longrightarrow> path_names (n @ 47 # t) = n # path_names t"
  by (induction n) simp_all

lemma path_names_plain: "47 \<notin> set n \<Longrightarrow> path_names n = [n]"
  by (induction n) simp_all

lemma path_names_join:
  assumes "resolved p" and "p \<noteq> []"
  shows "path_names (join_names p) = p" and "path_names (join_names p @ [47]) = p @ [[]]"
  using assms by (induction p rule: join_names.induct) (auto simp: name_ok_def path_names_append path_names_plain)

lemma path_steps_names: "resolved p \<Longrightarrow> fold path_step p q = q @ p"
  by (induction p arbitrary: q) (auto simp: path_step_def name_ok_def)

lemma path_step_Nil [simp]: "path_step [] p = p"
  by (simp add: path_step_def)

lemma resolve_path_text:
  assumes "resolved p"
  shows "resolve_names [] (path_text p) = p" and "resolve_names [] (path_text p @ [47]) = p"
  using assms by (cases "p = []";
      simp add: resolve_names_def path_text_def path_names_join path_steps_names)+

lemma resolve_normalize: "isAbsolute t \<Longrightarrow> resolve_names [] (normalize t) = resolve_names [] t"
  using resolve_path_text [OF resolve_resolved [of "[]" t]]
  by (auto simp: normalize_def Let_def) (simp_all add: resolve_names_def)

lemma absolute_path_text [simp]: "isAbsolute (path_text p)"
  by (simp add: isAbsolute_def path_text_def)

lemma path_text_last: "resolved p \<Longrightarrow> p \<noteq> [] \<Longrightarrow> last (path_text p) \<noteq> 47"
proof (induction p rule: join_names.induct)
  case (2 n)
  then show ?case by (auto simp: path_text_def name_ok_def) (metis last_in_set)
next
  case (3 n m ns)
  then show ?case by (cases "join_names (m # ns)"; simp add: path_text_def)
qed simp

lemma normalize_path_text: "resolved p \<Longrightarrow> normalize (path_text p) = path_text p"
  using path_text_last [of p]
  by (cases "p = []") (auto simp: normalize_def Let_def resolve_path_text, simp_all add: path_text_def)

lemma normalize_plain:
  assumes "isAbsolute t" and "last t \<noteq> 47"
  shows "normalize t = path_text (resolve_names [] t)"
  using assms by (cases "resolve_names [] t") (auto simp: normalize_def Let_def path_text_def)

lemma inside_prefix: "doesNotEscape a c = prefix (resolve_names [] a) (resolve_names [] c)"
  using contained_prefix [OF resolve_resolved [of "[]" c], of "resolve_names [] a"]
  by (auto simp: doesNotEscape_def physicallyContained_def Let_def)

lemma parent_text:
  assumes "resolved p"
  shows "resolve_text (path_text p) [46, 46] = path_text (butlast p)"
  by (simp add: resolve_text_def isAbsolute_def resolve_path_text [OF assms])
    (simp add: resolve_names_def path_step_def)

lemma path_text_inj: "resolved p \<Longrightarrow> resolved q \<Longrightarrow> path_text p = path_text q \<Longrightarrow> p = q"
  by (metis resolve_path_text(1))

subsection \<open>The walk to the nearest ancestor\<close>

text \<open>The nearest existing ancestor of a path, with its physical location, and how many levels below it are missing.\<close>

definition nearest_existing :: "realpaths \<Rightarrow> path \<Rightarrow> path \<Rightarrow> jstr \<Rightarrow> bool" where
  "nearest_existing real names a r \<longleftrightarrow>
     prefix a names \<and> real (path_text a) = Inr r
     \<and> (\<forall>b. prefix b names \<and> strict_prefix a b \<longrightarrow> (\<exists>e. real (path_text b) = Inl e))"

text \<open>\<open>realpath\<close> answers with a canonical absolute path, which is its own location.\<close>

definition canonical_answers :: "realpaths \<Rightarrow> bool" where
  "canonical_answers real \<longleftrightarrow> (\<forall>x r. real x = Inr r \<longrightarrow> real r = Inr r \<and> isAbsolute r \<and> normalize r = r)"

lemma nearest_self:
  assumes "nearest_existing real names a r" and "real (path_text names) = Inr x"
  shows "a = names \<and> r = x"
proof -
  have "a = names"
  proof (rule ccontr)
    assume "a \<noteq> names"
    then have "strict_prefix a names" using assms(1) by (simp add: nearest_existing_def strict_prefix_def)
    then show False using assms by (auto simp: nearest_existing_def)
  qed
  then show ?thesis using assms by (simp add: nearest_existing_def)
qed

lemma nearest_parent:
  assumes "nearest_existing real names a r" and "a \<noteq> names"
  shows "nearest_existing real (butlast names) a r" and "names \<noteq> []"
proof -
  show ne: "names \<noteq> []" using assms by (auto simp: nearest_existing_def)
  obtain z zs where n: "names = zs @ [z]" using ne by (cases names rule: rev_cases) auto
  have below: "prefix b zs \<Longrightarrow> prefix b names" for b unfolding n by (rule prefix_prefix)
  have "prefix a zs" using assms by (simp add: nearest_existing_def n)
  then show "nearest_existing real (butlast names) a r"
    using assms(1) below by (simp add: nearest_existing_def) (simp add: n)
qed

lemma nearest_found:
  assumes "nearest_existing real b a r" and "resolved b" and "length b < n + length a"
    and "real root = Inr root"
  shows "path_text a = root
    \<or> (\<exists>x. nearest_real real root n (path_text b) tail = Some x \<and> (doesNotEscape root r \<or> x = r))"
  using assms
proof (induction n arbitrary: b tail)
  case 0
  then show ?case using prefix_length_le by (fastforce simp: nearest_existing_def)
next
  case (Suc n)
  note norm = normalize_path_text [OF Suc.prems(2)]
  show ?case
  proof (cases "real (path_text b)")
    case (Inr x)
    with nearest_self [OF Suc.prems(1)] have ab: "a = b" "r = x" by auto
    show ?thesis using norm Inr ab by auto
  next
    case (Inl e)
    then have "a \<noteq> b" using Suc.prems(1) by (auto simp: nearest_existing_def)
    from nearest_parent [OF Suc.prems(1) this] have up: "nearest_existing real (butlast b) a r" "b \<noteq> []" .
    have res: "resolved (butlast b)" using Suc.prems(2) by (auto simp: list_all_iff dest: in_set_butlastD)
    have "path_text (butlast b) \<noteq> path_text b"
      using path_text_inj [OF res Suc.prems(2)] up(2) by (metis append_butlast_last_id not_Cons_self2 self_append_conv)
    moreover have "path_text b \<noteq> root" using Inl Suc.prems(4) by auto
    moreover have "length (butlast b) < n + length a" using Suc.prems(3) up(2) by (cases b) auto
    ultimately show ?thesis
      using Suc.IH [OF up(1) res _ Suc.prems(4), of "head_name (path_text b) # tail"] norm Inl
      by (simp add: parent_text [OF Suc.prems(2)])
  qed
qed

text \<open>
  Where the walk looks when the spelling itself does not resolve: a spelling that ends in a slash is left for the
  parent of its last name at the first step.
\<close>

definition walked_names :: "jstr \<Rightarrow> path" where
  "walked_names t = (if last t = 47 then butlast (resolve_names [] t) else resolve_names [] t)"

lemma walk_reaches:
  assumes abs: "isAbsolute t" and missing: "real (normalize t) = Inl e" and root: "real root = Inr root"
    and near: "nearest_existing real (walked_names t) a r" and levels: "length (resolve_names [] t) < 200 + length a"
  shows "path_text a = root
    \<or> (\<exists>x. resolveRealInside real root (normalize t) = Some x \<and> (doesNotEscape root r \<or> x = r))"
proof -
  let ?names = "resolve_names [] t"
  have res: "resolved ?names" by (simp add: resolve_resolved)
  have walk: "resolveRealInside real root (normalize t) = nearest_real real root 200 (normalize t) []"
    using missing by (simp add: resolveRealInside_def)
  show ?thesis
  proof (cases "last t = 47 \<and> ?names \<noteq> []")
    case False
    have "normalize t = path_text ?names" "walked_names t = ?names"
      using False abs normalize_plain [of t] by (auto simp: walked_names_def normalize_def Let_def path_text_def)
    with nearest_found [of real ?names a r 200 root "[]", OF _ res levels root] near walk show ?thesis by simp
  next
    case True
    have up: "resolved (butlast ?names)" using res by (auto simp: list_all_iff dest: in_set_butlastD)
    have spelled: "normalize t = path_text ?names @ [47]" using True abs by (auto simp: normalize_def Let_def isAbsolute_def)
    have norm: "normalize (path_text ?names @ [47]) = path_text ?names @ [47]" "isAbsolute (path_text ?names @ [47])"
      using True resolve_path_text [OF res] by (simp_all add: normalize_def Let_def isAbsolute_def path_text_def)
    have parent: "resolve_text (path_text ?names @ [47]) [46, 46] = path_text (butlast ?names)"
      using norm(2) by (simp add: resolve_text_def isAbsolute_def resolve_path_text [OF res])
        (simp add: resolve_names_def path_step_def)
    have differs: "path_text (butlast ?names) \<noteq> path_text ?names @ [47]"
    proof
      assume eq: "path_text (butlast ?names) = path_text ?names @ [47]"
      have "resolve_names [] (path_text (butlast ?names)) = butlast ?names" by (rule resolve_path_text(1) [OF up])
      moreover have "resolve_names [] (path_text (butlast ?names)) = ?names"
        unfolding eq by (rule resolve_path_text(2) [OF res])
      ultimately show False using True by (metis append_butlast_last_id not_Cons_self2 self_append_conv)
    qed
    have other: "path_text ?names @ [47] \<noteq> root" using missing root spelled by auto
    have "nearest_real real root 200 (normalize t) [] = nearest_real real root 199 (path_text (butlast ?names))
        [head_name (path_text ?names @ [47])]"
      using nearest_real.simps(2) [of real root 199] missing norm(1) other differs unfolding spelled by (simp add: parent)
    moreover have "nearest_existing real (butlast ?names) a r" using near True by (simp add: walked_names_def)
    moreover have "length (butlast ?names) < 199 + length a" using levels True by (cases ?names) auto
    ultimately show ?thesis
      using nearest_found [of real "butlast ?names" a r 199 root "[head_name (path_text ?names @ [47])]", OF _ up _ root] walk by simp
  qed
qed

lemma confined_existing:
  assumes "confinePath real base t True = Inr (Inr path)" and "canonical_answers real"
  shows "\<exists>physical. real base = Inr physical
    \<and> (case real (normalize t) of
         Inr r \<Rightarrow> prefix (resolve_names [] physical) (resolve_names [] r)
       | Inl _ \<Rightarrow> \<forall>a r. nearest_existing real (walked_names t) a r \<and> length (resolve_names [] t) < 200 + length a
           \<longrightarrow> prefix (resolve_names [] physical) (resolve_names [] r))"
proof -
  obtain physical where phys: "real base = Inr physical" using assms(1) by (auto simp: confinePath_def split: sum.splits)
  then have canon: "real physical = Inr physical" "normalize physical = physical"
    using assms(2) by (auto simp: canonical_answers_def)
  have abs: "isAbsolute t" using assms(1) phys by (auto simp: confinePath_def Let_def split: if_splits)
  have checked: "doesNotEscape physical x" if "resolveRealInside real physical (normalize t) = Some x" for x
    using assms(1) phys that abs canon(2) by (auto simp: confinePath_def Let_def split: if_splits option.splits)
  show ?thesis
  proof (cases "real (normalize t)")
    case (Inr r)
    with checked [of r] phys show ?thesis by (simp add: resolveRealInside_def inside_prefix)
  next
    case (Inl e)
    have "doesNotEscape physical r"
      if near: "nearest_existing real (walked_names t) a r" and levels: "length (resolve_names [] t) < 200 + length a" for a r
      using walk_reaches [OF abs Inl canon(1) near levels]
    proof
      assume "path_text a = physical"
      then have "r = physical" using near canon(1) by (simp add: nearest_existing_def)
      then show ?thesis by (simp add: inside_prefix)
    qed (use checked in auto)
    then show ?thesis using Inl phys by (auto simp: inside_prefix)
  qed
qed

subsection \<open>Calls that go on\<close>

lemma confined_all:
  "confine_all real base ts = Inr None \<Longrightarrow> t \<in> set ts \<Longrightarrow> \<exists>path. confinePath real base t True = Inr (Inr path)"
  by (induction ts) (auto split: sum.splits)

lemma confined_lexically:
  assumes "confinePath real base t True = Inr (Inr path)" and "isAbsolute base"
  shows "isAbsolute t \<and> path = normalize t \<and> prefix (resolve_names [] base) (resolve_names [] t)"
  using assms
  by (auto simp: confinePath_def Let_def inside_prefix resolve_normalize split: sum.splits if_splits option.splits)

lemma audited_are_confined:
  assumes "physicalDecision real name args op = Inr None" and "t \<in> set (auditedPaths name args)"
    and "map_option sb_state (wo_binding op) \<noteq> Some BindingCleaned"
  shows "\<exists>path. confinePath real (wo_worktreePath op) t True = Inr (Inr path)"
proof -
  obtain k where k: "TOOL_CONTRACTS name = Some k" "tk_kind k \<noteq> DelegationTool"
    using assms(2) by (cases "TOOL_CONTRACTS name") (auto simp: auditedPaths_def split: if_splits)
  then have "confine_all real (wo_worktreePath op) (auditedPaths name args) = Inr None"
    using assms(1) unfolding physicalDecision_def if_not_P [OF assms(3)] by simp
  from confined_all [OF this assms(2)] show ?thesis .
qed

text \<open>
  C33: Let the path of the worktree be absolute and \<open>realpath\<close> answer canonical paths. A call that both checks of a
  bound session let go on has a binding that was validated and is not cleaned, and each path of it that the contract
  of its tool audits is absolute and lies inside the managed worktree as a text. When its normalized spelling resolves, the location lies inside the physical location of the worktree. When it does
  not resolve, its nearest ancestor that resolves lies inside, as long as fewer than 200 levels are missing. The nearest
  ancestor is what \<open>realpath\<close> can resolve: a dangling symbolic link counts as missing, wherever it points, and for
  a spelling that ends in a slash the search starts at the parent of the last name.
\<close>

theorem managed_calls_stay_inside:
  assumes "checkTool name args op failed continuable = None" and "physicalDecision real name args op = Inr None"
    and "wo_binding op = Some b" and "isAbsolute (wo_worktreePath op)" and "canonical_answers real"
    and "t \<in> set (auditedPaths name args)"
  shows "\<not> failed \<and> sb_state b \<noteq> BindingCleaned \<and> isAbsolute t
    \<and> prefix (resolve_names [] (wo_worktreePath op)) (resolve_names [] t)
    \<and> (\<exists>physical. real (wo_worktreePath op) = Inr physical
       \<and> (case real (normalize t) of
            Inr r \<Rightarrow> prefix (resolve_names [] physical) (resolve_names [] r)
          | Inl _ \<Rightarrow> \<forall>a r. nearest_existing real (walked_names t) a r \<and> length (resolve_names [] t) < 200 + length a
              \<longrightarrow> prefix (resolve_names [] physical) (resolve_names [] r)))"
proof -
  have bound: "sb_state b \<noteq> BindingCleaned" "\<not> failed" using assms(1,3) by (auto simp: checkTool_def split: if_splits)
  obtain path where path: "confinePath real (wo_worktreePath op) t True = Inr (Inr path)"
    using audited_are_confined [OF assms(2,6)] assms(3) bound by auto
  show ?thesis
    using bound confined_lexically [OF path assms(4)] confined_existing [OF path assms(5)] by blast
qed

definition guard_operation :: "binding_state \<Rightarrow> ws_operation" where
  "guard_operation state =
     \<lparr>wo_operationId = js ''aaaaaaaa'', wo_repoRoot = js ''/r'', wo_gitCommonDir = js ''/r/.git'', wo_baseRef = js ''main'',
      wo_baseCommit = js ''1'', wo_taskBranch = js ''ws/t'', wo_worktreePath = js ''/w'', wo_taskHash = [],
      wo_dependencyMode = Lean, wo_packageManager = Some Npm, wo_lockFingerprint = Some [], wo_cacheNodeModules = Some [],
      wo_dshHome = js ''/h'', wo_phase = Prepared, wo_createdAt = [], wo_updatedAt = [], wo_preview = None,
      wo_diagnostics = None, wo_binding = Some \<lparr>sb_sourceSessionId = js ''s'', sb_state = state, sb_updatedAt = [],
        sb_archiveLifecycle = True\<rparr>\<rparr>"

definition read_call :: json where
  "read_call = JObj [(js ''file_path'', JStr (js ''/w/a/b''))]"

definition guard_real :: realpaths where
  "guard_real x = (if x \<in> {js ''/p'', js ''/p/a''} then Inr x
     else if x = js ''/w'' then Inr (js ''/p'') else if x = js ''/w/a'' then Inr (js ''/p/a'') else Inl UnexpectedError)"

theorem managed_calls_stay_inside_witness:
  "prefix (resolve_names [] (js ''/w'')) (resolve_names [] (js ''/w/a/b''))
   \<and> nearest_existing guard_real [js ''w'', js ''a'', js ''b''] [js ''w'', js ''a''] (js ''/p/a'')
   \<and> (\<exists>physical. guard_real (js ''/w'') = Inr physical \<and> prefix (resolve_names [] physical) (resolve_names [] (js ''/p/a'')))"
proof -
  have check: "checkTool ''read'' read_call (guard_operation BindingBound) False [] = None"
    "physicalDecision guard_real ''read'' read_call (guard_operation BindingBound) = Inr None"
    "wo_binding (guard_operation BindingBound) = Some \<lparr>sb_sourceSessionId = js ''s'', sb_state = BindingBound, sb_updatedAt = [],
        sb_archiveLifecycle = True\<rparr>" "isAbsolute (wo_worktreePath (guard_operation BindingBound))"
    "js ''/w/a/b'' \<in> set (auditedPaths ''read'' read_call)" "wo_worktreePath (guard_operation BindingBound) = js ''/w''"
    "resolve_names [] (js ''/w/a/b'') = [js ''w'', js ''a'', js ''b'']"
    "walked_names (js ''/w/a/b'') = [js ''w'', js ''a'', js ''b'']"
    "guard_real (normalize (js ''/w/a/b'')) = Inl UnexpectedError"
    by code_simp+
  have "guard_real (path_text [js ''w'', js ''a'']) = Inr (js ''/p/a'')"
    "guard_real (path_text [js ''w'', js ''a'', js ''b'']) = Inl UnexpectedError" by code_simp+
  then have near: "nearest_existing guard_real [js ''w'', js ''a'', js ''b''] [js ''w'', js ''a''] (js ''/p/a'')"
    by (auto simp: nearest_existing_def strict_prefix_def prefix_Cons)
  have fixed: "guard_real x = Inr x \<and> isAbsolute x \<and> normalize x = x" if "x = js ''/p'' \<or> x = js ''/p/a''" for x
  proof -
    have "guard_real (js ''/p'') = Inr (js ''/p'') \<and> isAbsolute (js ''/p'') \<and> normalize (js ''/p'') = js ''/p''" by code_simp
    moreover have "guard_real (js ''/p/a'') = Inr (js ''/p/a'') \<and> isAbsolute (js ''/p/a'') \<and> normalize (js ''/p/a'') = js ''/p/a''"
      by code_simp
    ultimately show ?thesis using that by auto
  qed
  have canon: "canonical_answers guard_real"
    unfolding canonical_answers_def
  proof (intro allI impI)
    fix x r
    assume "guard_real x = Inr r"
    then have "r = js ''/p'' \<or> r = js ''/p/a''" by (auto simp: guard_real_def split: if_splits)
    then show "guard_real r = Inr r \<and> isAbsolute r \<and> normalize r = r" by (rule fixed)
  qed
  show ?thesis
    using managed_calls_stay_inside [OF check(1-4) canon check(5)] near unfolding check(6-9) by fastforce
qed

subsection \<open>Bindings and calls that are not denied\<close>

text \<open>
  A cleaned binding denies every call. One that is cleaned and archived does not: with no failed validation it
  lets messages to children, the configured delegation tools and the tool for maintenance pass, and unknown tools
  without suspicious arguments.
\<close>

theorem archived_tombstone_is_not_denied:
  "checkTool name args (op\<lparr>wo_binding := Some (b\<lparr>sb_state := BindingCleaned\<rparr>)\<rparr>) failed continuable = Some DeniedCleaned
   \<and> checkTool ''send_message'' args (op\<lparr>wo_binding := Some (b\<lparr>sb_state := BindingCleanedArchived\<rparr>)\<rparr>) False continuable = None
   \<and> checkTool ''ws'' args (op\<lparr>wo_binding := Some (b\<lparr>sb_state := BindingCleanedArchived\<rparr>)\<rparr>) False continuable = None
   \<and> checkTool ''subagent'' args (op\<lparr>wo_binding := Some (b\<lparr>sb_state := BindingCleanedArchived\<rparr>)\<rparr>) False [''subagent''] = None
   \<and> checkTool ''web_search'' (JObj []) (op\<lparr>wo_binding := Some (b\<lparr>sb_state := BindingCleanedArchived\<rparr>)\<rparr>) False continuable = None"
  by (simp add: checkTool_def TOOL_CONTRACTS_def suspicious_def has_argument_def has_def)

text \<open>
  A search that names its root under another key than the audited one, such as the directory, passes the check of
  the text, which accepts that root, while the physical check sees no path at all: it goes on whatever the locations
  are.
\<close>

theorem search_roots_may_go_unaudited:
  "checkTool ''grep'' (JObj [(js ''directory'', JStr (js ''/w/a''))]) (guard_operation BindingBound) False continuable = None
   \<and> auditedPaths ''grep'' (JObj [(js ''directory'', JStr (js ''/w/a''))]) = []
   \<and> physicalDecision real ''grep'' (JObj [(js ''directory'', JStr (js ''/w/a''))]) (guard_operation BindingBound) = Inr None"
proof -
  let ?args = "JObj [(js ''directory'', JStr (js ''/w/a''))]"
  have audited: "auditedPaths ''grep'' ?args = []" "tk_kind \<lparr>tk_kind = SearchTool, tk_pathFields = [''path'']\<rparr> = SearchTool"
    "TOOL_CONTRACTS ''grep'' = Some \<lparr>tk_kind = SearchTool, tk_pathFields = [''path'']\<rparr>"
    "firstPathOf ?args = Some (js ''/w/a'')" "check_entries (normalize (js ''/w'')) [js ''/w/a''] = None"
    by code_simp+
  then show ?thesis by (simp add: checkTool_def physicalDecision_def guard_operation_def)
qed

text \<open>
  C37: The walk to the nearest existing ancestor gives up after 200 levels, and a path it gave up on is let through:
  with a symbolic link out of the worktree, a new file 200 missing directories below the link is accepted although
  its nearest existing ancestor lies outside.
\<close>

definition deep_real :: realpaths where
  "deep_real x = (if x = js ''/w'' \<or> x = js ''/o'' then Inr x else if x = js ''/w/l'' then Inr (js ''/o'') else Inl UnexpectedError)"

definition deep_names :: "nat \<Rightarrow> path" where
  "deep_names n = [js ''w'', js ''l''] @ replicate n (js ''a'')"

lemma nearest_missing:
  assumes "resolved b" and "\<And>j. j < n \<Longrightarrow> \<exists>e. real (path_text (take (length b - j) b)) = Inl e" and "n \<le> length b"
  shows "nearest_real real root n (path_text b) tail = None"
  using assms
proof (induction n arbitrary: b tail)
  case (Suc n)
  have res: "resolved (butlast b)" using Suc.prems(1) by (auto simp: list_all_iff dest: in_set_butlastD)
  have "take (length (butlast b) - j) (butlast b) = take (length b - Suc j) b" for j by (simp add: butlast_conv_take)
  then have "nearest_real real root n (path_text (butlast b)) tail' = None" for tail'
    using Suc.IH [OF res] Suc.prems(2) [of "Suc _"] Suc.prems(3) by simp
  then show ?case using Suc.prems(2) [of 0] by (auto simp: Let_def parent_text [OF Suc.prems(1)])
qed simp

lemma deep_resolved: "resolved (deep_names n)"
  by (auto simp: deep_names_def name_ok_def js_def list_all_iff)

lemma deep_missing: "0 < m \<Longrightarrow> deep_real (path_text (deep_names m)) = Inl UnexpectedError"
proof -
  assume m: "0 < m"
  have roots: "path_text [js ''w''] = js ''/w''" "path_text [js ''o''] = js ''/o''" "path_text (deep_names 0) = js ''/w/l''"
    by code_simp+
  have "path_text (deep_names m) \<noteq> path_text p" if "resolved p" "length p \<le> 2" for p
    using path_text_inj [OF deep_resolved that(1), of m] that(2) m by (auto simp: deep_names_def)
  from this [of "[js ''w'']"] this [of "[js ''o'']"] this [of "deep_names 0"] show ?thesis
    unfolding roots by (auto simp: deep_real_def deep_resolved) (auto simp: deep_names_def name_ok_def js_def)
qed

theorem deep_paths_are_let_through:
  "canonical_answers deep_real \<and> nearest_existing deep_real (deep_names 200) [js ''w'', js ''l''] (js ''/o'')
   \<and> \<not> prefix (resolve_names [] (js ''/w'')) (resolve_names [] (js ''/o''))
   \<and> confinePath deep_real (js ''/w'') (path_text (deep_names 200)) True = Inr (Inr (path_text (deep_names 200)))"
proof (intro conjI)
  have texts: "js ''/w/l'' = path_text [js ''w'', js ''l'']" by code_simp
  have below: "\<exists>m. b = deep_names m" if "prefix b (deep_names n)" "strict_prefix [js ''w'', js ''l''] b" for b n
  proof -
    note below = that(1)
    from that(2) obtain z zs where b: "b = [js ''w'', js ''l''] @ z # zs" by (rule strict_prefixE')
    then have "prefix (z # zs) (replicate n (js ''a''))" using below by (simp add: deep_names_def)
    then have "z # zs = take (length (z # zs)) (replicate n (js ''a''))" by (metis append_eq_conv_conj prefix_def)
    then have "z # zs = replicate (min (length (z # zs)) n) (js ''a'')" by (simp only: take_replicate)
    then show ?thesis unfolding b deep_names_def by metis
  qed
  show "canonical_answers deep_real" unfolding canonical_answers_def
  proof (intro allI impI)
    fix x r
    assume "deep_real x = Inr r"
    then have "r = js ''/w'' \<or> r = js ''/o''" by (auto simp: deep_real_def split: if_splits)
    moreover have "deep_real (js ''/w'') = Inr (js ''/w'') \<and> isAbsolute (js ''/w'') \<and> normalize (js ''/w'') = js ''/w''"
      "deep_real (js ''/o'') = Inr (js ''/o'') \<and> isAbsolute (js ''/o'') \<and> normalize (js ''/o'') = js ''/o''" by code_simp+
    ultimately show "deep_real r = Inr r \<and> isAbsolute r \<and> normalize r = r" by auto
  qed
  show "nearest_existing deep_real (deep_names 200) [js ''w'', js ''l''] (js ''/o'')"
    unfolding nearest_existing_def
  proof (intro conjI allI impI)
    show "prefix [js ''w'', js ''l''] (deep_names 200)" by (simp add: deep_names_def)
    show "deep_real (path_text [js ''w'', js ''l'']) = Inr (js ''/o'')" unfolding texts [symmetric] by code_simp
    fix b
    assume b: "prefix b (deep_names 200) \<and> strict_prefix [js ''w'', js ''l''] b"
    then obtain m where m: "b = deep_names m" using below by blast
    have "0 < m" using b unfolding m by (cases m) (auto simp: deep_names_def)
    then show "\<exists>e. deep_real (path_text b) = Inl e" using deep_missing m by auto
  qed
  show "\<not> prefix (resolve_names [] (js ''/w'')) (resolve_names [] (js ''/o''))" by code_simp
  have walk: "nearest_real deep_real root 200 (path_text (deep_names 200)) [] = None" for root
  proof (rule nearest_missing [OF deep_resolved])
    fix j :: nat
    assume "j < 200"
    then have "take (length (deep_names 200) - j) (deep_names 200) = deep_names (200 - j)" "0 < 200 - j"
      by (auto simp: deep_names_def take_Cons')
    then show "\<exists>e. deep_real (path_text (take (length (deep_names 200) - j) (deep_names 200))) = Inl e"
      using deep_missing by metis
  qed (simp add: deep_names_def)
  have "resolve_names [] (js ''/w'') = [js ''w'']" "deep_real (js ''/w'') = Inr (js ''/w'')" "normalize (js ''/w'') = js ''/w''"
    by code_simp+
  moreover have "path_text (deep_names 200) \<noteq> []" by (simp add: path_text_def)
  moreover have "prefix [js ''w''] (deep_names 200)" by (simp add: deep_names_def)
  ultimately show "confinePath deep_real (js ''/w'') (path_text (deep_names 200)) True = Inr (Inr (path_text (deep_names 200)))"
    using walk deep_missing [of 200]
    by (simp add: confinePath_def Let_def inside_prefix normalize_path_text [OF deep_resolved] resolve_path_text [OF deep_resolved]
        resolveRealInside_def)
qed

end
