(* ===== verification/Spec2Isabelle.thy ===== *)
theory Spec2Isabelle
  imports CollabTheorems PetDeliveryTheorems PetRepositoryTheorems PetAdmissionTheorems PetStartupTheorems
    PetReconcileTheorems PetReconcileChildren PetExpiryTheorems PetCreationSettles CollabStoreSafety CollabSalvage
    PetReadGuard PetStopTheorems WsCalls WsGuardTheorems
begin

text \<open>
  A verification library for ohmydsh, the TypeScript monorepo of extensions around the dsh agent host.

  \<^bold>\<open>The program.\<close> The packages under \<^verbatim>\<open>packages/\<close> are independent extensions. Three of them hold most
  of the logic that decides something, rather than rendering or forwarding it. The collaboration kernel
  (\<^verbatim>\<open>packages/collab-kernel\<close>) keeps spaces in which agents work together, each an append-only log of
  commits that folds into the state of the space. The pet (\<^verbatim>\<open>packages/dsh-pet\<close>) connects chats to
  agents: an inbound message is admitted or refused, an admitted one becomes a delivery of the entry that
  serves its chat or topic, and a durable repository keeps entries, pairings, deliveries and the
  write-ahead operations of provisioning. The worktree sessions (\<^verbatim>\<open>packages/worktree-session\<close>) prepare a
  git worktree for a task, bind it to the session that works in it, keep the tools of that session inside it,
  and clean it up once its branch has landed; the record of each operation is a file of the repository.

  \<^bold>\<open>What models what.\<close>

  \<^item> \<open>Prelude\<close>: results (\<open>error + 'a\<close>) and the bind of a failing step, association lists in the order of
    JavaScript objects, UTF-16 strings with their UTF-8 length, the locales \<open>invariant_system\<close> and
    \<open>monotone_system\<close>. \<open>Paths\<close>: the path library that the guards use, and containment as the prefix order.
  \<^item> \<open>Canonical\<close>: \<^verbatim>\<open>store/canonical.ts\<close>; \<open>JsonText\<close>: UTF-8 and \<open>JSON.parse\<close> with their round trips, and
    \<open>decodeRecord\<close> from a text.
  \<^item> \<open>CollabStore\<close>: \<^verbatim>\<open>store/file-store.ts\<close>, one space of the store on a disk; \<open>CollabLines\<close>: a log is its
    lines; \<open>CollabStoreTheorems\<close>: the runs of stores over one disk with failing calls, kills and losses of
    power, and their invariant; \<open>CollabStoreSafety\<close>: small runs, and the properties; \<open>CollabSalvage\<close>:
    \<^verbatim>\<open>dsh-collab/src/salvage.ts\<close>, the offline repair, with its properties.
  \<^item> \<open>CollabModel\<close>: the types of \<^verbatim>\<open>model/index.ts\<close> and \<^verbatim>\<open>auth/index.ts\<close>; \<open>CollabReduce\<close>:
    \<^verbatim>\<open>domain/reduce.ts\<close>; \<open>CollabDomain\<close>: \<^verbatim>\<open>domain/wake.ts\<close>, \<^verbatim>\<open>domain/decide.ts\<close>, \<^verbatim>\<open>domain/items.ts\<close>.
  \<^item> \<open>CollabDecide\<close>: what each command of \<^verbatim>\<open>service/index.ts\<close> decides; \<open>CollabService\<close>: the service around
    it: queue transactions, receipts, guards, the store, dispatch and reads.
  \<^item> \<open>CollabProtocol\<close>: the abstract specification of a space, its invariant and the proof that the
    commands implement it; \<open>CollabSafety\<close>: the step relation of the service and its invariant;
    \<open>CollabRefine\<close>: each step is a protocol step; \<open>CollabHistory\<close>: what no run undoes, while the service stays
    live and, for the space that the log replays to, across closings, failures and openings.
  \<^item> \<open>CollabScenario\<close>, \<open>CollabTheorems\<close>: one concrete run, and the properties.
  \<^item> \<open>PetDelivery\<close>: \<^verbatim>\<open>locus/delivery.ts\<close> and \<^verbatim>\<open>locus/addressing.ts\<close>, the pure ledger of deliveries and
    the projection of mentions; \<open>PetDeliverySafety\<close>: its invariant and the protocol of a delivery;
    \<open>PetDeliveryTheorems\<close>: a concrete run, and the properties.
  \<^item> \<open>PetLocusRows\<close>: \<^verbatim>\<open>locus/storage-key.ts\<close>, the rows of \<^verbatim>\<open>locus/contract-v20.ts\<close> and
    \<^verbatim>\<open>locus/locus-set-v20.ts\<close>; \<open>PetDeliverySchema\<close>: the delivery schema of \<^verbatim>\<open>host/spec.ts\<close>.
  \<^item> \<open>PetRepository\<close>, \<open>PetProvisioning\<close>, \<open>PetLifecycle\<close>, \<open>PetEntries\<close>: \<^verbatim>\<open>locus/persistence-v20.ts\<close>: the
    staged overlay with its commit and the reads; provisioning; acceptance, first children and failure
    before dispatch; the durable delivery transitions, the access fence, and stop, re-enable, invalidate,
    rebuild, reset, rebind and migrate.
  \<^item> \<open>PetLocusSet\<close>: what the validator of the entry set decides; \<open>PetRepositorySafety\<close>,
    \<open>PetRepositorySteps\<close>, \<open>PetRepositoryRuns\<close>: every write keeps the set valid and takes no entry back;
    \<open>PetRepositoryReach\<close>: commits and runs; \<open>PetRepositoryEffects\<close>: what one write stored;
    \<open>PetRepositoryTheorems\<close>: a concrete run, and the properties; \<open>PetDeliveryTable\<close>: every write keeps
    the table of deliveries well-typed.
  \<^item> \<open>PetStartup\<close>: \<^verbatim>\<open>locus/startup-recovery.ts\<close>, what the log of a child proves after a restart;
    \<open>PetStartupTheorems\<close>: the logs it accepts, and the properties. \<open>PetReconcile\<close>:
    \<^verbatim>\<open>locus/reconcile.ts\<close>, the recovery pass over the repository and the reconciliation of children;
    \<open>PetReconcileSafety\<close>: what the pass does to one delivery and to all; \<open>PetReconcileTheorems\<close>,
    \<open>PetReconcileChildren\<close>: the properties.
  \<^item> \<open>PetExpiry\<close>: \<^verbatim>\<open>locus/expiry-scheduler.ts\<close> with the timer service and the dispatch lane as the steps
    around it; \<open>PetExpiryTheorems\<close>: its invariants, which deliveries its timers enforce while everything else
    writes, refuses and schedules in between, and the properties.
  \<^item> \<open>Effects\<close>: functions that return or throw and change a state, with the rules for what holds before and
    after. \<open>PetComposition\<close>: \<^verbatim>\<open>locus/composition.ts\<close>, \<^verbatim>\<open>locus/preset.ts\<close>, \<^verbatim>\<open>locus/policy-verification.ts\<close>,
    \<^verbatim>\<open>locus/serviceability.ts\<close>; \<open>PetStaging\<close>: \<^verbatim>\<open>locus/prepublication-staging.ts\<close>, \<^verbatim>\<open>locus/first-prompt.ts\<close>;
    \<open>PetChildAdapter\<close>: \<^verbatim>\<open>locus/child.ts\<close>; \<open>PetChildCreation\<close>: \<^verbatim>\<open>locus/lazy-child.ts\<close> with
    \<^verbatim>\<open>locus/agent-created.ts\<close> and \<^verbatim>\<open>locus/first-delivery-publication.ts\<close> over the repository.
  \<^item> \<open>PetCompositionTheorems\<close>, \<open>PetChildAdapterTheorems\<close>: what a composition proved, what the adapter leaves
    alone; \<open>PetCreationSafety\<close>: the phases of an entry and what each write of a creation does to them;
    \<open>PetCreationRuns\<close>, \<open>PetCreationTheorems\<close>, \<open>PetCreationSettles\<close>: the handler, the callbacks with the
    host around them, and the outcome of a whole creation.
  \<^item> \<open>PetReadGuard\<close>: \<^verbatim>\<open>locus/project-read-guard.ts\<close>, with its property. \<open>PetStop\<close>:
    \<^verbatim>\<open>locus/stop-preparation.ts\<close>, the steps of preparing a host for its shutdown; \<open>PetStopTheorems\<close>: their
    invariant, and the properties.
  \<^item> \<open>PetAdmission\<close>: \<^verbatim>\<open>locus/admission.ts\<close> and \<^verbatim>\<open>channel/event.ts\<close>; \<open>PetAdmissionTheorems\<close>: the
    properties of admission, alone and over the rows the repository has written.
  \<^item> \<open>WsRecords\<close>: \<^verbatim>\<open>wire.ts\<close>, \<^verbatim>\<open>host/errors.ts\<close>, \<^verbatim>\<open>host/process.ts\<close>, and the files and lookups of
    \<^verbatim>\<open>host/operation.ts\<close>; \<open>WsGit\<close>: \<^verbatim>\<open>host/git.ts\<close>, \<^verbatim>\<open>host/project.ts\<close>; \<open>WsOperations\<close>:
    \<^verbatim>\<open>host/operation.ts\<close>; \<open>WsMaintenance\<close>: \<^verbatim>\<open>host/maintenance.ts\<close>; \<open>WsGuard\<close>: \<^verbatim>\<open>host/containment.ts\<close>,
    \<^verbatim>\<open>host/guard.ts\<close>, \<^verbatim>\<open>host/recovery.ts\<close>, \<^verbatim>\<open>host/policy.ts\<close> and what \<^verbatim>\<open>index.ts\<close> and \<^verbatim>\<open>host/archive.ts\<close>
    do with them.
  \<^item> \<open>WsSafety\<close>, \<open>WsRuns\<close>, \<open>WsSteps\<close>: every operation behind the lock of a repository keeps the files
    well-formed and takes no record back, and every public operation is a run of such steps; \<open>WsTheorems\<close>: a small
    world, and the properties of the records; \<open>WsCalls\<close>: the commands that are issued, and what cleaning and its
    preview do; \<open>WsGuardTheorems\<close>: what the guard of a bound session lets through.

  \<^bold>\<open>How state corresponds.\<close> Every map of \<open>CollabService\<close> is keyed by the space and no operation reads
  another space's entry, so \<open>service\<close> is the slice of one space. Its serial queue runs one callback at a
  time; a callback is a transition whose arguments carry whatever was sampled before it was queued, so
  any interleaving is covered. \<open>file_store\<close> is the slice of one space too; the disk it
  writes keeps, beside the log, every earlier content that a loss of power may bring back: what was written
  since the file was last synced, and the missing file until its directory is synced. The service model asks
  of its store what \<open>commit_appends_one_or_nothing\<close> shows of this one. The state of the worktree sessions is the
  files of operations, the commands issued with their answers, and the world, which may fail at any call and stay
  failed, so a process killed in the middle of an operation is covered; what runs behind the lock of a repository is
  one step. The repository of the pet has such a
  queue as well: \<open>mutate\<close> runs a body on
  an overlay of the tables and commits it whole or not at all. The delivery ledger is a value that each
  operation returns updated. A \<open>throw\<close> or a refusal is a value of a sum type. A row that
  is a union in the source is one record whose \<open>rw_group\<close> is present for a group row; a schema
  of the validation library is the predicate that its documentation gives it.

  \<^bold>\<open>Contracts.\<close> The step relations of the service, the ledger and the repository interpret the locales of
  \<open>Prelude\<close>: each keeps an invariant, and a history only goes up. The queries that admission makes of the
  repository are \<open>getRow\<close> and \<open>findMain\<close> themselves.

  \<^bold>\<open>Parameters.\<close> The channel providers, the clock, the failure behaviour of the store, the caller's guard,
  the compensators of provisioning, the owner's archive of sessions, the replay probe, SHA-256, the logs of
  child sessions with the closers their library appends, what the host can prove, terminate or probe
  after a restart, the runtime that starts a child and runs \<open>agent/created\<close>, and, for the worktree sessions, git,
  the rest of the file system and the preparation of dependencies, environments and previews are arguments of the
  definitions. Named hypotheses say what is relied on: that \<open>realpath\<close> answers canonical paths, for the two guards;
  that a digest is a text of 16-bit code units, for the log; that an allocator of session ids answers ids no
  entry holds, as its documentation says, where an operation does not validate the whole set afterwards; and, for
  the outcome of a creation, that other writers and the host leave the entry of this creation alone meanwhile.

  \<^bold>\<open>Bounds.\<close> Integers are unbounded, with the safe-integer checks of the source written out. Recursion is
  structural, or its termination is proved (the split of a text into words, the write loop of a commit, the
  scan of a log). \<open>JSON.parse\<close> takes a bound on its depth, twice the length of the text and one, which
  \<open>fuel_enough\<close> shows to be enough; the numbers of texts are exact, and those that are not integral are refused.
  \<open>Number(text)\<close> is the exact value of a numeral; its rounding to a double is left out.

  \<^bold>\<open>Not modelled.\<close> The file system beyond the log and its lock, HTTP, the React clients and the text that is shown to people; in
  the pet, the controllers that drive the host (sessions, prompts, timers, the messaging platform) around
  the decisions modelled here, and the tables of \<^verbatim>\<open>host/spec.ts\<close> of earlier versions; in
  the worktree sessions, the table that joins identical starts in flight, the waiting for a lock and the takeover of
  a stale one, and the tool, the routes and the panel over the operations. Freezing of records
  is the identity. The other packages (usage panels, sync scripts, themes, gateways) are listed as
  components that are not modelled.
\<close>

end
